(* ===== verification/Prelude.thy ===== *)
theory Prelude
  imports Main "HOL-Library.Word" "HOL-Library.Signed_Division"
begin

section \<open>Machine types, C arithmetic and the flat memory\<close>

text \<open>
  The types and the memory every component shares.  The console is a big-endian
  32-bit machine: \<open>u8\<close>, \<open>u16\<close>, \<open>u32\<close> and \<open>u64\<close> of \<^verbatim>\<open>ultratypes.h\<close> are words of that
  width, the signed types are the same words read with \<^const>\<open>sint\<close>, and pointers are
  \<open>u32\<close>.  The memory is a function from addresses to bytes; the multi-byte accesses
  of C are \<open>load16\<close>, \<open>load32\<close>, \<open>store16\<close>, \<open>store32\<close>, and the block operations
  \<open>mem_fill\<close> and \<open>mem_copy\<close> are the library's \<^verbatim>\<open>bzero\<close> and \<^verbatim>\<open>bcopy\<close> as documented.
  The collection \<open>mem_simps\<close> holds the read-over-write equations.
\<close>

unbundle bit_operations_syntax

named_theorems mem_simps \<open>reading a memory after a write\<close>

type_synonym u8 = "8 word"
type_synonym u16 = "16 word"
type_synonym u32 = "32 word"
type_synonym u64 = "64 word"
type_synonym s8 = "8 word"
type_synonym s16 = "16 word"
type_synonym s32 = "32 word"
type_synonym s64 = "64 word"
type_synonym ptr = "32 word"
type_synonym mem = "32 word \<Rightarrow> 8 word"

abbreviation NULL :: ptr where
  "NULL \<equiv> 0"

text \<open>The size of the screen (\<^verbatim>\<open>include/macros.h\<close>) and the buttons (\<^verbatim>\<open>include/PR/os_cont.h\<close>).\<close>

definition SCREEN_WIDTH :: u32 where "SCREEN_WIDTH = 320"
definition SCREEN_HEIGHT :: u32 where "SCREEN_HEIGHT = 240"

definition A_BUTTON :: u16 where "A_BUTTON = 0x8000"
definition B_BUTTON :: u16 where "B_BUTTON = 0x4000"
definition Z_TRIG :: u16 where "Z_TRIG = 0x2000"
definition START_BUTTON :: u16 where "START_BUTTON = 0x1000"
definition U_JPAD :: u16 where "U_JPAD = 0x0800"
definition D_JPAD :: u16 where "D_JPAD = 0x0400"
definition L_JPAD :: u16 where "L_JPAD = 0x0200"
definition R_JPAD :: u16 where "R_JPAD = 0x0100"
definition L_TRIG :: u16 where "L_TRIG = 0x0020"
definition R_TRIG :: u16 where "R_TRIG = 0x0010"
definition U_CBUTTONS :: u16 where "U_CBUTTONS = 0x0008"
definition D_CBUTTONS :: u16 where "D_CBUTTONS = 0x0004"
definition L_CBUTTONS :: u16 where "L_CBUTTONS = 0x0002"
definition R_CBUTTONS :: u16 where "R_CBUTTONS = 0x0001"

lemmas button_defs = A_BUTTON_def B_BUTTON_def Z_TRIG_def START_BUTTON_def U_JPAD_def D_JPAD_def
  L_JPAD_def R_JPAD_def L_TRIG_def R_TRIG_def U_CBUTTONS_def D_CBUTTONS_def L_CBUTTONS_def R_CBUTTONS_def

subsection \<open>C arithmetic\<close>

text \<open>A \<open>bool\<close> result of a C comparison as the \<open>int\<close> the language gives it.\<close>

definition c_bool :: "bool \<Rightarrow> s32" where
  "c_bool b = (if b then 1 else 0)"

lemma c_bool_simps [simp]:
  "c_bool True = 1" "c_bool False = 0" "(c_bool b = 0) = (\<not> b)" "(c_bool b = 1) = b"
  by (auto simp: c_bool_def)

text \<open>Testing one bit.\<close>

lemma and_push_bit_1: "x AND push_bit k 1 \<noteq> 0 \<longleftrightarrow> bit x k" for x :: "'a::len word"
proof
  assume "x AND push_bit k 1 \<noteq> 0"
  then obtain i where "bit (x AND push_bit k 1) i" by (auto simp: bit_eq_iff)
  then show "bit x k" by (auto simp: bit_simps)
next
  assume "bit x k"
  then have "bit (x AND push_bit k 1) k" by (auto simp: bit_simps dest: bit_imp_le_length)
  then show "x AND push_bit k 1 \<noteq> 0" by auto
qed

text \<open>The conversions \<^verbatim>\<open>(s16)x\<close> and \<^verbatim>\<open>(u16)x\<close> of a 32-bit value, widened back.\<close>

definition sext16 :: "u32 \<Rightarrow> u32" where
  "sext16 w = scast (ucast w :: 16 word)"

definition zext16 :: "u32 \<Rightarrow> u32" where
  "zext16 w = w AND 0xFFFF"

text \<open>Signed division of C, rounding towards zero.\<close>

definition s32_div :: "s32 \<Rightarrow> s32 \<Rightarrow> s32" where
  "s32_div a b = word_of_int (sint a sdiv sint b)"

text \<open>A word below the sign bit is the same number signed and unsigned.\<close>

lemma sint_small:
  fixes w :: "'a::len word"
  assumes "unat w < 2 ^ (LENGTH('a) - 1)"
  shows "sint w = int (unat w)"
proof -
  have u: "uint w = int (unat w)" by simp
  have "uint w < 2 ^ (LENGTH('a) - 1)"
    using assms unfolding u by (metis of_nat_less_numeral_power_cancel_iff)
  moreover have "0 \<le> uint w" by simp
  ultimately have "signed_take_bit (LENGTH('a) - 1) (uint w) = uint w"
    by (intro signed_take_bit_int_eq_self) (auto intro: order_trans [of _ 0])
  then show ?thesis unfolding u by (simp add: sint_uint)
qed

lemma sdiv_int: "int x sdiv int y = int (x div y)"
  by (simp add: signed_divide_int_def zdiv_int sgn_if)

subsection \<open>Memory accesses\<close>

definition load16 :: "mem \<Rightarrow> ptr \<Rightarrow> u16" where
  "load16 m a = push_bit 8 (ucast (m a)) OR ucast (m (a + 1))"

definition store16 :: "mem \<Rightarrow> ptr \<Rightarrow> u16 \<Rightarrow> mem" where
  "store16 m a v = m(a := ucast (drop_bit 8 v), a + 1 := ucast v)"

definition load32 :: "mem \<Rightarrow> ptr \<Rightarrow> u32" where
  "load32 m a =
     push_bit 24 (ucast (m a)) OR push_bit 16 (ucast (m (a + 1))) OR
     push_bit 8 (ucast (m (a + 2))) OR ucast (m (a + 3))"

definition store32 :: "mem \<Rightarrow> ptr \<Rightarrow> u32 \<Rightarrow> mem" where
  "store32 m a v =
     m(a := ucast (drop_bit 24 v), a + 1 := ucast (drop_bit 16 v),
       a + 2 := ucast (drop_bit 8 v), a + 3 := ucast v)"

text \<open>\<open>in_block a n x\<close>: the address \<open>x\<close> lies in the \<open>n\<close> bytes from \<open>a\<close>.\<close>

definition in_block :: "ptr \<Rightarrow> nat \<Rightarrow> ptr \<Rightarrow> bool" where
  "in_block a n x \<longleftrightarrow> unat (x - a) < n"

definition mem_fill :: "mem \<Rightarrow> ptr \<Rightarrow> nat \<Rightarrow> u8 \<Rightarrow> mem" where
  "mem_fill m a n v = (\<lambda>x. if in_block a n x then v else m x)"

definition mem_copy :: "mem \<Rightarrow> (ptr \<Rightarrow> u8) \<Rightarrow> ptr \<Rightarrow> ptr \<Rightarrow> nat \<Rightarrow> mem" where
  "mem_copy m from src dst n = (\<lambda>x. if in_block dst n x then from (src + (x - dst)) else m x)"

definition aligned4 :: "ptr \<Rightarrow> bool" where
  "aligned4 a \<longleftrightarrow> a AND 3 = 0"

subsection \<open>Reading after writing\<close>

lemma word32_offsets_neq [simp]:
  fixes a :: ptr
  shows "a + 1 \<noteq> a" "a + 2 \<noteq> a" "a + 3 \<noteq> a" "a + 1 \<noteq> a + 2" "a + 1 \<noteq> a + 3" "a + 2 \<noteq> a + 3"
    "a \<noteq> a + 1" "a \<noteq> a + 2" "a \<noteq> a + 3" "a + 2 \<noteq> a + 1" "a + 3 \<noteq> a + 1" "a + 3 \<noteq> a + 2"
  by simp_all

lemma load32_store32_same [mem_simps, simp]: "load32 (store32 m a v) a = v"
proof (rule bit_word_eqI)
  fix n assume "n < LENGTH(32)"
  then consider "n < 8" | "8 \<le> n" "n < 16" | "16 \<le> n" "n < 24" | "24 \<le> n" "n < 32"
    by fastforce
  then show "bit (load32 (store32 m a v) a) n = bit v n"
    by cases (auto simp: load32_def store32_def bit_simps)
qed

lemma load16_store16_same [mem_simps, simp]: "load16 (store16 m a v) a = v"
  unfolding load16_def store16_def
  by (rule bit_word_eqI) (auto simp: bit_simps)

lemma store32_store32_same [mem_simps, simp]: "store32 (store32 m a v) a w = store32 m a w"
  unfolding store32_def by (rule ext) auto

lemma aligned4_iff: "aligned4 a \<longleftrightarrow> unat a mod 4 = 0"
proof -
  have "a AND 3 = take_bit 2 a"
    by (simp add: take_bit_eq_mask mask_eq_exp_minus_1)
  moreover have "unat (take_bit 2 a) = unat a mod 4"
    by (simp only: unsigned_take_bit_eq) (simp add: take_bit_eq_mod)
  ultimately show ?thesis
    by (metis aligned4_def unat_eq_zero)
qed

lemma unat_aligned4_add:
  assumes "aligned4 a" "unat i < 4"
  shows "unat (a + i) = unat a + unat i"
proof -
  have "unat a < 4294967296" using unsigned_less [of a, where 'a = nat] by simp
  with assms have "unat a + unat i < 2 ^ LENGTH(32)"
    unfolding aligned4_iff by (simp, presburger)
  then show ?thesis by (simp add: unat_word_ariths(1))
qed

lemma aligned4_apart:
  assumes "aligned4 a" "aligned4 b" "a \<noteq> b" "unat i < 4" "unat j < 4"
  shows "a + i \<noteq> b + j"
proof
  assume "a + i = b + j"
  then have "unat a + unat i = unat b + unat j"
    using assms by (metis unat_aligned4_add)
  with assms have "unat a = unat b"
    unfolding aligned4_iff by presburger
  with \<open>a \<noteq> b\<close> show False by (simp add: word_unat_eq_iff)
qed

lemma load32_cong:
  assumes "m a = m' a" "m (a + 1) = m' (a + 1)" "m (a + 2) = m' (a + 2)" "m (a + 3) = m' (a + 3)"
  shows "load32 m a = load32 m' a"
  using assms by (simp add: load32_def)

lemma store32_apart:
  assumes "\<And>i. unat i < 4 \<Longrightarrow> x \<noteq> a + i"
  shows "store32 m a v x = m x"
  using assms [of 0] assms [of 1] assms [of 2] assms [of 3] by (simp add: store32_def)

lemma load32_store32_other [mem_simps]:
  assumes "aligned4 a" "aligned4 b" "a \<noteq> b"
  shows "load32 (store32 m a v) b = load32 m b"
proof -
  have "store32 m a v (b + j) = m (b + j)" if "unat j < 4" for j
    using aligned4_apart [OF assms] that by (intro store32_apart) metis
  from this [of 0] this [of 1] this [of 2] this [of 3] show ?thesis
    by (intro load32_cong) simp_all
qed

lemma mem_fill_in [mem_simps]: "in_block a n x \<Longrightarrow> mem_fill m a n v x = v"
  by (simp add: mem_fill_def)

lemma mem_fill_out [mem_simps]: "\<not> in_block a n x \<Longrightarrow> mem_fill m a n v x = m x"
  by (simp add: mem_fill_def)

lemma mem_copy_in [mem_simps]: "in_block d n x \<Longrightarrow> mem_copy m f s d n x = f (s + (x - d))"
  by (simp add: mem_copy_def)

lemma mem_copy_out [mem_simps]: "\<not> in_block d n x \<Longrightarrow> mem_copy m f s d n x = m x"
  by (simp add: mem_copy_def)

lemma mem_copy_0 [simp]: "mem_copy m f s d 0 = m"
  by (rule ext) (simp add: mem_copy_def in_block_def)

lemma unat_ptr_of_nat: "n < 2 ^ 32 \<Longrightarrow> unat (of_nat n :: ptr) = n"
  by (simp add: unat_of_nat take_bit_nat_eq_self)

lemma unat_ptr_add_of_nat: "unat a + n < 2 ^ 32 \<Longrightarrow> unat (a + of_nat n :: ptr) = unat a + n"
  by (simp add: unat_word_ariths(1) unat_ptr_of_nat take_bit_nat_eq_self)

text \<open>Two adjacent blocks are one block.\<close>

lemma in_block_append:
  assumes "n + k < 2 ^ 32"
  shows "in_block a (n + k) x \<longleftrightarrow> in_block a n x \<or> in_block (a + of_nat n) k x"
    and "in_block (a + of_nat n) k x \<Longrightarrow> \<not> in_block a n x"
proof -
  define y where "y = x - a"
  have n: "unat (of_nat n :: ptr) = n"
    using assms by (simp add: unat_of_nat take_bit_nat_eq_self)
  have d: "x - (a + of_nat n) = y - of_nat n" by (simp add: y_def)
  have lt: "unat y < 2 ^ 32" using unsigned_less [of y, where 'a = nat] by simp
  have "(unat (y - of_nat n) < k) = (\<not> unat y < n \<and> unat y < n + k)"
    using assms n lt by (auto simp: unat_sub_if_size word_size)
  then show "in_block a (n + k) x \<longleftrightarrow> in_block a n x \<or> in_block (a + of_nat n) k x"
    "in_block (a + of_nat n) k x \<Longrightarrow> \<not> in_block a n x"
    by (auto simp: in_block_def d simp flip: y_def)
qed

lemma in_block_4: "in_block a 4 x \<longleftrightarrow> x = a \<or> x = a + 1 \<or> x = a + 2 \<or> x = a + 3"
proof -
  have "unat y < 4 \<longleftrightarrow> y = 0 \<or> y = 1 \<or> y = 2 \<or> y = 3" for y :: ptr
  proof
    assume "unat y < 4"
    then consider "unat y = unat (0::ptr)" | "unat y = unat (1::ptr)" | "unat y = unat (2::ptr)" |
      "unat y = unat (3::ptr)" by fastforce
    then show "y = 0 \<or> y = 1 \<or> y = 2 \<or> y = 3" by cases (simp_all only: word_unat_eq_iff, simp_all)
  qed auto
  from this [of "x - a"] show ?thesis
    unfolding in_block_def by (simp add: diff_eq_eq add.commute)
qed

lemma store32_out [mem_simps]: "\<not> in_block a 4 x \<Longrightarrow> store32 m a v x = m x"
  by (simp add: in_block_4 store32_def)

lemma load32_cong_block: "(\<And>x. in_block a 4 x \<Longrightarrow> m x = m' x) \<Longrightarrow> load32 m a = load32 m' a"
  by (intro load32_cong) (simp_all add: in_block_4)

text \<open>Two adjacent copies from adjacent sources are one copy.\<close>

lemma mem_copy_append:
  assumes "n + k < 2 ^ 32"
  shows "mem_copy (mem_copy m f s d n) f (s + of_nat n) (d + of_nat n) k = mem_copy m f s d (n + k)"
proof (rule ext)
  fix x
  have "s + of_nat n + (x - (d + of_nat n)) = s + (x - d)" by simp
  then show "mem_copy (mem_copy m f s d n) f (s + of_nat n) (d + of_nat n) k x
      = mem_copy m f s d (n + k) x"
    using in_block_append [OF assms, of d x] by (auto simp: mem_copy_def)
qed

subsection \<open>Linked lists\<close>

text \<open>\<open>chain nx a xs z\<close>: following \<open>nx\<close> from the cell \<open>a\<close> visits exactly \<open>xs\<close> and then \<open>z\<close>.\<close>

primrec chain :: "(ptr \<Rightarrow> ptr) \<Rightarrow> ptr \<Rightarrow> ptr list \<Rightarrow> ptr \<Rightarrow> bool" where
  "chain nx a [] z \<longleftrightarrow> nx a = z"
| "chain nx a (x # xs) z \<longleftrightarrow> nx a = x \<and> chain nx x xs z"

lemma chain_upd [simp]: "b \<notin> set (a # xs) \<Longrightarrow> chain (nx(b := v)) a xs z = chain nx a xs z"
  by (induction xs arbitrary: a) auto

lemma chain_append_Cons: "chain nx a (xs @ y # ys) z \<longleftrightarrow> chain nx a xs y \<and> chain nx y ys z"
  by (induction xs arbitrary: a) auto

lemma chain_next_last: "chain nx a xs z \<Longrightarrow> nx (last (a # xs)) = z"
  by (induction xs arbitrary: a) auto

lemma chain_redirect: "chain nx a xs z \<Longrightarrow> distinct (a # xs) \<Longrightarrow> chain (nx(last (a # xs) := w)) a xs w"
proof (induction xs arbitrary: a)
  case (Cons x xs)
  then have "chain (nx(last (x # xs) := w)) x xs w" by (intro Cons.IH) auto
  moreover have "last (x # xs) \<noteq> a" using Cons.prems(2) last_in_set [of "x # xs"] by auto
  ultimately show ?case using Cons.prems(1) by (auto simp: fun_upd_def)
qed simp

lemma chain_prefix: "chain nx a (ys @ zs) z \<Longrightarrow> chain nx a ys (hd (zs @ [z]))"
  by (cases zs) (simp_all add: chain_append_Cons)

lemma chain_suffix:
  "chain nx a (ys @ zs) z \<Longrightarrow> nx' t = hd (zs @ [z]) \<Longrightarrow> (\<And>x. x \<in> set zs \<Longrightarrow> nx' x = nx x) \<Longrightarrow>
    chain nx' t zs z"
proof (cases zs)
  case (Cons y zs')
  assume c: "chain nx a (ys @ zs) z" and t: "nx' t = hd (zs @ [z])"
    and e: "\<And>x. x \<in> set zs \<Longrightarrow> nx' x = nx x"
  have "chain nx' u us z = chain nx u us z" if "\<And>x. x \<in> set (u # us) \<Longrightarrow> nx' x = nx x" for u us
    using that by (induction us arbitrary: u) auto
  from this [of y zs'] c t e Cons show ?thesis by (simp add: chain_append_Cons)
qed simp

text \<open>Inserting \<open>t\<close> behind \<open>ys\<close>, by the two assignments of the code.\<close>

lemma chain_insert:
  assumes "chain nx a (ys @ zs) z" "distinct (a # ys @ zs)" "t \<notin> set (a # ys @ zs)"
  defines "b \<equiv> last (a # ys)"
  shows "chain (nx(t := nx b, b := t)) a (ys @ t # zs) z"
proof -
  have b: "b \<in> set (a # ys)" unfolding b_def by (rule last_in_set) simp
  have pre: "chain nx a ys (hd (zs @ [z]))" using assms(1) by (rule chain_prefix)
  then have nb: "nx b = hd (zs @ [z])" unfolding b_def by (rule chain_next_last)
  from pre have "chain (nx(t := nx b)) a ys (hd (zs @ [z]))" using assms(3) by auto
  then have "chain (nx(t := nx b, b := t)) a ys t"
    unfolding b_def using assms(2) by (intro chain_redirect) auto
  moreover have "chain (nx(t := nx b, b := t)) t zs z"
    using assms(2,3) b nb by (intro chain_suffix [OF assms(1)]) auto
  ultimately show ?thesis by (simp add: chain_append_Cons)
qed

text \<open>Unlinking the element behind \<open>ys\<close>.\<close>

lemma chain_unlink:
  assumes "chain nx a (ys @ t # zs) z" "distinct (a # ys @ t # zs)"
  shows "chain (nx(last (a # ys) := nx t)) a (ys @ zs) z"
proof -
  have "last (a # ys) \<in> set (a # ys)" by (rule last_in_set) simp
  then have b: "last (a # ys) \<notin> set (t # zs)" using assms(2) by force
  have pre: "chain nx a ys t" and suf: "chain nx t zs z"
    using assms(1) by (simp_all add: chain_append_Cons)
  have "chain (nx(last (a # ys) := nx t)) a ys (nx t)"
    using pre assms(2) by (intro chain_redirect) auto
  moreover have "chain (nx(last (a # ys) := nx t)) t zs z"
    using suf chain_upd [OF b] by blast
  ultimately show ?thesis by (cases zs) (auto simp: chain_append_Cons simp del: last.simps)
qed

end
