(* ===== verification/Threads.thy ===== *)
theory Threads
  imports Prelude "HOL-Library.Monad_Syntax"
begin

section \<open>Threads and thread queues of the operating system layer\<close>

text \<open>
  The thread queues of \<^verbatim>\<open>lib/ultralib/src/os\<close>: \<^verbatim>\<open>thread.c\<close>, \<^verbatim>\<open>startthread.c\<close>,
  \<^verbatim>\<open>stopthread.c\<close>, \<^verbatim>\<open>setthreadpri.c\<close>, \<^verbatim>\<open>createthread.c\<close>, \<^verbatim>\<open>destroythread.c\<close>,
  \<^verbatim>\<open>yieldthread.c\<close> and the queue primitives of \<^verbatim>\<open>exceptasm.s\<close>.  A queue is a singly
  linked list through the \<open>next\<close> word of the threads; the head of the queue is a
  memory cell whose address is the queue's name, and the code treats that cell as the
  \<open>next\<close> word of a pseudo thread, so one function \<open>k_next\<close> from addresses to
  addresses holds both.  Every queue ends in \<^verbatim>\<open>__osThreadTail\<close> (priority \<open>-1\<close>).
  A loop along a list is a \<^theory_text>\<open>partial_function\<close>, \<^const>\<open>None\<close> being a loop that
  does not end; \<open>tqueue\<close> says which list a queue holds, and the lemmas show that
  on such queues every operation returns.

  Context switches are the assignment of \<open>k_running\<close>; the register save areas are not
  modelled.  The interrupt mask is not modelled either: every operation runs between
  \<^verbatim>\<open>__osDisableInt\<close> and \<^verbatim>\<open>__osRestoreInt\<close>, hence is one atomic step.
\<close>

record kernel =
  k_next :: "ptr \<Rightarrow> ptr"      \<comment> \<open>\<^verbatim>\<open>OSThread.next\<close>, and the queue heads\<close>
  k_pri :: "ptr \<Rightarrow> int"       \<comment> \<open>\<^verbatim>\<open>OSThread.priority\<close>\<close>
  k_queue :: "ptr \<Rightarrow> ptr"     \<comment> \<open>\<^verbatim>\<open>OSThread.queue\<close>\<close>
  k_tlnext :: "ptr \<Rightarrow> ptr"    \<comment> \<open>\<^verbatim>\<open>OSThread.tlnext\<close>\<close>
  k_state :: "ptr \<Rightarrow> u16"     \<comment> \<open>\<^verbatim>\<open>OSThread.state\<close>\<close>
  k_flags :: "ptr \<Rightarrow> u16"     \<comment> \<open>\<^verbatim>\<open>OSThread.flags\<close>\<close>
  k_id :: "ptr \<Rightarrow> int"        \<comment> \<open>\<^verbatim>\<open>OSThread.id\<close>\<close>
  k_tail :: ptr               \<comment> \<open>\<^verbatim>\<open>&__osThreadTail\<close>\<close>
  k_runq :: ptr               \<comment> \<open>\<^verbatim>\<open>&__osRunQueue\<close>\<close>
  k_active :: ptr             \<comment> \<open>\<^verbatim>\<open>__osActiveQueue\<close>\<close>
  k_running :: ptr            \<comment> \<open>\<^verbatim>\<open>__osRunningThread\<close>\<close>
  k_faulted :: ptr            \<comment> \<open>\<^verbatim>\<open>__osFaultedThread\<close>\<close>

definition OS_STATE_STOPPED :: u16 where "OS_STATE_STOPPED = 1"
definition OS_STATE_RUNNABLE :: u16 where "OS_STATE_RUNNABLE = 2"
definition OS_STATE_RUNNING :: u16 where "OS_STATE_RUNNING = 4"
definition OS_STATE_WAITING :: u16 where "OS_STATE_WAITING = 8"

lemmas os_state_defs =
  OS_STATE_STOPPED_def OS_STATE_RUNNABLE_def OS_STATE_RUNNING_def OS_STATE_WAITING_def

definition set_state :: "kernel \<Rightarrow> ptr \<Rightarrow> u16 \<Rightarrow> kernel" where
  "set_state k t s = k\<lparr>k_state := (k_state k)(t := s)\<rparr>"

subsection \<open>The queue primitives\<close>

text \<open>\<^verbatim>\<open>__osEnqueueThread\<close>: \<open>enq_search\<close> is the search loop, with the registers \<^verbatim>\<open>t9\<close>
  (the predecessor) and \<^verbatim>\<open>t8\<close>; it stops at the first thread of lower priority.\<close>

partial_function (option) enq_search :: "kernel \<Rightarrow> int \<Rightarrow> ptr \<Rightarrow> ptr \<Rightarrow> ptr option" where
  "enq_search k p t9 t8 =
     (if k_pri k t8 < p then Some t9 else enq_search k p t8 (k_next k t8))"

definition osEnqueueThread :: "kernel \<Rightarrow> ptr \<Rightarrow> ptr \<Rightarrow> kernel option" where
  "osEnqueueThread k q t =
     do { t9 \<leftarrow> enq_search k (k_pri k t) q (k_next k q);
          let k1 = k\<lparr>k_next := (k_next k)(t := k_next k t9)\<rparr>;
              k2 = k1\<lparr>k_next := (k_next k1)(t9 := t)\<rparr>
          in Some (k2\<lparr>k_queue := (k_queue k2)(t := q)\<rparr>) }"

definition osPopThread :: "kernel \<Rightarrow> ptr \<Rightarrow> ptr \<times> kernel" where
  "osPopThread k q = (let v0 = k_next k q in (v0, k\<lparr>k_next := (k_next k)(q := k_next k v0)\<rparr>))"

text \<open>\<^verbatim>\<open>__osDequeueThread\<close> unlinks \<open>t\<close>, or runs off the end of the list.\<close>

partial_function (option) deq_loop :: "kernel \<Rightarrow> ptr \<Rightarrow> ptr \<Rightarrow> ptr \<Rightarrow> kernel option" where
  "deq_loop k t pred succ =
     (if succ = NULL then Some k
      else if succ = t then Some (k\<lparr>k_next := (k_next k)(pred := k_next k t)\<rparr>)
      else deq_loop k t succ (k_next k succ))"

definition osDequeueThread :: "kernel \<Rightarrow> ptr \<Rightarrow> ptr \<Rightarrow> kernel option" where
  "osDequeueThread k q t = deq_loop k t q (k_next k q)"

text \<open>\<^verbatim>\<open>__osDispatchThread\<close> and \<^verbatim>\<open>__osEnqueueAndYield\<close>; the queue may be null there.\<close>

definition osDispatchThread :: "kernel \<Rightarrow> kernel" where
  "osDispatchThread k =
     (case osPopThread k (k_runq k) of (v0, k1) \<Rightarrow>
        set_state (k1\<lparr>k_running := v0\<rparr>) v0 OS_STATE_RUNNING)"

definition osEnqueueAndYield :: "kernel \<Rightarrow> ptr \<Rightarrow> kernel option" where
  "osEnqueueAndYield k q =
     (if q = NULL then Some (osDispatchThread k)
      else do { k1 \<leftarrow> osEnqueueThread k q (k_running k); Some (osDispatchThread k1) })"

subsection \<open>The thread operations\<close>

definition yield_if_preempted :: "kernel \<Rightarrow> kernel option" where
  "yield_if_preempted k =
     (if k_pri k (k_running k) < k_pri k (k_next k (k_runq k))
      then osEnqueueAndYield (set_state k (k_running k) OS_STATE_RUNNABLE) (k_runq k)
      else Some k)"

definition osStartThread :: "kernel \<Rightarrow> ptr \<Rightarrow> kernel option" where
  "osStartThread k t =
     do { k1 \<leftarrow> (if k_state k t = OS_STATE_WAITING
                 then osEnqueueThread (set_state k t OS_STATE_RUNNABLE) (k_runq k) t
                 else if k_state k t = OS_STATE_STOPPED
                 then if k_queue k t = NULL \<or> k_queue k t = k_runq k
                      then osEnqueueThread (set_state k t OS_STATE_RUNNABLE) (k_runq k) t
                      else do { k2 \<leftarrow> osEnqueueThread (set_state k t OS_STATE_WAITING) (k_queue k t) t;
                                let (u, k3) = osPopThread k2 (k_queue k2 t)
                                in osEnqueueThread k3 (k_runq k3) u }
                 else Some k);
          if k_running k1 = NULL then Some (osDispatchThread k1)
          else yield_if_preempted k1 }"

definition osStopThread :: "kernel \<Rightarrow> ptr \<Rightarrow> kernel option" where
  "osStopThread k t =
     (let state = (if t = NULL then OS_STATE_RUNNING else k_state k t) in
      if state = OS_STATE_RUNNING
      then osEnqueueAndYield (set_state k (k_running k) OS_STATE_STOPPED) NULL
      else if state = OS_STATE_RUNNABLE \<or> state = OS_STATE_WAITING
      then osDequeueThread (set_state k t OS_STATE_STOPPED) (k_queue k t) t
      else Some k)"

definition osSetThreadPri :: "kernel \<Rightarrow> ptr \<Rightarrow> int \<Rightarrow> kernel option" where
  "osSetThreadPri k t0 p =
     (let t = (if t0 = NULL then k_running k else t0) in
      if k_pri k t \<noteq> p then
        do { let k1 = k\<lparr>k_pri := (k_pri k)(t := p)\<rparr>;
             k2 \<leftarrow> (if t \<noteq> k_running k1 \<and> k_state k1 t \<noteq> OS_STATE_STOPPED
                    then do { k3 \<leftarrow> osDequeueThread k1 (k_queue k1 t) t;
                              osEnqueueThread k3 (k_queue k3 t) t }
                    else Some k1);
             yield_if_preempted k2 }
      else Some k)"

text \<open>\<^verbatim>\<open>osCreateThread\<close>, without the register context it initialises.\<close>

definition osCreateThread :: "kernel \<Rightarrow> ptr \<Rightarrow> int \<Rightarrow> int \<Rightarrow> kernel" where
  "osCreateThread k t i p =
     (let k1 = k\<lparr>k_id := (k_id k)(t := i), k_pri := (k_pri k)(t := p),
                 k_next := (k_next k)(t := NULL), k_queue := (k_queue k)(t := NULL),
                 k_state := (k_state k)(t := OS_STATE_STOPPED),
                 k_flags := (k_flags k)(t := 0)\<rparr>
      in k1\<lparr>k_tlnext := (k_tlnext k1)(t := k_active k1), k_active := t\<rparr>)"

text \<open>The unlinking from the active list is the branch of the \<^verbatim>\<open>IDO\<close> compiler, which ends
  at the priority \<open>-1\<close> of the tail.\<close>

partial_function (option) tl_unlink :: "kernel \<Rightarrow> ptr \<Rightarrow> ptr \<Rightarrow> kernel option" where
  "tl_unlink k t pred =
     (if k_pri k pred \<noteq> -1 then
        (let succ = k_tlnext k pred in
         if succ = t then Some (k\<lparr>k_tlnext := (k_tlnext k)(pred := k_tlnext k t)\<rparr>)
         else tl_unlink k t succ)
      else Some k)"

definition osDestroyThread :: "kernel \<Rightarrow> ptr \<Rightarrow> kernel option" where
  "osDestroyThread k t0 =
     do { let t = (if t0 = NULL then k_running k else t0);
          k1 \<leftarrow> (if t0 \<noteq> NULL \<and> k_state k t \<noteq> OS_STATE_STOPPED
                 then osDequeueThread k (k_queue k t) t else Some k);
          k2 \<leftarrow> (if k_active k1 = t then Some (k1\<lparr>k_active := k_tlnext k1 (k_active k1)\<rparr>)
                 else tl_unlink k1 t (k_active k1));
          Some (if t = k_running k2 then osDispatchThread k2 else k2) }"

definition osYieldThread :: "kernel \<Rightarrow> kernel option" where
  "osYieldThread k =
     osEnqueueAndYield (set_state k (k_running k) OS_STATE_RUNNABLE) (k_runq k)"

subsection \<open>Which list a queue holds\<close>

definition by_priority :: "kernel \<Rightarrow> ptr list \<Rightarrow> bool" where
  "by_priority k xs \<longleftrightarrow> sorted_wrt (\<lambda>x y. k_pri k y \<le> k_pri k x) xs"

definition tqueue :: "kernel \<Rightarrow> ptr \<Rightarrow> ptr list \<Rightarrow> bool" where
  "tqueue k q xs \<longleftrightarrow>
     chain (k_next k) q xs (k_tail k) \<and> distinct (q # xs @ [k_tail k]) \<and>
     NULL \<notin> set (q # xs @ [k_tail k]) \<and> (\<forall>x \<in> set xs. 0 \<le> k_pri k x) \<and> by_priority k xs \<and>
     k_pri k (k_tail k) = -1 \<and> k_next k (k_tail k) = NULL"

text \<open>Where a thread of priority \<open>p\<close> enters: behind its equals, before the lower ones.\<close>

definition insert_pri :: "kernel \<Rightarrow> ptr \<Rightarrow> ptr list \<Rightarrow> ptr list" where
  "insert_pri k t xs =
     takeWhile (\<lambda>x. k_pri k t \<le> k_pri k x) xs @ t # dropWhile (\<lambda>x. k_pri k t \<le> k_pri k x) xs"

lemma set_insert_pri [simp]: "set (insert_pri k t xs) = insert t (set xs)"
proof -
  have "set (takeWhile P xs) \<union> set (dropWhile P xs) = set xs" for P
    by (metis set_append takeWhile_dropWhile_id)
  then show ?thesis by (simp add: insert_pri_def)
qed

lemma distinct_insert_pri:
  assumes "distinct xs" "t \<notin> set xs"
  shows "distinct (insert_pri k t xs)"
proof -
  have d: "distinct (ys @ t # zs)" if "ys @ zs = xs" for ys zs
    using assms that by auto
  show ?thesis unfolding insert_pri_def by (rule d) (rule takeWhile_dropWhile_id)
qed

lemma by_priority_insert_pri:
  assumes "by_priority k xs"
  shows "by_priority k (insert_pri k t xs)"
  using assms unfolding by_priority_def insert_pri_def
proof (induction xs)
  case (Cons x xs)
  then show ?case
    by (auto dest: set_takeWhileD set_dropWhileD intro: order_trans)
qed simp

subsection \<open>The queue primitives on well-formed queues\<close>

lemma tqueue_chain: "tqueue k q xs \<Longrightarrow> chain (k_next k) q xs (k_tail k)"
  by (simp add: tqueue_def)

lemma tqueue_cong:
  assumes "tqueue k q xs" "k_tail k' = k_tail k"
    and "\<And>x. x \<in> set (q # xs @ [k_tail k]) \<Longrightarrow> k_next k' x = k_next k x"
    and "\<And>x. x \<in> set (xs @ [k_tail k]) \<Longrightarrow> k_pri k' x = k_pri k x"
  shows "tqueue k' q xs"
proof -
  have "chain (k_next k') a ys z = chain (k_next k) a ys z"
    if "\<And>x. x \<in> set (a # ys) \<Longrightarrow> k_next k' x = k_next k x" for a ys z
    using that by (induction ys arbitrary: a) auto
  moreover have "by_priority k' xs = by_priority k xs"
    unfolding by_priority_def using assms(4) by (auto simp: sorted_wrt_iff_nth_less)
  ultimately show ?thesis using assms by (auto simp: tqueue_def)
qed

lemma enq_search_chain:
  assumes "chain (k_next k) a xs z" "k_pri k z < p"
  shows "enq_search k p a (k_next k a) = Some (last (a # takeWhile (\<lambda>x. p \<le> k_pri k x) xs))"
  using assms(1)
proof (induction xs arbitrary: a)
  case Nil
  with assms(2) show ?case by (subst enq_search.simps) simp
next
  case (Cons x xs)
  then show ?case by (subst enq_search.simps) auto
qed

lemma osEnqueueThread_eq:
  assumes "tqueue k q xs" "0 \<le> k_pri k t"
  defines "b \<equiv> last (q # takeWhile (\<lambda>x. k_pri k t \<le> k_pri k x) xs)"
  shows "osEnqueueThread k q t =
    Some (k\<lparr>k_next := (k_next k)(t := k_next k b, b := t), k_queue := (k_queue k)(t := q)\<rparr>)"
  using assms enq_search_chain [of k q xs "k_tail k" "k_pri k t"]
  by (simp add: osEnqueueThread_def tqueue_def Let_def)

lemma tqueue_insert:
  assumes "tqueue k q xs" "0 \<le> k_pri k t" "t \<notin> set (q # xs @ [k_tail k])" "t \<noteq> NULL"
  defines "b \<equiv> last (q # takeWhile (\<lambda>x. k_pri k t \<le> k_pri k x) xs)"
  shows "tqueue (k\<lparr>k_next := (k_next k)(t := k_next k b, b := t), k_queue := w\<rparr>) q (insert_pri k t xs)"
proof -
  let ?ys = "takeWhile (\<lambda>x. k_pri k t \<le> k_pri k x) xs"
  let ?zs = "dropWhile (\<lambda>x. k_pri k t \<le> k_pri k x) xs"
  have b: "b \<in> set (q # ?ys)" unfolding b_def by (rule last_in_set) simp
  then have bt: "b \<noteq> k_tail k" using assms(1) set_takeWhileD by (fastforce simp: tqueue_def)
  have "chain ((k_next k)(t := k_next k b, b := t)) q (insert_pri k t xs) (k_tail k)"
    unfolding b_def insert_pri_def using assms(1,3) by (intro chain_insert) (auto simp: tqueue_def)
  moreover have "distinct (insert_pri k t xs)"
    using assms(1,3) by (intro distinct_insert_pri) (auto simp: tqueue_def)
  moreover have "by_priority (k\<lparr>k_next := n, k_queue := w\<rparr>) (insert_pri k t xs)" for n
    using by_priority_insert_pri [of k xs t] assms(1) by (simp add: tqueue_def by_priority_def)
  ultimately show ?thesis
    using assms(1-4) bt by (auto simp: tqueue_def)
qed

lemma osPopThread_eq:
  assumes "tqueue k q (x # xs)"
  shows "osPopThread k q = (x, k\<lparr>k_next := (k_next k)(q := k_next k x)\<rparr>)"
  using assms by (simp add: osPopThread_def tqueue_def)

lemma tqueue_pop:
  assumes "tqueue k q (x # xs)"
  shows "tqueue (k\<lparr>k_next := (k_next k)(q := k_next k x)\<rparr>) q xs"
proof -
  have "chain ((k_next k)(last [q] := k_next k x)) q ([] @ xs) (k_tail k)"
    using assms by (intro chain_unlink) (auto simp: tqueue_def)
  then show ?thesis using assms by (auto simp: tqueue_def by_priority_def)
qed

lemma deq_loop_chain:
  assumes "chain (k_next k) a (ys @ t # zs) z" "t \<notin> set ys" "NULL \<notin> set (ys @ [t])"
  shows "deq_loop k t a (k_next k a) = Some (k\<lparr>k_next := (k_next k)(last (a # ys) := k_next k t)\<rparr>)"
  using assms by (induction ys arbitrary: a) (subst deq_loop.simps, auto)+

lemma deq_loop_not_found:
  assumes "chain (k_next k) a xs z" "k_next k z = NULL" "t \<notin> set (xs @ [z])"
    "NULL \<notin> set (xs @ [z])"
  shows "deq_loop k t a (k_next k a) = Some k"
  using assms
proof (induction xs arbitrary: a)
  case Nil
  then show ?case by (simp add: deq_loop.simps)
next
  case (Cons x xs)
  then show ?case by (subst deq_loop.simps) auto
qed

lemma osDequeueThread_eq:
  assumes "tqueue k q (ys @ t # zs)"
  shows "osDequeueThread k q t = Some (k\<lparr>k_next := (k_next k)(last (q # ys) := k_next k t)\<rparr>)"
  unfolding osDequeueThread_def
  using assms by (intro deq_loop_chain) (auto simp: tqueue_def)

lemma tqueue_unlink:
  assumes "tqueue k q (ys @ t # zs)"
  shows "tqueue (k\<lparr>k_next := (k_next k)(last (q # ys) := k_next k t)\<rparr>) q (ys @ zs)"
proof -
  have "last (q # ys) \<in> set (q # ys)" by (rule last_in_set) simp
  then have "last (q # ys) \<noteq> k_tail k" using assms by (auto simp: tqueue_def)
  moreover have "chain ((k_next k)(last (q # ys) := k_next k t)) q (ys @ zs) (k_tail k)"
    using assms by (intro chain_unlink) (auto simp: tqueue_def)
  ultimately show ?thesis
    using assms by (auto simp: tqueue_def by_priority_def sorted_wrt_append)
qed

subsection \<open>Scheduling\<close>

text \<open>
  \<open>sched_inv k xs\<close>: the run queue holds \<open>xs\<close>, and the running thread is not in it and has
  at least the priority of everything in it.
\<close>

definition sched_inv :: "kernel \<Rightarrow> ptr list \<Rightarrow> bool" where
  "sched_inv k xs \<longleftrightarrow>
     tqueue k (k_runq k) xs \<and> k_running k \<notin> set (NULL # k_runq k # xs @ [k_tail k]) \<and>
     0 \<le> k_pri k (k_running k) \<and> (\<forall>x \<in> set xs. k_pri k x \<le> k_pri k (k_running k))"

text \<open>A thread that is in no queue and may enter the queue \<open>q\<close> that holds \<open>xs\<close>.\<close>

definition may_enter :: "kernel \<Rightarrow> ptr \<Rightarrow> ptr \<Rightarrow> ptr list \<Rightarrow> bool" where
  "may_enter k t q xs \<longleftrightarrow> t \<notin> set (NULL # q # xs @ [k_tail k]) \<and> 0 \<le> k_pri k t"

lemma tqueue_set_state [simp]: "tqueue (set_state k t s) q xs = tqueue k q xs"
  by (simp add: tqueue_def set_state_def by_priority_def)

lemma set_state_sel [simp]:
  "k_next (set_state k t s) = k_next k" "k_pri (set_state k t s) = k_pri k"
  "k_tail (set_state k t s) = k_tail k" "k_runq (set_state k t s) = k_runq k"
  "k_running (set_state k t s) = k_running k" "k_queue (set_state k t s) = k_queue k"
  "k_state (set_state k t s) = (k_state k)(t := s)"
  by (simp_all add: set_state_def)

lemma osEnqueueThread_enters:
  assumes "tqueue k q xs" "may_enter k t q xs"
  shows "\<exists>k'. osEnqueueThread k q t = Some k' \<and> tqueue k' q (insert_pri k t xs) \<and>
    k_pri k' = k_pri k \<and> k_tail k' = k_tail k \<and> k_runq k' = k_runq k \<and>
    k_running k' = k_running k \<and> k_state k' = k_state k \<and> k_queue k' = (k_queue k)(t := q) \<and>
    (\<forall>a. a \<notin> set (t # q # xs) \<longrightarrow> k_next k' a = k_next k a)"
proof -
  let ?b = "last (q # takeWhile (\<lambda>x. k_pri k t \<le> k_pri k x) xs)"
  have "?b \<in> set (q # takeWhile (\<lambda>x. k_pri k t \<le> k_pri k x) xs)"
    by (rule last_in_set) simp
  then have "?b \<in> set (q # xs)" using set_takeWhileD by fastforce
  then show ?thesis
    using assms osEnqueueThread_eq [of k q xs t] tqueue_insert [of k q xs t]
    by (auto simp: may_enter_def)
qed

lemma osDispatchThread_inv:
  assumes "tqueue k (k_runq k) (x # xs)"
  shows "sched_inv (osDispatchThread k) xs" "k_running (osDispatchThread k) = x"
    "k_pri (osDispatchThread k) = k_pri k"
  using assms tqueue_pop [OF assms] osPopThread_eq [OF assms]
  by (auto simp: osDispatchThread_def sched_inv_def tqueue_def by_priority_def set_state_def)

lemma insert_pri_behind_head:
  "k_pri k t \<le> k_pri k x \<Longrightarrow> insert_pri k t (x # xs) = x # insert_pri k t xs"
  by (simp add: insert_pri_def)

lemma yield_if_preempted_inv:
  assumes q: "tqueue k (k_runq k) xs" and r: "may_enter k (k_running k) (k_runq k) xs"
  shows "\<exists>k' ys. yield_if_preempted k = Some k' \<and> sched_inv k' ys \<and> k_pri k' = k_pri k \<and>
    insert (k_running k') (set ys) = insert (k_running k) (set xs)"
proof (cases "k_pri k (k_running k) < k_pri k (k_next k (k_runq k))")
  case False
  have "k_pri k x \<le> k_pri k (k_running k)" if "x \<in> set xs" for x
  proof (cases xs)
    case (Cons y ys)
    with q that have "k_pri k x \<le> k_pri k y" "k_next k (k_runq k) = y"
      by (auto simp: tqueue_def by_priority_def)
    with False show ?thesis by simp
  qed (use that in simp)
  with q r False show ?thesis
    by (auto simp: yield_if_preempted_def sched_inv_def may_enter_def)
next
  case True
  with q r obtain x ys where xs: "xs = x # ys" and nx: "k_next k (k_runq k) = x"
    by (cases xs) (auto simp: tqueue_def may_enter_def)
  let ?k = "set_state k (k_running k) OS_STATE_RUNNABLE"
  from q r have "tqueue ?k (k_runq ?k) xs" "may_enter ?k (k_running k) (k_runq ?k) xs"
    by (simp_all add: may_enter_def)
  from osEnqueueThread_enters [OF this] obtain k1 where
    k1: "osEnqueueThread ?k (k_runq k) (k_running k) = Some k1"
      "tqueue k1 (k_runq k1) (x # insert_pri ?k (k_running k) ys)" "k_pri k1 = k_pri k"
    using True xs nx by (auto simp: insert_pri_behind_head)
  have "k_runq k \<noteq> NULL" using q by (auto simp: tqueue_def)
  with True k1 have "yield_if_preempted k = Some (osDispatchThread k1)"
    by (simp add: yield_if_preempted_def osEnqueueAndYield_def)
  with osDispatchThread_inv [OF k1(2)] k1(3) show ?thesis
    by (intro exI [of _ "osDispatchThread k1"] exI [of _ "insert_pri ?k (k_running k) ys"])
      (auto simp: xs)
qed

text \<open>
  Starting a thread that is waiting in no queue: it joins the runnable threads, none of them
  is lost, and the thread that runs afterwards has the highest priority.
\<close>

lemma osStartThread_inv:
  assumes "sched_inv k xs" "may_enter k t (k_runq k) xs" "t \<noteq> k_running k"
    "k_state k t = OS_STATE_WAITING \<or> k_state k t = OS_STATE_STOPPED \<and> k_queue k t \<in> {NULL, k_runq k}"
  shows "\<exists>k' ys. osStartThread k t = Some k' \<and> sched_inv k' ys \<and> k_pri k' = k_pri k \<and>
    insert (k_running k') (set ys) = insert (k_running k) (insert t (set xs))"
proof -
  let ?k = "set_state k t OS_STATE_RUNNABLE"
  have "tqueue ?k (k_runq ?k) xs" "may_enter ?k t (k_runq ?k) xs"
    using assms(1,2) by (simp_all add: sched_inv_def may_enter_def)
  from osEnqueueThread_enters [OF this] obtain k1 where
    k1: "osEnqueueThread ?k (k_runq k) t = Some k1" "tqueue k1 (k_runq k1) (insert_pri ?k t xs)"
      "k_pri k1 = k_pri k" "k_running k1 = k_running k" "k_tail k1 = k_tail k" "k_runq k1 = k_runq k"
    by auto
  have "may_enter k1 (k_running k1) (k_runq k1) (insert_pri ?k t xs)"
    using assms(1,3) k1(3-6) by (auto simp: sched_inv_def may_enter_def)
  from yield_if_preempted_inv [OF k1(2) this] obtain k' ys where
    "yield_if_preempted k1 = Some k'" "sched_inv k' ys" "k_pri k' = k_pri k"
    "insert (k_running k') (set ys) = insert (k_running k) (insert t (set xs))"
    using k1(3,4) by auto
  moreover have "osStartThread k t = yield_if_preempted k1"
    using assms(1,4) k1(1,4) by (auto simp: osStartThread_def os_state_defs sched_inv_def)
  ultimately show ?thesis by auto
qed

subsection \<open>Properties\<close>

text \<open>A small system to run the theorems on: the running thread \<open>0x100\<close> of priority 20, one
  runnable thread \<open>0x200\<close> of priority 10, and the threads \<open>0x300\<close> (15) and \<open>0x400\<close> (12) that
  wait in the queue \<open>0x30\<close>; the queue \<open>0x34\<close> is empty.\<close>

definition sample_kernel :: kernel where
  "sample_kernel =
     \<lparr>k_next = (\<lambda>_. 0)(0x20 := 0x200, 0x200 := 0x10, 0x30 := 0x300, 0x300 := 0x400, 0x400 := 0x10, 0x34 := 0x10),
      k_pri = (\<lambda>_. 0)(0x10 := -1, 0x100 := 20, 0x200 := 10, 0x300 := 15, 0x400 := 12),
      k_queue = (\<lambda>_. 0)(0x200 := 0x20, 0x300 := 0x30, 0x400 := 0x30), k_tlnext = (\<lambda>_. 0),
      k_state = (\<lambda>_. 1)(0x100 := 4, 0x200 := 2, 0x300 := 8, 0x400 := 8), k_flags = (\<lambda>_. 0),
      k_id = (\<lambda>_. 0), k_tail = 0x10, k_runq = 0x20, k_active = 0x100, k_running = 0x100, k_faulted = 0\<rparr>"

lemma sample_queues:
  "tqueue sample_kernel 0x20 [0x200]" "tqueue sample_kernel 0x30 [0x300, 0x400]"
  "tqueue sample_kernel 0x34 []" "sched_inv sample_kernel [0x200]"
  by (simp_all add: tqueue_def by_priority_def sched_inv_def sample_kernel_def)

text \<open>Claim C18: enqueueing a thread on a well-formed queue returns, and the queue then holds the
  same threads with the new one behind all those of its priority or higher and before all of a
  lower one; only the queue's own links change.\<close>

theorem osEnqueueThread_inserts_by_priority:
  assumes "tqueue k q xs" "may_enter k t q xs"
  shows "\<exists>k'. osEnqueueThread k q t = Some k' \<and>
    tqueue k' q (takeWhile (\<lambda>x. k_pri k t \<le> k_pri k x) xs @ t # dropWhile (\<lambda>x. k_pri k t \<le> k_pri k x) xs) \<and>
    k_queue k' t = q \<and> (\<forall>a. a \<notin> set (t # q # xs) \<longrightarrow> k_next k' a = k_next k a)"
  using osEnqueueThread_enters [OF assms] unfolding insert_pri_def by fastforce

theorem osEnqueueThread_inserts_by_priority_witness:
  "\<exists>k'. osEnqueueThread sample_kernel 0x20 0x300 = Some k' \<and> tqueue k' 0x20 [0x300, 0x200]"
proof -
  have "may_enter sample_kernel 0x300 0x20 [0x200]"
    by (simp add: may_enter_def sample_kernel_def)
  from osEnqueueThread_inserts_by_priority [OF sample_queues(1) this] show ?thesis
    by (auto simp: sample_kernel_def)
qed

text \<open>dequeueing a thread from the queue it is in returns and removes exactly that
  thread; dequeueing one that is not in the queue returns and changes nothing.\<close>

theorem osDequeueThread_removes:
  assumes "tqueue k q xs" "t \<notin> {NULL, k_tail k}"
  shows "\<exists>k'. osDequeueThread k q t = Some k' \<and> tqueue k' q (remove1 t xs) \<and> (t \<notin> set xs \<longrightarrow> k' = k)"
proof (cases "t \<in> set xs")
  case True
  then obtain ys zs where xs: "xs = ys @ t # zs" and t: "t \<notin> set ys" by (meson split_list_first)
  with assms(1) have "tqueue k q (ys @ t # zs)" by simp
  from osDequeueThread_eq [OF this] tqueue_unlink [OF this] t True show ?thesis
    by (simp add: xs remove1_append)
next
  case False
  with assms have "osDequeueThread k q t = Some k"
    unfolding osDequeueThread_def by (intro deq_loop_not_found) (auto simp: tqueue_def)
  with assms(1) False show ?thesis by (simp add: remove1_idem)
qed

theorem osDequeueThread_removes_witness:
  "\<exists>k'. osDequeueThread sample_kernel 0x30 0x400 = Some k' \<and> tqueue k' 0x30 [0x300]"
  using osDequeueThread_removes [OF sample_queues(2), of "0x400"]
  by (auto simp: sample_kernel_def)

text \<open>Claim C9: starting a thread that waits in no queue, or whose wait has ended, returns; it
  becomes runnable, no runnable thread is lost, the run queue stays well formed and the thread
  that runs afterwards has the highest priority of all of them.\<close>

theorem osStartThread_runs_highest_priority:
  assumes "sched_inv k xs" "may_enter k t (k_runq k) xs" "t \<noteq> k_running k"
    "k_state k t = OS_STATE_WAITING \<or> k_state k t = OS_STATE_STOPPED \<and> k_queue k t \<in> {NULL, k_runq k}"
  shows "\<exists>k' ys. osStartThread k t = Some k' \<and> sched_inv k' ys \<and>
    insert (k_running k') (set ys) = insert (k_running k) (insert t (set xs)) \<and>
    (\<forall>x \<in> insert (k_running k) (insert t (set xs)). k_pri k x \<le> k_pri k (k_running k'))"
proof -
  obtain k' ys where s: "osStartThread k t = Some k'" "sched_inv k' ys" "k_pri k' = k_pri k"
    "insert (k_running k') (set ys) = insert (k_running k) (insert t (set xs))"
    using osStartThread_inv [OF assms] by blast
  moreover have "k_pri k x \<le> k_pri k (k_running k')" if "x \<in> insert (k_running k') (set ys)" for x
    using that s(2,3) by (auto simp: sched_inv_def)
  ultimately show ?thesis by auto
qed

theorem osStartThread_runs_highest_priority_witness:
  "\<exists>k' ys. osStartThread sample_kernel 0x300 = Some k' \<and> sched_inv k' ys \<and>
    insert (k_running k') (set ys) = {0x100, 0x300, 0x200}"
  using osStartThread_runs_highest_priority [OF sample_queues(4), of "0x300"]
  by (auto simp: sample_kernel_def may_enter_def os_state_defs)

end
