(* ===== verification/Mesg.thy ===== *)
theory Mesg
  imports Threads
begin

section \<open>Message queues\<close>

text \<open>
  \<^verbatim>\<open>osCreateMesgQueue\<close>, \<^verbatim>\<open>osSendMesg\<close>, \<^verbatim>\<open>osJamMesg\<close>, \<^verbatim>\<open>osRecvMesg\<close> and
  \<^verbatim>\<open>osSetEventMesg\<close> of \<^verbatim>\<open>lib/ultralib/src/os\<close>.  A queue is a ring buffer with two
  thread queues, of the threads blocked on an empty and on a full queue; their heads are
  the first two words of the queue, so \<open>mq_addr\<close> and \<open>mq_addr + 4\<close> name them.

  A blocking call is a loop that parks the caller until the condition holds.  The
  functions below are one evaluation of the loop: \<open>SendParked\<close> and \<open>RecvParked\<close> say that the caller was put
  in a thread queue and another thread runs; when it is dispatched again it calls the
  function again, which is what the loop does.  The abstraction \<open>mq_list\<close> is the list
  of messages the ring holds, and the locale \<open>fifo\<close> is the interface the managers
  of the game rest on.
\<close>

record mesgq =
  mq_addr :: ptr
  validCount :: int
  mq_first :: int
  msgCount :: int
  mq_msg :: "u32 list"

definition OS_MESG_NOBLOCK :: int where "OS_MESG_NOBLOCK = 0"
definition OS_MESG_BLOCK :: int where "OS_MESG_BLOCK = 1"

lemmas os_mesg_defs = OS_MESG_NOBLOCK_def OS_MESG_BLOCK_def

definition mq_mtqueue :: "mesgq \<Rightarrow> ptr" where
  "mq_mtqueue mq = mq_addr mq"

definition mq_fullqueue :: "mesgq \<Rightarrow> ptr" where
  "mq_fullqueue mq = mq_addr mq + 4"

definition MQ_IS_EMPTY :: "mesgq \<Rightarrow> bool" where
  "MQ_IS_EMPTY mq \<longleftrightarrow> validCount mq = 0"

definition MQ_IS_FULL :: "mesgq \<Rightarrow> bool" where
  "MQ_IS_FULL mq \<longleftrightarrow> validCount mq \<ge> msgCount mq"

subsection \<open>The operations\<close>

definition osCreateMesgQueue :: "kernel \<Rightarrow> ptr \<Rightarrow> u32 list \<Rightarrow> int \<Rightarrow> kernel \<times> mesgq" where
  "osCreateMesgQueue k a buf n =
     (k\<lparr>k_next := (k_next k)(a := k_tail k, a + 4 := k_tail k)\<rparr>,
      \<lparr>mq_addr = a, validCount = 0, mq_first = 0, msgCount = n, mq_msg = buf\<rparr>)"

text \<open>The updates of the ring in the three operations.\<close>

definition mq_put :: "u32 \<Rightarrow> mesgq \<Rightarrow> mesgq" where
  "mq_put m mq =
     (let last = (mq_first mq + validCount mq) mod msgCount mq in
      mq\<lparr>mq_msg := (mq_msg mq)[nat last := m], validCount := validCount mq + 1\<rparr>)"

definition mq_jam :: "u32 \<Rightarrow> mesgq \<Rightarrow> mesgq" where
  "mq_jam m mq =
     (let f = (mq_first mq + msgCount mq - 1) mod msgCount mq in
      mq\<lparr>mq_first := f, mq_msg := (mq_msg mq)[nat f := m], validCount := validCount mq + 1\<rparr>)"

definition mq_front :: "mesgq \<Rightarrow> u32" where
  "mq_front mq = mq_msg mq ! nat (mq_first mq)"

definition mq_take :: "mesgq \<Rightarrow> mesgq" where
  "mq_take mq =
     mq\<lparr>mq_first := (mq_first mq + 1) mod msgCount mq, validCount := validCount mq - 1\<rparr>"

text \<open>Waking one thread of a thread queue, if there is one (its head is not the tail).\<close>

definition wake_one :: "kernel \<Rightarrow> ptr \<Rightarrow> kernel option" where
  "wake_one k q =
     (if k_next k (k_next k q) \<noteq> NULL
      then (let (t, k1) = osPopThread k q in osStartThread k1 t)
      else Some k)"

definition park :: "kernel \<Rightarrow> ptr \<Rightarrow> kernel option" where
  "park k q = osEnqueueAndYield (set_state k (k_running k) OS_STATE_WAITING) q"

datatype send_outcome = Sent int | SendParked

definition osSendMesg :: "kernel \<Rightarrow> mesgq \<Rightarrow> u32 \<Rightarrow> int \<Rightarrow> (send_outcome \<times> kernel \<times> mesgq) option" where
  "osSendMesg k mq m flags =
     (if MQ_IS_FULL mq then
        if flags = OS_MESG_BLOCK
        then do { k' \<leftarrow> park k (mq_fullqueue mq); Some (SendParked, k', mq) }
        else Some (Sent (-1), k, mq)
      else do { k' \<leftarrow> wake_one k (mq_mtqueue mq); Some (Sent 0, k', mq_put m mq) })"

definition osJamMesg :: "kernel \<Rightarrow> mesgq \<Rightarrow> u32 \<Rightarrow> int \<Rightarrow> (send_outcome \<times> kernel \<times> mesgq) option" where
  "osJamMesg k mq m flag =
     (if validCount mq \<ge> msgCount mq then
        if flag = OS_MESG_BLOCK
        then do { k' \<leftarrow> park k (mq_fullqueue mq); Some (SendParked, k', mq) }
        else Some (Sent (-1), k, mq)
      else do { k' \<leftarrow> wake_one k (mq_mtqueue mq); Some (Sent 0, k', mq_jam m mq) })"

text \<open>A receive returns the message as well; a caller that passes \<^verbatim>\<open>NULL\<close> drops it.\<close>

datatype recv_outcome = Received u32 | WouldBlock | RecvParked

definition osRecvMesg :: "kernel \<Rightarrow> mesgq \<Rightarrow> int \<Rightarrow> (recv_outcome \<times> kernel \<times> mesgq) option" where
  "osRecvMesg k mq flags =
     (if MQ_IS_EMPTY mq then
        if flags = OS_MESG_NOBLOCK then Some (WouldBlock, k, mq)
        else do { k' \<leftarrow> park k (mq_mtqueue mq); Some (RecvParked, k', mq) }
      else do { k' \<leftarrow> wake_one k (mq_fullqueue mq); Some (Received (mq_front mq), k', mq_take mq) })"

text \<open>The event table of \<^verbatim>\<open>osSetEventMesg\<close>: which message an interrupt posts, and where.\<close>

type_synonym event_table = "nat \<Rightarrow> ptr \<times> u32"

definition osSetEventMesg :: "event_table \<Rightarrow> nat \<Rightarrow> ptr \<Rightarrow> u32 \<Rightarrow> event_table" where
  "osSetEventMesg tab event q m = tab(event := (q, m))"

subsection \<open>The ring as a list\<close>

definition mq_wf :: "mesgq \<Rightarrow> bool" where
  "mq_wf mq \<longleftrightarrow> 0 < msgCount mq \<and> length (mq_msg mq) = nat (msgCount mq) \<and>
     0 \<le> mq_first mq \<and> mq_first mq < msgCount mq \<and> 0 \<le> validCount mq \<and> validCount mq \<le> msgCount mq"

definition mq_slot :: "mesgq \<Rightarrow> nat \<Rightarrow> nat" where
  "mq_slot mq i = nat ((mq_first mq + int i) mod msgCount mq)"

definition mq_list :: "mesgq \<Rightarrow> u32 list" where
  "mq_list mq = map (\<lambda>i. mq_msg mq ! mq_slot mq i) [0..<nat (validCount mq)]"

lemma length_mq_list [simp]: "length (mq_list mq) = nat (validCount mq)"
  by (simp add: mq_list_def)

lemma mq_slot_less: "mq_wf mq \<Longrightarrow> mq_slot mq i < length (mq_msg mq)"
  by (simp add: mq_wf_def mq_slot_def)

text \<open>Different positions below the capacity are different slots of the ring.\<close>

lemma mq_slot_inj:
  assumes "mq_wf mq" "int i < msgCount mq" "int j < msgCount mq" "mq_slot mq i = mq_slot mq j"
  shows "i = j"
proof -
  have "(mq_first mq + int i) mod msgCount mq = (mq_first mq + int j) mod msgCount mq"
    using assms by (simp add: mq_slot_def mq_wf_def eq_nat_nat_iff)
  then have "msgCount mq dvd int i - int j"
    by (simp add: mod_eq_dvd_iff)
  then have "int i mod msgCount mq = int j mod msgCount mq"
    by (simp add: mod_eq_dvd_iff)
  then show ?thesis using assms(2,3) by simp
qed

lemma mq_put_sel [simp]:
  "mq_addr (mq_put m mq) = mq_addr mq" "validCount (mq_put m mq) = validCount mq + 1"
  "mq_first (mq_put m mq) = mq_first mq" "msgCount (mq_put m mq) = msgCount mq"
  "length (mq_msg (mq_put m mq)) = length (mq_msg mq)"
  by (simp_all add: mq_put_def Let_def)

lemma mq_jam_sel [simp]:
  "mq_addr (mq_jam m mq) = mq_addr mq" "validCount (mq_jam m mq) = validCount mq + 1"
  "msgCount (mq_jam m mq) = msgCount mq" "length (mq_msg (mq_jam m mq)) = length (mq_msg mq)"
  by (simp_all add: mq_jam_def Let_def)

lemma mq_take_sel [simp]:
  "mq_addr (mq_take mq) = mq_addr mq" "validCount (mq_take mq) = validCount mq - 1"
  "msgCount (mq_take mq) = msgCount mq" "mq_msg (mq_take mq) = mq_msg mq"
  by (simp_all add: mq_take_def)

lemma mq_wf_put: "mq_wf mq \<Longrightarrow> \<not> MQ_IS_FULL mq \<Longrightarrow> mq_wf (mq_put m mq)"
  by (auto simp: mq_wf_def MQ_IS_FULL_def)

lemma mq_wf_jam: "mq_wf mq \<Longrightarrow> \<not> MQ_IS_FULL mq \<Longrightarrow> mq_wf (mq_jam m mq)"
  by (auto simp: mq_wf_def MQ_IS_FULL_def) (auto simp: mq_jam_def Let_def)

lemma mq_wf_take: "mq_wf mq \<Longrightarrow> \<not> MQ_IS_EMPTY mq \<Longrightarrow> mq_wf (mq_take mq)"
  by (auto simp: mq_wf_def MQ_IS_EMPTY_def) (auto simp: mq_take_def)

lemma mq_list_put:
  assumes "mq_wf mq" "\<not> MQ_IS_FULL mq"
  shows "mq_list (mq_put m mq) = mq_list mq @ [m]"
proof -
  let ?n = "nat (validCount mq)"
  have v: "nat (validCount mq + 1) = Suc ?n" "int ?n = validCount mq" "validCount mq < msgCount mq"
    using assms by (auto simp: mq_wf_def MQ_IS_FULL_def)
  have slot: "mq_slot (mq_put m mq) i = mq_slot mq i" for i by (simp add: mq_slot_def)
  have msg: "mq_msg (mq_put m mq) = (mq_msg mq)[mq_slot mq ?n := m]"
    using v by (simp add: mq_put_def mq_slot_def Let_def)
  have "mq_slot mq ?n \<noteq> mq_slot mq i" if "i < ?n" for i
    using that v mq_slot_inj [OF assms(1), of i ?n] by force
  then show ?thesis
    using v mq_slot_less [OF assms(1)] by (simp add: mq_list_def slot msg)
qed

lemma mq_list_jam:
  assumes "mq_wf mq" "\<not> MQ_IS_FULL mq"
  shows "mq_list (mq_jam m mq) = m # mq_list mq"
proof -
  let ?n = "nat (validCount mq)" and ?c = "nat (msgCount mq - 1)"
  have v: "nat (validCount mq + 1) = Suc ?n" "validCount mq < msgCount mq" "int ?c = msgCount mq - 1"
    using assms by (auto simp: mq_wf_def MQ_IS_FULL_def)
  have slot0: "mq_slot (mq_jam m mq) 0 = mq_slot mq ?c"
    using v by (simp add: mq_slot_def mq_jam_def Let_def add_diff_eq)
  have slotS: "mq_slot (mq_jam m mq) (Suc i) = mq_slot mq i" for i
  proof -
    have "((mq_first mq + msgCount mq - 1) mod msgCount mq + int (Suc i)) mod msgCount mq =
      (mq_first mq + int i + msgCount mq) mod msgCount mq"
      by (subst mod_add_left_eq) (simp add: algebra_simps)
    then show ?thesis by (simp add: mq_slot_def mq_jam_def Let_def)
  qed
  have msg: "mq_msg (mq_jam m mq) = (mq_msg mq)[mq_slot mq ?c := m]"
    using v by (simp add: mq_jam_def mq_slot_def Let_def add_diff_eq)
  have "mq_slot mq ?c \<noteq> mq_slot mq i" if "i < ?n" for i
    using that v mq_slot_inj [OF assms(1), of i ?c] by force
  then show ?thesis
    using v mq_slot_less [OF assms(1)]
    by (simp add: mq_list_def map_upt_Suc slot0 slotS msg del: upt_Suc)
qed

lemma mq_take_list:
  assumes "mq_wf mq" "\<not> MQ_IS_EMPTY mq"
  shows "mq_list mq = mq_front mq # mq_list (mq_take mq)"
proof -
  obtain n where n: "nat (validCount mq) = Suc n" "nat (validCount mq - 1) = n"
    using assms by (cases "nat (validCount mq)") (auto simp: mq_wf_def MQ_IS_EMPTY_def)
  have slot0: "mq_slot mq 0 = nat (mq_first mq)"
    using assms(1) by (simp add: mq_slot_def mq_wf_def)
  have slotS: "mq_slot (mq_take mq) i = mq_slot mq (Suc i)" for i
    unfolding mq_slot_def mq_take_def by (simp add: mod_add_left_eq) (simp add: algebra_simps)
  show ?thesis
    by (simp add: mq_list_def n map_upt_Suc slot0 slotS mq_front_def del: upt_Suc)
qed

subsection \<open>The interface of a first-in first-out queue\<close>

locale fifo =
  fixes wf :: "'q \<Rightarrow> bool" and full :: "'q \<Rightarrow> bool" and empty :: "'q \<Rightarrow> bool"
    and put :: "'m \<Rightarrow> 'q \<Rightarrow> 'q" and front :: "'q \<Rightarrow> 'm" and take1 :: "'q \<Rightarrow> 'q"
    and contents :: "'q \<Rightarrow> 'm list" and capacity :: "'q \<Rightarrow> nat"
  assumes wf_put: "wf q \<Longrightarrow> \<not> full q \<Longrightarrow> wf (put m q)"
    and wf_take: "wf q \<Longrightarrow> \<not> empty q \<Longrightarrow> wf (take1 q)"
    and contents_put: "wf q \<Longrightarrow> \<not> full q \<Longrightarrow> contents (put m q) = contents q @ [m]"
    and contents_take: "wf q \<Longrightarrow> \<not> empty q \<Longrightarrow> contents q = front q # contents (take1 q)"
    and empty_iff: "wf q \<Longrightarrow> empty q \<longleftrightarrow> contents q = []"
    and full_iff: "wf q \<Longrightarrow> full q \<longleftrightarrow> length (contents q) = capacity q"
    and capacity_put: "capacity (put m q) = capacity q"
begin

lemma put_all:
  assumes "wf q" "length (contents q) + length ms \<le> capacity q"
  shows "wf (fold put ms q) \<and> contents (fold put ms q) = contents q @ ms"
  using assms
proof (induction ms arbitrary: q)
  case (Cons m ms)
  then have "\<not> full q" by (auto simp: full_iff)
  with Cons show ?case by (simp add: wf_put contents_put capacity_put)
qed simp

lemma take_n:
  assumes "wf q" "n \<le> length (contents q)"
  shows "wf ((take1 ^^ n) q) \<and> contents ((take1 ^^ n) q) = drop n (contents q) \<and>
    (n < length (contents q) \<longrightarrow> front ((take1 ^^ n) q) = contents q ! n)"
  using assms(2)
proof (induction n)
  case 0
  with assms(1) show ?case
    using contents_take [OF assms(1)] empty_iff [OF assms(1)] by (metis drop_0 funpow_0 list.size(3) nat_neq_iff nth_Cons_0)
next
  case (Suc n)
  let ?q = "(take1 ^^ n) q"
  from Suc have q: "wf ?q" "contents ?q = drop n (contents q)" by simp_all
  with Suc.prems have "\<not> empty ?q" by (simp add: empty_iff)
  with q have c: "wf (take1 ?q)" "contents ?q = front ?q # contents (take1 ?q)"
    by (simp_all add: wf_take contents_take [symmetric])
  then have d: "contents (take1 ?q) = drop (Suc n) (contents q)"
    using q(2) by (metis drop_Suc list.sel(3) tl_drop)
  have "front (take1 ?q) = contents q ! Suc n" if "Suc n < length (contents q)"
    using that c(1) d contents_take [of "take1 ?q"] empty_iff [of "take1 ?q"]
    by (metis Cons_nth_drop_Suc drop_eq_Nil list.inject not_less)
  with c d show ?case by simp
qed

text \<open>What a client puts into an empty queue comes out in the order it was put.\<close>

lemma first_in_first_out:
  assumes "wf q" "empty q" "length ms \<le> capacity q" "i < length ms"
  shows "front ((take1 ^^ i) (fold put ms q)) = ms ! i"
  using assms put_all [of q ms] take_n [of "fold put ms q" i] by (auto simp: empty_iff)

end

lemma mq_full_iff: "mq_wf mq \<Longrightarrow> MQ_IS_FULL mq \<longleftrightarrow> length (mq_list mq) = nat (msgCount mq)"
  by (auto simp: mq_wf_def MQ_IS_FULL_def)

lemma mq_empty_iff: "mq_wf mq \<Longrightarrow> MQ_IS_EMPTY mq \<longleftrightarrow> mq_list mq = []"
  by (auto simp: mq_wf_def MQ_IS_EMPTY_def mq_list_def)

interpretation ring: fifo mq_wf MQ_IS_FULL MQ_IS_EMPTY mq_put mq_front mq_take mq_list "\<lambda>mq. nat (msgCount mq)"
  by unfold_locales
    (erule (1) mq_wf_put mq_wf_take mq_list_put mq_take_list | erule mq_full_iff mq_empty_iff | simp)+

subsection \<open>Blocking and waking\<close>

text \<open>A wait queue \<open>q\<close> holding \<open>ws\<close> that shares nothing with the scheduler's threads.\<close>

definition wait_queue :: "kernel \<Rightarrow> ptr \<Rightarrow> ptr list \<Rightarrow> ptr list \<Rightarrow> bool" where
  "wait_queue k q ws rs \<longleftrightarrow>
     tqueue k q ws \<and> set (q # ws) \<inter> set (k_runq k # k_running k # rs) = {} \<and>
     (\<forall>w \<in> set ws. k_state k w = OS_STATE_WAITING)"

lemma wake_one_inv:
  assumes "sched_inv k rs" "wait_queue k q ws rs"
  shows "\<exists>k' ys. wake_one k q = Some k' \<and> sched_inv k' ys \<and>
    insert (k_running k') (set ys) = insert (k_running k) (set (take 1 ws) \<union> set rs)"
proof (cases ws)
  case Nil
  with assms have "k_next k (k_next k q) = NULL"
    by (simp add: wait_queue_def tqueue_def)
  with assms Nil show ?thesis by (auto simp: wake_one_def)
next
  case (Cons t us)
  let ?k = "k\<lparr>k_next := (k_next k)(q := k_next k t)\<rparr>"
  have q: "tqueue k q (t # us)" using assms Cons by (simp add: wait_queue_def)
  then have "k_next k (k_next k q) \<noteq> NULL"
    by (cases us) (auto simp: tqueue_def)
  then have eq: "wake_one k q = osStartThread ?k t"
    by (simp add: wake_one_def osPopThread_eq [OF q])
  have dis: "q \<notin> set (k_runq k # rs)" "t \<notin> set (k_runq k # k_running k # rs)"
    "k_state k t = OS_STATE_WAITING"
    using assms(2) Cons by (auto simp: wait_queue_def)
  have qt: "q \<noteq> k_tail k" "t \<notin> {k_tail k, NULL}" "0 \<le> k_pri k t"
    using q by (auto simp: tqueue_def)
  have run: "tqueue k (k_runq k) rs" using assms(1) by (simp add: sched_inv_def)
  have "tqueue ?k (k_runq k) rs"
    by (rule tqueue_cong [OF run]) (use dis qt in auto)
  then have "sched_inv ?k rs" using assms(1) by (simp add: sched_inv_def)
  moreover have "may_enter ?k t (k_runq ?k) rs" "t \<noteq> k_running ?k" "k_state ?k t = OS_STATE_WAITING"
    using dis qt by (simp_all add: may_enter_def)
  ultimately show ?thesis
    using osStartThread_inv [of ?k rs t] Cons eq by auto
qed

lemma park_inv:
  assumes "sched_inv k (r # rs)" "wait_queue k q ws (r # rs)"
  shows "\<exists>k'. park k q = Some k' \<and> k_running k' = r \<and> sched_inv k' rs \<and>
    tqueue k' q (insert_pri k (k_running k) ws) \<and> k_state k' (k_running k) = OS_STATE_WAITING"
proof -
  let ?k = "set_state k (k_running k) OS_STATE_WAITING"
  have q: "tqueue ?k q ws" "may_enter ?k (k_running ?k) q ws"
    using assms by (auto simp: may_enter_def sched_inv_def wait_queue_def)
  from osEnqueueThread_enters [OF q] obtain k1 where k1:
    "osEnqueueThread ?k q (k_running k) = Some k1" "tqueue k1 q (insert_pri ?k (k_running k) ws)"
    "k_pri k1 = k_pri k" "k_tail k1 = k_tail k" "k_runq k1 = k_runq k"
    "k_state k1 (k_running k) = OS_STATE_WAITING"
    "\<And>a. a \<notin> set (k_running k # q # ws) \<Longrightarrow> k_next k1 a = k_next k a"
    by auto
  have run0: "tqueue k (k_runq k) (r # rs)" and cur: "k_running k \<notin> set (k_runq k # r # rs @ [k_tail k])"
    using assms(1) by (auto simp: sched_inv_def)
  have dis: "set (q # ws) \<inter> set (k_runq k # r # rs) = {}" "k_tail k \<notin> set (q # ws)"
    using assms(2) by (auto simp: wait_queue_def tqueue_def)
  have "tqueue k1 (k_runq k) (r # rs)"
  proof (rule tqueue_cong [OF run0 k1(4)])
    fix x assume "x \<in> set (k_runq k # (r # rs) @ [k_tail k])"
    then show "k_next k1 x = k_next k x" using dis cur by (intro k1(7)) auto
  qed (simp add: k1(3))
  then have run: "tqueue k1 (k_runq k1) (r # rs)" by (simp add: k1(5))
  have ins: "insert_pri ?k (k_running k) ws = insert_pri k (k_running k) ws"
    by (simp add: insert_pri_def)
  have rq: "k_runq k \<notin> set (q # insert_pri k (k_running k) ws @ [k_tail k])" "r \<noteq> k_running k"
    using dis cur run0 by (auto simp: tqueue_def)
  have eq: "osDispatchThread k1 =
      set_state (k1\<lparr>k_next := (k_next k1)(k_runq k := k_next k1 r), k_running := r\<rparr>) r OS_STATE_RUNNING"
    using osPopThread_eq [OF run] by (simp add: osDispatchThread_def k1(5))
  have "tqueue (osDispatchThread k1) q (insert_pri k (k_running k) ws)"
    using k1(2) rq k1(4) unfolding eq tqueue_set_state ins by (elim tqueue_cong) auto
  moreover have "k_state (osDispatchThread k1) (k_running k) = OS_STATE_WAITING"
    using k1(6) rq by (simp add: eq)
  moreover have "park k q = Some (osDispatchThread k1)"
    using k1(1) q by (simp add: park_def osEnqueueAndYield_def tqueue_def)
  ultimately show ?thesis using osDispatchThread_inv [OF run] by auto
qed

lemma wait_queue_empty_buffer [simp]:
  "mq_mtqueue (mq_put m mq) = mq_mtqueue mq" "mq_fullqueue (mq_put m mq) = mq_fullqueue mq"
  "mq_mtqueue (mq_take mq) = mq_mtqueue mq" "mq_fullqueue (mq_take mq) = mq_fullqueue mq"
  by (simp_all add: mq_mtqueue_def mq_fullqueue_def)

subsection \<open>Properties\<close>

text \<open>A ring of three slots at \<open>0x30\<close> that holds the messages 5 and 6, wrapped around its end.\<close>

definition sample_queue :: mesgq where
  "sample_queue = \<lparr>mq_addr = 0x30, validCount = 2, mq_first = 2, msgCount = 3, mq_msg = [6, 0, 5]\<rparr>"

lemma sample_queue_facts:
  "mq_wf sample_queue" "\<not> MQ_IS_FULL sample_queue" "mq_list sample_queue = [5, 6]"
  "mq_mtqueue sample_queue = 0x30" "mq_fullqueue sample_queue = 0x34"
  by (simp_all add: sample_queue_def mq_wf_def MQ_IS_FULL_def mq_list_def mq_slot_def
      mq_mtqueue_def mq_fullqueue_def upt_rec numeral_nat)

lemma sample_wait: "wait_queue sample_kernel 0x30 [0x300, 0x400] [0x200]"
  using sample_queues by (simp add: wait_queue_def sample_kernel_def os_state_defs)

lemma sample_wait_full: "wait_queue sample_kernel 0x34 [] [0x200]"
  using sample_queues by (simp add: wait_queue_def sample_kernel_def os_state_defs)

text \<open>Claim C10: a send to a queue with room returns 0 whether or not it may block, appends the
  message behind the ones already there, and makes the first thread blocked on the empty queue
  runnable, after which the running thread is one of the highest priority.\<close>

theorem osSendMesg_delivers:
  assumes "mq_wf mq" "\<not> MQ_IS_FULL mq" "sched_inv k rs" "wait_queue k (mq_mtqueue mq) ws rs"
  shows "\<exists>k' mq' ys. osSendMesg k mq m flags = Some (Sent 0, k', mq') \<and> mq_wf mq' \<and>
    mq_list mq' = mq_list mq @ [m] \<and> sched_inv k' ys \<and>
    insert (k_running k') (set ys) = insert (k_running k) (set (take 1 ws) \<union> set rs)"
  using wake_one_inv [OF assms(3,4)] assms(1,2) mq_wf_put mq_list_put
  by (fastforce simp: osSendMesg_def)

theorem osSendMesg_delivers_witness:
  "\<exists>k' mq' ys. osSendMesg sample_kernel sample_queue 7 OS_MESG_BLOCK = Some (Sent 0, k', mq') \<and>
    mq_list mq' = [5, 6, 7] \<and> sched_inv k' ys \<and> insert (k_running k') (set ys) = {0x100, 0x300, 0x200}"
  using osSendMesg_delivers [OF sample_queue_facts(1,2) sample_queues(4), of "[0x300, 0x400]" 7 OS_MESG_BLOCK]
  by (auto simp: sample_queue_facts sample_wait) (auto simp: sample_kernel_def)

text \<open>Claim C11: a receive from a queue that holds messages returns the oldest one, removes
  exactly that one, and makes the first thread blocked on the full queue runnable.\<close>

theorem osRecvMesg_receives:
  assumes "mq_wf mq" "mq_list mq = m # ms" "sched_inv k rs" "wait_queue k (mq_fullqueue mq) ws rs"
  shows "\<exists>k' mq' ys. osRecvMesg k mq flags = Some (Received m, k', mq') \<and> mq_wf mq' \<and>
    mq_list mq' = ms \<and> sched_inv k' ys \<and>
    insert (k_running k') (set ys) = insert (k_running k) (set (take 1 ws) \<union> set rs)"
proof -
  have e: "\<not> MQ_IS_EMPTY mq" using assms(1,2) by (simp add: mq_empty_iff)
  show ?thesis
    using wake_one_inv [OF assms(3,4)] assms(2) e mq_wf_take [OF assms(1) e] mq_take_list [OF assms(1) e]
    by (fastforce simp: osRecvMesg_def)
qed

theorem osRecvMesg_receives_witness:
  "\<exists>k' mq' ys. osRecvMesg sample_kernel sample_queue OS_MESG_BLOCK = Some (Received 5, k', mq') \<and>
    mq_list mq' = [6] \<and> sched_inv k' ys"
  using osRecvMesg_receives [OF sample_queue_facts(1,3) sample_queues(4), of "[]" OS_MESG_BLOCK]
  by (auto simp: sample_queue_facts sample_wait_full)

text \<open>a blocking receive on an empty queue parks the caller, in the waiting state, in
  the queue's thread queue at the place its priority gives it, and the highest-priority runnable
  thread runs; a non-blocking one changes nothing and says that it would block.\<close>

theorem osRecvMesg_empty_parks:
  assumes "MQ_IS_EMPTY mq" "sched_inv k (r # rs)" "wait_queue k (mq_mtqueue mq) ws (r # rs)"
  shows "\<exists>k'. osRecvMesg k mq OS_MESG_BLOCK = Some (RecvParked, k', mq) \<and> k_running k' = r \<and>
      sched_inv k' rs \<and> tqueue k' (mq_mtqueue mq) (insert_pri k (k_running k) ws) \<and>
      k_state k' (k_running k) = OS_STATE_WAITING \<and>
      osRecvMesg k mq OS_MESG_NOBLOCK = Some (WouldBlock, k, mq)"
  using park_inv [OF assms(2,3)] assms(1)
  by (auto simp: osRecvMesg_def os_mesg_defs)

theorem osRecvMesg_empty_parks_witness:
  "\<exists>k'. osRecvMesg sample_kernel (snd (osCreateMesgQueue sample_kernel 0x30 [0, 0] 2)) OS_MESG_BLOCK =
      Some (RecvParked, k', snd (osCreateMesgQueue sample_kernel 0x30 [0, 0] 2)) \<and>
    k_running k' = 0x200 \<and> tqueue k' 0x30 [0x100, 0x300, 0x400]"
proof -
  let ?q = "snd (osCreateMesgQueue sample_kernel 0x30 [0, 0] 2)"
  have "MQ_IS_EMPTY ?q" "wait_queue sample_kernel (mq_mtqueue ?q) [0x300, 0x400] [0x200]"
    using sample_wait by (simp_all add: osCreateMesgQueue_def MQ_IS_EMPTY_def mq_mtqueue_def)
  from osRecvMesg_empty_parks [OF this(1) sample_queues(4) this(2)] show ?thesis
    by (auto simp: osCreateMesgQueue_def mq_mtqueue_def insert_pri_def sample_kernel_def)
qed

text \<open>Claim C12: up to a full ring of messages sent to an empty queue are received in the order
  they were sent.\<close>

theorem mesg_first_in_first_out:
  assumes "mq_wf mq" "MQ_IS_EMPTY mq" "length ms \<le> nat (msgCount mq)" "i < length ms"
  shows "mq_front ((mq_take ^^ i) (fold mq_put ms mq)) = ms ! i"
  using assms by (rule ring.first_in_first_out)

theorem mesg_first_in_first_out_witness:
  "mq_front ((mq_take ^^ 1) (fold mq_put [8, 9] (mq_take (mq_take sample_queue)))) = ([8, 9] :: u32 list) ! 1"
  by (rule mesg_first_in_first_out)
    (simp_all add: sample_queue_def mq_take_def mq_wf_def MQ_IS_EMPTY_def)

text \<open>a jam puts the message in front of the ones already there, and the next receive
  takes it first.\<close>

theorem osJamMesg_jumps_the_queue:
  assumes "mq_wf mq" "\<not> MQ_IS_FULL mq" "sched_inv k rs" "wait_queue k (mq_mtqueue mq) ws rs"
  shows "\<exists>k' mq'. osJamMesg k mq m flag = Some (Sent 0, k', mq') \<and> mq_wf mq' \<and>
    mq_list mq' = m # mq_list mq \<and> mq_front mq' = m"
proof -
  obtain k' where "wake_one k (mq_mtqueue mq) = Some k'" using wake_one_inv [OF assms(3,4)] by auto
  moreover have "mq_front (mq_jam m mq) = m"
    using mq_take_list [OF mq_wf_jam [OF assms(1,2)], of m] mq_list_jam [OF assms(1,2), of m] assms(1)
    by (simp add: mq_empty_iff mq_wf_jam assms MQ_IS_EMPTY_def mq_wf_def)
  ultimately show ?thesis
    using assms(2) mq_wf_jam [OF assms(1,2)] mq_list_jam [OF assms(1,2)]
    by (auto simp: osJamMesg_def MQ_IS_FULL_def)
qed

theorem osJamMesg_jumps_the_queue_witness:
  "\<exists>k' mq'. osJamMesg sample_kernel sample_queue 7 OS_MESG_NOBLOCK = Some (Sent 0, k', mq') \<and>
    mq_list mq' = [7, 5, 6] \<and> mq_front mq' = 7"
  using osJamMesg_jumps_the_queue
    [OF sample_queue_facts(1,2) sample_queues(4), of "[0x300, 0x400]" 7 OS_MESG_NOBLOCK]
  by (auto simp: sample_queue_facts sample_wait)

end
