(* ===== verification/Registry.thy ===== *)
theory Registry
  imports Prelude
begin

section \<open>The name registry\<close>

text \<open>
  \<^verbatim>\<open>src/main/7EFD0.c\<close>: a table of 100 pairs of a value and the string that names it, with the
  number of pairs in use.  A string pointer is the string it points to.
\<close>

record registry =
  D_800A9A50 :: int                         \<comment> \<open>the number of entries in use\<close>
  D_8010ED90 :: "(s32 \<times> string) list"        \<comment> \<open>100 entries\<close>

definition func_8007E3D0 :: "registry \<Rightarrow> s32 \<Rightarrow> string \<Rightarrow> registry" where
  "func_8007E3D0 r arg0 arg1 =
     (if D_800A9A50 r < 100
      then r\<lparr>D_8010ED90 := (D_8010ED90 r)[nat (D_800A9A50 r) := (arg0, arg1)],
             D_800A9A50 := D_800A9A50 r + 1\<rparr>
      else r)"

function registry_scan :: "registry \<Rightarrow> s32 \<Rightarrow> int \<Rightarrow> string" where
  "registry_scan r arg0 i =
     (if i < D_800A9A50 r
      then if fst (D_8010ED90 r ! nat i) = arg0 then snd (D_8010ED90 r ! nat i)
           else registry_scan r arg0 (i + 1)
      else ''???'')"
  by pat_completeness auto
termination
  by (relation "measure (\<lambda>(r, _, i). nat (D_800A9A50 r - i))") auto

declare registry_scan.simps [simp del]

definition func_8007E40C :: "registry \<Rightarrow> s32 \<Rightarrow> string" where
  "func_8007E40C r arg0 = registry_scan r arg0 0"

definition func_8007E458 :: "registry \<Rightarrow> registry" where
  "func_8007E458 r = r\<lparr>D_800A9A50 := 0\<rparr>"

subsection \<open>The registry as an association list\<close>

definition registry_wf :: "registry \<Rightarrow> bool" where
  "registry_wf r \<longleftrightarrow> length (D_8010ED90 r) = 100 \<and> 0 \<le> D_800A9A50 r \<and> D_800A9A50 r \<le> 100"

definition registry_entries :: "registry \<Rightarrow> (s32 \<times> string) list" where
  "registry_entries r = take (nat (D_800A9A50 r)) (D_8010ED90 r)"

definition name_in :: "(s32 \<times> string) list \<Rightarrow> s32 \<Rightarrow> string" where
  "name_in es k = (case map_of es k of Some s \<Rightarrow> s | None \<Rightarrow> ''???'')"

lemma name_in_Cons: "name_in ((k, s) # es) k' = (if k = k' then s else name_in es k')"
  by (simp add: name_in_def)

lemma registry_scan_eq:
  assumes "registry_wf r" "0 \<le> i"
  shows "registry_scan r k i = name_in (drop (nat i) (registry_entries r)) k"
  using assms
proof (induction r k i rule: registry_scan.induct)
  case (1 r k i)
  show ?case
  proof (cases "i < D_800A9A50 r")
    case True
    with "1.prems" have n: "nat i < length (registry_entries r)" "Suc (nat i) = nat (i + 1)"
      by (auto simp: registry_wf_def registry_entries_def)
    with True "1.prems" have e: "registry_entries r ! nat i = D_8010ED90 r ! nat i"
      by (simp add: registry_entries_def)
    show ?thesis
      using True "1.IH" "1.prems" n e Cons_nth_drop_Suc [OF n(1), symmetric]
      by (subst registry_scan.simps) (cases "D_8010ED90 r ! nat i", simp add: name_in_Cons)
  next
    case False
    with "1.prems" show ?thesis
      by (subst registry_scan.simps) (simp add: registry_entries_def name_in_def)
  qed
qed

lemma registry_wf_add: "registry_wf r \<Longrightarrow> registry_wf (func_8007E3D0 r k s)"
  by (auto simp: registry_wf_def func_8007E3D0_def)

lemma registry_entries_add:
  assumes "registry_wf r"
  shows "registry_entries (func_8007E3D0 r k s) =
    (if D_800A9A50 r < 100 then registry_entries r @ [(k, s)] else registry_entries r)"
proof (cases "D_800A9A50 r < 100")
  case True
  with assms have "nat (D_800A9A50 r + 1) = Suc (nat (D_800A9A50 r))" "nat (D_800A9A50 r) < length (D_8010ED90 r)"
    by (auto simp: registry_wf_def)
  with True show ?thesis
    by (simp add: func_8007E3D0_def registry_entries_def take_Suc_conv_app_nth)
qed (simp add: func_8007E3D0_def)

subsection \<open>Properties\<close>

text \<open>Claim C32: looking a value up finds the name it was registered with first; a value that is
  already registered keeps its name, and a new one gets the given name unless the table is full,
  when the table does not change; after a reset every lookup gives the default name.\<close>

theorem registry_refines_first_binding:
  assumes "registry_wf r"
  shows "func_8007E40C r k = name_in (registry_entries r) k \<and>
    func_8007E40C (func_8007E3D0 r k' s) k =
      (if k = k' \<and> k \<notin> fst ` set (registry_entries r) \<and> D_800A9A50 r < 100 then s
       else func_8007E40C r k) \<and>
    func_8007E40C (func_8007E458 r) k = ''???'' \<and> registry_wf (func_8007E3D0 r k' s)"
proof -
  have look: "func_8007E40C q k = name_in (registry_entries q) k" if "registry_wf q" for q
    using registry_scan_eq [OF that, of 0] by (simp add: func_8007E40C_def)
  have "registry_wf (func_8007E458 r)" using assms by (simp add: registry_wf_def func_8007E458_def)
  then have "func_8007E40C (func_8007E458 r) k = ''???''"
    by (simp add: look registry_entries_def func_8007E458_def name_in_def)
  moreover have app: "name_in (es @ [(k', s)]) k =
      (if k = k' \<and> k \<notin> fst ` set es then s else name_in es k)" for es
    by (induction es) (auto simp: name_in_def)
  moreover have "func_8007E40C (func_8007E3D0 r k' s) k =
      (if D_800A9A50 r < 100 then name_in (registry_entries r @ [(k', s)]) k else name_in (registry_entries r) k)"
    using assms by (simp add: look registry_wf_add registry_entries_add)
  ultimately show ?thesis
    unfolding app using assms look [OF assms]
    by (cases "k = k'"; cases "D_800A9A50 r < 100"; simp add: registry_wf_add)
qed

theorem registry_refines_first_binding_witness:
  "func_8007E40C (func_8007E3D0 \<lparr>D_800A9A50 = 1, D_8010ED90 = replicate 100 (5, ''five'')\<rparr> 6 ''six'') 6 = ''six''"
proof -
  have "registry_wf \<lparr>D_800A9A50 = 1, D_8010ED90 = replicate 100 (5, ''five'')\<rparr>"
    by (simp add: registry_wf_def)
  from registry_refines_first_binding [OF this, of 6 6 "''six''"] show ?thesis
    by (simp add: registry_entries_def)
qed

end
