(* ===== verification/Pad.thy ===== *)
theory Pad
  imports Prelude
begin

section \<open>Controller pads\<close>

text \<open>
  \<^verbatim>\<open>src/main/O2/pad.c\<close> and \<^verbatim>\<open>include/pad.h\<close>: the input of one controller, with the current and
  the previous sample, the change since the last frame and the adjusted stick; and
  \<^verbatim>\<open>src/main/O2/padsetup.c\<close>, which finds the controllers, with the functions of
  \<^verbatim>\<open>lib/ultralib/src/io/controller.c\<close> it calls.  The bytes the serial interface delivers
  are a parameter.
\<close>

record OSContPad =
  button :: u16
  stick_x :: s8
  stick_y :: s8
  pad_errno :: u8

record Input =
  cur :: OSContPad
  prev :: OSContPad
  press :: OSContPad
  rel :: OSContPad

definition zero_pad :: OSContPad where
  "zero_pad = \<lparr>button = 0, stick_x = 0, stick_y = 0, pad_errno = 0\<rparr>"

definition pad_init :: "Input \<Rightarrow> Input" where
  "pad_init input = \<lparr>cur = zero_pad, prev = zero_pad, press = zero_pad, rel = zero_pad\<rparr>"

definition pad_flush :: "Input \<Rightarrow> Input" where
  "pad_flush input =
     input\<lparr>press := (press input)\<lparr>button := 0, stick_x := 0, stick_y := 0\<rparr>,
           rel := (rel input)\<lparr>button := 0\<rparr>\<rparr>"

definition pad_push_only :: "Input \<Rightarrow> u16 \<Rightarrow> bool" where
  "pad_push_only input value \<longleftrightarrow> value = button (cur input)"

definition pad_push_also :: "Input \<Rightarrow> u16 \<Rightarrow> bool" where
  "pad_push_also input key \<longleftrightarrow> key = button (cur input) AND key"

definition pad_on_trigger :: "Input \<Rightarrow> u16 \<Rightarrow> bool" where
  "pad_on_trigger input key \<longleftrightarrow> key = button (press input) AND key"

definition pad_off_trigger :: "Input \<Rightarrow> u16 \<Rightarrow> bool" where
  "pad_off_trigger input key \<longleftrightarrow> key = button (rel input) AND key"

definition pad_button :: "Input \<Rightarrow> u16" where
  "pad_button input = button (cur input)"

definition pad_trigger :: "Input \<Rightarrow> u16" where
  "pad_trigger input = button (press input)"

definition pad_physical_stick_x :: "Input \<Rightarrow> s8" where
  "pad_physical_stick_x input = stick_x (cur input)"

definition pad_physical_stick_y :: "Input \<Rightarrow> s8" where
  "pad_physical_stick_y input = stick_y (cur input)"

text \<open>The stick values are \<^verbatim>\<open>s32\<close> arguments stored in \<^verbatim>\<open>s8\<close> fields.\<close>

definition pad_set_logical_stick :: "Input \<Rightarrow> int \<Rightarrow> int \<Rightarrow> Input" where
  "pad_set_logical_stick input x y =
     input\<lparr>rel := (rel input)\<lparr>stick_x := word_of_int x, stick_y := word_of_int y\<rparr>\<rparr>"

definition pad_logical_stick_x :: "Input \<Rightarrow> s8" where
  "pad_logical_stick_x input = stick_x (rel input)"

definition pad_logical_stick_y :: "Input \<Rightarrow> s8" where
  "pad_logical_stick_y input = stick_y (rel input)"

definition pad_stick_x :: "Input \<Rightarrow> s8" where
  "pad_stick_x input = pad_logical_stick_x input"

definition pad_stick_y :: "Input \<Rightarrow> s8" where
  "pad_stick_y input = pad_logical_stick_y input"

definition pad_press_stick_x :: "Input \<Rightarrow> s8" where
  "pad_press_stick_x input = stick_x (press input)"

definition pad_press_stick_y :: "Input \<Rightarrow> s8" where
  "pad_press_stick_y input = stick_y (press input)"

definition pad_correct_stick :: "Input \<Rightarrow> Input" where
  "pad_correct_stick input =
     (let curX = sint (pad_physical_stick_x input);
          curY = sint (pad_physical_stick_y input);
          relX = (if curX > 7 then if curX < 0x43 then curX - 7 else 0x43 - 7
                  else if curX < -7 then if curX > -0x43 then curX + 7 else -0x43 + 7
                  else 0);
          relY = (if curY > 7 then if curY < 0x43 then curY - 7 else 0x43 - 7
                  else if curY < -7 then if curY > -0x43 then curY + 7 else -0x43 + 7
                  else 0)
      in pad_set_logical_stick input relX relY)"

subsection \<open>Finding the controllers\<close>

record cont_reply =                  \<comment> \<open>\<^verbatim>\<open>__OSContRequesFormat\<close> of one channel\<close>
  rxsize :: u8
  typeh :: u8
  typel :: u8
  r_status :: u8

record OSContStatus =
  cs_type :: u16
  cs_status :: u8
  cs_errno :: u8

record cont_state =
  osContinitialized :: bool          \<comment> \<open>\<^verbatim>\<open>__osContinitialized\<close>\<close>
  osMaxControllers :: nat            \<comment> \<open>\<^verbatim>\<open>__osMaxControllers\<close>\<close>

text \<open>\<^verbatim>\<open>CHNL_ERR\<close>: the error bits of the reply size.\<close>

definition CHNL_ERR :: "cont_reply \<Rightarrow> u8" where
  "CHNL_ERR r = drop_bit 4 (rxsize r AND 0xC0)"

text \<open>\<^verbatim>\<open>__osContGetInitData\<close>: the loop over the replies and the entries of \<^verbatim>\<open>data\<close>.\<close>

fun init_data_loop :: "nat \<Rightarrow> nat \<Rightarrow> cont_reply list \<Rightarrow> OSContStatus list \<Rightarrow> u8 \<Rightarrow> u8 \<times> OSContStatus list" where
  "init_data_loop n i (r # rs) (d # ds) bits =
     (if i < n then
        let d1 = d\<lparr>cs_errno := CHNL_ERR r\<rparr> in
        if cs_errno d1 \<noteq> 0
        then (case init_data_loop n (Suc i) rs ds bits of (b, ds') \<Rightarrow> (b, d1 # ds'))
        else let d2 = d1\<lparr>cs_type := push_bit 8 (ucast (typel r)) OR ucast (typeh r), cs_status := r_status r\<rparr>
             in (case init_data_loop n (Suc i) rs ds (bits OR push_bit i 1) of (b, ds') \<Rightarrow> (b, d2 # ds'))
      else (bits, d # ds))"
| "init_data_loop n i rs ds bits = (bits, ds)"

definition osContGetInitData :: "cont_state \<Rightarrow> cont_reply list \<Rightarrow> OSContStatus list \<Rightarrow> u8 \<times> OSContStatus list" where
  "osContGetInitData st rs ds = init_data_loop (osMaxControllers st) 0 rs ds 0"

text \<open>\<^verbatim>\<open>osContInit\<close>, without the half-second wait at its start; \<open>si\<close> is the result of the last
  serial transfer and \<open>rs\<close> the replies it left in the buffer.\<close>

definition osContInit ::
  "cont_state \<Rightarrow> s32 \<Rightarrow> cont_reply list \<Rightarrow> u8 \<Rightarrow> OSContStatus list \<Rightarrow> s32 \<times> u8 \<times> OSContStatus list \<times> cont_state" where
  "osContInit st si rs bits ds =
     (if osContinitialized st then (0, bits, ds, st)
      else let st' = st\<lparr>osContinitialized := True, osMaxControllers := 4\<rparr>;
               (b, ds') = osContGetInitData st' rs ds
           in (si, b, ds', st'))"

definition CONT_TYPE_NORMAL :: u16 where "CONT_TYPE_NORMAL = 5"

text \<open>The loop of \<^verbatim>\<open>PadSetup_Init\<close> over the statuses, from channel \<open>i\<close>.\<close>

fun normal_mask :: "nat \<Rightarrow> OSContStatus list \<Rightarrow> u8 \<Rightarrow> u8" where
  "normal_mask i [] m = m"
| "normal_mask i (s # ss) m =
     (if i < 4
      then normal_mask (Suc i) ss
             (if cs_errno s = 0 \<and> cs_type s = CONT_TYPE_NORMAL then m OR push_bit i 1 else m)
      else m)"

text \<open>\<open>q\<close> is the result of \<^verbatim>\<open>osContStartQuery\<close> and \<open>rs2\<close> the replies to that query.\<close>

definition PadSetup_Init ::
  "cont_state \<Rightarrow> s32 \<Rightarrow> cont_reply list \<Rightarrow> s32 \<Rightarrow> cont_reply list \<Rightarrow> OSContStatus list \<Rightarrow>
     s32 \<times> u8 \<times> OSContStatus list \<times> cont_state" where
  "PadSetup_Init st si rs q rs2 status =
     (case osContInit st si rs 0xFF status of (ret, outMask, status1, st1) \<Rightarrow>
        if ret \<noteq> 0 then (ret, outMask, status1, st1)
        else if outMask = 0xFF then
          if q \<noteq> 0 then (1, outMask, status1, st1)
          else (case osContGetInitData st1 rs2 status1 of (_, status2) \<Rightarrow>
                  (0, normal_mask 0 status2 0, status2, st1))
        else (0, outMask, status1, st1))"

subsection \<open>Properties\<close>

text \<open>The correction of one axis, as a function of the signed stick value.\<close>

definition stick_axis :: "int \<Rightarrow> int" where
  "stick_axis c = (if c > 7 then min c 0x43 - 7 else if c < -7 then max c (-0x43) + 7 else 0)"

lemma stick_axis_range: "-60 \<le> stick_axis c \<and> stick_axis c \<le> 60"
  by (auto simp: stick_axis_def min_def max_def)

lemma sint_s8_of_int: "-128 \<le> i \<Longrightarrow> i < 128 \<Longrightarrow> sint (word_of_int i :: s8) = i"
  by (simp add: sint_sbintrunc' signed_take_bit_int_eq_self)

lemma pad_correct_stick_axes:
  "sint (pad_stick_x (pad_correct_stick input)) = stick_axis (sint (stick_x (cur input))) \<and>
   sint (pad_stick_y (pad_correct_stick input)) = stick_axis (sint (stick_y (cur input)))"
proof -
  have "(if c > 7 then if c < 0x43 then c - 7 else 0x43 - 7
      else if c < -7 then if c > -0x43 then c + 7 else -0x43 + 7 else 0) = stick_axis c" for c :: int
    by (auto simp: stick_axis_def min_def max_def)
  then have "pad_correct_stick input = pad_set_logical_stick input
      (stick_axis (sint (stick_x (cur input)))) (stick_axis (sint (stick_y (cur input))))"
    unfolding pad_correct_stick_def Let_def pad_physical_stick_x_def pad_physical_stick_y_def by simp
  moreover have "sint (word_of_int (stick_axis c) :: s8) = stick_axis c" for c
    using stick_axis_range [of c] by (intro sint_s8_of_int) auto
  ultimately show ?thesis
    by (simp add: pad_set_logical_stick_def pad_stick_x_def pad_stick_y_def
        pad_logical_stick_x_def pad_logical_stick_y_def)
qed

text \<open>Claim C33: on each axis the corrected stick is 0 exactly in the dead zone of 7 units, lies in
  \<open>[-60, 60]\<close> so that it is stored without wrapping, keeps the sign of the physical stick, and
  never decreases when the physical stick increases; nothing but the adjusted stick changes.\<close>

theorem pad_correct_stick_dead_zone_and_range:
  fixes input input2 :: Input
  defines "c \<equiv> sint (stick_x (cur input))" and "s \<equiv> sint (pad_stick_x (pad_correct_stick input))"
    and "c2 \<equiv> sint (stick_x (cur input2))" and "s2 \<equiv> sint (pad_stick_x (pad_correct_stick input2))"
  shows "(s = 0 \<longleftrightarrow> \<bar>c\<bar> \<le> 7) \<and> \<bar>s\<bar> \<le> 60 \<and> (s \<noteq> 0 \<longrightarrow> sgn s = sgn c) \<and> (c \<le> c2 \<longrightarrow> s \<le> s2) \<and>
    sint (pad_stick_y (pad_correct_stick input)) = stick_axis (sint (stick_y (cur input))) \<and>
    cur (pad_correct_stick input) = cur input \<and> press (pad_correct_stick input) = press input \<and>
    button (rel (pad_correct_stick input)) = button (rel input)"
proof -
  have s: "s = stick_axis c" "s2 = stick_axis c2"
    using pad_correct_stick_axes by (auto simp: s_def s2_def c_def c2_def)
  have "cur (pad_correct_stick input) = cur input" "press (pad_correct_stick input) = press input"
    "button (rel (pad_correct_stick input)) = button (rel input)"
    by (simp_all add: pad_correct_stick_def pad_set_logical_stick_def Let_def)
  moreover have "(stick_axis c = 0 \<longleftrightarrow> \<bar>c\<bar> \<le> 7)" "\<bar>stick_axis c\<bar> \<le> 60"
    "stick_axis c \<noteq> 0 \<longrightarrow> sgn (stick_axis c) = sgn c" "c \<le> c2 \<longrightarrow> stick_axis c \<le> stick_axis c2"
    by (auto simp: stick_axis_def sgn_if)
  ultimately show ?thesis using pad_correct_stick_axes [of input] unfolding s by blast
qed

theorem pad_correct_stick_dead_zone_and_range_witness:
  "sint (pad_stick_x (pad_correct_stick \<lparr>cur = zero_pad\<lparr>stick_x := 0x50\<rparr>, prev = zero_pad, press = zero_pad, rel = zero_pad\<rparr>)) \<noteq> 0"
  using pad_correct_stick_dead_zone_and_range
    [of "\<lparr>cur = zero_pad\<lparr>stick_x := 0x50\<rparr>, prev = zero_pad, press = zero_pad, rel = zero_pad\<rparr>"]
  by (simp add: zero_pad_def)

text \<open>The button tests ask for all the bits of the key.\<close>

lemma mask_test_iff: "(key :: u16) = b AND key \<longleftrightarrow> (\<forall>n < 16. bit key n \<longrightarrow> bit b n)"
  by (auto intro!: bit_word_eqI simp: bit_simps dest: bit_imp_le_length) (metis bit_and_iff)

lemma normal_mask_bits:
  assumes "i + length ss \<le> 4"
  shows "bit (normal_mask i ss m) n \<longleftrightarrow> bit m n \<or>
    (i \<le> n \<and> n < i + length ss \<and> cs_errno (ss ! (n - i)) = 0 \<and> cs_type (ss ! (n - i)) = CONT_TYPE_NORMAL)"
  using assms
proof (induction i ss m rule: normal_mask.induct)
  case (2 i s ss m)
  have "bit (push_bit i (1 :: u8)) n \<longleftrightarrow> n = i" using "2.prems" by (auto simp: bit_simps)
  then show ?case
    using "2.IH" "2.prems" by (auto simp: bit_simps nth_Cons' Suc_le_eq split: if_splits)
qed auto

end
