(* ===== verification/StackCheck.thy ===== *)
theory StackCheck
  imports Prelude "HOL-Library.Monad_Syntax"
begin

section \<open>The stack overflow monitor\<close>

text \<open>
  \<^verbatim>\<open>src/main/O2/stackcheck.c\<close>: a doubly linked list of stack descriptors, and the fill
  pattern that tells how deep a stack has been used.  The descriptors are records in a heap of
  their own; the stacks are in the byte memory.  A loop that walks the descriptors or the words
  of a stack is a \<^theory_text>\<open>partial_function\<close>, with \<^const>\<open>None\<close> for one that does not end (a
  list with a cycle, or a stack that reaches the last word of the address space).
\<close>

record StackEntry =
  se_next :: ptr
  se_prev :: ptr
  se_head :: ptr
  se_tail :: ptr
  se_initValue :: u32
  se_minSpace :: s32
  se_name :: ptr

record stacks =
  sStackInfoListStart :: ptr
  sStackInfoListEnd :: ptr
  stk_heap :: "ptr \<Rightarrow> StackEntry"

definition STACK_STATUS_OK :: s32 where "STACK_STATUS_OK = 0"
definition STACK_STATUS_WARNING :: s32 where "STACK_STATUS_WARNING = 1"
definition STACK_STATUS_OVERFLOW :: s32 where "STACK_STATUS_OVERFLOW = 2"

lemmas stack_status_defs =
  STACK_STATUS_OK_def STACK_STATUS_WARNING_def STACK_STATUS_OVERFLOW_def

definition upd_entry :: "stacks \<Rightarrow> ptr \<Rightarrow> (StackEntry \<Rightarrow> StackEntry) \<Rightarrow> stacks" where
  "upd_entry s p f = s\<lparr>stk_heap := (stk_heap s)(p := f (stk_heap s p))\<rparr>"

subsection \<open>The operations\<close>

text \<open>The fill loop of \<^verbatim>\<open>StackCheck_Init\<close>.\<close>

partial_function (option) fill_loop :: "u32 \<Rightarrow> ptr \<Rightarrow> ptr \<Rightarrow> mem \<Rightarrow> mem option" where
  "fill_loop v tail addr m =
     (if addr < tail then fill_loop v tail (addr + 4) (store32 m addr v) else Some m)"

definition StackCheck_Init ::
  "stacks \<Rightarrow> mem \<Rightarrow> ptr \<Rightarrow> ptr \<Rightarrow> ptr \<Rightarrow> u32 \<Rightarrow> s32 \<Rightarrow> ptr \<Rightarrow> (stacks \<times> mem) option" where
  "StackCheck_Init s m entry stackBottom stackTop initValue minSpace name =
     (if entry = NULL then Some (s\<lparr>sStackInfoListStart := NULL\<rparr>, m)
      else
        (let s1 = upd_entry s entry (\<lambda>e. e\<lparr>se_head := stackBottom, se_tail := stackTop,
                    se_initValue := initValue, se_minSpace := minSpace, se_name := name,
                    se_prev := sStackInfoListEnd s, se_next := NULL\<rparr>);
             s2 = (if sStackInfoListEnd s1 \<noteq> NULL
                   then upd_entry s1 (sStackInfoListEnd s1) (\<lambda>e. e\<lparr>se_next := entry\<rparr>) else s1);
             s3 = s2\<lparr>sStackInfoListEnd := entry\<rparr>;
             s4 = (if sStackInfoListStart s3 = NULL then s3\<lparr>sStackInfoListStart := entry\<rparr> else s3);
             e = stk_heap s4 entry
         in if se_minSpace e \<noteq> -1
            then do { m' \<leftarrow> fill_loop (se_initValue e) (se_tail e) (se_head e) m; Some (s4, m') }
            else Some (s4, m)))"

definition StackCheck_Cleanup :: "stacks \<Rightarrow> ptr \<Rightarrow> stacks" where
  "StackCheck_Cleanup s entry =
     (let e = stk_heap s entry;
          s1 = (if se_prev e = NULL then s\<lparr>sStackInfoListStart := se_next e\<rparr>
                else upd_entry s (se_prev e) (\<lambda>p. p\<lparr>se_next := se_next e\<rparr>));
          e1 = stk_heap s1 entry
      in if se_next e1 = NULL then s1\<lparr>sStackInfoListEnd := se_prev e1\<rparr> else s1)"

text \<open>\<^verbatim>\<open>StackCheck_Check\<close> of one entry: the scan for the first word that lost the pattern; the
  comparison with \<^verbatim>\<open>minSpace\<close> is the unsigned one, \<^verbatim>\<open>free\<close> being a \<^verbatim>\<open>size_t\<close>.\<close>

partial_function (option) check_scan :: "mem \<Rightarrow> u32 \<Rightarrow> ptr \<Rightarrow> ptr \<Rightarrow> ptr option" where
  "check_scan m v tail iter =
     (if iter < tail then if load32 m iter \<noteq> v then Some iter else check_scan m v tail (iter + 4)
      else Some iter)"

definition StackCheck_Check_entry :: "mem \<Rightarrow> StackEntry \<Rightarrow> s32 option" where
  "StackCheck_Check_entry m e =
     do { iter \<leftarrow> check_scan m (se_initValue e) (se_tail e) (se_head e);
          let free = iter - se_head e in
          Some (if free = 0 then STACK_STATUS_OVERFLOW
                else if free < se_minSpace e \<and> se_minSpace e \<noteq> -1 then STACK_STATUS_WARNING
                else STACK_STATUS_OK) }"

text \<open>With the null pointer it checks all the entries of the list.\<close>

partial_function (option) check_all :: "stacks \<Rightarrow> mem \<Rightarrow> ptr \<Rightarrow> s32 \<Rightarrow> s32 option" where
  "check_all s m iter ret =
     (if iter = NULL then Some ret
      else do { st \<leftarrow> StackCheck_Check_entry m (stk_heap s iter);
                check_all s m (se_next (stk_heap s iter)) (if st \<noteq> STACK_STATUS_OK then 1 else ret) })"

definition StackCheck_Check :: "stacks \<Rightarrow> mem \<Rightarrow> ptr \<Rightarrow> s32 option" where
  "StackCheck_Check s m entry =
     (if entry = NULL then check_all s m (sStackInfoListStart s) 0
      else StackCheck_Check_entry m (stk_heap s entry))"

subsection \<open>The pattern of a stack\<close>

lemma unat_add_4:
  fixes a :: ptr
  assumes "unat a + 4 < 2 ^ 32"
  shows "unat (a + 4) = unat a + 4"
  using assms by (simp add: unat_word_ariths(1) take_bit_nat_eq_self)

lemma less_tail_iff:
  fixes a :: ptr
  assumes "unat a + 4 * n < 2 ^ 32"
  shows "a < a + of_nat (4 * n) \<longleftrightarrow> 0 < n"
  using unat_ptr_add_of_nat [OF assms] by (simp only: word_less_nat_alt) auto

lemma fill_loop_fills:
  assumes "unat a + 4 * n < 2 ^ 32"
  shows "\<exists>m'. fill_loop v (a + of_nat (4 * n)) a m = Some m' \<and>
    (\<forall>i<n. load32 m' (a + of_nat (4 * i)) = v) \<and> (\<forall>x. \<not> in_block a (4 * n) x \<longrightarrow> m' x = m x)"
  using assms
proof (induction n arbitrary: a m)
  case 0
  then show ?case by (subst fill_loop.simps) simp
next
  case (Suc n)
  have a4: "unat (a + 4) = unat a + 4" using Suc.prems by (intro unat_add_4) simp
  obtain m' where m': "fill_loop v (a + 4 + of_nat (4 * n)) (a + 4) (store32 m a v) = Some m'"
    "\<And>i. i < n \<Longrightarrow> load32 m' (a + 4 + of_nat (4 * i)) = v"
    "\<And>x. \<not> in_block (a + 4) (4 * n) x \<Longrightarrow> m' x = store32 m a v x"
    using Suc.IH [of "a + 4" "store32 m a v"] Suc.prems a4 by auto
  have blk: "in_block a (4 * Suc n) x \<longleftrightarrow> in_block a 4 x \<or> in_block (a + 4) (4 * n) x"
    "in_block (a + 4) (4 * n) x \<Longrightarrow> \<not> in_block a 4 x" for x
    using in_block_append [of 4 "4 * n" a x] Suc.prems by auto
  have "load32 m' a = load32 (store32 m a v) a"
    by (rule load32_cong_block) (use blk(2) m'(3) in blast)
  then have "load32 m' (a + of_nat (4 * i)) = v" if "i < Suc n" for i
    using m'(2) [of "i - 1"] that by (cases i) (simp_all add: algebra_simps)
  moreover have "m' x = m x" if "\<not> in_block a (4 * Suc n) x" for x
    using that blk(1) [of x] m'(3) [of x] by (simp add: store32_out)
  moreover have "fill_loop v (a + of_nat (4 * Suc n)) a m = Some m'"
    using less_tail_iff [OF Suc.prems] m'(1) by (subst fill_loop.simps) (simp add: algebra_simps)
  ultimately show ?case by blast
qed

lemma check_scan_finds:
  assumes "unat a + 4 * n < 2 ^ 32" "k \<le> n" "\<And>i. i < k \<Longrightarrow> load32 m (a + of_nat (4 * i)) = v"
    "k < n \<Longrightarrow> load32 m (a + of_nat (4 * k)) \<noteq> v"
  shows "check_scan m v (a + of_nat (4 * n)) a = Some (a + of_nat (4 * k))"
  using assms
proof (induction n arbitrary: a k)
  case 0
  then show ?case by (subst check_scan.simps) simp
next
  case (Suc n)
  have lt: "a < a + of_nat (4 * Suc n)" using less_tail_iff [OF Suc.prems(1)] by simp
  show ?case
  proof (cases k)
    case 0
    then show ?thesis using lt Suc.prems(4) by (subst check_scan.simps) simp
  next
    case (Suc j)
    have "unat (a + 4) = unat a + 4" using Suc.prems by (intro unat_add_4) simp
    then have "check_scan m v (a + 4 + of_nat (4 * n)) (a + 4) = Some (a + 4 + of_nat (4 * j))"
      using Suc.prems(1,2,4) Suc.prems(3) [of "Suc i" for i] Suc
      by (intro Suc.IH) (auto simp: algebra_simps)
    then show ?thesis
      using lt Suc.prems(3) [of 0] Suc by (subst check_scan.simps) (simp add: algebra_simps)
  qed
qed

text \<open>The verdict on a stack whose lowest \<open>k\<close> of \<open>n\<close> words still hold the pattern.\<close>

definition stack_verdict :: "s32 \<Rightarrow> nat \<Rightarrow> s32" where
  "stack_verdict minSpace k =
     (if k = 0 then STACK_STATUS_OVERFLOW
      else if of_nat (4 * k) < minSpace \<and> minSpace \<noteq> -1 then STACK_STATUS_WARNING
      else STACK_STATUS_OK)"

lemma StackCheck_Check_entry_verdict:
  assumes "unat (se_head e) + 4 * n < 2 ^ 32" "se_tail e = se_head e + of_nat (4 * n)" "k \<le> n"
    "\<And>i. i < k \<Longrightarrow> load32 m (se_head e + of_nat (4 * i)) = se_initValue e"
    "k < n \<Longrightarrow> load32 m (se_head e + of_nat (4 * k)) \<noteq> se_initValue e"
  shows "StackCheck_Check_entry m e = Some (stack_verdict (se_minSpace e) k)"
proof -
  have "unat (of_nat (4 * k) :: ptr) = 4 * k" using assms(1,3) by (intro unat_ptr_of_nat) simp
  then have "of_nat (4 * k) = (0 :: ptr) \<longleftrightarrow> k = 0" by (metis mult_is_0 unat_eq_zero zero_neq_numeral)
  then show ?thesis
    using check_scan_finds [OF assms(1,3,4,5)]
    by (simp add: StackCheck_Check_entry_def stack_verdict_def assms(2) del: of_nat_mult)
qed

subsection \<open>The list of descriptors\<close>

text \<open>\<open>stack_list s xs\<close>: the list holds the descriptors \<open>xs\<close>, linked both ways.\<close>

definition stack_list :: "stacks \<Rightarrow> ptr list \<Rightarrow> bool" where
  "stack_list s xs \<longleftrightarrow>
     distinct xs \<and> NULL \<notin> set xs \<and>
     sStackInfoListStart s = hd (xs @ [NULL]) \<and> sStackInfoListEnd s = last (NULL # xs) \<and>
     (\<forall>i<length xs. se_next (stk_heap s (xs ! i)) = (if Suc i < length xs then xs ! Suc i else NULL) \<and>
        se_prev (stk_heap s (xs ! i)) = (if i = 0 then NULL else xs ! (i - 1)))"

lemma stack_list_last_nth: "xs \<noteq> [] \<Longrightarrow> last (NULL # xs) = xs ! (length xs - 1)"
  by (simp add: last_conv_nth)

lemma stack_list_nth:
  assumes "stack_list s xs" "i < length xs"
  shows "xs ! i \<noteq> NULL" "se_next (stk_heap s (xs ! i)) = (if Suc i < length xs then xs ! Suc i else NULL)"
    "se_prev (stk_heap s (xs ! i)) = (if i = 0 then NULL else xs ! (i - 1))"
  using assms unfolding stack_list_def by (metis nth_mem, blast, blast)

lemma stack_list_start: "stack_list s xs \<Longrightarrow> xs \<noteq> [] \<Longrightarrow> sStackInfoListStart s = hd xs \<and> hd xs \<noteq> NULL"
  unfolding stack_list_def by (metis hd_append2 hd_in_set)

lemma stack_listI:
  assumes "distinct xs" "NULL \<notin> set xs" "sStackInfoListStart s = hd (xs @ [NULL])"
    "sStackInfoListEnd s = last (NULL # xs)"
    "\<And>i. i < length xs \<Longrightarrow> se_next (stk_heap s (xs ! i)) = (if Suc i < length xs then xs ! Suc i else NULL)"
    "\<And>i. i < length xs \<Longrightarrow> se_prev (stk_heap s (xs ! i)) = (if i = 0 then NULL else xs ! (i - 1))"
  shows "stack_list s xs"
  using assms by (simp add: stack_list_def)

definition init_links :: "stacks \<Rightarrow> ptr \<Rightarrow> (StackEntry \<Rightarrow> StackEntry) \<Rightarrow> stacks" where
  "init_links s p f =
     (let s1 = upd_entry s p f;
          s2 = (if sStackInfoListEnd s \<noteq> NULL
                then upd_entry s1 (sStackInfoListEnd s) (\<lambda>e. e\<lparr>se_next := p\<rparr>) else s1)
      in s2\<lparr>sStackInfoListEnd := p,
            sStackInfoListStart := (if sStackInfoListStart s = NULL then p else sStackInfoListStart s)\<rparr>)"

lemma init_links_appends:
  assumes "stack_list s xs" "p \<notin> set xs" "p \<noteq> NULL"
    "\<And>e. se_next (f e) = NULL" "\<And>e. se_prev (f e) = sStackInfoListEnd s"
  shows "stack_list (init_links s p f) (xs @ [p])"
proof (cases "xs = []")
  case True
  then show ?thesis
    using assms by (simp add: stack_list_def init_links_def upd_entry_def)
next
  case False
  let ?s = "init_links s p f" and ?l = "xs ! (length xs - 1)"
  have in_xs: "?l \<in> set xs" using False by (intro nth_mem) simp
  then have l: "sStackInfoListEnd s = ?l" "?l \<in> set xs" "?l \<noteq> NULL"
    using assms(1) stack_list_last_nth [OF False] by (auto simp: stack_list_def)
  have hp: "stk_heap ?s = (stk_heap s)(p := f (stk_heap s p), ?l := (stk_heap s ?l)\<lparr>se_next := p\<rparr>)"
    using l assms(2) by (auto simp: init_links_def upd_entry_def Let_def)
  have st: "sStackInfoListStart ?s = hd xs" "sStackInfoListEnd ?s = p"
    using stack_list_start [OF assms(1) False] by (auto simp: init_links_def upd_entry_def Let_def)
  have d: "distinct xs" "NULL \<notin> set xs" using assms(1) by (simp_all add: stack_list_def)
  have np: "xs ! i \<noteq> p" if "i < length xs" for i using that assms(2) nth_mem by metis
  have lp: "?l \<noteq> p" using l(2) assms(2) by auto
  have eq: "xs ! i = ?l \<longleftrightarrow> Suc i = length xs" if "i < length xs" for i
    using that d False by (auto simp: nth_eq_iff_index_eq)
  have hp_i: "stk_heap ?s (xs ! i) =
      (if Suc i = length xs then (stk_heap s (xs ! i))\<lparr>se_next := p\<rparr> else stk_heap s (xs ! i))"
    if "i < length xs" for i
    using np [OF that] eq [OF that] by (auto simp: hp)
  have hp_p: "stk_heap ?s p = f (stk_heap s p)" using lp by (simp add: hp)
  show ?thesis
  proof (rule stack_listI)
    fix i assume i: "i < length (xs @ [p])"
    show "se_next (stk_heap ?s ((xs @ [p]) ! i)) =
        (if Suc i < length (xs @ [p]) then (xs @ [p]) ! Suc i else NULL)"
    proof (cases "i < length xs")
      case True
      then show ?thesis
        using stack_list_nth(2) [OF assms(1) True] i by (cases "Suc i = length xs") (simp_all add: nth_append hp_i)
    qed (use i assms(4) in \<open>simp add: nth_append hp_p\<close>)
    show "se_prev (stk_heap ?s ((xs @ [p]) ! i)) = (if i = 0 then NULL else (xs @ [p]) ! (i - 1))"
    proof (cases "i < length xs")
      case True
      then show ?thesis
        using stack_list_nth(3) [OF assms(1) True] True by (auto simp: nth_append hp_i)
    next
      case F: False
      with i have "i = length xs" by simp
      then show ?thesis using assms(5) l(1) False by (simp add: nth_append hp_p)
    qed
  qed (use assms(2,3) d st False in auto)
qed

lemma StackCheck_Init_eq:
  fixes base lim nm :: ptr and v :: u32 and ms :: s32
  assumes "p \<noteq> NULL" "sStackInfoListEnd s \<noteq> p"
  defines "s' \<equiv> init_links s p (\<lambda>e. e\<lparr>se_head := base, se_tail := lim, se_initValue := v,
    se_minSpace := ms, se_name := nm, se_prev := sStackInfoListEnd s, se_next := NULL\<rparr>)"
  shows "StackCheck_Init s m p base lim v ms nm =
      (if ms = -1 then Some (s', m) else map_option (Pair s') (fill_loop v lim base m)) \<and>
    stk_heap s' p = \<lparr>se_next = NULL, se_prev = sStackInfoListEnd s, se_head = base, se_tail = lim,
      se_initValue = v, se_minSpace = ms, se_name = nm\<rparr>"
  using assms
  by (cases "fill_loop v lim base m")
    (auto simp: StackCheck_Init_def init_links_def upd_entry_def Let_def)

lemma StackCheck_Cleanup_last:
  assumes "stack_list s (xs @ [p])"
  shows "stack_list (StackCheck_Cleanup s p) xs"
proof -
  have p: "p \<notin> set xs" "distinct xs" "NULL \<notin> set xs"
    using assms by (simp_all add: stack_list_def)
  have pl: "se_next (stk_heap s p) = NULL"
    "se_prev (stk_heap s p) = (if xs = [] then NULL else xs ! (length xs - 1))"
    using stack_list_nth(2,3) [OF assms, of "length xs"] by (auto simp: nth_append)
  have link: "se_next (stk_heap s (xs ! i)) = (if Suc i < length xs then xs ! Suc i else p)"
    "se_prev (stk_heap s (xs ! i)) = (if i = 0 then NULL else xs ! (i - 1))" if "i < length xs" for i
    using stack_list_nth(2,3) [OF assms, of i] that
    by (auto simp: nth_append less_Suc_eq split: if_splits)
  show ?thesis
  proof (cases "xs = []")
    case True
    then show ?thesis using pl by (simp add: stack_list_def StackCheck_Cleanup_def Let_def)
  next
    case False
    let ?l = "xs ! (length xs - 1)"
    have l: "?l \<in> set xs" using False by (intro nth_mem) simp
    then have "?l \<noteq> NULL" "?l \<noteq> p" using p by auto
    then have s': "StackCheck_Cleanup s p =
        (upd_entry s ?l (\<lambda>q. q\<lparr>se_next := NULL\<rparr>))\<lparr>sStackInfoListEnd := ?l\<rparr>"
      using pl False by (simp add: StackCheck_Cleanup_def upd_entry_def Let_def)
    have eq: "xs ! i = ?l \<longleftrightarrow> Suc i = length xs" if "i < length xs" for i
      using that p False by (auto simp: nth_eq_iff_index_eq)
    show ?thesis
      unfolding s' using p link eq stack_list_start [OF assms] False
      by (intro stack_listI) (auto simp: upd_entry_def last_conv_nth nth_eq_iff_index_eq)
  qed
qed

subsection \<open>Concrete stacks\<close>

definition no_stacks :: stacks where
  "no_stacks = \<lparr>sStackInfoListStart = NULL, sStackInfoListEnd = NULL,
     stk_heap = (\<lambda>_. \<lparr>se_next = NULL, se_prev = NULL, se_head = 0, se_tail = 0, se_initValue = 0,
       se_minSpace = 0, se_name = 0\<rparr>)\<rparr>"

lemma no_stacks_list: "stack_list no_stacks []"
  by (simp add: stack_list_def no_stacks_def)

definition two_stacks :: stacks where
  "two_stacks = \<lparr>sStackInfoListStart = 16, sStackInfoListEnd = 32,
     stk_heap = (\<lambda>_. \<lparr>se_next = NULL, se_prev = NULL, se_head = 0, se_tail = 0, se_initValue = 0,
         se_minSpace = 0, se_name = 0\<rparr>)
       (16 := \<lparr>se_next = 32, se_prev = NULL, se_head = 0x400, se_tail = 0x400, se_initValue = 0,
         se_minSpace = 0, se_name = 0\<rparr>,
        32 := \<lparr>se_next = NULL, se_prev = 16, se_head = 0x400, se_tail = 0x404, se_initValue = 0,
         se_minSpace = 0, se_name = 0\<rparr>)\<rparr>"

lemma two_stacks_list: "stack_list two_stacks [16, 32]"
  by (auto simp: stack_list_def two_stacks_def less_Suc_eq nth_Cons split: nat.splits)

subsection \<open>Properties\<close>

text \<open>Claim C21: a stack of \<open>n\<close> words is registered and later only the part above its lowest \<open>k\<close>
  words has been written, the word at that mark being changed if the mark is inside the stack.
  Then the registration returns, changes no byte outside the stack, and the check reports an
  overflow when the mark is the bottom, a warning when the free bytes below the mark are fewer
  than the minimum, and that all is well otherwise.\<close>

theorem StackCheck_reports_high_water_mark:
  assumes "p \<noteq> NULL" "sStackInfoListEnd s \<noteq> p" "ms \<noteq> -1" "unat base + 4 * n < 2 ^ 32" "k \<le> n"
    "\<And>s' m' x. StackCheck_Init s m p base (base + of_nat (4 * n)) v ms nm = Some (s', m') \<Longrightarrow>
      in_block base (4 * k) x \<Longrightarrow> later x = m' x"
    "k < n \<Longrightarrow> load32 later (base + of_nat (4 * k)) \<noteq> v"
  shows "\<exists>s' m'. StackCheck_Init s m p base (base + of_nat (4 * n)) v ms nm = Some (s', m') \<and>
    (\<forall>x. \<not> in_block base (4 * n) x \<longrightarrow> m' x = m x) \<and>
    StackCheck_Check s' later p = Some (stack_verdict ms k)"
proof -
  obtain m' where m': "fill_loop v (base + of_nat (4 * n)) base m = Some m'"
    "\<And>i. i < n \<Longrightarrow> load32 m' (base + of_nat (4 * i)) = v" "\<And>x. \<not> in_block base (4 * n) x \<Longrightarrow> m' x = m x"
    using fill_loop_fills [OF assms(4), of v m] by blast
  obtain s' where i: "StackCheck_Init s m p base (base + of_nat (4 * n)) v ms nm = Some (s', m')"
    and e: "se_head (stk_heap s' p) = base" "se_tail (stk_heap s' p) = base + of_nat (4 * n)"
      "se_initValue (stk_heap s' p) = v" "se_minSpace (stk_heap s' p) = ms"
    using StackCheck_Init_eq [OF assms(1,2), where base = base and lim = "base + of_nat (4 * n)" and v = v and ms = ms and nm = nm and m = m] assms(3) m'(1) by auto
  have "load32 later (base + of_nat (4 * j)) = v" if j: "j < k" for j
  proof -
    have "in_block base (4 * k) x" if "in_block (base + of_nat (4 * j)) 4 x" for x
      using in_block_append(1) [of "4 * j" 4 base x] in_block_append(1) [of "4 * j + 4" "4 * (k - j - 1)" base x]
        that j assms(4,5) by (auto simp: algebra_simps)
    then have "load32 later (base + of_nat (4 * j)) = load32 m' (base + of_nat (4 * j))"
      using assms(6) [OF i] by (intro load32_cong_block) blast
    then show ?thesis using m'(2) j assms(5) by simp
  qed
  then have "StackCheck_Check_entry later (stk_heap s' p) = Some (stack_verdict ms k)"
    using StackCheck_Check_entry_verdict [of "stk_heap s' p" n k later] assms(4,5,7) e by auto
  then show ?thesis using i m'(3) assms(1) by (auto simp: StackCheck_Check_def)
qed

theorem StackCheck_reports_high_water_mark_witness:
  "\<exists>s' m'. StackCheck_Init no_stacks (\<lambda>_. 0) 16 0x1000 (0x1000 + of_nat (4 * 8)) 7 8 0 = Some (s', m') \<and>
    (\<forall>x. \<not> in_block 0x1000 (4 * 8) x \<longrightarrow> m' x = 0) \<and> StackCheck_Check s' (\<lambda>_. 9) 16 = Some (stack_verdict 8 0)"
proof (rule StackCheck_reports_high_water_mark)
  show "sStackInfoListEnd no_stacks \<noteq> 16" by (simp add: no_stacks_def)
  show "(8 :: s32) \<noteq> -1" by simp
  show "unat (0x1000 :: ptr) + 4 * 8 < 2 ^ 32" by simp
  show "load32 (\<lambda>_. 9) (0x1000 + of_nat (4 * 0)) \<noteq> 7" by (simp add: load32_def push_bit_eq_mult)
qed (simp_all add: in_block_def)


text \<open>registering a new descriptor appends it to the list, whose links stay right in
  both directions, and unregistering the descriptor that was registered last removes it again.\<close>

theorem StackCheck_list_push_pop:
  assumes "stack_list s xs" "p \<notin> set xs" "p \<noteq> NULL"
    "StackCheck_Init s m p base lim v ms nm = Some (s', m')"
  shows "stack_list s' (xs @ [p]) \<and> stack_list (StackCheck_Cleanup s' p) xs"
proof -
  have "sStackInfoListEnd s = last (NULL # xs)" using assms(1) by (simp add: stack_list_def)
  then have "sStackInfoListEnd s \<in> set (NULL # xs)" by (metis last_in_set list.discI)
  then have "sStackInfoListEnd s \<noteq> p" using assms(2,3) by auto
  from StackCheck_Init_eq [OF assms(3) this, where base = base and lim = lim and v = v and ms = ms and nm = nm and m = m] assms(4)
  have "s' = init_links s p (\<lambda>e. e\<lparr>se_head := base, se_tail := lim, se_initValue := v,
    se_minSpace := ms, se_name := nm, se_prev := sStackInfoListEnd s, se_next := NULL\<rparr>)"
    by (cases "fill_loop v lim base m") (auto split: if_splits)
  with init_links_appends [OF assms(1-3)] have "stack_list s' (xs @ [p])" by simp
  with StackCheck_Cleanup_last show ?thesis by blast
qed

theorem StackCheck_list_push_pop_witness:
  "\<exists>s' m'. StackCheck_Init two_stacks (\<lambda>_. 0) 48 0x1000 0x1020 7 (-1) 0 = Some (s', m') \<and>
    stack_list s' [16, 32, 48] \<and> stack_list (StackCheck_Cleanup s' 48) [16, 32]"
proof -
  have "\<exists>s' m'. StackCheck_Init two_stacks (\<lambda>_. 0) 48 0x1000 0x1020 7 (-1) 0 = Some (s', m')"
    by (simp add: StackCheck_Init_def two_stacks_def upd_entry_def Let_def)
  with StackCheck_list_push_pop [OF two_stacks_list, of 48] show ?thesis by fastforce
qed


text \<open>unregistering does not repair the back link of the next descriptor: when the first
  of two or more is removed and then the second, the second stays at the head of the list.\<close>

theorem StackCheck_Cleanup_leaves_stale_entry:
  assumes "stack_list s (x # y # zs)"
  shows "sStackInfoListStart (StackCheck_Cleanup (StackCheck_Cleanup s x) y) = y"
proof -
  have "x \<noteq> y" using assms by (simp add: stack_list_def)
  then show ?thesis
    using stack_list_nth [OF assms, of 0] stack_list_nth [OF assms, of 1]
    by (simp add: StackCheck_Cleanup_def upd_entry_def Let_def)
qed

theorem StackCheck_Cleanup_leaves_stale_entry_witness:
  "sStackInfoListStart (StackCheck_Cleanup (StackCheck_Cleanup two_stacks 16) 32) = 32"
  using StackCheck_Cleanup_leaves_stale_entry [of two_stacks 16 32 "[]"] two_stacks_list by simp


text \<open>on a well-formed list of stacks the check of all of them returns, and it reports
  an error exactly when one of the stacks is not all right.\<close>

theorem StackCheck_Check_all_reports_any:
  assumes "stack_list s xs" "\<And>x. x \<in> set xs \<Longrightarrow> StackCheck_Check_entry m (stk_heap s x) = Some (st x)"
  shows "StackCheck_Check s m NULL = Some (if \<exists>x \<in> set xs. st x \<noteq> STACK_STATUS_OK then 1 else 0)"
proof -
  have all: "check_all s m (hd (drop i xs @ [NULL])) r =
      Some (if \<exists>x \<in> set (drop i xs). st x \<noteq> STACK_STATUS_OK then 1 else r)" if "i \<le> length xs" for i r
    using that
  proof (induction "length xs - i" arbitrary: i r)
    case 0
    then show ?case by (subst check_all.simps) simp
  next
    case (Suc n)
    then have i: "i < length xs" by simp
    then have d: "drop i xs = xs ! i # drop (Suc i) xs" by (simp add: Cons_nth_drop_Suc)
    have "se_next (stk_heap s (xs ! i)) = hd (drop (Suc i) xs @ [NULL])" "xs ! i \<noteq> NULL"
      using stack_list_nth(1,2) [OF assms(1) i] by (auto simp: hd_append hd_drop_conv_nth)
    then show ?case
      using Suc.hyps(1) [of "Suc i"] Suc.hyps(2) i assms(2) [of "xs ! i"]
      by (subst check_all.simps) (simp add: d)
  qed
  from all [of 0 0] show ?thesis using assms(1) by (simp add: StackCheck_Check_def stack_list_def)
qed

theorem StackCheck_Check_all_reports_any_witness:
  "StackCheck_Check two_stacks (\<lambda>_. 0) NULL = Some 1"
proof -
  have "StackCheck_Check_entry (\<lambda>_. 0) (stk_heap two_stacks x) =
      Some (if x = 16 then STACK_STATUS_OVERFLOW else STACK_STATUS_OK)" if "x \<in> set [16, 32]" for x
    using that by (auto simp: StackCheck_Check_entry_def two_stacks_def check_scan.simps load32_def)
  from StackCheck_Check_all_reports_any [OF two_stacks_list this] show ?thesis
    by (simp add: stack_status_defs)
qed

end
