(* ===== verification/DmaMgr.thy ===== *)
theory DmaMgr
  imports Prelude "HOL-Library.Monad_Syntax"
begin

section \<open>The DMA manager\<close>

text \<open>
  \<^verbatim>\<open>src/main/dmamgr.c\<close> on the peripheral interface manager of
  \<^verbatim>\<open>lib/ultralib/src/io/pidma.c\<close> and \<^verbatim>\<open>devmgr.c\<close>.  A request first reads the 16 byte
  header of the file, then the DMA thread reads the body, straight to its destination or, for a
  file marked \<^verbatim>\<open>CMPR\<close>, to a buffer from which it is decompressed.

  The system is a set of threads that exchange messages: the clients, the DMA thread and the PI
  manager.  A world holds the message queues as the lists of their messages (theory \<open>Mesg\<close>
  shows that the ring buffers are such lists), the requests, and where the DMA thread and the PI
  manager are in their loops.  Each step of a thread runs from one blocking call to the next.

  The transfer by the hardware, the allocator and the decompressor are not part of the
  sources; they are the parameters of a \<open>dma_env\<close>, \<open>pi_documented\<close> being what the hardware
  promises.  Cache maintenance has no effect on this memory.
\<close>

datatype ret_queue = Ret_startQueue | Ret_D_8010ED10

record OSIoMesg =
  io_pri :: nat
  io_retQueue :: ret_queue
  io_dramAddr :: ptr
  io_devAddr :: u32
  io_size :: u32

record DmaRequest =
  unk00 :: u32
  unk04 :: ptr
  unk08 :: u32
  unk0C :: ptr
  unk10 :: bool
  unk11 :: u8
  unk14 :: u32
  unk18 :: ptr
  unk1C :: u32
  dr_ioMsg :: OSIoMesg
  dr_pri :: nat
  dr_queue :: ptr
  dr_msg :: u32

definition OS_MESG_PRI_NORMAL :: nat where "OS_MESG_PRI_NORMAL = 0"
definition OS_MESG_PRI_HIGH :: nat where "OS_MESG_PRI_HIGH = 1"
definition Y65430UnkStruct_MAGIC :: u32 where "Y65430UnkStruct_MAGIC = 0x434D5052"

text \<open>Where the DMA thread blocks: on \<^verbatim>\<open>D_8010ED10\<close>, on \<^verbatim>\<open>D_8010ED50\<close>, on its own send to
  \<^verbatim>\<open>D_8010ED50\<close>, or on the \<^verbatim>\<open>startQueue\<close> of \<^verbatim>\<open>DmaMgr_Read\<close> with the rest it has to read.\<close>

datatype dma_pc = Wait_ED10 | Wait_ED50 | Send_ED50 ptr | Wait_start ptr u32 ptr u32

record dma_world =
  dw_mem :: mem
  dw_req :: "ptr \<Rightarrow> DmaRequest"
  D_8010ED10 :: "u32 list"
  D_8010ED50 :: "ptr list"
  dw_startQueue :: "u32 list"
  dw_pc :: dma_pc
  dw_cmdQueue :: "ptr list"                         \<comment> \<open>the PI manager's commands\<close>
  dw_cmdCount :: nat                                \<comment> \<open>their capacity\<close>
  dw_busy :: "(ptr \<times> u32 \<times> ptr \<times> u32) option"     \<comment> \<open>the transfer in progress\<close>
  dw_active :: bool                                  \<comment> \<open>whether the PI manager runs\<close>
  dw_client :: "ptr \<Rightarrow> u32 list"                      \<comment> \<open>the messages in the clients' queues\<close>
  dw_clientCount :: "ptr \<Rightarrow> nat"                      \<comment> \<open>their capacities\<close>

record dma_env =
  env_pidma :: "mem \<Rightarrow> u32 \<Rightarrow> ptr \<Rightarrow> u32 \<Rightarrow> mem"       \<comment> \<open>the hardware transfer\<close>
  func_80064D1C :: "mem \<Rightarrow> u32 \<Rightarrow> ptr \<times> mem"         \<comment> \<open>the allocator\<close>
  func_80064E84 :: "mem \<Rightarrow> ptr \<Rightarrow> mem"               \<comment> \<open>its release\<close>
  func_8006F560 :: "mem \<Rightarrow> ptr \<Rightarrow> ptr \<Rightarrow> mem"         \<comment> \<open>the decompressor\<close>

text \<open>The requests that the checks of \<^verbatim>\<open>osPiStartDma\<close> and \<^verbatim>\<open>__osPiRawStartDma\<close> allow.  The checks are
  compiled with \<^verbatim>\<open>_DEBUG\<close> only; the hardware promises a copy for the requests that pass them and nothing for the
  others.\<close>

definition pi_aligned :: "u32 \<Rightarrow> ptr \<Rightarrow> u32 \<Rightarrow> bool" where
  "pi_aligned dev ram sz \<longleftrightarrow> dev AND 1 = 0 \<and> ram AND 7 = 0 \<and> sz AND 1 = 0"

definition pi_request_ok :: "u32 \<Rightarrow> ptr \<Rightarrow> u32 \<Rightarrow> bool" where
  "pi_request_ok dev ram sz \<longleftrightarrow> pi_aligned dev ram sz \<and> 0 < sz \<and> sz \<le> 16 * 1024 * 1024"

definition pi_documented :: "dma_env \<Rightarrow> (u32 \<Rightarrow> u8) \<Rightarrow> bool" where
  "pi_documented env rom \<longleftrightarrow>
     (\<forall>m dev ram size. pi_request_ok dev ram size \<longrightarrow> env_pidma env m dev ram size = mem_copy m rom dev ram (unat size))"

subsection \<open>The PI manager\<close>

definition upd_req :: "dma_world \<Rightarrow> ptr \<Rightarrow> (DmaRequest \<Rightarrow> DmaRequest) \<Rightarrow> dma_world" where
  "upd_req w r f = w\<lparr>dw_req := (dw_req w)(r := f (dw_req w r))\<rparr>"

text \<open>The command is dropped when its queue is full.  The manager must run; the checks of the arguments belong to
  \<^verbatim>\<open>_DEBUG\<close> builds.  No caller looks at the result.\<close>

definition osPiStartDma :: "dma_world \<Rightarrow> ptr \<Rightarrow> nat \<Rightarrow> u32 \<Rightarrow> ptr \<Rightarrow> u32 \<Rightarrow> ret_queue \<Rightarrow> dma_world" where
  "osPiStartDma w mb priority devAddr dramAddr sz mq =
     (if \<not> dw_active w then w else
      let w1 = upd_req w mb (\<lambda>q. q\<lparr>dr_ioMsg := \<lparr>io_pri = priority, io_retQueue = mq,
                 io_dramAddr = dramAddr, io_devAddr = devAddr, io_size = sz\<rparr>\<rparr>)
      in if dw_cmdCount w1 \<le> length (dw_cmdQueue w1) then w1
         else if priority = OS_MESG_PRI_HIGH then w1\<lparr>dw_cmdQueue := mb # dw_cmdQueue w1\<rparr>
         else w1\<lparr>dw_cmdQueue := dw_cmdQueue w1 @ [mb]\<rparr>)"

text \<open>One turn of \<^verbatim>\<open>__osDevMgrMain\<close> for a DMA read: it takes a command and starts the transfer;
  when the interrupt comes it sends the message to the return queue, unless that is full.\<close>

definition devmgr_fetch :: "dma_world \<Rightarrow> dma_world option" where
  "devmgr_fetch w =
     (case (dw_busy w, dw_cmdQueue w) of
        (None, mb # rest) \<Rightarrow>
          (let io = dr_ioMsg (dw_req w mb)
           in Some (w\<lparr>dw_cmdQueue := rest,
                      dw_busy := Some (mb, io_devAddr io, io_dramAddr io, io_size io)\<rparr>))
      | _ \<Rightarrow> None)"

definition send_noblock :: "nat \<Rightarrow> 'a \<Rightarrow> 'a list \<Rightarrow> 'a list" where
  "send_noblock count x q = (if length q < count then q @ [x] else q)"

definition devmgr_done :: "dma_env \<Rightarrow> dma_world \<Rightarrow> dma_world option" where
  "devmgr_done env w =
     (case dw_busy w of
        Some (mb, dev, ram, sz) \<Rightarrow>
          (let w1 = w\<lparr>dw_mem := env_pidma env (dw_mem w) dev ram sz, dw_busy := None\<rparr>
           in Some (case io_retQueue (dr_ioMsg (dw_req w mb)) of
                      Ret_startQueue \<Rightarrow> w1\<lparr>dw_startQueue := send_noblock 1 mb (dw_startQueue w1)\<rparr>
                    | Ret_D_8010ED10 \<Rightarrow> w1\<lparr>D_8010ED10 := send_noblock 10 mb (D_8010ED10 w1)\<rparr>))
      | None \<Rightarrow> None)"

subsection \<open>The DMA thread\<close>

text \<open>\<^verbatim>\<open>DmaMgr_Read\<close> up to its next blocking call; \<^verbatim>\<open>buffSize\<close> is \<^verbatim>\<open>0x1000\<close> in the DMA thread,
  and a client passes the size itself, so that its call never blocks.\<close>

definition DmaMgr_Read :: "dma_world \<Rightarrow> ptr \<Rightarrow> nat \<Rightarrow> u32 \<Rightarrow> ptr \<Rightarrow> u32 \<Rightarrow> u32 \<Rightarrow> dma_world" where
  "DmaMgr_Read w req priority vrom ram sz buffSize =
     (if buffSize < sz
      then (osPiStartDma w req priority vrom ram buffSize Ret_startQueue)
             \<lparr>dw_pc := Wait_start req vrom ram sz\<rparr>
      else osPiStartDma w req priority vrom ram sz Ret_D_8010ED10)"

definition DmaMgr_Read_resume :: "dma_world \<Rightarrow> ptr \<Rightarrow> u32 \<Rightarrow> ptr \<Rightarrow> u32 \<Rightarrow> u32 \<Rightarrow> dma_world" where
  "DmaMgr_Read_resume w req vrom ram sz buffSize =
     DmaMgr_Read (w\<lparr>dw_pc := Wait_ED10\<rparr>) req (dr_pri (dw_req w req))
       (vrom + buffSize) (ram + buffSize) (sz - buffSize) buffSize"

text \<open>\<^verbatim>\<open>func_8007DC5C\<close> up to its \<^verbatim>\<open>osSendMesg\<close>: the return value, or \<^const>\<open>None\<close> when it goes on
  to send the request to \<^verbatim>\<open>D_8010ED50\<close> again and to read the body (and then returns 1).\<close>

definition func_8007DC5C :: "dma_env \<Rightarrow> dma_world \<Rightarrow> ptr \<Rightarrow> int option \<times> dma_world" where
  "func_8007DC5C env w req =
     (let q = dw_req w req in
      if \<not> unk10 q then (Some 0, w)
      else if unk1C q < 0x10 then (Some 0, w)
      else
        (let temp_v0 = unk18 q;
             w1 = upd_req w req (\<lambda>q. q\<lparr>unk10 := False\<rparr>)
         in if load32 (dw_mem w1) temp_v0 = Y65430UnkStruct_MAGIC then
              (let w2 = upd_req w1 req (\<lambda>q. q\<lparr>unk11 := 1, unk14 := unk14 q + 0x10,
                          unk1C := load32 (dw_mem w1) (temp_v0 + 4)\<rparr>);
                   q2 = dw_req w2 req
               in if unk0C q2 \<noteq> NULL then (None, upd_req w2 req (\<lambda>q. q\<lparr>unk18 := unk0C q\<rparr>))
                  else (case func_80064D1C env (dw_mem w2) (unk1C q2) of (p, m) \<Rightarrow>
                          (let w3 = upd_req (w2\<lparr>dw_mem := m\<rparr>) req (\<lambda>q. q\<lparr>unk18 := p\<rparr>)
                           in if p = NULL then (Some (-1), w3) else (None, w3))))
            else (None, upd_req w1 req (\<lambda>q. q\<lparr>unk1C := unk08 q\<rparr>))))"

text \<open>The message to the client does not wait: it is lost when the client's queue is full.\<close>

definition finish_request :: "dma_env \<Rightarrow> dma_world \<Rightarrow> ptr \<Rightarrow> dma_world" where
  "finish_request env w req =
     (let q = dw_req w req;
          w1 = (if unk11 q \<noteq> 0
                then (let w2 = w\<lparr>dw_mem := func_8006F560 env (dw_mem w) (unk18 q) (unk04 q)\<rparr>
                      in if unk0C q = NULL
                         then w2\<lparr>dw_mem := func_80064E84 env (dw_mem w2) (unk18 q)\<rparr> else w2)
                else w)
      in if dr_queue q \<noteq> NULL
         then w1\<lparr>dw_client := (dw_client w1)(dr_queue q :=
                send_noblock (dw_clientCount w1 (dr_queue q)) (dr_msg q) (dw_client w1 (dr_queue q)))\<rparr>
         else w1)"

text \<open>One stretch of \<^verbatim>\<open>DmaMgr_ThreadEntry\<close>; \<^const>\<open>None\<close> while the thread is blocked.\<close>

definition DmaMgr_ThreadEntry :: "dma_env \<Rightarrow> dma_world \<Rightarrow> dma_world option" where
  "DmaMgr_ThreadEntry env w =
     (case dw_pc w of
        Wait_ED10 \<Rightarrow>
          (case D_8010ED10 w of
             [] \<Rightarrow> None
           | _ # ms \<Rightarrow> Some (w\<lparr>D_8010ED10 := ms, dw_pc := Wait_ED50\<rparr>))
      | Wait_ED50 \<Rightarrow>
          (case D_8010ED50 w of
             [] \<Rightarrow> None
           | req # rs \<Rightarrow>
               (case func_8007DC5C env (w\<lparr>D_8010ED50 := rs\<rparr>) req of
                  (None, w1) \<Rightarrow> Some (w1\<lparr>dw_pc := Send_ED50 req\<rparr>)
                | (Some ret, w1) \<Rightarrow>
                    Some ((if ret \<noteq> 0 then w1 else finish_request env w1 req)\<lparr>dw_pc := Wait_ED10\<rparr>)))
      | Send_ED50 req \<Rightarrow>
          (if length (D_8010ED50 w) < 10
           then (let w1 = w\<lparr>D_8010ED50 := D_8010ED50 w @ [req], dw_pc := Wait_ED10\<rparr>;
                     q = dw_req w1 req
                 in Some (DmaMgr_Read w1 req (dr_pri q) (unk14 q) (unk18 q) (unk1C q) 0x1000))
           else None)
      | Wait_start req vrom ram sz \<Rightarrow>
          (case dw_startQueue w of
             [] \<Rightarrow> None
           | _ # ms \<Rightarrow> Some (DmaMgr_Read_resume (w\<lparr>dw_startQueue := ms\<rparr>) req vrom ram sz 0x1000)))"

subsection \<open>The clients\<close>

text \<open>\<^verbatim>\<open>DmaMgr_SendRequest\<close>: it fills the request and sends it, then starts the header read.\<close>

definition SendRequest_fill ::
  "dma_world \<Rightarrow> ptr \<Rightarrow> ptr \<Rightarrow> u32 \<Rightarrow> u32 \<Rightarrow> ptr \<Rightarrow> ptr \<Rightarrow> u32 \<Rightarrow> dma_world option" where
  "SendRequest_fill w req ram vrom sz arg4 mq mg =
     (if length (D_8010ED50 w) < 10
      then (let w1 = upd_req w req (\<lambda>q. q\<lparr>unk00 := vrom, unk04 := ram, unk08 := sz, unk0C := arg4,
                       dr_pri := OS_MESG_PRI_NORMAL, dr_queue := mq, dr_msg := mg,
                       unk11 := 0, unk14 := vrom, unk18 := ram,
                       unk10 := \<not> sz < 0x10, unk1C := (if sz < 0x10 then sz else 0x10)\<rparr>)
            in Some (w1\<lparr>D_8010ED50 := D_8010ED50 w1 @ [req]\<rparr>))
      else None)"

definition SendRequest_start :: "dma_world \<Rightarrow> ptr \<Rightarrow> dma_world" where
  "SendRequest_start w req =
     (let q = dw_req w req
      in DmaMgr_Read w req OS_MESG_PRI_HIGH (unk14 q) (unk18 q) (unk1C q) (unk1C q))"

definition DmaMgr_SendRequest ::
  "dma_world \<Rightarrow> ptr \<Rightarrow> ptr \<Rightarrow> u32 \<Rightarrow> u32 \<Rightarrow> ptr \<Rightarrow> ptr \<Rightarrow> u32 \<Rightarrow> dma_world option" where
  "DmaMgr_SendRequest w req ram vrom sz arg4 mq mg =
     do { w1 \<leftarrow> SendRequest_fill w req ram vrom sz arg4 mq mg; Some (SendRequest_start w1 req) }"

text \<open>All the threads together: any of them may take the next step.\<close>

inductive dma_step :: "dma_env \<Rightarrow> dma_world \<Rightarrow> dma_world \<Rightarrow> bool" for env where
  client: "DmaMgr_SendRequest w req ram vrom sz arg4 mq mg = Some w' \<Longrightarrow> dma_step env w w'"
| devmgr_fetch: "devmgr_fetch w = Some w' \<Longrightarrow> dma_step env w w'"
| devmgr_done: "devmgr_done env w = Some w' \<Longrightarrow> dma_step env w w'"
| dma_thread: "DmaMgr_ThreadEntry env w = Some w' \<Longrightarrow> dma_step env w w'"

text \<open>The threads that run while a client waits, the hardware first.\<close>

definition dma_sched :: "dma_env \<Rightarrow> dma_world \<Rightarrow> dma_world option" where
  "dma_sched env w =
     (case dw_busy w of
        Some _ \<Rightarrow> devmgr_done env w
      | None \<Rightarrow> (if dw_cmdQueue w \<noteq> [] then devmgr_fetch w else DmaMgr_ThreadEntry env w))"

text \<open>\<^verbatim>\<open>DmaMgr_RequestSync\<close> makes a queue for one message and waits for a message in it; \<^const>\<open>None\<close> when none
  ever comes.  The queue is on the caller's stack, so its address is a parameter.\<close>

partial_function (option) sync_wait :: "dma_env \<Rightarrow> ptr \<Rightarrow> dma_world \<Rightarrow> dma_world option" where
  "sync_wait env mq w =
     (if dw_client w mq \<noteq> [] then Some (w\<lparr>dw_client := (dw_client w)(mq := tl (dw_client w mq))\<rparr>)
      else do { w1 \<leftarrow> dma_sched env w; sync_wait env mq w1 })"

definition reply_queue :: "dma_world \<Rightarrow> ptr \<Rightarrow> dma_world" where
  "reply_queue w mq =
     w\<lparr>dw_client := (dw_client w)(mq := []), dw_clientCount := (dw_clientCount w)(mq := 1)\<rparr>"

definition DmaMgr_RequestSync ::
  "dma_env \<Rightarrow> dma_world \<Rightarrow> ptr \<Rightarrow> ptr \<Rightarrow> ptr \<Rightarrow> u32 \<Rightarrow> u32 \<Rightarrow> dma_world option" where
  "DmaMgr_RequestSync env w req mq ram vrom sz =
     do { w1 \<leftarrow> DmaMgr_SendRequest (reply_queue w mq) req ram vrom sz NULL mq 0; sync_wait env mq w1 }"

subsection \<open>Reading in chunks\<close>

text \<open>A world in which the DMA thread waits and nothing is in progress.\<close>

definition quiet :: "dma_world \<Rightarrow> bool" where
  "quiet w \<longleftrightarrow> dw_pc w = Wait_ED10 \<and> D_8010ED10 w = [] \<and> dw_startQueue w = [] \<and>
     dw_cmdQueue w = [] \<and> dw_busy w = None \<and> 0 < dw_cmdCount w \<and> dw_active w"

text \<open>The parts of an allowed request are allowed.\<close>

lemma pi_aligned_bits: "pi_aligned dev ram sz \<longleftrightarrow> take_bit 1 dev = 0 \<and> take_bit 3 ram = 0 \<and> take_bit 1 sz = 0"
proof -
  have "(1 :: u32) = mask 1" "(7 :: ptr) = mask 3" by (simp_all add: mask_eq_exp_minus_1)
  then show ?thesis unfolding pi_aligned_def take_bit_eq_mask by simp
qed

lemma take_bit_plus:
  fixes a b :: "'a :: len word"
  assumes "take_bit n b = 0" "n \<le> LENGTH('a)"
  shows "take_bit n (a + b) = take_bit n a"
proof -
  have b: "take_bit n (unat b) = 0" using assms(1) by (metis unsigned_0 unsigned_take_bit_eq)
  have "take_bit n (unat (a + b)) = take_bit n (unat a + unat b)"
    using assms(2) by (simp add: unat_word_ariths(1) min_def flip: take_bit_eq_mod)
  also have "\<dots> = take_bit n (take_bit n (unat a) + take_bit n (unat b))" by (simp only: take_bit_add)
  finally have "unat (take_bit n (a + b)) = unat (take_bit n a)" using b by (simp add: unsigned_take_bit_eq)
  then show ?thesis by (simp only: unsigned_word_eqI)
qed

lemma pi_parts:
  assumes "pi_aligned dev ram sz"
  shows "pi_aligned (dev + 0x1000) (ram + 0x1000) (sz - 0x1000)" "pi_aligned dev ram 0x1000" "pi_aligned dev ram 16"
proof -
  have "take_bit 1 (sz + (- 0x1000)) = take_bit 1 sz" "take_bit 1 (dev + 0x1000) = take_bit 1 dev"
    "take_bit 3 (ram + 0x1000) = take_bit 3 ram"
    by (rule take_bit_plus; simp)+
  then show "pi_aligned (dev + 0x1000) (ram + 0x1000) (sz - 0x1000)" "pi_aligned dev ram 0x1000" "pi_aligned dev ram 16"
    using assms by (simp_all only: pi_aligned_bits diff_conv_add_uminus) (simp_all add: pi_aligned_bits)
qed

lemma pi_documentedD:
  "pi_documented env rom \<Longrightarrow> pi_aligned dev ram sz \<Longrightarrow> 0 < sz \<Longrightarrow> sz \<le> 0x1000 \<Longrightarrow>
   env_pidma env m dev ram sz = mem_copy m rom dev ram (unat sz)"
proof -
  assume a: "pi_documented env rom" "pi_aligned dev ram sz" "0 < sz" "sz \<le> 0x1000"
  then have "sz \<le> 16 * 1024 * 1024" by (simp add: word_le_nat_alt)
  then show "env_pidma env m dev ram sz = mem_copy m rom dev ram (unat sz)"
    using a by (simp add: pi_documented_def pi_request_ok_def)
qed

lemma sync_wait_step:
  "dw_client w mq = [] \<Longrightarrow> dma_sched env w = Some w1 \<Longrightarrow> sync_wait env mq w = sync_wait env mq w1"
  by (subst sync_wait.simps) simp

lemma sync_wait_pi:
  fixes env :: dma_env
  assumes "dw_client w mq = []" "dw_busy w = None" "dw_cmdQueue w = mb # rest"
  defines "io \<equiv> dr_ioMsg (dw_req w mb)"
  defines "w1 \<equiv> w\<lparr>dw_cmdQueue := rest,
    dw_mem := env_pidma env (dw_mem w) (io_devAddr io) (io_dramAddr io) (io_size io)\<rparr>"
  shows "sync_wait env mq w = sync_wait env mq
    (case io_retQueue io of
       Ret_startQueue \<Rightarrow> w1\<lparr>dw_startQueue := send_noblock 1 mb (dw_startQueue w)\<rparr>
     | Ret_D_8010ED10 \<Rightarrow> w1\<lparr>D_8010ED10 := send_noblock 10 mb (D_8010ED10 w)\<rparr>)"
proof -
  let ?b = "w\<lparr>dw_cmdQueue := rest, dw_busy := Some (mb, io_devAddr io, io_dramAddr io, io_size io)\<rparr>"
  have "sync_wait env mq w = sync_wait env mq ?b"
    using assms(1-3) by (intro sync_wait_step) (simp_all add: dma_sched_def devmgr_fetch_def Let_def io_def)
  also have "\<dots> = sync_wait env mq (case io_retQueue io of
       Ret_startQueue \<Rightarrow> w1\<lparr>dw_startQueue := send_noblock 1 mb (dw_startQueue w)\<rparr>
     | Ret_D_8010ED10 \<Rightarrow> w1\<lparr>D_8010ED10 := send_noblock 10 mb (D_8010ED10 w)\<rparr>)"
  proof (rule sync_wait_step)
    show "dma_sched env ?b = Some (case io_retQueue io of
       Ret_startQueue \<Rightarrow> w1\<lparr>dw_startQueue := send_noblock 1 mb (dw_startQueue w)\<rparr>
     | Ret_D_8010ED10 \<Rightarrow> w1\<lparr>D_8010ED10 := send_noblock 10 mb (D_8010ED10 w)\<rparr>)"
      using assms(2) by (cases "io_retQueue io") (simp_all add: dma_sched_def devmgr_done_def Let_def w1_def flip: io_def)
  qed (use assms(1) in simp)
  finally show ?thesis .
qed

lemma sync_wait_read_last:
  assumes "pi_documented env rom" "quiet w" "\<not> buff < sz" "0 < sz" "dw_client w mq = []" "pi_aligned vrom ram sz" "sz \<le> 0x1000"
  shows "\<exists>io. sync_wait env mq (DmaMgr_Read w req p vrom ram sz buff) =
    sync_wait env mq (w\<lparr>dw_mem := mem_copy (dw_mem w) rom vrom ram (unat sz), D_8010ED10 := [req],
      dw_req := (dw_req w)(req := (dw_req w req)\<lparr>dr_ioMsg := io\<rparr>)\<rparr>)"
proof -
  have "env_pidma env (dw_mem w) vrom ram sz = mem_copy (dw_mem w) rom vrom ram (unat sz)"
    using assms(1,4,6,7) by (intro pi_documentedD)
  define io where "io = dr_ioMsg (dw_req (DmaMgr_Read w req p vrom ram sz buff) req)"
  have "sync_wait env mq (DmaMgr_Read w req p vrom ram sz buff) =
    sync_wait env mq ((DmaMgr_Read w req p vrom ram sz buff)\<lparr>dw_cmdQueue := [],
      dw_mem := mem_copy (dw_mem w) rom vrom ram (unat sz), D_8010ED10 := [req]\<rparr>)"
    using assms(2-5) \<open>env_pidma env _ _ _ _ = _\<close>
    by (subst sync_wait_pi [where mb = req and rest = "[]"])
      (auto simp: DmaMgr_Read_def osPiStartDma_def quiet_def Let_def upd_req_def send_noblock_def)
  also have "(DmaMgr_Read w req p vrom ram sz buff)\<lparr>dw_cmdQueue := [],
      dw_mem := mem_copy (dw_mem w) rom vrom ram (unat sz), D_8010ED10 := [req]\<rparr> =
    w\<lparr>dw_mem := mem_copy (dw_mem w) rom vrom ram (unat sz), D_8010ED10 := [req],
      dw_req := (dw_req w)(req := (dw_req w req)\<lparr>dr_ioMsg := io\<rparr>)\<rparr>"
    unfolding io_def using assms(2,3)
    by (intro dma_world.equality) (auto simp: DmaMgr_Read_def osPiStartDma_def quiet_def Let_def upd_req_def)
  finally show ?thesis by blast
qed

lemma sync_wait_read_chunk:
  assumes "pi_documented env rom" "quiet w" "buff < sz" "0 < buff" "dw_client w mq = []" "buff = 0x1000" "pi_aligned vrom ram sz"
  shows "\<exists>io. sync_wait env mq (DmaMgr_Read w req (dr_pri (dw_req w req)) vrom ram sz buff) =
    (let w1 = w\<lparr>dw_mem := mem_copy (dw_mem w) rom vrom ram (unat buff),
                dw_req := (dw_req w)(req := (dw_req w req)\<lparr>dr_ioMsg := io\<rparr>)\<rparr>
     in sync_wait env mq (DmaMgr_Read w1 req (dr_pri (dw_req w1 req)) (vrom + buff) (ram + buff) (sz - buff) buff))"
proof -
  let ?r = "DmaMgr_Read w req (dr_pri (dw_req w req)) vrom ram sz buff"
  let ?io = "dr_ioMsg (dw_req ?r req)"
  let ?c = "mem_copy (dw_mem w) rom vrom ram (unat buff)"
  let ?q = "(dw_req w)(req := (dw_req w req)\<lparr>dr_ioMsg := ?io\<rparr>)"
  have dma: "env_pidma env (dw_mem w) vrom ram buff = ?c"
    using assms(1,4,6) pi_parts(2) [OF assms(7)] by (intro pi_documentedD) simp_all
  have "sync_wait env mq ?r = sync_wait env mq (?r\<lparr>dw_cmdQueue := [], dw_mem := ?c, dw_startQueue := [req]\<rparr>)"
    using assms(2-5) dma
    by (subst sync_wait_pi [where mb = req and rest = "[]"])
      (auto simp: DmaMgr_Read_def osPiStartDma_def quiet_def Let_def upd_req_def send_noblock_def)
  also have "?r\<lparr>dw_cmdQueue := [], dw_mem := ?c, dw_startQueue := [req]\<rparr> =
      w\<lparr>dw_mem := ?c, dw_req := ?q, dw_pc := Wait_start req vrom ram sz, dw_startQueue := [req]\<rparr>"
    using assms(2,3)
    by (intro dma_world.equality) (auto simp: DmaMgr_Read_def osPiStartDma_def quiet_def Let_def upd_req_def)
  also have "sync_wait env mq \<dots> = sync_wait env mq (DmaMgr_Read_resume
      (w\<lparr>dw_mem := ?c, dw_req := ?q, dw_pc := Wait_start req vrom ram sz, dw_startQueue := []\<rparr>) req vrom ram sz buff)"
    using assms(2,5,6)
    by (intro sync_wait_step) (simp_all add: dma_sched_def DmaMgr_ThreadEntry_def quiet_def)
  also have "DmaMgr_Read_resume
      (w\<lparr>dw_mem := ?c, dw_req := ?q, dw_pc := Wait_start req vrom ram sz, dw_startQueue := []\<rparr>) req vrom ram sz buff =
     DmaMgr_Read (w\<lparr>dw_mem := ?c, dw_req := ?q, dw_startQueue := [], dw_pc := Wait_ED10\<rparr>) req (dr_pri (?q req))
       (vrom + buff) (ram + buff) (sz - buff) buff"
    by (simp add: DmaMgr_Read_resume_def)
  also have "w\<lparr>dw_mem := ?c, dw_req := ?q, dw_startQueue := [], dw_pc := Wait_ED10\<rparr> =
      w\<lparr>dw_mem := ?c, dw_req := ?q\<rparr>"
    using assms(2) by (intro dma_world.equality) (auto simp: quiet_def)
  finally show ?thesis by (intro exI [of _ ?io]) (simp only: Let_def, simp)
qed

lemma sync_wait_read:
  assumes "pi_documented env rom" "quiet w" "0 < sz" "dw_client w mq = []" "pi_aligned vrom ram sz"
  shows "\<exists>io. sync_wait env mq (DmaMgr_Read w req (dr_pri (dw_req w req)) vrom ram sz 0x1000) =
    sync_wait env mq (w\<lparr>dw_mem := mem_copy (dw_mem w) rom vrom ram (unat sz), D_8010ED10 := [req],
      dw_req := (dw_req w)(req := (dw_req w req)\<lparr>dr_ioMsg := io\<rparr>)\<rparr>)"
  using assms(2-5)
proof (induction "unat sz" arbitrary: w vrom ram sz rule: less_induct)
  case less
  show ?case
  proof (cases "0x1000 < sz")
    case False
    then show ?thesis using sync_wait_read_last [OF assms(1)] less.prems by (simp add: not_less)
  next
    case True
    let ?sz = "sz - 0x1000"
    have u: "unat ?sz = unat sz - 0x1000" "0x1000 < unat sz"
      using True by (simp_all add: unat_sub word_less_nat_alt word_le_nat_alt)
    obtain io where one: "sync_wait env mq (DmaMgr_Read w req (dr_pri (dw_req w req)) vrom ram sz 0x1000) =
      (let w1 = w\<lparr>dw_mem := mem_copy (dw_mem w) rom vrom ram 0x1000,
                dw_req := (dw_req w)(req := (dw_req w req)\<lparr>dr_ioMsg := io\<rparr>)\<rparr>
       in sync_wait env mq (DmaMgr_Read w1 req (dr_pri (dw_req w1 req)) (vrom + 0x1000) (ram + 0x1000) ?sz 0x1000))"
      using sync_wait_read_chunk [OF assms(1) less.prems(1) True _ less.prems(3) refl less.prems(4), of req]
      by (simp add: Let_def) blast
    define w1 where "w1 = w\<lparr>dw_mem := mem_copy (dw_mem w) rom vrom ram 0x1000,
                dw_req := (dw_req w)(req := (dw_req w req)\<lparr>dr_ioMsg := io\<rparr>)\<rparr>"
    have "0 < ?sz" using u by (simp add: word_less_nat_alt)
    moreover have "quiet w1" using less.prems(1) by (simp add: quiet_def w1_def)
    moreover have "dw_client w1 mq = []" using less.prems(3) by (simp add: w1_def)
    moreover have "unat ?sz < unat sz" using u by simp
    moreover note pi_parts(1) [OF less.prems(4)]
    ultimately obtain io' where
      "sync_wait env mq (DmaMgr_Read w1 req (dr_pri (dw_req w1 req)) (vrom + 0x1000) (ram + 0x1000) ?sz 0x1000) =
       sync_wait env mq (w1\<lparr>dw_mem := mem_copy (dw_mem w1) rom (vrom + 0x1000) (ram + 0x1000) (unat ?sz),
         D_8010ED10 := [req], dw_req := (dw_req w1)(req := (dw_req w1 req)\<lparr>dr_ioMsg := io'\<rparr>)\<rparr>)"
      using less.hyps by blast
    moreover have "mem_copy (dw_mem w1) rom (vrom + 0x1000) (ram + 0x1000) (unat ?sz)
        = mem_copy (dw_mem w) rom vrom ram (unat sz)"
      using mem_copy_append [where n = "0x1000" and k = "unat ?sz" and m = "dw_mem w" and f = rom and s = vrom and d = ram]
        u unsigned_less [of sz, where 'a = nat]
      by (simp add: w1_def)
    ultimately show ?thesis using one by (auto simp: w1_def Let_def)
  qed
qed

text \<open>The whole of a synchronous request, up to the arrival of its header.\<close>

definition filled_request :: "ptr \<Rightarrow> u32 \<Rightarrow> u32 \<Rightarrow> ptr \<Rightarrow> DmaRequest \<Rightarrow> DmaRequest" where
  "filled_request ram vrom sz mq q = q\<lparr>unk00 := vrom, unk04 := ram, unk08 := sz, unk0C := NULL,
     dr_pri := OS_MESG_PRI_NORMAL, dr_queue := mq, dr_msg := 0, unk11 := 0, unk14 := vrom, unk18 := ram,
     unk10 := \<not> sz < 0x10, unk1C := (if sz < 0x10 then sz else 0x10)\<rparr>"

lemma RequestSync_header:
  assumes "pi_documented env rom" "quiet w" "D_8010ED50 w = []" "0 < sz" "dw_client w mq = []" "pi_aligned vrom ram sz"
  shows "\<exists>io. do { w1 \<leftarrow> DmaMgr_SendRequest w req ram vrom sz NULL mq 0; sync_wait env mq w1 } = sync_wait env mq
    (w\<lparr>dw_mem := mem_copy (dw_mem w) rom vrom ram (if sz < 0x10 then unat sz else 16), D_8010ED50 := [req],
       dw_pc := Wait_ED50,
       dw_req := (dw_req w)(req := (filled_request ram vrom sz mq (dw_req w req))\<lparr>dr_ioMsg := io\<rparr>)\<rparr>)"
proof -
  define w0 where "w0 = w\<lparr>dw_req := (dw_req w)(req := filled_request ram vrom sz mq (dw_req w req)),
    D_8010ED50 := [req]\<rparr>"
  have "DmaMgr_SendRequest w req ram vrom sz NULL mq 0 = Some (SendRequest_start w0 req)"
    using assms(3) by (simp add: DmaMgr_SendRequest_def SendRequest_fill_def upd_req_def w0_def filled_request_def Let_def)
  moreover have "SendRequest_start w0 req = DmaMgr_Read w0 req OS_MESG_PRI_HIGH vrom ram
      (unk1C (dw_req w0 req)) (unk1C (dw_req w0 req))"
    by (simp add: SendRequest_start_def w0_def filled_request_def)
  moreover have "quiet w0" "0 < unk1C (dw_req w0 req)" "dw_client w0 mq = []" "unk1C (dw_req w0 req) \<le> 0x1000"
    "pi_aligned vrom ram (unk1C (dw_req w0 req))"
    "unat (unk1C (dw_req w0 req)) = (if sz < 0x10 then unat sz else 16)"
    using assms(2,4-6) pi_parts(3) [OF assms(6)]
    by (auto simp: quiet_def w0_def filled_request_def word_le_nat_alt word_less_nat_alt)
  ultimately obtain io where "do { w1 \<leftarrow> DmaMgr_SendRequest w req ram vrom sz NULL mq 0; sync_wait env mq w1 } = sync_wait env mq
     (w0\<lparr>dw_mem := mem_copy (dw_mem w0) rom vrom ram (if sz < 0x10 then unat sz else 16), D_8010ED10 := [req],
      dw_req := (dw_req w0)(req := (dw_req w0 req)\<lparr>dr_ioMsg := io\<rparr>)\<rparr>)"
    using sync_wait_read_last [OF assms(1), of w0 "unk1C (dw_req w0 req)" "unk1C (dw_req w0 req)"
        mq vrom ram req OS_MESG_PRI_HIGH]
    by auto
  also have "\<dots> = sync_wait env mq
     (w0\<lparr>dw_mem := mem_copy (dw_mem w0) rom vrom ram (if sz < 0x10 then unat sz else 16), D_8010ED10 := [],
      dw_pc := Wait_ED50, dw_req := (dw_req w0)(req := (dw_req w0 req)\<lparr>dr_ioMsg := io\<rparr>)\<rparr>)"
    using \<open>quiet w0\<close> w0_def assms(5)
    by (intro sync_wait_step) (simp_all add: dma_sched_def DmaMgr_ThreadEntry_def quiet_def)
  also have "w0\<lparr>dw_mem := mem_copy (dw_mem w0) rom vrom ram (if sz < 0x10 then unat sz else 16), D_8010ED10 := [],
      dw_pc := Wait_ED50, dw_req := (dw_req w0)(req := (dw_req w0 req)\<lparr>dr_ioMsg := io\<rparr>)\<rparr> =
    w\<lparr>dw_mem := mem_copy (dw_mem w) rom vrom ram (if sz < 0x10 then unat sz else 16), D_8010ED50 := [req],
       dw_pc := Wait_ED50,
       dw_req := (dw_req w)(req := (filled_request ram vrom sz mq (dw_req w req))\<lparr>dr_ioMsg := io\<rparr>)\<rparr>"
    using assms(2) by (intro dma_world.equality) (auto simp: w0_def quiet_def)
  finally show ?thesis by blast
qed

lemma load32_mem_copy: "4 \<le> n \<Longrightarrow> i + 4 \<le> n \<Longrightarrow> n < 2 ^ 32 \<Longrightarrow>
    load32 (mem_copy m f s d n) (d + of_nat i) = load32 f (s + of_nat i)"
proof -
  assume n: "4 \<le> n" "i + 4 \<le> n" "n < 2 ^ 32"
  have "mem_copy m f s d n (d + of_nat i + of_nat j) = f (s + of_nat i + of_nat j)" if "j < 4" for j
  proof -
    have "d + of_nat i + of_nat j - d = (of_nat (i + j) :: ptr)" by simp
    moreover have "unat (of_nat (i + j) :: ptr) = i + j" using n that by (intro unat_ptr_of_nat) simp
    ultimately show ?thesis using n that by (simp add: mem_copy_def in_block_def add.assoc)
  qed
  from this [of 0] this [of 1] this [of 2] this [of 3] show ?thesis by (simp add: load32_def)
qed

text \<open>A request whose last read has completed.\<close>

lemma finish_request_client:
  assumes "dr_queue (dw_req w req) \<noteq> NULL" "dw_client w (dr_queue (dw_req w req)) = []" "0 < dw_clientCount w (dr_queue (dw_req w req))"
  shows "dw_client (finish_request env w req) = (dw_client w)(dr_queue (dw_req w req) := [dr_msg (dw_req w req)])"
  using assms by (simp add: finish_request_def Let_def send_noblock_def)

lemma sync_wait_finish:
  assumes "quiet (w\<lparr>dw_pc := Wait_ED10, D_8010ED10 := []\<rparr>)" "D_8010ED50 w = [req]"
    "\<not> unk10 (dw_req w req)" "dr_queue (dw_req w req) = mq" "mq \<noteq> NULL" "dw_client w mq = []" "0 < dw_clientCount w mq"
    "dw_pc w = Wait_ED50 \<and> D_8010ED10 w = [] \<or> dw_pc w = Wait_ED10 \<and> D_8010ED10 w = [req]"
  shows "sync_wait env mq w =
    Some ((finish_request env (w\<lparr>D_8010ED10 := [], D_8010ED50 := []\<rparr>) req)\<lparr>dw_pc := Wait_ED10, dw_client := dw_client w\<rparr>)"
proof -
  have go: "sync_wait env mq v =
      Some ((finish_request env (w\<lparr>D_8010ED10 := [], D_8010ED50 := []\<rparr>) req)\<lparr>dw_pc := Wait_ED10, dw_client := dw_client w\<rparr>)"
    if v: "v = w\<lparr>D_8010ED10 := [], dw_pc := Wait_ED50\<rparr>" for v
  proof -
    let ?f = "(finish_request env (w\<lparr>D_8010ED10 := [], D_8010ED50 := []\<rparr>) req)\<lparr>dw_pc := Wait_ED10\<rparr>"
    have "dma_sched env v = Some ((finish_request env (v\<lparr>D_8010ED50 := []\<rparr>) req)\<lparr>dw_pc := Wait_ED10\<rparr>)"
      using assms(1-3)
      by (simp add: v dma_sched_def DmaMgr_ThreadEntry_def func_8007DC5C_def quiet_def)
    moreover have "(finish_request env (v\<lparr>D_8010ED50 := []\<rparr>) req)\<lparr>dw_pc := Wait_ED10\<rparr> = ?f"
      by (intro dma_world.equality) (auto simp: v finish_request_def Let_def)
    ultimately have "sync_wait env mq v = sync_wait env mq ?f"
      using assms(6) by (intro sync_wait_step) (simp_all add: v)
    moreover have "dw_client ?f = (dw_client w)(mq := [dr_msg (dw_req w req)])"
      using finish_request_client [of "w\<lparr>D_8010ED10 := [], D_8010ED50 := []\<rparr>" req env] assms(4-7) by simp
    moreover have "(dw_client w)(mq := []) = dw_client w" using assms(6) by (metis fun_upd_triv)
    ultimately show ?thesis by (subst (asm) (2) sync_wait.simps) simp
  qed
  show ?thesis
  proof (cases "dw_pc w = Wait_ED50")
    case True
    then have "w = w\<lparr>D_8010ED10 := [], dw_pc := Wait_ED50\<rparr>" using assms(8) by simp
    then show ?thesis by (rule go)
  next
    case False
    then have "sync_wait env mq w = sync_wait env mq (w\<lparr>D_8010ED10 := [], dw_pc := Wait_ED50\<rparr>)"
      using assms(1,6,8)
      by (intro sync_wait_step) (auto simp: dma_sched_def DmaMgr_ThreadEntry_def quiet_def)
    then show ?thesis using go by simp
  qed
qed

lemma sync_wait_body:
  assumes "pi_documented env rom" "quiet (w\<lparr>dw_pc := Wait_ED10\<rparr>)" "dw_pc w = Send_ED50 req" "D_8010ED50 w = []"
    "\<not> unk10 (dw_req w req)" "dr_queue (dw_req w req) = mq" "mq \<noteq> NULL" "dw_client w mq = []" "0 < dw_clientCount w mq" "0 < unk1C (dw_req w req)"
    "pi_aligned (unk14 (dw_req w req)) (unk18 (dw_req w req)) (unk1C (dw_req w req))"
  defines "q \<equiv> dw_req w req"
  shows "\<exists>io. sync_wait env mq w = Some ((finish_request env
    (w\<lparr>dw_mem := mem_copy (dw_mem w) rom (unk14 q) (unk18 q) (unat (unk1C q)), D_8010ED10 := [],
       D_8010ED50 := [], dw_pc := Wait_ED10,
       dw_req := (dw_req w)(req := q\<lparr>dr_ioMsg := io\<rparr>)\<rparr>) req)\<lparr>dw_pc := Wait_ED10, dw_client := dw_client w\<rparr>)"
proof -
  define v where "v = w\<lparr>D_8010ED50 := [req], dw_pc := Wait_ED10\<rparr>"
  have "sync_wait env mq w =
      sync_wait env mq (DmaMgr_Read v req (dr_pri (dw_req v req)) (unk14 q) (unk18 q) (unk1C q) 0x1000)"
    using assms(2-4,8)
    by (intro sync_wait_step) (simp_all add: v_def q_def dma_sched_def DmaMgr_ThreadEntry_def quiet_def Let_def)
  moreover have "quiet v" "dw_client v mq = []" "0 < unk1C q" "pi_aligned (unk14 q) (unk18 q) (unk1C q)"
    using assms(2,8,10,11) by (simp_all add: quiet_def v_def q_def)
  ultimately obtain io where "sync_wait env mq w = sync_wait env mq
      (v\<lparr>dw_mem := mem_copy (dw_mem v) rom (unk14 q) (unk18 q) (unat (unk1C q)), D_8010ED10 := [req],
        dw_req := (dw_req v)(req := (dw_req v req)\<lparr>dr_ioMsg := io\<rparr>)\<rparr>)" (is "_ = sync_wait env mq ?u")
    using sync_wait_read [OF assms(1), of v "unk1C q" mq "unk14 q" "unk18 q" req] by auto
  also have "\<dots> = Some ((finish_request env (?u\<lparr>D_8010ED10 := [], D_8010ED50 := []\<rparr>) req)\<lparr>dw_pc := Wait_ED10, dw_client := dw_client w\<rparr>)"
    using assms(2-9) by (subst sync_wait_finish) (simp_all add: quiet_def v_def)
  also have "?u\<lparr>D_8010ED10 := [], D_8010ED50 := []\<rparr> =
     w\<lparr>dw_mem := mem_copy (dw_mem w) rom (unk14 q) (unk18 q) (unat (unk1C q)), D_8010ED10 := [],
       D_8010ED50 := [], dw_pc := Wait_ED10,
       dw_req := (dw_req w)(req := q\<lparr>dr_ioMsg := io\<rparr>)\<rparr>"
    by (intro dma_world.equality) (auto simp: v_def q_def)
  finally show ?thesis by blast
qed

subsection \<open>Runs\<close>

text \<open>A run given by the list of its steps.\<close>

datatype dma_label = L_client ptr ptr u32 u32 ptr | L_fetch | L_done | L_thread

primrec dma_do :: "dma_env \<Rightarrow> dma_label \<Rightarrow> dma_world \<Rightarrow> dma_world option" where
  "dma_do env (L_client req ram vrom sz mq) w = DmaMgr_SendRequest w req ram vrom sz NULL mq 0"
| "dma_do env L_fetch w = devmgr_fetch w"
| "dma_do env L_done w = devmgr_done env w"
| "dma_do env L_thread w = DmaMgr_ThreadEntry env w"

primrec dma_run :: "dma_env \<Rightarrow> dma_label list \<Rightarrow> dma_world \<Rightarrow> dma_world option" where
  "dma_run env [] w = Some w"
| "dma_run env (l # ls) w = (case dma_do env l w of None \<Rightarrow> None | Some w1 \<Rightarrow> dma_run env ls w1)"

lemma dma_do_step: "dma_do env l w = Some w' \<Longrightarrow> dma_step env w w'"
  by (cases l) (auto intro: dma_step.intros)

lemma dma_run_steps: "dma_run env ls w = Some w' \<Longrightarrow> (dma_step env)\<^sup>*\<^sup>* w w'"
proof (induction ls arbitrary: w)
  case (Cons l ls)
  then obtain w1 where "dma_do env l w = Some w1" "dma_run env ls w1 = Some w'"
    by (auto split: option.splits)
  with Cons.IH show ?case by (metis dma_do_step converse_rtranclp_into_rtranclp)
qed simp

lemma dma_run_append:
  "dma_run env ls w = Some w1 \<Longrightarrow> dma_run env (ls @ ls') w = dma_run env ls' w1"
  by (induction ls arbitrary: w) (auto split: option.splits)

lemmas dma_exec = DmaMgr_SendRequest_def SendRequest_fill_def SendRequest_start_def DmaMgr_Read_def
  DmaMgr_Read_resume_def osPiStartDma_def upd_req_def devmgr_fetch_def devmgr_done_def send_noblock_def
  DmaMgr_ThreadEntry_def func_8007DC5C_def finish_request_def

subsection \<open>Concrete worlds\<close>

definition idle_world :: dma_world where
  "idle_world = \<lparr>dw_mem = (\<lambda>_. 0),
     dw_req = (\<lambda>_. \<lparr>unk00 = 0, unk04 = 0, unk08 = 0, unk0C = 0, unk10 = False, unk11 = 0, unk14 = 0,
       unk18 = 0, unk1C = 0, dr_ioMsg = \<lparr>io_pri = 0, io_retQueue = Ret_startQueue, io_dramAddr = 0,
       io_devAddr = 0, io_size = 0\<rparr>, dr_pri = 0, dr_queue = 0, dr_msg = 0\<rparr>),
     D_8010ED10 = [], D_8010ED50 = [], dw_startQueue = [], dw_pc = Wait_ED10, dw_cmdQueue = [],
     dw_cmdCount = 8, dw_busy = None, dw_active = True,
     dw_client = (\<lambda>_. []), dw_clientCount = (\<lambda>_. 1)\<rparr>"

definition sample_env :: "(u32 \<Rightarrow> u8) \<Rightarrow> ptr \<Rightarrow> dma_env" where
  "sample_env rom buf = \<lparr>env_pidma = (\<lambda>m dev ram size. mem_copy m rom dev ram (unat size)),
     func_80064D1C = (\<lambda>m size. (buf, m)), func_80064E84 = (\<lambda>m p. m),
     func_8006F560 = (\<lambda>m src dst. m(dst := m src))\<rparr>"

text \<open>A cartridge with a marked file of 8 bytes at address 0.\<close>

definition cmpr_rom :: "u32 \<Rightarrow> u8" where
  "cmpr_rom x = (if unat x < 8 then [0x43, 0x4D, 0x50, 0x52, 0, 0, 0, 8] ! unat x else 5)"

lemma idle_world_quiet: "quiet idle_world" "D_8010ED50 idle_world = []"
  by (simp_all add: quiet_def idle_world_def)

lemma sample_env_documented: "pi_documented (sample_env rom buf) rom"
  by (simp add: pi_documented_def sample_env_def)

lemma cmpr_rom_header: "load32 cmpr_rom 0 = Y65430UnkStruct_MAGIC" "load32 cmpr_rom (0 + 4) = 8"
  by (simp_all add: load32_def cmpr_rom_def Y65430UnkStruct_MAGIC_def push_bit_eq_mult)

lemma plain_rom_header: "load32 (\<lambda>_. 7) x \<noteq> Y65430UnkStruct_MAGIC"
  by (simp add: load32_def Y65430UnkStruct_MAGIC_def push_bit_eq_mult)

lemma reply_queue_simps [simp]:
  "quiet (reply_queue w mq) = quiet w" "D_8010ED50 (reply_queue w mq) = D_8010ED50 w" "dw_mem (reply_queue w mq) = dw_mem w"
  "dw_client (reply_queue w mq) mq = []" "dw_clientCount (reply_queue w mq) mq = 1" "dw_client (reply_queue w mq) = (dw_client w)(mq := [])"
  by (simp_all add: reply_queue_def quiet_def)

text \<open>A request with a queue of its own that is still empty.\<close>

lemma DmaMgr_request_ok:
  assumes "pi_documented env rom" "quiet w" "D_8010ED50 w = []" "0 < sz" "pi_aligned vrom ram sz" "mq \<noteq> NULL"
    "dw_client w mq = []" "0 < dw_clientCount w mq" "sz < 16 \<or> load32 rom vrom \<noteq> Y65430UnkStruct_MAGIC"
  shows "\<exists>w'. do { w1 \<leftarrow> DmaMgr_SendRequest w req ram vrom sz NULL mq 0; sync_wait env mq w1 } = Some w' \<and>
    dw_mem w' = mem_copy (dw_mem w) rom vrom ram (unat sz) \<and> dw_client w' = dw_client w \<and> quiet w' \<and> D_8010ED50 w' = []"
proof -
  obtain io where h: "do { w1 \<leftarrow> DmaMgr_SendRequest w req ram vrom sz NULL mq 0; sync_wait env mq w1 } = sync_wait env mq
    (w\<lparr>dw_mem := mem_copy (dw_mem w) rom vrom ram (if sz < 0x10 then unat sz else 16), D_8010ED50 := [req],
       dw_pc := Wait_ED50,
       dw_req := (dw_req w)(req := (filled_request ram vrom sz mq (dw_req w req))\<lparr>dr_ioMsg := io\<rparr>)\<rparr>)"
    (is "_ = sync_wait env mq ?u")
    using RequestSync_header [OF assms(1-4,7,5)] by blast
  show ?thesis
  proof (cases "sz < 16")
    case True
    have "sync_wait env mq ?u =
        Some ((finish_request env (?u\<lparr>D_8010ED10 := [], D_8010ED50 := []\<rparr>) req)\<lparr>dw_pc := Wait_ED10, dw_client := dw_client ?u\<rparr>)"
      using assms(2,6-8) True by (intro sync_wait_finish) (simp_all add: quiet_def filled_request_def)
    then show ?thesis
      using h assms(2,6) True by (simp add: finish_request_def filled_request_def quiet_def Let_def)
  next
    case False
    define q where "q = (filled_request ram vrom sz mq (dw_req w req))\<lparr>dr_ioMsg := io, unk10 := False, unk1C := sz\<rparr>"
    define m where "m = mem_copy (dw_mem w) rom vrom ram 16"
    define v where "v = w\<lparr>dw_mem := m, D_8010ED50 := [], dw_pc := Send_ED50 req, dw_req := (dw_req w)(req := q)\<rparr>"
    have "load32 m ram \<noteq> Y65430UnkStruct_MAGIC"
      using load32_mem_copy [of 16 0 "dw_mem w" rom vrom ram] assms(9) False by (simp add: m_def)
    then have "sync_wait env mq ?u = sync_wait env mq v"
      using assms(2,7) False
      by (intro sync_wait_step)
        (simp_all add: dma_sched_def DmaMgr_ThreadEntry_def func_8007DC5C_def quiet_def upd_req_def
          Let_def filled_request_def v_def q_def m_def)
    moreover have "\<exists>io. sync_wait env mq v = Some ((finish_request env
       (v\<lparr>dw_mem := mem_copy (dw_mem v) rom (unk14 q) (unk18 q) (unat (unk1C q)), D_8010ED10 := [],
          D_8010ED50 := [], dw_pc := Wait_ED10,
          dw_req := (dw_req v)(req := q\<lparr>dr_ioMsg := io\<rparr>)\<rparr>) req)\<lparr>dw_pc := Wait_ED10, dw_client := dw_client v\<rparr>)"
      using sync_wait_body [OF assms(1), of v req mq] assms(2,4-8)
      by (simp add: v_def q_def quiet_def filled_request_def)
    moreover have "mem_copy m rom vrom ram (unat sz) = mem_copy (dw_mem w) rom vrom ram (unat sz)"
    proof (rule ext)
      fix x
      have "16 \<le> unat sz" using False by (simp add: word_less_nat_alt)
      then show "mem_copy m rom vrom ram (unat sz) x = mem_copy (dw_mem w) rom vrom ram (unat sz) x"
        by (simp add: m_def mem_copy_def in_block_def)
    qed
    ultimately show ?thesis
      using h assms(2,6)
      by (auto simp: finish_request_def filled_request_def quiet_def Let_def v_def q_def)
  qed
qed

lemma DmaMgr_RequestSync_ok:
  assumes "pi_documented env rom" "quiet w" "D_8010ED50 w = []" "0 < sz" "pi_aligned vrom ram sz" "mq \<noteq> NULL"
    "sz < 16 \<or> load32 rom vrom \<noteq> Y65430UnkStruct_MAGIC"
  shows "\<exists>w'. DmaMgr_RequestSync env w req mq ram vrom sz = Some w' \<and>
    dw_mem w' = mem_copy (dw_mem w) rom vrom ram (unat sz) \<and>
    dw_client w' = (dw_client w)(mq := []) \<and> quiet w' \<and> D_8010ED50 w' = []"
  using DmaMgr_request_ok [OF assms(1), of "reply_queue w mq" sz vrom ram mq req] assms(2-7)
  by (simp add: DmaMgr_RequestSync_def)

subsection \<open>Properties\<close>

text \<open>Claim C1: on an idle system a synchronous request of a file that is not compressed returns, for every address
  and size the interface allows (even address on the cartridge, memory address divisible by 8, even size);
  the memory then holds the bytes of the file at the given address and is otherwise unchanged,
  however many chunks the transfer takes; the message of this request is the only one, it went to the caller's
  own queue, and the system is idle again.\<close>

theorem DmaMgr_RequestSync_copies_file:
  assumes "pi_documented env rom" "quiet w" "D_8010ED50 w = []" "0 < sz" "pi_aligned vrom ram sz" "mq \<noteq> NULL"
    "sz < 16 \<or> load32 rom vrom \<noteq> Y65430UnkStruct_MAGIC"
  shows "\<exists>w'. DmaMgr_RequestSync env w req mq ram vrom sz = Some w' \<and>
    dw_mem w' = mem_copy (dw_mem w) rom vrom ram (unat sz) \<and>
    dw_client w' = (dw_client w)(mq := []) \<and> quiet w' \<and> D_8010ED50 w' = []"
  using assms by (rule DmaMgr_RequestSync_ok)

theorem DmaMgr_RequestSync_copies_file_witness:
  "\<exists>w'. DmaMgr_RequestSync (sample_env (\<lambda>_. 7) 0) idle_world 16 32 0x1000 0 0x5000 = Some w' \<and>
    dw_mem w' = mem_copy (\<lambda>_. 0) (\<lambda>_. 7) 0 0x1000 0x5000 \<and> quiet w'"
  using DmaMgr_RequestSync_copies_file [OF sample_env_documented [of "\<lambda>_. 7" 0] idle_world_quiet,
      of "0x5000" 0 "0x1000" 32 16] plain_rom_header [of 0]
  by (auto simp: idle_world_def pi_aligned_def)


text \<open>What the DMA thread does when the header of a marked file has arrived.\<close>

lemma RequestSync_marked:
  assumes "pi_documented env rom" "quiet w" "D_8010ED50 w = []" "16 \<le> sz" "dw_client w mq = []" "pi_aligned vrom ram sz"
    "load32 rom vrom = Y65430UnkStruct_MAGIC"
    "func_80064D1C env (mem_copy (dw_mem w) rom vrom ram 16) (load32 rom (vrom + 4)) = (buf, m)"
  shows "\<exists>io. do { w1 \<leftarrow> DmaMgr_SendRequest w req ram vrom sz NULL mq 0; sync_wait env mq w1 } = sync_wait env mq
    (w\<lparr>dw_mem := m, D_8010ED50 := [], dw_pc := (if buf = NULL then Wait_ED10 else Send_ED50 req),
       dw_req := (dw_req w)(req := (filled_request ram vrom sz mq (dw_req w req))\<lparr>dr_ioMsg := io,
         unk10 := False, unk11 := 1, unk14 := vrom + 0x10, unk1C := load32 rom (vrom + 4), unk18 := buf\<rparr>)\<rparr>)"
proof -
  have sz: "0 < sz" "\<not> sz < 16" using assms(4) by (simp_all add: word_less_nat_alt word_le_nat_alt)
  obtain io where h: "do { w1 \<leftarrow> DmaMgr_SendRequest w req ram vrom sz NULL mq 0; sync_wait env mq w1 } = sync_wait env mq
    (w\<lparr>dw_mem := mem_copy (dw_mem w) rom vrom ram 16, D_8010ED50 := [req],
       dw_pc := Wait_ED50,
       dw_req := (dw_req w)(req := (filled_request ram vrom sz mq (dw_req w req))\<lparr>dr_ioMsg := io\<rparr>)\<rparr>)"
    (is "_ = sync_wait env mq ?u")
    using RequestSync_header [OF assms(1-3) sz(1) assms(5,6), of req] sz(2) by auto
  have magic: "load32 (mem_copy (dw_mem w) rom vrom ram 16) ram = Y65430UnkStruct_MAGIC"
    "load32 (mem_copy (dw_mem w) rom vrom ram 16) (ram + 4) = load32 rom (vrom + 4)"
    using load32_mem_copy [of 16 0 "dw_mem w" rom vrom ram] load32_mem_copy [of 16 4 "dw_mem w" rom vrom ram] assms(7)
    by simp_all
  have "sync_wait env mq ?u = sync_wait env mq
    (w\<lparr>dw_mem := m, D_8010ED50 := [], dw_pc := (if buf = NULL then Wait_ED10 else Send_ED50 req),
       dw_req := (dw_req w)(req := (filled_request ram vrom sz mq (dw_req w req))\<lparr>dr_ioMsg := io,
         unk10 := False, unk11 := 1, unk14 := vrom + 0x10, unk1C := load32 rom (vrom + 4), unk18 := buf\<rparr>)\<rparr>)"
    using assms(2,5,8) sz magic
    by (intro sync_wait_step)
      (simp_all add: dma_sched_def DmaMgr_ThreadEntry_def func_8007DC5C_def quiet_def upd_req_def
        Let_def filled_request_def)
  with h show ?thesis by auto
qed

lemma DmaMgr_request_decompresses:
  assumes "pi_documented env rom" "quiet w" "D_8010ED50 w = []" "16 \<le> sz" "dw_client w mq = []" "pi_aligned vrom ram sz"
    "load32 rom vrom = Y65430UnkStruct_MAGIC"
    "func_80064D1C env (mem_copy (dw_mem w) rom vrom ram 16) (load32 rom (vrom + 4)) = (buf, m)" "buf \<noteq> NULL"
    "mq \<noteq> NULL" "0 < dw_clientCount w mq" "0 < load32 rom (vrom + 4)" "pi_aligned (vrom + 16) buf (load32 rom (vrom + 4))"
  shows "\<exists>w'. do { w1 \<leftarrow> DmaMgr_SendRequest w req ram vrom sz NULL mq 0; sync_wait env mq w1 } = Some w' \<and>
    dw_mem w' = func_80064E84 env (func_8006F560 env
        (mem_copy m rom (vrom + 16) buf (unat (load32 rom (vrom + 4)))) buf ram) buf \<and>
    dw_client w' = dw_client w \<and> quiet w' \<and> D_8010ED50 w' = []"
proof -
  obtain io where h: "do { w1 \<leftarrow> DmaMgr_SendRequest w req ram vrom sz NULL mq 0; sync_wait env mq w1 } = sync_wait env mq
    (w\<lparr>dw_mem := m, D_8010ED50 := [], dw_pc := Send_ED50 req,
       dw_req := (dw_req w)(req := (filled_request ram vrom sz mq (dw_req w req))\<lparr>dr_ioMsg := io,
         unk10 := False, unk11 := 1, unk14 := vrom + 0x10, unk1C := load32 rom (vrom + 4), unk18 := buf\<rparr>)\<rparr>)"
    (is "_ = sync_wait env mq ?v")
    using RequestSync_marked [OF assms(1-8), of req] assms(9) by auto
  define v where "v = ?v"
  define q where "q = dw_req v req"
  have "\<exists>io. sync_wait env mq v = Some ((finish_request env
       (v\<lparr>dw_mem := mem_copy (dw_mem v) rom (unk14 q) (unk18 q) (unat (unk1C q)), D_8010ED10 := [],
          D_8010ED50 := [], dw_pc := Wait_ED10,
          dw_req := (dw_req v)(req := q\<lparr>dr_ioMsg := io\<rparr>)\<rparr>) req)\<lparr>dw_pc := Wait_ED10, dw_client := dw_client v\<rparr>)"
    unfolding q_def using sync_wait_body [OF assms(1), of v req mq] assms(2,5,10-13)
    by (simp add: v_def quiet_def filled_request_def)
  then show ?thesis
    using h assms(2,10)
    by (auto simp: finish_request_def filled_request_def quiet_def Let_def v_def q_def)
qed

text \<open>Claim C2: for a file with the \<^verbatim>\<open>CMPR\<close> mark the body is read to a buffer of the size the
  header gives, it is decompressed to the requested address and the buffer is released.  The requests, also the
  second one to the buffer, are as the interface allows.\<close>

theorem DmaMgr_RequestSync_decompresses:
  assumes "pi_documented env rom" "quiet w" "D_8010ED50 w = []" "16 \<le> sz" "pi_aligned vrom ram sz" "mq \<noteq> NULL"
    "load32 rom vrom = Y65430UnkStruct_MAGIC" "0 < load32 rom (vrom + 4)"
    "func_80064D1C env (mem_copy (dw_mem w) rom vrom ram 16) (load32 rom (vrom + 4)) = (buf, m)" "buf \<noteq> NULL"
    "pi_aligned (vrom + 16) buf (load32 rom (vrom + 4))"
  shows "\<exists>w'. DmaMgr_RequestSync env w req mq ram vrom sz = Some w' \<and>
    dw_mem w' = func_80064E84 env (func_8006F560 env
        (mem_copy m rom (vrom + 16) buf (unat (load32 rom (vrom + 4)))) buf ram) buf \<and>
    dw_client w' = (dw_client w)(mq := []) \<and> quiet w' \<and> D_8010ED50 w' = []"
  using DmaMgr_request_decompresses [OF assms(1), of "reply_queue w mq" sz mq vrom ram buf m req] assms(2-11)
  by (simp add: DmaMgr_RequestSync_def)

theorem DmaMgr_RequestSync_decompresses_witness:
  "\<exists>w'. DmaMgr_RequestSync (sample_env cmpr_rom 0x2000) idle_world 16 32 0x1000 0 0x40 = Some w' \<and>
    dw_mem w' 0x1000 = 5"
proof -
  have "func_80064D1C (sample_env cmpr_rom 0x2000) (mem_copy (dw_mem idle_world) cmpr_rom 0 0x1000 16)
      (load32 cmpr_rom (0 + 4)) = (0x2000, mem_copy (dw_mem idle_world) cmpr_rom 0 0x1000 16)"
    by (simp add: sample_env_def)
  from DmaMgr_RequestSync_decompresses [OF sample_env_documented idle_world_quiet _ _ _ cmpr_rom_header(1) _ this,
      of "0x40" 32 16]
  obtain w' where "DmaMgr_RequestSync (sample_env cmpr_rom 0x2000) idle_world 16 32 0x1000 0 0x40 = Some w'"
    "dw_mem w' = func_80064E84 (sample_env cmpr_rom 0x2000) (func_8006F560 (sample_env cmpr_rom 0x2000)
        (mem_copy (mem_copy (dw_mem idle_world) cmpr_rom 0 0x1000 16) cmpr_rom (0 + 16) 0x2000
          (unat (load32 cmpr_rom (0 + 4)))) 0x2000 0x1000) 0x2000"
    using cmpr_rom_header(2) by (auto simp: pi_aligned_def)
  then show ?thesis
    using cmpr_rom_header(2) by (simp add: sample_env_def mem_copy_def in_block_def cmpr_rom_def)
qed


text \<open>when there is no memory for the buffer of a marked file, the DMA thread drops the
  request without a word, and the client that waits for it waits for ever.\<close>

theorem DmaMgr_RequestSync_hangs_without_memory:
  assumes "pi_documented env rom" "quiet w" "D_8010ED50 w = []" "16 \<le> sz" "pi_aligned vrom ram sz"
    "load32 rom vrom = Y65430UnkStruct_MAGIC"
    "fst (func_80064D1C env (mem_copy (dw_mem w) rom vrom ram 16) (load32 rom (vrom + 4))) = NULL"
  shows "DmaMgr_RequestSync env w req mq ram vrom sz = None"
proof -
  obtain m where "func_80064D1C env (mem_copy (dw_mem w) rom vrom ram 16) (load32 rom (vrom + 4)) = (NULL, m)"
    using assms(7) by (metis prod.collapse)
  with RequestSync_marked [OF assms(1), of "reply_queue w mq" sz mq vrom ram NULL m req] assms(2-6)
  obtain q where q: "DmaMgr_RequestSync env w req mq ram vrom sz =
      sync_wait env mq ((reply_queue w mq)\<lparr>dw_mem := m, D_8010ED50 := [], dw_pc := Wait_ED10, dw_req := q\<rparr>)" (is "_ = sync_wait env mq ?v")
    by (auto simp: DmaMgr_RequestSync_def)
  define v where "v = ?v"
  have v: "quiet v" "D_8010ED50 v = []" "dw_client v mq = []" "DmaMgr_RequestSync env w req mq ram vrom sz = sync_wait env mq v"
    using assms(2) q by (simp_all add: v_def quiet_def reply_queue_def)
  then have "dma_sched env v = None" by (simp add: quiet_def dma_sched_def DmaMgr_ThreadEntry_def)
  then show ?thesis using v by (simp add: sync_wait.simps [of env mq v])
qed

theorem DmaMgr_RequestSync_hangs_without_memory_witness:
  "DmaMgr_RequestSync (sample_env cmpr_rom 0) idle_world 16 32 0x1000 0 0x40 = None"
  by (rule DmaMgr_RequestSync_hangs_without_memory [OF sample_env_documented idle_world_quiet _ _ cmpr_rom_header(1)])
    (simp_all add: sample_env_def pi_aligned_def)


text \<open>the completions are matched to the requests by their order alone.  When a second
  client sends a request while the first chunk of another is being read, the first client is told
  that its file is there although the rest of it has not been transferred.\<close>

theorem DmaMgr_completion_overtaken:
  assumes "pi_documented env rom" "quiet w" "D_8010ED50 w = []" "r1 \<noteq> r2" "1 < dw_cmdCount w"
    "(0x1000 :: u32) < sz" "sz \<le> 0x2000" "load32 rom v1 \<noteq> Y65430UnkStruct_MAGIC" "mq1 \<noteq> NULL"
    "\<not> in_block a2 16 (a1 + 0x1000)" "pi_aligned v1 a1 sz" "pi_aligned v2 a2 16" "0 < dw_clientCount w mq1" "dw_client w mq1 = []"
  shows "\<exists>w0 w'. DmaMgr_SendRequest w r1 a1 v1 sz NULL mq1 0 = Some w0 \<and> (dma_step env)\<^sup>*\<^sup>* w0 w' \<and>
    dw_client w' mq1 \<noteq> [] \<and> dw_mem w' (a1 + 0x1000) = dw_mem w (a1 + 0x1000)"
proof -
  have pidma: "env_pidma env m v1 a1 16 = mem_copy m rom v1 a1 16" "env_pidma env m v1 a1 0x1000 = mem_copy m rom v1 a1 0x1000"
    "env_pidma env m v2 a2 16 = mem_copy m rom v2 a2 16" for m
    using pi_documentedD [OF assms(1) pi_parts(3) [OF assms(11)]] pi_documentedD [OF assms(1) pi_parts(2) [OF assms(11)]]
      pi_documentedD [OF assms(1,12)] by simp_all
  have sz: "\<not> sz < 16" "\<not> 0x1000 < sz - 0x1000"
    using assms(6,7) by (auto simp: word_less_nat_alt word_le_nat_alt unat_sub)
  define m1 where "m1 = mem_copy (dw_mem w) rom v1 a1 16"
  have magic: "load32 m1 a1 \<noteq> Y65430UnkStruct_MAGIC"
    using load32_mem_copy [of 16 0 "dw_mem w" rom v1 a1] assms(8) by (simp add: m1_def)
  define m2 where "m2 = mem_copy (mem_copy m1 rom v1 a1 0x1000) rom v2 a2 16"
  obtain w0 where w0: "DmaMgr_SendRequest w r1 a1 v1 sz NULL mq1 0 = Some w0"
    using assms(3) by (simp add: dma_exec Let_def)
  obtain w1 where w1: "dma_run env [L_client r1 a1 v1 sz mq1, L_fetch, L_done, L_thread, L_thread, L_thread] w = Some w1"
    and f1: "dw_mem w1 = m1" "dw_pc w1 = Wait_start r1 v1 a1 sz" "D_8010ED50 w1 = [r1]" "D_8010ED10 w1 = []"
      "dw_startQueue w1 = []" "dw_cmdQueue w1 = [r1]" "dw_busy w1 = None" "dw_cmdCount w1 = dw_cmdCount w"
      "\<not> unk10 (dw_req w1 r1)" "unk11 (dw_req w1 r1) = 0" "dr_queue (dw_req w1 r1) = mq1" "dr_msg (dw_req w1 r1) = 0"
      "dr_ioMsg (dw_req w1 r1) = \<lparr>io_pri = 0, io_retQueue = Ret_startQueue, io_dramAddr = a1, io_devAddr = v1, io_size = 0x1000\<rparr>"
      "dr_pri (dw_req w1 r1) = OS_MESG_PRI_NORMAL" "dw_client w1 mq1 = []" "0 < dw_clientCount w1 mq1" "dw_active w1"
    using assms(2,3,6,13,14) sz magic
    by (simp add: dma_exec quiet_def Let_def pidma OS_MESG_PRI_NORMAL_def OS_MESG_PRI_HIGH_def flip: m1_def)
  obtain w2 where w2: "dma_run env [L_fetch, L_client r2 a2 v2 16 NULL, L_done, L_fetch, L_done] w1 = Some w2"
    and f2: "dw_mem w2 = m2" "dw_pc w2 = Wait_start r1 v1 a1 sz" "D_8010ED50 w2 = [r1, r2]" "D_8010ED10 w2 = [r2]"
      "dw_startQueue w2 = [r1]" "dw_cmdQueue w2 = []" "dw_busy w2 = None" "dw_cmdCount w2 = dw_cmdCount w"
      "dw_req w2 r1 = dw_req w1 r1" "dw_client w2 mq1 = []" "0 < dw_clientCount w2 mq1" "dw_active w2"
    using f1 assms(4,5)
    by (simp add: dma_exec Let_def pidma OS_MESG_PRI_NORMAL_def OS_MESG_PRI_HIGH_def m2_def)
  obtain w3 where w3: "dma_run env [L_thread, L_thread, L_thread] w2 = Some w3"
    and f3: "dw_mem w3 = m2" "dw_client w3 mq1 \<noteq> []"
    using f2 f1(9-14) assms(5,9) sz
    by (simp add: dma_exec Let_def OS_MESG_PRI_NORMAL_def OS_MESG_PRI_HIGH_def)
  have "dw_mem w3 (a1 + 0x1000) = dw_mem w (a1 + 0x1000)"
    using assms(10) by (simp add: f3 m2_def m1_def mem_copy_def in_block_def)
  moreover have "dma_run env [L_fetch, L_done, L_thread, L_thread, L_thread] w0 = Some w1"
    using w1 w0 by simp
  then have "(dma_step env)\<^sup>*\<^sup>* w0 w3"
    using dma_run_steps dma_run_steps [OF w2] dma_run_steps [OF w3] by (meson rtranclp_trans)
  ultimately show ?thesis using w0 f3(2) by blast
qed

theorem DmaMgr_completion_overtaken_witness:
  "\<exists>w0 w'. DmaMgr_SendRequest idle_world 16 0x1000 0 0x1800 NULL 32 0 = Some w0 \<and>
    (dma_step (sample_env (\<lambda>_. 7) 0))\<^sup>*\<^sup>* w0 w' \<and> dw_client w' 32 \<noteq> [] \<and> dw_mem w' 0x2000 = 0"
  using DmaMgr_completion_overtaken [OF sample_env_documented [of "\<lambda>_. 7" 0] idle_world_quiet, of 16 17 "0x1800"
      0 32 "0x8000" "0x1000" 0] plain_rom_header [of 0]
  by (simp add: idle_world_def in_block_def pi_aligned_def)


end
