(* ===== verification/LoadFragment2.thy ===== *)
theory LoadFragment2
  imports DmaMgr
begin

section \<open>Relocation of overlays\<close>

text \<open>
  \<^verbatim>\<open>src/main/O2/loadfragment2.c\<close>: an overlay is read to memory, the words its relocation
  table names are moved from the address it was linked at to the one it was loaded at, and its
  uninitialised data is cleared.  The table and the header in front of it are read from the same
  memory that the relocation changes, word by word and again for each entry.  The arrays
  \<^verbatim>\<open>luiRefs\<close> and \<^verbatim>\<open>luiVals\<close> are not initialised by the code, so what they hold at first is a
  parameter.  The messages for the log have no effect.
\<close>

record reloc_state =
  rl_mem :: mem
  luiRefs :: "u32 \<Rightarrow> ptr"
  luiVals :: "u32 \<Rightarrow> u32"

definition R_MIPS_32 :: u32 where "R_MIPS_32 = 2"
definition R_MIPS_26 :: u32 where "R_MIPS_26 = 4"
definition R_MIPS_HI16 :: u32 where "R_MIPS_HI16 = 5"
definition R_MIPS_LO16 :: u32 where "R_MIPS_LO16 = 6"

definition RELOC_SECTION :: "u32 \<Rightarrow> u32" where "RELOC_SECTION reloc = drop_bit 30 reloc"
definition RELOC_OFFSET :: "u32 \<Rightarrow> u32" where "RELOC_OFFSET reloc = reloc AND 0xFFFFFF"
definition RELOC_TYPE_MASK :: "u32 \<Rightarrow> u32" where "RELOC_TYPE_MASK reloc = reloc AND 0x3F000000"
definition MIPS_JUMP_TARGET :: "u32 \<Rightarrow> u32" where "MIPS_JUMP_TARGET insn = push_bit 2 (insn AND 0x03FFFFFF)"
definition PHYS_TO_K0 :: "u32 \<Rightarrow> u32" where "PHYS_TO_K0 x = x OR 0x80000000"

definition mips_reg_rs :: "u32 \<Rightarrow> u32" where "mips_reg_rs insn = drop_bit 0x15 insn AND 0x1F"
definition mips_reg_rt :: "u32 \<Rightarrow> u32" where "mips_reg_rt insn = drop_bit 0x10 insn AND 0x1F"

lemmas r_mips_defs = R_MIPS_32_def R_MIPS_26_def R_MIPS_HI16_def R_MIPS_LO16_def

text \<open>The body of the loop: \<open>p\<close> is \<^verbatim>\<open>relocDataP\<close>.\<close>

definition reloc_entry :: "u32 \<Rightarrow> u32 \<Rightarrow> u32 \<Rightarrow> ptr \<Rightarrow> reloc_state \<Rightarrow> reloc_state" where
  "reloc_entry vramStart allocu32 reloc p s =
     (let ty = RELOC_TYPE_MASK reloc; w = load32 (rl_mem s) p in
      if ty = push_bit 24 R_MIPS_32 then
        (if w AND 0x0F000000 = 0
         then s\<lparr>rl_mem := store32 (rl_mem s) p (w - vramStart + allocu32)\<rparr> else s)
      else if ty = push_bit 24 R_MIPS_26 then
        s\<lparr>rl_mem := store32 (rl_mem s) p
            ((w AND 0xFC000000) OR
             drop_bit 2 ((PHYS_TO_K0 (MIPS_JUMP_TARGET w) - vramStart + allocu32) AND 0x0FFFFFFF))\<rparr>
      else if ty = push_bit 24 R_MIPS_HI16 then
        s\<lparr>luiRefs := (luiRefs s)(mips_reg_rt w := p), luiVals := (luiVals s)(mips_reg_rt w := w)\<rparr>
      else if ty = push_bit 24 R_MIPS_LO16 then
        (let luiInstRef = luiRefs s (mips_reg_rs w);
             regVal = luiVals s (mips_reg_rs w);
             lui = load32 (rl_mem s) luiInstRef
         in if (push_bit 0x10 lui + sext16 w) AND 0x0F000000 = 0 then
              (let relocatedAddress = (push_bit 0x10 regVal + sext16 w) - vramStart + allocu32;
                   isLoNeg = (if relocatedAddress AND 0x8000 \<noteq> 0 then 1 else 0);
                   m1 = store32 (rl_mem s) luiInstRef
                     ((lui AND 0xFFFF0000) OR ((drop_bit 0x10 relocatedAddress AND 0xFFFF) + isLoNeg));
                   w1 = load32 m1 p
               in s\<lparr>rl_mem := store32 m1 p ((w1 AND 0xFFFF0000) OR (relocatedAddress AND 0xFFFF))\<rparr>)
            else s)
      else s)"

definition reloc_target :: "(u32 \<Rightarrow> u32) \<Rightarrow> u32 \<Rightarrow> ptr" where
  "reloc_target sections reloc = sections (RELOC_SECTION reloc) + RELOC_OFFSET reloc"

text \<open>The loop over the table; its bound is read again before each turn.\<close>

function reloc_loop :: "(u32 \<Rightarrow> u32) \<Rightarrow> ptr \<Rightarrow> u32 \<Rightarrow> u32 \<Rightarrow> u32 \<Rightarrow> reloc_state \<Rightarrow> reloc_state" where
  "reloc_loop sections ovl vramStart allocu32 i s =
     (if i < load32 (rl_mem s) (ovl + 0x10)
      then (let reloc = load32 (rl_mem s) (ovl + 0x14 + 4 * i)
            in reloc_loop sections ovl vramStart allocu32 (i + 1)
                 (reloc_entry vramStart allocu32 reloc (reloc_target sections reloc) s))
      else s)"
  by pat_completeness auto
termination
proof (relation "measure (\<lambda>(_, _, _, _, i, _). 2 ^ 32 - unat i)")
  fix ovl i and s :: reloc_state and sections :: "u32 \<Rightarrow> u32" and v a reloc :: u32 and x
  assume "i < load32 (rl_mem s) (ovl + 0x10)"
  then have "unat i < unat (load32 (rl_mem s) (ovl + 0x10))" by (simp add: word_less_nat_alt)
  moreover have "unat (load32 (rl_mem s) (ovl + 0x10)) < 2 ^ 32"
    using unsigned_less [of "load32 (rl_mem s) (ovl + 0x10)", where 'a = nat] by simp
  ultimately have "unat (i + 1) = unat i + 1" "unat i < 2 ^ 32"
    by (simp_all add: unat_word_ariths(1) take_bit_nat_eq_self)
  then show "((sections, ovl, v, a, i + 1, x), sections, ovl, v, a, i, s)
      \<in> measure (\<lambda>(_, _, _, _, i, _). 2 ^ 32 - unat i)" by simp
qed simp

declare reloc_loop.simps [simp del]

definition reloc_sections :: "u32 \<Rightarrow> u32 \<Rightarrow> u32 \<Rightarrow> u32 \<Rightarrow> u32" where
  "reloc_sections allocu32 textSize dataSize sec =
     (if sec = 0 then 0 else if sec = 1 then allocu32 else if sec = 2 then allocu32 + textSize
      else allocu32 + textSize + dataSize)"

definition DoRelocation ::
  "mem \<Rightarrow> ptr \<Rightarrow> ptr \<Rightarrow> u32 \<Rightarrow> (u32 \<Rightarrow> ptr) \<Rightarrow> (u32 \<Rightarrow> u32) \<Rightarrow> mem" where
  "DoRelocation m allocatedRamAddr ovl vramStart refs vals =
     rl_mem (reloc_loop (reloc_sections allocatedRamAddr (load32 m ovl) (load32 m (ovl + 4)))
       ovl vramStart allocatedRamAddr 0 \<lparr>rl_mem = m, luiRefs = refs, luiVals = vals\<rparr>)"

text \<open>The library's \<^verbatim>\<open>bzero\<close> takes an \<^verbatim>\<open>int\<close> and does nothing for a negative length; \<^verbatim>\<open>bssSize\<close> is an \<^verbatim>\<open>s32\<close>.\<close>

definition bzero :: "mem \<Rightarrow> ptr \<Rightarrow> s32 \<Rightarrow> mem" where
  "bzero m p n = mem_fill m p (nat (sint n)) 0"

text \<open>\<^verbatim>\<open>Overlay_Load\<close>: the transfer is a synchronous request to the DMA manager.\<close>

definition Overlay_Load ::
  "dma_env \<Rightarrow> dma_world \<Rightarrow> ptr \<Rightarrow> ptr \<Rightarrow> (u32 \<Rightarrow> ptr) \<Rightarrow> (u32 \<Rightarrow> u32) \<Rightarrow>
   u32 \<Rightarrow> u32 \<Rightarrow> u32 \<Rightarrow> u32 \<Rightarrow> ptr \<Rightarrow> (u32 \<times> dma_world) option" where
  "Overlay_Load env w req mq refs vals vromStart vromEnd vramStart vramEnd allocatedRamAddr =
     (let size = vromEnd - vromStart;
          fin = allocatedRamAddr + size
      in do { w1 \<leftarrow> DmaMgr_RequestSync env w req mq allocatedRamAddr vromStart size;
              let ovl = fin - load32 (dw_mem w1) (fin - 4);
                  m2 = DoRelocation (dw_mem w1) allocatedRamAddr ovl vramStart refs vals;
                  bssSize = load32 m2 (ovl + 0xC);
                  m3 = (if bssSize \<noteq> 0 then bzero m2 fin bssSize else m2)
              in Some (vramEnd - vramStart, w1\<lparr>dw_mem := m3\<rparr>) })"

definition Overlay_AllocateAndLoad ::
  "(mem \<Rightarrow> u32 \<Rightarrow> ptr \<times> mem) \<Rightarrow> dma_env \<Rightarrow> dma_world \<Rightarrow> ptr \<Rightarrow> ptr \<Rightarrow> (u32 \<Rightarrow> ptr) \<Rightarrow> (u32 \<Rightarrow> u32) \<Rightarrow>
   u32 \<Rightarrow> u32 \<Rightarrow> u32 \<Rightarrow> u32 \<Rightarrow> (ptr \<times> dma_world) option" where
  "Overlay_AllocateAndLoad func_80064DD0 env w req mq refs vals vromStart vromEnd vramStart vramEnd =
     (case func_80064DD0 (dw_mem w) (vramEnd - vramStart) of (allocatedRamAddr, m) \<Rightarrow>
        (let w0 = w\<lparr>dw_mem := m\<rparr>
         in if allocatedRamAddr \<noteq> NULL
            then do { (_, w1) \<leftarrow> Overlay_Load env w0 req mq refs vals vromStart vromEnd vramStart vramEnd
                        allocatedRamAddr;
                      Some (allocatedRamAddr, w1) }
            else Some (allocatedRamAddr, w0)))"

subsection \<open>The loop as a fold over the table\<close>

definition reloc_step :: "(u32 \<Rightarrow> u32) \<Rightarrow> u32 \<Rightarrow> u32 \<Rightarrow> u32 \<Rightarrow> reloc_state \<Rightarrow> reloc_state" where
  "reloc_step sections v a reloc s = reloc_entry v a reloc (reloc_target sections reloc) s"

definition table_in :: "mem \<Rightarrow> ptr \<Rightarrow> u32 list \<Rightarrow> bool" where
  "table_in m ovl rs \<longleftrightarrow> length rs < 2 ^ 30 \<and> load32 m (ovl + 0x10) = of_nat (length rs) \<and>
     (\<forall>k<length rs. load32 m (ovl + 0x14 + 4 * of_nat k) = rs ! k)"

lemma reloc_loop_fold:
  assumes "\<And>k. k \<le> length rs \<Longrightarrow> table_in (rl_mem (fold (reloc_step sections v a) (take k rs) s)) ovl rs"
    "i \<le> length rs"
  shows "reloc_loop sections ovl v a (of_nat i) (fold (reloc_step sections v a) (take i rs) s) =
    fold (reloc_step sections v a) rs s"
  using assms(2)
proof (induction "length rs - i" arbitrary: i)
  case 0
  then have "load32 (rl_mem (fold (reloc_step sections v a) (take i rs) s)) (ovl + 0x10) = of_nat i"
    using assms(1) [of i] by (simp add: table_in_def)
  then show ?case using 0 by (subst reloc_loop.simps) simp
next
  case (Suc n)
  then have i: "i < length rs" by simp
  let ?s = "fold (reloc_step sections v a) (take i rs) s"
  have t: "table_in (rl_mem ?s) ovl rs" using assms(1) i by simp
  have "unat (of_nat i :: ptr) = i" "unat (of_nat (length rs) :: ptr) = length rs"
    using t i by (simp_all add: table_in_def unat_ptr_of_nat)
  then have "(of_nat i :: ptr) < of_nat (length rs)" using i by (simp only: word_less_nat_alt)
  moreover have "fold (reloc_step sections v a) (take (Suc i) rs) s = reloc_step sections v a (rs ! i) ?s"
    using i by (simp add: take_Suc_conv_app_nth)
  moreover have "reloc_loop sections ovl v a (of_nat (Suc i)) (fold (reloc_step sections v a) (take (Suc i) rs) s)
      = fold (reloc_step sections v a) rs s"
    using Suc i by (intro Suc.hyps(1)) simp_all
  ultimately show ?case
    using t i by (subst reloc_loop.simps) (simp add: table_in_def reloc_step_def Let_def add.commute)
qed

definition table_addrs :: "ptr \<Rightarrow> nat \<Rightarrow> ptr set" where
  "table_addrs ovl n = insert (ovl + 0x10) ((\<lambda>k. ovl + 0x14 + 4 * of_nat k) ` {..<n})"

lemma aligned4_add:
  assumes "aligned4 a"
  shows "aligned4 (a + 4 * k)"
proof -
  have "unat (a + 4 * k) = (unat a + 4 * unat k) mod 2 ^ 32"
    by (simp add: unat_word_ariths mod_simps)
  then have "unat (a + 4 * k) mod 4 = (unat a + 4 * unat k) mod 4"
    by (simp add: mod_mod_cancel)
  with assms show ?thesis by (simp add: aligned4_iff)
qed

lemma table_addrs_aligned: "aligned4 ovl \<Longrightarrow> x \<in> table_addrs ovl n \<Longrightarrow> aligned4 x"
  using aligned4_add [of ovl 4] aligned4_add [of ovl "5 + of_nat k" for k]
  by (auto simp: table_addrs_def algebra_simps)

lemma table_in_cong:
  assumes "table_in m ovl rs" "\<And>x. x \<in> table_addrs ovl (length rs) \<Longrightarrow> load32 m' x = load32 m x"
  shows "table_in m' ovl rs"
  using assms by (auto simp: table_in_def table_addrs_def)

subsection \<open>Entries for a single word\<close>

definition reloc_jump :: "u32 \<Rightarrow> u32 \<Rightarrow> u32" where
  "reloc_jump w d = (w AND 0xFC000000) OR drop_bit 2 (d AND 0x0FFFFFFF)"

definition reloc_word :: "u32 \<Rightarrow> u32 \<Rightarrow> u32 \<Rightarrow> u32 \<Rightarrow> u32" where
  "reloc_word v a reloc w =
     (if RELOC_TYPE_MASK reloc = push_bit 24 R_MIPS_32
      then (if w AND 0x0F000000 = 0 then w - v + a else w)
      else reloc_jump w (PHYS_TO_K0 (MIPS_JUMP_TARGET w) - v + a))"

definition word_entry :: "u32 \<Rightarrow> bool" where
  "word_entry reloc \<longleftrightarrow> RELOC_TYPE_MASK reloc \<in> {push_bit 24 R_MIPS_32, push_bit 24 R_MIPS_26}"

lemma reloc_step_word:
  assumes "word_entry r" "aligned4 (reloc_target sec r)" "aligned4 x"
  shows "load32 (rl_mem (reloc_step sec v a r s)) x =
    (if x = reloc_target sec r then reloc_word v a r (load32 (rl_mem s) x) else load32 (rl_mem s) x)"
proof -
  have "RELOC_TYPE_MASK r = push_bit 24 R_MIPS_32 \<or> RELOC_TYPE_MASK r = push_bit 24 R_MIPS_26"
    "push_bit 24 R_MIPS_32 \<noteq> push_bit 24 R_MIPS_26"
    using assms(1) by (auto simp: word_entry_def r_mips_defs)
  then show ?thesis
    using assms(2,3) by (auto simp: reloc_step_def reloc_entry_def reloc_word_def reloc_jump_def Let_def load32_store32_other)
qed

lemma fold_reloc_words:
  assumes "\<And>r. r \<in> set rs \<Longrightarrow> word_entry r \<and> aligned4 (reloc_target sec r)" "distinct (map (reloc_target sec) rs)"
    "aligned4 x"
  shows "load32 (rl_mem (fold (reloc_step sec v a) rs s)) x =
    (case find (\<lambda>r. reloc_target sec r = x) rs of
       Some r \<Rightarrow> reloc_word v a r (load32 (rl_mem s) x) | None \<Rightarrow> load32 (rl_mem s) x)"
  using assms(1,2)
proof (induction rs arbitrary: s)
  case (Cons r rs)
  have nf: "find (\<lambda>r. reloc_target sec r = x) rs = None" if "reloc_target sec r = x"
    using Cons.prems(2) that unfolding find_None_iff by (metis distinct.simps(2) image_eqI list.set_map list.simps(9))
  have "word_entry r" "aligned4 (reloc_target sec r)" using Cons.prems(1) by auto
  from reloc_step_word [OF this assms(3), of v a s] show ?case
    using Cons.IH [of "reloc_step sec v a r s"] Cons.prems nf
    by (auto split: option.splits)
qed simp

lemma find_target:
  assumes "distinct (map (reloc_target sec) rs)" "r \<in> set rs"
  shows "find (\<lambda>q. reloc_target sec q = reloc_target sec r) rs = Some r"
  using assms by (induction rs) auto

text \<open>The address a jump instruction in \<^verbatim>\<open>KSEG0\<close> goes to.\<close>

definition jump_dest :: "u32 \<Rightarrow> u32" where
  "jump_dest w = PHYS_TO_K0 (MIPS_JUMP_TARGET w)"

lemma jump_masks:
  "(0x03FFFFFF :: u32) = mask 26" "(0xFC000000 :: u32) = NOT (mask 26)" "(0x0FFFFFFF :: u32) = mask 28"
  "(3 :: u32) = mask 2" "(0xF0000000 :: u32) = NOT (mask 28)" "(0x80000000 :: u32) = push_bit 31 1"
  by (simp_all add: mask_eq_exp_minus_1 push_bit_eq_mult)

lemma jump_dest_reloc:
  assumes "d AND 3 = 0" "d AND 0xF0000000 = 0x80000000"
  shows "jump_dest (reloc_jump w d) = d"
proof (rule bit_word_eqI)
  fix n assume n: "n < LENGTH(32)"
  have "bit (d AND 3) n = bit (0 :: u32) n" "bit (d AND 0xF0000000) n = bit (0x80000000 :: u32) n"
    by (simp_all only: assms)
  note bits = this [unfolded jump_masks]
  show "bit (jump_dest (reloc_jump w d)) n = bit d n"
  proof (cases "n < 2")
    case True
    then show ?thesis using bits n unfolding reloc_jump_def jump_dest_def PHYS_TO_K0_def MIPS_JUMP_TARGET_def jump_masks
      by (simp add: bit_simps)
  next
    case False
    then obtain k where "n = Suc (Suc k)" by (metis One_nat_def less_2_cases_iff not0_implies_Suc)
    then show ?thesis using bits n unfolding reloc_jump_def jump_dest_def PHYS_TO_K0_def MIPS_JUMP_TARGET_def jump_masks
      by (auto simp: bit_simps)
  qed
qed

lemma jump_opcode_reloc:
  "reloc_jump w d AND 0xFC000000 = w AND 0xFC000000"
  unfolding reloc_jump_def jump_masks by (rule bit_word_eqI) (auto simp: bit_simps)

text \<open>The layout that a relocation of words needs: the entries are for distinct aligned words
  outside the table itself.\<close>

definition words_table :: "mem \<Rightarrow> ptr \<Rightarrow> (u32 \<Rightarrow> u32) \<Rightarrow> u32 list \<Rightarrow> bool" where
  "words_table m ovl sec rs \<longleftrightarrow> aligned4 ovl \<and> table_in m ovl rs \<and> distinct (map (reloc_target sec) rs) \<and>
     (\<forall>r \<in> set rs. word_entry r \<and> aligned4 (reloc_target sec r) \<and>
        reloc_target sec r \<notin> table_addrs ovl (length rs))"

lemma DoRelocation_words:
  assumes "words_table m ovl (reloc_sections a (load32 m ovl) (load32 m (ovl + 4))) rs" "aligned4 x"
  shows "load32 (DoRelocation m a ovl v refs vals) x =
    (case find (\<lambda>r. reloc_target (reloc_sections a (load32 m ovl) (load32 m (ovl + 4))) r = x) rs of
       Some r \<Rightarrow> reloc_word v a r (load32 m x) | None \<Rightarrow> load32 m x)"
proof -
  let ?sec = "reloc_sections a (load32 m ovl) (load32 m (ovl + 4))"
  let ?s = "\<lparr>rl_mem = m, luiRefs = refs, luiVals = vals\<rparr>"
  have t: "table_in (rl_mem (fold (reloc_step ?sec v a) (take k rs) ?s)) ovl rs" for k
  proof (rule table_in_cong)
    show "table_in m ovl rs" using assms(1) by (simp add: words_table_def)
    fix y assume y: "y \<in> table_addrs ovl (length rs)"
    have "aligned4 y" using y assms(1) by (auto simp: words_table_def intro: table_addrs_aligned)
    moreover have "distinct (map (reloc_target ?sec) (take k rs))"
      using assms(1) by (simp add: words_table_def flip: take_map)
    moreover have "find (\<lambda>r. reloc_target ?sec r = y) (take k rs) = None"
      using assms(1) y by (auto simp: words_table_def find_None_iff dest: in_set_takeD)
    ultimately show "load32 (rl_mem (fold (reloc_step ?sec v a) (take k rs) ?s)) y = load32 m y"
      using assms(1) by (subst fold_reloc_words) (auto simp: words_table_def dest: in_set_takeD)
  qed
  have "DoRelocation m a ovl v refs vals = rl_mem (fold (reloc_step ?sec v a) rs ?s)"
    using reloc_loop_fold [OF t, of 0] by (simp add: DoRelocation_def)
  moreover have "load32 (rl_mem (fold (reloc_step ?sec v a) rs ?s)) x =
      (case find (\<lambda>r. reloc_target ?sec r = x) rs of
         Some r \<Rightarrow> reloc_word v a r (load32 m x) | None \<Rightarrow> load32 m x)"
    using assms by (subst fold_reloc_words) (auto simp: words_table_def split: option.splits)
  ultimately show ?thesis by simp
qed

subsection \<open>Entries for a pair of instructions\<close>

text \<open>The address a \<^verbatim>\<open>lui\<close> and an instruction with a signed immediate form together.\<close>

definition pair_value :: "u32 \<Rightarrow> u32 \<Rightarrow> u32" where
  "pair_value lui lo = push_bit 16 lui + sext16 lo"

lemma sext16_eq: "sext16 w = take_bit 16 w - (if bit w 15 then 0x10000 else 0)"
proof -
  have "sext16 w = signed_take_bit 15 w"
    unfolding sext16_def by (rule bit_word_eqI) (auto simp: bit_simps min_def)
  also have "\<dots> = take_bit 16 w - (if bit w 15 then 0x10000 else 0)"
    by (simp add: signed_take_bit_eq_take_bit_minus)
  finally show ?thesis .
qed

lemma half_masks: "(0xFFFF :: u32) = mask 16" "(0xFFFF0000 :: u32) = NOT (mask 16)"
  by (simp_all add: mask_eq_exp_minus_1)

lemma and_single_bit: "x AND push_bit n 1 = push_bit n (of_bool (bit (x :: u32) n))"
  by (rule bit_word_eqI) (auto simp: bit_simps)

lemma and_0x8000: "(x AND 0x8000 \<noteq> 0) = bit (x :: u32) 15"
  using and_single_bit [of x 15] by (simp add: push_bit_eq_mult)

lemma sext16_low_half: "sext16 ((w AND 0xFFFF0000) OR (rel AND 0xFFFF)) = sext16 rel"
  unfolding sext16_def half_masks by (rule bit_word_eqI) (auto simp: bit_simps min_def)

lemma push_high_half:
  fixes lui rel :: u32
  shows "push_bit 16 ((lui AND 0xFFFF0000) OR ((drop_bit 16 rel AND 0xFFFF) + (if rel AND 0x8000 \<noteq> 0 then 1 else 0)))
    = rel - sext16 rel"
proof -
  have "push_bit 16 (lui AND 0xFFFF0000) = 0"
    unfolding half_masks by (rule bit_word_eqI) (auto simp: bit_simps)
  moreover have "push_bit 16 (drop_bit 16 rel AND 0xFFFF) = push_bit 16 (drop_bit 16 rel)"
    unfolding half_masks by (rule bit_word_eqI) (auto simp: bit_simps)
  moreover have "push_bit 16 (drop_bit 16 rel) = rel - take_bit 16 rel"
    using bits_ident [of 16 rel] by (simp add: algebra_simps)
  ultimately show ?thesis
    by (simp add: push_bit_or push_bit_add sext16_eq and_0x8000)
qed

definition lo_value :: "u32 \<Rightarrow> u32 \<Rightarrow> u32 \<Rightarrow> u32 \<Rightarrow> u32" where
  "lo_value v a lui w = pair_value lui w - v + a"

definition lo_entry :: "u32 \<Rightarrow> bool" where
  "lo_entry reloc \<longleftrightarrow> RELOC_TYPE_MASK reloc = push_bit 24 R_MIPS_LO16"

lemma reloc_step_lo:
  fixes v a :: u32 and s :: reloc_state
  assumes "lo_entry r" "reloc_target sec r = b" "mips_reg_rs (load32 (rl_mem s) b) = reg"
    "luiRefs s reg = al" "luiVals s reg = lui" "aligned4 al" "aligned4 b" "al \<noteq> b"
    "pair_value (load32 (rl_mem s) al) (load32 (rl_mem s) b) AND 0x0F000000 = 0"
  defines "rel \<equiv> lo_value v a lui (load32 (rl_mem s) b)"
  defines "s' \<equiv> reloc_step sec v a r s"
  shows "luiRefs s' = luiRefs s" "luiVals s' = luiVals s"
    "push_bit 16 (load32 (rl_mem s') al) = rel - sext16 rel"
    "sext16 (load32 (rl_mem s') b) = sext16 rel"
    "aligned4 x \<Longrightarrow> x \<noteq> al \<Longrightarrow> x \<noteq> b \<Longrightarrow> load32 (rl_mem s') x = load32 (rl_mem s) x"
proof -
  define m1 where "m1 = store32 (rl_mem s) al ((load32 (rl_mem s) al AND 0xFFFF0000) OR
    ((drop_bit 16 rel AND 0xFFFF) + (if rel AND 0x8000 \<noteq> 0 then 1 else 0)))"
  have t: "push_bit 24 R_MIPS_LO16 \<noteq> push_bit 24 R_MIPS_32" "push_bit 24 R_MIPS_LO16 \<noteq> push_bit 24 R_MIPS_26"
    "push_bit 24 R_MIPS_LO16 \<noteq> push_bit 24 R_MIPS_HI16"
    by (simp_all add: r_mips_defs)
  have s': "s' = s\<lparr>rl_mem := store32 m1 b ((load32 m1 b AND 0xFFFF0000) OR (rel AND 0xFFFF))\<rparr>"
    using assms(1-5,9) t
    by (simp add: s'_def reloc_step_def reloc_entry_def lo_entry_def Let_def m1_def rel_def lo_value_def pair_value_def)
  show "luiRefs s' = luiRefs s" "luiVals s' = luiVals s" by (simp_all add: s')
  show "push_bit 16 (load32 (rl_mem s') al) = rel - sext16 rel"
    using assms(6-8) push_high_half by (simp add: s' load32_store32_other m1_def)
  show "sext16 (load32 (rl_mem s') b) = sext16 rel"
    by (simp add: s' sext16_low_half)
  show "aligned4 x \<Longrightarrow> x \<noteq> al \<Longrightarrow> x \<noteq> b \<Longrightarrow> load32 (rl_mem s') x = load32 (rl_mem s) x"
    using assms(6,7) by (simp add: s' load32_store32_other m1_def)
qed

text \<open>Several instructions that share one \<^verbatim>\<open>lui\<close>: all their addresses need the same upper half.\<close>

definition lo_entries :: "mem \<Rightarrow> (u32 \<Rightarrow> u32) \<Rightarrow> u32 \<Rightarrow> u32 \<Rightarrow> u32 \<Rightarrow> ptr \<Rightarrow> u32 \<Rightarrow> u32 \<Rightarrow> u32 list \<Rightarrow> bool" where
  "lo_entries m sec v a reg al lui upper los \<longleftrightarrow>
     distinct (map (reloc_target sec) los) \<and>
     (\<forall>r \<in> set los. let b = reloc_target sec r; w = load32 m b; rel = lo_value v a lui w in
        lo_entry r \<and> aligned4 b \<and> b \<noteq> al \<and> mips_reg_rs w = reg \<and> rel - sext16 rel = upper \<and>
        pair_value lui w AND 0x0F000000 = 0 \<and> (upper + sext16 w) AND 0x0F000000 = 0)"

lemma fold_reloc_lo:
  assumes "lo_entries (rl_mem s) sec v a reg al lui upper los" "aligned4 al"
    "luiRefs s reg = al" "luiVals s reg = lui"
    "push_bit 16 (load32 (rl_mem s) al) \<in> {push_bit 16 lui, upper}"
  defines "s' \<equiv> fold (reloc_step sec v a) los s"
  shows "(\<forall>r \<in> set los. sext16 (load32 (rl_mem s') (reloc_target sec r)) =
        sext16 (lo_value v a lui (load32 (rl_mem s) (reloc_target sec r)))) \<and>
    (los \<noteq> [] \<or> push_bit 16 (load32 (rl_mem s) al) = upper \<longrightarrow> push_bit 16 (load32 (rl_mem s') al) = upper) \<and>
    (\<forall>x. aligned4 x \<and> x \<noteq> al \<and> x \<notin> reloc_target sec ` set los \<longrightarrow> load32 (rl_mem s') x = load32 (rl_mem s) x)"
  unfolding s'_def using assms(1,3-5)
proof (induction los arbitrary: s)
  case (Cons r los)
  let ?b = "reloc_target sec r" and ?s = "reloc_step sec v a r s"
  let ?w = "load32 (rl_mem s) ?b"
  have r: "lo_entry r" "aligned4 ?b" "?b \<noteq> al" "mips_reg_rs ?w = reg" "pair_value lui ?w AND 0x0F000000 = 0"
    "lo_value v a lui ?w - sext16 (lo_value v a lui ?w) = upper" "(upper + sext16 ?w) AND 0x0F000000 = 0"
    using Cons.prems(1) by (auto simp: lo_entries_def Let_def)
  have "pair_value (load32 (rl_mem s) al) ?w AND 0x0F000000 = 0"
    using Cons.prems(4) r(5,7) by (auto simp: pair_value_def)
  note st = reloc_step_lo [OF r(1) refl r(4) Cons.prems(2,3) assms(2) r(2) r(3) [symmetric] this, where v = v and a = a]
  have up: "push_bit 16 (load32 (rl_mem ?s) al) = upper" using st(3) r(6) by simp
  have same: "load32 (rl_mem ?s) (reloc_target sec q) = load32 (rl_mem s) (reloc_target sec q)"
    if "q \<in> set los" for q
  proof (rule st(5))
    show "aligned4 (reloc_target sec q)" "reloc_target sec q \<noteq> al"
      using Cons.prems(1) that by (auto simp: lo_entries_def Let_def)
    have "reloc_target sec r \<notin> reloc_target sec ` set los" using Cons.prems(1) by (simp add: lo_entries_def)
    then show "reloc_target sec q \<noteq> reloc_target sec r" using that by (metis imageI)
  qed
  have "lo_entries (rl_mem ?s) sec v a reg al lui upper los"
    using Cons.prems(1) by (auto simp: lo_entries_def Let_def same)
  from Cons.IH [OF this] st(1,2) Cons.prems(2,3) up
  have IH: "\<And>q. q \<in> set los \<Longrightarrow> sext16 (load32 (rl_mem (fold (reloc_step sec v a) los ?s)) (reloc_target sec q)) =
        sext16 (lo_value v a lui (load32 (rl_mem ?s) (reloc_target sec q)))"
    "push_bit 16 (load32 (rl_mem (fold (reloc_step sec v a) los ?s)) al) = upper"
    "\<And>x. aligned4 x \<Longrightarrow> x \<noteq> al \<Longrightarrow> x \<notin> reloc_target sec ` set los \<Longrightarrow>
       load32 (rl_mem (fold (reloc_step sec v a) los ?s)) x = load32 (rl_mem ?s) x"
    by auto
  have "?b \<notin> reloc_target sec ` set los" using Cons.prems(1) by (simp add: lo_entries_def)
  then have "sext16 (load32 (rl_mem (fold (reloc_step sec v a) los ?s)) ?b) = sext16 (lo_value v a lui ?w)"
    using IH(3) [OF r(2,3)] st(4) by simp
  moreover have "load32 (rl_mem (fold (reloc_step sec v a) los ?s)) x = load32 (rl_mem s) x"
    if "aligned4 x" "x \<noteq> al" "x \<noteq> ?b" "x \<notin> reloc_target sec ` set los" for x
    using IH(3) that st(5) by simp
  ultimately show ?case using IH(1,2) same by auto
qed simp

subsection \<open>The last word of a file\<close>

lemma load32_mem_copy_last:
  fixes n :: u32
  assumes "4 \<le> n"
  shows "load32 (mem_copy m f s d (unat n)) (d + n - 4) = load32 f (s + n - 4)"
proof -
  have n: "4 \<le> unat n" "unat n < 2 ^ 32"
    using assms unsigned_less [of n, where 'a = nat] by (simp_all add: word_le_nat_alt)
  then have "(of_nat (unat n - 4) :: ptr) = n - 4" by (simp only: of_nat_diff) simp
  with load32_mem_copy [OF n(1) _ n(2), of "unat n - 4" m f s d] n(1) show ?thesis
    by (simp add: algebra_simps)
qed

lemma quiet_mem: "quiet (w\<lparr>dw_mem := m\<rparr>) = quiet w"
  by (simp add: quiet_def)

lemma Overlay_Load_eq:
  assumes "DmaMgr_RequestSync env w req mq a vromStart (vromEnd - vromStart) = Some w1"
  shows "Overlay_Load env w req mq refs vals vromStart vromEnd vramStart vramEnd a =
    (let fin = a + (vromEnd - vromStart); ovl = fin - load32 (dw_mem w1) (fin - 4);
         m2 = DoRelocation (dw_mem w1) a ovl vramStart refs vals
     in Some (vramEnd - vramStart, w1\<lparr>dw_mem :=
          (if load32 m2 (ovl + 0xC) \<noteq> 0 then bzero m2 fin (load32 m2 (ovl + 0xC)) else m2)\<rparr>))"
  using assms by (simp add: Overlay_Load_def Let_def)

subsection \<open>Concrete overlays\<close>

text \<open>An overlay of two words at \<open>0x80001000\<close>, linked at \<open>0x80800000\<close>, with its table at \<open>0x80002000\<close>.\<close>

definition sample_overlay :: "u32 list \<Rightarrow> u32 \<Rightarrow> u32 \<Rightarrow> mem" where
  "sample_overlay rs w0 w1 =
     store32 (store32 (store32 (store32 (store32 (\<lambda>_. 0) 0x80002010 (of_nat (length rs)))
       0x80002014 (rs ! 0)) 0x80002018 (rs ! 1)) 0x80001000 w0) 0x80001004 w1"

lemma sample_overlay_words:
  "load32 (sample_overlay rs w0 w1) 0x80002010 = of_nat (length rs)"
  "load32 (sample_overlay rs w0 w1) 0x80002014 = rs ! 0"
  "load32 (sample_overlay rs w0 w1) 0x80002018 = rs ! 1"
  "load32 (sample_overlay rs w0 w1) 0x80001000 = w0"
  "load32 (sample_overlay rs w0 w1) 0x80001004 = w1"
  "load32 (sample_overlay rs w0 w1) 0x80002000 = 0"
  "load32 (sample_overlay rs w0 w1) 0x80002004 = 0"
proof -
  show "load32 (sample_overlay rs w0 w1) 0x80001004 = w1" by (simp add: sample_overlay_def)
qed (simp_all add: sample_overlay_def load32_store32_other aligned4_def load32_def [of "\<lambda>_. 0"])

lemma sample_overlay_table:
  assumes "length rs = 2"
  shows "table_in (sample_overlay rs w0 w1) 0x80002000 rs"
  using assms by (auto simp: table_in_def sample_overlay_words less_2_cases_iff)

lemma sample_table_addrs: "table_addrs 0x80002000 (Suc (Suc 0)) = {0x80002010, 0x80002014, 0x80002018}"
  by (auto simp: table_addrs_def lessThan_Suc)

subsection \<open>Properties\<close>

text \<open>Claim C3: when the entries of the table are for distinct aligned words outside the table,
  the relocation changes exactly those words.  A pointer moves by the distance from the link
  address to the load address, unless it does not point into an overlay, when it stays.  A jump
  keeps its opcode, and when the moved destination can be expressed it goes there.\<close>

theorem DoRelocation_moves_pointers_and_jumps:
  fixes m :: mem and ovl a v :: u32 and refs :: "u32 \<Rightarrow> ptr" and vals :: "u32 \<Rightarrow> u32"
  assumes "words_table m ovl (reloc_sections a (load32 m ovl) (load32 m (ovl + 4))) rs"
  defines "sec \<equiv> reloc_sections a (load32 m ovl) (load32 m (ovl + 4))"
    and "m' \<equiv> DoRelocation m a ovl v refs vals"
  shows "(\<forall>r \<in> set rs. let w = load32 m (reloc_target sec r); w' = load32 m' (reloc_target sec r);
             d = jump_dest w - v + a
           in (RELOC_TYPE_MASK r = push_bit 24 R_MIPS_32 \<longrightarrow>
                 w' = (if w AND 0x0F000000 = 0 then w - v + a else w)) \<and>
              (RELOC_TYPE_MASK r = push_bit 24 R_MIPS_26 \<longrightarrow>
                 w' AND 0xFC000000 = w AND 0xFC000000 \<and>
                 (d AND 3 = 0 \<and> d AND 0xF0000000 = 0x80000000 \<longrightarrow> jump_dest w' = d))) \<and>
    (\<forall>x. aligned4 x \<and> x \<notin> reloc_target sec ` set rs \<longrightarrow> load32 m' x = load32 m x)"
proof (intro conjI ballI allI impI, goal_cases)
  case (1 r)
  have "aligned4 (reloc_target sec r)" "distinct (map (reloc_target sec) rs)"
    using assms(1) 1 by (auto simp: words_table_def sec_def)
  then have "load32 m' (reloc_target sec r) = reloc_word v a r (load32 m (reloc_target sec r))"
    using DoRelocation_words [OF assms(1), of "reloc_target sec r" v refs vals] find_target [of sec rs r] 1
    by (simp add: m'_def sec_def)
  moreover have "push_bit 24 R_MIPS_26 \<noteq> push_bit 24 R_MIPS_32" by (simp add: r_mips_defs)
  ultimately show ?case
    by (auto simp: Let_def reloc_word_def jump_dest_reloc jump_opcode_reloc simp flip: jump_dest_def)
next
  case (2 x)
  then show ?case
    using DoRelocation_words [OF assms(1), of x v refs vals]
    by (auto simp: m'_def sec_def split: option.splits simp: find_Some_iff)
qed

theorem DoRelocation_moves_pointers_and_jumps_witness:
  "load32 (DoRelocation (sample_overlay [0x42000000, 0x44000004] 0x80800010 0x0C200003) 0x80001000 0x80002000
     0x80800000 (\<lambda>_. 0) (\<lambda>_. 0)) 0x80001000 = 0x80001010 \<and>
   jump_dest (load32 (DoRelocation (sample_overlay [0x42000000, 0x44000004] 0x80800010 0x0C200003) 0x80001000
     0x80002000 0x80800000 (\<lambda>_. 0) (\<lambda>_. 0)) 0x80001004) = 0x8000100C"
proof -
  let ?m = "sample_overlay [0x42000000, 0x44000004] 0x80800010 0x0C200003"
  have t: "table_in ?m 0x80002000 [0x42000000, 0x44000004]" by (rule sample_overlay_table) simp
  have w: "words_table ?m 0x80002000 (reloc_sections 0x80001000 (load32 ?m 0x80002000) (load32 ?m (0x80002000 + 4)))
      [0x42000000, 0x44000004]"
    using t sample_table_addrs
    by (simp add: words_table_def aligned4_def reloc_target_def RELOC_SECTION_def RELOC_OFFSET_def
        reloc_sections_def word_entry_def RELOC_TYPE_MASK_def r_mips_defs sample_overlay_words)
  show ?thesis
    using DoRelocation_moves_pointers_and_jumps [OF w, of "0x80800000" "\<lambda>_. 0" "\<lambda>_. 0"]
    by (simp add: reloc_target_def RELOC_SECTION_def RELOC_OFFSET_def reloc_sections_def
        Let_def RELOC_TYPE_MASK_def r_mips_defs sample_overlay_words jump_dest_def [of "0x0C200003"]
        PHYS_TO_K0_def MIPS_JUMP_TARGET_def)
qed


text \<open>Claim C4: when the table has one entry for a \<^verbatim>\<open>lui\<close> and entries for the instructions that
  complete its address, and the moved addresses agree in their upper half, then each pair forms
  the address it formed before, moved by the distance from the link address to the load address,
  whatever the signs of the lower halves; no other word changes.\<close>

theorem DoRelocation_moves_address_pairs:
  fixes m :: mem and ovl a v :: u32 and refs :: "u32 \<Rightarrow> ptr" and vals :: "u32 \<Rightarrow> u32"
  defines "sec \<equiv> reloc_sections a (load32 m ovl) (load32 m (ovl + 4))"
    and "m' \<equiv> DoRelocation m a ovl v refs vals"
  assumes "aligned4 ovl" "table_in m ovl (hi # los)" "RELOC_TYPE_MASK hi = push_bit 24 R_MIPS_HI16"
    "aligned4 (reloc_target sec hi)"
    "lo_entries m sec v a (mips_reg_rt (load32 m (reloc_target sec hi))) (reloc_target sec hi)
       (load32 m (reloc_target sec hi)) upper los"
    "\<And>r. r \<in> set (hi # los) \<Longrightarrow> reloc_target sec r \<notin> table_addrs ovl (length (hi # los))"
  shows "(\<forall>r \<in> set los. pair_value (load32 m' (reloc_target sec hi)) (load32 m' (reloc_target sec r)) =
      pair_value (load32 m (reloc_target sec hi)) (load32 m (reloc_target sec r)) - v + a) \<and>
    (\<forall>x. aligned4 x \<and> x \<notin> reloc_target sec ` set (hi # los) \<longrightarrow> load32 m' x = load32 m x)"
proof -
  let ?al = "reloc_target sec hi"
  let ?lui = "load32 m ?al"
  let ?s0 = "\<lparr>rl_mem = m, luiRefs = refs, luiVals = vals\<rparr>"
  define s1 where "s1 = reloc_step sec v a hi ?s0"
  have hi: "push_bit 24 R_MIPS_HI16 \<noteq> push_bit 24 R_MIPS_32" "push_bit 24 R_MIPS_HI16 \<noteq> push_bit 24 R_MIPS_26"
    by (simp_all add: r_mips_defs)
  have s1: "rl_mem s1 = m" "luiRefs s1 (mips_reg_rt ?lui) = ?al" "luiVals s1 (mips_reg_rt ?lui) = ?lui"
    using assms(5) hi by (simp_all add: s1_def reloc_step_def reloc_entry_def Let_def)
  have los: "lo_entries m sec v a (mips_reg_rt ?lui) ?al ?lui upper (take k los)" for k
    using assms(7) by (auto simp: lo_entries_def simp flip: take_map dest: in_set_takeD)
  note run = fold_reloc_lo [of s1, unfolded s1, OF los assms(6) s1(2,3), simplified]
  have t: "table_in (rl_mem (fold (reloc_step sec v a) (take k (hi # los)) ?s0)) ovl (hi # los)" for k
  proof (cases k)
    case 0
    then show ?thesis using assms(4) by simp
  next
    case (Suc j)
    have "load32 (rl_mem (fold (reloc_step sec v a) (take j los) s1)) x = load32 m x"
      if x: "x \<in> table_addrs ovl (length (hi # los))" for x
    proof -
      have "x \<noteq> ?al" "x \<notin> reloc_target sec ` set (take j los)"
        using assms(8) x by (auto dest: in_set_takeD)
      then show ?thesis using run [of j] table_addrs_aligned [OF assms(3) x] by auto
    qed
    then show ?thesis using table_in_cong [OF assms(4)] Suc by (simp add: s1_def)
  qed
  have m': "m' = rl_mem (fold (reloc_step sec v a) los s1)"
    using reloc_loop_fold [OF t, of 0] by (simp add: m'_def DoRelocation_def sec_def s1_def)
  have r: "sext16 (load32 m' (reloc_target sec r)) = sext16 (lo_value v a ?lui (load32 m (reloc_target sec r)))"
    "push_bit 16 (load32 m' ?al) = upper"
    "lo_value v a ?lui (load32 m (reloc_target sec r)) - sext16 (lo_value v a ?lui (load32 m (reloc_target sec r))) = upper"
    if "r \<in> set los" for r
    using run [of "length los"] that assms(7) by (auto simp: m' lo_entries_def Let_def)
  have "pair_value (load32 m' ?al) (load32 m' (reloc_target sec r)) = pair_value ?lui (load32 m (reloc_target sec r)) - v + a"
    if "r \<in> set los" for r
    unfolding pair_value_def [of "load32 m' ?al"] r(1,2) [OF that] r(3) [OF that, symmetric]
    by (simp add: lo_value_def)
  moreover have "load32 m' x = load32 m x" if "aligned4 x" "x \<notin> reloc_target sec ` set (hi # los)" for x
    using run [of "length los"] that by (auto simp: m')
  ultimately show ?thesis by blast
qed

theorem DoRelocation_moves_address_pairs_witness:
  "pair_value
     (load32 (DoRelocation (sample_overlay [0x45000000, 0x46000004] 0x3C018081 0x24218010) 0x80001000 0x80002000
       0x80800000 (\<lambda>_. 0) (\<lambda>_. 0)) 0x80001000)
     (load32 (DoRelocation (sample_overlay [0x45000000, 0x46000004] 0x3C018081 0x24218010) 0x80001000 0x80002000
       0x80800000 (\<lambda>_. 0) (\<lambda>_. 0)) 0x80001004) = 0x80009010"
proof -
  let ?m = "sample_overlay [0x45000000, 0x46000004] 0x3C018081 0x24218010"
  let ?sec = "reloc_sections 0x80001000 (load32 ?m 0x80002000) (load32 ?m (0x80002000 + 4))"
  have t: "table_in ?m 0x80002000 [0x45000000, 0x46000004]" by (rule sample_overlay_table) simp
  have hi: "reloc_target ?sec 0x45000000 = 0x80001000" and lo: "reloc_target ?sec 0x46000004 = 0x80001004"
    by (simp_all add: reloc_target_def RELOC_SECTION_def RELOC_OFFSET_def reloc_sections_def)
  have z: "load32 ?m 0x80002000 = 0" "load32 ?m (0x80002000 + 4) = 0" by (simp_all add: sample_overlay_words)
  note hi = hi [unfolded z] and lo = lo [unfolded z]
  have "lo_entries ?m ?sec 0x80800000 0x80001000 (mips_reg_rt (load32 ?m (reloc_target ?sec 0x45000000)))
      (reloc_target ?sec 0x45000000) (load32 ?m (reloc_target ?sec 0x45000000)) 0x80010000 [0x46000004]"
    unfolding z hi lo_entries_def
    by (simp add: lo sample_overlay_words lo_entry_def RELOC_TYPE_MASK_def r_mips_defs aligned4_def
        mips_reg_rs_def mips_reg_rt_def lo_value_def pair_value_def sext16_def Let_def)
  moreover have "reloc_target ?sec r \<notin> table_addrs 0x80002000 (length [0x45000000, 0x46000004 :: u32])"
    if "r \<in> set [0x45000000, 0x46000004]" for r
    using that unfolding z by (auto simp: hi lo sample_table_addrs)
  ultimately show ?thesis
    using DoRelocation_moves_address_pairs [OF _ t, where a = "0x80001000" and v = "0x80800000" and
      upper = "0x80010000" and refs = "\<lambda>_. 0" and vals = "\<lambda>_. 0"]
    unfolding z hi
    by (simp add: lo hi aligned4_def RELOC_TYPE_MASK_def r_mips_defs sample_overlay_words pair_value_def sext16_def)
qed

text \<open>Claim C26: on an idle system an overlay that is not compressed is loaded: the call returns the
  size of its image, and the memory holds its file with the relocation applied, the table being
  found through the last word of the file, and the \<^verbatim>\<open>bss\<close> behind it cleared when its size is positive.  The
  transfer is one the interface allows.\<close>

theorem Overlay_Load_loads:
  fixes env :: dma_env and w :: dma_world and rom :: "u32 \<Rightarrow> u8" and refs :: "u32 \<Rightarrow> ptr"
    and vals :: "u32 \<Rightarrow> u32" and a vromStart vromEnd vramStart :: u32
  assumes "pi_documented env rom" "quiet w" "D_8010ED50 w = []" "mq \<noteq> NULL" "4 \<le> vromEnd - vromStart"
    "pi_aligned vromStart a (vromEnd - vromStart)" "vromEnd - vromStart < 16 \<or> load32 rom vromStart \<noteq> Y65430UnkStruct_MAGIC"
  defines "fin \<equiv> a + (vromEnd - vromStart)"
    and "ovl \<equiv> a + (vromEnd - vromStart) - load32 rom (vromEnd - 4)"
    and "img \<equiv> mem_copy (dw_mem w) rom vromStart a (unat (vromEnd - vromStart))"
  defines "m' \<equiv> DoRelocation img a ovl vramStart refs vals"
  shows "\<exists>w'. Overlay_Load env w req mq refs vals vromStart vromEnd vramStart vramEnd a =
      Some (vramEnd - vramStart, w') \<and> quiet w' \<and>
    dw_mem w' = mem_fill m' fin (nat (sint (load32 m' (ovl + 0xC)))) 0"
proof -
  let ?n = "vromEnd - vromStart"
  have n: "4 \<le> unat ?n" "0 < ?n" using assms(5) by (simp_all add: word_le_nat_alt word_less_nat_alt)
  obtain w1 where w1: "DmaMgr_RequestSync env w req mq a vromStart ?n = Some w1" "dw_mem w1 = img" "quiet w1"
    using DmaMgr_RequestSync_ok [OF assms(1-3) n(2) assms(6,4,7)] by (auto simp: img_def)
  have "load32 img (fin - 4) = load32 rom (vromEnd - 4)"
    using load32_mem_copy_last [OF assms(5), of "dw_mem w" rom vromStart a] by (simp only: img_def fin_def) simp
  then have o: "fin - load32 (dw_mem w1) (fin - 4) = ovl" by (simp only: w1(2) ovl_def fin_def)
  have "mem_fill m' fin 0 0 = m'" by (rule ext) (simp only: mem_fill_def in_block_def not_less0 if_False)
  then have f: "(if load32 m' (ovl + 0xC) \<noteq> 0 then bzero m' fin (load32 m' (ovl + 0xC)) else m') =
      mem_fill m' fin (nat (sint (load32 m' (ovl + 0xC)))) 0"
    by (simp add: bzero_def)
  have "Overlay_Load env w req mq refs vals vromStart vromEnd vramStart vramEnd a =
      Some (vramEnd - vramStart, w1\<lparr>dw_mem := mem_fill m' fin (nat (sint (load32 m' (ovl + 0xC)))) 0\<rparr>)"
    using Overlay_Load_eq [OF w1(1), of refs vals vramStart vramEnd] o f
    by (simp only: Let_def w1(2) m'_def flip: fin_def)
  then show ?thesis using w1(3) by (intro exI conjI) (assumption, simp_all add: quiet_mem)
qed

theorem Overlay_Load_loads_witness:
  "\<exists>w'. Overlay_Load (sample_env (\<lambda>_. 7) 0) idle_world 16 32 (\<lambda>_. 0) (\<lambda>_. 0) 0 0x40 0x80800000 0x80800100
     0x80001000 = Some (0x100, w') \<and> quiet w'"
  using Overlay_Load_loads [OF sample_env_documented [of "\<lambda>_. 7" 0] idle_world_quiet, where mq = 32 and
      vromEnd = "0x40" and vromStart = 0 and a = "0x80001000" and vramStart = "0x80800000" and vramEnd = "0x80800100"
      and refs = "\<lambda>_. 0" and vals = "\<lambda>_. 0" and req = 16] plain_rom_header [of 0]
  by (auto simp: pi_aligned_def)

end
