(* ===== verification/Joybus.thy ===== *)
theory Joybus
  imports Prelude
begin

section \<open>The exchange with the devices behind the serial interface\<close>

text \<open>
  What the hardware does with the 64 bytes that the library sends to the peripheral interface
  (\<^verbatim>\<open>OSPifRam\<close> of \<^verbatim>\<open>lib/ultralib/include/PRinternal/controller.h\<close>), written down without any definition of
  the code: the bytes are walked from the front, 0 skips a channel, \<^verbatim>\<open>0xFF\<close> is padding, \<^verbatim>\<open>0xFE\<close> ends the
  commands, and anything else starts a command, with the number of bytes to send, the number of
  bytes expected, the bytes to send and room for the answer.  The last byte tells the interface to
  run the commands.  The answer is put behind the command, and the upper two bits of the second size byte report an error.
  The promises of the devices in \<^theory_text>\<open>Eeprom\<close> and \<^theory_text>\<open>PakRam\<close> are about any bytes that ask
  for a command in this sense.
\<close>

function joybus_walk :: "nat \<Rightarrow> nat \<Rightarrow> u8 list \<Rightarrow> (nat \<times> nat \<times> u8 list \<times> nat) list" where
  "joybus_walk ch pos bytes =
     (case bytes of
        [] \<Rightarrow> []
      | b # bs \<Rightarrow>
          if b = 0xFE then []
          else if b = 0xFF then joybus_walk ch (pos + 1) bs
          else if b = 0 then joybus_walk (ch + 1) (pos + 1) bs
          else (case bs of
                  [] \<Rightarrow> []
                | r # rest \<Rightarrow>
                    let tx = unat (b AND 0x3F); rx = unat (r AND 0x3F)
                    in (ch, pos, take tx rest, rx) #
                       joybus_walk (ch + 1) (pos + 2 + tx + rx) (drop (tx + rx) rest)))"
  by pat_completeness auto
termination by (relation "measure (\<lambda>(_, _, bytes). length bytes)") auto

declare joybus_walk.simps [simp del]

text \<open>The first command is the bytes \<open>cmd\<close> for the channel, with its size bytes at \<open>pos\<close> and \<open>rx\<close> bytes
  of answer.\<close>

definition joybus_asks :: "u8 list \<Rightarrow> nat \<Rightarrow> nat \<Rightarrow> u8 list \<Rightarrow> nat \<Rightarrow> bool" where
  "joybus_asks img ch pos cmd rx \<longleftrightarrow>
     length img = 64 \<and> img ! 63 AND 1 \<noteq> 0 \<and> pos + 2 + length cmd + rx \<le> 63 \<and>
     take 1 (joybus_walk 0 0 (take 63 img)) = [(ch, pos, cmd, rx)]"

definition joybus_answer :: "u8 list \<Rightarrow> nat \<Rightarrow> u8 list \<Rightarrow> nat \<Rightarrow> u8 list" where
  "joybus_answer reply pos cmd rx = take rx (drop (pos + 2 + length cmd) reply)"

definition joybus_failed :: "u8 list \<Rightarrow> nat \<Rightarrow> bool" where
  "joybus_failed reply pos \<longleftrightarrow> reply ! (pos + 1) AND 0xC0 \<noteq> 0"

lemma joybus_walk_simps:
  "joybus_walk ch pos [] = []"
  "joybus_walk ch pos (0xFE # bs) = []"
  "joybus_walk ch pos (0xFF # bs) = joybus_walk ch (pos + 1) bs"
  "joybus_walk ch pos (0 # bs) = joybus_walk (ch + 1) (pos + 1) bs"
  by (simp_all add: joybus_walk.simps [of ch pos])

lemma joybus_walk_command:
  assumes "b \<notin> {0, 0xFE, 0xFF}" "unat (b AND 0x3F) = length cmd"
  shows "joybus_walk ch pos (b # r # cmd @ rest) =
    (ch, pos, cmd, unat (r AND 0x3F)) #
    joybus_walk (ch + 1) (pos + 2 + length cmd + unat (r AND 0x3F)) (drop (unat (r AND 0x3F)) rest)"
  using assms by (subst joybus_walk.simps) (simp add: Let_def add.assoc)

lemma joybus_walk_skips:
  "joybus_walk ch pos (replicate n 0 @ bs) = joybus_walk (ch + n) (pos + n) bs"
  by (induction n arbitrary: ch pos) (simp_all add: joybus_walk_simps)

lemma joybus_walk_padding:
  "joybus_walk ch pos (replicate n 0xFF @ bs) = joybus_walk ch (pos + n) bs"
  by (induction n arbitrary: pos) (simp_all add: joybus_walk_simps)

lemma joybus_asksI:
  assumes "img = replicate k 0 @ replicate j 0xFF @ b # r # cmd @ rest" "length img = 64" "img ! 63 = 1"
    "b \<notin> {0, 0xFE, 0xFF}" "unat (b AND 0x3F) = length cmd" "unat (r AND 0x3F) = rx" "k + j + 2 + length cmd + rx \<le> 63"
  shows "joybus_asks img k (k + j) cmd rx"
proof -
  have "take 63 img = replicate k 0 @ replicate j 0xFF @ b # r # cmd @ take (63 - (k + j + 2 + length cmd)) rest"
    using assms(7) by (subst assms(1)) (auto simp: take_Cons' min_def)
  then show ?thesis
    using assms(2-7) by (simp add: joybus_asks_def joybus_walk_skips joybus_walk_padding joybus_walk_command)
qed

subsection \<open>Replacing bytes\<close>

definition splice :: "nat \<Rightarrow> u8 list \<Rightarrow> u8 list \<Rightarrow> u8 list" where
  "splice i bs xs = take i xs @ bs @ drop (i + length bs) xs"

lemma length_splice [simp]: "i + length bs \<le> length xs \<Longrightarrow> length (splice i bs xs) = length xs"
  by (simp add: splice_def)

text \<open>The reply of a device that does what it was asked.\<close>

definition joybus_reply :: "u8 list \<Rightarrow> nat \<Rightarrow> u8 list \<Rightarrow> nat \<Rightarrow> u8 list \<Rightarrow> u8 list" where
  "joybus_reply img pos cmd rx ans = splice (pos + 2 + length cmd) ans (img[pos + 1 := of_nat rx])"

lemma joybus_reply:
  assumes "joybus_asks img ch pos cmd rx" "length ans = rx"
  shows "length (joybus_reply img pos cmd rx ans) = 64" "\<not> joybus_failed (joybus_reply img pos cmd rx ans) pos"
    "joybus_answer (joybus_reply img pos cmd rx ans) pos cmd rx = ans"
proof -
  have len: "length img = 64" "pos + 2 + length cmd + rx \<le> 63" using assms(1) by (simp_all add: joybus_asks_def)
  then show "length (joybus_reply img pos cmd rx ans) = 64"
    "joybus_answer (joybus_reply img pos cmd rx ans) pos cmd rx = ans"
    using assms(2) by (simp_all add: joybus_reply_def joybus_answer_def splice_def)
  have "rx < 64" using len(2) by simp
  have "(of_nat rx :: u8) AND 0xC0 = 0"
  proof (rule bit_word_eqI)
    fix n assume "n < LENGTH(8)"
    then have n: "n \<in> {0, 1, 2, 3, 4, 5, 6, 7}" by auto
    have "\<not> bit rx m" if "6 \<le> m" for m
      using \<open>rx < 64\<close> that power_increasing [of 6 m "2 :: nat"] by (simp add: bit_iff_odd)
    then show "bit ((of_nat rx :: u8) AND 0xC0) n = bit (0 :: u8) n"
      using n by (elim insertE emptyE) (simp_all add: bit_and_iff bit_of_nat_iff)
  qed
  then show "\<not> joybus_failed (joybus_reply img pos cmd rx ans) pos"
    using len by (simp add: joybus_failed_def joybus_reply_def splice_def nth_append)
qed

end
