(* ===== verification/Eeprom.thy ===== *)
theory Eeprom
  imports Pad Joybus "HOL-Library.Monad_Syntax"
begin

section \<open>The EEPROM protocol\<close>

text \<open>
  \<^verbatim>\<open>conteepread.c\<close>, \<^verbatim>\<open>conteepwrite.c\<close> and \<^verbatim>\<open>conteepprobe.c\<close> of \<^verbatim>\<open>lib/ultralib/src/io\<close>: the
  command images of 64 bytes that are exchanged with the peripheral interface, and the decoding
  of its replies.  The serial interface and the chip behind it are a parameter \<open>pif\<close>: from the
  state of the device and a command image it gives the result of the last transfer, the image
  that comes back and the new state.  \<open>eeprom_documented\<close> is what the device promises, for the
  bytes that reach it and not for the functions here that make them.  Waiting
  while the chip is busy may not end, which is \<^const>\<open>None\<close>.
\<close>

type_synonym 'd pif = "'d \<Rightarrow> u8 list \<Rightarrow> s32 \<times> u8 list \<times> 'd"

definition CONT_CMD_REQUEST_STATUS :: u8 where "CONT_CMD_REQUEST_STATUS = 0"
definition CONT_CMD_READ_EEPROM :: u8 where "CONT_CMD_READ_EEPROM = 4"
definition CONT_CMD_WRITE_EEPROM :: u8 where "CONT_CMD_WRITE_EEPROM = 5"
definition CONT_CMD_NOP :: u8 where "CONT_CMD_NOP = 0xFF"
definition CONT_CMD_END :: u8 where "CONT_CMD_END = 0xFE"
definition CONT_EEPROM :: u16 where "CONT_EEPROM = 0x8000"
definition CONT_EEP16K :: u16 where "CONT_EEP16K = 0x4000"
definition CONT_EEPROM_BUSY :: u8 where "CONT_EEPROM_BUSY = 0x80"
definition CONT_NO_RESPONSE_ERROR :: s32 where "CONT_NO_RESPONSE_ERROR = 8"
definition CONT_RANGE_ERROR :: s32 where "CONT_RANGE_ERROR = -1"
definition EEPROM_TYPE_4K :: s32 where "EEPROM_TYPE_4K = 1"
definition EEPROM_TYPE_16K :: s32 where "EEPROM_TYPE_16K = 2"

lemmas eeprom_consts = CONT_CMD_REQUEST_STATUS_def CONT_CMD_READ_EEPROM_def CONT_CMD_WRITE_EEPROM_def
  CONT_CMD_NOP_def CONT_CMD_END_def CONT_EEPROM_def CONT_EEP16K_def CONT_EEPROM_BUSY_def
  CONT_NO_RESPONSE_ERROR_def CONT_RANGE_ERROR_def EEPROM_TYPE_4K_def EEPROM_TYPE_16K_def

subsection \<open>The command images\<close>

text \<open>The last word is \<^verbatim>\<open>pifstatus\<close>, set to \<^verbatim>\<open>CONT_CMD_EXE\<close>.\<close>

definition pif_status :: "u8 list" where
  "pif_status = [0, 0, 0, 1]"

definition osEepStatus_image :: "u8 list" where
  "osEepStatus_image =
     [CONT_CMD_REQUEST_STATUS, CONT_CMD_REQUEST_STATUS, CONT_CMD_REQUEST_STATUS, CONT_CMD_REQUEST_STATUS] @
     [CONT_CMD_NOP, 1, 3, CONT_CMD_REQUEST_STATUS, CONT_CMD_NOP, CONT_CMD_NOP, CONT_CMD_NOP, CONT_CMD_NOP] @
     [CONT_CMD_END] @ replicate 47 0 @ pif_status"

text \<open>The words that the command does not cover hold \<^verbatim>\<open>CONT_CMD_NOP\<close> as a word.\<close>

definition nop_words :: "u8 list" where
  "nop_words = concat (replicate 15 [0, 0, 0, CONT_CMD_NOP]) @ pif_status"

definition osPackEepReadData :: "u8 \<Rightarrow> u8 list" where
  "osPackEepReadData address =
     replicate 4 0 @ [2, 8, CONT_CMD_READ_EEPROM, address] @ replicate 8 0 @ [CONT_CMD_END] @ drop 17 nop_words"

definition osPackEepWriteData :: "u8 \<Rightarrow> u8 list \<Rightarrow> u8 list" where
  "osPackEepWriteData address buffer =
     replicate 4 0 @ [10, 1, CONT_CMD_WRITE_EEPROM, address] @ take 8 buffer @ [CONT_CMD_END] @ drop 17 nop_words"

text \<open>\<^verbatim>\<open>CHNL_ERR\<close> of a reply whose size byte is \<open>b\<close>.\<close>

definition chnl_err :: "u8 \<Rightarrow> u8" where
  "chnl_err b = drop_bit 4 (b AND 0xC0)"

subsection \<open>The operations\<close>

text \<open>\<^verbatim>\<open>__osEepStatus\<close>; the result is the error of the transfer, or the one of the channel.\<close>

definition osEepStatus :: "'d pif \<Rightarrow> 'd \<Rightarrow> OSContStatus \<Rightarrow> s32 \<times> OSContStatus \<times> 'd" where
  "osEepStatus pif d data =
     (case pif d osEepStatus_image of (ret, reply, d1) \<Rightarrow>
        if ret \<noteq> 0 then (ret, data, d1)
        else (let data1 = \<lparr>cs_type = push_bit 8 (ucast (reply ! 9)) OR ucast (reply ! 8),
                           cs_status = reply ! 10, cs_errno = chnl_err (reply ! 6)\<rparr>
              in (ucast (cs_errno data1), data1, d1)))"

partial_function (option) wait_not_busy :: "'d pif \<Rightarrow> 'd \<Rightarrow> OSContStatus \<Rightarrow> 'd option" where
  "wait_not_busy pif d sdata =
     (if cs_status sdata AND CONT_EEPROM_BUSY \<noteq> 0
      then (case osEepStatus pif d sdata of (_, sdata1, d1) \<Rightarrow> wait_not_busy pif d1 sdata1)
      else Some d)"

text \<open>The checks in front of a transfer, with the bounds as this version has them.\<close>

definition eep_precheck :: "s32 \<Rightarrow> u16 \<Rightarrow> u8 \<Rightarrow> s32" where
  "eep_precheck ret type address =
     (if ret \<noteq> 0 then CONT_NO_RESPONSE_ERROR
      else if type = CONT_EEPROM then (if 64 < unat address then CONT_RANGE_ERROR else 0)
      else if type = CONT_EEPROM OR CONT_EEP16K then (if 256 < unat address then CONT_RANGE_ERROR else 0)
      else CONT_NO_RESPONSE_ERROR)"

text \<open>\<open>sdata\<close> is the uninitialised local of the code.\<close>

definition osEepromRead ::
  "'d pif \<Rightarrow> OSContStatus \<Rightarrow> 'd \<Rightarrow> u8 \<Rightarrow> u8 list \<Rightarrow> (s32 \<times> u8 list \<times> 'd) option" where
  "osEepromRead pif sdata d address buffer =
     (case osEepStatus pif d sdata of (ret, sdata1, d1) \<Rightarrow>
        let err = eep_precheck ret (cs_type sdata1 AND (CONT_EEPROM OR CONT_EEP16K)) address
        in if err \<noteq> 0 then Some (err, buffer, d1)
           else do { d2 \<leftarrow> wait_not_busy pif d1 sdata1;
                     let (_, reply, d3) = pif d2 (osPackEepReadData address);
                         ret3 = ucast (chnl_err (reply ! 5))
                     in Some (ret3, if ret3 = 0 then take 8 (drop 8 reply) else buffer, d3) })"

definition osEepromWrite ::
  "'d pif \<Rightarrow> OSContStatus \<Rightarrow> 'd \<Rightarrow> u8 \<Rightarrow> u8 list \<Rightarrow> (s32 \<times> 'd) option" where
  "osEepromWrite pif sdata d address buffer =
     (case osEepStatus pif d sdata of (_, sdata0, d0) \<Rightarrow>
      case osEepStatus pif d0 sdata0 of (ret, sdata1, d1) \<Rightarrow>
        let err = eep_precheck ret (cs_type sdata1 AND (CONT_EEPROM OR CONT_EEP16K)) address
        in if err \<noteq> 0 then Some (err, d1)
           else do { d2 \<leftarrow> wait_not_busy pif d1 sdata1;
                     let (_, reply, d3) = pif d2 (osPackEepWriteData address buffer)
                     in Some (ucast (chnl_err (reply ! 5)), d3) })"

definition osEepromProbe :: "'d pif \<Rightarrow> OSContStatus \<Rightarrow> 'd \<Rightarrow> s32 \<times> 'd" where
  "osEepromProbe pif sdata d =
     (case osEepStatus pif d sdata of (ret, sdata1, d1) \<Rightarrow>
        let type = cs_type sdata1 AND (CONT_EEPROM OR CONT_EEP16K)
        in (if ret \<noteq> 0 then 0
            else if type = CONT_EEPROM then EEPROM_TYPE_4K
            else if type = CONT_EEPROM OR CONT_EEP16K then EEPROM_TYPE_16K
            else 0, d1))"

subsection \<open>What the device promises\<close>

text \<open>\<open>blocks d i\<close> are the 8 bytes of block \<open>i\<close>, \<open>busy d\<close> the number of status requests the chip
  still answers with its busy bit set, and \<open>good d\<close> says that its transfers do not fail.  The chip is
  on channel 4 and understands the commands 0 (status), 4 and a block number (read), and 5, a block
  number and 8 bytes (write), wherever they stand in the bytes it gets.  A status request is always
  answered, with the type, the lower byte first, and changes no block; a transfer to a chip that is
  not busy either succeeds or reports an error, and then has changed nothing.\<close>

definition status_promise ::
  "'d pif \<Rightarrow> ('d \<Rightarrow> nat \<Rightarrow> u8 list) \<Rightarrow> ('d \<Rightarrow> nat) \<Rightarrow> ('d \<Rightarrow> bool) \<Rightarrow> u16 \<Rightarrow> 'd \<Rightarrow> bool" where
  "status_promise pif blocks busy good type d \<longleftrightarrow>
     (\<forall>img pos. joybus_asks img 4 pos [0] 3 \<longrightarrow>
        (case pif d img of (ret, reply, d') \<Rightarrow>
           ret = 0 \<and> length reply = 64 \<and> \<not> joybus_failed reply pos \<and>
           (\<exists>st. joybus_answer reply pos [0] 3 = [ucast type, ucast (drop_bit 8 type), st] \<and> (bit st 7 \<longleftrightarrow> 0 < busy d)) \<and>
           busy d' = busy d - 1 \<and> blocks d' = blocks d \<and> (good d \<longrightarrow> good d')))"

definition read_promise :: "'d pif \<Rightarrow> ('d \<Rightarrow> nat \<Rightarrow> u8 list) \<Rightarrow> ('d \<Rightarrow> bool) \<Rightarrow> nat \<Rightarrow> 'd \<Rightarrow> bool" where
  "read_promise pif blocks good n d \<longleftrightarrow>
     (\<forall>img pos a. joybus_asks img 4 pos [4, a] 8 \<and> unat a < n \<longrightarrow>
        (case pif d img of (_, reply, d') \<Rightarrow>
           length reply = 64 \<and> blocks d' = blocks d \<and> (good d \<longrightarrow> \<not> joybus_failed reply pos \<and> good d') \<and>
           (\<not> joybus_failed reply pos \<longrightarrow> joybus_answer reply pos [4, a] 8 = blocks d (unat a))))"

definition write_promise :: "'d pif \<Rightarrow> ('d \<Rightarrow> nat \<Rightarrow> u8 list) \<Rightarrow> ('d \<Rightarrow> bool) \<Rightarrow> nat \<Rightarrow> 'd \<Rightarrow> bool" where
  "write_promise pif blocks good n d \<longleftrightarrow>
     (\<forall>img pos a bs. joybus_asks img 4 pos ([5, a] @ bs) 1 \<and> length bs = 8 \<and> unat a < n \<longrightarrow>
        (case pif d img of (_, reply, d') \<Rightarrow>
           length reply = 64 \<and> (good d \<longrightarrow> \<not> joybus_failed reply pos \<and> good d') \<and>
           blocks d' = (if joybus_failed reply pos then blocks d else (blocks d)(unat a := bs))))"

definition eeprom_documented ::
  "'d pif \<Rightarrow> ('d \<Rightarrow> nat \<Rightarrow> u8 list) \<Rightarrow> ('d \<Rightarrow> nat) \<Rightarrow> ('d \<Rightarrow> bool) \<Rightarrow> u16 \<Rightarrow> nat \<Rightarrow> bool" where
  "eeprom_documented pif blocks busy good type n \<longleftrightarrow>
     (\<forall>d i. length (blocks d i) = 8) \<and> (\<forall>d. status_promise pif blocks busy good type d) \<and>
     (\<forall>d. busy d = 0 \<longrightarrow> read_promise pif blocks good n d \<and> write_promise pif blocks good n d)"

definition eep_type_size :: "u16 \<Rightarrow> nat \<Rightarrow> bool" where
  "eep_type_size type n \<longleftrightarrow>
     type AND (CONT_EEPROM OR CONT_EEP16K) = CONT_EEPROM \<and> n = 64 \<or>
     type AND (CONT_EEPROM OR CONT_EEP16K) = CONT_EEPROM OR CONT_EEP16K \<and> n = 256"

text \<open>The images of the code ask for what they should.\<close>

lemma length_8_cases:
  assumes "length bs = 8"
  obtains b0 b1 b2 b3 b4 b5 b6 b7 where "bs = [b0, b1, b2, b3, b4, b5, b6, b7]"
  using assms by (auto simp: numeral_eq_Suc length_Suc_conv)

lemma nop_words_facts: "length nop_words = 64" "nop_words ! 63 = 1"
  by code_simp+

lemma eep_images_ask:
  "joybus_asks osEepStatus_image 4 5 [0] 3"
  "joybus_asks (osPackEepReadData a) 4 4 [4, a] 8"
  "length bs = 8 \<Longrightarrow> joybus_asks (osPackEepWriteData a bs) 4 4 ([5, a] @ bs) 1"
proof -
  have "osEepStatus_image = replicate 4 0 @ replicate 1 0xFF @ 1 # 3 # [0] @ replicate 4 0xFF @ 0xFE # replicate 47 0 @ pif_status"
    by code_simp
  moreover have "length osEepStatus_image = 64" "osEepStatus_image ! 63 = 1" by code_simp+
  ultimately show "joybus_asks osEepStatus_image 4 5 [0] 3"
    using joybus_asksI [of osEepStatus_image 4 1 1 3 "[0]" _ 3] by simp
  have "osPackEepReadData a = replicate 4 0 @ replicate 0 0xFF @ 2 # 8 # [4, a] @ replicate 8 0 @ 0xFE # drop 17 nop_words"
    by (simp add: osPackEepReadData_def eeprom_consts)
  then show "joybus_asks (osPackEepReadData a) 4 4 [4, a] 8"
    using joybus_asksI [of "osPackEepReadData a" 4 0 2 8 "[4, a]" _ 8]
    by (simp add: nop_words_facts nth_append)
  assume bs: "length bs = 8"
  then have "osPackEepWriteData a bs = replicate 4 0 @ replicate 0 0xFF @ 10 # 1 # ([5, a] @ bs) @ 0xFE # drop 17 nop_words"
    by (simp add: osPackEepWriteData_def eeprom_consts)
  then show "joybus_asks (osPackEepWriteData a bs) 4 4 ([5, a] @ bs) 1"
    using joybus_asksI [of "osPackEepWriteData a bs" 4 0 10 1 "[5, a] @ bs" _ 1] bs
    by (simp add: nop_words_facts nth_append)
qed

lemma length_images_eep [simp]: "length osEepStatus_image = 64" "length (osPackEepReadData a) = 64"
  "length bs = 8 \<Longrightarrow> length (osPackEepWriteData a bs) = 64"
  using eep_images_ask by (auto simp: joybus_asks_def)

lemma chnl_err_0: "chnl_err b = 0 \<longleftrightarrow> b AND 0xC0 = 0"
proof -
  define h where "h = b AND 0xC0"
  have "take_bit 4 h = 0" unfolding h_def take_bit_and by simp
  then have "push_bit 4 (drop_bit 4 h) = h" using bits_ident [of 4 h] by simp
  then have "drop_bit 4 h = 0 \<longleftrightarrow> h = 0" by (metis drop_bit_of_0 push_bit_of_0)
  then show ?thesis by (simp add: chnl_err_def h_def)
qed

lemma take3_nth: "take 3 (drop k xs) = [x, y, z] \<Longrightarrow> xs ! k = x \<and> xs ! (k + 1) = y \<and> xs ! (k + 2) = z"
proof -
  assume e: "take 3 (drop k xs) = [x, y, z]"
  then have "length (take 3 (drop k xs)) = 3" by simp
  then have l: "k + 3 \<le> length xs" by simp
  from e have "take 3 (drop k xs) ! 0 = x" "take 3 (drop k xs) ! 1 = y" "take 3 (drop k xs) ! 2 = z" by simp_all
  then show ?thesis using l by simp
qed

lemma u16_of_bytes: "push_bit 8 (ucast (ucast (drop_bit 8 w) :: u8)) OR ucast (ucast w :: u8) = (w :: u16)"
  by (rule bit_word_eqI) (auto simp: bit_simps)

lemma documented_blocks: "eeprom_documented pif blocks busy good type n \<Longrightarrow> length (blocks d i) = 8"
  by (simp add: eeprom_documented_def)

lemma documented_status:
  assumes "eeprom_documented pif blocks busy good type n"
  obtains st d' where "osEepStatus pif d sdata = (0, st, d')" "cs_type st = type"
    "cs_status st AND CONT_EEPROM_BUSY \<noteq> 0 \<longleftrightarrow> 0 < busy d" "busy d' = busy d - 1" "blocks d' = blocks d"
    "good d \<longrightarrow> good d'"
proof -
  obtain ret reply d' where e: "pif d osEepStatus_image = (ret, reply, d')" by (cases "pif d osEepStatus_image")
  have sp: "status_promise pif blocks busy good type d" using assms by (simp add: eeprom_documented_def)
  have p: "case pif d osEepStatus_image of (ret, reply, d') \<Rightarrow>
      ret = 0 \<and> length reply = 64 \<and> \<not> joybus_failed reply 5 \<and>
      (\<exists>st. joybus_answer reply 5 [0] 3 = [ucast type, ucast (drop_bit 8 type), st] \<and> (bit st 7 \<longleftrightarrow> 0 < busy d)) \<and>
      busy d' = busy d - 1 \<and> blocks d' = blocks d \<and> (good d \<longrightarrow> good d')"
    using sp [unfolded status_promise_def, rule_format, OF eep_images_ask(1)] .
  then obtain b where b: "joybus_answer reply 5 [0] 3 = [ucast type, ucast (drop_bit 8 type), b]" "bit b 7 \<longleftrightarrow> 0 < busy d"
    by (auto simp: e)
  have n: "reply ! 8 = ucast type" "reply ! 9 = ucast (drop_bit 8 type)" "reply ! 10 = b"
    using take3_nth [of 8 reply] b(1) by (simp_all add: joybus_answer_def)
  have c: "chnl_err (reply ! 6) = 0" using p by (simp add: e joybus_failed_def chnl_err_0)
  have "b AND CONT_EEPROM_BUSY \<noteq> 0 \<longleftrightarrow> bit b 7" using and_push_bit_1 [of b 7] by (simp add: CONT_EEPROM_BUSY_def)
  with p b(2) n c show ?thesis
    by (intro that [of "\<lparr>cs_type = type, cs_status = b, cs_errno = 0\<rparr>" d']) (simp_all add: e osEepStatus_def u16_of_bytes Let_def)
qed

lemma wait_not_busy_ends:
  assumes "eeprom_documented pif blocks busy good type n" "cs_status st AND CONT_EEPROM_BUSY \<noteq> 0 \<longleftrightarrow> 0 < k"
    "busy d = k - 1"
  shows "\<exists>d'. wait_not_busy pif d st = Some d' \<and> busy d' = 0 \<and> blocks d' = blocks d \<and> (good d \<longrightarrow> good d')"
  using assms(2,3)
proof (induction k arbitrary: d st)
  case 0
  then show ?case by (subst wait_not_busy.simps) simp
next
  case (Suc k)
  obtain st' d' where st: "osEepStatus pif d st = (0, st', d')"
    "cs_status st' AND CONT_EEPROM_BUSY \<noteq> 0 \<longleftrightarrow> 0 < busy d" "busy d' = busy d - 1" "blocks d' = blocks d" "good d \<longrightarrow> good d'"
    using documented_status [OF assms(1)] by metis
  obtain d'' where "wait_not_busy pif d' st' = Some d''" "busy d'' = 0" "blocks d'' = blocks d'" "good d' \<longrightarrow> good d''"
    using Suc.IH [of st' d'] Suc.prems st by auto
  moreover have "wait_not_busy pif d st = wait_not_busy pif d' st'"
    using Suc.prems st(1) by (subst wait_not_busy.simps) simp
  ultimately show ?case using st(4,5) by auto
qed

lemma eep_precheck_passes:
  assumes "eep_type_size type n" "unat (address :: u8) < n"
  shows "eep_precheck 0 (type AND (CONT_EEPROM OR CONT_EEP16K)) address = 0"
  using assms by (auto simp: eep_type_size_def eep_precheck_def eeprom_consts)

lemma ucast_8_32_eq_0: "(ucast (x :: u8) :: s32) = 0 \<longleftrightarrow> x = 0"
proof -
  have "unat (ucast x :: s32) = unat x"
    using unsigned_less [of x, where 'a = nat] by (simp add: unsigned_ucast_eq take_bit_nat_eq_self)
  then show ?thesis by (metis unat_eq_zero)
qed

lemma osEepromRead_documented:
  assumes "eeprom_documented pif blocks busy good type n" "eep_type_size type n" "unat a < n"
  shows "\<exists>ret buf' d'. osEepromRead pif sdata d a buf = Some (ret, buf', d') \<and> blocks d' = blocks d \<and>
    (ret = 0 \<longrightarrow> buf' = blocks d (unat a)) \<and> (ret \<noteq> 0 \<longrightarrow> buf' = buf) \<and> (good d \<longrightarrow> ret = 0 \<and> good d')"
proof -
  obtain st d1 where st: "osEepStatus pif d sdata = (0, st, d1)" "cs_type st = type"
    "cs_status st AND CONT_EEPROM_BUSY \<noteq> 0 \<longleftrightarrow> 0 < busy d" "busy d1 = busy d - 1" "blocks d1 = blocks d" "good d \<longrightarrow> good d1"
    using documented_status [OF assms(1)] by metis
  obtain d2 where d2: "wait_not_busy pif d1 st = Some d2" "busy d2 = 0" "blocks d2 = blocks d" "good d \<longrightarrow> good d2"
    using wait_not_busy_ends [OF assms(1) st(3,4)] st(5,6) by auto
  obtain r reply d3 where r: "pif d2 (osPackEepReadData a) = (r, reply, d3)" by (metis prod_cases3)
  have rp: "read_promise pif blocks good n d2" using assms(1) d2(2) by (simp add: eeprom_documented_def)
  have p: "blocks d3 = blocks d2" "good d2 \<longrightarrow> \<not> joybus_failed reply 4 \<and> good d3"
    "\<not> joybus_failed reply 4 \<longrightarrow> joybus_answer reply 4 [4, a] 8 = blocks d2 (unat a)"
    using rp [unfolded read_promise_def, rule_format, OF conjI, OF eep_images_ask(2) assms(3)] by (simp_all add: r)
  have e: "chnl_err (reply ! 5) = 0 \<longleftrightarrow> \<not> joybus_failed reply 4" by (simp add: joybus_failed_def chnl_err_0)
  show ?thesis
    using st(1,2) d2 eep_precheck_passes [OF assms(2,3)] p r
    by (simp add: osEepromRead_def Let_def ucast_8_32_eq_0 e joybus_answer_def)
qed

lemma osEepromWrite_documented:
  assumes "eeprom_documented pif blocks busy good type n" "eep_type_size type n" "unat a < n" "length bs = 8"
  shows "\<exists>ret d'. osEepromWrite pif sdata d a bs = Some (ret, d') \<and>
    blocks d' = (if ret = 0 then (blocks d)(unat a := bs) else blocks d) \<and> (good d \<longrightarrow> ret = 0 \<and> good d')"
proof -
  obtain st0 d0 where st0: "osEepStatus pif d sdata = (0, st0, d0)" "blocks d0 = blocks d" "good d \<longrightarrow> good d0"
    using documented_status [OF assms(1)] by metis
  obtain st d1 where st: "osEepStatus pif d0 st0 = (0, st, d1)" "cs_type st = type"
    "cs_status st AND CONT_EEPROM_BUSY \<noteq> 0 \<longleftrightarrow> 0 < busy d0" "busy d1 = busy d0 - 1" "blocks d1 = blocks d0" "good d0 \<longrightarrow> good d1"
    using documented_status [OF assms(1)] by metis
  obtain d2 where d2: "wait_not_busy pif d1 st = Some d2" "busy d2 = 0" "blocks d2 = blocks d" "good d \<longrightarrow> good d2"
    using wait_not_busy_ends [OF assms(1) st(3,4)] st(5,6) st0(2,3) by auto
  obtain r reply d3 where r: "pif d2 (osPackEepWriteData a bs) = (r, reply, d3)" by (metis prod_cases3)
  have wp: "write_promise pif blocks good n d2" using assms(1) d2(2) by (simp add: eeprom_documented_def)
  have p: "good d2 \<longrightarrow> \<not> joybus_failed reply 4 \<and> good d3"
    "blocks d3 = (if joybus_failed reply 4 then blocks d2 else (blocks d2)(unat a := bs))"
    using wp [unfolded write_promise_def, rule_format, OF conjI, OF eep_images_ask(3) conjI, OF assms(4,4,3)] by (simp_all add: r)
  have e: "chnl_err (reply ! 5) = 0 \<longleftrightarrow> \<not> joybus_failed reply 4" by (simp add: joybus_failed_def chnl_err_0)
  show ?thesis
    using st0 st(1,2) d2 eep_precheck_passes [OF assms(2,3)] p r
    by (simp add: osEepromWrite_def Let_def ucast_8_32_eq_0 e)
qed

subsection \<open>A simulated chip\<close>

text \<open>A 16K bit chip that keeps its promises, and is busy for two requests after each write.\<close>

type_synonym sim_eeprom = "(nat \<Rightarrow> u8 list) \<times> nat"

definition sim_blocks :: "sim_eeprom \<Rightarrow> nat \<Rightarrow> u8 list" where
  "sim_blocks d i = (if length (fst d i) = 8 then fst d i else replicate 8 0)"

definition sim_pif :: "sim_eeprom pif" where
  "sim_pif d img =
     (case joybus_walk 0 0 (take 63 img) of
        (ch, pos, cmd, rx) # _ \<Rightarrow>
          (case cmd of
             [a, b] \<Rightarrow> (0, joybus_reply img pos cmd rx (sim_blocks d (unat b)), d)
           | [a] \<Rightarrow> (0, joybus_reply img pos cmd rx [0, 0xC0, if 0 < snd d then 0x80 else 0], fst d, snd d - 1)
           | a # b # bs \<Rightarrow> (0, joybus_reply img pos cmd rx [0], (fst d)(unat b := bs), 2)
           | [] \<Rightarrow> (0, img, d))
      | [] \<Rightarrow> (0, img, d))"

lemma joybus_asks_walk:
  "joybus_asks img ch pos cmd rx \<Longrightarrow> \<exists>rest. joybus_walk 0 0 (take 63 img) = (ch, pos, cmd, rx) # rest"
  by (cases "joybus_walk 0 0 (take 63 img)") (auto simp: joybus_asks_def)

abbreviation sim_good :: "sim_eeprom \<Rightarrow> bool" where "sim_good \<equiv> \<lambda>_. True"

lemma sim_pif_documented:
  "eeprom_documented sim_pif sim_blocks snd sim_good (CONT_EEPROM OR CONT_EEP16K) 256"
proof -
  have "status_promise sim_pif sim_blocks snd sim_good (CONT_EEPROM OR CONT_EEP16K) d" for d
    unfolding status_promise_def
  proof (intro allI impI)
    fix img pos assume a: "joybus_asks img 4 pos [0] 3"
    then obtain rest where w: "joybus_walk 0 0 (take 63 img) = (4, pos, [0], 3) # rest" using joybus_asks_walk by blast
    have "bit (0x80 :: u8) 7" by simp
    then show "case sim_pif d img of (ret, reply, d') \<Rightarrow>
        ret = 0 \<and> length reply = 64 \<and> \<not> joybus_failed reply pos \<and>
        (\<exists>st. joybus_answer reply pos [0] 3 = [ucast (CONT_EEPROM OR CONT_EEP16K), ucast (drop_bit 8 (CONT_EEPROM OR CONT_EEP16K)), st] \<and>
          (bit st 7 \<longleftrightarrow> 0 < snd d)) \<and> snd d' = snd d - 1 \<and> sim_blocks d' = sim_blocks d \<and> (sim_good d \<longrightarrow> sim_good d')"
      using joybus_reply [OF a, of "[0, 0xC0, if 0 < snd d then 0x80 else 0]"]
      by (auto simp: sim_pif_def w eeprom_consts sim_blocks_def fun_eq_iff)
  qed
  moreover have "read_promise sim_pif sim_blocks sim_good 256 d" for d
    unfolding read_promise_def
  proof (intro allI impI, elim conjE)
    fix img pos a assume a: "joybus_asks img 4 pos [4, a] 8"
    then obtain rest where w: "joybus_walk 0 0 (take 63 img) = (4, pos, [4, a], 8) # rest" using joybus_asks_walk by blast
    have "length (sim_blocks d (unat a)) = 8" by (simp add: sim_blocks_def)
    then show "case sim_pif d img of (_, reply, d') \<Rightarrow>
        length reply = 64 \<and> sim_blocks d' = sim_blocks d \<and> (sim_good d \<longrightarrow> \<not> joybus_failed reply pos \<and> sim_good d') \<and>
        (\<not> joybus_failed reply pos \<longrightarrow> joybus_answer reply pos [4, a] 8 = sim_blocks d (unat a))"
      using joybus_reply [OF a] by (simp add: sim_pif_def w)
  qed
  moreover have "write_promise sim_pif sim_blocks sim_good 256 d" for d
    unfolding write_promise_def
  proof (intro allI impI, elim conjE)
    fix img pos a and bs :: "u8 list"
    assume a: "joybus_asks img 4 pos ([5, a] @ bs) 1" and bs: "length bs = 8"
    then obtain rest where w: "joybus_walk 0 0 (take 63 img) = (4, pos, 5 # a # bs, 1) # rest" using joybus_asks_walk by force
    from bs show "case sim_pif d img of (_, reply, d') \<Rightarrow>
        length reply = 64 \<and> (sim_good d \<longrightarrow> \<not> joybus_failed reply pos \<and> sim_good d') \<and>
        sim_blocks d' = (if joybus_failed reply pos then sim_blocks d else (sim_blocks d)(unat a := bs))"
      using joybus_reply [OF a, of "[0]"]
      by (elim length_8_cases) (auto simp: sim_pif_def w sim_blocks_def fun_eq_iff)
  qed
  ultimately show ?thesis by (simp add: eeprom_documented_def sim_blocks_def)
qed

lemma eep_type_size_16K: "eep_type_size (CONT_EEPROM OR CONT_EEP16K) 256"
  by (simp add: eep_type_size_def eeprom_consts)

subsection \<open>Properties\<close>

text \<open>Claim C40: on a chip that keeps its promises, busy for however long, both operations return; when its
  transfers do not fail, both report success and the read gives the bytes that were written, and in
  any case a write that reports success has written its block and no other, and an operation that
  reports an error has changed nothing.\<close>

theorem eeprom_write_read_roundtrip:
  assumes "eeprom_documented pif blocks busy good type n" "eep_type_size type n" "unat a < n" "length bs = 8"
  shows "\<exists>r1 d1 r2 buf' d2. osEepromWrite pif sd d a bs = Some (r1, d1) \<and>
    osEepromRead pif sd d1 a buf = Some (r2, buf', d2) \<and>
    (good d \<longrightarrow> r1 = 0 \<and> r2 = 0 \<and> buf' = bs) \<and>
    (r1 = 0 \<and> r2 = 0 \<longrightarrow> buf' = bs) \<and> (r1 = 0 \<longrightarrow> blocks d2 = (blocks d)(unat a := bs)) \<and>
    (r1 \<noteq> 0 \<longrightarrow> blocks d2 = blocks d) \<and> (r2 \<noteq> 0 \<longrightarrow> buf' = buf)"
proof -
  obtain r1 d1 where "osEepromWrite pif sd d a bs = Some (r1, d1)"
    "blocks d1 = (if r1 = 0 then (blocks d)(unat a := bs) else blocks d)" "good d \<longrightarrow> r1 = 0 \<and> good d1"
    using osEepromWrite_documented [OF assms] by blast
  with osEepromRead_documented [OF assms(1-3), of sd d1 buf] show ?thesis by auto
qed

theorem eeprom_write_read_roundtrip_witness:
  "\<exists>d1 d2. osEepromWrite sim_pif \<lparr>cs_type = 0, cs_status = 0, cs_errno = 0\<rparr> (\<lambda>_. [], 5) 9 [1, 2, 3, 4, 5, 6, 7, 8]
       = Some (0, d1) \<and>
     osEepromRead sim_pif \<lparr>cs_type = 0, cs_status = 0, cs_errno = 0\<rparr> d1 9 [] = Some (0, [1, 2, 3, 4, 5, 6, 7, 8], d2)"
  using eeprom_write_read_roundtrip [OF sim_pif_documented eep_type_size_16K, of 9 "[1, 2, 3, 4, 5, 6, 7, 8]"
      "\<lparr>cs_type = 0, cs_status = 0, cs_errno = 0\<rparr>" "(\<lambda>_. [], 5)" "[]"]
  by auto

end
