(* ===== verification/Eepmgr.thy ===== *)
theory Eepmgr
  imports Eeprom
begin

section \<open>The EEPROM manager\<close>

text \<open>
  \<^verbatim>\<open>src/main/eepmgr.c\<close>: a thread that keeps a copy of the chip in memory and writes only the
  blocks that changed.  Requests and replies pass through two message queues, of which only the
  number of requests and the list of replies matter, because there is a single request record.
  Buffers and the cache are lists of bytes, compared in blocks of 8 like the 64-bit accesses of
  the code do.  \<^verbatim>\<open>LOOP()\<close>, the deliberate endless loop after an impossible state, is
  \<^const>\<open>None\<close>.  The \<^verbatim>\<open>operation\<close> byte is nonzero only while a transfer is in progress, and the
  queue of the serial interface that \<^verbatim>\<open>func_8007CDA0\<close> borrows for it is part of the device.  So is
  the time that the thread spends in \<^verbatim>\<open>csleep\<close> (modelled in \<open>Sleep\<close>) after it has written a block:
  \<open>ee_wait\<close> is what the chip does in as many cycles.
\<close>

subsection \<open>Blocks of a byte list\<close>

definition block :: "u8 list \<Rightarrow> nat \<Rightarrow> u8 list" where
  "block xs i = take 8 (drop (8 * i) xs)"

definition put_block :: "u8 list \<Rightarrow> nat \<Rightarrow> u8 list \<Rightarrow> u8 list" where
  "put_block xs i b = take (8 * i) xs @ b @ drop (8 * i + 8) xs"

lemma length_put_block: "8 * i + 8 \<le> length xs \<Longrightarrow> length b = 8 \<Longrightarrow> length (put_block xs i b) = length xs"
  by (simp add: put_block_def)

lemma length_block: "8 * i + 8 \<le> length xs \<Longrightarrow> length (block xs i) = 8"
  by (simp add: block_def)

lemma block_put_block:
  assumes "8 * i + 8 \<le> length xs" "length b = 8"
  shows "block (put_block xs i b) j = (if i = j then b else block xs j)"
proof (cases i j rule: linorder_cases)
  case less
  then have "8 * j - 8 * i - 8 + (8 * i + 8) = 8 * j" by simp
  with assms less show ?thesis by (simp add: block_def put_block_def drop_drop)
next
  case equal
  then show ?thesis using assms by (simp add: block_def put_block_def)
next
  case greater
  then have "8 * j + 8 \<le> 8 * i" "8 \<le> 8 * i - 8 * j" by simp_all
  then show ?thesis using assms greater
    by (simp add: block_def put_block_def drop_take min_def)
qed

lemma blocks_determine:
  assumes "length xs = 8 * n" "length ys = 8 * n" "\<And>i. i < n \<Longrightarrow> block xs i = block ys i"
  shows "xs = ys"
proof (rule nth_equalityI)
  fix k assume "k < length xs"
  then have k: "k div 8 < n" "8 * (k div 8) + k mod 8 = k" using assms(1) by auto
  then have "xs ! k = block xs (k div 8) ! (k mod 8)" "ys ! k = block ys (k div 8) ! (k mod 8)"
    using assms(1,2) by (simp_all add: block_def)
  with assms(3) k(1) show "xs ! k = ys ! k" by simp
qed (use assms in simp)

subsection \<open>The loops over the blocks\<close>

text \<open>The loop of \<^verbatim>\<open>eepmgr_HandleWrite\<close>, over an operation that writes one block: the result, the
  cache and the state of the device.\<close>

function write_blocks ::
  "('s \<Rightarrow> nat \<Rightarrow> u8 list \<Rightarrow> (s32 \<times> 's) option) \<Rightarrow> u8 list \<Rightarrow> nat \<Rightarrow> nat \<Rightarrow> u8 list \<Rightarrow> 's \<Rightarrow>
    (s32 \<times> u8 list \<times> 's) option" where
  "write_blocks wr buffer i n cache s =
     (if i < n then
        if block buffer i \<noteq> block cache i
        then (case wr s i (block buffer i) of
                None \<Rightarrow> None
              | Some (r, s1) \<Rightarrow>
                  if r \<noteq> 0 then Some (-1, cache, s1)
                  else write_blocks wr buffer (Suc i) n (put_block cache i (block buffer i)) s1)
        else write_blocks wr buffer (Suc i) n cache s
      else Some (0, cache, s))"
  by pat_completeness auto
termination by (relation "measure (\<lambda>(_, _, i, n, _). n - i)") auto

declare write_blocks.simps [simp del]

text \<open>The loop of \<^verbatim>\<open>eepmgr_HandleRead\<close>.\<close>

function read_blocks ::
  "('s \<Rightarrow> nat \<Rightarrow> u8 list \<Rightarrow> (s32 \<times> u8 list \<times> 's) option) \<Rightarrow> nat \<Rightarrow> nat \<Rightarrow> u8 list \<Rightarrow> 's \<Rightarrow>
    (s32 \<times> u8 list \<times> 's) option" where
  "read_blocks rd i n cache s =
     (if i < n then
        (case rd s i (block cache i) of
           None \<Rightarrow> None
         | Some (r, b, s1) \<Rightarrow>
             if r \<noteq> 0 then Some (-1, put_block cache i b, s1)
             else read_blocks rd (Suc i) n (put_block cache i b) s1)
      else Some (0, cache, s))"
  by pat_completeness auto
termination by (relation "measure (\<lambda>(_, i, n, _). n - i)") auto

declare read_blocks.simps [simp del]

text \<open>A cache that agrees with the blocks of the device; what a write of the blocks from \<open>i\<close> on
  has done when it is over, in any way.\<close>

definition cache_coherent :: "('s \<Rightarrow> nat \<Rightarrow> u8 list) \<Rightarrow> nat \<Rightarrow> u8 list \<Rightarrow> 's \<Rightarrow> bool" where
  "cache_coherent contents count cache s \<longleftrightarrow>
     8 * count \<le> length cache \<and> (\<forall>j<count. block cache j = contents s j)"

definition blocks_written ::
  "('s \<Rightarrow> nat \<Rightarrow> u8 list) \<Rightarrow> nat \<Rightarrow> u8 list \<Rightarrow> nat \<Rightarrow> 's \<Rightarrow> s32 \<Rightarrow> 's \<Rightarrow> bool" where
  "blocks_written contents count buffer i s r s' \<longleftrightarrow> r \<in> {0, -1} \<and>
     (\<exists>k. i \<le> k \<and> k \<le> count \<and> (r = 0 \<longrightarrow> k = count) \<and>
        contents s' = (\<lambda>j. if i \<le> j \<and> j < k then block buffer j else contents s j))"

lemma blocks_written_step:
  assumes "blocks_written contents count buffer (Suc i) s1 r s'"
    "contents s1 = (contents s)(i := block buffer i)" "i < count"
  shows "blocks_written contents count buffer i s r s'"
proof -
  obtain k where k: "Suc i \<le> k" "k \<le> count" "r = 0 \<longrightarrow> k = count" "r \<in> {0, -1}"
    "contents s' = (\<lambda>j. if Suc i \<le> j \<and> j < k then block buffer j else contents s1 j)"
    using assms(1) by (auto simp: blocks_written_def)
  then have "contents s' = (\<lambda>j. if i \<le> j \<and> j < k then block buffer j else contents s j)"
    using assms(2) by (intro ext) auto
  with k show ?thesis unfolding blocks_written_def by (intro conjI exI [of _ k]) auto
qed

lemma blocks_written_nothing: "i \<le> count \<Longrightarrow> contents s' = contents s \<Longrightarrow> blocks_written contents count buffer i s (-1) s'"
  unfolding blocks_written_def by (intro conjI exI [of _ i]) (auto simp: fun_eq_iff)

text \<open>What the loops rely on: a device of \<open>count\<close> blocks whose operations return, change at most
  the block they are for, and change nothing when they report an error, which a good device does not do.\<close>

locale block_device =
  fixes rd :: "'s \<Rightarrow> nat \<Rightarrow> u8 list \<Rightarrow> (s32 \<times> u8 list \<times> 's) option"
    and wr :: "'s \<Rightarrow> nat \<Rightarrow> u8 list \<Rightarrow> (s32 \<times> 's) option"
    and contents :: "'s \<Rightarrow> nat \<Rightarrow> u8 list"
    and good :: "'s \<Rightarrow> bool"
    and count :: nat
  assumes block_length: "length (contents s i) = 8"
    and read_one: "i < count \<Longrightarrow> \<exists>r b' s'. rd s i b = Some (r, b', s') \<and> contents s' = contents s \<and>
      (r = 0 \<longrightarrow> b' = contents s i) \<and> (r \<noteq> 0 \<longrightarrow> b' = b) \<and> (good s \<longrightarrow> r = 0 \<and> good s')"
    and write_one: "i < count \<Longrightarrow> length b = 8 \<Longrightarrow> \<exists>r s'. wr s i b = Some (r, s') \<and>
      contents s' = (if r = 0 then (contents s)(i := b) else contents s) \<and> (good s \<longrightarrow> r = 0 \<and> good s')"
begin

abbreviation coherent :: "u8 list \<Rightarrow> 's \<Rightarrow> bool" where
  "coherent \<equiv> cache_coherent contents count"

lemma write_blocks_ok:
  assumes "coherent cache s" "8 * count \<le> length buffer" "i \<le> count"
  shows "\<exists>r cache' s'. write_blocks wr buffer i count cache s = Some (r, cache', s') \<and>
    coherent cache' s' \<and> length cache' = length cache \<and> blocks_written contents count buffer i s r s' \<and>
    (good s \<longrightarrow> r = 0 \<and> good s')"
  using assms
proof (induction "count - i" arbitrary: i cache s)
  case 0
  then show ?case by (subst write_blocks.simps) (auto simp: blocks_written_def fun_eq_iff intro!: exI [of _ count])
next
  case (Suc k)
  then have i: "i < count" and k: "k = count - Suc i" by simp_all
  have len: "8 * i + 8 \<le> length cache" "length (block buffer i) = 8"
    using i Suc.prems(1,2) by (auto simp: cache_coherent_def intro!: length_block)
  show ?case
  proof (cases "block buffer i = block cache i")
    case True
    then have "write_blocks wr buffer i count cache s = write_blocks wr buffer (Suc i) count cache s"
      using i by (subst write_blocks.simps) simp
    moreover have "contents s = (contents s)(i := block buffer i)" using True i Suc.prems(1) by (simp add: cache_coherent_def)
    ultimately show ?thesis
      using Suc.hyps(1) [of "Suc i" cache s] Suc.hyps(2) Suc.prems i blocks_written_step by fastforce
  next
    case False
    obtain r s1 where w: "wr s i (block buffer i) = Some (r, s1)"
      "contents s1 = (if r = 0 then (contents s)(i := block buffer i) else contents s)" "good s \<longrightarrow> r = 0 \<and> good s1"
      using write_one [OF i len(2)] by blast
    show ?thesis
    proof (cases "r = 0")
      case True
      let ?c = "put_block cache i (block buffer i)"
      have c: "coherent ?c s1" "length ?c = length cache"
        using Suc.prems(1) w(2) True len by (auto simp: cache_coherent_def block_put_block length_put_block)
      have "write_blocks wr buffer i count cache s = write_blocks wr buffer (Suc i) count ?c s1"
        using i False w(1) True by (subst write_blocks.simps) simp
      moreover obtain r' c' s' where "write_blocks wr buffer (Suc i) count ?c s1 = Some (r', c', s')"
        "coherent c' s'" "length c' = length ?c" "blocks_written contents count buffer (Suc i) s1 r' s'"
        "good s1 \<longrightarrow> r' = 0 \<and> good s'"
        using Suc.hyps(1) [OF k c(1) Suc.prems(2) Suc_leI [OF i]] by blast
      ultimately show ?thesis using blocks_written_step [of contents count buffer i s1 r' s' s] w(2,3) True i c(2) by auto
    next
      case F: False
      then have "write_blocks wr buffer i count cache s = Some (-1, cache, s1)"
        using i False w(1) by (subst write_blocks.simps) simp
      then show ?thesis using w(2,3) F Suc.prems(1,3) by (auto simp: cache_coherent_def intro: blocks_written_nothing)
    qed
  qed
qed

lemma read_blocks_ok:
  assumes "8 * count \<le> length cache" "i \<le> count" "\<And>j. j < i \<Longrightarrow> block cache j = contents s j"
  shows "\<exists>r cache' s'. read_blocks rd i count cache s = Some (r, cache', s') \<and> r \<in> {0, -1} \<and>
    length cache' = length cache \<and> contents s' = contents s \<and> (r = 0 \<longrightarrow> coherent cache' s') \<and>
    (good s \<longrightarrow> r = 0 \<and> good s')"
  using assms
proof (induction "count - i" arbitrary: i cache s)
  case 0
  then show ?case by (subst read_blocks.simps) (auto simp: cache_coherent_def)
next
  case (Suc k)
  then have i: "i < count" by simp
  have len: "8 * i + 8 \<le> length cache" "length (block cache i) = 8"
    using i Suc.prems(1) by (auto intro!: length_block)
  obtain r b s1 where rd: "rd s i (block cache i) = Some (r, b, s1)" "contents s1 = contents s"
    "r = 0 \<longrightarrow> b = contents s i" "r \<noteq> 0 \<longrightarrow> b = block cache i" "good s \<longrightarrow> r = 0 \<and> good s1"
    using read_one [OF i] by blast
  then have b: "length b = 8" using len(2) block_length by (cases "r = 0") auto
  let ?c = "put_block cache i b"
  have c: "length ?c = length cache" using len(1) b by (rule length_put_block)
  show ?case
  proof (cases "r = 0")
    case True
    have "read_blocks rd i count cache s = read_blocks rd (Suc i) count ?c s1"
      using i rd(1) True by (subst read_blocks.simps) simp
    moreover have "block ?c j = contents s1 j" if "j < Suc i" for j
      using that Suc.prems(3) [of j] rd(2,3) True len(1) b by (auto simp: block_put_block less_Suc_eq)
    ultimately show ?thesis
      using Suc.hyps(1) [of "Suc i" ?c s1] Suc.hyps(2) Suc.prems(1) i c rd(2,5) by fastforce
  next
    case False
    then have "read_blocks rd i count cache s = Some (-1, ?c, s1)"
      using i rd(1) by (subst read_blocks.simps) simp
    then show ?thesis using c rd(2,5) False by auto
  qed
qed

end

subsection \<open>The manager\<close>

record 'd EepMgr =
  em_dev :: 'd
  em_type :: nat
  em_numBlocks :: nat
  em_cache :: "u8 list"
  em_cached :: bool
  em_reqType :: int          \<comment> \<open>\<^verbatim>\<open>unk048.type\<close>\<close>
  em_requests :: nat         \<comment> \<open>the messages in \<^verbatim>\<open>unk014\<close>\<close>
  em_replies :: "s32 list"   \<comment> \<open>the messages in \<^verbatim>\<open>unk02C\<close>\<close>
  sEepBuff :: "u8 list"      \<comment> \<open>the buffer of the only client\<close>

text \<open>The serial interface with the chip, the clock rate that \<^verbatim>\<open>osInitialize\<close> has set, and what
  the chip does while a thread sleeps.\<close>

record 'd eep_hw =
  ee_pif :: "'d pif"
  ee_osClockRate :: u64
  ee_wait :: "u64 \<Rightarrow> 'd \<Rightarrow> 'd"

definition sMaxBlocks :: "nat list" where
  "sMaxBlocks = [0, 64, 256]"

definition EEP_READ_MSG :: int where "EEP_READ_MSG = 8"
definition EEP_WRITE_MSG :: int where "EEP_WRITE_MSG = 9"

definition eepmgr_Setup :: "'d EepMgr \<Rightarrow> nat \<Rightarrow> u8 list \<Rightarrow> 'd EepMgr" where
  "eepmgr_Setup m type cache =
     m\<lparr>em_cache := cache, em_type := type, em_numBlocks := sMaxBlocks ! type, em_cached := False,
       em_reqType := 0, em_requests := 0, em_replies := []\<rparr>"

text \<open>\<^const>\<open>None\<close> when the chip is not the expected one.\<close>

definition eepmgr_Probe :: "'d eep_hw \<Rightarrow> OSContStatus \<Rightarrow> 'd EepMgr \<Rightarrow> 'd EepMgr option" where
  "eepmgr_Probe hw sd m =
     (case osEepromProbe (ee_pif hw) sd (em_dev m) of (type, d1) \<Rightarrow>
        if type \<notin> {0, EEPROM_TYPE_4K, EEPROM_TYPE_16K} then None
        else if of_nat (em_type m) \<noteq> type then None
        else Some (m\<lparr>em_dev := d1\<rparr>))"

definition eepmgr_Read ::
  "'d eep_hw \<Rightarrow> OSContStatus \<Rightarrow> 'd \<Rightarrow> nat \<Rightarrow> u8 list \<Rightarrow> (s32 \<times> u8 list \<times> 'd) option" where
  "eepmgr_Read hw sd d i buffer =
     do { (status, buffer1, d1) \<leftarrow> osEepromRead (ee_pif hw) sd d (of_nat i) buffer;
          Some (if status \<noteq> 0 then -1 else 0, buffer1, d1) }"

definition eepmgr_Write ::
  "'d eep_hw \<Rightarrow> OSContStatus \<Rightarrow> 'd \<Rightarrow> nat \<Rightarrow> u8 list \<Rightarrow> (s32 \<times> 'd) option" where
  "eepmgr_Write hw sd d i buffer =
     do { (status, d1) \<leftarrow> osEepromWrite (ee_pif hw) sd d (of_nat i) buffer;
          Some (if status \<noteq> 0 then (-1, d1) else (0, ee_wait hw ((15 * ee_osClockRate hw) div 1000) d1)) }"

definition eepmgr_HandleWrite :: "'d eep_hw \<Rightarrow> OSContStatus \<Rightarrow> 'd EepMgr \<Rightarrow> (s32 \<times> 'd EepMgr) option" where
  "eepmgr_HandleWrite hw sd m =
     (if em_type m = 0 then Some (-1, m)
      else if \<not> em_cached m then Some (-1, m)
      else do { (r, cache, d) \<leftarrow> write_blocks (eepmgr_Write hw sd) (sEepBuff m) 0 (em_numBlocks m)
                                  (em_cache m) (em_dev m);
                Some (r, m\<lparr>em_dev := d, em_cache := cache\<rparr>) })"

definition eepmgr_HandleRead :: "'d eep_hw \<Rightarrow> OSContStatus \<Rightarrow> 'd EepMgr \<Rightarrow> (s32 \<times> 'd EepMgr) option" where
  "eepmgr_HandleRead hw sd m =
     (if em_type m = 0 then Some (-1, m)
      else do { (r, m1) \<leftarrow>
                  (if \<not> em_cached m
                   then do { (r, cache, d) \<leftarrow> read_blocks (eepmgr_Read hw sd) 0 (em_numBlocks m)
                                               (em_cache m) (em_dev m);
                             Some (r, m\<lparr>em_dev := d, em_cache := cache, em_cached := (r = 0)\<rparr>) }
                   else Some (0, m));
                let n = em_numBlocks m1 * 8 in
                Some (if r \<noteq> 0 then (-1, m1)
                      else (0, m1\<lparr>sEepBuff := take n (em_cache m1) @ drop n (sEepBuff m1)\<rparr>)) })"

text \<open>One turn of the loop of \<^verbatim>\<open>eepmgr_ThreadEntry\<close>: whether the thread goes on.  A request of
  another type is taken and not answered.\<close>

definition eepmgr_turn :: "'d eep_hw \<Rightarrow> OSContStatus \<Rightarrow> 'd EepMgr \<Rightarrow> (bool \<times> 'd EepMgr) option" where
  "eepmgr_turn hw sd m =
     (if em_requests m = 0 then None
      else do { let m1 = m\<lparr>em_requests := em_requests m - 1\<rparr>;
                m3 \<leftarrow> (if em_reqType m1 = EEP_READ_MSG
                       then do { (r, m2) \<leftarrow> eepmgr_HandleRead hw sd m1;
                                 Some (m2\<lparr>em_replies := em_replies m2 @ [r]\<rparr>) }
                       else if em_reqType m1 = EEP_WRITE_MSG
                       then do { (r, m2) \<leftarrow> eepmgr_HandleWrite hw sd m1;
                                 Some (m2\<lparr>em_replies := em_replies m2 @ [r]\<rparr>) }
                       else Some m1);
                Some (em_reqType m3 \<noteq> 4, m3) })"

text \<open>The client: \<^verbatim>\<open>eepmgr_SendRead\<close> and \<^verbatim>\<open>eepmgr_SendWrite\<close> loop for ever while a request is
  outstanding; \<^verbatim>\<open>func_8007D508\<close> receives the reply, here after the turn of the thread that the
  client waits for.\<close>

definition eepmgr_Send :: "int \<Rightarrow> 'd EepMgr \<Rightarrow> 'd EepMgr option" where
  "eepmgr_Send type m =
     (if em_reqType m \<noteq> 0 then None
      else Some (m\<lparr>em_reqType := type, em_requests := em_requests m + 1\<rparr>))"

definition eepmgr_SendRead :: "'d EepMgr \<Rightarrow> 'd EepMgr option" where
  "eepmgr_SendRead m = eepmgr_Send EEP_READ_MSG m"

definition eepmgr_SendWrite :: "'d EepMgr \<Rightarrow> 'd EepMgr option" where
  "eepmgr_SendWrite m = eepmgr_Send EEP_WRITE_MSG m"

definition func_8007D508 :: "'d eep_hw \<Rightarrow> OSContStatus \<Rightarrow> 'd EepMgr \<Rightarrow> (s32 \<times> 'd EepMgr) option" where
  "func_8007D508 hw sd m =
     do { (_, m1) \<leftarrow> (if em_replies m = [] then eepmgr_turn hw sd m else Some (True, m));
          case em_replies m1 of
            [] \<Rightarrow> None
          | msg # rest \<Rightarrow> Some (msg, m1\<lparr>em_replies := rest, em_reqType := 0\<rparr>) }"

subsection \<open>The cache invariant\<close>

definition eep_ready :: "('d \<Rightarrow> nat \<Rightarrow> u8 list) \<Rightarrow> nat \<Rightarrow> 'd EepMgr \<Rightarrow> bool" where
  "eep_ready contents n m \<longleftrightarrow>
     em_type m \<in> {1, 2} \<and> em_numBlocks m = n \<and> sMaxBlocks ! em_type m = n \<and>
     8 * n \<le> length (em_cache m) \<and> 8 * n \<le> length (sEepBuff m) \<and>
     (em_cached m \<longrightarrow> cache_coherent contents n (em_cache m) (em_dev m))"

definition hw_documented ::
  "'d eep_hw \<Rightarrow> ('d \<Rightarrow> nat \<Rightarrow> u8 list) \<Rightarrow> ('d \<Rightarrow> nat) \<Rightarrow> ('d \<Rightarrow> bool) \<Rightarrow> u16 \<Rightarrow> nat \<Rightarrow> bool" where
  "hw_documented hw contents busy good type n \<longleftrightarrow>
     eeprom_documented (ee_pif hw) contents busy good type n \<and>
     (\<forall>t d. contents (ee_wait hw t d) = contents d \<and> (good d \<longrightarrow> good (ee_wait hw t d)))"

lemma hw_blocks: "hw_documented hw contents busy good type n \<Longrightarrow> length (contents d i) = 8"
  unfolding hw_documented_def by (erule documented_blocks [OF conjunct1])

lemma block_device_eeprom:
  assumes "hw_documented hw contents busy good type n" "eep_type_size type n"
  shows "block_device (eepmgr_Read hw sd) (eepmgr_Write hw sd) contents good n"
proof
  note doc = assms(1) [unfolded hw_documented_def, THEN conjunct1] and wait = assms(1) [unfolded hw_documented_def, THEN conjunct2]
  have n: "n \<le> 256" using assms(2) by (auto simp: eep_type_size_def)
  have idx: "unat (of_nat i :: u8) = i" if "i < n" for i
    using n that by (simp add: unat_of_nat take_bit_nat_eq_self)
  fix s :: 'a and i :: nat and b :: "u8 list"
  show "length (contents s i) = 8" using doc by (rule documented_blocks)
  assume i: "i < n"
  show "\<exists>r b' s'. eepmgr_Read hw sd s i b = Some (r, b', s') \<and> contents s' = contents s \<and>
      (r = 0 \<longrightarrow> b' = contents s i) \<and> (r \<noteq> 0 \<longrightarrow> b' = b) \<and> (good s \<longrightarrow> r = 0 \<and> good s')"
    using osEepromRead_documented [OF doc assms(2), of "of_nat i" sd s b] i idx [OF i]
    by (auto simp: eepmgr_Read_def)
  assume "length b = 8"
  then obtain ret s' where "osEepromWrite (ee_pif hw) sd s (of_nat i) b = Some (ret, s')"
    "contents s' = (if ret = 0 then (contents s)(i := b) else contents s)" "good s \<longrightarrow> ret = 0 \<and> good s'"
    using osEepromWrite_documented [OF doc assms(2), of "of_nat i" b sd s] i idx [OF i] by auto
  then show "\<exists>r s'. eepmgr_Write hw sd s i b = Some (r, s') \<and>
      contents s' = (if r = 0 then (contents s)(i := b) else contents s) \<and> (good s \<longrightarrow> r = 0 \<and> good s')"
    using wait by (cases "ret = 0") (auto simp: eepmgr_Write_def)
qed

text \<open>The simulated chip; a sleep is long enough for it to finish a write.\<close>

definition sim_hw :: "sim_eeprom eep_hw" where
  "sim_hw = \<lparr>ee_pif = sim_pif, ee_osClockRate = 46875000, ee_wait = (\<lambda>t d. (fst d, if t < 703125 then snd d else 0))\<rparr>"

lemma sim_hw_documented: "hw_documented sim_hw sim_blocks snd sim_good (CONT_EEPROM OR CONT_EEP16K) 256"
  by (auto simp: hw_documented_def sim_hw_def sim_pif_documented sim_blocks_def fun_eq_iff)

interpretation sim_eeprom: block_device "eepmgr_Read sim_hw sd" "eepmgr_Write sim_hw sd" sim_blocks sim_good 256
  for sd
  by (rule block_device_eeprom [OF sim_hw_documented eep_type_size_16K])

lemma HandleWrite_ready:
  assumes "hw_documented hw contents busy good type n" "eep_type_size type n" "eep_ready contents n m"
  shows "\<exists>r m'. eepmgr_HandleWrite hw sd m = Some (r, m') \<and> eep_ready contents n m' \<and>
    sEepBuff m' = sEepBuff m \<and> em_cached m' = em_cached m \<and> em_replies m' = em_replies m \<and>
    em_reqType m' = em_reqType m \<and> em_requests m' = em_requests m \<and>
    (em_cached m \<longrightarrow> blocks_written contents n (sEepBuff m) 0 (em_dev m) r (em_dev m')) \<and>
    (em_cached m \<and> good (em_dev m) \<longrightarrow> r = 0) \<and> (good (em_dev m) \<longrightarrow> good (em_dev m')) \<and>
    (\<not> em_cached m \<longrightarrow> r = -1 \<and> m' = m)"
proof (cases "em_cached m")
  case True
  with assms(3) have "cache_coherent contents n (em_cache m) (em_dev m)" "8 * n \<le> length (sEepBuff m)"
    by (simp_all add: eep_ready_def)
  from block_device.write_blocks_ok [OF block_device_eeprom [OF assms(1,2)] this, of 0 sd]
  obtain r c d where "write_blocks (eepmgr_Write hw sd) (sEepBuff m) 0 n (em_cache m) (em_dev m) = Some (r, c, d)"
    "cache_coherent contents n c d" "length c = length (em_cache m)"
    "blocks_written contents n (sEepBuff m) 0 (em_dev m) r d" "good (em_dev m) \<longrightarrow> r = 0 \<and> good d"
    by auto
  with True assms(3) show ?thesis by (auto simp: eepmgr_HandleWrite_def eep_ready_def)
next
  case False
  with assms(3) show ?thesis by (auto simp: eepmgr_HandleWrite_def eep_ready_def)
qed

lemma HandleRead_ready:
  assumes "hw_documented hw contents busy good type n" "eep_type_size type n" "eep_ready contents n m"
  shows "\<exists>r m'. eepmgr_HandleRead hw sd m = Some (r, m') \<and> eep_ready contents n m' \<and> r \<in> {0, -1} \<and>
    contents (em_dev m') = contents (em_dev m) \<and> em_replies m' = em_replies m \<and>
    em_reqType m' = em_reqType m \<and> em_requests m' = em_requests m \<and>
    length (sEepBuff m') = length (sEepBuff m) \<and>
    (r = 0 \<longrightarrow> em_cached m' \<and> (\<forall>j<n. block (sEepBuff m') j = contents (em_dev m) j)) \<and>
    (r \<noteq> 0 \<longrightarrow> sEepBuff m' = sEepBuff m \<and> \<not> em_cached m \<and> \<not> good (em_dev m)) \<and>
    (good (em_dev m) \<longrightarrow> good (em_dev m'))"
proof -
  have blk: "block (take (n * 8) xs @ ys) j = block xs j" if "j < n" "8 * n \<le> length xs" for j xs ys
    using that by (simp add: block_def drop_take)
  show ?thesis
  proof (cases "em_cached m")
    case True
    with assms(3) blk show ?thesis by (auto simp: eepmgr_HandleRead_def eep_ready_def cache_coherent_def Let_def)
  next
    case False
    from block_device.read_blocks_ok [OF block_device_eeprom [OF assms(1,2)], of "em_cache m" 0 "em_dev m" sd] assms(3)
    obtain r c d where "read_blocks (eepmgr_Read hw sd) 0 n (em_cache m) (em_dev m) = Some (r, c, d)"
      "r \<in> {0, -1}" "length c = length (em_cache m)" "contents d = contents (em_dev m)"
      "r = 0 \<longrightarrow> cache_coherent contents n c d" "good (em_dev m) \<longrightarrow> r = 0 \<and> good d"
      by (auto simp: eep_ready_def)
    with False assms(3) blk show ?thesis
      by (auto simp: eepmgr_HandleRead_def eep_ready_def cache_coherent_def Let_def)
  qed
qed

definition client_idle :: "'d EepMgr \<Rightarrow> bool" where
  "client_idle m \<longleftrightarrow> em_reqType m = 0 \<and> em_requests m = 0 \<and> em_replies m = []"

lemma eep_ready_more [simp]:
  "eep_ready contents n (m\<lparr>em_replies := x\<rparr>) = eep_ready contents n m"
  "eep_ready contents n (m\<lparr>em_requests := k\<rparr>) = eep_ready contents n m"
  "eep_ready contents n (m\<lparr>em_reqType := t\<rparr>) = eep_ready contents n m"
  by (simp_all add: eep_ready_def)

lemma write_request:
  assumes "hw_documented hw contents busy good type n" "eep_type_size type n" "eep_ready contents n m" "client_idle m"
  shows "\<exists>m1 r m2. eepmgr_SendWrite m = Some m1 \<and> func_8007D508 hw sd m1 = Some (r, m2) \<and>
    eep_ready contents n m2 \<and> client_idle m2 \<and> sEepBuff m2 = sEepBuff m \<and> em_cached m2 = em_cached m \<and>
    (em_cached m \<longrightarrow> blocks_written contents n (sEepBuff m) 0 (em_dev m) r (em_dev m2)) \<and>
    (em_cached m \<and> good (em_dev m) \<longrightarrow> r = 0) \<and> (good (em_dev m) \<longrightarrow> good (em_dev m2)) \<and>
    (\<not> em_cached m \<longrightarrow> r = -1 \<and> em_dev m2 = em_dev m)"
proof -
  define m1 where "m1 = m\<lparr>em_reqType := EEP_WRITE_MSG, em_requests := 1\<rparr>"
  have s: "eepmgr_SendWrite m = Some m1"
    using assms(4) by (simp add: eepmgr_SendWrite_def eepmgr_Send_def client_idle_def m1_def)
  let ?m = "m1\<lparr>em_requests := 0\<rparr>"
  have "eep_ready contents n ?m" using assms(3) by (simp add: m1_def)
  from HandleWrite_ready [OF assms(1,2) this, of sd]
  obtain r m' where h: "eepmgr_HandleWrite hw sd ?m = Some (r, m')" "eep_ready contents n m'"
    "sEepBuff m' = sEepBuff m" "em_cached m' = em_cached m" "em_replies m' = em_replies m" "em_requests m' = 0"
    "em_cached m \<longrightarrow> blocks_written contents n (sEepBuff m) 0 (em_dev m) r (em_dev m')"
    "em_cached m \<and> good (em_dev m) \<longrightarrow> r = 0" "good (em_dev m) \<longrightarrow> good (em_dev m')"
    "\<not> em_cached m \<longrightarrow> r = -1 \<and> m' = ?m"
    by (auto simp: m1_def)
  have "func_8007D508 hw sd m1 = Some (r, m'\<lparr>em_replies := [], em_reqType := 0\<rparr>)"
    using h(1,5) assms(4)
    by (simp add: func_8007D508_def eepmgr_turn_def m1_def client_idle_def EEP_WRITE_MSG_def EEP_READ_MSG_def Let_def)
  then show ?thesis using s h by (auto simp: client_idle_def m1_def)
qed

lemma read_request:
  assumes "hw_documented hw contents busy good type n" "eep_type_size type n" "eep_ready contents n m" "client_idle m"
  shows "\<exists>m1 r m2. eepmgr_SendRead m = Some m1 \<and> func_8007D508 hw sd m1 = Some (r, m2) \<and>
    eep_ready contents n m2 \<and> client_idle m2 \<and> r \<in> {0, -1} \<and> contents (em_dev m2) = contents (em_dev m) \<and>
    length (sEepBuff m2) = length (sEepBuff m) \<and> (em_cached m \<or> good (em_dev m) \<longrightarrow> r = 0) \<and>
    (good (em_dev m) \<longrightarrow> good (em_dev m2)) \<and>
    (r = 0 \<longrightarrow> em_cached m2 \<and> (\<forall>j<n. block (sEepBuff m2) j = contents (em_dev m) j))"
proof -
  define m1 where "m1 = m\<lparr>em_reqType := EEP_READ_MSG, em_requests := 1\<rparr>"
  have s: "eepmgr_SendRead m = Some m1"
    using assms(4) by (simp add: eepmgr_SendRead_def eepmgr_Send_def client_idle_def m1_def)
  let ?m = "m1\<lparr>em_requests := 0\<rparr>"
  have "eep_ready contents n ?m" using assms(3) by (simp add: m1_def)
  from HandleRead_ready [OF assms(1,2) this, of sd]
  obtain r m' where h: "eepmgr_HandleRead hw sd ?m = Some (r, m')" "eep_ready contents n m'" "r \<in> {0, -1}"
    "contents (em_dev m') = contents (em_dev m)" "em_replies m' = em_replies m" "em_requests m' = 0"
    "length (sEepBuff m') = length (sEepBuff m)" "em_cached m \<or> good (em_dev m) \<longrightarrow> r = 0"
    "good (em_dev m) \<longrightarrow> good (em_dev m')"
    "r = 0 \<longrightarrow> em_cached m' \<and> (\<forall>j<n. block (sEepBuff m') j = contents (em_dev m) j)"
    by (auto simp: m1_def)
  have "func_8007D508 hw sd m1 = Some (r, m'\<lparr>em_replies := [], em_reqType := 0\<rparr>)"
    using h(1,5) assms(4)
    by (simp add: func_8007D508_def eepmgr_turn_def m1_def client_idle_def EEP_READ_MSG_def Let_def)
  then show ?thesis using s h by (auto simp: client_idle_def)
qed

subsection \<open>Properties\<close>

text \<open>Claim C28: for a chip that keeps its promises but may report errors at any time, a write request
  is answered, and afterwards the cache still agrees with the chip.  Without a cached copy nothing
  is written and the answer is -1; with one, the blocks of the buffer have been written from the
  first to some block, and the others are as before; the answer 0 means that all were written, and
  a chip whose transfers do not fail gives this answer.\<close>

theorem eepmgr_write_keeps_cache_coherent:
  assumes "hw_documented hw contents busy good type n" "eep_type_size type n" "eep_ready contents n m" "client_idle m"
  shows "\<exists>m1 r m2. eepmgr_SendWrite m = Some m1 \<and> func_8007D508 hw sd m1 = Some (r, m2) \<and>
    eep_ready contents n m2 \<and> client_idle m2 \<and>
    (if em_cached m
     then (good (em_dev m) \<longrightarrow> r = 0) \<and>
          (\<exists>k\<le>n. (r = 0 \<longrightarrow> k = n) \<and>
            contents (em_dev m2) = (\<lambda>j. if j < k then block (sEepBuff m) j else contents (em_dev m) j))
     else r = -1 \<and> em_dev m2 = em_dev m)"
proof -
  obtain m1 r m2 where "eepmgr_SendWrite m = Some m1" "func_8007D508 hw sd m1 = Some (r, m2)"
    "eep_ready contents n m2" "client_idle m2"
    "em_cached m \<longrightarrow> blocks_written contents n (sEepBuff m) 0 (em_dev m) r (em_dev m2)"
    "em_cached m \<and> good (em_dev m) \<longrightarrow> r = 0" "\<not> em_cached m \<longrightarrow> r = -1 \<and> em_dev m2 = em_dev m"
    using write_request [OF assms, of sd] by blast
  then show ?thesis by (cases "em_cached m") (auto simp: blocks_written_def)
qed

text \<open>a read request is answered and does not change the chip; when the answer is 0 the
  buffer holds the blocks of the chip, whether they came from the chip or from the cache, and
  from then on writing is possible.\<close>

theorem eepmgr_read_returns_contents:
  assumes "hw_documented hw contents busy good type n" "eep_type_size type n" "eep_ready contents n m" "client_idle m"
  shows "\<exists>m1 r m2. eepmgr_SendRead m = Some m1 \<and> func_8007D508 hw sd m1 = Some (r, m2) \<and>
    eep_ready contents n m2 \<and> client_idle m2 \<and> contents (em_dev m2) = contents (em_dev m) \<and> r \<in> {0, -1} \<and>
    (em_cached m \<or> good (em_dev m) \<longrightarrow> r = 0) \<and>
    (r = 0 \<longrightarrow> em_cached m2 \<and> (\<forall>j<n. block (sEepBuff m2) j = contents (em_dev m) j))"
  using read_request [OF assms, of sd] by blast

subsection \<open>A concrete manager\<close>

definition sample_eepmgr :: "sim_eeprom EepMgr" where
  "sample_eepmgr = \<lparr>em_dev = (\<lambda>_. replicate 8 3, 1), em_type = 2, em_numBlocks = 256,
     em_cache = replicate 2048 0, em_cached = False, em_reqType = 0, em_requests = 0, em_replies = [],
     sEepBuff = replicate 2048 9\<rparr>"

lemma sample_eepmgr_ready: "eep_ready sim_blocks 256 sample_eepmgr" "client_idle sample_eepmgr"
  by (simp_all add: eep_ready_def sample_eepmgr_def sMaxBlocks_def client_idle_def numeral_2_eq_2)

theorem eepmgr_write_keeps_cache_coherent_witness:
  "\<exists>m1 m2. eepmgr_SendWrite sample_eepmgr = Some m1 \<and>
     func_8007D508 sim_hw \<lparr>cs_type = 0, cs_status = 0, cs_errno = 0\<rparr> m1 = Some (-1, m2)"
  using eepmgr_write_keeps_cache_coherent [OF sim_hw_documented eep_type_size_16K sample_eepmgr_ready,
      of "\<lparr>cs_type = 0, cs_status = 0, cs_errno = 0\<rparr>"]
  by (auto simp: sample_eepmgr_def)

theorem eepmgr_read_returns_contents_witness:
  "\<exists>m1 r m2. eepmgr_SendRead sample_eepmgr = Some m1 \<and>
     func_8007D508 sim_hw \<lparr>cs_type = 0, cs_status = 0, cs_errno = 0\<rparr> m1 = Some (r, m2) \<and>
     (r = 0 \<longrightarrow> block (sEepBuff m2) 255 = replicate 8 3)"
  using eepmgr_read_returns_contents [OF sim_hw_documented eep_type_size_16K sample_eepmgr_ready,
      of "\<lparr>cs_type = 0, cs_status = 0, cs_errno = 0\<rparr>"]
  by (auto simp: sample_eepmgr_def sim_blocks_def)

end
