(* ===== verification/SaveFile.thy ===== *)
theory SaveFile
  imports Eepmgr
begin

section \<open>The save file\<close>

text \<open>
  The save functions of \<^verbatim>\<open>src/main/O2/65520.c\<close>: two copies of an \<^verbatim>\<open>EepBuffer\<close>, each of data, a
  checksum and a mark, written to and read from the chip through the EEPROM manager.  A buffer
  is its 1024 bytes.  The checksum \<^verbatim>\<open>func_800699BC\<close> and the copy \<^verbatim>\<open>func_80065528\<close> are assembly that
  is not in the sources, hence parameters; \<open>save_env_ok\<close> says that the checksum is one of the
  data (the code computes it before it stores the other two fields) and that the copy copies.
\<close>

definition EEPBUFFER_MAGIC :: u32 where "EEPBUFFER_MAGIC = 0x81317531"

record save_env =
  func_800699BC :: "u8 list \<Rightarrow> u16"
  func_80065528 :: "u8 list \<Rightarrow> u8 list \<Rightarrow> nat \<Rightarrow> u8 list"   \<comment> \<open>old destination, source, size\<close>

definition save_env_ok :: "save_env \<Rightarrow> bool" where
  "save_env_ok env \<longleftrightarrow>
     (\<forall>b b'. take 0x3FA b = take 0x3FA b' \<longrightarrow> func_800699BC env b = func_800699BC env b') \<and>
     (\<forall>dst src n. n \<le> length src \<and> n \<le> length dst \<longrightarrow>
        func_80065528 env dst src n = take n src @ drop n dst)"

subsection \<open>The fields of a buffer\<close>

definition u16_bytes :: "u16 \<Rightarrow> u8 list" where
  "u16_bytes w = [ucast (drop_bit 8 w), ucast w]"

definition u32_bytes :: "u32 \<Rightarrow> u8 list" where
  "u32_bytes w = [ucast (drop_bit 24 w), ucast (drop_bit 16 w), ucast (drop_bit 8 w), ucast w]"

definition eb_data :: "u8 list \<Rightarrow> u8 list" where
  "eb_data b = take 0x3FA b"

definition eb_unk3FA :: "u8 list \<Rightarrow> u16" where
  "eb_unk3FA b = push_bit 8 (ucast (b ! 0x3FA)) OR ucast (b ! 0x3FB)"

definition eb_magic :: "u8 list \<Rightarrow> u32" where
  "eb_magic b = push_bit 24 (ucast (b ! 0x3FC)) OR push_bit 16 (ucast (b ! 0x3FD)) OR
     push_bit 8 (ucast (b ! 0x3FE)) OR ucast (b ! 0x3FF)"

text \<open>\<^verbatim>\<open>sEepBuff[k]\<close>.\<close>

definition eep_buffer :: "u8 list \<Rightarrow> nat \<Rightarrow> u8 list" where
  "eep_buffer bs k = take 0x400 (drop (0x400 * k) bs)"

subsection \<open>Saving and loading\<close>

definition func_80069A80 ::
  "save_env \<Rightarrow> 'd eep_hw \<Rightarrow> OSContStatus \<Rightarrow> u8 list \<Rightarrow> 'd EepMgr \<Rightarrow> (s32 \<times> 'd EepMgr) option" where
  "func_80069A80 env hw sd arg0 m =
     (let b0 = eep_buffer (sEepBuff m) 0;
          b1 = func_80065528 env (eb_data b0) arg0 0x3FA @ drop 0x3FA b0;
          b2 = eb_data b1 @ u16_bytes (func_800699BC env b1) @ drop 0x3FC b1;
          b3 = take 0x3FC b2 @ u32_bytes EEPBUFFER_MAGIC;
          m1 = m\<lparr>sEepBuff := b3 @ b3\<rparr>
      in do { m2 \<leftarrow> eepmgr_SendWrite m1;
              (msg, m3) \<leftarrow> func_8007D508 hw sd m2;
              Some (if msg \<noteq> 0 then 1 else 0, m3) })"

definition valid_copy :: "save_env \<Rightarrow> u8 list \<Rightarrow> bool" where
  "valid_copy env b \<longleftrightarrow> eb_unk3FA b = func_800699BC env b \<and> eb_magic b = EEPBUFFER_MAGIC"

text \<open>The result comes with the destination \<open>arg0\<close> as it is afterwards.\<close>

definition func_80069B34 ::
  "save_env \<Rightarrow> 'd eep_hw \<Rightarrow> OSContStatus \<Rightarrow> u8 list \<Rightarrow> 'd EepMgr \<Rightarrow> (s32 \<times> u8 list \<times> 'd EepMgr) option" where
  "func_80069B34 env hw sd arg0 m =
     do { m1 \<leftarrow> eepmgr_SendRead m;
          (msg, m2) \<leftarrow> func_8007D508 hw sd m1;
          let b0 = eep_buffer (sEepBuff m2) 0; b1 = eep_buffer (sEepBuff m2) 1 in
          Some (if msg \<noteq> 0 then (1, arg0, m2)
                else if eb_unk3FA b0 = func_800699BC env b0 \<and> eb_magic b0 = EEPBUFFER_MAGIC
                then (0, func_80065528 env arg0 (eb_data b0) 0x3FA, m2)
                else if eb_unk3FA b1 = func_800699BC env b1 \<and> eb_magic b1 = EEPBUFFER_MAGIC
                then (0, func_80065528 env arg0 (eb_data b1) 0x3FA, m2)
                else (1, arg0, m2)) }"

subsection \<open>The image of a save\<close>

definition save_image :: "save_env \<Rightarrow> u8 list \<Rightarrow> u8 list" where
  "save_image env xs = xs @ u16_bytes (func_800699BC env xs) @ u32_bytes EEPBUFFER_MAGIC"

lemma length_save_image: "length xs = 0x3FA \<Longrightarrow> length (save_image env xs) = 0x400"
  by (simp add: save_image_def u16_bytes_def u32_bytes_def)

lemma u16_bytes_value: "push_bit 8 (ucast (u16_bytes w ! 0)) OR ucast (u16_bytes w ! 1) = w"
  unfolding u16_bytes_def by (rule bit_word_eqI) (auto simp: bit_simps)

lemma u32_bytes_value:
  "push_bit 24 (ucast (u32_bytes w ! 0)) OR push_bit 16 (ucast (u32_bytes w ! 1)) OR
   push_bit 8 (ucast (u32_bytes w ! 2)) OR ucast (u32_bytes w ! 3) = w"
  using load32_store32_same [of "\<lambda>_. 0" 0 w] by (simp add: u32_bytes_def load32_def store32_def)

lemma save_image_valid:
  assumes "save_env_ok env" "length xs = 0x3FA"
  shows "valid_copy env (save_image env xs)" "eb_data (save_image env xs) = xs"
proof -
  show d: "eb_data (save_image env xs) = xs" using assms(2) by (simp add: eb_data_def save_image_def)
  have "eb_unk3FA (save_image env xs) = func_800699BC env xs"
    using assms(2) u16_bytes_value [of "func_800699BC env xs"]
    by (simp add: eb_unk3FA_def save_image_def nth_append u16_bytes_def)
  moreover have "eb_magic (save_image env xs) = EEPBUFFER_MAGIC"
    using assms(2) u32_bytes_value [of EEPBUFFER_MAGIC]
    by (simp add: eb_magic_def save_image_def nth_append u16_bytes_def u32_bytes_def)
  moreover have "func_800699BC env (save_image env xs) = func_800699BC env xs"
    using assms d by (simp add: save_env_ok_def eb_data_def)
  ultimately show "valid_copy env (save_image env xs)" by (simp add: valid_copy_def)
qed

lemma func_80069A80_eq:
  assumes "save_env_ok env" "length xs = 0x3FA" "length (sEepBuff m) = 0x800"
  shows "func_80069A80 env hw sd xs m =
    do { m2 \<leftarrow> eepmgr_SendWrite (m\<lparr>sEepBuff := save_image env xs @ save_image env xs\<rparr>);
         (msg, m3) \<leftarrow> func_8007D508 hw sd m2;
         Some (if msg \<noteq> 0 then 1 else 0, m3) }"
proof -
  let ?b0 = "eep_buffer (sEepBuff m) 0"
  have "func_80065528 env (eb_data ?b0) xs 0x3FA = xs"
    using assms by (simp add: save_env_ok_def eb_data_def eep_buffer_def)
  moreover have "func_800699BC env (xs @ drop 0x3FA ?b0) = func_800699BC env xs"
    using assms(1,2) by (simp add: save_env_ok_def)
  ultimately show ?thesis
    using assms(2) by (simp add: func_80069A80_def Let_def save_image_def eb_data_def u16_bytes_def)
qed

lemma two_copies:
  assumes "length xs = 0x400" "length ys = 0x400"
  shows "eep_buffer (xs @ ys) 0 = xs" "eep_buffer (xs @ ys) 1 = ys"
  using assms by (simp_all add: eep_buffer_def)

text \<open>The blocks of the chip as one list of bytes.\<close>

definition chip_bytes :: "(nat \<Rightarrow> u8 list) \<Rightarrow> nat \<Rightarrow> u8 list" where
  "chip_bytes f n = concat (map f [0..<n])"

lemma chip_bytes_of_blocks:
  assumes "length xs = 8 * n" "\<And>j. j < n \<Longrightarrow> f j = block xs j"
  shows "chip_bytes f n = xs"
proof -
  have "chip_bytes f k = take (8 * k) xs" if "k \<le> n" for k
    using that
  proof (induction k)
    case (Suc k)
    then have "chip_bytes f (Suc k) = take (8 * k) xs @ block xs k" using assms(2) by (simp add: chip_bytes_def)
    also have "\<dots> = take (8 * k + 8) xs" by (simp add: block_def take_add)
    finally show ?case by (simp add: add.commute)
  qed (simp add: chip_bytes_def)
  with assms(1) show ?thesis by simp
qed

text \<open>What a load finds on the chip: the first of the two copies that is valid.\<close>

definition first_valid :: "save_env \<Rightarrow> u8 list \<Rightarrow> u8 list option" where
  "first_valid env c =
     (if valid_copy env (eep_buffer c 0) then Some (eb_data (eep_buffer c 0))
      else if valid_copy env (eep_buffer c 1) then Some (eb_data (eep_buffer c 1)) else None)"

lemma load_first_valid:
  assumes "save_env_ok env" "hw_documented hw contents busy good type 256" "eep_type_size type 256"
    "eep_ready contents 256 m" "client_idle m" "length (sEepBuff m) = 0x800" "length dst = 0x3FA"
  shows "\<exists>r out m'. func_80069B34 env hw sd dst m = Some (r, out, m') \<and>
    contents (em_dev m') = contents (em_dev m) \<and>
    (r = 1 \<and> out = dst \<and> \<not> em_cached m \<and> \<not> good (em_dev m) \<or>
     (case first_valid env (chip_bytes (contents (em_dev m)) 256) of
        Some xs \<Rightarrow> r = 0 \<and> out = xs | None \<Rightarrow> r = 1 \<and> out = dst))"
proof -
  obtain m1 msg m2 where q: "eepmgr_SendRead m = Some m1" "func_8007D508 hw sd m1 = Some (msg, m2)"
    "contents (em_dev m2) = contents (em_dev m)" "length (sEepBuff m2) = 0x800" "em_cached m \<or> good (em_dev m) \<longrightarrow> msg = 0"
    "msg = 0 \<longrightarrow> (\<forall>j<256. block (sEepBuff m2) j = contents (em_dev m) j)"
    using read_request [OF assms(2-5), of sd] assms(6) by auto
  have copy: "func_80065528 env dst (eb_data (eep_buffer bs k)) 0x3FA = eb_data (eep_buffer bs k)"
    if "length bs = 0x800" "k \<le> 1" for bs k
    using assms(1,7) that by (simp add: save_env_ok_def eep_buffer_def eb_data_def)
  show ?thesis
  proof (cases "msg = 0")
    case True
    then have "chip_bytes (contents (em_dev m)) 256 = sEepBuff m2"
      using q(4,6) by (intro chip_bytes_of_blocks) auto
    then show ?thesis
      using q True copy [OF q(4)] by (auto simp: func_80069B34_def first_valid_def valid_copy_def Let_def)
  next
    case False
    then show ?thesis using q by (auto simp: func_80069B34_def Let_def)
  qed
qed

lemma save_blocks:
  assumes "save_env_ok env" "hw_documented hw contents busy good type 256" "eep_type_size type 256"
    "eep_ready contents 256 m" "client_idle m" "em_cached m" "length (sEepBuff m) = 0x800" "length xs = 0x3FA"
  shows "\<exists>r m' k. func_80069A80 env hw sd xs m = Some (r, m') \<and> r \<in> {0, 1} \<and> k \<le> 256 \<and> (r = 0 \<longrightarrow> k = 256) \<and>
    eep_ready contents 256 m' \<and> client_idle m' \<and> em_cached m' \<and> length (sEepBuff m') = 0x800 \<and>
    (good (em_dev m) \<longrightarrow> r = 0 \<and> good (em_dev m')) \<and>
    contents (em_dev m') = (\<lambda>j. if j < k then block (save_image env xs @ save_image env xs) j
      else contents (em_dev m) j)"
proof -
  let ?img = "save_image env xs @ save_image env xs"
  have img: "length ?img = 0x800" using assms(8) by (simp add: length_save_image)
  have "eep_ready contents 256 (m\<lparr>sEepBuff := ?img\<rparr>)" "client_idle (m\<lparr>sEepBuff := ?img\<rparr>)"
    using assms(4,5) img by (simp_all add: eep_ready_def client_idle_def)
  from write_request [OF assms(2,3) this, of sd] assms(6)
  obtain m1 msg m2 where w: "eepmgr_SendWrite (m\<lparr>sEepBuff := ?img\<rparr>) = Some m1"
    "func_8007D508 hw sd m1 = Some (msg, m2)" "eep_ready contents 256 m2" "client_idle m2" "sEepBuff m2 = ?img"
    "em_cached m2" "good (em_dev m) \<longrightarrow> msg = 0 \<and> good (em_dev m2)" "blocks_written contents 256 ?img 0 (em_dev m) msg (em_dev m2)"
    by auto
  then obtain k where "k \<le> 256" "msg = 0 \<longrightarrow> k = 256"
    "contents (em_dev m2) = (\<lambda>j. if j < k then block ?img j else contents (em_dev m) j)"
    by (auto simp: blocks_written_def)
  with w img show ?thesis
    unfolding func_80069A80_eq [OF assms(1,8,7)] by (intro exI [of _ "if msg \<noteq> 0 then 1 else 0"] exI [of _ m2] exI [of _ k]) auto
qed

lemma drop_chip_bytes:
  assumes "\<And>j. length (f j) = 8" "k \<le> n"
  shows "drop (8 * k) (chip_bytes f n) = concat (map f [k..<n])"
proof -
  have "length (concat (map f [0..<k])) = 8 * k" using assms(1) by (induction k) simp_all
  moreover have "chip_bytes f n = concat (map f [0..<k]) @ concat (map f [k..<n])"
    using upt_add_eq_append [of 0 k "n - k"] assms(2) by (simp add: chip_bytes_def)
  ultimately show ?thesis by simp
qed

lemma chip_bytes_second_copy:
  assumes "\<And>j. length (f j) = 8" "\<And>j. length (g j) = 8" "\<And>j. 128 \<le> j \<Longrightarrow> j < 256 \<Longrightarrow> f j = g j"
  shows "eep_buffer (chip_bytes f 256) 1 = eep_buffer (chip_bytes g 256) 1"
proof -
  have "concat (map f [128..<256]) = concat (map g [128..<256])"
    using assms(3) by (intro arg_cong [of _ _ concat] map_cong refl) (simp only: set_upt atLeastLessThan_iff)
  moreover have "eep_buffer (chip_bytes h 256) 1 = take 0x400 (concat (map h [128..<256]))"
    if "\<And>j. length (h j) = 8" for h
    using drop_chip_bytes [OF that, of 128 256] by (simp add: eep_buffer_def del: upt_rec_numeral)
  ultimately show ?thesis using assms(1,2) by (simp only:)
qed

lemma chip_bytes_first_copy:
  assumes "\<And>j. length (f j) = 8"
  shows "eep_buffer (chip_bytes f 256) 0 = chip_bytes f 128"
proof -
  have "length (chip_bytes f 128) = 8 * 128"
    using assms by (simp add: chip_bytes_def length_concat comp_def sum_list_triv del: upt_rec_numeral)
  moreover have "chip_bytes f 256 = chip_bytes f 128 @ concat (map f [128..<256])"
    using upt_add_eq_append [of 0 128 128] by (simp add: chip_bytes_def del: upt_rec_numeral)
  ultimately show ?thesis by (simp add: eep_buffer_def)
qed

lemma block_append: "8 * j + 8 \<le> length xs \<Longrightarrow> block (xs @ ys) j = block xs j"
  by (simp add: block_def)

text \<open>A chip of two parts: the blocks below \<open>k\<close> of one image, the others of another.\<close>

lemma copies_of_mixed_chip:
  assumes "length a = 0x400" "length b = 0x400" "k \<le> 256"
    "\<And>j. length (f j) = 8" "\<And>j. j < k \<Longrightarrow> f j = block (a @ a) j" "\<And>j. k \<le> j \<Longrightarrow> j < 256 \<Longrightarrow> f j = block (b @ b) j"
  shows "128 \<le> k \<Longrightarrow> eep_buffer (chip_bytes f 256) 0 = a"
    and "k = 256 \<Longrightarrow> eep_buffer (chip_bytes f 256) 1 = a"
    and "k \<le> 128 \<Longrightarrow> eep_buffer (chip_bytes f 256) 1 = b"
proof -
  show "eep_buffer (chip_bytes f 256) 0 = a" if "128 \<le> k"
    unfolding chip_bytes_first_copy [of f, OF assms(4)]
    using assms(1,5) that by (intro chip_bytes_of_blocks) (auto simp: block_append)
  show "eep_buffer (chip_bytes f 256) 1 = a" if "k = 256"
  proof -
    have "chip_bytes f 256 = a @ a" using assms(1,5) that by (intro chip_bytes_of_blocks) auto
    then show ?thesis using two_copies [OF assms(1,1)] by simp
  qed
  show "eep_buffer (chip_bytes f 256) 1 = b" if "k \<le> 128"
  proof -
    define g where "g = (\<lambda>j. if j < 256 then block (b @ b) j else replicate 8 0)"
    have "chip_bytes g 256 = b @ b" using assms(2) by (intro chip_bytes_of_blocks) (auto simp: g_def)
    moreover have "eep_buffer (chip_bytes f 256) 1 = eep_buffer (chip_bytes g 256) 1"
      using assms(2,4,6) that by (intro chip_bytes_second_copy) (auto simp: g_def intro!: length_block)
    ultimately show ?thesis using two_copies [OF assms(2,2)] by simp
  qed
qed

lemma block_chip_bytes:
  assumes "\<And>j. length (f j) = 8" "j < n"
  shows "block (chip_bytes f n) j = f j"
  using drop_chip_bytes [of f j n] assms by (simp add: block_def upt_conv_Cons)

subsection \<open>A concrete save\<close>

definition sum_env :: save_env where
  "sum_env = \<lparr>func_800699BC = (\<lambda>b. of_nat (sum_list (map unat (take 0x3FA b)))),
     func_80065528 = (\<lambda>dst src n. take n src @ drop n dst)\<rparr>"

lemma sum_env_ok: "save_env_ok sum_env"
  by (auto simp: save_env_ok_def sum_env_def)

definition sample_data :: "u8 list" where
  "sample_data = replicate 0x3FA 7"

definition sample_image :: "u8 list" where
  "sample_image = save_image sum_env sample_data @ save_image sum_env sample_data"

definition saved_eepmgr :: "sim_eeprom EepMgr" where
  "saved_eepmgr = \<lparr>em_dev = (block sample_image, 0), em_type = 2, em_numBlocks = 256,
     em_cache = sample_image, em_cached = True, em_reqType = 0, em_requests = 0, em_replies = [],
     sEepBuff = sample_image\<rparr>"

lemma sample_lengths: "length sample_data = 0x3FA" "length sample_image = 0x800"
  by (simp_all add: sample_data_def sample_image_def length_save_image)

lemma saved_blocks: "j < 256 \<Longrightarrow> sim_blocks (block sample_image, d) j = block sample_image j"
  using length_block [of j sample_image] sample_lengths(2) by (simp add: sim_blocks_def)

lemma saved_eepmgr_ready:
  "eep_ready sim_blocks 256 saved_eepmgr" "client_idle saved_eepmgr" "em_cached saved_eepmgr"
  "length (sEepBuff saved_eepmgr) = 0x800"
  using sample_lengths(2)
  by (simp_all add: eep_ready_def saved_eepmgr_def sMaxBlocks_def client_idle_def cache_coherent_def
      saved_blocks numeral_2_eq_2)

lemma write_blocks_same:
  "(\<And>j. j < n \<Longrightarrow> block buffer j = block cache j) \<Longrightarrow> write_blocks wr buffer i n cache s = Some (0, cache, s)"
proof (induction "n - i" arbitrary: i)
  case (Suc k)
  then show ?case by (subst write_blocks.simps) simp
qed (subst write_blocks.simps, simp)

lemma saved_eepmgr_save: "func_80069A80 sum_env hw sd sample_data saved_eepmgr = Some (0, saved_eepmgr)"
proof -
  have "func_80069A80 sum_env hw sd sample_data saved_eepmgr =
    do { m2 \<leftarrow> eepmgr_SendWrite saved_eepmgr;
         (msg, m3) \<leftarrow> func_8007D508 hw sd m2;
         Some (if msg \<noteq> 0 then 1 else 0, m3) }"
    using func_80069A80_eq [OF sum_env_ok sample_lengths(1) saved_eepmgr_ready(4)]
    by (simp add: saved_eepmgr_def flip: sample_image_def)
  then show ?thesis
    by (simp add: eepmgr_SendWrite_def eepmgr_Send_def func_8007D508_def eepmgr_turn_def saved_eepmgr_def
        EEP_WRITE_MSG_def EEP_READ_MSG_def eepmgr_HandleWrite_def write_blocks_same Let_def)
qed

lemma saved_chip: "chip_bytes (sim_blocks (em_dev saved_eepmgr)) 256 = sample_image"
  using sample_lengths(2) saved_blocks by (intro chip_bytes_of_blocks) (auto simp: saved_eepmgr_def)

lemma saved_first_copy: "eep_buffer sample_image 0 = save_image sum_env sample_data"
  using two_copies [OF length_save_image [OF sample_lengths(1)] length_save_image [OF sample_lengths(1)]]
  by (simp add: sample_image_def)

text \<open>A manager that has just been set up: its cache is not valid.\<close>

definition fresh_eepmgr :: "(nat \<Rightarrow> u8 list) \<Rightarrow> sim_eeprom EepMgr" where
  "fresh_eepmgr f = eepmgr_Setup (saved_eepmgr\<lparr>em_dev := (f, 0)\<rparr>) 2 (replicate 0x800 0)"

lemma fresh_eepmgr_ready:
  "eep_ready sim_blocks 256 (fresh_eepmgr f)" "client_idle (fresh_eepmgr f)" "\<not> em_cached (fresh_eepmgr f)"
  "length (sEepBuff (fresh_eepmgr f)) = 0x800" "em_dev (fresh_eepmgr f) = (f, 0)"
  using sample_lengths(2)
  by (simp_all add: fresh_eepmgr_def eepmgr_Setup_def saved_eepmgr_def eep_ready_def client_idle_def sMaxBlocks_def numeral_2_eq_2)

subsection \<open>Properties\<close>

text \<open>Claim C5: a save returns, and reports success on a chip whose transfers do not fail.  What a save that
  reports success has written, a later load reads: from the cache, or from a chip whose transfers do
  not fail by a manager that starts anew, and also when the first copy has been damaged meanwhile, as
  long as its checksum or its mark shows that.  A load that does not succeed reports 1 and leaves
  the destination as it is.\<close>

theorem save_load_roundtrip:
  assumes "save_env_ok env" "hw_documented hw contents busy good type 256" "eep_type_size type 256"
    "eep_ready contents 256 m" "client_idle m" "em_cached m" "length (sEepBuff m) = 0x800" "length xs = 0x3FA"
  shows "\<exists>r1 m1. func_80069A80 env hw sd xs m = Some (r1, m1) \<and> (good (em_dev m) \<longrightarrow> r1 = 0) \<and>
    (\<forall>m2 dst. r1 = 0 \<and> eep_ready contents 256 m2 \<and> client_idle m2 \<and> length (sEepBuff m2) = 0x800 \<and> length dst = 0x3FA \<and>
       (\<forall>j. 128 \<le> j \<and> j < 256 \<longrightarrow> contents (em_dev m2) j = contents (em_dev m1) j) \<and>
       (let b = eep_buffer (chip_bytes (contents (em_dev m2)) 256) 0 in valid_copy env b \<longrightarrow> eb_data b = xs) \<longrightarrow>
       (\<exists>r out m3. func_80069B34 env hw sd dst m2 = Some (r, out, m3) \<and>
          (em_cached m2 \<or> good (em_dev m2) \<longrightarrow> r = 0) \<and> (if r = 0 then out = xs else r = 1 \<and> out = dst)))"
proof -
  let ?img = "save_image env xs"
  have len: "length (contents d j) = 8" for d j using hw_blocks [OF assms(2)] .
  obtain r1 m1 k where s: "func_80069A80 env hw sd xs m = Some (r1, m1)" "good (em_dev m) \<longrightarrow> r1 = 0" "r1 = 0 \<longrightarrow> k = 256"
    "contents (em_dev m1) = (\<lambda>j. if j < k then block (?img @ ?img) j else contents (em_dev m) j)"
    using save_blocks [OF assms, of sd] by blast
  moreover have "\<exists>r out m3. func_80069B34 env hw sd dst m2 = Some (r, out, m3) \<and>
      (em_cached m2 \<or> good (em_dev m2) \<longrightarrow> r = 0) \<and> (if r = 0 then out = xs else r = 1 \<and> out = dst)"
    if "r1 = 0" and m2: "eep_ready contents 256 m2" "client_idle m2" "length (sEepBuff m2) = 0x800" "length dst = 0x3FA"
      and c2: "\<And>j. 128 \<le> j \<Longrightarrow> j < 256 \<Longrightarrow> contents (em_dev m2) j = contents (em_dev m1) j"
      and v: "let b = eep_buffer (chip_bytes (contents (em_dev m2)) 256) 0 in valid_copy env b \<longrightarrow> eb_data b = xs" for m2 dst
  proof -
    have "contents (em_dev m1) j = block (?img @ ?img) j" if "j < 256" for j using s(3,4) \<open>r1 = 0\<close> that by simp
    then have "eep_buffer (chip_bytes (contents (em_dev m1)) 256) 1 = ?img"
      using copies_of_mixed_chip(2) [of ?img ?img 256 "contents (em_dev m1)"] length_save_image [OF assms(8)] len by auto
    then have "eep_buffer (chip_bytes (contents (em_dev m2)) 256) 1 = ?img"
      using chip_bytes_second_copy [of "contents (em_dev m2)" "contents (em_dev m1)", OF len len c2] by simp
    then have "first_valid env (chip_bytes (contents (em_dev m2)) 256) = Some xs"
      using save_image_valid [OF assms(1,8)] v by (simp add: first_valid_def Let_def)
    with load_first_valid [OF assms(1-3) m2, of sd] show ?thesis by (auto intro: exI [of _ 1])
  qed
  ultimately show ?thesis by blast
qed

theorem save_load_roundtrip_witness:
  "\<exists>m1. func_80069A80 sum_env sim_hw \<lparr>cs_type = 0, cs_status = 0, cs_errno = 0\<rparr> sample_data saved_eepmgr = Some (0, m1) \<and>
     (\<exists>m3. func_80069B34 sum_env sim_hw \<lparr>cs_type = 0, cs_status = 0, cs_errno = 0\<rparr> (replicate 0x3FA 0)
        (fresh_eepmgr (sim_blocks (em_dev m1))) = Some (0, sample_data, m3))"
proof -
  let ?sd = "\<lparr>cs_type = 0, cs_status = 0, cs_errno = 0\<rparr>"
  let ?f = "fresh_eepmgr (sim_blocks (em_dev saved_eepmgr))"
  have save: "func_80069A80 sum_env sim_hw ?sd sample_data saved_eepmgr = Some (0, saved_eepmgr)" by (rule saved_eepmgr_save)
  have same: "sim_blocks (em_dev ?f) = sim_blocks (em_dev saved_eepmgr)"
    by (simp add: fresh_eepmgr_ready(5)) (simp add: sim_blocks_def fun_eq_iff)
  have v: "let b = eep_buffer (chip_bytes (sim_blocks (em_dev ?f)) 256) 0 in valid_copy sum_env b \<longrightarrow> eb_data b = sample_data"
    using save_image_valid(2) [OF sum_env_ok sample_lengths(1)] by (simp add: same saved_chip saved_first_copy)
  have "\<exists>r out m3. func_80069B34 sum_env sim_hw ?sd (replicate 0x3FA 0) ?f = Some (r, out, m3) \<and>
      (em_cached ?f \<or> True \<longrightarrow> r = 0) \<and> (if r = 0 then out = sample_data else r = 1 \<and> out = replicate 0x3FA 0)"
    using save_load_roundtrip [OF sum_env_ok sim_hw_documented eep_type_size_16K saved_eepmgr_ready
        sample_lengths(1), of ?sd] save same v fresh_eepmgr_ready(1,2,4)
    by (metis (lifting) Pair_inject length_replicate option.inject)
  then show ?thesis using save by auto
qed

text \<open>Claim C6: a save that breaks off at any block, by a write error or because the power goes, does
  not lose the game: if the chip held two good copies of the old data, a load from a chip whose
  transfers do not fail (or from a valid cache) succeeds and gives the new data or the old data, unless a
  half-written copy happens to pass its checksum; a load that fails leaves the destination as it is.\<close>

theorem save_is_atomic:
  assumes "save_env_ok env" "hw_documented hw contents busy good type 256" "eep_type_size type 256"
    "eep_ready contents 256 m" "client_idle m" "em_cached m" "length (sEepBuff m) = 0x800" "length xs = 0x3FA"
    "length ys = 0x3FA" "chip_bytes (contents (em_dev m)) 256 = save_image env ys @ save_image env ys"
    "func_80069A80 env hw sd xs m = Some (r, m1)"
    "k' \<le> 256" "contents (em_dev m2) =
       (\<lambda>j. if j < k' then contents (em_dev m1) j else contents (em_dev m) j)"
    "eep_ready contents 256 m2" "client_idle m2" "length (sEepBuff m2) = 0x800" "length dst = 0x3FA"
    "\<And>b. b = eep_buffer (chip_bytes (contents (em_dev m2)) 256) 0 \<Longrightarrow> valid_copy env b \<Longrightarrow>
       b \<in> {save_image env xs, save_image env ys}"
  shows "\<exists>q out m3. func_80069B34 env hw sd dst m2 = Some (q, out, m3) \<and>
    (em_cached m2 \<or> good (em_dev m2) \<longrightarrow> q = 0) \<and> (if q = 0 then out \<in> {xs, ys} else q = 1 \<and> out = dst)"
proof -
  let ?new = "save_image env xs" and ?old = "save_image env ys"
  have len: "length (contents d j) = 8" for d j using hw_blocks [OF assms(2)] .
  obtain k where k: "k \<le> 256"
    "contents (em_dev m1) = (\<lambda>j. if j < k then block (?new @ ?new) j else contents (em_dev m) j)"
    using save_blocks [OF assms(1-8), of sd] assms(11) by auto
  have old: "contents (em_dev m) j = block (?old @ ?old) j" if "j < 256" for j
    using block_chip_bytes [of "contents (em_dev m)" j 256] len that assms(10) by simp
  have mix: "contents (em_dev m2) j = block (?new @ ?new) j" if "j < min k k'" for j
    using assms(13) k(2) that by simp
  have mix': "contents (em_dev m2) j = block (?old @ ?old) j" if "min k k' \<le> j" "j < 256" for j
    using assms(13) k(2) that old by (auto simp: min_def split: if_splits)
  have "min k k' \<le> 256" using k(1) by simp
  note copies = copies_of_mixed_chip [OF length_save_image [OF assms(8)] length_save_image [OF assms(9)] this,
    of "contents (em_dev m2)", OF len mix mix']
  have "first_valid env (chip_bytes (contents (em_dev m2)) 256) \<in> {Some xs, Some ys}"
  proof (cases "128 \<le> min k k'")
    case True
    then show ?thesis using copies(1) k(1) save_image_valid [OF assms(1,8)] by (simp add: first_valid_def)
  next
    case False
    then have "eep_buffer (chip_bytes (contents (em_dev m2)) 256) 1 = ?old" by (metis copies(3) nat_le_linear)
    then show ?thesis
      using save_image_valid [OF assms(1,8)] save_image_valid [OF assms(1,9)] assms(18)
      by (auto simp: first_valid_def)
  qed
  with load_first_valid [OF assms(1-3,14-17), of sd] show ?thesis by (auto intro: exI [of _ 1])
qed

definition new_data :: "u8 list" where
  "new_data = replicate 0x3FA 8"

theorem save_is_atomic_witness:
  "\<exists>m1. func_80069A80 sum_env sim_hw \<lparr>cs_type = 0, cs_status = 0, cs_errno = 0\<rparr> new_data saved_eepmgr = Some (0, m1) \<and>
     (\<exists>out m3. func_80069B34 sum_env sim_hw \<lparr>cs_type = 0, cs_status = 0, cs_errno = 0\<rparr> (replicate 0x3FA 0)
        (fresh_eepmgr (\<lambda>j. if j < 1 then sim_blocks (em_dev m1) j else sim_blocks (em_dev saved_eepmgr) j)) = Some (0, out, m3) \<and>
        out \<in> {new_data, sample_data})"
proof -
  let ?sd = "\<lparr>cs_type = 0, cs_status = 0, cs_errno = 0\<rparr>"
  have n: "length new_data = 0x3FA" by (simp add: new_data_def)
  obtain m1 k where s: "func_80069A80 sum_env sim_hw ?sd new_data saved_eepmgr = Some (0, m1)" "k = 256"
    "sim_blocks (em_dev m1) = (\<lambda>j. if j < k then block (save_image sum_env new_data @ save_image sum_env new_data) j
       else sim_blocks (em_dev saved_eepmgr) j)"
    using save_blocks [OF sum_env_ok sim_hw_documented eep_type_size_16K saved_eepmgr_ready n, of ?sd] by auto
  let ?g = "\<lambda>j. if j < 1 then sim_blocks (em_dev m1) j else sim_blocks (em_dev saved_eepmgr) j"
  have g: "sim_blocks (em_dev (fresh_eepmgr ?g)) = ?g"
    by (simp add: fresh_eepmgr_ready(5)) (auto simp: sim_blocks_def fun_eq_iff)
  let ?b = "eep_buffer (chip_bytes ?g 256) 0"
  have b0: "?g 0 = replicate 8 8" using n by (simp add: s block_def save_image_def) (simp add: new_data_def)
  have "chip_bytes ?g 256 = ?g 0 @ concat (map ?g [1..<256])" by (simp add: chip_bytes_def upt_conv_Cons del: upt_rec_numeral)
  also have "concat (map ?g [1..<256]) = concat (map (sim_blocks (em_dev saved_eepmgr)) [1..<256])"
    by (intro arg_cong [of _ _ concat] map_cong refl) (simp del: upt_rec_numeral)
  also have "\<dots> = drop 8 sample_image"
    using drop_chip_bytes [of "sim_blocks (em_dev saved_eepmgr)" 1 256] saved_chip by (simp add: sim_blocks_def del: upt_rec_numeral)
  finally have b: "?b = replicate 8 8 @ replicate 0x3F2 7 @ drop 0x3FA (save_image sum_env sample_data)"
    unfolding b0 eep_buffer_def sample_image_def by (simp add: save_image_def sample_data_def u16_bytes_def u32_bytes_def)
  have "eb_unk3FA ?b = func_800699BC sum_env sample_data"
    using u16_bytes_value [of "func_800699BC sum_env sample_data"]
    unfolding b by (simp add: eb_unk3FA_def save_image_def nth_append u16_bytes_def sample_data_def)
  moreover have "func_800699BC sum_env ?b \<noteq> func_800699BC sum_env sample_data"
    unfolding b by (simp add: sum_env_def sample_data_def sum_list_replicate)
  ultimately have bad: "\<not> valid_copy sum_env ?b" by (simp add: valid_copy_def)
  have "\<exists>q out m3. func_80069B34 sum_env sim_hw ?sd (replicate 0x3FA 0) (fresh_eepmgr ?g) = Some (q, out, m3) \<and>
      (em_cached (fresh_eepmgr ?g) \<or> True \<longrightarrow> q = 0) \<and>
      (if q = 0 then out \<in> {new_data, sample_data} else q = 1 \<and> out = replicate 0x3FA 0)"
    using save_is_atomic [OF sum_env_ok sim_hw_documented eep_type_size_16K saved_eepmgr_ready n sample_lengths(1)
        saved_chip [unfolded sample_image_def] s(1), of 1 "fresh_eepmgr ?g" "replicate 0x3FA 0"]
      fresh_eepmgr_ready bad g by auto
  then show ?thesis using s(1) by auto
qed

end
