(* ===== verification/Xprintf.thy ===== *)
theory Xprintf
  imports Prelude "HOL-Library.Monad_Syntax"
begin

section \<open>Formatted output\<close>

text \<open>
  \<^verbatim>\<open>lib/ultralib/src/libc\<close>: the formatter \<^verbatim>\<open>_Printf\<close> of \<^verbatim>\<open>xprintf.c\<close> with its conversions
  (\<^verbatim>\<open>_Putfld\<close>) and the conversion of integers (\<^verbatim>\<open>_Litob\<close> of \<^verbatim>\<open>xlitob.c\<close>, \<^verbatim>\<open>lldiv\<close> of \<^verbatim>\<open>ldiv.c\<close>),
  the string functions of \<^verbatim>\<open>string.c\<close> and \<^verbatim>\<open>sprintf\<close>.

  A C string is the list of the bytes from its first one to the end of the object that
  holds it, the terminating zero included; reading behind the object is \<^const>\<open>None\<close>.  The
  output goes through a callback that may fail, as in the code.  The conversion of
  floating point numbers, \<^verbatim>\<open>_Ldtob\<close>, is the argument \<open>ldtob\<close>.
\<close>

abbreviation NUL :: char where
  "NUL \<equiv> CHR 0x00"

subsection \<open>Strings and division\<close>

fun strchr :: "string \<Rightarrow> char \<Rightarrow> nat option" where
  "strchr [] ch = None"
| "strchr (c # s) ch =
     (if c = ch then Some 0 else if c = NUL then None else map_option Suc (strchr s ch))"

fun strlen :: "string \<Rightarrow> nat option" where
  "strlen [] = None"
| "strlen (c # s) = (if c = NUL then Some 0 else map_option Suc (strlen s))"

primrec memcpy :: "mem \<Rightarrow> ptr \<Rightarrow> string \<Rightarrow> mem" where
  "memcpy m s1 [] = m"
| "memcpy m s1 (c # s2) = memcpy (m(s1 := of_char c)) (s1 + 1) s2"

definition lldiv :: "s64 \<Rightarrow> s64 \<Rightarrow> s64 \<times> s64" where
  "lldiv num denom =
     (let quot = word_of_int (sint num sdiv sint denom);
          rem = num - denom * quot
      in if quot <s 0 \<and> 0 <s rem then (quot + 1, rem - denom) else (quot, rem))"

subsection \<open>The conversion state\<close>

text \<open>The fields of \<^verbatim>\<open>_Pft\<close>.  \<open>pf_ac\<close> is the prefix \<^verbatim>\<open>ac[0..n0)\<close> (so \<^verbatim>\<open>n0\<close> is its length) and
  \<open>pf_s\<close> the bytes at \<^verbatim>\<open>s\<close>; the C integers are \<^typ>\<open>int\<close>.\<close>

record Pft =
  pf_v :: s64
  pf_s :: string
  pf_ac :: string
  pf_nz0 :: int
  pf_n1 :: int
  pf_nz1 :: int
  pf_n2 :: int
  pf_nz2 :: int
  pf_prec :: int
  pf_width :: int
  pf_flags :: u32
  pf_qual :: char

abbreviation pf_n0 :: "Pft \<Rightarrow> int" where
  "pf_n0 px \<equiv> int (length (pf_ac px))"

definition FLAGS_SPACE :: u32 where "FLAGS_SPACE = 1"
definition FLAGS_PLUS :: u32 where "FLAGS_PLUS = 2"
definition FLAGS_MINUS :: u32 where "FLAGS_MINUS = 4"
definition FLAGS_HASH :: u32 where "FLAGS_HASH = 8"
definition FLAGS_ZERO :: u32 where "FLAGS_ZERO = 16"

lemmas FLAGS_defs = FLAGS_SPACE_def FLAGS_PLUS_def FLAGS_MINUS_def FLAGS_HASH_def FLAGS_ZERO_def

text \<open>The arguments of a variadic call: words (integers and pointers), long longs, doubles
  (their bits) and pointers to strings.\<close>

datatype va_arg = Va_word s32 | Va_ll s64 | Va_double u64 | Va_str string

fun va_int :: "va_arg list \<Rightarrow> (s32 \<times> va_arg list) option" where
  "va_int (Va_word w # ap) = Some (w, ap)"
| "va_int _ = None"

fun va_longlong :: "va_arg list \<Rightarrow> (s64 \<times> va_arg list) option" where
  "va_longlong (Va_ll w # ap) = Some (w, ap)"
| "va_longlong _ = None"

fun va_double :: "va_arg list \<Rightarrow> (u64 \<times> va_arg list) option" where
  "va_double (Va_double w # ap) = Some (w, ap)"
| "va_double _ = None"

fun va_string :: "va_arg list \<Rightarrow> (string \<times> va_arg list) option" where
  "va_string (Va_str s # ap) = Some (s, ap)"
| "va_string _ = None"

subsection \<open>Integers\<close>

definition ldigs :: string where
  "ldigs = ''0123456789abcdef''"

definition udigs :: string where
  "udigs = ''0123456789ABCDEF''"

definition BUFF_LEN :: nat where
  "BUFF_LEN = 0x18"

text \<open>The loop that fills the buffer from its end; \<open>buff\<close> is what is filled already.\<close>

primrec litob_loop :: "string \<Rightarrow> s64 \<Rightarrow> nat \<Rightarrow> s64 \<Rightarrow> string \<Rightarrow> nat \<times> s64 \<times> string" where
  "litob_loop digs base 0 ll buff = (0, ll, buff)"
| "litob_loop digs base (Suc i) ll buff =
     (if 0 <s ll
      then (let (quot, rem) = lldiv ll base in litob_loop digs base i quot (digs ! unat rem # buff))
      else (Suc i, ll, buff))"

definition litob_base :: "char \<Rightarrow> s64" where
  "litob_base code =
     (if code = CHR ''o'' then 8
      else if code \<noteq> CHR ''x'' \<and> code \<noteq> CHR ''X'' then 10 else 16)"

definition litob_digs :: "char \<Rightarrow> string" where
  "litob_digs code = (if code = CHR ''X'' then udigs else ldigs)"

text \<open>The number of zeros in front: up to the precision, or up to the width with the flag \<^verbatim>\<open>0\<close>.\<close>

definition litob_fill :: "Pft \<Rightarrow> int \<Rightarrow> int" where
  "litob_fill px n1 =
     (let nz0 = (if n1 < pf_prec px then pf_prec px - n1 else pf_nz0 px);
          i = pf_width px - pf_n0 px - nz0 - n1
      in if pf_prec px < 0 \<and> pf_flags px AND (FLAGS_ZERO OR FLAGS_MINUS) = FLAGS_ZERO \<and> 0 < i
         then nz0 + i else nz0)"

definition litob_value :: "Pft \<Rightarrow> char \<Rightarrow> u64" where
  "litob_value px code =
     (if (code = CHR ''d'' \<or> code = CHR ''i'') \<and> pf_v px <s 0 then - pf_v px else pf_v px)"

definition Litob :: "Pft \<Rightarrow> char \<Rightarrow> Pft" where
  "Litob px code =
     (let digs = litob_digs code;
          base = litob_base code;
          ullval = litob_value px code;
          buff = (if ullval \<noteq> 0 \<or> pf_prec px \<noteq> 0 then [digs ! unat (ullval mod base)] else []);
          (i, ll, buff) = litob_loop digs base (BUFF_LEN - length buff) (ullval div base) buff;
          n1 = int (BUFF_LEN - i)
      in px\<lparr>pf_v := ll, pf_s := buff, pf_n1 := n1, pf_nz0 := litob_fill px n1\<rparr>)"

subsection \<open>One conversion\<close>

definition sign_prefix :: "bool \<Rightarrow> u32 \<Rightarrow> string" where
  "sign_prefix neg flags =
     (if neg then ''-'' else if flags AND FLAGS_PLUS \<noteq> 0 then ''+''
      else if flags AND FLAGS_SPACE \<noteq> 0 then '' '' else [])"

text \<open>The argument of an integer conversion, widened as the qualifier says.\<close>

definition fetch_integer :: "char \<Rightarrow> va_arg list \<Rightarrow> (s64 \<times> va_arg list) option" where
  "fetch_integer qual ap =
     (if qual = CHR ''L'' then va_longlong ap
      else do { (w, ap) \<leftarrow> va_int ap; Some (scast w, ap) })"

text \<open>A store of \<^verbatim>\<open>%n\<close>: the address, the number of bytes and the value.\<close>

type_synonym n_store = "ptr \<times> nat \<times> u64"

type_synonym fld = "(Pft \<times> va_arg list \<times> n_store list) option"

definition put_signed :: "Pft \<Rightarrow> va_arg list \<Rightarrow> char \<Rightarrow> fld" where
  "put_signed px ap code =
     do { (v, ap) \<leftarrow> fetch_integer (pf_qual px) ap;
          let v = (if pf_qual px = CHR ''h'' then scast (ucast v :: 16 word) else v);
          Some (Litob (px\<lparr>pf_v := v, pf_ac := sign_prefix (v <s 0) (pf_flags px)\<rparr>) code, ap, []) }"

definition put_unsigned :: "Pft \<Rightarrow> va_arg list \<Rightarrow> char \<Rightarrow> fld" where
  "put_unsigned px ap code =
     do { (v, ap) \<leftarrow> fetch_integer (pf_qual px) ap;
          let v = (if pf_qual px = CHR ''h'' then ucast (ucast v :: 16 word)
                   else if pf_qual px = NUL then ucast (ucast v :: 32 word) else v);
          let ac = (if pf_flags px AND FLAGS_HASH \<noteq> 0
                    then (if code = CHR ''x'' \<or> code = CHR ''X'' then [CHR ''0'', code] else ''0'')
                    else []);
          Some (Litob (px\<lparr>pf_v := v, pf_ac := ac\<rparr>) code, ap, []) }"

definition put_count :: "u32 \<Rightarrow> Pft \<Rightarrow> va_arg list \<Rightarrow> fld" where
  "put_count nchar px ap =
     do { (p, ap) \<leftarrow> va_int ap;
          Some (px, ap, [(p, if pf_qual px = CHR ''h'' then (2, ucast (ucast nchar :: 16 word))
                             else if pf_qual px = CHR ''L'' then (8, ucast nchar)
                             else (4, ucast nchar))]) }"

definition put_string :: "Pft \<Rightarrow> va_arg list \<Rightarrow> fld" where
  "put_string px ap =
     do { (s, ap) \<leftarrow> va_string ap;
          n \<leftarrow> strlen s;
          Some (px\<lparr>pf_s := s, pf_n1 := (if 0 \<le> pf_prec px \<and> pf_prec px < int n
                                    then pf_prec px else int n)\<rparr>, ap, []) }"

definition Putfld ::
  "(Pft \<Rightarrow> char \<Rightarrow> Pft) \<Rightarrow> u32 \<Rightarrow> Pft \<Rightarrow> va_arg list \<Rightarrow> char \<Rightarrow> fld" where
  "Putfld ldtob nchar px0 ap code =
     (let px = px0\<lparr>pf_ac := [], pf_nz0 := 0, pf_n1 := 0, pf_nz1 := 0, pf_n2 := 0, pf_nz2 := 0\<rparr>
      in if code = CHR ''c'' then
           do { (w, ap) \<leftarrow> va_int ap; Some (px\<lparr>pf_ac := [char_of (unat w)]\<rparr>, ap, []) }
         else if code = CHR ''d'' \<or> code = CHR ''i'' then put_signed px ap code
         else if code = CHR ''x'' \<or> code = CHR ''X'' \<or> code = CHR ''u'' \<or> code = CHR ''o'' then
           put_unsigned px ap code
         else if code \<in> {CHR ''e'', CHR ''f'', CHR ''g'', CHR ''E'', CHR ''G''} then
           do { (d, ap) \<leftarrow> va_double ap;
                Some (ldtob (px\<lparr>pf_v := d, pf_ac := sign_prefix (bit d 63) (pf_flags px)\<rparr>) code, ap, []) }
         else if code = CHR ''n'' then put_count nchar px ap
         else if code = CHR ''p'' then
           do { (p, ap) \<leftarrow> va_int ap; Some (Litob (px\<lparr>pf_v := scast p\<rparr>) (CHR ''x''), ap, []) }
         else if code = CHR ''s'' then put_string px ap
         else Some (px\<lparr>pf_ac := [code]\<rparr>, ap, []))"

subsection \<open>The conversion specification\<close>

definition fchar :: string where
  "fchar = [CHR '' '', CHR ''+'', CHR ''-'', CHR ''#'', CHR ''0'', NUL]"

definition fbit :: "u32 list" where
  "fbit = [FLAGS_SPACE, FLAGS_PLUS, FLAGS_MINUS, FLAGS_HASH, FLAGS_ZERO, 0]"

definition isdigit :: "char \<Rightarrow> bool" where
  "isdigit c \<longleftrightarrow> (of_char c :: nat) \<in> {48..57}"

text \<open>The text before the next \<^verbatim>\<open>%\<close> or the end, and what starts there.\<close>

fun scan_text :: "string \<Rightarrow> (string \<times> string) option" where
  "scan_text [] = None"
| "scan_text (c # s) =
     (if c \<noteq> NUL \<and> c \<noteq> CHR ''%'' then map_option (\<lambda>(t, r). (c # t, r)) (scan_text s)
      else Some ([], c # s))"

fun scan_flags :: "string \<Rightarrow> u32 \<Rightarrow> (u32 \<times> string) option" where
  "scan_flags [] flags = None"
| "scan_flags (c # s) flags =
     (case strchr fchar c of
        None \<Rightarrow> Some (flags, c # s)
      | Some i \<Rightarrow> scan_flags s (flags OR fbit ! i))"

fun atoi :: "string \<Rightarrow> int \<Rightarrow> (int \<times> string) option" where
  "atoi [] dst = None"
| "atoi (c # s) dst =
     (if isdigit c then atoi s (if dst < 999 then dst * 10 + of_char c - 48 else dst)
      else Some (dst, c # s))"

definition s32_wrap :: "int \<Rightarrow> int" where
  "s32_wrap x = sint (word_of_int x :: s32)"

definition scan_width ::
  "u32 \<Rightarrow> string \<Rightarrow> va_arg list \<Rightarrow> (u32 \<times> int \<times> string \<times> va_arg list) option" where
  "scan_width flags s ap =
     (case s of
        [] \<Rightarrow> None
      | c # s' \<Rightarrow>
          if c = CHR ''*'' then
            do { (w, ap) \<leftarrow> va_int ap;
                 if sint w < 0 then Some (flags OR FLAGS_MINUS, s32_wrap (- sint w), s', ap)
                 else Some (flags, sint w, s', ap) }
          else do { (w, s) \<leftarrow> atoi s 0; Some (flags, w, s, ap) })"

definition scan_prec :: "string \<Rightarrow> va_arg list \<Rightarrow> (int \<times> string \<times> va_arg list) option" where
  "scan_prec s ap =
     (case s of
        [] \<Rightarrow> None
      | c # s' \<Rightarrow>
          if c \<noteq> CHR ''.'' then Some (- 1, s, ap)
          else (case s' of
                  [] \<Rightarrow> None
                | c' # s'' \<Rightarrow>
                    if c' = CHR ''*'' then do { (w, ap) \<leftarrow> va_int ap; Some (sint w, s'', ap) }
                    else do { (p, s) \<leftarrow> atoi s' 0; Some (p, s, ap) }))"

definition scan_qual :: "string \<Rightarrow> (char \<times> string) option" where
  "scan_qual s =
     (case s of
        [] \<Rightarrow> None
      | c # s' \<Rightarrow>
          if strchr (''hlL'' @ [NUL]) c = None then Some (NUL, s)
          else if c = CHR ''l'' then
            (case s' of
               [] \<Rightarrow> None
             | c' # s'' \<Rightarrow> if c' = CHR ''l'' then Some (CHR ''L'', s'') else Some (c, s'))
          else Some (c, s'))"

text \<open>From behind the \<^verbatim>\<open>%\<close> to behind the conversion; the width is what remains to be padded.\<close>

fun next_char :: "string \<Rightarrow> (char \<times> string) option" where
  "next_char [] = None"
| "next_char (c # s) = Some (c, s)"

definition scan_spec ::
  "string \<Rightarrow> va_arg list \<Rightarrow> (Pft \<times> char \<times> string \<times> va_arg list) option" where
  "scan_spec s ap =
     do { (flags, s) \<leftarrow> scan_flags s 0;
          (flags, width, s, ap) \<leftarrow> scan_width flags s ap;
          (prec, s, ap) \<leftarrow> scan_prec s ap;
          (qual, s) \<leftarrow> scan_qual s;
          (code, s) \<leftarrow> next_char s;
          Some (\<lparr>pf_v = 0, pf_s = [], pf_ac = [], pf_nz0 = 0, pf_n1 = 0, pf_nz1 = 0, pf_n2 = 0,
                 pf_nz2 = 0, pf_prec = prec, pf_width = width, pf_flags = flags, pf_qual = qual\<rparr>,
                code, s, ap) }"

definition field_length :: "Pft \<Rightarrow> int" where
  "field_length px = pf_n0 px + pf_nz0 px + pf_n1 px + pf_nz1 px + pf_n2 px + pf_nz2 px"

definition conversion ::
  "(Pft \<Rightarrow> char \<Rightarrow> Pft) \<Rightarrow> u32 \<Rightarrow> string \<Rightarrow> va_arg list \<Rightarrow>
     (Pft \<times> string \<times> va_arg list \<times> n_store list) option" where
  "conversion ldtob nchar s ap =
     do { (px, code, s, ap) \<leftarrow> scan_spec s ap;
          (px, ap, st) \<leftarrow> Putfld ldtob nchar px ap code;
          Some (px\<lparr>pf_width := s32_wrap (pf_width px - field_length px)\<rparr>, s, ap, st) }"

subsection \<open>Output\<close>

text \<open>The callback gets its argument, whose type includes whatever it changes, and returns it
  with the truth of \<^verbatim>\<open>!= NULL\<close>.  While the first component of an output state is true, \<^verbatim>\<open>_Printf\<close>
  goes on; after a failure it returns the number of bytes put so far.\<close>

type_synonym 'a sink_fun = "'a \<Rightarrow> string \<Rightarrow> bool \<times> 'a"
type_synonym 'a out = "bool \<times> 'a \<times> u32"

definition put :: "'a sink_fun \<Rightarrow> string \<Rightarrow> 'a out \<Rightarrow> 'a out" where
  "put pfn s r =
     (case r of
        (ok, arg, nchar) \<Rightarrow>
          if ok \<and> s \<noteq> []
          then (case pfn arg s of
                  (True, arg') \<Rightarrow> (True, arg', nchar + of_nat (length s))
                | (False, arg') \<Rightarrow> (False, arg', nchar))
          else r)"

definition MAX_PAD :: nat where
  "MAX_PAD = 32"

function pad :: "'a sink_fun \<Rightarrow> char \<Rightarrow> nat \<Rightarrow> 'a out \<Rightarrow> 'a out" where
  "pad pfn c j r =
     (if 0 < j
      then (let i = (if MAX_PAD < j then MAX_PAD else j)
            in pad pfn c (j - i) (put pfn (replicate i c) r))
      else r)"
  by auto
termination
  by (relation "measure (\<lambda>(pfn, c, j, r). j)") (auto simp: MAX_PAD_def)

declare pad.simps [simp del]

definition put_field :: "'a sink_fun \<Rightarrow> Pft \<Rightarrow> 'a out \<Rightarrow> 'a out" where
  "put_field pfn px r =
     (let r = (if pf_flags px AND FLAGS_MINUS = 0 then pad pfn (CHR '' '') (nat (pf_width px)) r else r);
          r = put pfn (pf_ac px) r;
          r = pad pfn (CHR ''0'') (nat (pf_nz0 px)) r;
          r = put pfn (take (nat (pf_n1 px)) (pf_s px)) r;
          r = pad pfn (CHR ''0'') (nat (pf_nz1 px)) r;
          r = put pfn (take (nat (pf_n2 px)) (drop (nat (pf_n1 px)) (pf_s px))) r;
          r = pad pfn (CHR ''0'') (nat (pf_nz2 px)) r
      in if pf_flags px AND FLAGS_MINUS \<noteq> 0 then pad pfn (CHR '' '') (nat (pf_width px)) r else r)"

subsection \<open>The formatter\<close>

lemma scan_text_shorter: "scan_text s = Some (t, r) \<Longrightarrow> length r \<le> length s"
proof (induction s arbitrary: t r)
  case (Cons c s)
  show ?case
  proof (cases "c \<noteq> NUL \<and> c \<noteq> CHR ''%''")
    case True
    with Cons.prems obtain t' where "scan_text s = Some (t', r)" by auto
    with Cons.IH [OF this] show ?thesis by simp
  qed (use Cons.prems in auto)
qed simp

lemma scan_flags_shorter: "scan_flags s f = Some (f', r) \<Longrightarrow> length r \<le> length s"
proof (induction s f rule: scan_flags.induct)
  case (2 c s f)
  then show ?case by (cases "strchr fchar c") (auto simp del: strchr.simps dest: le_SucI)
qed simp

lemma atoi_shorter: "atoi s d = Some (n, r) \<Longrightarrow> length r \<le> length s"
proof (induction s d rule: atoi.induct)
  case (2 c s d)
  then show ?case by (cases "isdigit c") (auto dest: le_SucI)
qed simp

lemma scan_width_shorter: "scan_width f s ap = Some (f', w, r, ap') \<Longrightarrow> length r \<le> length s"
  by (auto simp: scan_width_def bind_eq_Some_conv split: list.splits if_splits dest!: atoi_shorter)

lemma scan_prec_shorter: "scan_prec s ap = Some (p, r, ap') \<Longrightarrow> length r \<le> length s"
  by (auto simp: scan_prec_def bind_eq_Some_conv split: list.splits if_splits dest!: atoi_shorter)

lemma scan_qual_shorter: "scan_qual s = Some (q, r) \<Longrightarrow> length r \<le> length s"
  by (auto simp: scan_qual_def split: list.splits if_splits simp del: strchr.simps)

lemma next_char_shorter: "next_char s = Some (c, r) \<Longrightarrow> length r < length s"
  by (cases s) auto

lemma conversion_shorter:
  "conversion ldtob n s ap = Some (px, r, ap', st) \<Longrightarrow> length r < length s"
  by (auto simp: conversion_def scan_spec_def bind_eq_Some_conv
      dest!: next_char_shorter scan_flags_shorter scan_width_shorter scan_prec_shorter scan_qual_shorter)

text \<open>The loop of \<^verbatim>\<open>_Printf\<close>.  The result is \<^const>\<open>None\<close> when the format or a string is read behind
  its end or an argument is missing.\<close>

function printf_loop ::
  "'a sink_fun \<Rightarrow> (Pft \<Rightarrow> char \<Rightarrow> Pft) \<Rightarrow> string \<Rightarrow> va_arg list \<Rightarrow> 'a \<times> u32 \<Rightarrow>
     ('a out \<times> n_store list) option" where
  "printf_loop pfn ldtob fmt ap st =
     (case scan_text fmt of
        None \<Rightarrow> None
      | Some (t, s) \<Rightarrow>
          (case put pfn t (True, st) of
             (ok, arg, nchar) \<Rightarrow>
               if \<not> ok \<or> hd s = NUL then Some ((ok, arg, nchar), [])
               else
                 (case conversion ldtob nchar (tl s) ap of
                    None \<Rightarrow> None
                  | Some (px, fmt', ap', ns) \<Rightarrow>
                      (case put_field pfn px (True, arg, nchar) of
                         (ok, st') \<Rightarrow>
                           if \<not> ok then Some ((ok, st'), ns)
                           else map_option (\<lambda>(r, ns'). (r, ns @ ns'))
                                  (printf_loop pfn ldtob fmt' ap' st')))))"
  by pat_completeness auto
termination
proof (relation "measure (\<lambda>(pfn, ldtob, fmt, ap, st). length fmt)", goal_cases)
  case (2 pfn ldtob fmt ap st)
  then show ?case by (auto dest!: scan_text_shorter conversion_shorter)
qed simp

declare printf_loop.simps [simp del]

definition Printf ::
  "'a sink_fun \<Rightarrow> (Pft \<Rightarrow> char \<Rightarrow> Pft) \<Rightarrow> 'a \<Rightarrow> string \<Rightarrow> va_arg list \<Rightarrow>
     ('a out \<times> n_store list) option" where
  "Printf pfn ldtob arg fmt ap = printf_loop pfn ldtob fmt ap (arg, 0)"

text \<open>\<^verbatim>\<open>sprintf\<close>: the argument is the memory and the place of the next byte.\<close>

definition proutSprintf :: "(mem \<times> ptr) sink_fun" where
  "proutSprintf = (\<lambda>(m, s) buf.
     (let p = s + of_nat (length buf) in (p \<noteq> NULL, memcpy m s buf, p)))"

definition sprintf ::
  "(Pft \<Rightarrow> char \<Rightarrow> Pft) \<Rightarrow> mem \<Rightarrow> ptr \<Rightarrow> string \<Rightarrow> va_arg list \<Rightarrow> (mem \<times> s32 \<times> n_store list) option" where
  "sprintf ldtob m s fmt ap =
     map_option (\<lambda>((ok, (m', p), ans), ns). (if 0 \<le>s ans then m'(s + ans := 0) else m', ans, ns))
       (Printf proutSprintf ldtob (m, s) fmt ap)"

subsection \<open>What is printed\<close>

text \<open>The text of a field and of a whole call, without a callback.\<close>

definition field_text :: "Pft \<Rightarrow> string" where
  "field_text px =
     (let blanks = replicate (nat (pf_width px)) (CHR '' '');
          body = pf_ac px @ replicate (nat (pf_nz0 px)) (CHR ''0'')
            @ take (nat (pf_n1 px)) (pf_s px) @ replicate (nat (pf_nz1 px)) (CHR ''0'')
            @ take (nat (pf_n2 px)) (drop (nat (pf_n1 px)) (pf_s px))
            @ replicate (nat (pf_nz2 px)) (CHR ''0'')
      in if pf_flags px AND FLAGS_MINUS = 0 then blanks @ body else body @ blanks)"

function render ::
  "(Pft \<Rightarrow> char \<Rightarrow> Pft) \<Rightarrow> string \<Rightarrow> va_arg list \<Rightarrow> u32 \<Rightarrow> (string \<times> n_store list) option" where
  "render ldtob fmt ap nchar =
     (case scan_text fmt of
        None \<Rightarrow> None
      | Some (t, s) \<Rightarrow>
          if hd s = NUL then Some (t, [])
          else
            (case conversion ldtob (nchar + of_nat (length t)) (tl s) ap of
               None \<Rightarrow> None
             | Some (px, fmt', ap', ns) \<Rightarrow>
                 map_option (\<lambda>(out, ns'). (t @ field_text px @ out, ns @ ns'))
                   (render ldtob fmt' ap' (nchar + of_nat (length t) + of_nat (length (field_text px))))))"
  by pat_completeness auto
termination
proof (relation "measure (\<lambda>(ldtob, fmt, ap, st). length fmt)", goal_cases)
  case (2 ldtob fmt ap n p t s q px y fmt' z ap' ns)
  then have "length s \<le> length fmt" by (auto dest: scan_text_shorter)
  moreover from 2 have "length fmt' < length (tl s)" by (auto dest: conversion_shorter)
  ultimately show ?case by simp
qed simp

declare render.simps [simp del]

text \<open>A well behaved callback: while there is \<open>room\<close>, it does not fail, and what it does with two
  pieces is what it does with their concatenation.\<close>

locale print_sink =
  fixes pfn :: "'a \<Rightarrow> string \<Rightarrow> bool \<times> 'a"
    and sink :: "'a \<Rightarrow> string \<Rightarrow> 'a"
    and room :: "'a \<Rightarrow> string \<Rightarrow> bool"
  assumes pfn_sink: "room a s \<Longrightarrow> s \<noteq> [] \<Longrightarrow> pfn a s = (True, sink a s)"
    and sink_Nil [simp]: "sink a [] = a"
    and sink_append: "sink a (s @ t) = sink (sink a s) t"
    and room_append: "room a (s @ t) \<Longrightarrow> room a s \<and> room (sink a s) t"
begin

lemma put_sink: "room a s \<Longrightarrow> put pfn s (True, a, n) = (True, sink a s, n + of_nat (length s))"
  by (auto simp: put_def pfn_sink)

lemma pad_sink:
  "room a (replicate j c) \<Longrightarrow> pad pfn c j (True, a, n) = (True, sink a (replicate j c), n + of_nat j)"
proof (induction j arbitrary: a n rule: less_induct)
  case (less j)
  define i where "i = (if MAX_PAD < j then MAX_PAD else j)"
  show ?case
  proof (cases "j = 0")
    case False
    have i: "0 < i" "i \<le> j" using False by (auto simp: i_def MAX_PAD_def)
    have split: "replicate j c = replicate i c @ replicate (j - i) c"
      using i by (metis le_add_diff_inverse replicate_add)
    with less.prems have r: "room a (replicate i c)" "room (sink a (replicate i c)) (replicate (j - i) c)"
      by (auto dest: room_append)
    have "pad pfn c j (True, a, n) = pad pfn c (j - i) (True, sink a (replicate i c), n + of_nat i)"
      using False by (subst pad.simps) (simp add: put_sink [OF r(1)] Let_def flip: i_def)
    also have "\<dots> = (True, sink (sink a (replicate i c)) (replicate (j - i) c), n + of_nat i + of_nat (j - i))"
      by (intro less.IH r) (use i in auto)
    also have "\<dots> = (True, sink a (replicate j c), n + of_nat j)"
      using i by (simp add: split sink_append of_nat_diff)
    finally show ?thesis .
  qed (simp add: pad.simps)
qed

lemma put_field_sink:
  "room a (field_text px) \<Longrightarrow>
    put_field pfn px (True, a, n) = (True, sink a (field_text px), n + of_nat (length (field_text px)))"
  by (auto simp: put_field_def field_text_def Let_def sink_append put_sink pad_sink
      add.assoc [symmetric] dest!: room_append split: if_splits)

theorem printf_renders:
  assumes "render ldtob fmt ap n = Some (out, ns)" "room a out"
  shows "printf_loop pfn ldtob fmt ap (a, n) = Some ((True, sink a out, n + of_nat (length out)), ns)"
  using assms
proof (induction ldtob fmt ap n arbitrary: a out ns rule: render.induct)
  case (1 ldtob fmt ap n)
  from 1(2) obtain t s where ts: "scan_text fmt = Some (t, s)"
    by (subst (asm) render.simps) (auto split: option.splits)
  show ?case
  proof (cases "hd s = NUL")
    case True
    with 1(2) ts have "out = t" "ns = []" by (subst (asm) render.simps, simp)+
    with 1(3) ts True show ?thesis by (subst printf_loop.simps) (simp add: put_sink)
  next
    case False
    define n' where "n' = n + of_nat (length t)"
    from 1(2) ts False obtain px fmt' ap' ns1 out' ns2 where
      c: "conversion ldtob n' (tl s) ap = Some (px, fmt', ap', ns1)"
      and r: "render ldtob fmt' ap' (n' + of_nat (length (field_text px))) = Some (out', ns2)"
      and out: "out = t @ field_text px @ out'" "ns = ns1 @ ns2"
      by (subst (asm) render.simps) (auto split: option.splits simp: n'_def)
    from 1(3) have rm: "room a t" "room (sink a t) (field_text px)"
      "room (sink (sink a t) (field_text px)) out'"
      by (auto simp: out dest!: room_append)
    from 1(1) [OF ts refl False, folded n'_def, OF c refl refl refl r rm(3)]
    show ?thesis using ts False c
      by (subst printf_loop.simps)
        (simp add: put_sink [OF rm(1)] put_field_sink [OF rm(2)] out sink_append add.assoc flip: n'_def)
  qed
qed

end

subsection \<open>Printing to memory\<close>

lemma memcpy_block:
  assumes "length cs < 2 ^ 32"
  shows "memcpy m s cs = (\<lambda>x. if in_block s (length cs) x then of_char (cs ! unat (x - s)) else m x)"
  using assms
proof (induction cs arbitrary: m s)
  case (Cons c cs)
  show ?case
  proof (rule ext)
    fix x
    have len: "length cs + 1 < 2 ^ 32" "1 + length cs < 2 ^ 32" using Cons.prems by auto
    have a: "in_block s (1 + length cs) x \<longleftrightarrow> x = s \<or> in_block (s + 1) (length cs) x"
      using in_block_append(1) [OF len(2), of s x] by (auto simp: in_block_def unat_eq_zero)
    have b: "in_block (s + 1) (length cs) x \<Longrightarrow> x \<noteq> s \<and> unat (x - s) = Suc (unat (x - (s + 1)))"
    proof -
      assume i: "in_block (s + 1) (length cs) x"
      have "x \<noteq> s" using in_block_append(2) [OF len(2), of s x] i by (auto simp: in_block_def)
      then have "x - s \<noteq> 0" by simp
      then have "unat (x - s - 1) = unat (x - s) - 1" by (rule unat_minus_one)
      moreover have "0 < unat (x - s)" using \<open>x - s \<noteq> 0\<close> by (simp add: unat_gt_0)
      moreover have "x - s - 1 = x - (s + 1)" by simp
      ultimately show ?thesis using \<open>x \<noteq> s\<close> by simp
    qed
    have "memcpy m s (c # cs) x = (if in_block (s + 1) (length cs) x
        then of_char (cs ! unat (x - (s + 1))) else (m(s := of_char c)) x)"
      using Cons.IH [of "m(s := of_char c)" "s + 1"] Cons.prems by (simp del: fun_upd_apply)
    then show "memcpy m s (c # cs) x = (if in_block s (length (c # cs)) x
        then of_char ((c # cs) ! unat (x - s)) else m x)"
      using a b by (cases "in_block (s + 1) (length cs) x") (auto simp del: memcpy.simps)
  qed
qed (simp add: in_block_def)

lemma memcpy_append: "memcpy m s (xs @ ys) = memcpy (memcpy m s xs) (s + of_nat (length xs)) ys"
  by (induction xs arbitrary: m s) (simp_all add: add.assoc)

interpretation sprintf_sink: print_sink proutSprintf
  "\<lambda>(m, s) t. (memcpy m s t, s + of_nat (length t))"
  "\<lambda>(m, s) t. unat s + length t < 2 ^ 32"
proof (unfold_locales, goal_cases)
  case (1 a s)
  obtain m p where a: "a = (m, p)" by fastforce
  with 1 have "unat (p + of_nat (length s)) = unat p + length s" by (simp add: unat_ptr_add_of_nat)
  with 1 have "p + of_nat (length s) \<noteq> 0" by (metis add_gr_0 length_greater_0_conv less_not_refl unsigned_0)
  then show ?case by (simp add: proutSprintf_def a)
next
  case (4 a s t)
  obtain m p where a: "a = (m, p)" by fastforce
  with 4 show ?case by (simp add: unat_ptr_add_of_nat add.assoc)
qed (auto simp: memcpy_append)

text \<open>Claim C24: \<^verbatim>\<open>sprintf\<close> writes exactly the formatted text and its terminating zero at the
  destination, touches no other byte, and returns the length of the text.\<close>

theorem sprintf_writes_text:
  assumes "render ldtob fmt ap 0 = Some (out, ns)"
    and "unat s + length out < 2 ^ 32" "length out < 2 ^ 31"
  shows "\<exists>m'. sprintf ldtob m s fmt ap = Some (m', of_nat (length out), ns) \<and>
           (\<forall>x. m' x = (if in_block s (length out) x then of_char (out ! unat (x - s))
                        else if x = s + of_nat (length out) then 0 else m x))"
proof -
  have "Printf proutSprintf ldtob (m, s) fmt ap
      = Some ((True, (memcpy m s out, s + of_nat (length out)), of_nat (length out)), ns)"
    unfolding Printf_def using sprintf_sink.printf_renders [OF assms(1), of "(m, s)"] assms(2) by simp
  moreover have "0 \<le>s (of_nat (length out) :: s32)"
    using assms(3) by (simp add: word_sle_eq sint_small unat_ptr_of_nat)
  moreover have "\<not> in_block s (length out) (s + of_nat (length out))"
    using assms(2) by (simp add: in_block_def unat_ptr_of_nat)
  ultimately show ?thesis using assms(2)
    by (auto simp: sprintf_def memcpy_block)
qed

subsection \<open>Numbers in a base\<close>

fun radix :: "nat \<Rightarrow> nat \<Rightarrow> nat list" where
  "radix b n = (if n < b \<or> b < 2 then [n] else radix b (n div b) @ [n mod b])"

declare radix.simps [simp del]

lemma radix_digits: "2 \<le> b \<Longrightarrow> d \<in> set (radix b n) \<Longrightarrow> d < b"
  by (induction b n rule: radix.induct) (subst (asm) (2) radix.simps, auto split: if_splits)

lemma radix_value: "foldl (\<lambda>a d. a * b + d) 0 (radix b n) = n"
proof (induction b n rule: radix.induct)
  case (1 b n)
  show ?case by (subst radix.simps) (use 1 in auto)
qed

lemma radix_step: "2 \<le> b \<Longrightarrow> radix b n = (if n div b = 0 then [] else radix b (n div b)) @ [n mod b]"
  by (subst radix.simps) (auto simp: div_eq_0_iff)

lemma radix_length: "2 \<le> b \<Longrightarrow> n < b ^ k \<Longrightarrow> 0 < k \<Longrightarrow> length (radix b n) \<le> k"
proof (induction k arbitrary: n)
  case (Suc k)
  show ?case
  proof (cases "n div b = 0")
    case False
    have "n div b < b ^ k" using Suc.prems by (simp add: less_mult_imp_div_less mult.commute)
    moreover from this False have "0 < k" by (cases k) auto
    ultimately show ?thesis using Suc radix_step [of b n] by auto
  qed (use Suc.prems radix_step [of b n] in auto)
qed simp

lemma lldiv_unsigned:
  assumes "unat num < 2 ^ 63" "unat denom < 2 ^ 63"
  shows "lldiv num denom = (num div denom, num mod denom)"
proof -
  have n: "sint num = int (unat num)" "sint denom = int (unat denom)"
    using assms by (simp_all add: sint_small)
  then have "sint num sdiv sint denom = int (unat num div unat denom)"
    by (simp only: sdiv_int)
  moreover have "num div denom = of_nat (unat num div unat denom)"
    by (simp flip: unat_div_distrib)
  ultimately have q: "word_of_int (sint num sdiv sint denom) = num div denom"
    by (simp only: of_int_of_nat_eq)
  have "unat (num div denom) \<le> unat num"
    by (simp add: unat_div_distrib)
  then have "sint (num div denom) = int (unat (num div denom))"
    using assms(1) by (intro sint_small) simp
  then have "\<not> num div denom <s 0" by (simp add: word_sless_alt)
  with q show ?thesis by (simp add: lldiv_def minus_mult_div_eq_mod)
qed

text \<open>The loop of \<^verbatim>\<open>_Litob\<close> prepends the digits of its number.\<close>

lemma litob_loop_radix:
  assumes "2 \<le> unat base" "unat base \<le> 16" "unat ll < 2 ^ 63" "unat ll < unat base ^ i"
  shows "litob_loop digs base i ll buff =
           (i - (if ll = 0 then 0 else length (radix (unat base) (unat ll))), 0,
            (if ll = 0 then [] else map ((!) digs) (radix (unat base) (unat ll))) @ buff)"
  using assms(3,4)
proof (induction i arbitrary: ll buff)
  case 0
  then show ?case by (simp add: unat_eq_zero)
next
  case (Suc i)
  have s: "0 <s ll \<longleftrightarrow> ll \<noteq> 0"
    using Suc.prems(1) by (simp add: word_sless_alt sint_small word_neq_0_conv word_less_alt)
  have d: "lldiv ll base = (ll div base, ll mod base)"
    using assms(2) Suc.prems(1) by (intro lldiv_unsigned) auto
  have u: "unat (ll div base) = unat ll div unat base" "unat (ll mod base) = unat ll mod unat base"
    by (simp_all add: unat_div_distrib unat_mod_distrib)
  have "unat ll div unat base \<le> unat ll" by simp
  then have "unat (ll div base) < 2 ^ 63" using Suc.prems(1) unfolding u by linarith
  moreover have "unat (ll div base) < unat base ^ i"
    using Suc.prems(2) unfolding u by (simp add: less_mult_imp_div_less mult.commute)
  moreover have "ll div base = 0 \<longleftrightarrow> unat ll div unat base = 0"
    by (simp only: u(1) [symmetric] unat_eq_zero)
  ultimately show ?case
    using Suc.IH [of "ll div base" "digs ! (unat ll mod unat base) # buff"] radix_step [OF assms(1), of "unat ll"]
    by (auto simp: s d u)
qed

text \<open>\<^verbatim>\<open>_Litob\<close> as a whole: the buffer always suffices.\<close>

definition litob_text :: "Pft \<Rightarrow> char \<Rightarrow> string" where
  "litob_text px code =
     (if litob_value px code = 0 \<and> pf_prec px = 0 then []
      else map ((!) (litob_digs code)) (radix (unat (litob_base code)) (unat (litob_value px code))))"

lemma litob_base_range: "8 \<le> unat (litob_base code)" "unat (litob_base code) \<le> 16"
  by (simp_all add: litob_base_def)

lemma Litob_text:
  "Litob px code =
     px\<lparr>pf_v := 0, pf_s := litob_text px code, pf_n1 := int (length (litob_text px code)),
        pf_nz0 := litob_fill px (int (length (litob_text px code)))\<rparr>"
proof -
  define b where "b = litob_base code"
  define v where "v = litob_value px code"
  define buff where
    "buff = (if v \<noteq> 0 \<or> pf_prec px \<noteq> 0 then [litob_digs code ! unat (v mod b)] else [])"
  have b: "2 \<le> unat b" "8 \<le> unat b" "unat b \<le> 16"
    using litob_base_range [of code] by (auto simp: b_def)
  have q: "unat (v div b) = unat v div unat b" by (simp add: unat_div_distrib)
  have "unat v < 2 ^ 64" using unsigned_less [of v, where 'a = nat] by simp
  then have "unat v < 2 ^ 61 * unat b" using b(2) by simp
  then have lt: "unat (v div b) < 2 ^ 61"
    unfolding q by (simp add: less_mult_imp_div_less)
  have pow: "(2::nat) ^ 61 < unat b ^ 21"
  proof -
    have "(2::nat) ^ 61 < 8 ^ 21" by simp
    also have "\<dots> \<le> unat b ^ 21" using b(2) by (rule power_mono) simp
    finally show ?thesis .
  qed
  have len: "length buff \<le> 1" by (simp add: buff_def)
  have pow': "unat b ^ 21 \<le> unat b ^ (BUFF_LEN - length buff)"
    using b(1) len by (intro power_increasing) (auto simp: BUFF_LEN_def)
  have l: "litob_loop (litob_digs code) b (BUFF_LEN - length buff) (v div b) buff =
      (BUFF_LEN - length buff - (if v div b = 0 then 0 else length (radix (unat b) (unat (v div b)))), 0,
       (if v div b = 0 then [] else map ((!) (litob_digs code)) (radix (unat b) (unat (v div b)))) @ buff)"
  proof (rule litob_loop_radix)
    show "unat (v div b) < unat b ^ (BUFF_LEN - length buff)" using lt pow pow' by linarith
  qed (use b lt in auto)
  have rl: "length (radix (unat b) (unat (v div b))) \<le> 21"
    using b(1) lt pow by (intro radix_length) auto
  have z: "v div b = 0 \<longleftrightarrow> unat v div unat b = 0" by (simp only: q [symmetric] unat_eq_zero)
  have t: "(if v div b = 0 then [] else map ((!) (litob_digs code)) (radix (unat b) (unat (v div b)))) @ buff
      = litob_text px code"
    using radix_step [OF b(1), of "unat v"]
    by (auto simp: litob_text_def buff_def z q unat_mod_distrib simp flip: b_def v_def)
  have n: "BUFF_LEN - (BUFF_LEN - length buff -
        (if v div b = 0 then 0 else length (radix (unat b) (unat (v div b))))) = length (litob_text px code)"
    using rl len by (auto simp: BUFF_LEN_def simp flip: t)
  show ?thesis
    unfolding Litob_def Let_def b_def [symmetric] v_def [symmetric] buff_def [symmetric] l
    by (simp only: prod.case t n)
qed

subsection \<open>Reading numbers back\<close>

definition digit_value :: "char \<Rightarrow> nat" where
  "digit_value c =
     (if of_char c \<le> (57 :: nat) then of_char c - 48
      else if of_char c \<le> (70 :: nat) then of_char c - 55 else of_char c - 87)"

definition read_number :: "nat \<Rightarrow> string \<Rightarrow> nat" where
  "read_number b s = foldl (\<lambda>a c. a * b + digit_value c) 0 s"

definition read_signed :: "string \<Rightarrow> int" where
  "read_signed s =
     (case s of
        [] \<Rightarrow> 0
      | c # t \<Rightarrow> if c = CHR ''-'' then - int (read_number 10 t)
                 else if c = CHR ''+'' then int (read_number 10 t) else int (read_number 10 s))"

lemma less_16:
  "(d::nat) < 16 \<Longrightarrow> d = 0 \<or> d = 1 \<or> d = 2 \<or> d = 3 \<or> d = 4 \<or> d = 5 \<or> d = 6 \<or> d = 7 \<or> d = 8 \<or>
    d = 9 \<or> d = 10 \<or> d = 11 \<or> d = 12 \<or> d = 13 \<or> d = 14 \<or> d = 15"
  by presburger

lemma litob_digit:
  assumes "d < 16"
  shows "digit_value (litob_digs code ! d) = d" "litob_digs code ! d \<notin> {CHR '' '', CHR ''-'', CHR ''+''}"
  using less_16 [OF assms]
  by (elim disjE; simp add: litob_digs_def ldigs_def udigs_def digit_value_def)+

lemma read_number_zeros: "read_number b (replicate k (CHR ''0'') @ s) = read_number b s"
  by (induction k) (simp_all add: read_number_def digit_value_def)

lemma read_number_litob_text: "read_number (unat (litob_base code)) (litob_text px code) = unat (litob_value px code)"
proof -
  define b where "b = unat (litob_base code)"
  have d: "d < 16" if "d \<in> set (radix b n)" for d n
    using radix_digits [of b d n] litob_base_range [of code] that by (simp flip: b_def)
  have "foldl (\<lambda>a c. a * b + digit_value c) k (map ((!) (litob_digs code)) ds)
      = foldl (\<lambda>a d. a * b + d) k ds" if "\<And>d. d \<in> set ds \<Longrightarrow> d < 16" for ds k
    using that by (induction ds arbitrary: k) (simp_all add: litob_digit)
  from this [of "radix b (unat (litob_value px code))" 0] d radix_value [of b]
  show ?thesis by (auto simp: read_number_def litob_text_def simp flip: b_def)
qed

lemma litob_text_plain: "c \<in> set (litob_text px code) \<Longrightarrow> c \<notin> {CHR '' '', CHR ''-'', CHR ''+''}"
proof -
  assume "c \<in> set (litob_text px code)"
  then obtain d where d: "d \<in> set (radix (unat (litob_base code)) (unat (litob_value px code)))"
    "c = litob_digs code ! d"
    by (auto simp: litob_text_def split: if_splits)
  from litob_base_range(1) [of code] have "2 \<le> unat (litob_base code)" by linarith
  from radix_digits [OF this d(1)] litob_base_range(2) [of code] have "d < 16" by linarith
  with d(2) show ?thesis by (simp only: litob_digit not_False_eq_True)
qed

text \<open>The field of an integer conversion, blanks apart.\<close>

lemma filter_idem: "(\<And>c. c \<in> set s \<Longrightarrow> P c) \<Longrightarrow> filter P s = s"
  by (induction s) auto

lemma integer_field_text:
  assumes "pf_nz1 px = 0" "pf_n2 px = 0" "pf_nz2 px = 0"
  shows "filter (\<lambda>c. c \<noteq> CHR '' '') (field_text ((Litob px code)\<lparr>pf_width := w\<rparr>)) =
           filter (\<lambda>c. c \<noteq> CHR '' '') (pf_ac px) @
           replicate (nat (litob_fill px (int (length (litob_text px code))))) (CHR ''0'') @ litob_text px code"
proof -
  have "filter (\<lambda>c. c \<noteq> CHR '' '') (litob_text px code) = litob_text px code"
    by (rule filter_idem) (use litob_text_plain [of _ px code] in blast)
  then show ?thesis
    using assms by (simp add: Litob_text field_text_def Let_def)
qed

lemma conversion_Putfld:
  assumes "conversion ldtob nchar s ap = Some (px, r, ap', ns)" "scan_spec s ap = Some (px0, code, r0, ap0)"
  obtains px1 where "Putfld ldtob nchar px0 ap0 code = Some (px1, ap', ns)" "r = r0"
    "px = px1\<lparr>pf_width := s32_wrap (pf_width px1 - field_length px1)\<rparr>"
  using assms by (auto simp: conversion_def bind_eq_Some_conv)

lemma scan_spec_clean:
  "scan_spec s ap = Some (px, code, r, ap') \<Longrightarrow>
    pf_nz1 px = 0 \<and> pf_n2 px = 0 \<and> pf_nz2 px = 0 \<and> pf_ac px = []"
  by (auto simp: scan_spec_def bind_eq_Some_conv)

lemma read_signed_sign:
  assumes "\<And>c. c \<in> set t \<Longrightarrow> c \<notin> {CHR '' '', CHR ''-'', CHR ''+''}"
  shows "read_signed (filter (\<lambda>c. c \<noteq> CHR '' '') (sign_prefix neg flags) @ t)
           = (if neg then - int (read_number 10 t) else int (read_number 10 t))"
proof (cases t)
  case Nil
  then show ?thesis by (simp add: sign_prefix_def read_signed_def read_number_def)
next
  case (Cons c t')
  with assms [of c] show ?thesis by (simp add: sign_prefix_def read_signed_def)
qed

lemma ucast_ucast_scast: "(ucast (ucast (scast (w :: 32 word) :: 64 word) :: 32 word) :: 64 word) = ucast w"
proof (rule bit_word_eqI)
  fix n
  show "bit (ucast (ucast (scast w :: 64 word) :: 32 word) :: 64 word) n = bit (ucast w :: 64 word) n"
    if "n < LENGTH(64)"
  proof (cases "n < 32")
    case True
    then have "min 31 n = n" by simp
    then show ?thesis by (auto simp: bit_simps)
  qed (use that bit_imp_le_length [of w n] in \<open>auto simp: bit_simps\<close>)
qed

lemma unat_ucast64: "unat (ucast (w :: 32 word) :: 64 word) = unat w"
  using unsigned_less [of w, where 'a = nat]
  by (simp add: unsigned_ucast_eq take_bit_nat_eq_self)

lemma sint_sign_magnitude: 
  fixes x :: "64 word"
  shows "sint x = (if x <s 0 then - int (unat (- x)) else int (unat x))"
proof -
  have range: "- (2 ^ 63) \<le> sint x" "sint x < 2 ^ 63"
    using sint_ge [of x] sint_lt [of x] by simp_all
  have e: "unat (word_of_int k :: 64 word) = nat k" if "0 \<le> k" "k < 2 ^ 64" for k
  proof -
    have "uint (word_of_int k :: 64 word) = k"
      using that by (simp add: uint_word_of_int_eq take_bit_int_eq_self)
    then show ?thesis by (metis unat_eq_nat_uint)
  qed
  have "int (unat (- x)) = - sint x" if "sint x < 0"
    using e [of "- sint x"] range that by simp
  moreover have "int (unat x) = sint x" if "0 \<le> sint x"
    using e [of "sint x"] range that by simp
  ultimately show ?thesis by (auto simp: word_sless_alt)
qed

text \<open>Claim C25: whatever flags, width and precision the format gives, the integer conversions print
  the number exactly: \<^verbatim>\<open>%d\<close> and \<^verbatim>\<open>%i\<close> the signed value of the argument, \<^verbatim>\<open>%u\<close>, \<^verbatim>\<open>%x\<close>, \<^verbatim>\<open>%X\<close> and
  \<^verbatim>\<open>%o\<close> (without the flag \<^verbatim>\<open>#\<close>) its unsigned value in their base.  Blanks apart, the field
  reads back to it; so no digit is ever lost in the buffer of 24 bytes.\<close>

theorem printed_integer_reads_back:
  assumes "scan_spec s ap = Some (px0, code, r, Va_word w # ap')" "pf_qual px0 = NUL"
    and "conversion ldtob nchar s ap = Some (px, r', ap'', ns)"
  defines "t \<equiv> filter (\<lambda>c. c \<noteq> CHR '' '') (field_text px)"
  shows "(code \<in> {CHR ''d'', CHR ''i''} \<longrightarrow> read_signed t = sint w) \<and>
         (code \<in> {CHR ''u'', CHR ''x'', CHR ''X'', CHR ''o''} \<and> pf_flags px0 AND FLAGS_HASH = 0 \<longrightarrow>
            read_number (unat (litob_base code)) t = unat w)"
proof -
  obtain px1 where P: "Putfld ldtob nchar px0 (Va_word w # ap') code = Some (px1, ap'', ns)"
    and px: "px = px1\<lparr>pf_width := s32_wrap (pf_width px1 - field_length px1)\<rparr>"
    using conversion_Putfld [OF assms(3,1)] by blast
  show ?thesis
  proof (intro conjI impI)
    assume d: "code \<in> {CHR ''d'', CHR ''i''}"
    define px2 where "px2 = px0\<lparr>pf_nz0 := 0, pf_n1 := 0, pf_nz1 := 0, pf_n2 := 0, pf_nz2 := 0,
      pf_v := scast w, pf_ac := sign_prefix ((scast w :: s64) <s 0) (pf_flags px0)\<rparr>"
    have p1: "px1 = Litob px2 code"
      using P d assms(2)
      by (auto simp: Putfld_def put_signed_def fetch_integer_def px2_def Let_def)
    have base: "unat (litob_base code) = 10" using d by (auto simp: litob_base_def)
    let ?k = "nat (litob_fill px2 (int (length (litob_text px2 code))))"
    let ?t = "replicate ?k (CHR ''0'') @ litob_text px2 code"
    have t: "t = filter (\<lambda>c. c \<noteq> CHR '' '') (sign_prefix ((scast w :: s64) <s 0) (pf_flags px0)) @ ?t"
      unfolding t_def px p1 by (subst integer_field_text) (simp_all add: px2_def)
    have "read_number 10 ?t = unat (litob_value px2 code)"
      using read_number_litob_text [of code px2] by (simp add: read_number_zeros base)
    moreover have "sint w = (if (scast w :: s64) <s 0 then - int (unat (litob_value px2 code))
        else int (unat (litob_value px2 code)))"
      using d sint_sign_magnitude [of "scast w"]
      by (auto simp: litob_value_def px2_def sint_up_scast is_up split: if_splits)
    moreover have "read_signed t = (if (scast w :: s64) <s 0 then - int (read_number 10 ?t)
        else int (read_number 10 ?t))"
      unfolding t by (rule read_signed_sign) (auto dest: litob_text_plain)
    ultimately show "read_signed t = sint w" by simp
  next
    assume u: "code \<in> {CHR ''u'', CHR ''x'', CHR ''X'', CHR ''o''} \<and> pf_flags px0 AND FLAGS_HASH = 0"
    define px2 where "px2 = px0\<lparr>pf_nz0 := 0, pf_n1 := 0, pf_nz1 := 0, pf_n2 := 0, pf_nz2 := 0,
      pf_v := ucast w, pf_ac := []\<rparr>"
    have "(ucast (ucast (scast w :: s64) :: 32 word) :: s64) = ucast w"
      by (rule ucast_ucast_scast)
    then have p1: "px1 = Litob px2 code"
      using P u assms(2)
      by (auto simp: Putfld_def put_unsigned_def fetch_integer_def px2_def Let_def)
    have "litob_value px2 code = ucast w" using u by (auto simp: litob_value_def px2_def)
    then show "read_number (unat (litob_base code)) t = unat w"
      unfolding t_def px p1
      by (subst integer_field_text)
        (simp_all add: px2_def read_number_zeros read_number_litob_text unat_ucast64)
  qed
qed

theorem printed_integer_reads_back_witness:
  "read_signed (filter (\<lambda>c. c \<noteq> CHR '' '') (field_text
     (case conversion (\<lambda>px c. px) 0 (''+7d'' @ [NUL]) [Va_word (- 42)] of Some (px, _) \<Rightarrow> px))) = - 42"
proof -
  let ?px0 = "\<lparr>pf_v = 0, pf_s = [], pf_ac = [], pf_nz0 = 0, pf_n1 = 0, pf_nz1 = 0, pf_n2 = 0,
                 pf_nz2 = 0, pf_prec = - 1, pf_width = 7, pf_flags = 2, pf_qual = NUL\<rparr>"
  have s: "scan_spec (''+7d'' @ [NUL]) [Va_word (- 42)] = Some (?px0, CHR ''d'', [NUL], [Va_word (- 42)])"
    by code_simp
  have "conversion (\<lambda>px c. px) 0 (''+7d'' @ [NUL]) [Va_word (- 42)] \<noteq> None"
    by code_simp
  then obtain px r ap ns where
    c: "conversion (\<lambda>px c. px) 0 (''+7d'' @ [NUL]) [Va_word (- 42)] = Some (px, r, ap, ns)"
    by auto
  have "read_signed (filter (\<lambda>c. c \<noteq> CHR '' '') (field_text px)) = sint (- 42 :: s32)"
    using printed_integer_reads_back [OF s _ c] by simp
  then show ?thesis using c by simp
qed

subsection \<open>The width of a field\<close>

lemma litob_fill_nonneg: "pf_nz0 px = 0 \<Longrightarrow> 0 \<le> litob_fill px n1"
  by (auto simp: litob_fill_def Let_def)

lemma strlen_le: "strlen s = Some n \<Longrightarrow> n \<le> length s"
  by (induction s arbitrary: n) (auto split: if_splits)

definition well_sized :: "Pft \<Rightarrow> bool" where
  "well_sized px \<longleftrightarrow> 0 \<le> pf_nz0 px \<and> 0 \<le> pf_n1 px \<and> pf_n1 px \<le> int (length (pf_s px)) \<and>
     pf_nz1 px = 0 \<and> pf_n2 px = 0 \<and> pf_nz2 px = 0"

lemma Litob_well_sized:
  "pf_nz0 px = 0 \<Longrightarrow> pf_nz1 px = 0 \<Longrightarrow> pf_n2 px = 0 \<Longrightarrow> pf_nz2 px = 0 \<Longrightarrow> well_sized (Litob px code)"
  "pf_width (Litob px code) = pf_width px" "pf_flags (Litob px code) = pf_flags px"
  by (simp_all add: Litob_text well_sized_def litob_fill_nonneg)

definition field_clear :: "Pft \<Rightarrow> bool" where
  "field_clear px \<longleftrightarrow> pf_nz0 px = 0 \<and> pf_n1 px = 0 \<and> pf_nz1 px = 0 \<and> pf_n2 px = 0 \<and> pf_nz2 px = 0"

definition field_kept :: "Pft \<Rightarrow> Pft \<Rightarrow> bool" where
  "field_kept px px' \<longleftrightarrow> well_sized px' \<and> pf_width px' = pf_width px \<and> pf_flags px' = pf_flags px"

lemma field_kept_clear: "field_clear px \<Longrightarrow> field_kept px px" "field_clear px \<Longrightarrow> field_kept px (px\<lparr>pf_ac := a\<rparr>)"
  by (simp_all add: field_clear_def field_kept_def well_sized_def)

lemma field_kept_Litob:
  "field_clear px \<Longrightarrow> field_kept px (Litob (px\<lparr>pf_v := v, pf_ac := a\<rparr>) code)"
  "field_clear px \<Longrightarrow> field_kept px (Litob (px\<lparr>pf_v := v\<rparr>) code)"
  by (simp_all add: field_clear_def field_kept_def Litob_well_sized)

lemma put_signed_kept: "put_signed px ap c = Some (px', ap', ns) \<Longrightarrow> field_clear px \<Longrightarrow> field_kept px px'"
  by (auto simp: put_signed_def bind_eq_Some_conv Let_def simp del: split_paired_Ex intro: field_kept_Litob)

lemma put_unsigned_kept: "put_unsigned px ap c = Some (px', ap', ns) \<Longrightarrow> field_clear px \<Longrightarrow> field_kept px px'"
  by (auto simp: put_unsigned_def bind_eq_Some_conv Let_def simp del: split_paired_Ex if_split intro: field_kept_Litob)

lemma put_count_kept: "put_count n px ap = Some (px', ap', ns) \<Longrightarrow> field_clear px \<Longrightarrow> field_kept px px'"
  by (auto simp: put_count_def bind_eq_Some_conv simp del: split_paired_Ex intro: field_kept_clear)

lemma put_string_kept: "put_string px ap = Some (px', ap', ns) \<Longrightarrow> field_clear px \<Longrightarrow> field_kept px px'"
  by (auto simp: put_string_def bind_eq_Some_conv field_kept_def field_clear_def well_sized_def
      dest!: strlen_le)

lemma Putfld_kept:
  assumes "Putfld ldtob nchar px0 ap code = Some (px, ap', ns)"
    and "code \<notin> {CHR ''e'', CHR ''f'', CHR ''g'', CHR ''E'', CHR ''G''}"
  shows "field_kept px0 px"
proof -
  define px1 where "px1 = px0\<lparr>pf_ac := [], pf_nz0 := 0, pf_n1 := 0, pf_nz1 := 0, pf_n2 := 0, pf_nz2 := 0\<rparr>"
  have c: "field_clear px1" and e: "field_kept px0 = field_kept px1"
    by (simp_all add: px1_def field_clear_def field_kept_def fun_eq_iff)
  note def = assms(1) [unfolded Putfld_def Let_def px1_def [symmetric] if_not_P [OF assms(2)]]
  consider "code = CHR ''c''" | "code = CHR ''d'' \<or> code = CHR ''i''"
    | "code = CHR ''x'' \<or> code = CHR ''X'' \<or> code = CHR ''u'' \<or> code = CHR ''o''"
    | "code = CHR ''n''" | "code = CHR ''p''" | "code = CHR ''s''"
    | "code \<notin> {CHR ''c'', CHR ''d'', CHR ''i'', CHR ''x'', CHR ''X'', CHR ''u'', CHR ''o'',
         CHR ''n'', CHR ''p'', CHR ''s''}"
    by blast
  then have "field_kept px1 px"
  proof cases
    case 1
    then show ?thesis using def c by (auto simp: bind_eq_Some_conv intro: field_kept_clear)
  next
    case 2
    then have "put_signed px1 ap code = Some (px, ap', ns)" using def by (elim disjE) simp_all
    then show ?thesis using c by (rule put_signed_kept)
  next
    case 3
    then have "put_unsigned px1 ap code = Some (px, ap', ns)" using def by (elim disjE) simp_all
    then show ?thesis using c by (rule put_unsigned_kept)
  next
    case 4
    then have "put_count nchar px1 ap = Some (px, ap', ns)" using def by simp
    then show ?thesis using c by (rule put_count_kept)
  next
    case 5
    then show ?thesis using def c by (auto simp: bind_eq_Some_conv intro: field_kept_Litob)
  next
    case 6
    then have "put_string px1 ap = Some (px, ap', ns)" using def by simp
    then show ?thesis using c by (rule put_string_kept)
  next
    case 7
    then have "px = px1\<lparr>pf_ac := [code]\<rparr>" using def by simp
    then show ?thesis using c by (simp add: field_kept_clear)
  qed
  then show ?thesis by (simp add: e)
qed

lemma s32_wrap_id: "- (2 ^ 31) \<le> k \<Longrightarrow> k < 2 ^ 31 \<Longrightarrow> s32_wrap k = k"
  unfolding s32_wrap_def int_word_sint by simp

text \<open>the width of a conversion is a minimum: a field is as long as the longer of the
  width the format asks for and what it has to print, which is never cut; the blanks stand in
  front of it, or behind it with the flag \<^verbatim>\<open>-\<close>.\<close>

theorem field_width_is_a_minimum:
  assumes "scan_spec s ap = Some (px0, code, r, ap0)" "0 \<le> pf_width px0" "pf_width px0 < 2 ^ 31"
    and "conversion ldtob nchar s ap = Some (px, r', ap', ns)"
    and "code \<notin> {CHR ''e'', CHR ''f'', CHR ''g'', CHR ''E'', CHR ''G''}" "field_length px < 2 ^ 31"
  shows "int (length (field_text px)) = max (pf_width px0) (field_length px) \<and>
         (\<exists>body. int (length body) = field_length px \<and>
            (let blanks = replicate (nat (pf_width px0 - field_length px)) (CHR '' '')
             in field_text px = (if pf_flags px0 AND FLAGS_MINUS = 0 then blanks @ body else body @ blanks)))"
proof -
  obtain px1 where P: "Putfld ldtob nchar px0 ap0 code = Some (px1, ap', ns)"
    and px: "px = px1\<lparr>pf_width := s32_wrap (pf_width px1 - field_length px1)\<rparr>"
    using conversion_Putfld [OF assms(4,1)] by blast
  note w = Putfld_kept [OF P assms(5), unfolded field_kept_def]
  have fl: "field_length px1 = field_length px" by (simp add: px field_length_def)
  have pos: "0 \<le> field_length px1" using w by (auto simp: field_length_def well_sized_def)
  have wrap: "s32_wrap (pf_width px1 - field_length px1) = pf_width px0 - field_length px"
    using assms(2,3,6) pos w by (subst s32_wrap_id) (simp_all add: fl)
  have pw: "pf_width px = pf_width px0 - field_length px" by (subst px) (simp add: wrap)
  have fields: "pf_ac px = pf_ac px1" "pf_s px = pf_s px1" "pf_nz0 px = pf_nz0 px1" "pf_n1 px = pf_n1 px1"
    "pf_nz1 px = pf_nz1 px1" "pf_n2 px = pf_n2 px1" "pf_nz2 px = pf_nz2 px1" "pf_flags px = pf_flags px1"
    by (simp_all add: px)
  define body where "body = pf_ac px1 @ replicate (nat (pf_nz0 px1)) (CHR ''0'') @ take (nat (pf_n1 px1)) (pf_s px1)"
  have "int (length body) = field_length px"
    unfolding fl [symmetric] using w
    by (simp add: body_def field_length_def well_sized_def min_absorb2 nat_le_iff)
  moreover have "field_text px = (if pf_flags px0 AND FLAGS_MINUS = 0
      then replicate (nat (pf_width px0 - field_length px)) (CHR '' '') @ body
      else body @ replicate (nat (pf_width px0 - field_length px)) (CHR '' ''))"
    using w by (simp add: field_text_def Let_def fields pw body_def well_sized_def)
  ultimately show ?thesis by (auto simp: Let_def)
qed


theorem field_width_is_a_minimum_witness:
  "length (field_text (case conversion (\<lambda>px c. px) 0 (''-9s'' @ [NUL]) [Va_str (''abc'' @ [NUL])] of
     Some (px, _) \<Rightarrow> px)) = 9"
proof -
  let ?px0 = "\<lparr>pf_v = 0, pf_s = [], pf_ac = [], pf_nz0 = 0, pf_n1 = 0, pf_nz1 = 0, pf_n2 = 0,
                 pf_nz2 = 0, pf_prec = - 1, pf_width = 9, pf_flags = 4, pf_qual = NUL\<rparr>"
  let ?c = "conversion (\<lambda>px c. px) 0 (''-9s'' @ [NUL]) [Va_str (''abc'' @ [NUL])]"
  have s: "scan_spec (''-9s'' @ [NUL]) [Va_str (''abc'' @ [NUL])]
      = Some (?px0, CHR ''s'', [NUL], [Va_str (''abc'' @ [NUL])])"
    by code_simp
  have l: "map_option (\<lambda>(px, _). field_length px) ?c = Some 3" by code_simp
  then obtain px r ap ns where c: "?c = Some (px, r, ap, ns)" by auto
  with l have "field_length px = 3" by auto
  with field_width_is_a_minimum [OF s _ _ c] have "int (length (field_text px)) = 9" by simp
  then show ?thesis using c by simp
qed

theorem sprintf_writes_text_witness:
  "\<exists>m'. sprintf (\<lambda>px c. px) (\<lambda>_. 7) 0x80100000 (''%02d'' @ [NUL]) [Va_word 5] = Some (m', 2, []) \<and>
     m' 0x80100000 = 48 \<and> m' 0x80100001 = 53 \<and> m' 0x80100002 = 0 \<and> m' 0x80100003 = 7"
proof -
  have r: "render (\<lambda>px c. px) (''%02d'' @ [NUL]) [Va_word 5] 0 = Some (''05'', [])" by code_simp
  from sprintf_writes_text [OF r, of "0x80100000" "\<lambda>_. 7"] show ?thesis
    by (auto simp: in_block_def)
qed

subsection \<open>Hexadecimal words\<close>

lemma radix_padded:
  assumes "2 \<le> b" "n < b ^ k" "0 < k"
  shows "replicate (k - length (radix b n)) 0 @ radix b n = map (\<lambda>i. n div b ^ (k - 1 - i) mod b) [0..<k]"
  using assms(2,3)
proof (induction k arbitrary: n)
  case (Suc k)
  have m: "map (\<lambda>i. n div b ^ (Suc k - 1 - i) mod b) [0..<Suc k]
      = map (\<lambda>i. n div b div b ^ (k - 1 - i) mod b) [0..<k] @ [n mod b]"
    by (auto simp: div_mult2_eq [symmetric] Suc_diff_Suc simp flip: power_Suc intro!: arg_cong [where f = "\<lambda>x. n div x mod b"])
  show ?case
  proof (cases "n div b = 0")
    case True
    then show ?thesis using assms(1) unfolding m radix_step [OF assms(1), of n]
      by (simp add: map_replicate_const)
  next
    case False
    have "n div b < b ^ k" using Suc.prems(1) by (simp add: less_mult_imp_div_less mult.commute)
    moreover from this False have "0 < k" by (cases k) auto
    ultimately show ?thesis
      using Suc.IH [of "n div b"] False unfolding m radix_step [OF assms(1), of n] by simp
  qed
qed simp

text \<open>The text of the conversions \<^verbatim>\<open>%04x\<close>, \<^verbatim>\<open>%06x\<close> and \<^verbatim>\<open>%08x\<close>, in either case of letters.\<close>

definition hex_text :: "nat \<Rightarrow> char \<Rightarrow> u32 \<Rightarrow> string" where
  "hex_text k code w =
     (let d = map ((!) (litob_digs code)) (radix 16 (unat w)) in replicate (k - length d) (CHR ''0'') @ d)"

lemma radix_16_length: "length (radix 16 (unat (w :: u32))) \<le> 8"
  using unsigned_less [of w, where 'a = nat] by (intro radix_length) simp_all

lemma length_hex_text: "length (hex_text k code w) \<le> max k 8"
  using radix_16_length [of w] by (simp add: hex_text_def Let_def)

lemma hex_scan:
  assumes "(kc, k) \<in> {(CHR ''4'', 4), (CHR ''6'', 6), (CHR ''8'', 8)}" "code \<in> {CHR ''x'', CHR ''X''}"
  shows "scan_spec (CHR ''0'' # kc # code # fmt) ap =
    Some (\<lparr>pf_v = 0, pf_s = [], pf_ac = [], pf_nz0 = 0, pf_n1 = 0, pf_nz1 = 0, pf_n2 = 0,
           pf_nz2 = 0, pf_prec = - 1, pf_width = k, pf_flags = 16, pf_qual = NUL\<rparr>, code, fmt, ap)"
  using assms
  by (elim insertE emptyE; simp)
    (simp_all add: scan_spec_def scan_flags.simps fchar_def fbit_def FLAGS_defs scan_width_def scan_prec_def
        scan_qual_def isdigit_def)

lemma hex_conversion:
  assumes "(kc, k) \<in> {(CHR ''4'', 4), (CHR ''6'', 6), (CHR ''8'', 8)}" "code \<in> {CHR ''x'', CHR ''X''}"
  shows "\<exists>px. conversion ldtob n (CHR ''0'' # kc # code # fmt) (Va_word w # ap) = Some (px, fmt, ap, []) \<and>
           field_text px = hex_text (nat k) code w"
proof -
  define px0 where "px0 = \<lparr>pf_v = 0, pf_s = [], pf_ac = [], pf_nz0 = 0, pf_n1 = 0, pf_nz1 = 0, pf_n2 = 0,
                 pf_nz2 = 0, pf_prec = - 1, pf_width = k, pf_flags = 16, pf_qual = NUL\<rparr>"
  define px2 where "px2 = px0\<lparr>pf_v := ucast w\<rparr>"
  note s = hex_scan [OF assms, of fmt "Va_word w # ap", folded px0_def]
  have k: "4 \<le> k" "k \<le> 8" using assms(1) by auto
  have P: "Putfld ldtob n px0 (Va_word w # ap) code = Some (Litob px2 code, ap, [])"
    using assms(2)
    by (auto simp: Putfld_def put_unsigned_def fetch_integer_def Let_def px2_def px0_def ucast_ucast_scast FLAGS_defs)
  define digits where "digits = litob_text px2 code"
  have d: "digits = map ((!) (litob_digs code)) (radix 16 (unat w))"
    using assms(2)
    by (auto simp: digits_def litob_text_def litob_base_def litob_digs_def litob_value_def px2_def px0_def unat_ucast64)
  have len: "length digits \<le> 8" by (simp add: d radix_16_length)
  define z where "z = max 0 (k - int (length digits))"
  have "litob_fill px2 (int (length digits)) = z"
    by (auto simp: litob_fill_def px2_def px0_def FLAGS_defs z_def)
  then have L: "Litob px2 code = px2\<lparr>pf_v := 0, pf_s := digits, pf_n1 := int (length digits), pf_nz0 := z\<rparr>"
    by (simp add: Litob_text flip: digits_def)
  have px2: "pf_width px2 = k" "pf_ac px2 = []" "pf_nz1 px2 = 0" "pf_n2 px2 = 0" "pf_nz2 px2 = 0" "pf_flags px2 = 16"
    by (simp_all add: px2_def px0_def)
  have wd: "s32_wrap (k - (z + int (length digits))) = k - (z + int (length digits))"
    using k len by (intro s32_wrap_id) (auto simp: z_def)
  let ?px = "px2\<lparr>pf_v := 0, pf_s := digits, pf_n1 := int (length digits), pf_nz0 := z,
                  pf_width := k - (z + int (length digits))\<rparr>"
  have "conversion ldtob n (CHR ''0'' # kc # code # fmt) (Va_word w # ap) = Some (?px, fmt, ap, [])"
    using s by (simp add: conversion_def P L field_length_def px2 wd)
  moreover have "field_text ?px = hex_text (nat k) code w"
    using k by (auto simp: field_text_def px2 Let_def FLAGS_defs hex_text_def d [symmetric] z_def nat_diff_distrib)
  ultimately show ?thesis by blast
qed

text \<open>The conversion \<^verbatim>\<open>%d\<close> without flags.\<close>

definition dec_text :: "s32 \<Rightarrow> string" where
  "dec_text w =
     sign_prefix ((scast w :: s64) <s 0) 0 @
     map ((!) ldigs) (radix 10 (unat (if (scast w :: s64) <s 0 then - scast w else scast w :: s64)))"

lemma unat_abs_s32: "unat (if (scast w :: s64) <s 0 then - scast w else scast w :: s64) \<le> 2 ^ 31"
  for w :: s32
proof -
  have "sint (scast w :: s64) = sint w" by (simp add: sint_up_scast is_up)
  moreover have "- (2 ^ 31) \<le> sint w" "sint w < 2 ^ 31" using sint_ge [of w] sint_lt [of w] by simp_all
  moreover define m where "m = unat (if (scast w :: s64) <s 0 then - scast w else scast w :: s64)"
  moreover have "sint (scast w :: s64) = - int m \<or> sint (scast w :: s64) = int m"
    using sint_sign_magnitude [of "scast w"]
    by (cases "(scast w :: s64) <s 0") (simp_all only: m_def if_True if_False simp_thms)
  ultimately have "int m \<le> 2 ^ 31" by linarith
  then have "m \<le> 2 ^ 31" by simp
  then show ?thesis by (simp only: m_def)
qed

lemma length_dec_text: "length (dec_text w) \<le> 11"
proof -
  define n where "n = unat (if (scast w :: s64) <s 0 then - scast w else scast w :: s64)"
  have "n \<le> 2 ^ 31" unfolding n_def by (rule unat_abs_s32)
  then have "length (radix 10 n) \<le> 10" by (intro radix_length) simp_all
  moreover have "length (sign_prefix b 0) \<le> 1" for b by (simp add: sign_prefix_def)
  from add_mono [OF this calculation] show ?thesis
    unfolding dec_text_def length_append length_map n_def [symmetric] by simp
qed

lemma dec_conversion:
  "\<exists>px. conversion ldtob n (CHR ''d'' # fmt) (Va_word w # ap) = Some (px, fmt, ap, []) \<and> field_text px = dec_text w"
proof -
  define px0 where "px0 = \<lparr>pf_v = 0, pf_s = [], pf_ac = [], pf_nz0 = 0, pf_n1 = 0, pf_nz1 = 0, pf_n2 = 0,
                 pf_nz2 = 0, pf_prec = - 1, pf_width = 0, pf_flags = 0, pf_qual = NUL\<rparr>"
  define px2 where "px2 = px0\<lparr>pf_v := scast w, pf_ac := sign_prefix ((scast w :: s64) <s 0) 0\<rparr>"
  have s: "scan_spec (CHR ''d'' # fmt) (Va_word w # ap) = Some (px0, CHR ''d'', fmt, Va_word w # ap)"
    by (simp add: scan_spec_def scan_flags.simps fchar_def scan_width_def scan_prec_def scan_qual_def isdigit_def px0_def)
  have P: "Putfld ldtob n px0 (Va_word w # ap) (CHR ''d'') = Some (Litob px2 (CHR ''d''), ap, [])"
    by (simp add: Putfld_def put_signed_def fetch_integer_def Let_def px2_def px0_def)
  define digits where "digits = litob_text px2 (CHR ''d'')"
  have d: "digits = map ((!) ldigs) (radix 10 (unat (if (scast w :: s64) <s 0 then - scast w else scast w :: s64)))"
    by (simp add: digits_def litob_text_def litob_base_def litob_digs_def litob_value_def px2_def px0_def)
  have len: "length (dec_text w) = length (pf_ac px2) + length digits" "dec_text w = pf_ac px2 @ digits"
    by (simp_all add: dec_text_def d px2_def)
  have px2: "pf_width px2 = 0" "pf_nz1 px2 = 0" "pf_n2 px2 = 0" "pf_nz2 px2 = 0" "pf_flags px2 = 0" "pf_prec px2 = -1"
    "pf_nz0 px2 = 0" by (simp_all add: px2_def px0_def)
  then have "litob_fill px2 (int (length digits)) = 0"
    by (simp add: litob_fill_def FLAGS_defs)
  then have L: "Litob px2 (CHR ''d'') = px2\<lparr>pf_v := 0, pf_s := digits, pf_n1 := int (length digits), pf_nz0 := 0\<rparr>"
    by (simp add: Litob_text flip: digits_def)
  have "- int (length (dec_text w)) = s32_wrap (- int (length (dec_text w)))"
    by (rule s32_wrap_id [symmetric]) (use length_dec_text [of w] in auto)
  then have wd: "s32_wrap (- int (length (pf_ac px2)) - int (length digits)) = - int (length (dec_text w))"
    by (simp add: len(1))
  let ?px = "px2\<lparr>pf_v := 0, pf_s := digits, pf_n1 := int (length digits), pf_nz0 := 0,
                  pf_width := - int (length (dec_text w))\<rparr>"
  have "conversion ldtob n (CHR ''d'' # fmt) (Va_word w # ap) = Some (?px, fmt, ap, [])"
    by (simp add: conversion_def s P L field_length_def px2 wd)
  moreover have "field_text ?px = dec_text w"
    by (simp add: field_text_def px2 Let_def len(2))
  ultimately show ?thesis by blast
qed

lemma render_dec:
  assumes "scan_text fmt0 = Some (t, CHR ''%'' # CHR ''d'' # fmt)"
    and "\<And>n. render ldtob fmt ap n = Some (out, [])"
  shows "render ldtob fmt0 (Va_word w # ap) n = Some (t @ dec_text w @ out, [])"
proof -
  obtain px where px: "conversion ldtob (n + of_nat (length t)) (CHR ''d'' # fmt) (Va_word w # ap)
      = Some (px, fmt, ap, [])" "field_text px = dec_text w"
    using dec_conversion by blast
  then show ?thesis using assms by (subst render.simps) simp
qed

text \<open>One conversion after some text.\<close>

lemma render_hex:
  assumes "scan_text fmt0 = Some (t, CHR ''%'' # CHR ''0'' # kc # code # fmt)"
    and "(kc, k) \<in> {(CHR ''4'', 4), (CHR ''6'', 6), (CHR ''8'', 8)}" "code \<in> {CHR ''x'', CHR ''X''}"
    and "\<And>n. render ldtob fmt ap n = Some (out, [])"
  shows "render ldtob fmt0 (Va_word w # ap) n = Some (t @ hex_text (nat k) code w @ out, [])"
proof -
  obtain px where px: "conversion ldtob (n + of_nat (length t)) (CHR ''0'' # kc # code # fmt) (Va_word w # ap)
      = Some (px, fmt, ap, [])" "field_text px = hex_text (nat k) code w"
    using hex_conversion [OF assms(2,3)] by blast
  then show ?thesis using assms(1,4) by (subst render.simps) simp
qed

lemma render_end: "scan_text fmt = Some (t, NUL # r) \<Longrightarrow> render ldtob fmt ap n = Some (t, [])"
  by (subst render.simps) simp

lemma hex_text_8: "hex_text 8 (CHR ''X'') w = map (\<lambda>i. udigs ! (unat w div 16 ^ (7 - i) mod 16)) [0..<8]"
proof -
  have w: "unat w < 16 ^ 8" using unsigned_less [of w, where 'a = nat] by simp
  have "hex_text 8 (CHR ''X'') w = map ((!) udigs) (replicate (8 - length (radix 16 (unat w))) 0 @ radix 16 (unat w))"
    by (simp add: hex_text_def litob_digs_def Let_def udigs_def)
  also have "\<dots> = map (\<lambda>i. udigs ! (unat w div 16 ^ (7 - i) mod 16)) [0..<8]"
    by (subst radix_padded) (use w in \<open>simp_all del: upt_rec_numeral\<close>)
  finally show ?thesis .
qed

text \<open>the conversion \<^verbatim>\<open>%08X\<close>, which the crash screen uses for every register, prints
  exactly the eight hexadecimal digits of the word, the highest first.\<close>

theorem hex_word_text:
  "render ldtob (''%08X'' @ [NUL]) [Va_word w] nchar =
     Some (map (\<lambda>i. udigs ! (unat w div 16 ^ (7 - i) mod 16)) [0..<8], [])"
  by (subst render_hex [where t = "[]" and kc = "CHR ''8''" and k = 8 and code = "CHR ''X''" and fmt = "[NUL]"
        and out = "[]"])
    (simp_all add: render_end hex_text_8 del: upt_rec_numeral)

end
