(* ===== verification/FaultScreen.thy ===== *)
theory FaultScreen
  imports Xprintf
begin

section \<open>The crash screen: drawing\<close>

text \<open>
  The drawing half of \<^verbatim>\<open>src/main/fault.c\<close>: rectangles and characters in a frame buffer of 16-bit
  pixels in memory, and formatted text through \<^verbatim>\<open>_Printf\<close>.  The font is data the build
  generates, so the function \<open>font\<close> from the index of a word of \<^verbatim>\<open>sFaultFont\<close> to the word is a
  parameter; so is \<^verbatim>\<open>_Ldtob\<close> (\<open>ldtob\<close>).  Pixels are compared with the relation
  \<open>pixels_upd\<close>, which says what became of each pixel of a buffer and that nothing else changed.
\<close>

subsection \<open>State\<close>

text \<open>The statics of the file and the fields of \<^verbatim>\<open>debugger\<close> the drawing uses; \<open>f_mem\<close> is the memory.\<close>

record fault =
  f_mem :: mem
  f_framebuf :: ptr
  f_width :: u16
  f_depth :: u16
  sFaultFontColor :: u16
  D_80108690 :: s32

definition GPACK_RGBA5551 :: "u32 \<Rightarrow> u32 \<Rightarrow> u32 \<Rightarrow> u32 \<Rightarrow> u16" where
  "GPACK_RGBA5551 r g b a =
     ucast ((push_bit 8 r AND 0xF800) OR (push_bit 3 g AND 0x7C0) OR (drop_bit 2 b AND 0x3E) OR (a AND 1))"

subsection \<open>Rectangles\<close>

text \<open>The inner loop, \<open>n\<close> pixels from \<open>fb\<close>, and the outer loop over the rows.\<close>

primrec rec_row :: "nat \<Rightarrow> ptr \<Rightarrow> mem \<Rightarrow> ptr \<times> mem" where
  "rec_row 0 fb m = (fb, m)"
| "rec_row (Suc i) fb m = rec_row i (fb + 2) (store16 m fb (GPACK_RGBA5551 0 0 0 1))"

primrec rec_rows :: "nat \<Rightarrow> s32 \<Rightarrow> u16 \<Rightarrow> ptr \<Rightarrow> mem \<Rightarrow> mem" where
  "rec_rows 0 w width fb m = m"
| "rec_rows (Suc j) w width fb m =
     (let (fb, m) = rec_row (nat (sint w)) fb m
      in rec_rows j w width (fb + 2 * (ucast width - w)) m)"

definition Fault_DrawRec :: "s32 \<Rightarrow> s32 \<Rightarrow> s32 \<Rightarrow> s32 \<Rightarrow> fault \<Rightarrow> fault" where
  "Fault_DrawRec x y w h st =
     st\<lparr>f_mem := rec_rows (nat (sint h)) w (f_width st)
                   (f_framebuf st + 2 * (ucast (f_width st) * y + x)) (f_mem st)\<rparr>"

subsection \<open>Characters\<close>

primrec char_row :: "nat \<Rightarrow> u32 \<Rightarrow> u32 \<Rightarrow> u16 \<Rightarrow> ptr \<Rightarrow> mem \<Rightarrow> ptr \<times> mem" where
  "char_row 0 msk font color fb m = (fb, m)"
| "char_row (Suc j) msk font color fb m =
     char_row j (drop_bit 4 msk) font color (fb + 2)
       (if msk AND font \<noteq> 0 then store16 m fb color else m)"

primrec char_rows :: "nat \<Rightarrow> (nat \<Rightarrow> u32) \<Rightarrow> nat \<Rightarrow> nat \<Rightarrow> u16 \<Rightarrow> u16 \<Rightarrow> ptr \<Rightarrow> mem \<Rightarrow> mem" where
  "char_rows 0 font fontPtr c color width fb m = m"
| "char_rows (Suc i) font fontPtr c color width fb m =
     (let (fb, m) = char_row 8 (push_bit (c mod 4) 0x10000000) (font fontPtr) color fb m
      in char_rows i font (fontPtr + 2) c color width (fb + 2 * (ucast width - 8)) m)"

definition Fault_PrintCharImpl :: "(nat \<Rightarrow> u32) \<Rightarrow> s32 \<Rightarrow> s32 \<Rightarrow> char \<Rightarrow> fault \<Rightarrow> fault" where
  "Fault_PrintCharImpl font x y fmt st =
     (let c = of_char fmt :: nat
      in st\<lparr>f_mem := char_rows 8 font (c div 8 * 16 + (c AND 4) div 4) c (sFaultFontColor st) (f_width st)
                       (f_framebuf st + 2 * (ucast (f_width st) * y + x)) (f_mem st)\<rparr>)"

definition Fault_PrintChar :: "(nat \<Rightarrow> u32) \<Rightarrow> s32 \<Rightarrow> s32 \<Rightarrow> char \<Rightarrow> fault \<Rightarrow> fault" where
  "Fault_PrintChar font x y fmt st = Fault_PrintCharImpl font x y fmt st"

subsection \<open>Text\<close>

text \<open>The argument of the callback is the state and the position \<^verbatim>\<open>FaultDrawerPos\<close>.\<close>

primrec callback_loop ::
  "(nat \<Rightarrow> u32) \<Rightarrow> fault \<times> s32 \<times> s32 \<Rightarrow> string \<Rightarrow> fault \<times> s32 \<times> s32" where
  "callback_loop font pos [] = pos"
| "callback_loop font pos (c # s) =
     (case pos of (st, x, y) \<Rightarrow> callback_loop font (Fault_PrintChar font x y c st, x + 6, y) s)"

definition Fault_PrintCallback :: "(nat \<Rightarrow> u32) \<Rightarrow> (fault \<times> s32 \<times> s32) sink_fun" where
  "Fault_PrintCallback font pos fmt = (True, callback_loop font pos fmt)"

definition Fault_Printf ::
  "(nat \<Rightarrow> u32) \<Rightarrow> (Pft \<Rightarrow> char \<Rightarrow> Pft) \<Rightarrow> s32 \<Rightarrow> s32 \<Rightarrow> string \<Rightarrow> va_arg list \<Rightarrow> fault \<Rightarrow>
     (fault \<times> s32) option" where
  "Fault_Printf font ldtob x y fmt ap st =
     map_option (\<lambda>((ok, (st', pos), ret), ns). (st', ret))
       (Printf (Fault_PrintCallback font) ldtob (st, x, y) fmt ap)"

lemma callback_loop_append:
  "callback_loop font pos (s @ t) = callback_loop font (callback_loop font pos s) t"
  by (induction s arbitrary: pos) (auto split: prod.splits)

interpretation fault_sink: print_sink "Fault_PrintCallback font" "callback_loop font" "\<lambda>_ _. True"
  by unfold_locales (auto simp: Fault_PrintCallback_def callback_loop_append)

subsection \<open>What becomes of the pixels\<close>

definition pixel :: "mem \<Rightarrow> ptr \<Rightarrow> nat \<Rightarrow> u16" where
  "pixel m b k = load16 m (b + 2 * of_nat k)"

text \<open>From \<open>m\<close> to \<open>m'\<close>, the pixel \<open>k\<close> of the \<open>N\<close> pixels at \<open>b\<close> changed by \<open>f k\<close>, and no byte outside.\<close>

definition pixels_upd :: "ptr \<Rightarrow> nat \<Rightarrow> mem \<Rightarrow> mem \<Rightarrow> (nat \<Rightarrow> u16 \<Rightarrow> u16) \<Rightarrow> bool" where
  "pixels_upd b N m m' f \<longleftrightarrow>
     (\<forall>k<N. pixel m' b k = f k (pixel m b k)) \<and> (\<forall>x. \<not> in_block b (2 * N) x \<longrightarrow> m' x = m x)"

lemma pixels_upd_refl [intro]: "(\<And>k p. k < N \<Longrightarrow> f k p = p) \<Longrightarrow> pixels_upd b N m m f"
  by (simp add: pixels_upd_def)

lemma pixels_upd_trans:
  "pixels_upd b N m m1 f \<Longrightarrow> pixels_upd b N m1 m2 g \<Longrightarrow> (\<And>k p. k < N \<Longrightarrow> h k p = g k (f k p)) \<Longrightarrow>
    pixels_upd b N m m2 h"
  by (simp add: pixels_upd_def)

lemma pixel_addr: "k < N \<Longrightarrow> N \<le> 2 ^ 31 \<Longrightarrow> unat (2 * of_nat k :: ptr) = 2 * k"
  using unat_ptr_of_nat [of "2 * k"] by simp

lemma pixels_upd_store:
  assumes "k0 < N" "N \<le> 2 ^ 31"
  shows "pixels_upd b N m (store16 m (b + 2 * of_nat k0) v) (\<lambda>k p. if k = k0 then v else p)"
proof -
  note a0 = pixel_addr [OF assms]
  have u1: "unat (2 * of_nat k + 1 :: ptr) = 2 * k + 1" if "k < N" for k
    using unat_ptr_of_nat [of "2 * k + 1"] that assms(2) by (simp add: add.commute)
  have ne: "2 * of_nat k \<noteq> (2 * of_nat k0 :: ptr)" "2 * of_nat k + 1 \<noteq> (2 * of_nat k0 :: ptr)"
    "2 * of_nat k \<noteq> (2 * of_nat k0 + 1 :: ptr)" "2 * of_nat k + 1 \<noteq> (2 * of_nat k0 + 1 :: ptr)"
    if "k < N" "k \<noteq> k0" for k
    using a0 pixel_addr [OF that(1) assms(2)] u1 [OF that(1)] u1 [OF assms(1)] that(2)
    by (metis mult_cancel_left zero_neq_numeral, metis even_mult_iff even_plus_one_iff even_numeral,
        metis even_mult_iff even_plus_one_iff even_numeral, metis add_right_cancel mult_cancel_left zero_neq_numeral)
  have same: "pixel (store16 m (b + 2 * of_nat k0) v) b k = pixel m b k" if "k < N" "k \<noteq> k0" for k
    using ne [OF that] by (simp add: pixel_def load16_def store16_def add.assoc)
  have out: "store16 m (b + 2 * of_nat k0) v x = m x" if "\<not> in_block b (2 * N) x" for x
  proof -
    have "x \<noteq> b + 2 * of_nat k0" "x \<noteq> b + 2 * of_nat k0 + 1"
      using that assms(1) a0 u1 [OF assms(1)] by (auto simp: in_block_def add.assoc)
    then show ?thesis by (simp add: store16_def)
  qed
  show ?thesis using same out by (simp add: pixels_upd_def) (simp add: pixel_def)
qed

lemma rec_row_pixels:
  assumes "k0 + n \<le> N" "N \<le> 2 ^ 31"
  shows "fst (rec_row n (b + 2 * of_nat k0) m) = b + 2 * of_nat (k0 + n)"
    and "pixels_upd b N m (snd (rec_row n (b + 2 * of_nat k0) m)) (\<lambda>k p. if k0 \<le> k \<and> k < k0 + n then 1 else p)"
  using assms(1)
proof (induction n arbitrary: k0 m)
  case (Suc n)
  have nx: "b + 2 * of_nat k + 2 = b + 2 * of_nat (Suc k)" for k by (simp add: algebra_simps)
  have c: "GPACK_RGBA5551 0 0 0 1 = 1" by (simp add: GPACK_RGBA5551_def)
  {
    case 1
    then show ?case unfolding rec_row.simps nx by (subst Suc.IH(1)) simp_all
  next
    case 2
    show ?case unfolding rec_row.simps nx c
      by (rule pixels_upd_trans [OF pixels_upd_store [of k0] Suc.IH(2) [of "Suc k0"]])
        (use 2 assms(2) in auto)
  }
qed (auto simp: pixels_upd_def)

lemma of_nat_sint: "0 \<le> sint (w :: 'a::len word) \<Longrightarrow> of_nat (nat (sint w)) = w"
  by (simp add: of_nat_nat)

lemma rec_rows_pixels:
  assumes "0 \<le> sint w" "N \<le> 2 ^ 31" "h = 0 \<or> k0 + (h - 1) * unat width + nat (sint w) \<le> N"
  shows "pixels_upd b N m (rec_rows h w width (b + 2 * of_nat k0) m)
           (\<lambda>k p. if \<exists>j<h. k0 + unat width * j \<le> k \<and> k < k0 + unat width * j + nat (sint w) then 1 else p)"
  using assms(3)
proof (induction h arbitrary: k0 m)
  case (Suc h)
  let ?n = "nat (sint w)" and ?W = "unat width"
  have le: "k0 + ?n \<le> N" using Suc.prems by auto
  note row = rec_row_pixels [OF le assms(2), of b m]
  have "of_nat ?n = w" using assms(1) by (rule of_nat_sint)
  moreover have "of_nat ?W = (ucast width :: 32 word)" by simp
  ultimately have fb: "b + 2 * of_nat (k0 + ?n) + 2 * (ucast width - w) = b + 2 * of_nat (k0 + ?W)"
    by (simp add: algebra_simps)
  have step: "rec_rows (Suc h) w width (b + 2 * of_nat k0) m
      = rec_rows h w width (b + 2 * of_nat (k0 + ?W)) (snd (rec_row ?n (b + 2 * of_nat k0) m))"
    using row(1) by (simp only: rec_rows.simps Let_def case_prod_beta fb)
  have ih: "h = 0 \<or> k0 + ?W + (h - 1) * ?W + ?n \<le> N"
    using Suc.prems by (cases h) (auto simp: algebra_simps)
  show ?case unfolding step
  proof (rule pixels_upd_trans [OF row(2) Suc.IH [OF ih]])
    fix k and p :: u16
    have "(\<exists>j<Suc h. k0 + ?W * j \<le> k \<and> k < k0 + ?W * j + ?n) \<longleftrightarrow>
        (k0 \<le> k \<and> k < k0 + ?n) \<or> (\<exists>j<h. k0 + ?W + ?W * j \<le> k \<and> k < k0 + ?W + ?W * j + ?n)"
      by (auto simp: less_Suc_eq_0_disj add.assoc)
    then show "(if \<exists>j<Suc h. k0 + ?W * j \<le> k \<and> k < k0 + ?W * j + ?n then 1 else p) =
       (if \<exists>j<h. k0 + ?W + ?W * j \<le> k \<and> k < k0 + ?W + ?W * j + ?n then 1
        else if k0 \<le> k \<and> k < k0 + ?n then 1 else p)"
      by auto
  qed
qed auto

text \<open>A pixel by its coordinates.\<close>

definition screen_pixel :: "fault \<Rightarrow> nat \<Rightarrow> nat \<Rightarrow> u16" where
  "screen_pixel st x y = pixel (f_mem st) (f_framebuf st) (unat (f_width st) * y + x)"

lemma row_of_pixel:
  assumes "W * a + u \<le> W * y + x" "W * y + x < W * a + u + n" "u + n \<le> W" "x < W"
  shows "a = (y::nat)"
proof -
  have "(W * y + x) div W = y" using assms(4) by simp
  moreover have "(W * y + x) div W = a"
    using assms by (intro div_nat_eqI) (auto simp: algebra_simps)
  ultimately show ?thesis by simp
qed

lemma pixel_index_less: "x < W \<Longrightarrow> y < R \<Longrightarrow> W * y + x < W * (R::nat)"
  by (metis add.commute add_less_mono1 less_le_trans mult_Suc_right mult_le_mono2 Suc_leI)

lemma pixel_address:
  "f_framebuf st + 2 * (ucast (f_width st) * of_nat y + of_nat x)
    = f_framebuf st + 2 * of_nat (unat (f_width st) * y + x)"
  by simp

lemma sint_of_nat: "n < 2 ^ 31 \<Longrightarrow> sint (of_nat n :: s32) = int n"
  using sint_small [of "of_nat n :: s32"] unat_ptr_of_nat [of n] by simp

text \<open>\<open>screen_upd R st st' f\<close>: of the first \<open>R\<close> rows of the frame buffer, the pixel at \<open>x\<close>, \<open>y\<close> changed by
  \<open>f x y\<close>, and nothing else of the state did.\<close>

definition screen_upd :: "nat \<Rightarrow> fault \<Rightarrow> fault \<Rightarrow> (nat \<Rightarrow> nat \<Rightarrow> u16 \<Rightarrow> u16) \<Rightarrow> bool" where
  "screen_upd R st st' f \<longleftrightarrow>
     st' = st\<lparr>f_mem := f_mem st'\<rparr> \<and>
     (\<forall>px<unat (f_width st). \<forall>py<R. screen_pixel st' px py = f px py (screen_pixel st px py)) \<and>
     (\<forall>a. \<not> in_block (f_framebuf st) (2 * (unat (f_width st) * R)) a \<longrightarrow> f_mem st' a = f_mem st a)"

lemma screen_upd_refl: "(\<And>px py p. f px py p = p) \<Longrightarrow> screen_upd R st st f"
  by (simp add: screen_upd_def)

lemma screen_upd_state:
  assumes "screen_upd R st st' f"
  shows "f_width st' = f_width st" "f_framebuf st' = f_framebuf st" "sFaultFontColor st' = sFaultFontColor st"
    "f_depth st' = f_depth st" "D_80108690 st' = D_80108690 st"
proof -
  have s: "st' = st\<lparr>f_mem := f_mem st'\<rparr>" using assms by (simp add: screen_upd_def)
  show "f_width st' = f_width st" "f_framebuf st' = f_framebuf st" "sFaultFontColor st' = sFaultFontColor st"
    "f_depth st' = f_depth st" "D_80108690 st' = D_80108690 st"
    by (subst s, simp)+
qed

lemma screen_upd_trans:
  assumes "screen_upd R st st1 f" "screen_upd R st1 st2 g"
    and "\<And>px py p. px < unat (f_width st) \<Longrightarrow> py < R \<Longrightarrow> h px py p = g px py (f px py p)"
  shows "screen_upd R st st2 h"
proof -
  have "st2 = st\<lparr>f_mem := f_mem st2\<rparr>"
    using assms(1,2) by (metis (no_types, lifting) fault.surjective fault.update_convs(1) screen_upd_def)
  then show ?thesis
    using assms screen_upd_state [OF assms(1)] by (simp add: screen_upd_def)
qed

text \<open>From the rows of a shape to the coordinates.\<close>

lemma screen_upd_shape:
  assumes "pixels_upd (f_framebuf st) (unat (f_width st) * R) (f_mem st) m'
      (\<lambda>k p. if \<exists>j<h. unat (f_width st) * y + x + unat (f_width st) * j \<le> k \<and>
                      k < unat (f_width st) * y + x + unat (f_width st) * j + w \<and>
                      P j (k - (unat (f_width st) * y + x + unat (f_width st) * j)) then v else p)"
    and "x + w \<le> unat (f_width st)"
  shows "screen_upd R st (st\<lparr>f_mem := m'\<rparr>)
      (\<lambda>px py p. if x \<le> px \<and> px < x + w \<and> y \<le> py \<and> py < y + h \<and> P (py - y) (px - x) then v else p)"
proof -
  let ?W = "unat (f_width st)"
  have "(\<exists>j<h. ?W * y + x + ?W * j \<le> ?W * py + px \<and> ?W * py + px < ?W * y + x + ?W * j + w \<and>
           P j (?W * py + px - (?W * y + x + ?W * j))) \<longleftrightarrow>
      x \<le> px \<and> px < x + w \<and> y \<le> py \<and> py < y + h \<and> P (py - y) (px - x)" (is "?L \<longleftrightarrow> ?R")
    if "px < ?W" for px py
  proof
    assume ?L
    then obtain j where j: "j < h" "?W * (y + j) + x \<le> ?W * py + px" "?W * py + px < ?W * (y + j) + x + w"
      "P j (?W * py + px - (?W * (y + j) + x))"
      by (auto simp: algebra_simps)
    from row_of_pixel [OF j(2,3) assms(2) that] j show ?R by auto
  next
    assume ?R
    moreover from this have e: "?W * y + x + ?W * (py - y) = ?W * py + x"
      by (simp add: algebra_simps flip: distrib_left)
    moreover have "?W * py + px - (?W * y + x + ?W * (py - y)) = px - x"
      unfolding e by simp
    ultimately show ?L by (intro exI [of _ "py - y"]) (auto simp del: add_diff_cancel_left)
  qed
  then show ?thesis
    using assms(1) by (simp add: pixels_upd_def screen_upd_def screen_pixel_def pixel_index_less)
qed

lemma Fault_DrawRec_screen:
  assumes "x + w \<le> unat (f_width st)" "y + h \<le> R" "unat (f_width st) * R < 2 ^ 31"
    and "0 < unat (f_width st)"
  shows "screen_upd R st (Fault_DrawRec (of_nat x) (of_nat y) (of_nat w) (of_nat h) st)
      (\<lambda>px py p. if x \<le> px \<and> px < x + w \<and> y \<le> py \<and> py < y + h \<and> True then 1 else p)"
proof -
  let ?W = "unat (f_width st)" and ?b = "f_framebuf st"
  let ?m = "rec_rows (nat (sint (of_nat h :: s32))) (of_nat w) (f_width st)
              (f_framebuf st + 2 * (ucast (f_width st) * of_nat y + of_nat x)) (f_mem st)"
  have small: "w < 2 ^ 31" "h < 2 ^ 31"
  proof -
    have "R \<le> ?W * R" using assms(4) by (cases "?W") auto
    then show "h < 2 ^ 31" using assms(2,3) by linarith
    have "?W < 2 ^ 16" using unsigned_less [of "f_width st", where 'a = nat] by simp
    then show "w < 2 ^ 31" using assms(1) by simp
  qed
  then have s: "nat (sint (of_nat h :: s32)) = h" "nat (sint (of_nat w :: s32)) = w" "0 \<le> sint (of_nat w :: s32)"
    by (simp_all only: sint_of_nat)
  have bound: "h = 0 \<or> ?W * y + x + (h - 1) * ?W + w \<le> ?W * R"
  proof (cases h)
    case (Suc j)
    have "?W * (y + Suc j) \<le> ?W * R" using assms(2) Suc by (intro mult_le_mono2) simp
    then show ?thesis using assms(1) Suc by (simp add: algebra_simps)
  qed simp
  have mem': "?m = rec_rows h (of_nat w) (f_width st) (?b + 2 * of_nat (?W * y + x)) (f_mem st)"
    by (simp add: s)
  have upd: "pixels_upd ?b (?W * R) (f_mem st) ?m
      (\<lambda>k p. if \<exists>j<h. ?W * y + x + ?W * j \<le> k \<and> k < ?W * y + x + ?W * j + w \<and> True then 1 else p)"
    unfolding mem' using rec_rows_pixels [of "of_nat w" "?W * R" h "?W * y + x" "f_width st" ?b "f_mem st"]
      assms(3) bound s(3) by (simp only: s(2) simp_thms)
  show ?thesis
    unfolding Fault_DrawRec_def using screen_upd_shape [OF upd assms(1)] .
qed

text \<open>\<^verbatim>\<open>Fault_DrawRec\<close> blackens exactly the pixels of its rectangle: every other pixel of
  the frame buffer, and every byte outside of it, is as before.\<close>

theorem Fault_DrawRec_fills_rectangle:
  assumes "x + w \<le> unat (f_width st)" "y + h \<le> R" "unat (f_width st) * R < 2 ^ 31"
    and "0 < unat (f_width st)"
  defines "st' \<equiv> Fault_DrawRec (of_nat x) (of_nat y) (of_nat w) (of_nat h) st"
  shows "(\<forall>px py. px < unat (f_width st) \<and> py < R \<longrightarrow>
            screen_pixel st' px py = (if x \<le> px \<and> px < x + w \<and> y \<le> py \<and> py < y + h then 1
                                      else screen_pixel st px py)) \<and>
         (\<forall>a. \<not> in_block (f_framebuf st) (2 * (unat (f_width st) * R)) a \<longrightarrow> f_mem st' a = f_mem st a)"
  using Fault_DrawRec_screen [OF assms(1-4)] by (simp add: screen_upd_def st'_def)

theorem Fault_DrawRec_fills_rectangle_witness:
  "screen_pixel (Fault_DrawRec (of_nat 22) (of_nat 16) (of_nat 276) (of_nat 24)
     \<lparr>f_mem = \<lambda>_. 0xFF, f_framebuf = 0x80300000, f_width = 320, f_depth = 16, sFaultFontColor = 0xFFFF,
      D_80108690 = 0\<rparr>) 297 39 = 1"
  using Fault_DrawRec_fills_rectangle [of 22 276 "\<lparr>f_mem = \<lambda>_. 0xFF, f_framebuf = 0x80300000, f_width = 320,
    f_depth = 16, sFaultFontColor = 0xFFFF, D_80108690 = 0\<rparr>" 16 24 240]
  by simp

subsection \<open>Glyphs\<close>

text \<open>The pixel in row \<open>i\<close> and column \<open>j\<close> of the glyph of \<open>c\<close>: eight glyphs share 16 words of the
  font, four of them interleaved bit by bit in every second word.\<close>

definition glyph :: "(nat \<Rightarrow> u32) \<Rightarrow> nat \<Rightarrow> nat \<Rightarrow> nat \<Rightarrow> bool" where
  "glyph font c i j = bit (font (c div 8 * 16 + (c AND 4) div 4 + 2 * i)) (28 + c mod 4 - 4 * j)"

lemma single_bit_test: "s < 32 \<Longrightarrow> (push_bit s 1 AND w \<noteq> (0::u32)) = bit w s"
  by (metis and.commute and_exp_eq_0_iff_not_bit push_bit_of_1)

lemma char_row_pixels:
  assumes "k0 + n \<le> N" "N \<le> 2 ^ 31" "s < 32" "4 * (n - 1) \<le> s" "n = 0 \<or> msk = push_bit s 1"
  shows "fst (char_row n msk font color (b + 2 * of_nat k0) m) = b + 2 * of_nat (k0 + n)"
    and "pixels_upd b N m (snd (char_row n msk font color (b + 2 * of_nat k0) m))
           (\<lambda>k p. if k0 \<le> k \<and> k < k0 + n \<and> bit font (s - 4 * (k - k0)) then color else p)"
  using assms(1,3,4,5)
proof (induction n arbitrary: k0 s m msk)
  case (Suc n)
  have nx: "b + 2 * of_nat k + 2 = b + 2 * of_nat (Suc k)" for k by (simp add: algebra_simps)
  have step: "n = 0 \<or> drop_bit 4 (push_bit r 1 :: u32) = push_bit (r - 4) 1" if "4 * (Suc n - 1) \<le> r" "r < 32" for r
  proof (cases "n = 0")
    case False
    with that have "4 \<le> r" by simp
    have "drop_bit 4 (push_bit r 1 :: u32) = push_bit (r - 4) 1"
      by (rule bit_word_eqI) (use \<open>4 \<le> r\<close> that(2) in \<open>auto simp: bit_simps\<close>)
    then show ?thesis ..
  qed simp
  {
    case 1
    then show ?case unfolding char_row.simps nx using step [of s]
      by (subst Suc.IH(1) [of _ "s - 4"]) (auto simp: algebra_simps)
  next
    case 2
    have m: "msk = push_bit s 1" using 2 by simp
    have upd: "pixels_upd b N m (if msk AND font \<noteq> 0 then store16 m (b + 2 * of_nat k0) color else m)
        (\<lambda>k p. if k = k0 \<and> bit font s then color else p)"
      using pixels_upd_store [of k0 N b m color] 2(1) assms(2)
      unfolding m single_bit_test [OF 2(2)] by (cases "bit font s") auto
    have sub: "s - (4 + 4 * (k - Suc k0)) = s - 4 * (k - k0)" if "Suc k0 \<le> k" for k
      using that by simp
    show ?case unfolding char_row.simps nx
    proof (rule pixels_upd_trans [OF upd Suc.IH(2) [of "Suc k0" "s - 4"]])
      fix k and p :: u16
      show "(if k0 \<le> k \<and> k < k0 + Suc n \<and> bit font (s - 4 * (k - k0)) then color else p) =
         (if Suc k0 \<le> k \<and> k < Suc k0 + n \<and> bit font (s - 4 - 4 * (k - Suc k0)) then color
          else if k = k0 \<and> bit font s then color else p)"
        using sub [of k] by (cases "Suc k0 \<le> k") auto
    qed (use 2 step [of s] m in auto)
  }
qed (auto simp: pixels_upd_def)

lemma if_disj: "(if P \<or> Q then c else p) = (if Q then c else if P then c else p)"
  by simp

lemma char_rows_pixels:
  assumes "N \<le> 2 ^ 31" "n = 0 \<or> k0 + (n - 1) * unat width + 8 \<le> N"
  shows "pixels_upd b N m (char_rows n font fp c color width (b + 2 * of_nat k0) m)
           (\<lambda>k p. if \<exists>i<n. k0 + unat width * i \<le> k \<and> k < k0 + unat width * i + 8 \<and>
                           bit (font (fp + 2 * i)) (28 + c mod 4 - 4 * (k - (k0 + unat width * i)))
                  then color else p)"
  using assms(2)
proof (induction n arbitrary: k0 fp m)
  case (Suc n)
  let ?W = "unat width" and ?msk = "push_bit (c mod 4) 0x10000000 :: u32"
  have msk: "?msk = push_bit (28 + c mod 4) 1"
    using push_bit_push_bit [of "c mod 4" 28 "1::u32"] by (simp add: add.commute)
  have s: "28 + c mod 4 < 32" "4 * (8 - 1) \<le> 28 + c mod 4"
    using pos_mod_bound [of 4 "int c"] by simp_all
  have le: "k0 + 8 \<le> N" using Suc.prems by auto
  note row = char_row_pixels [OF le assms(1) s disjI2 [OF msk], where font = "font fp" and color = color and b = b and m = m]
  have "of_nat ?W = (ucast width :: 32 word)" by simp
  then have fb: "b + 2 * of_nat (k0 + 8) + 2 * (ucast width - 8) = b + 2 * of_nat (k0 + ?W)"
    by (simp add: algebra_simps)
  have step: "char_rows (Suc n) font fp c color width (b + 2 * of_nat k0) m
      = char_rows n font (fp + 2) c color width (b + 2 * of_nat (k0 + ?W))
          (snd (char_row 8 ?msk (font fp) color (b + 2 * of_nat k0) m))"
    using row(1) by (simp only: char_rows.simps Let_def case_prod_beta fb)
  have ih: "n = 0 \<or> k0 + ?W + (n - 1) * ?W + 8 \<le> N"
    using Suc.prems by (cases n) (auto simp: algebra_simps)
  show ?case unfolding step
  proof (rule pixels_upd_trans [OF row(2) Suc.IH [OF ih]])
    fix k and p :: u16
    let ?P = "\<lambda>i. k0 + ?W * i \<le> k \<and> k < k0 + ?W * i + 8 \<and>
       bit (font (fp + 2 * i)) (28 + c mod 4 - 4 * (k - (k0 + ?W * i)))"
    have e: "k0 + ?W + ?W * i = k0 + ?W * Suc i" "fp + 2 + 2 * i = fp + 2 * Suc i" for i by auto
    have eq: "(\<exists>i<Suc n. ?P i) \<longleftrightarrow> (k0 \<le> k \<and> k < k0 + 8 \<and> bit (font fp) (28 + c mod 4 - 4 * (k - k0))) \<or>
        (\<exists>i<n. ?P (Suc i))"
      using Ex_less_Suc2 [of n ?P] by (simp only: mult_0_right add_0_right)
    show "(if \<exists>i<Suc n. ?P i then color else p) =
       (if \<exists>i<n. k0 + ?W + ?W * i \<le> k \<and> k < k0 + ?W + ?W * i + 8 \<and>
            bit (font (fp + 2 + 2 * i)) (28 + c mod 4 - 4 * (k - (k0 + ?W + ?W * i))) then color
        else if k0 \<le> k \<and> k < k0 + 8 \<and> bit (font fp) (28 + c mod 4 - 4 * (k - k0)) then color else p)"
      unfolding e eq by (rule if_disj)
  qed
qed (auto simp: pixels_upd_def)

lemma Fault_PrintChar_screen:
  assumes "x + 8 \<le> unat (f_width st)" "y + 8 \<le> R" "unat (f_width st) * R < 2 ^ 31"
  shows "screen_upd R st (Fault_PrintChar font (of_nat x) (of_nat y) c st)
      (\<lambda>px py p. if x \<le> px \<and> px < x + 8 \<and> y \<le> py \<and> py < y + 8 \<and> glyph font (of_char c) (py - y) (px - x)
                 then sFaultFontColor st else p)"
proof -
  let ?W = "unat (f_width st)" and ?b = "f_framebuf st" and ?c = "of_char c :: nat"
  let ?m = "char_rows 8 font (?c div 8 * 16 + (?c AND 4) div 4) ?c (sFaultFontColor st) (f_width st)
              (?b + 2 * (ucast (f_width st) * of_nat y + of_nat x)) (f_mem st)"
  have a: "?b + 2 * (ucast (f_width st) * of_nat y + of_nat x) = ?b + 2 * of_nat (?W * y + x)" by simp
  have "?W * (y + 8) \<le> ?W * R" using assms(2) by (intro mult_le_mono2) simp
  then have bound: "8 = (0::nat) \<or> ?W * y + x + (8 - 1) * ?W + 8 \<le> ?W * R"
    using assms(1) by (simp add: algebra_simps)
  have upd: "pixels_upd ?b (?W * R) (f_mem st) ?m
      (\<lambda>k p. if \<exists>j<8. ?W * y + x + ?W * j \<le> k \<and> k < ?W * y + x + ?W * j + 8 \<and>
                      glyph font ?c j (k - (?W * y + x + ?W * j)) then sFaultFontColor st else p)"
    unfolding glyph_def a by (rule char_rows_pixels [OF _ bound]) (use assms(3) in simp)
  show ?thesis
    unfolding Fault_PrintChar_def Fault_PrintCharImpl_def Let_def
    using screen_upd_shape [OF upd assms(1)] .
qed

text \<open>A text: the characters stand 6 pixels apart and all pixels that are set have the same colour.\<close>

definition text_pixel :: "(nat \<Rightarrow> u32) \<Rightarrow> string \<Rightarrow> nat \<Rightarrow> nat \<Rightarrow> nat \<Rightarrow> nat \<Rightarrow> bool" where
  "text_pixel font s x y px py \<longleftrightarrow>
     (\<exists>k<length s. x + 6 * k \<le> px \<and> px < x + 6 * k + 8 \<and> y \<le> py \<and> py < y + 8 \<and>
        glyph font (of_char (s ! k)) (py - y) (px - (x + 6 * k)))"

lemma callback_loop_screen:
  assumes "x + 6 * length s + 2 \<le> unat (f_width st)" "y + 8 \<le> R" "unat (f_width st) * R < 2 ^ 31"
  shows "\<exists>st'. callback_loop font (st, of_nat x, of_nat y) s = (st', of_nat (x + 6 * length s), of_nat y) \<and>
           screen_upd R st st' (\<lambda>px py p. if text_pixel font s x y px py then sFaultFontColor st else p)"
  using assms(1,3)
proof (induction s arbitrary: st x)
  case (Cons c s)
  let ?st1 = "Fault_PrintChar font (of_nat x) (of_nat y) c st"
  have one: "screen_upd R st ?st1 (\<lambda>px py p. if x \<le> px \<and> px < x + 8 \<and> y \<le> py \<and> py < y + 8 \<and>
      glyph font (of_char c) (py - y) (px - x) then sFaultFontColor st else p)"
    using Cons.prems assms(2) by (intro Fault_PrintChar_screen) auto
  note state = screen_upd_state [OF one]
  obtain st' where st': "callback_loop font (?st1, of_nat (x + 6), of_nat y) s
        = (st', of_nat (x + 6 + 6 * length s), of_nat y)"
    and rest: "screen_upd R ?st1 st' (\<lambda>px py p. if text_pixel font s (x + 6) y px py then sFaultFontColor st else p)"
    using Cons.IH [of "x + 6" ?st1] Cons.prems state by auto
  have "screen_upd R st st' (\<lambda>px py p. if text_pixel font (c # s) x y px py then sFaultFontColor st else p)"
  proof (rule screen_upd_trans [OF one rest])
    fix px py and p :: u16
    have e: "x + 6 + 6 * k = x + 6 * Suc k" for k by simp
    have "text_pixel font (c # s) x y px py \<longleftrightarrow>
        (x \<le> px \<and> px < x + 8 \<and> y \<le> py \<and> py < y + 8 \<and> glyph font (of_char c) (py - y) (px - x)) \<or>
        text_pixel font s (x + 6) y px py"
      unfolding text_pixel_def e length_Cons Ex_less_Suc2 by simp
    then show "(if text_pixel font (c # s) x y px py then sFaultFontColor st else p) =
        (if text_pixel font s (x + 6) y px py then sFaultFontColor st
         else if x \<le> px \<and> px < x + 8 \<and> y \<le> py \<and> py < y + 8 \<and> glyph font (of_char c) (py - y) (px - x)
              then sFaultFontColor st else p)"
      by simp
  qed
  with st' show ?case by (simp add: algebra_simps)
qed (auto simp: text_pixel_def intro: screen_upd_refl)

lemma Fault_Printf_screen:
  assumes "render ldtob fmt ap 0 = Some (out, ns)"
    and "x + 6 * length out + 2 \<le> unat (f_width st)" "y + 8 \<le> R" "unat (f_width st) * R < 2 ^ 31"
  shows "\<exists>st'. Fault_Printf font ldtob (of_nat x) (of_nat y) fmt ap st = Some (st', of_nat (length out)) \<and>
           screen_upd R st st' (\<lambda>px py p. if text_pixel font out x y px py then sFaultFontColor st else p)"
proof -
  obtain st' where "callback_loop font (st, of_nat x, of_nat y) out = (st', of_nat (x + 6 * length out), of_nat y)"
    "screen_upd R st st' (\<lambda>px py p. if text_pixel font out x y px py then sFaultFontColor st else p)"
    using callback_loop_screen [OF assms(2-4)] by blast
  with fault_sink.printf_renders [OF assms(1), where a = "(st, of_nat x, of_nat y)" and font = font] show ?thesis
    by (simp add: Fault_Printf_def Printf_def)
qed

end
