(* ===== verification/F32.thy ===== *)
theory F32
  imports Complex_Main Prelude "HOL-Library.Log_Nat"
begin

section \<open>Single precision arithmetic\<close>

text \<open>
  The values of the C type \<^verbatim>\<open>float\<close> as rational numbers, and the rounding of a result to 24
  significant bits, to nearest and ties to even, which every operation of the unit does.
  Overflow, subnormal results, infinities and signed zeros are outside this model: the
  definitions that use it say why their values stay clear of them.  \<open>f32_round_mono\<close> is the fact
  comparisons rest on.
\<close>

subsection \<open>Rounding\<close>

definition round_half_even :: "rat \<Rightarrow> int" where
  "round_half_even q =
     (let f = \<lfloor>q\<rfloor>; r = q - of_int f
      in if r < 1 / 2 then f else if 1 / 2 < r then f + 1 else if even f then f else f + 1)"

text \<open>\<open>flog2 q\<close>: the exponent of a positive \<open>q\<close>, \<open>2 ^ flog2 q \<le> q < 2 ^ (flog2 q + 1)\<close>.\<close>

definition flog2 :: "rat \<Rightarrow> int" where
  "flog2 q =
     (let (a, b) = quotient_of q; k = bitlen a - bitlen b
      in if 2 powi k \<le> q then k else k - 1)"

definition f32_round :: "rat \<Rightarrow> rat" where
  "f32_round q =
     (if q = 0 then 0
      else (let u = 2 powi (flog2 \<bar>q\<bar> - 23) in of_int (round_half_even (q / u)) * u))"

definition f32_add :: "rat \<Rightarrow> rat \<Rightarrow> rat" where "f32_add a b = f32_round (a + b)"
definition f32_sub :: "rat \<Rightarrow> rat \<Rightarrow> rat" where "f32_sub a b = f32_round (a - b)"
definition f32_mul :: "rat \<Rightarrow> rat \<Rightarrow> rat" where "f32_mul a b = f32_round (a * b)"
definition f32_div :: "rat \<Rightarrow> rat \<Rightarrow> rat" where "f32_div a b = f32_round (a / b)"

subsection \<open>Facts\<close>

lemma powi_less_mono: "i < j \<Longrightarrow> (2::rat) powi i < 2 powi j"
  by (rule power_int_strict_increasing) auto

lemma powi_le_mono: "i \<le> j \<Longrightarrow> (2::rat) powi i \<le> 2 powi j"
  by (rule power_int_increasing) auto

lemma flog2_bounds:
  assumes "0 < q"
  shows "2 powi (flog2 q) \<le> q" "q < 2 powi (flog2 q + 1)"
proof -
  obtain a b where ab: "quotient_of q = (a, b)" by fastforce
  have b: "0 < b" using ab by (rule quotient_of_denom_pos)
  have q: "q = of_int a / of_int b" using ab by (rule quotient_of_div)
  have a: "0 < a" using assms b unfolding q by (simp add: zero_less_divide_iff)
  define k where "k = bitlen a - bitlen b"
  have len: "(2::rat) powi (bitlen x - 1) \<le> of_int x" "(of_int x :: rat) < 2 powi bitlen x" if "0 < x" for x
  proof -
    have "2 ^ nat (bitlen x - 1) \<le> x" "x < 2 ^ nat (bitlen x)" "0 < bitlen x"
      using bitlen_bounds [OF that] bitlen_nonneg [of x] bitlen_eq_zero_iff [of x] that by linarith+
    then have "(of_int (2 ^ nat (bitlen x - 1)) :: rat) \<le> of_int x"
      "(of_int x :: rat) < of_int (2 ^ nat (bitlen x))"
      by (simp_all only: of_int_le_iff of_int_less_iff)
    then show "(2::rat) powi (bitlen x - 1) \<le> of_int x" "(of_int x :: rat) < 2 powi bitlen x"
      using \<open>0 < bitlen x\<close> by (simp_all add: power_int_def)
  qed
  have "2 powi (bitlen a - 1) / 2 powi bitlen b < q"
    using len(1) [OF a] len(2) [OF b] b unfolding q
    by (intro frac_less2) auto
  moreover have "q < 2 powi bitlen a / 2 powi (bitlen b - 1)"
    using len(2) [OF a] len(1) [OF b] a unfolding q
    by (intro frac_less) auto
  ultimately have "2 powi (k - 1) < q" "q < 2 powi (k + 1)"
    by (simp_all add: k_def power_int_diff power_int_add power_int_add_1 divide_simps)
  then show "2 powi (flog2 q) \<le> q" "q < 2 powi (flog2 q + 1)"
    by (auto simp: flog2_def ab simp flip: k_def)
qed

lemma flog2_unique: "2 powi k \<le> q \<Longrightarrow> q < 2 powi (k + 1) \<Longrightarrow> flog2 q = k"
proof -
  assume a: "2 powi k \<le> q" "q < 2 powi (k + 1)"
  then have "0 < q" by (meson less_le_trans zero_less_power_int zero_less_numeral)
  note b = flog2_bounds [OF this]
  have "k < flog2 q + 1" using a(1) b(2) powi_le_mono [of "flog2 q + 1" k] by force
  moreover have "flog2 q < k + 1" using a(2) b(1) powi_le_mono [of "k + 1" "flog2 q"] by force
  ultimately show ?thesis by simp
qed

lemma flog2_mono: "0 < p \<Longrightarrow> p \<le> q \<Longrightarrow> flog2 p \<le> flog2 q"
proof (rule ccontr)
  assume p: "0 < p" "p \<le> q" and "\<not> flog2 p \<le> flog2 q"
  then have "flog2 q + 1 \<le> flog2 p" by simp
  then have "2 powi (flog2 q + 1) \<le> (2 powi flog2 p :: rat)" by (rule powi_le_mono)
  with flog2_bounds(1) [OF p(1)] flog2_bounds(2) [of q] p show False by simp
qed

lemma round_half_even_mono: "p \<le> q \<Longrightarrow> round_half_even p \<le> round_half_even q"
proof -
  assume le: "p \<le> q"
  show ?thesis
  proof (cases "\<lfloor>p\<rfloor> = \<lfloor>q\<rfloor>")
    case True
    with le show ?thesis by (auto simp: round_half_even_def Let_def)
  next
    case False
    with floor_mono [OF le] have "\<lfloor>p\<rfloor> + 1 \<le> \<lfloor>q\<rfloor>" by simp
    moreover have "round_half_even p \<le> \<lfloor>p\<rfloor> + 1" "\<lfloor>q\<rfloor> \<le> round_half_even q"
      by (auto simp: round_half_even_def Let_def)
    ultimately show ?thesis by linarith
  qed
qed

lemma round_half_even_int [simp]: "round_half_even (of_int i) = i"
  by (simp add: round_half_even_def)

lemma round_half_even_le: "q \<le> of_int i \<Longrightarrow> round_half_even q \<le> i"
  using round_half_even_mono [of q "of_int i"] by simp

lemma round_half_even_ge: "of_int i \<le> q \<Longrightarrow> i \<le> round_half_even q"
  using round_half_even_mono [of "of_int i" q] by simp

text \<open>Rounding is monotone and leaves what has 24 bits alone.\<close>

lemma f32_round_bracket:
  assumes "0 < q"
  defines "u \<equiv> (2 :: rat) powi (flog2 q - 23)"
  shows "2 powi (flog2 q) \<le> f32_round q" "f32_round q \<le> 2 powi (flog2 q + 1)"
proof -
  have u: "0 < u" by (simp add: u_def)
  have scale: "2 powi (flog2 q) = of_int (2 ^ 23) * u" "2 powi (flog2 q + 1) = of_int (2 ^ 24) * u"
    by (simp_all add: u_def power_int_diff power_int_add_1)
  have r: "f32_round q = of_int (round_half_even (q / u)) * u"
    using assms(1) by (simp add: f32_round_def u_def Let_def)
  have q: "of_int (2 ^ 23) \<le> q / u" "q / u \<le> of_int (2 ^ 24)"
    using flog2_bounds [OF assms(1)] u unfolding scale by (simp_all add: field_simps)
  from round_half_even_ge [OF q(1)] round_half_even_le [OF q(2)]
  have "(of_int (2 ^ 23) :: rat) \<le> of_int (round_half_even (q / u))"
    "(of_int (round_half_even (q / u)) :: rat) \<le> of_int (2 ^ 24)"
    by (simp_all only: of_int_le_iff)
  then show "2 powi (flog2 q) \<le> f32_round q" "f32_round q \<le> 2 powi (flog2 q + 1)"
    unfolding scale r using u by (simp_all add: mult_right_mono)
qed

lemma f32_round_mono_pos: "0 < p \<Longrightarrow> p \<le> q \<Longrightarrow> f32_round p \<le> f32_round q"
proof -
  assume p: "0 < p" "p \<le> q"
  show ?thesis
  proof (cases "flog2 p = flog2 q")
    case True
    have "round_half_even (p / 2 powi (flog2 q - 23)) \<le> round_half_even (q / 2 powi (flog2 q - 23))"
      using p by (intro round_half_even_mono divide_right_mono) auto
    then have "(of_int (round_half_even (p / 2 powi (flog2 q - 23))) :: rat)
        \<le> of_int (round_half_even (q / 2 powi (flog2 q - 23)))"
      by (simp only: of_int_le_iff)
    then show ?thesis
      using p True by (auto simp: f32_round_def Let_def intro: mult_right_mono)
  next
    case False
    with flog2_mono [OF p] have "flog2 p + 1 \<le> flog2 q" by simp
    then have "2 powi (flog2 p + 1) \<le> (2 powi flog2 q :: rat)" by (rule powi_le_mono)
    with f32_round_bracket(2) [OF p(1)] f32_round_bracket(1) [of q] p show ?thesis by linarith
  qed
qed

lemma f32_round_pos: "0 < q \<Longrightarrow> 0 < f32_round q"
  by (rule less_le_trans [OF _ f32_round_bracket(1)]) auto

lemma f32_round_0 [simp]: "f32_round 0 = 0"
  by (simp add: f32_round_def)

lemma f32_round_mono_nonneg: "0 \<le> p \<Longrightarrow> p \<le> q \<Longrightarrow> f32_round p \<le> f32_round q"
  using f32_round_mono_pos [of p q] f32_round_pos [of q] by (cases "p = 0"; cases "q = 0") auto

text \<open>Evaluation: a result between two neighbours.\<close>

lemma f32_round_eval:
  assumes "2 powi k \<le> q" "q < 2 powi (k + 1)" "round_half_even (q / 2 powi (k - 23)) = n"
  shows "f32_round q = of_int n * 2 powi (k - 23)"
proof -
  have "0 < q" using assms(1) by (meson less_le_trans zero_less_power_int zero_less_numeral)
  then show ?thesis using flog2_unique [OF assms(1,2)] assms(3) by (simp add: f32_round_def Let_def)
qed

subsection \<open>Representable values\<close>

lemma round_half_even_minus: "round_half_even (- q) = - round_half_even q"
proof (cases "q = of_int \<lfloor>q\<rfloor>")
  case True
  then have "round_half_even q = \<lfloor>q\<rfloor>" "round_half_even (- q) = - \<lfloor>q\<rfloor>"
    by (metis round_half_even_int, metis of_int_minus round_half_even_int)
  then show ?thesis by simp
next
  case False
  then have f: "\<lfloor>- q\<rfloor> = - \<lfloor>q\<rfloor> - 1" by linarith
  show ?thesis unfolding round_half_even_def Let_def f by auto
qed

lemma f32_round_minus [simp]: "f32_round (- q) = - f32_round q"
  by (simp add: f32_round_def Let_def round_half_even_minus)

definition f32 :: "rat \<Rightarrow> bool" where
  "f32 q \<longleftrightarrow> f32_round q = q"

lemma f32_0 [simp]: "f32 0"
  by (simp add: f32_def)

lemma f32_minus [simp]: "f32 (- q) \<longleftrightarrow> f32 q"
  by (simp add: f32_def)

text \<open>A whole number of units of a power of two below 24 bits is representable.\<close>

lemma f32_units_pos:
  assumes "0 < n" "n \<le> 2 ^ 24"
  shows "f32 (of_int n * 2 powi k)"
proof -
  let ?q = "of_int n * 2 powi k :: rat"
  define l where "l = flog2 ?q"
  have q: "0 < ?q" using assms(1) by simp
  have "\<exists>i. ?q / 2 powi (l - 23) = of_int i"
  proof (cases "l \<le> k + 23")
    case True
    then have "?q / 2 powi (l - 23) = of_int n * 2 powi (k - (l - 23))" by (simp add: power_int_diff)
    also have "\<dots> = of_int (n * 2 ^ nat (k - (l - 23)))" using True by (simp add: power_int_def)
    finally show ?thesis by blast
  next
    case False
    have "(2 :: rat) powi l \<le> ?q" unfolding l_def by (rule flog2_bounds [OF q])
    also have "\<dots> \<le> of_int (2 ^ 24) * 2 powi k"
      using assms(2) by (intro mult_right_mono; (unfold of_int_le_iff)?; simp)
    also have "\<dots> = 2 powi (k + 24)" by (simp add: power_int_add)
    finally have "\<not> (2 :: rat) powi (k + 24) < 2 powi l" by simp
    then have "l \<le> k + 24" using powi_less_mono [of "k + 24" l] by force
    with False have l: "l = k + 24" by simp
    have "(2 :: rat) powi (k + 24) \<le> of_int n * 2 powi k" using flog2_bounds(1) [OF q] by (simp add: l flip: l_def)
    then have "(2 :: rat) ^ 24 \<le> of_int n" by (simp add: power_int_add)
    then have "of_int (2 ^ 24) \<le> (of_int n :: rat)" by simp
    then have "2 ^ 24 \<le> n" by (simp only: of_int_le_iff)
    with assms(2) have "n = 2 ^ 24" by simp
    then have "?q / 2 powi (l - 23) = of_int (2 ^ 23)" by (simp add: l power_int_add power_int_diff)
    then show ?thesis by blast
  qed
  then obtain i where i: "?q / 2 powi (l - 23) = of_int i" by blast
  then have "of_int i * 2 powi (l - 23) = ?q" by (simp add: field_simps)
  with i q show ?thesis by (simp add: f32_def f32_round_def Let_def flip: l_def)
qed

lemma f32_units: "\<bar>n\<bar> \<le> 2 ^ 24 \<Longrightarrow> f32 (of_int n * 2 powi k)"
  using f32_units_pos [of n k] f32_units_pos [of "- n" k] f32_minus [of "of_int n * 2 powi k"]
  by (cases "n = 0"; cases "0 < n") auto

lemma f32_int: "\<bar>n\<bar> \<le> 2 ^ 24 \<Longrightarrow> f32 (of_int n)"
  using f32_units [of n 0] by simp

lemma f32_1 [simp]: "f32 1"
  using f32_int [of 1] by simp

lemma f32_round_f32 [simp]: "f32 (f32_round q)"
proof -
  have pos: "f32 (f32_round q)" if "0 < q" for q
  proof -
    define u where "u = (2 :: rat) powi (flog2 q - 23)"
    have u: "0 < u" by (simp add: u_def)
    have r: "f32_round q = of_int (round_half_even (q / u)) * 2 powi (flog2 q - 23)"
      using that by (simp add: f32_round_def u_def Let_def)
    have "q / u \<le> of_int (2 ^ 24)"
    proof -
      have "q < of_int (2 ^ 24) * u"
        using flog2_bounds(2) [OF that] by (simp add: u_def power_int_diff power_int_add_1)
      then show ?thesis using u by (simp add: divide_le_eq)
    qed
    then have le: "round_half_even (q / u) \<le> 2 ^ 24" by (rule round_half_even_le)
    have "(0 :: rat) < of_int (round_half_even (q / u)) * u"
      using f32_round_pos [OF that] unfolding r u_def by simp
    then have "0 < round_half_even (q / u)" using u by (simp add: zero_less_mult_iff)
    with le show ?thesis unfolding r by (intro f32_units_pos)
  qed
  show ?thesis
    using pos [of q] pos [of "- q"] by (cases "q = 0"; cases "0 < q") auto
qed

lemma f32_ops [simp]: "f32 (f32_add a b)" "f32 (f32_sub a b)" "f32 (f32_mul a b)" "f32 (f32_div a b)"
  by (simp_all add: f32_add_def f32_sub_def f32_mul_def f32_div_def)

text \<open>Neutral elements and signs.\<close>

lemma f32_neutral [simp]:
  "f32_mul 0 a = 0" "f32_mul a 0 = 0" "f32 a \<Longrightarrow> f32_mul 1 a = a" "f32 a \<Longrightarrow> f32_mul a 1 = a"
  "f32 a \<Longrightarrow> f32_add a 0 = a" "f32 a \<Longrightarrow> f32_add 0 a = a" "f32 a \<Longrightarrow> f32_sub a 0 = a"
  "f32 a \<Longrightarrow> f32_sub 0 a = - a"
  by (simp_all add: f32_mul_def f32_add_def f32_sub_def f32_def)

lemma f32_mul_minus [simp]: "f32_mul (- a) b = - f32_mul a b" "f32_mul a (- b) = - f32_mul a b"
  by (simp_all add: f32_mul_def)

lemma f32_add_minus: "f32_add a (- b) = f32_sub a b" "f32_add (- b) a = f32_sub a b"
  by (simp_all add: f32_add_def f32_sub_def)

lemma f32_mul_commute: "f32_mul a b = f32_mul b a"
  by (simp add: f32_mul_def mult.commute)

lemma f32_add_commute: "f32_add a b = f32_add b a"
  by (simp add: f32_add_def add.commute)

lemma f32_div_minus [simp]: "f32_div (- a) b = - f32_div a b" "f32_div a (- b) = - f32_div a b"
  by (simp_all add: f32_div_def)

lemma f32_round_mono: "p \<le> q \<Longrightarrow> f32_round p \<le> f32_round q"
proof -
  assume le: "p \<le> q"
  consider "0 \<le> p" | "q \<le> 0" | "p < 0" "0 < q" by linarith
  then show ?thesis
  proof cases
    case 1
    then show ?thesis using le by (rule f32_round_mono_nonneg)
  next
    case 2
    then show ?thesis using le f32_round_mono_nonneg [of "- q" "- p"] by simp
  next
    case 3
    then have "0 < f32_round (- p)" "0 < f32_round q" by (auto intro: f32_round_pos simp del: f32_round_minus)
    then show ?thesis by simp
  qed
qed

text \<open>The functions of the mathematical library that exist as assembly only.\<close>

record trig =
  sinf :: "rat \<Rightarrow> rat"
  cosf :: "rat \<Rightarrow> rat"

end
