(* ===== verification/FaultInput.thy ===== *)
theory FaultInput
  imports F32
begin

section \<open>The crash screen: the key combination\<close>

text \<open>
  \<^verbatim>\<open>Fault_WaitButtonCombo\<close> and \<^verbatim>\<open>Fault_WaitInput\<close> of \<^verbatim>\<open>src/main/fault.c\<close>.  Every 16 ms the loops
  read the first controller: a \<open>sample\<close> is what \<^verbatim>\<open>pad_trigger\<close> and \<^verbatim>\<open>pad_button\<close> give then and
  the value of \<^verbatim>\<open>osGetTime\<close>.  The loops run over the list of the samples to come and return
  those they did not use, or \<^const>\<open>None\<close> when they are still waiting at its end.
\<close>

record sample =
  smp_trigger :: u16
  smp_button :: u16
  smp_time :: u64

subsection \<open>The time limit\<close>

text \<open>The clock rate is a variable the boot code sets.  The microseconds are an exact \<^verbatim>\<open>u64\<close>; the
  seconds are computed in single precision.\<close>

definition OS_CYCLES_TO_USEC_ALT :: "u64 \<Rightarrow> u64 \<Rightarrow> u64" where
  "OS_CYCLES_TO_USEC_ALT osClockRate c = c * (1000000 div 15625) div (osClockRate div 15625)"

definition input_time :: "u64 \<Rightarrow> u64 \<Rightarrow> rat" where
  "input_time osClockRate c = f32_div (f32_round (of_nat (unat (OS_CYCLES_TO_USEC_ALT osClockRate c)))) 1000000"

subsection \<open>The combination\<close>

text \<open>The locals \<^verbatim>\<open>x\<close> (the position), \<^verbatim>\<open>y\<close> (a release has to come first) and \<^verbatim>\<open>start\<close>.\<close>

record combo =
  cx :: int
  cy :: int
  cstart :: u64

definition combo_switch :: "u64 \<Rightarrow> combo \<Rightarrow> sample \<Rightarrow> combo" where
  "combo_switch osClockRate c s =
     (let x = cx c; trigger = smp_trigger s; button = smp_button s in
      if x = 0 then
        (if button = (Z_TRIG OR R_TRIG OR L_TRIG) \<and> trigger = Z_TRIG
         then c\<lparr>cx := 1, cy := 1, cstart := smp_time s\<rparr> else c)
      else if x = 1 then (if trigger = U_JPAD then c\<lparr>cx := 2\<rparr> else c\<lparr>cx := 0\<rparr>)
      else if x = 2 then (if trigger = D_CBUTTONS then c\<lparr>cx := 3, cy := 1\<rparr> else c\<lparr>cx := 0\<rparr>)
      else if x = 3 then (if trigger = U_CBUTTONS then c\<lparr>cx := 4\<rparr> else c\<lparr>cx := 0\<rparr>)
      else if x = 4 then (if trigger = D_JPAD then c\<lparr>cx := 5, cy := 1\<rparr> else c\<lparr>cx := 0\<rparr>)
      else if x = 5 then (if trigger = L_JPAD then c\<lparr>cx := 6\<rparr> else c\<lparr>cx := 0\<rparr>)
      else if x = 6 then (if trigger = L_CBUTTONS then c\<lparr>cx := 7, cy := 1\<rparr> else c\<lparr>cx := 0\<rparr>)
      else if x = 7 then (if trigger = R_CBUTTONS then c\<lparr>cx := 8\<rparr> else c\<lparr>cx := 0\<rparr>)
      else if x = 8 then (if trigger = R_JPAD then c\<lparr>cx := 9, cy := 1\<rparr> else c\<lparr>cx := 0\<rparr>)
      else if x = 9 then
        (if trigger = (A_BUTTON OR B_BUTTON) then c\<lparr>cx := 10\<rparr>
         else if trigger = A_BUTTON then c\<lparr>cx := 91\<rparr>
         else if trigger = B_BUTTON then c\<lparr>cx := 92\<rparr> else c\<lparr>cx := 0\<rparr>)
      else if x = 91 then (if trigger = B_BUTTON then c\<lparr>cx := 10\<rparr> else c\<lparr>cx := 0\<rparr>)
      else if x = 92 then (if trigger = A_BUTTON then c\<lparr>cx := 10\<rparr> else c\<lparr>cx := 0\<rparr>)
      else if x = 10 then
        (if button = (A_BUTTON OR B_BUTTON OR START_BUTTON) \<and> trigger = START_BUTTON
         then (if input_time osClockRate (smp_time s - cstart c) \<le> 50 then c\<lparr>cx := 11\<rparr> else c\<lparr>cx := 0\<rparr>)
         else c\<lparr>cx := 0\<rparr>)
      else c)"

definition combo_step :: "u64 \<Rightarrow> combo \<Rightarrow> sample \<Rightarrow> combo" where
  "combo_step osClockRate c s =
     (if smp_button s = 0 \<and> cy c = 1 then c\<lparr>cy := 0\<rparr>
      else if smp_trigger s \<noteq> 0
      then combo_switch osClockRate (if cy c = 1 then c\<lparr>cx := 0\<rparr> else c) s
      else c)"

fun combo_loop :: "u64 \<Rightarrow> combo \<Rightarrow> sample list \<Rightarrow> sample list option" where
  "combo_loop osClockRate c [] = None"
| "combo_loop osClockRate c (s # ss) =
     (let c' = combo_step osClockRate c s
      in if cx c' = 11 then Some ss else combo_loop osClockRate c' ss)"

text \<open>\<open>start\<close> is not initialised, so its first value is a parameter.\<close>

definition Fault_WaitButtonCombo :: "u64 \<Rightarrow> u64 \<Rightarrow> sample list \<Rightarrow> sample list option" where
  "Fault_WaitButtonCombo osClockRate start ss =
     combo_loop osClockRate \<lparr>cx = 0, cy = 0, cstart = start\<rparr> ss"

fun Fault_WaitInputImpl :: "sample list \<Rightarrow> sample list option" where
  "Fault_WaitInputImpl [] = None"
| "Fault_WaitInputImpl (s # ss) =
     (if smp_trigger s AND (A_BUTTON OR B_BUTTON OR START_BUTTON OR U_CBUTTONS OR L_CBUTTONS OR
                            R_CBUTTONS OR D_CBUTTONS) = 0
      then Fault_WaitInputImpl ss else Some ss)"

definition Fault_WaitInput :: "sample list \<Rightarrow> sample list option" where
  "Fault_WaitInput ss = Fault_WaitInputImpl ss"

subsection \<open>What the limit is\<close>

text \<open>The rounding to single precision gives the player up to three microseconds more than 50 s.\<close>

lemma input_time_limit:
  "input_time osClockRate c \<le> 50 \<longleftrightarrow> unat (OS_CYCLES_TO_USEC_ALT osClockRate c) \<le> 50000002"
proof -
  define n where "n = unat (OS_CYCLES_TO_USEC_ALT osClockRate c)"
  let ?t = "\<lambda>n. f32_div (f32_round (of_nat n)) 1000000"
  have mono: "?t a \<le> ?t b" if "a \<le> b" for a b
  proof -
    have "f32_round (of_nat a) \<le> f32_round (of_nat b)"
      using that by (intro f32_round_mono_nonneg) auto
    moreover have "0 \<le> f32_round (of_nat a)"
      using f32_round_pos [of "of_nat a"] by (cases "a = 0") auto
    ultimately show ?thesis
      using \<open>f32_round (of_nat a) \<le> f32_round (of_nat b)\<close>
      unfolding f32_div_def by (intro f32_round_mono_nonneg [of "_ / _" "_ / _"] divide_right_mono) simp_all
  qed
  have "f32_div (f32_round 50000002) 1000000 = 50" "50 < f32_div (f32_round 50000003) 1000000"
    by code_simp+
  then have at: "?t 50000002 = 50" "50 < ?t 50000003" by simp_all
  show ?thesis
    unfolding input_time_def n_def [symmetric]
    using mono [of n 50000002] mono [of 50000003 n] at by (cases "n \<le> 50000002") auto
qed

subsection \<open>Soundness\<close>

definition dpad_code :: "u16 list" where
  "dpad_code = [U_JPAD, D_CBUTTONS, U_CBUTTONS, D_JPAD, L_JPAD, L_CBUTTONS, R_CBUTTONS, R_JPAD]"

definition ab_codes :: "u16 list set" where
  "ab_codes = {[A_BUTTON OR B_BUTTON], [A_BUTTON, B_BUTTON], [B_BUTTON, A_BUTTON]}"

definition presses :: "sample list \<Rightarrow> sample list" where
  "presses ss = filter (\<lambda>s. smp_trigger s \<noteq> 0) ss"

definition opens_combo :: "sample \<Rightarrow> bool" where
  "opens_combo s \<longleftrightarrow> smp_trigger s = Z_TRIG \<and> smp_button s = (Z_TRIG OR R_TRIG OR L_TRIG)"

definition closes_combo :: "sample \<Rightarrow> bool" where
  "closes_combo s \<longleftrightarrow> smp_trigger s = START_BUTTON \<and> smp_button s = (A_BUTTON OR B_BUTTON OR START_BUTTON)"

text \<open>The triggers after the opening press at each position.\<close>

definition typed :: "int \<Rightarrow> u16 list \<Rightarrow> bool" where
  "typed x ts \<longleftrightarrow>
     (1 \<le> x \<and> x \<le> 9 \<and> ts = take (nat x - 1) dpad_code) \<or>
     (x = 91 \<and> ts = dpad_code @ [A_BUTTON]) \<or> (x = 92 \<and> ts = dpad_code @ [B_BUTTON]) \<or>
     (x = 10 \<and> (\<exists>ab\<in>ab_codes. ts = dpad_code @ ab))"

text \<open>The state after the presses \<open>ps\<close>.\<close>

definition combo_inv :: "combo \<Rightarrow> sample list \<Rightarrow> bool" where
  "combo_inv c ps \<longleftrightarrow>
     cx c = 0 \<or>
     (\<exists>before s0 mid. ps = before @ s0 # mid \<and> opens_combo s0 \<and> smp_time s0 = cstart c \<and>
        typed (cx c) (map smp_trigger mid))"

lemma typed_1: "typed 1 []" by (simp add: typed_def)

lemma typed_next:
  assumes "typed x ts"
  shows "x = 1 \<Longrightarrow> typed 2 (ts @ [U_JPAD])" "x = 2 \<Longrightarrow> typed 3 (ts @ [D_CBUTTONS])"
    "x = 3 \<Longrightarrow> typed 4 (ts @ [U_CBUTTONS])" "x = 4 \<Longrightarrow> typed 5 (ts @ [D_JPAD])"
    "x = 5 \<Longrightarrow> typed 6 (ts @ [L_JPAD])" "x = 6 \<Longrightarrow> typed 7 (ts @ [L_CBUTTONS])"
    "x = 7 \<Longrightarrow> typed 8 (ts @ [R_CBUTTONS])" "x = 8 \<Longrightarrow> typed 9 (ts @ [R_JPAD])"
    "x = 9 \<Longrightarrow> typed 10 (ts @ [A_BUTTON OR B_BUTTON])" "x = 9 \<Longrightarrow> typed 91 (ts @ [A_BUTTON])"
    "x = 9 \<Longrightarrow> typed 92 (ts @ [B_BUTTON])" "x = 91 \<Longrightarrow> typed 10 (ts @ [B_BUTTON])"
    "x = 92 \<Longrightarrow> typed 10 (ts @ [A_BUTTON])"
  using assms by (auto simp: typed_def dpad_code_def ab_codes_def)

definition combo_moves :: "(int \<times> u16 \<times> int) set" where
  "combo_moves = {(1, U_JPAD, 2), (2, D_CBUTTONS, 3), (3, U_CBUTTONS, 4), (4, D_JPAD, 5), (5, L_JPAD, 6),
     (6, L_CBUTTONS, 7), (7, R_CBUTTONS, 8), (8, R_JPAD, 9), (9, A_BUTTON OR B_BUTTON, 10),
     (9, A_BUTTON, 91), (9, B_BUTTON, 92), (91, B_BUTTON, 10), (92, A_BUTTON, 10)}"

lemma up_to_10:
  "(1::int) \<le> x \<Longrightarrow> x \<le> 10 \<Longrightarrow>
    x = 1 \<or> x = 2 \<or> x = 3 \<or> x = 4 \<or> x = 5 \<or> x = 6 \<or> x = 7 \<or> x = 8 \<or> x = 9 \<or> x = 10"
  by presburger

lemma combo_switch_start: "cx c \<noteq> 0 \<Longrightarrow> cstart (combo_switch r c s) = cstart c"
  by (simp add: combo_switch_def Let_def if_distrib [of cstart] cong: if_cong del: if_split)

lemma combo_switch_moves:
  assumes "cx c \<noteq> 0" "cx c \<le> 10 \<or> cx c = 91 \<or> cx c = 92" "1 \<le> cx c"
    and "cx (combo_switch r c s) \<noteq> 0" "cx (combo_switch r c s) \<noteq> 11"
  shows "(cx c, smp_trigger s, cx (combo_switch r c s)) \<in> combo_moves"
proof -
  from assms(1-3) consider "cx c = 1" | "cx c = 2" | "cx c = 3" | "cx c = 4" | "cx c = 5" | "cx c = 6"
    | "cx c = 7" | "cx c = 8" | "cx c = 9" | "cx c = 10" | "cx c = 91" | "cx c = 92"
    using up_to_10 [of "cx c"] by blast
  then show ?thesis
    using assms(4,5)
    by cases (simp_all add: combo_switch_def combo_moves_def Let_def split: if_split_asm)
qed

lemma typed_move: "typed x ts \<Longrightarrow> (x, b, x') \<in> combo_moves \<Longrightarrow> typed x' (ts @ [b])"
  using typed_next [of x ts] unfolding combo_moves_def by (elim insertE emptyE; simp)

lemma combo_inv_extend:
  assumes "combo_inv c ps" "cx c \<noteq> 0" "cstart c' = cstart c"
    and "\<And>ts. typed (cx c) ts \<Longrightarrow> typed (cx c') (ts @ [smp_trigger s])"
  shows "combo_inv c' (ps @ [s])"
proof -
  from assms(1,2) obtain before s0 mid where "ps = before @ s0 # mid" "opens_combo s0"
    "smp_time s0 = cstart c" "typed (cx c) (map smp_trigger mid)"
    by (auto simp: combo_inv_def)
  then have "ps @ [s] = before @ s0 # (mid @ [s])" "typed (cx c') (map smp_trigger (mid @ [s]))"
    using assms(4) by simp_all
  with \<open>opens_combo s0\<close> \<open>smp_time s0 = cstart c\<close> assms(3) show ?thesis
    by (auto simp: combo_inv_def simp del: map_append)
qed

lemma combo_switch_inv:
  assumes "combo_inv c ps" "cx (combo_switch r c s) \<noteq> 11"
  shows "combo_inv (combo_switch r c s) (ps @ [s])"
proof (cases "cx c = 0")
  case True
  show ?thesis
  proof (cases "opens_combo s")
    case o: True
    then have "combo_switch r c s = c\<lparr>cx := 1, cy := 1, cstart := smp_time s\<rparr>"
      using True by (simp add: combo_switch_def opens_combo_def)
    moreover have "combo_inv (c\<lparr>cx := 1, cy := 1, cstart := smp_time s\<rparr>) (ps @ [s])"
      unfolding combo_inv_def using o typed_1
      by (intro disjI2 exI [of _ ps] exI [of _ s] exI [of _ "[]"]) simp
    ultimately show ?thesis by simp
  next
    case False
    then show ?thesis using True by (auto simp: combo_switch_def opens_combo_def combo_inv_def)
  qed
next
  case False
  have known: "cx c \<le> 10 \<or> cx c = 91 \<or> cx c = 92" "1 \<le> cx c"
    using assms(1) False by (auto simp: combo_inv_def typed_def)
  show ?thesis
  proof (cases "cx (combo_switch r c s) = 0")
    case True
    then show ?thesis by (simp add: combo_inv_def)
  next
    case n0: False
    show ?thesis
    proof (rule combo_inv_extend [OF assms(1) False])
      show "cstart (combo_switch r c s) = cstart c" using False by (rule combo_switch_start)
      show "typed (cx (combo_switch r c s)) (ts @ [smp_trigger s])" if "typed (cx c) ts" for ts
        by (rule typed_move [OF that combo_switch_moves [OF False known n0 assms(2)]])
    qed
  qed
qed

lemma presses_snoc: "presses (ss @ [s]) = presses ss @ (if smp_trigger s \<noteq> 0 then [s] else [])"
  by (simp add: presses_def)

lemma combo_step_inv:
  assumes "combo_inv c (presses h)" "smp_trigger s \<noteq> 0 \<longrightarrow> smp_button s \<noteq> 0"
    and "cx (combo_step r c s) \<noteq> 11"
  shows "combo_inv (combo_step r c s) (presses (h @ [s]))"
proof (cases "smp_trigger s = 0")
  case True
  with assms(1) show ?thesis
    by (auto simp: combo_step_def presses_snoc combo_inv_def)
next
  case False
  have "combo_inv (c\<lparr>cx := 0\<rparr>) (presses h)" by (simp add: combo_inv_def)
  with assms False show ?thesis
    by (auto simp: combo_step_def presses_snoc intro!: combo_switch_inv split: if_split_asm)
qed

lemma combo_step_finishes:
  assumes "combo_inv c (presses h)" "cx c \<noteq> 11" "cx (combo_step r c s) = 11"
  shows "cx c = 10 \<and> closes_combo s \<and> input_time r (smp_time s - cstart c) \<le> 50"
  using assms(2,3)
  by (auto simp: combo_step_def combo_switch_def closes_combo_def Let_def split: if_split_asm)

lemma combo_loop_sound:
  assumes "combo_loop r c ss = Some rest" "combo_inv c (presses h)" "cx c \<noteq> 11"
    and "\<And>s. s \<in> set ss \<Longrightarrow> smp_trigger s \<noteq> 0 \<longrightarrow> smp_button s \<noteq> 0"
  shows "\<exists>h' s c'. h @ ss = h' @ s # rest \<and> combo_inv c' (presses h') \<and> cx c' = 10 \<and> closes_combo s \<and>
           input_time r (smp_time s - cstart c') \<le> 50"
  using assms
proof (induction ss arbitrary: c h)
  case (Cons s ss)
  show ?case
  proof (cases "cx (combo_step r c s) = 11")
    case True
    with Cons.prems(1) have "ss = rest" by simp
    with combo_step_finishes [OF Cons.prems(2,3) True] Cons.prems(2) show ?thesis by auto
  next
    case False
    have "combo_inv (combo_step r c s) (presses (h @ [s]))"
      using Cons.prems(2,4) False by (intro combo_step_inv) auto
    from Cons.IH [OF _ this False] Cons.prems(1,4) False show ?thesis by simp
  qed
qed simp

text \<open>the crash screen opens only for the secret combination: when the wait ends, the
  player's presses end in it.  With L and R held Z was pressed, then the eight directions in
  their order, then A and B in any order, and START while A and B were held, all within 50
  seconds (and three microseconds, by rounding) on the clock; no other press came in between.
  The samples are those of a real pad: a button that triggers is down.\<close>

theorem Fault_WaitButtonCombo_sound:
  assumes "Fault_WaitButtonCombo osClockRate start ss = Some rest"
    and "\<And>s. s \<in> set ss \<Longrightarrow> smp_trigger s \<noteq> 0 \<longrightarrow> smp_button s \<noteq> 0"
  shows "\<exists>used before s0 mid s1.
           ss = used @ rest \<and> presses used = before @ s0 # mid @ [s1] \<and>
           opens_combo s0 \<and> closes_combo s1 \<and>
           (\<exists>ab\<in>ab_codes. map smp_trigger mid = dpad_code @ ab) \<and>
           unat (OS_CYCLES_TO_USEC_ALT osClockRate (smp_time s1 - smp_time s0)) \<le> 50000002"
proof -
  let ?c = "\<lparr>cx = 0, cy = 0, cstart = start\<rparr>"
  have inv: "combo_inv ?c (presses [])" by (simp add: combo_inv_def)
  from combo_loop_sound [OF assms(1) [unfolded Fault_WaitButtonCombo_def] inv _ assms(2)]
  obtain h' s c' where h: "ss = h' @ s # rest" "combo_inv c' (presses h')" "cx c' = 10" "closes_combo s"
    "input_time osClockRate (smp_time s - cstart c') \<le> 50"
    by auto
  from h(2,3) obtain before s0 mid where m: "presses h' = before @ s0 # mid" "opens_combo s0"
    "smp_time s0 = cstart c'" "typed 10 (map smp_trigger mid)"
    by (auto simp: combo_inv_def)
  have "presses (h' @ [s]) = before @ s0 # mid @ [s]"
    using h(4) m(1) by (simp add: presses_snoc closes_combo_def button_defs)
  moreover have "\<exists>ab\<in>ab_codes. map smp_trigger mid = dpad_code @ ab"
    using m(4) by (auto simp: typed_def)
  ultimately show ?thesis
    using h m(2,3) input_time_limit [of osClockRate "smp_time s - cstart c'"]
    by (intro exI [of _ "h' @ [s]"] exI [of _ before] exI [of _ s0] exI [of _ mid] exI [of _ s]) simp
qed

subsection \<open>Completeness\<close>

text \<open>\<open>entered ks ss\<close>: the samples \<open>ss\<close> are the triggers of \<open>ks\<close> in their order with samples without
  a press between them; a trigger marked \<^const>\<open>True\<close> comes after a sample with no button down.\<close>

definition quiet :: "sample list \<Rightarrow> bool" where
  "quiet ss \<longleftrightarrow> (\<forall>s\<in>set ss. smp_trigger s = 0)"

definition released :: "sample list \<Rightarrow> bool" where
  "released ss \<longleftrightarrow> (\<exists>s\<in>set ss. smp_button s = 0)"

primrec entered :: "(bool \<times> u16) list \<Rightarrow> sample list \<Rightarrow> bool" where
  "entered [] ss \<longleftrightarrow> ss = []"
| "entered (k # ks) ss \<longleftrightarrow>
     (\<exists>idle s rest. ss = idle @ s # rest \<and> quiet idle \<and> (fst k \<longrightarrow> released idle) \<and>
        smp_trigger s = snd k \<and> smp_button s \<noteq> 0 \<and> entered ks rest)"

definition dpad_keys :: "(bool \<times> u16) list" where
  "dpad_keys = zip [True, False, True, False, True, False, True, False] dpad_code"

lemma combo_loop_quiet:
  assumes "quiet idle" "cx c \<noteq> 11" "cy c \<in> {0, 1}"
  shows "combo_loop r c (idle @ ss) = combo_loop r (c\<lparr>cy := if released idle then 0 else cy c\<rparr>) ss"
  using assms
proof (induction idle arbitrary: c)
  case (Cons s idle)
  then show ?case
    by (cases "smp_button s = 0"; cases "cy c = 1")
      (auto simp: combo_step_def quiet_def released_def Let_def)
qed (simp add: released_def)

text \<open>One key at its position.\<close>

lemma combo_loop_key:
  assumes "quiet idle" "b \<longrightarrow> released idle" "cy c = (if b then 1 else 0)" "cx c \<noteq> 11"
    and "smp_trigger s \<noteq> 0" "smp_button s \<noteq> 0" "cx (combo_switch r (c\<lparr>cy := 0\<rparr>) s) \<noteq> 11"
  shows "combo_loop r c (idle @ s # ss) = combo_loop r (combo_switch r (c\<lparr>cy := 0\<rparr>) s) ss"
proof -
  have "combo_loop r c (idle @ s # ss) = combo_loop r (c\<lparr>cy := 0\<rparr>) (s # ss)"
    using combo_loop_quiet [OF assms(1,4), of r "s # ss"] assms(2,3) by (auto split: if_split_asm)
  then show ?thesis using assms(5-7) by (simp add: combo_step_def Let_def)
qed

text \<open>\<open>follows c ks c'\<close>: the keys \<open>ks\<close> lead from \<open>c\<close> to \<open>c'\<close>.\<close>

definition press_of :: "u16 \<Rightarrow> sample" where
  "press_of b = \<lparr>smp_trigger = b, smp_button = b, smp_time = 0\<rparr>"

primrec follows :: "combo \<Rightarrow> (bool \<times> u16) list \<Rightarrow> combo \<Rightarrow> bool" where
  "follows c [] c' \<longleftrightarrow> c' = c"
| "follows c (k # ks) c' \<longleftrightarrow>
     cy c = (if fst k then 1 else 0) \<and> cx c \<notin> {0, 10, 11} \<and> snd k \<noteq> 0 \<and>
     follows (combo_switch 0 (c\<lparr>cy := 0\<rparr>) (press_of (snd k))) ks c'"

lemma combo_switch_trigger:
  "cx c \<noteq> 0 \<Longrightarrow> cx c \<noteq> 10 \<Longrightarrow> combo_switch r c s = combo_switch 0 c (press_of (smp_trigger s))"
  by (simp add: combo_switch_def press_of_def Let_def cong: if_cong del: if_split)

lemma not_11_if: "(P \<Longrightarrow> cx a \<noteq> 11) \<Longrightarrow> (\<not> P \<Longrightarrow> cx b \<noteq> 11) \<Longrightarrow> cx (if P then a else b) \<noteq> 11"
  by simp

lemma combo_switch_not_11: "cx c \<noteq> 10 \<Longrightarrow> cx c \<noteq> 11 \<Longrightarrow> cx (combo_switch r c s) \<noteq> 11"
  unfolding combo_switch_def Let_def by (intro not_11_if; (assumption | simp))

lemma combo_loop_follows:
  "entered ks ss \<Longrightarrow> follows c ks c' \<Longrightarrow> combo_loop r c (ss @ t) = combo_loop r c' t"
proof (induction ks arbitrary: c ss)
  case (Cons k ks)
  from Cons.prems(1) obtain idle s rest where e: "ss = idle @ s # rest" "quiet idle" "fst k \<longrightarrow> released idle"
    "smp_trigger s = snd k" "smp_button s \<noteq> 0" "entered ks rest"
    by auto
  let ?c1 = "combo_switch 0 (c\<lparr>cy := 0\<rparr>) (press_of (snd k))"
  from Cons.prems(2) have c: "cy c = (if fst k then 1 else 0)" "cx c \<notin> {0, 10, 11}" "snd k \<noteq> 0" "follows ?c1 ks c'"
    by simp_all
  have sw: "combo_switch r (c\<lparr>cy := 0\<rparr>) s = ?c1"
    using combo_switch_trigger [of "c\<lparr>cy := 0\<rparr>" r s] c(2) e(4) by simp
  have "cx ?c1 \<noteq> 11" using combo_switch_not_11 [of "c\<lparr>cy := 0\<rparr>"] c(2) by simp
  then have "combo_loop r c (idle @ s # (rest @ t)) = combo_loop r ?c1 (rest @ t)"
    using combo_loop_key [OF e(2,3) c(1), of s r "rest @ t"] c(2,3) e(4,5) by (simp add: sw)
  also have "\<dots> = combo_loop r c' t" by (rule Cons.IH [OF e(6) c(4)])
  finally show ?case by (simp add: e(1))
qed simp

definition ab_keys :: "(bool \<times> u16) list list" where
  "ab_keys = [[(True, A_BUTTON OR B_BUTTON)], [(True, A_BUTTON), (False, B_BUTTON)],
              [(True, B_BUTTON), (False, A_BUTTON)]]"

lemma follows_all:
  "ab \<in> set ab_keys \<Longrightarrow>
    follows \<lparr>cx = 1, cy = 1, cstart = t\<rparr> (dpad_keys @ ab) \<lparr>cx = 10, cy = 0, cstart = t\<rparr>"
  by (auto simp: ab_keys_def dpad_keys_def dpad_code_def combo_switch_def press_of_def button_defs)

lemma combo_complete:
  assumes "quiet idle0" "opens_combo s0" "ab \<in> set ab_keys" "entered (dpad_keys @ ab) mid"
    and "quiet idle1" "closes_combo s1"
    and "unat (OS_CYCLES_TO_USEC_ALT osClockRate (smp_time s1 - smp_time s0)) \<le> 50000002"
  shows "Fault_WaitButtonCombo osClockRate start (idle0 @ s0 # mid @ idle1 @ s1 # rest) = Some rest"
proof -
  let ?c0 = "\<lparr>cx = 0, cy = 0, cstart = start\<rparr>" and ?c1 = "\<lparr>cx = 1, cy = 1, cstart = smp_time s0\<rparr>"
  let ?c10 = "\<lparr>cx = 10, cy = 0, cstart = smp_time s0\<rparr>"
  have first: "combo_switch osClockRate ?c0 s0 = ?c1" "smp_trigger s0 \<noteq> 0" "smp_button s0 \<noteq> 0"
    using assms(2) by (simp_all add: opens_combo_def combo_switch_def button_defs)
  have final: "cx (combo_switch osClockRate ?c10 s1) = 11" "smp_trigger s1 \<noteq> 0" "smp_button s1 \<noteq> 0"
    using assms(6,7) by (simp_all add: closes_combo_def combo_switch_def input_time_limit button_defs)
  have "combo_loop osClockRate ?c0 (idle0 @ s0 # mid @ idle1 @ s1 # rest)
      = combo_loop osClockRate ?c1 (mid @ idle1 @ s1 # rest)"
    using combo_loop_key [OF assms(1), of False ?c0 s0 osClockRate] first by simp
  also have "\<dots> = combo_loop osClockRate ?c10 (idle1 @ s1 # rest)"
    by (rule combo_loop_follows [OF assms(4) follows_all [OF assms(3)]])
  also have "\<dots> = combo_loop osClockRate ?c10 (s1 # rest)"
    using combo_loop_quiet [OF assms(5), of ?c10] by simp
  also have "\<dots> = Some rest" using final by (simp add: combo_step_def)
  finally show ?thesis by (simp add: Fault_WaitButtonCombo_def)
qed

text \<open>and it always opens for the combination: whoever enters it as the code asks, with
  the releases it wants and whatever pauses, and within the limit, ends the wait with the
  START press.\<close>

theorem Fault_WaitButtonCombo_complete:
  assumes "quiet idle0" "opens_combo s0" "ab \<in> set ab_keys" "entered (dpad_keys @ ab) mid"
    and "quiet idle1" "closes_combo s1"
    and "unat (OS_CYCLES_TO_USEC_ALT osClockRate (smp_time s1 - smp_time s0)) \<le> 50000002"
  shows "Fault_WaitButtonCombo osClockRate start (idle0 @ s0 # mid @ idle1 @ s1 # rest) = Some rest"
  using assms by (rule combo_complete)

subsection \<open>A player\<close>

text \<open>Someone who enters it, one second a press, with the rate of the console's counter.\<close>

definition smp :: "u16 \<Rightarrow> u16 \<Rightarrow> u64 \<Rightarrow> sample" where
  "smp t b n = \<lparr>smp_trigger = t, smp_button = b, smp_time = 46875000 * n\<rparr>"

definition player_opens :: sample where
  "player_opens = smp Z_TRIG (Z_TRIG OR R_TRIG OR L_TRIG) 1"

definition player_keys :: "sample list" where
  "player_keys = [smp 0 0 2, smp U_JPAD U_JPAD 3, smp D_CBUTTONS D_CBUTTONS 4, smp 0 0 5,
     smp U_CBUTTONS U_CBUTTONS 6, smp D_JPAD D_JPAD 7, smp 0 0 8, smp L_JPAD L_JPAD 9,
     smp L_CBUTTONS L_CBUTTONS 10, smp 0 0 11, smp R_CBUTTONS R_CBUTTONS 12, smp R_JPAD R_JPAD 13,
     smp 0 0 14, smp A_BUTTON A_BUTTON 15, smp B_BUTTON (A_BUTTON OR B_BUTTON) 16]"

definition player_closes :: sample where
  "player_closes = smp START_BUTTON (A_BUTTON OR B_BUTTON OR START_BUTTON) 17"

lemma enteredI:
  "quiet idle \<Longrightarrow> (b \<longrightarrow> released idle) \<Longrightarrow> smp_trigger s = t \<Longrightarrow> smp_button s \<noteq> 0 \<Longrightarrow> entered ks rest \<Longrightarrow>
    entered ((b, t) # ks) (idle @ s # rest)"
  by (subst entered.simps) (fastforce simp del: entered.simps)

lemma entered_now:
  "smp_trigger s = t \<Longrightarrow> smp_button s \<noteq> 0 \<Longrightarrow> entered ks rest \<Longrightarrow> entered ((False, t) # ks) (s # rest)"
  using enteredI [of "[]" False s t ks rest] by (simp add: quiet_def del: entered.simps)

lemma entered_after_release:
  "smp_trigger r = 0 \<Longrightarrow> smp_button r = 0 \<Longrightarrow> smp_trigger s = t \<Longrightarrow> smp_button s \<noteq> 0 \<Longrightarrow> entered ks rest \<Longrightarrow>
    entered ((True, t) # ks) (r # s # rest)"
  using enteredI [of "[r]" True s t ks rest] by (simp add: quiet_def released_def del: entered.simps)

lemma player_enters: "entered (dpad_keys @ [(True, A_BUTTON), (False, B_BUTTON)]) player_keys"
  by (simp add: dpad_keys_def dpad_code_def player_keys_def del: entered.simps)
    (intro entered_now entered_after_release; simp add: smp_def button_defs)

lemma player_facts:
  "opens_combo player_opens" "closes_combo player_closes"
  "unat (OS_CYCLES_TO_USEC_ALT 46875000 (smp_time player_closes - smp_time player_opens)) \<le> 50000002"
  by (simp_all add: player_opens_def player_closes_def smp_def OS_CYCLES_TO_USEC_ALT_def opens_combo_def
      closes_combo_def)

theorem Fault_WaitButtonCombo_complete_witness:
  "Fault_WaitButtonCombo 46875000 0 ([] @ player_opens # player_keys @ [] @ player_closes # [smp 0 0 18])
     = Some [smp 0 0 18]"
  by (rule Fault_WaitButtonCombo_complete [OF _ player_facts(1) _ player_enters _ player_facts(2,3)])
    (simp_all add: quiet_def ab_keys_def)

theorem Fault_WaitButtonCombo_sound_witness:
  "\<exists>used before s0 mid s1. [] @ player_opens # player_keys @ [] @ player_closes # [] = used @ [] \<and>
     presses used = before @ s0 # mid @ [s1] \<and> opens_combo s0 \<and> closes_combo s1 \<and>
     (\<exists>ab\<in>ab_codes. map smp_trigger mid = dpad_code @ ab) \<and>
     unat (OS_CYCLES_TO_USEC_ALT 46875000 (smp_time s1 - smp_time s0)) \<le> 50000002"
proof (rule Fault_WaitButtonCombo_sound)
  show "Fault_WaitButtonCombo 46875000 0 ([] @ player_opens # player_keys @ [] @ player_closes # []) = Some []"
    by (rule combo_complete [OF _ player_facts(1) _ player_enters _ player_facts(2,3)])
      (simp_all add: quiet_def ab_keys_def)
next
  have "\<forall>s\<in>set (player_opens # player_keys @ [player_closes]). smp_button s = 0 \<longrightarrow> smp_trigger s = 0"
    by (simp add: player_opens_def player_keys_def player_closes_def smp_def button_defs)
  then show "smp_trigger s \<noteq> 0 \<longrightarrow> smp_button s \<noteq> 0"
    if "s \<in> set ([] @ player_opens # player_keys @ [] @ player_closes # [])" for s
    using that by auto
qed

end
