(* ===== verification/Fault.thy ===== *)
theory Fault
  imports FaultScreen FaultInput Threads Mesg StackCheck
begin

section \<open>The crash screen: panels and the fault manager\<close>

text \<open>
  The rest of \<^verbatim>\<open>src/main/fault.c\<close>: what the panels print, how the manager finds the thread that
  crashed, and \<^verbatim>\<open>Fault_ThreadEntry\<close> as a machine over the events it waits for.  A panel is a
  list of calls of \<^verbatim>\<open>Fault_Printf\<close>, \<^const>\<open>None\<close> being undefined behaviour (a name looked up
  outside of its table, a format without its argument).
\<close>

record OSThreadContext =
  c_at :: u64  c_v0 :: u64  c_v1 :: u64  c_a0 :: u64  c_a1 :: u64  c_a2 :: u64  c_a3 :: u64
  c_t0 :: u64  c_t1 :: u64  c_t2 :: u64  c_t3 :: u64  c_t4 :: u64  c_t5 :: u64  c_t6 :: u64  c_t7 :: u64
  c_s0 :: u64  c_s1 :: u64  c_s2 :: u64  c_s3 :: u64  c_s4 :: u64  c_s5 :: u64  c_s6 :: u64  c_s7 :: u64
  c_t8 :: u64  c_t9 :: u64  c_gp :: u64  c_sp :: u64  c_s8 :: u64  c_ra :: u64
  c_sr :: u32  c_pc :: u32  c_cause :: u32  c_badvaddr :: u32  c_fpcsr :: u32
  c_fp :: "nat \<Rightarrow> u32"          \<comment> \<open>\<^verbatim>\<open>fpN.f.f_even\<close>\<close>

text \<open>The overlay table \<^verbatim>\<open>D_800DA840\<close>, of which \<^verbatim>\<open>D_800DA83C\<close> entries are in use, and the record of
  the allocator, both kept by other parts of the game.\<close>

record Y511F0UnkStruct =
  ov_unk0 :: u32
  ov_unk4 :: u16
  ov_unk8 :: u32
  ov_unkC :: u32

record MallocRecord =
  mr_allocP :: u32
  mr_requestSize :: s32
  mr_totalFree :: s32
  mr_totalAlloc :: s32
  mr_blockCnt :: s32

record fault_env =
  fe_font :: "nat \<Rightarrow> u32"
  fe_ldtob :: "Pft \<Rightarrow> char \<Rightarrow> Pft"
  fe_osClockRate :: u64
  fe_osMemSize :: u32
  D_800DA83C :: s32
  D_800DA840 :: "nat \<Rightarrow> Y511F0UnkStruct"
  mallocRecord :: MallocRecord
  D_80109090 :: "u32 list"

subsection \<open>Printing\<close>

definition cstr :: "string \<Rightarrow> string" where
  "cstr s = s @ [NUL]"

type_synonym line = "s32 \<times> s32 \<times> string \<times> va_arg list"

text \<open>A sequence of calls of \<^verbatim>\<open>Fault_Printf\<close>.\<close>

primrec print_lines :: "fault_env \<Rightarrow> line list \<Rightarrow> fault \<Rightarrow> fault option" where
  "print_lines e [] st = Some st"
| "print_lines e (l # ls) st =
     (case l of (x, y, fmt, ap) \<Rightarrow>
        do { (st', ret) \<leftarrow> Fault_Printf (fe_font e) (fe_ldtob e) x y (cstr fmt) ap st;
             print_lines e ls st' })"

definition w32 :: "u64 \<Rightarrow> va_arg" where
  "w32 r = Va_word (ucast r)"

definition sExceptionNames :: "string list" where
  "sExceptionNames =
     [''Interrupt'', ''TLB modification'', ''TLB exception on load'', ''TLB exception on store'',
      ''Address error on load'', ''Address error on store'', ''Bus error on inst.'', ''Bus error on data'',
      ''System call exception'', ''Breakpoint exception'', ''Reserved instruction'', ''Coprocessor unusable'',
      ''Arithmetic overflow'', ''Trap exception'', ''Virtual coherency on inst.'',
      ''Floating point exception'', ''Watchpoint exception'', ''Virtual coherency on data'']"

definition sFpExceptionNames :: "string list" where
  "sFpExceptionNames =
     [''Unimplemented operation'', ''Invalid operation'', ''Division by zero'', ''Overflow'', ''Underflow'',
      ''Inexact operation'']"

text \<open>The index of the exception name: the code of the cause register, two codes renumbered.\<close>

definition causeStrIndex :: "u32 \<Rightarrow> nat" where
  "causeStrIndex cause =
     (let i = unat (drop_bit 2 cause AND 0x1F)
      in if i = 23 then 16 else if i = 31 then 17 else i)"

definition exception_name :: "u32 \<Rightarrow> string option" where
  "exception_name cause =
     (let i = causeStrIndex cause
      in if i < length sExceptionNames then Some (sExceptionNames ! i) else None)"

text \<open>The conversion of a \<^verbatim>\<open>float\<close> argument to the \<^verbatim>\<open>double\<close> it is passed as, on the normal numbers
  and zero, the only ones the code passes.\<close>

definition f32_bits_to_f64 :: "u32 \<Rightarrow> u64" where
  "f32_bits_to_f64 w =
     (if w = 0 then 0
      else push_bit 63 (ucast (drop_bit 31 w)) OR
           push_bit 52 (ucast (drop_bit 23 w AND 0xFF) + 896) OR push_bit 29 (ucast (w AND 0x7FFFFF)))"

definition freg_line :: "s32 \<Rightarrow> s32 \<Rightarrow> nat \<Rightarrow> u32 \<Rightarrow> line" where
  "freg_line x y index raw =
     (let exp = drop_bit 23 (raw AND 0x7F800000) - 0x7F
      in if (- 0x7E \<le>s exp \<and> exp <s 0x80) \<or> raw = 0
         then (x, y, ''F%02d:%.7e'', [Va_word (of_nat index), Va_double (f32_bits_to_f64 raw)])
         else (x, y, ''F%02d:-------------'', [Va_word (of_nat index)]))"

definition Fault_PrintFReg :: "fault_env \<Rightarrow> s32 \<Rightarrow> s32 \<Rightarrow> nat \<Rightarrow> u32 \<Rightarrow> fault \<Rightarrow> fault option" where
  "Fault_PrintFReg e x y index raw st = print_lines e [freg_line x y index raw] st"

definition FPCSR_CE :: u32 where "FPCSR_CE = 0x00020000"

fun fpcsr_cause :: "u32 \<Rightarrow> u32 \<Rightarrow> string list \<Rightarrow> string option" where
  "fpcsr_cause value flag [] = None"
| "fpcsr_cause value flag (n # ns) =
     (if value AND flag \<noteq> 0 then Some n else fpcsr_cause value (drop_bit 1 flag) ns)"

definition Fault_PrintFPCSR :: "fault_env \<Rightarrow> s32 \<Rightarrow> s32 \<Rightarrow> u32 \<Rightarrow> fault \<Rightarrow> fault option" where
  "Fault_PrintFPCSR e x y value st =
     print_lines e ((x, y, ''FPCSR:%08XH'', [Va_word value]) #
       (case fpcsr_cause value FPCSR_CE sFpExceptionNames of
          Some n \<Rightarrow> [(x + 100, y, ''(%s)'', [Va_str (cstr n)])] | None \<Rightarrow> [])) st"

subsection \<open>The panels\<close>

definition thread_header :: "fault_env \<Rightarrow> s32 \<Rightarrow> OSThreadContext \<Rightarrow> fault \<Rightarrow> fault option" where
  "thread_header e tid ctx st =
     do { name \<leftarrow> exception_name (c_cause ctx);
          print_lines e
            [(30, 20, ''THREAD:%d  (%s)'', [Va_word tid, Va_str (cstr name)]),
             (30, 29, ''PC:%08XH   SR:%08XH   VA:%08XH'',
                [Va_word (c_pc ctx), Va_word (c_sr ctx), Va_word (c_badvaddr ctx)])]
            (Fault_DrawRec 22 16 276 24 st) }"

definition register_lines :: "OSThreadContext \<Rightarrow> line list" where
  "register_lines c =
     [(30, 42, ''AT:%08XH   V0:%08XH   V1:%08XH'', [w32 (c_at c), w32 (c_v0 c), w32 (c_v1 c)]),
      (30, 51, ''A0:%08XH   A1:%08XH   A2:%08XH'', [w32 (c_a0 c), w32 (c_a1 c), w32 (c_a2 c)]),
      (30, 60, ''A3:%08XH   T0:%08XH   T1:%08XH'', [w32 (c_a3 c), w32 (c_t0 c), w32 (c_t1 c)]),
      (30, 69, ''T2:%08XH   T3:%08XH   T4:%08XH'', [w32 (c_t2 c), w32 (c_t3 c), w32 (c_t4 c)]),
      (30, 78, ''T5:%08XH   T6:%08XH   T7:%08XH'', [w32 (c_t5 c), w32 (c_t6 c), w32 (c_t7 c)]),
      (30, 87, ''S0:%08XH   S1:%08XH   S2:%08XH'', [w32 (c_s0 c), w32 (c_s1 c), w32 (c_s2 c)]),
      (30, 96, ''S3:%08XH   S4:%08XH   S5:%08XH'', [w32 (c_s3 c), w32 (c_s4 c), w32 (c_s5 c)]),
      (30, 105, ''S6:%08XH   S7:%08XH   T8:%08XH'', [w32 (c_s6 c), w32 (c_s7 c), w32 (c_t8 c)]),
      (30, 114, ''T9:%08XH   GP:%08XH   SP:%08XH'', [w32 (c_t9 c), w32 (c_gp c), w32 (c_sp c)]),
      (30, 123, ''S8:%08XH   RA:%08XH'', [w32 (c_s8 c), w32 (c_ra c)])]"

definition freg_lines :: "OSThreadContext \<Rightarrow> line list" where
  "freg_lines c =
     [freg_line 30 149 0 (c_fp c 0), freg_line 160 149 2 (c_fp c 2),
      freg_line 30 158 4 (c_fp c 4), freg_line 160 158 6 (c_fp c 6),
      freg_line 30 167 8 (c_fp c 8), freg_line 160 167 10 (c_fp c 10),
      freg_line 30 176 12 (c_fp c 12), freg_line 160 176 14 (c_fp c 14),
      freg_line 30 185 16 (c_fp c 16), freg_line 160 185 18 (c_fp c 18),
      freg_line 30 194 20 (c_fp c 20), freg_line 160 194 22 (c_fp c 22),
      freg_line 30 203 24 (c_fp c 24), freg_line 160 203 26 (c_fp c 26),
      freg_line 30 212 28 (c_fp c 28), freg_line 160 212 30 (c_fp c 30)]"

definition Fault_PrintThreadContext ::
  "fault_env \<Rightarrow> s32 \<Rightarrow> OSThreadContext \<Rightarrow> fault \<Rightarrow> fault option" where
  "Fault_PrintThreadContext e tid ctx st =
     do { st \<leftarrow> thread_header e tid ctx st;
          st \<leftarrow> print_lines e (register_lines ctx) (Fault_DrawRec 22 40 276 184 st);
          st \<leftarrow> Fault_PrintFPCSR e 30 136 (c_fpcsr ctx) st;
          print_lines e (freg_lines ctx) st }"

text \<open>The overlay panel.  \<open>entry_line\<close> is the text of an entry: where it was linked, and where it is.\<close>

definition WHITE :: u16 where "WHITE = GPACK_RGBA5551 255 255 255 1"
definition GREEN :: u16 where "GREEN = GPACK_RGBA5551 120 255 0 1"
definition YELLOW :: u16 where "YELLOW = GPACK_RGBA5551 255 255 0 1"
definition BLUE :: u16 where "BLUE = GPACK_RGBA5551 120 120 255 1"

definition entry_line :: "Y511F0UnkStruct \<Rightarrow> s32 \<Rightarrow> line" where
  "entry_line o1 y =
     (32, y, ''%08x-%08x:%08x-%08x(%04x)'',
        [Va_word (ov_unk0 o1), Va_word (ov_unk0 o1 - ov_unk8 o1 + ov_unkC o1), Va_word (ov_unk8 o1),
         Va_word (ov_unkC o1), Va_word (scast (ov_unk4 o1))])"

definition func_80070848 :: "fault_env \<Rightarrow> Y511F0UnkStruct \<Rightarrow> s32 \<Rightarrow> fault \<Rightarrow> fault option" where
  "func_80070848 e arg0 index st =
     print_lines e [entry_line arg0 (index * 8)] (st\<lparr>sFaultFontColor := WHITE\<rparr>)"

text \<open>One page: from entry \<open>i\<close> on, in lines 4 to 27; the value is the entry to go on with.\<close>

function page_loop :: "fault_env \<Rightarrow> int \<Rightarrow> nat \<Rightarrow> fault \<Rightarrow> (int \<times> fault) option" where
  "page_loop e i j st =
     (if i < sint (D_800DA83C e) \<and> j < 28
      then (if ov_unk8 (D_800DA840 e (nat i)) \<noteq> 0
            then (case func_80070848 e (D_800DA840 e (nat i)) (of_nat j) st of
                    None \<Rightarrow> None
                  | Some st' \<Rightarrow> page_loop e (i + 1) (j + 1) st')
            else page_loop e (i + 1) j st)
      else Some (i, st))"
  by pat_completeness auto
termination
  by (relation "measure (\<lambda>(e, i, j, st). nat (sint (D_800DA83C e) - i))") auto

declare page_loop.simps [simp del]

definition func_800708D4 :: "fault_env \<Rightarrow> s32 \<Rightarrow> fault \<Rightarrow> (s32 \<times> fault) option" where
  "func_800708D4 e arg0 st =
     map_option (\<lambda>(i, st'). (word_of_int i, st')) (page_loop e (sint arg0) 4 st)"

text \<open>The search for the overlay of the program counter: \<^verbatim>\<open>offset\<close>, \<^verbatim>\<open>sp44\<close> and \<^verbatim>\<open>var_t0\<close>.\<close>

definition scan_overlay :: "fault_env \<Rightarrow> u32 \<Rightarrow> nat \<Rightarrow> u32 \<times> int \<times> int \<Rightarrow> u32 \<times> int \<times> int" where
  "scan_overlay e pc i acc =
     (case acc of (offset, sp44, t0) \<Rightarrow>
        let o1 = D_800DA840 e i in
        if ov_unk8 o1 \<noteq> 0
        then (if ov_unk0 o1 \<le> pc \<and> pc < ov_unk0 o1 + ov_unkC o1 - ov_unk8 o1
              then (ov_unk8 o1 - ov_unk0 o1, int i, t0) else acc)
        else (offset, sp44, t0 + 1))"

definition scan_overlays :: "fault_env \<Rightarrow> u32 \<Rightarrow> u32 \<times> int \<times> int" where
  "scan_overlays e pc = fold (scan_overlay e pc) [0..<nat (sint (D_800DA83C e))] (0, -1, 0)"

definition func_80070988 :: "fault_env \<Rightarrow> OSThreadContext \<Rightarrow> fault \<Rightarrow> fault option" where
  "func_80070988 e ctx st =
     (let st = Fault_DrawRec 22 16 276 208 st;
          (offset, sp44, t0) = scan_overlays e (c_pc ctx)
      in do { st \<leftarrow> print_lines e
                [(28, 16, ''MAX:%d(%d)'', [Va_word (D_800DA83C e), Va_word (word_of_int t0)]),
                 (95, 16, ''PC:%08x'', [Va_word (c_pc ctx + offset)]),
                 (165, 16, ''RA:%08x'', [Va_word (ucast (c_ra ctx) + offset)]),
                 (235, 16, ''OFF:%06x'', [Va_word offset])] (st\<lparr>sFaultFontColor := GREEN\<rparr>);
              st \<leftarrow> (if 0 \<le> sp44
                    then print_lines e [entry_line (D_800DA840 e (nat sp44)) 24] (st\<lparr>sFaultFontColor := YELLOW\<rparr>)
                    else Some st);
              (i, st) \<leftarrow> func_800708D4 e (D_80108690 st) st;
              Some (st\<lparr>D_80108690 := i, sFaultFontColor := WHITE\<rparr>) })"

definition Fault_PrintDebuggerInfo :: "fault_env \<Rightarrow> fault \<Rightarrow> fault option" where
  "Fault_PrintDebuggerInfo e st =
     (let st = (Fault_DrawRec 22 16 276 208 st)\<lparr>sFaultFontColor := BLUE\<rparr>; r = mallocRecord e in
      do { st \<leftarrow> print_lines e
             [(24, 32, ''mallocRecord.allocP=%08x'', [Va_word (mr_allocP r)]),
              (24, 40, ''mallocRecord.requestSize=%d'', [Va_word (mr_requestSize r)]),
              (24, 48, ''mallocRecord.totalFree=%d'', [Va_word (mr_totalFree r)]),
              (24, 56, ''mallocRecord.totalAlloc=%d'', [Va_word (mr_totalAlloc r)]),
              (24, 64, ''mallocRecord.blockCnt=%d'', [Va_word (mr_blockCnt r)]),
              (24, 80, ''debugger.framebuf=%08x'', [Va_word (f_framebuf st)]),
              (24, 88, ''debugger.width=%d'', [Va_word (ucast (f_width st))]),
              (24, 96, ''debugger.depth=%d'', [Va_word (ucast (f_depth st))])] st;
           Some (st\<lparr>sFaultFontColor := WHITE\<rparr>) })"

text \<open>The stack: 22 rows of four words, read while they are printed.\<close>

primrec stack_words :: "fault_env \<Rightarrow> nat \<Rightarrow> s32 \<Rightarrow> s32 \<Rightarrow> ptr \<Rightarrow> fault \<Rightarrow> (ptr \<times> fault) option" where
  "stack_words e 0 x y sp st = Some (sp, st)"
| "stack_words e (Suc n) x y sp st =
     do { st \<leftarrow> print_lines e [(x, y, ''%08x'', [Va_word (load32 (f_mem st) sp)])] st;
          stack_words e n (x + 52) y (sp + 4) st }"

primrec stack_rows :: "fault_env \<Rightarrow> nat \<Rightarrow> s32 \<Rightarrow> ptr \<Rightarrow> fault \<Rightarrow> fault option" where
  "stack_rows e 0 y sp st = Some st"
| "stack_rows e (Suc n) y sp st =
     do { st \<leftarrow> print_lines e [(28, y, ''%06x'', [Va_word sp])] st;
          (sp, st) \<leftarrow> stack_words e 4 82 y sp st;
          stack_rows e n (y + 9) sp st }"

definition Fault_PrintStackTrace :: "fault_env \<Rightarrow> OSThreadContext \<Rightarrow> fault \<Rightarrow> fault option" where
  "Fault_PrintStackTrace e ctx st =
     (let sp = ucast (c_sp ctx) in
      do { st \<leftarrow> print_lines e [(36, 18, ''Stack Trace %08x'', [Va_word sp])] (Fault_DrawRec 22 16 276 208 st);
           stack_rows e 22 28 sp st })"

definition func_80070DA0 :: "fault_env \<Rightarrow> fault \<Rightarrow> fault option" where
  "func_80070DA0 e st =
     print_lines e
       ((36, 18, ''ROM DEBUG'', []) #
        map (\<lambda>i. (of_nat (i mod 4 * 52 + 82), of_nat (i div 4 * 9 + 28), ''%08x'', [Va_word (D_80109090 e ! i)]))
          [0..<16])
       (Fault_DrawRec 22 16 276 208 st)"

subsection \<open>The fault manager\<close>

record fault_mgr =
  fm_screen :: fault
  fm_kernel :: kernel
  fm_context :: "ptr \<Rightarrow> OSThreadContext"
  fm_events :: event_table
  fm_queue :: ptr                     \<comment> \<open>\<^verbatim>\<open>&debugger.queue\<close>\<close>
  fm_pending :: "u32 list"            \<comment> \<open>the messages in it: it has room for one\<close>
  fault_exit :: bool
  fault_msg_id :: u32
  fault_display_enable :: bool
  vi_black :: bool
  vi_current :: ptr                   \<comment> \<open>what \<^verbatim>\<open>osViGetCurrentFramebuffer\<close> gives\<close>
  vi_next :: ptr                      \<comment> \<open>what \<^verbatim>\<open>osViSwapBuffer\<close> was given\<close>

definition OS_PRIORITY_APPMAX :: int where "OS_PRIORITY_APPMAX = 127"
definition OS_FLAG_CPU_BREAK :: u16 where "OS_FLAG_CPU_BREAK = 1"
definition OS_FLAG_FAULT :: u16 where "OS_FLAG_FAULT = 2"
definition OS_EVENT_CPU_BREAK :: nat where "OS_EVENT_CPU_BREAK = 10"
definition OS_EVENT_FAULT :: nat where "OS_EVENT_FAULT = 12"

definition is_faulted :: "kernel \<Rightarrow> ptr \<Rightarrow> bool" where
  "is_faulted k t \<longleftrightarrow> 0 < k_pri k t \<and> k_pri k t < OS_PRIORITY_APPMAX \<and>
     k_flags k t AND (OS_FLAG_CPU_BREAK OR OS_FLAG_FAULT) \<noteq> 0"

partial_function (option) find_faulted :: "kernel \<Rightarrow> ptr \<Rightarrow> ptr option" where
  "find_faulted k t =
     (if k_pri k t = -1 then Some NULL
      else if is_faulted k t then Some t else find_faulted k (k_tlnext k t))"

definition FindFaultedThread :: "kernel \<Rightarrow> ptr option" where
  "FindFaultedThread k = find_faulted k (k_active k)"

definition Fault_ResumeThread :: "ptr \<Rightarrow> fault_mgr \<Rightarrow> fault_mgr option" where
  "Fault_ResumeThread thread s =
     (let ctx = (fm_context s thread)\<lparr>c_cause := 0, c_fpcsr := 0, c_pc := c_pc (fm_context s thread) + 4\<rparr>;
          scr = (fm_screen s)\<lparr>f_mem := store32 (f_mem (fm_screen s)) (c_pc ctx) 0x0000000D\<rparr>
      in do { k \<leftarrow> osStartThread (fm_kernel s) thread;
              Some (s\<lparr>fm_context := (fm_context s)(thread := ctx), fm_screen := scr, fm_kernel := k\<rparr>) })"

definition last_buffer :: "fault_env \<Rightarrow> ptr" where
  "last_buffer e = (fe_osMemSize e OR 0x80000000) - 2 * SCREEN_HEIGHT * SCREEN_WIDTH"

definition Fault_DisplayFramebuffer :: "fault_env \<Rightarrow> fault_mgr \<Rightarrow> fault_mgr" where
  "Fault_DisplayFramebuffer e s0 =
     (let s = s0\<lparr>vi_black := False\<rparr> in
      if 0x80100000 \<le> vi_current s
      then s\<lparr>fm_screen := (fm_screen s)\<lparr>f_framebuf := vi_current s\<rparr>\<rparr>
      else s\<lparr>fm_screen := (fm_screen s)\<lparr>f_framebuf := last_buffer e\<rparr>, vi_next := last_buffer e\<rparr>)"

definition Fault_SetFramebuffer :: "ptr \<Rightarrow> u16 \<Rightarrow> u16 \<Rightarrow> fault \<Rightarrow> fault" where
  "Fault_SetFramebuffer fb width depth st = st\<lparr>f_framebuf := fb, f_width := width, f_depth := depth\<rparr>"

text \<open>Where \<^verbatim>\<open>Fault_ThreadEntry\<close> waits: for a message, for \<^verbatim>\<open>fault_display_enable\<close>, for the
  combination, for a key below each panel, and for \<^verbatim>\<open>fault_exit\<close> at the end.  The two flags are
  volatile: the event \<open>Ev_flags\<close> is someone else writing them.  \<open>Ev_timer\<close> is the end of a sleep
  or one turn of a busy loop.\<close>

datatype fault_pc =
    F_Recv
  | F_WaitDisplay ptr
  | F_Combo ptr combo
  | F_Overlays ptr
  | F_Debugger ptr
  | F_Context ptr
  | F_Rom ptr
  | F_Stack ptr
  | F_Exit ptr

datatype fault_event = Ev_mesg u32 | Ev_sample sample | Ev_timer | Ev_flags bool bool

definition FAULT_MSG_CPU_BREAK :: u32 where "FAULT_MSG_CPU_BREAK = 1"
definition FAULT_MSG_FAULT :: u32 where "FAULT_MSG_FAULT = 2"
definition FAULT_MSG_UNK :: u32 where "FAULT_MSG_UNK = 3"
definition FAULT_MSG_HUNG_UP :: u32 where "FAULT_MSG_HUNG_UP = 4"

definition combo_start :: combo where
  "combo_start = \<lparr>cx = 0, cy = 0, cstart = 0\<rparr>"

definition key_pressed :: "sample \<Rightarrow> bool" where
  "key_pressed s \<longleftrightarrow> Fault_WaitInput [s] \<noteq> None"

type_synonym fault_state = "fault_pc \<times> fault_mgr"

definition on_screen ::
  "(fault \<Rightarrow> fault option) \<Rightarrow> fault_pc \<Rightarrow> fault_mgr \<Rightarrow> fault_state option" where
  "on_screen f pc s = map_option (\<lambda>scr. (pc, s\<lparr>fm_screen := scr\<rparr>)) (f (fm_screen s))"

definition fault_loop_head :: "fault_mgr \<Rightarrow> fault_mgr" where
  "fault_loop_head s =
     s\<lparr>fm_events :=
         osSetEventMesg (osSetEventMesg (fm_events s) OS_EVENT_CPU_BREAK (fm_queue s) FAULT_MSG_CPU_BREAK)
           OS_EVENT_FAULT (fm_queue s) FAULT_MSG_FAULT\<rparr>"

text \<open>A message that comes while the thread is busy waits in the queue, when there is room.\<close>

definition fault_posted :: "u32 \<Rightarrow> fault_mgr \<Rightarrow> fault_mgr" where
  "fault_posted msg s = (if fm_pending s = [] then s\<lparr>fm_pending := [msg]\<rparr> else s)"

definition await_display :: "ptr \<Rightarrow> fault_mgr \<Rightarrow> fault_pc" where
  "await_display t s = (if fault_display_enable s then F_Combo t combo_start else F_WaitDisplay t)"

definition fault_received :: "u32 \<Rightarrow> fault_mgr \<Rightarrow> fault_state option" where
  "fault_received msg s0 =
     (let s = s0\<lparr>fault_msg_id :=
                 (if msg = FAULT_MSG_CPU_BREAK then FAULT_MSG_CPU_BREAK
                  else if msg = FAULT_MSG_FAULT then FAULT_MSG_FAULT else FAULT_MSG_UNK)\<rparr>
      in do { t \<leftarrow> (if k_faulted (fm_kernel s) = NULL then FindFaultedThread (fm_kernel s)
                    else Some (k_faulted (fm_kernel s)));
              Some (if t = NULL then (F_Recv, s) else (await_display t s, s)) })"

text \<open>The \<^verbatim>\<open>osRecvMesg\<close> of the loop: it takes the message in the queue, or blocks.\<close>

definition fault_recv :: "fault_mgr \<Rightarrow> fault_state option" where
  "fault_recv s =
     (case fm_pending s of
        [] \<Rightarrow> Some (F_Recv, s)
      | msg # msgs \<Rightarrow> fault_received msg (s\<lparr>fm_pending := msgs\<rparr>))"

definition first_page :: "fault_env \<Rightarrow> ptr \<Rightarrow> fault_mgr \<Rightarrow> fault_state option" where
  "first_page e t s0 =
     (let s = Fault_DisplayFramebuffer e s0
      in on_screen (\<lambda>scr. func_80070988 e (fm_context s t) (scr\<lparr>D_80108690 := 0\<rparr>)) (F_Overlays t) s)"

fun fault_turn :: "fault_env \<Rightarrow> fault_event \<Rightarrow> fault_state \<Rightarrow> fault_state option" where
  "fault_turn e (Ev_flags d x) (pc, s) = Some (pc, s\<lparr>fault_display_enable := d, fault_exit := x\<rparr>)"
| "fault_turn e (Ev_mesg msg) (F_Recv, s) = fault_received msg s"
| "fault_turn e Ev_timer (F_WaitDisplay t, s) = Some (await_display t s, s)"
| "fault_turn e (Ev_sample sm) (F_Combo t c, s) =
     (let c' = combo_step (fe_osClockRate e) c sm
      in if cx c' = 11 then first_page e t s else Some (F_Combo t c', s))"
| "fault_turn e (Ev_sample sm) (F_Overlays t, s) =
     (if \<not> key_pressed sm then Some (F_Overlays t, s)
      else if D_80108690 (fm_screen s) <s D_800DA83C e
      then on_screen (func_80070988 e (fm_context s t)) (F_Overlays t) s
      else on_screen (Fault_PrintDebuggerInfo e) (F_Debugger t) s)"
| "fault_turn e (Ev_sample sm) (F_Debugger t, s) =
     (if \<not> key_pressed sm then Some (F_Debugger t, s)
      else on_screen (Fault_PrintThreadContext e (word_of_int (k_id (fm_kernel s) t)) (fm_context s t))
             (F_Context t) s)"
| "fault_turn e (Ev_sample sm) (F_Context t, s) =
     (if \<not> key_pressed sm then Some (F_Context t, s) else on_screen (func_80070DA0 e) (F_Rom t) s)"
| "fault_turn e (Ev_sample sm) (F_Rom t, s) =
     (if \<not> key_pressed sm then Some (F_Rom t, s)
      else on_screen (Fault_PrintStackTrace e (fm_context s t)) (F_Stack t) s)"
| "fault_turn e (Ev_sample sm) (F_Stack t, s) =
     (if \<not> key_pressed sm then Some (F_Stack t, s)
      else if fault_exit s then Some (F_Exit t, s) else first_page e t s)"
| "fault_turn e Ev_timer (F_Exit t, s) =
     (if fault_exit s then do { s \<leftarrow> Fault_ResumeThread t s; fault_recv (fault_loop_head s) }
      else Some (F_Exit t, s))"
| "fault_turn e (Ev_mesg msg) (pc, s) = Some (pc, fault_posted msg s)"
| "fault_turn e ev st = Some st"

primrec fault_run :: "fault_env \<Rightarrow> fault_event list \<Rightarrow> fault_state \<Rightarrow> fault_state option" where
  "fault_run e [] st = Some st"
| "fault_run e (ev # evs) st =
     (case fault_turn e ev st of None \<Rightarrow> None | Some st' \<Rightarrow> fault_run e evs st')"

definition Fault_ThreadEntry :: "fault_env \<Rightarrow> fault_event list \<Rightarrow> fault_mgr \<Rightarrow> fault_state option" where
  "Fault_ThreadEntry e evs s = do { st \<leftarrow> fault_recv (fault_loop_head s); fault_run e evs st }"

text \<open>The start: the addresses of the objects of the file, in the order the linker placed them, are a
  parameter.\<close>

record fault_objects =
  fo_thread :: ptr                    \<comment> \<open>\<^verbatim>\<open>&debugger.thread\<close>\<close>
  fo_stack :: ptr                     \<comment> \<open>\<^verbatim>\<open>sFaultStack\<close>\<close>
  fo_stack_info :: ptr                \<comment> \<open>\<^verbatim>\<open>&sFaultStackInfo\<close>\<close>
  fo_name :: ptr                      \<comment> \<open>the string \<^verbatim>\<open>"fault"\<close>\<close>

definition Y_THREAD_ID_FAULT :: int where "Y_THREAD_ID_FAULT = 2"
definition Y_PRIORITY_FAULT :: int where "Y_PRIORITY_FAULT = OS_PRIORITY_APPMAX"

definition Fault_Init ::
  "fault_env \<Rightarrow> fault_objects \<Rightarrow> stacks \<Rightarrow> fault_mgr \<Rightarrow> (stacks \<times> mesgq \<times> fault_mgr) option" where
  "Fault_Init e fo stk s0 =
     (let scr = Fault_SetFramebuffer (last_buffer e) (ucast SCREEN_WIDTH) 16 (fm_screen s0);
          (k, mq) = osCreateMesgQueue (fm_kernel s0) (fm_queue s0) [0] 1;
          stackTop = fo_stack fo + 0x400
      in do { (stk, m) \<leftarrow> StackCheck_Init stk (f_mem scr) (fo_stack_info fo) (fo_stack fo) stackTop 0 0x100 (fo_name fo);
              k \<leftarrow> osStartThread (osCreateThread k (fo_thread fo) Y_THREAD_ID_FAULT Y_PRIORITY_FAULT) (fo_thread fo);
              Some (stk, mq, s0\<lparr>fault_display_enable := True, fm_screen := scr\<lparr>f_mem := m\<rparr>,
                                 fm_kernel := k, fm_pending := []\<rparr>) })"

text \<open>\<^verbatim>\<open>Fault_Sleep\<close> computes the cycles in 64 bits: the product of the sign-extended argument and the
  clock rate, divided by 1000.\<close>

definition Fault_Sleep_cycles :: "u64 \<Rightarrow> s32 \<Rightarrow> u64" where
  "Fault_Sleep_cycles osClockRate ms = (scast ms * osClockRate) div 1000"

text \<open>\<^verbatim>\<open>Fault_HungUp\<close>, which waits the same way and then repeats its message every second.\<close>

datatype hung_pc = H_WaitDisplay | H_Combo combo | H_Shown

definition hung_show :: "fault_env \<Rightarrow> string \<Rightarrow> s32 \<Rightarrow> fault_mgr \<Rightarrow> (hung_pc \<times> fault_mgr) option" where
  "hung_show e file lineno s0 =
     (let s = Fault_DisplayFramebuffer e s0
      in map_option (\<lambda>scr. (H_Shown, s\<lparr>fm_screen := scr\<rparr>))
           (print_lines e [(30, 20, ''HungUp %s:%d'', [Va_str (cstr file), Va_word lineno])]
              (Fault_DrawRec 22 16 276 24 (fm_screen s))))"

definition hung_await :: "fault_mgr \<Rightarrow> hung_pc" where
  "hung_await s = (if fault_display_enable s then H_Combo combo_start else H_WaitDisplay)"

definition Fault_HungUp :: "fault_mgr \<Rightarrow> hung_pc \<times> fault_mgr" where
  "Fault_HungUp s = (hung_await s, s\<lparr>fault_msg_id := FAULT_MSG_HUNG_UP\<rparr>)"

fun hung_turn ::
  "fault_env \<Rightarrow> string \<Rightarrow> s32 \<Rightarrow> fault_event \<Rightarrow> hung_pc \<times> fault_mgr \<Rightarrow> (hung_pc \<times> fault_mgr) option" where
  "hung_turn e file lineno (Ev_flags d x) (pc, s) = Some (pc, s\<lparr>fault_display_enable := d, fault_exit := x\<rparr>)"
| "hung_turn e file lineno Ev_timer (H_WaitDisplay, s) = Some (hung_await s, s)"
| "hung_turn e file lineno (Ev_sample sm) (H_Combo c, s) =
     (let c' = combo_step (fe_osClockRate e) c sm
      in if cx c' = 11 then hung_show e file lineno s else Some (H_Combo c', s))"
| "hung_turn e file lineno Ev_timer (H_Shown, s) = hung_show e file lineno s"
| "hung_turn e file lineno ev st = Some st"

subsection \<open>The guard\<close>

definition samples_of :: "fault_event list \<Rightarrow> sample list" where
  "samples_of evs = concat (map (\<lambda>ev. case ev of Ev_sample s \<Rightarrow> [s] | _ \<Rightarrow> []) evs)"

lemma samples_of_simps [simp]:
  "samples_of [] = []" "samples_of (xs @ ys) = samples_of xs @ samples_of ys"
  "samples_of [Ev_sample s] = [s]" "samples_of [Ev_mesg m] = []" "samples_of [Ev_timer] = []"
  "samples_of [Ev_flags d x] = []"
  by (simp_all add: samples_of_def)

text \<open>The combination is among the presses.\<close>

definition unlocked :: "u64 \<Rightarrow> sample list \<Rightarrow> bool" where
  "unlocked rate ps \<longleftrightarrow>
     (\<exists>before s0 mid s1 after. ps = before @ s0 # mid @ s1 # after \<and> opens_combo s0 \<and> closes_combo s1 \<and>
        (\<exists>ab\<in>ab_codes. map smp_trigger mid = dpad_code @ ab) \<and>
        unat (OS_CYCLES_TO_USEC_ALT rate (smp_time s1 - smp_time s0)) \<le> 50000002)"

lemma unlocked_append: "unlocked r ps \<Longrightarrow> unlocked r (ps @ qs)"
  unfolding unlocked_def by (metis append.assoc append_Cons)

lemma presses_append: "presses (xs @ ys) = presses xs @ presses ys"
  by (simp add: presses_def)

lemma combo_finish_unlocks:
  assumes "combo_inv c (presses h)" "cx c \<noteq> 11" "cx (combo_step r c s) = 11"
  shows "unlocked r (presses (h @ [s]))"
proof -
  note f = combo_step_finishes [OF assms]
  with assms(1) obtain before s0 mid where m: "presses h = before @ s0 # mid" "opens_combo s0"
    "smp_time s0 = cstart c" "typed 10 (map smp_trigger mid)"
    by (auto simp: combo_inv_def)
  have "presses (h @ [s]) = before @ s0 # mid @ s # []"
    using f m(1) by (simp add: presses_snoc closes_combo_def button_defs)
  moreover have "\<exists>ab\<in>ab_codes. map smp_trigger mid = dpad_code @ ab" using m(4) by (auto simp: typed_def)
  ultimately show ?thesis
    using f m(2,3) input_time_limit [of r "smp_time s - cstart c"] unfolding unlocked_def by metis
qed

text \<open>What a player or a debugger can see of the machine: the memory with the frame buffer and its
  parameters, the picture on the video interface, the threads and their contexts, the queue.\<close>

definition untouched :: "fault_mgr \<Rightarrow> fault_mgr \<Rightarrow> bool" where
  "untouched s s' \<longleftrightarrow>
     fm_screen s' = fm_screen s \<and> vi_black s' = vi_black s \<and> vi_current s' = vi_current s \<and>
     vi_next s' = vi_next s \<and> fm_kernel s' = fm_kernel s \<and> fm_context s' = fm_context s \<and>
     fm_queue s' = fm_queue s"

definition guarded :: "fault_mgr \<Rightarrow> sample list \<Rightarrow> fault_state \<Rightarrow> bool" where
  "guarded s0 h st \<longleftrightarrow>
     untouched s0 (snd st) \<and>
     (case fst st of
        F_Recv \<Rightarrow> True
      | F_WaitDisplay t \<Rightarrow> True
      | F_Combo t c \<Rightarrow> combo_inv c (presses h) \<and> cx c \<noteq> 11
      | _ \<Rightarrow> False)"

lemma combo_start_inv: "combo_inv combo_start ps" "cx combo_start \<noteq> 11"
  by (simp_all add: combo_inv_def combo_start_def)

lemma combo_inv_more: "combo_inv c (presses h) \<Longrightarrow> presses s = [] \<Longrightarrow> combo_inv c (presses (h @ s))"
  by (simp add: presses_append)

lemma guarded_received:
  assumes "untouched s0 s" "fault_received m s = Some st'"
  shows "guarded s0 h st'"
  using assms
  by (auto simp: guarded_def untouched_def fault_received_def Let_def bind_eq_Some_conv await_display_def
      combo_start_inv split: if_split_asm)

lemma guarded_turn:
  assumes "guarded s0 h st" "fault_turn e ev st = Some st'"
    and "\<And>s. ev = Ev_sample s \<Longrightarrow> smp_trigger s \<noteq> 0 \<longrightarrow> smp_button s \<noteq> 0"
  shows "guarded s0 (h @ samples_of [ev]) st' \<or> unlocked (fe_osClockRate e) (presses (h @ samples_of [ev]))"
proof -
  obtain pc s where st: "st = (pc, s)" by fastforce
  have u: "untouched s0 s" using assms(1) by (simp add: st guarded_def)
  show ?thesis
  proof (cases ev)
    case (Ev_mesg m)
    show ?thesis
    proof (cases "pc = F_Recv")
      case True
      with guarded_received [OF u] assms(2) show ?thesis by (simp add: st Ev_mesg)
    next
      case False
      then show ?thesis using assms(1,2)
        by (cases pc) (auto simp: st Ev_mesg guarded_def untouched_def fault_posted_def split: if_split_asm)
    qed
  next
    case Ev_timer
    then show ?thesis using assms(1,2)
      by (cases pc) (auto simp: st guarded_def await_display_def combo_start_inv split: if_split_asm)
  next
    case (Ev_flags d x)
    then show ?thesis using assms(1,2)
      by (auto simp: st guarded_def untouched_def split: fault_pc.splits)
  next
    case (Ev_sample sm)
    show ?thesis
    proof (cases "\<exists>t c. pc = F_Combo t c")
      case True
      then obtain t c where pc: "pc = F_Combo t c" by blast
      with assms(1) have c: "combo_inv c (presses h)" "cx c \<noteq> 11" by (simp_all add: st guarded_def)
      show ?thesis
      proof (cases "cx (combo_step (fe_osClockRate e) c sm) = 11")
        case True
        with combo_finish_unlocks [OF c] show ?thesis by (simp add: Ev_sample)
      next
        case False
        with combo_step_inv [OF c(1) assms(3) [OF Ev_sample] False] assms(2) u show ?thesis
          by (auto simp: Ev_sample st pc guarded_def)
      qed
    qed (use assms(1,2) in \<open>cases pc; auto simp: st Ev_sample guarded_def\<close>)
  qed
qed

lemma guarded_run:
  assumes "fault_run e evs st = Some st'" "guarded s0 h st"
    and "\<And>s. Ev_sample s \<in> set evs \<Longrightarrow> smp_trigger s \<noteq> 0 \<longrightarrow> smp_button s \<noteq> 0"
  shows "guarded s0 (h @ samples_of evs) st' \<or> unlocked (fe_osClockRate e) (presses (h @ samples_of evs))"
  using assms
proof (induction evs arbitrary: st h)
  case (Cons ev evs)
  from Cons.prems(1) obtain st1 where t: "fault_turn e ev st = Some st1" "fault_run e evs st1 = Some st'"
    by (auto split: option.splits)
  have s: "samples_of (ev # evs) = samples_of [ev] @ samples_of evs" by (simp add: samples_of_def)
  from guarded_turn [OF Cons.prems(2) t(1)] Cons.prems(3)
  consider "guarded s0 (h @ samples_of [ev]) st1" | "unlocked (fe_osClockRate e) (presses (h @ samples_of [ev]))"
    by auto
  then show ?case
  proof cases
    case 1
    from Cons.IH [OF t(2) this] Cons.prems(3) show ?thesis by (simp add: s)
  next
    case 2
    from unlocked_append [OF this, of "presses (samples_of evs)"] show ?thesis
      by (simp add: s presses_append)
  qed
qed simp

lemma guarded_start:
  assumes "fault_recv (fault_loop_head s) = Some st"
  shows "guarded s [] st"
proof (cases "fm_pending s")
  case Nil
  with assms show ?thesis by (auto simp: fault_recv_def fault_loop_head_def guarded_def untouched_def)
next
  case (Cons m ms)
  then have "fault_received m ((fault_loop_head s)\<lparr>fm_pending := ms\<rparr>) = Some st"
    using assms by (simp add: fault_recv_def fault_loop_head_def)
  then show ?thesis by (rule guarded_received [rotated]) (simp add: untouched_def fault_loop_head_def)
qed

text \<open>Claim C14: a crash leaves the picture and the machine alone until the secret combination was
  entered: whatever messages, timers, flags and key presses the manager got from its entry on, if
  the memory that it draws into, the parameters of the frame buffer, the blanking or the buffers of
  the video interface, the threads or their saved contexts have changed, the combination is among
  the presses.  What the manager does change before that are variables of its own, which the model
  keeps in other fields: its two entries of the event table, \<^verbatim>\<open>fault_msg_id\<close>, the message in
  its queue, and the copy of the pad of the loop that waits.\<close>

theorem crash_screen_is_guarded:
  assumes "Fault_ThreadEntry e evs s = Some (pc, s')"
    and "\<And>sm. Ev_sample sm \<in> set evs \<Longrightarrow> smp_trigger sm \<noteq> 0 \<longrightarrow> smp_button sm \<noteq> 0"
    and "fm_screen s' \<noteq> fm_screen s \<or> vi_black s' \<noteq> vi_black s \<or> vi_current s' \<noteq> vi_current s \<or>
         vi_next s' \<noteq> vi_next s \<or> fm_kernel s' \<noteq> fm_kernel s \<or> fm_context s' \<noteq> fm_context s"
  shows "unlocked (fe_osClockRate e) (presses (samples_of evs))"
proof -
  from assms(1) obtain st where "fault_recv (fault_loop_head s) = Some st" "fault_run e evs st = Some (pc, s')"
    by (auto simp: Fault_ThreadEntry_def bind_eq_Some_conv)
  from guarded_run [OF this(2) guarded_start [OF this(1)] assms(2)] assms(3) show ?thesis
    by (auto simp: guarded_def untouched_def)
qed

subsection \<open>The faulted thread\<close>

text \<open>\<open>active_from k a ts\<close>: the active list from \<open>a\<close> on holds the threads \<open>ts\<close>.\<close>

primrec active_from :: "kernel \<Rightarrow> ptr \<Rightarrow> ptr list \<Rightarrow> bool" where
  "active_from k a [] \<longleftrightarrow> k_pri k a = -1"
| "active_from k a (t # ts) \<longleftrightarrow> a = t \<and> k_pri k t \<noteq> -1 \<and> active_from k (k_tlnext k t) ts"

lemma find_faulted_list:
  "active_from k a ts \<Longrightarrow>
    find_faulted k a = Some (case find (is_faulted k) ts of Some t \<Rightarrow> t | None \<Rightarrow> NULL)"
  by (induction ts arbitrary: a) (subst find_faulted.simps; simp)+

text \<open>the search for the crashed thread returns, and with the first thread of the active list
  that has an application's priority and a break or fault flag, or with null when there is none.\<close>

theorem FindFaultedThread_finds_first:
  assumes "active_from k (k_active k) ts"
  shows "FindFaultedThread k = Some (case find (is_faulted k) ts of Some t \<Rightarrow> t | None \<Rightarrow> NULL)"
  unfolding FindFaultedThread_def using assms by (rule find_faulted_list)

definition crashed_kernel :: kernel where
  "crashed_kernel = sample_kernel\<lparr>k_tlnext := (\<lambda>_. 0)(0x100 := 0x200, 0x200 := 0x300, 0x300 := 0x10),
     k_flags := (\<lambda>_. 0)(0x200 := 2, 0x300 := 1), k_active := 0x100\<rparr>"

theorem FindFaultedThread_finds_first_witness:
  "FindFaultedThread crashed_kernel = Some 0x200"
proof -
  have "active_from crashed_kernel (k_active crashed_kernel) [0x100, 0x200, 0x300]"
    by (simp add: crashed_kernel_def sample_kernel_def)
  from FindFaultedThread_finds_first [OF this] show ?thesis
    by (simp add: is_faulted_def crashed_kernel_def sample_kernel_def OS_PRIORITY_APPMAX_def
        OS_FLAG_CPU_BREAK_def OS_FLAG_FAULT_def)
qed

subsection \<open>The overlay pages\<close>

definition overlay_text :: "Y511F0UnkStruct \<Rightarrow> string" where
  "overlay_text o1 =
     hex_text 8 (CHR ''x'') (ov_unk0 o1) @ ''-'' @
     hex_text 8 (CHR ''x'') (ov_unk0 o1 - ov_unk8 o1 + ov_unkC o1) @ '':'' @
     hex_text 8 (CHR ''x'') (ov_unk8 o1) @ ''-'' @ hex_text 8 (CHR ''x'') (ov_unkC o1) @ ''('' @
     hex_text 4 (CHR ''x'') (scast (ov_unk4 o1)) @ '')''"

lemma length_overlay_text: "length (overlay_text o1) \<le> 45"
  using length_hex_text [of 8 "CHR ''x''" "ov_unk0 o1"]
    length_hex_text [of 8 "CHR ''x''" "ov_unk0 o1 - ov_unk8 o1 + ov_unkC o1"]
    length_hex_text [of 8 "CHR ''x''" "ov_unk8 o1"] length_hex_text [of 8 "CHR ''x''" "ov_unkC o1"]
    length_hex_text [of 4 "CHR ''x''" "scast (ov_unk4 o1)"]
  by (simp add: overlay_text_def)

lemma render_overlay:
  "render ldtob (cstr ''%08x-%08x:%08x-%08x(%04x)'') [Va_word a, Va_word b, Va_word c, Va_word d, Va_word e] n
     = Some (hex_text 8 (CHR ''x'') a @ ''-'' @ hex_text 8 (CHR ''x'') b @ '':'' @ hex_text 8 (CHR ''x'') c @
         ''-'' @ hex_text 8 (CHR ''x'') d @ ''('' @ hex_text 4 (CHR ''x'') e @ '')'', [])"
proof -
  note x8 = render_hex [where kc = "CHR ''8''" and k = 8 and code = "CHR ''x''"]
  have 1: "render ldtob ('')'' @ [NUL]) [] n = Some ('')'', [])" for n
    by (rule render_end) simp
  have 2: "render ldtob (''(%04x)'' @ [NUL]) [Va_word e] n = Some (''('' @ hex_text 4 (CHR ''x'') e @ '')'', [])" for n
    using render_hex [where kc = "CHR ''4''" and k = 4 and code = "CHR ''x''", OF _ _ _ 1, of "''(%04x)'' @ [NUL]" "''(''"] by simp
  have 3: "render ldtob (''-%08x(%04x)'' @ [NUL]) [Va_word d, Va_word e] n
     = Some (''-'' @ hex_text 8 (CHR ''x'') d @ ''('' @ hex_text 4 (CHR ''x'') e @ '')'', [])" for n
    using x8 [OF _ _ _ 2, of "''-%08x(%04x)'' @ [NUL]" "''-''"] by simp
  have 4: "render ldtob ('':%08x-%08x(%04x)'' @ [NUL]) [Va_word c, Va_word d, Va_word e] n
     = Some ('':'' @ hex_text 8 (CHR ''x'') c @ ''-'' @ hex_text 8 (CHR ''x'') d @ ''('' @ hex_text 4 (CHR ''x'') e @ '')'', [])" for n
    using x8 [OF _ _ _ 3, of "'':%08x-%08x(%04x)'' @ [NUL]" "'':''"] by simp
  have 5: "render ldtob (''-%08x:%08x-%08x(%04x)'' @ [NUL]) [Va_word b, Va_word c, Va_word d, Va_word e] n
     = Some (''-'' @ hex_text 8 (CHR ''x'') b @ '':'' @ hex_text 8 (CHR ''x'') c @ ''-'' @ hex_text 8 (CHR ''x'') d @ ''('' @ hex_text 4 (CHR ''x'') e @ '')'', [])" for n
    using x8 [OF _ _ _ 4, of "''-%08x:%08x-%08x(%04x)'' @ [NUL]" "''-''"] by simp
  show ?thesis
    using x8 [OF _ _ _ 5, of "cstr ''%08x-%08x:%08x-%08x(%04x)''" "[]"] by (simp add: cstr_def)
qed

lemma overlay_render:
  "render ldtob (cstr ''%08x-%08x:%08x-%08x(%04x)'')
     [Va_word (ov_unk0 o1), Va_word (ov_unk0 o1 - ov_unk8 o1 + ov_unkC o1), Va_word (ov_unk8 o1),
      Va_word (ov_unkC o1), Va_word (scast (ov_unk4 o1))] n = Some (overlay_text o1, [])"
  unfolding overlay_text_def by (rule render_overlay)

definition loaded :: "Y511F0UnkStruct \<Rightarrow> bool" where
  "loaded o1 \<longleftrightarrow> ov_unk8 o1 \<noteq> 0"

definition overlays :: "fault_env \<Rightarrow> int \<Rightarrow> int \<Rightarrow> Y511F0UnkStruct list" where
  "overlays e i i' = filter loaded (map (D_800DA840 e) [nat i..<nat i'])"

text \<open>The pixels of the lines of a page.\<close>

definition page_pixel :: "(nat \<Rightarrow> u32) \<Rightarrow> Y511F0UnkStruct list \<Rightarrow> nat \<Rightarrow> nat \<Rightarrow> nat \<Rightarrow> bool" where
  "page_pixel font os j px py \<longleftrightarrow> (\<exists>m<length os. text_pixel font (overlay_text (os ! m)) 32 (8 * (j + m)) px py)"

lemma page_pixel_Cons:
  "page_pixel font (o1 # os) j px py \<longleftrightarrow>
     text_pixel font (overlay_text o1) 32 (8 * j) px py \<or> page_pixel font os (j + 1) px py"
proof -
  have e: "j + Suc m = j + 1 + m" for m by simp
  show ?thesis unfolding page_pixel_def length_Cons Ex_less_Suc2 nth_Cons_0 nth_Cons_Suc e by simp
qed

lemma func_80070848_screen:
  assumes "unat (f_width st) = 320" "j < 28"
  shows "\<exists>st'. func_80070848 e o1 (of_nat j) st = Some st' \<and>
           screen_upd 240 (st\<lparr>sFaultFontColor := WHITE\<rparr>) st'
             (\<lambda>px py p. if text_pixel (fe_font e) (overlay_text o1) 32 (8 * j) px py then WHITE else p)"
proof -
  let ?st = "st\<lparr>sFaultFontColor := WHITE\<rparr>"
  have "32 + 6 * length (overlay_text o1) + 2 \<le> unat (f_width ?st)"
    using assms(1) length_overlay_text [of o1] by simp
  from Fault_Printf_screen [OF overlay_render this, where R = 240 and y = "8 * j"] assms
  obtain st' where "Fault_Printf (fe_font e) (fe_ldtob e) (of_nat 32) (of_nat (8 * j))
      (cstr ''%08x-%08x:%08x-%08x(%04x)'')
      [Va_word (ov_unk0 o1), Va_word (ov_unk0 o1 - ov_unk8 o1 + ov_unkC o1), Va_word (ov_unk8 o1),
       Va_word (ov_unkC o1), Va_word (scast (ov_unk4 o1))] ?st
        = Some (st', of_nat (length (overlay_text o1)))"
    and "screen_upd 240 ?st st'
       (\<lambda>px py p. if text_pixel (fe_font e) (overlay_text o1) 32 (8 * j) px py then WHITE else p)"
    by fastforce
  then show ?thesis
    by (intro exI [of _ st']) (simp add: func_80070848_def entry_line_def mult.commute)
qed

lemma overlays_step:
  "0 \<le> i \<Longrightarrow> i < i' \<Longrightarrow>
    overlays e i i' = (if loaded (D_800DA840 e (nat i)) then [D_800DA840 e (nat i)] else []) @ overlays e (i + 1) i'"
  by (simp add: overlays_def upt_conv_Cons Suc_nat_eq_nat_zadd1 add.commute)

lemma page_loop_shows:
  assumes "unat (f_width st) = 320" "0 \<le> i" "j \<le> 28"
  shows "\<exists>i' st'. page_loop e i j st = Some (i', st') \<and> i \<le> i' \<and> i' \<le> max i (sint (D_800DA83C e)) \<and>
           (i < sint (D_800DA83C e) \<and> j < 28 \<longrightarrow> i < i') \<and>
           j + length (overlays e i i') \<le> 28 \<and>
           (sint (D_800DA83C e) \<le> i' \<or> j + length (overlays e i i') = 28) \<and>
           sFaultFontColor st' = (if overlays e i i' = [] then sFaultFontColor st else WHITE) \<and>
           screen_upd 240 (st\<lparr>sFaultFontColor := sFaultFontColor st'\<rparr>) st'
             (\<lambda>px py p. if page_pixel (fe_font e) (overlays e i i') j px py then WHITE else p)"
  using assms
proof (induction e i j st rule: page_loop.induct)
  case (1 e i j st)
  let ?n = "sint (D_800DA83C e)" and ?o = "D_800DA840 e (nat i)"
  show ?case
  proof (cases "i < ?n \<and> j < 28")
    case False
    have "st\<lparr>sFaultFontColor := sFaultFontColor st\<rparr> = st" by simp
    then show ?thesis using False 1(5)
      by (intro exI [of _ i] exI [of _ st])
        (auto simp: page_loop.simps [of e i] overlays_def page_pixel_def intro!: screen_upd_refl)
  next
    case in_range: True
    show ?thesis
    proof (cases "loaded ?o")
      case True
      then have "ov_unk8 ?o \<noteq> 0" by (simp add: loaded_def)
      obtain st1 where st1: "func_80070848 e ?o (of_nat j) st = Some st1"
        "screen_upd 240 (st\<lparr>sFaultFontColor := WHITE\<rparr>) st1
           (\<lambda>px py p. if text_pixel (fe_font e) (overlay_text ?o) 32 (8 * j) px py then WHITE else p)"
        using func_80070848_screen [of st j e ?o] 1(3) in_range by blast
      note w1 = screen_upd_state [OF st1(2), simplified]
      from 1(1) [OF in_range \<open>ov_unk8 ?o \<noteq> 0\<close> st1(1)] 1(3,4) in_range w1(1)
      obtain i' st' where ih: "page_loop e (i + 1) (j + 1) st1 = Some (i', st')" "i + 1 \<le> i'"
        "i' \<le> ?n" "j + 1 + length (overlays e (i + 1) i') \<le> 28"
        "?n \<le> i' \<or> j + 1 + length (overlays e (i + 1) i') = 28" "sFaultFontColor st' = WHITE"
        "screen_upd 240 (st1\<lparr>sFaultFontColor := WHITE\<rparr>) st'
           (\<lambda>px py p. if page_pixel (fe_font e) (overlays e (i + 1) i') (j + 1) px py then WHITE else p)"
        by (auto simp: w1(3) split: if_split_asm)
      have os: "overlays e i i' = ?o # overlays e (i + 1) i'"
        using overlays_step [of i i' e] 1(4) ih(2) True by simp
      have "st1\<lparr>sFaultFontColor := WHITE\<rparr> = st1" using w1(3) by simp
      with ih(7) have "screen_upd 240 (st\<lparr>sFaultFontColor := WHITE\<rparr>) st'
          (\<lambda>px py p. if page_pixel (fe_font e) (overlays e i i') j px py then WHITE else p)"
        by (intro screen_upd_trans [OF st1(2)]) (auto simp: os page_pixel_Cons)
      then show ?thesis
        using ih in_range st1(1) \<open>ov_unk8 ?o \<noteq> 0\<close>
        by (intro exI [of _ i'] exI [of _ st']) (auto simp: page_loop.simps [of e i] os)
    next
      case False
      then have "ov_unk8 ?o = 0" by (simp add: loaded_def)
      from 1(2) [OF in_range] this 1(3,4) in_range
      obtain i' st' where ih: "page_loop e (i + 1) j st = Some (i', st')" "i + 1 \<le> i'" "i' \<le> ?n"
        "j + length (overlays e (i + 1) i') \<le> 28"
        "?n \<le> i' \<or> j + length (overlays e (i + 1) i') = 28"
        "sFaultFontColor st' = (if overlays e (i + 1) i' = [] then sFaultFontColor st else WHITE)"
        "screen_upd 240 (st\<lparr>sFaultFontColor := sFaultFontColor st'\<rparr>) st'
           (\<lambda>px py p. if page_pixel (fe_font e) (overlays e (i + 1) i') j px py then WHITE else p)"
        by auto
      have "overlays e i i' = overlays e (i + 1) i'"
        using overlays_step [of i i' e] 1(4) ih(2) False by simp
      then show ?thesis
        using ih in_range \<open>ov_unk8 ?o = 0\<close>
        by (intro exI [of _ i'] exI [of _ st']) (auto simp: page_loop.simps [of e i])
    qed
  qed
qed

text \<open>a page of the overlay panel lists, on the lines from 4 on, the loaded overlays of the
  table from its first entry on, in the order of the table, each with its addresses; it goes on
  to the next page only when its 24 lines are full, never beyond the end of the table, and every
  page makes progress.  Every other pixel, and every other byte, stays as it was.\<close>

theorem overlay_page_lists_overlays:
  assumes "unat (f_width st) = 320" "0 \<le> i" "i < sint (D_800DA83C e)"
  shows "\<exists>i' st'. func_800708D4 e (word_of_int i) st = Some (word_of_int i', st') \<and>
           i < i' \<and> i' \<le> sint (D_800DA83C e) \<and>
           length (overlays e i i') \<le> 24 \<and>
           (i' = sint (D_800DA83C e) \<or> length (overlays e i i') = 24) \<and>
           screen_upd 240 (st\<lparr>sFaultFontColor := sFaultFontColor st'\<rparr>) st'
             (\<lambda>px py p. if page_pixel (fe_font e) (overlays e i i') 4 px py then WHITE else p)"
proof -
  have "i < 2 ^ 31" using assms(3) sint_lt [of "D_800DA83C e"] by simp
  then have "sint (word_of_int i :: s32) = i"
    using assms(2) s32_wrap_id [of i] by (simp add: s32_wrap_def)
  moreover obtain i' st' where "page_loop e i 4 st = Some (i', st')" "i < i'" "i' \<le> sint (D_800DA83C e)"
    "length (overlays e i i') \<le> 24" "i' = sint (D_800DA83C e) \<or> length (overlays e i i') = 24"
    "screen_upd 240 (st\<lparr>sFaultFontColor := sFaultFontColor st'\<rparr>) st'
       (\<lambda>px py p. if page_pixel (fe_font e) (overlays e i i') 4 px py then WHITE else p)"
    using page_loop_shows [OF assms(1,2), of 4 e] assms(3) by force
  ultimately show ?thesis by (intro exI [of _ i'] exI [of _ st']) (simp add: func_800708D4_def)
qed

definition sample_env :: fault_env where
  "sample_env =
     \<lparr>fe_font = \<lambda>_. 0xFFFFFFFF, fe_ldtob = \<lambda>px c. px, fe_osClockRate = 46875000, fe_osMemSize = 0x400000,
      D_800DA83C = 3,
      D_800DA840 = (\<lambda>_. \<lparr>ov_unk0 = 0, ov_unk4 = 0, ov_unk8 = 0, ov_unkC = 0\<rparr>)
        (1 := \<lparr>ov_unk0 = 0x80400000, ov_unk4 = 7, ov_unk8 = 0x802C0000, ov_unkC = 0x802C8000\<rparr>),
      mallocRecord = \<lparr>mr_allocP = 0, mr_requestSize = 0, mr_totalFree = 0, mr_totalAlloc = 0, mr_blockCnt = 0\<rparr>,
      D_80109090 = replicate 16 0\<rparr>"

definition sample_screen :: fault where
  "sample_screen = \<lparr>f_mem = \<lambda>_. 0, f_framebuf = 0x80300000, f_width = 320, f_depth = 16,
     sFaultFontColor = 0xFFFF, D_80108690 = 0\<rparr>"

theorem overlay_page_lists_overlays_witness:
  "\<exists>i' st'. func_800708D4 sample_env (word_of_int 0) sample_screen = Some (word_of_int i', st') \<and> 0 < i' \<and> i' \<le> 3"
proof -
  have "unat (f_width sample_screen) = 320" "(0::int) < sint (D_800DA83C sample_env)"
    by (simp_all add: sample_screen_def sample_env_def)
  from overlay_page_lists_overlays [OF this(1) _ this(2)] show ?thesis by (auto simp: sample_env_def)
qed

subsection \<open>From the crash to the first page\<close>

lemma print_line_ok:
  assumes "render (fe_ldtob e) (cstr fmt) ap 0 = Some (out, ns)" "unat (f_width st) = 320"
    and "x + 6 * length out + 2 \<le> 320" "y + 8 \<le> 240"
  shows "\<exists>st1. print_lines e ((of_nat x, of_nat y, fmt, ap) # ls) st = print_lines e ls st1 \<and>
           screen_upd 240 st st1
             (\<lambda>px py p. if text_pixel (fe_font e) out x y px py then sFaultFontColor st else p)"
  using Fault_Printf_screen [OF assms(1), of x st y 240 "fe_font e"] assms(2-4) by fastforce

text \<open>Several texts in one colour.\<close>

definition texts_pixel :: "(nat \<Rightarrow> u32) \<Rightarrow> (string \<times> nat \<times> nat) list \<Rightarrow> nat \<Rightarrow> nat \<Rightarrow> bool" where
  "texts_pixel font ts px py \<longleftrightarrow> (\<exists>(out, x, y)\<in>set ts. text_pixel font out x y px py)"

definition line_text :: "fault_env \<Rightarrow> line \<Rightarrow> string \<times> nat \<times> nat \<Rightarrow> bool" where
  "line_text e l t \<longleftrightarrow>
     (case l of (x', y', fmt, ap) \<Rightarrow> case t of (out, x, y) \<Rightarrow>
        x' = of_nat x \<and> y' = of_nat y \<and> render (fe_ldtob e) (cstr fmt) ap 0 = Some (out, []) \<and>
        x + 6 * length out + 2 \<le> 320 \<and> y + 8 \<le> 240)"

lemma print_lines_screen:
  assumes "list_all2 (line_text e) ls ts" "unat (f_width st) = 320"
  shows "\<exists>st'. print_lines e ls st = Some st' \<and>
           screen_upd 240 st st' (\<lambda>px py p. if texts_pixel (fe_font e) ts px py then sFaultFontColor st else p)"
  using assms
proof (induction ls ts arbitrary: st)
  case Nil
  then show ?case by (auto simp: texts_pixel_def intro: screen_upd_refl)
next
  case (Cons l ls t ts)
  obtain out x y where t: "t = (out, x, y)" by (cases t) auto
  obtain x' y' fmt ap where l: "l = (x', y', fmt, ap)" by (cases l) auto
  from Cons.hyps(1) have "x' = of_nat x" "y' = of_nat y" "render (fe_ldtob e) (cstr fmt) ap 0 = Some (out, [])"
    "x + 6 * length out + 2 \<le> 320" "y + 8 \<le> 240"
    by (simp_all add: line_text_def t l)
  from print_line_ok [OF this(3) Cons.prems this(4,5), of ls] this(1,2) obtain st1 where
    1: "print_lines e (l # ls) st = print_lines e ls st1"
    "screen_upd 240 st st1 (\<lambda>px py p. if text_pixel (fe_font e) out x y px py then sFaultFontColor st else p)"
    unfolding l by blast
  note s1 = screen_upd_state [OF 1(2)]
  from Cons.IH [of st1] s1(1) Cons.prems obtain st' where 2: "print_lines e ls st1 = Some st'"
    "screen_upd 240 st1 st' (\<lambda>px py p. if texts_pixel (fe_font e) ts px py then sFaultFontColor st1 else p)"
    by auto
  have "screen_upd 240 st st' (\<lambda>px py p. if texts_pixel (fe_font e) (t # ts) px py then sFaultFontColor st else p)"
    by (rule screen_upd_trans [OF 1(2) 2(2)]) (simp add: texts_pixel_def t s1(3))
  with 1(1) 2(1) show ?case by auto
qed

lemma render_max:
  "render ldtob (cstr ''MAX:%d(%d)'') [Va_word a, Va_word b] n
     = Some (''MAX:'' @ dec_text a @ ''('' @ dec_text b @ '')'', [])"
proof -
  have "render ldtob ('')'' @ [NUL]) [] n = Some ('')'', [])" for n by (rule render_end) simp
  from render_dec [OF _ this, of "''(%d)'' @ [NUL]" "''(''"]
  have "render ldtob (''(%d)'' @ [NUL]) [Va_word b] n = Some (''('' @ dec_text b @ '')'', [])" for n by simp
  from render_dec [OF _ this, of "cstr ''MAX:%d(%d)''" "''MAX:''"] show ?thesis by (simp add: cstr_def)
qed

lemma render_prefix_hex:
  assumes "scan_text (t @ ''%0'' @ [kc, CHR ''x'', NUL]) = Some (t, CHR ''%'' # CHR ''0'' # kc # CHR ''x'' # [NUL])"
    and "(kc, k) \<in> {(CHR ''4'', 4), (CHR ''6'', 6), (CHR ''8'', 8)}"
  shows "render ldtob (t @ ''%0'' @ [kc, CHR ''x'', NUL]) [Va_word w] n
     = Some (t @ hex_text (nat k) (CHR ''x'') w, [])"
proof -
  have "render ldtob [NUL] [] n = Some ([], [])" for n by (rule render_end) simp
  from render_hex [OF assms(1,2) _ this] show ?thesis by simp
qed

text \<open>What the first line says: the size of the table and its free entries, and the program counter,
  the return address and the offset, moved to where the overlay of the program counter was linked.\<close>

definition covers :: "Y511F0UnkStruct \<Rightarrow> u32 \<Rightarrow> bool" where
  "covers o1 pc \<longleftrightarrow> loaded o1 \<and> ov_unk0 o1 \<le> pc \<and> pc < ov_unk0 o1 + ov_unkC o1 - ov_unk8 o1"

definition overlay_of :: "fault_env \<Rightarrow> u32 \<Rightarrow> Y511F0UnkStruct option" where
  "overlay_of e pc =
     (let os = filter (\<lambda>o1. covers o1 pc) (map (D_800DA840 e) [0..<nat (sint (D_800DA83C e))])
      in if os = [] then None else Some (last os))"

definition overlay_offset :: "fault_env \<Rightarrow> u32 \<Rightarrow> u32" where
  "overlay_offset e pc = (case overlay_of e pc of None \<Rightarrow> 0 | Some o1 \<Rightarrow> ov_unk8 o1 - ov_unk0 o1)"

definition free_entries :: "fault_env \<Rightarrow> nat" where
  "free_entries e =
     length (filter (\<lambda>o1. \<not> loaded o1) (map (D_800DA840 e) [0..<nat (sint (D_800DA83C e))]))"

definition panel_header :: "fault_env \<Rightarrow> OSThreadContext \<Rightarrow> (string \<times> nat \<times> nat) list" where
  "panel_header e ctx =
     [(''MAX:'' @ dec_text (D_800DA83C e) @ ''('' @ dec_text (of_nat (free_entries e)) @ '')'', 28, 16),
      (''PC:'' @ hex_text 8 (CHR ''x'') (c_pc ctx + overlay_offset e (c_pc ctx)), 95, 16),
      (''RA:'' @ hex_text 8 (CHR ''x'') (ucast (c_ra ctx) + overlay_offset e (c_pc ctx)), 165, 16),
      (''OFF:'' @ hex_text 6 (CHR ''x'') (overlay_offset e (c_pc ctx)), 235, 16)]"

definition panel_entry :: "fault_env \<Rightarrow> OSThreadContext \<Rightarrow> (string \<times> nat \<times> nat) list" where
  "panel_entry e ctx =
     (case overlay_of e (c_pc ctx) of None \<Rightarrow> [] | Some o1 \<Rightarrow> [(overlay_text o1, 32, 24)])"

text \<open>The panel: the overlays \<open>os\<close> of the page in white, the overlay of the program counter in
  yellow, the first line in green, on a black rectangle; \<open>p\<close> is what was there before.\<close>

definition panel_pixel ::
  "fault_env \<Rightarrow> OSThreadContext \<Rightarrow> Y511F0UnkStruct list \<Rightarrow> nat \<Rightarrow> nat \<Rightarrow> u16 \<Rightarrow> u16" where
  "panel_pixel e ctx os px py p =
     (if page_pixel (fe_font e) os 4 px py then WHITE
      else if texts_pixel (fe_font e) (panel_entry e ctx) px py then YELLOW
      else if texts_pixel (fe_font e) (panel_header e ctx) px py then GREEN
      else if 22 \<le> px \<and> px < 298 \<and> 16 \<le> py \<and> py < 224 then 1 else p)"

lemma scan_overlay_covers:
  "scan_overlay e pc i (f, sp, t0) =
     (if covers (D_800DA840 e i) pc then (ov_unk8 (D_800DA840 e i) - ov_unk0 (D_800DA840 e i), int i, t0)
      else (f, sp, if loaded (D_800DA840 e i) then t0 else t0 + 1))"
  by (simp add: scan_overlay_def covers_def loaded_def Let_def)

lemma scan_overlays_upto:
  fixes e :: fault_env and pc :: u32 and n :: nat
  defines "os \<equiv> filter (\<lambda>o1. covers o1 pc) (map (D_800DA840 e) [0..<n])"
  shows "\<exists>sp. fold (scan_overlay e pc) [0..<n] (0, -1, 0) =
       (if os = [] then 0 else ov_unk8 (last os) - ov_unk0 (last os), sp,
        int (length (filter (\<lambda>o1. \<not> loaded o1) (map (D_800DA840 e) [0..<n])))) \<and>
     (if os = [] then sp = -1 else 0 \<le> sp \<and> D_800DA840 e (nat sp) = last os)"
  unfolding os_def
proof (induction n)
  case (Suc n)
  then obtain sp where sp: "fold (scan_overlay e pc) [0..<n] (0, -1, 0) =
       (if filter (\<lambda>o1. covers o1 pc) (map (D_800DA840 e) [0..<n]) = [] then 0
        else ov_unk8 (last (filter (\<lambda>o1. covers o1 pc) (map (D_800DA840 e) [0..<n]))) -
             ov_unk0 (last (filter (\<lambda>o1. covers o1 pc) (map (D_800DA840 e) [0..<n]))), sp,
        int (length (filter (\<lambda>o1. \<not> loaded o1) (map (D_800DA840 e) [0..<n]))))"
    "if filter (\<lambda>o1. covers o1 pc) (map (D_800DA840 e) [0..<n]) = [] then sp = -1
     else 0 \<le> sp \<and> D_800DA840 e (nat sp) = last (filter (\<lambda>o1. covers o1 pc) (map (D_800DA840 e) [0..<n]))"
    by blast
  have u: "[0..<Suc n] = [0..<n] @ [n]" by simp
  show ?case
  proof (cases "covers (D_800DA840 e n) pc")
    case True
    then have "loaded (D_800DA840 e n)" by (simp add: covers_def)
    with True show ?thesis
      unfolding u fold_append map_append filter_append by (simp add: sp(1) scan_overlay_covers)
  next
    case False
    then show ?thesis using sp(2)
      unfolding u fold_append map_append filter_append by (simp add: sp(1) scan_overlay_covers)
  qed
qed simp

lemma scan_overlays_finds:
  assumes "scan_overlays e pc = (offset, sp44, t0)"
  shows "offset = overlay_offset e pc" "t0 = int (free_entries e)"
    "case overlay_of e pc of None \<Rightarrow> sp44 = -1 | Some o1 \<Rightarrow> 0 \<le> sp44 \<and> D_800DA840 e (nat sp44) = o1"
  using scan_overlays_upto [of e pc "nat (sint (D_800DA83C e))"] assms
  unfolding scan_overlays_def overlay_offset_def overlay_of_def free_entries_def Let_def
  by (auto split: if_split_asm)

lemma header_texts:
  "list_all2 (line_text e)
     [(28, 16, ''MAX:%d(%d)'', [Va_word (D_800DA83C e), Va_word (of_nat (free_entries e))]),
      (95, 16, ''PC:%08x'', [Va_word (c_pc ctx + overlay_offset e (c_pc ctx))]),
      (165, 16, ''RA:%08x'', [Va_word (ucast (c_ra ctx) + overlay_offset e (c_pc ctx))]),
      (235, 16, ''OFF:%06x'', [Va_word (overlay_offset e (c_pc ctx))])] (panel_header e ctx)"
proof -
  have l8: "length (hex_text 8 (CHR ''x'') w) \<le> 8" and l6: "length (hex_text 6 (CHR ''x'') w) \<le> 8" for w
    using length_hex_text [of 8 "CHR ''x''" w] length_hex_text [of 6 "CHR ''x''" w] by simp_all
  have pc: "line_text e (95, 16, ''PC:%08x'', [Va_word w]) (''PC:'' @ hex_text 8 (CHR ''x'') w, 95, 16)" for w
    using render_prefix_hex [where kc = "CHR ''8''" and k = 8 and t = "''PC:''"] l8 [of w]
    by (simp add: line_text_def cstr_def)
  have ra: "line_text e (165, 16, ''RA:%08x'', [Va_word w]) (''RA:'' @ hex_text 8 (CHR ''x'') w, 165, 16)" for w
    using render_prefix_hex [where kc = "CHR ''8''" and k = 8 and t = "''RA:''"] l8 [of w]
    by (simp add: line_text_def cstr_def)
  have off: "line_text e (235, 16, ''OFF:%06x'', [Va_word w]) (''OFF:'' @ hex_text 6 (CHR ''x'') w, 235, 16)" for w
    using render_prefix_hex [where kc = "CHR ''6''" and k = 6 and t = "''OFF:''"] l6 [of w]
    by (simp add: line_text_def cstr_def)
  have mx: "line_text e (28, 16, ''MAX:%d(%d)'', [Va_word a, Va_word b])
      (''MAX:'' @ dec_text a @ ''('' @ dec_text b @ '')'', 28, 16)" for a b
    using length_dec_text [of a] length_dec_text [of b] render_max by (simp add: line_text_def)
  show ?thesis unfolding panel_header_def by (simp only: list_all2_Cons list_all2_Nil mx pc ra off simp_thms)
qed

lemma entry_texts: "list_all2 (line_text e) [entry_line o1 24] [(overlay_text o1, 32, 24)]"
  using length_overlay_text [of o1] overlay_render by (simp add: line_text_def entry_line_def)

text \<open>\<open>repainted c i st\<close> fixes the variables of the panels, so that the steps of one compose.\<close>

definition repainted :: "u16 \<Rightarrow> s32 \<Rightarrow> fault \<Rightarrow> fault" where
  "repainted c i st = st\<lparr>sFaultFontColor := c, D_80108690 := i\<rparr>"

lemma repainted_color [simp]: "repainted c i (st\<lparr>sFaultFontColor := c'\<rparr>) = repainted c i st"
  by (simp add: repainted_def)

lemma repainted_upd: "screen_upd R st st' f \<Longrightarrow> screen_upd R (repainted c i st) (repainted c i st') f"
  by (cases st; cases st') (auto simp: repainted_def screen_upd_def screen_pixel_def)

lemma repainted_trans:
  assumes "screen_upd R (repainted c i st) (repainted c i st1) f" "screen_upd R st1 st2 g"
    and "\<And>px py p. px < unat (f_width st) \<Longrightarrow> py < R \<Longrightarrow> h px py p = g px py (f px py p)"
  shows "screen_upd R (repainted c i st) (repainted c i st2) h"
  by (rule screen_upd_trans [OF assms(1) repainted_upd [OF assms(2)]]) (simp add: assms(3) repainted_def)

lemma panel_screen:
  assumes "unat (f_width st) = 320" "0 \<le> sint (D_80108690 st)"
  shows "\<exists>i' st'. func_80070988 e ctx st = Some st' \<and> sint (D_80108690 st) \<le> i' \<and>
           i' \<le> max (sint (D_80108690 st)) (sint (D_800DA83C e)) \<and>
           length (overlays e (sint (D_80108690 st)) i') \<le> 24 \<and>
           (sint (D_800DA83C e) \<le> i' \<or> length (overlays e (sint (D_80108690 st)) i') = 24) \<and>
           screen_upd 240 (repainted WHITE (word_of_int i') st) st'
             (panel_pixel e ctx (overlays e (sint (D_80108690 st)) i'))"
proof -
  let ?rec = "\<lambda>px py (p::u16). if 22 \<le> px \<and> px < 298 \<and> 16 \<le> py \<and> py < (224::nat) then 1 else p"
  let ?head = "texts_pixel (fe_font e) (panel_header e ctx)"
  let ?entry = "texts_pixel (fe_font e) (panel_entry e ctx)"
  let ?st0 = "Fault_DrawRec 22 16 276 208 st"
  have u0: "screen_upd 240 st ?st0 ?rec"
    using Fault_DrawRec_screen [of 22 276 st 16 208 240] assms(1) by simp
  note s0 = screen_upd_state [OF u0]
  obtain offset sp44 t0 where sc: "scan_overlays e (c_pc ctx) = (offset, sp44, t0)" by (metis prod_cases3)
  note found = scan_overlays_finds [OF sc]
  have t0: "word_of_int t0 = (of_nat (free_entries e) :: u32)" by (simp add: found(2))
  let ?st0g = "?st0\<lparr>sFaultFontColor := GREEN\<rparr>"
  have "unat (f_width ?st0g) = 320" using assms(1) s0 by simp
  from print_lines_screen [OF header_texts this] obtain st1 where
    1: "print_lines e
      [(28, 16, ''MAX:%d(%d)'', [Va_word (D_800DA83C e), Va_word (word_of_int t0)]),
       (95, 16, ''PC:%08x'', [Va_word (c_pc ctx + offset)]),
       (165, 16, ''RA:%08x'', [Va_word (ucast (c_ra ctx) + offset)]),
       (235, 16, ''OFF:%06x'', [Va_word offset])] ?st0g = Some st1"
    and u1: "screen_upd 240 ?st0g st1 (\<lambda>px py p. if ?head px py then sFaultFontColor ?st0g else p)"
    unfolding found(1) t0 by blast
  note s1 = screen_upd_state [OF u1, simplified]
  define line where "line = (if 0 \<le> sp44
    then print_lines e [entry_line (D_800DA840 e (nat sp44)) 24] (st1\<lparr>sFaultFontColor := YELLOW\<rparr>) else Some st1)"
  have w1: "unat (f_width st1) = 320" using assms(1) s0 s1 by simp
  obtain st1' st2 where 2: "line = Some st2"
    and u2: "screen_upd 240 st1' st2 (\<lambda>px py p. if ?entry px py then YELLOW else p)"
    and n2: "\<And>c i. repainted c i st1' = repainted c i st1" "f_width st1' = f_width st1" "D_80108690 st1' = D_80108690 st1"
  proof (cases "overlay_of e (c_pc ctx)")
    case None
    then have "screen_upd 240 st1 st1 (\<lambda>px py p. if ?entry px py then YELLOW else p)"
      by (auto simp: panel_entry_def texts_pixel_def intro: screen_upd_refl)
    with that [of st1 st1] found(3) None show thesis by (simp add: line_def)
  next
    case (Some o1)
    let ?st1y = "st1\<lparr>sFaultFontColor := YELLOW\<rparr>"
    have "unat (f_width ?st1y) = 320" using w1 by simp
    from print_lines_screen [OF entry_texts [of e o1] this] obtain st2 where
      "print_lines e [entry_line o1 24] ?st1y = Some st2"
      "screen_upd 240 ?st1y st2 (\<lambda>px py p. if ?entry px py then sFaultFontColor ?st1y else p)"
      unfolding panel_entry_def Some option.case by blast
    with that [of st2 ?st1y] found(3) Some show thesis by (simp add: line_def del: print_lines.simps cong: if_cong)
  qed
  note s2 = screen_upd_state [OF u2]
  have "unat (f_width st2) = 320" "0 \<le> sint (D_80108690 st2)" using assms w1 n2 s0 s1 s2 by simp_all
  from page_loop_shows [OF this, of 4 e] obtain i' st3 where
    3: "page_loop e (sint (D_80108690 st2)) 4 st2 = Some (i', st3)" "sint (D_80108690 st2) \<le> i'"
      "i' \<le> max (sint (D_80108690 st2)) (sint (D_800DA83C e))"
      "length (overlays e (sint (D_80108690 st2)) i') \<le> 24"
      "sint (D_800DA83C e) \<le> i' \<or> length (overlays e (sint (D_80108690 st2)) i') = 24"
    and u3: "screen_upd 240 (st2\<lparr>sFaultFontColor := sFaultFontColor st3\<rparr>) st3
      (\<lambda>px py p. if page_pixel (fe_font e) (overlays e (sint (D_80108690 st2)) i') 4 px py then WHITE else p)"
    by auto
  have D: "D_80108690 st2 = D_80108690 st" using n2 s0 s1 s2 by simp
  let ?n = "repainted WHITE (word_of_int i')"
  have "screen_upd 240 (?n st) (?n ?st0g) ?rec" using repainted_upd [OF u0] by simp
  from repainted_trans [OF this u1] have
    "screen_upd 240 (?n st) (?n st1') (\<lambda>px py p. if ?head px py then GREEN else ?rec px py p)"
    by (simp add: n2(1))
  from repainted_trans [OF this u2] have
    "screen_upd 240 (?n st) (?n (st2\<lparr>sFaultFontColor := sFaultFontColor st3\<rparr>))
       (\<lambda>px py p. if ?entry px py then YELLOW else if ?head px py then GREEN else ?rec px py p)"
    by simp
  from repainted_trans [OF this u3] have
    "screen_upd 240 (?n st) (?n st3) (panel_pixel e ctx (overlays e (sint (D_80108690 st)) i'))"
    by (simp add: D panel_pixel_def)
  moreover have "func_80070988 e ctx st = Some (?n st3)"
    using 1 2 3(1)
    by (simp add: func_80070988_def Let_def sc line_def [symmetric] func_800708D4_def repainted_def
        del: print_lines.simps)
  ultimately show ?thesis using 3(2-5) by (intro exI [of _ i'] exI [of _ "?n st3"]) (simp add: D)
qed

text \<open>\<open>shows_first_page e ctx fb st st'\<close>: the frame buffer \<open>fb\<close> got the panel of the crash with the first
  page of the overlay table, up to an entry \<open>i'\<close> where the page is full or the table ends; nothing
  else in memory changed.\<close>

definition shows_first_page :: "fault_env \<Rightarrow> OSThreadContext \<Rightarrow> ptr \<Rightarrow> fault \<Rightarrow> fault \<Rightarrow> bool" where
  "shows_first_page e ctx fb st st' \<longleftrightarrow>
     (\<exists>i'. 0 \<le> i' \<and> i' \<le> max 0 (sint (D_800DA83C e)) \<and> length (overlays e 0 i') \<le> 24 \<and>
        (sint (D_800DA83C e) \<le> i' \<or> length (overlays e 0 i') = 24) \<and>
        screen_upd 240 (st\<lparr>f_framebuf := fb, sFaultFontColor := WHITE, D_80108690 := word_of_int i'\<rparr>) st'
          (panel_pixel e ctx (overlays e 0 i')))"

definition crash_buffer :: "fault_env \<Rightarrow> fault_mgr \<Rightarrow> ptr" where
  "crash_buffer e s = (if 0x80100000 \<le> vi_current s then vi_current s else last_buffer e)"

lemma first_page_ok:
  assumes "unat (f_width (fm_screen s)) = 320"
  shows "\<exists>s'. first_page e t s = Some (F_Overlays t, s') \<and> \<not> vi_black s' \<and>
           vi_next s' = (if 0x80100000 \<le> vi_current s then vi_next s else crash_buffer e s) \<and>
           shows_first_page e (fm_context s t) (crash_buffer e s) (fm_screen s) (fm_screen s')"
proof -
  let ?s = "Fault_DisplayFramebuffer e s"
  let ?scr = "(fm_screen ?s)\<lparr>D_80108690 := 0\<rparr>"
  have scr: "?scr = (fm_screen s)\<lparr>f_framebuf := crash_buffer e s, D_80108690 := 0\<rparr>"
    by (simp add: Fault_DisplayFramebuffer_def Let_def crash_buffer_def)
  have c: "fm_context ?s = fm_context s" by (simp add: Fault_DisplayFramebuffer_def Let_def)
  have "unat (f_width ?scr) = 320" "0 \<le> sint (D_80108690 ?scr)" unfolding scr using assms by simp_all
  from panel_screen [OF this, of e "fm_context s t"] obtain i' scr' where
    p: "func_80070988 e (fm_context s t) ?scr = Some scr'" "0 \<le> i'" "i' \<le> max 0 (sint (D_800DA83C e))"
      "length (overlays e 0 i') \<le> 24" "sint (D_800DA83C e) \<le> i' \<or> length (overlays e 0 i') = 24"
      "screen_upd 240 (repainted WHITE (word_of_int i') ?scr) scr' (panel_pixel e (fm_context s t) (overlays e 0 i'))"
    by auto
  have "repainted WHITE (word_of_int i') ?scr
      = (fm_screen s)\<lparr>f_framebuf := crash_buffer e s, sFaultFontColor := WHITE, D_80108690 := word_of_int i'\<rparr>"
    unfolding scr by (simp add: repainted_def)
  with p have "shows_first_page e (fm_context s t) (crash_buffer e s) (fm_screen s) scr'"
    unfolding shows_first_page_def by metis
  moreover have "\<not> vi_black ?s" "vi_next ?s = (if 0x80100000 \<le> vi_current s then vi_next s else crash_buffer e s)"
    by (simp_all add: Fault_DisplayFramebuffer_def Let_def crash_buffer_def)
  ultimately show ?thesis using p(1) by (simp add: first_page_def on_screen_def c)
qed

lemma combo_events:
  assumes "combo_loop (fe_osClockRate e) c ss = Some []"
  shows "fault_run e (map Ev_sample ss) (F_Combo t c, s) = first_page e t s"
  using assms
proof (induction ss arbitrary: c)
  case (Cons sm ss)
  show ?case
  proof (cases "cx (combo_step (fe_osClockRate e) c sm) = 11")
    case True
    then have "ss = []" using Cons.prems by simp
    then show ?thesis using True by (simp split: option.split)
  next
    case False
    then show ?thesis using Cons.prems Cons.IH by simp
  qed
qed simp

lemma crash_opens:
  assumes "unat (f_width (fm_screen s)) = 320" "k_faulted (fm_kernel s) \<noteq> NULL" "fault_display_enable s"
    and "fm_pending s = []" "combo_loop (fe_osClockRate e) combo_start ss = Some []"
  shows "\<exists>s'. Fault_ThreadEntry e (Ev_mesg msg # map Ev_sample ss) s
             = Some (F_Overlays (k_faulted (fm_kernel s)), s') \<and> \<not> vi_black s' \<and>
           vi_next s' = (if 0x80100000 \<le> vi_current s then vi_next s else crash_buffer e s) \<and>
           shows_first_page e (fm_context s (k_faulted (fm_kernel s))) (crash_buffer e s) (fm_screen s) (fm_screen s')"
proof -
  let ?t = "k_faulted (fm_kernel s)"
  obtain s1 where s1: "fault_turn e (Ev_mesg msg) (F_Recv, fault_loop_head s) = Some (F_Combo ?t combo_start, s1)"
    "fm_screen s1 = fm_screen s" "vi_current s1 = vi_current s" "vi_next s1 = vi_next s" "fm_context s1 = fm_context s"
    using assms(2,3) by (simp add: fault_loop_head_def fault_received_def await_display_def Let_def)
  have "fault_recv (fault_loop_head s) = Some (F_Recv, fault_loop_head s)"
    using assms(4) by (simp add: fault_recv_def fault_loop_head_def)
  then have run: "Fault_ThreadEntry e (Ev_mesg msg # map Ev_sample ss) s = first_page e ?t s1"
    by (simp only: Fault_ThreadEntry_def Option.bind.simps fault_run.simps s1(1) option.case combo_events [OF assms(5)])
  have b: "crash_buffer e s1 = crash_buffer e s" by (simp add: crash_buffer_def s1(3))
  have "unat (f_width (fm_screen s1)) = 320" using assms(1) s1(2) by simp
  from first_page_ok [OF this, of e ?t] show ?thesis by (simp only: run s1(2-5) b)
qed

text \<open>Claim C13: a crash can always be inspected: once the manager, at the top of its loop with an empty
  queue and the display enabled, gets the message of a crash and the player enters the combination,
  the picture is unblanked and the first page of the overlay panel is drawn into the frame buffer on
  display, or into the last one of the memory when that lies too low, which then becomes the next
  one to show.  The picture is given pixel by pixel: the entries of the page, in the order of the
  table, in white; the overlay that the program counter is in, in yellow; the first line with the size of the table,
  the program counter, the return address and the offset, in green; the rest of the rectangle
  black, and everything else as it was, whatever the table and the registers hold.\<close>

theorem crash_screen_opens:
  assumes "unat (f_width (fm_screen s)) = 320" "k_faulted (fm_kernel s) \<noteq> NULL" "fault_display_enable s"
    and "fm_pending s = []"
    and "quiet idle0" "opens_combo s0" "ab \<in> set ab_keys" "entered (dpad_keys @ ab) mid"
    and "quiet idle1" "closes_combo s1"
    and "unat (OS_CYCLES_TO_USEC_ALT (fe_osClockRate e) (smp_time s1 - smp_time s0)) \<le> 50000002"
  shows "\<exists>s'. Fault_ThreadEntry e (Ev_mesg msg # map Ev_sample (idle0 @ s0 # mid @ idle1 @ [s1])) s
               = Some (F_Overlays (k_faulted (fm_kernel s)), s') \<and> \<not> vi_black s' \<and>
           vi_next s' = (if 0x80100000 \<le> vi_current s then vi_next s else crash_buffer e s) \<and>
           shows_first_page e (fm_context s (k_faulted (fm_kernel s))) (crash_buffer e s) (fm_screen s) (fm_screen s')"
  using combo_complete [OF assms(5-11), of 0 "[]"]
  by (intro crash_opens assms) (simp add: Fault_WaitButtonCombo_def combo_start_def)

definition crashed :: fault_mgr where
  "crashed =
     \<lparr>fm_screen = sample_screen, fm_kernel = crashed_kernel\<lparr>k_faulted := 0x200\<rparr>, fm_context = (\<lambda>_. undefined),
      fm_events = (\<lambda>_. (0, 0)), fm_queue = 0x80, fm_pending = [], fault_exit = False, fault_msg_id = 0,
      fault_display_enable = True, vi_black = True, vi_current = 0x80200000, vi_next = 0\<rparr>"

lemma crashed_facts:
  "unat (f_width (fm_screen crashed)) = 320" "k_faulted (fm_kernel crashed) = 0x200" "fault_display_enable crashed"
  "vi_current crashed = 0x80200000" "f_framebuf (fm_screen crashed) = 0x80300000" "fm_pending crashed = []"
  by (simp_all add: crashed_def sample_screen_def)

lemma crashed_page:
  assumes "shows_first_page sample_env ctx 0x80200000 (fm_screen crashed) st'"
  shows "f_framebuf st' = 0x80200000 \<and> screen_pixel st' 32 32 = WHITE"
proof -
  let ?o = "D_800DA840 sample_env 1"
  have n: "sint (D_800DA83C sample_env) = 3" by (simp add: sample_env_def)
  have "(0xFFFFFFFF :: u32) = -1" by simp
  then have ink: "bit (fe_font sample_env w) (28 + c mod 4)" for w c
    unfolding sample_env_def by (simp only: fault_env.select_convs) (simp add: bit_minus_1_iff)
  from assms obtain i' where i': "0 \<le> i'" "i' \<le> 3" "3 \<le> i' \<or> length (overlays sample_env 0 i') = 24"
    and u: "screen_upd 240 ((fm_screen crashed)\<lparr>f_framebuf := 0x80200000, sFaultFontColor := WHITE,
        D_80108690 := word_of_int i'\<rparr>) st' (panel_pixel sample_env ctx (overlays sample_env 0 i'))"
    unfolding shows_first_page_def n by (elim exE conjE) (rule that; simp)
  have "length (overlays sample_env 0 i') \<le> nat i'"
    unfolding overlays_def by (rule order_trans [OF length_filter_le]) simp
  with i' have "i' = 3" by auto
  then have os: "overlays sample_env 0 i' = [?o]"
    by (simp add: overlays_def upt_rec sample_env_def loaded_def)
  have "text_pixel (fe_font sample_env) (overlay_text ?o) 32 32 32 32"
    unfolding text_pixel_def by (intro exI [of _ 0]) (simp add: overlay_text_def glyph_def ink)
  then have "page_pixel (fe_font sample_env) [?o] 4 32 32" by (simp add: page_pixel_def)
  then have "screen_pixel st' 32 32 = WHITE"
    using u by (simp add: screen_upd_def panel_pixel_def os crashed_def sample_screen_def del: One_nat_def)
  with screen_upd_state(2) [OF u] show ?thesis by simp
qed

theorem crash_screen_opens_witness:
  "\<exists>s'. Fault_ThreadEntry sample_env (Ev_mesg 2 # map Ev_sample ([] @ player_opens # player_keys @ [] @ [player_closes]))
          crashed = Some (F_Overlays 0x200, s') \<and> \<not> vi_black s' \<and> f_framebuf (fm_screen s') = 0x80200000 \<and>
        screen_pixel (fm_screen s') 32 32 = WHITE"
proof -
  have r: "fe_osClockRate sample_env = 46875000" by (simp add: sample_env_def)
  have "\<exists>s'. Fault_ThreadEntry sample_env
            (Ev_mesg 2 # map Ev_sample ([] @ player_opens # player_keys @ [] @ [player_closes])) crashed
          = Some (F_Overlays (k_faulted (fm_kernel crashed)), s') \<and> \<not> vi_black s' \<and>
        vi_next s' = (if 0x80100000 \<le> vi_current crashed then vi_next crashed else crash_buffer sample_env crashed) \<and>
        shows_first_page sample_env (fm_context crashed (k_faulted (fm_kernel crashed)))
          (crash_buffer sample_env crashed) (fm_screen crashed) (fm_screen s')"
    by (rule crash_screen_opens [OF _ _ _ _ _ player_facts(1) _ player_enters _ player_facts(2)])
      (use player_facts(3) in \<open>simp_all add: crashed_facts quiet_def ab_keys_def r\<close>)
  then show ?thesis using crashed_page by (auto simp: crashed_facts crash_buffer_def)
qed

theorem crash_screen_is_guarded_witness:
  "unlocked 46875000 (presses (player_opens # player_keys @ [player_closes]))"
proof -
  let ?ss = "[] @ player_opens # player_keys @ [] @ player_closes # []"
  have r: "fe_osClockRate sample_env = 46875000" by (simp add: sample_env_def)
  have "combo_loop (fe_osClockRate sample_env) combo_start ?ss = Some []"
    unfolding r combo_start_def Fault_WaitButtonCombo_def [symmetric]
    by (rule combo_complete [OF _ player_facts(1) _ player_enters _ player_facts(2,3)])
      (simp_all add: quiet_def ab_keys_def)
  from crash_opens [OF crashed_facts(1) _ crashed_facts(3,6) this, of 2] obtain s' where
    run: "Fault_ThreadEntry sample_env (Ev_mesg 2 # map Ev_sample ?ss) crashed = Some (F_Overlays 0x200, s')"
    and "\<not> vi_black s'"
    by (auto simp: crashed_facts)
  then have ne: "fm_screen s' \<noteq> fm_screen crashed \<or> vi_black s' \<noteq> vi_black crashed \<or> vi_current s' \<noteq> vi_current crashed \<or>
      vi_next s' \<noteq> vi_next crashed \<or> fm_kernel s' \<noteq> fm_kernel crashed \<or> fm_context s' \<noteq> fm_context crashed"
    by (simp add: crashed_def)
  have held: "\<forall>s\<in>set (player_opens # player_keys @ [player_closes]). smp_button s = 0 \<longrightarrow> smp_trigger s = 0"
    by (simp add: player_opens_def player_keys_def player_closes_def smp_def button_defs)
  have real: "smp_trigger sm \<noteq> 0 \<longrightarrow> smp_button sm \<noteq> 0" if "Ev_sample sm \<in> set (Ev_mesg 2 # map Ev_sample ?ss)" for sm
  proof -
    have "Ev_sample sm \<in> set (Ev_mesg 2 # map Ev_sample ss) \<Longrightarrow> sm \<in> set ss" for ss by auto
    from this [OF that] have "sm \<in> set ?ss" .
    then have "sm \<in> set (player_opens # player_keys @ [player_closes])" by (simp only: append_Nil)
    with held show ?thesis by blast
  qed
  have samples: "samples_of (Ev_mesg 2 # map Ev_sample ss) = ss" for ss
    by (induction ss) (simp_all add: samples_of_def)
  from crash_screen_is_guarded [OF run real ne] show ?thesis
    unfolding samples r by simp
qed

end
