(* ===== verification/ViTables.thy ===== *)
theory ViTables
  imports F32
begin

section \<open>The tables of the video modes\<close>

text \<open>
  The registers of a video mode (\<^verbatim>\<open>OSViMode\<close> of \<^verbatim>\<open>include/PR/os_vi.h\<close>), the macros of
  \<^verbatim>\<open>include/PRinternal/viint.h\<close> that pack them, the modes of \<^verbatim>\<open>src/vimodes/\<close> and the table
  of \<^verbatim>\<open>src/io/vitbl.c\<close>.  The initialisers are positional in C, so the records are built with
  their \<open>make\<close> functions, the registers in the order of the fields.
\<close>

record OSViCommonRegs =
  ctrl :: u32
  width :: u32
  burst :: u32
  vSync :: u32
  hSync :: u32
  leap :: u32
  hStart :: u32
  xScale :: u32
  vCurrent :: u32

record OSViFieldRegs =
  origin :: u32
  yScale :: u32
  vStart :: u32
  vBurst :: u32
  vIntr :: u32

text \<open>\<^verbatim>\<open>fldRegs\<close> has two elements.\<close>

record OSViMode =
  vm_type :: u8
  comRegs :: OSViCommonRegs
  fldRegs :: "OSViFieldRegs list"

subsection \<open>The macros\<close>

definition BURST :: "int \<Rightarrow> int \<Rightarrow> int \<Rightarrow> int \<Rightarrow> u32" where
  "BURST hsync_width color_width vsync_width color_start =
     (word_of_int hsync_width AND 0xFF) OR push_bit 8 (word_of_int color_width AND 0xFF) OR
     push_bit 16 (word_of_int vsync_width AND 0xF) OR push_bit 20 (word_of_int color_start AND 0xFFFF)"

definition WIDTH :: "u32 \<Rightarrow> u32" where "WIDTH v = v"
definition VSYNC :: "u32 \<Rightarrow> u32" where "VSYNC v = v"
definition VCURRENT :: "u32 \<Rightarrow> u32" where "VCURRENT v = v"
definition ORIGIN :: "u32 \<Rightarrow> u32" where "ORIGIN v = v"
definition VINTR :: "u32 \<Rightarrow> u32" where "VINTR v = v"

definition HSYNC :: "int \<Rightarrow> int \<Rightarrow> u32" where
  "HSYNC duration leap1 = push_bit 16 (word_of_int leap1) OR (word_of_int duration AND 0xFFFF)"

definition LEAP :: "int \<Rightarrow> int \<Rightarrow> u32" where
  "LEAP upper lower = push_bit 16 (word_of_int upper) OR (word_of_int lower AND 0xFFFF)"

definition START :: "int \<Rightarrow> int \<Rightarrow> u32" where
  "START start end = push_bit 16 (word_of_int start) OR (word_of_int end AND 0xFFFF)"

definition HSTART :: "int \<Rightarrow> int \<Rightarrow> u32" where
  "HSTART = START"

text \<open>A number in fixed point, with \<open>i\<close> bits before and \<open>f\<close> bits after the point.\<close>

definition FTOFIX :: "rat \<Rightarrow> nat \<Rightarrow> nat \<Rightarrow> u32" where
  "FTOFIX val i f = word_of_int \<lfloor>f32_mul val (2 ^ f)\<rfloor> AND (push_bit (i + f) 1 - 1)"

definition F210 :: "rat \<Rightarrow> u32" where
  "F210 val = FTOFIX val 2 10"

definition SCALE :: "rat \<Rightarrow> rat \<Rightarrow> u32" where
  "SCALE scaleup off = F210 (f32_div 1 (f32_round scaleup)) OR push_bit 16 (F210 (f32_round off))"

text \<open>The bits of the control register.\<close>

definition VI_CTRL_TYPE_16 :: u32 where "VI_CTRL_TYPE_16 = 0x00002"
definition VI_CTRL_TYPE_32 :: u32 where "VI_CTRL_TYPE_32 = 0x00003"
definition VI_CTRL_GAMMA_DITHER_ON :: u32 where "VI_CTRL_GAMMA_DITHER_ON = 0x00004"
definition VI_CTRL_GAMMA_ON :: u32 where "VI_CTRL_GAMMA_ON = 0x00008"
definition VI_CTRL_DIVOT_ON :: u32 where "VI_CTRL_DIVOT_ON = 0x00010"
definition VI_CTRL_SERRATE_ON :: u32 where "VI_CTRL_SERRATE_ON = 0x00040"
definition VI_CTRL_ANTIALIAS_MASK :: u32 where "VI_CTRL_ANTIALIAS_MASK = 0x00300"
definition VI_CTRL_ANTIALIAS_MODE_0 :: u32 where "VI_CTRL_ANTIALIAS_MODE_0 = 0x00000"
definition VI_CTRL_ANTIALIAS_MODE_1 :: u32 where "VI_CTRL_ANTIALIAS_MODE_1 = 0x00100"
definition VI_CTRL_ANTIALIAS_MODE_2 :: u32 where "VI_CTRL_ANTIALIAS_MODE_2 = 0x00200"
definition VI_CTRL_ANTIALIAS_MODE_3 :: u32 where "VI_CTRL_ANTIALIAS_MODE_3 = 0x00300"
definition VI_CTRL_PIXEL_ADV_3 :: u32 where "VI_CTRL_PIXEL_ADV_3 = 0x03000"
definition VI_CTRL_DITHER_FILTER_ON :: u32 where "VI_CTRL_DITHER_FILTER_ON = 0x10000"

lemmas vi_ctrl_defs =
  VI_CTRL_TYPE_16_def VI_CTRL_TYPE_32_def VI_CTRL_GAMMA_DITHER_ON_def VI_CTRL_GAMMA_ON_def
  VI_CTRL_DIVOT_ON_def VI_CTRL_SERRATE_ON_def VI_CTRL_ANTIALIAS_MASK_def VI_CTRL_ANTIALIAS_MODE_0_def
  VI_CTRL_ANTIALIAS_MODE_1_def VI_CTRL_ANTIALIAS_MODE_2_def VI_CTRL_ANTIALIAS_MODE_3_def
  VI_CTRL_PIXEL_ADV_3_def VI_CTRL_DITHER_FILTER_ON_def

lemmas vi_macro_defs =
  BURST_def WIDTH_def VSYNC_def VCURRENT_def ORIGIN_def VINTR_def HSYNC_def LEAP_def START_def HSTART_def

lemma F210_values: "F210 0 = 0" "F210 (1 / 4) = 256" "F210 (1 / 2) = 512" "F210 (3 / 4) = 768"
  "F210 1 = 1024" "F210 2 = 2048"
  by code_simp+

lemma SCALE_values:
  "SCALE 2 0 = 0x200" "SCALE 1 0 = 0x400" "SCALE 1 (1 / 4) = 0x1000400" "SCALE 1 (3 / 4) = 0x3000400"
  "SCALE (1 / 2) (1 / 2) = 0x2000800"
  by code_simp+

lemmas vi_make_defs =
  OSViMode.make_def OSViCommonRegs.make_def OSViFieldRegs.make_def

subsection \<open>The types of the modes\<close>

definition OS_VI_NTSC_LPN1 :: u8 where "OS_VI_NTSC_LPN1 = 0"
definition OS_VI_NTSC_LPF1 :: u8 where "OS_VI_NTSC_LPF1 = 1"
definition OS_VI_NTSC_LAN1 :: u8 where "OS_VI_NTSC_LAN1 = 2"
definition OS_VI_NTSC_LAF1 :: u8 where "OS_VI_NTSC_LAF1 = 3"
definition OS_VI_NTSC_LPN2 :: u8 where "OS_VI_NTSC_LPN2 = 4"
definition OS_VI_NTSC_LPF2 :: u8 where "OS_VI_NTSC_LPF2 = 5"
definition OS_VI_NTSC_LAN2 :: u8 where "OS_VI_NTSC_LAN2 = 6"
definition OS_VI_NTSC_LAF2 :: u8 where "OS_VI_NTSC_LAF2 = 7"
definition OS_VI_NTSC_HPN1 :: u8 where "OS_VI_NTSC_HPN1 = 8"
definition OS_VI_NTSC_HPF1 :: u8 where "OS_VI_NTSC_HPF1 = 9"
definition OS_VI_NTSC_HAN1 :: u8 where "OS_VI_NTSC_HAN1 = 10"
definition OS_VI_NTSC_HAF1 :: u8 where "OS_VI_NTSC_HAF1 = 11"
definition OS_VI_NTSC_HPN2 :: u8 where "OS_VI_NTSC_HPN2 = 12"
definition OS_VI_NTSC_HPF2 :: u8 where "OS_VI_NTSC_HPF2 = 13"
definition OS_VI_PAL_LPN1 :: u8 where "OS_VI_PAL_LPN1 = 14"
definition OS_VI_PAL_LPF1 :: u8 where "OS_VI_PAL_LPF1 = 15"
definition OS_VI_PAL_LAN1 :: u8 where "OS_VI_PAL_LAN1 = 16"
definition OS_VI_PAL_LAF1 :: u8 where "OS_VI_PAL_LAF1 = 17"
definition OS_VI_PAL_LPN2 :: u8 where "OS_VI_PAL_LPN2 = 18"
definition OS_VI_PAL_LPF2 :: u8 where "OS_VI_PAL_LPF2 = 19"
definition OS_VI_PAL_LAN2 :: u8 where "OS_VI_PAL_LAN2 = 20"
definition OS_VI_PAL_LAF2 :: u8 where "OS_VI_PAL_LAF2 = 21"
definition OS_VI_PAL_HPN1 :: u8 where "OS_VI_PAL_HPN1 = 22"
definition OS_VI_PAL_HPF1 :: u8 where "OS_VI_PAL_HPF1 = 23"
definition OS_VI_PAL_HAN1 :: u8 where "OS_VI_PAL_HAN1 = 24"
definition OS_VI_PAL_HAF1 :: u8 where "OS_VI_PAL_HAF1 = 25"
definition OS_VI_PAL_HPN2 :: u8 where "OS_VI_PAL_HPN2 = 26"
definition OS_VI_PAL_HPF2 :: u8 where "OS_VI_PAL_HPF2 = 27"
definition OS_VI_MPAL_LPN1 :: u8 where "OS_VI_MPAL_LPN1 = 28"
definition OS_VI_MPAL_LPF1 :: u8 where "OS_VI_MPAL_LPF1 = 29"
definition OS_VI_MPAL_LAN1 :: u8 where "OS_VI_MPAL_LAN1 = 30"
definition OS_VI_MPAL_LAF1 :: u8 where "OS_VI_MPAL_LAF1 = 31"
definition OS_VI_MPAL_LPN2 :: u8 where "OS_VI_MPAL_LPN2 = 32"
definition OS_VI_MPAL_LPF2 :: u8 where "OS_VI_MPAL_LPF2 = 33"
definition OS_VI_MPAL_LAN2 :: u8 where "OS_VI_MPAL_LAN2 = 34"
definition OS_VI_MPAL_LAF2 :: u8 where "OS_VI_MPAL_LAF2 = 35"
definition OS_VI_MPAL_HPN1 :: u8 where "OS_VI_MPAL_HPN1 = 36"
definition OS_VI_MPAL_HPF1 :: u8 where "OS_VI_MPAL_HPF1 = 37"
definition OS_VI_MPAL_HAN1 :: u8 where "OS_VI_MPAL_HAN1 = 38"
definition OS_VI_MPAL_HAF1 :: u8 where "OS_VI_MPAL_HAF1 = 39"
definition OS_VI_MPAL_HPN2 :: u8 where "OS_VI_MPAL_HPN2 = 40"
definition OS_VI_MPAL_HPF2 :: u8 where "OS_VI_MPAL_HPF2 = 41"
definition OS_VI_FPAL_LPN1 :: u8 where "OS_VI_FPAL_LPN1 = 42"
definition OS_VI_FPAL_LPF1 :: u8 where "OS_VI_FPAL_LPF1 = 43"
definition OS_VI_FPAL_LAN1 :: u8 where "OS_VI_FPAL_LAN1 = 44"
definition OS_VI_FPAL_LAF1 :: u8 where "OS_VI_FPAL_LAF1 = 45"
definition OS_VI_FPAL_LPN2 :: u8 where "OS_VI_FPAL_LPN2 = 46"
definition OS_VI_FPAL_LPF2 :: u8 where "OS_VI_FPAL_LPF2 = 47"
definition OS_VI_FPAL_LAN2 :: u8 where "OS_VI_FPAL_LAN2 = 48"
definition OS_VI_FPAL_LAF2 :: u8 where "OS_VI_FPAL_LAF2 = 49"
definition OS_VI_FPAL_HPN1 :: u8 where "OS_VI_FPAL_HPN1 = 50"
definition OS_VI_FPAL_HPF1 :: u8 where "OS_VI_FPAL_HPF1 = 51"
definition OS_VI_FPAL_HAN1 :: u8 where "OS_VI_FPAL_HAN1 = 52"
definition OS_VI_FPAL_HAF1 :: u8 where "OS_VI_FPAL_HAF1 = 53"
definition OS_VI_FPAL_HPN2 :: u8 where "OS_VI_FPAL_HPN2 = 54"
definition OS_VI_FPAL_HPF2 :: u8 where "OS_VI_FPAL_HPF2 = 55"

lemmas vi_type_defs =
  OS_VI_NTSC_LPN1_def OS_VI_NTSC_LPF1_def OS_VI_NTSC_LAN1_def OS_VI_NTSC_LAF1_def
  OS_VI_NTSC_LPN2_def OS_VI_NTSC_LPF2_def OS_VI_NTSC_LAN2_def OS_VI_NTSC_LAF2_def
  OS_VI_NTSC_HPN1_def OS_VI_NTSC_HPF1_def OS_VI_NTSC_HAN1_def OS_VI_NTSC_HAF1_def
  OS_VI_NTSC_HPN2_def OS_VI_NTSC_HPF2_def OS_VI_PAL_LPN1_def OS_VI_PAL_LPF1_def OS_VI_PAL_LAN1_def
  OS_VI_PAL_LAF1_def OS_VI_PAL_LPN2_def OS_VI_PAL_LPF2_def OS_VI_PAL_LAN2_def OS_VI_PAL_LAF2_def
  OS_VI_PAL_HPN1_def OS_VI_PAL_HPF1_def OS_VI_PAL_HAN1_def OS_VI_PAL_HAF1_def OS_VI_PAL_HPN2_def
  OS_VI_PAL_HPF2_def OS_VI_MPAL_LPN1_def OS_VI_MPAL_LPF1_def OS_VI_MPAL_LAN1_def
  OS_VI_MPAL_LAF1_def OS_VI_MPAL_LPN2_def OS_VI_MPAL_LPF2_def OS_VI_MPAL_LAN2_def
  OS_VI_MPAL_LAF2_def OS_VI_MPAL_HPN1_def OS_VI_MPAL_HPF1_def OS_VI_MPAL_HAN1_def
  OS_VI_MPAL_HAF1_def OS_VI_MPAL_HPN2_def OS_VI_MPAL_HPF2_def OS_VI_FPAL_LPN1_def
  OS_VI_FPAL_LPF1_def OS_VI_FPAL_LAN1_def OS_VI_FPAL_LAF1_def OS_VI_FPAL_LPN2_def
  OS_VI_FPAL_LPF2_def OS_VI_FPAL_LAN2_def OS_VI_FPAL_LAF2_def OS_VI_FPAL_HPN1_def
  OS_VI_FPAL_HPF1_def OS_VI_FPAL_HAN1_def OS_VI_FPAL_HAF1_def OS_VI_FPAL_HPN2_def
  OS_VI_FPAL_HPF2_def

subsection \<open>The modes of \<^verbatim>\<open>src/vimodes/\<close>\<close>

definition osViModeNtscLpn1 :: OSViMode where
  "osViModeNtscLpn1 =
     OSViMode.make OS_VI_NTSC_LPN1
       (OSViCommonRegs.make
          (VI_CTRL_TYPE_16 OR VI_CTRL_GAMMA_DITHER_ON OR VI_CTRL_GAMMA_ON OR
          VI_CTRL_ANTIALIAS_MODE_2 OR VI_CTRL_PIXEL_ADV_3) (WIDTH 320) (BURST 57 34 5 62)
          (VSYNC 525) (HSYNC 3093 0) (LEAP 3093 3093) (HSTART 108 748) (SCALE 2 0)
          (VCURRENT 0))
       [OSViFieldRegs.make
          (ORIGIN 640) (SCALE 1 0) (HSTART 37 511) (BURST 4 2 14 0) (VINTR 2),
        OSViFieldRegs.make
          (ORIGIN 640) (SCALE 1 0) (HSTART 37 511) (BURST 4 2 14 0) (VINTR 2)]"

definition osViModeNtscLpf1 :: OSViMode where
  "osViModeNtscLpf1 =
     OSViMode.make OS_VI_NTSC_LPF1
       (OSViCommonRegs.make
          (VI_CTRL_TYPE_16 OR VI_CTRL_GAMMA_DITHER_ON OR VI_CTRL_GAMMA_ON OR
          VI_CTRL_SERRATE_ON OR VI_CTRL_ANTIALIAS_MODE_2 OR VI_CTRL_PIXEL_ADV_3)
          (WIDTH 320) (BURST 57 34 5 62) (VSYNC 524) (HSYNC 3093 0) (LEAP 3093 3093)
          (HSTART 108 748) (SCALE 2 0) (VCURRENT 0))
       [OSViFieldRegs.make
          (ORIGIN 640) (SCALE 1 (1 / 4)) (HSTART 35 509) (BURST 4 2 14 0) (VINTR 2),
        OSViFieldRegs.make
          (ORIGIN 640) (SCALE 1 (3 / 4)) (HSTART 37 511) (BURST 4 2 14 0) (VINTR 2)]"

definition osViModeNtscLan1 :: OSViMode where
  "osViModeNtscLan1 =
     OSViMode.make OS_VI_NTSC_LAN1
       (OSViCommonRegs.make
          (VI_CTRL_TYPE_16 OR VI_CTRL_GAMMA_DITHER_ON OR VI_CTRL_GAMMA_ON OR
          VI_CTRL_DIVOT_ON OR VI_CTRL_ANTIALIAS_MODE_1 OR VI_CTRL_PIXEL_ADV_3) (WIDTH 320)
          (BURST 57 34 5 62) (VSYNC 525) (HSYNC 3093 0) (LEAP 3093 3093) (HSTART 108 748)
          (SCALE 2 0) (VCURRENT 0))
       [OSViFieldRegs.make
          (ORIGIN 640) (SCALE 1 0) (HSTART 37 511) (BURST 4 2 14 0) (VINTR 2),
        OSViFieldRegs.make
          (ORIGIN 640) (SCALE 1 0) (HSTART 37 511) (BURST 4 2 14 0) (VINTR 2)]"

definition osViModeNtscLaf1 :: OSViMode where
  "osViModeNtscLaf1 =
     OSViMode.make OS_VI_NTSC_LAF1
       (OSViCommonRegs.make
          (VI_CTRL_TYPE_16 OR VI_CTRL_GAMMA_DITHER_ON OR VI_CTRL_GAMMA_ON OR
          VI_CTRL_DIVOT_ON OR VI_CTRL_SERRATE_ON OR VI_CTRL_ANTIALIAS_MODE_0 OR
          VI_CTRL_PIXEL_ADV_3) (WIDTH 320) (BURST 57 34 5 62) (VSYNC 524) (HSYNC 3093 0)
          (LEAP 3093 3093) (HSTART 108 748) (SCALE 2 0) (VCURRENT 0))
       [OSViFieldRegs.make
          (ORIGIN 640) (SCALE 1 (1 / 4)) (HSTART 35 509) (BURST 4 2 14 0) (VINTR 2),
        OSViFieldRegs.make
          (ORIGIN 640) (SCALE 1 (3 / 4)) (HSTART 37 511) (BURST 4 2 14 0) (VINTR 2)]"

definition osViModeNtscLpn2 :: OSViMode where
  "osViModeNtscLpn2 =
     OSViMode.make OS_VI_NTSC_LPN2
       (OSViCommonRegs.make
          (VI_CTRL_TYPE_32 OR VI_CTRL_GAMMA_DITHER_ON OR VI_CTRL_GAMMA_ON OR
          VI_CTRL_ANTIALIAS_MODE_3 OR VI_CTRL_PIXEL_ADV_3) (WIDTH 320) (BURST 57 34 5 62)
          (VSYNC 525) (HSYNC 3093 0) (LEAP 3093 3093) (HSTART 108 748) (SCALE 2 0)
          (VCURRENT 0))
       [OSViFieldRegs.make
          (ORIGIN 1280) (SCALE 1 0) (HSTART 37 511) (BURST 4 2 14 0) (VINTR 2),
        OSViFieldRegs.make
          (ORIGIN 1280) (SCALE 1 0) (HSTART 37 511) (BURST 4 2 14 0) (VINTR 2)]"

definition osViModeNtscLpf2 :: OSViMode where
  "osViModeNtscLpf2 =
     OSViMode.make OS_VI_NTSC_LPF2
       (OSViCommonRegs.make
          (VI_CTRL_TYPE_32 OR VI_CTRL_GAMMA_DITHER_ON OR VI_CTRL_GAMMA_ON OR
          VI_CTRL_SERRATE_ON OR VI_CTRL_ANTIALIAS_MODE_2 OR VI_CTRL_PIXEL_ADV_3)
          (WIDTH 320) (BURST 57 34 5 62) (VSYNC 524) (HSYNC 3093 0) (LEAP 3093 3093)
          (HSTART 108 748) (SCALE 2 0) (VCURRENT 0))
       [OSViFieldRegs.make
          (ORIGIN 1280) (SCALE 1 (1 / 4)) (HSTART 35 509) (BURST 4 2 14 0) (VINTR 2),
        OSViFieldRegs.make
          (ORIGIN 1280) (SCALE 1 (3 / 4)) (HSTART 37 511) (BURST 4 2 14 0) (VINTR 2)]"

definition osViModeNtscLan2 :: OSViMode where
  "osViModeNtscLan2 =
     OSViMode.make OS_VI_NTSC_LAN2
       (OSViCommonRegs.make
          (VI_CTRL_TYPE_32 OR VI_CTRL_GAMMA_DITHER_ON OR VI_CTRL_GAMMA_ON OR
          VI_CTRL_DIVOT_ON OR VI_CTRL_ANTIALIAS_MODE_0 OR VI_CTRL_PIXEL_ADV_3) (WIDTH 320)
          (BURST 57 34 5 62) (VSYNC 525) (HSYNC 3093 0) (LEAP 3093 3093) (HSTART 108 748)
          (SCALE 2 0) (VCURRENT 0))
       [OSViFieldRegs.make
          (ORIGIN 1280) (SCALE 1 0) (HSTART 37 511) (BURST 4 2 14 0) (VINTR 2),
        OSViFieldRegs.make
          (ORIGIN 1280) (SCALE 1 0) (HSTART 37 511) (BURST 4 2 14 0) (VINTR 2)]"

definition osViModeNtscLaf2 :: OSViMode where
  "osViModeNtscLaf2 =
     OSViMode.make OS_VI_NTSC_LAF2
       (OSViCommonRegs.make
          (VI_CTRL_TYPE_32 OR VI_CTRL_GAMMA_DITHER_ON OR VI_CTRL_GAMMA_ON OR
          VI_CTRL_DIVOT_ON OR VI_CTRL_SERRATE_ON OR VI_CTRL_ANTIALIAS_MODE_0 OR
          VI_CTRL_PIXEL_ADV_3) (WIDTH 320) (BURST 57 34 5 62) (VSYNC 524) (HSYNC 3093 0)
          (LEAP 3093 3093) (HSTART 108 748) (SCALE 2 0) (VCURRENT 0))
       [OSViFieldRegs.make
          (ORIGIN 1280) (SCALE 1 (1 / 4)) (HSTART 35 509) (BURST 4 2 14 0) (VINTR 2),
        OSViFieldRegs.make
          (ORIGIN 1280) (SCALE 1 (3 / 4)) (HSTART 37 511) (BURST 4 2 14 0) (VINTR 2)]"

definition osViModeNtscHpn1 :: OSViMode where
  "osViModeNtscHpn1 =
     OSViMode.make OS_VI_NTSC_HPN1
       (OSViCommonRegs.make
          (VI_CTRL_TYPE_16 OR VI_CTRL_GAMMA_DITHER_ON OR VI_CTRL_GAMMA_ON OR
          VI_CTRL_SERRATE_ON OR VI_CTRL_ANTIALIAS_MODE_2 OR VI_CTRL_PIXEL_ADV_3)
          (WIDTH 1280) (BURST 57 34 5 62) (VSYNC 524) (HSYNC 3093 0) (LEAP 3093 3093)
          (HSTART 108 748) (SCALE 1 0) (VCURRENT 0))
       [OSViFieldRegs.make
          (ORIGIN 1280) (SCALE 1 0) (HSTART 35 509) (BURST 4 2 14 0) (VINTR 2),
        OSViFieldRegs.make
          (ORIGIN 2560) (SCALE 1 0) (HSTART 37 511) (BURST 4 2 14 0) (VINTR 2)]"

definition osViModeNtscHpf1 :: OSViMode where
  "osViModeNtscHpf1 =
     OSViMode.make OS_VI_NTSC_HPF1
       (OSViCommonRegs.make
          (VI_CTRL_TYPE_16 OR VI_CTRL_GAMMA_DITHER_ON OR VI_CTRL_GAMMA_ON OR
          VI_CTRL_SERRATE_ON OR VI_CTRL_ANTIALIAS_MODE_2 OR VI_CTRL_PIXEL_ADV_3)
          (WIDTH 640) (BURST 57 34 5 62) (VSYNC 524) (HSYNC 3093 0) (LEAP 3093 3093)
          (HSTART 108 748) (SCALE 1 0) (VCURRENT 0))
       [OSViFieldRegs.make
          (ORIGIN 1280) (SCALE (1 / 2) (1 / 2)) (HSTART 35 509) (BURST 4 2 14 0) (VINTR 2),
        OSViFieldRegs.make
          (ORIGIN 2560) (SCALE (1 / 2) (1 / 2)) (HSTART 37 511) (BURST 4 2 14 0) (VINTR 2)]"

definition osViModeNtscHan1 :: OSViMode where
  "osViModeNtscHan1 =
     OSViMode.make OS_VI_NTSC_HAN1
       (OSViCommonRegs.make
          (VI_CTRL_TYPE_16 OR VI_CTRL_GAMMA_DITHER_ON OR VI_CTRL_GAMMA_ON OR
          VI_CTRL_DIVOT_ON OR VI_CTRL_SERRATE_ON OR VI_CTRL_ANTIALIAS_MODE_0 OR
          VI_CTRL_PIXEL_ADV_3) (WIDTH 1280) (BURST 57 34 5 62) (VSYNC 524) (HSYNC 3093 0)
          (LEAP 3093 3093) (HSTART 108 748) (SCALE 1 0) (VCURRENT 0))
       [OSViFieldRegs.make
          (ORIGIN 1280) (SCALE 1 0) (HSTART 35 509) (BURST 4 2 14 0) (VINTR 2),
        OSViFieldRegs.make
          (ORIGIN 2560) (SCALE 1 0) (HSTART 37 511) (BURST 4 2 14 0) (VINTR 2)]"

definition osViModeNtscHaf1 :: OSViMode where
  "osViModeNtscHaf1 =
     OSViMode.make OS_VI_NTSC_HAF1
       (OSViCommonRegs.make
          (VI_CTRL_TYPE_16 OR VI_CTRL_GAMMA_DITHER_ON OR VI_CTRL_GAMMA_ON OR
          VI_CTRL_DIVOT_ON OR VI_CTRL_SERRATE_ON OR VI_CTRL_ANTIALIAS_MODE_0 OR
          VI_CTRL_PIXEL_ADV_3) (WIDTH 640) (BURST 57 34 5 62) (VSYNC 524) (HSYNC 3093 0)
          (LEAP 3093 3093) (HSTART 108 748) (SCALE 1 0) (VCURRENT 0))
       [OSViFieldRegs.make
          (ORIGIN 1280) (SCALE (1 / 2) (1 / 2)) (HSTART 35 509) (BURST 4 2 14 0) (VINTR 2),
        OSViFieldRegs.make
          (ORIGIN 2560) (SCALE (1 / 2) (1 / 2)) (HSTART 37 511) (BURST 4 2 14 0) (VINTR 2)]"

definition osViModeNtscHpn2 :: OSViMode where
  "osViModeNtscHpn2 =
     OSViMode.make OS_VI_NTSC_HPN2
       (OSViCommonRegs.make
          (VI_CTRL_TYPE_32 OR VI_CTRL_GAMMA_DITHER_ON OR VI_CTRL_GAMMA_ON OR
          VI_CTRL_SERRATE_ON OR VI_CTRL_ANTIALIAS_MODE_3 OR VI_CTRL_PIXEL_ADV_3)
          (WIDTH 1280) (BURST 57 34 5 62) (VSYNC 524) (HSYNC 3093 0) (LEAP 3093 3093)
          (HSTART 108 748) (SCALE 1 0) (VCURRENT 0))
       [OSViFieldRegs.make
          (ORIGIN 2560) (SCALE 1 0) (HSTART 35 509) (BURST 4 2 14 0) (VINTR 2),
        OSViFieldRegs.make
          (ORIGIN 5120) (SCALE 1 0) (HSTART 37 511) (BURST 4 2 14 0) (VINTR 2)]"

definition osViModeNtscHpf2 :: OSViMode where
  "osViModeNtscHpf2 =
     OSViMode.make OS_VI_NTSC_HPF2
       (OSViCommonRegs.make
          (VI_CTRL_TYPE_32 OR VI_CTRL_GAMMA_DITHER_ON OR VI_CTRL_GAMMA_ON OR
          VI_CTRL_SERRATE_ON OR VI_CTRL_ANTIALIAS_MODE_2 OR VI_CTRL_PIXEL_ADV_3)
          (WIDTH 640) (BURST 57 34 5 62) (VSYNC 524) (HSYNC 3093 0) (LEAP 3093 3093)
          (HSTART 108 748) (SCALE 1 0) (VCURRENT 0))
       [OSViFieldRegs.make
          (ORIGIN 2560) (SCALE (1 / 2) (1 / 2)) (HSTART 35 509) (BURST 4 2 14 0) (VINTR 2),
        OSViFieldRegs.make
          (ORIGIN 5120) (SCALE (1 / 2) (1 / 2)) (HSTART 37 511) (BURST 4 2 14 0) (VINTR 2)]"

definition osViModePalLpn1 :: OSViMode where
  "osViModePalLpn1 =
     OSViMode.make OS_VI_PAL_LPN1
       (OSViCommonRegs.make
          (VI_CTRL_TYPE_16 OR VI_CTRL_GAMMA_DITHER_ON OR VI_CTRL_GAMMA_ON OR
          VI_CTRL_ANTIALIAS_MODE_2 OR VI_CTRL_PIXEL_ADV_3) (WIDTH 320) (BURST 58 30 4 69)
          (VSYNC 625) (HSYNC 3177 23) (LEAP 3183 3181) (HSTART 128 768) (SCALE 2 0)
          (VCURRENT 0))
       [OSViFieldRegs.make
          (ORIGIN 640) (SCALE 1 0) (HSTART 95 569) (BURST 107 2 9 0) (VINTR 2),
        OSViFieldRegs.make
          (ORIGIN 640) (SCALE 1 0) (HSTART 95 569) (BURST 107 2 9 0) (VINTR 2)]"

definition osViModePalLpf1 :: OSViMode where
  "osViModePalLpf1 =
     OSViMode.make OS_VI_PAL_LPF1
       (OSViCommonRegs.make
          (VI_CTRL_TYPE_16 OR VI_CTRL_GAMMA_DITHER_ON OR VI_CTRL_GAMMA_ON OR
          VI_CTRL_SERRATE_ON OR VI_CTRL_ANTIALIAS_MODE_2 OR VI_CTRL_PIXEL_ADV_3)
          (WIDTH 320) (BURST 58 30 4 69) (VSYNC 624) (HSYNC 3177 23) (LEAP 3183 3181)
          (HSTART 128 768) (SCALE 2 0) (VCURRENT 0))
       [OSViFieldRegs.make
          (ORIGIN 640) (SCALE 1 (1 / 4)) (HSTART 93 567) (BURST 107 2 9 0) (VINTR 2),
        OSViFieldRegs.make
          (ORIGIN 640) (SCALE 1 (3 / 4)) (HSTART 95 569) (BURST 105 2 13 0) (VINTR 2)]"

definition osViModePalLan1 :: OSViMode where
  "osViModePalLan1 =
     OSViMode.make OS_VI_PAL_LAN1
       (OSViCommonRegs.make
          (VI_CTRL_TYPE_16 OR VI_CTRL_GAMMA_DITHER_ON OR VI_CTRL_GAMMA_ON OR
          VI_CTRL_DIVOT_ON OR VI_CTRL_ANTIALIAS_MODE_1 OR VI_CTRL_PIXEL_ADV_3) (WIDTH 320)
          (BURST 58 30 4 69) (VSYNC 625) (HSYNC 3177 23) (LEAP 3183 3181) (HSTART 128 768)
          (SCALE 2 0) (VCURRENT 0))
       [OSViFieldRegs.make
          (ORIGIN 640) (SCALE 1 0) (HSTART 95 569) (BURST 107 2 9 0) (VINTR 2),
        OSViFieldRegs.make
          (ORIGIN 640) (SCALE 1 0) (HSTART 95 569) (BURST 107 2 9 0) (VINTR 2)]"

definition osViModePalLaf1 :: OSViMode where
  "osViModePalLaf1 =
     OSViMode.make OS_VI_PAL_LAF1
       (OSViCommonRegs.make
          (VI_CTRL_TYPE_16 OR VI_CTRL_GAMMA_DITHER_ON OR VI_CTRL_GAMMA_ON OR
          VI_CTRL_DIVOT_ON OR VI_CTRL_SERRATE_ON OR VI_CTRL_ANTIALIAS_MODE_0 OR
          VI_CTRL_PIXEL_ADV_3) (WIDTH 320) (BURST 58 30 4 69) (VSYNC 624) (HSYNC 3177 23)
          (LEAP 3183 3181) (HSTART 128 768) (SCALE 2 0) (VCURRENT 0))
       [OSViFieldRegs.make
          (ORIGIN 640) (SCALE 1 (1 / 4)) (HSTART 93 567) (BURST 107 2 9 0) (VINTR 2),
        OSViFieldRegs.make
          (ORIGIN 640) (SCALE 1 (3 / 4)) (HSTART 95 569) (BURST 105 2 13 0) (VINTR 2)]"

definition osViModePalLpn2 :: OSViMode where
  "osViModePalLpn2 =
     OSViMode.make OS_VI_PAL_LPN2
       (OSViCommonRegs.make
          (VI_CTRL_TYPE_32 OR VI_CTRL_GAMMA_DITHER_ON OR VI_CTRL_GAMMA_ON OR
          VI_CTRL_ANTIALIAS_MODE_3 OR VI_CTRL_PIXEL_ADV_3) (WIDTH 320) (BURST 58 30 4 69)
          (VSYNC 625) (HSYNC 3177 23) (LEAP 3183 3181) (HSTART 128 768) (SCALE 2 0)
          (VCURRENT 0))
       [OSViFieldRegs.make
          (ORIGIN 1280) (SCALE 1 0) (HSTART 95 569) (BURST 107 2 9 0) (VINTR 2),
        OSViFieldRegs.make
          (ORIGIN 1280) (SCALE 1 0) (HSTART 95 569) (BURST 107 2 9 0) (VINTR 2)]"

definition osViModePalLpf2 :: OSViMode where
  "osViModePalLpf2 =
     OSViMode.make OS_VI_PAL_LPF2
       (OSViCommonRegs.make
          (VI_CTRL_TYPE_32 OR VI_CTRL_GAMMA_DITHER_ON OR VI_CTRL_GAMMA_ON OR
          VI_CTRL_SERRATE_ON OR VI_CTRL_ANTIALIAS_MODE_2 OR VI_CTRL_PIXEL_ADV_3)
          (WIDTH 320) (BURST 58 30 4 69) (VSYNC 624) (HSYNC 3177 23) (LEAP 3183 3181)
          (HSTART 128 768) (SCALE 2 0) (VCURRENT 0))
       [OSViFieldRegs.make
          (ORIGIN 1280) (SCALE 1 (1 / 4)) (HSTART 93 567) (BURST 107 2 9 0) (VINTR 2),
        OSViFieldRegs.make
          (ORIGIN 1280) (SCALE 1 (3 / 4)) (HSTART 95 569) (BURST 105 2 13 0) (VINTR 2)]"

definition osViModePalLan2 :: OSViMode where
  "osViModePalLan2 =
     OSViMode.make OS_VI_PAL_LAN2
       (OSViCommonRegs.make
          (VI_CTRL_TYPE_32 OR VI_CTRL_GAMMA_DITHER_ON OR VI_CTRL_GAMMA_ON OR
          VI_CTRL_DIVOT_ON OR VI_CTRL_ANTIALIAS_MODE_0 OR VI_CTRL_PIXEL_ADV_3) (WIDTH 320)
          (BURST 58 30 4 69) (VSYNC 625) (HSYNC 3177 23) (LEAP 3183 3181) (HSTART 128 768)
          (SCALE 2 0) (VCURRENT 0))
       [OSViFieldRegs.make
          (ORIGIN 1280) (SCALE 1 0) (HSTART 95 569) (BURST 107 2 9 0) (VINTR 2),
        OSViFieldRegs.make
          (ORIGIN 1280) (SCALE 1 0) (HSTART 95 569) (BURST 107 2 9 0) (VINTR 2)]"

definition osViModePalLaf2 :: OSViMode where
  "osViModePalLaf2 =
     OSViMode.make OS_VI_PAL_LAF2
       (OSViCommonRegs.make
          (VI_CTRL_TYPE_32 OR VI_CTRL_GAMMA_DITHER_ON OR VI_CTRL_GAMMA_ON OR
          VI_CTRL_DIVOT_ON OR VI_CTRL_SERRATE_ON OR VI_CTRL_ANTIALIAS_MODE_0 OR
          VI_CTRL_PIXEL_ADV_3) (WIDTH 320) (BURST 58 30 4 69) (VSYNC 624) (HSYNC 3177 23)
          (LEAP 3183 3181) (HSTART 128 768) (SCALE 2 0) (VCURRENT 0))
       [OSViFieldRegs.make
          (ORIGIN 1280) (SCALE 1 (1 / 4)) (HSTART 93 567) (BURST 107 2 9 0) (VINTR 2),
        OSViFieldRegs.make
          (ORIGIN 1280) (SCALE 1 (3 / 4)) (HSTART 95 569) (BURST 105 2 13 0) (VINTR 2)]"

definition osViModePalHpn1 :: OSViMode where
  "osViModePalHpn1 =
     OSViMode.make OS_VI_PAL_HPN1
       (OSViCommonRegs.make
          (VI_CTRL_TYPE_16 OR VI_CTRL_GAMMA_DITHER_ON OR VI_CTRL_GAMMA_ON OR
          VI_CTRL_SERRATE_ON OR VI_CTRL_ANTIALIAS_MODE_2 OR VI_CTRL_PIXEL_ADV_3)
          (WIDTH 1280) (BURST 58 30 4 69) (VSYNC 624) (HSYNC 3177 23) (LEAP 3183 3181)
          (HSTART 128 768) (SCALE 1 0) (VCURRENT 0))
       [OSViFieldRegs.make
          (ORIGIN 1280) (SCALE 1 0) (HSTART 93 567) (BURST 107 2 9 0) (VINTR 2),
        OSViFieldRegs.make
          (ORIGIN 2560) (SCALE 1 0) (HSTART 95 569) (BURST 105 2 13 0) (VINTR 2)]"

definition osViModePalHpf1 :: OSViMode where
  "osViModePalHpf1 =
     OSViMode.make OS_VI_PAL_HPF1
       (OSViCommonRegs.make
          (VI_CTRL_TYPE_16 OR VI_CTRL_GAMMA_DITHER_ON OR VI_CTRL_GAMMA_ON OR
          VI_CTRL_SERRATE_ON OR VI_CTRL_ANTIALIAS_MODE_2 OR VI_CTRL_PIXEL_ADV_3)
          (WIDTH 640) (BURST 58 30 4 69) (VSYNC 624) (HSYNC 3177 23) (LEAP 3183 3181)
          (HSTART 128 768) (SCALE 1 0) (VCURRENT 0))
       [OSViFieldRegs.make
          (ORIGIN 1280) (SCALE (1 / 2) (1 / 2)) (HSTART 93 567) (BURST 107 2 9 0)
          (VINTR 2),
        OSViFieldRegs.make
          (ORIGIN 2560) (SCALE (1 / 2) (1 / 2)) (HSTART 95 569) (BURST 105 2 13 0)
          (VINTR 2)]"

definition osViModePalHan1 :: OSViMode where
  "osViModePalHan1 =
     OSViMode.make OS_VI_PAL_HAN1
       (OSViCommonRegs.make
          (VI_CTRL_TYPE_16 OR VI_CTRL_GAMMA_DITHER_ON OR VI_CTRL_GAMMA_ON OR
          VI_CTRL_DIVOT_ON OR VI_CTRL_SERRATE_ON OR VI_CTRL_ANTIALIAS_MODE_0 OR
          VI_CTRL_PIXEL_ADV_3) (WIDTH 1280) (BURST 58 30 4 69) (VSYNC 624) (HSYNC 3177 23)
          (LEAP 3183 3181) (HSTART 128 768) (SCALE 1 0) (VCURRENT 0))
       [OSViFieldRegs.make
          (ORIGIN 1280) (SCALE 1 0) (HSTART 93 567) (BURST 107 2 9 0) (VINTR 2),
        OSViFieldRegs.make
          (ORIGIN 2560) (SCALE 1 0) (HSTART 95 569) (BURST 105 2 13 0) (VINTR 2)]"

definition osViModePalHaf1 :: OSViMode where
  "osViModePalHaf1 =
     OSViMode.make OS_VI_PAL_HAF1
       (OSViCommonRegs.make
          (VI_CTRL_TYPE_16 OR VI_CTRL_GAMMA_DITHER_ON OR VI_CTRL_GAMMA_ON OR
          VI_CTRL_DIVOT_ON OR VI_CTRL_SERRATE_ON OR VI_CTRL_ANTIALIAS_MODE_0 OR
          VI_CTRL_PIXEL_ADV_3) (WIDTH 640) (BURST 58 30 4 69) (VSYNC 624) (HSYNC 3177 23)
          (LEAP 3183 3181) (HSTART 128 768) (SCALE 1 0) (VCURRENT 0))
       [OSViFieldRegs.make
          (ORIGIN 1280) (SCALE (1 / 2) (1 / 2)) (HSTART 93 567) (BURST 107 2 9 0)
          (VINTR 2),
        OSViFieldRegs.make
          (ORIGIN 2560) (SCALE (1 / 2) (1 / 2)) (HSTART 95 569) (BURST 105 2 13 0)
          (VINTR 2)]"

definition osViModePalHpn2 :: OSViMode where
  "osViModePalHpn2 =
     OSViMode.make OS_VI_PAL_HPN2
       (OSViCommonRegs.make
          (VI_CTRL_TYPE_32 OR VI_CTRL_GAMMA_DITHER_ON OR VI_CTRL_GAMMA_ON OR
          VI_CTRL_SERRATE_ON OR VI_CTRL_ANTIALIAS_MODE_3 OR VI_CTRL_PIXEL_ADV_3)
          (WIDTH 1280) (BURST 58 30 4 69) (VSYNC 624) (HSYNC 3177 23) (LEAP 3183 3181)
          (HSTART 128 768) (SCALE 1 0) (VCURRENT 0))
       [OSViFieldRegs.make
          (ORIGIN 2560) (SCALE 1 0) (HSTART 93 567) (BURST 107 2 9 0) (VINTR 2),
        OSViFieldRegs.make
          (ORIGIN 5120) (SCALE 1 0) (HSTART 95 569) (BURST 105 2 13 0) (VINTR 2)]"

definition osViModePalHpf2 :: OSViMode where
  "osViModePalHpf2 =
     OSViMode.make OS_VI_PAL_HPF2
       (OSViCommonRegs.make
          (VI_CTRL_TYPE_32 OR VI_CTRL_GAMMA_DITHER_ON OR VI_CTRL_GAMMA_ON OR
          VI_CTRL_SERRATE_ON OR VI_CTRL_ANTIALIAS_MODE_2 OR VI_CTRL_PIXEL_ADV_3)
          (WIDTH 640) (BURST 58 30 4 69) (VSYNC 624) (HSYNC 3177 23) (LEAP 3183 3181)
          (HSTART 128 768) (SCALE 1 0) (VCURRENT 0))
       [OSViFieldRegs.make
          (ORIGIN 2560) (SCALE (1 / 2) (1 / 2)) (HSTART 93 567) (BURST 107 2 9 0)
          (VINTR 2),
        OSViFieldRegs.make
          (ORIGIN 5120) (SCALE (1 / 2) (1 / 2)) (HSTART 95 569) (BURST 105 2 13 0)
          (VINTR 2)]"

definition osViModeMpalLpn1 :: OSViMode where
  "osViModeMpalLpn1 =
     OSViMode.make OS_VI_MPAL_LPN1
       (OSViCommonRegs.make
          (VI_CTRL_TYPE_16 OR VI_CTRL_GAMMA_DITHER_ON OR VI_CTRL_GAMMA_ON OR
          VI_CTRL_ANTIALIAS_MODE_2 OR VI_CTRL_PIXEL_ADV_3) (WIDTH 320) (BURST 57 30 5 70)
          (VSYNC 525) (HSYNC 3089 4) (LEAP 3097 3098) (HSTART 108 748) (SCALE 2 0)
          (VCURRENT 0))
       [OSViFieldRegs.make
          (ORIGIN 640) (SCALE 1 0) (HSTART 37 511) (BURST 4 2 14 0) (VINTR 2),
        OSViFieldRegs.make
          (ORIGIN 640) (SCALE 1 0) (HSTART 37 511) (BURST 4 2 14 0) (VINTR 2)]"

definition osViModeMpalLpf1 :: OSViMode where
  "osViModeMpalLpf1 =
     OSViMode.make OS_VI_MPAL_LPF1
       (OSViCommonRegs.make
          (VI_CTRL_TYPE_16 OR VI_CTRL_GAMMA_DITHER_ON OR VI_CTRL_GAMMA_ON OR
          VI_CTRL_SERRATE_ON OR VI_CTRL_ANTIALIAS_MODE_2 OR VI_CTRL_PIXEL_ADV_3)
          (WIDTH 320) (BURST 57 30 5 70) (VSYNC 524) (HSYNC 3088 0) (LEAP 3100 3100)
          (HSTART 108 748) (SCALE 2 0) (VCURRENT 0))
       [OSViFieldRegs.make
          (ORIGIN 640) (SCALE 1 (1 / 4)) (HSTART 35 509) (BURST 2 2 11 0) (VINTR 2),
        OSViFieldRegs.make
          (ORIGIN 640) (SCALE 1 (3 / 4)) (HSTART 37 511) (BURST 4 2 14 0) (VINTR 2)]"

definition osViModeMpalLan1 :: OSViMode where
  "osViModeMpalLan1 =
     OSViMode.make OS_VI_MPAL_LAN1
       (OSViCommonRegs.make
          (VI_CTRL_TYPE_16 OR VI_CTRL_GAMMA_DITHER_ON OR VI_CTRL_GAMMA_ON OR
          VI_CTRL_DIVOT_ON OR VI_CTRL_ANTIALIAS_MODE_1 OR VI_CTRL_PIXEL_ADV_3) (WIDTH 320)
          (BURST 57 30 5 70) (VSYNC 525) (HSYNC 3089 4) (LEAP 3097 3098) (HSTART 108 748)
          (SCALE 2 0) (VCURRENT 0))
       [OSViFieldRegs.make
          (ORIGIN 640) (SCALE 1 0) (HSTART 37 511) (BURST 4 2 14 0) (VINTR 2),
        OSViFieldRegs.make
          (ORIGIN 640) (SCALE 1 0) (HSTART 37 511) (BURST 4 2 14 0) (VINTR 2)]"

definition osViModeMpalLaf1 :: OSViMode where
  "osViModeMpalLaf1 =
     OSViMode.make OS_VI_MPAL_LAF1
       (OSViCommonRegs.make
          (VI_CTRL_TYPE_16 OR VI_CTRL_GAMMA_DITHER_ON OR VI_CTRL_GAMMA_ON OR
          VI_CTRL_DIVOT_ON OR VI_CTRL_SERRATE_ON OR VI_CTRL_ANTIALIAS_MODE_0 OR
          VI_CTRL_PIXEL_ADV_3) (WIDTH 320) (BURST 57 30 5 70) (VSYNC 524) (HSYNC 3088 0)
          (LEAP 3100 3100) (HSTART 108 748) (SCALE 2 0) (VCURRENT 0))
       [OSViFieldRegs.make
          (ORIGIN 640) (SCALE 1 (1 / 4)) (HSTART 35 509) (BURST 2 2 11 0) (VINTR 2),
        OSViFieldRegs.make
          (ORIGIN 640) (SCALE 1 (3 / 4)) (HSTART 37 511) (BURST 4 2 14 0) (VINTR 2)]"

definition osViModeMpalLpn2 :: OSViMode where
  "osViModeMpalLpn2 =
     OSViMode.make OS_VI_MPAL_LPN2
       (OSViCommonRegs.make
          (VI_CTRL_TYPE_32 OR VI_CTRL_GAMMA_DITHER_ON OR VI_CTRL_GAMMA_ON OR
          VI_CTRL_ANTIALIAS_MODE_3 OR VI_CTRL_PIXEL_ADV_3) (WIDTH 320) (BURST 57 30 5 70)
          (VSYNC 525) (HSYNC 3089 4) (LEAP 3097 3098) (HSTART 108 748) (SCALE 2 0)
          (VCURRENT 0))
       [OSViFieldRegs.make
          (ORIGIN 1280) (SCALE 1 0) (HSTART 37 511) (BURST 4 2 14 0) (VINTR 2),
        OSViFieldRegs.make
          (ORIGIN 1280) (SCALE 1 0) (HSTART 37 511) (BURST 4 2 14 0) (VINTR 2)]"

definition osViModeMpalLpf2 :: OSViMode where
  "osViModeMpalLpf2 =
     OSViMode.make OS_VI_MPAL_LPF2
       (OSViCommonRegs.make
          (VI_CTRL_TYPE_32 OR VI_CTRL_GAMMA_DITHER_ON OR VI_CTRL_GAMMA_ON OR
          VI_CTRL_SERRATE_ON OR VI_CTRL_ANTIALIAS_MODE_2 OR VI_CTRL_PIXEL_ADV_3)
          (WIDTH 320) (BURST 57 30 5 70) (VSYNC 524) (HSYNC 3088 0) (LEAP 3100 3100)
          (HSTART 108 748) (SCALE 2 0) (VCURRENT 0))
       [OSViFieldRegs.make
          (ORIGIN 1280) (SCALE 1 (1 / 4)) (HSTART 35 509) (BURST 2 2 11 0) (VINTR 2),
        OSViFieldRegs.make
          (ORIGIN 1280) (SCALE 1 (3 / 4)) (HSTART 37 511) (BURST 4 2 14 0) (VINTR 2)]"

definition osViModeMpalLan2 :: OSViMode where
  "osViModeMpalLan2 =
     OSViMode.make OS_VI_MPAL_LAN2
       (OSViCommonRegs.make
          (VI_CTRL_TYPE_32 OR VI_CTRL_GAMMA_DITHER_ON OR VI_CTRL_GAMMA_ON OR
          VI_CTRL_DIVOT_ON OR VI_CTRL_ANTIALIAS_MODE_0 OR VI_CTRL_PIXEL_ADV_3) (WIDTH 320)
          (BURST 57 30 5 70) (VSYNC 525) (HSYNC 3089 4) (LEAP 3097 3098) (HSTART 108 748)
          (SCALE 2 0) (VCURRENT 0))
       [OSViFieldRegs.make
          (ORIGIN 1280) (SCALE 1 0) (HSTART 37 511) (BURST 4 2 14 0) (VINTR 2),
        OSViFieldRegs.make
          (ORIGIN 1280) (SCALE 1 0) (HSTART 37 511) (BURST 4 2 14 0) (VINTR 2)]"

definition osViModeMpalLaf2 :: OSViMode where
  "osViModeMpalLaf2 =
     OSViMode.make OS_VI_MPAL_LAF2
       (OSViCommonRegs.make
          (VI_CTRL_TYPE_32 OR VI_CTRL_GAMMA_DITHER_ON OR VI_CTRL_GAMMA_ON OR
          VI_CTRL_DIVOT_ON OR VI_CTRL_SERRATE_ON OR VI_CTRL_ANTIALIAS_MODE_0 OR
          VI_CTRL_PIXEL_ADV_3) (WIDTH 320) (BURST 57 30 5 70) (VSYNC 524) (HSYNC 3088 0)
          (LEAP 3100 3100) (HSTART 108 748) (SCALE 2 0) (VCURRENT 0))
       [OSViFieldRegs.make
          (ORIGIN 1280) (SCALE 1 (1 / 4)) (HSTART 35 509) (BURST 2 2 11 0) (VINTR 2),
        OSViFieldRegs.make
          (ORIGIN 1280) (SCALE 1 (3 / 4)) (HSTART 37 511) (BURST 4 2 14 0) (VINTR 2)]"

definition osViModeMpalHpn1 :: OSViMode where
  "osViModeMpalHpn1 =
     OSViMode.make OS_VI_MPAL_HPN1
       (OSViCommonRegs.make
          (VI_CTRL_TYPE_16 OR VI_CTRL_GAMMA_DITHER_ON OR VI_CTRL_GAMMA_ON OR
          VI_CTRL_SERRATE_ON OR VI_CTRL_ANTIALIAS_MODE_2 OR VI_CTRL_PIXEL_ADV_3)
          (WIDTH 1280) (BURST 57 30 5 70) (VSYNC 524) (HSYNC 3088 0) (LEAP 3100 3100)
          (HSTART 108 748) (SCALE 1 0) (VCURRENT 0))
       [OSViFieldRegs.make
          (ORIGIN 1280) (SCALE 1 0) (HSTART 35 509) (BURST 2 2 11 0) (VINTR 2),
        OSViFieldRegs.make
          (ORIGIN 2560) (SCALE 1 0) (HSTART 37 511) (BURST 4 2 14 0) (VINTR 2)]"

definition osViModeMpalHpf1 :: OSViMode where
  "osViModeMpalHpf1 =
     OSViMode.make OS_VI_MPAL_HPF1
       (OSViCommonRegs.make
          (VI_CTRL_TYPE_16 OR VI_CTRL_GAMMA_DITHER_ON OR VI_CTRL_GAMMA_ON OR
          VI_CTRL_SERRATE_ON OR VI_CTRL_ANTIALIAS_MODE_2 OR VI_CTRL_PIXEL_ADV_3)
          (WIDTH 640) (BURST 57 30 5 70) (VSYNC 524) (HSYNC 3088 0) (LEAP 3100 3100)
          (HSTART 108 748) (SCALE 1 0) (VCURRENT 0))
       [OSViFieldRegs.make
          (ORIGIN 1280) (SCALE (1 / 2) (1 / 2)) (HSTART 35 509) (BURST 2 2 11 0) (VINTR 2),
        OSViFieldRegs.make
          (ORIGIN 2560) (SCALE (1 / 2) (1 / 2)) (HSTART 37 511) (BURST 4 2 14 0) (VINTR 2)]"

definition osViModeMpalHan1 :: OSViMode where
  "osViModeMpalHan1 =
     OSViMode.make OS_VI_MPAL_HAN1
       (OSViCommonRegs.make
          (VI_CTRL_TYPE_16 OR VI_CTRL_GAMMA_DITHER_ON OR VI_CTRL_GAMMA_ON OR
          VI_CTRL_DIVOT_ON OR VI_CTRL_SERRATE_ON OR VI_CTRL_ANTIALIAS_MODE_0 OR
          VI_CTRL_PIXEL_ADV_3) (WIDTH 1280) (BURST 57 30 5 70) (VSYNC 524) (HSYNC 3088 0)
          (LEAP 3100 3100) (HSTART 108 748) (SCALE 1 0) (VCURRENT 0))
       [OSViFieldRegs.make
          (ORIGIN 1280) (SCALE 1 0) (HSTART 35 509) (BURST 2 2 11 0) (VINTR 2),
        OSViFieldRegs.make
          (ORIGIN 2560) (SCALE 1 0) (HSTART 37 511) (BURST 4 2 14 0) (VINTR 2)]"

definition osViModeMpalHaf1 :: OSViMode where
  "osViModeMpalHaf1 =
     OSViMode.make OS_VI_MPAL_HAF1
       (OSViCommonRegs.make
          (VI_CTRL_TYPE_16 OR VI_CTRL_GAMMA_DITHER_ON OR VI_CTRL_GAMMA_ON OR
          VI_CTRL_DIVOT_ON OR VI_CTRL_SERRATE_ON OR VI_CTRL_ANTIALIAS_MODE_0 OR
          VI_CTRL_PIXEL_ADV_3) (WIDTH 640) (BURST 57 30 5 70) (VSYNC 524) (HSYNC 3088 0)
          (LEAP 3100 3100) (HSTART 108 748) (SCALE 1 0) (VCURRENT 0))
       [OSViFieldRegs.make
          (ORIGIN 1280) (SCALE (1 / 2) (1 / 2)) (HSTART 35 509) (BURST 2 2 11 0) (VINTR 2),
        OSViFieldRegs.make
          (ORIGIN 2560) (SCALE (1 / 2) (1 / 2)) (HSTART 37 511) (BURST 4 2 14 0) (VINTR 2)]"

definition osViModeMpalHpn2 :: OSViMode where
  "osViModeMpalHpn2 =
     OSViMode.make OS_VI_MPAL_HPN2
       (OSViCommonRegs.make
          (VI_CTRL_TYPE_32 OR VI_CTRL_GAMMA_DITHER_ON OR VI_CTRL_GAMMA_ON OR
          VI_CTRL_SERRATE_ON OR VI_CTRL_ANTIALIAS_MODE_3 OR VI_CTRL_PIXEL_ADV_3)
          (WIDTH 1280) (BURST 57 30 5 70) (VSYNC 524) (HSYNC 3088 0) (LEAP 3100 3100)
          (HSTART 108 748) (SCALE 1 0) (VCURRENT 0))
       [OSViFieldRegs.make
          (ORIGIN 2560) (SCALE 1 0) (HSTART 35 509) (BURST 2 2 11 0) (VINTR 2),
        OSViFieldRegs.make
          (ORIGIN 5120) (SCALE 1 0) (HSTART 37 511) (BURST 4 2 14 0) (VINTR 2)]"

definition osViModeMpalHpf2 :: OSViMode where
  "osViModeMpalHpf2 =
     OSViMode.make OS_VI_MPAL_HPF2
       (OSViCommonRegs.make
          (VI_CTRL_TYPE_32 OR VI_CTRL_GAMMA_DITHER_ON OR VI_CTRL_GAMMA_ON OR
          VI_CTRL_SERRATE_ON OR VI_CTRL_ANTIALIAS_MODE_2 OR VI_CTRL_PIXEL_ADV_3)
          (WIDTH 640) (BURST 57 30 5 70) (VSYNC 524) (HSYNC 3088 0) (LEAP 3100 3100)
          (HSTART 108 748) (SCALE 1 0) (VCURRENT 0))
       [OSViFieldRegs.make
          (ORIGIN 2560) (SCALE (1 / 2) (1 / 2)) (HSTART 35 509) (BURST 2 2 11 0) (VINTR 2),
        OSViFieldRegs.make
          (ORIGIN 5120) (SCALE (1 / 2) (1 / 2)) (HSTART 37 511) (BURST 4 2 14 0) (VINTR 2)]"

definition osViModeFpalLpn1 :: OSViMode where
  "osViModeFpalLpn1 =
     OSViMode.make OS_VI_FPAL_LPN1
       (OSViCommonRegs.make
          (VI_CTRL_TYPE_16 OR VI_CTRL_GAMMA_DITHER_ON OR VI_CTRL_GAMMA_ON OR
          VI_CTRL_ANTIALIAS_MODE_2 OR VI_CTRL_PIXEL_ADV_3) (WIDTH 320) (BURST 58 30 4 69)
          (VSYNC 625) (HSYNC 3177 23) (LEAP 3183 3181) (HSTART 128 768) (SCALE 2 0)
          (VCURRENT 0))
       [OSViFieldRegs.make
          (ORIGIN 640) (SCALE 1 0) (HSTART 47 617) (BURST 107 2 9 0) (VINTR 2),
        OSViFieldRegs.make
          (ORIGIN 640) (SCALE 1 0) (HSTART 47 617) (BURST 107 2 9 0) (VINTR 2)]"

definition osViModeFpalLpf1 :: OSViMode where
  "osViModeFpalLpf1 =
     OSViMode.make OS_VI_FPAL_LPF1
       (OSViCommonRegs.make
          (VI_CTRL_TYPE_16 OR VI_CTRL_GAMMA_DITHER_ON OR VI_CTRL_GAMMA_ON OR
          VI_CTRL_SERRATE_ON OR VI_CTRL_ANTIALIAS_MODE_2 OR VI_CTRL_PIXEL_ADV_3)
          (WIDTH 320) (BURST 58 30 4 69) (VSYNC 624) (HSYNC 3177 23) (LEAP 3183 3181)
          (HSTART 128 768) (SCALE 2 0) (VCURRENT 0))
       [OSViFieldRegs.make
          (ORIGIN 640) (SCALE 1 (1 / 4)) (HSTART 45 615) (BURST 107 2 9 0) (VINTR 2),
        OSViFieldRegs.make
          (ORIGIN 640) (SCALE 1 (3 / 4)) (HSTART 47 617) (BURST 105 2 13 0) (VINTR 2)]"

definition osViModeFpalLan1 :: OSViMode where
  "osViModeFpalLan1 =
     OSViMode.make OS_VI_FPAL_LAN1
       (OSViCommonRegs.make
          (VI_CTRL_TYPE_16 OR VI_CTRL_GAMMA_DITHER_ON OR VI_CTRL_GAMMA_ON OR
          VI_CTRL_DIVOT_ON OR VI_CTRL_ANTIALIAS_MODE_1 OR VI_CTRL_PIXEL_ADV_3) (WIDTH 320)
          (BURST 58 30 4 69) (VSYNC 625) (HSYNC 3177 23) (LEAP 3183 3181) (HSTART 128 768)
          (SCALE 2 0) (VCURRENT 0))
       [OSViFieldRegs.make
          (ORIGIN 640) (SCALE 1 0) (HSTART 47 617) (BURST 107 2 9 0) (VINTR 2),
        OSViFieldRegs.make
          (ORIGIN 640) (SCALE 1 0) (HSTART 47 617) (BURST 107 2 9 0) (VINTR 2)]"

definition osViModeFpalLaf1 :: OSViMode where
  "osViModeFpalLaf1 =
     OSViMode.make OS_VI_FPAL_LAF1
       (OSViCommonRegs.make
          (VI_CTRL_TYPE_16 OR VI_CTRL_GAMMA_DITHER_ON OR VI_CTRL_GAMMA_ON OR
          VI_CTRL_DIVOT_ON OR VI_CTRL_SERRATE_ON OR VI_CTRL_ANTIALIAS_MODE_0 OR
          VI_CTRL_PIXEL_ADV_3) (WIDTH 320) (BURST 58 30 4 69) (VSYNC 624) (HSYNC 3177 23)
          (LEAP 3183 3181) (HSTART 128 768) (SCALE 2 0) (VCURRENT 0))
       [OSViFieldRegs.make
          (ORIGIN 640) (SCALE 1 (1 / 4)) (HSTART 45 615) (BURST 107 2 9 0) (VINTR 2),
        OSViFieldRegs.make
          (ORIGIN 640) (SCALE 1 (3 / 4)) (HSTART 47 617) (BURST 105 2 13 0) (VINTR 2)]"

definition osViModeFpalLpn2 :: OSViMode where
  "osViModeFpalLpn2 =
     OSViMode.make OS_VI_FPAL_LPN2
       (OSViCommonRegs.make
          (VI_CTRL_TYPE_32 OR VI_CTRL_GAMMA_DITHER_ON OR VI_CTRL_GAMMA_ON OR
          VI_CTRL_ANTIALIAS_MODE_3 OR VI_CTRL_PIXEL_ADV_3) (WIDTH 320) (BURST 58 30 4 69)
          (VSYNC 625) (HSYNC 3177 23) (LEAP 3183 3181) (HSTART 128 768) (SCALE 2 0)
          (VCURRENT 0))
       [OSViFieldRegs.make
          (ORIGIN 1280) (SCALE 1 0) (HSTART 47 617) (BURST 107 2 9 0) (VINTR 2),
        OSViFieldRegs.make
          (ORIGIN 1280) (SCALE 1 0) (HSTART 47 617) (BURST 107 2 9 0) (VINTR 2)]"

definition osViModeFpalLpf2 :: OSViMode where
  "osViModeFpalLpf2 =
     OSViMode.make OS_VI_FPAL_LPF2
       (OSViCommonRegs.make
          (VI_CTRL_TYPE_32 OR VI_CTRL_GAMMA_DITHER_ON OR VI_CTRL_GAMMA_ON OR
          VI_CTRL_SERRATE_ON OR VI_CTRL_ANTIALIAS_MODE_2 OR VI_CTRL_PIXEL_ADV_3)
          (WIDTH 320) (BURST 58 30 4 69) (VSYNC 624) (HSYNC 3177 23) (LEAP 3183 3181)
          (HSTART 128 768) (SCALE 2 0) (VCURRENT 0))
       [OSViFieldRegs.make
          (ORIGIN 1280) (SCALE 1 (1 / 4)) (HSTART 45 615) (BURST 107 2 9 0) (VINTR 2),
        OSViFieldRegs.make
          (ORIGIN 1280) (SCALE 1 (3 / 4)) (HSTART 47 617) (BURST 105 2 13 0) (VINTR 2)]"

definition osViModeFpalLan2 :: OSViMode where
  "osViModeFpalLan2 =
     OSViMode.make OS_VI_FPAL_LAN2
       (OSViCommonRegs.make
          (VI_CTRL_TYPE_32 OR VI_CTRL_GAMMA_DITHER_ON OR VI_CTRL_GAMMA_ON OR
          VI_CTRL_DIVOT_ON OR VI_CTRL_ANTIALIAS_MODE_0 OR VI_CTRL_PIXEL_ADV_3) (WIDTH 320)
          (BURST 58 30 4 69) (VSYNC 625) (HSYNC 3177 23) (LEAP 3183 3181) (HSTART 128 768)
          (SCALE 2 0) (VCURRENT 0))
       [OSViFieldRegs.make
          (ORIGIN 1280) (SCALE 1 0) (HSTART 47 617) (BURST 107 2 9 0) (VINTR 2),
        OSViFieldRegs.make
          (ORIGIN 1280) (SCALE 1 0) (HSTART 47 617) (BURST 107 2 9 0) (VINTR 2)]"

definition osViModeFpalLaf2 :: OSViMode where
  "osViModeFpalLaf2 =
     OSViMode.make OS_VI_FPAL_LAF2
       (OSViCommonRegs.make
          (VI_CTRL_TYPE_32 OR VI_CTRL_GAMMA_DITHER_ON OR VI_CTRL_GAMMA_ON OR
          VI_CTRL_DIVOT_ON OR VI_CTRL_SERRATE_ON OR VI_CTRL_ANTIALIAS_MODE_0 OR
          VI_CTRL_PIXEL_ADV_3) (WIDTH 320) (BURST 58 30 4 69) (VSYNC 624) (HSYNC 3177 23)
          (LEAP 3183 3181) (HSTART 128 768) (SCALE 2 0) (VCURRENT 0))
       [OSViFieldRegs.make
          (ORIGIN 1280) (SCALE 1 (1 / 4)) (HSTART 45 615) (BURST 107 2 9 0) (VINTR 2),
        OSViFieldRegs.make
          (ORIGIN 1280) (SCALE 1 (3 / 4)) (HSTART 47 617) (BURST 105 2 13 0) (VINTR 2)]"

definition osViModeFpalHpn1 :: OSViMode where
  "osViModeFpalHpn1 =
     OSViMode.make OS_VI_FPAL_HPN1
       (OSViCommonRegs.make
          (VI_CTRL_TYPE_16 OR VI_CTRL_GAMMA_DITHER_ON OR VI_CTRL_GAMMA_ON OR
          VI_CTRL_SERRATE_ON OR VI_CTRL_ANTIALIAS_MODE_2 OR VI_CTRL_PIXEL_ADV_3)
          (WIDTH 1280) (BURST 58 30 4 69) (VSYNC 624) (HSYNC 3177 23) (LEAP 3183 3181)
          (HSTART 128 768) (SCALE 1 0) (VCURRENT 0))
       [OSViFieldRegs.make
          (ORIGIN 1280) (SCALE 1 0) (HSTART 45 615) (BURST 107 2 9 0) (VINTR 2),
        OSViFieldRegs.make
          (ORIGIN 2560) (SCALE 1 0) (HSTART 47 617) (BURST 105 2 13 0) (VINTR 2)]"

definition osViModeFpalHpf1 :: OSViMode where
  "osViModeFpalHpf1 =
     OSViMode.make OS_VI_FPAL_HPF1
       (OSViCommonRegs.make
          (VI_CTRL_TYPE_16 OR VI_CTRL_GAMMA_DITHER_ON OR VI_CTRL_GAMMA_ON OR
          VI_CTRL_SERRATE_ON OR VI_CTRL_ANTIALIAS_MODE_2 OR VI_CTRL_PIXEL_ADV_3)
          (WIDTH 640) (BURST 58 30 4 69) (VSYNC 624) (HSYNC 3177 23) (LEAP 3183 3181)
          (HSTART 128 768) (SCALE 1 0) (VCURRENT 0))
       [OSViFieldRegs.make
          (ORIGIN 1280) (SCALE (1 / 2) (1 / 2)) (HSTART 45 615) (BURST 107 2 9 0)
          (VINTR 2),
        OSViFieldRegs.make
          (ORIGIN 2560) (SCALE (1 / 2) (1 / 2)) (HSTART 47 617) (BURST 105 2 13 0)
          (VINTR 2)]"

definition osViModeFpalHan1 :: OSViMode where
  "osViModeFpalHan1 =
     OSViMode.make OS_VI_FPAL_HAN1
       (OSViCommonRegs.make
          (VI_CTRL_TYPE_16 OR VI_CTRL_GAMMA_DITHER_ON OR VI_CTRL_GAMMA_ON OR
          VI_CTRL_DIVOT_ON OR VI_CTRL_SERRATE_ON OR VI_CTRL_ANTIALIAS_MODE_0 OR
          VI_CTRL_PIXEL_ADV_3) (WIDTH 1280) (BURST 58 30 4 69) (VSYNC 624) (HSYNC 3177 23)
          (LEAP 3183 3181) (HSTART 128 768) (SCALE 1 0) (VCURRENT 0))
       [OSViFieldRegs.make
          (ORIGIN 1280) (SCALE 1 0) (HSTART 45 615) (BURST 107 2 9 0) (VINTR 2),
        OSViFieldRegs.make
          (ORIGIN 2560) (SCALE 1 0) (HSTART 47 617) (BURST 105 2 13 0) (VINTR 2)]"

definition osViModeFpalHaf1 :: OSViMode where
  "osViModeFpalHaf1 =
     OSViMode.make OS_VI_FPAL_HAF1
       (OSViCommonRegs.make
          (VI_CTRL_TYPE_16 OR VI_CTRL_GAMMA_DITHER_ON OR VI_CTRL_GAMMA_ON OR
          VI_CTRL_DIVOT_ON OR VI_CTRL_SERRATE_ON OR VI_CTRL_ANTIALIAS_MODE_0 OR
          VI_CTRL_PIXEL_ADV_3) (WIDTH 640) (BURST 58 30 4 69) (VSYNC 624) (HSYNC 3177 23)
          (LEAP 3183 3181) (HSTART 128 768) (SCALE 1 0) (VCURRENT 0))
       [OSViFieldRegs.make
          (ORIGIN 1280) (SCALE (1 / 2) (1 / 2)) (HSTART 45 615) (BURST 107 2 9 0)
          (VINTR 2),
        OSViFieldRegs.make
          (ORIGIN 2560) (SCALE (1 / 2) (1 / 2)) (HSTART 47 617) (BURST 105 2 13 0)
          (VINTR 2)]"

definition osViModeFpalHpn2 :: OSViMode where
  "osViModeFpalHpn2 =
     OSViMode.make OS_VI_FPAL_HPN2
       (OSViCommonRegs.make
          (VI_CTRL_TYPE_32 OR VI_CTRL_GAMMA_DITHER_ON OR VI_CTRL_GAMMA_ON OR
          VI_CTRL_SERRATE_ON OR VI_CTRL_ANTIALIAS_MODE_3 OR VI_CTRL_PIXEL_ADV_3)
          (WIDTH 1280) (BURST 58 30 4 69) (VSYNC 624) (HSYNC 3177 23) (LEAP 3183 3181)
          (HSTART 128 768) (SCALE 1 0) (VCURRENT 0))
       [OSViFieldRegs.make
          (ORIGIN 2560) (SCALE 1 0) (HSTART 45 615) (BURST 107 2 9 0) (VINTR 2),
        OSViFieldRegs.make
          (ORIGIN 5120) (SCALE 1 0) (HSTART 47 617) (BURST 105 2 13 0) (VINTR 2)]"

definition osViModeFpalHpf2 :: OSViMode where
  "osViModeFpalHpf2 =
     OSViMode.make OS_VI_FPAL_HPF2
       (OSViCommonRegs.make
          (VI_CTRL_TYPE_32 OR VI_CTRL_GAMMA_DITHER_ON OR VI_CTRL_GAMMA_ON OR
          VI_CTRL_SERRATE_ON OR VI_CTRL_ANTIALIAS_MODE_2 OR VI_CTRL_PIXEL_ADV_3)
          (WIDTH 640) (BURST 58 30 4 69) (VSYNC 624) (HSYNC 3177 23) (LEAP 3183 3181)
          (HSTART 128 768) (SCALE 1 0) (VCURRENT 0))
       [OSViFieldRegs.make
          (ORIGIN 2560) (SCALE (1 / 2) (1 / 2)) (HSTART 45 615) (BURST 107 2 9 0)
          (VINTR 2),
        OSViFieldRegs.make
          (ORIGIN 5120) (SCALE (1 / 2) (1 / 2)) (HSTART 47 617) (BURST 105 2 13 0)
          (VINTR 2)]"

lemmas vi_mode_defs =
  osViModeNtscLpn1_def osViModeNtscLpf1_def osViModeNtscLan1_def osViModeNtscLaf1_def
  osViModeNtscLpn2_def osViModeNtscLpf2_def osViModeNtscLan2_def osViModeNtscLaf2_def
  osViModeNtscHpn1_def osViModeNtscHpf1_def osViModeNtscHan1_def osViModeNtscHaf1_def
  osViModeNtscHpn2_def osViModeNtscHpf2_def osViModePalLpn1_def osViModePalLpf1_def
  osViModePalLan1_def osViModePalLaf1_def osViModePalLpn2_def osViModePalLpf2_def
  osViModePalLan2_def osViModePalLaf2_def osViModePalHpn1_def osViModePalHpf1_def
  osViModePalHan1_def osViModePalHaf1_def osViModePalHpn2_def osViModePalHpf2_def
  osViModeMpalLpn1_def osViModeMpalLpf1_def osViModeMpalLan1_def osViModeMpalLaf1_def
  osViModeMpalLpn2_def osViModeMpalLpf2_def osViModeMpalLan2_def osViModeMpalLaf2_def
  osViModeMpalHpn1_def osViModeMpalHpf1_def osViModeMpalHan1_def osViModeMpalHaf1_def
  osViModeMpalHpn2_def osViModeMpalHpf2_def osViModeFpalLpn1_def osViModeFpalLpf1_def
  osViModeFpalLan1_def osViModeFpalLaf1_def osViModeFpalLpn2_def osViModeFpalLpf2_def
  osViModeFpalLan2_def osViModeFpalLaf2_def osViModeFpalHpn1_def osViModeFpalHpf1_def
  osViModeFpalHan1_def osViModeFpalHaf1_def osViModeFpalHpn2_def osViModeFpalHpf2_def

subsection \<open>The table of \<^verbatim>\<open>src/io/vitbl.c\<close>\<close>

text \<open>\<^verbatim>\<open>osViModeTable\<close> in the order of the file, by standard, resolution and size of the pixel; the rows
  of the full screen PAL standard belong to a later version of the library.\<close>

definition osViModeTable_NTSC_L1 :: "OSViMode list" where
  "osViModeTable_NTSC_L1 = [
    OSViMode.make OS_VI_NTSC_LPN1
      (OSViCommonRegs.make
         (VI_CTRL_TYPE_16 OR VI_CTRL_GAMMA_DITHER_ON OR VI_CTRL_GAMMA_ON OR
         VI_CTRL_ANTIALIAS_MODE_2 OR VI_CTRL_PIXEL_ADV_3) (WIDTH 320) (BURST 57 34 5 62)
         (VSYNC 525) (HSYNC 3093 0) (LEAP 3093 3093) (HSTART 108 748) (SCALE 2 0)
         (VCURRENT 0))
      [OSViFieldRegs.make
         (ORIGIN 640) (SCALE 1 0) (HSTART 37 511) (BURST 4 2 14 0) (VINTR 2),
       OSViFieldRegs.make
         (ORIGIN 640) (SCALE 1 0) (HSTART 37 511) (BURST 4 2 14 0) (VINTR 2)],
    OSViMode.make OS_VI_NTSC_LPF1
      (OSViCommonRegs.make
         (VI_CTRL_TYPE_16 OR VI_CTRL_GAMMA_DITHER_ON OR VI_CTRL_GAMMA_ON OR
         VI_CTRL_SERRATE_ON OR VI_CTRL_ANTIALIAS_MODE_2 OR VI_CTRL_PIXEL_ADV_3) (WIDTH 320)
         (BURST 57 34 5 62) (VSYNC 524) (HSYNC 3093 0) (LEAP 3093 3093) (HSTART 108 748)
         (SCALE 2 0) (VCURRENT 0))
      [OSViFieldRegs.make
         (ORIGIN 640) (SCALE 1 (1 / 4)) (HSTART 35 509) (BURST 4 2 14 0) (VINTR 2),
       OSViFieldRegs.make
         (ORIGIN 640) (SCALE 1 (3 / 4)) (HSTART 37 511) (BURST 4 2 14 0) (VINTR 2)],
    OSViMode.make OS_VI_NTSC_LAN1
      (OSViCommonRegs.make
         (VI_CTRL_TYPE_16 OR VI_CTRL_GAMMA_DITHER_ON OR VI_CTRL_GAMMA_ON OR
         VI_CTRL_DIVOT_ON OR VI_CTRL_ANTIALIAS_MODE_1 OR VI_CTRL_PIXEL_ADV_3) (WIDTH 320)
         (BURST 57 34 5 62) (VSYNC 525) (HSYNC 3093 0) (LEAP 3093 3093) (HSTART 108 748)
         (SCALE 2 0) (VCURRENT 0))
      [OSViFieldRegs.make
         (ORIGIN 640) (SCALE 1 0) (HSTART 37 511) (BURST 4 2 14 0) (VINTR 2),
       OSViFieldRegs.make
         (ORIGIN 640) (SCALE 1 0) (HSTART 37 511) (BURST 4 2 14 0) (VINTR 2)],
    OSViMode.make OS_VI_NTSC_LAF1
      (OSViCommonRegs.make
         (VI_CTRL_TYPE_16 OR VI_CTRL_GAMMA_DITHER_ON OR VI_CTRL_GAMMA_ON OR
         VI_CTRL_DIVOT_ON OR VI_CTRL_SERRATE_ON OR VI_CTRL_ANTIALIAS_MODE_0 OR
         VI_CTRL_PIXEL_ADV_3) (WIDTH 320) (BURST 57 34 5 62) (VSYNC 524) (HSYNC 3093 0)
         (LEAP 3093 3093) (HSTART 108 748) (SCALE 2 0) (VCURRENT 0))
      [OSViFieldRegs.make
         (ORIGIN 640) (SCALE 1 (1 / 4)) (HSTART 35 509) (BURST 4 2 14 0) (VINTR 2),
       OSViFieldRegs.make
         (ORIGIN 640) (SCALE 1 (3 / 4)) (HSTART 37 511) (BURST 4 2 14 0) (VINTR 2)]]"

definition osViModeTable_NTSC_L2 :: "OSViMode list" where
  "osViModeTable_NTSC_L2 = [
    OSViMode.make OS_VI_NTSC_LPN2
      (OSViCommonRegs.make
         (VI_CTRL_TYPE_32 OR VI_CTRL_GAMMA_DITHER_ON OR VI_CTRL_GAMMA_ON OR
         VI_CTRL_ANTIALIAS_MODE_3 OR VI_CTRL_PIXEL_ADV_3) (WIDTH 320) (BURST 57 34 5 62)
         (VSYNC 525) (HSYNC 3093 0) (LEAP 3093 3093) (HSTART 108 748) (SCALE 2 0)
         (VCURRENT 0))
      [OSViFieldRegs.make
         (ORIGIN 1280) (SCALE 1 0) (HSTART 37 511) (BURST 4 2 14 0) (VINTR 2),
       OSViFieldRegs.make
         (ORIGIN 1280) (SCALE 1 0) (HSTART 37 511) (BURST 4 2 14 0) (VINTR 2)],
    OSViMode.make OS_VI_NTSC_LPF2
      (OSViCommonRegs.make
         (VI_CTRL_TYPE_32 OR VI_CTRL_GAMMA_DITHER_ON OR VI_CTRL_GAMMA_ON OR
         VI_CTRL_SERRATE_ON OR VI_CTRL_ANTIALIAS_MODE_2 OR VI_CTRL_PIXEL_ADV_3) (WIDTH 320)
         (BURST 57 34 5 62) (VSYNC 524) (HSYNC 3093 0) (LEAP 3093 3093) (HSTART 108 748)
         (SCALE 2 0) (VCURRENT 0))
      [OSViFieldRegs.make
         (ORIGIN 1280) (SCALE 1 (1 / 4)) (HSTART 35 509) (BURST 4 2 14 0) (VINTR 2),
       OSViFieldRegs.make
         (ORIGIN 1280) (SCALE 1 (3 / 4)) (HSTART 37 511) (BURST 4 2 14 0) (VINTR 2)],
    OSViMode.make OS_VI_NTSC_LAN2
      (OSViCommonRegs.make
         (VI_CTRL_TYPE_32 OR VI_CTRL_GAMMA_DITHER_ON OR VI_CTRL_GAMMA_ON OR
         VI_CTRL_DIVOT_ON OR VI_CTRL_ANTIALIAS_MODE_0 OR VI_CTRL_PIXEL_ADV_3) (WIDTH 320)
         (BURST 57 34 5 62) (VSYNC 525) (HSYNC 3093 0) (LEAP 3093 3093) (HSTART 108 748)
         (SCALE 2 0) (VCURRENT 0))
      [OSViFieldRegs.make
         (ORIGIN 1280) (SCALE 1 0) (HSTART 37 511) (BURST 4 2 14 0) (VINTR 2),
       OSViFieldRegs.make
         (ORIGIN 1280) (SCALE 1 0) (HSTART 37 511) (BURST 4 2 14 0) (VINTR 2)],
    OSViMode.make OS_VI_NTSC_LAF2
      (OSViCommonRegs.make
         (VI_CTRL_TYPE_32 OR VI_CTRL_GAMMA_DITHER_ON OR VI_CTRL_GAMMA_ON OR
         VI_CTRL_DIVOT_ON OR VI_CTRL_SERRATE_ON OR VI_CTRL_ANTIALIAS_MODE_0 OR
         VI_CTRL_PIXEL_ADV_3) (WIDTH 320) (BURST 57 34 5 62) (VSYNC 524) (HSYNC 3093 0)
         (LEAP 3093 3093) (HSTART 108 748) (SCALE 2 0) (VCURRENT 0))
      [OSViFieldRegs.make
         (ORIGIN 1280) (SCALE 1 (1 / 4)) (HSTART 35 509) (BURST 4 2 14 0) (VINTR 2),
       OSViFieldRegs.make
         (ORIGIN 1280) (SCALE 1 (3 / 4)) (HSTART 37 511) (BURST 4 2 14 0) (VINTR 2)]]"

definition osViModeTable_NTSC_H1 :: "OSViMode list" where
  "osViModeTable_NTSC_H1 = [
    OSViMode.make OS_VI_NTSC_HPN1
      (OSViCommonRegs.make
         (VI_CTRL_TYPE_16 OR VI_CTRL_GAMMA_DITHER_ON OR VI_CTRL_GAMMA_ON OR
         VI_CTRL_SERRATE_ON OR VI_CTRL_ANTIALIAS_MODE_2 OR VI_CTRL_PIXEL_ADV_3)
         (WIDTH 1280) (BURST 57 34 5 62) (VSYNC 524) (HSYNC 3093 0) (LEAP 3093 3093)
         (HSTART 108 748) (SCALE 1 0) (VCURRENT 0))
      [OSViFieldRegs.make
         (ORIGIN 1280) (SCALE 1 0) (HSTART 35 509) (BURST 4 2 14 0) (VINTR 2),
       OSViFieldRegs.make
         (ORIGIN 2560) (SCALE 1 0) (HSTART 37 511) (BURST 4 2 14 0) (VINTR 2)],
    OSViMode.make OS_VI_NTSC_HPF1
      (OSViCommonRegs.make
         (VI_CTRL_TYPE_16 OR VI_CTRL_GAMMA_DITHER_ON OR VI_CTRL_GAMMA_ON OR
         VI_CTRL_SERRATE_ON OR VI_CTRL_ANTIALIAS_MODE_2 OR VI_CTRL_PIXEL_ADV_3) (WIDTH 640)
         (BURST 57 34 5 62) (VSYNC 524) (HSYNC 3093 0) (LEAP 3093 3093) (HSTART 108 748)
         (SCALE 1 0) (VCURRENT 0))
      [OSViFieldRegs.make
         (ORIGIN 1280) (SCALE (1 / 2) (1 / 2)) (HSTART 35 509) (BURST 4 2 14 0) (VINTR 2),
       OSViFieldRegs.make
         (ORIGIN 2560) (SCALE (1 / 2) (1 / 2)) (HSTART 37 511) (BURST 4 2 14 0) (VINTR 2)],
    OSViMode.make OS_VI_NTSC_HAN1
      (OSViCommonRegs.make
         (VI_CTRL_TYPE_16 OR VI_CTRL_GAMMA_DITHER_ON OR VI_CTRL_GAMMA_ON OR
         VI_CTRL_DIVOT_ON OR VI_CTRL_SERRATE_ON OR VI_CTRL_ANTIALIAS_MODE_0 OR
         VI_CTRL_PIXEL_ADV_3) (WIDTH 1280) (BURST 57 34 5 62) (VSYNC 524) (HSYNC 3093 0)
         (LEAP 3093 3093) (HSTART 108 748) (SCALE 1 0) (VCURRENT 0))
      [OSViFieldRegs.make
         (ORIGIN 1280) (SCALE 1 0) (HSTART 35 509) (BURST 4 2 14 0) (VINTR 2),
       OSViFieldRegs.make
         (ORIGIN 2560) (SCALE 1 0) (HSTART 37 511) (BURST 4 2 14 0) (VINTR 2)],
    OSViMode.make OS_VI_NTSC_HAF1
      (OSViCommonRegs.make
         (VI_CTRL_TYPE_16 OR VI_CTRL_GAMMA_DITHER_ON OR VI_CTRL_GAMMA_ON OR
         VI_CTRL_DIVOT_ON OR VI_CTRL_SERRATE_ON OR VI_CTRL_ANTIALIAS_MODE_0 OR
         VI_CTRL_PIXEL_ADV_3) (WIDTH 640) (BURST 57 34 5 62) (VSYNC 524) (HSYNC 3093 0)
         (LEAP 3093 3093) (HSTART 108 748) (SCALE 1 0) (VCURRENT 0))
      [OSViFieldRegs.make
         (ORIGIN 1280) (SCALE (1 / 2) (1 / 2)) (HSTART 35 509) (BURST 4 2 14 0) (VINTR 2),
       OSViFieldRegs.make
         (ORIGIN 2560) (SCALE (1 / 2) (1 / 2)) (HSTART 37 511) (BURST 4 2 14 0) (VINTR 2)]]"

definition osViModeTable_NTSC_H2 :: "OSViMode list" where
  "osViModeTable_NTSC_H2 = [
    OSViMode.make OS_VI_NTSC_HPN2
      (OSViCommonRegs.make
         (VI_CTRL_TYPE_32 OR VI_CTRL_GAMMA_DITHER_ON OR VI_CTRL_GAMMA_ON OR
         VI_CTRL_SERRATE_ON OR VI_CTRL_ANTIALIAS_MODE_3 OR VI_CTRL_PIXEL_ADV_3)
         (WIDTH 1280) (BURST 57 34 5 62) (VSYNC 524) (HSYNC 3093 0) (LEAP 3093 3093)
         (HSTART 108 748) (SCALE 1 0) (VCURRENT 0))
      [OSViFieldRegs.make
         (ORIGIN 2560) (SCALE 1 0) (HSTART 35 509) (BURST 4 2 14 0) (VINTR 2),
       OSViFieldRegs.make
         (ORIGIN 5120) (SCALE 1 0) (HSTART 37 511) (BURST 4 2 14 0) (VINTR 2)],
    OSViMode.make OS_VI_NTSC_HPF2
      (OSViCommonRegs.make
         (VI_CTRL_TYPE_32 OR VI_CTRL_GAMMA_DITHER_ON OR VI_CTRL_GAMMA_ON OR
         VI_CTRL_SERRATE_ON OR VI_CTRL_ANTIALIAS_MODE_2 OR VI_CTRL_PIXEL_ADV_3) (WIDTH 640)
         (BURST 57 34 5 62) (VSYNC 524) (HSYNC 3093 0) (LEAP 3093 3093) (HSTART 108 748)
         (SCALE 1 0) (VCURRENT 0))
      [OSViFieldRegs.make
         (ORIGIN 2560) (SCALE (1 / 2) (1 / 2)) (HSTART 35 509) (BURST 4 2 14 0) (VINTR 2),
       OSViFieldRegs.make
         (ORIGIN 5120) (SCALE (1 / 2) (1 / 2)) (HSTART 37 511) (BURST 4 2 14 0) (VINTR 2)]]"

definition osViModeTable_PAL_L1 :: "OSViMode list" where
  "osViModeTable_PAL_L1 = [
    OSViMode.make OS_VI_PAL_LPN1
      (OSViCommonRegs.make
         (VI_CTRL_TYPE_16 OR VI_CTRL_GAMMA_DITHER_ON OR VI_CTRL_GAMMA_ON OR
         VI_CTRL_ANTIALIAS_MODE_2 OR VI_CTRL_PIXEL_ADV_3) (WIDTH 320) (BURST 58 30 4 69)
         (VSYNC 625) (HSYNC 3177 23) (LEAP 3183 3181) (HSTART 128 768) (SCALE 2 0)
         (VCURRENT 0))
      [OSViFieldRegs.make
         (ORIGIN 640) (SCALE 1 0) (HSTART 95 569) (BURST 107 2 9 0) (VINTR 2),
       OSViFieldRegs.make
         (ORIGIN 640) (SCALE 1 0) (HSTART 95 569) (BURST 107 2 9 0) (VINTR 2)],
    OSViMode.make OS_VI_PAL_LPF1
      (OSViCommonRegs.make
         (VI_CTRL_TYPE_16 OR VI_CTRL_GAMMA_DITHER_ON OR VI_CTRL_GAMMA_ON OR
         VI_CTRL_SERRATE_ON OR VI_CTRL_ANTIALIAS_MODE_2 OR VI_CTRL_PIXEL_ADV_3) (WIDTH 320)
         (BURST 58 30 4 69) (VSYNC 624) (HSYNC 3177 23) (LEAP 3183 3181) (HSTART 128 768)
         (SCALE 2 0) (VCURRENT 0))
      [OSViFieldRegs.make
         (ORIGIN 640) (SCALE 1 (1 / 4)) (HSTART 93 567) (BURST 107 2 9 0) (VINTR 2),
       OSViFieldRegs.make
         (ORIGIN 640) (SCALE 1 (3 / 4)) (HSTART 95 569) (BURST 105 2 13 0) (VINTR 2)],
    OSViMode.make OS_VI_PAL_LAN1
      (OSViCommonRegs.make
         (VI_CTRL_TYPE_16 OR VI_CTRL_GAMMA_DITHER_ON OR VI_CTRL_GAMMA_ON OR
         VI_CTRL_DIVOT_ON OR VI_CTRL_ANTIALIAS_MODE_1 OR VI_CTRL_PIXEL_ADV_3) (WIDTH 320)
         (BURST 58 30 4 69) (VSYNC 625) (HSYNC 3177 23) (LEAP 3183 3181) (HSTART 128 768)
         (SCALE 2 0) (VCURRENT 0))
      [OSViFieldRegs.make
         (ORIGIN 640) (SCALE 1 0) (HSTART 95 569) (BURST 107 2 9 0) (VINTR 2),
       OSViFieldRegs.make
         (ORIGIN 640) (SCALE 1 0) (HSTART 95 569) (BURST 107 2 9 0) (VINTR 2)],
    OSViMode.make OS_VI_PAL_LAF1
      (OSViCommonRegs.make
         (VI_CTRL_TYPE_16 OR VI_CTRL_GAMMA_DITHER_ON OR VI_CTRL_GAMMA_ON OR
         VI_CTRL_DIVOT_ON OR VI_CTRL_SERRATE_ON OR VI_CTRL_ANTIALIAS_MODE_0 OR
         VI_CTRL_PIXEL_ADV_3) (WIDTH 320) (BURST 58 30 4 69) (VSYNC 624) (HSYNC 3177 23)
         (LEAP 3183 3181) (HSTART 128 768) (SCALE 2 0) (VCURRENT 0))
      [OSViFieldRegs.make
         (ORIGIN 640) (SCALE 1 (1 / 4)) (HSTART 93 567) (BURST 107 2 9 0) (VINTR 2),
       OSViFieldRegs.make
         (ORIGIN 640) (SCALE 1 (3 / 4)) (HSTART 95 569) (BURST 105 2 13 0) (VINTR 2)]]"

definition osViModeTable_PAL_L2 :: "OSViMode list" where
  "osViModeTable_PAL_L2 = [
    OSViMode.make OS_VI_PAL_LPN2
      (OSViCommonRegs.make
         (VI_CTRL_TYPE_32 OR VI_CTRL_GAMMA_DITHER_ON OR VI_CTRL_GAMMA_ON OR
         VI_CTRL_ANTIALIAS_MODE_3 OR VI_CTRL_PIXEL_ADV_3) (WIDTH 320) (BURST 58 30 4 69)
         (VSYNC 625) (HSYNC 3177 23) (LEAP 3183 3181) (HSTART 128 768) (SCALE 2 0)
         (VCURRENT 0))
      [OSViFieldRegs.make
         (ORIGIN 1280) (SCALE 1 0) (HSTART 95 569) (BURST 107 2 9 0) (VINTR 2),
       OSViFieldRegs.make
         (ORIGIN 1280) (SCALE 1 0) (HSTART 95 569) (BURST 107 2 9 0) (VINTR 2)],
    OSViMode.make OS_VI_PAL_LPF2
      (OSViCommonRegs.make
         (VI_CTRL_TYPE_32 OR VI_CTRL_GAMMA_DITHER_ON OR VI_CTRL_GAMMA_ON OR
         VI_CTRL_SERRATE_ON OR VI_CTRL_ANTIALIAS_MODE_2 OR VI_CTRL_PIXEL_ADV_3) (WIDTH 320)
         (BURST 58 30 4 69) (VSYNC 624) (HSYNC 3177 23) (LEAP 3183 3181) (HSTART 128 768)
         (SCALE 2 0) (VCURRENT 0))
      [OSViFieldRegs.make
         (ORIGIN 1280) (SCALE 1 (1 / 4)) (HSTART 93 567) (BURST 107 2 9 0) (VINTR 2),
       OSViFieldRegs.make
         (ORIGIN 1280) (SCALE 1 (3 / 4)) (HSTART 95 569) (BURST 105 2 13 0) (VINTR 2)],
    OSViMode.make OS_VI_PAL_LAN2
      (OSViCommonRegs.make
         (VI_CTRL_TYPE_32 OR VI_CTRL_GAMMA_DITHER_ON OR VI_CTRL_GAMMA_ON OR
         VI_CTRL_DIVOT_ON OR VI_CTRL_ANTIALIAS_MODE_0 OR VI_CTRL_PIXEL_ADV_3) (WIDTH 320)
         (BURST 58 30 4 69) (VSYNC 625) (HSYNC 3177 23) (LEAP 3183 3181) (HSTART 128 768)
         (SCALE 2 0) (VCURRENT 0))
      [OSViFieldRegs.make
         (ORIGIN 1280) (SCALE 1 0) (HSTART 95 569) (BURST 107 2 9 0) (VINTR 2),
       OSViFieldRegs.make
         (ORIGIN 1280) (SCALE 1 0) (HSTART 95 569) (BURST 107 2 9 0) (VINTR 2)],
    OSViMode.make OS_VI_PAL_LAF2
      (OSViCommonRegs.make
         (VI_CTRL_TYPE_32 OR VI_CTRL_GAMMA_DITHER_ON OR VI_CTRL_GAMMA_ON OR
         VI_CTRL_DIVOT_ON OR VI_CTRL_SERRATE_ON OR VI_CTRL_ANTIALIAS_MODE_0 OR
         VI_CTRL_PIXEL_ADV_3) (WIDTH 320) (BURST 58 30 4 69) (VSYNC 624) (HSYNC 3177 23)
         (LEAP 3183 3181) (HSTART 128 768) (SCALE 2 0) (VCURRENT 0))
      [OSViFieldRegs.make
         (ORIGIN 1280) (SCALE 1 (1 / 4)) (HSTART 93 567) (BURST 107 2 9 0) (VINTR 2),
       OSViFieldRegs.make
         (ORIGIN 1280) (SCALE 1 (3 / 4)) (HSTART 95 569) (BURST 105 2 13 0) (VINTR 2)]]"

definition osViModeTable_PAL_H1 :: "OSViMode list" where
  "osViModeTable_PAL_H1 = [
    OSViMode.make OS_VI_PAL_HPN1
      (OSViCommonRegs.make
         (VI_CTRL_TYPE_16 OR VI_CTRL_GAMMA_DITHER_ON OR VI_CTRL_GAMMA_ON OR
         VI_CTRL_SERRATE_ON OR VI_CTRL_ANTIALIAS_MODE_2 OR VI_CTRL_PIXEL_ADV_3)
         (WIDTH 1280) (BURST 58 30 4 69) (VSYNC 624) (HSYNC 3177 23) (LEAP 3183 3181)
         (HSTART 128 768) (SCALE 1 0) (VCURRENT 0))
      [OSViFieldRegs.make
         (ORIGIN 1280) (SCALE 1 0) (HSTART 93 567) (BURST 107 2 9 0) (VINTR 2),
       OSViFieldRegs.make
         (ORIGIN 2560) (SCALE 1 0) (HSTART 95 569) (BURST 105 2 13 0) (VINTR 2)],
    OSViMode.make OS_VI_PAL_HPF1
      (OSViCommonRegs.make
         (VI_CTRL_TYPE_16 OR VI_CTRL_GAMMA_DITHER_ON OR VI_CTRL_GAMMA_ON OR
         VI_CTRL_SERRATE_ON OR VI_CTRL_ANTIALIAS_MODE_2 OR VI_CTRL_PIXEL_ADV_3) (WIDTH 640)
         (BURST 58 30 4 69) (VSYNC 624) (HSYNC 3177 23) (LEAP 3183 3181) (HSTART 128 768)
         (SCALE 1 0) (VCURRENT 0))
      [OSViFieldRegs.make
         (ORIGIN 1280) (SCALE (1 / 2) (1 / 2)) (HSTART 93 567) (BURST 107 2 9 0) (VINTR 2),
       OSViFieldRegs.make
         (ORIGIN 2560) (SCALE (1 / 2) (1 / 2)) (HSTART 95 569) (BURST 105 2 13 0) (VINTR 2)],
    OSViMode.make OS_VI_PAL_HAN1
      (OSViCommonRegs.make
         (VI_CTRL_TYPE_16 OR VI_CTRL_GAMMA_DITHER_ON OR VI_CTRL_GAMMA_ON OR
         VI_CTRL_DIVOT_ON OR VI_CTRL_SERRATE_ON OR VI_CTRL_ANTIALIAS_MODE_0 OR
         VI_CTRL_PIXEL_ADV_3) (WIDTH 1280) (BURST 58 30 4 69) (VSYNC 624) (HSYNC 3177 23)
         (LEAP 3183 3181) (HSTART 128 768) (SCALE 1 0) (VCURRENT 0))
      [OSViFieldRegs.make
         (ORIGIN 1280) (SCALE 1 0) (HSTART 93 567) (BURST 107 2 9 0) (VINTR 2),
       OSViFieldRegs.make
         (ORIGIN 2560) (SCALE 1 0) (HSTART 95 569) (BURST 105 2 13 0) (VINTR 2)],
    OSViMode.make OS_VI_PAL_HAF1
      (OSViCommonRegs.make
         (VI_CTRL_TYPE_16 OR VI_CTRL_GAMMA_DITHER_ON OR VI_CTRL_GAMMA_ON OR
         VI_CTRL_DIVOT_ON OR VI_CTRL_SERRATE_ON OR VI_CTRL_ANTIALIAS_MODE_0 OR
         VI_CTRL_PIXEL_ADV_3) (WIDTH 640) (BURST 58 30 4 69) (VSYNC 624) (HSYNC 3177 23)
         (LEAP 3183 3181) (HSTART 128 768) (SCALE 1 0) (VCURRENT 0))
      [OSViFieldRegs.make
         (ORIGIN 1280) (SCALE (1 / 2) (1 / 2)) (HSTART 93 567) (BURST 107 2 9 0) (VINTR 2),
       OSViFieldRegs.make
         (ORIGIN 2560) (SCALE (1 / 2) (1 / 2)) (HSTART 95 569) (BURST 105 2 13 0) (VINTR 2)]]"

definition osViModeTable_PAL_H2 :: "OSViMode list" where
  "osViModeTable_PAL_H2 = [
    OSViMode.make OS_VI_PAL_HPN2
      (OSViCommonRegs.make
         (VI_CTRL_TYPE_32 OR VI_CTRL_GAMMA_DITHER_ON OR VI_CTRL_GAMMA_ON OR
         VI_CTRL_SERRATE_ON OR VI_CTRL_ANTIALIAS_MODE_3 OR VI_CTRL_PIXEL_ADV_3)
         (WIDTH 1280) (BURST 58 30 4 69) (VSYNC 624) (HSYNC 3177 23) (LEAP 3183 3181)
         (HSTART 128 768) (SCALE 1 0) (VCURRENT 0))
      [OSViFieldRegs.make
         (ORIGIN 2560) (SCALE 1 0) (HSTART 93 567) (BURST 107 2 9 0) (VINTR 2),
       OSViFieldRegs.make
         (ORIGIN 5120) (SCALE 1 0) (HSTART 95 569) (BURST 105 2 13 0) (VINTR 2)],
    OSViMode.make OS_VI_PAL_HPF2
      (OSViCommonRegs.make
         (VI_CTRL_TYPE_32 OR VI_CTRL_GAMMA_DITHER_ON OR VI_CTRL_GAMMA_ON OR
         VI_CTRL_SERRATE_ON OR VI_CTRL_ANTIALIAS_MODE_2 OR VI_CTRL_PIXEL_ADV_3) (WIDTH 640)
         (BURST 58 30 4 69) (VSYNC 624) (HSYNC 3177 23) (LEAP 3183 3181) (HSTART 128 768)
         (SCALE 1 0) (VCURRENT 0))
      [OSViFieldRegs.make
         (ORIGIN 2560) (SCALE (1 / 2) (1 / 2)) (HSTART 93 567) (BURST 107 2 9 0) (VINTR 2),
       OSViFieldRegs.make
         (ORIGIN 5120) (SCALE (1 / 2) (1 / 2)) (HSTART 95 569) (BURST 105 2 13 0) (VINTR 2)]]"

definition osViModeTable_MPAL_L1 :: "OSViMode list" where
  "osViModeTable_MPAL_L1 = [
    OSViMode.make OS_VI_MPAL_LPN1
      (OSViCommonRegs.make
         (VI_CTRL_TYPE_16 OR VI_CTRL_GAMMA_DITHER_ON OR VI_CTRL_GAMMA_ON OR
         VI_CTRL_ANTIALIAS_MODE_2 OR VI_CTRL_PIXEL_ADV_3) (WIDTH 320) (BURST 57 30 5 70)
         (VSYNC 525) (HSYNC 3089 4) (LEAP 3097 3098) (HSTART 108 748) (SCALE 2 0)
         (VCURRENT 0))
      [OSViFieldRegs.make
         (ORIGIN 640) (SCALE 1 0) (HSTART 37 511) (BURST 4 2 14 0) (VINTR 2),
       OSViFieldRegs.make
         (ORIGIN 640) (SCALE 1 0) (HSTART 37 511) (BURST 4 2 14 0) (VINTR 2)],
    OSViMode.make OS_VI_MPAL_LPF1
      (OSViCommonRegs.make
         (VI_CTRL_TYPE_16 OR VI_CTRL_GAMMA_DITHER_ON OR VI_CTRL_GAMMA_ON OR
         VI_CTRL_SERRATE_ON OR VI_CTRL_ANTIALIAS_MODE_2 OR VI_CTRL_PIXEL_ADV_3) (WIDTH 320)
         (BURST 57 30 5 70) (VSYNC 524) (HSYNC 3088 0) (LEAP 3100 3100) (HSTART 108 748)
         (SCALE 2 0) (VCURRENT 0))
      [OSViFieldRegs.make
         (ORIGIN 640) (SCALE 1 (1 / 4)) (HSTART 35 509) (BURST 2 2 11 0) (VINTR 2),
       OSViFieldRegs.make
         (ORIGIN 640) (SCALE 1 (3 / 4)) (HSTART 37 511) (BURST 4 2 14 0) (VINTR 2)],
    OSViMode.make OS_VI_MPAL_LAN1
      (OSViCommonRegs.make
         (VI_CTRL_TYPE_16 OR VI_CTRL_GAMMA_DITHER_ON OR VI_CTRL_GAMMA_ON OR
         VI_CTRL_DIVOT_ON OR VI_CTRL_ANTIALIAS_MODE_1 OR VI_CTRL_PIXEL_ADV_3) (WIDTH 320)
         (BURST 57 30 5 70) (VSYNC 525) (HSYNC 3089 4) (LEAP 3097 3098) (HSTART 108 748)
         (SCALE 2 0) (VCURRENT 0))
      [OSViFieldRegs.make
         (ORIGIN 640) (SCALE 1 0) (HSTART 37 511) (BURST 4 2 14 0) (VINTR 2),
       OSViFieldRegs.make
         (ORIGIN 640) (SCALE 1 0) (HSTART 37 511) (BURST 4 2 14 0) (VINTR 2)],
    OSViMode.make OS_VI_MPAL_LAF1
      (OSViCommonRegs.make
         (VI_CTRL_TYPE_16 OR VI_CTRL_GAMMA_DITHER_ON OR VI_CTRL_GAMMA_ON OR
         VI_CTRL_DIVOT_ON OR VI_CTRL_SERRATE_ON OR VI_CTRL_ANTIALIAS_MODE_0 OR
         VI_CTRL_PIXEL_ADV_3) (WIDTH 320) (BURST 57 30 5 70) (VSYNC 524) (HSYNC 3088 0)
         (LEAP 3100 3100) (HSTART 108 748) (SCALE 2 0) (VCURRENT 0))
      [OSViFieldRegs.make
         (ORIGIN 640) (SCALE 1 (1 / 4)) (HSTART 35 509) (BURST 2 2 11 0) (VINTR 2),
       OSViFieldRegs.make
         (ORIGIN 640) (SCALE 1 (3 / 4)) (HSTART 37 511) (BURST 4 2 14 0) (VINTR 2)]]"

definition osViModeTable_MPAL_L2 :: "OSViMode list" where
  "osViModeTable_MPAL_L2 = [
    OSViMode.make OS_VI_MPAL_LPN2
      (OSViCommonRegs.make
         (VI_CTRL_TYPE_32 OR VI_CTRL_GAMMA_DITHER_ON OR VI_CTRL_GAMMA_ON OR
         VI_CTRL_ANTIALIAS_MODE_3 OR VI_CTRL_PIXEL_ADV_3) (WIDTH 320) (BURST 57 30 5 70)
         (VSYNC 525) (HSYNC 3089 4) (LEAP 3097 3098) (HSTART 108 748) (SCALE 2 0)
         (VCURRENT 0))
      [OSViFieldRegs.make
         (ORIGIN 1280) (SCALE 1 0) (HSTART 37 511) (BURST 4 2 14 0) (VINTR 2),
       OSViFieldRegs.make
         (ORIGIN 1280) (SCALE 1 0) (HSTART 37 511) (BURST 4 2 14 0) (VINTR 2)],
    OSViMode.make OS_VI_MPAL_LPF2
      (OSViCommonRegs.make
         (VI_CTRL_TYPE_32 OR VI_CTRL_GAMMA_DITHER_ON OR VI_CTRL_GAMMA_ON OR
         VI_CTRL_SERRATE_ON OR VI_CTRL_ANTIALIAS_MODE_2 OR VI_CTRL_PIXEL_ADV_3) (WIDTH 320)
         (BURST 57 30 5 70) (VSYNC 524) (HSYNC 3088 0) (LEAP 3100 3100) (HSTART 108 748)
         (SCALE 2 0) (VCURRENT 0))
      [OSViFieldRegs.make
         (ORIGIN 1280) (SCALE 1 (1 / 4)) (HSTART 35 509) (BURST 2 2 11 0) (VINTR 2),
       OSViFieldRegs.make
         (ORIGIN 1280) (SCALE 1 (3 / 4)) (HSTART 37 511) (BURST 4 2 14 0) (VINTR 2)],
    OSViMode.make OS_VI_MPAL_LAN2
      (OSViCommonRegs.make
         (VI_CTRL_TYPE_32 OR VI_CTRL_GAMMA_DITHER_ON OR VI_CTRL_GAMMA_ON OR
         VI_CTRL_DIVOT_ON OR VI_CTRL_ANTIALIAS_MODE_0 OR VI_CTRL_PIXEL_ADV_3) (WIDTH 320)
         (BURST 57 30 5 70) (VSYNC 525) (HSYNC 3089 4) (LEAP 3097 3098) (HSTART 108 748)
         (SCALE 2 0) (VCURRENT 0))
      [OSViFieldRegs.make
         (ORIGIN 1280) (SCALE 1 0) (HSTART 37 511) (BURST 4 2 14 0) (VINTR 2),
       OSViFieldRegs.make
         (ORIGIN 1280) (SCALE 1 0) (HSTART 37 511) (BURST 4 2 14 0) (VINTR 2)],
    OSViMode.make OS_VI_MPAL_LAF2
      (OSViCommonRegs.make
         (VI_CTRL_TYPE_32 OR VI_CTRL_GAMMA_DITHER_ON OR VI_CTRL_GAMMA_ON OR
         VI_CTRL_DIVOT_ON OR VI_CTRL_SERRATE_ON OR VI_CTRL_ANTIALIAS_MODE_0 OR
         VI_CTRL_PIXEL_ADV_3) (WIDTH 320) (BURST 57 30 5 70) (VSYNC 524) (HSYNC 3088 0)
         (LEAP 3100 3100) (HSTART 108 748) (SCALE 2 0) (VCURRENT 0))
      [OSViFieldRegs.make
         (ORIGIN 1280) (SCALE 1 (1 / 4)) (HSTART 35 509) (BURST 2 2 11 0) (VINTR 2),
       OSViFieldRegs.make
         (ORIGIN 1280) (SCALE 1 (3 / 4)) (HSTART 37 511) (BURST 4 2 14 0) (VINTR 2)]]"

definition osViModeTable_MPAL_H1 :: "OSViMode list" where
  "osViModeTable_MPAL_H1 = [
    OSViMode.make OS_VI_MPAL_HPN1
      (OSViCommonRegs.make
         (VI_CTRL_TYPE_16 OR VI_CTRL_GAMMA_DITHER_ON OR VI_CTRL_GAMMA_ON OR
         VI_CTRL_SERRATE_ON OR VI_CTRL_ANTIALIAS_MODE_2 OR VI_CTRL_PIXEL_ADV_3)
         (WIDTH 1280) (BURST 57 30 5 70) (VSYNC 524) (HSYNC 3088 0) (LEAP 3100 3100)
         (HSTART 108 748) (SCALE 1 0) (VCURRENT 0))
      [OSViFieldRegs.make
         (ORIGIN 1280) (SCALE 1 0) (HSTART 35 509) (BURST 2 2 11 0) (VINTR 2),
       OSViFieldRegs.make
         (ORIGIN 2560) (SCALE 1 0) (HSTART 37 511) (BURST 4 2 14 0) (VINTR 2)],
    OSViMode.make OS_VI_MPAL_HPF1
      (OSViCommonRegs.make
         (VI_CTRL_TYPE_16 OR VI_CTRL_GAMMA_DITHER_ON OR VI_CTRL_GAMMA_ON OR
         VI_CTRL_SERRATE_ON OR VI_CTRL_ANTIALIAS_MODE_2 OR VI_CTRL_PIXEL_ADV_3) (WIDTH 640)
         (BURST 57 30 5 70) (VSYNC 524) (HSYNC 3088 0) (LEAP 3100 3100) (HSTART 108 748)
         (SCALE 1 0) (VCURRENT 0))
      [OSViFieldRegs.make
         (ORIGIN 1280) (SCALE (1 / 2) (1 / 2)) (HSTART 35 509) (BURST 2 2 11 0) (VINTR 2),
       OSViFieldRegs.make
         (ORIGIN 2560) (SCALE (1 / 2) (1 / 2)) (HSTART 37 511) (BURST 4 2 14 0) (VINTR 2)],
    OSViMode.make OS_VI_MPAL_HAN1
      (OSViCommonRegs.make
         (VI_CTRL_TYPE_16 OR VI_CTRL_GAMMA_DITHER_ON OR VI_CTRL_GAMMA_ON OR
         VI_CTRL_DIVOT_ON OR VI_CTRL_SERRATE_ON OR VI_CTRL_ANTIALIAS_MODE_0 OR
         VI_CTRL_PIXEL_ADV_3) (WIDTH 1280) (BURST 57 30 5 70) (VSYNC 524) (HSYNC 3088 0)
         (LEAP 3100 3100) (HSTART 108 748) (SCALE 1 0) (VCURRENT 0))
      [OSViFieldRegs.make
         (ORIGIN 1280) (SCALE 1 0) (HSTART 35 509) (BURST 2 2 11 0) (VINTR 2),
       OSViFieldRegs.make
         (ORIGIN 2560) (SCALE 1 0) (HSTART 37 511) (BURST 4 2 14 0) (VINTR 2)],
    OSViMode.make OS_VI_MPAL_HAF1
      (OSViCommonRegs.make
         (VI_CTRL_TYPE_16 OR VI_CTRL_GAMMA_DITHER_ON OR VI_CTRL_GAMMA_ON OR
         VI_CTRL_DIVOT_ON OR VI_CTRL_SERRATE_ON OR VI_CTRL_ANTIALIAS_MODE_0 OR
         VI_CTRL_PIXEL_ADV_3) (WIDTH 640) (BURST 57 30 5 70) (VSYNC 524) (HSYNC 3088 0)
         (LEAP 3100 3100) (HSTART 108 748) (SCALE 1 0) (VCURRENT 0))
      [OSViFieldRegs.make
         (ORIGIN 1280) (SCALE (1 / 2) (1 / 2)) (HSTART 35 509) (BURST 2 2 11 0) (VINTR 2),
       OSViFieldRegs.make
         (ORIGIN 2560) (SCALE (1 / 2) (1 / 2)) (HSTART 37 511) (BURST 4 2 14 0) (VINTR 2)]]"

definition osViModeTable_MPAL_H2 :: "OSViMode list" where
  "osViModeTable_MPAL_H2 = [
    OSViMode.make OS_VI_MPAL_HPN2
      (OSViCommonRegs.make
         (VI_CTRL_TYPE_32 OR VI_CTRL_GAMMA_DITHER_ON OR VI_CTRL_GAMMA_ON OR
         VI_CTRL_SERRATE_ON OR VI_CTRL_ANTIALIAS_MODE_3 OR VI_CTRL_PIXEL_ADV_3)
         (WIDTH 1280) (BURST 57 30 5 70) (VSYNC 524) (HSYNC 3088 0) (LEAP 3100 3100)
         (HSTART 108 748) (SCALE 1 0) (VCURRENT 0))
      [OSViFieldRegs.make
         (ORIGIN 2560) (SCALE 1 0) (HSTART 35 509) (BURST 2 2 11 0) (VINTR 2),
       OSViFieldRegs.make
         (ORIGIN 5120) (SCALE 1 0) (HSTART 37 511) (BURST 4 2 14 0) (VINTR 2)],
    OSViMode.make OS_VI_MPAL_HPF2
      (OSViCommonRegs.make
         (VI_CTRL_TYPE_32 OR VI_CTRL_GAMMA_DITHER_ON OR VI_CTRL_GAMMA_ON OR
         VI_CTRL_SERRATE_ON OR VI_CTRL_ANTIALIAS_MODE_2 OR VI_CTRL_PIXEL_ADV_3) (WIDTH 640)
         (BURST 57 30 5 70) (VSYNC 524) (HSYNC 3088 0) (LEAP 3100 3100) (HSTART 108 748)
         (SCALE 1 0) (VCURRENT 0))
      [OSViFieldRegs.make
         (ORIGIN 2560) (SCALE (1 / 2) (1 / 2)) (HSTART 35 509) (BURST 2 2 11 0) (VINTR 2),
       OSViFieldRegs.make
         (ORIGIN 5120) (SCALE (1 / 2) (1 / 2)) (HSTART 37 511) (BURST 4 2 14 0) (VINTR 2)]]"

definition osViModeTable :: "OSViMode list" where
  "osViModeTable =
     osViModeTable_NTSC_L1 @
     osViModeTable_NTSC_L2 @
     osViModeTable_NTSC_H1 @
     osViModeTable_NTSC_H2 @
     osViModeTable_PAL_L1 @
     osViModeTable_PAL_L2 @
     osViModeTable_PAL_H1 @
     osViModeTable_PAL_H2 @
     osViModeTable_MPAL_L1 @
     osViModeTable_MPAL_L2 @
     osViModeTable_MPAL_H1 @
     osViModeTable_MPAL_H2"

lemmas vi_table_defs =
  osViModeTable_def
  osViModeTable_NTSC_L1_def osViModeTable_NTSC_L2_def osViModeTable_NTSC_H1_def
  osViModeTable_NTSC_H2_def osViModeTable_PAL_L1_def osViModeTable_PAL_L2_def
  osViModeTable_PAL_H1_def osViModeTable_PAL_H2_def osViModeTable_MPAL_L1_def
  osViModeTable_MPAL_L2_def osViModeTable_MPAL_H1_def osViModeTable_MPAL_H2_def

lemma osViModeTable_modes:
  "osViModeTable =
     [osViModeNtscLpn1, osViModeNtscLpf1, osViModeNtscLan1, osViModeNtscLaf1, osViModeNtscLpn2,
      osViModeNtscLpf2, osViModeNtscLan2, osViModeNtscLaf2, osViModeNtscHpn1, osViModeNtscHpf1,
      osViModeNtscHan1, osViModeNtscHaf1, osViModeNtscHpn2, osViModeNtscHpf2, osViModePalLpn1,
      osViModePalLpf1, osViModePalLan1, osViModePalLaf1, osViModePalLpn2, osViModePalLpf2,
      osViModePalLan2, osViModePalLaf2, osViModePalHpn1, osViModePalHpf1, osViModePalHan1,
      osViModePalHaf1, osViModePalHpn2, osViModePalHpf2, osViModeMpalLpn1, osViModeMpalLpf1,
      osViModeMpalLan1, osViModeMpalLaf1, osViModeMpalLpn2, osViModeMpalLpf2, osViModeMpalLan2,
      osViModeMpalLaf2, osViModeMpalHpn1, osViModeMpalHpf1, osViModeMpalHan1, osViModeMpalHaf1,
      osViModeMpalHpn2, osViModeMpalHpf2]"
  by (simp add: vi_table_defs vi_mode_defs)

lemma vi_macro_values:
  "BURST 105 2 13 0 = 852585"
  "BURST 107 2 9 0 = 590443"
  "BURST 2 2 11 0 = 721410"
  "BURST 4 2 14 0 = 918020"
  "BURST 57 30 5 70 = 73735737"
  "BURST 57 34 5 62 = 65348153"
  "BURST 58 30 4 69 = 72621626"
  "HSTART 108 748 = 7078636"
  "HSTART 128 768 = 8389376"
  "HSTART 35 509 = 2294269"
  "HSTART 37 511 = 2425343"
  "HSTART 45 615 = 2949735"
  "HSTART 47 617 = 3080809"
  "HSTART 93 567 = 6095415"
  "HSTART 95 569 = 6226489"
  "HSYNC 3088 0 = 3088"
  "HSYNC 3089 4 = 265233"
  "HSYNC 3093 0 = 3093"
  "HSYNC 3177 23 = 1510505"
  "LEAP 3093 3093 = 202705941"
  "LEAP 3097 3098 = 202968090"
  "LEAP 3100 3100 = 203164700"
  "LEAP 3183 3181 = 208604269"
  "START 37 511 = 2425343"
  "START 95 569 = 6226489"
  "BURST 58 35 4 64 = 67380026"
  "HSYNC 3177 21 = 1379433"
  "LEAP 3183 3182 = 208604270"
  "HSYNC 1 4 = 262145"
  "LEAP (-4) (-2) = 4294770686"
  "START (-3) (-2) = 4294836222"
  "BURST (-2) (-1) 12 (-1) = 4294770686"
  "BURST (-2) (-1) 2 0 = 196606"
  "START 35 509 = 2294269"
  "START 93 567 = 6095415"
  "BURST 105 2 12 0 = 787049"
  by (simp_all add: vi_macro_defs)

lemma vi_ctrl_values:
  "VI_CTRL_TYPE_16 OR VI_CTRL_GAMMA_DITHER_ON OR VI_CTRL_GAMMA_ON OR VI_CTRL_ANTIALIAS_MODE_2 OR
     VI_CTRL_PIXEL_ADV_3
     = 12814"
  "VI_CTRL_TYPE_16 OR VI_CTRL_GAMMA_DITHER_ON OR VI_CTRL_GAMMA_ON OR VI_CTRL_DIVOT_ON OR
     VI_CTRL_ANTIALIAS_MODE_1 OR VI_CTRL_PIXEL_ADV_3
     = 12574"
  "VI_CTRL_TYPE_16 OR VI_CTRL_GAMMA_DITHER_ON OR VI_CTRL_GAMMA_ON OR VI_CTRL_DIVOT_ON OR
     VI_CTRL_SERRATE_ON OR VI_CTRL_ANTIALIAS_MODE_0 OR VI_CTRL_PIXEL_ADV_3
     = 12382"
  "VI_CTRL_TYPE_16 OR VI_CTRL_GAMMA_DITHER_ON OR VI_CTRL_GAMMA_ON OR VI_CTRL_SERRATE_ON OR
     VI_CTRL_ANTIALIAS_MODE_2 OR VI_CTRL_PIXEL_ADV_3
     = 12878"
  "VI_CTRL_TYPE_32 OR VI_CTRL_GAMMA_DITHER_ON OR VI_CTRL_GAMMA_ON OR VI_CTRL_ANTIALIAS_MODE_3 OR
     VI_CTRL_PIXEL_ADV_3
     = 13071"
  "VI_CTRL_TYPE_32 OR VI_CTRL_GAMMA_DITHER_ON OR VI_CTRL_GAMMA_ON OR VI_CTRL_DIVOT_ON OR
     VI_CTRL_ANTIALIAS_MODE_0 OR VI_CTRL_PIXEL_ADV_3
     = 12319"
  "VI_CTRL_TYPE_32 OR VI_CTRL_GAMMA_DITHER_ON OR VI_CTRL_GAMMA_ON OR VI_CTRL_DIVOT_ON OR
     VI_CTRL_SERRATE_ON OR VI_CTRL_ANTIALIAS_MODE_0 OR VI_CTRL_PIXEL_ADV_3
     = 12383"
  "VI_CTRL_TYPE_32 OR VI_CTRL_GAMMA_DITHER_ON OR VI_CTRL_GAMMA_ON OR VI_CTRL_SERRATE_ON OR
     VI_CTRL_ANTIALIAS_MODE_2 OR VI_CTRL_PIXEL_ADV_3
     = 12879"
  "VI_CTRL_TYPE_32 OR VI_CTRL_GAMMA_DITHER_ON OR VI_CTRL_GAMMA_ON OR VI_CTRL_SERRATE_ON OR
     VI_CTRL_ANTIALIAS_MODE_3 OR VI_CTRL_PIXEL_ADV_3
     = 13135"
  by (simp_all add: vi_ctrl_defs)

end
