(* ===== verification/Vi.thy ===== *)
theory Vi
  imports ViTables "HOL-Library.Monad_Syntax"
begin

section \<open>The video manager\<close>

text \<open>
  The video functions of \<^verbatim>\<open>lib/ultralib/src/io/\<close>: \<^verbatim>\<open>vi.c\<close>, the calls that prepare the next
  picture (\<^verbatim>\<open>visetmode.c\<close>, \<^verbatim>\<open>viswapbuf.c\<close>, \<^verbatim>\<open>visetspecial.c\<close> and so on), the swap of the two
  contexts at a retrace (\<^verbatim>\<open>viswapcontext.c\<close>), and the loop of the manager (\<^verbatim>\<open>vimgr.c\<close>) with the
  clock it keeps (\<^verbatim>\<open>gettime.c\<close>).  The contexts are the two elements of \<^verbatim>\<open>vi\<close>, \<open>osViCurr\<close> and
  \<open>osViNext\<close> the indices the pointers stand for; a mode is referred to by its address, because the
  game changes modes in place.  \<open>vi_io\<close> is the register file of the interface.  The value of the
  register that holds the current line is an argument wherever the code reads it, and so is the
  translation of mapped addresses, which is assembly.
\<close>

record OSViScale =
  vs_factor :: rat
  vs_offset :: u16
  vs_scale :: u32

record OSViContext =
  vc_state :: u16
  vc_retraceCount :: u16
  vc_framep :: ptr
  vc_modep :: ptr
  vc_control :: u32
  vc_msgq :: ptr
  vc_msg :: u32
  vc_x :: OSViScale
  vc_y :: OSViScale

record vi =
  vi_ctx :: "nat \<Rightarrow> OSViContext"
  osViCurr :: nat
  osViNext :: nat
  vi_mode :: "ptr \<Rightarrow> OSViMode"
  vi_io :: "u32 \<Rightarrow> u32"

subsection \<open>Constants\<close>

definition VI_STATE_MODE_UPDATED :: u16 where "VI_STATE_MODE_UPDATED = 0x01"
definition VI_STATE_XSCALE_UPDATED :: u16 where "VI_STATE_XSCALE_UPDATED = 0x02"
definition VI_STATE_YSCALE_UPDATED :: u16 where "VI_STATE_YSCALE_UPDATED = 0x04"
definition VI_STATE_CTRL_UPDATED :: u16 where "VI_STATE_CTRL_UPDATED = 0x08"
definition VI_STATE_BUFFER_UPDATED :: u16 where "VI_STATE_BUFFER_UPDATED = 0x10"
definition VI_STATE_BLACK :: u16 where "VI_STATE_BLACK = 0x20"
definition VI_STATE_REPEATLINE :: u16 where "VI_STATE_REPEATLINE = 0x40"
definition VI_STATE_FADE :: u16 where "VI_STATE_FADE = 0x80"

lemmas vi_state_defs = VI_STATE_MODE_UPDATED_def VI_STATE_XSCALE_UPDATED_def VI_STATE_YSCALE_UPDATED_def
  VI_STATE_CTRL_UPDATED_def VI_STATE_BUFFER_UPDATED_def VI_STATE_BLACK_def VI_STATE_REPEATLINE_def
  VI_STATE_FADE_def

definition VI_SCALE_MASK :: u32 where "VI_SCALE_MASK = 0xFFF"
definition VI_2_10_FPART_MASK :: u32 where "VI_2_10_FPART_MASK = 0x3FF"
definition VI_SUBPIXEL_SH :: nat where "VI_SUBPIXEL_SH = 0x10"

definition VI_CONTROL_REG :: u32 where "VI_CONTROL_REG = 0x04400000"
definition VI_ORIGIN_REG :: u32 where "VI_ORIGIN_REG = 0x04400004"
definition VI_WIDTH_REG :: u32 where "VI_WIDTH_REG = 0x04400008"
definition VI_INTR_REG :: u32 where "VI_INTR_REG = 0x0440000C"
definition VI_BURST_REG :: u32 where "VI_BURST_REG = 0x04400014"
definition VI_V_SYNC_REG :: u32 where "VI_V_SYNC_REG = 0x04400018"
definition VI_H_SYNC_REG :: u32 where "VI_H_SYNC_REG = 0x0440001C"
definition VI_LEAP_REG :: u32 where "VI_LEAP_REG = 0x04400020"
definition VI_H_START_REG :: u32 where "VI_H_START_REG = 0x04400024"
definition VI_V_START_REG :: u32 where "VI_V_START_REG = 0x04400028"
definition VI_V_BURST_REG :: u32 where "VI_V_BURST_REG = 0x0440002C"
definition VI_X_SCALE_REG :: u32 where "VI_X_SCALE_REG = 0x04400030"
definition VI_Y_SCALE_REG :: u32 where "VI_Y_SCALE_REG = 0x04400034"

lemmas vi_reg_defs = VI_CONTROL_REG_def VI_ORIGIN_REG_def VI_WIDTH_REG_def VI_INTR_REG_def VI_BURST_REG_def
  VI_V_SYNC_REG_def VI_H_SYNC_REG_def VI_LEAP_REG_def VI_H_START_REG_def VI_V_START_REG_def
  VI_V_BURST_REG_def VI_X_SCALE_REG_def VI_Y_SCALE_REG_def

definition OS_VI_GAMMA_ON :: u32 where "OS_VI_GAMMA_ON = 0x0001"
definition OS_VI_GAMMA_OFF :: u32 where "OS_VI_GAMMA_OFF = 0x0002"
definition OS_VI_GAMMA_DITHER_ON :: u32 where "OS_VI_GAMMA_DITHER_ON = 0x0004"
definition OS_VI_GAMMA_DITHER_OFF :: u32 where "OS_VI_GAMMA_DITHER_OFF = 0x0008"
definition OS_VI_DIVOT_ON :: u32 where "OS_VI_DIVOT_ON = 0x0010"
definition OS_VI_DIVOT_OFF :: u32 where "OS_VI_DIVOT_OFF = 0x0020"
definition OS_VI_DITHER_FILTER_ON :: u32 where "OS_VI_DITHER_FILTER_ON = 0x0040"
definition OS_VI_DITHER_FILTER_OFF :: u32 where "OS_VI_DITHER_FILTER_OFF = 0x0080"

lemmas vi_feature_defs = OS_VI_GAMMA_ON_def OS_VI_GAMMA_OFF_def OS_VI_GAMMA_DITHER_ON_def
  OS_VI_GAMMA_DITHER_OFF_def OS_VI_DIVOT_ON_def OS_VI_DIVOT_OFF_def OS_VI_DITHER_FILTER_ON_def
  OS_VI_DITHER_FILTER_OFF_def

subsection \<open>The calls of the game\<close>

definition curr_ctx :: "vi \<Rightarrow> OSViContext" where
  "curr_ctx st = vi_ctx st (osViCurr st)"

definition next_ctx :: "vi \<Rightarrow> OSViContext" where
  "next_ctx st = vi_ctx st (osViNext st)"

definition upd_next :: "(OSViContext \<Rightarrow> OSViContext) \<Rightarrow> vi \<Rightarrow> vi" where
  "upd_next f st = st\<lparr>vi_ctx := (vi_ctx st)(osViNext st := f (next_ctx st))\<rparr>"

text \<open>\<open>state |= flag\<close> and \<open>state &= ~flag\<close>.\<close>

definition set_flag :: "u16 \<Rightarrow> bool \<Rightarrow> OSViContext \<Rightarrow> OSViContext" where
  "set_flag flag on c =
     c\<lparr>vc_state := (if on then vc_state c OR flag else vc_state c AND NOT flag)\<rparr>"

definition osViBlack :: "u8 \<Rightarrow> vi \<Rightarrow> vi" where
  "osViBlack active = upd_next (set_flag VI_STATE_BLACK (active \<noteq> 0))"

definition osViRepeatLine :: "u8 \<Rightarrow> vi \<Rightarrow> vi" where
  "osViRepeatLine active = upd_next (set_flag VI_STATE_REPEATLINE (active \<noteq> 0))"

definition osViFade :: "u8 \<Rightarrow> u16 \<Rightarrow> vi \<Rightarrow> vi" where
  "osViFade active amount =
     upd_next (\<lambda>c. if active \<noteq> 0
       then set_flag VI_STATE_FADE True
              (c\<lparr>vc_y := (vc_y c)\<lparr>vs_offset := amount AND ucast VI_2_10_FPART_MASK\<rparr>\<rparr>)
       else set_flag VI_STATE_FADE False c)"

definition osViSetEvent :: "ptr \<Rightarrow> u32 \<Rightarrow> u32 \<Rightarrow> vi \<Rightarrow> vi" where
  "osViSetEvent mq m retraceCount =
     upd_next (\<lambda>c. c\<lparr>vc_msgq := mq, vc_msg := m, vc_retraceCount := ucast retraceCount\<rparr>)"

definition osViSetMode :: "ptr \<Rightarrow> vi \<Rightarrow> vi" where
  "osViSetMode mp st =
     upd_next (\<lambda>c. c\<lparr>vc_modep := mp, vc_state := VI_STATE_MODE_UPDATED,
                     vc_control := ctrl (comRegs (vi_mode st mp))\<rparr>) st"

definition osViSwapBuffer :: "ptr \<Rightarrow> vi \<Rightarrow> vi" where
  "osViSwapBuffer fb =
     upd_next (\<lambda>c. set_flag VI_STATE_BUFFER_UPDATED True (c\<lparr>vc_framep := fb\<rparr>))"

text \<open>The factors are numbers of single precision; the conversion to \<^verbatim>\<open>u32\<close> truncates.\<close>

definition osViSetXScale :: "rat \<Rightarrow> vi \<Rightarrow> vi" where
  "osViSetXScale value st =
     upd_next (\<lambda>c. set_flag VI_STATE_XSCALE_UPDATED True
       (let nomValue = xScale (comRegs (vi_mode st (vc_modep c))) AND VI_SCALE_MASK
        in c\<lparr>vc_x := (vc_x c)\<lparr>vs_factor := value,
              vs_scale := word_of_int \<lfloor>f32_mul value (of_int (uint nomValue))\<rfloor> AND VI_SCALE_MASK\<rparr>\<rparr>)) st"

definition osViSetYScale :: "rat \<Rightarrow> vi \<Rightarrow> vi" where
  "osViSetYScale value =
     upd_next (\<lambda>c. set_flag VI_STATE_YSCALE_UPDATED True (c\<lparr>vc_y := (vc_y c)\<lparr>vs_factor := value\<rparr>\<rparr>))"

text \<open>The features: each pair of bits sets and then clears a bit of the control register.\<close>

definition on_off :: "u32 \<Rightarrow> u32 \<Rightarrow> u32 \<Rightarrow> u32 \<Rightarrow> u32 \<Rightarrow> u32" where
  "on_off func on off bits c =
     (let c = (if func AND on \<noteq> 0 then c OR bits else c)
      in if func AND off \<noteq> 0 then c AND NOT bits else c)"

definition special_features :: "u32 \<Rightarrow> u32 \<Rightarrow> u32 \<Rightarrow> u32" where
  "special_features func modeCtrl c0 =
     (let c = on_off func OS_VI_GAMMA_ON OS_VI_GAMMA_OFF VI_CTRL_GAMMA_ON c0;
          c = on_off func OS_VI_GAMMA_DITHER_ON OS_VI_GAMMA_DITHER_OFF VI_CTRL_GAMMA_DITHER_ON c;
          c = on_off func OS_VI_DIVOT_ON OS_VI_DIVOT_OFF VI_CTRL_DIVOT_ON c;
          c = (if func AND OS_VI_DITHER_FILTER_ON \<noteq> 0
               then (c OR VI_CTRL_DITHER_FILTER_ON) AND NOT VI_CTRL_ANTIALIAS_MASK else c)
      in if func AND OS_VI_DITHER_FILTER_OFF \<noteq> 0
         then (c AND NOT VI_CTRL_DITHER_FILTER_ON) OR (modeCtrl AND VI_CTRL_ANTIALIAS_MASK) else c)"

definition osViSetSpecialFeatures :: "u32 \<Rightarrow> vi \<Rightarrow> vi" where
  "osViSetSpecialFeatures func st =
     upd_next (\<lambda>c. set_flag VI_STATE_CTRL_UPDATED True
       (c\<lparr>vc_control := special_features func (ctrl (comRegs (vi_mode st (vc_modep c)))) (vc_control c)\<rparr>)) st"

text \<open>The queries.\<close>

definition osViGetCurrentFramebuffer :: "vi \<Rightarrow> ptr" where
  "osViGetCurrentFramebuffer st = vc_framep (curr_ctx st)"

definition osViGetNextFramebuffer :: "vi \<Rightarrow> ptr" where
  "osViGetNextFramebuffer st = vc_framep (next_ctx st)"

definition osViGetCurrentMode :: "vi \<Rightarrow> u32" where
  "osViGetCurrentMode st = ucast (vm_type (vi_mode st (vc_modep (curr_ctx st))))"

subsection \<open>The swap of the contexts\<close>

definition K0BASE :: u32 where "K0BASE = 0x80000000"

definition osVirtualToPhysical :: "(ptr \<Rightarrow> u32) \<Rightarrow> ptr \<Rightarrow> u32" where
  "osVirtualToPhysical probeTLB addr =
     (if K0BASE \<le> addr \<and> addr < 0xA0000000 then addr AND 0x1FFFFFFF
      else if 0xA0000000 \<le> addr \<and> addr < 0xC0000000 then addr AND 0x1FFFFFFF
      else probeTLB addr)"

text \<open>The scales the swap stores in the context.\<close>

definition swap_scales :: "OSViMode \<Rightarrow> nat \<Rightarrow> OSViContext \<Rightarrow> OSViContext" where
  "swap_scales vm field vc =
     (let xs = (if vc_state vc AND VI_STATE_XSCALE_UPDATED \<noteq> 0
                then vs_scale (vc_x vc) OR (xScale (comRegs vm) AND NOT VI_SCALE_MASK)
                else xScale (comRegs vm));
          fy = yScale (fldRegs vm ! field);
          ys = (if vc_state vc AND VI_STATE_YSCALE_UPDATED \<noteq> 0
                then word_of_int \<lfloor>f32_mul (vs_factor (vc_y vc)) (of_int (uint (fy AND VI_SCALE_MASK)))\<rfloor>
                     OR (fy AND NOT VI_SCALE_MASK)
                else fy);
          ys = (if vc_state vc AND VI_STATE_REPEATLINE \<noteq> 0 then 0 else ys);
          ys = (if vc_state vc AND VI_STATE_FADE \<noteq> 0
                then push_bit VI_SUBPIXEL_SH (ucast (vs_offset (vc_y vc))) AND
                     push_bit VI_SUBPIXEL_SH VI_2_10_FPART_MASK
                else ys)
      in vc\<lparr>vc_x := (vc_x vc)\<lparr>vs_scale := xs\<rparr>, vc_y := (vc_y vc)\<lparr>vs_scale := ys\<rparr>\<rparr>)"

text \<open>The registers it writes, in the order it writes them.\<close>

definition swap_writes :: "(ptr \<Rightarrow> u32) \<Rightarrow> OSViMode \<Rightarrow> nat \<Rightarrow> OSViContext \<Rightarrow> (u32 \<times> u32) list" where
  "swap_writes probeTLB vm field vc =
     (let fb = osVirtualToPhysical probeTLB (vc_framep vc);
          r = fldRegs vm ! field;
          org = (if vc_state vc AND VI_STATE_REPEATLINE \<noteq> 0 \<or> vc_state vc AND VI_STATE_FADE \<noteq> 0 then fb
                 else fb + origin r);
          hs = (if vc_state vc AND VI_STATE_BLACK \<noteq> 0 then 0 else hStart (comRegs vm))
      in [(VI_ORIGIN_REG, org), (VI_WIDTH_REG, width (comRegs vm)), (VI_BURST_REG, burst (comRegs vm)),
          (VI_V_SYNC_REG, vSync (comRegs vm)), (VI_H_SYNC_REG, hSync (comRegs vm)),
          (VI_LEAP_REG, leap (comRegs vm)), (VI_H_START_REG, hs), (VI_V_START_REG, vStart r),
          (VI_V_BURST_REG, vBurst r), (VI_INTR_REG, vIntr r), (VI_X_SCALE_REG, vs_scale (vc_x vc)),
          (VI_Y_SCALE_REG, vs_scale (vc_y vc)), (VI_CONTROL_REG, vc_control vc)])"

definition io_writes :: "(u32 \<times> u32) list \<Rightarrow> (u32 \<Rightarrow> u32) \<Rightarrow> u32 \<Rightarrow> u32" where
  "io_writes ws io = foldl (\<lambda>io (r, v). io(r := v)) io ws"

definition osViSwapContext :: "(ptr \<Rightarrow> u32) \<Rightarrow> u32 \<Rightarrow> vi \<Rightarrow> vi" where
  "osViSwapContext probeTLB current st =
     (let field = unat (current AND 1);
          vc = next_ctx st;
          vm = vi_mode st (vc_modep vc);
          vc = swap_scales vm field vc
      in \<lparr>vi_ctx = (vi_ctx st)(osViNext st := vc, osViCurr st := vc),
          osViCurr = osViNext st, osViNext = osViCurr st, vi_mode = vi_mode st,
          vi_io = io_writes (swap_writes probeTLB vm field vc) (vi_io st)\<rparr>)"

text \<open>\<^verbatim>\<open>__osViInit\<close>: \<open>reads\<close> are the lines it reads, the loop waits for one of the first ten.  The
  modes it may start with are objects of the library at the given addresses.\<close>

definition zero_ctx :: OSViContext where
  "zero_ctx =
     \<lparr>vc_state = 0, vc_retraceCount = 0, vc_framep = 0, vc_modep = 0, vc_control = 0, vc_msgq = 0, vc_msg = 0,
      vc_x = \<lparr>vs_factor = 0, vs_offset = 0, vs_scale = 0\<rparr>,
      vc_y = \<lparr>vs_factor = 0, vs_offset = 0, vs_scale = 0\<rparr>\<rparr>"

record vi_objects =
  at_PalLan1 :: ptr
  at_MpalLan1 :: ptr
  at_NtscLan1 :: ptr

definition osViInit :: "(ptr \<Rightarrow> u32) \<Rightarrow> vi_objects \<Rightarrow> u32 \<Rightarrow> u32 list \<Rightarrow> vi \<Rightarrow> vi option" where
  "osViInit probeTLB objs osTvType reads st0 =
     (let c = zero_ctx\<lparr>vc_retraceCount := 1, vc_framep := K0BASE\<rparr>;
          mp = (if osTvType = 0 then at_PalLan1 objs else if osTvType = 2 then at_MpalLan1 objs
                else at_NtscLan1 objs);
          n = c\<lparr>vc_modep := mp, vc_state := VI_STATE_BLACK, vc_control := ctrl (comRegs (vi_mode st0 mp))\<rparr>;
          st = st0\<lparr>vi_ctx := (vi_ctx st0)(0 := c, 1 := n), osViCurr := 0, osViNext := 1,
                   vi_io := (vi_io st0)(VI_CONTROL_REG := 0)\<rparr>
      in case dropWhile (\<lambda>r. 10 < r) reads of
           settled # current # rest \<Rightarrow> Some (osViSwapContext probeTLB current st)
         | _ \<Rightarrow> None)"

subsection \<open>The manager and the clock\<close>

record vimgr =
  vm_vi :: vi
  vm_retrace :: u16                   \<comment> \<open>\<^verbatim>\<open>static u16 retrace\<close>\<close>
  osViIntrCount :: u32
  osCurrentTime :: u64
  osBaseCounter :: u32

definition osTimerServicesInit_clock :: "vimgr \<Rightarrow> vimgr" where
  "osTimerServicesInit_clock s = s\<lparr>osCurrentTime := 0, osBaseCounter := 0, osViIntrCount := 0\<rparr>"

definition viMgrMain_start :: "vimgr \<Rightarrow> vimgr" where
  "viMgrMain_start s =
     (let r = vc_retraceCount (curr_ctx (vm_vi s)) in s\<lparr>vm_retrace := (if r = 0 then 1 else r)\<rparr>)"

text \<open>One turn of the loop for a retrace: \<open>current\<close> is the line and \<open>count\<close> the counter it reads.  The
  result is the message it sends, without waiting, to the queue of the context.\<close>

definition viMgrMain_retrace ::
  "(ptr \<Rightarrow> u32) \<Rightarrow> u32 \<Rightarrow> u32 \<Rightarrow> vimgr \<Rightarrow> (ptr \<times> u32) option \<times> vimgr" where
  "viMgrMain_retrace probeTLB current count s0 =
     (let s = s0\<lparr>vm_vi := osViSwapContext probeTLB current (vm_vi s0), vm_retrace := vm_retrace s0 - 1\<rparr>;
          vc = curr_ctx (vm_vi s);
          (out, s) =
            (if vm_retrace s = 0
             then (if vc_msgq vc \<noteq> NULL then Some (vc_msgq vc, vc_msg vc) else None,
                   s\<lparr>vm_retrace := vc_retraceCount vc\<rparr>)
             else (None, s));
          elapsed = count - osBaseCounter s
      in (out, s\<lparr>osViIntrCount := osViIntrCount s + 1, osBaseCounter := count,
                 osCurrentTime := osCurrentTime s + ucast elapsed\<rparr>))"

definition osGetTime :: "u32 \<Rightarrow> vimgr \<Rightarrow> u64" where
  "osGetTime count s = osCurrentTime s + ucast (count - osBaseCounter s)"

definition osSetTime :: "u64 \<Rightarrow> vimgr \<Rightarrow> vimgr" where
  "osSetTime time s = s\<lparr>osCurrentTime := time\<rparr>"

subsection \<open>Double buffering\<close>

text \<open>The calls, and the retrace with the line it reads, as steps.\<close>

datatype vi_call =
    C_Black u8
  | C_RepeatLine u8
  | C_Fade u8 u16
  | C_SetEvent ptr u32 u32
  | C_SetMode ptr
  | C_SwapBuffer ptr
  | C_SetXScale rat
  | C_SetYScale rat
  | C_SetSpecialFeatures u32
  | C_Retrace u32

primrec vi_step :: "(ptr \<Rightarrow> u32) \<Rightarrow> vi_call \<Rightarrow> vi \<Rightarrow> vi" where
  "vi_step pt (C_Black a) = osViBlack a"
| "vi_step pt (C_RepeatLine a) = osViRepeatLine a"
| "vi_step pt (C_Fade a f) = osViFade a f"
| "vi_step pt (C_SetEvent q m n) = osViSetEvent q m n"
| "vi_step pt (C_SetMode m) = osViSetMode m"
| "vi_step pt (C_SwapBuffer b) = osViSwapBuffer b"
| "vi_step pt (C_SetXScale v) = osViSetXScale v"
| "vi_step pt (C_SetYScale v) = osViSetYScale v"
| "vi_step pt (C_SetSpecialFeatures f) = osViSetSpecialFeatures f"
| "vi_step pt (C_Retrace l) = osViSwapContext pt l"

definition vi_run :: "(ptr \<Rightarrow> u32) \<Rightarrow> vi_call list \<Rightarrow> vi \<Rightarrow> vi" where
  "vi_run pt cs st = fold (vi_step pt) cs st"

lemma vi_run_simps [simp]:
  "vi_run pt [] st = st" "vi_run pt (c # cs) st = vi_run pt cs (vi_step pt c st)"
  by (simp_all add: vi_run_def)

text \<open>The two pointers are the two elements of the array.\<close>

definition vi_inv :: "vi \<Rightarrow> bool" where
  "vi_inv st \<longleftrightarrow> osViCurr st < 2 \<and> osViNext st < 2 \<and> osViCurr st \<noteq> osViNext st"

text \<open>What a call asks for: the specification.  A new mode ends blanking, repetition and fading.\<close>

record picture =
  p_buffer :: ptr
  p_mode :: ptr
  p_black :: bool
  p_repeat :: bool
  p_fade :: bool
  p_event :: "ptr \<times> u32 \<times> u16"

fun asked :: "vi_call \<Rightarrow> picture \<Rightarrow> picture" where
  "asked (C_Black a) p = p\<lparr>p_black := a \<noteq> 0\<rparr>"
| "asked (C_RepeatLine a) p = p\<lparr>p_repeat := a \<noteq> 0\<rparr>"
| "asked (C_Fade a f) p = p\<lparr>p_fade := a \<noteq> 0\<rparr>"
| "asked (C_SetEvent q m n) p = p\<lparr>p_event := (q, m, ucast n)\<rparr>"
| "asked (C_SetMode m) p = p\<lparr>p_mode := m, p_black := False, p_repeat := False, p_fade := False\<rparr>"
| "asked (C_SwapBuffer b) p = p\<lparr>p_buffer := b\<rparr>"
| "asked _ p = p"

text \<open>A screen has a picture to come and a picture that is shown.\<close>

fun screen_step :: "vi_call \<Rightarrow> picture \<times> picture \<Rightarrow> picture \<times> picture" where
  "screen_step (C_Retrace l) (p, q) = (p, p)"
| "screen_step c (p, q) = (asked c p, q)"

definition picture_of :: "OSViContext \<Rightarrow> picture" where
  "picture_of c =
     \<lparr>p_buffer = vc_framep c, p_mode = vc_modep c, p_black = vc_state c AND VI_STATE_BLACK \<noteq> 0,
      p_repeat = vc_state c AND VI_STATE_REPEATLINE \<noteq> 0, p_fade = vc_state c AND VI_STATE_FADE \<noteq> 0,
      p_event = (vc_msgq c, vc_msg c, vc_retraceCount c)\<rparr>"

definition screen_of :: "vi \<Rightarrow> picture \<times> picture" where
  "screen_of st = (picture_of (next_ctx st), picture_of (curr_ctx st))"

lemma upd_next_fields [simp]:
  "osViCurr (upd_next f st) = osViCurr st" "osViNext (upd_next f st) = osViNext st"
  "vi_mode (upd_next f st) = vi_mode st" "vi_io (upd_next f st) = vi_io st"
  "next_ctx (upd_next f st) = f (next_ctx st)"
  by (simp_all add: upd_next_def next_ctx_def)

lemma curr_upd_next [simp]: "vi_inv st \<Longrightarrow> curr_ctx (upd_next f st) = curr_ctx st"
  by (simp add: upd_next_def curr_ctx_def vi_inv_def)

text \<open>A flag is a bit of the state.\<close>

lemma flag_set_bit:
  "x AND VI_STATE_XSCALE_UPDATED \<noteq> 0 \<longleftrightarrow> bit x 1" "x AND VI_STATE_YSCALE_UPDATED \<noteq> 0 \<longleftrightarrow> bit x 2"
  "x AND VI_STATE_BLACK \<noteq> 0 \<longleftrightarrow> bit x 5" "x AND VI_STATE_REPEATLINE \<noteq> 0 \<longleftrightarrow> bit x 6"
  "x AND VI_STATE_FADE \<noteq> 0 \<longleftrightarrow> bit x 7"
  using and_exp_eq_0_iff_not_bit [of x 1] and_exp_eq_0_iff_not_bit [of x 2] and_exp_eq_0_iff_not_bit [of x 5]
    and_exp_eq_0_iff_not_bit [of x 6] and_exp_eq_0_iff_not_bit [of x 7]
  by (simp_all add: vi_state_defs)

lemma set_exp_bit:
  "k < 16 \<Longrightarrow> bit (vc_state (set_flag (2 ^ k) on c)) j \<longleftrightarrow> (if j = k then on else bit (vc_state c) j)"
  by (auto simp: set_flag_def bit_simps dest: bit_imp_le_length)

lemma set_flag_bit [simp]:
  "bit (vc_state (set_flag VI_STATE_XSCALE_UPDATED on c)) j \<longleftrightarrow> (if j = 1 then on else bit (vc_state c) j)"
  "bit (vc_state (set_flag VI_STATE_YSCALE_UPDATED on c)) j \<longleftrightarrow> (if j = 2 then on else bit (vc_state c) j)"
  "bit (vc_state (set_flag VI_STATE_CTRL_UPDATED on c)) j \<longleftrightarrow> (if j = 3 then on else bit (vc_state c) j)"
  "bit (vc_state (set_flag VI_STATE_BUFFER_UPDATED on c)) j \<longleftrightarrow> (if j = 4 then on else bit (vc_state c) j)"
  "bit (vc_state (set_flag VI_STATE_BLACK on c)) j \<longleftrightarrow> (if j = 5 then on else bit (vc_state c) j)"
  "bit (vc_state (set_flag VI_STATE_REPEATLINE on c)) j \<longleftrightarrow> (if j = 6 then on else bit (vc_state c) j)"
  "bit (vc_state (set_flag VI_STATE_FADE on c)) j \<longleftrightarrow> (if j = 7 then on else bit (vc_state c) j)"
  using set_exp_bit [of 1 on c j] set_exp_bit [of 2 on c j] set_exp_bit [of 3 on c j] set_exp_bit [of 4 on c j]
    set_exp_bit [of 5 on c j] set_exp_bit [of 6 on c j] set_exp_bit [of 7 on c j]
  by (simp_all add: vi_state_defs)

lemma mode_updated_bit [simp]: "bit VI_STATE_MODE_UPDATED j \<longleftrightarrow> j = 0"
  by (simp add: VI_STATE_MODE_UPDATED_def bit_1_iff)

lemma set_flag_fields [simp]:
  "vc_retraceCount (set_flag f b c) = vc_retraceCount c" "vc_framep (set_flag f b c) = vc_framep c"
  "vc_modep (set_flag f b c) = vc_modep c" "vc_control (set_flag f b c) = vc_control c"
  "vc_msgq (set_flag f b c) = vc_msgq c" "vc_msg (set_flag f b c) = vc_msg c"
  "vc_x (set_flag f b c) = vc_x c" "vc_y (set_flag f b c) = vc_y c"
  by (simp_all add: set_flag_def)

lemmas vi_call_defs = osViBlack_def osViRepeatLine_def osViFade_def osViSetEvent_def osViSetMode_def
  osViSwapBuffer_def osViSetXScale_def osViSetYScale_def osViSetSpecialFeatures_def

lemma picture_of_asked:
  "\<forall>l. c \<noteq> C_Retrace l \<Longrightarrow> picture_of (next_ctx (vi_step pt c st)) = asked c (picture_of (next_ctx st))"
  by (cases c)
    (simp_all add: vi_call_defs picture_of_def flag_set_bit Let_def)

text \<open>The swap.\<close>

lemma swap_scales_fields [simp]:
  "vc_state (swap_scales vm f c) = vc_state c" "vc_retraceCount (swap_scales vm f c) = vc_retraceCount c"
  "vc_framep (swap_scales vm f c) = vc_framep c" "vc_modep (swap_scales vm f c) = vc_modep c"
  "vc_control (swap_scales vm f c) = vc_control c" "vc_msgq (swap_scales vm f c) = vc_msgq c"
  "vc_msg (swap_scales vm f c) = vc_msg c" "picture_of (swap_scales vm f c) = picture_of c"
  by (simp_all add: swap_scales_def picture_of_def Let_def)

lemma swap_fields [simp]:
  "vi_inv st \<Longrightarrow> vi_inv (osViSwapContext pt l st)"
  "vi_mode (osViSwapContext pt l st) = vi_mode st"
  "picture_of (next_ctx (osViSwapContext pt l st)) = picture_of (next_ctx st)"
  "picture_of (curr_ctx (osViSwapContext pt l st)) = picture_of (next_ctx st)"
  by (auto simp: osViSwapContext_def vi_inv_def next_ctx_def curr_ctx_def Let_def)

lemma swap_sync: "next_ctx (osViSwapContext pt l st) = curr_ctx (osViSwapContext pt l st)"
  by (simp add: osViSwapContext_def next_ctx_def curr_ctx_def Let_def)

lemma vi_inv_upd [simp]: "vi_inv (upd_next f st) = vi_inv st"
  by (simp add: vi_inv_def)

lemma vi_step_inv: "vi_inv st \<Longrightarrow> vi_inv (vi_step pt c st)"
  by (cases c) (simp_all add: vi_call_defs)

lemma vi_step_screen:
  assumes "vi_inv st"
  shows "screen_of (vi_step pt c st) = screen_step c (screen_of st)"
proof (cases "\<exists>l. c = C_Retrace l")
  case True
  then show ?thesis by (auto simp: screen_of_def)
next
  case False
  then have a: "screen_step c (p, q) = (asked c p, q)" for p q by (cases c) auto
  from False have "curr_ctx (vi_step pt c st) = curr_ctx st"
    using assms by (cases c) (auto simp: vi_call_defs)
  with False show ?thesis by (simp add: screen_of_def picture_of_asked a)
qed

lemma vi_run_screen:
  "vi_inv st \<Longrightarrow> vi_inv (vi_run pt cs st) \<and> screen_of (vi_run pt cs st) = fold screen_step cs (screen_of st)"
  by (induction cs arbitrary: st) (simp_all add: vi_step_inv vi_step_screen)

text \<open>Claim C20: the two contexts and the copying between them are a screen with one picture that is being
  prepared and one that is shown: whatever the calls and retraces, the picture prepared is what
  the calls asked for, one after the other and across retraces, and the picture shown is the one
  prepared at the last retrace.\<close>

theorem contexts_refine_screen:
  assumes "vi_inv st"
  shows "vi_inv (vi_run pt cs st) \<and> screen_of (vi_run pt cs st) = fold screen_step cs (screen_of st)"
  using assms by (rule vi_run_screen)

text \<open>The calls between two retraces.\<close>

definition no_retrace :: "vi_call list \<Rightarrow> bool" where
  "no_retrace cs \<longleftrightarrow> (\<forall>c\<in>set cs. \<forall>l. c \<noteq> C_Retrace l)"

lemma no_retrace_simps [simp]:
  "no_retrace []" "no_retrace (c # cs) \<longleftrightarrow> (\<forall>l. c \<noteq> C_Retrace l) \<and> no_retrace cs"
  by (simp_all add: no_retrace_def)

lemma call_keeps:
  assumes "\<forall>l. c \<noteq> C_Retrace l"
  shows "vi_io (vi_step pt c st) = vi_io st" "vi_mode (vi_step pt c st) = vi_mode st"
    "vi_inv st \<Longrightarrow> curr_ctx (vi_step pt c st) = curr_ctx st"
  using assms by (cases c; simp add: vi_call_defs)+

lemma calls_keep:
  assumes "no_retrace cs" "vi_inv st"
  shows "vi_io (vi_run pt cs st) = vi_io st" "vi_mode (vi_run pt cs st) = vi_mode st"
    "curr_ctx (vi_run pt cs st) = curr_ctx st"
    "picture_of (next_ctx (vi_run pt cs st)) = fold asked cs (picture_of (next_ctx st))"
    "vi_inv (vi_run pt cs st)"
  using assms
  by (induction cs arbitrary: st) (simp_all add: call_keeps picture_of_asked vi_step_inv)

lemma swap_io:
  fixes st :: vi and l :: u32
  defines "p \<equiv> picture_of (next_ctx st)"
  defines "m \<equiv> vi_mode st (p_mode p)"
  defines "r \<equiv> fldRegs m ! unat (l AND 1)"
  shows "vi_io (osViSwapContext pt l st) VI_ORIGIN_REG
           = osVirtualToPhysical pt (p_buffer p) + (if p_repeat p \<or> p_fade p then 0 else origin r)"
    "vi_io (osViSwapContext pt l st) VI_H_START_REG = (if p_black p then 0 else hStart (comRegs m))"
    "vi_io (osViSwapContext pt l st) VI_V_START_REG = vStart r"
    "vi_io (osViSwapContext pt l st) VI_WIDTH_REG = width (comRegs m)"
    "vi_io (osViSwapContext pt l st) VI_CONTROL_REG = vc_control (next_ctx st)"
  unfolding r_def m_def p_def
  by (simp_all add: osViSwapContext_def swap_writes_def io_writes_def picture_of_def Let_def vi_reg_defs)

text \<open>Claim C29: between two retraces the calls change nothing that is shown, neither a register nor the
  frame buffer in use, and the next retrace shows what they asked for in the end: the last buffer
  given, with the mode set last, blank exactly if the screen was made black after the last mode
  was set.\<close>

theorem retrace_shows_what_was_asked:
  assumes "vi_inv st" "no_retrace cs"
  shows "vi_io (vi_run pt cs st) = vi_io st \<and>
    osViGetCurrentFramebuffer (vi_run pt cs st) = osViGetCurrentFramebuffer st \<and>
    (let st' = osViSwapContext pt l (vi_run pt cs st); p = fold asked cs (picture_of (next_ctx st));
         m = vi_mode st (p_mode p); r = fldRegs m ! unat (l AND 1)
     in osViGetCurrentFramebuffer st' = p_buffer p \<and>
        vi_io st' VI_ORIGIN_REG
          = osVirtualToPhysical pt (p_buffer p) + (if p_repeat p \<or> p_fade p then 0 else origin r) \<and>
        vi_io st' VI_H_START_REG = (if p_black p then 0 else hStart (comRegs m)) \<and>
        vi_io st' VI_V_START_REG = vStart r \<and> vi_io st' VI_WIDTH_REG = width (comRegs m))"
proof -
  note k = calls_keep [OF assms(2,1), of pt]
  have b: "osViGetCurrentFramebuffer st1 = p_buffer (picture_of (curr_ctx st1))" for st1
    by (simp add: osViGetCurrentFramebuffer_def picture_of_def)
  show ?thesis
    using swap_io [of pt l "vi_run pt cs st"] k(1-4) by (simp add: Let_def b k(5))
qed

definition sample_vi :: vi where
  "sample_vi =
     \<lparr>vi_ctx = (\<lambda>_. zero_ctx\<lparr>vc_modep := 8, vc_framep := 0x80200000\<rparr>), osViCurr = 0, osViNext = 1,
      vi_mode = (\<lambda>_. osViModeNtscLan1), vi_io = (\<lambda>_. 0)\<rparr>"

lemma sample_vi_inv: "vi_inv sample_vi"
  by (simp add: vi_inv_def sample_vi_def)

theorem contexts_refine_screen_witness:
  "p_buffer (snd (screen_of (vi_run id [C_SwapBuffer 0x80300000, C_Retrace 0, C_SwapBuffer 0x80200000] sample_vi)))
     = 0x80300000"
  using contexts_refine_screen [OF sample_vi_inv, of id "[C_SwapBuffer 0x80300000, C_Retrace 0, C_SwapBuffer 0x80200000]"]
  by (cases "screen_of sample_vi") simp

theorem retrace_shows_what_was_asked_witness:
  "vi_io (osViSwapContext id 0 (vi_run id [C_Black 1, C_SwapBuffer 0x80300000] sample_vi)) VI_H_START_REG = 0 \<and>
   osViGetCurrentFramebuffer (osViSwapContext id 0 (vi_run id [C_Black 1, C_SwapBuffer 0x80300000] sample_vi))
     = 0x80300000"
  using retrace_shows_what_was_asked [OF sample_vi_inv, of "[C_Black 1, C_SwapBuffer 0x80300000]" id 0]
  by (simp add: Let_def del: vi_run_simps)

subsection \<open>The retrace events\<close>

text \<open>The manager over a series of retraces, each with the line and the counter it reads.\<close>

primrec vimgr_run ::
  "(ptr \<Rightarrow> u32) \<Rightarrow> (u32 \<times> u32) list \<Rightarrow> vimgr \<Rightarrow> (ptr \<times> u32) option list \<times> vimgr" where
  "vimgr_run pt [] s = ([], s)"
| "vimgr_run pt (t # ts) s =
     (let (out, s1) = viMgrMain_retrace pt (fst t) (snd t) s; (outs, s2) = vimgr_run pt ts s1
      in (out # outs, s2))"

text \<open>The retraces left: the countdown is a \<^verbatim>\<open>u16\<close> that is decremented before the test.\<close>

definition retraces_left :: "u16 \<Rightarrow> nat" where
  "retraces_left r = (if r = 0 then 65536 else unat r)"

lemma left_pos: "0 < retraces_left r"
  by (simp add: retraces_left_def unat_gt_0)

lemma left_one: "r - 1 = 0 \<longleftrightarrow> retraces_left r = 1"
proof -
  have "r - 1 = 0 \<longleftrightarrow> r = 1" by simp
  also have "\<dots> \<longleftrightarrow> unat r = 1" by (simp add: word_unat_eq_iff)
  finally show ?thesis by (auto simp: retraces_left_def)
qed

lemma left_dec: "retraces_left r \<noteq> 1 \<Longrightarrow> retraces_left (r - 1) = retraces_left r - 1"
proof (cases "r = 0")
  case False
  moreover assume "retraces_left r \<noteq> 1"
  ultimately have "r - 1 \<noteq> 0" by (simp only: left_one not_False_eq_True)
  with False show ?thesis using unat_minus_one [of r] by (simp add: retraces_left_def)
next
  case True
  have "unat (- 1 :: u16) = 65535" by (simp add: unsigned_minus_1_eq_mask mask_eq_exp_minus_1)
  with True show ?thesis by (simp add: retraces_left_def)
qed

lemma retrace_event:
  assumes "p_event (picture_of (next_ctx (vm_vi s))) = (q, m, n)" "viMgrMain_retrace pt l c s = (out, s1)"
  shows "out = (if retraces_left (vm_retrace s) = 1 \<and> q \<noteq> NULL then Some (q, m) else None)"
    "retraces_left (vm_retrace s1) = (if retraces_left (vm_retrace s) = 1 then retraces_left n else retraces_left (vm_retrace s) - 1)"
    "vm_vi s1 = osViSwapContext pt l (vm_vi s)"
proof -
  let ?st = "osViSwapContext pt l (vm_vi s)"
  have "p_event (picture_of (curr_ctx ?st)) = (q, m, n)" using assms(1) by simp
  then have e: "vc_msgq (curr_ctx ?st) = q" "vc_msg (curr_ctx ?st) = m" "vc_retraceCount (curr_ctx ?st) = n"
    by (simp_all add: picture_of_def)
  show "out = (if retraces_left (vm_retrace s) = 1 \<and> q \<noteq> NULL then Some (q, m) else None)"
    "retraces_left (vm_retrace s1) = (if retraces_left (vm_retrace s) = 1 then retraces_left n else retraces_left (vm_retrace s) - 1)"
    "vm_vi s1 = ?st"
    using assms(2) left_one [of "vm_retrace s"] left_dec [of "vm_retrace s"]
    by (auto simp: viMgrMain_retrace_def Let_def e)
qed

lemma vimgr_run_events:
  assumes "p_event (picture_of (next_ctx (vm_vi s))) = (q, m, n)" "q \<noteq> NULL"
  shows "fst (vimgr_run pt ts s) =
    map (\<lambda>i. if retraces_left (vm_retrace s) \<le> Suc i \<and> retraces_left n dvd (Suc i - retraces_left (vm_retrace s)) then Some (q, m) else None)
      [0..<length ts]"
  using assms(1)
proof (induction ts arbitrary: s)
  case (Cons t ts)
  obtain out s1 where r: "viMgrMain_retrace pt (fst t) (snd t) s = (out, s1)" by fastforce
  note e = retrace_event [OF Cons.prems r]
  have "p_event (picture_of (next_ctx (vm_vi s1))) = (q, m, n)" using Cons.prems e(3) by simp
  note ih = Cons.IH [OF this]
  let ?k = "retraces_left (vm_retrace s)"
  have step: "retraces_left (vm_retrace s1) \<le> Suc i \<and> retraces_left n dvd (Suc i - retraces_left (vm_retrace s1)) \<longleftrightarrow>
      ?k \<le> Suc (Suc i) \<and> retraces_left n dvd (Suc (Suc i) - ?k)" for i
  proof (cases "?k = 1")
    case True
    have "retraces_left n \<le> Suc i" if "retraces_left n dvd Suc i" using that by (rule dvd_imp_le) simp
    then show ?thesis using True e(2) by (auto simp: dvd_minus_self)
  next
    case False
    then show ?thesis using left_pos [of "vm_retrace s"] e(2) by (auto simp: Suc_diff_le)
  qed
  have "out = (if ?k \<le> Suc 0 \<and> retraces_left n dvd (Suc 0 - ?k) then Some (q, m) else None)"
    using e(1) assms(2) left_pos [of "vm_retrace s"] by auto
  then show ?case
    by (simp add: r ih step map_upt_Suc split_beta del: upt_Suc)
qed simp

text \<open>after \<^verbatim>\<open>osViSetEvent\<close> the manager sends the message at regular retraces: the first time when
  the countdown that was running ends, and then with the period that was asked for, which is the
  argument modulo 65536, 0 being 65536 (the guard against 0 is only in front of the loop).\<close>

theorem retrace_events_are_periodic:
  assumes "q \<noteq> NULL"
  shows "fst (vimgr_run pt ts (s\<lparr>vm_vi := osViSetEvent q m n (vm_vi s)\<rparr>)) =
    map (\<lambda>i. if retraces_left (vm_retrace s) \<le> Suc i \<and> retraces_left (ucast n) dvd (Suc i - retraces_left (vm_retrace s))
             then Some (q, m) else None) [0..<length ts]"
proof -
  have "p_event (picture_of (next_ctx (vm_vi (s\<lparr>vm_vi := osViSetEvent q m n (vm_vi s)\<rparr>)))) = (q, m, ucast n)"
    by (simp add: osViSetEvent_def picture_of_def)
  from vimgr_run_events [OF this assms, of pt ts] show ?thesis by simp
qed

definition sample_mgr :: vimgr where
  "sample_mgr = \<lparr>vm_vi = sample_vi, vm_retrace = 1, osViIntrCount = 0, osCurrentTime = 0, osBaseCounter = 0\<rparr>"

theorem retrace_events_are_periodic_witness:
  "fst (vimgr_run id [(0, 0), (0, 0), (0, 0), (0, 0)] (sample_mgr\<lparr>vm_vi := osViSetEvent 16 7 2 (vm_vi sample_mgr)\<rparr>))
     = [Some (16, 7), None, Some (16, 7), None]"
proof -
  have "(16::ptr) \<noteq> NULL" by simp
  from retrace_events_are_periodic [OF this, where s = sample_mgr, of id "[(0, 0), (0, 0), (0, 0), (0, 0)]" 7 2] show ?thesis
    by (simp add: retraces_left_def sample_mgr_def upt_rec)
qed

subsection \<open>The clock\<close>

text \<open>The counter of the processor has 32 bits: at time \<open>t\<close>, in cycles since its start, it is \<open>of_nat t\<close>.\<close>

definition keeps_up :: "nat \<Rightarrow> nat \<Rightarrow> bool" where
  "keeps_up a b \<longleftrightarrow> a \<le> b \<and> b - a < 2 ^ 32"

lemma counter_elapsed:
  assumes "keeps_up a b"
  shows "(of_nat a :: u64) + ucast (of_nat b - of_nat a :: u32) = of_nat b"
proof -
  define d where "d = b - a"
  have b: "b = a + d" "d < 2 ^ 32" using assms by (simp_all add: keeps_up_def d_def)
  have "(ucast (of_nat d :: u32) :: u64) = of_nat d"
    using b(2) by (simp add: word_unat_eq_iff unsigned_ucast_eq unat_of_nat take_bit_nat_eq_self)
  then show ?thesis by (simp add: b(1))
qed

lemma clock_run:
  assumes "osCurrentTime s = of_nat a" "osBaseCounter s = of_nat a"
    and "successively keeps_up (a # map snd ts @ [b])"
  shows "osGetTime (of_nat b) (snd (vimgr_run pt (map (\<lambda>(l, t). (l, of_nat t)) ts) s)) = of_nat b"
  using assms
proof (induction ts arbitrary: s a)
  case Nil
  then show ?case using counter_elapsed [of a b] by (simp add: osGetTime_def)
next
  case (Cons t ts)
  obtain out s1 where r: "viMgrMain_retrace pt (fst t) (of_nat (snd t)) s = (out, s1)" by fastforce
  have k: "keeps_up a (snd t)" and rest: "successively keeps_up (snd t # map snd ts @ [b])"
    using Cons.prems(3) by simp_all
  have "osBaseCounter s1 = of_nat (snd t)" "osCurrentTime s1 = of_nat (snd t)"
    using r Cons.prems(1,2) counter_elapsed [OF k]
    by (auto simp: viMgrMain_retrace_def Let_def split: if_splits)
  from Cons.IH [OF this(2,1) rest] show ?case by (simp add: r split_beta)
qed

text \<open>Claim C30: the 64-bit clock never loses a wrap of the 32-bit counter: however many retraces pass, if no
  two of them are \<open>2 ^ 32\<close> cycles or more apart, the time read is the number of cycles since the
  start of the counter.\<close>

theorem osGetTime_counts_cycles:
  assumes "successively keeps_up (0 # map snd ts @ [b])"
  shows "osGetTime (of_nat b)
           (snd (vimgr_run pt (map (\<lambda>(l, t). (l, of_nat t)) ts) (osTimerServicesInit_clock s))) = of_nat b"
  using assms by (intro clock_run [of _ 0]) (simp_all add: osTimerServicesInit_clock_def)

theorem osGetTime_counts_cycles_witness:
  "osGetTime (of_nat 6000000000)
     (snd (vimgr_run id (map (\<lambda>(l, t). (l, of_nat t)) [(0, 3000000000)]) (osTimerServicesInit_clock sample_mgr)))
     = of_nat 6000000000"
  by (rule osGetTime_counts_cycles) (simp add: keeps_up_def)

end
