(* ===== verification/ViMode.thy ===== *)
theory ViMode
  imports Vi Pad
begin

section \<open>The configurable video mode\<close>

text \<open>
  \<^verbatim>\<open>src/main/vimode.c\<close>: a video mode computed from the television standard, four switches, the
  size of the frame buffer and the four borders of the picture, and the editor that changes them
  from the first controller.  The switches are numbers used as truth values, the arithmetic is
  that of 32-bit words, and a division by zero is \<^const>\<open>None\<close>.
\<close>

record ViMode =
  customViMode :: OSViMode
  viHeight :: s32
  viWidth :: s32
  rightAdjust :: s32
  leftAdjust :: s32
  lowerAdjust :: s32
  upperAdjust :: s32
  editState :: s32
  tvType :: s32
  loRes :: u32
  antialiasOff :: u32
  modeN :: u32
  fb16Bit :: u32
  viFeatures :: u32
  unk_84 :: u32

definition OS_TV_PAL :: s32 where "OS_TV_PAL = 0"
definition OS_TV_NTSC :: s32 where "OS_TV_NTSC = 1"
definition OS_TV_MPAL :: s32 where "OS_TV_MPAL = 2"

lemmas tv_defs = OS_TV_PAL_def OS_TV_NTSC_def OS_TV_MPAL_def

text \<open>Assignments to the registers of both fields, and of one field.\<close>

definition com :: "(OSViCommonRegs \<Rightarrow> OSViCommonRegs) \<Rightarrow> OSViMode \<Rightarrow> OSViMode" where
  "com f m = m\<lparr>comRegs := f (comRegs m)\<rparr>"

definition fld :: "nat \<Rightarrow> (OSViFieldRegs \<Rightarrow> OSViFieldRegs) \<Rightarrow> OSViMode \<Rightarrow> OSViMode" where
  "fld i f m = m\<lparr>fldRegs := (fldRegs m)[i := f (fldRegs m ! i)]\<rparr>"

subsection \<open>The computation of a mode\<close>

text \<open>The scale of the lines: the division truncates, twice.\<close>

definition s32_quot :: "s32 \<Rightarrow> s32 \<Rightarrow> s32 option" where
  "s32_quot a b = (if b = 0 then None else Some (s32_div a b))"

definition configure_yScaleLo :: "bool \<Rightarrow> bool \<Rightarrow> s32 \<Rightarrow> s32 \<Rightarrow> s32 \<Rightarrow> s32 option" where
  "configure_yScaleLo lo hiResDeflicker height lower upper =
     map_option (\<lambda>q. (if hiResDeflicker then 2 else 1) * s32_div q (if lo then 1 else 2))
       (s32_quot (push_bit 11 height) (SCREEN_HEIGHT * 2 + lower - upper))"

definition configure_ctrl :: "bool \<Rightarrow> bool \<Rightarrow> bool \<Rightarrow> bool \<Rightarrow> u32" where
  "configure_ctrl lo aaOff n fb16 =
     (let hi = \<not> lo; aaOn = \<not> aaOff; fb32 = \<not> fb16;
          loResDeinterlaced = lo \<and> n;
          modeLAN1 = lo \<and> aaOn \<and> n \<and> fb16;
          modeLPN2 = lo \<and> aaOff \<and> n \<and> fb32;
          modeHPN2 = hi \<and> aaOff \<and> n \<and> fb32;
          c = VI_CTRL_PIXEL_ADV_3 OR VI_CTRL_GAMMA_ON OR VI_CTRL_GAMMA_DITHER_ON OR
              (if \<not> loResDeinterlaced then VI_CTRL_SERRATE_ON else 0) OR
              (if aaOn then VI_CTRL_DIVOT_ON else 0) OR
              (if fb32 then VI_CTRL_TYPE_32 else VI_CTRL_TYPE_16)
      in if modeLAN1 then c OR VI_CTRL_ANTIALIAS_MODE_1
         else if modeLPN2 \<or> modeHPN2 then c OR VI_CTRL_ANTIALIAS_MODE_3
         else if aaOff then c OR VI_CTRL_ANTIALIAS_MODE_2 else c OR 0)"

text \<open>The timing of the standard; an unknown standard leaves the registers as they are.\<close>

definition configure_tv :: "s32 \<Rightarrow> OSViMode \<Rightarrow> OSViMode" where
  "configure_tv tv m =
     (if tv = OS_TV_NTSC then
        fld 0 (\<lambda>r. r\<lparr>vStart := START 37 511, vBurst := BURST 4 2 14 0\<rparr>)
          (com (\<lambda>c. c\<lparr>burst := BURST 57 34 5 62, vSync := VSYNC 524, hSync := HSYNC 3093 0,
                      leap := LEAP 3093 3093, hStart := HSTART 108 748\<rparr>) m)
      else if tv = OS_TV_PAL then
        fld 0 (\<lambda>r. r\<lparr>vStart := START 95 569, vBurst := BURST 107 2 9 0\<rparr>)
          (com (\<lambda>c. c\<lparr>burst := BURST 58 35 4 64, vSync := VSYNC 624, hSync := HSYNC 3177 21,
                      leap := LEAP 3183 3182, hStart := HSTART 128 768\<rparr>) m)
      else if tv = OS_TV_MPAL then
        fld 0 (\<lambda>r. r\<lparr>vStart := START 37 511, vBurst := BURST 4 2 14 0\<rparr>)
          (com (\<lambda>c. c\<lparr>burst := BURST 57 30 5 70, vSync := VSYNC 524, hSync := HSYNC 3088 0,
                      leap := LEAP 3100 3100, hStart := HSTART 108 748\<rparr>) m)
      else m)"

text \<open>The borders of the picture, \<open>left\<close> and \<open>right\<close>, \<open>upper\<close> and \<open>lower\<close>.\<close>

definition configure_adjust :: "s32 \<Rightarrow> s32 \<Rightarrow> s32 \<Rightarrow> s32 \<Rightarrow> OSViMode \<Rightarrow> OSViMode" where
  "configure_adjust left right upper lower m0 =
     (let m = fld 1 (\<lambda>r. r\<lparr>vStart := vStart (fldRegs m0 ! 0)\<rparr>) m0;
          m = com (\<lambda>c. c\<lparr>hStart := hStart c + (push_bit 16 left + sext16 right)\<rparr>) m;
          m = fld 0 (\<lambda>r. r\<lparr>vStart := vStart r + (push_bit 16 upper + sext16 lower)\<rparr>) m;
          m = fld 1 (\<lambda>r. r\<lparr>vStart := vStart r + (push_bit 16 upper + sext16 lower)\<rparr>) m
      in fld 1 (\<lambda>r. r\<lparr>vBurst := vBurst (fldRegs m ! 0)\<rparr>) m)"

text \<open>The differences between the fields of an interlaced picture.\<close>

definition configure_interlace :: "s32 \<Rightarrow> bool \<Rightarrow> OSViMode \<Rightarrow> OSViMode" where
  "configure_interlace tv loResDeinterlaced m0 =
     (if loResDeinterlaced then
        (let m = com (\<lambda>c. c\<lparr>vSync := vSync c + 1\<rparr>) m0
         in if tv = OS_TV_MPAL
            then com (\<lambda>c. c\<lparr>hSync := hSync c + HSYNC 1 4, leap := leap c + LEAP (-4) (-2)\<rparr>) m else m)
      else
        (let m = fld 0 (\<lambda>r. r\<lparr>vStart := vStart r + START (-3) (-2)\<rparr>) m0;
             m = (if tv = OS_TV_MPAL
                  then fld 0 (\<lambda>r. r\<lparr>vBurst := vBurst r + BURST (-2) (-1) 12 (-1)\<rparr>) m else m)
         in if tv = OS_TV_PAL
            then fld 1 (\<lambda>r. r\<lparr>vBurst := vBurst r + BURST (-2) (-1) 2 0\<rparr>) m else m))"

definition ViMode_Configure ::
  "ViMode \<Rightarrow> s32 \<Rightarrow> s32 \<Rightarrow> s32 \<Rightarrow> s32 \<Rightarrow> s32 \<Rightarrow> s32 \<Rightarrow> s32 \<Rightarrow> s32 \<Rightarrow> s32 \<Rightarrow> s32 \<Rightarrow> s32 \<Rightarrow> s32 \<Rightarrow> ViMode option" where
  "ViMode_Configure v typ tv loRes1 antialiasOff1 modeN1 fb16Bit1 w h left right upper0 lower0 =
     (let lo = loRes1 \<noteq> 0; aaOff = antialiasOff1 \<noteq> 0; n = modeN1 \<noteq> 0; fb16 = fb16Bit1 \<noteq> 0;
          f = (\<not> n); hiResDeflicker = (\<not> lo \<and> f); hiResInterlaced = (\<not> lo \<and> n);
          loResDeinterlaced = (lo \<and> n); loResInterlaced = (lo \<and> f);
          upper = upper0 AND NOT 1; lower = lower0 AND NOT 1
      in do { yScaleLo \<leftarrow> configure_yScaleLo lo hiResDeflicker h lower upper;
              xs \<leftarrow> s32_quot (push_bit 10 w) (SCREEN_WIDTH * 2 + right - left);
              let yScaleHiEvenField =
                    (if f then push_bit 16 (F210 (if loResInterlaced then 1 / 4 else 1 / 2)) else 0);
                  yScaleHiOddField =
                    (if f then push_bit 16 (F210 (if loResInterlaced then 3 / 4 else 1 / 2)) else 0);
                  m = (customViMode v)\<lparr>vm_type := ucast typ\<rparr>;
                  m = com (\<lambda>c. c\<lparr>ctrl := configure_ctrl lo aaOff n fb16,
                                 width := w * (if hiResInterlaced then 2 else 1)\<rparr>) m;
                  m = configure_tv tv m;
                  m = configure_adjust left right upper lower m;
                  m = configure_interlace tv loResDeinterlaced m;
                  m = com (\<lambda>c. c\<lparr>xScale := xs, vCurrent := VCURRENT 0\<rparr>) m;
                  line = w * 2 * (if fb16 then 1 else 2);
                  m = fld 0 (\<lambda>r. r\<lparr>origin := ORIGIN line, yScale := yScaleLo OR yScaleHiEvenField,
                                   vIntr := VINTR 2\<rparr>) m;
                  m = fld 1 (\<lambda>r. r\<lparr>origin := ORIGIN (line * (if lo then 1 else 2)),
                                   yScale := yScaleLo OR yScaleHiOddField, vIntr := VINTR 2\<rparr>) m
              in Some (v\<lparr>customViMode := m\<rparr>) })"

subsection \<open>The editor\<close>

definition VI_MODE_EDIT_STATE_COMPARE :: s32 where "VI_MODE_EDIT_STATE_COMPARE = - 2"
definition VI_MODE_EDIT_STATE_NEG_1 :: s32 where "VI_MODE_EDIT_STATE_NEG_1 = - 1"
definition VI_MODE_EDIT_STATE_INACTIVE :: s32 where "VI_MODE_EDIT_STATE_INACTIVE = 0"
definition VI_MODE_EDIT_STATE_ACTIVE :: s32 where "VI_MODE_EDIT_STATE_ACTIVE = 1"
definition VI_MODE_EDIT_STATE_SET :: s32 where "VI_MODE_EDIT_STATE_SET = 2"

lemmas edit_state_defs = VI_MODE_EDIT_STATE_COMPARE_def VI_MODE_EDIT_STATE_NEG_1_def
  VI_MODE_EDIT_STATE_INACTIVE_def VI_MODE_EDIT_STATE_ACTIVE_def VI_MODE_EDIT_STATE_SET_def

definition ViMode_Load :: "ViMode \<Rightarrow> ViMode" where
  "ViMode_Load v =
     v\<lparr>editState := VI_MODE_EDIT_STATE_INACTIVE, viWidth := 0, viHeight := 0, upperAdjust := 0,
       lowerAdjust := 0, leftAdjust := 0, rightAdjust := 0\<rparr>"

definition ViMode_Init :: "s32 \<Rightarrow> ViMode \<Rightarrow> ViMode" where
  "ViMode_Init osTvType v =
     v\<lparr>editState := VI_MODE_EDIT_STATE_INACTIVE, viWidth := SCREEN_WIDTH, viHeight := SCREEN_HEIGHT,
       leftAdjust := 0, rightAdjust := 0, upperAdjust := 0, lowerAdjust := 0,
       viFeatures := OS_VI_DITHER_FILTER_ON OR OS_VI_GAMMA_OFF, tvType := osTvType,
       fb16Bit := 1, modeN := 1, antialiasOff := 0, loRes := 1\<rparr>"

definition ViMode_ConfigureFeatures :: "u32 \<Rightarrow> ViMode \<Rightarrow> ViMode" where
  "ViMode_ConfigureFeatures feat v =
     (let c = ctrl (comRegs (customViMode v));
          c = on_off feat OS_VI_GAMMA_ON OS_VI_GAMMA_OFF VI_CTRL_GAMMA_ON c;
          c = on_off feat OS_VI_GAMMA_DITHER_ON OS_VI_GAMMA_DITHER_OFF VI_CTRL_GAMMA_DITHER_ON c;
          c = on_off feat OS_VI_DIVOT_ON OS_VI_DIVOT_OFF VI_CTRL_DIVOT_ON c
      in v\<lparr>customViMode := com (\<lambda>r. r\<lparr>ctrl := c\<rparr>) (customViMode v)\<rparr>)"

text \<open>The changes of the editor, in the order of the tests.\<close>

definition edit_upper_left :: "Input \<Rightarrow> ViMode \<Rightarrow> ViMode" where
  "edit_upper_left inp v =
     (if pad_push_also inp U_CBUTTONS then
        (let v = (if pad_push_also inp U_JPAD then v\<lparr>upperAdjust := upperAdjust v - 1\<rparr> else v);
             v = (if pad_push_also inp D_JPAD then v\<lparr>upperAdjust := upperAdjust v + 1\<rparr> else v);
             v = (if pad_push_also inp L_JPAD then v\<lparr>leftAdjust := leftAdjust v - 1\<rparr> else v)
         in if pad_push_also inp R_JPAD then v\<lparr>leftAdjust := leftAdjust v + 1\<rparr> else v)
      else v)"

definition edit_lower_right :: "Input \<Rightarrow> ViMode \<Rightarrow> ViMode" where
  "edit_lower_right inp v =
     (if pad_push_also inp R_CBUTTONS then
        (let v = (if pad_push_also inp U_JPAD then v\<lparr>lowerAdjust := lowerAdjust v - 1\<rparr> else v);
             v = (if pad_push_also inp D_JPAD then v\<lparr>lowerAdjust := lowerAdjust v + 1\<rparr> else v);
             v = (if pad_push_also inp L_JPAD then v\<lparr>rightAdjust := rightAdjust v - 1\<rparr> else v)
         in if pad_push_also inp R_JPAD then v\<lparr>rightAdjust := rightAdjust v + 1\<rparr> else v)
      else v)"

definition edit_switches :: "Input \<Rightarrow> ViMode \<Rightarrow> ViMode" where
  "edit_switches inp v =
     (if pad_push_also inp D_CBUTTONS then
        (let v = (if pad_on_trigger inp U_JPAD then v\<lparr>loRes := c_bool (loRes v = 0)\<rparr> else v);
             v = (if pad_on_trigger inp D_JPAD then v\<lparr>antialiasOff := c_bool (antialiasOff v = 0)\<rparr> else v);
             v = (if pad_on_trigger inp L_JPAD then v\<lparr>modeN := c_bool (modeN v = 0)\<rparr> else v)
         in if pad_on_trigger inp R_JPAD then v\<lparr>fb16Bit := c_bool (fb16Bit v = 0)\<rparr> else v)
      else v)"

text \<open>The borders only make the picture smaller.\<close>

definition clamp_borders :: "ViMode \<Rightarrow> ViMode" where
  "clamp_borders v =
     (let v = (if leftAdjust v <s 0 then v\<lparr>leftAdjust := 0\<rparr> else v);
          v = (if upperAdjust v <s 0 then v\<lparr>upperAdjust := 0\<rparr> else v);
          v = (if 0 <s rightAdjust v then v\<lparr>rightAdjust := 0\<rparr> else v)
      in if 0 <s lowerAdjust v then v\<lparr>lowerAdjust := 0\<rparr> else v)"

text \<open>The two calls the editor and \<^verbatim>\<open>func_8007EE28\<close> end with.\<close>

definition configure_self :: "s32 \<Rightarrow> ViMode \<Rightarrow> ViMode option" where
  "configure_self osTvType v =
     do { v \<leftarrow> ViMode_Configure v (ucast OS_VI_MPAL_LPN1) osTvType (loRes v) (antialiasOff v) (modeN v)
                  (fb16Bit v) (viWidth v) (viHeight v) (leftAdjust v) (rightAdjust v)
                  (upperAdjust v) (lowerAdjust v);
          Some (ViMode_ConfigureFeatures (viFeatures v) v) }"

text \<open>The mode in memory, which the video manager may be using, changes with the configuration:
  \<open>a\<close> is its address.\<close>

definition write_mode :: "ptr \<Rightarrow> ViMode \<Rightarrow> vi \<Rightarrow> vi" where
  "write_mode a v st = st\<lparr>vi_mode := (vi_mode st)(a := customViMode v)\<rparr>"

definition ViMode_Update :: "s32 \<Rightarrow> ptr \<Rightarrow> Input \<Rightarrow> ViMode \<times> vi \<Rightarrow> (ViMode \<times> vi) option" where
  "ViMode_Update osTvType a inp s =
     (case s of (v0, st) \<Rightarrow>
        let v = ViMode_Load v0 in
        if editState v = VI_MODE_EDIT_STATE_COMPARE then
          Some (v\<lparr>editState := VI_MODE_EDIT_STATE_NEG_1\<rparr>, st)
        else if editState v = VI_MODE_EDIT_STATE_ACTIVE \<or> editState v = VI_MODE_EDIT_STATE_SET then
          (let v = (if pad_push_also inp (START_BUTTON OR U_CBUTTONS OR R_CBUTTONS)
                    then ViMode_Init osTvType v else v);
               v = clamp_borders (edit_switches inp (edit_lower_right inp (edit_upper_left inp v)))
           in do { v \<leftarrow> configure_self osTvType v;
                   let st = write_mode a v st in
                   Some (if editState v = VI_MODE_EDIT_STATE_SET
                         then (v\<lparr>editState := VI_MODE_EDIT_STATE_ACTIVE\<rparr>, osViSetMode a st)
                         else (v, st)) })
        else Some (v, st))"

text \<open>The window of the lines \<open>arg1\<close> to \<open>arg2\<close>.\<close>

definition func_8007EE28 :: "s32 \<Rightarrow> ptr \<Rightarrow> s32 \<Rightarrow> s32 \<Rightarrow> ViMode \<times> vi \<Rightarrow> (ViMode \<times> vi) option" where
  "func_8007EE28 osTvType a arg1 arg2 s =
     (case s of (v0, st) \<Rightarrow>
        do { v \<leftarrow> configure_self osTvType
                    (v0\<lparr>upperAdjust := arg1 * 2, lowerAdjust := - (- arg2) * 2 - SCREEN_HEIGHT * 2,
                        viHeight := arg2 - arg1\<rparr>);
             Some (v, osViSetSpecialFeatures (viFeatures v) (osViSetMode a (write_mode a v st))) })"

subsection \<open>The standard modes\<close>

text \<open>The place of a mode in \<open>osViModeTable\<close>, and the call that configures it: the size of the frame
  buffer of its resolution and no borders.\<close>

definition mode_index :: "s32 \<Rightarrow> bool \<Rightarrow> bool \<Rightarrow> bool \<Rightarrow> bool \<Rightarrow> nat" where
  "mode_index tv lo aaOff n fb16 =
     (if tv = OS_TV_NTSC then 0 else if tv = OS_TV_PAL then 14 else 28) +
     (if lo then 0 else 8) + (if fb16 then 0 else 4) + (if aaOff then 0 else 2) + (if n then 0 else 1)"

definition configure_standard :: "ViMode \<Rightarrow> s32 \<Rightarrow> bool \<Rightarrow> bool \<Rightarrow> bool \<Rightarrow> bool \<Rightarrow> ViMode option" where
  "configure_standard v tv lo aaOff n fb16 =
     ViMode_Configure v (of_nat (mode_index tv lo aaOff n fb16)) tv (c_bool lo) (c_bool aaOff) (c_bool n)
       (c_bool fb16) (if lo then 320 else 640) (if lo then 240 else 480) 0 0 0 0"

text \<open>The arithmetic of the call, once.\<close>

lemma standard_scales:
  "configure_yScaleLo True False 240 0 0 = Some 1024"
  "configure_yScaleLo False False 480 0 0 = Some 1024"
  "configure_yScaleLo False True 480 0 0 = Some 2048"
  "s32_quot 327680 (SCREEN_WIDTH * 2) = Some 512"
  "s32_quot 655360 (SCREEN_WIDTH * 2) = Some 1024"
  by code_simp+

lemma ctrl_values:
  "configure_ctrl lo aaOff n fb16 =
     (if lo \<and> n then 0x300E else 0x304E) + (if aaOff then 0 else 0x10) + (if fb16 then 0 else 1)
     + (if lo \<and> \<not> aaOff \<and> n \<and> fb16 then 0x100 else if aaOff \<and> n \<and> \<not> fb16 then 0x300 else if aaOff then 0x200 else 0)"
  by (cases lo; cases aaOff; cases n; cases fb16; simp add: configure_ctrl_def vi_ctrl_defs)


lemmas mode_simps = vi_mode_defs vi_make_defs vi_ctrl_values vi_macro_values vi_type_defs SCALE_values
  ORIGIN_def VINTR_def VCURRENT_def VSYNC_def WIDTH_def

text \<open>The steps on a mode that is written out.\<close>

lemma com_fld_simps:
  "com f \<lparr>vm_type = t, comRegs = c, fldRegs = rs\<rparr> = \<lparr>vm_type = t, comRegs = f c, fldRegs = rs\<rparr>"
  "fld 0 g \<lparr>vm_type = t, comRegs = c, fldRegs = [r0, r1]\<rparr> = \<lparr>vm_type = t, comRegs = c, fldRegs = [g r0, r1]\<rparr>"
  "fld (Suc 0) g \<lparr>vm_type = t, comRegs = c, fldRegs = [r0, r1]\<rparr> = \<lparr>vm_type = t, comRegs = c, fldRegs = [r0, g r1]\<rparr>"
  by (simp_all add: com_def fld_def)

lemma adjust_0:
  "configure_adjust 0 0 0 0 \<lparr>vm_type = t, comRegs = c, fldRegs = [r0, r1]\<rparr>
     = \<lparr>vm_type = t, comRegs = c, fldRegs = [r0, r1\<lparr>vStart := vStart r0, vBurst := vBurst r0\<rparr>]\<rparr>"
  by (simp add: configure_adjust_def com_fld_simps Let_def sext16_def)

lemma tv_eval:
  "configure_tv OS_TV_NTSC \<lparr>vm_type = t, comRegs = c, fldRegs = [r0, r1]\<rparr> =
     \<lparr>vm_type = t, comRegs = c\<lparr>burst := BURST 57 34 5 62, vSync := 524, hSync := HSYNC 3093 0,
                      leap := LEAP 3093 3093, hStart := HSTART 108 748\<rparr>,
      fldRegs = [r0\<lparr>vStart := START 37 511, vBurst := BURST 4 2 14 0\<rparr>, r1]\<rparr>"
  "configure_tv OS_TV_PAL \<lparr>vm_type = t, comRegs = c, fldRegs = [r0, r1]\<rparr> =
     \<lparr>vm_type = t, comRegs = c\<lparr>burst := BURST 58 35 4 64, vSync := 624, hSync := HSYNC 3177 21,
                      leap := LEAP 3183 3182, hStart := HSTART 128 768\<rparr>,
      fldRegs = [r0\<lparr>vStart := START 95 569, vBurst := BURST 107 2 9 0\<rparr>, r1]\<rparr>"
  "configure_tv OS_TV_MPAL \<lparr>vm_type = t, comRegs = c, fldRegs = [r0, r1]\<rparr> =
     \<lparr>vm_type = t, comRegs = c\<lparr>burst := BURST 57 30 5 70, vSync := 524, hSync := HSYNC 3088 0,
                      leap := LEAP 3100 3100, hStart := HSTART 108 748\<rparr>,
      fldRegs = [r0\<lparr>vStart := START 37 511, vBurst := BURST 4 2 14 0\<rparr>, r1]\<rparr>"
  by (simp_all add: configure_tv_def com_fld_simps tv_defs VSYNC_def)

lemma interlace_eval:
  "configure_interlace OS_TV_NTSC True m = com (\<lambda>c. c\<lparr>vSync := vSync c + 1\<rparr>) m"
  "configure_interlace OS_TV_PAL True m = com (\<lambda>c. c\<lparr>vSync := vSync c + 1\<rparr>) m"
  "configure_interlace OS_TV_MPAL True \<lparr>vm_type = t, comRegs = c, fldRegs = rs\<rparr> =
     \<lparr>vm_type = t, comRegs = c\<lparr>vSync := vSync c + 1, hSync := hSync c + HSYNC 1 4, leap := leap c + LEAP (-4) (-2)\<rparr>,
      fldRegs = rs\<rparr>"
  "configure_interlace OS_TV_NTSC False m = fld 0 (\<lambda>r. r\<lparr>vStart := vStart r + START (-3) (-2)\<rparr>) m"
  "configure_interlace OS_TV_PAL False \<lparr>vm_type = t, comRegs = c, fldRegs = [r0, r1]\<rparr> =
     \<lparr>vm_type = t, comRegs = c, fldRegs = [r0\<lparr>vStart := vStart r0 + START (-3) (-2)\<rparr>,
        r1\<lparr>vBurst := vBurst r1 + BURST (-2) (-1) 2 0\<rparr>]\<rparr>"
  "configure_interlace OS_TV_MPAL False \<lparr>vm_type = t, comRegs = c, fldRegs = [r0, r1]\<rparr> =
     \<lparr>vm_type = t, comRegs = c, fldRegs = [r0\<lparr>vStart := vStart r0 + START (-3) (-2),
        vBurst := vBurst r0 + BURST (-2) (-1) 12 (-1)\<rparr>, r1]\<rparr>"
  by (simp_all add: configure_interlace_def com_fld_simps tv_defs)

text \<open>The registers the steps arrive at.\<close>

definition std_com :: "s32 \<Rightarrow> bool \<Rightarrow> bool \<Rightarrow> bool \<Rightarrow> bool \<Rightarrow> OSViCommonRegs" where
  "std_com tv lo aaOff n fb16 =
     OSViCommonRegs.make (configure_ctrl lo aaOff n fb16) ((if lo then 320 else 640) * (if \<not> lo \<and> n then 2 else 1))
       (if tv = OS_TV_NTSC then BURST 57 34 5 62 else if tv = OS_TV_PAL then BURST 58 35 4 64 else BURST 57 30 5 70)
       ((if tv = OS_TV_PAL then 624 else 524) + (if lo \<and> n then 1 else 0))
       (if tv = OS_TV_NTSC then HSYNC 3093 0 else if tv = OS_TV_PAL then HSYNC 3177 21
        else if lo \<and> n then HSYNC 3089 4 else HSYNC 3088 0)
       (if tv = OS_TV_NTSC then LEAP 3093 3093 else if tv = OS_TV_PAL then LEAP 3183 3182
        else if lo \<and> n then LEAP 3097 3098 else LEAP 3100 3100)
       (if tv = OS_TV_PAL then HSTART 128 768 else HSTART 108 748) (if lo then 512 else 1024) 0"

definition std_fld :: "s32 \<Rightarrow> bool \<Rightarrow> bool \<Rightarrow> bool \<Rightarrow> bool \<Rightarrow> OSViFieldRegs list" where
  "std_fld tv lo aaOff n fb16 =
    (let line = (if lo then 320 else 640) * 2 * (if fb16 then 1 else 2);
         b = (if tv = OS_TV_PAL then BURST 107 2 9 0 else BURST 4 2 14 0)
     in [OSViFieldRegs.make line
          (if n then 1024 else if lo then SCALE 1 (1 / 4) else SCALE (1 / 2) (1 / 2))
          (if lo \<and> n then (if tv = OS_TV_PAL then START 95 569 else START 37 511)
           else (if tv = OS_TV_PAL then START 93 567 else START 35 509))
          (if tv = OS_TV_MPAL \<and> \<not> (lo \<and> n) then BURST 2 2 11 0 else b) 2,
         OSViFieldRegs.make (line * (if lo then 1 else 2))
          (if n then 1024 else if lo then SCALE 1 (3 / 4) else SCALE (1 / 2) (1 / 2))
          (if tv = OS_TV_PAL then START 95 569 else START 37 511)
          (if tv = OS_TV_PAL \<and> \<not> (lo \<and> n) then BURST 105 2 12 0 else b) 2])"


definition std_mode :: "s32 \<Rightarrow> bool \<Rightarrow> bool \<Rightarrow> bool \<Rightarrow> bool \<Rightarrow> OSViMode" where
  "std_mode tv lo aaOff n fb16 =
     OSViMode.make (of_nat (mode_index tv lo aaOff n fb16)) (std_com tv lo aaOff n fb16)
       (std_fld tv lo aaOff n fb16)"

text \<open>The synchronisation that the program has for PAL, put into a mode: the colour burst, the length of
  a line, the leap, and the colour burst of the second field.\<close>

definition pal_timing :: "bool \<Rightarrow> OSViMode \<Rightarrow> OSViMode" where
  "pal_timing interlaced m =
     fld 1 (\<lambda>r. r\<lparr>vBurst := (if interlaced then BURST 107 2 9 0 else BURST 105 2 12 0)\<rparr>)
       (com (\<lambda>c. c\<lparr>burst := BURST 58 35 4 64, hSync := HSYNC 3177 21, leap := LEAP 3183 3182\<rparr>) m)"

lemma ucast_of_nat_type: "(ucast (of_nat n :: s32) :: u8) = of_nat n"
  by (simp add: word_unat_eq_iff unsigned_ucast_eq unat_of_nat take_bit_eq_mod mod_mod_cancel)

lemmas configure_simps = configure_standard_def ViMode_Configure_def standard_scales com_fld_simps tv_eval adjust_0
  interlace_eval Let_def ucast_of_nat_type

lemmas std_simps = std_mode_def std_com_def std_fld_def vi_make_defs vi_macro_values SCALE_values F210_values ORIGIN_def
  VINTR_def VCURRENT_def tv_defs

lemma conf_NTSC:
  assumes "fldRegs (customViMode v) = [r0, r1]"
  shows "configure_standard v OS_TV_NTSC lo aaOff n fb16 = Some (v\<lparr>customViMode := std_mode OS_TV_NTSC lo aaOff n fb16\<rparr>)"
proof -
  obtain t c where v: "customViMode v = \<lparr>vm_type = t, comRegs = c, fldRegs = [r0, r1]\<rparr>"
    using assms(1) by (cases "customViMode v") auto
  show ?thesis
    by (cases lo; cases n; cases c; cases r0; cases r1; simp add: configure_simps v; simp add: std_simps)
qed

lemma conf_PAL:
  assumes "fldRegs (customViMode v) = [r0, r1]"
  shows "configure_standard v OS_TV_PAL lo aaOff n fb16 = Some (v\<lparr>customViMode := std_mode OS_TV_PAL lo aaOff n fb16\<rparr>)"
proof -
  obtain t c where v: "customViMode v = \<lparr>vm_type = t, comRegs = c, fldRegs = [r0, r1]\<rparr>"
    using assms(1) by (cases "customViMode v") auto
  show ?thesis
    by (cases lo; cases n; cases c; cases r0; cases r1; simp add: configure_simps v; simp add: std_simps)
qed

lemma conf_MPAL:
  assumes "fldRegs (customViMode v) = [r0, r1]"
  shows "configure_standard v OS_TV_MPAL lo aaOff n fb16 = Some (v\<lparr>customViMode := std_mode OS_TV_MPAL lo aaOff n fb16\<rparr>)"
proof -
  obtain t c where v: "customViMode v = \<lparr>vm_type = t, comRegs = c, fldRegs = [r0, r1]\<rparr>"
    using assms(1) by (cases "customViMode v") auto
  show ?thesis
    by (cases lo; cases n; cases c; cases r0; cases r1; simp add: configure_simps v; simp add: std_simps)
qed

lemmas table_simps = std_mode_def std_com_def std_fld_def osViModeTable_modes mode_simps mode_index_def
  tv_defs ctrl_values

lemma std_table:
  assumes "lo \<or> aaOff \<or> fb16" "tv = OS_TV_NTSC \<or> tv = OS_TV_MPAL"
  shows "std_mode tv lo aaOff n fb16
    = osViModeTable ! mode_index tv lo aaOff n fb16"
  using assms
  by (elim disjE; cases lo; cases aaOff; cases n; cases fb16; simp add: table_simps)

lemma std_table_PAL:
  assumes "lo \<or> aaOff \<or> fb16"
  shows "std_mode OS_TV_PAL lo aaOff n fb16
    = pal_timing (lo \<and> n) (osViModeTable ! mode_index OS_TV_PAL lo aaOff n fb16)"
  using assms
  by (cases lo; cases aaOff; cases n; cases fb16; simp add: pal_timing_def com_fld_simps table_simps)

text \<open>Claim C19: configured with the size of its resolution and without borders, the mode computed for the
  switches and the standard is, for NTSC and MPAL, the mode of the table of the library, register
  by register; for PAL it is the mode of the table but for four registers, the colour burst, the
  length of a line, the leap and the colour burst of the second field, in which the program has
  values of its own, given by \<open>pal_timing\<close>.\<close>

theorem ViMode_Configure_rebuilds_standard_modes:
  fixes v :: ViMode and n :: bool
  assumes "length (fldRegs (customViMode v)) = 2" "tv \<in> {OS_TV_NTSC, OS_TV_PAL, OS_TV_MPAL}"
    and "lo \<or> aaOff \<or> fb16"
  defines "t \<equiv> osViModeTable ! mode_index tv lo aaOff n fb16"
  shows "ViMode_Configure v (of_nat (mode_index tv lo aaOff n fb16)) tv (c_bool lo) (c_bool aaOff)
           (c_bool n) (c_bool fb16) (if lo then 320 else 640) (if lo then 240 else 480) 0 0 0 0
         = Some (v\<lparr>customViMode := (if tv = OS_TV_PAL then pal_timing (lo \<and> n) t else t)\<rparr>)"
proof -
  obtain r0 r1 where r: "fldRegs (customViMode v) = [r0, r1]"
    using assms(1) by (auto simp: length_Suc_conv numeral_2_eq_2)
  note c = conf_NTSC [OF r] conf_PAL [OF r] conf_MPAL [OF r]
  have "configure_standard v tv lo aaOff n fb16 = Some (v\<lparr>customViMode := std_mode tv lo aaOff n fb16\<rparr>)"
    using assms(2) c by auto
  moreover have "std_mode tv lo aaOff n fb16 = (if tv = OS_TV_PAL then pal_timing (lo \<and> n) t else t)"
    using assms(2) std_table [OF assms(3), of tv n] std_table_PAL [OF assms(3), of n]
    by (auto simp: t_def tv_defs)
  ultimately show ?thesis unfolding configure_standard_def by simp
qed

definition sample_ViMode :: ViMode where
  "sample_ViMode =
     ViMode_Init 1 \<lparr>customViMode = osViModeNtscLan1, viHeight = 0, viWidth = 0, rightAdjust = 0, leftAdjust = 0,
       lowerAdjust = 0, upperAdjust = 0, editState = 0, tvType = 0, loRes = 0, antialiasOff = 0, modeN = 0,
       fb16Bit = 0, viFeatures = 0, unk_84 = 0\<rparr>"

lemma sample_ViMode_fields:
  "fldRegs (customViMode sample_ViMode) = fldRegs osViModeNtscLan1" "length (fldRegs osViModeNtscLan1) = 2"
  by (simp_all add: sample_ViMode_def ViMode_Init_def osViModeNtscLan1_def vi_make_defs)

theorem ViMode_Configure_rebuilds_standard_modes_witness:
  "\<exists>v'. ViMode_Configure sample_ViMode (of_nat (mode_index 1 False True False True)) 1 0 1 0 1 640 480 0 0 0 0
     = Some v' \<and> customViMode v' = osViModeNtscHpf1"
proof -
  have i: "mode_index 1 False True False True = 9" by (simp add: mode_index_def tv_defs)
  from ViMode_Configure_rebuilds_standard_modes [of sample_ViMode OS_TV_NTSC False True True False] show ?thesis
    using sample_ViMode_fields by (auto simp: tv_defs i osViModeTable_modes)
qed

subsection \<open>The editor never edits\<close>

text \<open>\<^verbatim>\<open>ViMode_Update\<close> only resets the mode: it begins with \<^verbatim>\<open>ViMode_Load\<close>, which makes the editor
  inactive, so whatever state was set and whatever is pressed, no border, no switch and no mode is
  ever changed by it, and the video manager is not called.\<close>

theorem ViMode_Update_never_edits:
  "ViMode_Update osTvType a inp (v, st) = Some (ViMode_Load v, st)"
  by (simp add: ViMode_Update_def ViMode_Load_def edit_state_defs)

subsection \<open>The window of lines\<close>

lemma START_arith:
  assumes "0 \<le> b" "b < 65536"
  shows "START a b = word_of_int (a * 65536 + b)"
proof -
  let ?A = "push_bit 16 (word_of_int a) :: u32"
  have m: "(0xFFFF :: u32) = mask 16" by (simp add: mask_eq_exp_minus_1)
  have "?A AND (word_of_int b AND 0xFFFF) = 0"
    unfolding m by (rule bit_word_eqI) (auto simp: bit_simps)
  then have "START a b = ?A + (word_of_int b AND 0xFFFF)"
    by (simp add: START_def disjunctive_add_eq_or)
  also have "(word_of_int b AND 0xFFFF :: u32) = word_of_int b"
    using assms by (simp only: m flip: take_bit_eq_mask) (simp add: take_bit_int_eq_self flip: of_int_take_bit)
  finally show ?thesis by (simp add: push_bit_eq_mult)
qed

lemma double_even: "(w * 2) AND NOT 1 = (w * 2 :: u32)"
  by (rule bit_word_eqI) (auto simp: bit_simps bit_double_iff mult.commute [of w])

lemma sint_of_int: "- (2 ^ 31) \<le> i \<Longrightarrow> i < 2 ^ 31 \<Longrightarrow> sint (word_of_int i :: s32) = i"
  by (simp add: sint_sbintrunc' signed_take_bit_int_eq_self)

lemma window_scale:
  assumes "0 \<le> x" "x < y" "y \<le> 240"
  shows "configure_yScaleLo True False (word_of_int y - word_of_int x) (word_of_int (2 * (y - 240))) (word_of_int (2 * x))
    = Some 1024"
proof -
  define h where "h = y - x"
  have h: "0 < h" "h \<le> 240" using assms by (simp_all add: h_def)
  define A :: s32 where "A = word_of_int (2048 * h)"
  define B :: s32 where "B = word_of_int (2 * h)"
  have a: "push_bit 11 (word_of_int y - word_of_int x) = A"
    by (simp add: push_bit_eq_mult h_def A_def)
  have b: "SCREEN_HEIGHT * 2 + word_of_int (2 * (y - 240)) - word_of_int (2 * x) = B"
    by (simp add: SCREEN_HEIGHT_def h_def B_def algebra_simps)
  have s: "sint A = 2048 * h" "sint B = 2 * h"
    unfolding A_def B_def by (rule sint_of_int; use h in simp)+
  have "B \<noteq> 0" using s(2) h by auto
  moreover have "2048 * h sdiv (2 * h) = 1024"
    using h by (simp add: signed_divide_int_def sgn_mult)
  ultimately show ?thesis
    unfolding configure_yScaleLo_def a b by (simp add: s32_quot_def s32_div_def s)
qed

text \<open>The start of the lines moves with the borders.\<close>

lemma window_vStart:
  assumes "0 \<le> x" "x < y" "y \<le> 240"
  shows "START 37 511 + (push_bit 16 (word_of_int (2 * x)) + sext16 (word_of_int (2 * (y - 240))))
    = START (37 + 2 * x) (31 + 2 * y)"
proof -
  define l where "l = 2 * (y - 240)"
  have l: "- 480 \<le> l" "l \<le> 0" using assms by (simp_all add: l_def)
  have si: "sint (word_of_int l :: 16 word) = l"
    using l by (simp add: sint_sbintrunc' signed_take_bit_int_eq_self)
  have u: "(ucast (word_of_int l :: u32) :: 16 word) = word_of_int l"
    by (rule bit_word_eqI) (simp add: bit_simps)
  have "sext16 (word_of_int l) = of_int (sint (word_of_int l :: 16 word))"
    by (simp only: sext16_def u of_int_sint)
  then have "sext16 (word_of_int l) = word_of_int l" by (simp only: si)
  then show ?thesis
    using assms by (simp add: l_def [symmetric] START_arith push_bit_eq_mult) (simp add: l_def algebra_simps)
qed

lemma configure_window:
  assumes "fldRegs (customViMode v) = [r0, r1]"
    and "loRes v = 1" "antialiasOff v = 0" "modeN v = 1" "fb16Bit v = 1" "viWidth v = 320" "viFeatures v = 0x42"
    and "leftAdjust v = 0" "rightAdjust v = 0"
    and "upperAdjust v AND - 2 = upperAdjust v" "lowerAdjust v AND - 2 = lowerAdjust v"
    and "configure_yScaleLo True False (viHeight v) (lowerAdjust v) (upperAdjust v) = Some 1024"
    and "START 37 511 + (push_bit 16 (upperAdjust v) + sext16 (lowerAdjust v)) = S"
  shows "\<exists>m. configure_self OS_TV_NTSC v = Some (v\<lparr>customViMode := m\<rparr>) \<and> ctrl (comRegs m) = 0x3116 \<and>
      hStart (comRegs m) = HSTART 108 748 \<and> xScale (comRegs m) = 0x200 \<and>
      (\<forall>f<2. vStart (fldRegs m ! f) = S \<and> yScale (fldRegs m ! f) = 0x400)"
proof -
  obtain t c where v: "customViMode v = \<lparr>vm_type = t, comRegs = c, fldRegs = [r0, r1]\<rparr>"
    using assms(1) by (cases "customViMode v") auto
  have h: "HSTART 108 748 + sext16 0 = HSTART 108 748" by (simp add: sext16_def)
  show ?thesis
    using assms(13)
    by (simp add: configure_self_def ViMode_Configure_def assms(2-12) standard_scales Let_def v com_fld_simps tv_eval
         interlace_eval configure_adjust_def ViMode_ConfigureFeatures_def on_off_def ctrl_values vi_feature_defs
         vi_ctrl_defs h)
      (rule exI, rule conjI, rule refl, simp add: less_2_cases_iff)
qed

text \<open>What the next retrace shows of the mode that was set.\<close>

lemma set_mode_then_retrace:
  assumes "vi_mode st a = m"
  shows "vi_io (osViSwapContext pt l (osViSetSpecialFeatures feat (osViSetMode a st))) VI_V_START_REG
           = vStart (fldRegs m ! unat (l AND 1))"
    "vi_io (osViSwapContext pt l (osViSetSpecialFeatures feat (osViSetMode a st))) VI_Y_SCALE_REG
           = yScale (fldRegs m ! unat (l AND 1))"
    "vi_io (osViSwapContext pt l (osViSetSpecialFeatures feat (osViSetMode a st))) VI_X_SCALE_REG = xScale (comRegs m)"
    "vi_io (osViSwapContext pt l (osViSetSpecialFeatures feat (osViSetMode a st))) VI_H_START_REG = hStart (comRegs m)"
    "vi_io (osViSwapContext pt l (osViSetSpecialFeatures feat (osViSetMode a st))) VI_CONTROL_REG
           = special_features feat (ctrl (comRegs m)) (ctrl (comRegs m))"
  using assms
  by (simp_all add: osViSwapContext_def swap_writes_def swap_scales_def io_writes_def Let_def vi_reg_defs
      osViSetSpecialFeatures_def osViSetMode_def flag_set_bit)

text \<open>\<^verbatim>\<open>func_8007EE28\<close>, on a mode as \<^verbatim>\<open>ViMode_Init\<close> leaves it, makes the lines \<open>x\<close> to \<open>y\<close> the
  window of the picture: after the next retrace, of either field, the interface starts and ends at
  these lines, two half lines each, with one line of the frame buffer on every line of the screen,
  and with the dither filter in place of the anti-aliasing.\<close>

theorem func_8007EE28_shows_window:
  assumes "length (fldRegs (customViMode v)) = 2" "0 \<le> x" "x < y" "y \<le> 240"
  shows "\<exists>v' st'. func_8007EE28 OS_TV_NTSC a (word_of_int x) (word_of_int y) (ViMode_Init OS_TV_NTSC v, st) = Some (v', st') \<and>
    (let io = vi_io (osViSwapContext pt l st')
     in io VI_V_START_REG = START (37 + 2 * x) (31 + 2 * y) \<and> io VI_Y_SCALE_REG = 0x400 \<and>
        io VI_X_SCALE_REG = 0x200 \<and> io VI_H_START_REG = HSTART 108 748 \<and> io VI_CONTROL_REG = 0x13016)"
proof -
  define v1 where "v1 = (ViMode_Init OS_TV_NTSC v)\<lparr>upperAdjust := word_of_int x * 2,
    lowerAdjust := - (- word_of_int y) * 2 - SCREEN_HEIGHT * 2, viHeight := word_of_int y - word_of_int x\<rparr>"
  obtain r0 r1 where r: "fldRegs (customViMode v1) = [r0, r1]"
    using assms(1) by (auto simp: length_Suc_conv numeral_2_eq_2 ViMode_Init_def v1_def)
  have adj: "upperAdjust v1 = word_of_int x * 2" "lowerAdjust v1 = word_of_int (y - 240) * 2"
    "viHeight v1 = word_of_int y - word_of_int x"
    by (simp_all add: SCREEN_HEIGHT_def v1_def algebra_simps)
  have init: "loRes v1 = 1" "antialiasOff v1 = 0" "modeN v1 = 1" "fb16Bit v1 = 1" "viWidth v1 = 320"
    "viFeatures v1 = 0x42" "leftAdjust v1 = 0" "rightAdjust v1 = 0"
    by (simp_all add: v1_def ViMode_Init_def SCREEN_WIDTH_def vi_feature_defs)
  have d: "word_of_int (2 * x) = (word_of_int x * 2 :: u32)"
    "word_of_int (2 * (y - 240)) = (word_of_int (y - 240) * 2 :: u32)" by simp_all
  note w = window_scale [OF assms(2-4), unfolded d] window_vStart [OF assms(2-4), unfolded d]
  have even2: "w * 2 AND - 2 = w * 2" for w :: u32 using double_even [of w] by simp
  obtain m where m: "configure_self OS_TV_NTSC v1 = Some (v1\<lparr>customViMode := m\<rparr>)" "ctrl (comRegs m) = 0x3116"
    "hStart (comRegs m) = HSTART 108 748" "xScale (comRegs m) = 0x200"
    "\<forall>f<2. vStart (fldRegs m ! f) = START (37 + 2 * x) (31 + 2 * y) \<and> yScale (fldRegs m ! f) = 0x400"
    using configure_window [OF r init, unfolded adj, OF even2 even2 w] by blast
  have f: "unat (l AND 1) < 2" by (simp add: and_one_eq unat_mod)
  let ?st = "write_mode a (v1\<lparr>customViMode := m\<rparr>) st"
  have mode: "vi_mode ?st a = m" by (simp add: write_mode_def)
  have "special_features 0x42 0x3116 0x3116 = 0x13016"
    by (simp add: special_features_def on_off_def vi_feature_defs vi_ctrl_defs)
  moreover have "func_8007EE28 OS_TV_NTSC a (word_of_int x) (word_of_int y) (ViMode_Init OS_TV_NTSC v, st)
      = Some (v1\<lparr>customViMode := m\<rparr>, osViSetSpecialFeatures 0x42 (osViSetMode a ?st))"
    unfolding func_8007EE28_def prod.case v1_def [symmetric] m(1) by (simp add: init(6))
  ultimately show ?thesis
    using m(5) f by (simp add: Let_def set_mode_then_retrace [OF mode] m(2-4))
qed

theorem func_8007EE28_shows_window_witness:
  "\<exists>v' st'. func_8007EE28 OS_TV_NTSC 8 (word_of_int 20) (word_of_int 220) (ViMode_Init OS_TV_NTSC sample_ViMode, sample_vi)
     = Some (v', st') \<and> vi_io (osViSwapContext id 0 st') VI_V_START_REG = START 77 471"
  using func_8007EE28_shows_window [of sample_ViMode 20 220 8 sample_vi id 0]
  by (auto simp: sample_ViMode_fields Let_def)

end
