(* ===== verification/Timer.thy ===== *)
theory Timer
  imports Prelude "HOL-Library.Monad_Syntax"
begin

section \<open>Timers\<close>

text \<open>
  The timers of \<^verbatim>\<open>lib/ultralib/src/os/\<close>: \<^verbatim>\<open>timerintr.c\<close>, \<^verbatim>\<open>settimer.c\<close> and \<^verbatim>\<open>stoptimer.c\<close>, as built
  for this version of the library.  A timer is the address of its structure and the fields are maps from addresses; the list is circular through
  \<^verbatim>\<open>__osBaseTimer\<close>, at the address \<open>osTimerList\<close>.  The value of a timer is the delay behind the one in
  front of it.  The readings of the 32-bit counter are arguments, in the order the code takes them,
  and the messages the interrupt sends, without waiting, are its output.
\<close>

record timers =
  tm_next :: "ptr \<Rightarrow> ptr"
  tm_prev :: "ptr \<Rightarrow> ptr"
  tm_interval :: "ptr \<Rightarrow> u64"
  tm_value :: "ptr \<Rightarrow> u64"
  tm_mq :: "ptr \<Rightarrow> ptr"
  tm_msg :: "ptr \<Rightarrow> u32"
  osTimerList :: ptr
  osTimerCounter :: u32
  osCompare :: u32

subsection \<open>The operations\<close>

definition osTimerServicesInit :: "timers \<Rightarrow> timers" where
  "osTimerServicesInit s =
     (let l = osTimerList s
      in s\<lparr>tm_next := (tm_next s)(l := l), tm_prev := (tm_prev s)(l := l), tm_interval := (tm_interval s)(l := 0),
           tm_value := (tm_value s)(l := 0), tm_mq := (tm_mq s)(l := NULL), tm_msg := (tm_msg s)(l := 0)\<rparr>)"

definition osSetTimerIntr :: "u32 \<Rightarrow> u64 \<Rightarrow> timers \<Rightarrow> timers" where
  "osSetTimerIntr count tim s = s\<lparr>osTimerCounter := count, osCompare := ucast (ucast count + tim)\<rparr>"

text \<open>The search of \<^verbatim>\<open>__osInsertTimer\<close>, and the insertion in front of the timer it stops at.\<close>

partial_function (option) insert_search :: "timers \<Rightarrow> ptr \<Rightarrow> u64 \<Rightarrow> (ptr \<times> u64) option" where
  "insert_search s timep tim =
     (if timep \<noteq> osTimerList s \<and> tm_value s timep < tim
      then insert_search s (tm_next s timep) (tim - tm_value s timep)
      else Some (timep, tim))"

definition link_before :: "ptr \<Rightarrow> ptr \<Rightarrow> timers \<Rightarrow> timers" where
  "link_before t timep s0 =
     (let s = s0\<lparr>tm_next := (tm_next s0)(t := timep)\<rparr>;
          s = s\<lparr>tm_prev := (tm_prev s)(t := tm_prev s timep)\<rparr>;
          s = s\<lparr>tm_next := (tm_next s)(tm_prev s timep := t)\<rparr>
      in s\<lparr>tm_prev := (tm_prev s)(timep := t)\<rparr>)"

definition osInsertTimer :: "ptr \<Rightarrow> timers \<Rightarrow> (u64 \<times> timers) option" where
  "osInsertTimer t s =
     do { (timep, tim) \<leftarrow> insert_search s (tm_next s (osTimerList s)) (tm_value s t);
          let s = s\<lparr>tm_value := (tm_value s)(t := tim)\<rparr>;
              s = (if timep \<noteq> osTimerList s
                   then s\<lparr>tm_value := (tm_value s)(timep := tm_value s timep - tim)\<rparr> else s)
          in Some (tim, link_before t timep s) }"

definition osSetTimer :: "u32 \<Rightarrow> ptr \<Rightarrow> u64 \<Rightarrow> u64 \<Rightarrow> ptr \<Rightarrow> u32 \<Rightarrow> timers \<Rightarrow> timers option" where
  "osSetTimer count t countdown interval mq msg s0 =
     (let s = s0\<lparr>tm_next := (tm_next s0)(t := NULL), tm_prev := (tm_prev s0)(t := NULL),
                 tm_interval := (tm_interval s0)(t := interval),
                 tm_value := (tm_value s0)(t := if countdown \<noteq> 0 then countdown else interval),
                 tm_mq := (tm_mq s0)(t := mq), tm_msg := (tm_msg s0)(t := msg)\<rparr>
      in do { (time, s) \<leftarrow> osInsertTimer t s;
              Some (if tm_next s (osTimerList s) = t then osSetTimerIntr count time s else s) })"

text \<open>Taking a timer out of the list, as \<^verbatim>\<open>osStopTimer\<close> and the interrupt do.\<close>

definition unlink :: "ptr \<Rightarrow> timers \<Rightarrow> timers" where
  "unlink t s0 =
     (let s = s0\<lparr>tm_next := (tm_next s0)(tm_prev s0 t := tm_next s0 t)\<rparr>;
          s = s\<lparr>tm_prev := (tm_prev s)(tm_next s t := tm_prev s t)\<rparr>
      in s\<lparr>tm_next := (tm_next s)(t := NULL), tm_prev := (tm_prev s)(t := NULL)\<rparr>)"

definition osStopTimer :: "ptr \<Rightarrow> timers \<Rightarrow> s32 \<times> timers" where
  "osStopTimer t s0 =
     (if tm_next s0 t = NULL then (-1, s0)
      else (let timep = tm_next s0 t;
                s = (if timep \<noteq> osTimerList s0
                     then s0\<lparr>tm_value := (tm_value s0)(timep := tm_value s0 timep + tm_value s0 t)\<rparr> else s0);
                s = unlink t s
            in (0, if tm_next s (osTimerList s) = osTimerList s then s\<lparr>osCompare := 0\<rparr> else s)))"

text \<open>The loop of the interrupt.  A turn that finds a timer takes one reading of the counter, and
  a second one when it programs the next interrupt; \<^const>\<open>None\<close> when the readings run out.\<close>

fun interrupt_loop :: "u32 list \<Rightarrow> timers \<Rightarrow> ((ptr \<times> u32) list \<times> timers) option" where
  "interrupt_loop counts s =
     (let t = tm_next s (osTimerList s) in
      if t = osTimerList s then Some ([], s\<lparr>osCompare := 0, osTimerCounter := 0\<rparr>)
      else (case counts of
              [] \<Rightarrow> None
            | count # rest \<Rightarrow>
                (let elapsed = count - osTimerCounter s; s = s\<lparr>osTimerCounter := count\<rparr> in
                 if ucast elapsed < tm_value s t
                 then (let s = s\<lparr>tm_value := (tm_value s)(t := tm_value s t - ucast elapsed)\<rparr>
                       in case rest of [] \<Rightarrow> None
                          | count2 # rest2 \<Rightarrow> Some ([], osSetTimerIntr count2 (tm_value s t) s))
                 else (let s = unlink t s; out = (if tm_mq s t \<noteq> NULL then [(tm_mq s t, tm_msg s t)] else [])
                       in do { s \<leftarrow> (if tm_interval s t \<noteq> 0
                                     then map_option snd (osInsertTimer t
                                            (s\<lparr>tm_value := (tm_value s)(t := tm_interval s t)\<rparr>))
                                     else Some s);
                               (outs, s) \<leftarrow> interrupt_loop rest s;
                               Some (out @ outs, s) }))))"

declare interrupt_loop.simps [simp del]

definition osTimerInterrupt :: "u32 list \<Rightarrow> timers \<Rightarrow> ((ptr \<times> u32) list \<times> timers) option" where
  "osTimerInterrupt counts s =
     (if tm_next s (osTimerList s) = osTimerList s then Some ([], s) else interrupt_loop counts s)"

subsection \<open>The list and its deadlines\<close>

definition timer_list :: "timers \<Rightarrow> ptr list \<Rightarrow> bool" where
  "timer_list s ts \<longleftrightarrow>
     chain (tm_next s) (osTimerList s) ts (osTimerList s) \<and>
     chain (tm_prev s) (osTimerList s) (rev ts) (osTimerList s) \<and>
     distinct (osTimerList s # ts) \<and> NULL \<notin> set (osTimerList s # ts)"

text \<open>The deadlines: the sums of the delays.\<close>

primrec dues :: "(ptr \<Rightarrow> u64) \<Rightarrow> nat \<Rightarrow> ptr list \<Rightarrow> (ptr \<times> nat) list" where
  "dues val d [] = []"
| "dues val d (t # ts) = (t, d + unat (val t)) # dues val (d + unat (val t)) ts"

definition delay :: "(ptr \<Rightarrow> u64) \<Rightarrow> ptr list \<Rightarrow> nat" where
  "delay val ts = (\<Sum>t\<leftarrow>ts. unat (val t))"

lemma delay_simps [simp]: "delay val [] = 0" "delay val (t # ts) = unat (val t) + delay val ts"
  by (simp_all add: delay_def)

lemma dues_append: "dues val d (xs @ ys) = dues val d xs @ dues val (d + delay val xs) ys"
  by (induction xs arbitrary: d) (simp_all add: add.assoc)

lemma dues_cong: "(\<And>t. t \<in> set ts \<Longrightarrow> val t = val' t) \<Longrightarrow> dues val d ts = dues val' d ts"
  by (induction ts arbitrary: d) simp_all

lemma delay_cong: "(\<And>t. t \<in> set ts \<Longrightarrow> val t = val' t) \<Longrightarrow> delay val ts = delay val' ts"
  by (induction ts) simp_all

lemma dues_ge: "(t, e) \<in> set (dues val d ts) \<Longrightarrow> d \<le> e"
  by (induction ts arbitrary: d) fastforce+

lemma dues_le: "(t, e) \<in> set (dues val d ts) \<Longrightarrow> e \<le> d + delay val ts"
  by (induction ts arbitrary: d) (auto, fastforce)

lemma delay_le:
  assumes "\<And>t e. (t, e) \<in> set (dues val 0 ts) \<Longrightarrow> e \<le> n"
  shows "delay val ts \<le> n"
  using assms by (cases ts rule: rev_cases) (auto simp: dues_append delay_def)

lemma map_fst_dues [simp]: "map fst (dues val d ts) = ts"
  by (induction ts arbitrary: d) simp_all

text \<open>Where a timer goes: behind the earlier ones, in front of those with the same deadline.\<close>

definition insert_due :: "ptr \<times> nat \<Rightarrow> (ptr \<times> nat) list \<Rightarrow> (ptr \<times> nat) list" where
  "insert_due p ds = takeWhile (\<lambda>q. snd q < snd p) ds @ p # dropWhile (\<lambda>q. snd q < snd p) ds"

lemma insert_due_split:
  assumes "\<And>q. q \<in> set xs \<Longrightarrow> snd q < snd p" "\<And>q. q \<in> set ys \<Longrightarrow> snd p \<le> snd q"
  shows "insert_due p (xs @ ys) = xs @ p # ys"
proof -
  have "takeWhile (\<lambda>q. snd q < snd p) ys = []" "dropWhile (\<lambda>q. snd q < snd p) ys = ys"
    using assms(2) by (cases ys; force)+
  then show ?thesis
    using assms(1) by (simp add: insert_due_def takeWhile_append2 dropWhile_append2)
qed

lemma insert_search_list:
  assumes "chain (tm_next s) a ts (osTimerList s)" "osTimerList s \<notin> set ts"
  shows "\<exists>ys zs tim'. ts = ys @ zs \<and> insert_search s (tm_next s a) tim = Some (hd (zs @ [osTimerList s]), tim') \<and>
    delay (tm_value s) ys + unat tim' = unat tim \<and>
    (\<forall>q\<in>set (dues (tm_value s) d ys). snd q < d + unat tim) \<and>
    (zs \<noteq> [] \<longrightarrow> tim' \<le> tm_value s (hd zs))"
  using assms
proof (induction ts arbitrary: a tim d)
  case Nil
  then show ?case by (intro exI [of _ "[]"]) (simp add: insert_search.simps)
next
  case (Cons t ts)
  let ?v = "tm_value s t"
  have ne: "t \<noteq> osTimerList s" using Cons.prems(2) by auto
  show ?case
  proof (cases "?v < tim")
    case True
    then have sub: "unat (tim - ?v) = unat tim - unat ?v" "unat ?v < unat tim"
      by (simp_all add: unat_sub less_imp_le word_less_nat_alt)
    from Cons.IH [of t "tim - ?v" "d + unat ?v"] Cons.prems obtain ys zs tim' where
      "ts = ys @ zs" "insert_search s (tm_next s t) (tim - ?v) = Some (hd (zs @ [osTimerList s]), tim')"
      "delay (tm_value s) ys + unat tim' = unat (tim - ?v)"
      "\<forall>q\<in>set (dues (tm_value s) (d + unat ?v) ys). snd q < d + unat ?v + unat (tim - ?v)"
      "zs \<noteq> [] \<longrightarrow> tim' \<le> tm_value s (hd zs)"
      by auto
    with sub True Cons.prems show ?thesis
      by (intro exI [of _ "t # ys"] exI [of _ zs] exI [of _ tim'])
        (simp add: insert_search.simps [of s t] ne)
  next
    case False
    with Cons.prems show ?thesis
      by (intro exI [of _ "[]"] exI [of _ "t # ts"] exI [of _ tim]) (simp add: insert_search.simps [of s t] ne)
  qed
qed

text \<open>The pointers.\<close>

lemma timer_list_cong:
  assumes "timer_list s ts" "osTimerList s' = osTimerList s" "tm_next s' = tm_next s" "tm_prev s' = tm_prev s"
  shows "timer_list s' ts"
  using assms by (simp add: timer_list_def)

lemma timer_list_ends:
  assumes "timer_list s (ys @ zs)"
  shows "tm_next s (last (osTimerList s # ys)) = hd (zs @ [osTimerList s])"
    "tm_prev s (hd (zs @ [osTimerList s])) = last (osTimerList s # ys)"
proof -
  let ?l = "osTimerList s"
  have "chain (tm_next s) ?l (ys @ zs) ?l" "chain (tm_prev s) ?l (rev zs @ rev ys) ?l"
    using assms by (simp_all add: timer_list_def)
  then have "chain (tm_next s) ?l ys (hd (zs @ [?l]))" "chain (tm_prev s) ?l (rev zs) (hd (rev ys @ [?l]))"
    by (auto dest: chain_prefix)
  then have "tm_next s (last (?l # ys)) = hd (zs @ [?l])" "tm_prev s (last (?l # rev zs)) = hd (rev ys @ [?l])"
    by (auto dest: chain_next_last)
  moreover have "last (?l # rev zs) = hd (zs @ [?l])" "hd (rev ys @ [?l]) = last (?l # ys)"
    by (cases zs; cases ys rule: rev_cases; simp)+
  ultimately show "tm_next s (last (?l # ys)) = hd (zs @ [?l])" "tm_prev s (hd (zs @ [?l])) = last (?l # ys)"
    by simp_all
qed

lemma link_before_list:
  assumes "timer_list s (ys @ zs)" "t \<notin> set (osTimerList s # ys @ zs)" "t \<noteq> NULL"
  shows "timer_list (link_before t (hd (zs @ [osTimerList s])) s) (ys @ t # zs)"
proof -
  let ?l = "osTimerList s"
  let ?z = "hd (zs @ [?l])" and ?y = "last (?l # ys)"
  note ends = timer_list_ends [OF assms(1)]
  have yz: "?z \<in> set (?l # zs)" "?y \<in> set (?l # ys)" by (cases zs; simp) (rule last_in_set, simp)
  then have t: "t \<noteq> ?z" "t \<noteq> ?y" using assms(2) by auto
  have s': "link_before t ?z s = s\<lparr>tm_next := (tm_next s)(t := ?z, ?y := t), tm_prev := (tm_prev s)(t := ?y, ?z := t)\<rparr>"
    using t ends(2) by (simp add: link_before_def Let_def)
  have l: "chain (tm_next s) ?l (ys @ zs) ?l" "chain (tm_prev s) ?l (rev zs @ rev ys) ?l" "distinct (?l # ys @ zs)"
    using assms(1) by (simp_all add: timer_list_def)
  have "chain ((tm_next s)(t := tm_next s ?y, ?y := t)) ?l (ys @ t # zs) ?l"
    by (rule chain_insert [OF l(1)]) (use l(3) assms(2) in auto)
  moreover have "chain ((tm_prev s)(t := tm_prev s (last (?l # rev zs)), last (?l # rev zs) := t)) ?l (rev zs @ t # rev ys) ?l"
    by (rule chain_insert [OF l(2)]) (use l(3) assms(2) in auto)
  moreover have "last (?l # rev zs) = ?z" by (cases zs) simp_all
  ultimately show ?thesis
    using assms ends by (auto simp: timer_list_def s')
qed

lemma unlink_list:
  assumes "timer_list s (ys @ t # zs)"
  shows "timer_list (unlink t s) (ys @ zs)" "tm_next (unlink t s) t = NULL"
proof -
  let ?l = "osTimerList s"
  let ?z = "hd (zs @ [?l])" and ?y = "last (?l # ys)"
  have p: "tm_prev s t = ?y" using timer_list_ends(2) [of s ys "t # zs"] assms by simp
  have n: "tm_next s t = ?z" using timer_list_ends(1) [of s "ys @ [t]" zs] assms by simp
  have d: "distinct (?l # ys @ t # zs)" "NULL \<notin> set (?l # ys @ t # zs)"
    and l: "chain (tm_next s) ?l (ys @ t # zs) ?l" "chain (tm_prev s) ?l (rev zs @ t # rev ys) ?l"
    using assms by (simp_all add: timer_list_def)
  have yz: "?z \<in> set (?l # zs)" "?y \<in> set (?l # ys)" by (cases zs; simp) (rule last_in_set, simp)
  then have t: "t \<noteq> ?z" "t \<noteq> ?y" using d(1) by auto
  have s': "unlink t s = s\<lparr>tm_next := (tm_next s)(?y := ?z, t := NULL), tm_prev := (tm_prev s)(?z := ?y, t := NULL)\<rparr>"
    using t by (simp add: unlink_def Let_def p n)
  have "chain ((tm_next s)(?y := tm_next s t)) ?l (ys @ zs) ?l"
    by (rule chain_unlink [OF l(1)]) (use d(1) in auto)
  moreover have "chain ((tm_prev s)(last (?l # rev zs) := tm_prev s t)) ?l (rev zs @ rev ys) ?l"
    by (rule chain_unlink [OF l(2)]) (use d(1) in auto)
  moreover have "last (?l # rev zs) = ?z" by (cases zs) simp_all
  ultimately show "timer_list (unlink t s) (ys @ zs)" "tm_next (unlink t s) t = NULL"
    using d by (auto simp: timer_list_def s' p n)
qed

text \<open>Inserting: the values of the timers in front stay, the one behind loses what the new one has.\<close>

lemma insert_values:
  assumes "timer_list s (ys @ zs)" "t \<notin> set (ys @ zs)" "delay (tm_value s) ys + unat tim' = unat (tm_value s t)"
    and "\<forall>q\<in>set (dues (tm_value s) 0 ys). snd q < unat (tm_value s t)"
    and "zs \<noteq> [] \<longrightarrow> tim' \<le> tm_value s (hd zs)"
  defines "val \<equiv> (tm_value s)(t := tim')"
  defines "val' \<equiv> (if zs \<noteq> [] then val(hd zs := tm_value s (hd zs) - tim') else val)"
  shows "dues val' 0 (ys @ t # zs) = insert_due (t, unat (tm_value s t)) (dues (tm_value s) 0 (ys @ zs))"
proof -
  let ?v = "tm_value s"
  have d: "distinct (ys @ zs)" using assms(1) by (simp add: timer_list_def)
  have ne: "x \<noteq> hd zs" if "x \<in> set ys" "zs \<noteq> []" for x using d that hd_in_set [OF that(2)] by auto
  have ys: "dues val' 0 ys = dues ?v 0 ys" "delay val' ys = delay ?v ys"
    using assms(2) ne by (auto simp: val'_def val_def intro!: dues_cong delay_cong)
  have t: "val' t = tim'" using assms(2) hd_in_set [of zs] by (auto simp: val'_def val_def)
  have zs: "dues val' (unat (?v t)) zs = dues ?v (delay ?v ys) zs"
  proof (cases zs)
    case (Cons z zs')
    have "unat (?v z - tim') = unat (?v z) - unat tim'" "unat tim' \<le> unat (?v z)"
      using assms(5) Cons by (simp_all add: unat_sub word_le_nat_alt)
    then have z: "unat (?v t) + unat (?v z - tim') = delay ?v ys + unat (?v z)" using assms(3) by simp
    have "dues val' e zs' = dues ?v e zs'" for e
      using assms(2) d Cons by (intro dues_cong) (auto simp: val'_def val_def)
    then show ?thesis using assms(2) Cons z by (simp add: val'_def val_def)
  qed simp
  have late: "unat (?v t) \<le> snd q" if "q \<in> set (dues ?v (delay ?v ys) zs)" for q
    using that dues_ge [of "fst q" "snd q" val' "unat (?v t)" zs] by (simp add: zs)
  have "dues val' 0 (ys @ t # zs) = dues ?v 0 ys @ (t, unat (?v t)) # dues ?v (delay ?v ys) zs"
    using assms(3) by (simp add: dues_append ys t zs)
  also have "\<dots> = insert_due (t, unat (?v t)) (dues ?v 0 ys @ dues ?v (delay ?v ys) zs)"
    using assms(4) late by (intro insert_due_split [symmetric]) simp_all
  finally show ?thesis by (simp add: dues_append)
qed

lemma osInsertTimer_eq:
  assumes "timer_list s ts" "t \<notin> set (osTimerList s # ts)" "t \<noteq> NULL"
  shows "\<exists>ys zs tim' s'. ts = ys @ zs \<and> osInsertTimer t s = Some (tim', s') \<and> timer_list s' (ys @ t # zs) \<and>
    dues (tm_value s') 0 (ys @ t # zs) = insert_due (t, unat (tm_value s t)) (dues (tm_value s) 0 ts) \<and>
    s' = s\<lparr>tm_next := tm_next s', tm_prev := tm_prev s', tm_value := tm_value s'\<rparr> \<and>
    (\<forall>u. u \<notin> set (t # ts) \<longrightarrow> tm_value s' u = tm_value s u) \<and> (ys = [] \<longrightarrow> tim' = tm_value s t)"
proof -
  let ?l = "osTimerList s"
  obtain ys zs tim' where ts: "ts = ys @ zs"
    and search: "insert_search s (tm_next s ?l) (tm_value s t) = Some (hd (zs @ [?l]), tim')"
    and v: "delay (tm_value s) ys + unat tim' = unat (tm_value s t)"
      "\<forall>q\<in>set (dues (tm_value s) 0 ys). snd q < 0 + unat (tm_value s t)"
      "zs \<noteq> [] \<longrightarrow> tim' \<le> tm_value s (hd zs)"
    using insert_search_list [of s ?l ts "tm_value s t" 0] assms(1) by (auto simp: timer_list_def)
  let ?val = "(tm_value s)(t := tim')"
  let ?val' = "if zs \<noteq> [] then ?val(hd zs := tm_value s (hd zs) - tim') else ?val"
  let ?s' = "link_before t (hd (zs @ [?l])) (s\<lparr>tm_value := ?val'\<rparr>)"
  have z: "zs \<noteq> [] \<longrightarrow> hd zs \<noteq> ?l \<and> hd zs \<noteq> t \<and> hd zs \<in> set ts"
    using assms(1,2) ts by (cases zs) (auto simp: timer_list_def)
  have run: "osInsertTimer t s = Some (tim', ?s')"
    using z by (cases "zs = []") (simp_all add: osInsertTimer_def search Let_def)
  have "timer_list (s\<lparr>tm_value := ?val'\<rparr>) (ys @ zs)" using assms(1) ts by (auto intro: timer_list_cong)
  from link_before_list [OF this, of t] assms(2,3) ts have list: "timer_list ?s' (ys @ t # zs)" by simp
  have val: "tm_value ?s' = ?val'" by (simp add: link_before_def Let_def)
  have "dues ?val' 0 (ys @ t # zs) = insert_due (t, unat (tm_value s t)) (dues (tm_value s) 0 (ys @ zs))"
    using assms(1,2) ts v by (intro insert_values) simp_all
  moreover have "?s' = s\<lparr>tm_next := tm_next ?s', tm_prev := tm_prev ?s', tm_value := tm_value ?s'\<rparr>"
    by (simp add: link_before_def Let_def)
  moreover have "ys = [] \<longrightarrow> tim' = tm_value s t" using v(1) by (auto simp: word_unat_eq_iff)
  moreover have "\<forall>u. u \<notin> set (t # ts) \<longrightarrow> tm_value ?s' u = tm_value s u" using z by (auto simp: val)
  ultimately show ?thesis using run list ts val by (intro exI conjI) (assumption | simp)+
qed

subsection \<open>Setting a timer\<close>

lemma osSetTimerIntr_fields [simp]:
  "tm_next (osSetTimerIntr c v s) = tm_next s" "tm_prev (osSetTimerIntr c v s) = tm_prev s"
  "tm_value (osSetTimerIntr c v s) = tm_value s" "tm_interval (osSetTimerIntr c v s) = tm_interval s"
  "tm_mq (osSetTimerIntr c v s) = tm_mq s" "tm_msg (osSetTimerIntr c v s) = tm_msg s"
  "osTimerList (osSetTimerIntr c v s) = osTimerList s" "osTimerCounter (osSetTimerIntr c v s) = c"
  "timer_list (osSetTimerIntr c v s) ts = timer_list s ts"
  by (simp_all add: osSetTimerIntr_def timer_list_def)

lemma osSetTimerIntr_compare [simp]: "osCompare (osSetTimerIntr c v s) = c + ucast v"
proof -
  have "uint (ucast (ucast c + v) :: u32) = uint (c + ucast v)"
    by (simp add: unsigned_ucast_eq take_bit_eq_mod uint_word_ariths mod_mod_cancel mod_simps)
  then show ?thesis by (simp add: osSetTimerIntr_def word_uint_eq_iff)
qed

lemma osSetTimer_eq:
  fixes countdown interval :: u64
  assumes "timer_list s ts" "t \<notin> set (osTimerList s # ts)" "t \<noteq> NULL"
  defines "v \<equiv> (if countdown \<noteq> 0 then countdown else interval)"
  shows "\<exists>ts' s'. osSetTimer count t countdown interval mq msg s = Some s' \<and> timer_list s' ts' \<and>
    dues (tm_value s') 0 ts' = insert_due (t, unat v) (dues (tm_value s) 0 ts) \<and> osTimerList s' = osTimerList s \<and>
    tm_interval s' = (tm_interval s)(t := interval) \<and> tm_mq s' = (tm_mq s)(t := mq) \<and> tm_msg s' = (tm_msg s)(t := msg) \<and>
    (if hd ts' = t then osTimerCounter s' = count \<and> osCompare s' = count + ucast v
     else osTimerCounter s' = osTimerCounter s \<and> osCompare s' = osCompare s)"
proof -
  let ?s = "s\<lparr>tm_next := (tm_next s)(t := NULL), tm_prev := (tm_prev s)(t := NULL), tm_interval := (tm_interval s)(t := interval),
    tm_value := (tm_value s)(t := v), tm_mq := (tm_mq s)(t := mq), tm_msg := (tm_msg s)(t := msg)\<rparr>"
  have l: "timer_list ?s ts" using assms(1,2) by (auto simp: timer_list_def)
  obtain ys zs tim' s1 where i: "ts = ys @ zs" "osInsertTimer t ?s = Some (tim', s1)" "timer_list s1 (ys @ t # zs)"
    "dues (tm_value s1) 0 (ys @ t # zs) = insert_due (t, unat v) (dues (tm_value ?s) 0 ts)"
    "s1 = ?s\<lparr>tm_next := tm_next s1, tm_prev := tm_prev s1, tm_value := tm_value s1\<rparr>" "ys = [] \<longrightarrow> tim' = v"
    using osInsertTimer_eq [OF l, of t] assms(2,3) by auto
  have f: "osTimerList s1 = osTimerList s" "tm_interval s1 = (tm_interval s)(t := interval)" "tm_mq s1 = (tm_mq s)(t := mq)"
    "tm_msg s1 = (tm_msg s)(t := msg)" "osTimerCounter s1 = osTimerCounter s" "osCompare s1 = osCompare s"
    by (simp_all add: arg_cong [OF i(5), of osTimerList] arg_cong [OF i(5), of tm_interval] arg_cong [OF i(5), of tm_mq]
        arg_cong [OF i(5), of tm_msg] arg_cong [OF i(5), of osTimerCounter] arg_cong [OF i(5), of osCompare])
  have d: "dues (tm_value ?s) 0 ts = dues (tm_value s) 0 ts" using assms(2) by (intro dues_cong) auto
  have n: "tm_next s1 (osTimerList s1) = hd (ys @ t # zs)"
    using timer_list_ends(1) [of s1 "[]" "ys @ t # zs"] i(3) by (cases ys) simp_all
  have run: "osSetTimer count t countdown interval mq msg s
      = Some (if hd (ys @ t # zs) = t then osSetTimerIntr count tim' s1 else s1)"
    using i(2) n f(1) unfolding osSetTimer_def v_def [symmetric] by simp
  show ?thesis
  proof (cases "ys = []")
    case True
    then show ?thesis
      using i(3,4,6) f(1-4) d run
      by (intro exI [of _ "t # zs"] exI [of _ "osSetTimerIntr count tim' s1"]) simp
  next
    case False
    then have "hd (ys @ t # zs) \<noteq> t" using assms(2) i(1) by (cases ys) auto
    with i(3,4) f d run show ?thesis by (intro exI [of _ "ys @ t # zs"] exI [of _ s1]) simp
  qed
qed

text \<open>Claim C27: setting a timer that is not running keeps the list of timers well linked and puts the
  timer among the others in the order of the deadlines, in front of those with the same deadline,
  with the delay that was asked for (the interval, when there is no countdown); the deadlines of
  the others, counted in the same way, do not change, and the interrupt is programmed exactly when
  the new timer is the first.\<close>

theorem osSetTimer_orders_by_deadline:
  fixes countdown interval :: u64
  assumes "timer_list s ts" "t \<notin> set (osTimerList s # ts)" "t \<noteq> NULL"
  defines "v \<equiv> (if countdown \<noteq> 0 then countdown else interval)"
  shows "\<exists>ts' s'. osSetTimer count t countdown interval mq msg s = Some s' \<and> timer_list s' ts' \<and>
    dues (tm_value s') 0 ts' = insert_due (t, unat v) (dues (tm_value s) 0 ts) \<and>
    (if hd ts' = t then osTimerCounter s' = count \<and> osCompare s' = count + ucast v
     else osTimerCounter s' = osTimerCounter s \<and> osCompare s' = osCompare s)"
  using osSetTimer_eq [OF assms(1-3), of count countdown interval mq msg] unfolding v_def by blast

text \<open>The counter at which a deadline is over: deadlines count from \<^verbatim>\<open>__osTimerCounter\<close>.\<close>

definition expiry :: "timers \<Rightarrow> nat \<Rightarrow> u32" where
  "expiry s d = osTimerCounter s + of_nat d"

text \<open>setting a timer while others run does not take into account the time since the counter
  was last read: if the new timer becomes the first one, every other timer expires late by that
  time, and otherwise the new timer itself expires early by it.\<close>

theorem osSetTimer_ignores_elapsed_time:
  fixes count :: u32 and countdown :: u64 and s :: timers
  assumes "timer_list s ts" "t \<notin> set (osTimerList s # ts)" "t \<noteq> NULL" "countdown \<noteq> 0"
  defines "elapsed \<equiv> count - osTimerCounter s"
  shows "\<exists>ts' s'. osSetTimer count t countdown interval mq msg s = Some s' \<and> timer_list s' ts' \<and>
    (if hd ts' = t
     then \<forall>(u, d)\<in>set (dues (tm_value s) 0 ts). (u, d) \<in> set (dues (tm_value s') 0 ts') \<and>
            expiry s' d = expiry s d + elapsed
     else (t, unat countdown) \<in> set (dues (tm_value s') 0 ts') \<and>
            expiry s' (unat countdown) = count + ucast countdown - elapsed)"
proof -
  have set: "set (insert_due p ds) = insert p (set ds)" for p ds
    by (simp add: insert_due_def) (metis set_append takeWhile_dropWhile_id)
  have c: "(of_nat (unat countdown) :: u32) = ucast countdown" by simp
  from osSetTimer_eq [OF assms(1-3), of count countdown interval mq msg] show ?thesis
    using assms(4) by (auto simp: expiry_def set c elapsed_def split: if_splits intro!: exI)
qed

subsection \<open>Stopping a timer\<close>

lemma unlink_fields [simp]:
  "tm_value (unlink t s) = tm_value s" "tm_interval (unlink t s) = tm_interval s" "tm_mq (unlink t s) = tm_mq s"
  "tm_msg (unlink t s) = tm_msg s" "osTimerList (unlink t s) = osTimerList s"
  "osTimerCounter (unlink t s) = osTimerCounter s" "osCompare (unlink t s) = osCompare s"
  by (simp_all add: unlink_def Let_def)

lemma timer_list_update [simp]:
  "timer_list (s\<lparr>tm_value := v\<rparr>) ts = timer_list s ts" "timer_list (s\<lparr>osCompare := c\<rparr>) ts = timer_list s ts"
  "timer_list (s\<lparr>osTimerCounter := c\<rparr>) ts = timer_list s ts"
  by (simp_all add: timer_list_def)

lemma stop_values:
  assumes "distinct (ys @ t # zs)" "delay val (ys @ t # zs) < 2 ^ 64"
  defines "val' \<equiv> (if zs \<noteq> [] then val(hd zs := val (hd zs) + val t) else val)"
  shows "dues val' 0 (ys @ zs) = filter (\<lambda>q. fst q \<noteq> t) (dues val 0 (ys @ t # zs))"
proof -
  have keep: "filter (\<lambda>q. fst q \<noteq> t) (dues v d xs) = dues v d xs" if "t \<notin> set xs" for v d xs
    using that by (induction xs arbitrary: d) auto
  have ys: "dues val' 0 ys = dues val 0 ys" "delay val' ys = delay val ys"
    using assms(1) by (cases zs; auto simp: val'_def intro!: dues_cong delay_cong)+
  have zs: "dues val' d zs = dues val (d + unat (val t)) zs" for d
  proof (cases zs)
    case (Cons z zs')
    have "unat (val z) + unat (val t) < 2 ^ 64" using assms(2) Cons by (simp add: delay_def)
    then have z: "unat (val z + val t) = unat (val z) + unat (val t)"
      by (simp add: unat_word_ariths(1) take_bit_nat_eq_self)
    have "dues val' e zs' = dues val e zs'" for e
      using assms(1) Cons by (intro dues_cong) (auto simp: val'_def)
    then show ?thesis using Cons z by (simp add: val'_def add.commute add.left_commute)
  qed simp
  have "filter (\<lambda>q. fst q \<noteq> t) (dues val 0 (ys @ t # zs)) = dues val 0 ys @ dues val (delay val ys + unat (val t)) zs"
    using assms(1) by (simp add: dues_append keep)
  also have "\<dots> = dues val' 0 (ys @ zs)" by (simp add: dues_append ys zs)
  finally show ?thesis ..
qed

lemma osStopTimer_eq:
  assumes "timer_list s ts" "t \<in> set ts" "delay (tm_value s) ts < 2 ^ 64"
  shows "\<exists>s'. osStopTimer t s = (0, s') \<and> timer_list s' (remove1 t ts) \<and> tm_next s' t = NULL \<and>
    dues (tm_value s') 0 (remove1 t ts) = filter (\<lambda>q. fst q \<noteq> t) (dues (tm_value s) 0 ts) \<and>
    osCompare s' = (if remove1 t ts = [] then 0 else osCompare s)"
proof -
  let ?l = "osTimerList s"
  obtain ys zs where ts: "ts = ys @ t # zs" "t \<notin> set ys" using assms(2) by (metis split_list_first)
  have list: "timer_list s (ys @ t # zs)" using assms(1) ts(1) by simp
  then have d: "distinct (?l # ys @ t # zs)" "NULL \<notin> set (?l # ys @ t # zs)" by (simp_all add: timer_list_def)
  have n: "tm_next s t = hd (zs @ [?l])" using timer_list_ends(1) [of s "ys @ [t]" zs] list by simp
  have nn: "tm_next s t \<noteq> NULL" using d(2) n by (cases zs) auto
  let ?val = "if zs \<noteq> [] then (tm_value s)(hd zs := tm_value s (hd zs) + tm_value s t) else tm_value s"
  let ?s = "unlink t (s\<lparr>tm_value := ?val\<rparr>)"
  have u: "timer_list ?s (ys @ zs)" "tm_next ?s t = NULL"
    using unlink_list [of "s\<lparr>tm_value := ?val\<rparr>" ys t zs] list by simp_all
  have e: "tm_next ?s ?l = hd ((ys @ zs) @ [?l])"
    using timer_list_ends(1) [of ?s "[]" "ys @ zs"] u(1) by simp
  have empty: "hd ((ys @ zs) @ [?l]) = ?l \<longleftrightarrow> ys @ zs = []" using d(1) by (cases ys; cases zs) auto
  have run: "osStopTimer t s = (0, if ys @ zs = [] then ?s\<lparr>osCompare := 0\<rparr> else ?s)"
  proof (cases zs)
    case Nil
    with n nn e empty show ?thesis by (simp add: osStopTimer_def Let_def)
  next
    case (Cons z zs')
    with n nn e empty d(1) show ?thesis by (auto simp: osStopTimer_def Let_def)
  qed
  have r: "remove1 t ts = ys @ zs" using ts by (simp add: remove1_append)
  have "dues ?val 0 (ys @ zs) = filter (\<lambda>q. fst q \<noteq> t) (dues (tm_value s) 0 ts)"
    unfolding ts(1) by (rule stop_values) (use d(1) assms(3) ts(1) in simp_all)
  then show ?thesis
    unfolding r using run u by (intro exI [of _ "if ys @ zs = [] then ?s\<lparr>osCompare := 0\<rparr> else ?s"]) auto
qed

text \<open>stopping a timer that was set takes back the setting: the list and all the deadlines are as
  they were before, and stopping it once more reports that it does not run and changes nothing.\<close>

theorem osStopTimer_undoes_osSetTimer:
  fixes countdown :: u64
  assumes "timer_list s ts" "t \<notin> set (osTimerList s # ts)" "t \<noteq> NULL" "countdown \<noteq> 0"
    and "delay (tm_value s) ts + unat countdown < 2 ^ 64"
  shows "\<exists>s1 s2. osSetTimer count t countdown interval mq msg s = Some s1 \<and> osStopTimer t s1 = (0, s2) \<and>
    timer_list s2 ts \<and> dues (tm_value s2) 0 ts = dues (tm_value s) 0 ts \<and> osStopTimer t s2 = (-1, s2)"
proof -
  let ?ds = "dues (tm_value s) 0 ts" and ?p = "(t, unat countdown)"
  obtain ts' s1 where s1: "osSetTimer count t countdown interval mq msg s = Some s1" "timer_list s1 ts'"
    "dues (tm_value s1) 0 ts' = insert_due ?p ?ds"
    using osSetTimer_eq [OF assms(1-3), of count countdown interval mq msg] assms(4) by auto
  obtain A B where ab: "insert_due ?p ?ds = A @ ?p # B" "?ds = A @ B"
    unfolding insert_due_def by (metis takeWhile_dropWhile_id)
  have fst: "map fst A @ map fst B = ts" using arg_cong [OF ab(2), of "map fst"] by simp
  have ts': "ts' = map fst A @ t # map fst B" using arg_cong [OF s1(3), of "map fst"] ab(1) by simp
  have "delay (tm_value s1) ts' \<le> delay (tm_value s) ts + unat countdown"
    using s1(3) ab dues_le [where val = "tm_value s" and d = 0 and ts = ts]
    by (intro delay_le) (auto intro: trans_le_add1)
  with assms(5) have small: "delay (tm_value s1) ts' < 2 ^ 64" by simp
  have t: "t \<notin> fst ` set A" "t \<notin> fst ` set B" using assms(2) arg_cong [OF fst, of set] by auto
  then have tAB: "\<forall>q\<in>set A. fst q \<noteq> t" "\<forall>q\<in>set B. fst q \<noteq> t" by force+
  have "filter (\<lambda>q. fst q \<noteq> t) (insert_due ?p ?ds) = ?ds"
    unfolding ab(1) unfolding ab(2) using tAB by (simp add: filter_id_conv)
  moreover have "remove1 t ts' = ts" using t fst by (simp add: ts' remove1_append)
  ultimately have "remove1 t ts' = ts" "filter (\<lambda>q. fst q \<noteq> t) (insert_due ?p ?ds) = ?ds"
    by simp_all
  with osStopTimer_eq [OF s1(2) _ small, of t] s1(3) obtain s2 where s2:
    "osStopTimer t s1 = (0, s2)" "timer_list s2 ts" "tm_next s2 t = NULL" "dues (tm_value s2) 0 ts = ?ds"
    by (auto simp: ts')
  then have "osStopTimer t s2 = (-1, s2)" by (simp add: osStopTimer_def)
  with s1(1) s2 show ?thesis by blast
qed

subsection \<open>The interrupt\<close>

definition messages :: "timers \<Rightarrow> ptr list \<Rightarrow> (ptr \<times> u32) list" where
  "messages s ts = map (\<lambda>t. (tm_mq s t, tm_msg s t)) (filter (\<lambda>t. tm_mq s t \<noteq> NULL) ts)"

lemma messages_simps [simp]:
  "messages s [] = []"
  "messages s (t # ts) = (if tm_mq s t \<noteq> NULL then [(tm_mq s t, tm_msg s t)] else []) @ messages s ts"
  by (simp_all add: messages_def)

text \<open>The rest of the interrupt after the first timer is over: no time passes any more.\<close>

lemma interrupt_rest:
  assumes "timer_list s ts" "osTimerCounter s = c" "\<forall>t\<in>set ts. tm_interval s t = 0" "length ts < n"
  shows "\<exists>s'. interrupt_loop (replicate n c) s = Some (messages s (takeWhile (\<lambda>t. tm_value s t = 0) ts), s') \<and>
    timer_list s' (dropWhile (\<lambda>t. tm_value s t = 0) ts) \<and> tm_value s' = tm_value s \<and>
    (case dropWhile (\<lambda>t. tm_value s t = 0) ts of
       [] \<Rightarrow> osCompare s' = 0 \<and> osTimerCounter s' = 0
     | u # us \<Rightarrow> osCompare s' = c + ucast (tm_value s u) \<and> osTimerCounter s' = c)"
  using assms
proof (induction ts arbitrary: s n)
  case Nil
  then have "tm_next s (osTimerList s) = osTimerList s" by (simp add: timer_list_def)
  with Nil show ?case
    by (subst interrupt_loop.simps) (simp add: timer_list_def)
next
  case (Cons t ts)
  let ?l = "osTimerList s"
  have n: "tm_next s ?l = t" "t \<noteq> ?l" using Cons.prems(1) by (auto simp: timer_list_def)
  obtain k where k: "n = Suc (Suc k)" using Cons.prems(4) by (cases n; cases "n - 1") auto
  show ?case
  proof (cases "tm_value s t = 0")
    case True
    have u: "timer_list (unlink t s) ts" using unlink_list(1) [of s "[]" t ts] Cons.prems(1) by simp
    have "s\<lparr>osTimerCounter := c\<rparr> = s" using Cons.prems(2) by simp
    then have step: "interrupt_loop (replicate n c) s
        = map_option (\<lambda>(out, s'). ((if tm_mq s t \<noteq> NULL then [(tm_mq s t, tm_msg s t)] else []) @ out, s'))
            (interrupt_loop (replicate (Suc k) c) (unlink t s))"
      using n Cons.prems(2,3) True
      by (subst interrupt_loop.simps, cases "interrupt_loop (replicate (Suc k) c) (unlink t s)")
        (auto simp: k Let_def)
    have f: "osTimerCounter (unlink t s) = c" "\<forall>t\<in>set ts. tm_interval (unlink t s) t = 0" "length ts < Suc k"
      "tm_value (unlink t s) = tm_value s"
      using Cons.prems k by simp_all
    from Cons.IH [OF u f(1) _ f(3)] f(2) obtain s' where
      "interrupt_loop (replicate (Suc k) c) (unlink t s) = Some (messages (unlink t s) (takeWhile (\<lambda>t. tm_value s t = 0) ts), s')"
      "timer_list s' (dropWhile (\<lambda>t. tm_value s t = 0) ts)" "tm_value s' = tm_value s"
      "case dropWhile (\<lambda>t. tm_value s t = 0) ts of [] \<Rightarrow> osCompare s' = 0 \<and> osTimerCounter s' = 0
         | u # us \<Rightarrow> osCompare s' = c + ucast (tm_value s u) \<and> osTimerCounter s' = c"
      unfolding f(4) by auto
    moreover have "messages (unlink t s) us = messages s us" for us by (simp add: messages_def)
    ultimately show ?thesis using True by (simp add: step)
  next
    case False
    then have "0 < tm_value s t" by (simp add: word_gt_0)
    then have "interrupt_loop (replicate n c) s = Some ([], osSetTimerIntr c (tm_value s t) s)"
      using n Cons.prems(2) by (subst interrupt_loop.simps) (simp add: k Let_def)
    with False Cons.prems show ?thesis by simp
  qed
qed

lemma interrupt_fires:
  fixes c :: u32
  assumes "timer_list s (t # ts)" "\<forall>u\<in>set (t # ts). tm_interval s u = 0"
    and "tm_value s t \<le> ucast (c - osTimerCounter s)"
  defines "due \<equiv> t # takeWhile (\<lambda>u. tm_value s u = 0) ts"
  defines "later \<equiv> dropWhile (\<lambda>u. tm_value s u = 0) ts"
  shows "\<exists>s'. osTimerInterrupt (replicate (length ts + 3) c) s = Some (messages s due, s') \<and>
    timer_list s' later \<and> dues (tm_value s') 0 later = dues (tm_value s) 0 later \<and>
    osCompare s' = (if later = [] then 0 else c + ucast (tm_value s (hd later)))"
proof -
  let ?l = "osTimerList s" and ?s = "unlink t (s\<lparr>osTimerCounter := c\<rparr>)"
  have hd: "tm_next s ?l = t" "t \<noteq> ?l" using assms(1) by (auto simp: timer_list_def)
  have u: "timer_list ?s ts"
    using unlink_list(1) [of "s\<lparr>osTimerCounter := c\<rparr>" "[]" t ts] assms(1) by simp
  define n where "n = length ts + 2"
  have f: "osTimerCounter ?s = c" "\<forall>u\<in>set ts. tm_interval ?s u = 0" "length ts < n" "tm_value ?s = tm_value s"
    using assms(2) by (simp_all add: n_def)
  from interrupt_rest [OF u f(1-3)] obtain s' where s': "interrupt_loop (replicate n c) ?s = Some (messages ?s (tl due), s')"
    "timer_list s' later" "tm_value s' = tm_value s"
    "case later of [] \<Rightarrow> osCompare s' = 0 \<and> osTimerCounter s' = 0
       | u # us \<Rightarrow> osCompare s' = c + ucast (tm_value s u) \<and> osTimerCounter s' = c"
    unfolding f(4) due_def later_def by auto
  have m: "messages ?s us = messages s us" for us by (simp add: messages_def)
  have rep: "replicate (length ts + 3) c = c # replicate n c"
    by (simp add: n_def numeral_3_eq_3 numeral_2_eq_2)
  have "osTimerInterrupt (replicate (length ts + 3) c) s
      = Some ((if tm_mq s t \<noteq> NULL then [(tm_mq s t, tm_msg s t)] else []) @ messages ?s (tl due), s')"
    using hd assms(2) leD [OF assms(3)] s'(1) unfolding rep by (simp add: osTimerInterrupt_def interrupt_loop.simps [of "_ # _"] Let_def)
  then show ?thesis
    using s'(2-4) by (cases later) (simp_all add: m due_def)
qed

text \<open>an interrupt that comes when the first timer is over, and takes no time itself, always
  returns: it sends the messages of the first timer and of all those with the same deadline, in
  order, takes them out of the list, and programs the next interrupt for the full delay of the
  next timer.  Time by which the interrupt came late is not taken from that delay.\<close>

theorem osTimerInterrupt_fires_due_timers:
  fixes c :: u32
  assumes "timer_list s (t # ts)" "\<forall>u\<in>set (t # ts). tm_interval s u = 0"
    and "tm_value s t \<le> ucast (c - osTimerCounter s)"
  defines "due \<equiv> t # takeWhile (\<lambda>u. tm_value s u = 0) ts"
  defines "later \<equiv> dropWhile (\<lambda>u. tm_value s u = 0) ts"
  shows "\<exists>s'. osTimerInterrupt (replicate (length ts + 3) c) s = Some (messages s due, s') \<and>
    timer_list s' later \<and> dues (tm_value s') 0 later = dues (tm_value s) 0 later \<and>
    osCompare s' = (if later = [] then 0 else c + ucast (tm_value s (hd later)))"
  unfolding due_def later_def by (rule interrupt_fires [OF assms(1-3)])

subsection \<open>Concrete timers\<close>

definition sample_timers :: timers where
  "sample_timers =
     \<lparr>tm_next = (\<lambda>_. 0)(16 := 32, 32 := 48, 48 := 16), tm_prev = (\<lambda>_. 0)(16 := 48, 48 := 32, 32 := 16),
      tm_interval = (\<lambda>_. 0), tm_value = (\<lambda>_. 0)(32 := 1000, 48 := 500), tm_mq = (\<lambda>t. t + 4),
      tm_msg = (\<lambda>t. t), osTimerList = 16, osTimerCounter = 0, osCompare = 1000\<rparr>"

lemma sample_timers_list: "timer_list sample_timers [32, 48]" "timer_list (osTimerServicesInit sample_timers) []"
  by (simp_all add: timer_list_def sample_timers_def osTimerServicesInit_def Let_def)

lemma sample_timers_new: "80 \<notin> set (osTimerList sample_timers # [32, 48])" "(80::ptr) \<noteq> NULL"
  by (simp_all add: sample_timers_def)

theorem osSetTimer_orders_by_deadline_witness:
  "\<exists>ts' s'. osSetTimer 100 80 1200 0 4 7 sample_timers = Some s' \<and> timer_list s' ts' \<and>
     dues (tm_value s') 0 ts' = [(32, 1000), (80, 1200), (48, 1500)]"
  using osSetTimer_orders_by_deadline [OF sample_timers_list(1) sample_timers_new, of 100 1200 0 4 7]
  by (auto simp: insert_due_def sample_timers_def)

theorem osSetTimer_ignores_elapsed_time_witness:
  "\<exists>ts' s'. osSetTimer 900 80 500 0 4 7 sample_timers = Some s' \<and> timer_list s' ts' \<and>
     (hd ts' = 80 \<longrightarrow> expiry s' 1000 = 1900)"
proof -
  have d: "dues (tm_value sample_timers) 0 [32, 48] = [(32, 1000), (48, 1500)]" "osTimerCounter sample_timers = 0"
    by (simp_all add: sample_timers_def)
  have "expiry sample_timers 1000 + (900 - 0) = 1900" by (simp add: expiry_def d)
  moreover have "(500::u64) \<noteq> 0" by simp
  then obtain ts' s' where "osSetTimer 900 80 500 0 4 7 sample_timers = Some s'" "timer_list s' ts'"
    and e: "if hd ts' = 80 then \<forall>(u, d)\<in>set [(32, 1000), (48, 1500)]. (u, d) \<in> set (dues (tm_value s') 0 ts') \<and>
        expiry s' d = expiry sample_timers d + (900 - 0) else (80, unat (500::u64)) \<in> set (dues (tm_value s') 0 ts') \<and>
        expiry s' (unat (500::u64)) = 900 + ucast (500::u64) - (900 - 0)"
    using osSetTimer_ignores_elapsed_time [OF sample_timers_list(1) sample_timers_new, of 500 900 0 4 7]
    unfolding d by blast
  moreover from e have "expiry s' 1000 = expiry sample_timers 1000 + (900 - 0)" if "hd ts' = 80" using that by simp
  ultimately show ?thesis by metis
qed

theorem osStopTimer_undoes_osSetTimer_witness:
  "\<exists>s1 s2. osSetTimer 100 80 1200 0 4 7 sample_timers = Some s1 \<and> osStopTimer 80 s1 = (0, s2) \<and>
     timer_list s2 [32, 48] \<and> osStopTimer 80 s2 = (-1, s2)"
  using osStopTimer_undoes_osSetTimer [OF sample_timers_list(1) sample_timers_new, of 1200 100 0 4 7]
  by (auto simp: sample_timers_def)

theorem osTimerInterrupt_fires_due_timers_witness:
  "\<exists>s'. osTimerInterrupt [1000, 1000, 1000, 1000] sample_timers = Some ([(36, 32)], s') \<and> timer_list s' [48] \<and>
     osCompare s' = 1500"
proof -
  have p: "\<forall>u\<in>set [32, 48]. tm_interval sample_timers u = 0"
    "tm_value sample_timers 32 \<le> ucast (1000 - osTimerCounter sample_timers)"
    by (simp_all add: sample_timers_def)
  have v: "tm_value sample_timers 48 = 500" "tm_mq sample_timers 32 = 36" "tm_msg sample_timers 32 = 32"
    by (simp_all add: sample_timers_def)
  have r: "replicate (length [48::ptr] + 3) (1000::u32) = [1000, 1000, 1000, 1000]"
    by (simp add: eval_nat_numeral)
  have w: "(1000::u32) + ucast (500::u64) = 1500" by simp
  from osTimerInterrupt_fires_due_timers [OF sample_timers_list(1) p] show ?thesis
    unfolding r by (simp add: v w) blast
qed

end
