(* ===== verification/Sleep.thy ===== *)
theory Sleep
  imports Mesg Timer
begin

section \<open>Sleeping\<close>

text \<open>
  \<^verbatim>\<open>src/main/O2/sleep.c\<close>: a thread that sleeps makes a message queue on its stack, sets a timer that posts a
  message to it, and waits for the message.  Timers, message queues and threads are those of \<open>Timer\<close>,
  \<open>Mesg\<close> and \<open>Threads\<close>: the receive parks the thread, and the timer interrupt, which posts with
  \<^verbatim>\<open>OS_MESG_NOBLOCK\<close>, makes it runnable again.
\<close>

subsection \<open>The operations\<close>

text \<open>\<open>mqa\<close>, \<open>msg\<close> and \<open>timer\<close> are the three locals: the addresses of the queue and of the timer, and the
  one word that the queue holds, which is not initialised; \<open>count\<close> is the reading of the counter
  when the interrupt is programmed.  The result is what the receive does first; when it has parked
  the thread, it goes on with another evaluation of \<open>osRecvMesg\<close>.\<close>

definition csleep ::
  "u32 \<Rightarrow> u64 \<Rightarrow> ptr \<Rightarrow> u32 \<Rightarrow> ptr \<Rightarrow> kernel \<Rightarrow> timers \<Rightarrow> (recv_outcome \<times> kernel \<times> mesgq \<times> timers) option" where
  "csleep count t mqa msg timer k tms =
     (case osCreateMesgQueue k mqa [msg] 1 of (k, mq) \<Rightarrow>
        do { tms \<leftarrow> osSetTimer count timer t 0 mqa 0 tms;
             (r, k, mq) \<leftarrow> osRecvMesg k mq OS_MESG_BLOCK;
             Some (r, k, mq, tms) })"

text \<open>The messages of a timer interrupt go to their queues; here only the one of the sleeper is there.\<close>

fun post_all :: "(ptr \<times> u32) list \<Rightarrow> kernel \<times> mesgq \<Rightarrow> (kernel \<times> mesgq) option" where
  "post_all [] s = Some s"
| "post_all ((q, m) # ms) (k, mq) =
     (if q \<noteq> mq_addr mq then None
      else do { (_, k, mq) \<leftarrow> osSendMesg k mq m OS_MESG_NOBLOCK; post_all ms (k, mq) })"

definition timer_tick :: "u32 list \<Rightarrow> kernel \<times> mesgq \<times> timers \<Rightarrow> (kernel \<times> mesgq \<times> timers) option" where
  "timer_tick counts = (\<lambda>(k, mq, tms).
     do { (outs, tms) \<leftarrow> osTimerInterrupt counts tms;
          (k, mq) \<leftarrow> post_all outs (k, mq);
          Some (k, mq, tms) })"

text \<open>Interrupts one after the other, each at one reading of the counter.\<close>

fun timer_ticks :: "u32 list \<Rightarrow> kernel \<times> mesgq \<times> timers \<Rightarrow> (kernel \<times> mesgq \<times> timers) option" where
  "timer_ticks [] s = Some s"
| "timer_ticks (c # cs) s = do { s \<leftarrow> timer_tick [c, c, c] s; timer_ticks cs s }"

subsection \<open>Before the end and at the end\<close>

text \<open>\<open>n\<close> cycles into a sleep of \<open>t\<close>: the timer is alone in the list and has the rest to run.\<close>

definition sleeping :: "u32 \<Rightarrow> u64 \<Rightarrow> ptr \<Rightarrow> ptr \<Rightarrow> nat \<Rightarrow> timers \<Rightarrow> bool" where
  "sleeping count t mqa timer n s \<longleftrightarrow>
     timer_list s [timer] \<and> unat (tm_value s timer) + n = unat t \<and> osTimerCounter s = count + of_nat n \<and>
     tm_interval s timer = 0 \<and> tm_mq s timer = mqa \<and> tm_msg s timer = 0 \<and> osCompare s = count + ucast t"

lemma sleeping_start:
  assumes "timer_list s []" "timer \<noteq> NULL" "timer \<noteq> osTimerList s" "0 < t"
  shows "\<exists>s'. osSetTimer count timer t 0 mqa 0 s = Some s' \<and> sleeping count t mqa timer 0 s'"
proof -
  obtain ts' s1 where s1: "osSetTimer count timer t 0 mqa 0 s = Some s1" "timer_list s1 ts'"
    "dues (tm_value s1) 0 ts' = insert_due (timer, unat t) []" "tm_interval s1 = (tm_interval s)(timer := 0)"
    "tm_mq s1 = (tm_mq s)(timer := mqa)" "tm_msg s1 = (tm_msg s)(timer := 0)"
    "if hd ts' = timer then osTimerCounter s1 = count \<and> osCompare s1 = count + ucast t
     else osTimerCounter s1 = osTimerCounter s \<and> osCompare s1 = osCompare s"
    using osSetTimer_eq [OF assms(1), of timer count t 0 mqa 0] assms(2-4) by auto
  have ts': "ts' = [timer]" using arg_cong [OF s1(3), of "map fst"] by (simp add: insert_due_def)
  then have "tm_value s1 timer = t" using s1(3) by (simp add: insert_due_def word_unat_eq_iff)
  then show ?thesis using s1 ts' by (simp add: sleeping_def)
qed

lemma elapsed_cycles:
  fixes count :: u32
  assumes "m \<le> n" "n - m < 2 ^ 32"
  shows "unat (count + of_nat n - (count + of_nat m)) = n - m"
proof -
  have "count + of_nat n - (count + of_nat m) = of_nat (n - m)" using assms(1) by (simp add: of_nat_diff)
  then show ?thesis using assms(2) by (simp add: unat_of_nat take_bit_nat_eq_self)
qed

lemma ucast_add_down: "(ucast (x + y :: u64) :: u32) = ucast x + ucast y"
  by (simp add: word_uint_eq_iff unsigned_ucast_eq take_bit_eq_mod uint_word_ariths mod_mod_cancel mod_simps)

lemma early_tick:
  assumes "sleeping count t mqa timer m s" "m \<le> n" "n - m < 2 ^ 32" "n < unat t"
  shows "\<exists>s'. osTimerInterrupt [count + of_nat n, count + of_nat n, count + of_nat n] s = Some ([], s') \<and>
    sleeping count t mqa timer n s'"
proof -
  let ?c = "count + of_nat n" and ?v = "tm_value s timer"
  have l: "timer_list s [timer]" and v: "unat ?v + m = unat t" and c: "osTimerCounter s = count + of_nat m"
    and rest: "tm_interval s timer = 0" "tm_mq s timer = mqa" "tm_msg s timer = 0"
    using assms(1) by (simp_all add: sleeping_def)
  define e :: u64 where "e = ucast (?c - osTimerCounter s)"
  have e: "unat e = n - m"
    using elapsed_cycles [OF assms(2,3), of count] assms(3) by (simp add: e_def c unsigned_ucast_eq take_bit_nat_eq_self)
  have less: "e < ?v" using e v assms(2,4) by (simp add: word_less_nat_alt)
  then have v': "unat (?v - e) + n = unat t" using e v assms(2) by (simp add: unat_sub_if' word_less_nat_alt)
  have sum: "ucast t = ucast (?v - e) + (of_nat n :: u32)"
    using arg_cong [OF v' [symmetric], of "of_nat :: nat \<Rightarrow> u32"] by simp
  have "(ucast (ucast ?c :: u64) :: u32) = ?c" by (rule bit_word_eqI) (simp add: bit_ucast_iff)
  then have cmp: "ucast (ucast ?c + (?v - e)) = count + ucast t"
    unfolding ucast_add_down sum by (simp add: ac_simps)
  have n: "tm_next s (osTimerList s) = timer" "timer \<noteq> osTimerList s" using l by (auto simp: timer_list_def)
  have "osTimerInterrupt [?c, ?c, ?c] s =
      Some ([], osSetTimerIntr ?c (?v - e) (s\<lparr>osTimerCounter := ?c, tm_value := (tm_value s)(timer := ?v - e)\<rparr>))"
    using n less by (simp add: osTimerInterrupt_def interrupt_loop.simps Let_def flip: e_def)
  moreover have "sleeping count t mqa timer n (osSetTimerIntr ?c (?v - e) (s\<lparr>osTimerCounter := ?c, tm_value := (tm_value s)(timer := ?v - e)\<rparr>))"
    using l v' rest cmp by (simp add: sleeping_def timer_list_def osSetTimerIntr_def)
  ultimately show ?thesis by blast
qed

lemma last_tick:
  assumes "sleeping count t mqa timer m s" "m \<le> n" "n - m < 2 ^ 32" "unat t \<le> n" "mqa \<noteq> NULL"
  shows "\<exists>s'. osTimerInterrupt [count + of_nat n, count + of_nat n, count + of_nat n] s = Some ([(mqa, 0)], s') \<and>
    timer_list s' []"
proof -
  let ?c = "count + of_nat n"
  have s: "timer_list s [timer]" "unat (tm_value s timer) + m = unat t" "osTimerCounter s = count + of_nat m"
    "tm_interval s timer = 0" "tm_mq s timer = mqa" "tm_msg s timer = 0"
    using assms(1) by (simp_all add: sleeping_def)
  have "unat (ucast (?c - osTimerCounter s) :: u64) = n - m"
    using elapsed_cycles [OF assms(2,3), of count] assms(3) by (simp add: s(3) unsigned_ucast_eq take_bit_nat_eq_self)
  then have "tm_value s timer \<le> ucast (?c - osTimerCounter s)" using s(2) assms(4) by (simp add: word_le_nat_alt)
  then show ?thesis
    using interrupt_fires [OF s(1), of ?c] s(4-6) assms(5) by (auto simp: numeral_3_eq_3)
qed

text \<open>\<open>paced m ns\<close>: interrupts \<open>ns\<close> cycles into the sleep come in this order, and less than a turn of the counter apart.\<close>

fun paced :: "nat \<Rightarrow> nat list \<Rightarrow> bool" where
  "paced m [] = True"
| "paced m (n # ns) = (m \<le> n \<and> n - m < 2 ^ 32 \<and> paced n ns)"

lemma paced_append: "paced m (ns @ [n]) \<longleftrightarrow> paced m ns \<and> last (m # ns) \<le> n \<and> n - last (m # ns) < 2 ^ 32"
  by (induction ns arbitrary: m) auto

lemma early_ticks:
  assumes "sleeping count t mqa timer m s" "paced m ns" "\<forall>i\<in>set ns. i < unat t"
  shows "\<exists>s'. timer_ticks (map (\<lambda>i. count + of_nat i) ns) (k, mq, s) = Some (k, mq, s') \<and>
    sleeping count t mqa timer (last (m # ns)) s'"
  using assms
proof (induction ns arbitrary: m s)
  case (Cons n ns)
  then obtain s1 where s1: "osTimerInterrupt [count + of_nat n, count + of_nat n, count + of_nat n] s = Some ([], s1)"
    "sleeping count t mqa timer n s1"
    using early_tick [of count t mqa timer m s n] by auto
  then have "timer_tick [count + of_nat n, count + of_nat n, count + of_nat n] (k, mq, s) = Some (k, mq, s1)"
    by (simp add: timer_tick_def)
  moreover obtain s2 where "timer_ticks (map (\<lambda>i. count + of_nat i) ns) (k, mq, s1) = Some (k, mq, s2)"
    "sleeping count t mqa timer (last (n # ns)) s2"
    using Cons.IH [OF s1(2)] Cons.prems by auto
  ultimately show ?case by auto
qed simp

lemma park_runq: "park k q = Some k' \<Longrightarrow> k_runq k' = k_runq k"
  by (auto simp: park_def osEnqueueAndYield_def osEnqueueThread_def osDispatchThread_def osPopThread_def Let_def
      split: if_splits Option.bind_splits)

lemma new_queue:
  assumes "sched_inv k rs" "mqa \<noteq> NULL" "{mqa, mqa + 4} \<inter> set (k_tail k # k_runq k # k_running k # rs) = {}"
    "osCreateMesgQueue k mqa [msg] 1 = (k', mq)"
  shows "sched_inv k' rs" "wait_queue k' mqa [] rs" "k_running k' = k_running k" "k_runq k' = k_runq k" "mq_wf mq"
    "mq_list mq = []" "mq_addr mq = mqa" "msgCount mq = 1"
proof -
  have k': "k' = k\<lparr>k_next := (k_next k)(mqa := k_tail k, mqa + 4 := k_tail k)\<rparr>"
    and mq: "mq = \<lparr>mq_addr = mqa, validCount = 0, mq_first = 0, msgCount = 1, mq_msg = [msg]\<rparr>"
    using assms(4) by (simp_all add: osCreateMesgQueue_def)
  have q: "tqueue k (k_runq k) rs" using assms(1) by (simp add: sched_inv_def)
  have "tqueue k' (k_runq k) rs"
    by (rule tqueue_cong [OF q]) (use assms(3) in \<open>auto simp: k'\<close>)
  then show "sched_inv k' rs" using assms(1) by (simp add: sched_inv_def k')
  show "wait_queue k' mqa [] rs"
    using q assms(2,3) by (auto simp: wait_queue_def tqueue_def by_priority_def k')
  show "k_running k' = k_running k" "k_runq k' = k_runq k" "mq_wf mq" "mq_list mq = []" "mq_addr mq = mqa" "msgCount mq = 1"
    by (simp_all add: k' mq mq_wf_def mq_list_def)
qed

subsection \<open>Properties\<close>

text \<open>Claim C36: a sleep parks the thread and programs the timer interrupt for its end.  With no other timer,
  interrupts before the end, however many, post nothing, leave the thread parked and keep the interrupt
  programmed for the same moment; the first interrupt at the end or later posts the message and
  makes the thread runnable, with the timer gone; and when the thread runs again, \<^verbatim>\<open>csleep\<close> returns.\<close>

theorem csleep_wakes_in_time:
  assumes "timer_list tms []" "timer \<noteq> NULL" "timer \<noteq> osTimerList tms" "0 < t"
    "sched_inv k (r # rs)" "mqa \<noteq> NULL" "{mqa, mqa + 4} \<inter> set (k_tail k # k_runq k # k_running k # r # rs) = {}"
    "paced 0 (ns @ [n])" "\<forall>i\<in>set ns. i < unat t" "unat t \<le> n"
  shows "\<exists>k1 mq tms1 tms2 k2 mq2 tms3 ys.
    csleep count t mqa msg timer k tms = Some (RecvParked, k1, mq, tms1) \<and> k_running k1 = r \<and> sched_inv k1 rs \<and>
    k_state k1 (k_running k) = OS_STATE_WAITING \<and> osCompare tms1 = count + ucast t \<and>
    timer_ticks (map (\<lambda>i. count + of_nat i) ns) (k1, mq, tms1) = Some (k1, mq, tms2) \<and> osCompare tms2 = count + ucast t \<and>
    timer_ticks [count + of_nat n] (k1, mq, tms2) = Some (k2, mq2, tms3) \<and> timer_list tms3 [] \<and>
    sched_inv k2 ys \<and> insert (k_running k2) (set ys) = insert (k_running k) (insert r (set rs)) \<and>
    (\<forall>k3 zs. sched_inv k3 zs \<and> wait_queue k3 (mqa + 4) [] zs \<longrightarrow>
       (\<exists>k4 mq4. osRecvMesg k3 mq2 OS_MESG_BLOCK = Some (Received 0, k4, mq4)))"
proof -
  let ?me = "k_running k"
  obtain k0 mq where c: "osCreateMesgQueue k mqa [msg] 1 = (k0, mq)" by (cases "osCreateMesgQueue k mqa [msg] 1")
  note nq = new_queue [OF assms(5,6,7) c]
  have mt: "mq_mtqueue mq = mqa" "mq_fullqueue mq = mqa + 4" by (simp_all add: mq_mtqueue_def mq_fullqueue_def nq(7))
  have e: "MQ_IS_EMPTY mq" using nq(5,6) by (simp add: mq_empty_iff)
  obtain k1 where k1: "park k0 mqa = Some k1" "k_running k1 = r" "sched_inv k1 rs" "tqueue k1 mqa [?me]"
    "k_state k1 ?me = OS_STATE_WAITING"
    using park_inv [OF nq(1,2)] nq(3) by (auto simp: insert_pri_def)
  have recv: "osRecvMesg k0 mq OS_MESG_BLOCK = Some (RecvParked, k1, mq)"
    using e k1(1) by (simp add: osRecvMesg_def mt os_mesg_defs)
  obtain tms1 where t1: "osSetTimer count timer t 0 mqa 0 tms = Some tms1" "sleeping count t mqa timer 0 tms1"
    using sleeping_start [OF assms(1-4)] by blast
  have sleep: "csleep count t mqa msg timer k tms = Some (RecvParked, k1, mq, tms1)"
    by (simp add: csleep_def c t1(1) recv)
  have p: "paced 0 ns" "last (0 # ns) \<le> n" "n - last (0 # ns) < 2 ^ 32" using assms(8) by (simp_all add: paced_append)
  obtain tms2 where t2: "timer_ticks (map (\<lambda>i. count + of_nat i) ns) (k1, mq, tms1) = Some (k1, mq, tms2)"
    "sleeping count t mqa timer (last (0 # ns)) tms2"
    using early_ticks [OF t1(2) p(1) assms(9)] by blast
  obtain tms3 where t3: "osTimerInterrupt [count + of_nat n, count + of_nat n, count + of_nat n] tms2 = Some ([(mqa, 0)], tms3)"
    "timer_list tms3 []"
    using last_tick [OF t2(2) p(2,3) assms(10,6)] by blast
  have run: "?me \<notin> set (r # rs)" using assms(5) by (simp add: sched_inv_def)
  have "wait_queue k1 (mq_mtqueue mq) [?me] rs"
    using k1(2,4,5) run assms(5,7) park_runq [OF k1(1)] nq(4) by (auto simp: wait_queue_def sched_inv_def mt)
  from wake_one_inv [OF k1(3) this] obtain k2 ys where k2: "wake_one k1 mqa = Some k2" "sched_inv k2 ys"
    "insert (k_running k2) (set ys) = insert r (insert ?me (set rs))"
    by (auto simp: mt k1(2))
  have nf: "\<not> MQ_IS_FULL mq" using nq(5,6,8) by (simp add: mq_full_iff)
  have last: "timer_ticks [count + of_nat n] (k1, mq, tms2) = Some (k2, mq_put 0 mq, tms3)"
    using nf k2(1) by (simp add: timer_tick_def t3(1) osSendMesg_def mt nq(7))
  have m2: "mq_wf (mq_put 0 mq)" "mq_list (mq_put 0 mq) = [0]"
    using mq_wf_put [OF nq(5) nf] mq_list_put [OF nq(5) nf] nq(6) by simp_all
  have "\<exists>k4 mq4. osRecvMesg k3 (mq_put 0 mq) OS_MESG_BLOCK = Some (Received 0, k4, mq4)"
    if w: "sched_inv k3 zs" "wait_queue k3 (mqa + 4) [] zs" for k3 zs
  proof -
    have "\<not> MQ_IS_EMPTY (mq_put 0 mq)" using m2 by (simp add: mq_empty_iff)
    moreover have "mq_front (mq_put 0 mq) = 0" using mq_take_list [OF m2(1) calculation] m2(2) by simp
    moreover obtain k4 where "wake_one k3 (mqa + 4) = Some k4" using wake_one_inv [OF w] by blast
    ultimately show ?thesis by (simp add: osRecvMesg_def mt)
  qed
  then show ?thesis
    using sleep k1 t1(2) t2 last t3(2) k2(2,3) by (auto simp: sleeping_def insert_commute)
qed

theorem csleep_wakes_in_time_witness:
  "\<exists>k1 mq tms1 tms2 k2 mq2 tms3. csleep 100 750 0x90 9 80 sample_kernel (osTimerServicesInit sample_timers) = Some (RecvParked, k1, mq, tms1) \<and>
     k_running k1 = 0x200 \<and> timer_ticks [400, 800] (k1, mq, tms1) = Some (k1, mq, tms2) \<and>
     timer_ticks [850] (k1, mq, tms2) = Some (k2, mq2, tms3) \<and> timer_list tms3 []"
proof -
  have 1: "(80::ptr) \<noteq> NULL" "80 \<noteq> osTimerList (osTimerServicesInit sample_timers)" "(0::u64) < 750"
    by (simp_all add: sample_timers_def osTimerServicesInit_def Let_def)
  have 2: "(0x90::ptr) \<noteq> NULL" "{0x90, 0x90 + 4} \<inter> set (k_tail sample_kernel # k_runq sample_kernel # k_running sample_kernel # 0x200 # []) = {}"
    by (simp_all add: sample_kernel_def)
  have 3: "paced 0 ([300, 700] @ [750])" "\<forall>i\<in>set [300, 700]. i < unat (750 :: u64)" "unat (750 :: u64) \<le> 750"
    by simp_all
  from csleep_wakes_in_time [OF sample_timers_list(2) 1 sample_queues(4) 2 3, of 100 9] show ?thesis
    by simp blast
qed

end
