(* ===== verification/Gbi.thy ===== *)
theory Gbi
  imports Prelude
begin

section \<open>Display list commands\<close>

text \<open>
  The commands of \<^verbatim>\<open>include/PR/gbi.h\<close> that the text printer writes, as built for the first version of
  the graphics microcode (\<^verbatim>\<open>F3DEX_GBI\<close>).  A command is the pair of its two words; a macro that
  writes several commands is the list of them, in the order in which it writes.
\<close>

type_synonym gfx = "u32 \<times> u32"

definition SHIFTL :: "u32 \<Rightarrow> nat \<Rightarrow> nat \<Rightarrow> u32" where
  "SHIFTL v s w = push_bit s (v AND mask w)"

subsection \<open>Constants\<close>

definition G_IMMFIRST :: u32 where "G_IMMFIRST = -65"
definition G_SETOTHERMODE_H :: u32 where "G_SETOTHERMODE_H = G_IMMFIRST - 5"
definition G_SETOTHERMODE_L :: u32 where "G_SETOTHERMODE_L = G_IMMFIRST - 6"
definition G_RDPHALF_1 :: u32 where "G_RDPHALF_1 = G_IMMFIRST - 11"
definition G_RDPHALF_2 :: u32 where "G_RDPHALF_2 = G_IMMFIRST - 12"
definition G_SETTIMG :: u32 where "G_SETTIMG = 0xfd"
definition G_SETCOMBINE :: u32 where "G_SETCOMBINE = 0xfc"
definition G_SETPRIMCOLOR :: u32 where "G_SETPRIMCOLOR = 0xfa"
definition G_SETTILE :: u32 where "G_SETTILE = 0xf5"
definition G_LOADTILE :: u32 where "G_LOADTILE = 0xf4"
definition G_LOADBLOCK :: u32 where "G_LOADBLOCK = 0xf3"
definition G_SETTILESIZE :: u32 where "G_SETTILESIZE = 0xf2"
definition G_LOADTLUT :: u32 where "G_LOADTLUT = 0xf0"
definition G_RDPTILESYNC :: u32 where "G_RDPTILESYNC = 0xe8"
definition G_RDPPIPESYNC :: u32 where "G_RDPPIPESYNC = 0xe7"
definition G_RDPLOADSYNC :: u32 where "G_RDPLOADSYNC = 0xe6"
definition G_TEXRECT :: u32 where "G_TEXRECT = 0xe4"

lemmas opcode_defs = G_IMMFIRST_def G_SETOTHERMODE_H_def G_SETOTHERMODE_L_def G_RDPHALF_1_def G_RDPHALF_2_def
  G_SETTIMG_def G_SETCOMBINE_def G_SETPRIMCOLOR_def G_SETTILE_def G_LOADTILE_def G_LOADBLOCK_def
  G_SETTILESIZE_def G_LOADTLUT_def G_RDPTILESYNC_def G_RDPPIPESYNC_def G_RDPLOADSYNC_def G_TEXRECT_def

definition G_TX_LOADTILE :: u32 where "G_TX_LOADTILE = 7"
definition G_TX_RENDERTILE :: u32 where "G_TX_RENDERTILE = 0"
definition G_TX_NOMIRROR :: u32 where "G_TX_NOMIRROR = 0"
definition G_TX_WRAP :: u32 where "G_TX_WRAP = 0"
definition G_TX_NOMASK :: u32 where "G_TX_NOMASK = 0"
definition G_TX_NOLOD :: u32 where "G_TX_NOLOD = 0"
definition G_TX_DXT_FRAC :: nat where "G_TX_DXT_FRAC = 11"
definition G_TX_LDBLK_MAX_TXL :: u32 where "G_TX_LDBLK_MAX_TXL = 2047"
definition G_TEXTURE_IMAGE_FRAC :: nat where "G_TEXTURE_IMAGE_FRAC = 2"
definition G_IM_FMT_RGBA :: u32 where "G_IM_FMT_RGBA = 0"
definition G_IM_FMT_CI :: u32 where "G_IM_FMT_CI = 2"
definition G_IM_SIZ_4b :: u32 where "G_IM_SIZ_4b = 0"
definition G_IM_SIZ_8b :: u32 where "G_IM_SIZ_8b = 1"
definition G_IM_SIZ_16b :: u32 where "G_IM_SIZ_16b = 2"

lemmas texture_defs = G_TX_LOADTILE_def G_TX_RENDERTILE_def G_TX_NOMIRROR_def G_TX_WRAP_def G_TX_NOMASK_def
  G_TX_NOLOD_def G_TX_DXT_FRAC_def G_TX_LDBLK_MAX_TXL_def G_TEXTURE_IMAGE_FRAC_def G_IM_FMT_RGBA_def
  G_IM_FMT_CI_def G_IM_SIZ_4b_def G_IM_SIZ_8b_def G_IM_SIZ_16b_def

definition G_MDSFT_ALPHACOMPARE :: nat where "G_MDSFT_ALPHACOMPARE = 0"
definition G_MDSFT_ZSRCSEL :: nat where "G_MDSFT_ZSRCSEL = 2"
definition G_MDSFT_RENDERMODE :: nat where "G_MDSFT_RENDERMODE = 3"
definition G_MDSFT_ALPHADITHER :: nat where "G_MDSFT_ALPHADITHER = 4"
definition G_MDSFT_RGBDITHER :: nat where "G_MDSFT_RGBDITHER = 6"
definition G_MDSFT_COMBKEY :: nat where "G_MDSFT_COMBKEY = 8"
definition G_MDSFT_TEXTCONV :: nat where "G_MDSFT_TEXTCONV = 9"
definition G_MDSFT_TEXTFILT :: nat where "G_MDSFT_TEXTFILT = 12"
definition G_MDSFT_TEXTLUT :: nat where "G_MDSFT_TEXTLUT = 14"
definition G_MDSFT_TEXTLOD :: nat where "G_MDSFT_TEXTLOD = 16"
definition G_MDSFT_TEXTDETAIL :: nat where "G_MDSFT_TEXTDETAIL = 17"
definition G_MDSFT_TEXTPERSP :: nat where "G_MDSFT_TEXTPERSP = 19"
definition G_MDSFT_CYCLETYPE :: nat where "G_MDSFT_CYCLETYPE = 20"
definition G_MDSFT_PIPELINE :: nat where "G_MDSFT_PIPELINE = 23"

lemmas mdsft_defs = G_MDSFT_ALPHACOMPARE_def G_MDSFT_ZSRCSEL_def G_MDSFT_RENDERMODE_def G_MDSFT_ALPHADITHER_def
  G_MDSFT_RGBDITHER_def G_MDSFT_COMBKEY_def G_MDSFT_TEXTCONV_def G_MDSFT_TEXTFILT_def G_MDSFT_TEXTLUT_def
  G_MDSFT_TEXTLOD_def G_MDSFT_TEXTDETAIL_def G_MDSFT_TEXTPERSP_def G_MDSFT_CYCLETYPE_def G_MDSFT_PIPELINE_def

definition G_PM_NPRIMITIVE :: u32 where "G_PM_NPRIMITIVE = push_bit G_MDSFT_PIPELINE 0"
definition G_CYC_1CYCLE :: u32 where "G_CYC_1CYCLE = push_bit G_MDSFT_CYCLETYPE 0"
definition G_CYC_2CYCLE :: u32 where "G_CYC_2CYCLE = push_bit G_MDSFT_CYCLETYPE 1"
definition G_TP_NONE :: u32 where "G_TP_NONE = push_bit G_MDSFT_TEXTPERSP 0"
definition G_TD_CLAMP :: u32 where "G_TD_CLAMP = push_bit G_MDSFT_TEXTDETAIL 0"
definition G_TL_TILE :: u32 where "G_TL_TILE = push_bit G_MDSFT_TEXTLOD 0"
definition G_TT_RGBA16 :: u32 where "G_TT_RGBA16 = push_bit G_MDSFT_TEXTLUT 2"
definition G_TT_IA16 :: u32 where "G_TT_IA16 = push_bit G_MDSFT_TEXTLUT 3"
definition G_TF_BILERP :: u32 where "G_TF_BILERP = push_bit G_MDSFT_TEXTFILT 2"
definition G_TC_FILT :: u32 where "G_TC_FILT = push_bit G_MDSFT_TEXTCONV 6"
definition G_CK_NONE :: u32 where "G_CK_NONE = push_bit G_MDSFT_COMBKEY 0"
definition G_CD_DISABLE :: u32 where "G_CD_DISABLE = push_bit G_MDSFT_RGBDITHER 3"
definition G_AD_DISABLE :: u32 where "G_AD_DISABLE = push_bit G_MDSFT_ALPHADITHER 3"
definition G_AC_NONE :: u32 where "G_AC_NONE = push_bit G_MDSFT_ALPHACOMPARE 0"
definition G_ZS_PRIM :: u32 where "G_ZS_PRIM = push_bit G_MDSFT_ZSRCSEL 1"

text \<open>The render modes; the argument \<open>clk\<close> of a mode selects the shifts of its cycle.\<close>

definition IM_RD :: u32 where "IM_RD = 0x40"
definition CVG_DST_FULL :: u32 where "CVG_DST_FULL = 0x200"
definition ZMODE_OPA :: u32 where "ZMODE_OPA = 0"
definition FORCE_BL :: u32 where "FORCE_BL = 0x4000"
definition G_BL_CLR_IN :: u32 where "G_BL_CLR_IN = 0"
definition G_BL_CLR_MEM :: u32 where "G_BL_CLR_MEM = 1"
definition G_BL_1MA :: u32 where "G_BL_1MA = 0"
definition G_BL_A_IN :: u32 where "G_BL_A_IN = 0"
definition G_BL_1 :: u32 where "G_BL_1 = 2"
definition G_BL_0 :: u32 where "G_BL_0 = 3"

definition GBL_c1 :: "u32 \<Rightarrow> u32 \<Rightarrow> u32 \<Rightarrow> u32 \<Rightarrow> u32" where
  "GBL_c1 m1a m1b m2a m2b = push_bit 30 m1a OR push_bit 26 m1b OR push_bit 22 m2a OR push_bit 18 m2b"

definition GBL_c2 :: "u32 \<Rightarrow> u32 \<Rightarrow> u32 \<Rightarrow> u32 \<Rightarrow> u32" where
  "GBL_c2 m1a m1b m2a m2b = push_bit 28 m1a OR push_bit 24 m1b OR push_bit 20 m2a OR push_bit 16 m2b"

definition RM_XLU_SURF :: "(u32 \<Rightarrow> u32 \<Rightarrow> u32 \<Rightarrow> u32 \<Rightarrow> u32) \<Rightarrow> u32" where
  "RM_XLU_SURF GBL = IM_RD OR CVG_DST_FULL OR FORCE_BL OR ZMODE_OPA OR GBL G_BL_CLR_IN G_BL_A_IN G_BL_CLR_MEM G_BL_1MA"

definition G_RM_XLU_SURF :: u32 where "G_RM_XLU_SURF = RM_XLU_SURF GBL_c1"
definition G_RM_XLU_SURF2 :: u32 where "G_RM_XLU_SURF2 = RM_XLU_SURF GBL_c2"
definition G_RM_PASS :: u32 where "G_RM_PASS = GBL_c1 G_BL_CLR_IN G_BL_0 G_BL_CLR_IN G_BL_1"

text \<open>The inputs of the color combiner; the macro pastes the prefixes \<^verbatim>\<open>G_CCMUX_\<close> and \<^verbatim>\<open>G_ACMUX_\<close>.\<close>

datatype ccin = COMBINED | TEXEL0 | TEXEL1 | PRIMITIVE | CC0

primrec G_CCMUX :: "ccin \<Rightarrow> u32" where
  "G_CCMUX COMBINED = 0"
| "G_CCMUX TEXEL0 = 1"
| "G_CCMUX TEXEL1 = 2"
| "G_CCMUX PRIMITIVE = 3"
| "G_CCMUX CC0 = 31"

primrec G_ACMUX :: "ccin \<Rightarrow> u32" where
  "G_ACMUX COMBINED = 0"
| "G_ACMUX TEXEL0 = 1"
| "G_ACMUX TEXEL1 = 2"
| "G_ACMUX PRIMITIVE = 3"
| "G_ACMUX CC0 = 7"

type_synonym cc_mode = "ccin \<times> ccin \<times> ccin \<times> ccin \<times> ccin \<times> ccin \<times> ccin \<times> ccin"

definition G_CC_MODULATEIDECALA_PRIM :: cc_mode where
  "G_CC_MODULATEIDECALA_PRIM = (TEXEL0, CC0, PRIMITIVE, CC0, CC0, CC0, CC0, TEXEL0)"

definition G_CC_DECALRGBA :: cc_mode where
  "G_CC_DECALRGBA = (CC0, CC0, CC0, TEXEL0, CC0, CC0, CC0, TEXEL0)"

definition G_CC_INTERFERENCE :: cc_mode where
  "G_CC_INTERFERENCE = (TEXEL0, CC0, TEXEL1, CC0, TEXEL0, CC0, TEXEL1, CC0)"

definition G_CC_PASS2 :: cc_mode where
  "G_CC_PASS2 = (CC0, CC0, CC0, COMBINED, CC0, CC0, CC0, COMBINED)"

subsection \<open>Commands\<close>

definition gDPNoParam :: "u32 \<Rightarrow> gfx list" where
  "gDPNoParam cmd = [(SHIFTL cmd 24 8, 0)]"

definition gDPPipeSync :: "gfx list" where "gDPPipeSync = gDPNoParam G_RDPPIPESYNC"
definition gDPTileSync :: "gfx list" where "gDPTileSync = gDPNoParam G_RDPTILESYNC"
definition gDPLoadSync :: "gfx list" where "gDPLoadSync = gDPNoParam G_RDPLOADSYNC"

definition gImmp1 :: "u32 \<Rightarrow> u32 \<Rightarrow> gfx list" where
  "gImmp1 c p0 = [(SHIFTL c 24 8, p0)]"

definition gSPSetOtherMode :: "u32 \<Rightarrow> nat \<Rightarrow> u32 \<Rightarrow> u32 \<Rightarrow> gfx list" where
  "gSPSetOtherMode cmd sft len dat = [(SHIFTL cmd 24 8 OR SHIFTL (of_nat sft) 8 8 OR SHIFTL len 0 8, dat)]"

definition gDPSetCycleType :: "u32 \<Rightarrow> gfx list" where
  "gDPSetCycleType typ = gSPSetOtherMode G_SETOTHERMODE_H G_MDSFT_CYCLETYPE 2 typ"

definition gDPSetTextureLUT :: "u32 \<Rightarrow> gfx list" where
  "gDPSetTextureLUT typ = gSPSetOtherMode G_SETOTHERMODE_H G_MDSFT_TEXTLUT 2 typ"

definition gDPSetRenderMode :: "u32 \<Rightarrow> u32 \<Rightarrow> gfx list" where
  "gDPSetRenderMode c0 c1 = gSPSetOtherMode G_SETOTHERMODE_L G_MDSFT_RENDERMODE 29 (c0 OR c1)"

definition gSetImage :: "u32 \<Rightarrow> u32 \<Rightarrow> u32 \<Rightarrow> u32 \<Rightarrow> ptr \<Rightarrow> gfx list" where
  "gSetImage cmd fmt siz wid i =
     [(SHIFTL cmd 24 8 OR SHIFTL fmt 21 3 OR SHIFTL siz 19 2 OR SHIFTL (wid - 1) 0 12, i)]"

definition gDPSetTextureImage :: "u32 \<Rightarrow> u32 \<Rightarrow> u32 \<Rightarrow> ptr \<Rightarrow> gfx list" where
  "gDPSetTextureImage f s w i = gSetImage G_SETTIMG f s w i"

definition GCCc0w0 :: "u32 \<Rightarrow> u32 \<Rightarrow> u32 \<Rightarrow> u32 \<Rightarrow> u32" where
  "GCCc0w0 saRGB0 mRGB0 saA0 mA0 = SHIFTL saRGB0 20 4 OR SHIFTL mRGB0 15 5 OR SHIFTL saA0 12 3 OR SHIFTL mA0 9 3"

definition GCCc1w0 :: "u32 \<Rightarrow> u32 \<Rightarrow> u32" where
  "GCCc1w0 saRGB1 mRGB1 = SHIFTL saRGB1 5 4 OR SHIFTL mRGB1 0 5"

definition GCCc0w1 :: "u32 \<Rightarrow> u32 \<Rightarrow> u32 \<Rightarrow> u32 \<Rightarrow> u32" where
  "GCCc0w1 sbRGB0 aRGB0 sbA0 aA0 = SHIFTL sbRGB0 28 4 OR SHIFTL aRGB0 15 3 OR SHIFTL sbA0 12 3 OR SHIFTL aA0 9 3"

definition GCCc1w1 :: "u32 \<Rightarrow> u32 \<Rightarrow> u32 \<Rightarrow> u32 \<Rightarrow> u32 \<Rightarrow> u32 \<Rightarrow> u32" where
  "GCCc1w1 sbRGB1 saA1 mA1 aRGB1 sbA1 aA1 =
     SHIFTL sbRGB1 24 4 OR SHIFTL saA1 21 3 OR SHIFTL mA1 18 3 OR SHIFTL aRGB1 6 3 OR SHIFTL sbA1 3 3 OR SHIFTL aA1 0 3"

definition gDPSetCombineMode :: "cc_mode \<Rightarrow> cc_mode \<Rightarrow> gfx list" where
  "gDPSetCombineMode = (\<lambda>(a0, b0, c0, d0, Aa0, Ab0, Ac0, Ad0) (a1, b1, c1, d1, Aa1, Ab1, Ac1, Ad1).
     [(SHIFTL G_SETCOMBINE 24 8 OR
         SHIFTL (GCCc0w0 (G_CCMUX a0) (G_CCMUX c0) (G_ACMUX Aa0) (G_ACMUX Ac0) OR GCCc1w0 (G_CCMUX a1) (G_CCMUX c1)) 0 24,
       GCCc0w1 (G_CCMUX b0) (G_CCMUX d0) (G_ACMUX Ab0) (G_ACMUX Ad0) OR
         GCCc1w1 (G_CCMUX b1) (G_ACMUX Aa1) (G_ACMUX Ac1) (G_CCMUX d1) (G_ACMUX Ab1) (G_ACMUX Ad1))])"

definition gDPSetColor :: "u32 \<Rightarrow> u32 \<Rightarrow> gfx list" where
  "gDPSetColor c d = [(SHIFTL c 24 8, d)]"

definition gDPLoadTileGeneric :: "u32 \<Rightarrow> u32 \<Rightarrow> u32 \<Rightarrow> u32 \<Rightarrow> u32 \<Rightarrow> u32 \<Rightarrow> gfx list" where
  "gDPLoadTileGeneric c tile uls ult lrs lrt =
     [(SHIFTL c 24 8 OR SHIFTL uls 12 12 OR SHIFTL ult 0 12, SHIFTL tile 24 3 OR SHIFTL lrs 12 12 OR SHIFTL lrt 0 12)]"

definition gDPSetTileSize :: "u32 \<Rightarrow> u32 \<Rightarrow> u32 \<Rightarrow> u32 \<Rightarrow> u32 \<Rightarrow> gfx list" where
  "gDPSetTileSize t uls ult lrs lrt = gDPLoadTileGeneric G_SETTILESIZE t uls ult lrs lrt"

definition gDPLoadTile :: "u32 \<Rightarrow> u32 \<Rightarrow> u32 \<Rightarrow> u32 \<Rightarrow> u32 \<Rightarrow> gfx list" where
  "gDPLoadTile t uls ult lrs lrt = gDPLoadTileGeneric G_LOADTILE t uls ult lrs lrt"

definition gDPSetTile ::
  "u32 \<Rightarrow> u32 \<Rightarrow> u32 \<Rightarrow> u32 \<Rightarrow> u32 \<Rightarrow> u32 \<Rightarrow> u32 \<Rightarrow> u32 \<Rightarrow> u32 \<Rightarrow> u32 \<Rightarrow> u32 \<Rightarrow> u32 \<Rightarrow> gfx list" where
  "gDPSetTile fmt siz lin tmem tile palette cmt maskt shiftt cms masks shifts =
     [(SHIFTL G_SETTILE 24 8 OR SHIFTL fmt 21 3 OR SHIFTL siz 19 2 OR SHIFTL lin 9 9 OR SHIFTL tmem 0 9,
       SHIFTL tile 24 3 OR SHIFTL palette 20 4 OR SHIFTL cmt 18 2 OR SHIFTL maskt 14 4 OR SHIFTL shiftt 10 4 OR
         SHIFTL cms 8 2 OR SHIFTL masks 4 4 OR SHIFTL shifts 0 4)]"

definition TXL2WORDS_4b :: "u32 \<Rightarrow> u32" where
  "TXL2WORDS_4b txls = max 1 (txls div 16)"

definition CALC_DXT_4b :: "u32 \<Rightarrow> u32" where
  "CALC_DXT_4b wid = (push_bit G_TX_DXT_FRAC 1 + TXL2WORDS_4b wid - 1) div TXL2WORDS_4b wid"

definition gDPLoadBlock :: "u32 \<Rightarrow> u32 \<Rightarrow> u32 \<Rightarrow> u32 \<Rightarrow> u32 \<Rightarrow> gfx list" where
  "gDPLoadBlock tile uls ult lrs dxt =
     [(SHIFTL G_LOADBLOCK 24 8 OR SHIFTL uls 12 12 OR SHIFTL ult 0 12,
       SHIFTL tile 24 3 OR SHIFTL (min lrs G_TX_LDBLK_MAX_TXL) 12 12 OR SHIFTL dxt 0 12)]"

definition gDPLoadTextureBlock_4b ::
  "ptr \<Rightarrow> u32 \<Rightarrow> u32 \<Rightarrow> u32 \<Rightarrow> u32 \<Rightarrow> u32 \<Rightarrow> u32 \<Rightarrow> u32 \<Rightarrow> u32 \<Rightarrow> u32 \<Rightarrow> u32 \<Rightarrow> gfx list" where
  "gDPLoadTextureBlock_4b timg fmt wid hgt pal cms cmt masks maskt shifts shiftt =
     gDPSetTextureImage fmt G_IM_SIZ_16b 1 timg @
     gDPSetTile fmt G_IM_SIZ_16b 0 0 G_TX_LOADTILE 0 cmt maskt shiftt cms masks shifts @
     gDPLoadSync @
     gDPLoadBlock G_TX_LOADTILE 0 0 (drop_bit 2 (wid * hgt + 3) - 1) (CALC_DXT_4b wid) @
     gDPPipeSync @
     gDPSetTile fmt G_IM_SIZ_4b (drop_bit 3 (drop_bit 1 wid + 7)) 0 G_TX_RENDERTILE pal cmt maskt shiftt cms masks shifts @
     gDPSetTileSize G_TX_RENDERTILE 0 0 (push_bit G_TEXTURE_IMAGE_FRAC (wid - 1)) (push_bit G_TEXTURE_IMAGE_FRAC (hgt - 1))"

definition gDPLoadMultiTile_4b ::
  "ptr \<Rightarrow> u32 \<Rightarrow> u32 \<Rightarrow> u32 \<Rightarrow> u32 \<Rightarrow> u32 \<Rightarrow> u32 \<Rightarrow> u32 \<Rightarrow> u32 \<Rightarrow> u32 \<Rightarrow> u32 \<Rightarrow> u32 \<Rightarrow> u32 \<Rightarrow> u32 \<Rightarrow> u32 \<Rightarrow> u32 \<Rightarrow> u32 \<Rightarrow>
     gfx list" where
  "gDPLoadMultiTile_4b timg tmem rtile fmt wid hgt uls ult lrs lrt pal cms cmt masks maskt shifts shiftt =
     gDPSetTextureImage fmt G_IM_SIZ_8b (drop_bit 1 wid) timg @
     gDPSetTile fmt G_IM_SIZ_8b (drop_bit 3 (drop_bit 1 (lrs - uls + 1) + 7)) tmem G_TX_LOADTILE 0
       cmt maskt shiftt cms masks shifts @
     gDPLoadSync @
     gDPLoadTile G_TX_LOADTILE (push_bit (G_TEXTURE_IMAGE_FRAC - 1) uls) (push_bit G_TEXTURE_IMAGE_FRAC ult)
       (push_bit (G_TEXTURE_IMAGE_FRAC - 1) lrs) (push_bit G_TEXTURE_IMAGE_FRAC lrt) @
     gDPPipeSync @
     gDPSetTile fmt G_IM_SIZ_4b (drop_bit 3 (drop_bit 1 (lrs - uls + 1) + 7)) tmem rtile pal
       cmt maskt shiftt cms masks shifts @
     gDPSetTileSize rtile (push_bit G_TEXTURE_IMAGE_FRAC uls) (push_bit G_TEXTURE_IMAGE_FRAC ult)
       (push_bit G_TEXTURE_IMAGE_FRAC lrs) (push_bit G_TEXTURE_IMAGE_FRAC lrt)"

definition gDPLoadTLUTCmd :: "u32 \<Rightarrow> u32 \<Rightarrow> gfx list" where
  "gDPLoadTLUTCmd tile count = [(SHIFTL G_LOADTLUT 24 8, SHIFTL tile 24 3 OR SHIFTL count 14 10)]"

definition gDPLoadTLUT :: "u32 \<Rightarrow> u32 \<Rightarrow> ptr \<Rightarrow> gfx list" where
  "gDPLoadTLUT count tmemaddr dram =
     gDPSetTextureImage G_IM_FMT_RGBA G_IM_SIZ_16b 1 dram @
     gDPTileSync @
     gDPSetTile 0 0 0 tmemaddr G_TX_LOADTILE 0 0 0 0 0 0 0 @
     gDPLoadSync @
     gDPLoadTLUTCmd G_TX_LOADTILE (count - 1) @
     gDPPipeSync"

definition gSPTextureRectangle ::
  "u32 \<Rightarrow> u32 \<Rightarrow> u32 \<Rightarrow> u32 \<Rightarrow> u32 \<Rightarrow> u32 \<Rightarrow> u32 \<Rightarrow> u32 \<Rightarrow> u32 \<Rightarrow> gfx list" where
  "gSPTextureRectangle xl yl xh yh tile s t dsdx dtdy =
     [(SHIFTL G_TEXRECT 24 8 OR SHIFTL xh 12 12 OR SHIFTL yh 0 12, SHIFTL tile 24 3 OR SHIFTL xl 12 12 OR SHIFTL yl 0 12)] @
     gImmp1 G_RDPHALF_1 (SHIFTL s 16 16 OR SHIFTL t 0 16) @
     gImmp1 G_RDPHALF_2 (SHIFTL dsdx 16 16 OR SHIFTL dtdy 0 16)"

end
