(* ===== verification/GfxPrint.thy ===== *)
theory GfxPrint
  imports Gbi Xprintf
begin

section \<open>The text printer\<close>

text \<open>
  \<^verbatim>\<open>src/main/O2/gfxprint.c\<close> with its header \<^verbatim>\<open>include/gfxprint.h\<close>, and the formatter's entry of
  \<^verbatim>\<open>aprintf.c\<close>: text as texture rectangles of a display list.  The state of the printer is the record
  \<open>gfxprint\<close>; it writes its commands to memory, at \<open>gp_gListp\<close>.  \<^verbatim>\<open>gfxprint_setup\<close> is the C text of
  the file, which is kept there beside the assembly.  The addresses of the font, the palettes and of
  the callback \<^verbatim>\<open>gfxprint_prout\<close> are arguments.  A tabulator may never end: the functions that print
  have an option as their result.
\<close>

record gfxprint =
  gp_proutFunc :: ptr
  gp_gListp :: ptr
  gp_isOpen :: s32
  gp_posX :: s32
  gp_posY :: s32
  gp_color :: u32
  gp_kanaMode :: s32
  gp_isGradient :: s32
  gp_isShadow :: s32
  gp_isChanged :: s32
  gp_offsetX :: s32
  gp_offsetY :: s32

record gfxprint_env =
  gfxprint_prout_addr :: ptr
  gfxprint_font :: ptr
  gfxprint_moji_tlut :: ptr
  gfxprint_rainbow_txtr :: ptr
  gfxprint_rainbow_tlut :: ptr

definition GFXPRINT_KANA_MODE_KATAKANA :: s32 where "GFXPRINT_KANA_MODE_KATAKANA = 0"
definition GFXPRINT_KANA_MODE_HIRAGANA :: s32 where "GFXPRINT_KANA_MODE_HIRAGANA = 1"
definition GFXPRINT_CLEAR_GRADIENT_CHAR :: u8 where "GFXPRINT_CLEAR_GRADIENT_CHAR = 0x8A"
definition GFXPRINT_ENABLE_GRADIENT_CHAR :: u8 where "GFXPRINT_ENABLE_GRADIENT_CHAR = 0x8B"
definition GFXPRINT_KATAKANA_MODE_CHAR :: u8 where "GFXPRINT_KATAKANA_MODE_CHAR = 0x8C"
definition GFXPRINT_HIRAGANA_MODE_CHAR :: u8 where "GFXPRINT_HIRAGANA_MODE_CHAR = 0x8D"

lemmas gfxprint_consts = GFXPRINT_KANA_MODE_KATAKANA_def GFXPRINT_KANA_MODE_HIRAGANA_def
  GFXPRINT_CLEAR_GRADIENT_CHAR_def GFXPRINT_ENABLE_GRADIENT_CHAR_def GFXPRINT_KATAKANA_MODE_CHAR_def
  GFXPRINT_HIRAGANA_MODE_CHAR_def

subsection \<open>Writing commands\<close>

type_synonym printer = "gfxprint \<times> mem"

text \<open>A command goes to the end of the display list, as the macros do with \<^verbatim>\<open>this->gListp++\<close>.\<close>

definition emit :: "gfx \<Rightarrow> printer \<Rightarrow> printer" where
  "emit c st =
     (case st of (g, m) \<Rightarrow>
        let p = gp_gListp g
        in (g\<lparr>gp_gListp := p + 8\<rparr>, store32 (store32 m p (fst c)) (p + 4) (snd c)))"

definition emits :: "gfx list \<Rightarrow> printer \<Rightarrow> printer" where
  "emits cs st = fold emit cs st"

definition TX_LINE :: "u32 \<Rightarrow> u32 \<Rightarrow> u32" where
  "TX_LINE wid siz = drop_bit 3 (drop_bit 3 (push_bit (unat siz) 4 * wid) + 7)"

definition setup_glyph_tile :: "u32 \<Rightarrow> gfx list" where
  "setup_glyph_tile i =
     gDPSetTile G_IM_FMT_CI G_IM_SIZ_4b (TX_LINE 16 G_IM_SIZ_4b) 0 (i * 2) i
       (G_TX_NOMIRROR OR G_TX_WRAP) G_TX_NOMASK G_TX_NOLOD (G_TX_NOMIRROR OR G_TX_WRAP) G_TX_NOMASK G_TX_NOLOD @
     gDPSetTileSize (i * 2) 0 0 (push_bit G_TEXTURE_IMAGE_FRAC (16 - 1)) (push_bit G_TEXTURE_IMAGE_FRAC (256 - 1))"

definition setup_rainbow_tile :: "u32 \<Rightarrow> gfx list" where
  "setup_rainbow_tile i =
     gDPSetTile G_IM_FMT_CI G_IM_SIZ_4b (TX_LINE 16 G_IM_SIZ_4b) 0 (i * 2 + 1) 4
       (G_TX_NOMIRROR OR G_TX_WRAP) 3 G_TX_NOLOD (G_TX_NOMIRROR OR G_TX_WRAP) 1 G_TX_NOLOD @
     gDPSetTileSize (i * 2 + 1) 0 0 (push_bit G_TEXTURE_IMAGE_FRAC (2 - 1)) (push_bit G_TEXTURE_IMAGE_FRAC (8 - 1))"

definition setup_cmds :: "gfxprint_env \<Rightarrow> u32 \<Rightarrow> gfx list" where
  "setup_cmds e col =
     gDPPipeSync @
     gSPSetOtherMode G_SETOTHERMODE_H 0 24
       (G_AD_DISABLE OR G_CD_DISABLE OR G_CK_NONE OR G_TC_FILT OR G_TF_BILERP OR G_TT_IA16 OR G_TL_TILE OR
        G_TD_CLAMP OR G_TP_NONE OR G_CYC_1CYCLE OR G_PM_NPRIMITIVE) @
     gSPSetOtherMode G_SETOTHERMODE_L G_MDSFT_ALPHACOMPARE 3 (G_AC_NONE OR G_ZS_PRIM OR G_RM_XLU_SURF OR G_RM_XLU_SURF2) @
     gDPSetRenderMode (G_ZS_PRIM OR G_RM_XLU_SURF) (G_ZS_PRIM OR G_RM_XLU_SURF2) @
     gDPSetCombineMode G_CC_MODULATEIDECALA_PRIM G_CC_MODULATEIDECALA_PRIM @
     gDPSetCombineMode G_CC_DECALRGBA G_CC_DECALRGBA @
     gDPLoadTextureBlock_4b (gfxprint_font e) G_IM_FMT_CI 16 256 0 (G_TX_NOMIRROR OR G_TX_WRAP)
       (G_TX_NOMIRROR OR G_TX_WRAP) G_TX_NOMASK G_TX_NOMASK G_TX_NOLOD G_TX_NOLOD @
     gDPLoadTLUT 64 (0x100 + 0 * 0x10) (gfxprint_moji_tlut e) @
     concat (map setup_glyph_tile [1, 2, 3]) @
     gDPSetColor G_SETPRIMCOLOR col @
     gDPLoadMultiTile_4b (gfxprint_rainbow_txtr e) 0 1 G_IM_FMT_CI 2 8 0 0 1 7 4
       (G_TX_NOMIRROR OR G_TX_WRAP) (G_TX_NOMIRROR OR G_TX_WRAP) 1 3 G_TX_NOLOD G_TX_NOLOD @
     gDPLoadTLUT 16 (0x100 + 4 * 0x10) (gfxprint_rainbow_tlut e) @
     concat (map setup_rainbow_tile [1, 2, 3])"

definition gfxprint_setup :: "gfxprint_env \<Rightarrow> printer \<Rightarrow> printer" where
  "gfxprint_setup e st = emits (setup_cmds e (gp_color (fst st))) st"

definition gfxprint_color :: "u32 \<Rightarrow> u32 \<Rightarrow> u32 \<Rightarrow> u32 \<Rightarrow> printer \<Rightarrow> printer" where
  "gfxprint_color r g b a st =
     (let byte = (\<lambda>v::u32. ucast (ucast v :: u8) :: u32);
          rgba = push_bit 24 (byte r) OR push_bit 16 (byte g) OR push_bit 8 (byte b) OR byte a
      in emits (gDPPipeSync @ gDPSetColor G_SETPRIMCOLOR rgba) ((fst st)\<lparr>gp_color := rgba\<rparr>, snd st))"

definition gfxprint_locate :: "s32 \<Rightarrow> s32 \<Rightarrow> gfxprint \<Rightarrow> gfxprint" where
  "gfxprint_locate x y g = g\<lparr>gp_posX := gp_offsetX g + x * 4, gp_posY := gp_offsetY g + y * 4\<rparr>"

definition gfxprint_locate8x8 :: "s32 \<Rightarrow> s32 \<Rightarrow> gfxprint \<Rightarrow> gfxprint" where
  "gfxprint_locate8x8 x y g = gfxprint_locate (x * 8) (y * 8) g"

definition gfxprint_setoffset :: "s32 \<Rightarrow> s32 \<Rightarrow> gfxprint \<Rightarrow> gfxprint" where
  "gfxprint_setoffset x y g = g\<lparr>gp_offsetX := x * 4, gp_offsetY := y * 4\<rparr>"

subsection \<open>Characters\<close>

definition mode_cmds :: "gfxprint \<Rightarrow> gfx list" where
  "mode_cmds g =
     (if gp_isGradient g \<noteq> 0
      then gDPSetTextureLUT G_TT_RGBA16 @ gDPSetCycleType G_CYC_2CYCLE @
           gDPSetRenderMode G_RM_PASS G_RM_XLU_SURF2 @ gDPSetCombineMode G_CC_INTERFERENCE G_CC_PASS2
      else gDPSetTextureLUT G_TT_IA16 @ gDPSetCycleType G_CYC_1CYCLE @
           gDPSetRenderMode G_RM_XLU_SURF G_RM_XLU_SURF2 @
           gDPSetCombineMode G_CC_MODULATEIDECALA_PRIM G_CC_MODULATEIDECALA_PRIM)"

definition gfxprint_putc1 :: "u8 \<Rightarrow> printer \<Rightarrow> printer" where
  "gfxprint_putc1 c st0 =
     (let tile = (ucast c AND 0xFF) * 2 :: u32;
          x0 = ucast (c AND 4) :: u16;
          x1 = ucast (drop_bit 3 c) :: u16;
          st = emits gDPPipeSync st0;
          st = (if gp_isChanged (fst st) \<noteq> 0
                then let st = ((fst st)\<lparr>gp_isChanged := 0\<rparr>, snd st) in emits (mode_cmds (fst st)) st
                else st);
          g = fst st; x = gp_posX g; y = gp_posY g;
          s = push_bit 6 (ucast x0); t = push_bit 8 (ucast x1);
          st = (if gp_isShadow g \<noteq> 0
                then emits (gDPSetColor G_SETPRIMCOLOR 0 @
                            gSPTextureRectangle (x + 4) (y + 4) (x + 4 + 32) (y + 4 + 32) tile s t
                              (push_bit 10 1) (push_bit 10 1) @
                            gDPSetColor G_SETPRIMCOLOR (gp_color g)) st
                else st);
          st = emits (gSPTextureRectangle x y (x + 32) (y + 32) tile s t (push_bit 10 1) (push_bit 10 1)) st
      in ((fst st)\<lparr>gp_posX := gp_posX (fst st) + 32\<rparr>, snd st))"

partial_function (option) tab_loop :: "printer \<Rightarrow> printer option" where
  "tab_loop st =
     (let st = gfxprint_putc1 0x20 st
      in if sint (gp_posX (fst st) - gp_offsetX (fst st)) smod 256 \<noteq> 0 then tab_loop st else Some st)"

definition gfxprint_putc :: "u8 \<Rightarrow> printer \<Rightarrow> printer option" where
  "gfxprint_putc c st =
     (case st of (g, m) \<Rightarrow>
        if 0x20 \<le> c \<and> c \<le> 0x7E then Some (gfxprint_putc1 c st)
        else if 0xA0 \<le> c \<and> c \<le> 0xDF
        then (let c = (if gp_kanaMode g \<noteq> GFXPRINT_KANA_MODE_KATAKANA
                       then if c \<le> 0xBF then c - 0x20 else c + 0x20 else c)
              in Some (gfxprint_putc1 c st))
        else if c = 10 then Some (g\<lparr>gp_posY := gp_posY g + 32, gp_posX := gp_offsetX g\<rparr>, m)
        else if c = 13 then Some (g\<lparr>gp_posX := gp_offsetX g\<rparr>, m)
        else if c = 9 then tab_loop st
        else if c = GFXPRINT_HIRAGANA_MODE_CHAR then Some (g\<lparr>gp_kanaMode := GFXPRINT_KANA_MODE_HIRAGANA\<rparr>, m)
        else if c = GFXPRINT_KATAKANA_MODE_CHAR then Some (g\<lparr>gp_kanaMode := GFXPRINT_KANA_MODE_KATAKANA\<rparr>, m)
        else if c = GFXPRINT_ENABLE_GRADIENT_CHAR then Some (g\<lparr>gp_isGradient := 1, gp_isChanged := 1\<rparr>, m)
        else if c = GFXPRINT_CLEAR_GRADIENT_CHAR then Some (g\<lparr>gp_isGradient := 0, gp_isChanged := 1\<rparr>, m)
        else Some st)"

text \<open>The buffers are the characters from the pointer on; \<^const>\<open>None\<close> when they are read past their end.\<close>

fun write_loop :: "nat \<Rightarrow> string \<Rightarrow> printer \<Rightarrow> printer option" where
  "write_loop 0 buf st = Some st"
| "write_loop (Suc i) [] st = None"
| "write_loop (Suc i) (c # buf) st = Option.bind (gfxprint_putc (of_char c) st) (write_loop i buf)"

definition gfxprint_write :: "string \<Rightarrow> u32 \<Rightarrow> u32 \<Rightarrow> printer \<Rightarrow> printer option" where
  "gfxprint_write buffer siz n st = write_loop (unat (siz * n)) buffer st"

fun gfxprint_puts :: "string \<Rightarrow> printer \<Rightarrow> printer option" where
  "gfxprint_puts [] st = None"
| "gfxprint_puts (c # buffer) st =
     (if c \<noteq> CHR 0x00 then Option.bind (gfxprint_putc (of_char c) st) (gfxprint_puts buffer) else Some st)"

subsection \<open>The printer's state\<close>

definition gfxprint_init :: "gfxprint_env \<Rightarrow> gfxprint \<Rightarrow> gfxprint" where
  "gfxprint_init e g =
     g\<lparr>gp_isOpen := 0, gp_proutFunc := gfxprint_prout_addr e, gp_gListp := NULL, gp_posX := 0, gp_posY := 0,
       gp_offsetX := 0, gp_offsetY := 0, gp_color := 0, gp_kanaMode := GFXPRINT_KANA_MODE_KATAKANA,
       gp_isGradient := 0, gp_isShadow := 1, gp_isChanged := 1\<rparr>"

definition gfxprint_open :: "gfxprint_env \<Rightarrow> ptr \<Rightarrow> printer \<Rightarrow> printer" where
  "gfxprint_open e gListp st =
     (case st of (g, m) \<Rightarrow>
        if gp_isOpen g = 0 then gfxprint_setup e (g\<lparr>gp_isOpen := 1, gp_gListp := gListp\<rparr>, m) else st)"

definition gfxprint_close :: "gfxprint \<Rightarrow> ptr \<times> gfxprint" where
  "gfxprint_close g = (gp_gListp g, g\<lparr>gp_isOpen := 0, gp_gListp := NULL\<rparr>)"

text \<open>The callback for the formatter, and the call of the formatter through a pointer to the callback,
  with which the printer begins.  The state \<^const>\<open>None\<close> is a callback that did not return.\<close>

definition gfxprint_prout :: "printer option sink_fun" where
  "gfxprint_prout st buffer =
     (True, Option.bind st (gfxprint_write buffer 1 (of_nat (length buffer))))"

definition vaprintf ::
  "'a sink_fun \<Rightarrow> (Pft \<Rightarrow> char \<Rightarrow> Pft) \<Rightarrow> 'a \<Rightarrow> string \<Rightarrow> va_arg list \<Rightarrow> ('a out \<times> n_store list) option" where
  "vaprintf func ldtob arg fmt ap = Printf func ldtob arg fmt ap"

definition gfxprint_vprintf ::
  "gfxprint_env \<Rightarrow> (Pft \<Rightarrow> char \<Rightarrow> Pft) \<Rightarrow> string \<Rightarrow> va_arg list \<Rightarrow> printer \<Rightarrow> (printer \<times> s32 \<times> n_store list) option" where
  "gfxprint_vprintf e ldtob fmt ap st =
     (if gp_proutFunc (fst st) = gfxprint_prout_addr e
      then (case vaprintf gfxprint_prout ldtob (Some st) fmt ap of
              Some ((ok, Some st', ans), ns) \<Rightarrow> Some (st', ans, ns) | _ \<Rightarrow> None)
      else None)"

definition gfxprint_printf ::
  "gfxprint_env \<Rightarrow> (Pft \<Rightarrow> char \<Rightarrow> Pft) \<Rightarrow> string \<Rightarrow> va_arg list \<Rightarrow> printer \<Rightarrow> (printer \<times> s32 \<times> n_store list) option" where
  "gfxprint_printf e ldtob fmt args st = gfxprint_vprintf e ldtob fmt args st"

subsection \<open>The display list in memory\<close>

primrec dl_write :: "mem \<Rightarrow> ptr \<Rightarrow> gfx list \<Rightarrow> mem" where
  "dl_write m p [] = m"
| "dl_write m p (c # cs) = dl_write (store32 (store32 m p (fst c)) (p + 4) (snd c)) (p + 8) cs"

primrec dl_at :: "mem \<Rightarrow> ptr \<Rightarrow> gfx list \<Rightarrow> bool" where
  "dl_at m p [] \<longleftrightarrow> True"
| "dl_at m p (c # cs) \<longleftrightarrow> (load32 m p, load32 m (p + 4)) = c \<and> dl_at m (p + 8) cs"

lemma dl_write_append: "dl_write m p (cs @ ds) = dl_write (dl_write m p cs) (p + 8 * of_nat (length cs)) ds"
  by (induction cs arbitrary: m p) (simp_all add: algebra_simps)

lemma emits_eq:
  "emits cs (g, m) = (g\<lparr>gp_gListp := gp_gListp g + 8 * of_nat (length cs)\<rparr>, dl_write m (gp_gListp g) cs)"
  by (induction cs arbitrary: g m) (simp_all add: emits_def emit_def Let_def algebra_simps)

lemma dl_write_out:
  assumes "\<not> in_block p (8 * length cs) x" "8 * length cs < 2 ^ 32"
  shows "dl_write m p cs x = m x"
  using assms
proof (induction cs arbitrary: m p)
  case (Cons c cs)
  have len: "8 + 8 * length cs < 2 ^ 32" using Cons.prems(2) by simp
  have "in_block p (8 + 8 * length cs) x \<longleftrightarrow> in_block p 8 x \<or> in_block (p + of_nat 8) (8 * length cs) x"
    "in_block p (4 + 4) x \<longleftrightarrow> in_block p 4 x \<or> in_block (p + of_nat 4) 4 x"
    using len by (intro in_block_append; simp)+
  with Cons.prems(1) have "\<not> in_block (p + 8) (8 * length cs) x" "\<not> in_block p 4 x" "\<not> in_block (p + 4) 4 x"
    by simp_all
  with Cons.IH [of "p + 8"] len show ?case by (simp add: store32_out)
qed simp

lemma dl_at_dl_write:
  assumes "8 * length cs < 2 ^ 32"
  shows "dl_at (dl_write m p cs) p cs"
  using assms
proof (induction cs arbitrary: m p)
  case (Cons c cs)
  have len: "8 + 8 * length cs < 2 ^ 32" using Cons.prems by simp
  let ?m = "store32 (store32 m p (fst c)) (p + 4) (snd c)"
  have rest: "dl_write ?m (p + 8) cs x = ?m x" if "in_block p 8 x" for x
  proof (rule dl_write_out)
    show "\<not> in_block (p + 8) (8 * length cs) x"
      using in_block_append(2) [of 8 "8 * length cs" p x] len that by auto
  qed (use len in simp)
  have 8: "in_block p (4 + 4) x \<longleftrightarrow> in_block p 4 x \<or> in_block (p + of_nat 4) 4 x" for x
    by (rule in_block_append) simp
  have "load32 (dl_write ?m (p + 8) cs) p = load32 ?m p"
    using 8 by (intro load32_cong_block rest) simp
  also have "\<dots> = load32 (store32 m p (fst c)) p"
    using in_block_append(2) [of 4 4 p] by (intro load32_cong_block store32_out) auto
  finally have w0: "load32 (dl_write ?m (p + 8) cs) p = fst c" by simp
  have "load32 (dl_write ?m (p + 8) cs) (p + 4) = load32 ?m (p + 4)"
    using 8 by (intro load32_cong_block rest) simp
  then show ?case using w0 Cons len by simp
qed simp

subsection \<open>What a display list draws\<close>

text \<open>The texture rectangles of a display list with the primitive color they are drawn in, as the display
  processor reads the fields of the commands; \<open>col\<close> is the color set before.\<close>

record sprite =
  sp_color :: u32
  sp_left :: u32
  sp_upper :: u32
  sp_right :: u32
  sp_lower :: u32
  sp_tile :: u32
  sp_s :: u32
  sp_t :: u32

definition fld :: "nat \<Rightarrow> nat \<Rightarrow> u32 \<Rightarrow> u32" where
  "fld n w v = drop_bit n v AND mask w"

fun rdp :: "u32 \<Rightarrow> gfx list \<Rightarrow> sprite list" where
  "rdp col [] = []"
| "rdp col ((w0, w1) # cs) =
     (if fld 24 8 w0 = G_SETPRIMCOLOR then rdp w1 cs
      else if fld 24 8 w0 = G_TEXRECT
      then (case cs of
              (_, st) # _ # cs' \<Rightarrow>
                \<lparr>sp_color = col, sp_left = fld 12 12 w1, sp_upper = fld 0 12 w1, sp_right = fld 12 12 w0,
                 sp_lower = fld 0 12 w0, sp_tile = fld 24 3 w1, sp_s = fld 16 16 st, sp_t = fld 0 16 st\<rparr> # rdp col cs'
            | _ \<Rightarrow> [])
      else rdp col cs)"

declare rdp.simps(2) [simp del]

lemma fld_SHIFTL:
  assumes "w + s \<le> 32"
  shows "fld s w (SHIFTL v s w) = v AND mask w"
  using assms by (auto simp: fld_def SHIFTL_def bit_eq_iff bit_simps)

lemma fld_SHIFTL_other:
  assumes "s' + w' \<le> s \<or> s + w \<le> s'"
  shows "fld s w (SHIFTL v s' w') = 0"
  using assms by (auto simp: fld_def SHIFTL_def bit_eq_iff bit_simps)

lemma fld_OR: "fld s w (a OR b) = fld s w a OR fld s w b"
  by (auto simp: fld_def bit_eq_iff bit_simps)

lemmas fld_simps = fld_OR fld_SHIFTL fld_SHIFTL_other

lemma rdp_texrect:
  "rdp col (gSPTextureRectangle xl yl xh yh tile s t dsdx dtdy @ cs) =
     \<lparr>sp_color = col, sp_left = xl AND mask 12, sp_upper = yl AND mask 12, sp_right = xh AND mask 12,
      sp_lower = yh AND mask 12, sp_tile = tile AND mask 3, sp_s = s AND mask 16, sp_t = t AND mask 16\<rparr> # rdp col cs"
  by (simp add: gSPTextureRectangle_def gImmp1_def rdp.simps(2) fld_simps opcode_defs mask_eq_exp_minus_1)

lemma rdp_color: "rdp col (gDPSetColor G_SETPRIMCOLOR d @ cs) = rdp d cs"
  by (simp add: gDPSetColor_def rdp.simps(2) fld_simps opcode_defs mask_eq_exp_minus_1)

lemma rdp_skip:
  "rdp col (gDPPipeSync @ cs) = rdp col cs"
  "rdp col (gDPSetTextureLUT a @ cs) = rdp col cs"
  "rdp col (gDPSetCycleType a @ cs) = rdp col cs"
  "rdp col (gDPSetRenderMode a b @ cs) = rdp col cs"
  by (simp_all add: gDPPipeSync_def gDPNoParam_def gDPSetTextureLUT_def gDPSetCycleType_def gDPSetRenderMode_def
      gSPSetOtherMode_def rdp.simps(2) fld_simps opcode_defs mask_eq_exp_minus_1)

lemma rdp_combine: "rdp col (gDPSetCombineMode a b @ cs) = rdp col cs"
  by (simp add: gDPSetCombineMode_def rdp.simps(2) fld_simps opcode_defs mask_eq_exp_minus_1 split: prod.split)

subsection \<open>One character\<close>

definition putc1_rect :: "u8 \<Rightarrow> s32 \<Rightarrow> s32 \<Rightarrow> gfx list" where
  "putc1_rect c x y =
     gSPTextureRectangle x y (x + 32) (y + 32) ((ucast c AND 0xFF) * 2)
       (push_bit 6 (ucast (ucast (c AND 4) :: u16))) (push_bit 8 (ucast (ucast (drop_bit 3 c) :: u16)))
       (push_bit 10 1) (push_bit 10 1)"

definition putc1_cmds :: "u8 \<Rightarrow> gfxprint \<Rightarrow> gfx list" where
  "putc1_cmds c g =
     gDPPipeSync @ (if gp_isChanged g \<noteq> 0 then mode_cmds g else []) @
     (if gp_isShadow g \<noteq> 0
      then gDPSetColor G_SETPRIMCOLOR 0 @ putc1_rect c (gp_posX g + 4) (gp_posY g + 4) @
           gDPSetColor G_SETPRIMCOLOR (gp_color g)
      else []) @
     putc1_rect c (gp_posX g) (gp_posY g)"

lemma emits_append: "emits (a @ b) st = emits b (emits a st)"
  by (simp add: emits_def)

lemma emits_eq_st:
  "emits cs st = ((fst st)\<lparr>gp_gListp := gp_gListp (fst st) + 8 * of_nat (length cs)\<rparr>,
                  dl_write (snd st) (gp_gListp (fst st)) cs)"
  by (cases st) (simp add: emits_eq)

lemma putc1_eq:
  "gfxprint_putc1 c (g, m) =
     (g\<lparr>gp_gListp := gp_gListp g + 8 * of_nat (length (putc1_cmds c g)), gp_isChanged := 0, gp_posX := gp_posX g + 32\<rparr>,
      dl_write m (gp_gListp g) (putc1_cmds c g))"
proof -
  have m: "mode_cmds (g\<lparr>gp_gListp := p, gp_isChanged := v\<rparr>) = mode_cmds g" for p v
    by (simp add: mode_cmds_def)
  show ?thesis
    by (cases "gp_isChanged g = 0"; cases "gp_isShadow g = 0")
      (simp_all add: gfxprint_putc1_def Let_def emits_append emits_eq_st putc1_cmds_def putc1_rect_def m
        dl_write_append algebra_simps)
qed

text \<open>The rectangles of a character at a place: its shadow and the glyph.\<close>

definition glyph_sprite :: "u32 \<Rightarrow> u8 \<Rightarrow> s32 \<Rightarrow> s32 \<Rightarrow> sprite" where
  "glyph_sprite col c x y =
     \<lparr>sp_color = col, sp_left = x AND mask 12, sp_upper = y AND mask 12, sp_right = (x + 32) AND mask 12,
      sp_lower = (y + 32) AND mask 12, sp_tile = 2 * (ucast c AND 3), sp_s = 64 * (ucast c AND 4),
      sp_t = 256 * ucast (drop_bit 3 c)\<rparr>"

definition glyph_sprites :: "gfxprint \<Rightarrow> u8 \<Rightarrow> s32 \<Rightarrow> s32 \<Rightarrow> sprite list" where
  "glyph_sprites g c x y =
     (if gp_isShadow g \<noteq> 0 then [glyph_sprite 0 c (x + 4) (y + 4)] else []) @ [glyph_sprite (gp_color g) c x y]"

lemma glyph_fields:
  fixes c :: u8
  shows "((ucast c AND 0xFF) * 2) AND mask 3 = 2 * (ucast c AND 3 :: u32)"
    "push_bit 6 (ucast (ucast (c AND 4) :: u16)) AND mask 16 = 64 * (ucast c AND 4 :: u32)"
    "push_bit 8 (ucast (ucast (drop_bit 3 c) :: u16)) AND mask 16 = 256 * (ucast (drop_bit 3 c) :: u32)"
proof -
  have p: "2 * w = push_bit 1 w" "64 * w = push_bit 6 w" "256 * w = push_bit 8 w" for w :: u32
    by (simp_all add: push_bit_eq_mult)
  have n: "(0xFF::u32) = mask 8" "(3::u32) = mask 2" "(4::u8) = push_bit 2 1" "(4::u32) = push_bit 2 1"
    by (simp_all add: mask_eq_exp_minus_1)
  show "((ucast c AND 0xFF) * 2) AND mask 3 = 2 * (ucast c AND 3 :: u32)"
  proof -
    have "push_bit k (v AND mask 8) AND mask (k + 2) = push_bit k (v AND mask 2)" for k and v :: u32
      by (auto simp: bit_eq_iff bit_simps)
    moreover have "(ucast c AND 0xFF) * 2 = push_bit 1 (ucast c AND mask 8 :: u32)"
      "2 * (ucast c AND 3) = push_bit 1 (ucast c AND mask 2 :: u32)" "(3::nat) = 1 + 2"
      unfolding n(1,2) [symmetric] by (simp_all add: push_bit_eq_mult)
    ultimately show ?thesis by (simp only:)
  qed
  have "push_bit k (ucast (ucast (c AND x) :: u16)) AND mask 16 = push_bit k (ucast c AND ucast x :: u32)" if "k \<le> 8" for k x
    using that by (auto simp: bit_eq_iff bit_simps dest: bit_imp_le_length)
  from this [of 6 4] show "push_bit 6 (ucast (ucast (c AND 4) :: u16)) AND mask 16 = 64 * (ucast c AND 4 :: u32)"
    unfolding p(2) by simp
  show "push_bit 8 (ucast (ucast (drop_bit 3 c) :: u16)) AND mask 16 = 256 * (ucast (drop_bit 3 c) :: u32)"
    unfolding p by (auto simp: bit_eq_iff bit_simps dest: bit_imp_le_length)
qed

lemma rdp_putc1_rect: "rdp col (putc1_rect c x y @ cs) = glyph_sprite col c x y # rdp col cs"
  by (simp only: putc1_rect_def rdp_texrect glyph_sprite_def glyph_fields)

lemma rdp_putc1_cmds:
  "rdp (gp_color g) (putc1_cmds c g @ cs) = glyph_sprites g c (gp_posX g) (gp_posY g) @ rdp (gp_color g) cs"
  by (simp add: putc1_cmds_def mode_cmds_def glyph_sprites_def rdp_skip rdp_combine rdp_color rdp_putc1_rect)

lemma length_putc1_cmds: "length (putc1_cmds c g) \<le> 13"
  by (simp add: putc1_cmds_def mode_cmds_def putc1_rect_def gSPTextureRectangle_def gImmp1_def gDPSetColor_def
      gDPPipeSync_def gDPNoParam_def gDPSetTextureLUT_def gDPSetCycleType_def gDPSetRenderMode_def
      gSPSetOtherMode_def gDPSetCombineMode_def split: prod.split)

subsection \<open>Tabulators\<close>

lemma smod_256: "sint w smod 256 = 0 \<longleftrightarrow> (w :: s32) AND 255 = 0"
proof -
  have "sint w smod 256 = 0 \<longleftrightarrow> 256 dvd sint w"
    by (simp add: signed_modulo_int_def mod_eq_0_iff_dvd sgn_if dvd_minus_iff abs_dvd_iff dvd_abs_iff)
  also have "\<dots> \<longleftrightarrow> take_bit 8 (sint w) = 0" by (simp add: take_bit_eq_0_iff)
  also have "take_bit 8 (sint w) = take_bit 8 (uint w)"
    by (simp add: sint_uint take_bit_signed_take_bit)
  also have "\<dots> = uint (take_bit 8 w)" by (simp add: unsigned_take_bit_eq)
  also have "take_bit 8 w = w AND 255" by (simp add: take_bit_eq_mask mask_eq_exp_minus_1)
  finally show ?thesis by (simp only: unsigned_eq_0_iff)
qed

lemma and_low_bits: "w AND 31 = take_bit 5 w" "w AND 255 = take_bit 8 w" for w :: u32
  by (simp_all add: take_bit_eq_mask mask_eq_exp_minus_1)

lemma and_31_add_32: "(w + 32) AND 31 = (w :: u32) AND 31"
  unfolding and_low_bits
  by (simp add: word_uint_eq_iff unsigned_take_bit_eq take_bit_eq_mod uint_mod uint_word_ariths mod_mod_cancel)

lemma putc1_cursor:
  "gp_posX (fst (gfxprint_putc1 c st)) = gp_posX (fst st) + 32"
  "gp_offsetX (fst (gfxprint_putc1 c st)) = gp_offsetX (fst st)"
  by (cases st; simp add: putc1_eq)+

abbreviation column :: "printer \<Rightarrow> s32" where
  "column st \<equiv> gp_posX (fst st) - gp_offsetX (fst st)"

lemma tab_loop_column:
  assumes "tab_loop st = Some st'"
  shows "column st AND 31 = column st' AND 31 \<and> column st' AND 255 = 0"
proof (rule tab_loop.raw_induct [OF _ assms])
  fix loop st st'
  assume ih: "\<And>st st'. loop st = Some st' \<Longrightarrow> column st AND 31 = column st' AND 31 \<and> column st' AND 255 = 0"
    and run: "(let st = gfxprint_putc1 0x20 st
      in if sint (column st) smod 256 \<noteq> 0 then loop st else Some st) = Some st'"
  define st1 where "st1 = gfxprint_putc1 0x20 st"
  have c: "column st1 = column st + 32" by (simp add: st1_def putc1_cursor)
  have run: "(if column st1 AND 255 \<noteq> 0 then loop st1 else Some st1) = Some st'"
    using run by (simp add: smod_256 Let_def flip: st1_def)
  show "column st AND 31 = column st' AND 31 \<and> column st' AND 255 = 0"
  proof (cases "column st1 AND 255 = 0")
    case True
    with run have "st' = st1" by simp
    with True c show ?thesis by (simp add: and_31_add_32)
  next
    case False
    with run have "loop st1 = Some st'" by (simp only: not_False_eq_True if_True)
    from ih [OF this] show ?thesis by (simp only: c and_31_add_32)
  qed
qed

text \<open>The part of the display list that a run of the printer adds, and what it draws.\<close>

definition prints :: "printer \<Rightarrow> gfx list \<Rightarrow> sprite list \<Rightarrow> printer \<Rightarrow> bool" where
  "prints st cs sps st' \<longleftrightarrow>
     snd st' = dl_write (snd st) (gp_gListp (fst st)) cs \<and>
     gp_gListp (fst st') = gp_gListp (fst st) + 8 * of_nat (length cs) \<and>
     gp_color (fst st') = gp_color (fst st) \<and> gp_isShadow (fst st') = gp_isShadow (fst st) \<and>
     gp_offsetX (fst st') = gp_offsetX (fst st) \<and>
     (\<forall>ds. rdp (gp_color (fst st)) (cs @ ds) = sps @ rdp (gp_color (fst st)) ds)"

lemma prints_Nil [intro]: "prints st [] [] st"
  by (simp add: prints_def)

lemma prints_trans:
  "prints st cs sps st1 \<Longrightarrow> prints st1 ds tps st2 \<Longrightarrow> prints st (cs @ ds) (sps @ tps) st2"
  by (simp add: prints_def dl_write_append algebra_simps)

lemma prints_putc1:
  "prints st (putc1_cmds c (fst st)) (glyph_sprites (fst st) c (gp_posX (fst st)) (gp_posY (fst st))) (gfxprint_putc1 c st)"
  by (cases st) (simp add: putc1_eq prints_def rdp_putc1_cmds)

lemma glyph_sprites_cong:
  "prints st cs sps st' \<Longrightarrow> glyph_sprites (fst st') = glyph_sprites (fst st)"
  by (rule ext) + (simp add: prints_def glyph_sprites_def)

lemma column_and_255: "(32 * of_nat n :: u32) AND 255 = 0 \<longleftrightarrow> n mod 8 = 0"
proof -
  have "(32 * of_nat n :: u32) AND 255 = take_bit 8 (of_nat (32 * n))" by (simp add: and_low_bits)
  then have "(32 * of_nat n :: u32) AND 255 = 0 \<longleftrightarrow> unat (take_bit 8 (of_nat (32 * n) :: u32)) = 0"
    by (simp only: unsigned_eq_0_iff)
  also have "unat (take_bit 8 (of_nat (32 * n) :: u32)) = 32 * n mod 256"
    by (simp add: unsigned_take_bit_eq take_bit_eq_mod unat_mod unsigned_of_nat mod_mod_cancel del: of_nat_mult)
  also have "32 * n mod 256 = 0 \<longleftrightarrow> n mod 8 = 0" by presburger
  finally show ?thesis .
qed

text \<open>A tabulator from column \<open>col\<close>: blanks to the next multiple of eight.\<close>

lemma tab_loop_blanks:
  assumes "column st = 32 * of_nat col"
  shows "\<exists>cs st'. tab_loop st = Some st' \<and>
    prints st cs (concat (map (\<lambda>i. glyph_sprites (fst st) 0x20 (gp_offsetX (fst st) + 32 * of_nat i) (gp_posY (fst st)))
                            [col..<col + (8 - col mod 8)])) st' \<and>
    length cs \<le> 13 * (8 - col mod 8) \<and> column st' = 32 * of_nat (col + (8 - col mod 8)) \<and>
    gp_posY (fst st') = gp_posY (fst st) \<and> gp_kanaMode (fst st') = gp_kanaMode (fst st)"
  using assms
proof (induction "7 - col mod 8" arbitrary: st col rule: less_induct)
  case less
  define st1 where "st1 = gfxprint_putc1 0x20 st"
  have st1: "column st1 = 32 * of_nat (Suc col)" "gp_posY (fst st1) = gp_posY (fst st)"
    "gp_kanaMode (fst st1) = gp_kanaMode (fst st)" "gp_offsetX (fst st1) = gp_offsetX (fst st)"
    using less.prems by (cases st; simp add: st1_def putc1_eq algebra_simps)+
  have x: "gp_posX (fst st) = gp_offsetX (fst st) + 32 * of_nat col" using less.prems by (simp add: algebra_simps)
  have p1: "prints st (putc1_cmds 0x20 (fst st))
      (glyph_sprites (fst st) 0x20 (gp_offsetX (fst st) + 32 * of_nat col) (gp_posY (fst st))) st1"
    using prints_putc1 [of st "0x20"] by (simp add: x st1_def)
  have run: "tab_loop st = (if Suc col mod 8 = 0 then Some st1 else tab_loop st1)"
    using st1(1) column_and_255 [of "Suc col"]
    by (subst tab_loop.simps) (simp add: smod_256 Let_def flip: st1_def)
  show ?case
  proof (cases "Suc col mod 8 = 0")
    case True
    then have e: "8 - col mod 8 = 1" by presburger
    have r: "tab_loop st = Some st1" using run unfolding True by simp
    show ?thesis
      unfolding e by (intro exI conjI, rule r) (use p1 st1 length_putc1_cmds [of "0x20" "fst st"] in simp_all)
  next
    case False
    then have "Suc col mod 8 = Suc (col mod 8)" by (simp add: mod_Suc split: if_splits)
    moreover have "Suc col mod 8 < 8" by (rule mod_less_divisor) simp
    ultimately have m: "8 - col mod 8 = Suc (8 - Suc col mod 8)" and d: "7 - Suc col mod 8 < 7 - col mod 8"
      by linarith+
    obtain cs st' where ih: "tab_loop st1 = Some st'"
      "prints st1 cs (concat (map (\<lambda>i. glyph_sprites (fst st1) 0x20 (gp_offsetX (fst st1) + 32 * of_nat i) (gp_posY (fst st1)))
                               [Suc col..<Suc col + (8 - Suc col mod 8)])) st'"
      "length cs \<le> 13 * (8 - Suc col mod 8)" "column st' = 32 * of_nat (Suc col + (8 - Suc col mod 8))"
      "gp_posY (fst st') = gp_posY (fst st1)" "gp_kanaMode (fst st') = gp_kanaMode (fst st1)"
      using less.hyps [OF d st1(1)] by blast
    have up: "[col..<col + (8 - col mod 8)] = col # [Suc col..<Suc col + (8 - Suc col mod 8)]"
      unfolding m by (simp add: upt_rec [of col])
    have "column st' = 32 * of_nat (col + (8 - col mod 8))" using ih(4) m by simp
    moreover have "length (putc1_cmds 0x20 (fst st) @ cs) \<le> 13 * (8 - col mod 8)"
      using ih(3) length_putc1_cmds [of "0x20" "fst st"] m by simp
    moreover have "prints st (putc1_cmds 0x20 (fst st) @ cs)
       (concat (map (\<lambda>i. glyph_sprites (fst st) 0x20 (gp_offsetX (fst st) + 32 * of_nat i) (gp_posY (fst st)))
                  [col..<col + (8 - col mod 8)])) st'"
      using prints_trans [OF p1 ih(2)] unfolding up glyph_sprites_cong [OF p1] st1 by simp
    ultimately show ?thesis using run False ih(1,5,6) st1 by (intro exI conjI) (assumption | simp)+
  qed
qed

subsection \<open>The layout of a text\<close>

text \<open>The layout without a display list: the cells of the glyphs, in columns and rows of eight pixels, from
  a cursor that also says whether kana are printed as hiragana.\<close>

type_synonym cursor = "nat \<times> nat \<times> bool"

definition layout1 :: "u8 \<Rightarrow> cursor \<Rightarrow> (nat \<times> nat \<times> u8) list \<times> cursor" where
  "layout1 c = (\<lambda>(i, j, h).
     if 0x20 \<le> c \<and> c \<le> 0x7E then ([(i, j, c)], (i + 1, j, h))
     else if 0xA0 \<le> c \<and> c \<le> 0xDF
     then ([(i, j, if \<not> h then c else if c \<le> 0xBF then c - 0x20 else c + 0x20)], (i + 1, j, h))
     else if c = 10 then ([], (0, j + 1, h))
     else if c = 13 then ([], (0, j, h))
     else if c = 9
     then (let n = 8 - i mod 8 in (map (\<lambda>k. (k, j, 0x20)) [i..<i + n], (i + n, j, h)))
     else if c = 0x8D then ([], (i, j, True))
     else if c = 0x8C then ([], (i, j, False))
     else ([], (i, j, h)))"

fun layout :: "u8 list \<Rightarrow> cursor \<Rightarrow> (nat \<times> nat \<times> u8) list \<times> cursor" where
  "layout [] k = ([], k)"
| "layout (c # cs) k =
     (let (cells, k) = layout1 c k; (cells', k) = layout cs k in (cells @ cells', k))"

definition cell_sprites :: "gfxprint \<Rightarrow> s32 \<Rightarrow> nat \<times> nat \<times> u8 \<Rightarrow> sprite list" where
  "cell_sprites g y0 = (\<lambda>(i, j, c). glyph_sprites g c (gp_offsetX g + 32 * of_nat i) (y0 + 32 * of_nat j))"

definition at_cursor :: "printer \<Rightarrow> s32 \<Rightarrow> cursor \<Rightarrow> bool" where
  "at_cursor st y0 = (\<lambda>(i, j, h).
     column st = 32 * of_nat i \<and> gp_posY (fst st) = y0 + 32 * of_nat j \<and> h = (gp_kanaMode (fst st) \<noteq> 0))"

lemma cell_sprites_cong: "prints st cs sps st' \<Longrightarrow> cell_sprites (fst st') = cell_sprites (fst st)"
  by (rule ext) + (auto simp: cell_sprites_def glyph_sprites_cong split: prod.splits simp: prints_def)

lemma putc1_layout:
  assumes "at_cursor st y0 (i, j, h)"
  shows "prints st (putc1_cmds c (fst st)) (cell_sprites (fst st) y0 (i, j, c)) (gfxprint_putc1 c st)"
    "at_cursor (gfxprint_putc1 c st) y0 (i + 1, j, h)"
proof -
  have "gp_posX (fst st) = gp_offsetX (fst st) + 32 * of_nat i" "gp_posY (fst st) = y0 + 32 * of_nat j"
    using assms by (simp_all add: at_cursor_def algebra_simps)
  then show "prints st (putc1_cmds c (fst st)) (cell_sprites (fst st) y0 (i, j, c)) (gfxprint_putc1 c st)"
    using prints_putc1 [of st c] by (simp add: cell_sprites_def)
  show "at_cursor (gfxprint_putc1 c st) y0 (i + 1, j, h)"
    using assms by (cases st) (simp add: at_cursor_def putc1_eq algebra_simps)
qed

lemma prints_still:
  assumes "snd st' = snd st" "gp_gListp (fst st') = gp_gListp (fst st)" "gp_color (fst st') = gp_color (fst st)"
    "gp_isShadow (fst st') = gp_isShadow (fst st)" "gp_offsetX (fst st') = gp_offsetX (fst st)"
  shows "prints st [] [] st'"
  using assms by (simp add: prints_def)

lemma putc_layout:
  assumes "at_cursor st y0 k"
  shows "\<exists>cs st'. gfxprint_putc c st = Some st' \<and>
    prints st cs (concat (map (cell_sprites (fst st) y0) (fst (layout1 c k)))) st' \<and> length cs \<le> 104 \<and>
    at_cursor st' y0 (snd (layout1 c k))"
proof -
  obtain i j h where k: "k = (i, j, h)" by (metis prod_cases3)
  obtain g m where st: "st = (g, m)" by fastforce
  note at = assms [unfolded k]
  have one: "\<exists>cs. prints st cs (concat (map (cell_sprites (fst st) y0) [(i, j, d)])) (gfxprint_putc1 d st) \<and> length cs \<le> 104 \<and>
      at_cursor (gfxprint_putc1 d st) y0 (i + 1, j, h)" for d
    using putc1_layout [OF at, of d] length_putc1_cmds [of d "fst st"]
    by (intro exI [of _ "putc1_cmds d (fst st)"]) simp
  have h: "gp_kanaMode (fst st) \<noteq> GFXPRINT_KANA_MODE_KATAKANA \<longleftrightarrow> h"
    using at by (simp add: at_cursor_def gfxprint_consts)
  consider "0x20 \<le> c \<and> c \<le> 0x7E" | "\<not> (0x20 \<le> c \<and> c \<le> 0x7E)" "0xA0 \<le> c \<and> c \<le> 0xDF" | "c = 9"
    | "\<not> (0x20 \<le> c \<and> c \<le> 0x7E)" "\<not> (0xA0 \<le> c \<and> c \<le> 0xDF)" "c \<noteq> 9" by blast
  then show ?thesis
  proof cases
    case 1
    then show ?thesis using one [of c] by (auto simp: gfxprint_putc_def layout1_def k st)
  next
    case 2
    define d where "d = (if \<not> h then c else if c \<le> 0xBF then c - 0x20 else c + 0x20)"
    have "gfxprint_putc c st = Some (gfxprint_putc1 d st)"
      using 2 h by (auto simp: gfxprint_putc_def st d_def)
    moreover have "layout1 c k = ([(i, j, d)], (i + 1, j, h))" using 2 by (auto simp: layout1_def k d_def)
    moreover obtain cs where "prints st cs (concat (map (cell_sprites (fst st) y0) [(i, j, d)])) (gfxprint_putc1 d st)"
      "length cs \<le> 104" "at_cursor (gfxprint_putc1 d st) y0 (i + 1, j, h)"
      using one [of d] by blast
    ultimately show ?thesis
      by (intro exI [of _ cs] exI [of _ "gfxprint_putc1 d st"]) simp
  next
    case 3
    define n where "n = 8 - i mod 8"
    have n: "n \<le> 8" by (simp add: n_def)
    from at have col: "column st = 32 * of_nat i" by (simp add: at_cursor_def)
    obtain cs st' where t: "tab_loop st = Some st'"
      "prints st cs (concat (map (\<lambda>i. glyph_sprites (fst st) 0x20 (gp_offsetX (fst st) + 32 * of_nat i) (gp_posY (fst st)))
                              [i..<i + n])) st'"
      "length cs \<le> 13 * n" "column st' = 32 * of_nat (i + n)"
      "gp_posY (fst st') = gp_posY (fst st)" "gp_kanaMode (fst st') = gp_kanaMode (fst st)"
      using tab_loop_blanks [OF col] unfolding n_def by blast
    have "gfxprint_putc c st = tab_loop st" using 3 by (simp add: gfxprint_putc_def st)
    moreover have "layout1 c k = (map (\<lambda>k. (k, j, 0x20)) [i..<i + n], (i + n, j, h))"
      using 3 by (simp add: layout1_def k n_def Let_def)
    moreover have "gp_posY (fst st) = y0 + 32 * of_nat j" using at by (simp add: at_cursor_def)
    ultimately show ?thesis
      using t n at by (intro exI [of _ cs] exI [of _ st']) (simp add: cell_sprites_def at_cursor_def comp_def)
  next
    case 4
    then show ?thesis
      using at
      by (intro exI [of _ "[]"])
        (auto simp: gfxprint_putc_def layout1_def k st at_cursor_def gfxprint_consts intro!: prints_still)
  qed
qed

text \<open>A text, printed by \<^verbatim>\<open>gfxprint_write\<close>.\<close>

lemma write_loop_layout:
  assumes "at_cursor st y0 k"
  shows "\<exists>cs st'. write_loop (length s) s st = Some st' \<and>
    prints st cs (concat (map (cell_sprites (fst st) y0) (fst (layout (map of_char s) k)))) st' \<and>
    length cs \<le> 104 * length s \<and> at_cursor st' y0 (snd (layout (map of_char s) k))"
  using assms
proof (induction s arbitrary: st k)
  case Nil
  then show ?case by (intro exI [of _ "[]"]) auto
next
  case (Cons c s)
  obtain cs1 st1 where 1: "gfxprint_putc (of_char c) st = Some st1" "length cs1 \<le> 104"
    "prints st cs1 (concat (map (cell_sprites (fst st) y0) (fst (layout1 (of_char c) k)))) st1"
    "at_cursor st1 y0 (snd (layout1 (of_char c) k))"
    using putc_layout [OF Cons.prems, of "of_char c"] by blast
  obtain cs2 st2 where 2: "write_loop (length s) s st1 = Some st2" "length cs2 \<le> 104 * length s"
    "prints st1 cs2 (concat (map (cell_sprites (fst st1) y0) (fst (layout (map of_char s) (snd (layout1 (of_char c) k)))))) st2"
    "at_cursor st2 y0 (snd (layout (map of_char s) (snd (layout1 (of_char c) k))))"
    using Cons.IH [OF 1(4)] by blast
  from prints_trans [OF 1(3) 2(3)] 1 2 show ?case
    by (intro exI [of _ "cs1 @ cs2"] exI [of _ st2])
      (simp add: cell_sprites_cong [OF 1(3)] Let_def case_prod_beta)
qed

lemma write_loop_append: "write_loop (length s + n) (s @ t) st = Option.bind (write_loop (length s) s st) (write_loop n t)"
proof (induction s arbitrary: st)
  case (Cons c s)
  show ?case by (cases "gfxprint_putc (of_char c) st") (simp_all add: Cons)
qed simp

lemma gfxprint_puts_write: "strlen s = Some n \<Longrightarrow> gfxprint_puts s st = write_loop n s st"
proof (induction s arbitrary: n st)
  case (Cons c s)
  show ?case by (cases "gfxprint_putc (of_char c) st") (use Cons in \<open>auto split: if_splits\<close>)
qed simp

lemma write_loop_take: "n \<le> length s \<Longrightarrow> write_loop n s st = write_loop (length (take n s)) (take n s) st"
  using write_loop_append [of "take n s" 0 "drop n s" st] by (cases "write_loop n (take n s) st") simp_all

text \<open>The formatter, with the printer as its callback.\<close>

interpretation gfxprint_sink: print_sink gfxprint_prout
  "\<lambda>st s. Option.bind st (write_loop (length s) s)" "\<lambda>st s. length s < 2 ^ 32"
proof (unfold_locales, goal_cases)
  case (1 st s)
  then show ?case by (cases st) (simp_all add: gfxprint_prout_def gfxprint_write_def unat_ptr_of_nat)
next
  case (2 st)
  show ?case by (cases st) simp_all
next
  case (3 st s t)
  show ?case by (cases st) (simp_all add: write_loop_append)
qed auto

lemma gfxprint_printf_eq:
  assumes "render ldtob fmt ap 0 = Some (out, ns)" "length out < 2 ^ 32" "gp_proutFunc (fst st) = gfxprint_prout_addr e"
  shows "gfxprint_printf e ldtob fmt ap st =
    map_option (\<lambda>st'. (st', of_nat (length out), ns)) (write_loop (length out) out st)"
  using gfxprint_sink.printf_renders [OF assms(1), of "Some st"] assms(2,3)
  by (simp add: gfxprint_printf_def gfxprint_vprintf_def vaprintf_def Printf_def split: option.split)

subsection \<open>Properties\<close>

lemma column_locate: "(4 * x :: u32) AND 31 = 0 \<longleftrightarrow> x AND 7 = 0"
proof -
  have x: "x AND 7 = take_bit 3 x" by (simp add: take_bit_eq_mask mask_eq_exp_minus_1)
  have "unat (take_bit 5 (4 * x)) = 4 * unat x mod 4294967296 mod 32"
    by (simp add: unsigned_take_bit_eq take_bit_eq_mod unat_mod unat_word_ariths)
  moreover have "unat (take_bit 3 x) = unat x mod 8"
    by (simp add: unsigned_take_bit_eq take_bit_eq_mod unat_mod)
  moreover have "4 * n mod 4294967296 mod 32 = 0 \<longleftrightarrow> n mod 8 = 0" for n :: nat
  proof -
    have "4 * n mod 4294967296 mod 32 = 4 * n mod 32" by (rule mod_mod_cancel) simp
    moreover have "4 * n mod 32 = 0 \<longleftrightarrow> n mod 8 = 0" by presburger
    ultimately show ?thesis by (simp only:)
  qed
  ultimately have "unat (take_bit 5 (4 * x)) = 0 \<longleftrightarrow> unat (take_bit 3 x) = 0" by (simp only:)
  then show ?thesis unfolding and_low_bits x by (simp only: unsigned_eq_0_iff)
qed

lemma tab_returns:
  assumes "column st AND 31 = 0"
  shows "\<exists>st'. tab_loop st = Some st'"
proof -
  define w where "w = column st"
  have "unat w mod 32 = 0"
    using assms unfolding w_def [symmetric] and_low_bits
    by (simp add: word_unat_eq_iff unsigned_take_bit_eq take_bit_eq_mod unat_mod)
  then have "32 * (unat w div 32) = unat w" by presburger
  from arg_cong [OF this, of "of_nat :: nat \<Rightarrow> u32"] have "w = 32 * of_nat (unat w div 32)" by simp
  then show ?thesis unfolding w_def using tab_loop_blanks by blast
qed

text \<open>a tabulator ends exactly when the cursor is a whole number of character cells from the
  left border of the text: behind \<^verbatim>\<open>gfxprint_locate\<close>, which places the cursor by the pixel, it
  returns if and only if the column is a multiple of eight; otherwise it never returns.\<close>

theorem gfxprint_tab_hangs_off_grid:
  "((\<exists>st'. gfxprint_putc 9 (g, m) = Some st') \<longleftrightarrow> (gp_posX g - gp_offsetX g) AND 31 = 0) \<and>
   (gfxprint_putc 9 (gfxprint_locate x y g, m) = None \<longleftrightarrow> x AND 7 \<noteq> 0)"
proof -
  have t: "(\<exists>st'. gfxprint_putc 9 st = Some st') \<longleftrightarrow> column st AND 31 = 0" for st
  proof
    assume "\<exists>st'. gfxprint_putc 9 st = Some st'"
    then obtain st' where "tab_loop st = Some st'" by (cases st) (auto simp: gfxprint_putc_def)
    from tab_loop_column [OF this] have c: "column st AND 31 = column st' AND 31" "column st' AND 255 = 0" by simp_all
    have "w AND 31 = (w AND 255) AND 31" for w :: u32 by (simp add: and.assoc)
    from this [of "column st'"] c show "column st AND 31 = 0" by simp
  next
    assume "column st AND 31 = 0"
    from tab_returns [OF this] show "\<exists>st'. gfxprint_putc 9 st = Some st'"
      by (cases st) (simp add: gfxprint_putc_def)
  qed
  have l: "column (gfxprint_locate x y g, m) = 4 * x" by (simp add: gfxprint_locate_def)
  show ?thesis
    using t [of "(g, m)"] t [of "(gfxprint_locate x y g, m)"] column_locate [of x] unfolding l
    by (cases "gfxprint_putc 9 (gfxprint_locate x y g, m)") simp_all
qed

lemma prints_dl:
  assumes "prints (g, m) cs sps st'" "8 * length cs < 2 ^ 32"
  shows "dl_at (snd st') (gp_gListp g) cs" "gp_gListp (fst st') = gp_gListp g + 8 * of_nat (length cs)"
    "\<And>x. \<not> in_block (gp_gListp g) (8 * length cs) x \<Longrightarrow> snd st' x = m x" "rdp (gp_color g) cs = sps"
proof -
  show "rdp (gp_color g) cs = sps"
    using assms(1) unfolding prints_def by (metis append_Nil2 fst_conv rdp.simps(1))
qed (use assms in \<open>auto simp: prints_def dl_at_dl_write dl_write_out\<close>)

text \<open>printing a string writes a display list behind the one there was, at most 832 bytes for
  a character, and touches no other memory; the list draws, in the color of the printer and with the
  shadows, exactly the glyphs of the layout of the text in cells of eight pixels, and the cursor ends
  where the layout ends.\<close>

theorem gfxprint_puts_lays_out:
  assumes "strlen s = Some n" "832 * n < 2 ^ 32" "at_cursor (g, m) y0 k"
  shows "\<exists>g' m' cs. gfxprint_puts s (g, m) = Some (g', m') \<and>
    dl_at m' (gp_gListp g) cs \<and> gp_gListp g' = gp_gListp g + 8 * of_nat (length cs) \<and> length cs \<le> 104 * n \<and>
    (\<forall>x. \<not> in_block (gp_gListp g) (832 * n) x \<longrightarrow> m' x = m x) \<and>
    rdp (gp_color g) cs = concat (map (cell_sprites g y0) (fst (layout (map of_char (take n s)) k))) \<and>
    at_cursor (g', m') y0 (snd (layout (map of_char (take n s)) k))"
proof -
  have n: "n \<le> length s" using assms(1) by (rule strlen_le)
  obtain cs st' where w: "write_loop (length (take n s)) (take n s) (g, m) = Some st'"
    "prints (g, m) cs (concat (map (cell_sprites (fst (g, m)) y0) (fst (layout (map of_char (take n s)) k)))) st'"
    "length cs \<le> 104 * length (take n s)" "at_cursor st' y0 (snd (layout (map of_char (take n s)) k))"
    using write_loop_layout [OF assms(3), of "take n s"] by blast
  have len: "length cs \<le> 104 * n" "8 * length cs < 2 ^ 32" using w(3) n assms(2) by simp_all
  have run: "gfxprint_puts s (g, m) = Some st'"
    using w(1) gfxprint_puts_write [OF assms(1)] write_loop_take [OF n] by simp
  note dl = prints_dl [OF w(2) len(2)]
  have "\<not> in_block (gp_gListp g) (8 * length cs) x" if "\<not> in_block (gp_gListp g) (832 * n) x" for x
    using that len(1) by (simp add: in_block_def)
  then show ?thesis
    using run len(1) dl w(4) by (intro exI [of _ "fst st'"] exI [of _ "snd st'"] exI [of _ cs]) simp
qed

text \<open>The setup draws nothing and sets the color of the printer.\<close>

lemma rdp_quiet:
  assumes "list_all (\<lambda>c. fld 24 8 (fst c) \<noteq> G_SETPRIMCOLOR \<and> fld 24 8 (fst c) \<noteq> G_TEXRECT) cs"
  shows "rdp col (cs @ ds) = rdp col ds"
  using assms by (induction cs) (auto simp: rdp.simps(2))

lemmas gbi_defs = gDPPipeSync_def gDPTileSync_def gDPLoadSync_def gDPNoParam_def gSPSetOtherMode_def
  gDPSetRenderMode_def gDPLoadTextureBlock_4b_def gDPSetTextureImage_def gSetImage_def gDPSetTile_def
  gDPLoadBlock_def gDPSetTileSize_def gDPLoadTileGeneric_def gDPLoadTLUT_def gDPLoadTLUTCmd_def
  gDPLoadMultiTile_4b_def gDPLoadTile_def

definition quiet :: "gfx list \<Rightarrow> bool" where
  "quiet cs = list_all (\<lambda>c. fld 24 8 (fst c) \<noteq> G_SETPRIMCOLOR \<and> fld 24 8 (fst c) \<noteq> G_TEXRECT) cs"

lemma quiet_append [simp]: "quiet (cs @ ds) \<longleftrightarrow> quiet cs \<and> quiet ds"
  by (simp add: quiet_def)

lemma quiet_cmds [simp]:
  "quiet gDPPipeSync" "quiet gDPTileSync" "quiet gDPLoadSync"
  "quiet (gSPSetOtherMode G_SETOTHERMODE_H sft l d)" "quiet (gSPSetOtherMode G_SETOTHERMODE_L sft l d)"
  "quiet (gDPSetRenderMode a b)" "quiet (gDPSetTextureImage f z w i)"
  "quiet (gDPSetTile fmt siz lin tmem tile pal cmt maskt shiftt cms masks shifts)"
  "quiet (gDPLoadBlock tile uls ult lrs dxt)" "quiet (gDPSetTileSize t uls ult lrs lrt)"
  "quiet (gDPLoadTile t uls ult lrs lrt)" "quiet (gDPLoadTLUTCmd tile count)"
  by (simp_all add: quiet_def gbi_defs fld_simps opcode_defs mask_eq_exp_minus_1)

lemma quiet_combine [simp]: "quiet (gDPSetCombineMode a b)"
  by (simp add: quiet_def gDPSetCombineMode_def fld_simps opcode_defs mask_eq_exp_minus_1 split: prod.split)

lemma quiet_loads [simp]:
  "quiet (gDPLoadTextureBlock_4b timg fmt wid hgt pal cms cmt masks maskt shifts shiftt)"
  "quiet (gDPLoadTLUT count tmemaddr dram)"
  "quiet (gDPLoadMultiTile_4b timg tmem rtile fmt wid hgt uls ult lrs lrt pal cms cmt masks maskt shifts shiftt)"
  "quiet (setup_glyph_tile i)" "quiet (setup_rainbow_tile i)"
  by (simp_all add: gDPLoadTextureBlock_4b_def gDPLoadTLUT_def gDPLoadMultiTile_4b_def setup_glyph_tile_def
      setup_rainbow_tile_def)

lemma rdp_setup: "rdp col (setup_cmds e d @ ds) = rdp d ds"
  using rdp_quiet [folded quiet_def, of "concat (map setup_rainbow_tile [1, 2, 3])"]
  by (simp add: setup_cmds_def rdp_quiet [folded quiet_def] rdp_color)

lemma length_setup: "length (setup_cmds e d) = 45"
  by (simp add: setup_cmds_def setup_glyph_tile_def setup_rainbow_tile_def gbi_defs gDPSetCombineMode_def
      gDPSetColor_def G_CC_MODULATEIDECALA_PRIM_def G_CC_DECALRGBA_def)

lemma at_cursor_locate8x8:
  "at_cursor (gfxprint_locate8x8 (of_nat x) (of_nat y) g, m) (gp_offsetY g) (x, y, gp_kanaMode g \<noteq> 0)"
  by (simp add: at_cursor_def gfxprint_locate8x8_def gfxprint_locate_def algebra_simps)

lemma gfxprint_open_eq:
  assumes "gp_isOpen g = 0"
  shows "\<exists>st. gfxprint_open e p (g, m) = st \<and> fst st = g\<lparr>gp_isOpen := 1, gp_gListp := p + 8 * 45\<rparr> \<and>
    prints (g\<lparr>gp_isOpen := 1, gp_gListp := p\<rparr>, m) (setup_cmds e (gp_color g)) [] st"
  using assms
  by (simp add: gfxprint_open_def gfxprint_setup_def emits_eq length_setup prints_def rdp_setup)

text \<open>Claim C23: a whole use of the printer: after the initialisation and the opening on a display list, printing
  a formatted text at a cell of eight by eight pixels and closing returns the end of a display list
  that draws exactly the glyphs of the formatted text, laid out from that cell, and writes no other
  memory.\<close>

theorem gfxprint_session_draws_text:
  fixes x y :: nat and e :: gfxprint_env and g :: gfxprint
  assumes "render ldtob fmt ap 0 = Some (out, ns)" "360 + 832 * length out < 2 ^ 32"
  defines "g0 \<equiv> gfxprint_init e g"
  shows "\<exists>g1 m1 g2 m2 cs. gfxprint_open e p (g0, m) = (g1, m1) \<and>
    gfxprint_printf e ldtob fmt ap (gfxprint_locate8x8 (of_nat x) (of_nat y) g1, m1) = Some ((g2, m2), of_nat (length out), ns) \<and>
    gfxprint_close g2 = (p + 8 * of_nat (length cs), g2\<lparr>gp_isOpen := 0, gp_gListp := NULL\<rparr>) \<and>
    dl_at m2 p cs \<and> (\<forall>a. \<not> in_block p (360 + 832 * length out) a \<longrightarrow> m2 a = m a) \<and>
    rdp 0 cs = concat (map (cell_sprites g0 0) (fst (layout (map of_char out) (x, y, False))))"
proof -
  let ?g = "g0\<lparr>gp_isOpen := 1, gp_gListp := p\<rparr>"
  have g0: "gp_isOpen g0 = 0" "gp_color g0 = 0" "gp_offsetX g0 = 0" "gp_offsetY g0 = 0" "gp_kanaMode g0 = 0"
    "gp_proutFunc g0 = gfxprint_prout_addr e"
    by (simp_all add: g0_def gfxprint_init_def gfxprint_consts)
  obtain g1 m1 where o1: "gfxprint_open e p (g0, m) = (g1, m1)" "g1 = g0\<lparr>gp_isOpen := 1, gp_gListp := p + 8 * 45\<rparr>"
    "prints (?g, m) (setup_cmds e 0) [] (g1, m1)"
    using gfxprint_open_eq [OF g0(1), of e p m] g0(2) by (metis fst_conv surj_pair)
  let ?l = "gfxprint_locate8x8 (of_nat x) (of_nat y) g1"
  have c: "at_cursor (?l, m1) 0 (x, y, False)"
    using at_cursor_locate8x8 [of x y g1 m1] g0 by (simp add: o1(2))
  from write_loop_layout [OF c, of out] obtain cs st2 where w: "write_loop (length out) out (?l, m1) = Some st2"
    "prints (?l, m1) cs (concat (map (cell_sprites ?l 0) (fst (layout (map of_char out) (x, y, False))))) st2"
    "length cs \<le> 104 * length out"
    unfolding fst_conv by blast
  have "prints (g1, m1) [] [] (?l, m1)"
    by (rule prints_still) (simp_all add: gfxprint_locate8x8_def gfxprint_locate_def)
  from prints_trans [OF o1(3) prints_trans [OF this w(2)]]
  have all: "prints (?g, m) (setup_cmds e 0 @ cs) (concat (map (cell_sprites ?l 0) (fst (layout (map of_char out) (x, y, False))))) st2"
    by simp
  have len: "8 * length (setup_cmds e 0 @ cs) \<le> 360 + 832 * length out"
    using w(3) by (simp add: length_setup)
  then have "8 * length (setup_cmds e 0 @ cs) < 2 ^ 32" using assms(2) by (rule le_less_trans)
  note dl = prints_dl [OF all this]
  have cells: "cell_sprites ?l 0 = cell_sprites g0 0"
    by (rule ext) (auto simp: cell_sprites_def glyph_sprites_def o1(2) gfxprint_locate8x8_def gfxprint_locate_def)
  have "gfxprint_printf e ldtob fmt ap (?l, m1) = Some ((fst st2, snd st2), of_nat (length out), ns)"
    using gfxprint_printf_eq [OF assms(1), of "(?l, m1)" e] assms(2) w(1) g0(6)
    by (simp add: o1(2) gfxprint_locate8x8_def gfxprint_locate_def)
  moreover have "snd st2 a = m a" if "\<not> in_block p (360 + 832 * length out) a" for a
    using dl(3) [of a] that len by (simp add: in_block_def)
  moreover have "gfxprint_close (fst st2) = (p + 8 * of_nat (length (setup_cmds e 0 @ cs)),
      (fst st2)\<lparr>gp_isOpen := 0, gp_gListp := NULL\<rparr>)"
    using dl(2) by (simp add: gfxprint_close_def)
  moreover have "dl_at (snd st2) p (setup_cmds e 0 @ cs)" using dl(1) by simp
  moreover have "rdp 0 (setup_cmds e 0 @ cs) = concat (map (cell_sprites g0 0) (fst (layout (map of_char out) (x, y, False))))"
    using dl(4) g0(2) cells by simp
  ultimately show ?thesis using o1(1) by (intro exI conjI allI impI)
qed

subsection \<open>Witnesses\<close>

definition sample_env :: gfxprint_env where
  "sample_env = \<lparr>gfxprint_prout_addr = 0x80070000, gfxprint_font = 0x800A9B08, gfxprint_moji_tlut = 0x800A9A60,
     gfxprint_rainbow_txtr = 0x800A9B00, gfxprint_rainbow_tlut = 0x800A9AE0\<rparr>"

definition sample_printer :: gfxprint where
  "sample_printer = gfxprint_init sample_env
     \<lparr>gp_proutFunc = 0, gp_gListp = 0, gp_isOpen = 0, gp_posX = 0, gp_posY = 0, gp_color = 0, gp_kanaMode = 0,
      gp_isGradient = 0, gp_isShadow = 0, gp_isChanged = 0, gp_offsetX = 0, gp_offsetY = 0\<rparr>"

theorem gfxprint_puts_lays_out_witness:
  "\<exists>g' m' cs. gfxprint_puts [CHR ''A'', CHR 0x0A, CHR ''B'', CHR 0x00] (sample_printer, \<lambda>_. 7) = Some (g', m') \<and>
     dl_at m' 0 cs \<and> rdp 0 cs = concat (map (cell_sprites sample_printer 0) [(0, 0, 65), (0, 1, 66)])"
proof -
  have l: "strlen [CHR ''A'', CHR 0x0A, CHR ''B'', CHR 0x00] = Some 3" "832 * (3::nat) < 2 ^ 32"
    by (code_simp, simp)
  have c: "at_cursor (sample_printer, \<lambda>_. 7) 0 (0, 0, False)"
    by (simp add: at_cursor_def sample_printer_def gfxprint_init_def gfxprint_consts)
  have k: "fst (layout (map of_char (take 3 [CHR ''A'', CHR 0x0A, CHR ''B'', CHR 0x00])) (0, 0, False)) = [(0, 0, 65), (0, 1, 66)]"
    by (simp add: layout1_def)
  have g: "gp_gListp sample_printer = 0" "gp_color sample_printer = 0"
    by (simp_all add: sample_printer_def gfxprint_init_def)
  from gfxprint_puts_lays_out [OF l c, unfolded k g] show ?thesis by blast
qed

theorem gfxprint_session_draws_text_witness:
  "\<exists>g1 m1 g2 m2 cs. gfxprint_open sample_env 0x80300000 (gfxprint_init sample_env sample_printer, \<lambda>_. 7) = (g1, m1) \<and>
     gfxprint_printf sample_env (\<lambda>px c. px) (''%02d'' @ [NUL]) [Va_word 5] (gfxprint_locate8x8 4 2 g1, m1)
       = Some ((g2, m2), 2, []) \<and> dl_at m2 0x80300000 cs \<and>
     rdp 0 cs = concat (map (cell_sprites (gfxprint_init sample_env sample_printer) 0) [(4, 2, 48), (5, 2, 53)])"
proof -
  have r: "render (\<lambda>px c. px) (''%02d'' @ [NUL]) [Va_word 5] 0 = Some (''05'', [])" by code_simp
  have b: "360 + 832 * length ''05'' < 2 ^ 32" by simp
  have k: "fst (layout (map of_char ''05'') (4, 2, False)) = [(4, 2, 48), (5, 2, 53)]"
    by (simp add: layout1_def)
  have n: "of_nat (length ''05'') = (2 :: s32)" "of_nat 4 = (4 :: s32)" "of_nat 2 = (2 :: s32)" by simp_all
  from gfxprint_session_draws_text [OF r b, of sample_env "0x80300000" sample_printer "\<lambda>_. 7" 4 2, unfolded k n] show ?thesis
    by blast
qed

end
