(* ===== verification/Matrix.thy ===== *)
theory Matrix
  imports F32
begin

section \<open>Matrices\<close>

text \<open>
  \<^verbatim>\<open>src/main/O2/80C50.c\<close> (matrices of floats), \<^verbatim>\<open>808F0.c\<close> (the same operations on the fixed point
  matrices of the display processor), \<^verbatim>\<open>mtxuty-cvt.c\<close> and the conversions of the library's
  \<^verbatim>\<open>gu/mtxutil.c\<close>.  A float is a rational number with the rounding of \<open>F32\<close>, so infinities,
  overflow and the sign of a zero are outside the model; a matrix of floats is a function of its two indices.  A fixed point
  matrix is its 32 half words, the 16 integer parts before the 16 fractions, as the two views of the
  code (half words here, words in the library) overlay them.  The library's \<^verbatim>\<open>sinf\<close> and \<^verbatim>\<open>cosf\<close>, and
  \<^verbatim>\<open>func_80080914\<close>, which only exists as assembly, are arguments.  The pointers of a call are taken to
  be different; the conversion to an integer of a float beyond its range, which C leaves undefined, wraps.
\<close>

type_synonym MtxF = "nat \<Rightarrow> nat \<Rightarrow> rat"
type_synonym Mtx = "nat \<Rightarrow> u16"

record Vec3f =
  vx :: rat
  vy :: rat
  vz :: rat

definition upd :: "MtxF \<Rightarrow> nat \<Rightarrow> nat \<Rightarrow> rat \<Rightarrow> MtxF" where
  "upd mf i j v = mf(i := (mf i)(j := v))"

lemma upd_apply [simp]: "upd mf i j v k l = (if k = i \<and> l = j then v else mf k l)"
  by (simp add: upd_def)

subsection \<open>Matrices of floats\<close>

definition gMtxFClear :: MtxF where
  "gMtxFClear i j =
     [[1, 0, 0, 0],
      [0, 1, 0, 0],
      [0, 0, 1, 0],
      [0, 0, 0, 1]] ! i ! j"

definition func_80080050 :: "MtxF \<Rightarrow> MtxF" where
  "func_80080050 mf = gMtxFClear"

definition func_80080090 :: "MtxF \<Rightarrow> MtxF \<Rightarrow> MtxF" where
  "func_80080090 dest src = src"

definition mult_column :: "nat \<Rightarrow> MtxF \<Rightarrow> MtxF \<Rightarrow> MtxF" where
  "mult_column j mfB mfA =
     (let tempX = mfA 0 j; tempY = mfA 1 j; tempZ = mfA 2 j; tempW = mfA 3 j;
          row = (\<lambda>i. f32_add (f32_add (f32_add (f32_mul (mfB i 0) tempX) (f32_mul (mfB i 1) tempY))
                                      (f32_mul (mfB i 2) tempZ)) (f32_mul (mfB i 3) tempW));
          mfA = upd mfA 0 j (row 0);
          mfA = upd mfA 1 j (row 1);
          mfA = upd mfA 2 j (row 2)
      in upd mfA 3 j (row 3))"

definition func_800800CC :: "MtxF \<Rightarrow> MtxF \<Rightarrow> MtxF" where
  "func_800800CC mfA mfB = mult_column 3 mfB (mult_column 2 mfB (mult_column 1 mfB (mult_column 0 mfB mfA)))"

definition scale_row :: "nat \<Rightarrow> rat \<Rightarrow> MtxF \<Rightarrow> MtxF" where
  "scale_row i x mf =
     (if x \<noteq> 1
      then (let mf = upd mf i 0 (f32_mul (mf i 0) x);
                mf = upd mf i 1 (f32_mul (mf i 1) x);
                mf = upd mf i 2 (f32_mul (mf i 2) x)
            in upd mf i 3 (f32_mul (mf i 3) x))
      else mf)"

definition func_80080440 :: "MtxF \<Rightarrow> rat \<Rightarrow> rat \<Rightarrow> MtxF" where
  "func_80080440 mf x y = scale_row 1 y (scale_row 0 x mf)"

definition func_80080824 :: "MtxF \<Rightarrow> rat \<Rightarrow> rat \<Rightarrow> rat \<Rightarrow> MtxF" where
  "func_80080824 mf x y z = scale_row 2 z (scale_row 1 y (scale_row 0 x mf))"

text \<open>One column of the three rotations: of the rows \<open>a\<close> and \<open>b\<close>.\<close>

definition rotate_column :: "nat \<Rightarrow> nat \<Rightarrow> rat \<Rightarrow> rat \<Rightarrow> nat \<Rightarrow> MtxF \<Rightarrow> MtxF" where
  "rotate_column a b sn cs j mf =
     (let tempA = mf a j; tempB = mf b j;
          mf = upd mf a j (f32_add (f32_mul tempA cs) (f32_mul tempB sn))
      in upd mf b j (f32_sub (f32_mul tempB cs) (f32_mul tempA sn)))"

definition rotate_columns :: "nat \<Rightarrow> nat \<Rightarrow> trig \<Rightarrow> MtxF \<Rightarrow> rat \<Rightarrow> MtxF" where
  "rotate_columns a b e mf angle =
     (let sn = sinf e angle; cs = cosf e angle; col = rotate_column a b sn cs
      in col 3 (col 2 (col 1 (col 0 mf))))"

definition func_800804E0 :: "trig \<Rightarrow> MtxF \<Rightarrow> rat \<Rightarrow> MtxF" where
  "func_800804E0 = rotate_columns 0 1"

definition func_800805C8 :: "trig \<Rightarrow> MtxF \<Rightarrow> rat \<Rightarrow> MtxF" where
  "func_800805C8 = rotate_columns 2 0"

definition func_800806B0 :: "trig \<Rightarrow> MtxF \<Rightarrow> rat \<Rightarrow> MtxF" where
  "func_800806B0 = rotate_columns 1 2"

definition func_80080798 :: "MtxF \<Rightarrow> rat \<Rightarrow> rat \<Rightarrow> MtxF" where
  "func_80080798 mf x y =
     (let step = (\<lambda>j mf. upd mf 3 j (f32_add (mf 3 j) (f32_add (f32_mul (mf 0 j) x) (f32_mul (mf 1 j) y))))
      in step 3 (step 2 (step 1 (step 0 mf))))"

definition func_80080C84 :: "MtxF \<Rightarrow> rat \<Rightarrow> rat \<Rightarrow> rat \<Rightarrow> MtxF" where
  "func_80080C84 mf x y z =
     fold (\<lambda>i mf. upd mf 3 i (f32_add (mf 3 i)
             (f32_add (f32_add (f32_mul (mf 0 i) x) (f32_mul (mf 1 i) y)) (f32_mul (mf 2 i) z)))) [0, 1, 2, 3] mf"

subsection \<open>Transformations from the right\<close>

definition scale_col :: "nat \<Rightarrow> rat \<Rightarrow> MtxF \<Rightarrow> MtxF" where
  "scale_col j x mf =
     (if x \<noteq> 1
      then (let mf = upd mf 0 j (f32_mul (mf 0 j) x);
                mf = upd mf 1 j (f32_mul (mf 1 j) x);
                mf = upd mf 2 j (f32_mul (mf 2 j) x)
            in upd mf 3 j (f32_mul (mf 3 j) x))
      else mf)"

definition func_80080D54 :: "MtxF \<Rightarrow> rat \<Rightarrow> rat \<Rightarrow> MtxF" where
  "func_80080D54 mf x y = scale_col 1 y (scale_col 0 x mf)"

definition rotate_row :: "nat \<Rightarrow> nat \<Rightarrow> rat \<Rightarrow> rat \<Rightarrow> nat \<Rightarrow> MtxF \<Rightarrow> MtxF" where
  "rotate_row a b sn cs i mf =
     (let tempA = mf i a; tempB = mf i b;
          mf = upd mf i a (f32_sub (f32_mul cs tempA) (f32_mul sn tempB))
      in upd mf i b (f32_add (f32_mul sn tempA) (f32_mul cs tempB)))"

definition rotate_rows :: "nat \<Rightarrow> nat \<Rightarrow> trig \<Rightarrow> MtxF \<Rightarrow> rat \<Rightarrow> MtxF" where
  "rotate_rows a b e mf angle =
     (let sn = sinf e angle; cs = cosf e angle; row = rotate_row a b sn cs
      in row 3 (row 2 (row 1 (row 0 mf))))"

definition func_80080DF4 :: "trig \<Rightarrow> MtxF \<Rightarrow> rat \<Rightarrow> MtxF" where
  "func_80080DF4 = rotate_rows 1 2"

definition func_80080EE0 :: "trig \<Rightarrow> MtxF \<Rightarrow> rat \<Rightarrow> MtxF" where
  "func_80080EE0 = rotate_rows 2 0"

definition func_80080FCC :: "trig \<Rightarrow> MtxF \<Rightarrow> rat \<Rightarrow> MtxF" where
  "func_80080FCC = rotate_rows 0 1"

text \<open>A translation, of the first columns as many as \<open>vs\<close> has values; the last row has no multiplication
  when its last element is one.\<close>

definition translate_row :: "rat list \<Rightarrow> nat \<Rightarrow> MtxF \<Rightarrow> MtxF" where
  "translate_row vs i mf0 =
     (let temp = mf0 i 3
      in if temp \<noteq> 0
         then fold (\<lambda>j mf. upd mf i j (f32_add (mf i j) (f32_mul temp (vs ! j)))) [0..<length vs] mf0
         else mf0)"

definition translate_last :: "rat list \<Rightarrow> MtxF \<Rightarrow> MtxF" where
  "translate_last vs mf0 =
     (let temp = mf0 3 3
      in if temp \<noteq> 0
         then if temp \<noteq> 1
              then fold (\<lambda>j mf. upd mf 3 j (f32_add (mf 3 j) (f32_mul temp (vs ! j)))) [0..<length vs] mf0
              else fold (\<lambda>j mf. upd mf 3 j (f32_add (mf 3 j) (vs ! j))) [0..<length vs] mf0
         else mf0)"

definition func_800810B8 :: "MtxF \<Rightarrow> rat \<Rightarrow> rat \<Rightarrow> MtxF" where
  "func_800810B8 mf x y =
     translate_last [x, y] (translate_row [x, y] 2 (translate_row [x, y] 1 (translate_row [x, y] 0 mf)))"

definition func_800811D0 :: "MtxF \<Rightarrow> rat \<Rightarrow> rat \<Rightarrow> rat \<Rightarrow> MtxF" where
  "func_800811D0 mf x y z =
     translate_last [x, y, z] (translate_row [x, y, z] 2 (translate_row [x, y, z] 1 (translate_row [x, y, z] 0 mf)))"

definition func_80081344 :: "Vec3f \<Rightarrow> MtxF \<Rightarrow> Vec3f" where
  "func_80081344 src mf =
     (let x = vx src; y = vy src; z = vz src;
          col = (\<lambda>j. f32_add (f32_add (f32_add (f32_mul x (mf 0 j)) (f32_mul y (mf 1 j))) (f32_mul z (mf 2 j))) (mf 3 j))
      in \<lparr>vx = col 0, vy = col 1, vz = col 2\<rparr>)"

definition func_800813E0 :: "Vec3f \<Rightarrow> Vec3f \<Rightarrow> MtxF \<Rightarrow> Vec3f" where
  "func_800813E0 dest src mf =
     (let x = vx src; y = vy src;
          col = (\<lambda>j. f32_add (f32_add (f32_mul x (mf 0 j)) (f32_mul y (mf 1 j))) (mf 3 j))
      in dest\<lparr>vx := col 0, vy := col 1\<rparr>)"

subsection \<open>Fixed point matrices\<close>

definition indices :: "(nat \<times> nat) list" where
  "indices = [(i, j). i \<leftarrow> [0, 1, 2, 3], j \<leftarrow> [0, 1, 2, 3]]"

text \<open>The conversion of a float to an integer, towards zero.\<close>

definition to_s32 :: "rat \<Rightarrow> s32" where
  "to_s32 q = word_of_int (if q < 0 then \<lceil>q\<rceil> else \<lfloor>q\<rfloor>)"

definition MtxConv_F2L :: "Mtx \<Rightarrow> MtxF \<Rightarrow> Mtx" where
  "MtxConv_F2L mtx mf =
     fold (\<lambda>(i, j) mu. let value = to_s32 (f32_mul (mf i j) 0x10000)
                        in mu(4 * i + j := ucast (signed_drop_bit 16 value), 16 + (4 * i + j) := ucast value))
       indices mtx"

text \<open>The words of a matrix, as the library reads and writes them.\<close>

definition mtx_word :: "Mtx \<Rightarrow> nat \<Rightarrow> u32" where
  "mtx_word m k = push_bit 16 (ucast (m (2 * k))) OR ucast (m (2 * k + 1))"

definition set_mtx_word :: "Mtx \<Rightarrow> nat \<Rightarrow> u32 \<Rightarrow> Mtx" where
  "set_mtx_word m k w = m(2 * k := ucast (drop_bit 16 w), 2 * k + 1 := ucast w)"

definition FIX32TOF :: "s32 \<Rightarrow> rat" where
  "FIX32TOF x = f32_mul (f32_round (of_int (sint x))) (f32_div 1 (f32_round 0x10000))"

definition FTOFIX32 :: "rat \<Rightarrow> s32" where
  "FTOFIX32 x = to_s32 (f32_mul x (f32_round 0x10000))"

definition guMtxF2L :: "MtxF \<Rightarrow> Mtx \<Rightarrow> Mtx" where
  "guMtxF2L mf m =
     fold (\<lambda>(i, j) m.
         let e1 = FTOFIX32 (mf i (j * 2)); e2 = FTOFIX32 (mf i (j * 2 + 1));
             m = set_mtx_word m (2 * i + j) (e1 AND 0xffff0000 OR signed_drop_bit 16 e2 AND 0xffff)
         in set_mtx_word m (8 + (2 * i + j)) (push_bit 16 e1 AND 0xffff0000 OR e2 AND 0xffff))
       [(i, j). i \<leftarrow> [0, 1, 2, 3], j \<leftarrow> [0, 1]] m"

definition guMtxL2F :: "MtxF \<Rightarrow> Mtx \<Rightarrow> MtxF" where
  "guMtxL2F mf m =
     fold (\<lambda>(i, j) mf.
         let ai = mtx_word m (2 * i + j); af = mtx_word m (8 + (2 * i + j));
             e1 = ai AND 0xffff0000 OR drop_bit 16 af AND 0xffff;
             e2 = push_bit 16 ai AND 0xffff0000 OR af AND 0xffff
         in upd (upd mf i (j * 2) (FIX32TOF e1)) i (j * 2 + 1) (FIX32TOF e2))
       [(i, j). i \<leftarrow> [0, 1, 2, 3], j \<leftarrow> [0, 1]] mf"

definition guMtxIdentF :: "MtxF \<Rightarrow> MtxF" where
  "guMtxIdentF mf = fold (\<lambda>(i, j) mf. if i = j then upd mf i j 1 else upd mf i j 0) indices mf"

definition guMtxIdent :: "MtxF \<Rightarrow> Mtx \<Rightarrow> Mtx" where
  "guMtxIdent mf m = guMtxF2L (guMtxIdentF mf) m"

definition MtxConv_L2F :: "MtxF \<Rightarrow> Mtx \<Rightarrow> MtxF" where
  "MtxConv_L2F mf mtx = guMtxL2F mf mtx"

text \<open>A matrix from its words, and the operations of \<^verbatim>\<open>808F0.c\<close>: convert, transform, convert back.  The local
  matrix that the conversion fills is \<open>stack_mtx\<close>.\<close>

definition IPART :: "rat \<Rightarrow> u32" where
  "IPART x = signed_drop_bit 16 (to_s32 (f32_mul x 0x10000)) AND 0xFFFF"

definition FPART :: "rat \<Rightarrow> u32" where
  "FPART x = to_s32 (f32_mul x 0x10000) AND 0xFFFF"

definition gdSPDefMtx :: "(nat \<Rightarrow> nat \<Rightarrow> rat) \<Rightarrow> Mtx" where
  "gdSPDefMtx a =
     (let pack = (\<lambda>P j. [push_bit 16 (P (a 0 j)) OR P (a 1 j), push_bit 16 (P (a 2 j)) OR P (a 3 j)]);
          ws = concat (map (pack IPART) [0, 1, 2, 3]) @ concat (map (pack FPART) [0, 1, 2, 3])
      in fold (\<lambda>k m. set_mtx_word m k (ws ! k)) [0..<16] (\<lambda>_. 0))"

definition gMtxClear :: Mtx where
  "gMtxClear =
     gdSPDefMtx (\<lambda>i j.
       [[1, 0, 0, 0],
        [0, 1, 0, 0],
        [0, 0, 1, 0],
        [0, 0, 0, 1]] ! i ! j)"

definition func_8007FCF0 :: "Mtx \<Rightarrow> Mtx" where
  "func_8007FCF0 arg0 = gMtxClear"

definition func_8007FD30 :: "Mtx \<Rightarrow> Mtx \<Rightarrow> Mtx" where
  "func_8007FD30 arg0 arg1 = arg1"

definition stack_mtx :: MtxF where
  "stack_mtx i j = 0"

definition func_8007FD6C :: "Mtx \<Rightarrow> Mtx \<Rightarrow> Mtx" where
  "func_8007FD6C arg0 arg1 =
     (let sp58 = MtxConv_L2F stack_mtx arg0; sp18 = MtxConv_L2F stack_mtx arg1; sp58 = func_800800CC sp58 sp18
      in MtxConv_F2L arg0 sp58)"

definition func_8007FDC4 ::
  "(MtxF \<Rightarrow> rat \<Rightarrow> rat \<Rightarrow> rat \<Rightarrow> rat \<Rightarrow> MtxF) \<Rightarrow> Mtx \<Rightarrow> rat \<Rightarrow> rat \<Rightarrow> rat \<Rightarrow> rat \<Rightarrow> Mtx" where
  "func_8007FDC4 func_80080914 arg0 arg1 arg2 arg3 arg4 =
     (let sp20 = MtxConv_L2F stack_mtx arg0; sp20 = func_80080914 sp20 arg1 arg2 arg3 arg4 in MtxConv_F2L arg0 sp20)"

definition func_8007FE20 :: "Mtx \<Rightarrow> rat \<Rightarrow> rat \<Rightarrow> rat \<Rightarrow> Mtx" where
  "func_8007FE20 arg0 arg1 arg2 arg3 =
     (let sp18 = MtxConv_L2F stack_mtx arg0; sp18 = func_80080824 sp18 arg1 arg2 arg3 in MtxConv_F2L arg0 sp18)"

definition func_8007FE74 :: "Mtx \<Rightarrow> rat \<Rightarrow> rat \<Rightarrow> Mtx" where
  "func_8007FE74 arg0 arg1 arg2 =
     (let sp18 = MtxConv_L2F stack_mtx arg0; sp18 = func_80080440 sp18 arg1 arg2 in MtxConv_F2L arg0 sp18)"

definition func_8007FEC8 :: "trig \<Rightarrow> Mtx \<Rightarrow> rat \<Rightarrow> Mtx" where
  "func_8007FEC8 e arg0 arg1 =
     (let sp18 = MtxConv_L2F stack_mtx arg0; sp18 = func_800804E0 e sp18 arg1 in MtxConv_F2L arg0 sp18)"

definition func_8007FF0C :: "trig \<Rightarrow> Mtx \<Rightarrow> rat \<Rightarrow> Mtx" where
  "func_8007FF0C e arg0 arg1 =
     (let sp18 = MtxConv_L2F stack_mtx arg0; sp18 = func_800805C8 e sp18 arg1 in MtxConv_F2L arg0 sp18)"

definition func_8007FF58 :: "trig \<Rightarrow> Mtx \<Rightarrow> rat \<Rightarrow> Mtx" where
  "func_8007FF58 e arg0 arg1 =
     (let sp18 = MtxConv_L2F stack_mtx arg0; sp18 = func_800806B0 e sp18 arg1 in MtxConv_F2L arg0 sp18)"

definition func_8007FFA4 :: "Mtx \<Rightarrow> rat \<Rightarrow> rat \<Rightarrow> Mtx" where
  "func_8007FFA4 arg0 arg1 arg2 =
     (let sp18 = MtxConv_L2F stack_mtx arg0; sp18 = func_80080798 sp18 arg1 arg2 in MtxConv_F2L arg0 sp18)"

definition func_8007FFF0 :: "Mtx \<Rightarrow> rat \<Rightarrow> rat \<Rightarrow> rat \<Rightarrow> Mtx" where
  "func_8007FFF0 arg0 arg1 arg2 arg3 =
     (let sp18 = MtxConv_L2F stack_mtx arg0; sp18 = func_80080C84 sp18 arg1 arg2 arg3 in MtxConv_F2L arg0 sp18)"

subsection \<open>Transformations are products\<close>

definition mtx_of :: "rat list list \<Rightarrow> MtxF" where
  "mtx_of rows i j = rows ! i ! j"

definition eqm :: "MtxF \<Rightarrow> MtxF \<Rightarrow> bool" where
  "eqm a b \<longleftrightarrow> (\<forall>i<4. \<forall>j<4. a i j = b i j)"

definition f32_mtx :: "MtxF \<Rightarrow> bool" where
  "f32_mtx mf \<longleftrightarrow> (\<forall>i<4. \<forall>j<4. f32 (mf i j))"

lemma all_4: "(\<forall>i<4. P i) \<longleftrightarrow> P 0 \<and> P 1 \<and> P 2 \<and> P (3::nat)"
proof -
  have "i < 4 \<longleftrightarrow> i = 0 \<or> i = 1 \<or> i = 2 \<or> i = (3::nat)" for i by presburger
  then show ?thesis by auto
qed

lemma mult_column_apply:
  "i < 4 \<Longrightarrow> mult_column j mfB mfA i l =
     (if l = j then f32_add (f32_add (f32_add (f32_mul (mfB i 0) (mfA 0 j)) (f32_mul (mfB i 1) (mfA 1 j)))
                               (f32_mul (mfB i 2) (mfA 2 j))) (f32_mul (mfB i 3) (mfA 3 j)) else mfA i l)"
proof -
  assume "i < 4"
  then have "i = 0 \<or> i = 1 \<or> i = 2 \<or> i = 3" by presburger
  then show ?thesis by (auto simp: mult_column_def Let_def)
qed

lemma product_apply:
  "i < 4 \<Longrightarrow> l < 4 \<Longrightarrow> func_800800CC mfA mfB i l =
     f32_add (f32_add (f32_add (f32_mul (mfB i 0) (mfA 0 l)) (f32_mul (mfB i 1) (mfA 1 l)))
                (f32_mul (mfB i 2) (mfA 2 l))) (f32_mul (mfB i 3) (mfA 3 l))"
proof -
  assume i: "i < 4" "l < 4"
  then have "l = 0 \<or> l = 1 \<or> l = 2 \<or> l = 3" by presburger
  then show ?thesis using i(1) by (auto simp: func_800800CC_def mult_column_apply)
qed

lemmas left_defs = func_80080440_def func_80080824_def scale_row_def func_800804E0_def func_800805C8_def
  func_800806B0_def rotate_columns_def rotate_column_def func_80080798_def func_80080C84_def

lemmas right_defs = func_80080D54_def scale_col_def func_80080DF4_def func_80080EE0_def func_80080FCC_def
  rotate_rows_def rotate_row_def func_800810B8_def func_800811D0_def

lemma fold_upd_row:
  "fold (\<lambda>j mf. upd mf i j (g j (mf i j))) [0..<n] mf k l = (if k = i \<and> l < n then g l (mf k l) else mf k l)"
  by (induction n) auto

lemma translate_row_apply:
  "f32 (mf i l) \<Longrightarrow> translate_row vs i mf k l =
     (if k = i \<and> l < length vs then f32_add (mf k l) (f32_mul (mf i 3) (vs ! l)) else mf k l)"
  by (auto simp: translate_row_def Let_def fold_upd_row [where g = "\<lambda>j v. f32_add v (f32_mul (mf i 3) (vs ! j))"])

lemma translate_last_apply:
  "f32 (mf 3 l) \<Longrightarrow> list_all f32 vs \<Longrightarrow> translate_last vs mf k l =
     (if k = 3 \<and> l < length vs then f32_add (mf k l) (f32_mul (mf 3 3) (vs ! l)) else mf k l)"
  by (auto simp: translate_last_def Let_def list_all_length fold_upd_row [where g = "\<lambda>j v. f32_add v (f32_mul (mf 3 3) (vs ! j))"]
      fold_upd_row [where g = "\<lambda>j v. f32_add v (vs ! j)"])

lemma scales_are_products:
  assumes "f32_mtx mf"
  shows "eqm (func_80080440 mf x y)
      (func_800800CC mf (mtx_of [[x, 0, 0, 0], [0, y, 0, 0], [0, 0, 1, 0], [0, 0, 0, 1]]))"
    "eqm (func_80080824 mf x y z)
      (func_800800CC mf (mtx_of [[x, 0, 0, 0], [0, y, 0, 0], [0, 0, z, 0], [0, 0, 0, 1]]))"
  using assms
  by (simp_all add: f32_mtx_def eqm_def all_4 product_apply mtx_of_def left_defs Let_def f32_mul_commute)

lemma translations_are_products:
  assumes "f32_mtx mf"
  shows "eqm (func_80080798 mf x y)
      (func_800800CC mf (mtx_of [[1, 0, 0, 0], [0, 1, 0, 0], [0, 0, 1, 0], [x, y, 0, 1]]))"
    "eqm (func_80080C84 mf x y z)
      (func_800800CC mf (mtx_of [[1, 0, 0, 0], [0, 1, 0, 0], [0, 0, 1, 0], [x, y, z, 1]]))"
  using assms
  by (simp_all add: f32_mtx_def eqm_def all_4 product_apply mtx_of_def left_defs Let_def f32_mul_commute f32_add_commute)

text \<open>Claim C21: every special transformation of a matrix gives, in all 16 elements and with the same rounding, what
  the general multiplication by its matrix gives: scaling, with the multiplications by one left out,
  the three rotations and the translations.\<close>

theorem transforms_are_products:
  fixes e :: trig and angle :: rat
  assumes "f32_mtx mf"
  defines "s \<equiv> sinf e angle" and "c \<equiv> cosf e angle"
  shows
    "eqm (func_80080440 mf x y)
       (func_800800CC mf (mtx_of [[x, 0, 0, 0], [0, y, 0, 0], [0, 0, 1, 0], [0, 0, 0, 1]])) \<and>
     eqm (func_80080824 mf x y z)
       (func_800800CC mf (mtx_of [[x, 0, 0, 0], [0, y, 0, 0], [0, 0, z, 0], [0, 0, 0, 1]])) \<and>
     eqm (func_800804E0 e mf angle)
       (func_800800CC mf (mtx_of [[c, s, 0, 0], [- s, c, 0, 0], [0, 0, 1, 0], [0, 0, 0, 1]])) \<and>
     eqm (func_800805C8 e mf angle)
       (func_800800CC mf (mtx_of [[c, 0, - s, 0], [0, 1, 0, 0], [s, 0, c, 0], [0, 0, 0, 1]])) \<and>
     eqm (func_800806B0 e mf angle)
       (func_800800CC mf (mtx_of [[1, 0, 0, 0], [0, c, s, 0], [0, - s, c, 0], [0, 0, 0, 1]])) \<and>
     eqm (func_80080798 mf x y)
       (func_800800CC mf (mtx_of [[1, 0, 0, 0], [0, 1, 0, 0], [0, 0, 1, 0], [x, y, 0, 1]])) \<and>
     eqm (func_80080C84 mf x y z)
       (func_800800CC mf (mtx_of [[1, 0, 0, 0], [0, 1, 0, 0], [0, 0, 1, 0], [x, y, z, 1]]))"
  using assms(1) scales_are_products [OF assms(1)] translations_are_products [OF assms(1)]
  by (intro conjI; (assumption | simp add: f32_mtx_def eqm_def all_4 product_apply mtx_of_def left_defs Let_def
      s_def c_def f32_add_minus f32_mul_commute f32_add_commute))

definition quarter_turn :: trig where
  "quarter_turn = \<lparr>sinf = (\<lambda>x. 1), cosf = (\<lambda>x. 0)\<rparr>"

lemma f32_mtx_gMtxFClear: "f32_mtx gMtxFClear"
  by (simp add: f32_mtx_def all_4 gMtxFClear_def)

lemma transforms_are_products_witness:
  "eqm (func_800804E0 quarter_turn gMtxFClear 0)
     (func_800800CC gMtxFClear (mtx_of [[0, 1, 0, 0], [- 1, 0, 0, 0], [0, 0, 1, 0], [0, 0, 0, 1]]))"
  using transforms_are_products [OF f32_mtx_gMtxFClear, where e = quarter_turn and angle = 0]
  by (simp add: quarter_turn_def)

text \<open>the transformations from the right give in the same way what the general multiplication gives
  with the factors exchanged, with the rows left out that a translation does not change; and a point
  is transformed as the first row of such a product.\<close>

theorem right_transforms_are_products:
  fixes e :: trig and angle x y z :: rat
  assumes "f32_mtx mf" "f32 x" "f32 y" "f32 z"
  defines "s \<equiv> sinf e angle" and "c \<equiv> cosf e angle"
  shows
    "eqm (func_80080D54 mf x y)
       (func_800800CC (mtx_of [[x, 0, 0, 0], [0, y, 0, 0], [0, 0, 1, 0], [0, 0, 0, 1]]) mf) \<and>
     eqm (func_80080DF4 e mf angle)
       (func_800800CC (mtx_of [[1, 0, 0, 0], [0, c, s, 0], [0, - s, c, 0], [0, 0, 0, 1]]) mf) \<and>
     eqm (func_80080EE0 e mf angle)
       (func_800800CC (mtx_of [[c, 0, - s, 0], [0, 1, 0, 0], [s, 0, c, 0], [0, 0, 0, 1]]) mf) \<and>
     eqm (func_80080FCC e mf angle)
       (func_800800CC (mtx_of [[c, s, 0, 0], [- s, c, 0, 0], [0, 0, 1, 0], [0, 0, 0, 1]]) mf) \<and>
     eqm (func_800810B8 mf x y)
       (func_800800CC (mtx_of [[1, 0, 0, 0], [0, 1, 0, 0], [0, 0, 1, 0], [x, y, 0, 1]]) mf) \<and>
     eqm (func_800811D0 mf x y z)
       (func_800800CC (mtx_of [[1, 0, 0, 0], [0, 1, 0, 0], [0, 0, 1, 0], [x, y, z, 1]]) mf) \<and>
     (let p = func_80081344 \<lparr>vx = x, vy = y, vz = z\<rparr> mf; q = func_800800CC mf (mtx_of [[x, y, z, 1]])
      in vx p = q 0 0 \<and> vy p = q 0 1 \<and> vz p = q 0 2)"
  using assms(1-4)
  by (intro conjI; simp add: f32_mtx_def eqm_def all_4 product_apply mtx_of_def right_defs Let_def s_def c_def
      f32_add_minus f32_mul_commute f32_add_commute func_80081344_def translate_row_apply translate_last_apply)

lemma right_transforms_are_products_witness:
  "eqm (func_80080FCC quarter_turn gMtxFClear 0)
     (func_800800CC (mtx_of [[0, 1, 0, 0], [- 1, 0, 0, 0], [0, 0, 1, 0], [0, 0, 0, 1]]) gMtxFClear)"
  using right_transforms_are_products [OF f32_mtx_gMtxFClear, of 1 0 1, where e = quarter_turn and angle = 0]
  by (simp add: quarter_turn_def)

subsection \<open>The conversions\<close>

text \<open>An element of a fixed point matrix, and equality of matrices.\<close>

definition fixed :: "Mtx \<Rightarrow> nat \<Rightarrow> nat \<Rightarrow> s32" where
  "fixed m i j = push_bit 16 (ucast (m (4 * i + j))) OR ucast (m (16 + (4 * i + j)))"

definition eqx :: "Mtx \<Rightarrow> Mtx \<Rightarrow> bool" where
  "eqx a b \<longleftrightarrow> (\<forall>i<4. \<forall>j<4. fixed a i j = fixed b i j)"

lemma word_halves: "(0xffff0000 :: u32) = push_bit 16 (mask 16)" "(0xffff :: u32) = mask 16"
  by (simp_all add: mask_eq_exp_minus_1)

lemma join_halves:
  fixes v :: u32
  shows "push_bit 16 (ucast (ucast (signed_drop_bit 16 v) :: u16)) OR ucast (ucast v :: u16) = v"
  by (auto simp: bit_eq_iff bit_simps)

lemma e1_halves:
  "mtx_word m k AND 0xffff0000 OR drop_bit 16 (mtx_word m k') AND 0xffff =
     push_bit 16 (ucast (m (2 * k))) OR ucast (m (2 * k'))"
  unfolding word_halves mtx_word_def by (auto simp: bit_eq_iff bit_simps dest: bit_imp_le_length)

lemma e2_halves:
  "push_bit 16 (mtx_word m k) AND 0xffff0000 OR mtx_word m k' AND 0xffff =
     push_bit 16 (ucast (m (2 * k + 1))) OR ucast (m (2 * k' + 1))"
  unfolding word_halves mtx_word_def by (auto simp: bit_eq_iff bit_simps dest: bit_imp_le_length)

lemma guMtxL2F_apply:
  assumes "i < 4" "j < 4"
  shows "guMtxL2F mf m i j = FIX32TOF (fixed m i j)"
proof -
  have ij: "i = 0 \<or> i = 1 \<or> i = 2 \<or> i = 3" "j = 0 \<or> j = 1 \<or> j = 2 \<or> j = 3" using assms by presburger+
  have "guMtxL2F mf m = fold (\<lambda>(i, j) mf.
      upd (upd mf i (j * 2) (FIX32TOF (fixed m i (2 * j)))) i (j * 2 + 1) (FIX32TOF (fixed m i (2 * j + 1))))
      [(i, j). i \<leftarrow> [0, 1, 2, 3], j \<leftarrow> [0, 1]] mf"
    unfolding guMtxL2F_def Let_def e1_halves e2_halves by (simp add: fixed_def algebra_simps)
  then show ?thesis using ij by (elim disjE) (simp_all add: numeral_2_eq_2 [symmetric] numeral_3_eq_3 [symmetric])
qed

lemma fixed_F2L:
  assumes "i < 4" "j < 4"
  shows "fixed (MtxConv_F2L mtx mf) i j = to_s32 (f32_mul (mf i j) 0x10000)"
proof -
  have ij: "i = 0 \<or> i = 1 \<or> i = 2 \<or> i = 3" "j = 0 \<or> j = 1 \<or> j = 2 \<or> j = 3" using assms by presburger+
  then show ?thesis
    by (elim disjE) (simp_all add: fixed_def MtxConv_F2L_def indices_def Let_def join_halves)
qed

lemma half_joins:
  fixes e1 e2 :: u32
  shows "ucast (drop_bit 16 (e1 AND 0xffff0000 OR signed_drop_bit 16 e2 AND 0xffff)) = (ucast (signed_drop_bit 16 e1) :: u16)"
    "ucast (e1 AND 0xffff0000 OR signed_drop_bit 16 e2 AND 0xffff) = (ucast (signed_drop_bit 16 e2) :: u16)"
    "ucast (drop_bit 16 (push_bit 16 e1 AND 0xffff0000 OR e2 AND 0xffff)) = (ucast e1 :: u16)"
    "ucast (push_bit 16 e1 AND 0xffff0000 OR e2 AND 0xffff) = (ucast e2 :: u16)"
  unfolding word_halves
  subgoal by (rule bit_word_eqI) (simp add: bit_simps)
  subgoal by (rule bit_word_eqI) (simp add: bit_simps)
  subgoal by (rule bit_word_eqI) (simp add: bit_simps)
  subgoal by (rule bit_word_eqI) (simp add: bit_simps)
  done

lemma fixed_guMtxF2L:
  assumes "i < 4" "j < 4"
  shows "fixed (guMtxF2L mf m) i j = FTOFIX32 (mf i j)"
proof -
  have ij: "i = 0 \<or> i = 1 \<or> i = 2 \<or> i = 3" "j = 0 \<or> j = 1 \<or> j = 2 \<or> j = 3" using assms by presburger+
  then show ?thesis
    unfolding fixed_def guMtxF2L_def set_mtx_word_def Let_def half_joins
    by (elim disjE) (simp_all add: join_halves)
qed

text \<open>A fixed point number of 24 bits is a float, and the conversions are exact on it.\<close>

lemma f32_2_16: "f32_round 0x10000 = 0x10000"
  using f32_int [of "0x10000"] by (simp add: f32_def)

lemma powi_16: "(2::rat) powi (- 16) = 1 / 0x10000"
  by (simp add: power_int_minus)

lemma f32_1_2_16: "f32_div 1 0x10000 = 1 / 0x10000"
proof -
  have "f32 (1 / 0x10000)" using f32_units [of 1 "- 16"] unfolding powi_16 by simp
  then show ?thesis unfolding f32_div_def f32_def .
qed

lemma FTOFIX32_eq: "FTOFIX32 x = to_s32 (f32_mul x 0x10000)"
  unfolding FTOFIX32_def f32_2_16 ..

lemma f32_fixed:
  assumes "\<bar>k\<bar> \<le> 2 ^ 24"
  shows "f32_mul (f32_round (of_int k)) (1 / 0x10000) = of_int k / 0x10000"
    "f32_mul (of_int k / 0x10000) 0x10000 = of_int k"
proof -
  have k: "f32_round (of_int k) = of_int k" using f32_int [OF assms] unfolding f32_def .
  have "f32 (of_int k * (1 / 0x10000))" using f32_units [OF assms, of "- 16"] unfolding powi_16 .
  then show "f32_mul (f32_round (of_int k)) (1 / 0x10000) = of_int k / 0x10000"
    unfolding k f32_mul_def f32_def by simp
  have "(of_int k / 0x10000) * 0x10000 = (of_int k :: rat)" by simp
  then show "f32_mul (of_int k / 0x10000) 0x10000 = of_int k"
    unfolding f32_mul_def by (simp only: k)
qed

lemma FIX32TOF_exact: "\<bar>sint n\<bar> \<le> 2 ^ 24 \<Longrightarrow> FIX32TOF n = of_int (sint n) / 0x10000"
  unfolding FIX32TOF_def f32_2_16 f32_1_2_16 by (rule f32_fixed(1))

lemma to_s32_int: "to_s32 (of_int k) = word_of_int k"
  by (simp add: to_s32_def)

lemma to_s32_exact:
  assumes "\<bar>sint n\<bar> \<le> 2 ^ 24"
  shows "to_s32 (f32_mul (FIX32TOF n) 0x10000) = n"
  unfolding FIX32TOF_exact [OF assms] f32_fixed(2) [OF assms] to_s32_int by simp

text \<open>a fixed point matrix whose elements have at most 24 bits and a sign (values of a size up to 256)
  survives the conversion to floats and back.\<close>

theorem fixed_point_round_trip:
  assumes "\<forall>i<4. \<forall>j<4. \<bar>sint (fixed m i j)\<bar> \<le> 2 ^ 24"
  shows "eqx (MtxConv_F2L mtx (MtxConv_L2F mf m)) m"
  using assms by (simp add: eqx_def fixed_F2L MtxConv_L2F_def guMtxL2F_apply to_s32_exact)

text \<open>the conversion to fixed point is that of the graphics library, which packs the same values
  word by word.\<close>

theorem MtxConv_F2L_is_guMtxF2L: "eqx (MtxConv_F2L mtx mf) (guMtxF2L mf m)"
  by (simp add: eqx_def fixed_F2L fixed_guMtxF2L FTOFIX32_eq)

text \<open>A matrix constant holds the converted values, column by column.\<close>

lemma IPART_FPART:
  "ucast (drop_bit 16 (push_bit 16 (IPART x) OR IPART y)) = (ucast (signed_drop_bit 16 (to_s32 (f32_mul x 0x10000))) :: u16)"
  "ucast (push_bit 16 (IPART x) OR IPART y) = (ucast (signed_drop_bit 16 (to_s32 (f32_mul y 0x10000))) :: u16)"
  "ucast (drop_bit 16 (push_bit 16 (FPART x) OR FPART y)) = (ucast (to_s32 (f32_mul x 0x10000)) :: u16)"
  "ucast (push_bit 16 (FPART x) OR FPART y) = (ucast (to_s32 (f32_mul y 0x10000)) :: u16)"
  unfolding IPART_def FPART_def word_halves
  subgoal by (rule bit_word_eqI) (simp add: bit_simps)
  subgoal by (rule bit_word_eqI) (simp add: bit_simps)
  subgoal by (rule bit_word_eqI) (simp add: bit_simps)
  subgoal by (rule bit_word_eqI) (simp add: bit_simps)
  done

lemma set_words:
  "fold (\<lambda>k m. set_mtx_word m k (ws ! k)) [0..<n] m x =
     (if x < 2 * n then if even x then ucast (drop_bit 16 (ws ! (x div 2))) else ucast (ws ! (x div 2)) else m x)"
proof (induction n)
  case (Suc n)
  have "x < 2 * Suc n \<longleftrightarrow> x < 2 * n \<or> x = 2 * n \<or> x = 2 * n + 1" by auto
  then show ?case using Suc by (auto simp: set_mtx_word_def)
qed simp

lemma fixed_gdSPDefMtx:
  assumes "i < 4" "j < 4"
  shows "fixed (gdSPDefMtx a) i j = to_s32 (f32_mul (a j i) 0x10000)"
proof -
  have ij: "i = 0 \<or> i = 1 \<or> i = 2 \<or> i = 3" "j = 0 \<or> j = 1 \<or> j = 2 \<or> j = 3" using assms by presburger+
  then show ?thesis
    unfolding fixed_def gdSPDefMtx_def Let_def set_words
    by (elim disjE; simp only:; simp add: IPART_FPART join_halves del: drop_bit_or)
qed

lemma f32_mtx_guMtxL2F: "f32_mtx (guMtxL2F mf m)"
  by (simp add: f32_mtx_def guMtxL2F_apply FIX32TOF_def)

lemma eqx_F2L: "eqm a b \<Longrightarrow> eqx (MtxConv_F2L m a) (MtxConv_F2L m' b)"
  by (simp add: eqx_def eqm_def fixed_F2L)

lemma eqm_trans: "eqm a b \<Longrightarrow> eqm b c \<Longrightarrow> eqm a c"
  by (simp add: eqm_def)

lemma product_cong: "eqm b b' \<Longrightarrow> eqm (func_800800CC a b) (func_800800CC a b')"
  by (simp add: eqm_def all_4 product_apply)

text \<open>The value of a fixed point number, and the matrix constant of such values read back.\<close>

definition fx :: "int \<Rightarrow> rat" where
  "fx k = of_int k / 0x10000"

lemma to_s32_fx: "\<bar>k\<bar> \<le> 2 ^ 24 \<Longrightarrow> FIX32TOF (to_s32 (f32_mul (fx k) 0x10000)) = fx k"
proof -
  assume k: "\<bar>k\<bar> \<le> 2 ^ 24"
  then have "sint (word_of_int k :: s32) = k"
    by (simp add: signed_of_int signed_take_bit_int_eq_self)
  then show ?thesis
    unfolding fx_def f32_fixed(2) [OF k] to_s32_int using FIX32TOF_exact [of "word_of_int k"] k by simp
qed

definition is_fx :: "rat \<Rightarrow> bool" where
  "is_fx q \<longleftrightarrow> (\<exists>k. \<bar>k\<bar> \<le> 2 ^ 24 \<and> q = fx k)"

lemma is_fx [simp]: "is_fx 0" "is_fx 1" "\<bar>k\<bar> \<le> 2 ^ 24 \<Longrightarrow> is_fx (fx k)"
  by (auto simp: is_fx_def fx_def intro: exI [of _ 0] exI [of _ "0x10000 :: int"])

lemma L2F_gdSPDefMtx:
  assumes "\<forall>i<4. \<forall>j<4. is_fx (a i j)"
  shows "eqm (MtxConv_L2F mf (gdSPDefMtx a)) (\<lambda>i j. a j i)"
proof -
  have "FIX32TOF (to_s32 (f32_mul (a j i) 0x10000)) = a j i" if "i < 4" "j < 4" for i j
    using assms to_s32_fx that by (force simp: is_fx_def)
  then show ?thesis by (simp add: eqm_def MtxConv_L2F_def guMtxL2F_apply fixed_gdSPDefMtx)
qed

lemma fixed_product:
  assumes "eqm g (func_800800CC (MtxConv_L2F stack_mtx m) (mtx_of rows))"
    and fx: "\<forall>i<4. \<forall>j<4. is_fx (mtx_of rows i j)" and "\<forall>i<4. \<forall>j<4. mtx_of cols i j = mtx_of rows j i"
  shows "eqx (MtxConv_F2L m g) (func_8007FD6C m (gdSPDefMtx (mtx_of cols)))"
proof -
  have "eqm (MtxConv_L2F stack_mtx (gdSPDefMtx (mtx_of cols))) (\<lambda>i j. mtx_of cols j i)"
    using assms(2,3) by (intro L2F_gdSPDefMtx) simp
  then have "eqm (MtxConv_L2F stack_mtx (gdSPDefMtx (mtx_of cols))) (mtx_of rows)"
    using assms(3) by (simp add: eqm_def)
  from product_cong [OF this] have "eqm g (func_800800CC (MtxConv_L2F stack_mtx m)
      (MtxConv_L2F stack_mtx (gdSPDefMtx (mtx_of cols))))"
    using assms(1) by (simp add: eqm_def)
  then show ?thesis unfolding func_8007FD6C_def Let_def by (rule eqx_F2L)
qed

lemma f32_mtx_L2F: "f32_mtx (MtxConv_L2F mf m)"
  by (simp add: MtxConv_L2F_def f32_mtx_guMtxL2F)

text \<open>scaling and moving a fixed point matrix, by values that a fixed point matrix can hold, gives the
  same matrix as the fixed point product with a matrix constant of these values.\<close>

theorem fixed_transforms_are_products:
  assumes "\<bar>k\<bar> \<le> 2 ^ 24" "\<bar>l\<bar> \<le> 2 ^ 24" "\<bar>n\<bar> \<le> 2 ^ 24"
  shows
    "eqx (func_8007FE74 m (fx k) (fx l))
       (func_8007FD6C m (gdSPDefMtx (mtx_of [[fx k, 0, 0, 0], [0, fx l, 0, 0], [0, 0, 1, 0], [0, 0, 0, 1]]))) \<and>
     eqx (func_8007FE20 m (fx k) (fx l) (fx n))
       (func_8007FD6C m (gdSPDefMtx (mtx_of [[fx k, 0, 0, 0], [0, fx l, 0, 0], [0, 0, fx n, 0], [0, 0, 0, 1]]))) \<and>
     eqx (func_8007FFA4 m (fx k) (fx l))
       (func_8007FD6C m (gdSPDefMtx (mtx_of [[1, 0, 0, fx k], [0, 1, 0, fx l], [0, 0, 1, 0], [0, 0, 0, 1]]))) \<and>
     eqx (func_8007FFF0 m (fx k) (fx l) (fx n))
       (func_8007FD6C m (gdSPDefMtx (mtx_of [[1, 0, 0, fx k], [0, 1, 0, fx l], [0, 0, 1, fx n], [0, 0, 0, 1]])))"
  unfolding func_8007FE74_def func_8007FE20_def func_8007FFA4_def func_8007FFF0_def Let_def
  by (intro conjI; (rule fixed_product [OF scales_are_products(1) [OF f32_mtx_L2F]]
        fixed_product [OF scales_are_products(2) [OF f32_mtx_L2F]]
        fixed_product [OF translations_are_products(1) [OF f32_mtx_L2F]]
        fixed_product [OF translations_are_products(2) [OF f32_mtx_L2F]]); simp add: all_4 mtx_of_def assms [THEN is_fx(3)])

lemma fixed_transforms_are_products_witness:
  "eqx (func_8007FE74 gMtxClear (fx 0x8000) (fx (- 3)))
     (func_8007FD6C gMtxClear
        (gdSPDefMtx (mtx_of [[fx 0x8000, 0, 0, 0], [0, fx (- 3), 0, 0], [0, 0, 1, 0], [0, 0, 0, 1]])))"
  using fixed_transforms_are_products [of "0x8000" "- 3" 1 gMtxClear] by simp

lemma gMtxClear_gMtxFClear: "gMtxClear = gdSPDefMtx gMtxFClear"
  by (simp add: gMtxClear_def gMtxFClear_def [abs_def])

lemma to_s32_1 [simp]: "to_s32 (f32_round 0x10000) = 0x10000" "to_s32 0 = 0"
  unfolding f32_2_16 by (simp_all add: to_s32_def)

lemma fixed_gMtxClear: "i < 4 \<Longrightarrow> j < 4 \<Longrightarrow> fixed gMtxClear i j = (if i = j then 0x10000 else 0)"
proof -
  assume ij: "i < 4" "j < 4"
  then have "i = 0 \<or> i = 1 \<or> i = 2 \<or> i = 3" "j = 0 \<or> j = 1 \<or> j = 2 \<or> j = 3" by presburger+
  moreover have "f32_mul 1 0x10000 = f32_round 0x10000" "f32_mul 0 0x10000 = 0" by (simp_all add: f32_mul_def)
  ultimately show ?thesis
    unfolding gMtxClear_gMtxFClear fixed_gdSPDefMtx [OF ij] by (elim disjE; simp add: gMtxFClear_def)
qed

text \<open>the constant matrix is the identity, in the conversion of the float identity and in that of the
  graphics library; the product with it and scaling by one and moving by zero leave every matrix alone that has
  at most 24 bits and a sign in each element.\<close>

theorem identity_transforms:
  assumes "\<forall>i<4. \<forall>j<4. \<bar>sint (fixed m i j)\<bar> \<le> 2 ^ 24"
  shows "eqx (func_8007FCF0 m) (guMtxIdent mf m') \<and> eqx (func_8007FCF0 m) (MtxConv_F2L m' gMtxFClear) \<and>
    eqx (func_8007FD6C m gMtxClear) m \<and> eqx (func_8007FE74 m 1 1) m \<and> eqx (func_8007FFA4 m 0 0) m"
proof -
  let ?F = "MtxConv_L2F stack_mtx"
  have kept: "eqx (MtxConv_F2L m g) m" if "eqm g (?F m)" for g
    using that assms by (simp add: eqm_def eqx_def fixed_F2L MtxConv_L2F_def guMtxL2F_apply to_s32_exact)
  have "eqm (?F gMtxClear) (\<lambda>i j. gMtxFClear j i)"
    unfolding gMtxClear_gMtxFClear by (rule L2F_gdSPDefMtx) (simp add: all_4 gMtxFClear_def)
  then have "eqm (?F gMtxClear) gMtxFClear" by (simp add: eqm_def all_4 gMtxFClear_def)
  then have "eqm (func_800800CC (?F m) (?F gMtxClear)) (func_800800CC (?F m) gMtxFClear)" by (rule product_cong)
  moreover have "eqm (func_800800CC (?F m) gMtxFClear) (?F m)"
    using f32_mtx_L2F [of stack_mtx m] by (simp add: f32_mtx_def eqm_def all_4 product_apply gMtxFClear_def)
  ultimately have "eqm (func_800800CC (?F m) (?F gMtxClear)) (?F m)" by (simp add: eqm_def)
  moreover have "eqm (func_80080440 (?F m) 1 1) (?F m)" "eqm (func_80080798 (?F m) 0 0) (?F m)"
    using f32_mtx_L2F [of stack_mtx m] by (simp_all add: f32_mtx_def eqm_def all_4 left_defs Let_def)
  moreover have "eqx gMtxClear (MtxConv_F2L m' gMtxFClear)"
    by (simp add: gMtxClear_gMtxFClear eqx_def all_4 fixed_gdSPDefMtx fixed_F2L gMtxFClear_def)
  moreover have "eqx gMtxClear (guMtxIdent mf m')"
    by (simp add: gMtxClear_gMtxFClear gMtxFClear_def guMtxIdent_def guMtxIdentF_def eqx_def all_4 fixed_gdSPDefMtx fixed_guMtxF2L
        FTOFIX32_eq indices_def)
  ultimately show ?thesis
    by (simp add: func_8007FCF0_def func_8007FD6C_def func_8007FE74_def func_8007FFA4_def kept)
qed

lemma identity_transforms_witness:
  "eqx (func_8007FD6C gMtxClear gMtxClear) gMtxClear \<and> eqx (func_8007FE74 gMtxClear 1 1) gMtxClear"
proof -
  have "\<forall>i<4. \<forall>j<4. \<bar>sint (fixed gMtxClear i j)\<bar> \<le> 2 ^ 24"
    by (simp add: fixed_gMtxClear)
  from identity_transforms [OF this] show ?thesis by blast
qed

lemma fixed_point_round_trip_witness:
  "eqx (MtxConv_F2L gMtxClear (MtxConv_L2F stack_mtx gMtxClear)) gMtxClear"
proof -
  have "\<forall>i<4. \<forall>j<4. \<bar>sint (fixed gMtxClear i j)\<bar> \<le> 2 ^ 24"
    by (simp add: fixed_gMtxClear)
  then show ?thesis by (rule fixed_point_round_trip)
qed

end
