(* ===== verification/Math64.thy ===== *)
theory Math64
  imports F32
begin

section \<open>Mathematical functions\<close>

text \<open>
  \<^verbatim>\<open>src/main/O2/math64.c\<close>: rounding, the inverse tangent by its continued fraction, and the inverse
  functions built on it.  The rounding functions, the root, the sine and the cosine exist as assembly
  only and are the fields of \<open>mathlib\<close>.  The lemmas say that every result is in the range of its
  function, whatever the rounding errors of the 24 divisions are: no angle is ever outside a
  half or a full turn.
\<close>

record mathlib = trig +
  sqrtf :: "rat \<Rightarrow> rat"
  floorf :: "rat \<Rightarrow> rat"
  ceilf :: "rat \<Rightarrow> rat"
  roundf :: "rat \<Rightarrow> rat"
  truncf :: "rat \<Rightarrow> rat"
  nearbyintf :: "rat \<Rightarrow> rat"

definition M_PIf :: rat where
  "M_PIf = f32_round (314159265358979323846 / 100000000000000000000)"

definition Math_FTanF :: "mathlib \<Rightarrow> rat \<Rightarrow> rat" where
  "Math_FTanF e x = f32_div (sinf e x) (cosf e x)"

definition Math_FFloorF :: "mathlib \<Rightarrow> rat \<Rightarrow> rat" where
  "Math_FFloorF e x = floorf e x"

definition Math_FCeilF :: "mathlib \<Rightarrow> rat \<Rightarrow> rat" where
  "Math_FCeilF e x = ceilf e x"

definition ABS :: "rat \<Rightarrow> rat" where
  "ABS x = (if x < 0 then - x else x)"

definition Math_FAbs :: "rat \<Rightarrow> rat" where
  "Math_FAbs x = ABS x"

definition Math_FAbsF :: "rat \<Rightarrow> rat" where
  "Math_FAbsF x = ABS x"

definition Math_FRoundF :: "mathlib \<Rightarrow> rat \<Rightarrow> rat" where
  "Math_FRoundF e x = roundf e x"

definition Math_FTruncF :: "mathlib \<Rightarrow> rat \<Rightarrow> rat" where
  "Math_FTruncF e x = truncf e x"

definition Math_FNearbyIntF :: "mathlib \<Rightarrow> rat \<Rightarrow> rat" where
  "Math_FNearbyIntF e x = nearbyintf e x"

text \<open>The continued fraction, from the inside out: \<open>i\<close> counts down, \<open>z\<close> with it.\<close>

fun cont_frac :: "nat \<Rightarrow> rat \<Rightarrow> rat \<Rightarrow> rat \<Rightarrow> rat" where
  "cont_frac i z sq conv =
     (if i \<noteq> 0
      then cont_frac (i - 1) (f32_sub z 1) sq
             (f32_div (f32_mul (f32_mul z z) sq) (f32_add (f32_add (f32_mul 2 z) 1) conv))
      else conv)"

declare cont_frac.simps [simp del]

definition Math_FAtanContFracF :: "rat \<Rightarrow> rat" where
  "Math_FAtanContFracF x0 =
     (let (sector, x) = (if 1 < x0 then (1 :: int, f32_div 1 x0) else if x0 < - 1 then (- 1, f32_div 1 x0) else (0, x0));
          sq = f32_mul x x;
          conv = cont_frac 24 24 sq 0
      in if 0 < sector then f32_sub (f32_div M_PIf 2) (f32_div x (f32_add 1 conv))
         else if sector < 0 then f32_sub (- f32_div M_PIf 2) (f32_div x (f32_add 1 conv))
         else f32_div x (f32_add 1 conv))"

definition fatan2 :: "rat \<Rightarrow> rat \<Rightarrow> rat" where
  "fatan2 y x =
     (if y = 0 \<and> x = 0 then 0
      else if x = 0 then (if y < 0 then - f32_div M_PIf 2 else f32_div M_PIf 2)
      else if x < 0 then
        (if y < 0 then - f32_sub M_PIf (Math_FAtanContFracF \<bar>f32_div y x\<bar>)
         else f32_sub M_PIf (Math_FAtanContFracF \<bar>f32_div y x\<bar>))
      else Math_FAtanContFracF (f32_div y x))"

definition Math_FAsinF :: "mathlib \<Rightarrow> rat \<Rightarrow> rat" where
  "Math_FAsinF e x = fatan2 x (sqrtf e (f32_sub 1 (f32_mul x x)))"

definition Math_FAcosF :: "mathlib \<Rightarrow> rat \<Rightarrow> rat" where
  "Math_FAcosF e x = f32_sub (f32_div M_PIf 2) (Math_FAsinF e x)"

subsection \<open>Ranges\<close>

lemma M_PIf: "M_PIf = 13176795 / 0x400000"
  unfolding M_PIf_def by code_simp

lemma half_pi: "f32_div M_PIf 2 = M_PIf / 2"
  unfolding M_PIf by code_simp

lemma pi_pos: "0 < M_PIf"
  by (simp add: M_PIf)

lemma f32_pi: "f32 M_PIf" "f32 (M_PIf / 2)"
  by (simp add: M_PIf_def) (simp flip: half_pi)

lemma f32_between:
  assumes "f32 a" "f32 b" "a \<le> q" "q \<le> b"
  shows "a \<le> f32_round q" "f32_round q \<le> b"
  using assms f32_round_mono [of a q] f32_round_mono [of q b] by (simp_all add: f32_def)

lemma f32_round_nonneg [simp]: "0 \<le> q \<Longrightarrow> 0 \<le> f32_round q"
  using f32_round_mono [of 0 q] by simp

lemma f32_count: "i \<le> 24 \<Longrightarrow> f32_sub (of_nat (Suc i)) 1 = of_nat i"
  using f32_int [of "int i"] by (simp add: f32_sub_def f32_def)

lemma cont_frac_nonneg: "i \<le> 24 \<Longrightarrow> 0 \<le> sq \<Longrightarrow> 0 \<le> conv \<Longrightarrow> 0 \<le> cont_frac i (of_nat i) sq conv"
proof (induction i arbitrary: conv)
  case (Suc i)
  have "0 \<le> f32_div (f32_mul (f32_mul (of_nat (Suc i)) (of_nat (Suc i))) sq)
      (f32_add (f32_add (f32_mul 2 (of_nat (Suc i))) 1) conv)"
    using Suc.prems by (simp add: f32_div_def f32_mul_def f32_add_def)
  with Suc show ?case
    using f32_count [of i] by (simp add: cont_frac.simps [of "Suc i"] del: of_nat_Suc)
qed (simp add: cont_frac.simps)

definition atan_tail :: "rat \<Rightarrow> rat" where
  "atan_tail x = f32_div x (f32_add 1 (cont_frac 24 24 (f32_mul x x) 0))"

lemma atan_tail:
  shows "0 \<le> x \<Longrightarrow> x \<le> 1 \<Longrightarrow> 0 \<le> atan_tail x \<and> atan_tail x \<le> 1"
    and "0 < x \<Longrightarrow> 0 < atan_tail x" and "atan_tail (- x) = - atan_tail x" and "atan_tail 0 = 0"
proof -
  let ?c = "f32_add 1 (cont_frac 24 24 (f32_mul x x) 0)"
  have "0 \<le> cont_frac 24 24 (f32_mul x x) 0"
    using cont_frac_nonneg [of 24 "f32_mul x x" 0] by (simp add: f32_mul_def)
  then have c: "1 \<le> ?c" using f32_round_mono [of 1 "1 + cont_frac 24 24 (f32_mul x x) 0"] f32_1
    by (simp add: f32_add_def f32_def)
  show "0 \<le> x \<Longrightarrow> x \<le> 1 \<Longrightarrow> 0 \<le> atan_tail x \<and> atan_tail x \<le> 1"
    using c f32_between [of 0 1 "x / ?c"] by (simp add: atan_tail_def f32_div_def divide_le_eq)
  show "0 < x \<Longrightarrow> 0 < atan_tail x"
    using c f32_round_pos [of "x / ?c"] by (simp add: atan_tail_def f32_div_def)
  show "atan_tail (- x) = - atan_tail x" "atan_tail 0 = 0"
    by (simp_all add: atan_tail_def) (simp add: f32_div_def)
qed

lemma atan_eq:
  "Math_FAtanContFracF x =
     (if 1 < x then f32_sub (M_PIf / 2) (atan_tail (f32_div 1 x))
      else if x < - 1 then f32_sub (- (M_PIf / 2)) (atan_tail (f32_div 1 x)) else atan_tail x)"
  by (simp add: Math_FAtanContFracF_def atan_tail_def Let_def half_pi)

lemma atan_minus: "Math_FAtanContFracF (- x) = - Math_FAtanContFracF x"
proof -
  have "f32_sub (- a) b = - f32_sub a (- b)" for a b
    using f32_round_minus [of "a + b"] by (simp add: f32_sub_def)
  then show ?thesis by (simp add: atan_eq atan_tail(3))
qed

lemma atan_pos:
  assumes "0 < x"
  shows "0 < Math_FAtanContFracF x" "Math_FAtanContFracF x \<le> M_PIf / 2"
proof -
  have pi: "1 < M_PIf / 2" by (simp add: M_PIf)
  have "0 < Math_FAtanContFracF x \<and> Math_FAtanContFracF x \<le> M_PIf / 2"
  proof (cases "1 < x")
    case True
    let ?t = "atan_tail (f32_div 1 x)"
    have "0 \<le> f32_div 1 x" "f32_div 1 x \<le> 1"
      using True f32_between [of 0 1 "1 / x"] by (simp_all add: f32_div_def)
    then have t: "0 \<le> ?t" "?t \<le> 1" using atan_tail(1) by blast+
    have "0 < f32_sub (M_PIf / 2) ?t" using t pi f32_round_pos by (simp add: f32_sub_def)
    moreover have "f32_sub (M_PIf / 2) ?t \<le> M_PIf / 2"
      using t f32_round_mono [of "M_PIf / 2 - ?t" "M_PIf / 2"] f32_pi(2) by (simp add: f32_sub_def f32_def)
    ultimately show ?thesis using True by (simp add: atan_eq)
  next
    case False
    then show ?thesis using assms atan_tail(1,2) [of x] pi by (simp add: atan_eq)
  qed
  then show "0 < Math_FAtanContFracF x" "Math_FAtanContFracF x \<le> M_PIf / 2" by blast+
qed

lemma atan_0: "Math_FAtanContFracF 0 = 0"
  by (simp add: atan_eq atan_tail(4))

text \<open>the inverse tangent is odd, has the sign of its argument and never leaves a half turn, also for
  arguments of any size, which are reduced to their reciprocal.\<close>

theorem Math_FAtanContFracF_range:
  "\<bar>Math_FAtanContFracF x\<bar> \<le> M_PIf / 2 \<and> Math_FAtanContFracF (- x) = - Math_FAtanContFracF x \<and>
   sgn (Math_FAtanContFracF x) = sgn x"
proof -
  consider "x = 0" | "0 < x" | "0 < - x" by linarith
  then show ?thesis
  proof cases
    case 1
    then show ?thesis by (simp add: atan_0 M_PIf)
  next
    case 2
    then show ?thesis using atan_pos [of x] by (simp add: atan_minus)
  next
    case 3
    then show ?thesis using atan_pos [of "- x"] by (simp add: atan_minus)
  qed
qed

lemma pi_minus:
  assumes "0 \<le> a" "a \<le> M_PIf / 2"
  shows "M_PIf / 2 \<le> f32_sub M_PIf a" "f32_sub M_PIf a \<le> M_PIf"
  using assms f32_between [OF f32_pi(2,1), of "M_PIf - a"] by (simp_all add: f32_sub_def)

text \<open>Where the quotient is neither zero nor extreme, every value on the way is a normal number of the
  format, and the rounding above is the whole arithmetic.\<close>

definition normal_quotient :: "rat \<Rightarrow> rat \<Rightarrow> bool" where
  "normal_quotient y x \<longleftrightarrow> y = 0 \<or> x = 0 \<or> 1 / 2 ^ 60 \<le> \<bar>y / x\<bar> \<and> \<bar>y / x\<bar> \<le> 2 ^ 60"

text \<open>Claim C34: the angle of a point lies in the quadrant of the point: between minus and plus a full half turn,
  on the right within a quarter of the axis, on the left beyond it, with the sign of \<open>y\<close>; on the
  vertical axis it is the right angle, and the mirrored point has the opposite angle.  The points are
  those whose quotient keeps the arithmetic inside the range of the format.\<close>

theorem fatan2_quadrants:
  assumes "normal_quotient y x"
  shows "fatan2 0 0 = 0 \<and> (0 < y \<longrightarrow> fatan2 y 0 = M_PIf / 2) \<and> (0 < x \<longrightarrow> fatan2 0 x = 0) \<and> (x < 0 \<longrightarrow> fatan2 0 x = M_PIf) \<and>
   (0 < x \<and> 0 < y \<longrightarrow> 0 < fatan2 y x \<and> fatan2 y x \<le> M_PIf / 2) \<and>
   (x < 0 \<and> 0 < y \<longrightarrow> M_PIf / 2 \<le> fatan2 y x \<and> fatan2 y x \<le> M_PIf) \<and>
   (y \<noteq> 0 \<longrightarrow> fatan2 (- y) x = - fatan2 y x)"
proof -
  have q: "0 < f32_div y x" if "0 < x" "0 < y" using that by (simp add: f32_div_def f32_round_pos)
  have m: "0 \<le> Math_FAtanContFracF \<bar>q\<bar> \<and> Math_FAtanContFracF \<bar>q\<bar> \<le> M_PIf / 2" for q
    using atan_pos [of "\<bar>q\<bar>"] by (cases "q = 0") (auto simp: atan_0 M_PIf)
  have "0 < x \<and> 0 < y \<longrightarrow> 0 < fatan2 y x \<and> fatan2 y x \<le> M_PIf / 2"
    using q atan_pos [of "f32_div y x"] by (simp add: fatan2_def)
  moreover have "x < 0 \<and> 0 < y \<longrightarrow> M_PIf / 2 \<le> fatan2 y x \<and> fatan2 y x \<le> M_PIf"
    using m [of "f32_div y x"] pi_minus by (simp add: fatan2_def)
  moreover have "y \<noteq> 0 \<longrightarrow> fatan2 (- y) x = - fatan2 y x"
    by (auto simp: fatan2_def atan_minus)
  moreover have "0 < y \<longrightarrow> fatan2 y 0 = M_PIf / 2" by (simp add: fatan2_def half_pi)
  moreover have "fatan2 0 0 = 0" "0 < x \<longrightarrow> fatan2 0 x = 0" "x < 0 \<longrightarrow> fatan2 0 x = M_PIf"
    using f32_pi(1) by (simp_all add: fatan2_def f32_div_def atan_0)
  ultimately show ?thesis by blast
qed

lemma fatan2_quadrants_witness:
  "fatan2 (- 1) 0 = - (M_PIf / 2) \<and> fatan2 0 (- 2) = M_PIf \<and> M_PIf / 2 \<le> fatan2 1 (- 2)"
  using fatan2_quadrants [of 1 0] fatan2_quadrants [of 1 "- 2"] by (simp add: normal_quotient_def)

lemma fatan2_right:
  assumes "0 \<le> x"
  shows "\<bar>fatan2 y x\<bar> \<le> M_PIf / 2" "fatan2 (- y) x = - fatan2 y x"
proof -
  have b: "\<bar>Math_FAtanContFracF q\<bar> \<le> M_PIf / 2" for q
    using atan_pos [of q] atan_pos [of "- q"] by (cases q "0 :: rat" rule: linorder_cases) (auto simp: atan_0 atan_minus M_PIf)
  show "\<bar>fatan2 y x\<bar> \<le> M_PIf / 2" using assms b pi_pos by (auto simp: fatan2_def half_pi)
  show "fatan2 (- y) x = - fatan2 y x" using assms by (auto simp: fatan2_def atan_minus)
qed

text \<open>with a root that is not negative, the inverse sine is odd and within a half turn, and the inverse
  cosine between zero and a half turn, on the whole interval from -1 to 1.\<close>

theorem Math_FAsinF_Math_FAcosF_range:
  assumes "\<forall>q\<ge>0. 0 \<le> sqrtf e q" "\<bar>x\<bar> \<le> 1"
  shows "\<bar>Math_FAsinF e x\<bar> \<le> M_PIf / 2 \<and> Math_FAsinF e (- x) = - Math_FAsinF e x \<and>
    0 \<le> Math_FAcosF e x \<and> Math_FAcosF e x \<le> M_PIf"
proof -
  have "x * x \<le> 1" using assms(2) by (simp add: abs_square_le_1 flip: power2_eq_square)
  then have "f32_mul x x \<le> 1" using f32_round_mono [of "x * x" 1] f32_1 by (simp add: f32_mul_def f32_def)
  then have s: "0 \<le> sqrtf e (f32_sub 1 (f32_mul x x))" using assms(1) by (simp add: f32_sub_def)
  note r = fatan2_right [OF s, of x]
  have "0 \<le> M_PIf / 2 - Math_FAsinF e x" "M_PIf / 2 - Math_FAsinF e x \<le> M_PIf"
    using r(1) by (simp_all add: Math_FAsinF_def abs_le_iff)
  from f32_between [OF _ f32_pi(1) this] r show ?thesis
    by (simp add: Math_FAsinF_def Math_FAcosF_def half_pi f32_sub_def)
qed

lemma Math_FAsinF_Math_FAcosF_range_witness:
  "Math_FAcosF \<lparr>sinf = \<lambda>x. 0, cosf = \<lambda>x. 1, sqrtf = \<lambda>x. x, floorf = \<lambda>x. x, ceilf = \<lambda>x. x, roundf = \<lambda>x. x,
     truncf = \<lambda>x. x, nearbyintf = \<lambda>x. x\<rparr> (- 1) \<le> M_PIf"
  using Math_FAsinF_Math_FAcosF_range [where x = "- 1" and e = "\<lparr>sinf = \<lambda>x. 0, cosf = \<lambda>x. 1, sqrtf = \<lambda>x. x,
     floorf = \<lambda>x. x, ceilf = \<lambda>x. x, roundf = \<lambda>x. x, truncf = \<lambda>x. x, nearbyintf = \<lambda>x. x\<rparr>"]
  by simp

end
