(* ===== verification/Boot.thy ===== *)
theory Boot
  imports Mesg StackCheck Timer Vi
begin

section \<open>The start of the machine\<close>

text \<open>
  From \<^verbatim>\<open>bootproc\<close> to the first instruction of the main thread: \<^verbatim>\<open>bootproc\<close>, \<^verbatim>\<open>bootclear\<close>,
  \<^verbatim>\<open>Idle_ThreadEntry\<close> and \<^verbatim>\<open>Idle_InitVideo\<close> of \<^verbatim>\<open>src/main/O2/65520.c\<close>, \<^verbatim>\<open>func_8006F500\<close> of \<^verbatim>\<open>70100.c\<close>, and of the
  library \<^verbatim>\<open>osInitialize\<close>, \<^verbatim>\<open>osCreateViManager\<close>, \<^verbatim>\<open>osCreatePiManager\<close> and the first wait of both managers.

  Every thread has a position in its code, and a step executes the code of the running thread up to
  the next call that can switch threads, which is the last thing the step does; so the interleaving
  is the one the scheduler of \<open>Threads\<close> makes, and no interrupt comes in between.  What the code
  reads from devices is part of the environment, lists where a loop waits for a value; a wait that
  the list does not end is \<^const>\<open>None\<close>, as are the steps of a thread past the part modelled here.
\<close>

datatype pc =
    BOOTPROC
  | BOOT_RETURN
  | IDLE_ENTRY
  | VI_CREATE int | VI_RESTORE int          \<comment> \<open>in \<^verbatim>\<open>osCreateViManager\<close>, with \<^verbatim>\<open>oldPri\<close>\<close>
  | IDLE_VIDEO
  | PI_CREATE int | PI_RESTORE int          \<comment> \<open>in \<^verbatim>\<open>osCreatePiManager\<close>, with \<^verbatim>\<open>oldPri\<close>\<close>
  | IDLE_MAIN | IDLE_LOWER | IDLE_SPIN
  | VIMGR_ENTRY | VIMGR_WAIT | VIMGR_TURN u32
  | PIMGR_ENTRY | PIMGR_TURN u32
  | MAIN_ENTRY

text \<open>The objects of the kernel: threads, the two wait queues of a message queue, the run queue.\<close>

datatype obj =
    sIdleThread | sMainThread | viThread | piThread
  | sPiMgrCmdQueue | sPiMgrCmdQueue_full | viEventQueue | viEventQueue_full | piEventQueue | piEventQueue_full
  | osPiAccessQueue | osPiAccessQueue_full
  | osRunQueue | osThreadTail

record boot_env =
  objs :: "obj \<Rightarrow> ptr"
  sBootStackInfo :: ptr
  sIdleStackInfo :: ptr
  sMainStackInfo :: ptr
  sBootStack :: ptr
  sIdleStack :: ptr
  sMainStack :: ptr
  boot_names :: "ptr \<times> ptr \<times> ptr"
  main_VRAM_END :: ptr
  at_osViModeTable :: ptr
  at_viRetraceMsg :: u32
  at_viCounterMsg :: u32
  at_osExceptionPreamble :: ptr
  at_osAppNMIBuffer :: ptr
  vi_objs :: vi_objects
  env_probeTLB :: "ptr \<Rightarrow> u32"
  env_osTvType :: u32
  osMemSize :: u32
  osResetType :: u32
  si_reads :: "(u32 \<times> u32) list"
  si_writes :: "u32 list"
  rom_clock :: u32
  vi_lines :: "u32 list"
  sp_imem :: u32
  sp_dmem :: u32
  pi_stats :: "u32 list \<times> u32 list"
  pi_words :: "u16 \<times> u16"

record boot =
  bt_mem :: mem
  bt_kernel :: kernel
  bt_pc :: "ptr \<Rightarrow> pc"
  bt_stacks :: stacks
  bt_mgr :: vimgr
  bt_timers :: timers
  bt_events :: event_table
  bt_queue :: "ptr \<Rightarrow> mesgq"
  viDevMgr_active :: bool
  piDevMgr_active :: bool
  osPiAccessQueueEnabled :: u32
  bt_sr :: u32
  bt_fpccsr :: u32
  bt_pif :: u32
  osFinalrom :: u32
  osClockRate :: u64
  osViClock :: u32
  D_80108620 :: u32
  D_80108624 :: u32
  D_80108628 :: u32

definition Y_THREAD_ID_IDLE :: int where "Y_THREAD_ID_IDLE = 1"
definition Y_THREAD_ID_MAIN :: int where "Y_THREAD_ID_MAIN = 3"
definition Y_PRIORITY_IDLE :: int where "Y_PRIORITY_IDLE = 10"
definition Y_PRIORITY_MAIN :: int where "Y_PRIORITY_MAIN = 10"
definition OS_PRIORITY_IDLE :: int where "OS_PRIORITY_IDLE = 0"
definition OS_PRIORITY_VIMGR :: int where "OS_PRIORITY_VIMGR = 254"
definition OS_PRIORITY_PIMGR :: int where "OS_PRIORITY_PIMGR = 150"
definition OS_EVENT_COUNTER :: nat where "OS_EVENT_COUNTER = 3"
definition OS_EVENT_VI :: nat where "OS_EVENT_VI = 7"
definition OS_EVENT_PI :: nat where "OS_EVENT_PI = 8"
definition VI_NTSC_CLOCK :: u32 where "VI_NTSC_CLOCK = 48681812"
definition VI_PAL_CLOCK :: u32 where "VI_PAL_CLOCK = 49656530"
definition VI_MPAL_CLOCK :: u32 where "VI_MPAL_CLOCK = 48628316"
definition OS_CLOCK_RATE :: u64 where "OS_CLOCK_RATE = 62500000"
definition OS_APP_NMI_BUFSIZE :: nat where "OS_APP_NMI_BUFSIZE = 64"

lemmas boot_consts = Y_THREAD_ID_IDLE_def Y_THREAD_ID_MAIN_def Y_PRIORITY_IDLE_def Y_PRIORITY_MAIN_def
  OS_PRIORITY_IDLE_def OS_PRIORITY_VIMGR_def OS_PRIORITY_PIMGR_def

subsection \<open>The initialisation\<close>

text \<open>\<^verbatim>\<open>osInitialize\<close> of this version of the library: the registers of the processor, the last byte of
  the memory of the serial interface, the exception vectors, the clocks and the buffer that
  survives a reset.  The mapping of the debugger's page and the caches have no effect here.\<close>

definition osInitialize :: "boot_env \<Rightarrow> boot \<Rightarrow> boot option" where
  "osInitialize e s =
     (case dropWhile (\<lambda>(err, _). err \<noteq> 0) (si_reads e) of
        [] \<Rightarrow> None
      | (_, pifdata) # _ \<Rightarrow>
        (case dropWhile (\<lambda>err. err \<noteq> 0) (si_writes e) of
           [] \<Rightarrow> None
         | _ # _ \<Rightarrow>
           (let vec = (\<lambda>m dst. mem_copy m m (at_osExceptionPreamble e) dst 16);
                m = vec (vec (vec (vec (bt_mem s) K0BASE) (K0BASE + 0x80)) (K0BASE + 0x100)) (K0BASE + 0x180);
                clock = rom_clock e AND NOT 0xf;
                rate = (if clock \<noteq> 0 then ucast clock else osClockRate s);
                m = (if osResetType e = 0 then mem_fill m (at_osAppNMIBuffer e) OS_APP_NMI_BUFSIZE 0 else m)
            in Some (s\<lparr>osFinalrom := 1, bt_sr := bt_sr s OR 0x20000000, bt_fpccsr := 0x01000000 OR 0x00000800 OR 0,
                  bt_pif := pifdata OR 8, bt_mem := m, osClockRate := rate * 3 div 4,
                  osViClock := (if env_osTvType e = 0 then VI_PAL_CLOCK
                                else if env_osTvType e = 2 then VI_MPAL_CLOCK else VI_NTSC_CLOCK)\<rparr>))))"

definition clear_bytes :: "boot_env \<Rightarrow> nat" where
  "clear_bytes e = unat (osMemSize e - (main_VRAM_END e AND 0x1FFFFFFF))"

definition bootclear :: "boot_env \<Rightarrow> boot \<Rightarrow> boot" where
  "bootclear e s =
     s\<lparr>bt_mem := mem_fill (bt_mem s) (main_VRAM_END e) (clear_bytes e) 0\<rparr>"

text \<open>The kernel calls over the whole state: the position of the caller is saved before a call that may
  switch, and a new thread begins at its entry.\<close>

definition goto :: "pc \<Rightarrow> boot \<Rightarrow> boot" where
  "goto p s = s\<lparr>bt_pc := (bt_pc s)(k_running (bt_kernel s) := p)\<rparr>"

definition create_thread :: "ptr \<Rightarrow> int \<Rightarrow> pc \<Rightarrow> int \<Rightarrow> boot \<Rightarrow> boot" where
  "create_thread t i entry p s = s\<lparr>bt_kernel := osCreateThread (bt_kernel s) t i p, bt_pc := (bt_pc s)(t := entry)\<rparr>"

definition start_thread :: "ptr \<Rightarrow> boot \<Rightarrow> boot option" where
  "start_thread t s = map_option (\<lambda>k. s\<lparr>bt_kernel := k\<rparr>) (osStartThread (bt_kernel s) t)"

definition set_pri :: "int \<Rightarrow> boot \<Rightarrow> boot option" where
  "set_pri p s = map_option (\<lambda>k. s\<lparr>bt_kernel := k\<rparr>) (osSetThreadPri (bt_kernel s) NULL p)"

definition create_queue :: "ptr \<Rightarrow> nat \<Rightarrow> boot \<Rightarrow> boot" where
  "create_queue a n s =
     (let (k, mq) = osCreateMesgQueue (bt_kernel s) a (replicate n 0) (int n)
      in s\<lparr>bt_kernel := k, bt_queue := (bt_queue s)(a := mq)\<rparr>)"

definition set_event :: "nat \<Rightarrow> ptr \<Rightarrow> u32 \<Rightarrow> boot \<Rightarrow> boot" where
  "set_event ev q m s = s\<lparr>bt_events := osSetEventMesg (bt_events s) ev q m\<rparr>"

definition check_stack :: "ptr \<Rightarrow> ptr \<Rightarrow> nat \<Rightarrow> s32 \<Rightarrow> ptr \<Rightarrow> boot \<Rightarrow> boot option" where
  "check_stack entry stack bytes minSpace name s =
     map_option (\<lambda>(st, m). s\<lparr>bt_stacks := st, bt_mem := m\<rparr>)
       (StackCheck_Init (bt_stacks s) (bt_mem s) entry stack (stack + of_nat bytes) 0 minSpace name)"

definition osGetThreadPri :: "kernel \<Rightarrow> ptr \<Rightarrow> int" where
  "osGetThreadPri k t = (let t = (if t = NULL then k_running k else t) in k_pri k t)"

definition bootproc :: "boot_env \<Rightarrow> boot \<Rightarrow> boot option" where
  "bootproc e s =
     do { s \<leftarrow> check_stack (sBootStackInfo e) (sBootStack e) 0x2000 (- 1) (fst (boot_names e)) s;
          s \<leftarrow> osInitialize e s;
          let s = bootclear e s;
          s \<leftarrow> check_stack (sIdleStackInfo e) (sIdleStack e) 0x200 0x100 (fst (snd (boot_names e))) s;
          start_thread (objs e sIdleThread)
            (goto BOOT_RETURN (create_thread (objs e sIdleThread) Y_THREAD_ID_IDLE IDLE_ENTRY Y_PRIORITY_IDLE s)) }"

subsection \<open>The managers\<close>

definition osCreateViManager :: "boot_env \<Rightarrow> int \<Rightarrow> pc \<Rightarrow> boot \<Rightarrow> boot option" where
  "osCreateViManager e pri ret s =
     (if viDevMgr_active s then Some (goto ret s)
      else
        (let s = s\<lparr>bt_timers := osTimerServicesInit (bt_timers s), bt_mgr := osTimerServicesInit_clock (bt_mgr s)\<rparr>;
             q = objs e viEventQueue;
             s = create_queue q 5 s;
             s = set_event OS_EVENT_VI q (at_viRetraceMsg e) s;
             s = set_event OS_EVENT_COUNTER q (at_viCounterMsg e) s;
             myPri = osGetThreadPri (bt_kernel s) NULL
         in if myPri < pri then set_pri pri (goto (VI_CREATE myPri) s) else Some (goto (VI_CREATE (- 1)) s)))"

definition osCreateViManager_start :: "boot_env \<Rightarrow> int \<Rightarrow> int \<Rightarrow> boot \<Rightarrow> boot option" where
  "osCreateViManager_start e pri oldPri s =
     do { let s = create_thread (objs e viThread) 0 VIMGR_ENTRY pri (s\<lparr>viDevMgr_active := True\<rparr>);
          v \<leftarrow> osViInit (env_probeTLB e) (vi_objs e) (env_osTvType e) (vi_lines e) (vm_vi (bt_mgr s));
          start_thread (objs e viThread) (goto (VI_RESTORE oldPri) (s\<lparr>bt_mgr := (bt_mgr s)\<lparr>vm_vi := v\<rparr>\<rparr>)) }"

definition restore_pri :: "int \<Rightarrow> pc \<Rightarrow> boot \<Rightarrow> boot option" where
  "restore_pri oldPri ret s = (if oldPri \<noteq> - 1 then set_pri oldPri (goto ret s) else Some (goto ret s))"

definition osPiCreateAccessQueue :: "boot_env \<Rightarrow> boot \<Rightarrow> boot option" where
  "osPiCreateAccessQueue e s =
     (let q = objs e osPiAccessQueue; s = create_queue q 1 (s\<lparr>osPiAccessQueueEnabled := 1\<rparr>)
      in map_option (\<lambda>(_, k, mq). s\<lparr>bt_kernel := k, bt_queue := (bt_queue s)(q := mq)\<rparr>)
           (osSendMesg (bt_kernel s) (bt_queue s q) NULL OS_MESG_NOBLOCK))"

definition osCreatePiManager :: "boot_env \<Rightarrow> int \<Rightarrow> nat \<Rightarrow> pc \<Rightarrow> boot \<Rightarrow> boot option" where
  "osCreatePiManager e pri cmdMsgCnt ret s =
     (if piDevMgr_active s then Some (goto ret s)
      else
        do { let s = create_queue (objs e piEventQueue) 1 (create_queue (objs e sPiMgrCmdQueue) cmdMsgCnt s);
             s \<leftarrow> (if osPiAccessQueueEnabled s = 0 then osPiCreateAccessQueue e s else Some s);
             let s = set_event OS_EVENT_PI (objs e piEventQueue) 0x22222222 s;
             let myPri = osGetThreadPri (bt_kernel s) NULL;
             if myPri < pri then set_pri pri (goto (PI_CREATE myPri) s) else Some (goto (PI_CREATE (- 1)) s) })"

definition osCreatePiManager_start :: "boot_env \<Rightarrow> int \<Rightarrow> int \<Rightarrow> boot \<Rightarrow> boot option" where
  "osCreatePiManager_start e pri oldPri s =
     start_thread (objs e piThread) (goto (PI_RESTORE oldPri)
       (create_thread (objs e piThread) 0 PIMGR_ENTRY pri (s\<lparr>piDevMgr_active := True\<rparr>)))"

text \<open>A blocking receive of the running thread, which goes on at \<open>next_pc\<close> with the message.\<close>

definition recv :: "ptr \<Rightarrow> (u32 \<Rightarrow> pc) \<Rightarrow> boot \<Rightarrow> boot option" where
  "recv q next_pc s =
     map_option (\<lambda>(r, k, mq).
         (case r of Received m \<Rightarrow> goto (next_pc m) s | _ \<Rightarrow> s)\<lparr>bt_kernel := k, bt_queue := (bt_queue s)(q := mq)\<rparr>)
       (osRecvMesg (bt_kernel s) (bt_queue s q) OS_MESG_BLOCK)"

subsection \<open>The idle thread\<close>

definition at_ViMode :: "boot_env \<Rightarrow> nat \<Rightarrow> ptr" where
  "at_ViMode e i = at_osViModeTable e + of_nat (80 * i)"

definition Idle_InitVideo :: "boot_env \<Rightarrow> vi \<Rightarrow> vi" where
  "Idle_InitVideo e v =
     (if env_osTvType e = 0 then osViSetMode (at_ViMode e (unat OS_VI_PAL_LAN1)) v
      else if env_osTvType e = 1 then osViSetMode (at_ViMode e (unat OS_VI_NTSC_LAN1)) v
      else if env_osTvType e = 2 then osViSetMode (at_ViMode e (unat OS_VI_MPAL_LAN1)) v
      else v)"

definition func_8006F500 :: "boot_env \<Rightarrow> boot \<Rightarrow> boot option" where
  "func_8006F500 e s =
     (let busy = (\<lambda>stat. stat AND 3 \<noteq> 0)
      in case (dropWhile busy (fst (pi_stats e)), dropWhile busy (snd (pi_stats e))) of
           (_ # _, _ # _) \<Rightarrow>
             Some (s\<lparr>D_80108620 := push_bit 16 (ucast (fst (pi_words e))) OR ucast (snd (pi_words e))\<rparr>)
         | _ \<Rightarrow> None)"

definition Idle_video :: "boot_env \<Rightarrow> boot \<Rightarrow> boot" where
  "Idle_video e s =
     s\<lparr>bt_mgr := (bt_mgr s)\<lparr>vm_vi := osViBlack 1 (osViSetSpecialFeatures
         (OS_VI_DITHER_FILTER_ON OR OS_VI_GAMMA_DITHER_OFF OR OS_VI_GAMMA_OFF)
         (Idle_InitVideo e (vm_vi (bt_mgr s))))\<rparr>\<rparr>"

definition Idle_main :: "boot_env \<Rightarrow> boot \<Rightarrow> boot option" where
  "Idle_main e s =
     do { s \<leftarrow> check_stack (sMainStackInfo e) (sMainStack e) 0x2700 0x1000 (snd (snd (boot_names e))) s;
          let s = create_thread (objs e sMainThread) Y_THREAD_ID_MAIN MAIN_ENTRY Y_PRIORITY_MAIN s;
          s \<leftarrow> func_8006F500 e (s\<lparr>D_80108624 := sp_imem e, D_80108628 := sp_dmem e\<rparr>);
          start_thread (objs e sMainThread) (goto IDLE_LOWER s) }"

text \<open>The step of the running thread.\<close>

definition boot_step :: "boot_env \<Rightarrow> boot \<Rightarrow> boot option" where
  "boot_step e s =
     (case bt_pc s (k_running (bt_kernel s)) of
        BOOTPROC \<Rightarrow> bootproc e s
      | IDLE_ENTRY \<Rightarrow> osCreateViManager e OS_PRIORITY_VIMGR IDLE_VIDEO s
      | VI_CREATE oldPri \<Rightarrow> osCreateViManager_start e OS_PRIORITY_VIMGR oldPri s
      | VI_RESTORE oldPri \<Rightarrow> restore_pri oldPri IDLE_VIDEO s
      | IDLE_VIDEO \<Rightarrow> osCreatePiManager e OS_PRIORITY_PIMGR 8 IDLE_MAIN (Idle_video e s)
      | PI_CREATE oldPri \<Rightarrow> osCreatePiManager_start e OS_PRIORITY_PIMGR oldPri s
      | PI_RESTORE oldPri \<Rightarrow> restore_pri oldPri IDLE_MAIN s
      | IDLE_MAIN \<Rightarrow> Idle_main e s
      | IDLE_LOWER \<Rightarrow> set_pri OS_PRIORITY_IDLE (goto IDLE_SPIN s)
      | IDLE_SPIN \<Rightarrow> Some s
      | VIMGR_ENTRY \<Rightarrow> Some (goto VIMGR_WAIT (s\<lparr>bt_mgr := viMgrMain_start (bt_mgr s)\<rparr>))
      | VIMGR_WAIT \<Rightarrow> recv (objs e viEventQueue) VIMGR_TURN s
      | PIMGR_ENTRY \<Rightarrow> recv (objs e sPiMgrCmdQueue) PIMGR_TURN s
      | _ \<Rightarrow> None)"

primrec boot_steps :: "nat \<Rightarrow> boot_env \<Rightarrow> boot \<Rightarrow> boot option" where
  "boot_steps 0 e s = Some s"
| "boot_steps (Suc n) e s = do { s' \<leftarrow> boot_step e s; boot_steps n e s' }"

subsection \<open>Where the objects lie and what the machine starts with\<close>

text \<open>The objects are different, none is at address zero, and the second wait queue of a message queue
  is the word behind the first.\<close>

definition layout :: "boot_env \<Rightarrow> bool" where
  "layout e \<longleftrightarrow> inj (objs e) \<and> NULL \<notin> range (objs e) \<and>
     objs e sPiMgrCmdQueue_full = objs e sPiMgrCmdQueue + 4 \<and> objs e viEventQueue_full = objs e viEventQueue + 4 \<and>
     objs e piEventQueue_full = objs e piEventQueue + 4 \<and> objs e osPiAccessQueue_full = objs e osPiAccessQueue + 4"

lemma layout_simps:
  assumes "layout e"
  shows "objs e a = objs e b \<longleftrightarrow> a = b" "objs e a \<noteq> NULL" "NULL \<noteq> objs e a"
    "objs e sPiMgrCmdQueue + 4 = objs e sPiMgrCmdQueue_full" "objs e viEventQueue + 4 = objs e viEventQueue_full"
    "objs e piEventQueue + 4 = objs e piEventQueue_full" "objs e osPiAccessQueue + 4 = objs e osPiAccessQueue_full"
  using assms by (auto simp: layout_def inj_eq intro: rangeI)

text \<open>The kernel before the first thread, and its evaluation on the objects.\<close>

definition fresh_kernel :: "boot_env \<Rightarrow> kernel \<Rightarrow> bool" where
  "fresh_kernel e k \<longleftrightarrow> k_running k = NULL \<and> k_runq k = objs e osRunQueue \<and> k_tail k = objs e osThreadTail \<and>
     k_next k (objs e osRunQueue) = objs e osThreadTail \<and> k_next k (objs e osThreadTail) = NULL \<and>
     k_pri k (objs e osThreadTail) = - 1"

lemma enq_search_step:
  "k_pri k t8 < p \<Longrightarrow> enq_search k p t9 t8 = Some t9"
  "\<not> k_pri k t8 < p \<Longrightarrow> enq_search k p t9 t8 = enq_search k p t8 (k_next k t8)"
  by (subst enq_search.simps; simp)+

lemmas kernel_eval = osStartThread_def osSetThreadPri_def osCreateThread_def osEnqueueThread_def osPopThread_def
  osDispatchThread_def osEnqueueAndYield_def yield_if_preempted_def park_def set_state_def os_state_defs Let_def
  enq_search_step osCreateMesgQueue_def osRecvMesg_def osSendMesg_def MQ_IS_EMPTY_def MQ_IS_FULL_def mq_mtqueue_def
  mq_fullqueue_def wake_one_def mq_put_def os_mesg_defs boot_consts

lemmas boot_eval = boot_step_def goto_def create_thread_def start_thread_def set_pri_def create_queue_def set_event_def
  osGetThreadPri_def recv_def restore_pri_def

text \<open>What the waits of the start need from the devices, and where the monitored stacks lie.\<close>

definition devices_ready :: "boot_env \<Rightarrow> bool" where
  "devices_ready e \<longleftrightarrow> dropWhile (\<lambda>(err, _). err \<noteq> 0) (si_reads e) \<noteq> [] \<and> dropWhile (\<lambda>err. err \<noteq> 0) (si_writes e) \<noteq> [] \<and>
     1 < length (dropWhile (\<lambda>r. 10 < r) (vi_lines e)) \<and>
     dropWhile (\<lambda>stat. stat AND 3 \<noteq> 0) (fst (pi_stats e)) \<noteq> [] \<and>
     dropWhile (\<lambda>stat. stat AND 3 \<noteq> 0) (snd (pi_stats e)) \<noteq> []"

definition stacks_placed :: "boot_env \<Rightarrow> bool" where
  "stacks_placed e \<longleftrightarrow> distinct [NULL, sBootStackInfo e, sIdleStackInfo e, sMainStackInfo e] \<and>
     unat (main_VRAM_END e) + clear_bytes e < 2 ^ 32 \<and> unat (sBootStack e) + 0x2000 \<le> unat (main_VRAM_END e) \<and>
     unat (sIdleStack e) + 0x200 \<le> unat (main_VRAM_END e) \<and> unat (sMainStack e) + 0x2700 \<le> unat (main_VRAM_END e)"

lemma StackCheck_Init_appends:
  assumes "stack_list st xs" "p \<notin> set xs" "p \<noteq> NULL" "unat base + 4 * n < 2 ^ 32"
  shows "\<exists>st' m'. StackCheck_Init st m p base (base + of_nat (4 * n)) v ms nm = Some (st', m') \<and>
    stack_list st' (xs @ [p]) \<and> (ms \<noteq> - 1 \<longrightarrow> (\<forall>i<n. load32 m' (base + of_nat (4 * i)) = v)) \<and>
    (\<forall>x. \<not> in_block base (4 * n) x \<longrightarrow> m' x = m x)"
proof -
  let ?f = "\<lambda>e. e\<lparr>se_head := base, se_tail := base + of_nat (4 * n), se_initValue := v, se_minSpace := ms,
    se_name := nm, se_prev := sStackInfoListEnd st, se_next := NULL\<rparr>"
  have "sStackInfoListEnd st \<noteq> p"
    using assms(1-3) last_in_set [of xs] by (auto simp: stack_list_def split: if_splits)
  note eq = StackCheck_Init_eq [OF assms(3) this, of m base "base + of_nat (4 * n)" v ms nm]
  have "stack_list (init_links st p ?f) (xs @ [p])" by (rule init_links_appends [OF assms(1-3)]) simp_all
  moreover obtain m' where "fill_loop v (base + of_nat (4 * n)) base m = Some m'"
    "\<forall>i<n. load32 m' (base + of_nat (4 * i)) = v" "\<forall>x. \<not> in_block base (4 * n) x \<longrightarrow> m' x = m x"
    using fill_loop_fills [OF assms(4)] by blast
  ultimately show ?thesis using eq by (cases "ms = - 1") auto
qed

definition cleared :: "boot_env \<Rightarrow> mem \<Rightarrow> bool" where
  "cleared e m \<longleftrightarrow> (\<forall>x. in_block (main_VRAM_END e) (clear_bytes e) x \<longrightarrow> m x = 0)"

lemma in_block_range:
  assumes "in_block a n x" "unat a + n < 2 ^ 32"
  shows "unat a \<le> unat x" "unat x < unat a + n"
proof -
  have "unat (a + d) = unat a + unat d" if "unat a + unat d < 2 ^ 32" for d
    using that by (simp add: unat_word_ariths(1) take_bit_nat_eq_self)
  from this [of "x - a"] have "unat x = unat a + unat (x - a)" using assms by (simp add: in_block_def)
  then show "unat a \<le> unat x" "unat x < unat a + n" using assms(1) by (simp_all add: in_block_def)
qed

lemma check_stack_appends:
  assumes "stack_list (bt_stacks s) xs" "p \<notin> set xs" "p \<noteq> NULL" "unat base + 4 * n \<le> unat (main_VRAM_END e)"
    "unat (main_VRAM_END e) + clear_bytes e < 2 ^ 32"
  shows "\<exists>st m. check_stack p base (4 * n) ms nm s = Some (s\<lparr>bt_stacks := st, bt_mem := m\<rparr>) \<and>
    stack_list st (xs @ [p]) \<and> (ms \<noteq> - 1 \<longrightarrow> (\<forall>i<n. load32 m (base + of_nat (4 * i)) = 0)) \<and>
    (cleared e (bt_mem s) \<longrightarrow> cleared e m)"
proof -
  have "unat base + 4 * n < 2 ^ 32" using assms(4,5) by simp
  from StackCheck_Init_appends [OF assms(1-3) this, of "bt_mem s" 0 ms nm] obtain st m where
    st: "StackCheck_Init (bt_stacks s) (bt_mem s) p base (base + of_nat (4 * n)) 0 ms nm = Some (st, m)"
      "stack_list st (xs @ [p])" "ms \<noteq> - 1 \<longrightarrow> (\<forall>i<n. load32 m (base + of_nat (4 * i)) = 0)"
      "\<forall>x. \<not> in_block base (4 * n) x \<longrightarrow> m x = bt_mem s x" by blast
  have "\<not> in_block base (4 * n) x" if "in_block (main_VRAM_END e) (clear_bytes e) x" for x
    using in_block_range [OF that assms(5)] in_block_range [of base "4 * n" x] assms(4,5) by fastforce
  then show ?thesis using st by (intro exI [of _ st] exI [of _ m]) (auto simp: check_stack_def cleared_def)
qed

definition powered_on :: "boot_env \<Rightarrow> boot \<Rightarrow> bool" where
  "powered_on e s \<longleftrightarrow> fresh_kernel e (bt_kernel s) \<and> bt_pc s NULL = BOOTPROC \<and> stack_list (bt_stacks s) [] \<and>
     \<not> viDevMgr_active s \<and> \<not> piDevMgr_active s \<and> osPiAccessQueueEnabled s = 0"

text \<open>The states on the way: the idle thread alone, before the second manager, before the main thread.\<close>

definition idle_runs :: "boot_env \<Rightarrow> kernel \<Rightarrow> bool" where
  "idle_runs e k \<longleftrightarrow> k_running k = objs e sIdleThread \<and> k_runq k = objs e osRunQueue \<and> k_tail k = objs e osThreadTail \<and>
     k_next k (objs e osRunQueue) = objs e osThreadTail \<and> k_next k (objs e osThreadTail) = NULL \<and>
     k_pri k (objs e osThreadTail) = - 1 \<and> k_pri k (objs e sIdleThread) = 10"

definition waits :: "boot_env \<Rightarrow> obj \<Rightarrow> obj \<Rightarrow> int \<Rightarrow> kernel \<Rightarrow> bool" where
  "waits e t q p k \<longleftrightarrow> k_pri k (objs e t) = p \<and> k_state k (objs e t) = OS_STATE_WAITING \<and>
     k_next k (objs e q) = objs e t \<and> k_next k (objs e t) = objs e osThreadTail"

lemma osInitialize_returns:
  assumes "devices_ready e"
  shows "\<exists>s'. osInitialize e s = Some s' \<and> bt_stacks s' = bt_stacks s \<and> bt_kernel s' = bt_kernel s \<and> bt_pc s' = bt_pc s \<and>
    viDevMgr_active s' = viDevMgr_active s \<and> piDevMgr_active s' = piDevMgr_active s \<and>
    osPiAccessQueueEnabled s' = osPiAccessQueueEnabled s"
proof -
  obtain p ps w ws where "dropWhile (\<lambda>(err, _). err \<noteq> 0) (si_reads e) = p # ps" "dropWhile (\<lambda>err. err \<noteq> 0) (si_writes e) = w # ws"
    using assms by (auto simp: devices_ready_def neq_Nil_conv simp del: dropWhile_eq_Nil_conv)
  then show ?thesis by (cases p) (simp add: osInitialize_def Let_def)
qed

lemma bootproc_step:
  assumes l: "layout e" and "devices_ready e" and p: "stacks_placed e" and s: "powered_on e s"
  shows "\<exists>s'. boot_step e s = Some s' \<and> idle_runs e (bt_kernel s') \<and> bt_pc s' (objs e sIdleThread) = IDLE_ENTRY \<and>
    stack_list (bt_stacks s') [sBootStackInfo e, sIdleStackInfo e] \<and> cleared e (bt_mem s') \<and>
    \<not> viDevMgr_active s' \<and> \<not> piDevMgr_active s' \<and> osPiAccessQueueEnabled s' = 0"
proof -
  let ?boot = "sBootStackInfo e" and ?idle = "sIdleStackInfo e"
  obtain st1 m1 where 1: "check_stack ?boot (sBootStack e) 0x2000 (- 1) (fst (boot_names e)) s
      = Some (s\<lparr>bt_stacks := st1, bt_mem := m1\<rparr>)" "stack_list st1 [?boot]"
    using check_stack_appends [of s "[]" ?boot "sBootStack e" "0x800" e "- 1" "fst (boot_names e)"] s p
    by (auto simp: powered_on_def stacks_placed_def)
  obtain s2 where 2: "osInitialize e (s\<lparr>bt_stacks := st1, bt_mem := m1\<rparr>) = Some s2"
    "bt_stacks s2 = st1" "bt_kernel s2 = bt_kernel s" "bt_pc s2 = bt_pc s" "viDevMgr_active s2 = viDevMgr_active s"
    "piDevMgr_active s2 = piDevMgr_active s" "osPiAccessQueueEnabled s2 = osPiAccessQueueEnabled s"
    using osInitialize_returns [OF assms(2), of "s\<lparr>bt_stacks := st1, bt_mem := m1\<rparr>"] by auto
  obtain st3 m3 where 3: "check_stack ?idle (sIdleStack e) 0x200 0x100 (fst (snd (boot_names e))) (bootclear e s2)
      = Some ((bootclear e s2)\<lparr>bt_stacks := st3, bt_mem := m3\<rparr>)" "stack_list st3 [?boot, ?idle]" "cleared e m3"
    using check_stack_appends [of "bootclear e s2" "[?boot]" ?idle "sIdleStack e" "0x80" e "0x100" "fst (snd (boot_names e))"] p 1 2(2)
    by (auto simp: stacks_placed_def bootclear_def cleared_def mem_simps)
  show ?thesis using s 1 2 3
    by (simp add: boot_eval kernel_eval bootproc_def powered_on_def fresh_kernel_def idle_runs_def layout_simps [OF l] bootclear_def)
qed

lemma osViInit_returns:
  "devices_ready e \<Longrightarrow> \<exists>v'. osViInit (env_probeTLB e) (vi_objs e) (env_osTvType e) (vi_lines e) v = Some v'"
proof -
  assume "devices_ready e"
  then obtain a b xs where "dropWhile (\<lambda>r. 10 < r) (vi_lines e) = a # b # xs"
    by (auto simp: devices_ready_def Suc_less_eq2 length_Suc_conv less_eq_Suc_le Suc_le_length_iff
        simp del: dropWhile_eq_Nil_conv)
  then show ?thesis by (simp add: osViInit_def Let_def)
qed

lemma vi_manager_steps:
  assumes l: "layout e" and "devices_ready e" and k: "idle_runs e (bt_kernel s)"
    and pc: "bt_pc s (objs e sIdleThread) = IDLE_ENTRY" and "\<not> viDevMgr_active s"
  shows "\<exists>s'. boot_steps 5 e s = Some s' \<and> idle_runs e (bt_kernel s') \<and> bt_pc s' (objs e sIdleThread) = IDLE_VIDEO \<and>
    waits e viThread viEventQueue 254 (bt_kernel s') \<and>
    bt_events s' = (bt_events s)(OS_EVENT_VI := (objs e viEventQueue, at_viRetraceMsg e),
      OS_EVENT_COUNTER := (objs e viEventQueue, at_viCounterMsg e)) \<and>
    bt_stacks s' = bt_stacks s \<and> bt_mem s' = bt_mem s \<and> piDevMgr_active s' = piDevMgr_active s \<and>
    osPiAccessQueueEnabled s' = osPiAccessQueueEnabled s"
proof -
  obtain v where v: "osViInit (env_probeTLB e) (vi_objs e) (env_osTvType e) (vi_lines e)
      (vm_vi (osTimerServicesInit_clock (bt_mgr s))) = Some v"
    using osViInit_returns [OF assms(2)] by blast
  have "k_running (bt_kernel s) = objs e sIdleThread" using k by (simp add: idle_runs_def)
  then show ?thesis
    using k pc v assms(5)
    by (simp add: eval_nat_numeral boot_eval kernel_eval idle_runs_def waits_def layout_simps [OF l]
        osCreateViManager_def osCreateViManager_start_def osSetEventMesg_def)
qed

lemma pi_manager_steps:
  assumes l: "layout e" and k: "idle_runs e (bt_kernel s)" "waits e viThread viEventQueue 254 (bt_kernel s)"
    and pc: "bt_pc s (objs e sIdleThread) = IDLE_VIDEO" and "\<not> piDevMgr_active s" "osPiAccessQueueEnabled s = 0"
  shows "\<exists>s'. boot_steps 4 e s = Some s' \<and> idle_runs e (bt_kernel s') \<and> bt_pc s' (objs e sIdleThread) = IDLE_MAIN \<and>
    waits e viThread viEventQueue 254 (bt_kernel s') \<and> waits e piThread sPiMgrCmdQueue 150 (bt_kernel s') \<and>
    bt_events s' = (bt_events s)(OS_EVENT_PI := (objs e piEventQueue, 0x22222222)) \<and>
    bt_mgr s' = bt_mgr (Idle_video e s) \<and> bt_stacks s' = bt_stacks s \<and> bt_mem s' = bt_mem s"
  using k pc assms(5,6)
  by (simp add: eval_nat_numeral boot_eval kernel_eval idle_runs_def waits_def layout_simps [OF l]
      osCreatePiManager_def osCreatePiManager_start_def osPiCreateAccessQueue_def osSetEventMesg_def Idle_video_def)

lemma func_8006F500_returns:
  "devices_ready e \<Longrightarrow> \<exists>w. func_8006F500 e s = Some (s\<lparr>D_80108620 := w\<rparr>)"
  by (auto simp: func_8006F500_def devices_ready_def neq_Nil_conv Let_def simp del: dropWhile_eq_Nil_conv)

definition main_runs :: "boot_env \<Rightarrow> kernel \<Rightarrow> bool" where
  "main_runs e k \<longleftrightarrow> k_running k = objs e sMainThread \<and> k_runq k = objs e osRunQueue \<and> k_tail k = objs e osThreadTail \<and>
     k_next k (objs e osRunQueue) = objs e sIdleThread \<and> k_next k (objs e sIdleThread) = objs e osThreadTail \<and>
     k_next k (objs e osThreadTail) = NULL \<and> k_pri k (objs e osThreadTail) = - 1 \<and>
     k_pri k (objs e sMainThread) = 10 \<and> k_pri k (objs e sIdleThread) = 0"

lemma main_steps:
  assumes l: "layout e" and "devices_ready e" and p: "stacks_placed e" and k: "idle_runs e (bt_kernel s)"
    "waits e viThread viEventQueue 254 (bt_kernel s)" "waits e piThread sPiMgrCmdQueue 150 (bt_kernel s)"
    and pc: "bt_pc s (objs e sIdleThread) = IDLE_MAIN"
    and st: "stack_list (bt_stacks s) [sBootStackInfo e, sIdleStackInfo e]" "cleared e (bt_mem s)"
  shows "\<exists>s'. boot_steps 2 e s = Some s' \<and> main_runs e (bt_kernel s') \<and>
    bt_pc s' (objs e sMainThread) = MAIN_ENTRY \<and> bt_pc s' (objs e sIdleThread) = IDLE_SPIN \<and>
    stack_list (bt_stacks s') [sBootStackInfo e, sIdleStackInfo e, sMainStackInfo e] \<and>
    (\<forall>i<0x9C0. load32 (bt_mem s') (sMainStack e + of_nat (4 * i)) = 0) \<and> cleared e (bt_mem s') \<and>
    waits e viThread viEventQueue 254 (bt_kernel s') \<and> waits e piThread sPiMgrCmdQueue 150 (bt_kernel s') \<and>
    bt_mgr s' = bt_mgr s \<and> bt_events s' = bt_events s"
proof -
  obtain st m where 1: "check_stack (sMainStackInfo e) (sMainStack e) 0x2700 0x1000 (snd (snd (boot_names e))) s
      = Some (s\<lparr>bt_stacks := st, bt_mem := m\<rparr>)" "stack_list st [sBootStackInfo e, sIdleStackInfo e, sMainStackInfo e]"
    "\<forall>i<0x9C0. load32 m (sMainStack e + of_nat (4 * i)) = 0" "cleared e m"
    using check_stack_appends [OF st(1), of "sMainStackInfo e" "sMainStack e" "0x9C0" e "0x1000" "snd (snd (boot_names e))"] p st(2)
    by (auto simp: stacks_placed_def)
  let ?s = "(create_thread (objs e sMainThread) Y_THREAD_ID_MAIN MAIN_ENTRY Y_PRIORITY_MAIN (s\<lparr>bt_stacks := st, bt_mem := m\<rparr>))
    \<lparr>D_80108624 := sp_imem e, D_80108628 := sp_dmem e\<rparr>"
  obtain w where 2: "func_8006F500 e ?s = Some (?s\<lparr>D_80108620 := w\<rparr>)"
    using func_8006F500_returns [OF assms(2)] by blast
  then have "boot_step e s = start_thread (objs e sMainThread) (goto IDLE_LOWER (?s\<lparr>D_80108620 := w\<rparr>))"
    using k pc 1(1) by (simp add: boot_step_def Idle_main_def idle_runs_def)
  then show ?thesis using k 1(2,3,4)
    by (simp add: eval_nat_numeral boot_eval kernel_eval idle_runs_def main_runs_def waits_def layout_simps [OF l])
qed

subsection \<open>The machine starts\<close>

lemma boot_steps_add: "boot_steps (m + n) e s = do { s' \<leftarrow> boot_steps m e s; boot_steps n e s' }"
  by (induction m arbitrary: s) (auto split: bind_splits)

lemma waits_tqueue:
  assumes "layout e" "waits e t q p k" "main_runs e k" "0 \<le> p" "t \<noteq> q" "t \<noteq> osThreadTail" "q \<noteq> osThreadTail"
  shows "tqueue k (objs e q) [objs e t]"
  using assms(2-) by (auto simp: waits_def main_runs_def tqueue_def by_priority_def layout_simps [OF assms(1)])

lemma main_runs_sched: "layout e \<Longrightarrow> main_runs e k \<Longrightarrow> sched_inv k [objs e sIdleThread]"
  by (simp add: main_runs_def sched_inv_def tqueue_def by_priority_def layout_simps)

lemma Idle_video_black:
  "vc_state (next_ctx (vm_vi (bt_mgr (Idle_video e s)))) AND VI_STATE_BLACK \<noteq> 0"
  by (simp add: Idle_video_def osViBlack_def upd_next_def next_ctx_def set_flag_def vi_state_defs)

definition start_mode :: "boot_env \<Rightarrow> ptr" where
  "start_mode e = at_ViMode e (unat (if env_osTvType e = 0 then OS_VI_PAL_LAN1
     else if env_osTvType e = 1 then OS_VI_NTSC_LAN1 else OS_VI_MPAL_LAN1))"

lemma word_le_2: "(t::u32) \<le> 2 \<longleftrightarrow> t = 0 \<or> t = 1 \<or> t = 2"
proof -
  have "t \<le> 2 \<longleftrightarrow> unat t \<le> 2" by (simp add: word_le_nat_alt)
  also have "\<dots> \<longleftrightarrow> unat t = 0 \<or> unat t = 1 \<or> unat t = 2" by arith
  finally show ?thesis by (simp add: word_unat_eq_iff)
qed

lemma Idle_video_mode:
  "env_osTvType e \<le> 2 \<Longrightarrow> vc_modep (next_ctx (vm_vi (bt_mgr (Idle_video e s)))) = start_mode e"
  by (auto simp: Idle_video_def Idle_InitVideo_def osViBlack_def osViSetSpecialFeatures_def osViSetMode_def upd_next_def
      next_ctx_def set_flag_def start_mode_def word_le_2)

text \<open>Claim C7: the machine starts.  From a kernel without threads and devices that answer, the first twelve
  pieces of code that the scheduler runs end with the main thread at its first instruction; the idle
  thread is ready behind it with the lowest priority, in its endless loop, and both managers wait for
  messages with their events registered.  The monitor lists the three stacks, the stack of the main
  thread and the memory behind the program are clear, and the picture prepared is black and in the
  mode of the television standard.\<close>

theorem boot_reaches_main:
  assumes "layout e" "devices_ready e" "stacks_placed e" "powered_on e s" "env_osTvType e \<le> 2"
  shows "\<exists>s'. boot_steps 12 e s = Some s' \<and>
    k_running (bt_kernel s') = objs e sMainThread \<and> bt_pc s' (objs e sMainThread) = MAIN_ENTRY \<and>
    sched_inv (bt_kernel s') [objs e sIdleThread] \<and> bt_pc s' (objs e sIdleThread) = IDLE_SPIN \<and>
    k_pri (bt_kernel s') (objs e sMainThread) = 10 \<and> k_pri (bt_kernel s') (objs e sIdleThread) = 0 \<and>
    tqueue (bt_kernel s') (objs e viEventQueue) [objs e viThread] \<and>
    tqueue (bt_kernel s') (objs e sPiMgrCmdQueue) [objs e piThread] \<and>
    bt_events s' OS_EVENT_VI = (objs e viEventQueue, at_viRetraceMsg e) \<and>
    bt_events s' OS_EVENT_COUNTER = (objs e viEventQueue, at_viCounterMsg e) \<and>
    fst (bt_events s' OS_EVENT_PI) = objs e piEventQueue \<and>
    stack_list (bt_stacks s') [sBootStackInfo e, sIdleStackInfo e, sMainStackInfo e] \<and>
    (\<forall>i<0x9C0. load32 (bt_mem s') (sMainStack e + of_nat (4 * i)) = 0) \<and>
    (\<forall>x. in_block (main_VRAM_END e) (clear_bytes e) x \<longrightarrow> bt_mem s' x = 0) \<and>
    vc_state (next_ctx (vm_vi (bt_mgr s'))) AND VI_STATE_BLACK \<noteq> 0 \<and>
    vc_modep (next_ctx (vm_vi (bt_mgr s'))) = start_mode e"
proof -
  obtain s1 where 1: "boot_steps 1 e s = Some s1" "idle_runs e (bt_kernel s1)" "bt_pc s1 (objs e sIdleThread) = IDLE_ENTRY"
    "stack_list (bt_stacks s1) [sBootStackInfo e, sIdleStackInfo e]" "cleared e (bt_mem s1)"
    "\<not> viDevMgr_active s1" "\<not> piDevMgr_active s1" "osPiAccessQueueEnabled s1 = 0"
    using bootproc_step [OF assms(1-4)] by (auto simp: One_nat_def)
  obtain s2 where 2: "boot_steps 5 e s1 = Some s2" "idle_runs e (bt_kernel s2)" "bt_pc s2 (objs e sIdleThread) = IDLE_VIDEO"
    "waits e viThread viEventQueue 254 (bt_kernel s2)"
    "bt_events s2 = (bt_events s1)(OS_EVENT_VI := (objs e viEventQueue, at_viRetraceMsg e),
      OS_EVENT_COUNTER := (objs e viEventQueue, at_viCounterMsg e))"
    "bt_stacks s2 = bt_stacks s1" "bt_mem s2 = bt_mem s1" "\<not> piDevMgr_active s2" "osPiAccessQueueEnabled s2 = 0"
    using vi_manager_steps [OF assms(1,2) 1(2,3,6)] 1(7,8) by auto
  obtain s3 where 3: "boot_steps 4 e s2 = Some s3" "idle_runs e (bt_kernel s3)" "bt_pc s3 (objs e sIdleThread) = IDLE_MAIN"
    "waits e viThread viEventQueue 254 (bt_kernel s3)" "waits e piThread sPiMgrCmdQueue 150 (bt_kernel s3)"
    "bt_events s3 = (bt_events s2)(OS_EVENT_PI := (objs e piEventQueue, 0x22222222))"
    "bt_mgr s3 = bt_mgr (Idle_video e s2)" "bt_stacks s3 = bt_stacks s2" "bt_mem s3 = bt_mem s2"
    using pi_manager_steps [OF assms(1) 2(2,4,3,8,9)] by auto
  have st: "stack_list (bt_stacks s3) [sBootStackInfo e, sIdleStackInfo e]" "cleared e (bt_mem s3)"
    using 1(4,5) 2(6,7) 3(8,9) by simp_all
  from main_steps [OF assms(1-3) 3(2,4,5,3) st] obtain s4 where 4: "boot_steps 2 e s3 = Some s4"
    "main_runs e (bt_kernel s4)" "bt_pc s4 (objs e sMainThread) = MAIN_ENTRY" "bt_pc s4 (objs e sIdleThread) = IDLE_SPIN"
    "stack_list (bt_stacks s4) [sBootStackInfo e, sIdleStackInfo e, sMainStackInfo e]"
    "\<forall>i<0x9C0. load32 (bt_mem s4) (sMainStack e + of_nat (4 * i)) = 0" "cleared e (bt_mem s4)"
    "waits e viThread viEventQueue 254 (bt_kernel s4)" "waits e piThread sPiMgrCmdQueue 150 (bt_kernel s4)"
    "bt_mgr s4 = bt_mgr s3" "bt_events s4 = bt_events s3" by blast
  have "boot_steps (1 + (5 + (4 + 2))) e s = Some s4"
    unfolding boot_steps_add using 1(1) 2(1) 3(1) 4(1) by simp
  moreover have "k_running (bt_kernel s4) = objs e sMainThread" "k_pri (bt_kernel s4) (objs e sMainThread) = 10"
    "k_pri (bt_kernel s4) (objs e sIdleThread) = 0"
    using 4(2) by (simp_all add: main_runs_def)
  moreover have "tqueue (bt_kernel s4) (objs e viEventQueue) [objs e viThread]"
    "tqueue (bt_kernel s4) (objs e sPiMgrCmdQueue) [objs e piThread]"
    using waits_tqueue [OF assms(1) 4(8,2)] waits_tqueue [OF assms(1) 4(9,2)] by simp_all
  moreover have "bt_events s4 OS_EVENT_VI = (objs e viEventQueue, at_viRetraceMsg e)"
    "bt_events s4 OS_EVENT_COUNTER = (objs e viEventQueue, at_viCounterMsg e)"
    "fst (bt_events s4 OS_EVENT_PI) = objs e piEventQueue"
    using 4(11) 3(6) 2(5) by (simp_all add: OS_EVENT_VI_def OS_EVENT_COUNTER_def OS_EVENT_PI_def)
  moreover note main_runs_sched [OF assms(1) 4(2)] Idle_video_black [of e s2] Idle_video_mode [OF assms(5), of s2]
  ultimately show ?thesis using 4(3-7,10) 3(7) by (simp add: cleared_def)
qed

text \<open>A machine with four megabytes, a PAL television and devices that are busy at first.\<close>

fun sample_objs :: "obj \<Rightarrow> ptr" where
  "sample_objs sIdleThread = 0x80101000"
| "sample_objs sMainThread = 0x80102000"
| "sample_objs viThread = 0x80103000"
| "sample_objs piThread = 0x80104000"
| "sample_objs sPiMgrCmdQueue = 0x80105000"
| "sample_objs sPiMgrCmdQueue_full = 0x80105004"
| "sample_objs viEventQueue = 0x80106000"
| "sample_objs viEventQueue_full = 0x80106004"
| "sample_objs piEventQueue = 0x80107000"
| "sample_objs piEventQueue_full = 0x80107004"
| "sample_objs osPiAccessQueue = 0x80108000"
| "sample_objs osPiAccessQueue_full = 0x80108004"
| "sample_objs osRunQueue = 0x80109000"
| "sample_objs osThreadTail = 0x8010A000"

definition sample_env :: boot_env where
  "sample_env =
     \<lparr>objs = sample_objs, sBootStackInfo = 0x80110000, sIdleStackInfo = 0x80110020, sMainStackInfo = 0x80110040,
      sBootStack = 0x80111000, sIdleStack = 0x80113000, sMainStack = 0x80114000,
      boot_names = (0x800D0000, 0x800D0008, 0x800D0010), main_VRAM_END = 0x80120000, at_osViModeTable = 0x800C0000,
      at_viRetraceMsg = 0x8010B000, at_viCounterMsg = 0x8010B020, at_osExceptionPreamble = 0x80090000,
      at_osAppNMIBuffer = 0x8000031C, vi_objs = \<lparr>at_PalLan1 = 0x800C1000, at_MpalLan1 = 0x800C1050, at_NtscLan1 = 0x800C10A0\<rparr>,
      env_probeTLB = (\<lambda>_. 0), env_osTvType = 0, osMemSize = 0x400000, osResetType = 0,
      si_reads = [(1, 0), (0, 0x3F)], si_writes = [0], rom_clock = 0xF, vi_lines = [200, 4, 4], sp_imem = 0, sp_dmem = 0,
      pi_stats = ([1, 2, 0], [0]), pi_words = (1, 2)\<rparr>"

definition sample_boot :: boot where
  "sample_boot =
     \<lparr>bt_mem = (\<lambda>_. 0xFF),
      bt_kernel = \<lparr>k_next = (\<lambda>_. 0)(0x80109000 := 0x8010A000), k_pri = (\<lambda>_. 0)(0x8010A000 := - 1), k_queue = (\<lambda>_. 0),
        k_tlnext = (\<lambda>_. 0), k_state = (\<lambda>_. 0), k_flags = (\<lambda>_. 0), k_id = (\<lambda>_. 0), k_tail = 0x8010A000,
        k_runq = 0x80109000, k_active = 0x8010A000, k_running = 0, k_faulted = 0\<rparr>,
      bt_pc = (\<lambda>_. BOOTPROC), bt_stacks = no_stacks,
      bt_mgr = \<lparr>vm_vi = \<lparr>vi_ctx = (\<lambda>_. zero_ctx), osViCurr = 0, osViNext = 1, vi_mode = (\<lambda>_. osViModeTable ! 2), vi_io = (\<lambda>_. 0)\<rparr>,
        vm_retrace = 0, osViIntrCount = 0, osCurrentTime = 0, osBaseCounter = 0\<rparr>,
      bt_timers = \<lparr>tm_next = (\<lambda>_. 0), tm_prev = (\<lambda>_. 0), tm_interval = (\<lambda>_. 0), tm_value = (\<lambda>_. 0), tm_mq = (\<lambda>_. 0),
        tm_msg = (\<lambda>_. 0), osTimerList = 0x8010C000, osTimerCounter = 0, osCompare = 0\<rparr>,
      bt_events = (\<lambda>_. (0, 0)),
      bt_queue = (\<lambda>_. \<lparr>mq_addr = 0, validCount = 0, mq_first = 0, msgCount = 0, mq_msg = []\<rparr>),
      viDevMgr_active = False, piDevMgr_active = False, osPiAccessQueueEnabled = 0, bt_sr = 0, bt_fpccsr = 0, bt_pif = 0,
      osFinalrom = 0, osClockRate = OS_CLOCK_RATE, osViClock = VI_NTSC_CLOCK, D_80108620 = 0, D_80108624 = 0, D_80108628 = 0\<rparr>"

theorem boot_reaches_main_witness:
  "\<exists>s'. boot_steps 12 sample_env sample_boot = Some s' \<and> k_running (bt_kernel s') = 0x80102000 \<and>
     sched_inv (bt_kernel s') [0x80101000]"
proof -
  have "inj sample_objs" by (rule injI) (case_tac x; case_tac y; simp)
  moreover have "NULL \<notin> range sample_objs" by (rule notI, erule rangeE) (case_tac x; simp)
  ultimately have 1: "layout sample_env" by (simp add: layout_def sample_env_def)
  have 2: "devices_ready sample_env" by (simp add: devices_ready_def sample_env_def)
  have 3: "stacks_placed sample_env" by (simp add: stacks_placed_def sample_env_def clear_bytes_def)
  have 4: "powered_on sample_env sample_boot"
    by (simp add: powered_on_def fresh_kernel_def sample_env_def sample_boot_def no_stacks_list)
  have "env_osTvType sample_env \<le> 2" "objs sample_env sMainThread = 0x80102000" "objs sample_env sIdleThread = 0x80101000"
    by (simp_all add: sample_env_def)
  then show ?thesis using boot_reaches_main [OF 1 2 3 4] by auto
qed

end
