(* ===== verification/Crc.thy ===== *)
theory Crc
  imports Prelude
begin

section \<open>The checksums of the controller pak\<close>

text \<open>
  \<^verbatim>\<open>lib/ultralib/src/io/crc.c\<close>: the check of a block address (5 bits) and of a block of data (8 bits),
  in the two forms the file has, for this version of the library and for later ones (suffix \<open>_J\<close>).
  A loop over the bits of a byte goes from the highest one down.  The lemmas show that both forms
  compute the remainder of the same shift register, that the register is linear and loses nothing,
  and so which damage the checks find.
\<close>

subsection \<open>This version\<close>

definition addr_step :: "u8 \<times> u16 \<Rightarrow> u8 \<times> u16" where
  "addr_step = (\<lambda>(temp, addr).
     let temp2 = (if temp AND 0x10 \<noteq> 0 then 0x15 else 0);
         temp = push_bit 1 temp;
         temp = temp OR (if addr AND 0x400 \<noteq> 0 then 1 else 0);
         addr = push_bit 1 addr
     in (temp XOR temp2, addr))"

definition osContAddressCrc :: "u16 \<Rightarrow> u8" where
  "osContAddressCrc addr = fst ((addr_step ^^ 16) (0, addr)) AND 0x1f"

definition data_step :: "bool \<Rightarrow> u8 \<Rightarrow> u8" where
  "data_step b temp =
     (let temp2 = (if temp AND 0x80 \<noteq> 0 then 0x85 else 0);
          temp = push_bit 1 temp;
          temp = temp OR (if b then 1 else 0)
      in temp XOR temp2)"

definition data_byte :: "nat \<Rightarrow> u8 list \<Rightarrow> u8 \<Rightarrow> u8" where
  "data_byte i data temp =
     fold (\<lambda>j. data_step (if i = 32 then False else data ! i AND push_bit j 1 \<noteq> 0)) [7, 6, 5, 4, 3, 2, 1, 0] temp"

definition osContDataCrc :: "u8 list \<Rightarrow> u8" where
  "osContDataCrc data = fold (\<lambda>i. data_byte i data) [0..<33] 0"

subsection \<open>Later versions\<close>

text \<open>One step of both functions: \<open>over\<close> is the bit behind the register, \<open>g\<close> the generator.\<close>

definition step_J :: "u32 \<Rightarrow> u32 \<Rightarrow> bool \<Rightarrow> u32 \<Rightarrow> u32" where
  "step_J over g b temp =
     (let temp = push_bit 1 temp
      in if b then if temp AND over \<noteq> 0 then temp XOR (g - 1) else temp + 1
         else if temp AND over \<noteq> 0 then temp XOR g else temp)"

definition osContAddressCrc_J :: "u16 \<Rightarrow> u8" where
  "osContAddressCrc_J addr =
     (let temp = fold (\<lambda>k. step_J 0x20 0x15 (ucast addr AND push_bit k 1 \<noteq> (0 :: u32))) [10, 9, 8, 7, 6, 5, 4, 3, 2, 1, 0] 0;
          temp = (step_J 0x20 0x15 False ^^ 5) temp
      in ucast (temp AND 0x1f))"

definition byte_J :: "u8 \<Rightarrow> u32 \<Rightarrow> u32" where
  "byte_J x temp = fold (\<lambda>k. step_J 0x100 0x85 (ucast x AND push_bit k 1 \<noteq> (0 :: u32))) [7, 6, 5, 4, 3, 2, 1, 0] temp"

definition osContDataCrc_J :: "u8 list \<Rightarrow> u8" where
  "osContDataCrc_J data =
     (let temp = fold (\<lambda>i. byte_J (data ! i)) [0..<32] 0
      in ucast ((step_J 0x100 0x85 False ^^ 8) temp))"

subsection \<open>The register\<close>

text \<open>The bits of a block in the order of the loops, and the checksum as the register after them and eight
  more zeros.\<close>

definition byte_bits :: "u8 \<Rightarrow> bool list" where
  "byte_bits x = map (bit x) [7, 6, 5, 4, 3, 2, 1, 0]"

definition data_bits :: "u8 list \<Rightarrow> bool list" where
  "data_bits = concat \<circ> map byte_bits"

definition register :: "bool list \<Rightarrow> u8 \<Rightarrow> u8" where
  "register = fold data_step"

lemma fold_bits: "fold (\<lambda>j. data_step (bit x j)) js t = fold data_step (map (bit x) js) t"
  by (induction js arbitrary: t) simp_all

lemma data_byte_eq:
  "data_byte i data t = (if i = 32 then register (replicate 8 False) t else register (byte_bits (data ! i)) t)"
  unfolding data_byte_def register_def byte_bits_def and_push_bit_1 by (simp add: numeral_eq_Suc)

lemma osContDataCrc_register:
  assumes "length data = 32"
  shows "osContDataCrc data = register (data_bits data @ replicate 8 False) 0"
proof -
  have "fold (\<lambda>i. data_byte i data) [0..<n] t = register (data_bits (take n data)) t" if "n \<le> 32" for n t
    using that
  proof (induction n)
    case (Suc n)
    then show ?case using assms
      by (simp add: data_byte_eq register_def data_bits_def take_Suc_conv_app_nth)
  qed (simp add: register_def data_bits_def)
  from this [of 32 0] have "fold (\<lambda>i. data_byte i data) [0..<32] 0 = register (data_bits data) 0"
    using assms by simp
  moreover have "[0..<33] = [0..<32] @ [32]" by (simp add: numeral_eq_Suc)
  ultimately show ?thesis by (simp add: osContDataCrc_def data_byte_eq register_def)
qed

text \<open>The register is linear, it forgets nothing, and it takes up to eight bits as they are.\<close>

lemma bit_data_step:
  "bit (data_step b t) n \<longleftrightarrow> n < 8 \<and> ((if n = 0 then b else bit t (n - 1)) \<noteq> (bit t 7 \<and> bit (0x85 :: u8) n))"
proof -
  have "t AND 0x80 \<noteq> 0 \<longleftrightarrow> bit t 7" using and_push_bit_1 [of t 7] by simp
  moreover have "bit (push_bit 1 t) n \<longleftrightarrow> 0 < n \<and> n < 8 \<and> bit t (n - 1)" by (auto simp only: bit_simps) auto
  moreover have "bit (0x85 :: u8) n \<Longrightarrow> n < 8" using bit_imp_le_length [of "0x85 :: u8" n] by simp
  ultimately show ?thesis
    by (auto simp only: data_step_def Let_def bit_xor_iff bit_or_iff split: if_splits) (auto simp: bit_1_iff)
qed

lemma data_step_xor: "data_step (a \<noteq> b) (s XOR t) = data_step a s XOR data_step b t"
  by (rule bit_word_eqI) (auto simp: bit_data_step bit_simps)

lemma register_xor:
  "length xs = length ys \<Longrightarrow> register (map2 (\<noteq>) xs ys) (s XOR t) = register xs s XOR register ys t"
  unfolding register_def
proof (induction xs ys arbitrary: s t rule: list_induct2)
  case (Cons x xs y ys)
  then show ?case by (simp only: list.map zip_Cons_Cons fold_simps prod.case data_step_xor)
qed simp

lemma data_step_0: "data_step False t = 0 \<longleftrightarrow> t = 0"
proof
  assume 0: "data_step False t = 0"
  have z: "\<not> bit (data_step False t) n" for n using 0 by simp
  have "\<not> bit t 7" using z [of 0] by (simp add: bit_data_step)
  then have "\<not> bit t n" for n
    using z [of "Suc n"] bit_imp_le_length [of t n] by (cases "n = 7") (auto simp: bit_data_step)
  then show "t = 0" by (auto intro: bit_eqI)
qed (simp add: data_step_def)

lemma register_zeros: "register (replicate n False) t = 0 \<longleftrightarrow> t = 0"
  unfolding register_def by (induction n arbitrary: t) (simp_all add: data_step_0)

lemma unat_data_step:
  assumes "unat t < 128"
  shows "unat (data_step b t) = 2 * unat t + of_bool b"
proof -
  have "bit t 7 \<longleftrightarrow> bit (unat t) 7" by (simp add: bit_unsigned_iff)
  then have "\<not> bit t 7" using assms by (simp add: bit_iff_odd)
  then have "t AND 0x80 = 0" using and_push_bit_1 [of t 7] by simp
  moreover have "2 * t AND 1 = 0" by (rule bit_word_eqI) (auto simp: bit_and_iff bit_1_iff bit_double_iff)
  then have "push_bit 1 t OR 1 = 2 * t + 1"
    using disjunctive_add_eq_or [of "2 * t" 1] by (simp add: mult.commute)
  ultimately have "data_step b t = 2 * t + of_bool b" by (simp add: data_step_def)
  then show ?thesis using assms by (cases b) (simp_all add: unat_word_ariths)
qed

lemma register_short:
  "length es \<le> 8 \<Longrightarrow> unat (register es 0) < 2 ^ length es \<and> (register es 0 = 0 \<longleftrightarrow> True \<notin> set es)"
proof (induction es rule: rev_induct)
  case (snoc b es)
  let ?t = "register es 0"
  have t: "unat ?t < 2 ^ length es" "?t = 0 \<longleftrightarrow> True \<notin> set es" using snoc by simp_all
  have "(2::nat) ^ length es \<le> 2 ^ 7" using snoc.prems by (intro power_increasing) simp_all
  then have "unat (register (es @ [b]) 0) = 2 * unat ?t + of_bool b"
    using t(1) unat_data_step [of ?t b] by (simp add: register_def)
  then show ?case using t by (auto simp flip: unat_eq_0)
qed (simp add: register_def)

subsection \<open>Damage that is found\<close>

lemma data_bits_length: "length (data_bits data) = 8 * length data"
  by (induction data) (simp_all add: data_bits_def byte_bits_def)

lemma register_append: "register (xs @ ys) t = register ys (register xs t)"
  by (simp add: register_def)

lemma xor_changes: "v \<noteq> 0 \<Longrightarrow> w XOR v \<noteq> w" for v :: "'a::len word"
proof
  assume "v \<noteq> 0" "w XOR v = w"
  then have "w XOR (w XOR v) = w XOR w" by simp
  then show False using \<open>v \<noteq> 0\<close> by (simp flip: xor.assoc)
qed

lemma crc_finds_bursts:
  assumes "length data = 32" "length data' = 32" "length es \<le> 8" "True \<in> set es"
    "data_bits data' = map2 (\<noteq>) (data_bits data) (replicate i False @ es @ replicate j False)"
    "i + length es + j = 256"
  shows "osContDataCrc data' \<noteq> osContDataCrc data"
proof -
  let ?e = "replicate i False @ es @ replicate j False"
  have "length (data_bits data) = length ?e" using assms(1,6) by (simp add: data_bits_length)
  then have x: "register (data_bits data') 0 = register (data_bits data) 0 XOR register ?e 0"
    using register_xor [of "data_bits data" ?e 0 0] assms(5) by simp
  have z: "register (replicate i False) 0 = 0" using register_zeros [of i 0] by blast
  have "register ?e 0 \<noteq> 0"
    using register_short [OF assms(3)] assms(4) by (simp add: register_append register_zeros z)
  then have "register (replicate 8 False) (register ?e 0) \<noteq> 0"
    using register_zeros [of 8 "register ?e 0"] by blast
  moreover have "register (replicate 8 False) (register (data_bits data') 0) =
      register (replicate 8 False) (register (data_bits data) 0) XOR register (replicate 8 False) (register ?e 0)"
    unfolding x using register_xor [of "replicate 8 False" "replicate 8 False"] by (simp add: zip_replicate map_replicate)
  ultimately show ?thesis
    using assms(1,2) xor_changes by (simp add: osContDataCrc_register register_append)
qed

text \<open>Claim C35: damage within any eight consecutive bits of a block is always found: when the bits of two
  blocks differ exactly by a pattern that fits in eight places, their checksums differ.\<close>

theorem osContDataCrc_finds_bursts:
  assumes "length data = 32" "length data' = 32" "length es \<le> 8" "True \<in> set es"
    "data_bits data' = map2 (\<noteq>) (data_bits data) (replicate i False @ es @ replicate j False)"
    "i + length es + j = 256"
  shows "osContDataCrc data' \<noteq> osContDataCrc data"
  using assms by (rule crc_finds_bursts)

subsection \<open>Both forms compute the same\<close>

lemma step_J_eq:
  "step_J (push_bit (Suc k) 1) g b t =
     (if b then if bit t k then push_bit 1 t XOR (g - 1) else push_bit 1 t OR 1
      else if bit t k then push_bit 1 t XOR g else push_bit 1 t)" if "k < 31"
proof -
  have "push_bit 1 t AND push_bit (Suc k) 1 \<noteq> 0 \<longleftrightarrow> bit t k"
    unfolding and_push_bit_1 using that by (auto simp only: bit_simps) auto
  moreover have "2 * t AND 1 = 0" by (rule bit_word_eqI) (auto simp: bit_and_iff bit_1_iff bit_double_iff)
  then have "push_bit 1 t + 1 = push_bit 1 t OR 1"
    using disjunctive_add_eq_or [of "2 * t" 1] by (simp add: mult.commute)
  ultimately show ?thesis by (simp add: step_J_def Let_def)
qed

lemma bit_step_J_8: "n < 8 \<Longrightarrow> bit (step_J 0x100 0x85 b t) n \<longleftrightarrow> bit (data_step b (ucast t)) n"
proof -
  assume n: "n < 8"
  define p where "p = push_bit 1 t"
  have "(0x100 :: u32) = push_bit (Suc 7) 1" by simp
  then have "step_J 0x100 0x85 b t =
     (if b then if bit t 7 then p XOR 0x84 else p OR 1 else if bit t 7 then p XOR 0x85 else p)"
    using step_J_eq [of 7 "0x85" b t] by (simp add: p_def)
  moreover have "bit p n \<longleftrightarrow> 0 < n \<and> bit t (n - 1)" using n unfolding p_def by (auto simp only: bit_simps) auto
  moreover have "n \<in> {0, 1, 2, 3, 4, 5, 6, 7}" using n by auto
  ultimately show ?thesis
    by (elim insertE emptyE) (simp_all add: bit_data_step bit_xor_iff bit_or_iff bit_ucast_iff)
qed

lemma ucast_step_J: "ucast (step_J 0x100 0x85 b t) = data_step b (ucast t)"
  by (rule bit_word_eqI) (simp add: bit_ucast_iff bit_step_J_8)

lemma osContDataCrc_J_register:
  "length data = 32 \<Longrightarrow> osContDataCrc_J data = register (data_bits data @ replicate 8 False) 0"
proof -
  assume len: "length data = 32"
  have bits: "ucast (byte_J x t) = register (byte_bits x) (ucast t)" for x t
    unfolding and_push_bit_1 byte_J_def by (simp add: ucast_step_J register_def byte_bits_def bit_ucast_iff)
  have zeros: "ucast ((step_J 0x100 0x85 False ^^ n) t) = register (replicate n False) (ucast t)" for n t
    by (induction n arbitrary: t) (simp_all add: funpow_swap1 ucast_step_J register_def)
  have "ucast (fold (\<lambda>i. byte_J (data ! i)) [0..<n] t) = register (data_bits (take n data)) (ucast t)" if "n \<le> 32" for n t
    using that
  proof (induction n)
    case (Suc n)
    then show ?case using len
      by (simp add: bits data_bits_def take_Suc_conv_app_nth register_append)
  qed (simp add: register_def data_bits_def)
  from this [of 32 0] show ?thesis using len unfolding osContDataCrc_J_def Let_def zeros register_append by simp
qed

text \<open>The address: five bits of register, the eleven bits of the address and five zeros.\<close>

definition addr_bit :: "bool \<Rightarrow> u8 \<Rightarrow> u8" where
  "addr_bit b t = (push_bit 1 t OR (if b then 1 else 0)) XOR (if bit t 4 then 0x15 else 0)"

lemma addr_steps:
  "(addr_step ^^ n) (t, a) = (fold (\<lambda>i. addr_bit (i \<le> 10 \<and> bit a (10 - i))) [0..<n] t, push_bit n a)"
proof (induction n)
  case (Suc n)
  have "v AND 0x10 \<noteq> 0 \<longleftrightarrow> bit v 4" for v :: u8 using and_push_bit_1 [of v 4] by simp
  moreover have "push_bit n a AND 0x400 \<noteq> 0 \<longleftrightarrow> n \<le> 10 \<and> bit a (10 - n)"
    using and_push_bit_1 [of "push_bit n a" 10] by (simp add: bit_push_bit_iff)
  ultimately have "addr_step (v, push_bit n a) = (addr_bit (n \<le> 10 \<and> bit a (10 - n)) v, push_bit (Suc n) a)" for v
    by (simp add: addr_step_def addr_bit_def Let_def del: push_bit_Suc)
  with Suc show ?case by simp
qed simp

lemma addr_bit_low: "n < 5 \<Longrightarrow> (\<And>m. m < 5 \<Longrightarrow> bit t m \<longleftrightarrow> bit u m) \<Longrightarrow> bit (step_J 0x20 0x15 b u) n \<longleftrightarrow> bit (addr_bit b t) n"
proof -
  assume n: "n < 5" and same: "\<And>m. m < 5 \<Longrightarrow> bit t m \<longleftrightarrow> bit u m"
  define p q where "p = push_bit 1 u" and "q = push_bit 1 t"
  have "(0x20 :: u32) = push_bit (Suc 4) 1" by simp
  then have "step_J 0x20 0x15 b u =
     (if b then if bit u 4 then p XOR 0x14 else p OR 1 else if bit u 4 then p XOR 0x15 else p)"
    using step_J_eq [of 4 "0x15" b u] by (simp add: p_def)
  moreover have "addr_bit b t = (q OR (if b then 1 else 0)) XOR (if bit u 4 then 0x15 else 0)"
    using same [of 4] by (simp add: addr_bit_def q_def)
  moreover have "bit p n \<longleftrightarrow> 0 < n \<and> bit u (n - 1)" "bit q n \<longleftrightarrow> 0 < n \<and> bit u (n - 1)"
    using n same [of "n - 1"] unfolding p_def q_def by (auto simp only: bit_simps) auto
  moreover have "n \<in> {0, 1, 2, 3, 4}" using n by auto
  ultimately show ?thesis
    by (elim insertE emptyE) (simp_all add: bit_xor_iff bit_or_iff)
qed

lemma addr_fold_low:
  assumes "\<And>m. m < 5 \<Longrightarrow> bit t m \<longleftrightarrow> bit u m" "n < 5"
  shows "bit (fold (step_J 0x20 0x15) bs u) n \<longleftrightarrow> bit (fold addr_bit bs t) n"
  using assms
proof (induction bs arbitrary: t u)
  case (Cons b bs)
  show ?case
    using Cons.IH [of "addr_bit b t" "step_J 0x20 0x15 b u"] addr_bit_low [of _ t u b] Cons.prems by simp
qed simp

lemma address_crc_same: "osContAddressCrc_J addr = osContAddressCrc addr"
proof -
  let ?bs = "map (bit addr) [10, 9, 8, 7, 6, 5, 4, 3, 2, 1, 0] @ replicate 5 False"
  have 1: "fst ((addr_step ^^ 16) (0, addr)) = fold addr_bit ?bs 0"
    unfolding addr_steps by (simp add: numeral_eq_Suc)
  have 2: "(step_J 0x20 0x15 False ^^ 5) (fold (\<lambda>k. step_J 0x20 0x15 (ucast addr AND push_bit k 1 \<noteq> (0 :: u32)))
      [10, 9, 8, 7, 6, 5, 4, 3, 2, 1, 0] 0) = fold (step_J 0x20 0x15) ?bs 0"
    unfolding and_push_bit_1 by (simp add: numeral_eq_Suc bit_ucast_iff)
  have "bit (osContAddressCrc_J addr) n \<longleftrightarrow> bit (osContAddressCrc addr) n" for n
  proof (cases "n < 5")
    case True
    then show ?thesis
      using addr_fold_low [of 0 0 n ?bs]
      unfolding osContAddressCrc_J_def osContAddressCrc_def Let_def 1 2 by (simp add: bit_simps)
  next
    case False
    have "(0x1f :: u8) = mask 5" "(0x1f :: u32) = mask 5" by (simp_all add: mask_eq_exp_minus_1)
    then have m: "\<not> bit (0x1f :: u8) n" "\<not> bit (0x1f :: u32) n" using False by (simp_all only: bit_mask_iff) auto
    show ?thesis
      unfolding osContAddressCrc_J_def osContAddressCrc_def Let_def 1 2
      by (simp only: bit_and_iff bit_ucast_iff m simp_thms)
  qed
  then show ?thesis by (rule bit_eqI)
qed

lemma data_crc_same: "length data = 32 \<Longrightarrow> osContDataCrc_J data = osContDataCrc data"
  by (simp add: osContDataCrc_J_register osContDataCrc_register)

text \<open>Claim C22: the two forms of both checksums compute the same, for every address and every block of 32 bytes.\<close>

theorem crc_versions_agree:
  "osContAddressCrc_J addr = osContAddressCrc addr \<and>
   (length data = 32 \<longrightarrow> osContDataCrc_J data = osContDataCrc data)"
  by (simp add: address_crc_same data_crc_same)

lemma crc_versions_agree_witness:
  "osContDataCrc_J (replicate 32 1) = osContDataCrc (replicate 32 1)"
  using crc_versions_agree [where data = "replicate 32 1"] by simp

theorem osContDataCrc_finds_bursts_witness:
  "osContDataCrc (6 # replicate 31 0) \<noteq> osContDataCrc (replicate 32 0)"
proof (rule osContDataCrc_finds_bursts [where i = 5 and es = "[True, True]" and j = 249])
  show "data_bits (6 # replicate 31 0) =
      map2 (\<noteq>) (data_bits (replicate 32 0)) (replicate 5 False @ [True, True] @ replicate 249 False)"
    by code_simp
qed simp_all

end
