(* ===== verification/PakRam.thy ===== *)
theory PakRam
  imports Crc Eeprom
begin

section \<open>Access to the memory of the controller pak\<close>

text \<open>
  \<^verbatim>\<open>contramread.c\<close>, \<^verbatim>\<open>contramwrite.c\<close> and \<^verbatim>\<open>pfsgetstatus.c\<close> of \<^verbatim>\<open>lib/ultralib/src/io\<close>, as built for this
  version of the library: a block of 32 bytes is read or written through the 64 bytes of
  \<^verbatim>\<open>__osPfsPifRam\<close>, with a checksum of the address in the command and one of the data in the reply.
  The serial interface with the controllers behind it is the parameter \<open>si\<close>: what a transfer to it
  and a transfer from it do to its state, and what the latter delivers.  The structure that is
  copied to the image ends in a byte of padding that the code does not set; it is the parameter
  \<open>gap\<close>, and the local variable \<^verbatim>\<open>data\<close> of \<^verbatim>\<open>__osPfsGetStatus\<close>, which is not set either when the channel
  reports an error, the parameter \<open>sdata\<close>.
\<close>

record 'd si =
  si_write :: "'d \<Rightarrow> u8 list \<Rightarrow> 'd"
  si_read :: "'d \<Rightarrow> s32 \<times> u8 list \<times> 'd"

definition CONT_CMD_READ_PAK :: u8 where "CONT_CMD_READ_PAK = 2"
definition CONT_CMD_WRITE_PAK :: u8 where "CONT_CMD_WRITE_PAK = 3"
definition CONT_CARD_ON :: u8 where "CONT_CARD_ON = 1"
definition CONT_CARD_PULL :: u8 where "CONT_CARD_PULL = 2"
definition CONT_ADDR_CRC_ER :: u8 where "CONT_ADDR_CRC_ER = 4"
definition PFS_ERR_NOPACK :: s32 where "PFS_ERR_NOPACK = 1"
definition PFS_ERR_NEW_PACK :: s32 where "PFS_ERR_NEW_PACK = 2"
definition PFS_ERR_CONTRFAIL :: s32 where "PFS_ERR_CONTRFAIL = 4"
definition PFS_LABEL_AREA :: u16 where "PFS_LABEL_AREA = 7"

lemmas pak_consts = CONT_CMD_READ_PAK_def CONT_CMD_WRITE_PAK_def CONT_CARD_ON_def CONT_CARD_PULL_def
  CONT_ADDR_CRC_ER_def PFS_ERR_NOPACK_def PFS_ERR_NEW_PACK_def PFS_ERR_CONTRFAIL_def PFS_LABEL_AREA_def

subsection \<open>The images\<close>

text \<open>The address with its checksum in the low five bits, the higher byte first.\<close>

definition pak_address :: "u16 \<Rightarrow> u8 list" where
  "pak_address address =
     (let a = push_bit 5 address OR ucast (osContAddressCrc address) in [ucast (drop_bit 8 a), ucast a])"

definition osPackRamReadData :: "u8 \<Rightarrow> nat \<Rightarrow> u16 \<Rightarrow> u8 list \<Rightarrow> u8 list" where
  "osPackRamReadData gap channel address ram =
     splice 0 (replicate channel CONT_CMD_REQUEST_STATUS @
         [CONT_CMD_NOP, 3, 33, CONT_CMD_READ_PAK] @ pak_address address @ replicate 32 CONT_CMD_NOP @
         [CONT_CMD_NOP, gap] @ [CONT_CMD_END])
       (splice 60 pif_status ram)"

definition osPackRamWriteData :: "u8 \<Rightarrow> nat \<Rightarrow> u16 \<Rightarrow> u8 list \<Rightarrow> u8 list \<Rightarrow> u8 list" where
  "osPackRamWriteData gap channel address buffer ram =
     splice 0 (replicate channel CONT_CMD_REQUEST_STATUS @
         [CONT_CMD_NOP, 35, 1, CONT_CMD_WRITE_PAK] @ pak_address address @ take 32 buffer @
         [CONT_CMD_NOP, gap] @ [CONT_CMD_END])
       (splice 60 pif_status ram)"

definition osPfsRequestOneChannel :: "nat \<Rightarrow> u8 list \<Rightarrow> u8 list" where
  "osPfsRequestOneChannel channel ram =
     splice 0 (replicate channel CONT_CMD_REQUEST_STATUS @
         [1, 3, CONT_CMD_REQUEST_STATUS, CONT_CMD_NOP, CONT_CMD_NOP, CONT_CMD_NOP] @ [CONT_CMD_END])
       (splice 60 pif_status ram)"

definition osPfsGetOneChannelData :: "nat \<Rightarrow> u8 list \<Rightarrow> OSContStatus \<Rightarrow> OSContStatus" where
  "osPfsGetOneChannelData channel ram data =
     (let err = chnl_err (ram ! (channel + 1))
      in if err \<noteq> 0 then data\<lparr>cs_errno := err\<rparr>
         else \<lparr>cs_type = push_bit 8 (ucast (ram ! (channel + 4))) OR ucast (ram ! (channel + 3)),
               cs_status = ram ! (channel + 5), cs_errno = err\<rparr>)"

text \<open>The fields of a reply to a read or write command.\<close>

definition ram_rxsize :: "nat \<Rightarrow> u8 list \<Rightarrow> u8" where
  "ram_rxsize channel ram = ram ! (channel + 2)"

definition ram_data :: "nat \<Rightarrow> u8 list \<Rightarrow> u8 list" where
  "ram_data channel ram = take 32 (drop (channel + 6) ram)"

definition ram_datacrc :: "nat \<Rightarrow> u8 list \<Rightarrow> u8" where
  "ram_datacrc channel ram = ram ! (channel + 38)"

subsection \<open>The operations\<close>

definition osPfsGetStatus :: "'d si \<Rightarrow> OSContStatus \<Rightarrow> nat \<Rightarrow> u8 list \<Rightarrow> 'd \<Rightarrow> s32 \<times> u8 list \<times> 'd" where
  "osPfsGetStatus si sdata channel ram d =
     (case si_read si (si_write si d (osPfsRequestOneChannel channel ram)) of (ret, ram, d) \<Rightarrow>
        let data = osPfsGetOneChannelData channel ram sdata;
            r = (if cs_status data AND CONT_CARD_ON \<noteq> 0 \<and> cs_status data AND CONT_CARD_PULL \<noteq> 0 then PFS_ERR_NEW_PACK
                 else if cs_errno data \<noteq> 0 \<or> cs_status data AND CONT_CARD_ON = 0 then PFS_ERR_NOPACK
                 else if cs_status data AND CONT_ADDR_CRC_ER \<noteq> 0 then PFS_ERR_CONTRFAIL
                 else ret)
        in (r, ram, d))"

text \<open>One turn of the loop that waits for a reply with a good checksum: the flag says that the status was
  bad, which leaves the loop at once.\<close>

definition ram_read_turn ::
  "'d si \<Rightarrow> OSContStatus \<Rightarrow> nat \<Rightarrow> u8 list \<Rightarrow> u8 list \<Rightarrow> 'd \<Rightarrow> bool \<times> s32 \<times> u8 list \<times> u8 list \<times> 'd" where
  "ram_read_turn si sdata channel buffer ram d =
     (case si_read si d of (_, ram, d) \<Rightarrow>
        if chnl_err (ram_rxsize channel ram) = 0
        then if osContDataCrc (ram_data channel ram) \<noteq> ram_datacrc channel ram
             then (case osPfsGetStatus si sdata channel ram d of (ret, ram, d) \<Rightarrow>
                     if ret \<noteq> 0 then (True, ret, buffer, ram, d) else (False, PFS_ERR_CONTRFAIL, buffer, ram, d))
             else (False, 0, ram_data channel ram, ram, d)
        else (False, PFS_ERR_NOPACK, buffer, ram, d))"

function ram_read_loop ::
  "'d si \<Rightarrow> OSContStatus \<Rightarrow> nat \<Rightarrow> int \<Rightarrow> u8 list \<Rightarrow> u8 list \<Rightarrow> 'd \<Rightarrow> s32 \<times> u8 list \<times> u8 list \<times> 'd" where
  "ram_read_loop si sdata channel retry buffer ram d =
     (case ram_read_turn si sdata channel buffer ram d of (quit, ret, buffer, ram, d) \<Rightarrow>
        if \<not> quit \<and> ret = PFS_ERR_CONTRFAIL \<and> 0 \<le> retry then ram_read_loop si sdata channel (retry - 1) buffer ram d
        else (ret, buffer, ram, d))"
  by pat_completeness auto
termination by (relation "measure (\<lambda>(si, sdata, channel, retry, buffer, ram, d). nat (retry + 1))") auto

declare ram_read_loop.simps [simp del]

definition osContRamRead ::
  "'d si \<Rightarrow> u8 \<Rightarrow> OSContStatus \<Rightarrow> nat \<Rightarrow> u16 \<Rightarrow> u8 list \<Rightarrow> u8 list \<Rightarrow> 'd \<Rightarrow> s32 \<times> u8 list \<times> u8 list \<times> 'd" where
  "osContRamRead si gap sdata channel address buffer ram d =
     (let ram = osPackRamReadData gap channel address ram
      in ram_read_loop si sdata channel 2 buffer ram (si_write si d ram))"

definition ram_write_turn :: "'d si \<Rightarrow> OSContStatus \<Rightarrow> nat \<Rightarrow> u8 list \<Rightarrow> u8 list \<Rightarrow> 'd \<Rightarrow> bool \<times> s32 \<times> u8 list \<times> 'd" where
  "ram_write_turn si sdata channel buffer ram d =
     (case si_read si d of (_, ram, d) \<Rightarrow>
        if chnl_err (ram_rxsize channel ram) = 0
        then if osContDataCrc buffer \<noteq> ram_datacrc channel ram
             then (case osPfsGetStatus si sdata channel ram d of (ret, ram, d) \<Rightarrow>
                     if ret \<noteq> 0 then (True, ret, ram, d) else (False, PFS_ERR_CONTRFAIL, ram, d))
             else (False, 0, ram, d)
        else (False, PFS_ERR_NOPACK, ram, d))"

function ram_write_loop :: "'d si \<Rightarrow> OSContStatus \<Rightarrow> nat \<Rightarrow> int \<Rightarrow> u8 list \<Rightarrow> u8 list \<Rightarrow> 'd \<Rightarrow> s32 \<times> u8 list \<times> 'd" where
  "ram_write_loop si sdata channel retry buffer ram d =
     (case ram_write_turn si sdata channel buffer ram d of (quit, ret, ram, d) \<Rightarrow>
        if \<not> quit \<and> ret = PFS_ERR_CONTRFAIL \<and> 0 \<le> retry then ram_write_loop si sdata channel (retry - 1) buffer ram d
        else (ret, ram, d))"
  by pat_completeness auto
termination by (relation "measure (\<lambda>(si, sdata, channel, retry, buffer, ram, d). nat (retry + 1))") auto

declare ram_write_loop.simps [simp del]

definition osContRamWrite ::
  "'d si \<Rightarrow> u8 \<Rightarrow> OSContStatus \<Rightarrow> nat \<Rightarrow> u16 \<Rightarrow> u8 list \<Rightarrow> s32 \<Rightarrow> u8 list \<Rightarrow> 'd \<Rightarrow> s32 \<times> u8 list \<times> 'd" where
  "osContRamWrite si gap sdata channel address buffer force ram d =
     (if force \<noteq> 1 \<and> address < PFS_LABEL_AREA \<and> address \<noteq> 0 then (0, ram, d)
      else (let ram = osPackRamWriteData gap channel address buffer ram
            in ram_write_loop si sdata channel 2 buffer ram (si_write si d ram)))"

subsection \<open>What a result means\<close>

text \<open>\<open>damaged x y\<close>: the bits of \<open>y\<close> are those of \<open>x\<close> but for a pattern within eight consecutive places.\<close>

definition damaged :: "u8 list \<Rightarrow> u8 list \<Rightarrow> bool" where
  "damaged x y \<longleftrightarrow> length x = 32 \<and> length y = 32 \<and>
     (\<exists>i es j. length es \<le> 8 \<and> True \<in> set es \<and> i + length es + j = 256 \<and>
        data_bits y = map2 (\<noteq>) (data_bits x) (replicate i False @ es @ replicate j False))"

lemma damaged_crc: "damaged x y \<Longrightarrow> osContDataCrc y \<noteq> osContDataCrc x"
  unfolding damaged_def using crc_finds_bursts by blast

lemma ram_read_turn_result:
  assumes "ram_read_turn si sdata channel buffer ram d = (quit, ret, buffer', ram', d')"
  shows "ret = 0 \<Longrightarrow> buffer' = ram_data channel ram' \<and> osContDataCrc buffer' = ram_datacrc channel ram'"
    "ret \<noteq> 0 \<Longrightarrow> buffer' = buffer"
  using assms by (auto simp: ram_read_turn_def PFS_ERR_NOPACK_def PFS_ERR_CONTRFAIL_def split: prod.splits if_splits)

lemma ram_read_loop_result:
  assumes "ram_read_loop si sdata channel retry buffer ram d = (ret, buffer', ram', d')"
  shows "(ret = 0 \<longrightarrow> buffer' = ram_data channel ram' \<and> osContDataCrc buffer' = ram_datacrc channel ram') \<and>
    (ret \<noteq> 0 \<longrightarrow> buffer' = buffer)"
  using assms
proof (induction si sdata channel retry buffer ram d rule: ram_read_loop.induct)
  case (1 si sdata channel retry buffer ram d)
  obtain quit r b m dd where t: "ram_read_turn si sdata channel buffer ram d = (quit, r, b, m, dd)" by (metis prod_cases5)
  show ?case
  proof (cases "\<not> quit \<and> r = PFS_ERR_CONTRFAIL \<and> 0 \<le> retry")
    case True
    then have "b = buffer" using ram_read_turn_result(2) [OF t] by (simp add: PFS_ERR_CONTRFAIL_def)
    then show ?thesis
      using "1.IH" [OF t [symmetric] refl refl refl True] "1.prems" t True
      by (subst (asm) ram_read_loop.simps) auto
  next
    case False
    then show ?thesis using ram_read_turn_result [OF t] "1.prems" t by (subst (asm) ram_read_loop.simps) auto
  qed
qed

subsection \<open>What the pak promises\<close>

text \<open>\<open>img_of d\<close> is what was last sent, \<open>blocks d a\<close> the 32 bytes at the address \<open>a\<close>, and \<open>good d\<close> says that
  transfers do not fail.  The pak understands the commands 2 (read) and 3 (write), each with a word
  for the address, the higher byte first, of which the upper eleven bits are the address and the
  lower five its checksum; 32 bytes follow a write.  The answer either reports an error, and nothing
  has changed, or the command was done: a read is answered with the block and its checksum, a write
  with the checksum of what has been written.  The checksums are those of the later form of the library
  (suffix \<open>_J\<close>), so the promise is about the bytes on the wire and uses none of the functions here
  that make or take apart an image.\<close>

definition pak_word :: "u8 \<Rightarrow> u8 \<Rightarrow> u16 \<Rightarrow> bool" where
  "pak_word hi lo a \<longleftrightarrow> a < 0x800 \<and> 256 * unat hi + unat lo = 32 * unat a + unat (osContAddressCrc_J a)"

definition pak_read_promise ::
  "'d si \<Rightarrow> ('d \<Rightarrow> u8 list) \<Rightarrow> ('d \<Rightarrow> u16 \<Rightarrow> u8 list) \<Rightarrow> ('d \<Rightarrow> bool) \<Rightarrow> nat \<Rightarrow> 'd \<Rightarrow> bool" where
  "pak_read_promise si img_of blocks good channel d \<longleftrightarrow>
     (\<forall>pos hi lo a. joybus_asks (img_of d) channel pos [2, hi, lo] 33 \<and> pak_word hi lo a \<longrightarrow>
        (case si_read si d of (_, reply, d') \<Rightarrow>
           length reply = 64 \<and> blocks d' = blocks d \<and> (good d \<longrightarrow> \<not> joybus_failed reply pos \<and> good d') \<and>
           (\<not> joybus_failed reply pos \<longrightarrow>
              joybus_answer reply pos [2, hi, lo] 33 = blocks d a @ [osContDataCrc_J (blocks d a)])))"

definition pak_write_promise ::
  "'d si \<Rightarrow> ('d \<Rightarrow> u8 list) \<Rightarrow> ('d \<Rightarrow> u16 \<Rightarrow> u8 list) \<Rightarrow> ('d \<Rightarrow> bool) \<Rightarrow> nat \<Rightarrow> 'd \<Rightarrow> bool" where
  "pak_write_promise si img_of blocks good channel d \<longleftrightarrow>
     (\<forall>pos hi lo a bs. joybus_asks (img_of d) channel pos ([3, hi, lo] @ bs) 1 \<and> length bs = 32 \<and> pak_word hi lo a \<longrightarrow>
        (case si_read si d of (_, reply, d') \<Rightarrow>
           length reply = 64 \<and> (good d \<longrightarrow> \<not> joybus_failed reply pos \<and> good d') \<and>
           (if joybus_failed reply pos then blocks d' = blocks d
            else blocks d' = (blocks d)(a := bs) \<and>
              joybus_answer reply pos ([3, hi, lo] @ bs) 1 = [osContDataCrc_J bs])))"

definition pak_documented ::
  "'d si \<Rightarrow> ('d \<Rightarrow> u8 list) \<Rightarrow> ('d \<Rightarrow> u16 \<Rightarrow> u8 list) \<Rightarrow> ('d \<Rightarrow> bool) \<Rightarrow> nat \<Rightarrow> bool" where
  "pak_documented si img_of blocks good channel \<longleftrightarrow>
     channel < 4 \<and> (\<forall>d a. length (blocks d a) = 32) \<and>
     (\<forall>d img. img_of (si_write si d img) = img \<and> blocks (si_write si d img) = blocks d \<and>
        (good d \<longrightarrow> good (si_write si d img))) \<and>
     (\<forall>d. pak_read_promise si img_of blocks good channel d) \<and> (\<forall>d. pak_write_promise si img_of blocks good channel d)"

text \<open>The images of the code ask for what they should.  Behind the command stands the byte \<open>gap\<close>.\<close>

lemma bytes_of_word: "256 * unat (ucast (drop_bit 8 w) :: u8) + unat (ucast w :: u8) = unat (w :: u16)"
proof -
  have "unat (ucast (drop_bit 8 w) :: u8) = unat w div 256 mod 256" "unat (ucast w :: u8) = unat w mod 256"
    by (simp_all only: unsigned_ucast_eq unat_drop_bit_eq) (simp_all add: drop_bit_eq_div take_bit_eq_mod)
  moreover have "unat w div 256 < 256" using unsigned_less [of w, where 'a = nat] by simp
  ultimately show ?thesis by simp
qed

lemma address_crc_bound: "unat (osContAddressCrc a) < 32"
proof -
  have "osContAddressCrc a \<le> 0x1f" by (simp add: osContAddressCrc_def word_and_le1)
  then show ?thesis by (simp add: word_le_nat_alt)
qed

lemma pak_word_address:
  assumes "a < 0x800"
  shows "pak_word (pak_address a ! 0) (pak_address a ! 1) a"
proof -
  let ?c = "ucast (osContAddressCrc a) :: u16"
  have c: "unat ?c = unat (osContAddressCrc a)"
    using address_crc_bound [of a] by (simp add: unsigned_ucast_eq take_bit_nat_eq_self)
  have p: "unat (push_bit 5 a) = 32 * unat a"
    using assms by (simp add: word_less_nat_alt push_bit_eq_mult unat_word_ariths mult.commute)
  have "push_bit 5 a AND ?c = 0"
  proof (rule bit_word_eqI)
    fix n
    have "\<not> bit (osContAddressCrc a) m" if "5 \<le> m" for m
    proof -
      have "(2::nat) ^ 5 \<le> 2 ^ m" using that by (intro power_increasing) simp_all
      then have "unat (osContAddressCrc a) < 2 ^ m" using address_crc_bound [of a] by simp
      then have "\<not> bit (unat (osContAddressCrc a)) m" by (simp add: bit_iff_odd)
      then show ?thesis by (simp add: bit_unsigned_iff)
    qed
    then show "bit (push_bit 5 a AND ?c) n = bit 0 n" by (auto simp: bit_simps)
  qed
  then have "push_bit 5 a OR ?c = push_bit 5 a + ?c" by (simp add: disjunctive_add_eq_or)
  then have "unat (push_bit 5 a OR ?c) = 32 * unat a + unat (osContAddressCrc a)"
    using assms address_crc_bound [of a] by (simp add: unat_word_ariths p c word_less_nat_alt)
  with bytes_of_word [of "push_bit 5 a OR ?c"] assms show ?thesis
    by (simp add: pak_word_def pak_address_def Let_def address_crc_same)
qed

lemma insert_lessThan_4: "n < 4 \<Longrightarrow> n \<in> {0, 1, 2, 3 :: nat}"
  by auto

lemma pak_images:
  assumes "length ram = 64" "channel < 4"
  shows "\<exists>rest. osPackRamReadData gap channel a ram = replicate channel 0 @ replicate 1 0xFF @ 3 # 33 #
      [2, pak_address a ! 0, pak_address a ! 1] @ rest"
    "length (osPackRamReadData gap channel a ram) = 64" "osPackRamReadData gap channel a ram ! 63 = 1"
    "length bs = 32 \<Longrightarrow> \<exists>rest. osPackRamWriteData gap channel a bs ram = replicate channel 0 @ replicate 1 0xFF @ 35 # 1 #
      ([3, pak_address a ! 0, pak_address a ! 1] @ bs) @ rest"
    "length bs = 32 \<Longrightarrow> length (osPackRamWriteData gap channel a bs ram) = 64"
    "length bs = 32 \<Longrightarrow> osPackRamWriteData gap channel a bs ram ! 63 = 1"
  using assms(1) insert_lessThan_4 [OF assms(2)] by - ((elim insertE emptyE; simp add: osPackRamReadData_def osPackRamWriteData_def splice_def pak_address_def pif_status_def
      pak_consts eeprom_consts nth_append Let_def)+)

lemma pak_images_ask:
  assumes "length ram = 64" "channel < 4" "a < 0x800"
  obtains hi lo where "pak_word hi lo a"
    "joybus_asks (osPackRamReadData gap channel a ram) channel (channel + 1) [2, hi, lo] 33"
    "\<And>bs. length bs = 32 \<Longrightarrow> joybus_asks (osPackRamWriteData gap channel a bs ram) channel (channel + 1) ([3, hi, lo] @ bs) 1"
proof
  let ?hi = "pak_address a ! 0" and ?lo = "pak_address a ! 1"
  show "pak_word ?hi ?lo a" using assms(3) by (rule pak_word_address)
  obtain rest where "osPackRamReadData gap channel a ram = replicate channel 0 @ replicate 1 0xFF @ 3 # 33 # [2, ?hi, ?lo] @ rest"
    using pak_images(1) [OF assms(1,2)] by blast
  from joybus_asksI [OF this, of 33] pak_images(2,3) [OF assms(1,2)] assms(2)
  show "joybus_asks (osPackRamReadData gap channel a ram) channel (channel + 1) [2, ?hi, ?lo] 33" by simp
  fix bs :: "u8 list" assume bs: "length bs = 32"
  obtain rest where "osPackRamWriteData gap channel a bs ram = replicate channel 0 @ replicate 1 0xFF @ 35 # 1 # ([3, ?hi, ?lo] @ bs) @ rest"
    using pak_images(4) [OF assms(1,2) bs] by blast
  from joybus_asksI [OF this, of 1] pak_images(5,6) [OF assms(1,2) bs] assms(2) bs
  show "joybus_asks (osPackRamWriteData gap channel a bs ram) channel (channel + 1) ([3, ?hi, ?lo] @ bs) 1" by simp
qed

lemma joybus_failed_rxsize: "joybus_failed reply (Suc channel) \<longleftrightarrow> chnl_err (ram_rxsize channel reply) \<noteq> 0"
  by (simp add: joybus_failed_def ram_rxsize_def chnl_err_0)

lemma ram_data_answer:
  assumes "joybus_answer reply (channel + 1) [x, hi, lo] 33 = bs @ [c]" "length bs = 32" "length reply = 64" "channel < 4"
  shows "ram_data channel reply = bs" "ram_datacrc channel reply = c"
proof -
  have "channel + 1 + 2 + length [x, hi, lo] = channel + 6" by simp
  then have e: "take 33 (drop (channel + 6) reply) = bs @ [c]" using assms(1) unfolding joybus_answer_def by (simp only:)
  have "take 32 (take 33 (drop (channel + 6) reply)) = bs" unfolding e using assms(2) by simp
  then show "ram_data channel reply = bs" by (simp add: ram_data_def)
  have "take 33 (drop (channel + 6) reply) ! 32 = c" unfolding e using assms(2) by (simp add: nth_append)
  then show "ram_datacrc channel reply = c" using assms(3,4) by (simp add: ram_datacrc_def add.commute)
qed

lemma pak_documentedD:
  assumes "pak_documented si img_of blocks good channel" "length ram = 64" "a < 0x800"
  shows "si_read si (si_write si d (osPackRamReadData gap channel a ram)) = (r, reply, d') \<Longrightarrow>
      length reply = 64 \<and> blocks d' = blocks d \<and>
      (good d \<longrightarrow> chnl_err (ram_rxsize channel reply) = 0 \<and> good d') \<and>
      (chnl_err (ram_rxsize channel reply) = 0 \<longrightarrow>
         ram_data channel reply = blocks d a \<and> ram_datacrc channel reply = osContDataCrc (blocks d a))"
    "length bs = 32 \<Longrightarrow> si_read si (si_write si d (osPackRamWriteData gap channel a bs ram)) = (r, reply, d') \<Longrightarrow>
      length reply = 64 \<and> (good d \<longrightarrow> chnl_err (ram_rxsize channel reply) = 0 \<and> good d') \<and>
      (if chnl_err (ram_rxsize channel reply) = 0
       then blocks d' = (blocks d)(a := bs) \<and> ram_datacrc channel reply = osContDataCrc bs
       else blocks d' = blocks d)"
proof -
  have w: "img_of (si_write si d img) = img" "blocks (si_write si d img) = blocks d" "good d \<Longrightarrow> good (si_write si d img)" for d img
    using assms(1) by (simp_all add: pak_documented_def)
  have ch: "channel < 4" and len: "length (blocks d a) = 32" for d
    using assms(1) by (simp_all add: pak_documented_def)
  obtain hi lo where ask: "pak_word hi lo a"
    "joybus_asks (osPackRamReadData gap channel a ram) channel (channel + 1) [2, hi, lo] 33"
    "\<And>bs. length bs = 32 \<Longrightarrow> joybus_asks (osPackRamWriteData gap channel a bs ram) channel (channel + 1) ([3, hi, lo] @ bs) 1"
    using pak_images_ask [OF assms(2) ch assms(3)] by blast
  {
    let ?d = "si_write si d (osPackRamReadData gap channel a ram)"
    assume r: "si_read si ?d = (r, reply, d')"
    have "pak_read_promise si img_of blocks good channel ?d" using assms(1) by (simp add: pak_documented_def)
    from this [unfolded pak_read_promise_def w(1), rule_format, OF conjI, OF ask(2,1)]
    have p: "length reply = 64" "blocks d' = blocks d" "good ?d \<longrightarrow> \<not> joybus_failed reply (channel + 1) \<and> good d'"
      "\<not> joybus_failed reply (channel + 1) \<longrightarrow>
         joybus_answer reply (channel + 1) [2, hi, lo] 33 = blocks d a @ [osContDataCrc_J (blocks d a)]"
      by (simp_all add: r w(2))
    then show "length reply = 64 \<and> blocks d' = blocks d \<and> (good d \<longrightarrow> chnl_err (ram_rxsize channel reply) = 0 \<and> good d') \<and>
      (chnl_err (ram_rxsize channel reply) = 0 \<longrightarrow>
         ram_data channel reply = blocks d a \<and> ram_datacrc channel reply = osContDataCrc (blocks d a))"
      using w(3) ram_data_answer [OF _ len p(1) ch, of 2 hi lo] by (auto simp: joybus_failed_rxsize data_crc_same len)
  next
    let ?d = "si_write si d (osPackRamWriteData gap channel a bs ram)"
    assume bs: "length bs = 32" and r: "si_read si ?d = (r, reply, d')"
    have "pak_write_promise si img_of blocks good channel ?d" using assms(1) by (simp add: pak_documented_def)
    from this [unfolded pak_write_promise_def w(1), rule_format, OF conjI, OF ask(3) conjI, OF bs bs ask(1)]
    have p: "length reply = 64" "good ?d \<longrightarrow> \<not> joybus_failed reply (channel + 1) \<and> good d'"
      "if joybus_failed reply (channel + 1) then blocks d' = blocks d
       else blocks d' = (blocks d)(a := bs) \<and> joybus_answer reply (channel + 1) ([3, hi, lo] @ bs) 1 = [osContDataCrc_J bs]"
      by (simp_all add: r w(2) split: if_splits)
    have "ram_datacrc channel reply = c" if "joybus_answer reply (channel + 1) ([3, hi, lo] @ bs) 1 = [c]" for c
    proof -
      have "channel + 1 + 2 + length ([3, hi, lo] @ bs) = channel + 38" using bs by simp
      then have "take 1 (drop (channel + 38) reply) = [c]" using that unfolding joybus_answer_def by (simp only:)
      then show ?thesis using p(1) ch by (simp add: take_Suc hd_drop_conv_nth ram_datacrc_def)
    qed
    with p w(3) bs show "length reply = 64 \<and> (good d \<longrightarrow> chnl_err (ram_rxsize channel reply) = 0 \<and> good d') \<and>
      (if chnl_err (ram_rxsize channel reply) = 0
       then blocks d' = (blocks d)(a := bs) \<and> ram_datacrc channel reply = osContDataCrc bs
       else blocks d' = blocks d)"
      by (auto simp: joybus_failed_rxsize data_crc_same split: if_splits)
  }
qed

lemma osContRamRead_documented:
  assumes "pak_documented si img_of blocks good channel" "length ram = 64" "a < 0x800"
  shows "\<exists>ret ram' d'. (\<forall>buf. osContRamRead si gap sdata channel a buf ram d =
      (ret, if ret = 0 then blocks d a else buf, ram', d')) \<and> ret \<in> {0, PFS_ERR_NOPACK} \<and>
    length ram' = 64 \<and> blocks d' = blocks d \<and> (good d \<longrightarrow> ret = 0 \<and> good d') \<and>
    (ret = 0 \<longrightarrow> ram_datacrc channel ram' = osContDataCrc (blocks d a))"
proof -
  obtain r reply e where r: "si_read si (si_write si d (osPackRamReadData gap channel a ram)) = (r, reply, e)"
    by (metis prod_cases3)
  let ?ret = "if chnl_err (ram_rxsize channel reply) = 0 then 0 else PFS_ERR_NOPACK"
  show ?thesis
    using pak_documentedD(1) [OF assms r]
    by (intro exI [of _ ?ret] exI [of _ reply] exI [of _ e])
      (auto simp: osContRamRead_def ram_read_loop.simps [of si sdata channel 2] ram_read_turn_def r PFS_ERR_NOPACK_def PFS_ERR_CONTRFAIL_def Let_def)
qed

lemma osContRamWrite_documented:
  assumes "pak_documented si img_of blocks good channel" "length ram = 64" "length bs = 32" "a < 0x800"
  shows "\<exists>ret ram' d'. (\<forall>force. force = 1 \<or> a = 0 \<or> PFS_LABEL_AREA \<le> a \<longrightarrow>
      osContRamWrite si gap sdata channel a bs force ram d = (ret, ram', d')) \<and> ret \<in> {0, PFS_ERR_NOPACK} \<and>
    length ram' = 64 \<and> blocks d' = (if ret = 0 then (blocks d)(a := bs) else blocks d) \<and> (good d \<longrightarrow> ret = 0 \<and> good d')"
proof -
  let ?img = "osPackRamWriteData gap channel a bs ram"
  obtain r reply e where r: "si_read si (si_write si d ?img) = (r, reply, e)"
    by (metis prod_cases3)
  let ?ret = "if chnl_err (ram_rxsize channel reply) = 0 then 0 else PFS_ERR_NOPACK"
  note p = pak_documentedD(2) [OF assms(1,2,4,3) r]
  have t: "ram_write_turn si sdata channel bs ?img (si_write si d ?img) = (False, ?ret, reply, e)"
    using p by (auto simp: ram_write_turn_def r)
  have "osContRamWrite si gap sdata channel a bs force ram d = (?ret, reply, e)"
    if "force = 1 \<or> a = 0 \<or> PFS_LABEL_AREA \<le> a" for force
  proof -
    have n: "\<not> (force \<noteq> 1 \<and> a < PFS_LABEL_AREA \<and> a \<noteq> 0)" using that by auto
    show ?thesis unfolding osContRamWrite_def if_not_P [OF n] Let_def
      by (simp add: ram_write_loop.simps [of si sdata channel 2] t PFS_ERR_CONTRFAIL_def PFS_ERR_NOPACK_def)
  qed
  moreover have "?ret \<in> {0, PFS_ERR_NOPACK}" "blocks e = (if ?ret = 0 then (blocks d)(a := bs) else blocks d)"
    "length reply = 64" "good d \<longrightarrow> ?ret = 0 \<and> good e"
    using p by (auto simp: PFS_ERR_NOPACK_def)
  ultimately show ?thesis by blast
qed

lemma osContRamWrite_protected:
  "\<not> (force = 1 \<or> a = 0 \<or> PFS_LABEL_AREA \<le> a) \<Longrightarrow>
    osContRamWrite si gap sdata channel a bs force ram d = (0, ram, d)"
  by (simp add: osContRamWrite_def not_le)

subsection \<open>Properties\<close>

text \<open>Claim C37: on a pak that answers as documented, a block written and then read back comes back as it was
  written and no other block has changed; both operations report success when transfers do not
  fail, and otherwise an operation that reports failure has changed nothing; a write to the blocks 1
  to 6 without force reports success and writes nothing.\<close>

theorem pak_write_then_read:
  assumes "pak_documented si img_of blocks good channel" "length ram = 64" "length bs = 32" "a < 0x800" "b < 0x800"
    "osContRamWrite si gap sdata channel a bs force ram d = (ret, ram', d')"
    "osContRamRead si gap' sdata' channel b buf ram' d' = (ret', buf', ram'', d'')"
  shows "(good d \<longrightarrow> ret = 0 \<and> ret' = 0) \<and>
    blocks d'' = blocks d' \<and> (ret' = 0 \<longrightarrow> buf' = blocks d' b) \<and> (ret' \<noteq> 0 \<longrightarrow> ret' = PFS_ERR_NOPACK \<and> buf' = buf) \<and>
    (if force = 1 \<or> a = 0 \<or> PFS_LABEL_AREA \<le> a
     then if ret = 0 then blocks d' = (blocks d)(a := bs) else ret = PFS_ERR_NOPACK \<and> blocks d' = blocks d
     else ret = 0 \<and> blocks d' = blocks d)"
proof (cases "force = 1 \<or> a = 0 \<or> PFS_LABEL_AREA \<le> a")
  case True
  then have w: "length ram' = 64" "ret \<in> {0, PFS_ERR_NOPACK}"
    "blocks d' = (if ret = 0 then (blocks d)(a := bs) else blocks d)" "good d \<longrightarrow> ret = 0 \<and> good d'"
    using osContRamWrite_documented [OF assms(1-4), of gap sdata d] assms(6) by auto
  from osContRamRead_documented [OF assms(1) this(1) assms(5), of gap' sdata' d'] assms(7) w True show ?thesis by auto
next
  case False
  have w: "ret = 0" "ram' = ram" "d' = d" using assms(6) unfolding osContRamWrite_protected [OF False] by simp_all
  then show ?thesis
    using osContRamRead_documented [OF assms(1,2) assms(5), of gap' sdata' d] assms(7) False by auto
qed

text \<open>Claim C38: whatever the serial interface delivers, a read that reports success has filled the buffer with
  the 32 bytes of the last reply and these match the checksum that came with them, so they are not
  a block of that checksum damaged within eight consecutive bits; a read that reports an error leaves the buffer alone.\<close>

theorem osContRamRead_checked:
  assumes "osContRamRead si gap sdata channel a buf ram d = (ret, buf', ram', d')"
  shows "if ret = 0
    then buf' = ram_data channel ram' \<and> osContDataCrc buf' = ram_datacrc channel ram' \<and>
      (\<forall>sent. osContDataCrc sent = ram_datacrc channel ram' \<longrightarrow> \<not> damaged sent buf')
    else buf' = buf"
proof -
  have "ram_read_loop si sdata channel 2 buf (osPackRamReadData gap channel a ram)
      (si_write si d (osPackRamReadData gap channel a ram)) = (ret, buf', ram', d')"
    using assms by (simp add: osContRamRead_def Let_def)
  from ram_read_loop_result [OF this] damaged_crc show ?thesis by fastforce
qed

subsection \<open>A pak for the witnesses\<close>

text \<open>Blocks by address; a command with a good image is done and answered, the size byte of the answer
  reports no error.\<close>

type_synonym pak_sim = "u8 list \<times> (u16 \<Rightarrow> u8 list)"

definition pak_sim_blocks :: "pak_sim \<Rightarrow> u16 \<Rightarrow> u8 list" where
  "pak_sim_blocks = (\<lambda>(_, bl) a. take 32 (bl a @ replicate 32 0))"

definition pak_sim_read :: "pak_sim \<Rightarrow> s32 \<times> u8 list \<times> pak_sim" where
  "pak_sim_read = (\<lambda>(ram, bl).
     case joybus_walk 0 0 (take 63 ram) of
       (ch, pos, x # hi # lo # bs, rx) # _ \<Rightarrow>
         let a = of_nat ((256 * unat hi + unat lo) div 32); old = pak_sim_blocks (ram, bl) a
         in if x = 2 then (0, joybus_reply ram pos (x # hi # lo # bs) rx (old @ [osContDataCrc_J old]), ram, bl)
            else (0, joybus_reply ram pos (x # hi # lo # bs) rx [osContDataCrc_J bs], ram, bl(a := bs))
     | _ \<Rightarrow> (0, ram, ram, bl))"

definition pak_sim_si :: "pak_sim si" where
  "pak_sim_si = \<lparr>si_write = (\<lambda>(_, bl) ram. (ram, bl)), si_read = pak_sim_read\<rparr>"

abbreviation pak_sim_good :: "pak_sim \<Rightarrow> bool" where "pak_sim_good \<equiv> \<lambda>_. True"

lemma pak_length_sim [simp]: "length (pak_sim_blocks d a) = 32"
  by (cases d) (simp add: pak_sim_blocks_def)

lemma pak_sim_word:
  assumes "pak_word hi lo a"
  shows "of_nat ((256 * unat hi + unat lo) div 32) = a"
proof -
  have "(256 * unat hi + unat lo) div 32 = unat a"
    using assms address_crc_bound [of a] by (simp add: pak_word_def address_crc_same)
  then show ?thesis by simp
qed

lemma pak_sim_blocks_upd: "length bs = 32 \<Longrightarrow> pak_sim_blocks (x, bl(a := bs)) = (pak_sim_blocks (y, bl))(a := bs)"
  by (auto simp: pak_sim_blocks_def)

lemma pak_sim_documented: "pak_documented pak_sim_si fst pak_sim_blocks pak_sim_good 0"
proof -
  have r: "pak_read_promise pak_sim_si fst pak_sim_blocks pak_sim_good 0 (img, bl)" for img bl
    unfolding pak_read_promise_def
  proof (intro allI impI, elim conjE)
    fix pos hi lo a
    assume a: "joybus_asks (fst (img, bl)) 0 pos [2, hi, lo] 33" "pak_word hi lo a"
    then obtain rest where "joybus_walk 0 0 (take 63 img) = (0, pos, [2, hi, lo], 33) # rest" using joybus_asks_walk by force
    then show "case si_read pak_sim_si (img, bl) of (_, reply, d') \<Rightarrow>
        length reply = 64 \<and> pak_sim_blocks d' = pak_sim_blocks (img, bl) \<and>
        (pak_sim_good (img, bl) \<longrightarrow> \<not> joybus_failed reply pos \<and> pak_sim_good d') \<and>
        (\<not> joybus_failed reply pos \<longrightarrow>
           joybus_answer reply pos [2, hi, lo] 33 = pak_sim_blocks (img, bl) a @ [osContDataCrc_J (pak_sim_blocks (img, bl) a)])"
      using joybus_reply [OF a(1), of "pak_sim_blocks (img, bl) a @ [osContDataCrc_J (pak_sim_blocks (img, bl) a)]"]
      by (simp add: pak_sim_si_def pak_sim_read_def Let_def pak_sim_word [OF a(2)])
  qed
  have w: "pak_write_promise pak_sim_si fst pak_sim_blocks pak_sim_good 0 (img, bl)" for img bl
    unfolding pak_write_promise_def
  proof (intro allI impI, elim conjE)
    fix pos hi lo a and bs :: "u8 list"
    assume a: "joybus_asks (fst (img, bl)) 0 pos ([3, hi, lo] @ bs) 1" "length bs = 32" "pak_word hi lo a"
    then obtain rest where "joybus_walk 0 0 (take 63 img) = (0, pos, [3, hi, lo] @ bs, 1) # rest" using joybus_asks_walk by force
    then show "case si_read pak_sim_si (img, bl) of (_, reply, d') \<Rightarrow>
        length reply = 64 \<and> (pak_sim_good (img, bl) \<longrightarrow> \<not> joybus_failed reply pos \<and> pak_sim_good d') \<and>
        (if joybus_failed reply pos then pak_sim_blocks d' = pak_sim_blocks (img, bl)
         else pak_sim_blocks d' = (pak_sim_blocks (img, bl))(a := bs) \<and>
           joybus_answer reply pos ([3, hi, lo] @ bs) 1 = [osContDataCrc_J bs])"
      using joybus_reply [OF a(1), of "[osContDataCrc_J bs]"] a(2) pak_sim_blocks_upd [OF a(2), of img bl a img]
      by (simp add: pak_sim_si_def pak_sim_read_def Let_def pak_sim_word [OF a(3)])
  qed
  have "pak_sim_blocks (x, bl) = pak_sim_blocks (y, bl)" for x y bl by (simp add: pak_sim_blocks_def fun_eq_iff)
  then show ?thesis
    using r w by (auto simp: pak_documented_def pak_sim_si_def split_paired_all)
qed

definition zeros64 :: "u8 list" where "zeros64 = replicate 64 0"

definition some_status :: OSContStatus where "some_status = \<lparr>cs_type = 0, cs_status = 0, cs_errno = 0\<rparr>"

lemma pak_write_then_read_witness:
  "case osContRamWrite pak_sim_si 0 some_status 0 9 (replicate 32 5) 0 zeros64 (zeros64, \<lambda>_. []) of (ret, ram, d) \<Rightarrow>
     case osContRamRead pak_sim_si 0 some_status 0 9 (replicate 32 0) ram d of (ret', buf, _, _) \<Rightarrow>
       ret = 0 \<and> ret' = 0 \<and> buf = replicate 32 5"
proof -
  obtain ret ram d where w: "osContRamWrite pak_sim_si 0 some_status 0 9 (replicate 32 5) 0 zeros64 (zeros64, \<lambda>_. []) = (ret, ram, d)"
    by (metis prod_cases3)
  obtain ret' buf ram' d' where r: "osContRamRead pak_sim_si 0 some_status 0 9 (replicate 32 0) ram d = (ret', buf, ram', d')"
    by (metis prod_cases4)
  have "length zeros64 = 64" by (simp add: zeros64_def)
  then show ?thesis
    using pak_write_then_read [OF pak_sim_documented _ _ _ _ w r] by (simp add: w r PFS_LABEL_AREA_def)
qed

lemma osContRamRead_checked_witness:
  "\<exists>buf ram d. osContRamRead pak_sim_si 0 some_status 0 9 [] zeros64 (zeros64, \<lambda>_. replicate 32 7) = (0, buf, ram, d) \<and>
     \<not> damaged (replicate 32 7) buf"
proof -
  obtain buf ram d where r: "osContRamRead pak_sim_si 0 some_status 0 9 [] zeros64 (zeros64, \<lambda>_. replicate 32 7) = (0, buf, ram, d)"
    and c: "ram_datacrc 0 ram = osContDataCrc (pak_sim_blocks (zeros64, \<lambda>_. replicate 32 7) 9)"
    using osContRamRead_documented [OF pak_sim_documented, of zeros64 9 0 some_status "(zeros64, \<lambda>_. replicate 32 7)"]
    by (auto simp: zeros64_def)
  then show ?thesis
    using osContRamRead_checked [OF r] by (auto simp: pak_sim_blocks_def)
qed

end
