(* ===== verification/Pfs.thy ===== *)
theory Pfs
  imports PakRam
begin

section \<open>The file system of the controller pak\<close>

text \<open>
  \<^verbatim>\<open>contpfs.c\<close> and \<^verbatim>\<open>pfs*.c\<close> of \<^verbatim>\<open>lib/ultralib/src/io\<close>, in the form of this version of the library, on top of the
  block access of \<open>PakRam\<close>.  A pak is a sequence of banks of 128 pages of 8 blocks of 32 bytes.  Page 0 of the
  first bank holds the identity of the pak four times and the label, then come for every bank a table of the
  pages (the inode) and its mirror, and two pages with 16 directory entries.  An entry of a table links a page
  to the next page of its file.  The structures the code casts a block to stay blocks: lists of bytes
  that are read and written at the offsets of the fields.
\<close>

text \<open>\<open>OSPfs\<close> with what lies behind it: \<^verbatim>\<open>__osPfsPifRam\<close> and the device.\<close>

record 'd fsys =
  fs_status :: u32
  fs_channel :: nat
  fs_id :: "u8 list"
  fs_label :: "u8 list"
  fs_version :: u8
  fs_dir_size :: nat
  fs_inode_table :: nat
  fs_minode_table :: nat
  fs_dir_table :: nat
  fs_inode_start_page :: nat
  fs_banks :: u8
  fs_activebank :: u8
  fs_pif :: "u8 list"
  fs_dev :: 'd

text \<open>The serial interface, what \<open>PakRam\<close> needs besides, the counter of the processor, and what the stack holds
  where the code leaves a directory entry partly uninitialised.\<close>

record 'd pfs_env =
  pe_si :: "'d si"
  pe_gap :: u8
  pe_sdata :: OSContStatus
  pe_count :: u32
  pe_stack :: "u8 list"

definition PFS_ERR_INCONSISTENT :: s32 where "PFS_ERR_INCONSISTENT = 3"
definition PFS_ERR_INVALID :: s32 where "PFS_ERR_INVALID = 5"
definition PFS_ERR_BAD_DATA :: s32 where "PFS_ERR_BAD_DATA = 6"
definition PFS_DATA_FULL :: s32 where "PFS_DATA_FULL = 7"
definition PFS_DIR_FULL :: s32 where "PFS_DIR_FULL = 8"
definition PFS_ERR_EXIST :: s32 where "PFS_ERR_EXIST = 9"
definition PFS_ERR_ID_FATAL :: s32 where "PFS_ERR_ID_FATAL = 10"
definition PFS_ERR_DEVICE :: s32 where "PFS_ERR_DEVICE = 11"
definition PFS_ID_0AREA :: u16 where "PFS_ID_0AREA = 1"
definition PFS_ID_1AREA :: u16 where "PFS_ID_1AREA = 3"
definition PFS_ID_2AREA :: u16 where "PFS_ID_2AREA = 4"
definition PFS_ID_3AREA :: u16 where "PFS_ID_3AREA = 6"
definition PFS_MAX_BANKS :: nat where "PFS_MAX_BANKS = 62"
definition PFS_ONE_PAGE :: nat where "PFS_ONE_PAGE = 8"
definition DEF_DIR_PAGES :: nat where "DEF_DIR_PAGES = 2"
definition PFS_READ :: u8 where "PFS_READ = 0"
definition PFS_WRITE :: u8 where "PFS_WRITE = 1"
definition PFS_INITIALIZED :: u32 where "PFS_INITIALIZED = 1"
definition PFS_CORRUPTED :: u32 where "PFS_CORRUPTED = 2"
definition PFS_EOF :: u16 where "PFS_EOF = 1"
definition PFS_PAGE_NOT_USED :: u16 where "PFS_PAGE_NOT_USED = 3"
definition DIR_STATUS_EMPTY :: u8 where "DIR_STATUS_EMPTY = 0"
definition DIR_STATUS_OCCUPIED :: u8 where "DIR_STATUS_OCCUPIED = 2"
definition CONT_BLOCK_DETECT :: u16 where "CONT_BLOCK_DETECT = 0x8000 div 32"

lemmas pfs_consts = PFS_ERR_INCONSISTENT_def PFS_ERR_INVALID_def PFS_ERR_BAD_DATA_def PFS_DATA_FULL_def PFS_DIR_FULL_def
  PFS_ERR_EXIST_def PFS_ERR_ID_FATAL_def PFS_ERR_DEVICE_def PFS_ID_0AREA_def PFS_ID_1AREA_def PFS_ID_2AREA_def
  PFS_ID_3AREA_def PFS_MAX_BANKS_def PFS_ONE_PAGE_def DEF_DIR_PAGES_def PFS_READ_def PFS_WRITE_def PFS_INITIALIZED_def PFS_CORRUPTED_def
  PFS_EOF_def PFS_PAGE_NOT_USED_def DIR_STATUS_EMPTY_def DIR_STATUS_OCCUPIED_def

subsection \<open>Errors\<close>

type_synonym ('d, 'a) fsr = "(s32 + 'a) \<times> 'd fsys"

definition errck :: "('d, 'a) fsr \<Rightarrow> ('a \<Rightarrow> 'd fsys \<Rightarrow> ('d, 'b) fsr) \<Rightarrow> ('d, 'b) fsr" where
  "errck m k = (case m of (Inl r, s) \<Rightarrow> (Inl r, s) | (Inr a, s) \<Rightarrow> k a s)"

lemma errck_simps [simp]: "errck (Inl r, s) k = (Inl r, s)" "errck (Inr a, s) k = k a s"
  by (simp_all add: errck_def)

lemma errck_cong [fundef_cong]:
  "m = m' \<Longrightarrow> (\<And>a s. m' = (Inr a, s) \<Longrightarrow> k a s = k' a s) \<Longrightarrow> errck m k = errck m' k'"
  by (simp add: errck_def split: prod.split sum.split)

subsection \<open>Blocks\<close>

text \<open>The number of a block is an \<^verbatim>\<open>int\<close> that the block access takes as \<^verbatim>\<open>u16\<close>.\<close>

definition blkno :: "nat \<Rightarrow> u16" where
  "blkno n = of_nat n"

lemma unat_blkno [simp]: "n < 65536 \<Longrightarrow> unat (blkno n) = n"
  by (simp add: blkno_def unat_of_nat take_bit_nat_eq_self)

lemma blkno_unat [simp]: "blkno (unat a) = a"
  by (simp add: blkno_def)

lemma blkno_less [intro]: "n < 2048 \<Longrightarrow> blkno n < 0x800"
  by (simp add: word_less_nat_alt)

lemma blkno_eq [simp]: "m < 65536 \<Longrightarrow> n < 65536 \<Longrightarrow> blkno m = blkno n \<longleftrightarrow> m = n"
  by (metis unat_blkno)

lemma blkno_free [intro]: "7 \<le> n \<Longrightarrow> n < 65536 \<Longrightarrow> PFS_LABEL_AREA \<le> blkno n"
  by (simp add: PFS_LABEL_AREA_def word_le_nat_alt)

text \<open>The block access of \<open>PakRam\<close> on the state, and with the check of its result.\<close>

definition fs_read :: "'d pfs_env \<Rightarrow> u16 \<Rightarrow> u8 list \<Rightarrow> 'd fsys \<Rightarrow> s32 \<times> u8 list \<times> 'd fsys" where
  "fs_read e a buf s =
     (case osContRamRead (pe_si e) (pe_gap e) (pe_sdata e) (fs_channel s) a buf (fs_pif s) (fs_dev s) of
        (ret, buf, ram, d) \<Rightarrow> (ret, buf, s\<lparr>fs_pif := ram, fs_dev := d\<rparr>))"

definition fs_write :: "'d pfs_env \<Rightarrow> u16 \<Rightarrow> u8 list \<Rightarrow> s32 \<Rightarrow> 'd fsys \<Rightarrow> s32 \<times> 'd fsys" where
  "fs_write e a bs force s =
     (case osContRamWrite (pe_si e) (pe_gap e) (pe_sdata e) (fs_channel s) a bs force (fs_pif s) (fs_dev s) of
        (ret, ram, d) \<Rightarrow> (ret, s\<lparr>fs_pif := ram, fs_dev := d\<rparr>))"

definition ram_get :: "'d pfs_env \<Rightarrow> u16 \<Rightarrow> 'd fsys \<Rightarrow> ('d, u8 list) fsr" where
  "ram_get e a s = (case fs_read e a [] s of (ret, buf, s) \<Rightarrow> (if ret \<noteq> 0 then Inl ret else Inr buf, s))"

definition ram_put :: "'d pfs_env \<Rightarrow> u16 \<Rightarrow> u8 list \<Rightarrow> s32 \<Rightarrow> 'd fsys \<Rightarrow> ('d, unit) fsr" where
  "ram_put e a bs force s = (case fs_write e a bs force s of (ret, s) \<Rightarrow> (if ret \<noteq> 0 then Inl ret else Inr (), s))"

text \<open>Fields of two and four bytes, the higher byte first.\<close>

definition half_at :: "u8 list \<Rightarrow> nat \<Rightarrow> u16" where
  "half_at bs i = push_bit 8 (ucast (bs ! i)) OR ucast (bs ! (i + 1))"

definition word_at :: "u8 list \<Rightarrow> nat \<Rightarrow> u32" where
  "word_at bs i = push_bit 16 (ucast (half_at bs i)) OR ucast (half_at bs (i + 2))"

definition be16 :: "u16 \<Rightarrow> u8 list" where
  "be16 w = [ucast (drop_bit 8 w), ucast w]"

definition be32 :: "u32 \<Rightarrow> u8 list" where
  "be32 w = be16 (ucast (drop_bit 16 w)) @ be16 (ucast w)"

subsection \<open>Sums and banks\<close>

definition osSumcalc :: "u8 list \<Rightarrow> u16" where
  "osSumcalc bs = ucast (fold (\<lambda>b acc. (acc + ucast b) AND 0xFFFF) bs (0 :: u32))"

definition osIdCheckSum :: "u8 list \<Rightarrow> u16 \<times> u16" where
  "osIdCheckSum bs =
     fold (\<lambda>j (csum, icsum). (csum + half_at bs (2 * j), icsum + NOT (half_at bs (2 * j)))) [0..<14] (0, 0)"

definition id_good :: "u8 list \<Rightarrow> bool" where
  "id_good bs = (case osIdCheckSum bs of (csum, icsum) \<Rightarrow> half_at bs 28 = csum \<and> half_at bs 30 = icsum)"

definition osPfsSelectBank :: "'d pfs_env \<Rightarrow> 'd fsys \<Rightarrow> ('d, unit) fsr" where
  "osPfsSelectBank e s = ram_put e CONT_BLOCK_DETECT (replicate 32 (fs_activebank s)) 0 s"

definition select_bank :: "'d pfs_env \<Rightarrow> u8 \<Rightarrow> 'd fsys \<Rightarrow> ('d, unit) fsr" where
  "select_bank e bank s = osPfsSelectBank e (s\<lparr>fs_activebank := bank\<rparr>)"

definition bank_zero :: "'d pfs_env \<Rightarrow> 'd fsys \<Rightarrow> ('d, unit) fsr" where
  "bank_zero e s = (if fs_activebank s \<noteq> 0 then osPfsSelectBank e (s\<lparr>fs_activebank := 0\<rparr>) else (Inr (), s))"

subsection \<open>The identity of the pak\<close>

primrec write_areas :: "'d pfs_env \<Rightarrow> u16 list \<Rightarrow> u8 list \<Rightarrow> 'd fsys \<Rightarrow> ('d, unit) fsr" where
  "write_areas e [] newid s = (Inr (), s)"
| "write_areas e (a # as) newid s = errck (ram_put e a newid 1 s) (\<lambda>_. write_areas e as newid)"

text \<open>One turn of the search for the number of banks: block 0 of the bank is marked and read back, and the mark of
  bank 0 must still be there.\<close>

definition repair_turn :: "'d pfs_env \<Rightarrow> nat \<Rightarrow> 'd fsys \<Rightarrow> ('d, bool) fsr" where
  "repair_turn e j s =
     errck (select_bank e (of_nat j) s) (\<lambda>_ s.
     errck (ram_get e 0 s) (\<lambda>temp s.
       let temp = (of_nat j OR 0x80) # map (\<lambda>b. NOT b) (tl temp) in
     errck (ram_put e 0 temp 0 s) (\<lambda>_ s.
     errck (ram_get e 0 s) (\<lambda>comp s.
       if comp \<noteq> temp then (Inr False, s)
       else if j > 0
       then errck (select_bank e 0 s) (\<lambda>_ s.
            errck (ram_get e 0 s) (\<lambda>temp s. (Inr (temp ! 0 = 0x80), s)))
       else (Inr True, s)))))"

primrec repair_banks :: "'d pfs_env \<Rightarrow> nat \<Rightarrow> nat \<Rightarrow> 'd fsys \<Rightarrow> ('d, nat) fsr" where
  "repair_banks e 0 j s = (Inr j, s)"
| "repair_banks e (Suc n) j s =
     errck (repair_turn e j s) (\<lambda>ok s. if ok then repair_banks e n (j + 1) s else (Inr j, s))"

definition repaired_id :: "u32 \<Rightarrow> u8 list \<Rightarrow> nat \<Rightarrow> u8 list" where
  "repaired_id count badid j =
     (let newid = be32 (- 1) @ be32 count @ take 16 (drop 8 badid) @
            be16 ((half_at badid 24 AND NOT 1) OR of_bool (j > 0)) @ [of_nat j, badid ! 27];
          (csum, icsum) = osIdCheckSum newid
      in newid @ be16 csum @ be16 icsum)"

definition osRepairPackId :: "'d pfs_env \<Rightarrow> u8 list \<Rightarrow> 'd fsys \<Rightarrow> ('d, u8 list) fsr" where
  "osRepairPackId e badid s =
     errck (bank_zero e s) (\<lambda>_ s.
     errck (repair_banks e PFS_MAX_BANKS 0 s) (\<lambda>j s.
     errck (select_bank e 0 s) (\<lambda>_ s.
       let newid = repaired_id (pe_count e) badid j in
     errck (write_areas e [PFS_ID_0AREA, PFS_ID_1AREA, PFS_ID_2AREA, PFS_ID_3AREA] newid s) (\<lambda>_ s.
     errck (ram_get e PFS_ID_0AREA s) (\<lambda>temp s.
       (if temp \<noteq> newid then Inl PFS_ERR_ID_FATAL else Inr newid, s))))))"

text \<open>The copies of the identity are tried in order; the result keeps what was last read, for the caller goes on
  with it.\<close>

primrec check_areas :: "'d pfs_env \<Rightarrow> u16 list \<Rightarrow> u8 list \<Rightarrow> 'd fsys \<Rightarrow> s32 \<times> u8 list \<times> 'd fsys" where
  "check_areas e [] temp s = (PFS_ERR_ID_FATAL, temp, s)"
| "check_areas e (a # as) temp s =
     (case fs_read e a temp s of (ret, temp, s) \<Rightarrow>
        if ret \<noteq> 0 then (ret, temp, s)
        else if id_good temp
        then (case write_areas e (filter (\<lambda>b. b \<noteq> a) [PFS_ID_0AREA, PFS_ID_1AREA, PFS_ID_2AREA, PFS_ID_3AREA]) temp s of
                (Inl ret, s) \<Rightarrow> (ret, temp, s) | (Inr _, s) \<Rightarrow> (0, temp, s))
        else check_areas e as temp s)"

definition osCheckPackId :: "'d pfs_env \<Rightarrow> u8 list \<Rightarrow> 'd fsys \<Rightarrow> s32 \<times> u8 list \<times> 'd fsys" where
  "osCheckPackId e temp s =
     (case bank_zero e s of
        (Inl ret, s) \<Rightarrow> (ret, temp, s)
      | (Inr _, s) \<Rightarrow> check_areas e [PFS_ID_1AREA, PFS_ID_2AREA, PFS_ID_3AREA] temp s)"

text \<open>The end of \<^verbatim>\<open>__osGetId\<close>, \<^verbatim>\<open>osPfsRepairId\<close> and \<^verbatim>\<open>osPfsInitPak\<close>: the identity is kept and where everything lies follows
  from the number of banks.\<close>

definition set_geometry :: "u8 list \<Rightarrow> 'd fsys \<Rightarrow> 'd fsys" where
  "set_geometry pid s =
     (let banks = unat (pid ! 26);
          minode = (1 + banks) * PFS_ONE_PAGE
      in s\<lparr>fs_id := pid, fs_version := pid ! 27, fs_banks := pid ! 26,
           fs_inode_start_page := 1 + DEF_DIR_PAGES + 2 * banks, fs_dir_size := DEF_DIR_PAGES * PFS_ONE_PAGE,
           fs_inode_table := PFS_ONE_PAGE, fs_minode_table := minode,
           fs_dir_table := minode + banks * PFS_ONE_PAGE\<rparr>)"

definition read_label :: "'d pfs_env \<Rightarrow> 'd fsys \<Rightarrow> ('d, unit) fsr" where
  "read_label e s = errck (ram_get e PFS_LABEL_AREA s) (\<lambda>label s. (Inr (), s\<lparr>fs_label := label\<rparr>))"

definition usable_id :: "'d pfs_env \<Rightarrow> u8 list \<Rightarrow> 'd fsys \<Rightarrow> ('d, u8 list) fsr" where
  "usable_id e pid s =
     (if half_at pid 24 AND 1 = 0
      then errck (osRepairPackId e pid s) (\<lambda>pid s. (if half_at pid 24 AND 1 = 0 then Inl PFS_ERR_DEVICE else Inr pid, s))
      else (Inr pid, s))"

definition osGetId :: "'d pfs_env \<Rightarrow> 'd fsys \<Rightarrow> ('d, unit) fsr" where
  "osGetId e s =
     errck (bank_zero e s) (\<lambda>_ s.
     errck (ram_get e PFS_ID_0AREA s) (\<lambda>temp s.
     errck (if \<not> id_good temp
            then (case osCheckPackId e temp s of (ret, temp, s) \<Rightarrow>
                    if ret = PFS_ERR_ID_FATAL then osRepairPackId e temp s
                    else (if ret \<noteq> 0 then Inl ret else Inr temp, s))
            else (Inr temp, s)) (\<lambda>pid s.
     errck (usable_id e pid s) (\<lambda>pid s. read_label e (set_geometry pid s)))))"

definition osPfsRepairId :: "'d pfs_env \<Rightarrow> 'd fsys \<Rightarrow> ('d, unit) fsr" where
  "osPfsRepairId e s = osGetId e s"

definition osCheckId :: "'d pfs_env \<Rightarrow> 'd fsys \<Rightarrow> ('d, unit) fsr" where
  "osCheckId e s =
     errck (bank_zero e s) (\<lambda>_ s.
     errck (case fs_read e PFS_ID_0AREA [] s of (ret, temp, s) \<Rightarrow>
              if ret \<noteq> 0
              then if ret \<noteq> PFS_ERR_NEW_PACK then (Inl ret, s) else ram_get e PFS_ID_0AREA s
              else (Inr temp, s)) (\<lambda>temp s.
       (if fs_id s \<noteq> temp then Inl PFS_ERR_NEW_PACK else Inr (), s)))"

text \<open>\<^verbatim>\<open>PFS_CHECK_ID()\<close> gives up for a new pak only.\<close>

definition check_id :: "'d pfs_env \<Rightarrow> 'd fsys \<Rightarrow> ('d, unit) fsr" where
  "check_id e s =
     (case osCheckId e s of
        (Inl ret, s) \<Rightarrow> (if ret = PFS_ERR_NEW_PACK then Inl PFS_ERR_NEW_PACK else Inr (), s)
      | (Inr _, s) \<Rightarrow> (Inr (), s))"

definition check_status :: "'d fsys \<Rightarrow> ('d, unit) fsr" where
  "check_status s = (if fs_status s AND PFS_INITIALIZED = 0 then Inl PFS_ERR_INVALID else Inr (), s)"

subsection \<open>The label and the directory\<close>

text \<open>\<^verbatim>\<open>osPfsGetLabel\<close> delivers the label up to the first byte that is 0; the flag says whether there is a buffer.\<close>

definition osPfsGetLabel :: "'d pfs_env \<Rightarrow> bool \<Rightarrow> 'd fsys \<Rightarrow> ('d, u8 list) fsr" where
  "osPfsGetLabel e buffer s =
     (if \<not> buffer then (Inl PFS_ERR_INVALID, s)
      else errck (check_id e s) (\<lambda>_ s. (Inr (takeWhile (\<lambda>b. b \<noteq> 0) (fs_label s)), s)))"

definition set_label :: "u8 list \<Rightarrow> u8 list \<Rightarrow> u8 list" where
  "set_label label old =
     (let n = length (takeWhile (\<lambda>b. b \<noteq> 0) (take (length old) label)) in take n label @ drop n old)"

definition osPfsSetLabel :: "'d pfs_env \<Rightarrow> u8 list option \<Rightarrow> 'd fsys \<Rightarrow> ('d, unit) fsr" where
  "osPfsSetLabel e label s =
     errck (check_id e s) (\<lambda>_ s.
       let s = (case label of None \<Rightarrow> s | Some l \<Rightarrow> s\<lparr>fs_label := set_label l (fs_label s)\<rparr>) in
     errck (bank_zero e s) (\<lambda>_ s. ram_put e PFS_LABEL_AREA (fs_label s) 0 s))"

text \<open>The fields of a directory entry.\<close>

definition dir_game_code :: "u8 list \<Rightarrow> u32" where "dir_game_code d = word_at d 0"
definition dir_company_code :: "u8 list \<Rightarrow> u16" where "dir_company_code d = half_at d 4"
definition dir_start_page :: "u8 list \<Rightarrow> u16" where "dir_start_page d = half_at d 6"
definition dir_status :: "u8 list \<Rightarrow> u8" where "dir_status d = d ! 8"
definition dir_ext_name :: "u8 list \<Rightarrow> u8 list" where "dir_ext_name d = take 4 (drop 12 d)"
definition dir_game_name :: "u8 list \<Rightarrow> u8 list" where "dir_game_name d = take 16 (drop 16 d)"

definition make_dir :: "u32 \<Rightarrow> u16 \<Rightarrow> u16 \<Rightarrow> u8 \<Rightarrow> u8 \<Rightarrow> u16 \<Rightarrow> u8 list \<Rightarrow> u8 list \<Rightarrow> u8 list" where
  "make_dir game_code company_code start_page status reserved data_sum ext_name game_name =
     be32 game_code @ be16 company_code @ be16 start_page @ [status, reserved] @ be16 data_sum @ ext_name @ game_name"

definition dir_used :: "u8 list \<Rightarrow> bool" where
  "dir_used d \<longleftrightarrow> dir_company_code d \<noteq> 0 \<and> dir_game_code d \<noteq> 0"

definition dir_matches :: "u16 \<Rightarrow> u32 \<Rightarrow> u8 list option \<Rightarrow> u8 list option \<Rightarrow> u8 list \<Rightarrow> bool" where
  "dir_matches company_code game_code game_name ext_name d \<longleftrightarrow>
     dir_company_code d = company_code \<and> dir_game_code d = game_code \<and>
     (case game_name of None \<Rightarrow> True | Some n \<Rightarrow> dir_game_name d = take 16 n) \<and>
     (case ext_name of None \<Rightarrow> True | Some n \<Rightarrow> dir_ext_name d = take 4 n)"

text \<open>The search delivers the number of the file as well, which the caller looks at after an error too; an error of
  the pak leaves it as it was.\<close>

primrec find_in ::
  "'d pfs_env \<Rightarrow> u16 \<Rightarrow> u32 \<Rightarrow> u8 list option \<Rightarrow> u8 list option \<Rightarrow> nat list \<Rightarrow> s32 \<Rightarrow> 'd fsys \<Rightarrow> s32 \<times> s32 \<times> 'd fsys" where
  "find_in e company_code game_code game_name ext_name [] file_no s = (PFS_ERR_INVALID, -1, s)"
| "find_in e company_code game_code game_name ext_name (j # js) file_no s =
     (case ram_get e (blkno (fs_dir_table s + j)) s of
        (Inl ret, s) \<Rightarrow> (ret, file_no, s)
      | (Inr dir, s) \<Rightarrow>
          if dir_matches company_code game_code game_name ext_name dir then (0, of_nat j, s)
          else find_in e company_code game_code game_name ext_name js file_no s)"

definition osPfsFindFile ::
  "'d pfs_env \<Rightarrow> u16 \<Rightarrow> u32 \<Rightarrow> u8 list option \<Rightarrow> u8 list option \<Rightarrow> s32 \<Rightarrow> 'd fsys \<Rightarrow> s32 \<times> s32 \<times> 'd fsys" where
  "osPfsFindFile e company_code game_code game_name ext_name file_no s =
     (case check_id e s of
        (Inl ret, s) \<Rightarrow> (ret, file_no, s)
      | (Inr _, s) \<Rightarrow> find_in e company_code game_code game_name ext_name [0..<fs_dir_size s] file_no s)"

primrec count_used :: "'d pfs_env \<Rightarrow> nat list \<Rightarrow> nat \<Rightarrow> 'd fsys \<Rightarrow> ('d, nat) fsr" where
  "count_used e [] files s = (Inr files, s)"
| "count_used e (j # js) files s =
     errck (ram_get e (blkno (fs_dir_table s + j)) s) (\<lambda>dir s.
       count_used e js (if dir_used dir then files + 1 else files) s)"

text \<open>The largest number of files and the number of those in use.\<close>

definition osPfsNumFiles :: "'d pfs_env \<Rightarrow> 'd fsys \<Rightarrow> ('d, nat \<times> nat) fsr" where
  "osPfsNumFiles e s =
     errck (check_status s) (\<lambda>_ s.
     errck (check_id e s) (\<lambda>_ s.
     errck (bank_zero e s) (\<lambda>_ s.
     errck (count_used e [0..<fs_dir_size s] 0 s) (\<lambda>files s. (Inr (fs_dir_size s, files), s)))))"

subsection \<open>The tables of pages\<close>

text \<open>A table is a list of 128 entries; an entry names a bank in its higher and a page in its lower byte.\<close>

definition pg_bank :: "u16 \<Rightarrow> u8" where "pg_bank p = ucast (drop_bit 8 p)"
definition pg_page :: "u16 \<Rightarrow> u8" where "pg_page p = ucast p"
definition mk_page :: "u8 \<Rightarrow> u8 \<Rightarrow> u16" where "mk_page bank page = push_bit 8 (ucast bank) OR ucast page"

definition inode_bytes :: "u16 list \<Rightarrow> u8 list" where
  "inode_bytes inode = concat (map be16 inode)"

definition inode_block :: "nat \<Rightarrow> u16 list \<Rightarrow> u8 list" where
  "inode_block j inode = concat (map be16 (take 16 (drop (16 * j) inode)))"

definition put_inode_block :: "nat \<Rightarrow> u8 list \<Rightarrow> u16 list \<Rightarrow> u16 list" where
  "put_inode_block j bs inode = take (16 * j) inode @ map (\<lambda>i. half_at bs (2 * i)) [0..<16] @ drop (16 * j + 16) inode"

definition page_offset :: "'d fsys \<Rightarrow> u8 \<Rightarrow> nat" where
  "page_offset s bank = (if bank > 0 then 1 else fs_inode_start_page s)"

definition inode_sum :: "nat \<Rightarrow> u16 list \<Rightarrow> u8" where
  "inode_sum offset inode = ucast (osSumcalc (inode_bytes (drop offset inode)))"

definition table_block :: "nat \<Rightarrow> u8 \<Rightarrow> nat \<Rightarrow> u16" where
  "table_block table bank j = blkno (table + unat bank * PFS_ONE_PAGE + j)"

text \<open>The loops over the eight blocks of a table: a write looks at the result for the mirror only, and the
  reading of the mirror and the two repairs look at none.\<close>

primrec write_tables :: "'d pfs_env \<Rightarrow> u16 list \<Rightarrow> u8 \<Rightarrow> nat list \<Rightarrow> 'd fsys \<Rightarrow> s32 \<times> 'd fsys" where
  "write_tables e inode bank [] s = (0, s)"
| "write_tables e inode bank (j # js) s =
     (let (_, s) = fs_write e (table_block (fs_inode_table s) bank j) (inode_block j inode) 0 s;
          (ret, s) = fs_write e (table_block (fs_minode_table s) bank j) (inode_block j inode) 0 s
      in if ret \<noteq> 0 then (ret, s) else write_tables e inode bank js s)"

primrec read_table :: "'d pfs_env \<Rightarrow> u8 \<Rightarrow> nat list \<Rightarrow> u16 list \<Rightarrow> 'd fsys \<Rightarrow> s32 \<times> u16 list \<times> 'd fsys" where
  "read_table e bank [] inode s = (0, inode, s)"
| "read_table e bank (j # js) inode s =
     (case fs_read e (table_block (fs_inode_table s) bank j) (inode_block j inode) s of (ret, b, s) \<Rightarrow>
        let inode = put_inode_block j b inode
        in if ret \<noteq> 0 then (ret, inode, s) else read_table e bank js inode s)"

primrec read_mirror :: "'d pfs_env \<Rightarrow> u8 \<Rightarrow> nat list \<Rightarrow> u16 list \<Rightarrow> 'd fsys \<Rightarrow> u16 list \<times> 'd fsys" where
  "read_mirror e bank [] inode s = (inode, s)"
| "read_mirror e bank (j # js) inode s =
     (case fs_read e (table_block (fs_minode_table s) bank j) (inode_block j inode) s of (ret, b, s) \<Rightarrow>
        read_mirror e bank js (put_inode_block j b inode) s)"

primrec repair_table :: "'d pfs_env \<Rightarrow> nat \<Rightarrow> u8 \<Rightarrow> u16 list \<Rightarrow> nat list \<Rightarrow> 'd fsys \<Rightarrow> 'd fsys" where
  "repair_table e table bank inode [] s = s"
| "repair_table e table bank inode (j # js) s =
     repair_table e table bank inode js (snd (fs_write e (table_block table bank j) (inode_block j inode) 0 s))"

definition write_inode :: "'d pfs_env \<Rightarrow> u16 list \<Rightarrow> u8 \<Rightarrow> 'd fsys \<Rightarrow> s32 \<times> u16 list \<times> 'd fsys" where
  "write_inode e inode bank s =
     (let inode = inode[0 := mk_page (pg_bank (inode ! 0)) (inode_sum (page_offset s bank) inode)];
          (ret, s) = write_tables e inode bank [0..<PFS_ONE_PAGE] s
      in (ret, inode, s))"

definition read_inode :: "'d pfs_env \<Rightarrow> u16 list \<Rightarrow> u8 \<Rightarrow> 'd fsys \<Rightarrow> s32 \<times> u16 list \<times> 'd fsys" where
  "read_inode e inode bank s =
     (case read_table e bank [0..<PFS_ONE_PAGE] inode s of (ret, inode, s) \<Rightarrow>
        if ret \<noteq> 0 then (ret, inode, s)
        else (let csum = inode_sum (page_offset s bank) inode in
          if csum \<noteq> pg_page (inode ! 0)
          then (case read_mirror e bank [0..<PFS_ONE_PAGE] inode s of (inode, s) \<Rightarrow>
                  if csum \<noteq> pg_page (inode ! 0) then (PFS_ERR_INCONSISTENT, inode, s)
                  else (0, inode, repair_table e (fs_inode_table s) bank inode [0..<PFS_ONE_PAGE] s))
          else (0, inode, repair_table e (fs_minode_table s) bank inode [0..<PFS_ONE_PAGE] s)))"

definition osPfsRWInode :: "'d pfs_env \<Rightarrow> u16 list \<Rightarrow> u8 \<Rightarrow> u8 \<Rightarrow> 'd fsys \<Rightarrow> s32 \<times> u16 list \<times> 'd fsys" where
  "osPfsRWInode e inode flag bank s =
     (case bank_zero e s of
        (Inl ret, s) \<Rightarrow> (ret, inode, s)
      | (Inr _, s) \<Rightarrow> if flag = PFS_WRITE then write_inode e inode bank s
                     else if flag = PFS_READ then read_inode e inode bank s
                     else read_table e bank [0..<PFS_ONE_PAGE] inode s)"

text \<open>The table as read, and written, with the check of the result.\<close>

definition get_inode :: "'d pfs_env \<Rightarrow> u16 list \<Rightarrow> u8 \<Rightarrow> 'd fsys \<Rightarrow> ('d, u16 list) fsr" where
  "get_inode e inode bank s =
     (case osPfsRWInode e inode PFS_READ bank s of (ret, inode, s) \<Rightarrow> (if ret \<noteq> 0 then Inl ret else Inr inode, s))"

definition put_inode :: "'d pfs_env \<Rightarrow> u16 list \<Rightarrow> u8 \<Rightarrow> 'd fsys \<Rightarrow> ('d, u16 list) fsr" where
  "put_inode e inode bank s =
     (case osPfsRWInode e inode PFS_WRITE bank s of (ret, inode, s) \<Rightarrow> (if ret \<noteq> 0 then Inl ret else Inr inode, s))"

text \<open>Tables and directory entries before they are read.\<close>

definition no_inode :: "u16 list" where "no_inode = replicate 128 0"

primrec free_pages :: "'d pfs_env \<Rightarrow> nat list \<Rightarrow> u16 list \<Rightarrow> nat \<Rightarrow> 'd fsys \<Rightarrow> ('d, nat) fsr" where
  "free_pages e [] inode pages s = (Inr pages, s)"
| "free_pages e (b # bs) inode pages s =
     errck (get_inode e inode (of_nat b) s) (\<lambda>inode s.
       free_pages e bs inode
         (pages + length (filter (\<lambda>p. p = PFS_PAGE_NOT_USED) (drop (page_offset s (of_nat b)) inode))) s)"

definition osPfsFreeBlocks :: "'d pfs_env \<Rightarrow> 'd fsys \<Rightarrow> ('d, nat) fsr" where
  "osPfsFreeBlocks e s =
     errck (check_status s) (\<lambda>_ s.
     errck (check_id e s) (\<lambda>_ s.
     errck (free_pages e [0..<unat (fs_banks s)] no_inode 0 s) (\<lambda>pages s.
       (Inr (pages * PFS_ONE_PAGE * 32), s))))"

subsection \<open>Reading and writing a file\<close>

definition check_ipage :: "'d fsys \<Rightarrow> u16 \<Rightarrow> bool" where
  "check_ipage s p \<longleftrightarrow>
     fs_inode_start_page s \<le> unat p \<and> pg_bank p < fs_banks s \<and> 1 \<le> pg_page p \<and> pg_page p < 0x80"

text \<open>A place in a file: the bank whose table was read last, that table, and the page.\<close>

type_synonym cursor = "u8 \<times> u16 list \<times> u16"

definition osPfsGetNextPage :: "'d pfs_env \<Rightarrow> cursor \<Rightarrow> 'd fsys \<Rightarrow> ('d, cursor) fsr" where
  "osPfsGetNextPage e c s =
     (case c of (bank, inode, page) \<Rightarrow>
        errck (if pg_bank page \<noteq> bank
               then errck (get_inode e inode (pg_bank page) s) (\<lambda>inode s. (Inr (pg_bank page, inode), s))
               else (Inr (bank, inode), s)) (\<lambda>(bank, inode) s.
          let page = inode ! unat (pg_page page)
          in (if \<not> check_ipage s page then Inl (if page = PFS_EOF then PFS_ERR_INVALID else PFS_ERR_INCONSISTENT)
              else Inr (bank, inode, page), s)))"

primrec skip_pages :: "'d pfs_env \<Rightarrow> nat \<Rightarrow> cursor \<Rightarrow> 'd fsys \<Rightarrow> ('d, cursor) fsr" where
  "skip_pages e 0 c s = (Inr c, s)"
| "skip_pages e (Suc n) c s = errck (osPfsGetNextPage e c s) (skip_pages e n)"

text \<open>The block a transfer is at: the next page when the page is done, with its bank switched on.\<close>

definition at_block :: "'d pfs_env \<Rightarrow> nat \<Rightarrow> cursor \<Rightarrow> 'd fsys \<Rightarrow> ('d, nat \<times> cursor) fsr" where
  "at_block e cur_block c s =
     errck (if cur_block = PFS_ONE_PAGE then errck (osPfsGetNextPage e c s) (\<lambda>c s. (Inr (0, c), s))
            else (Inr (cur_block, c), s)) (\<lambda>(cur_block, bank, inode, page) s.
     errck (if fs_activebank s \<noteq> pg_bank page then select_bank e (pg_bank page) s else (Inr (), s)) (\<lambda>_ s.
       (Inr (cur_block, bank, inode, page), s)))"

text \<open>The transfer of \<open>n\<close> blocks from the \<open>i\<close>th of the buffer on.\<close>

primrec rw_blocks ::
  "'d pfs_env \<Rightarrow> u8 \<Rightarrow> nat \<Rightarrow> nat \<Rightarrow> nat \<Rightarrow> cursor \<Rightarrow> u8 list \<Rightarrow> 'd fsys \<Rightarrow> s32 \<times> u8 list \<times> 'd fsys" where
  "rw_blocks e flag 0 i cur_block c buffer s = (0, buffer, s)"
| "rw_blocks e flag (Suc n) i cur_block c buffer s =
     (case at_block e cur_block c s of
        (Inl ret, s) \<Rightarrow> (ret, buffer, s)
      | (Inr (cur_block, bank, inode, page), s) \<Rightarrow>
          let blockno = blkno (unat (pg_page page) * PFS_ONE_PAGE + cur_block);
              old = take 32 (drop (32 * i) buffer);
              (ret, b, s) = (if flag = PFS_READ then fs_read e blockno old s
                             else case fs_write e blockno old 0 s of (ret, s) \<Rightarrow> (ret, old, s));
              buffer = take (32 * i) buffer @ b @ drop (32 * i + 32) buffer
          in if ret \<noteq> 0 then (ret, buffer, s)
             else rw_blocks e flag n (i + 1) (cur_block + 1) (bank, inode, page) buffer s)"

definition osPfsReadWriteFile ::
  "'d pfs_env \<Rightarrow> s32 \<Rightarrow> u8 \<Rightarrow> s32 \<Rightarrow> s32 \<Rightarrow> u8 list \<Rightarrow> 'd fsys \<Rightarrow> s32 \<times> u8 list \<times> 'd fsys" where
  "osPfsReadWriteFile e file_no flag offset size_in_bytes data_buffer s =
     (let fail = (\<lambda>ret. (ret, data_buffer, s)) in
      if int (fs_dir_size s) \<le> sint file_no \<or> sint file_no < 0 then fail PFS_ERR_INVALID
      else if sint size_in_bytes \<le> 0 \<or> sint size_in_bytes mod 32 \<noteq> 0 then fail PFS_ERR_INVALID
      else if sint offset < 0 \<or> sint offset mod 32 \<noteq> 0 then fail PFS_ERR_INVALID
      else (case errck (check_status s) (\<lambda>_ s. errck (check_id e s) (\<lambda>_ s. errck (bank_zero e s) (\<lambda>_ s.
                   ram_get e (blkno (fs_dir_table s + unat file_no)) s))) of
              (Inl ret, s) \<Rightarrow> (ret, data_buffer, s)
            | (Inr dir, s) \<Rightarrow>
                if \<not> dir_used dir then (PFS_ERR_INVALID, data_buffer, s)
                else if \<not> check_ipage s (dir_start_page dir)
                then (if dir_start_page dir = PFS_EOF then PFS_ERR_INVALID else PFS_ERR_INCONSISTENT, data_buffer, s)
                else if flag = PFS_READ \<and> dir_status dir AND DIR_STATUS_OCCUPIED = 0
                then (PFS_ERR_BAD_DATA, data_buffer, s)
                else (let first = nat (sint offset div 32) in
                  case skip_pages e (first div PFS_ONE_PAGE) (-1, no_inode, dir_start_page dir) s of
                    (Inl ret, s) \<Rightarrow> (ret, data_buffer, s)
                  | (Inr c, s) \<Rightarrow>
                      (case rw_blocks e flag (nat (sint size_in_bytes div 32)) 0 (first mod PFS_ONE_PAGE) c data_buffer s of
                         (ret, buffer, s) \<Rightarrow>
                           if ret \<noteq> 0 then (ret, buffer, s)
                           else if flag = PFS_WRITE \<and> dir_status dir AND DIR_STATUS_OCCUPIED = 0
                           then (case errck (select_bank e 0 s) (\<lambda>_ s.
                                   ram_put e (blkno (fs_dir_table s + unat file_no))
                                     (dir[8 := dir_status dir OR DIR_STATUS_OCCUPIED]) 0 s) of
                                   (Inl ret, s) \<Rightarrow> (ret, buffer, s) | (Inr _, s) \<Rightarrow> (0, buffer, s))
                           else (0, buffer, s)))))"

subsection \<open>Making a file\<close>

text \<open>A page is cleared with its bank switched on; what goes wrong while clearing is forgotten when the switch back
  succeeds.\<close>

primrec clear_blocks :: "'d pfs_env \<Rightarrow> nat list \<Rightarrow> 'd fsys \<Rightarrow> 'd fsys" where
  "clear_blocks e [] s = s"
| "clear_blocks e (b # bs) s =
     (case ram_put e (blkno b) (replicate 32 0) 0 s of (Inl _, s) \<Rightarrow> s | (Inr _, s) \<Rightarrow> clear_blocks e bs s)"

definition osClearPage :: "'d pfs_env \<Rightarrow> nat \<Rightarrow> u8 \<Rightarrow> 'd fsys \<Rightarrow> ('d, unit) fsr" where
  "osClearPage e page_no bank s =
     errck (select_bank e bank s) (\<lambda>_ s.
       select_bank e 0 (clear_blocks e (map (\<lambda>i. page_no * PFS_ONE_PAGE + i) [0..<PFS_ONE_PAGE]) s))"

text \<open>The pages of \<open>js\<close> are gone through: a free one becomes the successor of the page \<open>old\<close> until enough are
  declared.  The result is the last page, how many are declared, and whether the table was exhausted.\<close>

primrec declear_scan ::
  "'d pfs_env \<Rightarrow> u8 \<Rightarrow> int \<Rightarrow> nat list \<Rightarrow> nat \<Rightarrow> int \<Rightarrow> u16 list \<Rightarrow> 'd fsys \<Rightarrow> ('d, u16 list \<times> nat \<times> int) fsr" where
  "declear_scan e bank n [] old_page decleared inode s = (Inr (inode, old_page, decleared), s)"
| "declear_scan e bank n (j # js) old_page decleared inode s =
     (if decleared < n
      then if inode ! j = PFS_PAGE_NOT_USED
           then errck (osClearPage e old_page bank s)
                  (\<lambda>_. declear_scan e bank n js j (decleared + 1) (inode[old_page := mk_page bank (of_nat j)]))
           else declear_scan e bank n js old_page decleared inode s
      else (Inr (inode, old_page, decleared), s))"

text \<open>The result is the table, the first page (none if no page is free), the number of pages declared and the last
  page if the file goes on in another bank, else 0.  The last two are what they were if no page is free.\<close>

definition osPfsDeclearPage ::
  "'d pfs_env \<Rightarrow> u16 list \<Rightarrow> int \<Rightarrow> u8 \<Rightarrow> int \<Rightarrow> nat \<Rightarrow> 'd fsys \<Rightarrow> ('d, u16 list \<times> nat option \<times> int \<times> nat) fsr" where
  "osPfsDeclearPage e inode n bank decleared last_page s =
     (case filter (\<lambda>j. inode ! j = PFS_PAGE_NOT_USED) [page_offset s bank..<128] of
        [] \<Rightarrow> (Inr (inode, None, decleared, last_page), s)
      | spage # _ \<Rightarrow>
          errck (declear_scan e bank n [spage + 1..<128] spage 1 inode s) (\<lambda>(inode, old_page, decleared) s.
            if decleared < n then (Inr (inode, Some spage, decleared, old_page), s)
            else errck (osClearPage e old_page bank s) (\<lambda>_ s.
                   (Inr (inode[old_page := PFS_EOF], Some spage, decleared, 0), s))))"

text \<open>The variables of the loop over the banks.\<close>

record alloc =
  al_pages :: int
  al_start :: "nat option"
  al_decleared :: int
  al_last :: nat
  al_old_last :: nat
  al_old_bank :: u8
  al_first :: "u16 option"
  al_backup :: "u16 list"
  al_bank :: nat

primrec alloc_banks :: "'d pfs_env \<Rightarrow> nat list \<Rightarrow> u16 list \<Rightarrow> alloc \<Rightarrow> 'd fsys \<Rightarrow> ('d, alloc) fsr" where
  "alloc_banks e [] inode v s = (Inr v, s)"
| "alloc_banks e (b # bs) inode v s =
     errck (get_inode e inode (of_nat b) s) (\<lambda>inode s.
     errck (osPfsDeclearPage e inode (al_pages v) (of_nat b) (al_decleared v) (al_last v) s)
       (\<lambda>(inode, start_page, decleared, last_page) s.
        let v = v\<lparr>al_start := start_page, al_decleared := decleared, al_last := last_page, al_bank := b\<rparr> in
        case start_page of
          None \<Rightarrow> alloc_banks e bs inode (v\<lparr>al_bank := b + 1\<rparr>) s
        | Some p \<Rightarrow>
            let unit = mk_page (of_nat b) (of_nat p) in
            errck (case al_first v of
                     None \<Rightarrow> (Inr (v\<lparr>al_first := Some unit\<rparr>), s)
                   | Some _ \<Rightarrow>
                       errck (put_inode e ((al_backup v)[al_old_last v := unit]) (al_old_bank v) s) (\<lambda>backup s.
                         (Inr (v\<lparr>al_backup := backup\<rparr>), s))) (\<lambda>v s.
              let v = v\<lparr>al_backup := inode, al_old_last := last_page, al_old_bank := of_nat b\<rparr>
              in if decleared < al_pages v
                 then alloc_banks e bs inode (v\<lparr>al_pages := al_pages v - decleared, al_bank := b + 1\<rparr>) s
                 else (Inr (v\<lparr>al_pages := 0\<rparr>), s))))"

text \<open>The number of the file is delivered with every result; \<open>bytes\<close> is what the uninitialised variable holds.\<close>

definition osPfsAllocateFile ::
  "'d pfs_env \<Rightarrow> s32 \<Rightarrow> u16 \<Rightarrow> u32 \<Rightarrow> u8 list \<Rightarrow> u8 list \<Rightarrow> s32 \<Rightarrow> s32 \<Rightarrow> 'd fsys \<Rightarrow> s32 \<times> s32 \<times> 'd fsys" where
  "osPfsAllocateFile e bytes company_code game_code game_name ext_name file_size_in_bytes file_no s =
     (if company_code = 0 \<or> game_code = 0 then (PFS_ERR_INVALID, file_no, s)
      else let pages = (sint file_size_in_bytes + 255) sdiv 256 in
      case errck (check_status s) (\<lambda>_. check_id e) of
        (Inl ret, s) \<Rightarrow> (ret, file_no, s)
      | (Inr _, s) \<Rightarrow>
        (case osPfsFindFile e company_code game_code (Some game_name) (Some ext_name) file_no s of (ret, file_no, s) \<Rightarrow>
           if ret \<noteq> 0 \<and> ret \<noteq> PFS_ERR_INVALID then (ret, file_no, s)
           else if file_no \<noteq> -1 then (PFS_ERR_EXIST, file_no, s)
           else (case osPfsFreeBlocks e s of (r, s) \<Rightarrow>
             let free = (case r of Inl _ \<Rightarrow> sint bytes | Inr n \<Rightarrow> int n) in
             if free < sint file_size_in_bytes then (PFS_DATA_FULL, file_no, s)
             else if pages = 0 then (PFS_ERR_INVALID, file_no, s)
             else (case osPfsFindFile e 0 0 None None file_no s of (ret, file_no, s) \<Rightarrow>
               if ret \<noteq> 0 \<and> ret \<noteq> PFS_ERR_INVALID then (ret, file_no, s)
               else if file_no = -1 then (PFS_DIR_FULL, file_no, s)
               else (case alloc_banks e [0..<unat (fs_banks s)] no_inode
                       \<lparr>al_pages = pages, al_start = None, al_decleared = 0, al_last = 0, al_old_last = 0, al_old_bank = 0,
                        al_first = None, al_backup = no_inode, al_bank = 0\<rparr> s of
                   (Inl ret, s) \<Rightarrow> (ret, file_no, s)
                 | (Inr v, s) \<Rightarrow>
                     (case (al_start v, al_first v) of
                        (Some p, Some first) \<Rightarrow>
                          if al_pages v > 0 then (PFS_ERR_INCONSISTENT, file_no, s)
                          else (case put_inode e ((al_backup v)[al_old_last v := mk_page (of_nat (al_bank v)) (of_nat p)])
                                       (al_old_bank v) s of
                              (Inl ret, s) \<Rightarrow> (ret, file_no, s)
                            | (Inr _, s) \<Rightarrow>
                                (case ram_put e (blkno (fs_dir_table s + unat file_no))
                                        (make_dir game_code company_code first (pe_stack e ! 8) (pe_stack e ! 9) 0
                                           (take 4 ext_name) (take 16 game_name)) 0 s of
                                   (Inl ret, s) \<Rightarrow> (ret, file_no, s)
                                 | (Inr _, s) \<Rightarrow> (0, file_no, s)))
                      | _ \<Rightarrow> (PFS_ERR_INCONSISTENT, file_no, s)))))))"

subsection \<open>The state of a file, and taking a file away\<close>

text \<open>From here on \<^const>\<open>None\<close> stands for code that does not return, reads past a table of 128 pages, or uses a variable
  that was never set.\<close>

definition inode_at :: "u16 list \<Rightarrow> u8 \<Rightarrow> u16 option" where
  "inode_at inode page = (if unat page < 128 then Some (inode ! unat page) else None)"

text \<open>The links within the table of one bank: what was reached last, and how many pages.\<close>

partial_function (option) follow_in_bank :: "nat \<Rightarrow> u16 list \<Rightarrow> u8 \<Rightarrow> u16 \<Rightarrow> nat \<Rightarrow> (u16 \<times> nat) option" where
  "follow_in_bank start inode bank next_page pages =
     (if start \<le> unat next_page
      then do { next_page \<leftarrow> inode_at inode (pg_page next_page);
                if pg_bank next_page \<noteq> bank then Some (next_page, pages + 1)
                else follow_in_bank start inode bank next_page (pages + 1) }
      else Some (next_page, pages))"

partial_function (option) count_pages ::
  "'d pfs_env \<Rightarrow> u16 list \<Rightarrow> u8 \<Rightarrow> u8 \<Rightarrow> nat \<Rightarrow> u16 option \<Rightarrow> 'd fsys \<Rightarrow> ('d, u16 \<times> nat) fsr option" where
  "count_pages e inode bank start_page pages next_page s =
     (if bank < fs_banks s
      then (case get_inode e inode bank s of
              (Inl ret, s) \<Rightarrow> Some (Inl ret, s)
            | (Inr inode, s) \<Rightarrow>
                do { next_page \<leftarrow> inode_at inode start_page;
                     (next_page, n) \<leftarrow> follow_in_bank (fs_inode_start_page s) inode bank next_page (pages + 1);
                     if next_page = PFS_EOF then Some (Inr (next_page, n), s)
                     else if n > pages + 1 \<and> pg_bank next_page \<noteq> bank
                     then count_pages e inode (pg_bank next_page) (pg_page next_page) n (Some next_page) s
                     else count_pages e inode bank start_page n (Some next_page) s })
      else do { p \<leftarrow> next_page; Some (Inr (p, pages), s) })"

record OSPfsState =
  ps_file_size :: u32
  ps_game_code :: u32
  ps_company_code :: u16
  ps_ext_name :: "u8 list"
  ps_game_name :: "u8 list"

definition osPfsFileState :: "'d pfs_env \<Rightarrow> s32 \<Rightarrow> 'd fsys \<Rightarrow> ('d, OSPfsState) fsr option" where
  "osPfsFileState e file_no s =
     (if int (fs_dir_size s) \<le> sint file_no \<or> sint file_no < 0 then Some (Inl PFS_ERR_INVALID, s)
      else (case errck (check_status s) (\<lambda>_ s. errck (check_id e s) (\<lambda>_ s. errck (bank_zero e s) (\<lambda>_ s.
                   ram_get e (blkno (fs_dir_table s + unat file_no)) s))) of
              (Inl ret, s) \<Rightarrow> Some (Inl ret, s)
            | (Inr dir, s) \<Rightarrow>
                if \<not> dir_used dir then Some (Inl PFS_ERR_INVALID, s)
                else if unat (dir_start_page dir) < fs_inode_start_page s then Some (Inl PFS_ERR_INCONSISTENT, s)
                else do { r \<leftarrow> count_pages e no_inode (pg_bank (dir_start_page dir)) (pg_page (dir_start_page dir)) 0 None s;
                          (case r of
                             (Inl ret, s) \<Rightarrow> Some (Inl ret, s)
                           | (Inr (next_page, pages), s) \<Rightarrow>
                               if next_page \<noteq> PFS_EOF then Some (Inl PFS_ERR_INCONSISTENT, s)
                               else Some (Inr \<lparr>ps_file_size = of_nat (pages * (PFS_ONE_PAGE * 32)),
                                               ps_game_code = dir_game_code dir, ps_company_code = dir_company_code dir,
                                               ps_ext_name = dir_ext_name dir, ps_game_name = dir_game_name dir\<rparr>, s)) }))"

text \<open>The sum over a page, with the error of a block after switching back.\<close>

primrec sum_blocks :: "'d pfs_env \<Rightarrow> nat list \<Rightarrow> u16 \<Rightarrow> 'd fsys \<Rightarrow> ('d, u16) fsr" where
  "sum_blocks e [] csum s = (Inr csum, s)"
| "sum_blocks e (b # bs) csum s =
     (case ram_get e (blkno b) s of
        (Inl ret, s) \<Rightarrow> (Inl ret, snd (select_bank e 0 s))
      | (Inr data, s) \<Rightarrow> sum_blocks e bs (csum + osSumcalc data) s)"

definition osBlockSum :: "'d pfs_env \<Rightarrow> u8 \<Rightarrow> u16 \<Rightarrow> u8 \<Rightarrow> 'd fsys \<Rightarrow> ('d, u16) fsr" where
  "osBlockSum e page_no csum bank s =
     errck (select_bank e bank s) (\<lambda>_ s.
     errck (sum_blocks e (map (\<lambda>i. unat page_no * PFS_ONE_PAGE + i) [0..<PFS_ONE_PAGE]) csum s) (\<lambda>csum s.
     errck (select_bank e 0 s) (\<lambda>_ s. (Inr csum, s))))"

text \<open>The pages behind the first one are marked free; the result is the table, the sum and what was reached last.\<close>

partial_function (option) release_loop ::
  "'d pfs_env \<Rightarrow> u8 \<Rightarrow> u16 list \<Rightarrow> u16 \<Rightarrow> u16 \<Rightarrow> 'd fsys \<Rightarrow> ('d, u16 list \<times> u16 \<times> u16) fsr option" where
  "release_loop e bank inode csum next_page s =
     (if fs_inode_start_page s \<le> unat next_page
      then do { n \<leftarrow> inode_at inode (pg_page next_page);
                let inode = inode[unat (pg_page next_page) := PFS_PAGE_NOT_USED];
                (case osBlockSum e (pg_page next_page) csum bank s of
                   (Inl ret, s) \<Rightarrow> Some (Inl ret, s)
                 | (Inr csum, s) \<Rightarrow> if pg_bank n \<noteq> bank then Some (Inr (inode, csum, n), s)
                                   else release_loop e bank inode csum n s) }
      else Some (Inr (inode, csum, next_page), s))"

definition osPfsReleasePages ::
  "'d pfs_env \<Rightarrow> u16 list \<Rightarrow> u8 \<Rightarrow> u16 \<Rightarrow> u8 \<Rightarrow> bool \<Rightarrow> 'd fsys \<Rightarrow> ('d, u16 list \<times> u16 \<times> u16) fsr option" where
  "osPfsReleasePages e inode start_page csum bank flag s =
     do { next_page \<leftarrow> inode_at inode start_page;
          let offset = (if next_page \<noteq> 1 then page_offset s (pg_bank next_page) else page_offset s bank);
          if unat (pg_page next_page) < offset \<and> next_page \<noteq> 1 then Some (Inl PFS_ERR_INCONSISTENT, s)
          else (let inode = (if flag then inode[unat start_page := PFS_PAGE_NOT_USED] else inode) in
            case osBlockSum e start_page csum bank s of
              (Inl ret, s) \<Rightarrow> Some (Inl ret, s)
            | (Inr csum, s) \<Rightarrow>
                if next_page = 1 then Some (Inr (inode, csum, next_page), s)
                else do { r \<leftarrow> release_loop e bank inode csum next_page s;
                          (case r of
                             (Inl ret, s) \<Rightarrow> Some (Inl ret, s)
                           | (Inr (inode, csum, next_page), s) \<Rightarrow>
                               if fs_inode_start_page s \<le> unat next_page \<and> pg_bank next_page = bank
                               then do { _ \<leftarrow> inode_at inode (pg_page next_page);
                                         Some (Inr (inode[unat (pg_page next_page) := PFS_PAGE_NOT_USED], csum, next_page), s) }
                               else Some (Inr (inode, csum, next_page), s)) }) }"

partial_function (option) release_banks ::
  "'d pfs_env \<Rightarrow> u16 list \<Rightarrow> u8 \<Rightarrow> u8 \<Rightarrow> u16 \<Rightarrow> 'd fsys \<Rightarrow> ('d, unit) fsr option" where
  "release_banks e inode startpage bank csum s =
     (if bank < fs_banks s
      then (case get_inode e inode bank s of
              (Inl ret, s) \<Rightarrow> Some (Inl ret, s)
            | (Inr inode, s) \<Rightarrow>
                do { r \<leftarrow> osPfsReleasePages e inode startpage csum bank True s;
                     (case r of
                        (Inl ret, s) \<Rightarrow> Some (Inl ret, s)
                      | (Inr (inode, csum, last_page), s) \<Rightarrow>
                          (case put_inode e inode bank s of
                             (Inl ret, s) \<Rightarrow> Some (Inl ret, s)
                           | (Inr inode, s) \<Rightarrow>
                               if last_page = PFS_EOF then Some (Inr (), s)
                               else release_banks e inode (pg_page last_page) (pg_bank last_page) csum s)) })
      else Some (Inl PFS_ERR_INCONSISTENT, s))"

text \<open>An entry without a file; the names are cleared by \<^verbatim>\<open>osPfsDeleteFile\<close> only.\<close>

definition empty_dir :: "u8 list \<Rightarrow> u8 list \<Rightarrow> u8 list" where
  "empty_dir dir names = make_dir 0 0 0 DIR_STATUS_EMPTY (dir ! 9) 0 (take 4 names) (drop 4 names)"

definition osPfsDeleteFile ::
  "'d pfs_env \<Rightarrow> u16 \<Rightarrow> u32 \<Rightarrow> u8 list option \<Rightarrow> u8 list option \<Rightarrow> 'd fsys \<Rightarrow> ('d, unit) fsr option" where
  "osPfsDeleteFile e company_code game_code game_name ext_name s =
     (if company_code = 0 \<or> game_code = 0 then Some (Inl PFS_ERR_INVALID, s)
      else (case errck (check_status s) (\<lambda>_ s. errck (check_id e s) (\<lambda>_. bank_zero e)) of
              (Inl ret, s) \<Rightarrow> Some (Inl ret, s)
            | (Inr _, s) \<Rightarrow>
                (case osPfsFindFile e company_code game_code game_name ext_name 0 s of (ret, file_no, s) \<Rightarrow>
                   if ret \<noteq> 0 then Some (Inl ret, s)
                   else if file_no = -1 then Some (Inl PFS_ERR_INVALID, s)
                   else (case ram_get e (blkno (fs_dir_table s + unat file_no)) s of
                       (Inl ret, s) \<Rightarrow> Some (Inl ret, s)
                     | (Inr dir, s) \<Rightarrow>
                         do { r \<leftarrow> release_banks e no_inode (pg_page (dir_start_page dir)) (pg_bank (dir_start_page dir)) 0 s;
                              (case r of
                                 (Inl ret, s) \<Rightarrow> Some (Inl ret, s)
                               | (Inr _, s) \<Rightarrow>
                                   Some (ram_put e (blkno (fs_dir_table s + unat file_no)) (empty_dir dir (replicate 20 0)) 0 s)) }))))"

subsection \<open>Formatting\<close>

primrec clear_dirs :: "'d pfs_env \<Rightarrow> nat list \<Rightarrow> 'd fsys \<Rightarrow> ('d, unit) fsr" where
  "clear_dirs e [] s = (Inr (), s)"
| "clear_dirs e (j # js) s = errck (ram_put e (blkno (fs_dir_table s + j)) (replicate 32 0) 0 s) (\<lambda>_. clear_dirs e js)"

primrec format_blocks :: "'d pfs_env \<Rightarrow> u16 list \<Rightarrow> nat \<Rightarrow> nat list \<Rightarrow> 'd fsys \<Rightarrow> ('d, unit) fsr" where
  "format_blocks e inode i [] s = (Inr (), s)"
| "format_blocks e inode i (j # js) s =
     errck (ram_put e (blkno (fs_inode_table s + i * PFS_ONE_PAGE + j)) (inode_block j inode) 0 s) (\<lambda>_ s.
     errck (ram_put e (blkno (fs_minode_table s + i * PFS_ONE_PAGE + j)) (inode_block j inode) 0 s) (\<lambda>_.
       format_blocks e inode i js))"

definition empty_table :: "nat \<Rightarrow> u16 list \<Rightarrow> u16 list" where
  "empty_table offset inode =
     (let inode = take offset inode @ replicate (128 - offset) PFS_PAGE_NOT_USED
      in inode[0 := osSumcalc (inode_bytes (drop offset inode))])"

primrec format_banks :: "'d pfs_env \<Rightarrow> nat list \<Rightarrow> u16 list \<Rightarrow> 'd fsys \<Rightarrow> ('d, unit) fsr" where
  "format_banks e [] inode s = (Inr (), s)"
| "format_banks e (i # is) inode s =
     (let inode = empty_table 1 inode
      in errck (format_blocks e inode i [0..<PFS_ONE_PAGE] s) (\<lambda>_. format_banks e is inode))"

definition osPfsReFormat :: "'d pfs_env \<Rightarrow> nat \<Rightarrow> 'd fsys \<Rightarrow> ('d, unit) fsr" where
  "osPfsReFormat e channel s =
     (case osPfsGetStatus (pe_si e) (pe_sdata e) channel (fs_pif s) (fs_dev s) of (ret, ram, d) \<Rightarrow>
        let s = s\<lparr>fs_pif := ram, fs_dev := d\<rparr> in
        if ret \<noteq> 0 then (Inl ret, s)
        else errck (osGetId e (s\<lparr>fs_status := fs_status s XOR PFS_INITIALIZED, fs_channel := channel\<rparr>)) (\<lambda>_ s.
             errck (bank_zero e s) (\<lambda>_ s.
             errck (clear_dirs e [0..<fs_dir_size s] s) (\<lambda>_ s.
               let inode = empty_table (fs_inode_start_page s) (replicate 128 0) in
             errck (format_blocks e inode 0 [0..<PFS_ONE_PAGE] s) (\<lambda>_ s.
               format_banks e [1..<unat (fs_banks s)] inode s)))))"

subsection \<open>The checker\<close>

text \<open>The cache of the checker: the table read last with its bank, and which banks have a link into which part of
  which bank.\<close>

record OSInodeCache =
  ca_inode :: "u16 list"
  ca_bank :: u8
  ca_map :: "u8 list"

definition map_index :: "u16 \<Rightarrow> nat" where
  "map_index p = unat (pg_page p) div 4 + (unat (pg_bank p) mod 8) * 32"

definition bank_bit :: "nat \<Rightarrow> u8" where
  "bank_bit bank = push_bit (bank mod 8) 1"

primrec note_links :: "nat \<Rightarrow> nat \<Rightarrow> u16 list \<Rightarrow> u8 list \<Rightarrow> u8 list option" where
  "note_links start bank [] m = Some m"
| "note_links start bank (p # ps) m =
     (if start \<le> unat p \<and> pg_bank p \<noteq> of_nat bank
      then if map_index p < 256 then note_links start bank ps (m[map_index p := m ! map_index p OR bank_bit bank]) else None
      else note_links start bank ps m)"

primrec init_banks :: "'d pfs_env \<Rightarrow> nat list \<Rightarrow> u16 list \<Rightarrow> u8 list \<Rightarrow> 'd fsys \<Rightarrow> ('d, u8 list) fsr option" where
  "init_banks e [] inode m s = Some (Inr m, s)"
| "init_banks e (b # bs) inode m s =
     (case osPfsRWInode e inode PFS_READ (of_nat b) s of (ret, inode, s) \<Rightarrow>
        if ret \<noteq> 0 \<and> ret \<noteq> PFS_ERR_INCONSISTENT then Some (Inl ret, s)
        else do { m \<leftarrow> note_links (fs_inode_start_page s) b (drop (page_offset s (of_nat b)) inode) m;
                  init_banks e bs inode m s })"

definition corrupted_init :: "'d pfs_env \<Rightarrow> 'd fsys \<Rightarrow> ('d, OSInodeCache) fsr option" where
  "corrupted_init e s =
     do { r \<leftarrow> init_banks e [0..<unat (fs_banks s)] no_inode (replicate 256 0) s;
          (case r of
             (Inl ret, s) \<Rightarrow> Some (Inl ret, s)
           | (Inr m, s) \<Rightarrow> Some (Inr \<lparr>ca_inode = no_inode, ca_bank = -1, ca_map = m\<rparr>, s)) }"

definition count_hits :: "u16 \<Rightarrow> u16 list \<Rightarrow> nat \<Rightarrow> nat" where
  "count_hits fpage ps hit = fold (\<lambda>p hit. if hit < 2 \<and> p = fpage then hit + 1 else hit) ps hit"

text \<open>How many links there are to a page; an error of the pak is returned in the same number.\<close>

primrec corrupted_banks :: "'d pfs_env \<Rightarrow> u16 \<Rightarrow> nat list \<Rightarrow> nat \<Rightarrow> OSInodeCache \<Rightarrow> 'd fsys \<Rightarrow> s32 \<times> OSInodeCache \<times> 'd fsys" where
  "corrupted_banks e fpage [] hit cache s = (of_nat hit, cache, s)"
| "corrupted_banks e fpage (b # bs) hit cache s =
     (if of_nat b = pg_bank fpage \<or> ca_map cache ! map_index fpage AND bank_bit b \<noteq> 0
      then (let (ret, cache, s) =
                  (if of_nat b \<noteq> ca_bank cache
                   then (case osPfsRWInode e (ca_inode cache) PFS_READ (of_nat b) s of (ret, inode, s) \<Rightarrow>
                           if ret \<noteq> 0 \<and> ret \<noteq> PFS_ERR_INCONSISTENT then (ret, cache\<lparr>ca_inode := inode\<rparr>, s)
                           else (0, cache\<lparr>ca_inode := inode, ca_bank := of_nat b\<rparr>, s))
                   else (0, cache, s));
                hits = count_hits fpage (drop (page_offset s (of_nat b)) (ca_inode cache)) hit
            in if ret \<noteq> 0 then (ret, cache, s)
               else if 2 \<le> hits then (PFS_ERR_NEW_PACK, cache, s)
               else corrupted_banks e fpage bs hits cache s)
      else corrupted_banks e fpage bs hit cache s)"

definition corrupted :: "'d pfs_env \<Rightarrow> u16 \<Rightarrow> OSInodeCache \<Rightarrow> 'd fsys \<Rightarrow> s32 \<times> OSInodeCache \<times> 'd fsys" where
  "corrupted e fpage cache s = corrupted_banks e fpage [0..<unat (fs_banks s)] 0 cache s"

text \<open>The walk along a file: \<open>cl\<close> links to the next page are expected.  The result is what was wrong with the number
  of links, the place that was reached, the table and the cache.\<close>

partial_function (option) check_chain ::
  "'d pfs_env \<Rightarrow> s32 \<Rightarrow> u8 \<Rightarrow> u16 \<Rightarrow> u16 list \<Rightarrow> OSInodeCache \<Rightarrow> 'd fsys \<Rightarrow> ('d, s32 \<times> u16 \<times> u16 list \<times> OSInodeCache) fsr option" where
  "check_chain e cl bank next_page tmp_inode cache s =
     (if check_ipage s next_page
      then (let (ret, tmp_inode, s) =
                  (if bank \<noteq> pg_bank next_page then osPfsRWInode e tmp_inode PFS_READ (pg_bank next_page) s else (0, tmp_inode, s))
            in if ret \<noteq> 0 \<and> ret \<noteq> PFS_ERR_INCONSISTENT then Some (Inl ret, s)
               else (case corrupted e next_page cache s of (hit, cache, s) \<Rightarrow>
                 if hit - cl \<noteq> 0 then Some (Inr (hit - cl, next_page, tmp_inode, cache), s)
                 else check_chain e 1 (pg_bank next_page) (tmp_inode ! unat (pg_page next_page)) tmp_inode cache s))
      else Some (Inr (0, next_page, tmp_inode, cache), s))"

definition clear_entry :: "'d pfs_env \<Rightarrow> nat \<Rightarrow> u8 list \<Rightarrow> 'd fsys \<Rightarrow> ('d, unit) fsr" where
  "clear_entry e j dir s =
     errck (bank_zero e s) (\<lambda>_ s. ram_put e (blkno (fs_dir_table s + j)) (empty_dir dir (drop 12 dir)) 0 s)"

text \<open>The first pass over the directory: entries whose files are damaged are cleared and counted.\<close>

primrec check_dirs ::
  "'d pfs_env \<Rightarrow> nat list \<Rightarrow> nat \<Rightarrow> u16 list \<Rightarrow> OSInodeCache \<Rightarrow> 'd fsys \<Rightarrow> ('d, nat \<times> u16 list) fsr option" where
  "check_dirs e [] fixed tmp_inode cache s = Some (Inr (fixed, tmp_inode), s)"
| "check_dirs e (j # js) fixed tmp_inode cache s =
     (case ram_get e (blkno (fs_dir_table s + j)) s of
        (Inl ret, s) \<Rightarrow> Some (Inl ret, s)
      | (Inr dir, s) \<Rightarrow>
          if dir_used dir
          then do { r \<leftarrow> check_chain e 0 255 (dir_start_page dir) tmp_inode cache s;
                    (case r of
                       (Inl ret, s) \<Rightarrow> Some (Inl ret, s)
                     | (Inr (cc, next_page, tmp_inode, cache), s) \<Rightarrow>
                         if cc \<noteq> 0 \<or> next_page \<noteq> PFS_EOF
                         then (case clear_entry e j dir s of
                                 (Inl ret, s) \<Rightarrow> Some (Inl ret, s)
                               | (Inr _, s) \<Rightarrow> check_dirs e js (fixed + 1) tmp_inode cache s)
                         else check_dirs e js fixed tmp_inode cache s) }
          else if dir_company_code dir \<noteq> 0 \<or> dir_game_code dir \<noteq> 0
          then (case clear_entry e j dir s of
                  (Inl ret, s) \<Rightarrow> Some (Inl ret, s)
                | (Inr _, s) \<Rightarrow> check_dirs e js (fixed + 1) tmp_inode cache s)
          else check_dirs e js fixed tmp_inode cache s)"

text \<open>The second pass collects the first page of every file.\<close>

primrec first_pages :: "'d pfs_env \<Rightarrow> nat list \<Rightarrow> 'd fsys \<Rightarrow> ('d, u16 list) fsr" where
  "first_pages e [] s = (Inr [], s)"
| "first_pages e (j # js) s =
     errck (ram_get e (blkno (fs_dir_table s + j)) s) (\<lambda>dir s.
       let p = (if dir_used dir \<and> of_nat (fs_inode_start_page s) \<le> dir_start_page dir then dir_start_page dir else 0)
       in errck (first_pages e js s) (\<lambda>ps s. (Inr (p # ps), s)))"

text \<open>The third pass copies the links of the files, and of nothing else, to a new table for every bank.\<close>

partial_function (option) copy_links :: "nat \<Rightarrow> u8 \<Rightarrow> u16 list \<Rightarrow> u16 \<Rightarrow> u16 list \<Rightarrow> (u16 \<times> u16 list) option" where
  "copy_links start bank tmp_inode p checked =
     (if pg_bank p = bank \<and> (of_nat start :: u16) \<le> p
      then do { q \<leftarrow> inode_at tmp_inode (pg_page p);
                copy_links start bank tmp_inode q (checked[unat (pg_page p) := q]) }
      else Some (p, checked))"

primrec copy_files :: "nat \<Rightarrow> u8 \<Rightarrow> u16 list \<Rightarrow> u16 list \<Rightarrow> u16 list \<Rightarrow> (u16 list \<times> u16 list) option" where
  "copy_files start bank tmp_inode [] checked = Some ([], checked)"
| "copy_files start bank tmp_inode (p # ps) checked =
     do { (p, checked) \<leftarrow> copy_links start bank tmp_inode p checked;
          (ps, checked) \<leftarrow> copy_files start bank tmp_inode ps checked;
          Some (p # ps, checked) }"

primrec rebuild_banks :: "'d pfs_env \<Rightarrow> nat list \<Rightarrow> u16 list \<Rightarrow> u16 list \<Rightarrow> 'd fsys \<Rightarrow> ('d, unit) fsr option" where
  "rebuild_banks e [] nodes tmp_inode s = Some (Inr (), s)"
| "rebuild_banks e (b # bs) nodes tmp_inode s =
     (case osPfsRWInode e tmp_inode PFS_READ (of_nat b) s of (ret, tmp_inode, s) \<Rightarrow>
        if ret \<noteq> 0 \<and> ret \<noteq> PFS_ERR_INCONSISTENT then Some (Inl ret, s)
        else (let offset = page_offset s (of_nat b);
                  checked = take offset tmp_inode @ replicate (128 - offset) PFS_PAGE_NOT_USED
              in do { (nodes, checked) \<leftarrow> copy_files (fs_inode_start_page s) (of_nat b) tmp_inode nodes checked;
                      (case put_inode e checked (of_nat b) s of
                         (Inl ret, s) \<Rightarrow> Some (Inl ret, s)
                       | (Inr _, s) \<Rightarrow> rebuild_banks e bs nodes tmp_inode s) }))"

definition osPfsChecker :: "'d pfs_env \<Rightarrow> 'd fsys \<Rightarrow> ('d, unit) fsr option" where
  "osPfsChecker e s =
     (case (case osCheckId e s of
              (Inl ret, s) \<Rightarrow> if ret = PFS_ERR_NEW_PACK then osGetId e s else (Inl ret, s)
            | (Inr _, s) \<Rightarrow> (Inr (), s)) of
        (Inl ret, s) \<Rightarrow> Some (Inl ret, s)
      | (Inr _, s) \<Rightarrow>
          do { r \<leftarrow> corrupted_init e s;
               (case r of
                  (Inl ret, s) \<Rightarrow> Some (Inl ret, s)
                | (Inr cache, s) \<Rightarrow>
                    do { r \<leftarrow> check_dirs e [0..<fs_dir_size s] 0 no_inode cache s;
                         (case r of
                            (Inl ret, s) \<Rightarrow> Some (Inl ret, s)
                          | (Inr (fixed, tmp_inode), s) \<Rightarrow>
                              (case first_pages e [0..<fs_dir_size s] s of
                                 (Inl ret, s) \<Rightarrow> Some (Inl ret, s)
                               | (Inr nodes, s) \<Rightarrow>
                                   do { r \<leftarrow> rebuild_banks e [0..<unat (fs_banks s)] nodes tmp_inode s;
                                        (case r of
                                           (Inl ret, s) \<Rightarrow> Some (Inl ret, s)
                                         | (Inr _, s) \<Rightarrow>
                                             Some (Inr (), s\<lparr>fs_status := (if fixed \<noteq> 0 then fs_status s OR PFS_CORRUPTED
                                                                        else fs_status s AND NOT PFS_CORRUPTED)\<rparr>)) })) }) })"

subsection \<open>Starting\<close>

definition osPfsInitPak :: "'d pfs_env \<Rightarrow> nat \<Rightarrow> 'd fsys \<Rightarrow> (s32 \<times> 'd fsys) option" where
  "osPfsInitPak e channel s =
     (case osPfsGetStatus (pe_si e) (pe_sdata e) channel (fs_pif s) (fs_dev s) of (ret, ram, d) \<Rightarrow>
        let s = s\<lparr>fs_pif := ram, fs_dev := d\<rparr> in
        if ret \<noteq> 0 then Some (ret, s)
        else (case errck (select_bank e 0 (s\<lparr>fs_channel := channel, fs_status := 0\<rparr>)) (\<lambda>_ s.
                   errck (ram_get e PFS_ID_0AREA s) (\<lambda>temp s.
                   errck (if \<not> id_good temp
                          then (case osCheckPackId e temp s of (ret, temp, s) \<Rightarrow> (if ret \<noteq> 0 then Inl ret else Inr temp, s))
                          else (Inr temp, s)) (\<lambda>pid s.
                   errck (usable_id e pid s) (\<lambda>pid s. read_label e (set_geometry pid s))))) of
                (Inl ret, s) \<Rightarrow> Some (ret, s)
              | (Inr _, s) \<Rightarrow>
                  do { r \<leftarrow> osPfsChecker e s;
                       (case r of (v, s) \<Rightarrow>
                          Some (case v of Inl ret \<Rightarrow> ret | Inr _ \<Rightarrow> 0, s\<lparr>fs_status := fs_status s OR PFS_INITIALIZED\<rparr>)) }))"

definition osPfsInit :: "'d pfs_env \<Rightarrow> nat \<Rightarrow> 'd fsys \<Rightarrow> (s32 \<times> 'd fsys) option" where
  "osPfsInit e channel s =
     (case osPfsGetStatus (pe_si e) (pe_sdata e) channel (fs_pif s) (fs_dev s) of (ret, ram, d) \<Rightarrow>
        let s = s\<lparr>fs_pif := ram, fs_dev := d\<rparr> in
        if ret \<noteq> 0 then Some (ret, s)
        else (case osGetId e (s\<lparr>fs_channel := channel, fs_status := 0, fs_activebank := -1\<rparr>) of
                (Inl ret, s) \<Rightarrow> Some (ret, s)
              | (Inr _, s) \<Rightarrow>
                  do { r \<leftarrow> osPfsChecker e s;
                       (case r of (v, s) \<Rightarrow>
                          Some (case v of Inl ret \<Rightarrow> ret | Inr _ \<Rightarrow> 0, s\<lparr>fs_status := fs_status s OR PFS_INITIALIZED\<rparr>)) }))"

end
