(* ===== verification/PfsFiles.thy ===== *)
theory PfsFiles
  imports Pfs
begin

section \<open>Files of the controller pak that works\<close>

text \<open>
  What the operations of \<open>Pfs\<close> promise on a mounted pak whose blocks are read and written without an error: the
  label, the search in the directory, the two copies of the page table, and reading and writing a file.
\<close>

subsection \<open>A pak without errors\<close>

text \<open>A documented pak whose transfers never fail.  \<open>fs_mem\<close> are its blocks.\<close>

definition pak_reliable :: "'d si \<Rightarrow> ('d \<Rightarrow> u8 list) \<Rightarrow> ('d \<Rightarrow> u16 \<Rightarrow> u8 list) \<Rightarrow> nat \<Rightarrow> bool" where
  "pak_reliable si img_of blocks channel \<longleftrightarrow> pak_documented si img_of blocks (\<lambda>_. True) channel"

definition fs_good :: "'d pfs_env \<Rightarrow> ('d \<Rightarrow> u8 list) \<Rightarrow> ('d \<Rightarrow> u16 \<Rightarrow> u8 list) \<Rightarrow> 'd fsys \<Rightarrow> bool" where
  "fs_good e img_of B s \<longleftrightarrow> pak_reliable (pe_si e) img_of B (fs_channel s) \<and> length (fs_pif s) = 64"

definition fs_mem :: "('d \<Rightarrow> u16 \<Rightarrow> u8 list) \<Rightarrow> 'd fsys \<Rightarrow> u16 \<Rightarrow> u8 list" where
  "fs_mem B s = B (fs_dev s)"

definition rd_st :: "'d pfs_env \<Rightarrow> u16 \<Rightarrow> 'd fsys \<Rightarrow> 'd fsys" where
  "rd_st e a s = snd (snd (fs_read e a [] s))"

definition wr_st :: "'d pfs_env \<Rightarrow> u16 \<Rightarrow> u8 list \<Rightarrow> 'd fsys \<Rightarrow> 'd fsys" where
  "wr_st e a bs s = snd (fs_write e a bs 1 s)"

lemma st_fields [simp]:
  "fs_status (rd_st e a s) = fs_status s" "fs_channel (rd_st e a s) = fs_channel s" "fs_id (rd_st e a s) = fs_id s"
  "fs_label (rd_st e a s) = fs_label s" "fs_version (rd_st e a s) = fs_version s" "fs_dir_size (rd_st e a s) = fs_dir_size s"
  "fs_inode_table (rd_st e a s) = fs_inode_table s" "fs_minode_table (rd_st e a s) = fs_minode_table s"
  "fs_dir_table (rd_st e a s) = fs_dir_table s" "fs_inode_start_page (rd_st e a s) = fs_inode_start_page s"
  "fs_banks (rd_st e a s) = fs_banks s" "fs_activebank (rd_st e a s) = fs_activebank s"
  "fs_status (wr_st e a bs s) = fs_status s" "fs_channel (wr_st e a bs s) = fs_channel s" "fs_id (wr_st e a bs s) = fs_id s"
  "fs_label (wr_st e a bs s) = fs_label s" "fs_version (wr_st e a bs s) = fs_version s" "fs_dir_size (wr_st e a bs s) = fs_dir_size s"
  "fs_inode_table (wr_st e a bs s) = fs_inode_table s" "fs_minode_table (wr_st e a bs s) = fs_minode_table s"
  "fs_dir_table (wr_st e a bs s) = fs_dir_table s" "fs_inode_start_page (wr_st e a bs s) = fs_inode_start_page s"
  "fs_banks (wr_st e a bs s) = fs_banks s" "fs_activebank (wr_st e a bs s) = fs_activebank s"
  by (simp_all add: rd_st_def wr_st_def fs_read_def fs_write_def split: prod.split)

lemma upd_simps [simp]:
  "fs_good e I B (s\<lparr>fs_label := l\<rparr>) = fs_good e I B s" "fs_mem B (s\<lparr>fs_label := l\<rparr>) = fs_mem B s"
  "fs_good e I B (s\<lparr>fs_status := st\<rparr>) = fs_good e I B s" "fs_mem B (s\<lparr>fs_status := st\<rparr>) = fs_mem B s"
  "fs_good e I B (s\<lparr>fs_activebank := b\<rparr>) = fs_good e I B s" "fs_mem B (s\<lparr>fs_activebank := b\<rparr>) = fs_mem B s"
  "fs_good e I B (set_geometry pid s) = fs_good e I B s" "fs_mem B (set_geometry pid s) = fs_mem B s"
  by (simp_all add: fs_good_def fs_mem_def set_geometry_def Let_def)

lemma fs_mem_length [simp]: "fs_good e I B s \<Longrightarrow> length (fs_mem B s a) = 32"
  by (simp add: fs_good_def pak_reliable_def pak_documented_def fs_mem_def)

lemma reliable_read:
  assumes "pak_reliable si I B channel" "length ram = 64" "a < 0x800"
  shows "\<exists>ram' d'. (\<forall>buf. osContRamRead si gap sdata channel a buf ram d = (0, B d a, ram', d')) \<and>
    length ram' = 64 \<and> B d' = B d"
  using osContRamRead_documented [OF assms(1) [unfolded pak_reliable_def] assms(2,3), of gap sdata d] by auto

lemma reliable_write:
  assumes "pak_reliable si I B channel" "length ram = 64" "length bs = 32" "a < 0x800"
  shows "\<exists>ram' d'. (\<forall>force. force = 1 \<or> a = 0 \<or> PFS_LABEL_AREA \<le> a \<longrightarrow>
      osContRamWrite si gap sdata channel a bs force ram d = (0, ram', d')) \<and>
    length ram' = 64 \<and> B d' = (B d)(a := bs)"
  using osContRamWrite_documented [OF assms(1) [unfolded pak_reliable_def] assms(2-4), of gap sdata d] by auto

lemma fs_read_good:
  assumes "fs_good e I B s" "a < 0x800"
  shows "fs_read e a buf s = (0, fs_mem B s a, rd_st e a s)" "fs_good e I B (rd_st e a s)"
    "fs_mem B (rd_st e a s) = fs_mem B s"
proof -
  obtain ram d where r: "\<And>buf. osContRamRead (pe_si e) (pe_gap e) (pe_sdata e) (fs_channel s) a buf (fs_pif s) (fs_dev s) = (0, B (fs_dev s) a, ram, d)"
    "length ram = 64" "B d = B (fs_dev s)"
    using reliable_read [of "pe_si e" I B "fs_channel s" "fs_pif s" a "pe_gap e" "pe_sdata e" "fs_dev s"] assms
    by (auto simp: fs_good_def)
  then show "fs_read e a buf s = (0, fs_mem B s a, rd_st e a s)" "fs_good e I B (rd_st e a s)"
    "fs_mem B (rd_st e a s) = fs_mem B s"
    using assms by (simp_all add: fs_read_def rd_st_def fs_mem_def fs_good_def)
qed

lemma fs_write_good:
  assumes "fs_good e I B s" "length bs = 32" "a < 0x800"
  shows "force = 1 \<or> a = 0 \<or> PFS_LABEL_AREA \<le> a \<Longrightarrow> fs_write e a bs force s = (0, wr_st e a bs s)"
    "fs_good e I B (wr_st e a bs s)" "fs_mem B (wr_st e a bs s) = (fs_mem B s)(a := bs)"
proof -
  obtain ram d where r: "\<And>force. force = 1 \<or> a = 0 \<or> PFS_LABEL_AREA \<le> a \<Longrightarrow>
      osContRamWrite (pe_si e) (pe_gap e) (pe_sdata e) (fs_channel s) a bs force (fs_pif s) (fs_dev s) = (0, ram, d)"
    "length ram = 64" "B d = (B (fs_dev s))(a := bs)"
    using reliable_write [of "pe_si e" I B "fs_channel s" "fs_pif s" bs a "pe_gap e" "pe_sdata e" "fs_dev s"] assms
    by (auto simp: fs_good_def)
  show "force = 1 \<or> a = 0 \<or> PFS_LABEL_AREA \<le> a \<Longrightarrow> fs_write e a bs force s = (0, wr_st e a bs s)"
    "fs_good e I B (wr_st e a bs s)" "fs_mem B (wr_st e a bs s) = (fs_mem B s)(a := bs)"
    using assms r(2,3) r(1) [of 1] r(1) [of force] by (simp_all add: fs_write_def wr_st_def fs_mem_def fs_good_def fun_upd_def)
qed

lemma ram_good:
  assumes "fs_good e I B s" "a < 0x800"
  shows "ram_get e a s = (Inr (fs_mem B s a), rd_st e a s)"
    "length bs = 32 \<Longrightarrow> force = 1 \<or> a = 0 \<or> PFS_LABEL_AREA \<le> a \<Longrightarrow> ram_put e a bs force s = (Inr (), wr_st e a bs s)"
  using fs_read_good(1) [OF assms] fs_write_good(1) [OF assms(1) _ assms(2)] by (simp_all add: ram_get_def ram_put_def)

lemmas pak_good = fs_read_good fs_write_good ram_good

text \<open>A mounted pak of one bank: the identity is the one on the pak and the tables are where they belong.\<close>

definition mounted :: "('d \<Rightarrow> u16 \<Rightarrow> u8 list) \<Rightarrow> 'd fsys \<Rightarrow> bool" where
  "mounted B s \<longleftrightarrow> fs_id s = fs_mem B s PFS_ID_0AREA \<and> fs_activebank s = 0 \<and> fs_banks s = 1 \<and>
     fs_inode_start_page s = 5 \<and> fs_dir_size s = 16 \<and> fs_inode_table s = 8 \<and> fs_minode_table s = 16 \<and> fs_dir_table s = 24 \<and>
     length (fs_label s) = 32 \<and> fs_status s AND PFS_INITIALIZED \<noteq> 0"

lemma bank_zero_mounted [simp]: "fs_activebank s = 0 \<Longrightarrow> bank_zero e s = (Inr (), s)"
  by (simp add: bank_zero_def)

lemma osCheckId_good:
  "fs_good e I B s \<Longrightarrow> fs_activebank s = 0 \<Longrightarrow> fs_id s = fs_mem B s PFS_ID_0AREA \<Longrightarrow>
   osCheckId e s = (Inr (), rd_st e PFS_ID_0AREA s)"
  by (simp add: osCheckId_def fs_read_good(1) [where I = I and B = B] PFS_ID_0AREA_def)

lemma check_mounted [simp]:
  "fs_good e I B s \<Longrightarrow> mounted B s \<Longrightarrow> check_id e s = (Inr (), rd_st e PFS_ID_0AREA s)"
  "mounted B s \<Longrightarrow> check_status s = (Inr (), s)"
  by (simp_all add: check_id_def osCheckId_good mounted_def check_status_def)

lemma mounted_read [simp]: "fs_good e I B s \<Longrightarrow> a < 0x800 \<Longrightarrow> mounted B (rd_st e a s) = mounted B s"
  by (simp add: mounted_def fs_read_good(3))

lemma mounted_write [simp]:
  "fs_good e I B s \<Longrightarrow> a < 0x800 \<Longrightarrow> length bs = 32 \<Longrightarrow> PFS_LABEL_AREA \<le> a \<Longrightarrow> mounted B (wr_st e a bs s) = mounted B s"
proof -
  assume a: "fs_good e I B s" "a < 0x800" "length bs = 32" "PFS_LABEL_AREA \<le> a"
  then have "a \<noteq> PFS_ID_0AREA" by (auto simp: PFS_LABEL_AREA_def PFS_ID_0AREA_def word_le_nat_alt)
  then show "mounted B (wr_st e a bs s) = mounted B s" using a by (simp add: mounted_def fs_write_good(3))
qed

subsection \<open>Label and directory on a mounted pak\<close>

text \<open>\<open>goes e I B s m s'\<close>: the state went from \<open>s\<close> to \<open>s'\<close>, nothing but the device and its buffer changed, and the
  blocks are now \<open>m\<close>.\<close>

definition goes :: "'d pfs_env \<Rightarrow> ('d \<Rightarrow> u8 list) \<Rightarrow> ('d \<Rightarrow> u16 \<Rightarrow> u8 list) \<Rightarrow> 'd fsys \<Rightarrow> (u16 \<Rightarrow> u8 list) \<Rightarrow> 'd fsys \<Rightarrow> bool" where
  "goes e I B s m s' \<longleftrightarrow> fs_good e I B s' \<and> fs_mem B s' = m \<and> s' = s\<lparr>fs_pif := fs_pif s', fs_dev := fs_dev s'\<rparr>"

lemma goes_fields:
  assumes "goes e I B s m s'"
  shows "fs_good e I B s'" "fs_mem B s' = m" "fs_status s' = fs_status s" "fs_channel s' = fs_channel s" "fs_id s' = fs_id s"
    "fs_label s' = fs_label s" "fs_dir_size s' = fs_dir_size s" "fs_inode_table s' = fs_inode_table s"
    "fs_minode_table s' = fs_minode_table s" "fs_dir_table s' = fs_dir_table s" "fs_inode_start_page s' = fs_inode_start_page s"
    "fs_banks s' = fs_banks s" "fs_activebank s' = fs_activebank s"
proof -
  have "s' = s\<lparr>fs_pif := fs_pif s', fs_dev := fs_dev s'\<rparr>" using assms by (simp add: goes_def)
  then obtain p d where "s' = s\<lparr>fs_pif := p, fs_dev := d\<rparr>" by blast
  then show "fs_good e I B s'" "fs_mem B s' = m" "fs_status s' = fs_status s" "fs_channel s' = fs_channel s" "fs_id s' = fs_id s"
    "fs_label s' = fs_label s" "fs_dir_size s' = fs_dir_size s" "fs_inode_table s' = fs_inode_table s"
    "fs_minode_table s' = fs_minode_table s" "fs_dir_table s' = fs_dir_table s" "fs_inode_start_page s' = fs_inode_start_page s"
    "fs_banks s' = fs_banks s" "fs_activebank s' = fs_activebank s" using assms by (simp_all add: goes_def)
qed

lemma goes_refl: "fs_good e I B s \<Longrightarrow> goes e I B s (fs_mem B s) s"
  by (simp add: goes_def)

lemma goes_trans: "goes e I B s m s1 \<Longrightarrow> goes e I B s1 m' s2 \<Longrightarrow> goes e I B s m' s2"
  by (cases s; cases s1; cases s2) (auto simp: goes_def)

lemma goes_read: "fs_good e I B s \<Longrightarrow> a < 0x800 \<Longrightarrow> goes e I B s (fs_mem B s) (rd_st e a s)"
proof -
  assume "fs_good e I B s" "a < 0x800"
  moreover have "rd_st e a s = s\<lparr>fs_pif := fs_pif (rd_st e a s), fs_dev := fs_dev (rd_st e a s)\<rparr>"
    by (simp add: rd_st_def fs_read_def split: prod.split)
  ultimately show ?thesis by (simp add: goes_def fs_read_good)
qed

lemma goes_write:
  "fs_good e I B s \<Longrightarrow> a < 0x800 \<Longrightarrow> length bs = 32 \<Longrightarrow> goes e I B s ((fs_mem B s)(a := bs)) (wr_st e a bs s)"
proof -
  assume "fs_good e I B s" "a < 0x800" "length bs = 32"
  moreover have "wr_st e a bs s = s\<lparr>fs_pif := fs_pif (wr_st e a bs s), fs_dev := fs_dev (wr_st e a bs s)\<rparr>"
    by (simp add: wr_st_def fs_write_def split: prod.split)
  ultimately show ?thesis by (simp add: goes_def fs_write_good)
qed

lemma goes_mounted:
  "goes e I B s m s' \<Longrightarrow> mounted B s \<Longrightarrow> m PFS_ID_0AREA = fs_mem B s PFS_ID_0AREA \<Longrightarrow> mounted B s'"
  by (simp add: mounted_def goes_fields)

text \<open>a label that is set is on the pak and is read back, but the rest of the old label stays behind it: the
  code stops at the end of the new text and does not write the 0 that would end it.\<close>

theorem osPfsSetLabel_keeps_old_tail:
  assumes "fs_good e I B s" "mounted B s" "0 \<notin> set label" "length label \<le> 31"
  shows "\<exists>s1 s2. osPfsSetLabel e (Some (label @ [0])) s = (Inr (), s1) \<and> mounted B s1 \<and>
    fs_mem B s1 = (fs_mem B s)(PFS_LABEL_AREA := label @ drop (length label) (fs_label s)) \<and>
    osPfsGetLabel e True s1 = (Inr (label @ takeWhile (\<lambda>b. b \<noteq> 0) (drop (length label) (fs_label s))), s2)"
proof -
  have l: "length (fs_label s) = 32" "fs_activebank s = 0" using assms(2) by (simp_all add: mounted_def)
  have w: "takeWhile (\<lambda>b. b \<noteq> 0) label = label" using assms(3) by (auto simp: takeWhile_eq_all_conv)
  then have "takeWhile (\<lambda>b. b \<noteq> 0) (take 32 (label @ [0])) = label"
    using assms(4) by (simp add: takeWhile_append)
  then have n: "set_label (label @ [0]) (fs_label s) = label @ drop (length label) (fs_label s)"
    using l(1) by (simp add: set_label_def)
  let ?l = "label @ drop (length label) (fs_label s)"
  let ?s = "(rd_st e PFS_ID_0AREA s)\<lparr>fs_label := ?l\<rparr>"
  have len: "length ?l = 32" using l assms(4) by simp
  have a: "PFS_ID_0AREA < 0x800" "PFS_LABEL_AREA < 0x800" by (simp_all add: PFS_ID_0AREA_def PFS_LABEL_AREA_def)
  have g: "fs_good e I B ?s" using assms(1) a by (simp add: pak_good)
  have s1: "osPfsSetLabel e (Some (label @ [0])) s = (Inr (), wr_st e PFS_LABEL_AREA ?l ?s)"
    using assms(1,2) l n ram_good(2) [OF g a(2) len, of 0] by (simp add: osPfsSetLabel_def)
  have m: "mounted B ?s" using assms(1,2) a len by (simp add: mounted_def pak_good)
  then have m1: "mounted B (wr_st e PFS_LABEL_AREA ?l ?s)" using g a len by simp
  have g1: "fs_good e I B (wr_st e PFS_LABEL_AREA ?l ?s)" using g a len by (simp add: pak_good)
  show ?thesis
    using s1 m1 fs_write_good(3) [OF g len a(2)] fs_read_good(3) [OF assms(1) a(1)] w
    by (auto simp: osPfsGetLabel_def check_mounted(1) [OF g1 m1] takeWhile_append)
qed

definition dir_at :: "(u16 \<Rightarrow> u8 list) \<Rightarrow> nat \<Rightarrow> u8 list" where
  "dir_at m j = m (blkno (24 + j))"

lemma find_in_good:
  assumes "fs_good e I B s" "fs_dir_table s = 24" "\<forall>j\<in>set js. j < 16"
  shows "\<exists>s'. goes e I B s (fs_mem B s) s' \<and> find_in e cc gc gn en js fno s =
    (case filter (\<lambda>j. dir_matches cc gc gn en (dir_at (fs_mem B s) j)) js of
       [] \<Rightarrow> (PFS_ERR_INVALID, -1, s') | j # _ \<Rightarrow> (0, of_nat j, s'))"
  using assms
proof (induction js arbitrary: s)
  case Nil
  then show ?case using goes_refl [OF Nil(1)] by auto
next
  case (Cons j js)
  have a: "blkno (24 + j) < 0x800" using Cons.prems(3) by (intro blkno_less) simp
  let ?s = "rd_st e (blkno (24 + j)) s"
  have r: "ram_get e (blkno (fs_dir_table s + j)) s = (Inr (dir_at (fs_mem B s) j), ?s)"
    using ram_good(1) [OF Cons.prems(1) a] Cons.prems(2) by (simp add: dir_at_def)
  have g: "fs_good e I B ?s" "fs_mem B ?s = fs_mem B s" "goes e I B s (fs_mem B s) ?s"
    using fs_read_good(2,3) [OF Cons.prems(1) a] goes_read [OF Cons.prems(1) a] by simp_all
  show ?case
  proof (cases "dir_matches cc gc gn en (dir_at (fs_mem B s) j)")
    case True
    then show ?thesis using r g(3) by auto
  next
    case False
    then show ?thesis
      using Cons.IH [of ?s] g goes_trans [OF g(3)] Cons.prems r by (fastforce split: list.split)
  qed
qed

text \<open>a search delivers the first entry with the codes and names that are looked for, says so when there is
  none, and leaves the pak as it is.\<close>

theorem osPfsFindFile_finds_first:
  assumes "fs_good e I B s" "mounted B s"
  shows "\<exists>s'. mounted B s' \<and> fs_mem B s' = fs_mem B s \<and>
    osPfsFindFile e company_code game_code game_name ext_name file_no s =
      (if \<exists>j<16. dir_matches company_code game_code game_name ext_name (dir_at (fs_mem B s) j)
       then (0, of_nat (LEAST j. dir_matches company_code game_code game_name ext_name (dir_at (fs_mem B s) j)), s')
       else (PFS_ERR_INVALID, -1, s'))"
proof -
  have a: "PFS_ID_0AREA < 0x800" by (simp add: PFS_ID_0AREA_def)
  let ?s = "rd_st e PFS_ID_0AREA s" and ?P = "\<lambda>j. dir_matches company_code game_code game_name ext_name (dir_at (fs_mem B s) j)"
  have s: "fs_good e I B ?s" "fs_mem B ?s = fs_mem B s" "fs_dir_table ?s = 24" "fs_dir_size ?s = 16" "mounted B ?s"
    using fs_read_good(2,3) [OF assms(1) a] assms a by (simp_all add: mounted_def)
  have f: "filter ?P [0..<n] = (if \<exists>j<n. ?P j then (LEAST j. ?P j) # filter ?P [Suc (LEAST j. ?P j)..<n] else [])" for n
  proof (cases "\<exists>j<n. ?P j")
    case True
    then have l: "?P (LEAST j. ?P j)" "(LEAST j. ?P j) < n" by (auto intro: LeastI Least_le le_less_trans)
    have "[0..<n] = [0..<LEAST j. ?P j] @ (LEAST j. ?P j) # [Suc (LEAST j. ?P j)..<n]"
      using l(2) by (metis le_add_diff_inverse less_imp_le_nat upt_add_eq_append upt_conv_Cons zero_le)
    moreover have "filter ?P [0..<LEAST j. ?P j] = []" by (auto simp: filter_empty_conv dest: not_less_Least)
    ultimately show ?thesis using True l(1) by simp
  qed (auto simp: filter_empty_conv)
  from find_in_good [OF s(1,3), of "[0..<16]" company_code game_code game_name ext_name file_no]
  obtain s' where s': "goes e I B ?s (fs_mem B s) s'" "find_in e company_code game_code game_name ext_name [0..<16] file_no ?s =
    (case filter ?P [0..<16] of [] \<Rightarrow> (PFS_ERR_INVALID, -1, s') | j # _ \<Rightarrow> (0, of_nat j, s'))"
    by (auto simp: s(2))
  show ?thesis
    using s' s goes_mounted [OF s'(1)] check_mounted(1) [OF assms] goes_fields(2) [OF s'(1)]
    by (cases "\<exists>j<16. ?P j") (auto simp: osPfsFindFile_def f)
qed

subsection \<open>The tables on a mounted pak\<close>

lemma half_at_bytes: "i < length ws \<Longrightarrow> half_at (concat (map be16 ws)) (2 * i) = ws ! i"
proof (induction ws arbitrary: i)
  case (Cons w ws)
  have "push_bit 8 (ucast (ucast (drop_bit 8 w) :: u8)) OR ucast (ucast w :: u8) = w"
    by (rule bit_word_eqI) (auto simp: bit_simps)
  then show ?case using Cons by (cases i) (simp_all add: half_at_def be16_def)
qed simp

lemma length_bytes [simp]: "length (concat (map be16 ws)) = 2 * length ws"
  by (induction ws) (simp_all add: be16_def)

lemma length_inode_block [simp]: "length T = 128 \<Longrightarrow> j < 8 \<Longrightarrow> length (inode_block j T) = 32"
  by (simp add: inode_block_def)

lemma length_put_inode_block [simp]: "length T = 128 \<Longrightarrow> j < 8 \<Longrightarrow> length (put_inode_block j bs T) = 128"
  by (simp add: put_inode_block_def)

definition table_at :: "(u16 \<Rightarrow> u8 list) \<Rightarrow> nat \<Rightarrow> u16 list" where
  "table_at m base = map (\<lambda>i. half_at (m (blkno (base + i div 16))) (2 * (i mod 16))) [0..<128]"

lemma length_table_at [simp]: "length (table_at m base) = 128"
  by (simp add: table_at_def)

lemma table_at_blocks:
  assumes "length T = 128" "\<forall>j<8. m (blkno (base + j)) = inode_block j T"
  shows "table_at m base = T"
proof (rule nth_equalityI)
  fix i assume "i < length (table_at m base)"
  then have i: "i < 128" "i div 16 < 8" by auto
  have "16 * (i div 16) + i mod 16 = i" "i mod 16 < length (take 16 (drop (16 * (i div 16)) T))"
    using i assms(1) by auto
  then have "half_at (inode_block (i div 16) T) (2 * (i mod 16)) = T ! i"
    using half_at_bytes [of "i mod 16" "take 16 (drop (16 * (i div 16)) T)"] i assms(1)
    by (simp add: inode_block_def nth_take nth_drop)
  then show "table_at m base ! i = T ! i" using assms(2) i by (simp add: table_at_def)
qed (use assms in simp)

lemma fold_put_blocks:
  assumes "length T = 128"
  shows "n \<le> 8 \<Longrightarrow> fold (\<lambda>j. put_inode_block j (m (blkno (base + j)))) [0..<n] T =
    take (16 * n) (table_at m base) @ drop (16 * n) T"
proof (induction n)
  case (Suc n)
  have "take (16 * Suc n) (table_at m base) = take (16 * n) (table_at m base) @ map (\<lambda>i. half_at (m (blkno (base + n))) (2 * i)) [0..<16]"
  proof (rule nth_equalityI)
    fix i assume "i < length (take (16 * Suc n) (table_at m base))"
    then have i: "i < 16 * n + 16" "16 * n + 16 \<le> 128" using Suc by auto
    have "i div 16 = n \<and> i mod 16 = i - 16 * n" if "\<not> i < 16 * n"
    proof -
      have "i div 16 = n" using that i by (intro div_nat_eqI) auto
      then show ?thesis using minus_mult_div_eq_mod [of i 16] by simp
    qed
    then show "take (16 * Suc n) (table_at m base) ! i =
        (take (16 * n) (table_at m base) @ map (\<lambda>i. half_at (m (blkno (base + n))) (2 * i)) [0..<16]) ! i"
      using i by (auto simp: nth_append table_at_def)
  qed (use Suc in simp)
  then show ?case using Suc assms by (simp add: put_inode_block_def)
qed simp

lemma fold_put_all: "length T = 128 \<Longrightarrow>
  fold (\<lambda>j. put_inode_block j (m (blkno (base + j)))) [0..<8] T = table_at m base"
  using fold_put_blocks [of T 8 m base] by simp

lemma table_block_0: "table_block base 0 j = blkno (base + j)"
  by (simp add: table_block_def)

lemma read_tables_good:
  assumes "fs_good e I B s" "\<forall>j\<in>set js. base + j < 2048"
  shows "fs_inode_table s = base \<Longrightarrow> \<exists>s'. goes e I B s (fs_mem B s) s' \<and> read_table e 0 js T s =
      (0, fold (\<lambda>j. put_inode_block j (fs_mem B s (blkno (base + j)))) js T, s')"
    "fs_minode_table s = base \<Longrightarrow> \<exists>s'. goes e I B s (fs_mem B s) s' \<and> read_mirror e 0 js T s =
      (fold (\<lambda>j. put_inode_block j (fs_mem B s (blkno (base + j)))) js T, s')"
  using assms
proof (induction js arbitrary: s T)
  case (Cons j js)
  {
    case 1
    then have a: "blkno (base + j) < 0x800" by (intro blkno_less) simp
    let ?s = "rd_st e (blkno (base + j)) s"
    have g: "goes e I B s (fs_mem B s) ?s" "fs_good e I B ?s" "fs_mem B ?s = fs_mem B s"
      using goes_read [OF 1(2) a] fs_read_good [OF 1(2) a] by simp_all
    show ?case
      using Cons.IH(1) [of ?s "put_inode_block j (fs_mem B s (blkno (base + j))) T"] 1 g goes_trans [OF g(1)]
        fs_read_good(1) [OF 1(2) a] by (fastforce simp: table_block_0)
  next
    case 2
    then have a: "blkno (base + j) < 0x800" by (intro blkno_less) simp
    let ?s = "rd_st e (blkno (base + j)) s"
    have g: "goes e I B s (fs_mem B s) ?s" "fs_good e I B ?s" "fs_mem B ?s = fs_mem B s"
      using goes_read [OF 2(2) a] fs_read_good [OF 2(2) a] by simp_all
    show ?case
      using Cons.IH(2) [of ?s "put_inode_block j (fs_mem B s (blkno (base + j))) T"] 2 g goes_trans [OF g(1)]
        fs_read_good(1) [OF 2(2) a] by (fastforce simp: table_block_0)
  }
qed (use goes_refl in auto)

text \<open>\<open>with_table base T m\<close>: the blocks with the table \<open>T\<close> written at the block \<open>base\<close>.\<close>

definition with_table :: "nat \<Rightarrow> u16 list \<Rightarrow> (u16 \<Rightarrow> u8 list) \<Rightarrow> u16 \<Rightarrow> u8 list" where
  "with_table base T m = (\<lambda>a. if base \<le> unat a \<and> unat a < base + 8 then inode_block (unat a - base) T else m a)"

lemma fold_upd_range:
  "base + n < 65536 \<Longrightarrow> fold (\<lambda>j m. m(blkno (base + j) := f j)) [0..<n] m =
    (\<lambda>a :: u16. if base \<le> unat a \<and> unat a < base + n then f (unat a - base) else m a)"
proof (induction n)
  case (Suc n)
  have "unat (blkno (base + n)) = base + n" using Suc.prems by simp
  then have "a = blkno (base + n) \<longleftrightarrow> unat a = base + n" for a by (metis blkno_unat)
  then show ?case using Suc by (auto simp: fun_eq_iff less_Suc_eq)
qed (auto simp: fun_eq_iff)

lemma with_table_fold:
  "base + 8 < 65536 \<Longrightarrow> fold (\<lambda>j m. m(blkno (base + j) := inode_block j T)) [0..<8] m = with_table base T m"
  using fold_upd_range [of base 8 "\<lambda>j. inode_block j T" m] by (simp add: with_table_def)

lemma with_table_same: "\<forall>j<8. m (blkno (base + j)) = inode_block j T \<Longrightarrow> with_table base T m = m"
proof
  fix a :: u16
  assume h: "\<forall>j<8. m (blkno (base + j)) = inode_block j T"
  show "with_table base T m a = m a"
  proof (cases "base \<le> unat a \<and> unat a < base + 8")
    case True
    then have "unat a - base < 8" "blkno (base + (unat a - base)) = a" by auto
    then have "m a = inode_block (unat a - base) T" using h by metis
    then show ?thesis using True by (simp add: with_table_def)
  next
    case False
    then show ?thesis unfolding with_table_def by (simp only: if_False)
  qed
qed

lemma repair_table_good:
  assumes "fs_good e I B s" "\<forall>j\<in>set js. 7 \<le> base + j \<and> base + j < 2048 \<and> j < 8" "length T = 128"
  shows "goes e I B s (fold (\<lambda>j m. m(blkno (base + j) := inode_block j T)) js (fs_mem B s)) (repair_table e base 0 T js s)"
  using assms
proof (induction js arbitrary: s)
  case (Cons j js)
  then have "7 \<le> base + j" "base + j < 2048" "length (inode_block j T) = 32" by simp_all
  then have a: "blkno (base + j) < 0x800" "PFS_LABEL_AREA \<le> blkno (base + j)" "length (inode_block j T) = 32"
    by (auto intro!: blkno_less blkno_free)
  let ?s = "wr_st e (blkno (base + j)) (inode_block j T) s"
  have w: "fs_write e (table_block base 0 j) (inode_block j T) 0 s = (0, ?s)"
    using fs_write_good(1) [OF Cons.prems(1) a(3,1), of 0] a(2) by (simp add: table_block_0)
  have g: "goes e I B s ((fs_mem B s)(blkno (base + j) := inode_block j T)) ?s" "fs_good e I B ?s"
    "fs_mem B ?s = (fs_mem B s)(blkno (base + j) := inode_block j T)"
    using goes_write [OF Cons.prems(1) a(1,3)] fs_write_good(2,3) [OF Cons.prems(1) a(3,1)] by simp_all
  show ?case using Cons.IH [OF g(2)] Cons.prems goes_trans [OF g(1)] w g(3) by (simp del: fun_upd_apply)
qed (use goes_refl in simp)

text \<open>Both copies hold the table \<open>T\<close> and its sum is the stored one.\<close>

definition tables_ok :: "(u16 \<Rightarrow> u8 list) \<Rightarrow> u16 list \<Rightarrow> bool" where
  "tables_ok m T \<longleftrightarrow> length T = 128 \<and> inode_sum 5 T = pg_page (T ! 0) \<and>
     (\<forall>j<8. m (blkno (8 + j)) = inode_block j T) \<and> (\<forall>j<8. m (blkno (16 + j)) = inode_block j T)"

lemma table_range: "\<forall>j\<in>set [0..<8]. 7 \<le> 8 + j \<and> 8 + j < 2048 \<and> j < 8" "\<forall>j\<in>set [0..<8]. 7 \<le> 16 + j \<and> 16 + j < 2048 \<and> j < 8"
  by auto

lemma get_inode_good:
  assumes g: "fs_good e I B s" and m: "mounted B s" and t: "tables_ok (fs_mem B s) T" and l: "length T0 = 128"
  shows "\<exists>s'. goes e I B s (fs_mem B s) s' \<and> get_inode e T0 0 s = (Inr T, s')"
proof -
  have f: "fs_inode_table s = 8" "fs_minode_table s = 16" "fs_activebank s = 0" "fs_inode_start_page s = 5"
    using m by (simp_all add: mounted_def)
  have T: "table_at (fs_mem B s) 8 = T" "length T = 128" using table_at_blocks [of T "fs_mem B s" 8] t by (simp_all add: tables_ok_def)
  obtain s1 where s1: "goes e I B s (fs_mem B s) s1" "read_table e 0 [0..<8] T0 s = (0, T, s1)"
    using read_tables_good(1) [OF g _ f(1), of "[0..<8]" T0] fold_put_all [OF l, of "fs_mem B s" 8] T(1) by auto
  note s1f = goes_fields [OF s1(1)]
  let ?s = "repair_table e 16 0 T [0..<8] s1"
  have "goes e I B s1 (with_table 16 T (fs_mem B s)) ?s"
    using repair_table_good [OF s1f(1) table_range(2) T(2)] by (simp only: with_table_fold s1f(2))
  moreover have "with_table 16 T (fs_mem B s) = fs_mem B s" using t by (intro with_table_same) (simp add: tables_ok_def)
  ultimately have "goes e I B s (fs_mem B s) ?s" using goes_trans [OF s1(1)] by simp
  moreover have "get_inode e T0 0 s = (Inr T, ?s)"
    using s1(2) f s1f t
    by (simp add: get_inode_def osPfsRWInode_def read_inode_def PFS_READ_def PFS_WRITE_def PFS_ONE_PAGE_def page_offset_def
        tables_ok_def)
  ultimately show ?thesis by blast
qed

text \<open>the mirror of a table is of no use: when the table on the pak is damaged, the mirror intact and both hold
  the same sum, as they do after every write, the table is reported as inconsistent, because the sum of the
  damaged copy is compared with the sum stored in the mirror.\<close>

theorem osPfsRWInode_ignores_good_mirror:
  assumes "fs_good e I B s" "mounted B s" "length T0 = 128"
    "table_at (fs_mem B s) 16 = M" "pg_page (table_at (fs_mem B s) 8 ! 0) = pg_page (M ! 0)"
    "inode_sum 5 M = pg_page (M ! 0)" "inode_sum 5 (table_at (fs_mem B s) 8) \<noteq> pg_page (M ! 0)"
  shows "\<exists>s'. osPfsRWInode e T0 PFS_READ 0 s = (PFS_ERR_INCONSISTENT, M, s') \<and> fs_mem B s' = fs_mem B s"
proof -
  have f: "fs_inode_table s = 8" "fs_minode_table s = 16" "fs_activebank s = 0" "fs_inode_start_page s = 5"
    using assms(2) by (simp_all add: mounted_def)
  let ?T = "table_at (fs_mem B s) 8"
  obtain s1 where s1: "goes e I B s (fs_mem B s) s1" "read_table e 0 [0..<8] T0 s = (0, ?T, s1)"
    using read_tables_good(1) [OF assms(1) _ f(1), of "[0..<8]" T0] fold_put_all [OF assms(3), of "fs_mem B s" 8] by auto
  note s1f = goes_fields [OF s1(1)]
  obtain s2 where s2: "goes e I B s1 (fs_mem B s) s2" "read_mirror e 0 [0..<8] ?T s1 = (M, s2)"
    using read_tables_good(2) [OF s1f(1), of "[0..<8]" 16 ?T] fold_put_all [of ?T "fs_mem B s" 16] s1f(2,9) f(2) assms(4) by auto
  show ?thesis
    using s1 s2 f s1f assms(5,7) goes_fields(2) [OF s2(1)]
    by (intro exI [where x = s2])
      (simp add: osPfsRWInode_def read_inode_def PFS_READ_def PFS_WRITE_def PFS_ONE_PAGE_def page_offset_def)
qed

subsection \<open>Files on a mounted pak\<close>

text \<open>\<open>file_in T ns\<close>: the table links the pages \<open>ns\<close>, in this order, to a file.\<close>

definition file_in :: "u16 list \<Rightarrow> nat list \<Rightarrow> bool" where
  "file_in T ns \<longleftrightarrow> ns \<noteq> [] \<and> distinct ns \<and> (\<forall>n\<in>set ns. 5 \<le> n \<and> n < 128) \<and>
     (\<forall>i. i + 1 < length ns \<longrightarrow> T ! (ns ! i) = of_nat (ns ! (i + 1))) \<and> T ! last ns = PFS_EOF"

definition file_block :: "nat list \<Rightarrow> nat \<Rightarrow> u16" where
  "file_block ns q = blkno (8 * ns ! (q div 8) + q mod 8)"

lemma page_nat:
  assumes "n < 128"
  shows "pg_bank (of_nat n) = 0" "unat (pg_page (of_nat n)) = n" "unat (of_nat n :: u16) = n"
proof -
  show u: "unat (of_nat n :: u16) = n" using assms by (simp add: unat_of_nat take_bit_nat_eq_self)
  have "unat (pg_bank (of_nat n)) = 0"
    unfolding pg_bank_def unsigned_ucast_eq unsigned_drop_bit_eq u using assms by (simp add: drop_bit_eq_div take_bit_nat_eq_self)
  then show "pg_bank (of_nat n) = 0" by (simp only: unsigned_eq_0_iff)
  show "unat (pg_page (of_nat n)) = n" using assms u by (simp add: pg_page_def unsigned_ucast_eq take_bit_nat_eq_self)
qed

lemma check_ipage_good: "mounted B s \<Longrightarrow> 5 \<le> n \<Longrightarrow> n < 128 \<Longrightarrow> check_ipage s (of_nat n)"
  using page_nat [of n] by (auto simp: check_ipage_def mounted_def word_le_nat_alt word_less_nat_alt)

lemma file_page: "file_in T ns \<Longrightarrow> k < length ns \<Longrightarrow> 5 \<le> ns ! k \<and> ns ! k < 128"
  by (auto simp: file_in_def)

lemma file_block_range:
  assumes "file_in T ns" "q < 8 * length ns"
  shows "40 \<le> unat (file_block ns q) \<and> unat (file_block ns q) < 1024"
proof -
  have "q div 8 < length ns" using assms(2) by auto
  then have "5 \<le> ns ! (q div 8) \<and> ns ! (q div 8) < 128" using file_page [OF assms(1)] by blast
  moreover have "q mod 8 < 8" by simp
  ultimately have "40 \<le> 8 * ns ! (q div 8) + q mod 8 \<and> 8 * ns ! (q div 8) + q mod 8 < 1024" by linarith
  then show ?thesis by (simp add: file_block_def)
qed

lemma eight_parts: "8 * a + x = 8 * b + y \<Longrightarrow> x < 8 \<Longrightarrow> y < 8 \<Longrightarrow> a = b \<and> x = y" for a b x y :: nat
  by presburger

lemma file_block_inj:
  assumes "file_in T ns" "q < 8 * length ns" "r < 8 * length ns" "file_block ns q = file_block ns r"
  shows "q = r"
proof -
  have d: "q div 8 < length ns" "r div 8 < length ns" using assms by auto
  have "8 * ns ! (q div 8) + q mod 8 < 65536" "8 * ns ! (r div 8) + r mod 8 < 65536"
    using file_page [OF assms(1) d(1)] file_page [OF assms(1) d(2)] mod_less_divisor [of 8 q] mod_less_divisor [of 8 r]
    by linarith+
  then have "unat (file_block ns q) = 8 * ns ! (q div 8) + q mod 8" "unat (file_block ns r) = 8 * ns ! (r div 8) + r mod 8"
    by (simp_all add: file_block_def)
  then have "8 * ns ! (q div 8) + q mod 8 = 8 * ns ! (r div 8) + r mod 8" using assms(4) by simp
  from eight_parts [OF this] have "ns ! (q div 8) = ns ! (r div 8)" "q mod 8 = r mod 8" by simp_all
  moreover have "distinct ns" using assms(1) by (simp add: file_in_def)
  ultimately have "q div 8 = r div 8" using d by (simp add: nth_eq_iff_index_eq)
  with \<open>q mod 8 = r mod 8\<close> show ?thesis by (metis mod_mult_div_eq)
qed

lemma tables_ok_upd: "40 \<le> unat a \<Longrightarrow> tables_ok (m(a := x)) T = tables_ok m T"
  by (auto simp: tables_ok_def)

definition cursor_at :: "u16 list \<Rightarrow> nat list \<Rightarrow> cursor \<Rightarrow> nat \<Rightarrow> bool" where
  "cursor_at T ns c k \<longleftrightarrow> (case c of (bank, inode, page) \<Rightarrow>
     page = of_nat (ns ! k) \<and> k < length ns \<and> (bank = 0 \<and> inode = T \<or> bank = 255 \<and> length inode = 128))"

lemma next_page_good:
  assumes g: "fs_good e I B s" "mounted B s" "tables_ok (fs_mem B s) T" and f: "file_in T ns"
    and c: "cursor_at T ns c k" "k + 1 < length ns"
  shows "\<exists>s' c'. goes e I B s (fs_mem B s) s' \<and> osPfsGetNextPage e c s = (Inr c', s') \<and> cursor_at T ns c' (k + 1)"
proof -
  obtain bank inode where cc: "c = (bank, inode, of_nat (ns ! k))" "bank = 0 \<and> inode = T \<or> bank = 255 \<and> length inode = 128"
    using c(1) by (auto simp: cursor_at_def)
  have p: "5 \<le> ns ! k" "ns ! k < 128" "5 \<le> ns ! (k + 1)" "ns ! (k + 1) < 128" using file_page [OF f] c(2) by auto
  have t: "T ! (ns ! k) = of_nat (ns ! (k + 1))" using f c(2) by (simp add: file_in_def)
  have ok: "check_ipage s' (of_nat (ns ! (k + 1)))" if "goes e I B s (fs_mem B s) s'" for s'
    using goes_mounted [OF that g(2)] p by (intro check_ipage_good) auto
  from cc(2) show ?thesis
  proof
    assume b: "bank = 0 \<and> inode = T"
    have "goes e I B s (fs_mem B s) s" using g(1) by (rule goes_refl)
    then show ?thesis using b cc(1) page_nat [OF p(2)] t ok c(2)
      by (auto simp: osPfsGetNextPage_def cursor_at_def)
  next
    assume b: "bank = 255 \<and> length inode = 128"
    then obtain s' where s': "goes e I B s (fs_mem B s) s'" "get_inode e inode 0 s = (Inr T, s')"
      using get_inode_good [OF g] by blast
    then show ?thesis using b cc(1) page_nat [OF p(2)] t ok c(2)
      by (auto simp: osPfsGetNextPage_def cursor_at_def)
  qed
qed

lemma skip_pages_good:
  assumes "fs_good e I B s" "mounted B s" "tables_ok (fs_mem B s) T" "file_in T ns" "cursor_at T ns c k" "k + n < length ns"
  shows "\<exists>s' c'. goes e I B s (fs_mem B s) s' \<and> skip_pages e n c s = (Inr c', s') \<and> cursor_at T ns c' (k + n)"
  using assms
proof (induction n arbitrary: s c k)
  case 0
  then show ?case using goes_refl by fastforce
next
  case (Suc n)
  obtain s1 c1 where 1: "goes e I B s (fs_mem B s) s1" "osPfsGetNextPage e c s = (Inr c1, s1)" "cursor_at T ns c1 (k + 1)"
    using next_page_good [OF Suc.prems(1-5)] Suc.prems(6) by auto
  note f = goes_fields(1,2) [OF 1(1)]
  obtain s2 c2 where "goes e I B s1 (fs_mem B s) s2" "skip_pages e n c1 s1 = (Inr c2, s2)" "cursor_at T ns c2 (k + 1 + n)"
    using Suc.IH [OF f(1) goes_mounted [OF 1(1) Suc.prems(2)] _ Suc.prems(4) 1(3)] Suc.prems f by auto
  then show ?case using 1 goes_trans [OF 1(1)] by auto
qed

lemma at_block_good:
  assumes g: "fs_good e I B s" "mounted B s" "tables_ok (fs_mem B s) T" and f: "file_in T ns"
    and c: "cursor_at T ns c k" "b \<le> 8" "8 * k + b < 8 * length ns"
  shows "\<exists>s' inode bank k' b'. goes e I B s (fs_mem B s) s' \<and> 8 * k + b = 8 * k' + b' \<and> b' < 8 \<and>
    at_block e b c s = (Inr (b', bank, inode, of_nat (ns ! k')), s') \<and> cursor_at T ns (bank, inode, of_nat (ns ! k')) k'"
proof (cases "b = 8")
  case True
  then obtain s1 c1 where 1: "goes e I B s (fs_mem B s) s1" "osPfsGetNextPage e c s = (Inr c1, s1)" "cursor_at T ns c1 (k + 1)"
    using next_page_good [OF g f c(1)] c(3) by auto
  obtain bank inode where c1: "c1 = (bank, inode, of_nat (ns ! (k + 1)))" using 1(3) by (auto simp: cursor_at_def)
  have "pg_bank (of_nat (ns ! (k + 1))) = 0" using page_nat file_page [OF f, of "k + 1"] True c(3) by simp
  then have "at_block e b c s = (Inr (0, bank, inode, of_nat (ns ! (k + 1))), s1)"
    using 1(2) c1 True g(2) goes_fields(13) [OF 1(1)] by (simp add: at_block_def PFS_ONE_PAGE_def mounted_def)
  then show ?thesis using 1 c1 True by (intro exI [where x = s1] exI [where x = inode] exI [where x = bank] exI [where x = "k + 1"] exI [where x = 0]) simp
next
  case False
  obtain bank inode where c1: "c = (bank, inode, of_nat (ns ! k))" "k < length ns" using c(1) by (auto simp: cursor_at_def)
  have "pg_bank (of_nat (ns ! k)) = 0" using page_nat file_page [OF f c1(2)] by simp
  then have "at_block e b c s = (Inr (b, bank, inode, of_nat (ns ! k)), s)"
    using c1 False g(2) by (simp add: at_block_def PFS_ONE_PAGE_def mounted_def)
  then show ?thesis using c c1 False goes_refl [OF g(1)]
    by (intro exI [where x = s] exI [where x = inode] exI [where x = bank] exI [where x = k] exI [where x = b]) simp
qed

text \<open>The \<open>i\<close>th block of a buffer.\<close>

definition buf_block :: "u8 list \<Rightarrow> nat \<Rightarrow> u8 list" where
  "buf_block buffer i = take 32 (drop (32 * i) buffer)"

lemma buf_block_same: "32 * i + 32 \<le> length buffer \<Longrightarrow> take (32 * i) buffer @ buf_block buffer i @ drop (32 * i + 32) buffer = buffer"
  by (simp add: buf_block_def) (metis add.commute append_take_drop_id drop_drop)

lemma block_place:
  assumes "8 * k + b = q" "b < 8" "k < length ns" "file_in T ns"
  shows "blkno (unat (pg_page (of_nat (ns ! k))) * PFS_ONE_PAGE + b) = file_block ns q"
  using page_nat [of "ns ! k"] file_page [OF assms(4,3)] assms(1,2)
  by (auto simp: file_block_def PFS_ONE_PAGE_def mult.commute)

lemma write_blocks_good:
  assumes "fs_good e I B s" "mounted B s" "tables_ok (fs_mem B s) T" "file_in T ns" "cursor_at T ns c k" "b \<le> 8"
    "8 * k + b + n \<le> 8 * length ns" "32 * (i + n) \<le> length buffer" "flag \<noteq> PFS_READ"
  shows "\<exists>s'. goes e I B s (fold (\<lambda>j m. m(file_block ns (8 * k + b + j) := buf_block buffer (i + j))) [0..<n] (fs_mem B s)) s' \<and>
    rw_blocks e flag n i b c buffer s = (0, buffer, s')"
  using assms
proof (induction n arbitrary: i b k c s)
  case 0
  then show ?case using goes_refl by auto
next
  case (Suc n)
  obtain s1 inode bank k' b' where 1: "goes e I B s (fs_mem B s) s1" "8 * k + b = 8 * k' + b'" "b' < 8"
    "at_block e b c s = (Inr (b', bank, inode, of_nat (ns ! k')), s1)" "cursor_at T ns (bank, inode, of_nat (ns ! k')) k'"
    using at_block_good [OF Suc.prems(1-6)] Suc.prems(7) by auto
  note f = goes_fields(1,2) [OF 1(1)]
  let ?q = "8 * k + b" and ?b = "buf_block buffer i"
  have k': "k' < length ns" using 1(2,3) Suc.prems(7) by linarith
  have a: "40 \<le> unat (file_block ns ?q)" "unat (file_block ns ?q) < 1024"
    using file_block_range [OF Suc.prems(4), of ?q] Suc.prems(7) by auto
  then have a': "file_block ns ?q < 0x800" "PFS_LABEL_AREA \<le> file_block ns ?q"
    by (simp_all add: word_less_nat_alt word_le_nat_alt PFS_LABEL_AREA_def)
  have b: "length ?b = 32" "take (32 * i) buffer @ ?b @ drop (32 * i + 32) buffer = buffer"
    using Suc.prems(8) buf_block_same [of i buffer] by (simp_all add: buf_block_def)
  let ?s = "wr_st e (file_block ns ?q) ?b s1" and ?m = "(fs_mem B s)(file_block ns ?q := ?b)"
  have w: "fs_write e (file_block ns ?q) ?b 0 s1 = (0, ?s)" using fs_write_good(1) [OF f(1) b(1) a'(1), of 0] a'(2) by simp
  have g: "goes e I B s1 ?m ?s" "fs_good e I B ?s" "fs_mem B ?s = ?m"
    using goes_write [OF f(1) a'(1) b(1)] fs_write_good(2,3) [OF f(1) b(1) a'(1)] f(2) by simp_all
  have m: "mounted B ?s" using goes_mounted [OF 1(1) Suc.prems(2)] f(1) a' b(1) by simp
  have t: "tables_ok (fs_mem B ?s) T" using Suc.prems(3) g(3) tables_ok_upd [OF a(1)] by simp
  have "b' + 1 \<le> 8" "8 * k' + (b' + 1) + n \<le> 8 * length ns" "32 * (i + 1 + n) \<le> length buffer"
    using Suc.prems(7,8) 1(2,3) by auto
  from Suc.IH [OF g(2) m t Suc.prems(4) 1(5) this Suc.prems(9)] obtain s'
    where s': "goes e I B ?s (fold (\<lambda>j m. m(file_block ns (8 * k' + (b' + 1) + j) := buf_block buffer (i + 1 + j))) [0..<n] ?m) s'"
    "rw_blocks e flag n (i + 1) (b' + 1) (bank, inode, of_nat (ns ! k')) buffer ?s = (0, buffer, s')"
    unfolding g(3) by blast
  have "fold (\<lambda>j m. m(file_block ns (8 * k' + (b' + 1) + j) := buf_block buffer (i + 1 + j))) [0..<n] ?m =
    fold (\<lambda>j m. m(file_block ns (?q + j) := buf_block buffer (i + j))) [0..<Suc n] (fs_mem B s)"
    using 1(2) by (simp add: fold_map upt_conv_Cons o_def flip: map_Suc_upt del: upt_Suc)
  from goes_trans [OF goes_trans [OF 1(1) g(1)] s'(1), unfolded this]
  have "goes e I B s (fold (\<lambda>j m. m(file_block ns (?q + j) := buf_block buffer (i + j))) [0..<Suc n] (fs_mem B s)) s'" .
  moreover have "rw_blocks e flag (Suc n) i b c buffer s = (0, buffer, s')"
    using s'(2) 1(4) w b(2) Suc.prems(9) block_place [OF 1(2) [symmetric] 1(3) k' Suc.prems(4)]
    by (simp add: buf_block_def [symmetric] Let_def)
  ultimately show ?case by blast
qed

lemma read_blocks_good:
  assumes "fs_good e I B s" "mounted B s" "tables_ok (fs_mem B s) T" "file_in T ns" "cursor_at T ns c k" "b \<le> 8"
    "8 * k + b + n \<le> 8 * length ns" "32 * (i + n) \<le> length buffer"
  shows "\<exists>s'. goes e I B s (fs_mem B s) s' \<and> rw_blocks e PFS_READ n i b c buffer s =
    (0, take (32 * i) buffer @ concat (map (\<lambda>j. fs_mem B s (file_block ns (8 * k + b + j))) [0..<n]) @ drop (32 * (i + n)) buffer, s')"
  using assms
proof (induction n arbitrary: i b k c s buffer)
  case 0
  then show ?case using goes_refl by auto
next
  case (Suc n)
  obtain s1 inode bank k' b' where 1: "goes e I B s (fs_mem B s) s1" "8 * k + b = 8 * k' + b'" "b' < 8"
    "at_block e b c s = (Inr (b', bank, inode, of_nat (ns ! k')), s1)" "cursor_at T ns (bank, inode, of_nat (ns ! k')) k'"
    using at_block_good [OF Suc.prems(1-6)] Suc.prems(7) by auto
  note f = goes_fields(1,2) [OF 1(1)]
  let ?q = "8 * k + b" and ?x = "fs_mem B s (file_block ns (8 * k + b))"
  let ?buf = "take (32 * i) buffer @ ?x @ drop (32 * i + 32) buffer" and ?s = "rd_st e (file_block ns ?q) s1"
  have k': "k' < length ns" using 1(2,3) Suc.prems(7) by linarith
  have a: "file_block ns ?q < 0x800"
    using file_block_range [OF Suc.prems(4), of ?q] Suc.prems(7) by (simp add: word_less_nat_alt)
  have r: "fs_read e (file_block ns ?q) (buf_block buffer i) s1 = (0, ?x, ?s)" "length ?x = 32"
    using fs_read_good(1) [OF f(1) a] f(2) Suc.prems(1) by simp_all
  have g: "goes e I B s1 (fs_mem B s) ?s" "fs_good e I B ?s" "fs_mem B ?s = fs_mem B s"
    using goes_read [OF f(1) a] fs_read_good(2,3) [OF f(1) a] f(2) by simp_all
  have m: "mounted B ?s" using goes_mounted [OF 1(1) Suc.prems(2)] f(1) a by simp
  have len: "length ?buf = length buffer" "length (take (32 * i) buffer) = 32 * i" using Suc.prems(8) r(2) by simp_all
  have "b' + 1 \<le> 8" "8 * k' + (b' + 1) + n \<le> 8 * length ns" "32 * (i + 1 + n) \<le> length ?buf"
    using Suc.prems(7,8) 1(2,3) len by auto
  from Suc.IH [OF g(2) m _ Suc.prems(4) 1(5) this] Suc.prems(3) obtain s'
    where s': "goes e I B ?s (fs_mem B s) s'" "rw_blocks e PFS_READ n (i + 1) (b' + 1) (bank, inode, of_nat (ns ! k')) ?buf ?s =
      (0, take (32 * (i + 1)) ?buf @ concat (map (\<lambda>j. fs_mem B s (file_block ns (8 * k' + (b' + 1) + j))) [0..<n]) @
          drop (32 * (i + 1 + n)) ?buf, s')"
    unfolding g(3) by blast
  have "take (32 * (i + 1)) ?buf = take (32 * i) buffer @ ?x" "drop (32 * (i + 1 + n)) ?buf = drop (32 * (i + Suc n)) buffer"
    using len r(2) by (simp_all add: algebra_simps)
  moreover have "concat (map (\<lambda>j. fs_mem B s (file_block ns (?q + j))) [0..<Suc n]) =
      ?x @ concat (map (\<lambda>j. fs_mem B s (file_block ns (8 * k' + (b' + 1) + j))) [0..<n])"
    using 1(2) by (simp add: upt_conv_Cons o_def flip: map_Suc_upt del: upt_Suc)
  moreover have "rw_blocks e PFS_READ (Suc n) i b c buffer s = rw_blocks e PFS_READ n (i + 1) (b' + 1) (bank, inode, of_nat (ns ! k')) ?buf ?s"
    using 1(4) r block_place [OF 1(2) [symmetric] 1(3) k' Suc.prems(4)]
    by (simp add: buf_block_def [symmetric] Let_def)
  ultimately have "rw_blocks e PFS_READ (Suc n) i b c buffer s =
      (0, take (32 * i) buffer @ concat (map (\<lambda>j. fs_mem B s (file_block ns (?q + j))) [0..<Suc n]) @ drop (32 * (i + Suc n)) buffer, s')"
    using s'(2) by (simp del: upt_Suc)
  then show ?case using goes_trans [OF goes_trans [OF 1(1) g(1)] s'(1)] by blast
qed

text \<open>Entry \<open>f\<close> of the directory is a file with the pages \<open>ns\<close>.\<close>

definition file_entry :: "(u16 \<Rightarrow> u8 list) \<Rightarrow> u16 list \<Rightarrow> nat \<Rightarrow> nat list \<Rightarrow> bool" where
  "file_entry m T f ns \<longleftrightarrow> f < 16 \<and> dir_used (dir_at m f) \<and> dir_start_page (dir_at m f) = of_nat (hd ns) \<and>
     tables_ok m T \<and> file_in T ns"

lemma sint32_of_nat: "n < 2 ^ 31 \<Longrightarrow> sint (of_nat n :: s32) = int n"
  by (simp add: sint_small unat_of_nat take_bit_nat_eq_self)

lemma file_length: "file_in T ns \<Longrightarrow> length ns \<le> 123"
proof -
  assume f: "file_in T ns"
  then have "set ns \<subseteq> {5..<128}" "distinct ns" by (auto simp: file_in_def)
  then show ?thesis using card_mono [of "{5..<128 :: nat}" "set ns"] by (simp add: distinct_card)
qed

lemma rw_file_start:
  assumes g: "fs_good e I B s" "mounted B s" and f: "file_entry (fs_mem B s) T f ns"
    and n: "0 < n" "p + n \<le> 8 * length ns" and r: "flag = PFS_READ \<longrightarrow> dir_status (dir_at (fs_mem B s) f) AND DIR_STATUS_OCCUPIED \<noteq> 0"
  shows "\<exists>s1 c. goes e I B s (fs_mem B s) s1 \<and> cursor_at T ns c (p div 8) \<and>
    osPfsReadWriteFile e (of_nat f) flag (of_nat (32 * p)) (of_nat (32 * n)) buffer s =
      (case rw_blocks e flag n 0 (p mod 8) c buffer s1 of (ret, buffer, s) \<Rightarrow>
         if ret \<noteq> 0 then (ret, buffer, s)
         else if flag = PFS_WRITE \<and> dir_status (dir_at (fs_mem B s1) f) AND DIR_STATUS_OCCUPIED = 0
         then (case errck (select_bank e 0 s) (\<lambda>_ s. ram_put e (blkno (fs_dir_table s + f))
                      ((dir_at (fs_mem B s1) f)[8 := dir_status (dir_at (fs_mem B s1) f) OR DIR_STATUS_OCCUPIED]) 0 s) of
                 (Inl ret, s) \<Rightarrow> (ret, buffer, s) | (Inr _, s) \<Rightarrow> (0, buffer, s))
         else (0, buffer, s))"
proof -
  let ?d = "dir_at (fs_mem B s) f"
  have F: "f < 16" "dir_used ?d" "dir_start_page ?d = of_nat (hd ns)" "tables_ok (fs_mem B s) T" "file_in T ns"
    using f by (simp_all add: file_entry_def)
  have len: "length ns \<le> 123" "ns \<noteq> []" using file_length F(5) by (auto simp: file_in_def)
  then have si: "sint (of_nat f :: s32) = int f" "unat (of_nat f :: s32) = f" "sint (of_nat (32 * p) :: s32) = int (32 * p)"
    "sint (of_nat (32 * n) :: s32) = int (32 * n)"
    using n F(1) sint32_of_nat [of "32 * p"] sint32_of_nat [of "32 * n"] sint32_of_nat [of f]
    by (auto simp: unat_of_nat take_bit_nat_eq_self)
  let ?s0 = "rd_st e PFS_ID_0AREA s"
  have i: "PFS_ID_0AREA < 0x800" by (simp add: PFS_ID_0AREA_def)
  have g0: "goes e I B s (fs_mem B s) ?s0" "fs_good e I B ?s0" "fs_mem B ?s0 = fs_mem B s"
    using goes_read [OF g(1) i] fs_read_good(2,3) [OF g(1) i] by simp_all
  let ?s1 = "rd_st e (blkno (24 + f)) ?s0"
  have a: "blkno (24 + f) < 0x800" using F(1) by (intro blkno_less) simp
  have g1: "goes e I B s (fs_mem B s) ?s1" "fs_good e I B ?s1" "fs_mem B ?s1 = fs_mem B s"
    using goes_trans [OF g0(1) goes_read [OF g0(2) a, unfolded g0(3)]] fs_read_good(2,3) [OF g0(2) a] g0(3) by simp_all
  have m1: "mounted B ?s1" using goes_mounted [OF g1(1) g(2)] by simp
  have D: "ram_get e (blkno (fs_dir_table ?s0 + f)) ?s0 = (Inr ?d, ?s1)"
    using ram_good(1) [OF g0(2) a] g0(3) g(2) by (simp add: dir_at_def mounted_def)
  have pd: "p div 8 < length ns" using n by auto
  have c0: "cursor_at T ns (-1, no_inode, of_nat (hd ns)) 0" using len by (simp add: cursor_at_def no_inode_def hd_conv_nth)
  obtain s2 c where s2: "goes e I B ?s1 (fs_mem B s) s2" "skip_pages e (p div 8) (-1, no_inode, of_nat (hd ns)) ?s1 = (Inr c, s2)"
    "cursor_at T ns c (p div 8)"
    using skip_pages_good [OF g1(2) m1 _ F(5) c0, of "p div 8"] F(4) pd by (auto simp: g1(3))
  have ci: "check_ipage ?s1 (of_nat (hd ns))"
    using check_ipage_good [OF m1] file_page [OF F(5), of 0] len by (simp add: hd_conv_nth)
  have st: "errck (check_status s) (\<lambda>_ s. errck (check_id e s) (\<lambda>_ s. errck (bank_zero e s) (\<lambda>_ s.
       ram_get e (blkno (fs_dir_table s + f)) s))) = (Inr ?d, ?s1)"
    using check_mounted(1) [OF g] check_mounted(2) [OF g(2)] D g(2) by (simp add: mounted_def)
  have nz: "nat (int (32 * p) div 32) = p" "nat (int (32 * n) div 32) = n" "int (32 * p) mod 32 = 0" "int (32 * n) mod 32 = 0"
    by simp_all
  have ds: "fs_dir_size s = 16" using g(2) by (simp add: mounted_def)
  have "osPfsReadWriteFile e (of_nat f) flag (of_nat (32 * p)) (of_nat (32 * n)) buffer s =
      (case rw_blocks e flag n 0 (p mod 8) c buffer s2 of (ret, buffer, s) \<Rightarrow>
         if ret \<noteq> 0 then (ret, buffer, s)
         else if flag = PFS_WRITE \<and> dir_status ?d AND DIR_STATUS_OCCUPIED = 0
         then (case errck (select_bank e 0 s) (\<lambda>_ s. ram_put e (blkno (fs_dir_table s + f))
                      (?d[8 := dir_status ?d OR DIR_STATUS_OCCUPIED]) 0 s) of
                 (Inl ret, s) \<Rightarrow> (ret, buffer, s) | (Inr _, s) \<Rightarrow> (0, buffer, s))
         else (0, buffer, s))"
    unfolding osPfsReadWriteFile_def Let_def si nz st
    using F(1-3) ds n(1) ci r s2(2) by (simp add: PFS_ONE_PAGE_def) blast
  note eq = this
  show ?thesis
    by (intro exI [where x = s2] exI [where x = c] conjI goes_trans [OF g1(1) s2(1)] s2(3))
      (unfold goes_fields(2) [OF s2(1)], rule eq)
qed

lemma be_fields:
  assumes "length d = 32"
  shows "dir_used (d[8 := x]) = dir_used d" "dir_start_page (d[8 := x]) = dir_start_page d" "dir_status (d[8 := x]) = x"
  using assms by (simp_all add: dir_used_def dir_company_code_def dir_game_code_def dir_start_page_def dir_status_def
      word_at_def half_at_def)

lemma occupied: "(x OR DIR_STATUS_OCCUPIED) AND DIR_STATUS_OCCUPIED \<noteq> 0"
proof -
  have "(x OR DIR_STATUS_OCCUPIED) AND DIR_STATUS_OCCUPIED = DIR_STATUS_OCCUPIED"
    by (rule bit_word_eqI) (auto simp: bit_simps)
  then show ?thesis by (simp add: DIR_STATUS_OCCUPIED_def)
qed

lemma fold_upd_other: "(\<And>j. j < n \<Longrightarrow> a \<noteq> f j) \<Longrightarrow> fold (\<lambda>j m. m(f j := g j)) [0..<n] m a = m a"
  by (induction n) auto

lemma fold_upd_at:
  "inj_on f {..<n} \<Longrightarrow> j < n \<Longrightarrow> fold (\<lambda>j m. m(f j := g j)) [0..<n] m (f j) = g j"
proof (induction n)
  case (Suc n)
  then show ?case by (cases "j = n") (auto simp: inj_on_def)
qed simp

lemma buf_blocks: "length buffer = 32 * n \<Longrightarrow> concat (map (buf_block buffer) [0..<n]) = buffer"
proof (induction n arbitrary: buffer)
  case (Suc n)
  have "buf_block buffer (Suc j) = buf_block (drop 32 buffer) j" for j by (simp add: buf_block_def add.commute)
  then have "map (buf_block buffer) [0..<Suc n] = take 32 buffer # map (buf_block (drop 32 buffer)) [0..<n]"
    by (simp add: upt_conv_Cons buf_block_def o_def flip: map_Suc_upt del: upt_Suc)
  then show ?case using Suc.IH [of "drop 32 buffer"] Suc.prems by simp
qed simp

text \<open>What a write of \<open>n\<close> blocks from the block \<open>p\<close> of a file on leaves on the pak.\<close>

definition written :: "nat list \<Rightarrow> nat \<Rightarrow> nat \<Rightarrow> u8 list \<Rightarrow> (u16 \<Rightarrow> u8 list) \<Rightarrow> u16 \<Rightarrow> u8 list" where
  "written ns p n buffer m = fold (\<lambda>j m. m(file_block ns (p + j) := buf_block buffer j)) [0..<n] m"

lemma written_at:
  assumes "file_in T ns" "p + n \<le> 8 * length ns"
  shows "j < n \<Longrightarrow> written ns p n buffer m (file_block ns (p + j)) = buf_block buffer j"
    "(\<And>j. j < n \<Longrightarrow> a \<noteq> file_block ns (p + j)) \<Longrightarrow> written ns p n buffer m a = m a"
    "unat a < 40 \<Longrightarrow> written ns p n buffer m a = m a"
proof -
  have "inj_on (\<lambda>j. file_block ns (p + j)) {..<n}"
  proof (rule inj_onI)
    fix x y assume "x \<in> {..<n}" "y \<in> {..<n}" "file_block ns (p + x) = file_block ns (p + y)"
    then have "p + x = p + y" using assms(2) by (intro file_block_inj [OF assms(1)]) auto
    then show "x = y" by simp
  qed
  then show "j < n \<Longrightarrow> written ns p n buffer m (file_block ns (p + j)) = buf_block buffer j"
    using fold_upd_at [of "\<lambda>j. file_block ns (p + j)" n j "buf_block buffer" m] unfolding written_def by blast
  show o: "(\<And>j. j < n \<Longrightarrow> a \<noteq> file_block ns (p + j)) \<Longrightarrow> written ns p n buffer m a = m a" for a
    unfolding written_def by (rule fold_upd_other)
  show "unat a < 40 \<Longrightarrow> written ns p n buffer m a = m a"
  proof (rule o)
    fix j assume "unat a < 40" "j < n"
    moreover from this have "40 \<le> unat (file_block ns (p + j))" using file_block_range [OF assms(1), of "p + j"] assms(2) by simp
    ultimately show "a \<noteq> file_block ns (p + j)" by auto
  qed
qed

lemma write_file_good:
  assumes g: "fs_good e I B s" "mounted B s" and f: "file_entry (fs_mem B s) T f ns"
    and n: "0 < n" "p + n \<le> 8 * length ns" "length data = 32 * n"
  shows "\<exists>s'. osPfsReadWriteFile e (of_nat f) PFS_WRITE (of_nat (32 * p)) (of_nat (32 * n)) data s = (0, data, s') \<and>
    fs_good e I B s' \<and> mounted B s' \<and>
    fs_mem B s' = (let m = written ns p n data (fs_mem B s); d = dir_at (fs_mem B s) f in
      if dir_status d AND DIR_STATUS_OCCUPIED = 0
      then m(CONT_BLOCK_DETECT := replicate 32 0, blkno (24 + f) := d[8 := dir_status d OR DIR_STATUS_OCCUPIED]) else m)"
proof -
  let ?d = "dir_at (fs_mem B s) f"
  have F: "f < 16" "tables_ok (fs_mem B s) T" "file_in T ns" using f by (simp_all add: file_entry_def)
  have nr: "PFS_WRITE = PFS_READ \<longrightarrow> dir_status ?d AND DIR_STATUS_OCCUPIED \<noteq> 0" by (simp add: PFS_WRITE_def PFS_READ_def)
  obtain s1 c where 1: "goes e I B s (fs_mem B s) s1" "cursor_at T ns c (p div 8)"
    "osPfsReadWriteFile e (of_nat f) PFS_WRITE (of_nat (32 * p)) (of_nat (32 * n)) data s =
      (case rw_blocks e PFS_WRITE n 0 (p mod 8) c data s1 of (ret, buffer, s) \<Rightarrow>
         if ret \<noteq> 0 then (ret, buffer, s)
         else if PFS_WRITE = PFS_WRITE \<and> dir_status (dir_at (fs_mem B s1) f) AND DIR_STATUS_OCCUPIED = 0
         then (case errck (select_bank e 0 s) (\<lambda>_ s. ram_put e (blkno (fs_dir_table s + f))
                      ((dir_at (fs_mem B s1) f)[8 := dir_status (dir_at (fs_mem B s1) f) OR DIR_STATUS_OCCUPIED]) 0 s) of
                 (Inl ret, s) \<Rightarrow> (ret, buffer, s) | (Inr _, s) \<Rightarrow> (0, buffer, s))
         else (0, buffer, s))"
    using rw_file_start [OF g f n(1,2) nr, of data] by blast
  note f1 = goes_fields(1,2) [OF 1(1)]
  have m1: "mounted B s1" using goes_mounted [OF 1(1) g(2)] by simp
  have k: "p mod 8 \<le> 8" "8 * (p div 8) + p mod 8 + n \<le> 8 * length ns" "32 * (0 + n) \<le> length data" using n by simp_all
  let ?m = "written ns p n data (fs_mem B s)"
  obtain s2 where 2: "goes e I B s1 ?m s2" "rw_blocks e PFS_WRITE n 0 (p mod 8) c data s1 = (0, data, s2)"
    using write_blocks_good [OF f1(1) m1 _ F(3) 1(2) k, of PFS_WRITE] F(2) f1(2)
    by (auto simp: PFS_WRITE_def PFS_READ_def written_def)
  note f2 = goes_fields [OF 2(1)]
  have low: "?m a = fs_mem B s a" if "unat a < 40" for a using written_at(3) [OF F(3) n(2) that] .
  have m2: "mounted B s2" using goes_mounted [OF 2(1) m1] low [of PFS_ID_0AREA] f1(2) by (simp add: PFS_ID_0AREA_def)
  show ?thesis
  proof (cases "dir_status ?d AND DIR_STATUS_OCCUPIED = 0")
    case False
    then show ?thesis using 1(3) 2(2) m2 f2(1,2) f1(2) by simp
  next
    case True
    let ?s = "s2\<lparr>fs_activebank := 0\<rparr>" and ?z = "replicate 32 (0 :: u8)" and ?d' = "?d[8 := dir_status ?d OR DIR_STATUS_OCCUPIED]"
    have b: "CONT_BLOCK_DETECT < 0x800" "PFS_LABEL_AREA \<le> CONT_BLOCK_DETECT" "length ?z = 32"
      by (simp_all add: CONT_BLOCK_DETECT_def PFS_LABEL_AREA_def)
    have gs: "fs_good e I B ?s" "mounted B ?s" "fs_mem B ?s = ?m" using f2(1,2) m2 by (simp_all add: mounted_def)
    let ?s3 = "wr_st e CONT_BLOCK_DETECT ?z ?s"
    have 3: "select_bank e 0 s2 = (Inr (), ?s3)" "fs_good e I B ?s3" "mounted B ?s3" "fs_mem B ?s3 = ?m(CONT_BLOCK_DETECT := ?z)"
      using ram_good(2) [OF gs(1) b(1,3), of 0] fs_write_good(2,3) [OF gs(1) b(3,1)] gs b
      by (simp_all add: select_bank_def osPfsSelectBank_def)
    have a: "blkno (24 + f) < 0x800" "PFS_LABEL_AREA \<le> blkno (24 + f)" "length ?d' = 32"
      using F(1) g(1) by (auto intro!: blkno_less blkno_free simp: dir_at_def)
    have "fs_dir_table ?s3 = 24" using m2 by (simp add: mounted_def)
    then have 4: "ram_put e (blkno (fs_dir_table ?s3 + f)) ?d' 0 ?s3 = (Inr (), wr_st e (blkno (24 + f)) ?d' ?s3)"
      "fs_good e I B (wr_st e (blkno (24 + f)) ?d' ?s3)"
      "fs_mem B (wr_st e (blkno (24 + f)) ?d' ?s3) = ?m(CONT_BLOCK_DETECT := ?z, blkno (24 + f) := ?d')"
      using ram_good(2) [OF 3(2) a(1,3), of 0] fs_write_good(2,3) [OF 3(2) a(3,1)] 3(4) a(2)
      by (simp_all del: fun_upd_apply)
    have "mounted B (wr_st e (blkno (24 + f)) ?d' ?s3)" using 3(2,3) a by simp
    with 4 show ?thesis using 1(3) 2(2) 3(1) True f1(2) by (simp add: Let_def del: fun_upd_apply)
  qed
qed

text \<open>Claim C39: what is written to a file is read back from it, in the blocks of the pages the table links; the write
  marks the file as occupied, and nothing else on the pak changes: not the identity, the tables, the other
  entries, the other files, nor the rest of the file.\<close>

theorem pfs_file_write_then_read:
  assumes "fs_good e I B s" "mounted B s" "file_entry (fs_mem B s) T f ns"
    "0 < n" "p + n \<le> 8 * length ns" "length data = 32 * n" "length buffer = 32 * n"
  shows "\<exists>s1 s2. osPfsReadWriteFile e (of_nat f) PFS_WRITE (of_nat (32 * p)) (of_nat (32 * n)) data s = (0, data, s1) \<and>
    osPfsReadWriteFile e (of_nat f) PFS_READ (of_nat (32 * p)) (of_nat (32 * n)) buffer s1 = (0, data, s2) \<and>
    mounted B s2 \<and> file_entry (fs_mem B s2) T f ns \<and>
    (\<forall>a. unat a < 0x400 \<and> a \<noteq> blkno (24 + f) \<and> (\<forall>j<n. a \<noteq> file_block ns (p + j)) \<longrightarrow> fs_mem B s2 a = fs_mem B s a)"
proof -
  let ?m = "fs_mem B s" and ?w = "written ns p n data (fs_mem B s)" and ?d = "dir_at (fs_mem B s) f"
  have F: "f < 16" "dir_used ?d" "dir_start_page ?d = of_nat (hd ns)" "tables_ok ?m T" "file_in T ns"
    using assms(3) by (simp_all add: file_entry_def)
  obtain s1 where 1: "osPfsReadWriteFile e (of_nat f) PFS_WRITE (of_nat (32 * p)) (of_nat (32 * n)) data s = (0, data, s1)"
    "fs_good e I B s1" "mounted B s1" and m: "fs_mem B s1 = (if dir_status ?d AND DIR_STATUS_OCCUPIED = 0
      then ?w(CONT_BLOCK_DETECT := replicate 32 0, blkno (24 + f) := ?d[8 := dir_status ?d OR DIR_STATUS_OCCUPIED]) else ?w)"
    using write_file_good [OF assms(1-6)] by (auto simp: Let_def)
  have low: "?w a = ?m a" if "unat a < 40" for a using written_at(3) [OF F(5) assms(5) that] .
  have c: "unat CONT_BLOCK_DETECT = 1024" "unat (blkno (24 + f)) = 24 + f" using F(1) by (simp_all add: CONT_BLOCK_DETECT_def)
  have len: "length ?d = 32" using assms(1) by (simp add: dir_at_def)
  have D: "dir_at (fs_mem B s1) f = (if dir_status ?d AND DIR_STATUS_OCCUPIED = 0 then ?d[8 := dir_status ?d OR DIR_STATUS_OCCUPIED] else ?d)"
    using low [of "blkno (24 + f)"] c F(1) by (simp add: dir_at_def m)
  have o: "PFS_READ = PFS_READ \<longrightarrow> dir_status (dir_at (fs_mem B s1) f) AND DIR_STATUS_OCCUPIED \<noteq> 0"
    using occupied be_fields(3) [OF len] by (simp add: D)
  have same: "fs_mem B s1 a = ?w a" if "unat a < 1024" "a \<noteq> blkno (24 + f)" for a
    using that c(1) unfolding m by (auto simp: fun_upd_def)
  have t: "blkno (8 + j) \<noteq> blkno (24 + f)" "blkno (16 + j) \<noteq> blkno (24 + f)" if "j < 8" for j using that F(1) by simp_all
  have T1: "tables_ok (fs_mem B s1) T"
    using F(4) same low t by (simp add: tables_ok_def)
  have E1: "file_entry (fs_mem B s1) T f ns" using F T1 be_fields [OF len] by (simp add: file_entry_def D)
  obtain s2 cu where 2: "goes e I B s1 (fs_mem B s1) s2" "cursor_at T ns cu (p div 8)"
    "osPfsReadWriteFile e (of_nat f) PFS_READ (of_nat (32 * p)) (of_nat (32 * n)) buffer s1 =
      (case rw_blocks e PFS_READ n 0 (p mod 8) cu buffer s2 of (ret, buffer, s) \<Rightarrow>
         if ret \<noteq> 0 then (ret, buffer, s)
         else if PFS_READ = PFS_WRITE \<and> dir_status (dir_at (fs_mem B s2) f) AND DIR_STATUS_OCCUPIED = 0
         then (case errck (select_bank e 0 s) (\<lambda>_ s. ram_put e (blkno (fs_dir_table s + f))
                      ((dir_at (fs_mem B s2) f)[8 := dir_status (dir_at (fs_mem B s2) f) OR DIR_STATUS_OCCUPIED]) 0 s) of
                 (Inl ret, s) \<Rightarrow> (ret, buffer, s) | (Inr _, s) \<Rightarrow> (0, buffer, s))
         else (0, buffer, s))"
    using rw_file_start [OF 1(2,3) E1 assms(4,5) o, of buffer] by blast
  note f2 = goes_fields(1,2) [OF 2(1)]
  have m2: "mounted B s2" using goes_mounted [OF 2(1) 1(3)] by simp
  have k: "p mod 8 \<le> 8" "8 * (p div 8) + p mod 8 + n \<le> 8 * length ns" "32 * (0 + n) \<le> length buffer" using assms by simp_all
  have t2: "tables_ok (fs_mem B s2) T" using T1 f2(2) by simp
  obtain s3 where 3: "goes e I B s2 (fs_mem B s2) s3" "rw_blocks e PFS_READ n 0 (p mod 8) cu buffer s2 =
      (0, concat (map (\<lambda>j. fs_mem B s2 (file_block ns (8 * (p div 8) + p mod 8 + j))) [0..<n]), s3)"
    using read_blocks_good [OF f2(1) m2 t2 F(5) 2(2) k] assms(7) by auto
  have "fs_mem B s2 (file_block ns (p + j)) = buf_block data j" if "j < n" for j
  proof -
    have r: "40 \<le> unat (file_block ns (p + j))" "unat (file_block ns (p + j)) < 1024"
      using file_block_range [OF F(5), of "p + j"] that assms(5) by simp_all
    then have "file_block ns (p + j) \<noteq> blkno (24 + f)" using c(2) F(1) by auto
    then show ?thesis using same [of "file_block ns (p + j)"] r written_at(1) [OF F(5) assms(5) that] f2(2) by simp
  qed
  then have "concat (map (\<lambda>j. fs_mem B s2 (file_block ns (p + j))) [0..<n]) = data"
    using buf_blocks [OF assms(6)] by (metis (mono_tags, lifting) atLeastLessThan_iff map_eq_conv set_upt)
  then have "rw_blocks e PFS_READ n 0 (p mod 8) cu buffer s2 = (0, data, s3)"
    using 3(2) by simp
  then have R: "osPfsReadWriteFile e (of_nat f) PFS_READ (of_nat (32 * p)) (of_nat (32 * n)) buffer s1 = (0, data, s3)"
    using 2(3) by (simp add: PFS_READ_def PFS_WRITE_def)
  have M: "fs_mem B s3 = fs_mem B s1" using goes_fields(2) [OF 3(1)] f2(2) by simp
  have "mounted B s3" using goes_mounted [OF 3(1) m2] by simp
  moreover have "fs_mem B s3 a = ?m a" if "unat a < 0x400" "a \<noteq> blkno (24 + f)" "\<forall>j<n. a \<noteq> file_block ns (p + j)" for a
    using same [of a] that written_at(2) [OF F(5) assms(5), of a] M by simp
  ultimately show ?thesis using 1(1) R E1 M by (intro exI [where x = s1] exI [where x = s3]) simp
qed

subsection \<open>A concrete pak\<close>

lemma pak_sim_reliable: "pak_reliable pak_sim_si fst pak_sim_blocks 0"
  unfolding pak_reliable_def by (rule pak_sim_documented)

text \<open>A pak with a file of one page, page 5, and its mounted state; \<open>s_damaged\<close> has a wrong link in its first table.\<close>

definition s_env :: "pak_sim pfs_env" where
  "s_env = \<lparr>pe_si = pak_sim_si, pe_gap = 0, pe_sdata = some_status, pe_count = 0, pe_stack = replicate 32 0\<rparr>"

definition s_table :: "u16 list" where "s_table = [111, 0, 0, 0, 0, 1] @ replicate 122 3"

definition s_dir :: "u8 list" where
  "s_dir = [0, 0, 0, 9, 0, 7, 0, 5, 0, 0, 0, 0] @ replicate 20 1"

definition s_blocks :: "u16 list \<Rightarrow> u16 \<Rightarrow> u8 list" where
  "s_blocks T = with_table 16 s_table (with_table 8 T ((\<lambda>_. replicate 32 0)(blkno 24 := s_dir)))"

definition s_fs :: "u16 list \<Rightarrow> pak_sim fsys" where
  "s_fs T = \<lparr>fs_status = PFS_INITIALIZED, fs_channel = 0, fs_id = replicate 32 0, fs_label = replicate 32 7, fs_version = 0,
     fs_dir_size = 16, fs_inode_table = 8, fs_minode_table = 16, fs_dir_table = 24, fs_inode_start_page = 5, fs_banks = 1,
     fs_activebank = 0, fs_pif = zeros64, fs_dev = (zeros64, s_blocks T)\<rparr>"

definition s_damaged :: "u16 list" where "s_damaged = s_table[6 := 4]"

lemma s_lengths [simp]: "length s_table = 128" "length s_damaged = 128" "length s_dir = 32"
  by (simp_all add: s_table_def s_damaged_def s_dir_def)

lemma s_sums [simp]: "inode_sum 5 s_table = 111" "inode_sum 5 s_damaged = 112" "pg_page (s_table ! 0) = 111" "pg_page (s_damaged ! 0) = 111"
  by code_simp+

lemma s_good [simp]: "fs_good s_env fst pak_sim_blocks (s_fs T)"
  by (simp add: fs_good_def s_env_def s_fs_def pak_sim_reliable zeros64_def)

lemma s_mem: "length T = 128 \<Longrightarrow> fs_mem pak_sim_blocks (s_fs T) = s_blocks T"
proof
  fix a assume "length T = 128"
  then have "length (s_blocks T a) = 32" by (auto simp: s_blocks_def with_table_def intro!: length_inode_block)
  then show "fs_mem pak_sim_blocks (s_fs T) a = s_blocks T a" by (simp add: fs_mem_def s_fs_def pak_sim_blocks_def)
qed

lemma s_block_simps:
  "s_blocks T PFS_ID_0AREA = replicate 32 0" "dir_at (s_blocks T) 0 = s_dir" "0 < j \<Longrightarrow> j < 16 \<Longrightarrow> dir_at (s_blocks T) j = replicate 32 0"
  "j < 8 \<Longrightarrow> s_blocks T (blkno (8 + j)) = inode_block j T" "j < 8 \<Longrightarrow> s_blocks T (blkno (16 + j)) = inode_block j s_table"
proof -
  have e: "PFS_ID_0AREA = blkno 1" by (simp add: PFS_ID_0AREA_def blkno_def)
  show "s_blocks T PFS_ID_0AREA = replicate 32 0" unfolding e by (simp add: s_blocks_def with_table_def)
qed (simp_all add: s_blocks_def with_table_def dir_at_def)

lemma s_mounted [simp]: "length T = 128 \<Longrightarrow> mounted pak_sim_blocks (s_fs T)"
  by (simp add: mounted_def s_mem s_block_simps) (simp add: s_fs_def PFS_INITIALIZED_def)

lemma s_file: "file_entry (s_blocks s_table) s_table 0 [5]"
proof -
  have "dir_used s_dir" "dir_start_page s_dir = of_nat (hd [5])" by code_simp+
  moreover have "file_in s_table [5]" by (simp add: file_in_def s_table_def PFS_EOF_def)
  ultimately show ?thesis by (simp add: file_entry_def tables_ok_def s_block_simps)
qed

lemma osPfsSetLabel_keeps_old_tail_witness:
  "\<exists>s1. osPfsSetLabel s_env (Some [65, 66, 0]) (s_fs s_table) = (Inr (), s1) \<and>
     fs_mem pak_sim_blocks s1 PFS_LABEL_AREA = [65, 66] @ replicate 30 7"
  using osPfsSetLabel_keeps_old_tail [OF s_good s_mounted [of s_table], of "[65, 66]"]
  by (auto simp: s_fs_def)

lemma osPfsFindFile_finds_first_witness:
  "\<exists>s'. osPfsFindFile s_env 7 9 None None 33 (s_fs s_table) = (0, 0, s')"
proof -
  have m: "dir_matches 7 9 None None s_dir" by code_simp
  then have "(LEAST j. dir_matches 7 9 None None (dir_at (s_blocks s_table) j)) = 0"
    by (intro Least_eq_0) (simp add: s_block_simps)
  moreover have "\<exists>j<16. dir_matches 7 9 None None (dir_at (s_blocks s_table) j)" using m by (intro exI [where x = 0]) (simp add: s_block_simps)
  ultimately show ?thesis
    using osPfsFindFile_finds_first [OF s_good s_mounted [of s_table], of 7 9 None None 33] by (auto simp: s_mem)
qed

lemma osPfsRWInode_ignores_good_mirror_witness:
  "\<exists>s'. osPfsRWInode s_env (replicate 128 0) PFS_READ 0 (s_fs s_damaged) = (PFS_ERR_INCONSISTENT, s_table, s')"
proof -
  have t: "table_at (fs_mem pak_sim_blocks (s_fs s_damaged)) 8 = s_damaged" "table_at (fs_mem pak_sim_blocks (s_fs s_damaged)) 16 = s_table"
    by (rule table_at_blocks; simp add: s_mem s_block_simps)+
  show ?thesis
    using osPfsRWInode_ignores_good_mirror [OF s_good s_mounted [of s_damaged], of "replicate 128 0" s_table] by (auto simp: t)
qed

lemma pfs_file_write_then_read_witness:
  "\<exists>s1 s2. osPfsReadWriteFile s_env 0 PFS_WRITE 32 64 (replicate 64 9) (s_fs s_table) = (0, replicate 64 9, s1) \<and>
     osPfsReadWriteFile s_env 0 PFS_READ 32 64 (replicate 64 0) s1 = (0, replicate 64 9, s2)"
  using pfs_file_write_then_read [OF s_good s_mounted [of s_table], of s_table 0 "[5]" 2 1 "replicate 64 9" "replicate 64 0"] s_file
  by (auto simp: s_mem)

end
