(* ===== verification/PfsNew.thy ===== *)
theory PfsNew
  imports PfsFiles
begin

section \<open>New files on the controller pak\<close>

text \<open>
  Clearing pages, writing the page table and making a file on a mounted pak whose blocks are read and written
  without an error.
\<close>

subsection \<open>New files on a mounted pak\<close>

lemma pg_mk_page [simp]: "pg_page (mk_page b p) = p" "pg_bank (mk_page b p) = b"
proof -
  have "\<not> bit p (8 + n)" for n using bit_imp_le_length [of p "8 + n"] by auto
  then show "pg_bank (mk_page b p) = b"
    by (intro bit_word_eqI) (auto simp: pg_bank_def mk_page_def bit_simps)
qed (rule bit_word_eqI; auto simp: pg_page_def mk_page_def bit_simps)

lemma mk_page_0 [simp]: "q < 256 \<Longrightarrow> mk_page 0 (of_nat q) = of_nat q"
  by (simp add: mk_page_def word_unat_eq_iff unsigned_ucast_eq unsigned_of_nat take_bit_nat_eq_self)

lemma inode_sum_0 [simp]: "inode_sum 5 (T[0 := x]) = inode_sum 5 T"
  by (simp add: inode_sum_def)

lemma fold_tables:
  "n \<le> 8 \<Longrightarrow> fold (\<lambda>j m. m(blkno (8 + j) := f j, blkno (16 + j) := f j)) [0..<n] m =
    (\<lambda>a. if 16 \<le> unat a \<and> unat a < 16 + n then f (unat a - 16)
         else if 8 \<le> unat a \<and> unat a < 8 + n then f (unat a - 8) else m a)"
proof (induction n)
  case (Suc n)
  have "unat (blkno (8 + n)) = 8 + n" "unat (blkno (16 + n)) = 16 + n" using Suc.prems by simp_all
  then have "a = blkno (8 + n) \<longleftrightarrow> unat a = 8 + n" "a = blkno (16 + n) \<longleftrightarrow> unat a = 16 + n" for a by (metis blkno_unat)+
  then show ?case using Suc by (auto simp: fun_eq_iff less_Suc_eq)
qed (auto simp: fun_eq_iff)

lemma write_tables_good:
  assumes "fs_good e I B s" "fs_inode_table s = 8" "fs_minode_table s = 16" "\<forall>j\<in>set js. j < 8" "length T = 128"
  shows "\<exists>s'. goes e I B s (fold (\<lambda>j m. m(blkno (8 + j) := inode_block j T, blkno (16 + j) := inode_block j T)) js (fs_mem B s)) s' \<and>
    write_tables e T 0 js s = (0, s')"
  using assms
proof (induction js arbitrary: s)
  case (Cons j js)
  let ?b = "inode_block j T"
  have a: "blkno (8 + j) < 0x800" "PFS_LABEL_AREA \<le> blkno (8 + j)" "blkno (16 + j) < 0x800" "PFS_LABEL_AREA \<le> blkno (16 + j)"
    "length ?b = 32" using Cons.prems by (auto intro!: blkno_less blkno_free)
  let ?s1 = "wr_st e (blkno (8 + j)) ?b s"
  have 1: "fs_write e (blkno (8 + j)) ?b 0 s = (0, ?s1)" "goes e I B s ((fs_mem B s)(blkno (8 + j) := ?b)) ?s1"
    "fs_good e I B ?s1" "fs_mem B ?s1 = (fs_mem B s)(blkno (8 + j) := ?b)"
    using fs_write_good(1) [OF Cons.prems(1) a(5,1), of 0] fs_write_good(2,3) [OF Cons.prems(1) a(5,1)]
      goes_write [OF Cons.prems(1) a(1,5)] a(2) by simp_all
  let ?s2 = "wr_st e (blkno (16 + j)) ?b ?s1" and ?m = "(fs_mem B s)(blkno (8 + j) := ?b, blkno (16 + j) := ?b)"
  have 2: "fs_write e (blkno (16 + j)) ?b 0 ?s1 = (0, ?s2)" "goes e I B ?s1 ?m ?s2" "fs_good e I B ?s2" "fs_mem B ?s2 = ?m"
    using fs_write_good(1) [OF 1(3) a(5,3), of 0] fs_write_good(2,3) [OF 1(3) a(5,3)]
      goes_write [OF 1(3) a(3,5)] a(4) 1(4) by (simp_all del: fun_upd_apply)
  have "fs_inode_table ?s2 = 8" "fs_minode_table ?s2 = 16" "\<forall>j\<in>set js. j < 8" using Cons.prems(2-4) by simp_all
  from Cons.IH [OF 2(3) this Cons.prems(5)] obtain s' where
    s': "goes e I B ?s2 (fold (\<lambda>j m. m(blkno (8 + j) := inode_block j T, blkno (16 + j) := inode_block j T)) js ?m) s'"
    "write_tables e T 0 js ?s2 = (0, s')"
    unfolding 2(4) by blast
  have "write_tables e T 0 (j # js) s = (0, s')"
    using 1(1) 2(1) s'(2) Cons.prems(2,3) by (simp add: table_block_0)
  moreover have "goes e I B s (fold (\<lambda>j m. m(blkno (8 + j) := inode_block j T, blkno (16 + j) := inode_block j T)) (j # js) (fs_mem B s)) s'"
    using goes_trans [OF goes_trans [OF 1(2) 2(2)] s'(1)] by (simp only: fold.simps o_apply)
  ultimately show ?case by blast
qed (use goes_refl in auto)

definition with_tables :: "u16 list \<Rightarrow> (u16 \<Rightarrow> u8 list) \<Rightarrow> u16 \<Rightarrow> u8 list" where
  "with_tables T m = with_table 16 T (with_table 8 T m)"

lemma with_tables_other: "unat a < 8 \<or> 24 \<le> unat a \<Longrightarrow> with_tables T m a = m a"
  by (auto simp: with_tables_def with_table_def)

lemma with_tables_ok: "length T = 128 \<Longrightarrow> inode_sum 5 T = pg_page (T ! 0) \<Longrightarrow> tables_ok (with_tables T m) T"
  by (simp add: tables_ok_def with_tables_def with_table_def)

definition stamped :: "u16 list \<Rightarrow> u16 list" where
  "stamped T = T[0 := mk_page (pg_bank (T ! 0)) (inode_sum 5 T)]"

lemma stamped: "length T = 128 \<Longrightarrow> length (stamped T) = 128 \<and> inode_sum 5 (stamped T) = pg_page (stamped T ! 0)"
  by (simp add: stamped_def)

lemma put_inode_good:
  assumes g: "fs_good e I B s" and m: "mounted B s" and l: "length T = 128"
  shows "\<exists>s'. goes e I B s (with_tables (stamped T) (fs_mem B s)) s' \<and> put_inode e T 0 s = (Inr (stamped T), s')"
proof -
  have f: "fs_inode_table s = 8" "fs_minode_table s = 16" "fs_activebank s = 0" "fs_inode_start_page s = 5"
    using m by (simp_all add: mounted_def)
  obtain s' where s': "goes e I B s (fold (\<lambda>j m. m(blkno (8 + j) := inode_block j (stamped T), blkno (16 + j) := inode_block j (stamped T))) [0..<8] (fs_mem B s)) s'"
    "write_tables e (stamped T) 0 [0..<8] s = (0, s')"
    using write_tables_good [OF g f(1,2), of "[0..<8]" "stamped T"] stamped [OF l] by auto
  have "fold (\<lambda>j m. m(blkno (8 + j) := inode_block j (stamped T), blkno (16 + j) := inode_block j (stamped T))) [0..<8] (fs_mem B s) =
      with_tables (stamped T) (fs_mem B s)"
    using fold_tables [of 8 "\<lambda>j. inode_block j (stamped T)" "fs_mem B s"] by (simp add: with_tables_def with_table_def fun_eq_iff)
  moreover have "put_inode e T 0 s = (Inr (stamped T), s')"
    using s'(2) f by (simp add: put_inode_def osPfsRWInode_def write_inode_def stamped_def page_offset_def PFS_ONE_PAGE_def)
  ultimately show ?thesis using s'(1) by auto
qed

text \<open>The pages of \<open>ps\<close> are cleared; clearing also leaves its mark where the bank is switched.\<close>

definition cleared :: "nat list \<Rightarrow> (u16 \<Rightarrow> u8 list) \<Rightarrow> u16 \<Rightarrow> u8 list" where
  "cleared ps m = (\<lambda>a. if ps \<noteq> [] \<and> (a = CONT_BLOCK_DETECT \<or> unat a div 8 \<in> set ps) then replicate 32 0 else m a)"

lemma cleared_simps: "cleared [] m = m" "cleared [q] (cleared ps m) = cleared (ps @ [q]) m" "cleared ps (cleared [q] m) = cleared (q # ps) m"
  by (auto simp: cleared_def fun_eq_iff)

lemma clear_blocks_good:
  assumes "fs_good e I B s" "\<forall>b\<in>set bs. 40 \<le> b \<and> b < 1024"
  shows "goes e I B s (\<lambda>a. if unat a \<in> set bs then replicate 32 0 else fs_mem B s a) (clear_blocks e bs s)"
  using assms
proof (induction bs arbitrary: s)
  case (Cons b bs)
  have a: "blkno b < 0x800" "PFS_LABEL_AREA \<le> blkno b" "length (replicate 32 (0 :: u8)) = 32" "unat (blkno b) = b"
    using Cons.prems by (auto intro!: blkno_less blkno_free)
  let ?s = "wr_st e (blkno b) (replicate 32 0) s"
  have 1: "ram_put e (blkno b) (replicate 32 0) 0 s = (Inr (), ?s)" "goes e I B s ((fs_mem B s)(blkno b := replicate 32 0)) ?s"
    "fs_good e I B ?s" "fs_mem B ?s = (fs_mem B s)(blkno b := replicate 32 0)"
    using ram_good(2) [OF Cons.prems(1) a(1,3), of 0] fs_write_good(2,3) [OF Cons.prems(1) a(3,1)] goes_write [OF Cons.prems(1) a(1,3)] a(2)
    by simp_all
  have "(\<lambda>a. if unat a \<in> set bs then replicate 32 0 else fs_mem B ?s a) =
      (\<lambda>a. if unat a \<in> set (b # bs) then replicate 32 0 else fs_mem B s a)"
    unfolding 1(4) using a(4) by (auto simp: fun_eq_iff)
  then have "goes e I B ?s (\<lambda>a. if unat a \<in> set (b # bs) then replicate 32 0 else fs_mem B s a) (clear_blocks e bs ?s)"
    using Cons.IH [OF 1(3)] Cons.prems(2) by simp
  then show ?case using goes_trans [OF 1(2)] 1(1) by simp
qed (use goes_refl in simp)

lemma same_bank: "fs_activebank s = 0 \<Longrightarrow> s\<lparr>fs_activebank := 0\<rparr> = s"
  by (cases s) simp

lemma select_bank_good:
  assumes "fs_good e I B s" "fs_activebank s = 0"
  shows "\<exists>s'. goes e I B s ((fs_mem B s)(CONT_BLOCK_DETECT := replicate 32 0)) s' \<and> select_bank e 0 s = (Inr (), s')"
proof -
  have b: "CONT_BLOCK_DETECT < 0x800" "PFS_LABEL_AREA \<le> CONT_BLOCK_DETECT" "length (replicate 32 (0 :: u8)) = 32"
    by (simp_all add: CONT_BLOCK_DETECT_def PFS_LABEL_AREA_def)
  have "select_bank e 0 s = ram_put e CONT_BLOCK_DETECT (replicate 32 0) 0 s"
    unfolding select_bank_def osPfsSelectBank_def by (simp add: same_bank [OF assms(2)] assms(2))
  then show ?thesis using ram_good(2) [OF assms(1) b(1,3), of 0] goes_write [OF assms(1) b(1,3)] b(2) by auto
qed

lemma osClearPage_good:
  assumes "fs_good e I B s" "fs_activebank s = 0" "5 \<le> q" "q < 128"
  shows "\<exists>s'. goes e I B s (cleared [q] (fs_mem B s)) s' \<and> osClearPage e q 0 s = (Inr (), s')"
proof -
  let ?bs = "map (\<lambda>i. q * PFS_ONE_PAGE + i) [0..<PFS_ONE_PAGE]"
  obtain s1 where 1: "goes e I B s ((fs_mem B s)(CONT_BLOCK_DETECT := replicate 32 0)) s1" "select_bank e 0 s = (Inr (), s1)"
    using select_bank_good [OF assms(1,2)] by blast
  have "\<forall>b\<in>set ?bs. 40 \<le> b \<and> b < 1024" using assms(3,4) by (auto simp: PFS_ONE_PAGE_def)
  note 2 = clear_blocks_good [OF goes_fields(1) [OF 1(1)] this]
  let ?s2 = "clear_blocks e ?bs s1"
  have g2: "fs_good e I B ?s2" "fs_activebank ?s2 = 0" using goes_fields [OF 2] goes_fields [OF 1(1)] assms(2) by simp_all
  obtain s3 where 3: "goes e I B ?s2 ((fs_mem B ?s2)(CONT_BLOCK_DETECT := replicate 32 0)) s3" "select_bank e 0 ?s2 = (Inr (), s3)"
    using select_bank_good [OF g2] by blast
  have "unat a \<in> set ?bs \<longleftrightarrow> unat a div 8 = q" for a :: u16
  proof
    assume "unat a div 8 = q"
    then have "unat a = q * 8 + unat a mod 8" "unat a mod 8 < 8" by auto
    then show "unat a \<in> set ?bs" by (auto simp: PFS_ONE_PAGE_def)
  qed (auto simp: PFS_ONE_PAGE_def)
  then have "(fs_mem B ?s2)(CONT_BLOCK_DETECT := replicate 32 0) = cleared [q] (fs_mem B s)"
    using goes_fields(2) [OF 2] goes_fields(2) [OF 1(1)] by (auto simp: cleared_def fun_eq_iff)
  then show ?thesis using goes_trans [OF goes_trans [OF 1(1) 2] 3(1)] 1(2) 3(2) by (auto simp: osClearPage_def)
qed

text \<open>The free pages of a table, and the table with the pages \<open>qs\<close> linked behind the page \<open>p\<close>.\<close>

definition free_list :: "u16 list \<Rightarrow> nat list" where
  "free_list T = filter (\<lambda>j. T ! j = PFS_PAGE_NOT_USED) [5..<128]"

primrec link_pages :: "u16 list \<Rightarrow> nat \<Rightarrow> nat list \<Rightarrow> u16 list" where
  "link_pages T p [] = T"
| "link_pages T p (q # qs) = link_pages (T[p := mk_page 0 (of_nat q)]) q qs"

lemma length_link_pages [simp]: "length (link_pages T p qs) = length T"
  by (induction qs arbitrary: T p) simp_all

lemma free_list_set: "set (free_list T) = {j. 5 \<le> j \<and> j < 128 \<and> T ! j = PFS_PAGE_NOT_USED}" "distinct (free_list T)"
  by (auto simp: free_list_def simp del: upt_rec_numeral)

lemma filter_upt_first:
  "filter P [a..<b] = x # xs \<Longrightarrow> a \<le> x \<and> x < b \<and> P x \<and> xs = filter P [x + 1..<b]"
proof (induction "b - a" arbitrary: a)
  case (Suc n)
  then have n: "a < b" "n = b - Suc a" by simp_all
  have e: "filter P [a..<b] = (if P a then a # filter P [Suc a..<b] else filter P [Suc a..<b])"
    using n(1) by (simp add: upt_conv_Cons)
  show ?case
  proof (cases "P a")
    case True
    then show ?thesis using Suc.prems n(1) unfolding e by auto
  next
    case False
    then have "filter P [Suc a..<b] = x # xs" using Suc.prems unfolding e by simp
    from Suc.hyps(1) [OF n(2) this] show ?thesis by auto
  qed
qed auto

lemma declear_scan_good:
  assumes "fs_good e I B s" "fs_activebank s = 0" "5 \<le> old" "old < 128" "\<forall>j\<in>set js. 5 \<le> j \<and> j < 128"
    "old \<notin> set js" "distinct js" "d \<le> n"
  shows "\<exists>s'. goes e I B s (cleared (butlast (old # take (nat (n - d)) (filter (\<lambda>j. T ! j = PFS_PAGE_NOT_USED) js))) (fs_mem B s)) s' \<and>
    declear_scan e 0 n js old d T s =
      (let fr = take (nat (n - d)) (filter (\<lambda>j. T ! j = PFS_PAGE_NOT_USED) js)
       in (Inr (link_pages T old fr, last (old # fr), d + int (length fr)), s'))"
  using assms
proof (induction js arbitrary: s old d T)
  case Nil
  then show ?case using goes_refl [OF Nil(1)] by (auto simp: cleared_simps)
next
  case (Cons j js)
  show ?case
  proof (cases "d < n \<and> T ! j = PFS_PAGE_NOT_USED")
    case True
    let ?T = "T[old := mk_page 0 (of_nat j)]"
    obtain s1 where 1: "goes e I B s (cleared [old] (fs_mem B s)) s1" "osClearPage e old 0 s = (Inr (), s1)"
      using osClearPage_good [OF Cons.prems(1-4)] by blast
    have f: "filter (\<lambda>j. ?T ! j = PFS_PAGE_NOT_USED) js = filter (\<lambda>j. T ! j = PFS_PAGE_NOT_USED) js"
      using Cons.prems(6) by (intro filter_cong refl) (metis list.set_intros(2) nth_list_update_neq)
    have "d < n" using True by simp
    then have n: "nat (n - d) = Suc (nat (n - (d + 1)))" by arith
    have "fs_activebank s1 = 0" "5 \<le> j" "j < 128" "\<forall>j\<in>set js. 5 \<le> j \<and> j < 128" "j \<notin> set js" "distinct js" "d + 1 \<le> n"
      using Cons.prems goes_fields(13) [OF 1(1)] True by auto
    from Cons.IH [OF goes_fields(1) [OF 1(1)] this, of ?T] obtain s' where
      s': "goes e I B s1 (cleared (butlast (j # take (nat (n - (d + 1))) (filter (\<lambda>j. T ! j = PFS_PAGE_NOT_USED) js))) (fs_mem B s1)) s'"
      "declear_scan e 0 n js j (d + 1) ?T s1 =
      (let fr = take (nat (n - (d + 1))) (filter (\<lambda>j. T ! j = PFS_PAGE_NOT_USED) js)
       in (Inr (link_pages ?T j fr, last (j # fr), d + 1 + int (length fr)), s'))"
      unfolding f by blast
    show ?thesis
      using goes_trans [OF 1(1) s'(1)] goes_fields(2) [OF 1(1)] 1(2) s'(2) True
      by (intro exI [where x = s']) (simp add: n cleared_simps Let_def)
  next
    case False
    then show ?thesis
      using Cons.IH [of s old d T] Cons.prems by (cases "d < n") (auto simp: goes_refl cleared_simps)
  qed
qed

text \<open>The first \<open>n\<close> free pages become a file.\<close>

definition filed :: "u16 list \<Rightarrow> nat list \<Rightarrow> u16 list" where
  "filed T ps = (link_pages T (hd ps) (tl ps))[last ps := PFS_EOF]"

lemma osPfsDeclearPage_good:
  assumes g: "fs_good e I B s" and m: "mounted B s" and n: "0 < n" "n \<le> length (free_list T)" and ps: "ps = take n (free_list T)"
  shows "\<exists>s'. goes e I B s (cleared ps (fs_mem B s)) s' \<and>
    osPfsDeclearPage e T (int n) 0 d l s = (Inr (filed T ps, Some (hd ps), int n, 0), s')"
proof -
  have f: "page_offset s 0 = 5" "fs_activebank s = 0" using m by (simp_all add: page_offset_def mounted_def)
  obtain p qs where F: "free_list T = p # qs" using n by (cases "free_list T") auto
  then have p: "5 \<le> p" "p < 128" "qs = filter (\<lambda>j. T ! j = PFS_PAGE_NOT_USED) [p + 1..<128]"
    using filter_upt_first [of "\<lambda>j. T ! j = PFS_PAGE_NOT_USED" 5 128 p qs] by (simp_all add: free_list_def del: upt_rec_numeral)
  have ps': "ps = p # take (n - 1) qs" using ps n(1) F by (cases n) simp_all
  have len: "length ps = n" using ps n(2) by simp
  have "\<forall>j\<in>set [p + 1..<128]. 5 \<le> j \<and> j < 128" "p \<notin> set [p + 1..<128]" "distinct [p + 1..<128]" "1 \<le> int n" "nat (int n - 1) = n - 1"
    using p(1) n(1) by auto
  from declear_scan_good [OF g f(2) p(1,2) this(1-4), of T, unfolded this(5)] obtain s1 where
    1: "goes e I B s (cleared (butlast ps) (fs_mem B s)) s1"
    "declear_scan e 0 (int n) [p + 1..<128] p 1 T s = (Inr (link_pages T p (tl ps), last ps, int n), s1)"
    unfolding p(3) [symmetric] Let_def ps' [symmetric] using len ps' by auto
  have "last ps \<in> set ps" using ps' by simp
  moreover have "set ps \<subseteq> set (free_list T)" unfolding ps by (rule set_take_subset)
  ultimately have "5 \<le> last ps" "last ps < 128" by (auto simp: free_list_set)
  from osClearPage_good [OF goes_fields(1) [OF 1(1)] _ this] obtain s2 where
    2: "goes e I B s1 (cleared [last ps] (fs_mem B s1)) s2" "osClearPage e (last ps) 0 s1 = (Inr (), s2)"
    using goes_fields(13) [OF 1(1)] f(2) by auto
  have "ps \<noteq> []" using ps' by simp
  then have "goes e I B s (cleared ps (fs_mem B s)) s2"
    using goes_trans [OF 1(1) 2(1)] goes_fields(2) [OF 1(1)] by (simp add: cleared_simps)
  moreover have "osPfsDeclearPage e T (int n) 0 d l s = (Inr (filed T ps, Some (hd ps), int n, 0), s2)"
    using 1(2) 2(2) F ps' by (simp add: osPfsDeclearPage_def f(1) free_list_def filed_def del: upt_Suc upt_rec_numeral)
  ultimately show ?thesis by blast
qed

lemma link_pages_other: "j \<notin> set (butlast (p # qs)) \<Longrightarrow> link_pages T p qs ! j = T ! j"
proof (induction qs arbitrary: T p)
  case (Cons q qs)
  then show ?case by (cases qs) auto
qed simp

lemma link_pages_nth:
  "distinct (p # qs) \<Longrightarrow> \<forall>j\<in>set (p # qs). j < length T \<Longrightarrow> i < length qs \<Longrightarrow>
   link_pages T p qs ! ((p # qs) ! i) = mk_page 0 (of_nat (qs ! i))"
proof (induction qs arbitrary: T p i)
  case (Cons q qs)
  show ?case
  proof (cases i)
    case 0
    have "p \<notin> set (butlast (q # qs))" using Cons.prems(1) in_set_butlastD by fastforce
    then show ?thesis using 0 Cons.prems(2) by (simp add: link_pages_other)
  next
    case (Suc k)
    then show ?thesis using Cons.IH [of q "T[p := mk_page 0 (of_nat q)]" k] Cons.prems by simp
  qed
qed simp

lemma filed_other: "j \<notin> set ps \<Longrightarrow> ps \<noteq> [] \<Longrightarrow> filed T ps ! j = T ! j"
  unfolding filed_def using link_pages_other [of j "hd ps" "tl ps" T] in_set_butlastD [of j ps]
  by (metis last_in_set list.collapse nth_list_update_neq)

text \<open>The table with the file \<open>ps\<close>, as it is written: entry 0 is used for a link before it gets the sum.\<close>

definition table_with_file :: "u16 list \<Rightarrow> nat list \<Rightarrow> u16 list" where
  "table_with_file T ps = stamped ((filed T ps)[0 := mk_page 0 (of_nat (hd ps))])"

lemma table_with_file_other:
  "j \<notin> set ps \<Longrightarrow> ps \<noteq> [] \<Longrightarrow> j \<noteq> 0 \<Longrightarrow> table_with_file T ps ! j = T ! j"
  by (simp add: table_with_file_def stamped_def filed_other)

lemma file_in_new:
  assumes "length T = 128" "ps \<noteq> []" "distinct ps" "\<forall>n\<in>set ps. 5 \<le> n \<and> n < 128"
  shows "file_in (table_with_file T ps) ps"
proof -
  obtain p qs where ps: "ps = p # qs" using assms(2) by (cases ps) auto
  have s: "table_with_file T ps ! j = filed T ps ! j" if "j \<noteq> 0" for j
    using that by (simp add: table_with_file_def stamped_def)
  have "table_with_file T ps ! (ps ! i) = of_nat (ps ! (i + 1))" if i: "i + 1 < length ps" for i
  proof -
    have q: "ps ! (i + 1) < 128" "5 \<le> ps ! i" using assms(4) i by (auto simp: nth_mem)
    have "ps ! i \<noteq> last ps" using i assms(2,3) nth_eq_iff_index_eq [OF assms(3), of i "length ps - 1"] by (auto simp: last_conv_nth)
    then have "filed T ps ! (ps ! i) = link_pages T p qs ! ((p # qs) ! i)" by (simp add: filed_def ps)
    also have "\<dots> = mk_page 0 (of_nat (qs ! i))"
      using assms i by (intro link_pages_nth) (auto simp: ps)
    finally show ?thesis using q s [of "ps ! i"] by (simp add: ps)
  qed
  moreover have "table_with_file T ps ! last ps = PFS_EOF"
  proof -
    have "5 \<le> last ps" "last ps < 128" using assms(2,4) by auto
    then show ?thesis using s [of "last ps"] assms(1) by (simp add: filed_def)
  qed
  ultimately show ?thesis using assms(2-4) by (simp add: file_in_def)
qed

lemma file_in_kept:
  assumes "file_in T ns" "\<forall>n\<in>set ps. T ! n = PFS_PAGE_NOT_USED" "ps \<noteq> []"
  shows "set ns \<inter> set ps = {}" "file_in (table_with_file T ps) ns"
proof -
  have u: "T ! n \<noteq> PFS_PAGE_NOT_USED" if n: "n \<in> set ns" for n
  proof -
    obtain i where i: "i < length ns" "n = ns ! i" using n by (auto simp: in_set_conv_nth)
    show ?thesis
    proof (cases "i + 1 < length ns")
      case True
      then have "5 \<le> ns ! (i + 1)" "ns ! (i + 1) < 128" "T ! n = of_nat (ns ! (i + 1))"
        using assms(1) i by (auto simp: file_in_def)
      then show ?thesis using page_nat(3) [of "ns ! (i + 1)"] by (auto simp: PFS_PAGE_NOT_USED_def)
    next
      case False
      then have "i = length ns - 1" "ns \<noteq> []" using i by auto
      then have "n = last ns" using i by (simp add: last_conv_nth)
      then show ?thesis using assms(1) by (simp add: file_in_def PFS_EOF_def PFS_PAGE_NOT_USED_def)
    qed
  qed
  then show d: "set ns \<inter> set ps = {}" using assms(2) by auto
  have "table_with_file T ps ! n = T ! n" if "n \<in> set ns" for n
  proof (intro table_with_file_other assms(3))
    show "n \<notin> set ps" using d that by auto
    have "5 \<le> n" using assms(1) that by (auto simp: file_in_def)
    then show "n \<noteq> 0" by simp
  qed
  then show "file_in (table_with_file T ps) ns" using assms(1) by (auto simp: file_in_def)
qed

lemma find_file_good:
  assumes "fs_good e I B s" "mounted B s"
  shows "\<exists>s'. goes e I B s (fs_mem B s) s' \<and> osPfsFindFile e cc gc gn en file_no s =
    (case filter (\<lambda>j. dir_matches cc gc gn en (dir_at (fs_mem B s) j)) [0..<16] of
       [] \<Rightarrow> (PFS_ERR_INVALID, -1, s') | j # _ \<Rightarrow> (0, of_nat j, s'))"
proof -
  have a: "PFS_ID_0AREA < 0x800" by (simp add: PFS_ID_0AREA_def)
  let ?s = "rd_st e PFS_ID_0AREA s"
  have s: "fs_good e I B ?s" "fs_mem B ?s = fs_mem B s" "fs_dir_table ?s = 24" "fs_dir_size ?s = 16"
    using fs_read_good(2,3) [OF assms(1) a] assms(2) by (simp_all add: mounted_def)
  from find_in_good [OF s(1,3), of "[0..<16]" cc gc gn en file_no] obtain s' where s': "goes e I B ?s (fs_mem B s) s'"
    "find_in e cc gc gn en [0..<16] file_no ?s =
      (case filter (\<lambda>j. dir_matches cc gc gn en (dir_at (fs_mem B s) j)) [0..<16] of
       [] \<Rightarrow> (PFS_ERR_INVALID, -1, s') | j # _ \<Rightarrow> (0, of_nat j, s'))"
    unfolding s(2) by auto
  have "goes e I B s (fs_mem B s) s'" using goes_trans [OF goes_read [OF assms(1) a] s'(1)] .
  then show ?thesis
    using s'(2) check_mounted(1) [OF assms] s(4) by (intro exI [where x = s']) (simp add: osPfsFindFile_def del: upt_rec_numeral)
qed

lemma free_blocks_good:
  assumes "fs_good e I B s" "mounted B s" "tables_ok (fs_mem B s) T"
  shows "\<exists>s'. goes e I B s (fs_mem B s) s' \<and> osPfsFreeBlocks e s = (Inr (256 * length (free_list T)), s')"
proof -
  have a: "PFS_ID_0AREA < 0x800" by (simp add: PFS_ID_0AREA_def)
  let ?s = "rd_st e PFS_ID_0AREA s"
  have s: "fs_good e I B ?s" "fs_mem B ?s = fs_mem B s" "mounted B ?s" "fs_banks ?s = 1"
    using fs_read_good(2,3) [OF assms(1) a] assms a by (simp_all add: mounted_def)
  obtain s' where s': "goes e I B ?s (fs_mem B s) s'" "get_inode e no_inode 0 ?s = (Inr T, s')"
    using get_inode_good [OF s(1,3), of T no_inode] s(2) assms(3) by (auto simp: no_inode_def)
  have l: "length T = 128" using assms(3) by (simp add: tables_ok_def)
  have "drop 5 T = map (\<lambda>j. T ! j) [5..<128]" using l by (intro nth_equalityI) (simp_all del: upt_rec_numeral)
  then have n: "length (filter (\<lambda>p. p = PFS_PAGE_NOT_USED) (drop 5 T)) = length (free_list T)"
    by (simp add: free_list_def filter_map o_def del: upt_rec_numeral)
  have "page_offset s' 0 = 5" using goes_fields(11) [OF s'(1)] s(3) by (simp add: page_offset_def mounted_def)
  then have "osPfsFreeBlocks e s = (Inr (256 * length (free_list T)), s')"
    using s'(2) s(4) check_mounted(1) [OF assms(1,2)] check_mounted(2) [OF assms(2)]
    by (simp add: osPfsFreeBlocks_def n PFS_ONE_PAGE_def)
  then show ?thesis using goes_trans [OF goes_read [OF assms(1) a] s'(1)] by blast
qed

text \<open>The two steps of making a file that change the pak.\<close>

lemma alloc_banks_good:
  assumes "fs_good e I B s" "mounted B s" "tables_ok (fs_mem B s) T" "0 < n" "n \<le> length (free_list T)" "ps = take n (free_list T)"
  shows "\<exists>s' v. goes e I B s (cleared ps (fs_mem B s)) s' \<and>
    alloc_banks e [0] no_inode \<lparr>al_pages = int n, al_start = None, al_decleared = 0, al_last = 0, al_old_last = 0, al_old_bank = 0,
      al_first = None, al_backup = no_inode, al_bank = 0\<rparr> s = (Inr v, s') \<and>
    al_start v = Some (hd ps) \<and> al_first v = Some (mk_page 0 (of_nat (hd ps))) \<and> al_pages v = 0 \<and> al_old_last v = 0 \<and>
    al_old_bank v = 0 \<and> al_bank v = 0 \<and> al_backup v = filed T ps"
proof -
  obtain s1 where 1: "goes e I B s (fs_mem B s) s1" "get_inode e no_inode 0 s = (Inr T, s1)"
    using get_inode_good [OF assms(1-3), of no_inode] by (auto simp: no_inode_def)
  have m1: "mounted B s1" using goes_mounted [OF 1(1) assms(2)] by simp
  obtain s2 where 2: "goes e I B s1 (cleared ps (fs_mem B s1)) s2"
    "osPfsDeclearPage e T (int n) 0 0 0 s1 = (Inr (filed T ps, Some (hd ps), int n, 0), s2)"
    using osPfsDeclearPage_good [OF goes_fields(1) [OF 1(1)] m1 assms(4-6), of 0 0] by blast
  show ?thesis
    using goes_trans [OF 1(1) 2(1)] goes_fields(2) [OF 1(1)] 1(2) 2(2)
    by (intro exI [where x = s2]) (simp add: Let_def)
qed

lemma length_filed [simp]: "length (filed T ps) = length T"
  by (simp add: filed_def)

lemma make_dir_fields:
  assumes "length en = 4" "length gn = 16"
  shows "length (make_dir gc cc sp st r ds en gn) = 32" "dir_game_code (make_dir gc cc sp st r ds en gn) = gc"
    "dir_company_code (make_dir gc cc sp st r ds en gn) = cc" "dir_start_page (make_dir gc cc sp st r ds en gn) = sp"
    "dir_status (make_dir gc cc sp st r ds en gn) = st"
    "dir_ext_name (make_dir gc cc sp st r ds en gn) = en" "dir_game_name (make_dir gc cc sp st r ds en gn) = gn"
proof -
  have h: "push_bit 8 (ucast (ucast (drop_bit 8 w) :: u8)) OR ucast (ucast w :: u8) = w" for w :: u16
    by (rule bit_word_eqI) (auto simp: bit_simps)
  have w: "word_at (be32 x @ ys) 0 = x" for x ys
    by (rule bit_word_eqI) (auto simp: word_at_def be32_def half_at_def be16_def bit_simps)
  show "dir_game_code (make_dir gc cc sp st r ds en gn) = gc" unfolding dir_game_code_def make_dir_def by (rule w)
  show "length (make_dir gc cc sp st r ds en gn) = 32"
    "dir_company_code (make_dir gc cc sp st r ds en gn) = cc" "dir_start_page (make_dir gc cc sp st r ds en gn) = sp"
    "dir_status (make_dir gc cc sp st r ds en gn) = st"
    "dir_ext_name (make_dir gc cc sp st r ds en gn) = en" "dir_game_name (make_dir gc cc sp st r ds en gn) = gn"
    using assms by (simp_all add: make_dir_def dir_company_code_def dir_start_page_def dir_status_def
        dir_ext_name_def dir_game_name_def half_at_def be16_def be32_def h)
qed

lemma cleared_low: "\<forall>n\<in>set ps. 5 \<le> n \<and> n < 128 \<Longrightarrow> unat a < 40 \<Longrightarrow> cleared ps m a = m a"
  by (auto simp: cleared_def CONT_BLOCK_DETECT_def)

lemma cleared_other: "unat a < 1024 \<Longrightarrow> unat a div 8 \<notin> set ps \<Longrightarrow> cleared ps m a = m a"
  by (auto simp: cleared_def CONT_BLOCK_DETECT_def)

lemma pages_needed:
  assumes "0 < sz" "sz < 2 ^ 31 - 256"
  shows "(sint (of_nat sz :: s32) + 255) sdiv 256 = int ((sz + 255) div 256)"
proof -
  have "sint (of_nat sz :: s32) + 255 = int (sz + 255)" using assms(2) by (simp add: sint32_of_nat)
  then show ?thesis using sdiv_int [of "sz + 255" 256] by simp
qed

text \<open>The blocks of the pak after a file is made, with the table \<open>T'\<close> and the directory entry \<open>d\<close>.\<close>

definition with_new_file :: "u16 list \<Rightarrow> nat list \<Rightarrow> nat \<Rightarrow> u8 list \<Rightarrow> (u16 \<Rightarrow> u8 list) \<Rightarrow> u16 \<Rightarrow> u8 list" where
  "with_new_file T ps f d m = (with_tables (table_with_file T ps) (cleared ps m))(blkno (24 + f) := d)"

lemma with_new_file_same:
  assumes "\<forall>n\<in>set ps. 5 \<le> n \<and> n < 128" "f < 16" "unat a < 8 \<or> 24 \<le> unat a \<and> unat a < 1024"
    "a \<noteq> blkno (24 + f)" "unat a div 8 \<notin> set ps"
  shows "with_new_file T ps f d m a = m a"
proof -
  have "unat a < 1024" using assms(3) by auto
  then have "cleared ps m a = m a" using assms(5) by (intro cleared_other)
  moreover have "with_tables (table_with_file T ps) (cleared ps m) a = cleared ps m a" using assms(3) by (intro with_tables_other) auto
  ultimately show ?thesis using assms(4) by (simp add: with_new_file_def)
qed

lemma with_new_file_cleared:
  assumes "\<forall>n\<in>set ps. 5 \<le> n \<and> n < 128" "f < 16" "unat a div 8 \<in> set ps"
  shows "with_new_file T ps f d m a = replicate 32 0"
proof -
  have "5 \<le> unat a div 8" using assms(1,3) by auto
  then have r: "40 \<le> unat a" by linarith
  have "unat (blkno (24 + f)) = 24 + f" using assms(2) by simp
  then have n: "a \<noteq> blkno (24 + f)" using r assms(2) by auto
  have "ps \<noteq> []" using assms(3) by auto
  then have "cleared ps m a = replicate 32 0" using assms(3) by (simp add: cleared_def)
  then show ?thesis using n with_tables_other [of a "table_with_file T ps" "cleared ps m"] r by (simp add: with_new_file_def)
qed

lemma with_new_file_dir:
  assumes "\<forall>n\<in>set ps. 5 \<le> n \<and> n < 128" "f < 16" "g < 16"
  shows "dir_at (with_new_file T ps f d m) g = (if g = f then d else dir_at m g)"
proof (cases "g = f")
  case False
  have u: "unat (blkno (24 + g)) = 24 + g" using assms(3) by simp
  have "(24 + g) div 8 < 5" using assms(3) by simp
  then have "unat (blkno (24 + g)) div 8 \<notin> set ps" using assms(1) unfolding u by (metis not_le)
  moreover have "blkno (24 + g) \<noteq> blkno (24 + f)" using False assms(2,3) by simp
  ultimately show ?thesis using with_new_file_same [OF assms(1,2), of "blkno (24 + g)"] u False assms(3) by (simp add: dir_at_def)
qed (simp add: dir_at_def with_new_file_def)

lemma with_new_file_tables:
  assumes "length T = 128" "f < 16"
  shows "tables_ok (with_new_file T ps f d m) (table_with_file T ps)"
proof -
  have s: "length (table_with_file T ps) = 128" "inode_sum 5 (table_with_file T ps) = pg_page (table_with_file T ps ! 0)"
    using stamped [of "(filed T ps)[0 := mk_page 0 (of_nat (hd ps))]"] assms(1) by (simp_all add: table_with_file_def)
  then show ?thesis
    using with_tables_ok [OF s, of "cleared ps m"] assms(2) by (simp add: tables_ok_def with_new_file_def)
qed

lemma new_file_entries:
  assumes "tables_ok m T" "ps \<noteq> []" "distinct ps" "\<forall>n\<in>set ps. 5 \<le> n \<and> n < 128 \<and> T ! n = PFS_PAGE_NOT_USED" "f < 16"
    "dir_used d" "dir_start_page d = of_nat (hd ps)"
  shows "file_entry (with_new_file T ps f d m) (table_with_file T ps) f ps"
    "g \<noteq> f \<Longrightarrow> file_entry m T g ns \<Longrightarrow>
       file_entry (with_new_file T ps f d m) (table_with_file T ps) g ns \<and> set ns \<inter> set ps = {}"
proof -
  have r: "\<forall>n\<in>set ps. 5 \<le> n \<and> n < 128" and l: "length T = 128" using assms(1,4) by (auto simp: tables_ok_def)
  note t = with_new_file_tables [OF l assms(5), of ps d m]
  show "file_entry (with_new_file T ps f d m) (table_with_file T ps) f ps"
    using t file_in_new [OF l assms(2,3) r] with_new_file_dir [OF r assms(5,5)] assms(5-7) by (simp add: file_entry_def)
  assume g: "g \<noteq> f" "file_entry m T g ns"
  then have n: "file_in T ns" "g < 16" "dir_used (dir_at m g)" "dir_start_page (dir_at m g) = of_nat (hd ns)"
    by (simp_all add: file_entry_def)
  have u: "\<forall>n\<in>set ps. T ! n = PFS_PAGE_NOT_USED" using assms(4) by auto
  show "file_entry (with_new_file T ps f d m) (table_with_file T ps) g ns \<and> set ns \<inter> set ps = {}"
    using t file_in_kept [OF n(1) u assms(2)] with_new_file_dir [OF r assms(5) n(2), of T d m] n g(1) by (simp add: file_entry_def)
qed

lemma osPfsAllocateFile_good:
  assumes "fs_good e I B s" "mounted B s" "tables_ok (fs_mem B s) T" "cc \<noteq> 0" "gc \<noteq> 0"
    "length gn = 16" "length en = 4" "\<forall>j<16. \<not> dir_matches cc gc (Some gn) (Some en) (dir_at (fs_mem B s) j)"
    "f < 16" "dir_matches 0 0 None None (dir_at (fs_mem B s) f)" "\<forall>j<f. \<not> dir_matches 0 0 None None (dir_at (fs_mem B s) j)"
    "0 < sz" "sz \<le> 256 * length (free_list T)" "ps = take ((sz + 255) div 256) (free_list T)"
  shows "\<exists>s'. osPfsAllocateFile e bytes cc gc gn en (of_nat sz) file_no s = (0, of_nat f, s') \<and>
    goes e I B s (with_new_file T ps f (make_dir gc cc (of_nat (hd ps)) (pe_stack e ! 8) (pe_stack e ! 9) 0 en gn) (fs_mem B s)) s'"
proof -
  let ?n = "(sz + 255) div 256" and ?d = "make_dir gc cc (of_nat (hd ps)) (pe_stack e ! 8) (pe_stack e ! 9) 0 en gn"
  have n: "0 < ?n" "?n \<le> length (free_list T)" using assms(12,13) by auto
  have l: "length (free_list T) \<le> 123" using length_filter_le [of "\<lambda>j. T ! j = PFS_PAGE_NOT_USED" "[5..<128]"]
    by (simp add: free_list_def del: upt_rec_numeral)
  have pages: "(sint (of_nat sz :: s32) + 255) sdiv 256 = int ?n" "sint (of_nat sz :: s32) = int sz"
    using pages_needed [OF assms(12)] assms(13) l by (simp_all add: sint32_of_nat)
  have P: "ps \<noteq> []" "set ps \<subseteq> set (free_list T)" using n assms(14) by (auto simp: set_take_subset dest: in_set_takeD)
  then have hd: "hd ps < 128" by (metis (mono_tags, lifting) free_list_set(1) hd_in_set mem_Collect_eq subsetD)
  have a: "PFS_ID_0AREA < 0x800" by (simp add: PFS_ID_0AREA_def)
  let ?s0 = "rd_st e PFS_ID_0AREA s"
  have s0: "goes e I B s (fs_mem B s) ?s0" "mounted B ?s0" using goes_read [OF assms(1) a] assms(1,2) a by simp_all
  have none: "filter (\<lambda>j. dir_matches cc gc (Some gn) (Some en) (dir_at (fs_mem B s) j)) [0..<16] = []"
    using assms(8) by (auto simp: filter_empty_conv simp del: upt_rec_numeral)
  obtain s1 where s1: "goes e I B ?s0 (fs_mem B s) s1"
    "osPfsFindFile e cc gc (Some gn) (Some en) file_no ?s0 = (PFS_ERR_INVALID, -1, s1)"
    using find_file_good [OF goes_fields(1) [OF s0(1)] s0(2), of cc gc "Some gn" "Some en" file_no]
    unfolding goes_fields(2) [OF s0(1)] none by auto
  have m1: "mounted B s1" using goes_mounted [OF s1(1) s0(2)] goes_fields(2) [OF s0(1)] by simp
  obtain s2 where s2: "goes e I B s1 (fs_mem B s) s2" "osPfsFreeBlocks e s1 = (Inr (256 * length (free_list T)), s2)"
    using free_blocks_good [OF goes_fields(1) [OF s1(1)] m1, of T] assms(3) unfolding goes_fields(2) [OF s1(1)] by blast
  have m2: "mounted B s2" using goes_mounted [OF s2(1) m1] goes_fields(2) [OF s1(1)] by simp
  have "[0..<16] = [0..<f] @ f # [f + 1..<16]" using assms(9)
    by (metis Suc_eq_plus1 less_imp_add_positive upt_add_eq_append upt_conv_Cons zero_le less_imp_le_nat le_add_diff_inverse)
  moreover have "filter (\<lambda>j. dir_matches 0 0 None None (dir_at (fs_mem B s) j)) [0..<f] = []"
    using assms(11) by (auto simp: filter_empty_conv)
  ultimately have first: "filter (\<lambda>j. dir_matches 0 0 None None (dir_at (fs_mem B s) j)) [0..<16] =
      f # filter (\<lambda>j. dir_matches 0 0 None None (dir_at (fs_mem B s) j)) [f + 1..<16]"
    using assms(10) by (simp del: upt_rec_numeral)
  obtain s3 where s3: "goes e I B s2 (fs_mem B s) s3" "osPfsFindFile e 0 0 None None (-1) s2 = (0, of_nat f, s3)"
    using find_file_good [OF goes_fields(1) [OF s2(1)] m2, of 0 0 None None "-1"]
    unfolding goes_fields(2) [OF s2(1)] first by auto
  have m3: "mounted B s3" using goes_mounted [OF s3(1) m2] goes_fields(2) [OF s2(1)] by simp
  obtain s4 v where s4: "goes e I B s3 (cleared ps (fs_mem B s)) s4"
    "alloc_banks e [0] no_inode \<lparr>al_pages = int ?n, al_start = None, al_decleared = 0, al_last = 0, al_old_last = 0, al_old_bank = 0,
      al_first = None, al_backup = no_inode, al_bank = 0\<rparr> s3 = (Inr v, s4)"
    "al_start v = Some (hd ps)" "al_first v = Some (mk_page 0 (of_nat (hd ps)))" "al_pages v = 0" "al_old_last v = 0"
    "al_old_bank v = 0" "al_bank v = 0" "al_backup v = filed T ps"
    using alloc_banks_good [OF goes_fields(1) [OF s3(1)] m3 _ n assms(14)] assms(3) unfolding goes_fields(2) [OF s3(1)] by blast
  have r: "\<forall>n\<in>set ps. 5 \<le> n \<and> n < 128" using P(2) by (auto simp: free_list_set)
  have m4: "mounted B s4"
    using goes_mounted [OF s4(1) m3] cleared_low [OF r, of PFS_ID_0AREA "fs_mem B s"] goes_fields(2) [OF s3(1)] by (simp add: PFS_ID_0AREA_def)
  have "length ((filed T ps)[0 := mk_page 0 (of_nat (hd ps))]) = 128" using assms(3) by (simp add: tables_ok_def)
  from put_inode_good [OF goes_fields(1) [OF s4(1)] m4 this] obtain s5 where
    s5: "goes e I B s4 (with_tables (table_with_file T ps) (cleared ps (fs_mem B s))) s5"
    "put_inode e ((filed T ps)[0 := mk_page 0 (of_nat (hd ps))]) 0 s4 = (Inr (table_with_file T ps), s5)"
    unfolding goes_fields(2) [OF s4(1)] table_with_file_def by blast
  have d: "blkno (24 + f) < 0x800" "PFS_LABEL_AREA \<le> blkno (24 + f)" "length ?d = 32" "fs_dir_table s5 = 24"
    using assms(9) make_dir_fields(1) [OF assms(7,6)] goes_fields(10) [OF s5(1)] m4 by (auto intro!: blkno_less blkno_free simp: mounted_def)
  let ?s6 = "wr_st e (blkno (24 + f)) ?d s5"
  have s6: "ram_put e (blkno (24 + f)) ?d 0 s5 = (Inr (), ?s6)"
    "goes e I B s5 (with_new_file T ps f ?d (fs_mem B s)) ?s6"
    using ram_good(2) [OF goes_fields(1) [OF s5(1)] d(1,3), of 0] d(2) goes_write [OF goes_fields(1) [OF s5(1)] d(1,3)]
    by (simp_all add: goes_fields(2) [OF s5(1)] with_new_file_def)
  have f: "unat (of_nat f :: s32) = f" "(of_nat f :: s32) \<noteq> -1"
  proof -
    show u: "unat (of_nat f :: s32) = f" using assms(9) by (simp add: unat_of_nat take_bit_nat_eq_self)
    show "(of_nat f :: s32) \<noteq> -1"
    proof
      assume "(of_nat f :: s32) = -1"
      then have "unat (-1 :: s32) = f" using u by simp
      then show False using assms(9) by (simp add: unsigned_minus_1_eq_mask mask_eq_exp_minus_1)
    qed
  qed
  have chk: "errck (check_status s) (\<lambda>_. check_id e) = (Inr (), ?s0)" using check_mounted(1) [OF assms(1,2)] check_mounted(2) [OF assms(2)] by simp
  have mk: "mk_page 0 (of_nat (hd ps)) = of_nat (hd ps)" using hd by simp
  obtain k where k: "k = ?n" by blast
  note [simp] = s1(2) s2(2) s3(2) s4(2) [folded k] s4(3) s4(4) [unfolded mk] s4(5-9) s5(2) [unfolded mk] f d(4)
  have pk: "(int sz + 255) sdiv 256 = int k" "0 < k" using pages k n(1) by simp_all
  have t: "take 4 en = en" "take 16 gn = gn" "fs_banks s3 = 1" using assms(6,7) m3 by (simp_all add: mounted_def)
  have "osPfsAllocateFile e bytes cc gc gn en (of_nat sz) file_no s = (0, of_nat f, ?s6)"
    unfolding osPfsAllocateFile_def pages(2) pk(1) chk
    using assms(4,5,13) pk(2) s6(1) mk by (simp add: t Let_def PFS_ERR_INVALID_def del: alloc_banks.simps)
  then show ?thesis
    using goes_trans [OF goes_trans [OF goes_trans [OF goes_trans [OF goes_trans [OF goes_trans [OF s0(1) s1(1)] s2(1)] s3(1)] s4(1)] s5(1)] s6(2)] by blast
qed

text \<open>making a file on a pak with enough room gives it the first free pages, linked in their order and
  cleared, and the first unused entry of the directory with its codes and names; both copies of the table stay
  consistent, every other file keeps its pages, and no block outside the tables, the entry and the new pages changes.
  The status of the entry is what the stack held.\<close>

theorem osPfsAllocateFile_makes_file:
  assumes "fs_good e I B s" "mounted B s" "tables_ok (fs_mem B s) T" "cc \<noteq> 0" "gc \<noteq> 0"
    "length gn = 16" "length en = 4" "\<forall>j<16. \<not> dir_matches cc gc (Some gn) (Some en) (dir_at (fs_mem B s) j)"
    "f < 16" "dir_matches 0 0 None None (dir_at (fs_mem B s) f)" "\<forall>j<f. \<not> dir_matches 0 0 None None (dir_at (fs_mem B s) j)"
    "0 < sz" "sz \<le> 256 * length (free_list T)" "ps = take ((sz + 255) div 256) (free_list T)"
  shows "\<exists>s' T'. osPfsAllocateFile e bytes cc gc gn en (of_nat sz) file_no s = (0, of_nat f, s') \<and> mounted B s' \<and>
    file_entry (fs_mem B s') T' f ps \<and> dir_matches cc gc (Some gn) (Some en) (dir_at (fs_mem B s') f) \<and>
    dir_status (dir_at (fs_mem B s') f) = pe_stack e ! 8 \<and>
    (\<forall>g ns. g \<noteq> f \<and> file_entry (fs_mem B s) T g ns \<longrightarrow> file_entry (fs_mem B s') T' g ns \<and> set ns \<inter> set ps = {}) \<and>
    (\<forall>a. unat a div 8 \<in> set ps \<longrightarrow> fs_mem B s' a = replicate 32 0) \<and>
    (\<forall>a. unat a < 0x400 \<and> \<not> (8 \<le> unat a \<and> unat a < 24) \<and> a \<noteq> blkno (24 + f) \<and> unat a div 8 \<notin> set ps \<longrightarrow>
      fs_mem B s' a = fs_mem B s a)"
proof -
  let ?d = "make_dir gc cc (of_nat (hd ps)) (pe_stack e ! 8) (pe_stack e ! 9) 0 en gn"
  obtain s' where s': "osPfsAllocateFile e bytes cc gc gn en (of_nat sz) file_no s = (0, of_nat f, s')"
    "goes e I B s (with_new_file T ps f ?d (fs_mem B s)) s'"
    using osPfsAllocateFile_good [OF assms] by blast
  note m = goes_fields(2) [OF s'(2)] and d = make_dir_fields [OF assms(7,6)]
  have ne: "ps \<noteq> []" using assms(12-14) by auto
  have P: "distinct ps" "\<forall>n\<in>set ps. 5 \<le> n \<and> n < 128 \<and> T ! n = PFS_PAGE_NOT_USED"
    using free_list_set set_take_subset [of "(sz + 255) div 256" "free_list T"] unfolding assms(14) by (auto simp: distinct_take)
  then have r: "\<forall>n\<in>set ps. 5 \<le> n \<and> n < 128" by blast
  note e1 = new_file_entries [OF assms(3) ne P assms(9), of ?d] and d1 = with_new_file_dir [OF r assms(9,9), of T ?d "fs_mem B s"]
  have u: "dir_used ?d" "dir_start_page ?d = of_nat (hd ps)" using assms(4,5) d by (simp_all add: dir_used_def)
  have i: "unat PFS_ID_0AREA = 1" "PFS_ID_0AREA \<noteq> blkno (24 + f)" "1 div 8 \<notin> set ps"
    using assms(9) r by (auto simp: PFS_ID_0AREA_def dest: arg_cong [of _ _ unat])
  then have "mounted B s'"
    using goes_mounted [OF s'(2) assms(2)] with_new_file_same [OF r assms(9), of PFS_ID_0AREA T ?d "fs_mem B s"] by simp
  moreover have "fs_mem B s' a = replicate 32 0" if "unat a div 8 \<in> set ps" for a
    using with_new_file_cleared [OF r assms(9) that] unfolding m .
  moreover have "fs_mem B s' a = fs_mem B s a"
    if "unat a < 0x400" "\<not> (8 \<le> unat a \<and> unat a < 24)" "a \<noteq> blkno (24 + f)" "unat a div 8 \<notin> set ps" for a
    using that with_new_file_same [OF r assms(9), of a T ?d "fs_mem B s"] unfolding m by auto
  ultimately show ?thesis
    using s'(1) e1 u d1 d by (intro exI [where x = s'] exI [where x = "table_with_file T ps"]) (simp add: m dir_matches_def assms(6,7), use e1(2) in blast)
qed

lemma osPfsAllocateFile_makes_file_witness:
  "\<exists>s' T'. osPfsAllocateFile s_env 0 77 88 (replicate 16 65) (replicate 4 66) 512 0 (s_fs s_table) = (0, 1, s') \<and>
     file_entry (fs_mem pak_sim_blocks s') T' 1 [6, 7] \<and> file_entry (fs_mem pak_sim_blocks s') T' 0 [5]"
proof -
  have e: "dir_matches 0 0 None None (replicate 32 0)" "\<not> dir_matches 0 0 None None s_dir"
    "\<not> dir_matches 77 88 (Some (replicate 16 65)) (Some (replicate 4 66)) (replicate 32 0)"
    "\<not> dir_matches 77 88 (Some (replicate 16 65)) (Some (replicate 4 66)) s_dir" by code_simp+
  have f: "take 2 (free_list s_table) = [6, 7]" "length (free_list s_table) = 122" by code_simp+
  have d: "dir_at (s_blocks s_table) j = (if j = 0 then s_dir else replicate 32 0)" if "j < 16" for j
    using that by (simp add: s_block_simps)
  have t: "tables_ok (fs_mem pak_sim_blocks (s_fs s_table)) s_table" by (simp add: s_mem tables_ok_def s_block_simps)
  have h: "\<forall>j<16. \<not> dir_matches 77 88 (Some (replicate 16 65)) (Some (replicate 4 66)) (dir_at (fs_mem pak_sim_blocks (s_fs s_table)) j)"
    using e(3,4) d by (simp add: s_mem)
  have u: "dir_matches 0 0 None None (dir_at (fs_mem pak_sim_blocks (s_fs s_table)) 1)"
    "\<forall>j<1. \<not> dir_matches 0 0 None None (dir_at (fs_mem pak_sim_blocks (s_fs s_table)) j)"
    using e(1,2) d by (simp_all add: s_mem)
  have n: "[6, 7] = take ((512 + 255) div 256) (free_list s_table)" "512 \<le> 256 * length (free_list s_table)" using f by simp_all
  have "file_entry (fs_mem pak_sim_blocks (s_fs s_table)) s_table 0 [5]" using s_file by (simp add: s_mem)
  with osPfsAllocateFile_makes_file [OF s_good s_mounted [OF s_lengths(1)] t _ _ _ _ h _ u _ n(2,1), of 0 0] show ?thesis
    by fastforce
qed

end
