(* ===== verification/Sched.thy ===== *)
theory Sched
  imports Vi "HOL-Library.Multiset"
begin

section \<open>The scheduler of the processors\<close>

text \<open>
  \<^verbatim>\<open>lib/ultralib/src/sched/sched.c\<close>: graphics and audio tasks for the signal processor (RSP) and the
  display processor (RDP), with \<^verbatim>\<open>osSpTaskLoad\<close>, \<^verbatim>\<open>osSpTaskStartGo\<close>, \<^verbatim>\<open>osSpTaskYield\<close> and \<^verbatim>\<open>osSpTaskYielded\<close>
  (\<^verbatim>\<open>sptask.c\<close>, \<^verbatim>\<open>sptaskyield.c\<close>, \<^verbatim>\<open>sptaskyielded.c\<close>) and \<^verbatim>\<open>osDpSetNextBuffer\<close> it drives them with.  Tasks and
  clients are linked in memory, so they are stores from addresses.  The scheduler thread is a turn
  for every message of its queue; what a turn reads from the registers of the processors comes with
  the event, and the registers it writes, the transfers it starts and the messages it sends are
  its output, in order.  The loops that wait for a processor to get idle are steps of the processor.
  Whether a picture waits to be shown is asked of the video manager in \<open>Vi\<close>.
\<close>

record OSTask =
  tk_type :: u32
  tk_flags :: u32
  ucode_boot :: ptr
  ucode_boot_size :: u32
  ucode :: ptr
  ucode_size :: u32
  ucode_data :: ptr
  ucode_data_size :: u32
  dram_stack :: ptr
  dram_stack_size :: u32
  output_buff :: ptr
  output_buff_size :: ptr
  data_ptr :: ptr
  data_size :: u32
  yield_data_ptr :: ptr
  yield_data_size :: u32

record OSScTask =
  st_next :: ptr
  st_state :: u32
  st_flags :: u32
  st_framebuffer :: ptr
  st_list :: OSTask
  st_msgQ :: ptr
  st_msg :: u32

record OSScClient =
  cl_next :: ptr
  cl_msgQ :: ptr

datatype sc_output =
    Send ptr u32 bool             \<comment> \<open>queue, message, \<^verbatim>\<open>OS_MESG_BLOCK\<close>\<close>
  | SpStatus u32
  | SpPc u32
  | SpDmaTask u32 OSTask          \<comment> \<open>the temporary copy of a task to the memory of the RSP\<close>
  | SpDma u32 u32 u32             \<comment> \<open>RSP address, physical address, size\<close>
  | IoWrite u32 u32

record OSSched =
  sc_task :: "ptr \<Rightarrow> OSScTask"
  sc_client :: "ptr \<Rightarrow> OSScClient"
  clientList :: ptr
  audioListHead :: ptr
  gfxListHead :: ptr
  audioListTail :: ptr
  gfxListTail :: ptr
  curRSPTask :: ptr
  curRDPTask :: ptr
  frameCount :: u32
  doAudio :: s32
  firsttime :: bool
  sc_vi :: vi
  sc_out :: "sc_output list"

text \<open>What does not change: address translation, reads of memory, the length of the output of a task, and
  the addresses of the queue and of the two messages of the scheduler.\<close>

record sc_env =
  se_pt :: "ptr \<Rightarrow> u32"
  se_read :: "ptr \<Rightarrow> u32"
  se_size :: "ptr \<Rightarrow> u64"
  se_interruptQ :: ptr
  se_retraceMsg :: u32
  se_prenmiMsg :: u32

subsection \<open>Constants\<close>

definition M_GFXTASK :: u32 where "M_GFXTASK = 1"
definition M_AUDTASK :: u32 where "M_AUDTASK = 2"
definition OS_SC_DP :: u32 where "OS_SC_DP = 0x0001"
definition OS_SC_SP :: u32 where "OS_SC_SP = 0x0002"
definition OS_SC_YIELD :: u32 where "OS_SC_YIELD = 0x0010"
definition OS_SC_YIELDED :: u32 where "OS_SC_YIELDED = 0x0020"
definition OS_SC_DRAM_DLIST :: u32 where "OS_SC_DRAM_DLIST = 0x0004"
definition OS_SC_PARALLEL_TASK :: u32 where "OS_SC_PARALLEL_TASK = 0x0010"
definition OS_SC_LAST_TASK :: u32 where "OS_SC_LAST_TASK = 0x0020"
definition OS_SC_SWAPBUFFER :: u32 where "OS_SC_SWAPBUFFER = 0x0040"
definition OS_SC_RCP_MASK :: u32 where "OS_SC_RCP_MASK = 0x0003"
definition OS_SC_TYPE_MASK :: u32 where "OS_SC_TYPE_MASK = 0x0007"
definition OS_SC_XBUS :: u32 where "OS_SC_XBUS = OS_SC_SP OR OS_SC_DP"
definition OS_SC_DRAM :: u32 where "OS_SC_DRAM = OS_SC_SP OR OS_SC_DP OR OS_SC_DRAM_DLIST"
definition OS_SC_DP_XBUS :: u32 where "OS_SC_DP_XBUS = OS_SC_SP"
definition OS_SC_DP_DRAM :: u32 where "OS_SC_DP_DRAM = OS_SC_SP OR OS_SC_DRAM_DLIST"
definition OS_TASK_YIELDED :: u32 where "OS_TASK_YIELDED = 0x0001"
definition OS_TASK_DP_WAIT :: u32 where "OS_TASK_DP_WAIT = 0x0002"
definition OS_TASK_LOADABLE :: u32 where "OS_TASK_LOADABLE = 0x0004"
definition OS_YIELD_DATA_SIZE :: u32 where "OS_YIELD_DATA_SIZE = 0xc00"
definition SP_IMEM_START :: u32 where "SP_IMEM_START = 0x04001000"
definition SP_SET_YIELD :: u32 where "SP_SET_YIELD = 0x400"
definition SP_LOAD_STATUS :: u32 where "SP_LOAD_STATUS = 0x200 OR 0x800 OR 0x2000 OR 0x100"
definition SP_GO_STATUS :: u32 where "SP_GO_STATUS = 0x100 OR 0x20 OR 4 OR 1"
definition SP_STATUS_YIELD :: u32 where "SP_STATUS_YIELD = 0x80"
definition SP_STATUS_YIELDED :: u32 where "SP_STATUS_YIELDED = 0x100"
definition DPC_START_REG :: u32 where "DPC_START_REG = 0x04100000"
definition DPC_END_REG :: u32 where "DPC_END_REG = 0x04100004"
definition DPC_STATUS_REG :: u32 where "DPC_STATUS_REG = 0x0410000C"
definition DPC_CLR_XBUS_DMEM_DMA :: u32 where "DPC_CLR_XBUS_DMEM_DMA = 1"
definition DPC_STATUS_DMA_BUSY :: u32 where "DPC_STATUS_DMA_BUSY = 0x100"
definition VIDEO_MSG :: u32 where "VIDEO_MSG = 666"

lemmas sc_flag_defs = OS_SC_DP_def OS_SC_SP_def OS_SC_YIELD_def OS_SC_YIELDED_def OS_SC_DRAM_DLIST_def
  OS_SC_PARALLEL_TASK_def OS_SC_RCP_MASK_def OS_SC_TYPE_MASK_def OS_SC_XBUS_def OS_SC_DRAM_def
  OS_SC_DP_XBUS_def OS_SC_DP_DRAM_def

subsection \<open>Driving the processors\<close>

definition phys :: "(ptr \<Rightarrow> u32) \<Rightarrow> ptr \<Rightarrow> ptr" where
  "phys pt p = (if p \<noteq> NULL then osVirtualToPhysical pt p else p)"

definition VirtualToPhysicalTask :: "(ptr \<Rightarrow> u32) \<Rightarrow> OSTask \<Rightarrow> OSTask" where
  "VirtualToPhysicalTask pt t =
     t\<lparr>ucode := phys pt (ucode t), ucode_data := phys pt (ucode_data t), dram_stack := phys pt (dram_stack t),
       output_buff := phys pt (output_buff t), output_buff_size := phys pt (output_buff_size t),
       data_ptr := phys pt (data_ptr t), yield_data_ptr := phys pt (yield_data_ptr t)\<rparr>"

definition osSpTaskLoad :: "sc_env \<Rightarrow> OSTask \<Rightarrow> OSTask \<times> sc_output list" where
  "osSpTaskLoad e intp =
     (let tp = VirtualToPhysicalTask (se_pt e) intp;
          yielded = tk_flags tp AND OS_TASK_YIELDED \<noteq> 0;
          tp = (if yielded
                then (let tp = tp\<lparr>ucode_data := yield_data_ptr tp, ucode_data_size := yield_data_size tp\<rparr>
                      in if tk_flags tp AND OS_TASK_LOADABLE \<noteq> 0
                         then tp\<lparr>ucode := se_read e (yield_data_ptr intp + OS_YIELD_DATA_SIZE - 4)\<rparr>
                         else tp)
                else tp);
          intp = (if yielded then intp\<lparr>tk_flags := tk_flags intp AND NOT OS_TASK_YIELDED\<rparr> else intp)
      in (intp,
          [SpStatus SP_LOAD_STATUS, SpPc SP_IMEM_START, SpDmaTask (SP_IMEM_START - 64) tp,
           SpDma SP_IMEM_START (osVirtualToPhysical (se_pt e) (ucode_boot tp)) (ucode_boot_size tp)]))"

definition osSpTaskStartGo :: "sc_output list" where
  "osSpTaskStartGo = [SpStatus SP_GO_STATUS]"

definition osSpTaskYield :: "sc_output list" where
  "osSpTaskYield = [SpStatus SP_SET_YIELD]"

definition osSpTaskYielded :: "u32 \<Rightarrow> OSTask \<Rightarrow> u32 \<times> OSTask" where
  "osSpTaskYielded status tp =
     (let result = (if status AND SP_STATUS_YIELDED \<noteq> 0 then OS_TASK_YIELDED else 0)
      in (result,
          if status AND SP_STATUS_YIELD \<noteq> 0
          then tp\<lparr>tk_flags := (tk_flags tp OR result) AND NOT OS_TASK_DP_WAIT\<rparr> else tp))"

definition osDpSetNextBuffer :: "sc_env \<Rightarrow> u32 \<Rightarrow> ptr \<Rightarrow> u64 \<Rightarrow> s32 \<times> sc_output list" where
  "osDpSetNextBuffer e stat bufPtr sz =
     (if stat AND DPC_STATUS_DMA_BUSY \<noteq> 0 then (-1, [])
      else (0, [IoWrite DPC_STATUS_REG DPC_CLR_XBUS_DMEM_DMA,
                IoWrite DPC_START_REG (osVirtualToPhysical (se_pt e) bufPtr),
                IoWrite DPC_END_REG (ucast (ucast (osVirtualToPhysical (se_pt e) bufPtr) + sz))]))"

subsection \<open>The lists\<close>

definition upd_task :: "ptr \<Rightarrow> (OSScTask \<Rightarrow> OSScTask) \<Rightarrow> OSSched \<Rightarrow> OSSched" where
  "upd_task t f sc = sc\<lparr>sc_task := (sc_task sc)(t := f (sc_task sc t))\<rparr>"

definition sc_emit :: "sc_output list \<Rightarrow> OSSched \<Rightarrow> OSSched" where
  "sc_emit os sc = sc\<lparr>sc_out := sc_out sc @ os\<rparr>"

definition sc_type :: "OSSched \<Rightarrow> ptr \<Rightarrow> u32" where
  "sc_type sc t = tk_type (st_list (sc_task sc t))"

definition scAppendList :: "ptr \<Rightarrow> OSSched \<Rightarrow> OSSched" where
  "scAppendList t sc =
     (let sc = (if sc_type sc t = M_AUDTASK
                then (let sc = (if audioListTail sc \<noteq> NULL
                                then upd_task (audioListTail sc) (\<lambda>x. x\<lparr>st_next := t\<rparr>) sc
                                else sc\<lparr>audioListHead := t\<rparr>)
                      in sc\<lparr>audioListTail := t, doAudio := 1\<rparr>)
                else (let sc = (if gfxListTail sc \<noteq> NULL
                                then upd_task (gfxListTail sc) (\<lambda>x. x\<lparr>st_next := t\<rparr>) sc
                                else sc\<lparr>gfxListHead := t\<rparr>)
                      in sc\<lparr>gfxListTail := t\<rparr>))
      in upd_task t (\<lambda>x. x\<lparr>st_next := NULL, st_state := st_flags x AND OS_SC_RCP_MASK\<rparr>) sc)"

definition pop_audio :: "OSSched \<Rightarrow> OSSched" where
  "pop_audio sc =
     (let h = st_next (sc_task sc (audioListHead sc));
          sc = sc\<lparr>audioListHead := h\<rparr>
      in if h = NULL then sc\<lparr>audioListTail := NULL\<rparr> else sc)"

definition pop_gfx :: "OSSched \<Rightarrow> OSSched" where
  "pop_gfx sc =
     (let h = st_next (sc_task sc (gfxListHead sc));
          sc = sc\<lparr>gfxListHead := h\<rparr>
      in if h = NULL then sc\<lparr>gfxListTail := NULL\<rparr> else sc)"

definition push_gfx :: "ptr \<Rightarrow> OSSched \<Rightarrow> OSSched" where
  "push_gfx t sc =
     (let sc = upd_task t (\<lambda>x. x\<lparr>st_next := gfxListHead sc\<rparr>) sc;
          sc = sc\<lparr>gfxListHead := t\<rparr>
      in if gfxListTail sc = NULL then sc\<lparr>gfxListTail := t\<rparr> else sc)"

partial_function (option) notify :: "(ptr \<Rightarrow> OSScClient) \<Rightarrow> ptr \<Rightarrow> u32 \<Rightarrow> sc_output list option" where
  "notify cls c m =
     (if c = NULL then Some []
      else do { os \<leftarrow> notify cls (cl_next (cls c)) m; Some (Send (cl_msgQ (cls c)) m False # os) })"

subsection \<open>The scheduler\<close>

definition scTaskReady :: "ptr \<Rightarrow> OSSched \<Rightarrow> ptr" where
  "scTaskReady t sc =
     (if t \<noteq> NULL
      then if osViGetCurrentFramebuffer (sc_vi sc) \<noteq> osViGetNextFramebuffer (sc_vi sc) then NULL else t
      else NULL)"

definition scTaskComplete :: "ptr \<Rightarrow> OSSched \<Rightarrow> s32 \<times> OSSched" where
  "scTaskComplete t sc =
     (let x = sc_task sc t
      in if st_state x AND OS_SC_RCP_MASK = 0
         then (let sc = sc_emit [Send (st_msgQ x) (st_msg x) True] sc;
                   sc = (if sc_type sc t = M_GFXTASK \<and> st_flags x AND OS_SC_SWAPBUFFER \<noteq> 0 \<and> st_flags x AND OS_SC_LAST_TASK \<noteq> 0
                         then (let sc = (if firsttime sc then sc\<lparr>sc_vi := osViBlack 0 (sc_vi sc), firsttime := False\<rparr> else sc)
                               in sc\<lparr>sc_vi := osViSwapBuffer (st_framebuffer x) (sc_vi sc)\<rparr>)
                         else sc)
               in (1, sc))
         else (0, sc))"

definition scExec :: "sc_env \<Rightarrow> u32 \<Rightarrow> ptr \<Rightarrow> ptr \<Rightarrow> OSSched \<Rightarrow> OSSched" where
  "scExec e dpstat sp dp sc =
     (let sc = (if sp \<noteq> NULL
                then (let sc = upd_task sp (\<lambda>x. x\<lparr>st_state := st_state x AND NOT (OS_SC_YIELD OR OS_SC_YIELDED)\<rparr>) sc;
                          (intp, os) = osSpTaskLoad e (st_list (sc_task sc sp));
                          sc = upd_task sp (\<lambda>x. x\<lparr>st_list := intp\<rparr>) sc;
                          sc = sc_emit (os @ osSpTaskStartGo) sc;
                          sc = sc\<lparr>curRSPTask := sp\<rparr>
                      in if sp = dp then sc\<lparr>curRDPTask := dp\<rparr> else sc)
                else sc)
      in if dp \<noteq> NULL \<and> dp \<noteq> sp
         then (let l = st_list (sc_task sc dp);
                   (rv, os) = osDpSetNextBuffer e dpstat (output_buff l) (se_size e (output_buff_size l))
               in (sc_emit os sc)\<lparr>curRDPTask := dp\<rparr>)
         else sc)"

definition scYield :: "OSSched \<Rightarrow> OSSched" where
  "scYield sc =
     (if sc_type sc (curRSPTask sc) = M_GFXTASK
      then sc_emit osSpTaskYield (upd_task (curRSPTask sc) (\<lambda>x. x\<lparr>st_state := st_state x OR OS_SC_YIELD\<rparr>) sc)
      else sc)"

text \<open>One pass of \<^verbatim>\<open>__scSchedule\<close>: what is still available, the tasks for the two processors, the lists.\<close>

definition schedule_pass :: "ptr \<Rightarrow> ptr \<Rightarrow> u32 \<Rightarrow> OSSched \<Rightarrow> u32 \<times> ptr \<times> ptr \<times> OSSched" where
  "schedule_pass sp dp avail sc =
     (let gfx = gfxListHead sc; audio = audioListHead sc; g = sc_task sc gfx;
          ty = st_flags g AND OS_SC_TYPE_MASK
      in if doAudio sc \<noteq> 0 \<and> avail AND OS_SC_SP \<noteq> 0
         then if gfx \<noteq> NULL \<and> st_flags g AND OS_SC_PARALLEL_TASK \<noteq> 0
              then (avail AND NOT OS_SC_SP, gfx, dp, sc)
              else (avail AND NOT OS_SC_SP, audio, dp, pop_audio (sc\<lparr>doAudio := 0\<rparr>))
         else if scTaskReady gfx sc = NULL then (avail, sp, dp, sc)
         else if ty = OS_SC_XBUS
         then if st_state g AND OS_SC_YIELDED \<noteq> 0
              then if avail AND OS_SC_SP \<noteq> 0
                   then if st_state g AND OS_SC_DP \<noteq> 0
                        then (avail AND NOT OS_SC_SP AND NOT OS_SC_DP, gfx, gfx, pop_gfx sc)
                        else (avail AND NOT OS_SC_SP, gfx, dp, pop_gfx sc)
                   else (avail, sp, dp, sc)
              else if avail = OS_SC_SP OR OS_SC_DP
                   then (avail AND NOT (OS_SC_SP OR OS_SC_DP), gfx, gfx, pop_gfx sc)
                   else (avail, sp, dp, sc)
         else if ty = OS_SC_DRAM \<or> ty = OS_SC_DP_DRAM \<or> ty = OS_SC_DP_XBUS
         then if st_state g AND OS_SC_SP \<noteq> 0
              then if avail AND OS_SC_SP \<noteq> 0 then (avail AND NOT OS_SC_SP, gfx, dp, sc) else (avail, sp, dp, sc)
              else if st_state g AND OS_SC_DP \<noteq> 0
              then if avail AND OS_SC_DP \<noteq> 0 then (avail AND NOT OS_SC_DP, sp, gfx, pop_gfx sc) else (avail, sp, dp, sc)
              else (avail, sp, dp, sc)
         else (avail, sp, dp, sc))"

lemma unat_and_le: "unat (x AND y) \<le> unat x" for x y :: "'a::len word"
  by (metis word_and_le2 word_le_nat_alt)

lemma schedule_pass_avail:
  assumes "schedule_pass sp dp avail sc = (avail', sp', dp', sc')"
  shows "unat avail' \<le> unat avail"
proof -
  have "unat (x AND y AND z) \<le> unat x" for x y z :: u32 by (simp add: and.assoc unat_and_le)
  then show ?thesis
    using assms unat_and_le [of avail] by (auto simp: schedule_pass_def Let_def split: if_splits)
qed

function scSchedule :: "ptr \<Rightarrow> ptr \<Rightarrow> u32 \<Rightarrow> OSSched \<Rightarrow> u32 \<times> ptr \<times> ptr \<times> OSSched" where
  "scSchedule sp dp availRCP sc =
     (case schedule_pass sp dp availRCP sc of (avail, sp, dp, sc) \<Rightarrow>
        if avail \<noteq> availRCP then scSchedule sp dp avail sc else (avail, sp, dp, sc))"
  by pat_completeness auto
termination
proof (relation "measure (\<lambda>(sp, dp, avail, sc). unat avail)")
  fix sp dp availRCP :: u32 and sc avail y sp' z dp' sc'
  assume "(avail, y) = schedule_pass sp dp availRCP sc" "(sp', z) = y" "(dp', sc') = z" "avail \<noteq> availRCP"
  then show "((sp', dp', avail, sc'), sp, dp, availRCP, sc) \<in> measure (\<lambda>(sp, dp, avail, sc). unat avail)"
    using schedule_pass_avail [of sp dp availRCP sc avail sp' dp' sc'] by (auto simp: le_less word_unat_eq_iff)
qed simp

declare scSchedule.simps [simp del]

definition rcp_state :: "OSSched \<Rightarrow> u32" where
  "rcp_state sc = push_bit 1 (of_bool (curRSPTask sc = NULL)) OR of_bool (curRDPTask sc = NULL)"

definition schedule_and_exec :: "sc_env \<Rightarrow> u32 \<Rightarrow> OSSched \<Rightarrow> OSSched" where
  "schedule_and_exec e dpstat sc =
     (let st = rcp_state sc
      in case scSchedule NULL NULL st sc of (avail, sp, dp, sc) \<Rightarrow>
           if avail \<noteq> st then scExec e dpstat sp dp sc else sc)"

definition scHandleRetrace :: "sc_env \<Rightarrow> ptr list \<Rightarrow> u32 \<Rightarrow> OSSched \<Rightarrow> OSSched option" where
  "scHandleRetrace e cmds dpstat sc =
     (let sc = sc\<lparr>frameCount := frameCount sc + 1\<rparr>;
          sc = fold scAppendList cmds sc;
          sc = (if doAudio sc \<noteq> 0 \<and> curRSPTask sc \<noteq> NULL then scYield sc else schedule_and_exec e dpstat sc)
      in do { os \<leftarrow> notify (sc_client sc) (clientList sc) (se_retraceMsg e); Some (sc_emit os sc) })"

definition scHandleRSP :: "sc_env \<Rightarrow> u32 \<Rightarrow> u32 \<Rightarrow> OSSched \<Rightarrow> OSSched" where
  "scHandleRSP e spstat dpstat sc =
     (let t = curRSPTask sc;
          sc = sc\<lparr>curRSPTask := NULL\<rparr>;
          asked = st_state (sc_task sc t) AND OS_SC_YIELD \<noteq> 0;
          (r, l) = osSpTaskYielded spstat (st_list (sc_task sc t));
          sc = (if asked then upd_task t (\<lambda>x. x\<lparr>st_list := l\<rparr>) sc else sc);
          sc = (if asked \<and> r \<noteq> 0
                then (let sc = upd_task t (\<lambda>x. x\<lparr>st_state := st_state x OR OS_SC_YIELDED\<rparr>) sc
                      in if st_flags (sc_task sc t) AND OS_SC_TYPE_MASK = OS_SC_XBUS then push_gfx t sc else sc)
                else snd (scTaskComplete t (upd_task t (\<lambda>x. x\<lparr>st_state := st_state x AND NOT OS_SC_SP\<rparr>) sc)))
      in schedule_and_exec e dpstat sc)"

definition scHandleRDP :: "sc_env \<Rightarrow> u32 \<Rightarrow> OSSched \<Rightarrow> OSSched" where
  "scHandleRDP e dpstat sc =
     (let t = curRDPTask sc;
          sc = sc\<lparr>curRDPTask := NULL\<rparr>;
          sc = upd_task t (\<lambda>x. x\<lparr>st_state := st_state x AND NOT OS_SC_DP\<rparr>) sc
      in schedule_and_exec e dpstat (snd (scTaskComplete t sc)))"

text \<open>The messages of the interrupt queue, with what the turn reads: the tasks in the command queue and the
  status registers of the processors.\<close>

datatype sc_event =
    Video "ptr list" u32
  | RspDone u32 u32
  | RdpDone u32
  | PreNmi

definition scMain :: "sc_env \<Rightarrow> sc_event \<Rightarrow> OSSched \<Rightarrow> OSSched option" where
  "scMain e ev sc =
     (case ev of
        Video cmds dpstat \<Rightarrow> scHandleRetrace e cmds dpstat sc
      | RspDone spstat dpstat \<Rightarrow> Some (scHandleRSP e spstat dpstat sc)
      | RdpDone dpstat \<Rightarrow> Some (scHandleRDP e dpstat sc)
      | PreNmi \<Rightarrow> do { os \<leftarrow> notify (sc_client sc) (clientList sc) (se_prenmiMsg e); Some (sc_emit os sc) })"

subsection \<open>The interface of the applications\<close>

text \<open>\<^verbatim>\<open>osCreateScheduler\<close> also creates the two queues, the video manager and the thread, and names its queue
  for the events of the processors.  \<open>doAudio\<close> is what the memory holds.\<close>

definition osCreateScheduler :: "sc_env \<Rightarrow> ptr \<Rightarrow> u8 \<Rightarrow> OSSched \<Rightarrow> OSSched" where
  "osCreateScheduler e modep numFields sc =
     sc\<lparr>curRSPTask := NULL, curRDPTask := NULL, clientList := NULL, frameCount := 0, audioListHead := NULL,
        gfxListHead := NULL, audioListTail := NULL, gfxListTail := NULL,
        sc_vi := osViSetEvent (se_interruptQ e) VIDEO_MSG (ucast numFields) (osViBlack 1 (osViSetMode modep (sc_vi sc)))\<rparr>"

definition osScAddClient :: "ptr \<Rightarrow> ptr \<Rightarrow> OSSched \<Rightarrow> OSSched" where
  "osScAddClient c msgQ sc =
     sc\<lparr>sc_client := (sc_client sc)(c := \<lparr>cl_next = clientList sc, cl_msgQ = msgQ\<rparr>), clientList := c\<rparr>"

partial_function (option) remove_scan :: "ptr \<Rightarrow> ptr \<Rightarrow> ptr \<Rightarrow> OSSched \<Rightarrow> OSSched option" where
  "remove_scan c prev client sc =
     (if client = NULL then Some sc
      else if client = c
      then Some (if prev \<noteq> NULL
                 then sc\<lparr>sc_client := (sc_client sc)(prev := (sc_client sc prev)\<lparr>cl_next := cl_next (sc_client sc c)\<rparr>)\<rparr>
                 else sc\<lparr>clientList := cl_next (sc_client sc c)\<rparr>)
      else remove_scan c client (cl_next (sc_client sc client)) sc)"

definition osScRemoveClient :: "ptr \<Rightarrow> OSSched \<Rightarrow> OSSched option" where
  "osScRemoveClient c sc = remove_scan c NULL (clientList sc) sc"

subsection \<open>What the scheduler keeps\<close>

text \<open>The bits of a state: the two processors a task still needs, and the two stages of yielding.\<close>

abbreviation needs_dp :: "OSScTask \<Rightarrow> bool" where "needs_dp x \<equiv> bit (st_state x) 0"
abbreviation needs_sp :: "OSScTask \<Rightarrow> bool" where "needs_sp x \<equiv> bit (st_state x) 1"
abbreviation yielding :: "OSScTask \<Rightarrow> bool" where "yielding x \<equiv> bit (st_state x) 4"
abbreviation yielded :: "OSScTask \<Rightarrow> bool" where "yielded x \<equiv> bit (st_state x) 5"

lemma sc_flags:
  "OS_SC_DP = push_bit 0 1" "OS_SC_SP = push_bit 1 1" "OS_SC_YIELD = push_bit 4 1" "OS_SC_YIELDED = push_bit 5 1"
  "OS_SC_PARALLEL_TASK = push_bit 4 1"
  by (simp_all add: sc_flag_defs)

lemma sc_flag_bits [simp]:
  "x AND OS_SC_DP = 0 \<longleftrightarrow> \<not> bit x 0" "x AND OS_SC_SP = 0 \<longleftrightarrow> \<not> bit x 1"
  "x AND OS_SC_YIELD = 0 \<longleftrightarrow> \<not> bit x 4" "x AND OS_SC_YIELDED = 0 \<longleftrightarrow> \<not> bit x 5"
  "x AND OS_SC_PARALLEL_TASK = 0 \<longleftrightarrow> \<not> bit x 4"
  by (metis and_push_bit_1 sc_flags)+

lemma bit_sc_flags [simp]:
  "bit OS_SC_DP n \<longleftrightarrow> n = 0" "bit OS_SC_SP n \<longleftrightarrow> n = 1" "bit OS_SC_YIELD n \<longleftrightarrow> n = 4" "bit OS_SC_YIELDED n \<longleftrightarrow> n = 5"
  unfolding sc_flags by (auto simp only: bit_push_bit_iff bit_1_iff) auto

lemma bit_RCP_MASK [simp]: "bit OS_SC_RCP_MASK n \<longleftrightarrow> n < 2"
proof -
  have "OS_SC_RCP_MASK = mask 2" by (simp add: OS_SC_RCP_MASK_def mask_eq_exp_minus_1)
  then show ?thesis unfolding \<open>OS_SC_RCP_MASK = mask 2\<close> bit_mask_iff by auto
qed

lemma RCP_MASK_0 [simp]: "x AND OS_SC_RCP_MASK = 0 \<longleftrightarrow> \<not> bit x 0 \<and> \<not> bit x 1"
proof
  assume "x AND OS_SC_RCP_MASK = 0"
  then have "\<not> bit (x AND OS_SC_RCP_MASK) n" for n by simp
  from this [of 0] this [of 1] show "\<not> bit x 0 \<and> \<not> bit x 1" by (simp add: bit_and_iff)
next
  assume "\<not> bit x 0 \<and> \<not> bit x 1"
  then have "\<not> bit (x AND OS_SC_RCP_MASK) n" for n
    using less_2_cases [of n] by (auto simp: bit_and_iff)
  then show "x AND OS_SC_RCP_MASK = 0" by (intro bit_eqI) simp
qed

text \<open>What is available, as a number.\<close>

definition rcp :: "bool \<Rightarrow> bool \<Rightarrow> u32" where
  "rcp s d = push_bit 1 (of_bool s) OR of_bool d"

lemma rcp_simps [simp]:
  "bit (rcp s d) 0 \<longleftrightarrow> d" "bit (rcp s d) (Suc 0) \<longleftrightarrow> s"
  "rcp s d AND NOT OS_SC_SP = rcp False d" "rcp s d AND NOT OS_SC_DP = rcp s False"
  "rcp s d AND NOT (OS_SC_SP OR OS_SC_DP) = rcp False False"
  "rcp s d AND NOT OS_SC_SP AND NOT OS_SC_DP = rcp False False"
  "rcp s d = OS_SC_SP OR OS_SC_DP \<longleftrightarrow> s \<and> d" "rcp s d = rcp s' d' \<longleftrightarrow> s = s' \<and> d = d'"
  "OS_SC_SP OR OS_SC_DP = rcp s d \<longleftrightarrow> s \<and> d"
  by (cases s; cases d; cases s'; cases d'; simp add: rcp_def sc_flag_defs)+

lemma rcp_state: "rcp_state sc = rcp (curRSPTask sc = NULL) (curRDPTask sc = NULL)"
  by (simp add: rcp_state_def rcp_def)

text \<open>The three kinds of tasks that are served: audio, and graphics that reaches the display processor
  through the direct bus or through memory.\<close>

definition is_audio :: "OSScTask \<Rightarrow> bool" where
  "is_audio x \<longleftrightarrow> tk_type (st_list x) = M_AUDTASK \<and> st_flags x AND OS_SC_RCP_MASK = OS_SC_SP"

definition is_xbus :: "OSScTask \<Rightarrow> bool" where
  "is_xbus x \<longleftrightarrow> tk_type (st_list x) = M_GFXTASK \<and> st_flags x AND OS_SC_TYPE_MASK = OS_SC_XBUS \<and>
     st_flags x AND OS_SC_PARALLEL_TASK = 0"

definition is_dram :: "OSScTask \<Rightarrow> bool" where
  "is_dram x \<longleftrightarrow> tk_type (st_list x) = M_GFXTASK \<and> st_flags x AND OS_SC_TYPE_MASK = OS_SC_DRAM \<and>
     st_flags x AND OS_SC_PARALLEL_TASK = 0"

lemma kinds_differ [simp]:
  "is_audio x \<Longrightarrow> \<not> is_xbus x" "is_audio x \<Longrightarrow> \<not> is_dram x" "is_xbus x \<Longrightarrow> \<not> is_dram x"
  by (auto simp: is_audio_def is_xbus_def is_dram_def M_AUDTASK_def M_GFXTASK_def sc_flag_defs)

text \<open>\<open>tasks_ok T aud A G R D\<close>: the waiting audio tasks are \<open>A\<close>, the graphics tasks \<open>G\<close>, the tasks on the two
  processors \<open>R\<close> and \<open>D\<close>.  All tasks behind the head of \<open>G\<close> are as they were appended; the head may
  have run in part.  A task for the direct bus leaves the list when it starts and comes back when it
  yields; one through memory stays at the head until it gets the display processor.\<close>

definition fresh :: "OSScTask \<Rightarrow> bool" where
  "fresh x \<longleftrightarrow> needs_sp x \<and> needs_dp x \<and> \<not> yielded x"

definition waits :: "OSScTask \<Rightarrow> bool" where
  "waits x \<longleftrightarrow> is_audio x \<and> needs_sp x \<and> \<not> needs_dp x \<and> \<not> yielding x"

definition head_ok :: "OSScTask \<Rightarrow> ptr \<Rightarrow> ptr \<Rightarrow> ptr \<Rightarrow> bool" where
  "head_ok x g R D \<longleftrightarrow>
     (if is_xbus x then g \<noteq> R \<and> needs_sp x \<and> (if yielded x then needs_dp x = (D = g) else needs_dp x \<and> D \<noteq> g)
      else D \<noteq> g \<and> needs_dp x \<and> (R = g \<longrightarrow> needs_sp x))"

definition rsp_ok :: "(ptr \<Rightarrow> OSScTask) \<Rightarrow> ptr list \<Rightarrow> ptr \<Rightarrow> ptr \<Rightarrow> bool" where
  "rsp_ok T G R D \<longleftrightarrow> needs_sp (T R) \<and>
     (waits (T R) \<and> R \<noteq> D \<or>
      is_xbus (T R) \<and> R \<notin> set G \<and> needs_dp (T R) = (D = R) \<and> (\<forall>g\<in>set G. fresh (T g) \<and> g \<noteq> D) \<or>
      is_dram (T R) \<and> G \<noteq> [] \<and> hd G = R)"

definition rdp_ok :: "(ptr \<Rightarrow> OSScTask) \<Rightarrow> ptr list \<Rightarrow> ptr \<Rightarrow> ptr \<Rightarrow> bool" where
  "rdp_ok T G R D \<longleftrightarrow> needs_dp (T D) \<and>
     (is_xbus (T D) \<and> needs_sp (T D) = (D = R \<or> D \<in> set G) \<or>
      is_dram (T D) \<and> \<not> needs_sp (T D) \<and> D \<notin> set G \<and> D \<noteq> R)"

definition all_fresh :: "(ptr \<Rightarrow> OSScTask) \<Rightarrow> ptr list \<Rightarrow> ptr \<Rightarrow> ptr \<Rightarrow> bool" where
  "all_fresh T G R D \<longleftrightarrow> (\<forall>t\<in>set G. fresh (T t) \<and> t \<noteq> R \<and> t \<noteq> D)"

definition gfx_ok :: "(ptr \<Rightarrow> OSScTask) \<Rightarrow> ptr list \<Rightarrow> ptr \<Rightarrow> ptr \<Rightarrow> bool" where
  "gfx_ok T G R D \<longleftrightarrow> (\<forall>t\<in>set G. is_xbus (T t) \<or> is_dram (T t)) \<and>
     (case G of [] \<Rightarrow> True | g # G \<Rightarrow> head_ok (T g) g R D \<and> all_fresh T G R D)"

definition audio_ok :: "(ptr \<Rightarrow> OSScTask) \<Rightarrow> ptr list \<Rightarrow> ptr \<Rightarrow> ptr \<Rightarrow> bool" where
  "audio_ok T A R D \<longleftrightarrow> (\<forall>t\<in>set A. waits (T t) \<and> t \<noteq> R \<and> t \<noteq> D)"

definition tasks_ok :: "(ptr \<Rightarrow> OSScTask) \<Rightarrow> bool \<Rightarrow> ptr list \<Rightarrow> ptr list \<Rightarrow> ptr \<Rightarrow> ptr \<Rightarrow> bool" where
  "tasks_ok T aud A G R D \<longleftrightarrow>
     distinct (A @ G) \<and> NULL \<notin> set (A @ G) \<and> (aud \<longrightarrow> A \<noteq> []) \<and> audio_ok T A R D \<and> gfx_ok T G R D \<and>
     (R \<noteq> NULL \<longrightarrow> rsp_ok T G R D) \<and> (D \<noteq> NULL \<longrightarrow> rdp_ok T G R D)"

definition pending :: "ptr list \<Rightarrow> ptr list \<Rightarrow> ptr \<Rightarrow> ptr \<Rightarrow> ptr set" where
  "pending A G R D = set A \<union> set G \<union> ({R, D} - {NULL})"

lemma fresh_head: "fresh x \<Longrightarrow> g \<noteq> R \<Longrightarrow> g \<noteq> D \<Longrightarrow> head_ok x g R D"
  by (auto simp: head_ok_def fresh_def)

lemma gfx_ok_fresh:
  "all_fresh T G R D \<Longrightarrow> \<forall>t\<in>set G. is_xbus (T t) \<or> is_dram (T t) \<Longrightarrow> gfx_ok T G R D"
  by (cases G) (auto simp: gfx_ok_def all_fresh_def fresh_head)

lemma waits_no_xbus: "waits x \<Longrightarrow> \<not> is_xbus x \<and> \<not> is_dram x"
  by (simp add: waits_def)

lemma start_audio:
  assumes "tasks_ok T aud (a # A) G NULL D"
  shows "tasks_ok T False A G a D" "a \<noteq> NULL"
proof -
  have a: "waits (T a)" "a \<noteq> D" "a \<notin> set A" "a \<notin> set G" "a \<noteq> NULL"
    using assms by (auto simp: tasks_ok_def audio_ok_def)
  have "gfx_ok T G a D"
    using assms a(4) by (cases G) (auto simp: tasks_ok_def gfx_ok_def all_fresh_def head_ok_def)
  moreover have "rdp_ok T G a D" if "D \<noteq> NULL"
    using assms that a(2) by (auto simp: tasks_ok_def rdp_ok_def)
  moreover have "rsp_ok T G a D" using a by (simp add: rsp_ok_def waits_def)
  ultimately show "tasks_ok T False A G a D" "a \<noteq> NULL"
    using assms a by (auto simp: tasks_ok_def audio_ok_def)
qed

lemma resume_xbus:
  assumes ok: "tasks_ok T aud A (g # G) NULL D" and g: "is_xbus (T g)" "yielded (T g)"
  shows "needs_dp (T g) \<longrightarrow> D = g" "tasks_ok T aud A G g D"
proof -
  have h: "needs_sp (T g)" "needs_dp (T g) = (D = g)" "g \<noteq> NULL" "g \<notin> set G" "g \<notin> set A"
    and f: "all_fresh T G g D"
    using ok g by (auto simp: tasks_ok_def gfx_ok_def head_ok_def all_fresh_def)
  have "rdp_ok T G g D" if "D \<noteq> NULL"
    using ok that g h f by (cases "D = g") (auto simp: tasks_ok_def rdp_ok_def all_fresh_def)
  moreover have "rsp_ok T G g D" using g h f by (simp add: rsp_ok_def all_fresh_def)
  moreover have "gfx_ok T G g D" using ok by (intro gfx_ok_fresh f) (auto simp: tasks_ok_def gfx_ok_def)
  moreover have "audio_ok T A g D" using ok h(5) by (auto simp: tasks_ok_def audio_ok_def)
  ultimately show "tasks_ok T aud A G g D" using ok by (auto simp: tasks_ok_def)
  show "needs_dp (T g) \<longrightarrow> D = g" using h by simp
qed

lemma start_xbus:
  assumes ok: "tasks_ok T aud A (g # G) NULL NULL" and g: "is_xbus (T g)" "\<not> yielded (T g)"
  shows "tasks_ok T aud A G g g" "g \<noteq> NULL"
proof -
  have h: "needs_sp (T g)" "needs_dp (T g)" "g \<noteq> NULL" "g \<notin> set G" "g \<notin> set A"
    and f: "all_fresh T G g g"
    using ok g by (auto simp: tasks_ok_def gfx_ok_def head_ok_def all_fresh_def)
  have "rdp_ok T G g g" "rsp_ok T G g g" using g h f by (auto simp: rdp_ok_def rsp_ok_def all_fresh_def)
  moreover have "gfx_ok T G g g" using ok by (intro gfx_ok_fresh f) (auto simp: tasks_ok_def gfx_ok_def)
  moreover have "audio_ok T A g g" using ok h(5) by (auto simp: tasks_ok_def audio_ok_def)
  ultimately show "tasks_ok T aud A G g g" "g \<noteq> NULL" using ok h by (auto simp: tasks_ok_def)
qed

lemma start_dram:
  assumes ok: "tasks_ok T aud A (g # G) NULL D" and g: "is_dram (T g)" "needs_sp (T g)"
  shows "tasks_ok T aud A (g # G) g D" "g \<noteq> NULL"
proof -
  have x: "\<not> is_xbus (T g)" using g(1) kinds_differ(3) by blast
  then have h: "needs_dp (T g)" "g \<noteq> NULL" "g \<notin> set G" "g \<notin> set A" "D \<noteq> g"
    using ok g by (auto simp: tasks_ok_def gfx_ok_def head_ok_def)
  have "rdp_ok T (g # G) g D" if "D \<noteq> NULL"
    using ok that h(5) by (auto simp: tasks_ok_def rdp_ok_def)
  moreover have "rsp_ok T (g # G) g D" using g by (simp add: rsp_ok_def)
  moreover have "gfx_ok T (g # G) g D"
    using ok g h x by (auto simp: tasks_ok_def gfx_ok_def head_ok_def all_fresh_def)
  moreover have "audio_ok T A g D" using ok h(4) by (auto simp: tasks_ok_def audio_ok_def)
  ultimately show "tasks_ok T aud A (g # G) g D" "g \<noteq> NULL" using ok h by (auto simp: tasks_ok_def)
qed

lemma draw_dram:
  assumes ok: "tasks_ok T aud A (g # G) R NULL" and g: "is_dram (T g)" "\<not> needs_sp (T g)"
  shows "tasks_ok T aud A G R g" "g \<noteq> NULL" "R \<noteq> g"
proof -
  have x: "\<not> is_xbus (T g)" "\<not> waits (T g)" using g(1) kinds_differ(3) waits_no_xbus by blast+
  then have h: "needs_dp (T g)" "g \<noteq> NULL" "g \<notin> set G" "g \<notin> set A" "R \<noteq> g"
    and f: "all_fresh T G R g"
    using ok g by (auto simp: tasks_ok_def gfx_ok_def head_ok_def all_fresh_def)
  have "rdp_ok T G R g" using g h by (auto simp: rdp_ok_def)
  moreover have "rsp_ok T G R g" if "R \<noteq> NULL"
    using ok that h x f g by (auto simp: tasks_ok_def rsp_ok_def fresh_def)
  moreover have "gfx_ok T G R g" using ok by (intro gfx_ok_fresh f) (auto simp: tasks_ok_def gfx_ok_def)
  moreover have "audio_ok T A R g" using ok h(4) by (auto simp: tasks_ok_def audio_ok_def)
  ultimately show "tasks_ok T aud A G R g" "g \<noteq> NULL" "R \<noteq> g" using ok h by (auto simp: tasks_ok_def)
qed

text \<open>What the end of a run changes in the state of a task: the kind and the other bit stay.\<close>

definition same_kind :: "OSScTask \<Rightarrow> OSScTask \<Rightarrow> bool" where
  "same_kind x y \<longleftrightarrow> is_audio x = is_audio y \<and> is_xbus x = is_xbus y \<and> is_dram x = is_dram y"

lemma gfx_ok_upd [simp]: "t \<notin> set G \<Longrightarrow> gfx_ok (T(t := y)) G R D = gfx_ok T G R D"
  by (cases G) (auto simp: gfx_ok_def all_fresh_def)

lemma audio_ok_upd [simp]: "t \<notin> set A \<Longrightarrow> audio_ok (T(t := y)) A R D = audio_ok T A R D"
  by (auto simp: audio_ok_def)

lemma gfx_ok_stop:
  assumes "gfx_ok T G R D" "NULL \<notin> set G"
  shows "gfx_ok T G NULL D"
  using assms by (cases G) (auto simp: gfx_ok_def all_fresh_def head_ok_def)

lemma kind_in_list: "tasks_ok T aud A G R D \<Longrightarrow> t \<in> set G \<Longrightarrow> is_xbus (T t) \<or> is_dram (T t)"
  by (auto simp: tasks_ok_def gfx_ok_def)

text \<open>The task on the RSP is an audio task, a task for the direct bus outside the list, or the head of the list.\<close>

lemma on_rsp:
  assumes ok: "tasks_ok T aud A G R D" and "R \<noteq> NULL"
  obtains (audio) "waits (T R)" "R \<notin> set G" "R \<notin> set A" "R \<noteq> D"
  | (xbus) "is_xbus (T R)" "R \<notin> set G" "R \<notin> set A" "needs_sp (T R)" "needs_dp (T R) = (D = R)" "all_fresh T G R D"
  | (dram) G' where "is_dram (T R)" "G = R # G'" "R \<notin> set G'" "R \<notin> set A" "R \<noteq> D" "needs_sp (T R)" "needs_dp (T R)"
      "all_fresh T G' R D"
proof -
  have r: "rsp_ok T G R D" and A: "R \<notin> set A" and g: "gfx_ok T G R D"
    using ok \<open>R \<noteq> NULL\<close> by (auto simp: tasks_ok_def audio_ok_def)
  from r consider "waits (T R)" "R \<noteq> D"
    | "is_xbus (T R)" "needs_sp (T R)" "R \<notin> set G" "needs_dp (T R) = (D = R)" "\<forall>g\<in>set G. fresh (T g) \<and> g \<noteq> D"
    | "is_dram (T R)" "needs_sp (T R)" "G \<noteq> []" "hd G = R"
    by (auto simp: rsp_ok_def)
  then show thesis
  proof cases
    case 1
    then have "R \<notin> set G" using kind_in_list [OF ok] waits_no_xbus by blast
    then show thesis using 1 A audio by blast
  next
    case 2
    then have "all_fresh T G R D" by (auto simp: all_fresh_def)
    then show thesis using 2 A xbus by blast
  next
    case 3
    then obtain G' where G: "G = R # G'" by (cases G) auto
    have "\<not> is_xbus (T R)" using 3(1) kinds_differ(3) by blast
    then have "D \<noteq> R" "needs_dp (T R)" "all_fresh T G' R D"
      using g unfolding G by (auto simp: gfx_ok_def head_ok_def)
    moreover have "R \<notin> set G'" using ok G by (simp add: tasks_ok_def)
    ultimately show thesis using 3 A G dram by metis
  qed
qed

lemma rsp_done:
  assumes ok: "tasks_ok T aud A G R D" and "R \<noteq> NULL" and k: "same_kind (T R) y" "\<not> needs_sp y" "needs_dp y = needs_dp (T R)"
  shows "tasks_ok (T(R := y)) aud A G NULL D \<and>
    pending A G NULL D = (if needs_dp y then pending A G R D else pending A G R D - {R}) \<and> R \<in> pending A G R D"
proof -
  have 0: "NULL \<notin> set G" "NULL \<notin> set A" "gfx_ok T G R D" "audio_ok T A R D" using ok by (auto simp: tasks_ok_def)
  have a: "R \<notin> set A" using 0(4) by (auto simp: audio_ok_def)
  have A: "audio_ok (T(R := y)) A NULL D" using a 0 by (auto simp: audio_ok_def)
  have K: "is_xbus y = is_xbus (T R)" "is_dram y = is_dram (T R)" using k(1) by (auto simp: same_kind_def)
  have D: "rdp_ok (T(R := y)) G NULL D" if "D \<noteq> NULL" "D = R \<longrightarrow> is_xbus (T R) \<and> R \<notin> set G"
  proof -
    have "rdp_ok T G R D" using ok that by (simp add: tasks_ok_def)
    then show ?thesis using that K k by (cases "D = R") (auto simp: rdp_ok_def)
  qed
  show ?thesis using ok \<open>R \<noteq> NULL\<close>
  proof (cases rule: on_rsp)
    case audio
    then show ?thesis using ok A D gfx_ok_stop [OF 0(3,1)] k \<open>R \<noteq> NULL\<close> a
      by (auto simp: tasks_ok_def pending_def waits_def)
  next
    case xbus
    then show ?thesis using ok A D gfx_ok_stop [OF 0(3,1)] k \<open>R \<noteq> NULL\<close> a
      by (auto simp: tasks_ok_def pending_def)
  next
    case (dram G')
    have "\<not> is_xbus (T R)" using dram(1) kinds_differ(3) by blast
    then have "gfx_ok (T(R := y)) G NULL D"
      using 0 dram K k \<open>R \<noteq> NULL\<close> by (auto simp: gfx_ok_def head_ok_def all_fresh_def)
    then show ?thesis using ok A D k dram \<open>R \<noteq> NULL\<close> by (auto simp: tasks_ok_def pending_def)
  qed
qed

lemma rsp_yielded:
  assumes ok: "tasks_ok T aud A G R D" and "R \<noteq> NULL" and y: "yielding (T R)"
    and k: "same_kind (T R) y" "needs_sp y = needs_sp (T R)" "needs_dp y = needs_dp (T R)" "yielded y"
  shows "tasks_ok (T(R := y)) aud A (if is_xbus (T R) then R # G else G) NULL D \<and>
    pending A (if is_xbus (T R) then R # G else G) NULL D = pending A G R D"
proof -
  have 0: "NULL \<notin> set G" "NULL \<notin> set A" "gfx_ok T G R D" "audio_ok T A R D" using ok by (auto simp: tasks_ok_def)
  have a: "R \<notin> set A" using 0(4) by (auto simp: audio_ok_def)
  have A: "audio_ok (T(R := y)) A NULL D" using a 0 by (auto simp: audio_ok_def)
  have K: "is_xbus y = is_xbus (T R)" "is_dram y = is_dram (T R)" using k(1) by (auto simp: same_kind_def)
  show ?thesis using ok \<open>R \<noteq> NULL\<close>
  proof (cases rule: on_rsp)
    case audio
    then show ?thesis using y by (simp add: waits_def)
  next
    case xbus
    have "rdp_ok (T(R := y)) (R # G) NULL D" if "D \<noteq> NULL"
    proof -
      have "rdp_ok T G R D" using ok that by (simp add: tasks_ok_def)
      then show ?thesis using xbus that K k by (cases "D = R") (auto simp: rdp_ok_def)
    qed
    moreover have "gfx_ok (T(R := y)) (R # G) NULL D"
      using xbus 0 K k \<open>R \<noteq> NULL\<close> by (auto simp: gfx_ok_def head_ok_def all_fresh_def) 
    ultimately show ?thesis using ok A xbus \<open>R \<noteq> NULL\<close> by (auto simp: tasks_ok_def pending_def)
  next
    case (dram G')
    have x: "\<not> is_xbus (T R)" using dram(1) kinds_differ(3) by blast
    then have "gfx_ok (T(R := y)) G NULL D"
      using 0 dram K k \<open>R \<noteq> NULL\<close> by (auto simp: gfx_ok_def head_ok_def all_fresh_def)
    moreover have "rdp_ok (T(R := y)) G NULL D" if "D \<noteq> NULL"
      using ok that dram(5) by (auto simp: tasks_ok_def rdp_ok_def)
    ultimately show ?thesis using ok A dram x \<open>R \<noteq> NULL\<close> by (auto simp: tasks_ok_def pending_def)
  qed
qed

lemma rdp_done:
  assumes ok: "tasks_ok T aud A G R D" and "D \<noteq> NULL" and k: "same_kind (T D) y" "\<not> needs_dp y" "needs_sp y = needs_sp (T D)"
    "yielded y = yielded (T D)"
  shows "tasks_ok (T(D := y)) aud A G R NULL \<and>
    pending A G R NULL = (if needs_sp y then pending A G R D else pending A G R D - {D}) \<and> D \<in> pending A G R D"
proof -
  have d: "rdp_ok T G R D" "D \<notin> set A" using ok \<open>D \<noteq> NULL\<close> by (auto simp: tasks_ok_def audio_ok_def)
  have A: "audio_ok (T(D := y)) A R NULL" using ok d(2) by (auto simp: tasks_ok_def audio_ok_def)
  have K: "is_xbus y = is_xbus (T D)" "is_dram y = is_dram (T D)" using k(1) by (auto simp: same_kind_def)
  have N: "NULL \<notin> set G" using ok by (simp add: tasks_ok_def)
  have g: "gfx_ok T G R D" using ok by (simp add: tasks_ok_def)
  have R: "rsp_ok (T(D := y)) G R NULL" if "R \<noteq> NULL" "R \<noteq> D"
    using ok that N by (auto simp: tasks_ok_def rsp_ok_def)
  consider "D \<in> set G" | "D \<notin> set G" "D = R" | "D \<notin> set G" "D \<noteq> R" by blast
  then show ?thesis
  proof cases
    case 1
    then obtain G' where G: "G = D # G'" "D \<notin> set G'" "D \<noteq> R" "is_xbus (T D)" "yielded (T D)" "needs_sp (T D)"
      using g d(1) ok by (cases G) (auto simp: gfx_ok_def all_fresh_def head_ok_def rdp_ok_def split: if_splits)
    then have "gfx_ok (T(D := y)) G R NULL"
      using g K k N by (auto simp: gfx_ok_def head_ok_def all_fresh_def)
    then show ?thesis using ok A R G k \<open>D \<noteq> NULL\<close> by (auto simp: tasks_ok_def pending_def)
  next
    case 2
    then have x: "is_xbus (T D)" "needs_sp (T D)" using d(1) by (auto simp: rdp_ok_def)
    moreover have "\<not> waits (T D)" "\<not> is_dram (T D)" using x(1) waits_no_xbus kinds_differ(3) by blast+
    moreover have "rsp_ok T G R D" using ok 2 \<open>D \<noteq> NULL\<close> by (simp add: tasks_ok_def)
    ultimately have "all_fresh T G R D" using 2 by (auto simp: rsp_ok_def all_fresh_def)
    then have f: "all_fresh (T(D := y)) G R NULL" using 2 N by (auto simp: all_fresh_def)
    then have "gfx_ok (T(D := y)) G R NULL" using ok 2 by (intro gfx_ok_fresh) (auto simp: tasks_ok_def gfx_ok_def)
    moreover have "rsp_ok (T(D := y)) G R NULL" using f 2 N x K k \<open>D \<noteq> NULL\<close> by (auto simp: rsp_ok_def all_fresh_def)
    ultimately show ?thesis using ok A 2 x k \<open>D \<noteq> NULL\<close> by (auto simp: tasks_ok_def pending_def)
  next
    case 3
    then have "gfx_ok (T(D := y)) G R NULL"
      using g N by (cases G) (auto simp: gfx_ok_def head_ok_def all_fresh_def)
    moreover have "\<not> needs_sp (T D)" using d(1) 3 by (auto simp: rdp_ok_def)
    ultimately show ?thesis using ok A R 3 k d(2) \<open>D \<noteq> NULL\<close> by (auto simp: tasks_ok_def pending_def)
  qed
qed

text \<open>A running task may get other marks, and the links are not looked at.\<close>

lemma tasks_ok_cong:
  assumes "\<And>t. st_state (T' t) = st_state (T t) \<and> same_kind (T t) (T' t)"
  shows "tasks_ok T' aud A G R D = tasks_ok T aud A G R D"
proof -
  have "waits (T' t) = waits (T t)" "fresh (T' t) = fresh (T t)" "is_xbus (T' t) = is_xbus (T t)"
    "is_dram (T' t) = is_dram (T t)" "st_state (T' t) = st_state (T t)" "head_ok (T' t) g R D = head_ok (T t) g R D" for t g
    using assms [of t] by (simp_all add: waits_def fresh_def same_kind_def head_ok_def)
  then show ?thesis
    by (simp add: tasks_ok_def audio_ok_def gfx_ok_def all_fresh_def rsp_ok_def rdp_ok_def cong: list.case_cong)
qed

lemma mark_running:
  assumes ok: "tasks_ok T aud A G R D" and "R \<noteq> NULL"
    and k: "same_kind (T R) y" "needs_sp y = needs_sp (T R)" "needs_dp y = needs_dp (T R)" "waits (T R) \<Longrightarrow> \<not> yielding y"
  shows "tasks_ok (T(R := y)) aud A G R D"
proof -
  have a: "R \<notin> set A" using ok by (auto simp: tasks_ok_def audio_ok_def)
  have A: "audio_ok (T(R := y)) A R D" using ok a by (auto simp: tasks_ok_def)
  have K: "is_xbus y = is_xbus (T R)" "is_dram y = is_dram (T R)" "is_audio y = is_audio (T R)"
    using k(1) by (auto simp: same_kind_def)
  have D: "rdp_ok (T(R := y)) G R D" if "D \<noteq> NULL"
    using ok that K k(2,3) by (cases "D = R") (auto simp: tasks_ok_def rdp_ok_def)
  show ?thesis using ok \<open>R \<noteq> NULL\<close>
  proof (cases rule: on_rsp)
    case audio
    then have "rsp_ok (T(R := y)) G R D" using K k by (simp add: rsp_ok_def waits_def)
    then show ?thesis using ok A D audio by (simp add: tasks_ok_def)
  next
    case xbus
    then have "rsp_ok (T(R := y)) G R D" using K k by (auto simp: rsp_ok_def all_fresh_def)
    then show ?thesis using ok A D xbus by (simp add: tasks_ok_def)
  next
    case (dram G')
    have "\<not> is_xbus (T R)" using dram(1) kinds_differ(3) by blast
    then have "gfx_ok (T(R := y)) G R D"
      using ok dram K k by (auto simp: tasks_ok_def gfx_ok_def head_ok_def all_fresh_def)
    moreover have "rsp_ok (T(R := y)) G R D" using dram K k by (simp add: rsp_ok_def)
    ultimately show ?thesis using ok A D by (simp add: tasks_ok_def)
  qed
qed

lemma append_audio:
  assumes ok: "tasks_ok T aud A G R D" and t: "t \<notin> pending A G R D" "t \<noteq> NULL" "waits y"
  shows "tasks_ok (T(t := y)) True (A @ [t]) G R D"
proof -
  have n: "t \<notin> set A" "t \<notin> set G" "t \<noteq> R" "t \<noteq> D" using t by (auto simp: pending_def)
  have "rsp_ok (T(t := y)) G R D = rsp_ok T G R D" "rdp_ok (T(t := y)) G R D = rdp_ok T G R D"
    using n by (auto simp: rsp_ok_def rdp_ok_def)
  moreover have "audio_ok (T(t := y)) (A @ [t]) R D" using ok n t(3) by (auto simp: tasks_ok_def audio_ok_def)
  ultimately show ?thesis using ok n t by (auto simp: tasks_ok_def)
qed

lemma append_gfx:
  assumes ok: "tasks_ok T aud A G R D" and t: "t \<notin> pending A G R D" "t \<noteq> NULL" "fresh y" "is_xbus y \<or> is_dram y"
  shows "tasks_ok (T(t := y)) aud A (G @ [t]) R D"
proof -
  have n: "t \<notin> set A" "t \<notin> set G" "t \<noteq> R" "t \<noteq> D" using t by (auto simp: pending_def)
  have "rdp_ok (T(t := y)) (G @ [t]) R D = rdp_ok T G R D" using n by (auto simp: rdp_ok_def)
  moreover have "rsp_ok (T(t := y)) (G @ [t]) R D" if "R \<noteq> NULL"
    using ok that n t(3) by (auto simp: tasks_ok_def rsp_ok_def)
  moreover have "gfx_ok (T(t := y)) (G @ [t]) R D"
    using ok n t(3,4) by (cases G) (auto simp: tasks_ok_def gfx_ok_def all_fresh_def fresh_head)
  ultimately show ?thesis using ok n t by (auto simp: tasks_ok_def)
qed

subsection \<open>The lists in memory\<close>

primrec links :: "(ptr \<Rightarrow> OSScTask) \<Rightarrow> ptr \<Rightarrow> ptr list \<Rightarrow> bool" where
  "links T h [] \<longleftrightarrow> h = NULL"
| "links T h (x # xs) \<longleftrightarrow> h = x \<and> h \<noteq> NULL \<and> links T (st_next (T x)) xs"

definition linked :: "(ptr \<Rightarrow> OSScTask) \<Rightarrow> ptr \<Rightarrow> ptr \<Rightarrow> ptr list \<Rightarrow> bool" where
  "linked T h l xs \<longleftrightarrow> links T h xs \<and> l = (if xs = [] then NULL else last xs)"

lemma links_cong: "(\<And>t. t \<in> set xs \<Longrightarrow> st_next (T' t) = st_next (T t)) \<Longrightarrow> links T' h xs = links T h xs"
  by (induction xs arbitrary: h) auto

lemma linked_cong: "(\<And>t. t \<in> set xs \<Longrightarrow> st_next (T' t) = st_next (T t)) \<Longrightarrow> linked T' h l xs = linked T h l xs"
  using links_cong [of xs T' T h] by (simp add: linked_def)

lemma linked_upd [simp]: "t \<notin> set xs \<Longrightarrow> linked (T(t := y)) h l xs = linked T h l xs"
  by (rule linked_cong) auto

lemma links_head: "links T h xs \<Longrightarrow> h = (if xs = [] then NULL else hd xs)"
  by (cases xs) auto

lemma linked_pop:
  assumes "linked T h l (x # xs)"
  shows "h = x" "linked T (st_next (T x)) (if st_next (T x) = NULL then NULL else l) xs"
  using assms by (cases xs; auto simp: linked_def)+

lemma links_upd [simp]: "t \<notin> set xs \<Longrightarrow> links (T(t := y)) h xs = links T h xs"
  by (rule links_cong) auto

lemma links_NULL: "links T h xs \<Longrightarrow> NULL \<notin> set xs"
  by (induction xs arbitrary: h) auto

lemma linked_tail: "linked T h l xs \<Longrightarrow> (l = NULL) = (xs = [])"
  using links_NULL [of T h xs] by (cases xs rule: rev_cases) (auto simp: linked_def)

lemma linked_push:
  assumes "linked T h l xs" "x \<noteq> NULL" "x \<notin> set xs" "st_next y = h"
  shows "linked (T(x := y)) x (if l = NULL then x else l) (x # xs)"
  using assms linked_tail [OF assms(1)] by (auto simp: linked_def)

lemma links_snoc:
  assumes "links T h (xs @ [b])" "x \<noteq> NULL" "distinct (xs @ [b])" "x \<notin> set (xs @ [b])" "st_next y = NULL"
  shows "links (T(b := (T b)\<lparr>st_next := x\<rparr>, x := y)) h (xs @ [b, x])"
  using assms
proof (induction xs arbitrary: h)
  case (Cons a xs)
  then show ?case by auto
qed auto

lemma linked_append:
  assumes "linked T h l xs" "x \<noteq> NULL" "distinct xs" "x \<notin> set xs" "NULL \<notin> set xs" "st_next y = NULL"
  shows "if l \<noteq> NULL then linked (T(l := (T l)\<lparr>st_next := x\<rparr>, x := y)) h x (xs @ [x]) else linked (T(x := y)) x x (xs @ [x])"
proof (cases xs rule: rev_cases)
  case (snoc ys b)
  then show ?thesis using assms links_snoc [of T h ys b x y] by (auto simp: linked_def)
qed (use assms in \<open>simp add: linked_def\<close>)

text \<open>\<open>sched_ok sc A G R D\<close>: the lists in memory are \<open>A\<close> and \<open>G\<close>, and with \<open>R\<close> and \<open>D\<close> on the processors the
  tasks are in order.  While the next tasks are chosen, \<open>R\<close> and \<open>D\<close> run ahead of the fields.\<close>

definition sched_ok :: "OSSched \<Rightarrow> ptr list \<Rightarrow> ptr list \<Rightarrow> ptr \<Rightarrow> ptr \<Rightarrow> bool" where
  "sched_ok sc A G R D \<longleftrightarrow>
     linked (sc_task sc) (audioListHead sc) (audioListTail sc) A \<and>
     linked (sc_task sc) (gfxListHead sc) (gfxListTail sc) G \<and>
     tasks_ok (sc_task sc) (doAudio sc \<noteq> 0) A G R D"

definition same_rest :: "OSSched \<Rightarrow> OSSched \<Rightarrow> bool" where
  "same_rest sc sc' \<longleftrightarrow> sc_task sc' = sc_task sc \<and> curRSPTask sc' = curRSPTask sc \<and> curRDPTask sc' = curRDPTask sc \<and>
     sc_out sc' = sc_out sc \<and> sc_vi sc' = sc_vi sc \<and> sc_client sc' = sc_client sc \<and> clientList sc' = clientList sc \<and>
     firsttime sc' = firsttime sc"

definition choosing :: "OSSched \<Rightarrow> ptr set \<Rightarrow> u32 \<times> ptr \<times> ptr \<times> OSSched \<Rightarrow> ptr list \<Rightarrow> ptr list \<Rightarrow> ptr \<Rightarrow> ptr \<Rightarrow> bool" where
  "choosing sc0 P = (\<lambda>(avail, sp, dp, sc) A G R D.
     sched_ok sc A G R D \<and> same_rest sc0 sc \<and> pending A G R D = P \<and> avail = rcp (R = NULL) (D = NULL) \<and>
     R = (if sp \<noteq> NULL then sp else curRSPTask sc0) \<and> (sp \<noteq> NULL \<longrightarrow> curRSPTask sc0 = NULL) \<and>
     D = (if dp \<noteq> NULL then dp else curRDPTask sc0) \<and> (dp \<noteq> NULL \<longrightarrow> dp = sp \<or> curRDPTask sc0 = NULL))"

lemma pop_audio_ok:
  assumes "linked (sc_task sc) (audioListHead sc) (audioListTail sc) (a # A)"
  shows "audioListHead sc = a" "same_rest sc (pop_audio (sc\<lparr>doAudio := v\<rparr>))" "doAudio (pop_audio (sc\<lparr>doAudio := v\<rparr>)) = v"
    "gfxListHead (pop_audio (sc\<lparr>doAudio := v\<rparr>)) = gfxListHead sc" "gfxListTail (pop_audio (sc\<lparr>doAudio := v\<rparr>)) = gfxListTail sc"
    "linked (sc_task sc) (audioListHead (pop_audio (sc\<lparr>doAudio := v\<rparr>))) (audioListTail (pop_audio (sc\<lparr>doAudio := v\<rparr>))) A"
  using linked_pop [OF assms] by (auto simp: pop_audio_def same_rest_def Let_def)

lemma pop_gfx_ok:
  assumes "linked (sc_task sc) (gfxListHead sc) (gfxListTail sc) (g # G)"
  shows "gfxListHead sc = g" "same_rest sc (pop_gfx sc)" "doAudio (pop_gfx sc) = doAudio sc"
    "audioListHead (pop_gfx sc) = audioListHead sc" "audioListTail (pop_gfx sc) = audioListTail sc"
    "linked (sc_task sc) (gfxListHead (pop_gfx sc)) (gfxListTail (pop_gfx sc)) G"
  using linked_pop [OF assms] by (auto simp: pop_gfx_def same_rest_def Let_def)

lemma pop_gfx_task [simp]: "sc_task (pop_gfx sc) = sc_task sc"
  by (simp add: pop_gfx_def Let_def)

lemma pop_audio_task [simp]: "sc_task (pop_audio sc) = sc_task sc"
  by (simp add: pop_audio_def Let_def)

lemma same_rest_trans: "same_rest a b \<Longrightarrow> same_rest b c \<Longrightarrow> same_rest a c"
  by (simp add: same_rest_def)

lemma kind_flags:
  "is_xbus x \<Longrightarrow> st_flags x AND OS_SC_TYPE_MASK = OS_SC_XBUS \<and> \<not> bit (st_flags x) 4"
  "is_dram x \<Longrightarrow> st_flags x AND OS_SC_TYPE_MASK = OS_SC_DRAM \<and> \<not> bit (st_flags x) 4"
  "OS_SC_DRAM \<noteq> OS_SC_XBUS"
  by (simp_all add: is_xbus_def is_dram_def) (simp add: sc_flag_defs)

lemma scTaskReady_cases: "scTaskReady t sc = t \<or> scTaskReady t sc = NULL"
  by (simp add: scTaskReady_def)

lemma choosing_step:
  assumes "choosing sc0 P (avail, sp, dp, sc) A G R D" "same_rest sc sc'" "sched_ok sc' A' G' R' D'"
    "pending A' G' R' D' = pending A G R D" "avail' = rcp (R' = NULL) (D' = NULL)"
    "sp' = sp \<and> R' = R \<or> R = NULL \<and> sp' = R' \<and> R' \<noteq> NULL"
    "dp' = dp \<and> D' = D \<or> dp' = D' \<and> D' \<noteq> NULL \<and> (D = NULL \<or> D = D' \<and> dp' = sp')"
  shows "choosing sc0 P (avail', sp', dp', sc') A' G' R' D'"
proof -
  have "same_rest sc0 sc'" using assms(1,2) same_rest_trans by (auto simp: choosing_def)
  moreover have "curRDPTask sc = curRDPTask sc0" using assms(1) by (simp add: choosing_def same_rest_def)
  ultimately show ?thesis using assms by (auto simp: choosing_def split: if_splits)
qed

text \<open>One pass, by cases on what it starts.\<close>

lemma schedule_pass_ok:
  assumes c: "choosing sc0 P (avail, sp, dp, sc) A G R D"
  shows "\<exists>A' G' R' D'. choosing sc0 P (schedule_pass sp dp avail sc) A' G' R' D'"
proof -
  have l: "linked (sc_task sc) (audioListHead sc) (audioListTail sc) A" "linked (sc_task sc) (gfxListHead sc) (gfxListTail sc) G"
    and ok: "tasks_ok (sc_task sc) (doAudio sc \<noteq> 0) A G R D" and rest: "same_rest sc0 sc"
    and av: "avail = rcp (R = NULL) (D = NULL)"
    using c by (auto simp: choosing_def sched_ok_def)
  note kinds = kind_in_list [OF ok]
  have same: "schedule_pass sp dp avail sc = (avail, sp, dp, sc) \<Longrightarrow> ?thesis" using c by metis
  show ?thesis
  proof (cases "doAudio sc \<noteq> 0 \<and> R = NULL")
    case True
    then obtain a A' where A: "A = a # A'" using ok by (cases A) (auto simp: tasks_ok_def)
    have "\<not> (gfxListHead sc \<noteq> NULL \<and> bit (st_flags (sc_task sc (gfxListHead sc))) 4)"
      using l(2) kinds kind_flags by (cases G) (auto simp: linked_def)
    moreover note p = pop_audio_ok [OF l(1) [unfolded A]]
    ultimately have e: "schedule_pass sp dp avail sc = (rcp False (D = NULL), a, dp, pop_audio (sc\<lparr>doAudio := 0\<rparr>))"
      using True by (auto simp: schedule_pass_def Let_def av)
    have s: "tasks_ok (sc_task sc) False A' G a D" "a \<noteq> NULL" using start_audio [of _ _ a A'] ok True A by auto
    have "choosing sc0 P (schedule_pass sp dp avail sc) A' G a D"
      unfolding e using s p l(2) True
      by (intro choosing_step [OF c]) (auto simp: sched_ok_def pending_def A)
    then show ?thesis by blast
  next
    case noaudio: False
    show ?thesis
    proof (cases "scTaskReady (gfxListHead sc) sc = NULL")
      case True
      then show ?thesis using noaudio by (intro same) (auto simp: schedule_pass_def Let_def av)
    next
      case ready: False
      then obtain g G' where G: "G = g # G'" "gfxListHead sc = g"
        using l(2) by (cases G) (auto simp: linked_def scTaskReady_def)
      note p = pop_gfx_ok [OF l(2) [unfolded G(1)]]
      let ?x = "sc_task sc g"
      have "is_xbus ?x \<or> is_dram ?x" using kinds G(1) by simp
      then show ?thesis
      proof
        assume x: "is_xbus ?x"
        then have f: "st_flags ?x AND OS_SC_TYPE_MASK = OS_SC_XBUS" by (simp add: kind_flags)
        show ?thesis
        proof (cases "yielded ?x \<and> R = NULL")
          case True
          note r = resume_xbus [OF ok [unfolded G(1) conjunct2 [OF True]] x conjunct1 [OF True]]
          then have e: "schedule_pass sp dp avail sc =
              (rcp False (D = NULL), g, if needs_dp ?x then g else dp, pop_gfx sc)"
            using True noaudio ready f G(2) p(1) ok by (auto simp: schedule_pass_def Let_def av tasks_ok_def G(1))
          have "choosing sc0 P (schedule_pass sp dp avail sc) A G' g D"
            unfolding e using r p l(1) True ok
            by (intro choosing_step [OF c]) (auto simp: sched_ok_def pending_def G(1) tasks_ok_def)
          then show ?thesis by blast
        next
          case no: False
          show ?thesis
          proof (cases "\<not> yielded ?x \<and> R = NULL \<and> D = NULL")
            case True
            then have s: "tasks_ok (sc_task sc) (doAudio sc \<noteq> 0) A G' g g" "g \<noteq> NULL"
              using start_xbus [of _ _ A g G'] ok x G(1) by auto
            have e: "schedule_pass sp dp avail sc = (rcp False False, g, g, pop_gfx sc)"
              using True noaudio ready f G(2) by (auto simp: schedule_pass_def Let_def av)
            have "choosing sc0 P (schedule_pass sp dp avail sc) A G' g g"
              unfolding e using s p l(1) True
              by (intro choosing_step [OF c]) (auto simp: sched_ok_def pending_def G(1))
            then show ?thesis by blast
          next
            case False
            then show ?thesis using no noaudio ready f G(2) by (intro same) (auto simp: schedule_pass_def Let_def av)
          qed
        qed
      next
        assume d: "is_dram ?x"
        then have f: "st_flags ?x AND OS_SC_TYPE_MASK = OS_SC_DRAM" by (simp add: kind_flags)
        show ?thesis
        proof (cases "needs_sp ?x \<and> R = NULL")
          case True
          note s = start_dram [OF ok [unfolded G(1) conjunct2 [OF True]] d conjunct1 [OF True]]
          have e: "schedule_pass sp dp avail sc = (rcp False (D = NULL), g, dp, sc)"
            using True noaudio ready f G(2) kind_flags(3) by (auto simp: schedule_pass_def Let_def av)
          have "choosing sc0 P (schedule_pass sp dp avail sc) A G g D"
            unfolding e using s l True by (intro choosing_step [OF c]) (auto simp: sched_ok_def pending_def G(1) same_rest_def)
          then show ?thesis by blast
        next
          case no: False
          show ?thesis
          proof (cases "\<not> needs_sp ?x \<and> D = NULL")
            case True
            note s = draw_dram [OF ok [unfolded G(1) conjunct2 [OF True]] d conjunct1 [OF True]]
            have e: "schedule_pass sp dp avail sc = (rcp (R = NULL) False, sp, g, pop_gfx sc)"
              using True no noaudio ready f G(2) kind_flags(3) s ok
              by (auto simp: schedule_pass_def Let_def av G(1) tasks_ok_def gfx_ok_def head_ok_def split: if_splits)
            have "choosing sc0 P (schedule_pass sp dp avail sc) A G' R g"
              unfolding e using s p l(1) True
              by (intro choosing_step [OF c]) (auto simp: sched_ok_def pending_def G(1))
            then show ?thesis by blast
          next
            case False
            then show ?thesis using no noaudio ready f G(2) kind_flags(3)
              by (intro same) (auto simp: schedule_pass_def Let_def av)
          qed
        qed
      qed
    qed
  qed
qed

lemma scSchedule_ok:
  "choosing sc0 P (avail, sp, dp, sc) A G R D \<Longrightarrow> \<exists>A' G' R' D'. choosing sc0 P (scSchedule sp dp avail sc) A' G' R' D'"
proof (induction sp dp avail sc arbitrary: A G R D rule: scSchedule.induct)
  case (1 sp dp availRCP sc)
  obtain avail sp' dp' sc' where p: "schedule_pass sp dp availRCP sc = (avail, sp', dp', sc')" by (metis prod_cases4)
  obtain A' G' R' D' where c: "choosing sc0 P (avail, sp', dp', sc') A' G' R' D'"
    using schedule_pass_ok [OF "1.prems"] unfolding p by blast
  show ?case
  proof (cases "avail = availRCP")
    case True
    then show ?thesis using c by (auto simp: scSchedule.simps [of sp dp] p)
  next
    case False
    then show ?thesis using "1.IH" [OF p [symmetric] refl refl _ c] by (simp add: scSchedule.simps [of sp dp] p)
  qed
qed

text \<open>The messages to the clients that their tasks are done.\<close>

primrec done_msgs :: "sc_output list \<Rightarrow> (ptr \<times> u32) list" where
  "done_msgs [] = []"
| "done_msgs (x # xs) = (case x of Send q m b \<Rightarrow> if b then (q, m) # done_msgs xs else done_msgs xs | _ \<Rightarrow> done_msgs xs)"

lemma done_msgs_append [simp]: "done_msgs (xs @ ys) = done_msgs xs @ done_msgs ys"
  by (induction xs) (auto split: sc_output.split)

text \<open>What no turn changes in a task: its kind, its flags and where it reports.\<close>

definition same_task :: "OSScTask \<Rightarrow> OSScTask \<Rightarrow> bool" where
  "same_task x y \<longleftrightarrow> st_flags y = st_flags x \<and> st_msgQ y = st_msgQ x \<and> st_msg y = st_msg x \<and>
     st_framebuffer y = st_framebuffer x \<and> tk_type (st_list y) = tk_type (st_list x)"

lemma same_task_refl [simp]: "same_task x x" by (simp add: same_task_def)

lemma same_task_trans: "same_task x y \<Longrightarrow> same_task y z \<Longrightarrow> same_task x z" by (simp add: same_task_def)

lemma same_task_kind: "same_task x y \<Longrightarrow> same_kind x y"
  by (simp add: same_task_def same_kind_def is_audio_def is_xbus_def is_dram_def)

definition turn :: "OSSched \<Rightarrow> sc_output list \<Rightarrow> OSSched \<Rightarrow> bool" where
  "turn sc os sc' \<longleftrightarrow> sc_out sc' = sc_out sc @ os \<and> (\<forall>t. same_task (sc_task sc t) (sc_task sc' t))"

lemma turn_trans: "turn a os b \<Longrightarrow> turn b os' c \<Longrightarrow> turn a (os @ os') c"
  by (auto simp: turn_def intro: same_task_trans)

lemma turn_refl [simp]: "turn a [] a" by (simp add: turn_def)

definition rcp_inv :: "OSSched \<Rightarrow> ptr set \<Rightarrow> bool" where
  "rcp_inv sc P \<longleftrightarrow> (\<exists>A G. sched_ok sc A G (curRSPTask sc) (curRDPTask sc) \<and> pending A G (curRSPTask sc) (curRDPTask sc) = P)"

lemma osSpTaskLoad_type: "tk_type (fst (osSpTaskLoad e t)) = tk_type t" "done_msgs (snd (osSpTaskLoad e t)) = []"
  by (simp_all add: osSpTaskLoad_def Let_def)

lemma osDpSetNextBuffer_out: "done_msgs (snd (osDpSetNextBuffer e st b n)) = []"
  by (simp add: osDpSetNextBuffer_def)

definition restarted :: "sc_env \<Rightarrow> OSScTask \<Rightarrow> OSScTask" where
  "restarted e x = x\<lparr>st_state := st_state x AND NOT (OS_SC_YIELD OR OS_SC_YIELDED), st_list := fst (osSpTaskLoad e (st_list x))\<rparr>"

lemma restarted:
  "same_task x (restarted e x)" "needs_sp (restarted e x) = needs_sp x" "needs_dp (restarted e x) = needs_dp x"
  "\<not> yielding (restarted e x)" "\<not> yielded (restarted e x)" "st_next (restarted e x) = st_next x"
  by (simp_all add: restarted_def same_task_def osSpTaskLoad_type bit_simps)

lemma scExec_fields:
  "sc_task (scExec e st sp dp sc) = (if sp \<noteq> NULL then (sc_task sc)(sp := restarted e (sc_task sc sp)) else sc_task sc)"
  "curRSPTask (scExec e st sp dp sc) = (if sp \<noteq> NULL then sp else curRSPTask sc)"
  "curRDPTask (scExec e st sp dp sc) = (if dp \<noteq> NULL then dp else curRDPTask sc)"
  "audioListHead (scExec e st sp dp sc) = audioListHead sc" "audioListTail (scExec e st sp dp sc) = audioListTail sc"
  "gfxListHead (scExec e st sp dp sc) = gfxListHead sc" "gfxListTail (scExec e st sp dp sc) = gfxListTail sc"
  "doAudio (scExec e st sp dp sc) = doAudio sc" "sc_vi (scExec e st sp dp sc) = sc_vi sc"
  "sc_client (scExec e st sp dp sc) = sc_client sc" "clientList (scExec e st sp dp sc) = clientList sc"
  by (auto simp: scExec_def Let_def sc_emit_def upd_task_def restarted_def split: prod.split)

definition exec_output :: "sc_env \<Rightarrow> u32 \<Rightarrow> ptr \<Rightarrow> ptr \<Rightarrow> (ptr \<Rightarrow> OSScTask) \<Rightarrow> sc_output list" where
  "exec_output e st sp dp T =
     (if sp \<noteq> NULL then snd (osSpTaskLoad e (st_list (T sp))) @ osSpTaskStartGo else []) @
     (if dp \<noteq> NULL \<and> dp \<noteq> sp
      then snd (osDpSetNextBuffer e st (output_buff (st_list (T dp))) (se_size e (output_buff_size (st_list (T dp)))))
      else [])"

lemma scExec_out: "sc_out (scExec e st sp dp sc) = sc_out sc @ exec_output e st sp dp (sc_task sc)"
  by (auto simp: scExec_def exec_output_def Let_def sc_emit_def upd_task_def split: prod.split)

lemma exec_output_done [simp]: "done_msgs (exec_output e st sp dp T) = []"
  by (simp add: exec_output_def osSpTaskLoad_type osDpSetNextBuffer_out osSpTaskStartGo_def)

lemma scExec_ok:
  assumes c: "choosing sc0 P (avail, sp, dp, sc) A G R D"
  shows "sched_ok (scExec e st sp dp sc) A G R D" "turn sc (exec_output e st sp dp (sc_task sc)) (scExec e st sp dp sc)"
    "curRSPTask (scExec e st sp dp sc) = R" "curRDPTask (scExec e st sp dp sc) = D"
proof -
  show R: "curRSPTask (scExec e st sp dp sc) = R" "curRDPTask (scExec e st sp dp sc) = D"
    using c by (auto simp: scExec_fields choosing_def same_rest_def)
  have ok: "sched_ok sc A G R D" and r: "sp \<noteq> NULL \<Longrightarrow> R = sp" using c by (auto simp: choosing_def)
  show "sched_ok (scExec e st sp dp sc) A G R D"
  proof (cases "sp = NULL")
    case False
    let ?T = "(sc_task sc)(sp := restarted e (sc_task sc sp))"
    have "tasks_ok ?T (doAudio sc \<noteq> 0) A G R D"
      using ok r [OF False] False restarted same_task_kind
      by (simp only: sched_ok_def) (intro mark_running, auto)
    moreover have "linked ?T h l xs = linked (sc_task sc) h l xs" for h l xs
      by (rule linked_cong) (simp add: restarted)
    ultimately show ?thesis using ok False by (simp add: sched_ok_def scExec_fields)
  qed (use ok in \<open>simp add: sched_ok_def scExec_fields\<close>)
  show "turn sc (exec_output e st sp dp (sc_task sc)) (scExec e st sp dp sc)"
    by (auto simp: turn_def scExec_out scExec_fields restarted)
qed

lemma choosing_none:
  assumes "choosing sc P (rcp (curRSPTask sc = NULL) (curRDPTask sc = NULL), sp, dp, sc') A G R D"
  shows "sp = NULL \<and> dp = NULL"
proof -
  have e: "(R = NULL) = (curRSPTask sc = NULL)" "(D = NULL) = (curRDPTask sc = NULL)"
    and sp: "sp \<noteq> NULL \<Longrightarrow> R = sp \<and> curRSPTask sc = NULL"
    and dp: "dp \<noteq> NULL \<Longrightarrow> D = dp \<and> (dp = sp \<or> curRDPTask sc = NULL)"
    using assms unfolding choosing_def prod.case rcp_simps by argo+
  from sp e(1) have "sp = NULL" by blast
  with dp e(2) show ?thesis by blast
qed

lemma schedule_and_exec_run:
  assumes inv: "rcp_inv sc P"
  obtains avail sp dp sc' A G R D where "scSchedule NULL NULL (rcp_state sc) sc = (avail, sp, dp, sc')"
    "choosing sc P (avail, sp, dp, sc') A G R D" "schedule_and_exec e st sc = scExec e st sp dp sc'"
proof -
  from inv obtain A G where ok: "sched_ok sc A G (curRSPTask sc) (curRDPTask sc)" "pending A G (curRSPTask sc) (curRDPTask sc) = P"
    by (auto simp: rcp_inv_def)
  then have "choosing sc P (rcp_state sc, NULL, NULL, sc) A G (curRSPTask sc) (curRDPTask sc)"
    by (simp add: choosing_def same_rest_def rcp_state)
  from scSchedule_ok [OF this] obtain avail sp dp sc' A' G' R D
    where s: "scSchedule NULL NULL (rcp_state sc) sc = (avail, sp, dp, sc')" and c: "choosing sc P (avail, sp, dp, sc') A' G' R D"
    by (metis prod_cases4)
  have k: "sp = NULL \<and> dp = NULL" if "avail = rcp_state sc"
    using choosing_none [OF c [unfolded that rcp_state]] .
  have "scExec e st NULL NULL sc' = sc'" by (simp add: scExec_def)
  then have "schedule_and_exec e st sc = scExec e st sp dp sc'"
    using k by (cases "avail = rcp_state sc") (simp_all add: schedule_and_exec_def s Let_def)
  with that [OF s c] show thesis .
qed

lemma schedule_and_exec_ok:
  assumes inv: "rcp_inv sc P"
  shows "rcp_inv (schedule_and_exec e st sc) P \<and> (\<exists>os. turn sc os (schedule_and_exec e st sc) \<and> done_msgs os = [])"
  using inv
proof (rule schedule_and_exec_run [where e = e and st = st])
  fix avail sp dp sc' A' G' R D
  assume s: "scSchedule NULL NULL (rcp_state sc) sc = (avail, sp, dp, sc')" and c: "choosing sc P (avail, sp, dp, sc') A' G' R D"
    and e: "schedule_and_exec e st sc = scExec e st sp dp sc'"
  have f: "pending A' G' R D = P" "sc_task sc' = sc_task sc" "sc_out sc' = sc_out sc"
    using c unfolding choosing_def prod.case same_rest_def by argo+
  note x = scExec_ok [OF c, of e st]
  have "rcp_inv (scExec e st sp dp sc') P" unfolding rcp_inv_def x(3,4) using x(1) f(1) by blast
  moreover have "turn sc (exec_output e st sp dp (sc_task sc')) (scExec e st sp dp sc')"
    using x(2) by (simp add: turn_def f(2,3))
  ultimately show ?thesis unfolding e by (meson exec_output_done)
qed

subsection \<open>The turns\<close>

lemma scTaskComplete_fields [simp]:
  "sc_task (snd (scTaskComplete t sc)) = sc_task sc" "curRSPTask (snd (scTaskComplete t sc)) = curRSPTask sc"
  "curRDPTask (snd (scTaskComplete t sc)) = curRDPTask sc" "audioListHead (snd (scTaskComplete t sc)) = audioListHead sc"
  "audioListTail (snd (scTaskComplete t sc)) = audioListTail sc" "gfxListHead (snd (scTaskComplete t sc)) = gfxListHead sc"
  "gfxListTail (snd (scTaskComplete t sc)) = gfxListTail sc" "doAudio (snd (scTaskComplete t sc)) = doAudio sc"
  by (simp_all add: scTaskComplete_def Let_def sc_emit_def)

lemma scTaskComplete_out:
  "sc_out (snd (scTaskComplete t sc)) = sc_out sc @
     (if needs_sp (sc_task sc t) \<or> needs_dp (sc_task sc t) then [] else [Send (st_msgQ (sc_task sc t)) (st_msg (sc_task sc t)) True])"
  by (simp add: scTaskComplete_def Let_def sc_emit_def)

text \<open>The turns for the two processors up to the choice of the next tasks.\<close>

definition rsp_end :: "u32 \<Rightarrow> OSSched \<Rightarrow> OSSched" where
  "rsp_end spstat sc =
     (let t = curRSPTask sc;
          sc = sc\<lparr>curRSPTask := NULL\<rparr>;
          asked = yielding (sc_task sc t);
          (r, l) = osSpTaskYielded spstat (st_list (sc_task sc t));
          sc = (if asked then upd_task t (\<lambda>x. x\<lparr>st_list := l\<rparr>) sc else sc)
      in if asked \<and> r \<noteq> 0
         then (let sc = upd_task t (\<lambda>x. x\<lparr>st_state := st_state x OR OS_SC_YIELDED\<rparr>) sc
               in if st_flags (sc_task sc t) AND OS_SC_TYPE_MASK = OS_SC_XBUS then push_gfx t sc else sc)
         else snd (scTaskComplete t (upd_task t (\<lambda>x. x\<lparr>st_state := st_state x AND NOT OS_SC_SP\<rparr>) sc)))"

lemma scHandleRSP_eq: "scHandleRSP e spstat dpstat sc = schedule_and_exec e dpstat (rsp_end spstat sc)"
  by (simp add: scHandleRSP_def rsp_end_def Let_def split: prod.split)

definition rdp_end :: "OSSched \<Rightarrow> OSSched" where
  "rdp_end sc =
     (let t = curRDPTask sc
      in snd (scTaskComplete t (upd_task t (\<lambda>x. x\<lparr>st_state := st_state x AND NOT OS_SC_DP\<rparr>) (sc\<lparr>curRDPTask := NULL\<rparr>))))"

lemma scHandleRDP_eq: "scHandleRDP e dpstat sc = schedule_and_exec e dpstat (rdp_end sc)"
  by (simp add: scHandleRDP_def rdp_end_def Let_def)

text \<open>A turn that ends tasks: \<open>ds\<close> are the tasks reported as done.\<close>

definition ends :: "OSSched \<Rightarrow> ptr set \<Rightarrow> ptr list \<Rightarrow> OSSched \<Rightarrow> bool" where
  "ends sc P ds sc' \<longleftrightarrow>
     (\<exists>os. turn sc os sc' \<and> done_msgs os = map (\<lambda>t. (st_msgQ (sc_task sc t), st_msg (sc_task sc t))) ds) \<and>
     distinct ds \<and> set ds \<subseteq> P \<and> rcp_inv sc' (P - set ds)"

lemma ends_schedule:
  assumes "ends sc P ds sc'"
  shows "ends sc P ds (schedule_and_exec e st sc')"
proof -
  from assms obtain os where t: "turn sc os sc'"
    and d: "done_msgs os = map (\<lambda>t. (st_msgQ (sc_task sc t), st_msg (sc_task sc t))) ds" by (auto simp: ends_def)
  have "rcp_inv sc' (P - set ds)" using assms by (simp add: ends_def)
  from schedule_and_exec_ok [OF this, of e st] obtain os' where "rcp_inv (schedule_and_exec e st sc') (P - set ds)"
    "turn sc' os' (schedule_and_exec e st sc')" "done_msgs os' = []" by blast
  then show ?thesis using assms turn_trans [OF t] d unfolding ends_def by (metis done_msgs_append append_Nil2)
qed

lemma rdp_end_ok:
  assumes inv: "rcp_inv sc P" and "curRDPTask sc \<noteq> NULL"
  shows "\<exists>ds. ends sc P ds (rdp_end sc)"
proof -
  let ?T = "sc_task sc" and ?D = "curRDPTask sc" and ?R = "curRSPTask sc"
  let ?y = "(?T ?D)\<lparr>st_state := st_state (?T ?D) AND NOT OS_SC_DP\<rparr>"
  have y: "same_task (?T ?D) ?y" "\<not> needs_dp ?y" "needs_sp ?y = needs_sp (?T ?D)" "yielded ?y = yielded (?T ?D)"
    by (simp_all add: same_task_def bit_simps)
  from inv obtain A G where ok: "sched_ok sc A G ?R ?D" "pending A G ?R ?D = P" by (auto simp: rcp_inv_def)
  have l: "linked (?T(?D := ?y)) h l xs = linked ?T h l xs" for h l xs by (rule linked_cong) simp
  have "tasks_ok ?T (doAudio sc \<noteq> 0) A G ?R ?D" using ok(1) by (simp add: sched_ok_def)
  note r = rdp_done [OF this assms(2) same_task_kind [OF y(1)] y(2-4)]
  let ?ds = "if needs_sp ?y then [] else [?D]"
  have "sched_ok (rdp_end sc) A G ?R NULL" using ok(1) r l by (simp add: sched_ok_def rdp_end_def upd_task_def Let_def)
  moreover have "pending A G ?R NULL = P - set ?ds" using r ok(2) by auto
  moreover have c: "curRSPTask (rdp_end sc) = ?R" "curRDPTask (rdp_end sc) = NULL"
    by (simp_all add: rdp_end_def upd_task_def Let_def)
  ultimately have "rcp_inv (rdp_end sc) (P - set ?ds)" unfolding rcp_inv_def c by blast
  moreover have "turn sc (if needs_sp ?y then [] else [Send (st_msgQ (?T ?D)) (st_msg (?T ?D)) True]) (rdp_end sc)"
    using y by (auto simp: turn_def rdp_end_def Let_def scTaskComplete_out upd_task_def)
  ultimately have "ends sc P ?ds (rdp_end sc)" using r ok(2) unfolding ends_def by (intro conjI exI) auto
  then show ?thesis by blast
qed

lemma rsp_end_ok:
  assumes inv: "rcp_inv sc P" and "curRSPTask sc \<noteq> NULL"
  shows "\<exists>ds. ends sc P ds (rsp_end spstat sc)"
proof -
  let ?T = "sc_task sc" and ?D = "curRDPTask sc" and ?R = "curRSPTask sc"
  let ?l = "if yielding (?T ?R) then snd (osSpTaskYielded spstat (st_list (?T ?R))) else st_list (?T ?R)"
  from inv obtain A G where ok: "sched_ok sc A G ?R ?D" "pending A G ?R ?D = P" by (auto simp: rcp_inv_def)
  then have t: "tasks_ok ?T (doAudio sc \<noteq> 0) A G ?R ?D" by (simp add: sched_ok_def)
  have lt: "tk_type (snd (osSpTaskYielded spstat x)) = tk_type x" for x by (simp add: osSpTaskYielded_def Let_def)
  show ?thesis
  proof (cases "yielding (?T ?R) \<and> fst (osSpTaskYielded spstat (st_list (?T ?R))) \<noteq> 0")
    case True
    let ?x = "is_xbus (?T ?R)"
    let ?y = "(?T ?R)\<lparr>st_list := ?l, st_state := st_state (?T ?R) OR OS_SC_YIELDED,
      st_next := (if ?x then gfxListHead sc else st_next (?T ?R))\<rparr>"
    have y: "same_task (?T ?R) ?y" "needs_dp ?y = needs_dp (?T ?R)" "needs_sp ?y = needs_sp (?T ?R)" "yielded ?y"
      by (simp_all add: same_task_def bit_simps lt)
    have f: "(st_flags (?T ?R) AND OS_SC_TYPE_MASK = OS_SC_XBUS) = ?x"
      using t assms(2) by (rule on_rsp) (use True kind_flags in \<open>auto simp: waits_def\<close>)
    have e: "rsp_end spstat sc = sc\<lparr>curRSPTask := NULL, sc_task := ?T(?R := ?y),
        gfxListHead := (if ?x then ?R else gfxListHead sc),
        gfxListTail := (if ?x \<and> gfxListTail sc = NULL then ?R else gfxListTail sc)\<rparr>"
      using True f by (auto simp: rsp_end_def upd_task_def push_gfx_def Let_def split: prod.split)
    let ?G = "if ?x then ?R # G else G"
    note r = rsp_yielded [OF t assms(2) conjunct1 [OF True] same_task_kind [OF y(1)] y(3,2,4)]
    have n: "?R \<notin> set A \<and> (?x \<longrightarrow> ?R \<notin> set G)"
      using t assms(2) by (rule on_rsp) (auto simp: waits_def)
    have "linked (?T(?R := ?y)) (if ?x then ?R else gfxListHead sc)
        (if ?x \<and> gfxListTail sc = NULL then ?R else gfxListTail sc) ?G"
      using ok(1) n assms(2) linked_push [of ?T "gfxListHead sc" "gfxListTail sc" G ?R ?y]
        linked_cong [of G "?T(?R := ?y)" ?T "gfxListHead sc" "gfxListTail sc"] by (auto simp: sched_ok_def)
    then have "sched_ok (rsp_end spstat sc) A ?G NULL ?D" unfolding e using ok(1) r n by (simp add: sched_ok_def)
    moreover have "pending A ?G NULL ?D = P - set []" using r ok(2) by simp
    moreover have c: "curRSPTask (rsp_end spstat sc) = NULL" "curRDPTask (rsp_end spstat sc) = ?D" unfolding e by simp_all
    ultimately have "rcp_inv (rsp_end spstat sc) (P - set [])" unfolding rcp_inv_def c by blast
    moreover have "turn sc [] (rsp_end spstat sc)" unfolding e using y by (auto simp: turn_def)
    ultimately have "ends sc P [] (rsp_end spstat sc)" unfolding ends_def by (intro conjI exI) auto
    then show ?thesis by blast
  next
    case False
    let ?y = "(?T ?R)\<lparr>st_list := ?l, st_state := st_state (?T ?R) AND NOT OS_SC_SP\<rparr>"
    have y: "same_task (?T ?R) ?y" "\<not> needs_sp ?y" "needs_dp ?y = needs_dp (?T ?R)"
      by (simp_all add: same_task_def bit_simps lt)
    have e: "rsp_end spstat sc = snd (scTaskComplete ?R (sc\<lparr>curRSPTask := NULL, sc_task := ?T(?R := ?y)\<rparr>))"
      using False by (auto simp: rsp_end_def upd_task_def Let_def split: prod.split)
    have l: "linked (?T(?R := ?y)) h l xs = linked ?T h l xs" for h l xs by (rule linked_cong) simp
    note r = rsp_done [OF t assms(2) same_task_kind [OF y(1)] y(2,3)]
    let ?ds = "if needs_dp ?y then [] else [?R]"
    have "sched_ok (rsp_end spstat sc) A G NULL ?D" unfolding e using ok(1) r l by (simp add: sched_ok_def)
    moreover have "pending A G NULL ?D = P - set ?ds" using r ok(2) by auto
    moreover have c: "curRSPTask (rsp_end spstat sc) = NULL" "curRDPTask (rsp_end spstat sc) = ?D" unfolding e by simp_all
    ultimately have "rcp_inv (rsp_end spstat sc) (P - set ?ds)" unfolding rcp_inv_def c by blast
    moreover have "turn sc (if needs_dp ?y then [] else [Send (st_msgQ (?T ?R)) (st_msg (?T ?R)) True]) (rsp_end spstat sc)"
      unfolding e using y by (auto simp: turn_def scTaskComplete_out)
    ultimately have "ends sc P ?ds (rsp_end spstat sc)" using r ok(2) unfolding ends_def by (intro conjI exI) auto
    then show ?thesis by blast
  qed
qed

definition new_task :: "OSScTask \<Rightarrow> bool" where
  "new_task x \<longleftrightarrow> is_audio x \<or> is_xbus x \<or> is_dram x"

definition appended :: "OSScTask \<Rightarrow> OSScTask" where
  "appended x = x\<lparr>st_next := NULL, st_state := st_flags x AND OS_SC_RCP_MASK\<rparr>"

lemma appended:
  "same_task x (appended x)" "st_next (appended x) = NULL" "is_audio x \<Longrightarrow> waits (appended x)"
  "is_xbus x \<or> is_dram x \<Longrightarrow> fresh (appended x)"
proof -
  show "same_task x (appended x)" "st_next (appended x) = NULL" by (simp_all add: same_task_def appended_def)
  show "waits (appended x)" if "is_audio x"
    using that by (simp add: waits_def appended_def is_audio_def)
  have b: "bit (st_flags x) n \<longleftrightarrow> bit (st_flags x AND OS_SC_TYPE_MASK) n" if "n < 2" for n
  proof -
    have "OS_SC_TYPE_MASK = mask 3" by (simp add: OS_SC_TYPE_MASK_def mask_eq_exp_minus_1)
    then show ?thesis unfolding \<open>OS_SC_TYPE_MASK = mask 3\<close> bit_and_iff bit_mask_iff using that by auto
  qed
  show "fresh (appended x)" if "is_xbus x \<or> is_dram x"
  proof -
    have "st_flags x AND OS_SC_TYPE_MASK = OS_SC_XBUS \<or> st_flags x AND OS_SC_TYPE_MASK = OS_SC_DRAM"
      using that kind_flags by blast
    then have "bit (st_flags x) 0" "bit (st_flags x) (Suc 0)"
      using b [of 0] b [of 1] by (auto simp: OS_SC_XBUS_def OS_SC_DRAM_def bit_or_iff)
    then show ?thesis by (simp add: fresh_def appended_def bit_and_iff)
  qed
qed

text \<open>A task behind the last one of a list.\<close>

definition link_last :: "(ptr \<Rightarrow> OSScTask) \<Rightarrow> ptr \<Rightarrow> ptr \<Rightarrow> OSScTask \<Rightarrow> ptr \<Rightarrow> OSScTask" where
  "link_last T l t y = (if l \<noteq> NULL then T(l := (T l)\<lparr>st_next := t\<rparr>, t := y) else T(t := y))"

lemma link_last:
  assumes "linked T h l xs" "t \<noteq> NULL" "t \<notin> set xs" "distinct xs" "st_next y = NULL"
  shows "linked (link_last T l t y) (if l = NULL then t else h) t (xs @ [t])"
proof -
  have "NULL \<notin> set xs" using assms(1) links_NULL by (auto simp: linked_def)
  from linked_append [OF assms(1,2,4,3) this assms(5)] show ?thesis by (auto simp: link_last_def)
qed

lemma link_last_other:
  assumes "linked T h l xs" "set ys \<inter> set xs = {}" "t \<notin> set ys"
  shows "linked (link_last T l t y) h' l' ys = linked T h' l' ys"
proof (rule linked_cong)
  fix u assume "u \<in> set ys"
  moreover have "l \<noteq> NULL \<Longrightarrow> l \<in> set xs" using assms(1) by (auto simp: linked_def split: if_splits)
  ultimately show "st_next (link_last T l t y u) = st_next (T u)" using assms(2,3) by (auto simp: link_last_def)
qed

lemma link_last_tasks: "tasks_ok (link_last T l t y) aud A G R D = tasks_ok (T(t := y)) aud A G R D"
  by (rule tasks_ok_cong) (simp add: link_last_def same_kind_def is_audio_def is_xbus_def is_dram_def)

lemma link_last_same: "same_task (T t) y \<Longrightarrow> same_task (T u) (link_last T l t y u)"
  by (simp add: link_last_def same_task_def)

lemma scAppendList_audio:
  "sc_type sc t = M_AUDTASK \<Longrightarrow> audioListTail sc \<noteq> t \<Longrightarrow> scAppendList t sc =
    sc\<lparr>sc_task := link_last (sc_task sc) (audioListTail sc) t (appended (sc_task sc t)),
      audioListHead := (if audioListTail sc = NULL then t else audioListHead sc), audioListTail := t, doAudio := 1\<rparr>"
  by (simp add: scAppendList_def upd_task_def link_last_def appended_def)

lemma scAppendList_gfx:
  "sc_type sc t \<noteq> M_AUDTASK \<Longrightarrow> gfxListTail sc \<noteq> t \<Longrightarrow> scAppendList t sc =
    sc\<lparr>sc_task := link_last (sc_task sc) (gfxListTail sc) t (appended (sc_task sc t)),
      gfxListHead := (if gfxListTail sc = NULL then t else gfxListHead sc), gfxListTail := t\<rparr>"
  by (simp add: scAppendList_def upd_task_def link_last_def appended_def)

lemma append_ok:
  assumes inv: "rcp_inv sc P" and t: "t \<notin> P" "t \<noteq> NULL" "new_task (sc_task sc t)"
  shows "rcp_inv (scAppendList t sc) (insert t P) \<and> turn sc [] (scAppendList t sc)"
proof -
  let ?T = "sc_task sc" and ?D = "curRDPTask sc" and ?R = "curRSPTask sc" and ?y = "appended (sc_task sc t)"
  from inv obtain A G where ok: "sched_ok sc A G ?R ?D" and P: "pending A G ?R ?D = P" by (auto simp: rcp_inv_def)
  have l: "linked ?T (audioListHead sc) (audioListTail sc) A" "linked ?T (gfxListHead sc) (gfxListTail sc) G"
    and ts: "tasks_ok ?T (doAudio sc \<noteq> 0) A G ?R ?D" and d: "distinct A" "distinct G" "set A \<inter> set G = {}"
    using ok by (auto simp: sched_ok_def tasks_ok_def)
  have n: "t \<notin> pending A G ?R ?D" "t \<notin> set A" "t \<notin> set G" using t(1) P by (auto simp: pending_def)
  have tl: "audioListTail sc \<noteq> t" "gfxListTail sc \<noteq> t" using l n t(2) by (auto simp: linked_def split: if_splits)
  have y: "same_task (?T t) ?y" "st_next ?y = NULL" using appended by auto
  show ?thesis
  proof (cases "is_audio (?T t)")
    case True
    then have e: "scAppendList t sc = sc\<lparr>sc_task := link_last ?T (audioListTail sc) t ?y,
        audioListHead := (if audioListTail sc = NULL then t else audioListHead sc), audioListTail := t, doAudio := 1\<rparr>"
      using tl by (intro scAppendList_audio) (simp_all add: sc_type_def is_audio_def)
    have "sched_ok (scAppendList t sc) (A @ [t]) G ?R ?D"
      unfolding e using link_last [OF l(1) t(2) n(2) d(1) y(2)] link_last_other [OF l(1) _ n(3)] l(2) d(3)
        append_audio [OF ts n(1) t(2) appended(3) [OF True]]
      by (simp add: sched_ok_def link_last_tasks Int_commute)
    moreover have "pending (A @ [t]) G ?R ?D = insert t P" using P by (auto simp: pending_def)
    moreover have c: "curRSPTask (scAppendList t sc) = ?R" "curRDPTask (scAppendList t sc) = ?D" unfolding e by simp_all
    ultimately have "rcp_inv (scAppendList t sc) (insert t P)" unfolding rcp_inv_def c by blast
    moreover have "turn sc [] (scAppendList t sc)" unfolding e by (simp add: turn_def link_last_same y)
    ultimately show ?thesis by blast
  next
    case False
    then have k: "is_xbus (?T t) \<or> is_dram (?T t)" using t(3) by (simp add: new_task_def)
    then have e: "scAppendList t sc = sc\<lparr>sc_task := link_last ?T (gfxListTail sc) t ?y,
        gfxListHead := (if gfxListTail sc = NULL then t else gfxListHead sc), gfxListTail := t\<rparr>"
      using tl by (intro scAppendList_gfx) (auto simp: sc_type_def is_xbus_def is_dram_def M_AUDTASK_def M_GFXTASK_def)
    have "is_xbus ?y \<or> is_dram ?y" using k same_task_kind [OF y(1)] by (simp add: same_kind_def)
    then have "sched_ok (scAppendList t sc) A (G @ [t]) ?R ?D"
      unfolding e using link_last [OF l(2) t(2) n(3) d(2) y(2)] link_last_other [OF l(2) d(3) n(2)] l(1)
        append_gfx [OF ts n(1) t(2) appended(4) [OF k]]
      by (simp add: sched_ok_def link_last_tasks)
    moreover have "pending A (G @ [t]) ?R ?D = insert t P" using P by (auto simp: pending_def)
    moreover have c: "curRSPTask (scAppendList t sc) = ?R" "curRDPTask (scAppendList t sc) = ?D" unfolding e by simp_all
    ultimately have "rcp_inv (scAppendList t sc) (insert t P)" unfolding rcp_inv_def c by blast
    moreover have "turn sc [] (scAppendList t sc)" unfolding e by (simp add: turn_def link_last_same y)
    ultimately show ?thesis by blast
  qed
qed

lemma append_all_ok:
  "rcp_inv sc P \<Longrightarrow> distinct ts \<Longrightarrow> set ts \<inter> P = {} \<Longrightarrow> NULL \<notin> set ts \<Longrightarrow> \<forall>t\<in>set ts. new_task (sc_task sc t) \<Longrightarrow>
    rcp_inv (fold scAppendList ts sc) (P \<union> set ts) \<and> turn sc [] (fold scAppendList ts sc)"
proof (induction ts arbitrary: sc P)
  case (Cons t ts)
  have a: "rcp_inv (scAppendList t sc) (insert t P)" "turn sc [] (scAppendList t sc)"
    using append_ok [of sc P t] Cons.prems by auto
  have "\<forall>u\<in>set ts. new_task (sc_task (scAppendList t sc) u)"
    using Cons.prems(5) a(2) same_task_kind by (fastforce simp: turn_def new_task_def same_kind_def)
  then have "rcp_inv (fold scAppendList ts (scAppendList t sc)) (insert t P \<union> set ts) \<and>
      turn (scAppendList t sc) [] (fold scAppendList ts (scAppendList t sc))"
    using Cons.IH [OF a(1)] Cons.prems by auto
  then show ?case using turn_trans [OF a(2)] by fastforce
qed simp

lemma notify_done:
  assumes "notify cls c m = Some os"
  shows "done_msgs os = []"
  using assms by (rule notify.raw_induct [rotated]) (auto split: if_splits Option.bind_splits)

lemma sc_emit_ok [simp]: "rcp_inv (sc_emit os sc) P = rcp_inv sc P" "turn sc os (sc_emit os sc)"
  by (simp_all add: sc_emit_def rcp_inv_def sched_ok_def turn_def)

lemma scYield_ok:
  assumes inv: "rcp_inv sc P" and R: "curRSPTask sc \<noteq> NULL"
  shows "rcp_inv (scYield sc) P \<and> (\<exists>os. turn sc os (scYield sc) \<and> done_msgs os = [])"
proof (cases "sc_type sc (curRSPTask sc) = M_GFXTASK")
  case True
  let ?R = "curRSPTask sc" and ?T = "sc_task sc"
  let ?y = "(?T ?R)\<lparr>st_state := st_state (?T ?R) OR OS_SC_YIELD\<rparr>"
  from inv obtain A G where ok: "sched_ok sc A G ?R (curRDPTask sc)" and P: "pending A G ?R (curRDPTask sc) = P"
    by (auto simp: rcp_inv_def)
  have "\<not> waits (?T ?R)" using True by (auto simp: waits_def is_audio_def sc_type_def M_AUDTASK_def M_GFXTASK_def)
  moreover have y: "same_task (?T ?R) ?y" by (simp add: same_task_def)
  ultimately have "tasks_ok (?T(?R := ?y)) (doAudio sc \<noteq> 0) A G ?R (curRDPTask sc)"
    using ok R same_task_kind [OF y] by (intro mark_running) (auto simp: sched_ok_def bit_or_iff)
  moreover have "linked (?T(?R := ?y)) h l xs = linked ?T h l xs" for h l xs by (rule linked_cong) simp
  ultimately have "rcp_inv (scYield sc) P"
    using ok P True by (auto simp: scYield_def rcp_inv_def sched_ok_def upd_task_def sc_emit_def)
  moreover have "turn sc osSpTaskYield (scYield sc)"
    using y True by (auto simp: scYield_def turn_def sc_emit_def upd_task_def)
  moreover have "done_msgs osSpTaskYield = []" by (simp add: osSpTaskYield_def)
  ultimately show ?thesis by blast
next
  case False
  then have "scYield sc = sc" by (simp add: scYield_def)
  then show ?thesis using inv by (metis turn_refl done_msgs.simps(1))
qed

text \<open>The tasks a turn is given, and what the devices and the clients keep: a processor reports only while a
  task is on it, and a task is submitted only when it is not pending.\<close>

primrec submitted :: "sc_event \<Rightarrow> ptr list" where
  "submitted (Video ts st) = ts"
| "submitted (RspDone a b) = []"
| "submitted (RdpDone a) = []"
| "submitted PreNmi = []"

primrec event_ok :: "OSSched \<Rightarrow> sc_event \<Rightarrow> bool" where
  "event_ok sc (Video ts st) \<longleftrightarrow> distinct ts \<and> NULL \<notin> set ts \<and> (\<forall>t\<in>set ts. new_task (sc_task sc t))"
| "event_ok sc (RspDone a b) \<longleftrightarrow> curRSPTask sc \<noteq> NULL"
| "event_ok sc (RdpDone a) \<longleftrightarrow> curRDPTask sc \<noteq> NULL"
| "event_ok sc PreNmi \<longleftrightarrow> True"

lemma ends_none:
  "rcp_inv sc' P \<Longrightarrow> turn sc os sc' \<Longrightarrow> done_msgs os = [] \<Longrightarrow> ends sc P [] sc'"
  by (auto simp: ends_def)

lemma scHandleRetrace_ok:
  assumes inv: "rcp_inv sc P" and ev: "event_ok sc (Video ts st)" "set ts \<inter> P = {}"
    and r: "scHandleRetrace e ts st sc = Some sc'"
  shows "ends sc (P \<union> set ts) [] sc'"
proof -
  define s0 s1 s2 where "s0 = sc\<lparr>frameCount := frameCount sc + 1\<rparr>" and "s1 = fold scAppendList ts s0"
    and "s2 = (if doAudio s1 \<noteq> 0 \<and> curRSPTask s1 \<noteq> NULL then scYield s1 else schedule_and_exec e st s1)"
  have "rcp_inv s0 P" "turn sc [] s0" "sc_task s0 = sc_task sc"
    using inv by (simp_all add: s0_def rcp_inv_def sched_ok_def turn_def)
  then have "rcp_inv s1 (P \<union> set ts)" "turn sc [] s1"
    using append_all_ok [of s0 P ts] ev turn_trans [of sc "[]" s0 "[]" s1] by (auto simp: s1_def)
  moreover from this(1) obtain os where "rcp_inv s2 (P \<union> set ts)" "turn s1 os s2" "done_msgs os = []"
    unfolding s2_def using scYield_ok [of s1 "P \<union> set ts"] schedule_and_exec_ok [of s1 "P \<union> set ts" e st]
    by (cases "doAudio s1 \<noteq> 0 \<and> curRSPTask s1 \<noteq> NULL") (simp, blast, auto)
  moreover obtain os' where "notify (sc_client s2) (clientList s2) (se_retraceMsg e) = Some os'" "sc' = sc_emit os' s2"
    using r unfolding scHandleRetrace_def Let_def s0_def [symmetric] s1_def [symmetric] s2_def [symmetric]
    by (auto split: Option.bind_splits)
  ultimately show ?thesis
    using turn_trans [OF turn_trans [of sc "[]" s1 os s2] sc_emit_ok(2) [of s2 os']] notify_done [of "sc_client s2"]
    by (intro ends_none [where os = "os @ os'"]) auto
qed

lemma scMain_ok:
  assumes inv: "rcp_inv sc P" and ev: "event_ok sc ev" "set (submitted ev) \<inter> P = {}" and r: "scMain e ev sc = Some sc'"
  shows "\<exists>ds. ends sc (P \<union> set (submitted ev)) ds sc'"
proof (cases ev)
  case (Video ts st)
  then have "ends sc (P \<union> set ts) [] sc'" using ev r by (intro scHandleRetrace_ok [OF inv]) (auto simp: scMain_def)
  then show ?thesis using Video by auto
next
  case (RspDone a b)
  then show ?thesis using rsp_end_ok [OF inv] ev r ends_schedule by (fastforce simp: scMain_def scHandleRSP_eq)
next
  case (RdpDone a)
  then show ?thesis using rdp_end_ok [OF inv] ev r ends_schedule by (fastforce simp: scMain_def scHandleRDP_eq)
next
  case PreNmi
  then obtain os where "notify (sc_client sc) (clientList sc) (se_prenmiMsg e) = Some os" "sc' = sc_emit os sc"
    using r by (auto simp: scMain_def split: Option.bind_splits)
  then have "ends sc P [] sc'" using inv notify_done sc_emit_ok by (intro ends_none [where os = os]) auto
  then show ?thesis using PreNmi by auto
qed

end
