(* ===== verification/SchedRun.thy ===== *)
theory SchedRun
  imports Sched
begin

section \<open>Runs of the scheduler\<close>

text \<open>
  What the scheduler of \<open>Sched\<close> does over many turns: every task is served once, the processors do not
  idle, audio goes before graphics, the clients hear every retrace; and the two ways in which a task is left behind.
\<close>

subsection \<open>Runs\<close>

text \<open>The assertions of \<^verbatim>\<open>__scExec\<close> and \<^verbatim>\<open>__scTaskComplete\<close>: the signal processor is free when tasks are
  started, a task for the display processor has an output buffer and the processor takes it, and
  every task has a queue for its message.  A build with \<^verbatim>\<open>NDEBUG\<close> does not check them.\<close>

definition exec_assert :: "u32 \<Rightarrow> OSSched \<Rightarrow> bool" where
  "exec_assert dpstat sc =
     (case scSchedule NULL NULL (rcp_state sc) sc of (avail, sp, dp, sc') \<Rightarrow>
        avail = rcp_state sc \<or>
        curRSPTask sc' = NULL \<and>
        (dp = NULL \<or> dp = sp \<or> output_buff (st_list (sc_task sc' dp)) \<noteq> NULL \<and> dpstat AND DPC_STATUS_DMA_BUSY = 0))"

primrec turn_assert :: "sc_event \<Rightarrow> OSSched \<Rightarrow> bool" where
  "turn_assert (Video ts st) sc =
     ((\<forall>t\<in>set ts. st_msgQ (sc_task sc t) \<noteq> NULL) \<and>
      (let s = fold scAppendList ts (sc\<lparr>frameCount := frameCount sc + 1\<rparr>)
       in doAudio s \<noteq> 0 \<and> curRSPTask s \<noteq> NULL \<or> exec_assert st s))"
| "turn_assert (RspDone spstat st) sc = exec_assert st (rsp_end spstat sc)"
| "turn_assert (RdpDone st) sc = exec_assert st (rdp_end sc)"
| "turn_assert PreNmi sc = True"


lemma created_inv: "doAudio sc = 0 \<Longrightarrow> rcp_inv (osCreateScheduler e m n sc) {}"
  unfolding rcp_inv_def
  by (intro exI [where x = "[]"])
    (simp add: sched_ok_def osCreateScheduler_def linked_def tasks_ok_def audio_ok_def gfx_ok_def pending_def)



subsection \<open>Progress\<close>






definition same_users :: "OSSched \<Rightarrow> OSSched \<Rightarrow> bool" where
  "same_users sc sc' \<longleftrightarrow> sc_vi sc' = sc_vi sc \<and> sc_client sc' = sc_client sc \<and> clientList sc' = clientList sc"

lemma schedule_and_exec_users: "same_users sc (schedule_and_exec e st sc)"
proof -
  have p: "schedule_pass sp dp av s = (a, x, y, s') \<Longrightarrow> same_users s s'" for sp dp av s a x y s'
    by (auto simp: same_users_def schedule_pass_def Let_def pop_audio_def pop_gfx_def split: if_splits)
  have "scSchedule sp dp av s = (a, x, y, s') \<Longrightarrow> same_users s s'" for sp dp av s a x y s'
  proof (induction sp dp av s rule: scSchedule.induct)
    case (1 sp dp av s)
    obtain a1 s1 d1 c1 where q: "schedule_pass sp dp av s = (a1, s1, d1, c1)" by (metis prod_cases4)
    then show ?case using "1.IH" [OF q [symmetric] refl refl] "1.prems" p [OF q]
      by (cases "a1 = av") (simp_all add: scSchedule.simps [of sp dp] q same_users_def)
  qed
  then show ?thesis by (auto simp: schedule_and_exec_def Let_def scExec_fields same_users_def split: prod.split)
qed

lemma schedule_and_exec_vi [simp]: "sc_vi (schedule_and_exec e st sc) = sc_vi sc"
  using schedule_and_exec_users by (simp add: same_users_def)

subsection \<open>Audio comes first\<close>










lemma rsp_end_lists:
  "doAudio (rsp_end spstat sc) = doAudio sc \<and> audioListHead (rsp_end spstat sc) = audioListHead sc \<and>
   curRSPTask (rsp_end spstat sc) = NULL"
  by (auto simp: rsp_end_def Let_def upd_task_def push_gfx_def scTaskComplete_def sc_emit_def split: prod.split)



subsection \<open>The clients\<close>

primrec client_list :: "(ptr \<Rightarrow> OSScClient) \<Rightarrow> ptr \<Rightarrow> ptr list \<Rightarrow> bool" where
  "client_list C c [] \<longleftrightarrow> c = NULL"
| "client_list C c (x # xs) \<longleftrightarrow> c = x \<and> x \<noteq> NULL \<and> client_list C (cl_next (C x)) xs"

definition clients :: "OSSched \<Rightarrow> ptr list \<Rightarrow> bool" where
  "clients sc cs \<longleftrightarrow> client_list (sc_client sc) (clientList sc) cs"

lemma notify_clients:
  "client_list C c cs \<Longrightarrow> notify C c m = Some (map (\<lambda>c. Send (cl_msgQ (C c)) m False) cs)"
  by (induction cs arbitrary: c) (simp_all add: notify.simps)

lemma client_list_fun: "client_list C c xs \<Longrightarrow> client_list C c ys \<Longrightarrow> xs = ys"
proof (induction xs arbitrary: c ys)
  case Nil
  then show ?case by (cases ys) auto
next
  case (Cons x xs)
  then show ?case by (cases ys) auto
qed

lemma client_list_append:
  "client_list C c (xs @ ys) \<Longrightarrow> \<exists>d. client_list C d ys"
  by (induction xs arbitrary: c) auto

lemma client_list_distinct: "client_list C c cs \<Longrightarrow> distinct cs"
proof (induction cs arbitrary: c)
  case (Cons x xs)
  have "x \<notin> set xs"
  proof
    assume "x \<in> set xs"
    then obtain ys zs where "xs = ys @ x # zs" by (meson split_list)
    moreover have "client_list C x (x # xs)" using Cons.prems by simp
    moreover obtain d where "client_list C d (x # zs)"
      using Cons.prems calculation(1) client_list_append [of C _ ys "x # zs"] by auto
    ultimately show False using client_list_fun [of C x "x # xs" "x # zs"] by simp
  qed
  then show ?case using Cons by auto
qed simp

lemma append_all_users: "same_users sc (fold scAppendList ts sc)"
  by (induction ts arbitrary: sc) (simp_all add: same_users_def scAppendList_def upd_task_def Let_def)

definition same_clients :: "OSSched \<Rightarrow> OSSched \<Rightarrow> bool" where
  "same_clients sc sc' \<longleftrightarrow> sc_client sc' = sc_client sc \<and> clientList sc' = clientList sc"

lemma turn_clients:
  "same_clients sc (rsp_end spstat sc)" "same_clients sc (rdp_end sc)" "same_clients sc (schedule_and_exec e st sc)"
  using schedule_and_exec_users [of sc e st]
  by (auto simp: same_clients_def same_users_def rsp_end_def rdp_end_def Let_def upd_task_def push_gfx_def
      scTaskComplete_def sc_emit_def split: prod.split)

primrec news :: "sc_env \<Rightarrow> sc_event \<Rightarrow> u32 option" where
  "news e (Video ts st) = Some (se_retraceMsg e)"
| "news e PreNmi = Some (se_prenmiMsg e)"
| "news e (RspDone a b) = None"
| "news e (RdpDone a) = None"

text \<open>What a turn puts out apart from the news for the clients: commands to the processors, and the message of a
  task that is done.\<close>

definition told :: "sc_output list \<Rightarrow> sc_output list" where
  "told os = filter (\<lambda>x. case x of Send q m b \<Rightarrow> True | _ \<Rightarrow> False) os"

lemma told_simps [simp]: "told [] = []" "told (xs @ ys) = told xs @ told ys" "told (Send q m b # xs) = Send q m b # told xs"
  "told (SpStatus w # xs) = told xs" "told (SpPc w # xs) = told xs" "told (SpDmaTask w t # xs) = told xs"
  "told (SpDma w v u # xs) = told xs" "told (IoWrite w v # xs) = told xs"
  by (simp_all add: told_def)

lemma scSchedule_out: "scSchedule sp dp av sc = (avail, sp', dp', sc') \<Longrightarrow> sc_out sc' = sc_out sc"
proof (induction sp dp av sc rule: scSchedule.induct)
  case (1 sp dp av sc)
  obtain a s d c where p: "schedule_pass sp dp av sc = (a, s, d, c)" by (metis prod_cases4)
  then have "sc_out c = sc_out sc"
    by (auto simp: schedule_pass_def Let_def pop_audio_def pop_gfx_def split: if_splits)
  then show ?case using "1.IH" [OF p [symmetric] refl refl] "1.prems"(1) p
    by (cases "a = av") (simp_all add: scSchedule.simps [of sp dp])
qed

lemma scExec_tells_none: "\<exists>os. sc_out (scExec e st sp dp sc) = sc_out sc @ os \<and> told os = []"
proof -
  have l: "told (snd (osSpTaskLoad e t)) = []" "told (snd (osDpSetNextBuffer e st p n)) = []" for t p n
    by (simp_all add: osSpTaskLoad_def osDpSetNextBuffer_def Let_def)
  have g: "told osSpTaskStartGo = []" by (simp add: osSpTaskStartGo_def)
  show ?thesis
    by (auto simp: scExec_def Let_def sc_emit_def upd_task_def case_prod_beta l g)
qed

lemma schedule_and_exec_out: "\<exists>os. sc_out (schedule_and_exec e st sc) = sc_out sc @ os \<and> told os = []"
proof -
  obtain avail sp dp sc' where s: "scSchedule NULL NULL (rcp_state sc) sc = (avail, sp, dp, sc')" by (metis prod_cases4)
  then show ?thesis using scSchedule_out [OF s] scExec_tells_none [of e st sp dp sc']
    by (cases "avail = rcp_state sc") (auto simp: schedule_and_exec_def Let_def)
qed

lemma append_all_out: "sc_out (fold scAppendList ts sc) = sc_out sc"
  by (induction ts arbitrary: sc) (simp_all add: scAppendList_def upd_task_def Let_def)

lemma end_out:
  "\<exists>os. sc_out (rsp_end spstat sc) = sc_out sc @ os \<and> (told os = [] \<or> (\<exists>t. told os = [Send (st_msgQ (sc_task sc t)) (st_msg (sc_task sc t)) True]))"
  "\<exists>os. sc_out (rdp_end sc) = sc_out sc @ os \<and> (told os = [] \<or> (\<exists>t. told os = [Send (st_msgQ (sc_task sc t)) (st_msg (sc_task sc t)) True]))"
proof -
  let ?x = "upd_task (curRSPTask sc) (\<lambda>x. x\<lparr>st_state := st_state x AND NOT OS_SC_SP\<rparr>)"
  show "\<exists>os. sc_out (rsp_end spstat sc) = sc_out sc @ os \<and> (told os = [] \<or> (\<exists>t. told os = [Send (st_msgQ (sc_task sc t)) (st_msg (sc_task sc t)) True]))"
    by (fastforce simp: rsp_end_def Let_def case_prod_beta scTaskComplete_out upd_task_def push_gfx_def)
  show "\<exists>os. sc_out (rdp_end sc) = sc_out sc @ os \<and> (told os = [] \<or> (\<exists>t. told os = [Send (st_msgQ (sc_task sc t)) (st_msg (sc_task sc t)) True]))"
    by (fastforce simp: rdp_end_def Let_def scTaskComplete_out upd_task_def)
qed

text \<open>The messages of a turn in front of the news: at most one, of a task, and only at the end of a run.\<close>

definition only_a_task :: "OSSched \<Rightarrow> sc_event \<Rightarrow> sc_output list \<Rightarrow> bool" where
  "only_a_task sc ev os \<longleftrightarrow> told os = [] \<or>
     (case ev of Video ts st \<Rightarrow> False | PreNmi \<Rightarrow> False | _ \<Rightarrow> True) \<and>
     (\<exists>t. told os = [Send (st_msgQ (sc_task sc t)) (st_msg (sc_task sc t)) True])"

lemma scMain_users:
  assumes "clients sc cs"
  shows "\<exists>sc' os. scMain e ev sc = Some sc' \<and> same_clients sc sc' \<and> ((\<exists>ts st. ev = Video ts st) \<longrightarrow> sc_vi sc' = sc_vi sc) \<and>
    only_a_task sc ev os \<and>
    sc_out sc' = sc_out sc @ os @ (case news e ev of None \<Rightarrow> [] | Some m \<Rightarrow> map (\<lambda>c. Send (cl_msgQ (sc_client sc c)) m False) cs)"
proof (cases ev)
  case (Video ts st)
  define s1 where "s1 = fold scAppendList ts (sc\<lparr>frameCount := frameCount sc + 1\<rparr>)"
  define s2 where "s2 = (if doAudio s1 \<noteq> 0 \<and> curRSPTask s1 \<noteq> NULL then scYield s1 else schedule_and_exec e st s1)"
  have u: "same_users (sc\<lparr>frameCount := frameCount sc + 1\<rparr>) s1" "same_users s1 s2"
    using append_all_users schedule_and_exec_users [of s1]
    by (auto simp: s1_def s2_def scYield_def same_users_def upd_task_def sc_emit_def)
  then have c: "client_list (sc_client s2) (clientList s2) cs" "sc_client s2 = sc_client sc" "clientList s2 = clientList sc"
    "sc_vi s2 = sc_vi sc" using assms by (simp_all add: same_users_def clients_def)
  have "\<exists>os. sc_out s2 = sc_out s1 @ os \<and> told os = []"
    using schedule_and_exec_out [of e st s1] by (auto simp: s2_def scYield_def sc_emit_def upd_task_def osSpTaskYield_def)
  then obtain os where os: "sc_out s2 = sc_out sc @ os" "told os = []" using append_all_out by (auto simp: s1_def)
  have "scMain e ev sc = do { os \<leftarrow> notify (sc_client s2) (clientList s2) (se_retraceMsg e); Some (sc_emit os s2) }"
    unfolding Video scMain_def sc_event.case scHandleRetrace_def Let_def s1_def [symmetric] s2_def [symmetric] by simp
  then show ?thesis using c Video notify_clients [OF c(1)] os
    by (intro exI [of _ "sc_emit (map (\<lambda>c. Send (cl_msgQ (sc_client sc c)) (se_retraceMsg e) False) cs) s2"] exI [of _ os])
      (auto simp: same_clients_def sc_emit_def only_a_task_def)
next
  case PreNmi
  then show ?thesis using assms notify_clients [of "sc_client sc" "clientList sc" cs]
    by (auto simp: scMain_def clients_def same_clients_def sc_emit_def only_a_task_def intro: exI [of _ "[]"])
next
  case (RspDone a b)
  obtain os where "sc_out (rsp_end a sc) = sc_out sc @ os" "only_a_task sc ev os"
    using end_out(1) [of a sc] unfolding only_a_task_def RspDone sc_event.case by blast
  moreover obtain os' where "sc_out (schedule_and_exec e b (rsp_end a sc)) = sc_out (rsp_end a sc) @ os'" "told os' = []"
    using schedule_and_exec_out [of e b "rsp_end a sc"] by blast
  ultimately have "sc_out (schedule_and_exec e b (rsp_end a sc)) = sc_out sc @ os @ os'" "only_a_task sc ev (os @ os')"
    by (simp_all add: only_a_task_def)
  then show ?thesis using RspDone assms turn_clients(1) [of sc a] turn_clients(3) [of "rsp_end a sc" e b]
    by (auto simp: scMain_def scHandleRSP_eq same_clients_def)
next
  case (RdpDone a)
  obtain os where "sc_out (rdp_end sc) = sc_out sc @ os" "only_a_task sc ev os"
    using end_out(2) [of sc] unfolding only_a_task_def RdpDone sc_event.case by blast
  moreover obtain os' where "sc_out (schedule_and_exec e a (rdp_end sc)) = sc_out (rdp_end sc) @ os'" "told os' = []"
    using schedule_and_exec_out [of e a "rdp_end sc"] by blast
  ultimately have "sc_out (schedule_and_exec e a (rdp_end sc)) = sc_out sc @ os @ os'" "only_a_task sc ev (os @ os')"
    by (simp_all add: only_a_task_def)
  then show ?thesis using RdpDone assms turn_clients(2) [of sc] turn_clients(3) [of "rdp_end sc" e a]
    by (auto simp: scMain_def scHandleRDP_eq same_clients_def)
qed


lemma client_list_upd [simp]: "c \<notin> set cs \<Longrightarrow> client_list (C(c := x)) d cs = client_list C d cs"
  by (induction cs arbitrary: d) auto

lemma client_list_tail:
  "client_list C c (xs @ ys) \<Longrightarrow> client_list C (if xs = [] then c else cl_next (C (last xs))) ys"
  by (induction xs arbitrary: c) (auto split: if_splits)

lemma client_list_join:
  "client_list C c (xs @ ys) \<Longrightarrow> xs \<noteq> [] \<Longrightarrow> last xs \<notin> set zs \<Longrightarrow> client_list C d zs \<Longrightarrow>
   client_list (C(last xs := (C (last xs))\<lparr>cl_next := d\<rparr>)) c (xs @ zs)"
proof (induction xs arbitrary: c)
  case (Cons x xs)
  show ?case
  proof (cases "xs = []")
    case False
    moreover have "x \<noteq> last xs" using client_list_distinct [OF Cons.prems(1)] False by auto
    ultimately show ?thesis using Cons by simp
  next
    case True
    then show ?thesis using Cons.prems client_list_upd [of x zs C "(C x)\<lparr>cl_next := d\<rparr>" d] by (simp add: fun_upd_def)
  qed
qed simp

lemma remove_scan:
  assumes "client_list (sc_client sc) (clientList sc) (xs @ ys)" "c \<notin> set xs"
  shows "\<exists>sc'. remove_scan c (if xs = [] then NULL else last xs) (if ys = [] then NULL else hd ys) sc = Some sc' \<and>
    clients sc' (xs @ remove1 c ys)"
  using assms
proof (induction ys arbitrary: xs)
  case Nil
  then show ?case by (subst remove_scan.simps) (simp add: clients_def)
next
  case (Cons y ys)
  have t: "client_list (sc_client sc) (if xs = [] then clientList sc else cl_next (sc_client sc (last xs))) (y # ys)"
    using client_list_tail [OF Cons.prems(1)] .
  then have y: "y \<noteq> NULL" "client_list (sc_client sc) (cl_next (sc_client sc y)) ys" by auto
  then have h: "cl_next (sc_client sc y) = (if ys = [] then NULL else hd ys)" by (cases ys) auto
  have d: "distinct (xs @ y # ys)" using client_list_distinct [OF Cons.prems(1)] .
  have n: "last xs \<noteq> NULL" if "xs \<noteq> []"
  proof -
    have "client_list C a (zs @ ws) \<Longrightarrow> zs \<noteq> [] \<Longrightarrow> last zs \<noteq> NULL" for C a zs ws
      by (induction zs arbitrary: a) auto
    then show ?thesis using Cons.prems(1) that by blast
  qed
  show ?case
  proof (cases "y = c")
    case True
    have "clients (if xs = [] then sc\<lparr>clientList := cl_next (sc_client sc y)\<rparr>
        else sc\<lparr>sc_client := (sc_client sc)(last xs := (sc_client sc (last xs))\<lparr>cl_next := cl_next (sc_client sc y)\<rparr>)\<rparr>) (xs @ ys)"
      using y client_list_join [OF Cons.prems(1) _ _ y(2)] d last_in_set [of xs]
      by (cases "xs = []") (auto simp: clients_def disjoint_iff)
    then show ?thesis using True y n by (subst remove_scan.simps) (auto simp: fun_upd_def)
  next
    case False
    then have "\<exists>sc'. remove_scan c y (if ys = [] then NULL else hd ys) sc = Some sc' \<and> clients sc' ((xs @ [y]) @ remove1 c ys)"
      using Cons.IH [of "xs @ [y]"] Cons.prems by simp
    then show ?thesis using False y h by (subst remove_scan.simps) auto
  qed
qed

text \<open>taking a client off the list comes to an end and takes exactly this client off; a client that is not on the
  list changes nothing.\<close>

theorem osScRemoveClient_removes:
  assumes "clients sc cs"
  shows "\<exists>sc'. osScRemoveClient c sc = Some sc' \<and> clients sc' (remove1 c cs)"
  using remove_scan [of sc "[]" cs c] assms by (cases cs) (auto simp: osScRemoveClient_def clients_def)

subsection \<open>Tasks that are left behind\<close>

lemma schedule_nothing:
  "schedule_pass NULL NULL (rcp_state sc) sc = (rcp_state sc, NULL, NULL, sc) \<Longrightarrow> schedule_and_exec e st sc = sc"
  by (simp add: schedule_and_exec_def scSchedule.simps)

text \<open>a graphics task that needs only the signal processor is told to be done at the end of its run but
  stays at the head of the list, and from then on the scheduler starts no graphics task at all.\<close>

theorem sp_only_task_blocks_graphics:
  assumes "curRSPTask sc = g" "g \<noteq> NULL" "gfxListHead sc = g" "doAudio sc = 0"
    "st_flags (sc_task sc g) AND OS_SC_TYPE_MASK \<in> {OS_SC_DP_DRAM, OS_SC_DP_XBUS}" "\<not> needs_dp (sc_task sc g)" "\<not> yielding (sc_task sc g)"
    "scMain e (RspDone spstat st) sc = Some sc'"
  shows "done_msgs (sc_out sc') = done_msgs (sc_out sc) @ [(st_msgQ (sc_task sc g), st_msg (sc_task sc g))] \<and>
    gfxListHead sc' = g \<and> (\<forall>st. schedule_and_exec e st sc' = sc')"
proof -
  define s1 where "s1 = rsp_end spstat sc"
  have s1: "gfxListHead s1 = g" "doAudio s1 = 0" "st_flags (sc_task s1 g) = st_flags (sc_task sc g)"
    "\<not> needs_sp (sc_task s1 g)" "\<not> needs_dp (sc_task s1 g)"
    "sc_out s1 = sc_out sc @ [Send (st_msgQ (sc_task sc g)) (st_msg (sc_task sc g)) True]"
    using assms by (auto simp: s1_def rsp_end_def Let_def upd_task_def scTaskComplete_out bit_simps split: prod.split)
  have "st_flags (sc_task s1 g) AND OS_SC_TYPE_MASK \<noteq> OS_SC_XBUS" using assms(5) s1(3) by (auto simp: sc_flag_defs)
  then have "schedule_pass NULL NULL (rcp_state s1) s1 = (rcp_state s1, NULL, NULL, s1)"
    using s1 by (simp add: schedule_pass_def Let_def)
  then have n: "schedule_and_exec e st s1 = s1" for st by (rule schedule_nothing)
  then have "sc' = s1" using assms(8) by (simp add: scMain_def scHandleRSP_eq s1_def)
  then show ?thesis using s1 n by simp
qed

text \<open>of two audio tasks in one retrace only the first is started; the second is not started when the first
  has finished, as its flag is gone, and waits for the next audio task to arrive.\<close>

theorem second_audio_task_waits:
  assumes "curRSPTask sc = NULL" "audioListHead sc = NULL" "audioListTail sc = NULL" "gfxListHead sc = NULL"
    "a \<noteq> NULL" "b \<noteq> NULL" "a \<noteq> b" "is_audio (sc_task sc a)" "is_audio (sc_task sc b)"
    "scMain e (Video [a, b] st) sc = Some sc1" "scMain e (RspDone spstat st') sc1 = Some sc2"
  shows "curRSPTask sc1 = a \<and> curRSPTask sc2 = NULL \<and> audioListHead sc2 = b \<and> doAudio sc2 = 0"
proof -
  have ty: "tk_type (st_list (sc_task sc a)) = M_AUDTASK" "tk_type (st_list (sc_task sc b)) = M_AUDTASK"
    using assms(8,9) by (simp_all add: is_audio_def)
  define s0 where "s0 = fold scAppendList [a, b] (sc\<lparr>frameCount := frameCount sc + 1\<rparr>)"
  have s0: "audioListHead s0 = a" "doAudio s0 = 1" "gfxListHead s0 = NULL" "curRSPTask s0 = NULL" "curRDPTask s0 = curRDPTask sc"
    "st_next (sc_task s0 a) = b"
    using assms(1-7) ty by (simp_all add: s0_def scAppendList_def sc_type_def upd_task_def Let_def)
  let ?s = "pop_audio (s0\<lparr>doAudio := 0\<rparr>)"
  have p: "?s = s0\<lparr>doAudio := 0, audioListHead := b\<rparr>" using s0 assms(6) by (simp add: pop_audio_def Let_def)
  have "schedule_pass NULL NULL (rcp_state s0) s0 = (rcp False (curRDPTask sc = NULL), a, NULL, ?s)"
    using s0 by (simp add: schedule_pass_def rcp_state)
  moreover have "schedule_pass a NULL (rcp False d) ?s = (rcp False d, a, NULL, ?s)" for d
    using s0(3) by (simp add: schedule_pass_def Let_def p scTaskReady_def)
  ultimately have x: "schedule_and_exec e st s0 = scExec e st a NULL ?s"
    using s0 by (simp add: schedule_and_exec_def Let_def scSchedule.simps [of NULL] scSchedule.simps [of a] rcp_state)
  obtain os where s1: "sc1 = sc_emit os (scExec e st a NULL ?s)"
    using assms(10) s0 unfolding scMain_def sc_event.case scHandleRetrace_def Let_def s0_def [symmetric] x [symmetric]
    by (auto split: Option.bind_splits)
  then have f: "curRSPTask sc1 = a" "audioListHead sc1 = b" "doAudio sc1 = 0" "gfxListHead sc1 = NULL"
    "\<not> yielding (sc_task sc1 a)"
    using s0(3) assms(5) p restarted(4) [of e "sc_task s0 a"] by (simp_all add: sc_emit_def scExec_fields)
  define s2 where "s2 = rsp_end spstat sc1"
  have r: "gfxListHead s2 = NULL" "doAudio s2 = 0" "audioListHead s2 = b" "curRSPTask s2 = NULL"
    using f rsp_end_lists [of spstat sc1] by (auto simp: s2_def rsp_end_def Let_def upd_task_def split: prod.split)
  then have "schedule_and_exec e st' s2 = s2"
    by (intro schedule_nothing) (simp add: schedule_pass_def scTaskReady_def)
  then show ?thesis using assms(11) f r by (simp add: scMain_def scHandleRSP_eq s2_def)
qed

subsection \<open>A run\<close>

text \<open>A graphics task at 256 and audio tasks everywhere else.\<close>

definition sample_env :: sc_env where
  "sample_env = \<lparr>se_pt = id, se_read = (\<lambda>_. 0), se_size = (\<lambda>_. 0), se_interruptQ = 16, se_retraceMsg = 1, se_prenmiMsg = 2\<rparr>"

definition sample_task :: "u32 \<Rightarrow> u32 \<Rightarrow> u32 \<Rightarrow> OSScTask" where
  "sample_task ty flags m = \<lparr>st_next = 0, st_state = 0, st_flags = flags, st_framebuffer = 0x80300000,
     st_list = \<lparr>tk_type = ty, tk_flags = 0, ucode_boot = 0, ucode_boot_size = 0, ucode = 0, ucode_size = 0,
       ucode_data = 0, ucode_data_size = 0, dram_stack = 0, dram_stack_size = 0, output_buff = 0, output_buff_size = 0,
       data_ptr = 0, data_size = 0, yield_data_ptr = 0, yield_data_size = 0\<rparr>, st_msgQ = 32, st_msg = m\<rparr>"

definition sample_sched :: OSSched where
  "sample_sched =
     \<lparr>sc_task = (\<lambda>t. if t = 256 then sample_task M_GFXTASK 0x63 5 else sample_task M_AUDTASK 2 6),
      sc_client = (\<lambda>_. \<lparr>cl_next = 0, cl_msgQ = 0\<rparr>), clientList = 0, audioListHead = 0, gfxListHead = 0, audioListTail = 0,
      gfxListTail = 0, curRSPTask = 0, curRDPTask = 0, frameCount = 0, doAudio = 0, firsttime = True, sc_vi = sample_vi, sc_out = []\<rparr>"

lemma sample_ready: "osViGetCurrentFramebuffer (sc_vi (osCreateScheduler sample_env 8 1 sample_sched)) =
  osViGetNextFramebuffer (sc_vi (osCreateScheduler sample_env 8 1 sample_sched))"
  by code_simp

lemma sample_event: "event_ok sample_sched (Video [256] st)" "event_ok sample_sched (Video [512] st)"
  by (simp_all add: sample_sched_def sample_task_def new_task_def is_audio_def is_xbus_def sc_flag_defs
      M_GFXTASK_def M_AUDTASK_def)

definition sample_start :: OSSched where
  "sample_start = osCreateScheduler sample_env 8 1 sample_sched"

definition sample_turn :: "sc_event \<Rightarrow> OSSched \<Rightarrow> OSSched" where
  "sample_turn ev sc = the (scMain sample_env ev sc)"

lemma sample_start:
  "rcp_inv sample_start {}" "clients sample_start []" "event_ok sample_start (Video [512] 0)"
  "osViGetCurrentFramebuffer (sc_vi sample_start) = osViGetNextFramebuffer (sc_vi sample_start)"
  "turn_assert (Video [512] 0) sample_start"
proof -
  have "doAudio sample_sched = 0" by (simp add: sample_sched_def)
  then show "rcp_inv sample_start {}" unfolding sample_start_def by (rule created_inv)
  show "turn_assert (Video [512] 0) sample_start"
    by code_simp
qed (use sample_event sample_ready in \<open>simp_all add: sample_start_def osCreateScheduler_def clients_def\<close>)

lemma sample_turn:
  "scMain sample_env (Video [512] 0) sample_start = Some (sample_turn (Video [512] 0) sample_start)"
  "sc_vi (sample_turn (Video [512] 0) sample_start) = sc_vi sample_start"
  using scMain_users [OF sample_start(2), of sample_env "Video [512] 0"] by (auto simp: sample_turn_def)




lemma bit_3: "bit (3 :: u32) 0" "bit (3 :: u32) 1"
  by simp_all



definition two_clients :: OSSched where
  "two_clients = osScAddClient 80 64 (osScAddClient 96 72 sample_start)"

lemma two_clients: "clients two_clients [80, 96]"
  by (simp add: two_clients_def clients_def osScAddClient_def sample_start_def osCreateScheduler_def)


theorem osScRemoveClient_removes_witness:
  "\<exists>sc'. osScRemoveClient 96 two_clients = Some sc' \<and> clients sc' [80]"
  using osScRemoveClient_removes [OF two_clients, of 96] by simp

theorem sp_only_task_blocks_graphics_witness:
  "\<exists>sc'. scMain sample_env (RspDone 0 0) (sample_sched\<lparr>curRSPTask := 256, gfxListHead := 256,
       sc_task := (\<lambda>_. (sample_task M_GFXTASK OS_SC_DP_DRAM 5)\<lparr>st_state := 2\<rparr>)\<rparr>) = Some sc' \<and>
     done_msgs (sc_out sc') = [(32, 5)] \<and> gfxListHead sc' = 256 \<and> (\<forall>st. schedule_and_exec sample_env st sc' = sc')"
proof -
  let ?s = "sample_sched\<lparr>curRSPTask := 256, gfxListHead := 256,
    sc_task := (\<lambda>_. (sample_task M_GFXTASK OS_SC_DP_DRAM 5)\<lparr>st_state := 2\<rparr>)\<rparr>"
  have m: "scMain sample_env (RspDone 0 0) ?s = Some (sample_turn (RspDone 0 0) ?s)"
    by (simp add: sample_turn_def scMain_def)
  then show ?thesis using sp_only_task_blocks_graphics [OF _ _ _ _ _ _ _ m, of 256]
    by (simp add: sample_task_def sample_sched_def sc_flag_defs)
qed

theorem second_audio_task_waits_witness:
  "\<exists>sc1 sc2. scMain sample_env (Video [512, 768] 0) sample_sched = Some sc1 \<and>
     scMain sample_env (RspDone 0 0) sc1 = Some sc2 \<and> curRSPTask sc1 = 512 \<and> curRSPTask sc2 = NULL \<and> audioListHead sc2 = 768"
proof -
  have "clients sample_sched []" by (simp add: clients_def sample_sched_def)
  then obtain sc1 where 1: "scMain sample_env (Video [512, 768] 0) sample_sched = Some sc1"
    using scMain_users [of sample_sched "[]" sample_env "Video [512, 768] 0"] by blast
  moreover obtain sc2 where 2: "scMain sample_env (RspDone 0 0) sc1 = Some sc2" by (simp add: scMain_def)
  moreover have "curRSPTask sc1 = 512 \<and> curRSPTask sc2 = NULL \<and> audioListHead sc2 = 768 \<and> doAudio sc2 = 0"
    by (rule second_audio_task_waits [OF _ _ _ _ _ _ _ _ _ 1 2])
      (simp_all add: sample_sched_def sample_task_def is_audio_def sc_flag_defs M_AUDTASK_def)
  ultimately show ?thesis by blast
qed

end
