(* ===== verification/Spec2Isabelle.thy ===== *)
theory Spec2Isabelle
  imports Threads Mesg Registry Pad StackCheck LoadFragment2 SaveFile Xprintf Fault ViMode Sleep GfxPrint Matrix Math64 Boot PfsNew SchedRun
begin

text \<open>
  A model of the main segment of Yoshi's Story (\<^verbatim>\<open>src/main\<close>, as far as it exists as C) and of
  the part of the operating system library it is built on (\<^verbatim>\<open>lib/ultralib\<close>), in the configuration of
  the build: version I of the library, final rom, the first microcode, big endian.

  \<^bold>\<open>How the program is put together.\<close>  \<^verbatim>\<open>bootproc\<close> initialises the library, clears the memory and
  starts the idle thread, which creates the video manager and the peripheral interface manager and
  starts the main thread.  The threads work on each other only through message queues.  A request for
  data goes to the DMA manager, whose thread cuts it in pieces for the PI manager and expands packed
  files; overlays are loaded through it and then relocated.  The save file goes through the EEPROM
  manager, which keeps a cache of the chip and talks to it with the command images of the serial
  interface.  The video manager shows at every retrace what the calls since the last one prepared; the
  video mode of the game is computed and put in place through it.  The fault manager waits for a crash,
  stops the video output of the game and shows its panels, which it prints with the formatter of the
  library.  Text on the screen of the game is printed by a second client of the same formatter, as
  commands for the display processor.

  \<^bold>\<open>Theories, in the order in which they build on each other.\<close>
    \<^item> \<^verbatim>\<open>Prelude\<close>: the C types as words, the flat memory of bytes with loads and stores, C division
      and shifts, and the collections of rewrite rules the other theories share.
    \<^item> \<^verbatim>\<open>Threads\<close>: \<^verbatim>\<open>lib/ultralib/src/os\<close>, thread queues linked through the threads, ready queue, running
      thread, priorities.  \<^verbatim>\<open>Mesg\<close>: message queues on top of them; the locale \<open>fifo\<close> is the contract of
      the ring, interpreted on the ring of the code.
    \<^item> \<^verbatim>\<open>Registry\<close> (\<^verbatim>\<open>7EFD0.c\<close>), \<^verbatim>\<open>Pad\<close> (\<^verbatim>\<open>O2/pad.c\<close>, \<^verbatim>\<open>O2/padsetup.c\<close>), \<^verbatim>\<open>StackCheck\<close> (\<^verbatim>\<open>O2/stackcheck.c\<close>): small
      components, each a record for its static variables and one definition for every function.
    \<^item> \<^verbatim>\<open>DmaMgr\<close> (\<^verbatim>\<open>dmamgr.c\<close>, \<^verbatim>\<open>pidma.c\<close>, \<^verbatim>\<open>devmgr.c\<close>): client, DMA thread and PI manager as an inductive
      step relation on one state; \<^verbatim>\<open>LoadFragment2\<close> (\<^verbatim>\<open>O2/loadfragment2.c\<close>): overlays, over the bytes of memory.
    \<^item> \<^verbatim>\<open>Joybus\<close>: what the devices behind the serial interface read and answer, byte by byte; the promises about them
      are stated with it and with none of the functions that make the images.
    \<^item> \<^verbatim>\<open>Eeprom\<close> (\<^verbatim>\<open>conteepread.c\<close>, \<^verbatim>\<open>conteepwrite.c\<close>, \<^verbatim>\<open>conteepprobe.c\<close>): one block over the serial interface;
      \<^verbatim>\<open>Eepmgr\<close> (\<^verbatim>\<open>eepmgr.c\<close>): requests, cache and transfers, with the locale \<open>block_device\<close> as what it needs of the chip;
      \<^verbatim>\<open>SaveFile\<close> (\<^verbatim>\<open>O2/65520.c\<close>): two copies with a checksum.  \<^verbatim>\<open>Crc\<close> (\<^verbatim>\<open>crc.c\<close>) and \<^verbatim>\<open>PakRam\<close> (\<^verbatim>\<open>contramread.c\<close>,
      \<^verbatim>\<open>contramwrite.c\<close>, \<^verbatim>\<open>pfsgetstatus.c\<close>): the checksums of the controller pak and the access to its blocks.
    \<^item> \<^verbatim>\<open>Pfs\<close> (\<^verbatim>\<open>contpfs.c\<close>, \<^verbatim>\<open>pfs*.c\<close>): the file system of the controller pak on these blocks; \<^verbatim>\<open>PfsFiles\<close> and
      \<^verbatim>\<open>PfsNew\<close>: what its operations promise on a mounted pak that works.
    \<^item> \<^verbatim>\<open>Xprintf\<close> (\<^verbatim>\<open>lib/ultralib/src/libc\<close>): the formatter with its output routine as a parameter; the
      locale \<open>print_sink\<close> is the contract of such a routine, interpreted for \<^verbatim>\<open>sprintf\<close>, for the crash screen
      and for the text printer.
    \<^item> \<^verbatim>\<open>FaultScreen\<close>, \<^verbatim>\<open>FaultInput\<close>, \<^verbatim>\<open>Fault\<close> (\<^verbatim>\<open>fault.c\<close>): drawing in the frame buffer, the key combination over the
      samples of the controller, the panels and the thread of the manager.
    \<^item> \<^verbatim>\<open>ViTables\<close> (\<^verbatim>\<open>lib/ultralib/src/vimodes\<close>, \<^verbatim>\<open>vitbl.c\<close>), \<^verbatim>\<open>Vi\<close> (\<^verbatim>\<open>vi*.c\<close>, \<^verbatim>\<open>gettime.c\<close>), \<^verbatim>\<open>ViMode\<close> (\<^verbatim>\<open>vimode.c\<close>): the standard
      modes, the two contexts and their swap, the clock, and the mode the game computes.
    \<^item> \<^verbatim>\<open>Timer\<close> (\<^verbatim>\<open>timerintr.c\<close>, \<^verbatim>\<open>settimer.c\<close>, \<^verbatim>\<open>stoptimer.c\<close>): the list of timers; \<^verbatim>\<open>Sleep\<close> (\<^verbatim>\<open>O2/sleep.c\<close>): a thread that blocks
      on a queue until the timer's message, over \<^verbatim>\<open>Threads\<close>, \<^verbatim>\<open>Mesg\<close> and \<^verbatim>\<open>Timer\<close>.
    \<^item> \<^verbatim>\<open>Gbi\<close> (\<^verbatim>\<open>PR/gbi.h\<close>) and \<^verbatim>\<open>GfxPrint\<close> (\<^verbatim>\<open>O2/gfxprint.c\<close>, \<^verbatim>\<open>O2/aprintf.c\<close>): the commands of the display processor and
      the printer that writes them.
    \<^item> \<^verbatim>\<open>F32\<close>: values of the type \<^verbatim>\<open>float\<close> with the rounding of the machine; \<^verbatim>\<open>Matrix\<close> (\<^verbatim>\<open>O2/80C50.c\<close>, \<^verbatim>\<open>O2/808F0.c\<close>,
      \<^verbatim>\<open>O2/mtxuty-cvt.c\<close>, \<^verbatim>\<open>gu/mtxutil.c\<close>) and \<^verbatim>\<open>Math64\<close> (\<^verbatim>\<open>O2/math64.c\<close>) over them.
    \<^item> \<^verbatim>\<open>Sched\<close> (\<^verbatim>\<open>sched.c\<close>, \<^verbatim>\<open>sptask*.c\<close>, \<^verbatim>\<open>dpsetnextbuf.c\<close>): the scheduler of the graphics and audio tasks, a turn for
      every message, with its invariant; \<^verbatim>\<open>SchedRun\<close>: its runs over the video manager of \<^verbatim>\<open>Vi\<close>.
    \<^item> \<^verbatim>\<open>Boot\<close> (\<^verbatim>\<open>O2/65520.c\<close>, \<^verbatim>\<open>O2/70100.c\<close>, \<^verbatim>\<open>initialize.c\<close>, \<^verbatim>\<open>vimgr.c\<close>, \<^verbatim>\<open>pimgr.c\<close>): the start, as steps of whichever thread runs;
      it uses the operations of \<^verbatim>\<open>Threads\<close>, \<^verbatim>\<open>Mesg\<close>, \<^verbatim>\<open>StackCheck\<close> and \<^verbatim>\<open>Vi\<close> as they are.

  \<^bold>\<open>How state and operations correspond.\<close>  Static variables of a file are the fields of one record; a
  function of the file is the definition of the same name (without leading underscores), which takes and
  returns the record.  Loops and inner blocks that are definitions of their own are named after their
  function.  Pointers stay addresses where the code links or aliases objects (threads, timers, stack
  entries, video contexts and modes) and bytes where it computes on memory (relocation, save file, frame
  buffer, display lists).  Errors are the values the code returns; a blocking call that does not return
  parks its thread; \<^const>\<open>None\<close> stands for a loop that never ends.

  \<^bold>\<open>What the lemmas show.\<close>  Each theory has a well-formedness predicate or an abstraction (thread queues as
  lists, rings as lists, the cache as the contents of the chip, the two contexts as the picture shown and the
  picture prepared, the list of timers as deadlines, a display list as glyphs at places) and shows that
  every operation preserves it and does on the abstraction what it promises.  On these rest the
  properties: data arrives as it is on the cartridge, relocated code refers to where it was moved, an
  interrupted save loses nothing, a message is received once and in order, the highest priority runs, the
  crash screen opens after and only after the combination, a retrace shows what was asked for, a sleeper
  wakes in time, a task for the processors is served once and audio before graphics, printed numbers read back, special transformations are products of matrices, damage of a
  block is found, a file of the pak is read as it was written, and the machine reaches the main thread.  Properties that show a defect say so in their text.

  \<^bold>\<open>Bounds and fuel.\<close>  Loops are recursions with a measure, except those that may not end (waiting for the chip,
  the tabulator of the text printer, queues and client lists whose links form a cycle): these are partial functions with \<^const>\<open>None\<close> for
  not returning, and the properties show that they return.  The step relations need no fuel: the
  properties exhibit the steps.  The retries of the pak are at most four turns; the start takes twelve
  steps of the running threads to the main thread.  The passes of the scheduler end because each one but the
  last takes a processor.

  \<^bold>\<open>Not modelled.\<close>
    \<^item> Functions that the repository has as assembly only (most of \<^verbatim>\<open>O2/65520.c\<close>, the allocator, the decompressor, the
      checksum of the save file, \<^verbatim>\<open>sinf\<close>, \<^verbatim>\<open>cosf\<close>, \<^verbatim>\<open>sqrtf\<close>): arguments of the definitions that call them,
      with what is relied on as hypotheses.
    \<^item> \<^verbatim>\<open>O2/65430.c\<close> and \<^verbatim>\<open>7D140.c\<close>, which only pass arguments on to such functions.
    \<^item> The devices and the processors behind the registers: parameters, or events of a step relation.  The register
      context of a thread and the interrupt mask, so every operation of the library is one step.
    \<^item> Output to the debug console (\<^verbatim>\<open>Fault_Log...\<close>, \<^verbatim>\<open>osSyncPrintf\<close>), which this build does not have.
    \<^item> Overflow, subnormal numbers, infinities and signed zeros of the type \<^verbatim>\<open>float\<close>.
    \<^item> Of the file system of the controller pak, \<^verbatim>\<open>pfsisplug.c\<close> and the dumps for debugging.
    \<^item> The parts of the library no modelled code uses: audio, sprites,
      the rest of the graphics utilities and of \<^verbatim>\<open>gbi.h\<close>, accessories, flash memory, debugging; and the tools of the build.
\<close>

end
